(* ===== verification/Prelude.thy ===== *)
theory Prelude
  imports Main "HOL-Library.AList" "HOL-Library.Char_ord"
begin

text \<open>
  The Python values, strings and errors the DuckClaw write path computes with.

  A Python \<open>str\<close> is a HOL \<open>string\<close>: a list of characters, one per code point, restricted to the
  code points below 256. \<open>str.strip\<close>, \<open>str.lower\<close>, slicing and \<open>str.startswith\<close> are written out for
  exactly that range. A decoded JSON payload is a \<open>pyval\<close>; JSON fractions are left out (no modelled
  handler reads one). Every exception of the source is a value of \<open>py_error\<close>, and an operation that
  may raise returns \<open>py_error + 'a\<close>.
\<close>

named_theorems py_simps \<open>unfolding rules of the Python-value helpers\<close>
named_theorems tbl_simps \<open>rules about SQL tables\<close>

subsection \<open>Errors\<close>

datatype py_error =
    ValueError string
  | KeyError string
  | TypeError string
  | RuntimeError string
  | AttributeError string
  | FileNotFoundError string
  | ConstraintError string
  | ConversionError string
  | CatalogError string

text \<open>Sequencing of operations that may raise: the first exception wins.\<close>

definition bindE :: "py_error + 'a \<Rightarrow> ('a \<Rightarrow> py_error + 'b) \<Rightarrow> py_error + 'b" where
  "bindE m k = (case m of Inl e \<Rightarrow> Inl e | Inr x \<Rightarrow> k x)"

lemma bindE_simps [simp]:
  "bindE (Inl e) k = Inl e"
  "bindE (Inr x) k = k x"
  by (simp_all add: bindE_def)

lemma bindE_Inr_iff [simp]: "bindE m k = Inr y \<longleftrightarrow> (\<exists>x. m = Inr x \<and> k x = Inr y)"
  by (cases m) auto

lemma bindE_InrE [elim!]:
  assumes "bindE m k = Inr y"
  obtains x where "m = Inr x" and "k x = Inr y"
  using assms by (cases m) auto

lemma bindE_assoc: "bindE (bindE m f) g = bindE m (\<lambda>x. bindE (f x) g)"
  by (cases m) auto

text \<open>A loop over a list whose body may raise (\<open>for x in xs: s = body(x, s)\<close>).\<close>

fun forE :: "('a \<Rightarrow> 's \<Rightarrow> py_error + 's) \<Rightarrow> 'a list \<Rightarrow> 's \<Rightarrow> py_error + 's" where
  "forE f [] s = Inr s"
| "forE f (x # xs) s = bindE (f x s) (forE f xs)"

lemma forE_invariant:
  assumes "\<And>x s s'. x \<in> set xs \<Longrightarrow> P s \<Longrightarrow> f x s = Inr s' \<Longrightarrow> P s'"
    and "P s" and "forE f xs s = Inr s'"
  shows "P s'"
  using assms
proof (induction xs arbitrary: s)
  case Nil
  then show ?case by simp
next
  case (Cons x xs)
  from Cons.prems(3) obtain t where t: "f x s = Inr t" and rest: "forE f xs t = Inr s'"
    by auto
  have "P t" using Cons.prems(1) [of x s t] Cons.prems(2) t by simp
  show ?case
  proof (rule Cons.IH [OF _ \<open>P t\<close> rest])
    fix y u u'
    assume "y \<in> set xs" "P u" "f y u = Inr u'"
    then show "P u'" using Cons.prems(1) [of y u u'] by simp
  qed
qed

lemma filter_Cons_mem: "filter P xs = y # ys \<Longrightarrow> y \<in> set xs"
  by (metis list.set_intros(1) filter_is_subset subsetD)

subsection \<open>Characters and strings\<close>

abbreviation code :: "char \<Rightarrow> nat" where
  "code c \<equiv> of_char c"

definition is_space :: "char \<Rightarrow> bool" where
  "is_space c \<longleftrightarrow> (let n = code c in
     9 \<le> n \<and> n \<le> 13 \<or> 28 \<le> n \<and> n \<le> 32 \<or> n = 133 \<or> n = 160)"

definition is_digit :: "char \<Rightarrow> bool" where
  "is_digit c \<longleftrightarrow> 48 \<le> code c \<and> code c \<le> 57"

definition is_alpha_ascii :: "char \<Rightarrow> bool" where
  "is_alpha_ascii c \<longleftrightarrow> 65 \<le> code c \<and> code c \<le> 90 \<or> 97 \<le> code c \<and> code c \<le> 122"

definition lower_char :: "char \<Rightarrow> char" where
  "lower_char c = (let n = code c in
     if 65 \<le> n \<and> n \<le> 90 \<or> 192 \<le> n \<and> n \<le> 214 \<or> 216 \<le> n \<and> n \<le> 222
     then char_of (n + 32) else c)"

definition upper_char :: "char \<Rightarrow> string" where
  "upper_char c = (let n = code c in
     if 97 \<le> n \<and> n \<le> 122 \<or> 224 \<le> n \<and> n \<le> 246 \<or> 248 \<le> n \<and> n \<le> 254
     then [char_of (n - 32)]
     else if n = 223 then ''SS'' else [c])"

definition lower :: "string \<Rightarrow> string" where
  "lower s = map lower_char s"

definition upper :: "string \<Rightarrow> string" where
  "upper s = concat (map upper_char s)"

definition lstrip :: "string \<Rightarrow> string" where
  "lstrip s = dropWhile is_space s"

definition rstrip :: "string \<Rightarrow> string" where
  "rstrip s = rev (dropWhile is_space (rev s))"

definition strip :: "string \<Rightarrow> string" where
  "strip s = rstrip (lstrip s)"

text \<open>\<open>s.strip(chars)\<close> and \<open>s.lstrip(chars)\<close> with an explicit character set.\<close>

definition lstrip_chars :: "string \<Rightarrow> string \<Rightarrow> string" where
  "lstrip_chars cs s = dropWhile (\<lambda>c. c \<in> set cs) s"

definition strip_chars :: "string \<Rightarrow> string \<Rightarrow> string" where
  "strip_chars cs s = rev (lstrip_chars cs (rev (lstrip_chars cs s)))"

definition startswith :: "string \<Rightarrow> string \<Rightarrow> bool" where
  "startswith p s \<longleftrightarrow> take (length p) s = p"

definition endswith :: "string \<Rightarrow> string \<Rightarrow> bool" where
  "endswith p s \<longleftrightarrow> length p \<le> length s \<and> drop (length s - length p) s = p"

fun contains :: "string \<Rightarrow> string \<Rightarrow> bool" where
  "contains p [] = (p = [])"
| "contains p (c # cs) = (startswith p (c # cs) \<or> contains p cs)"

lemma startswith_append [simp]: "startswith p (p @ s)"
  by (simp add: startswith_def)

lemma contains_prefix: "startswith p s \<Longrightarrow> contains p s"
  by (cases s) (auto simp: startswith_def)

lemma contains_append_left: "contains p s \<Longrightarrow> contains p (a @ s)"
  by (induction a) auto

lemma startswith_appendI: "startswith p s \<Longrightarrow> startswith p (s @ b)"
  by (auto simp: startswith_def take_append dest!: arg_cong [where f = length])

lemma contains_append_right: "contains p s \<Longrightarrow> contains p (s @ b)"
proof (induction s)
  case Nil
  then show ?case by (simp add: contains_prefix startswith_def)
next
  case (Cons c s)
  then show ?case using startswith_appendI [of p "c # s" b] by auto
qed

lemma contains_self [simp]: "contains p p"
  by (simp add: contains_prefix startswith_def)

definition replace_char :: "char \<Rightarrow> string \<Rightarrow> string \<Rightarrow> string" where
  "replace_char a r s = concat (map (\<lambda>c. if c = a then r else [c]) s)"

fun split_char :: "char \<Rightarrow> string \<Rightarrow> string list" where
  "split_char a [] = [[]]"
| "split_char a (c # cs) =
     (if c = a then [] # split_char a cs
      else (case split_char a cs of [] \<Rightarrow> [[c]] | w # ws \<Rightarrow> (c # w) # ws))"

fun join :: "string \<Rightarrow> string list \<Rightarrow> string" where
  "join sep [] = []"
| "join sep [w] = w"
| "join sep (w # ws) = w @ sep @ join sep ws"

lemma contains_join: "w \<in> set ws \<Longrightarrow> contains p w \<Longrightarrow> contains p (join sep ws)"
  by (induction sep ws rule: join.induct)
    (auto intro: contains_append_left contains_append_right)

text \<open>The idiom \<open>s or d\<close> on strings.\<close>

definition str_or :: "string \<Rightarrow> string \<Rightarrow> string" where
  "str_or s d = (if s = [] then d else s)"

lemma str_or_nonempty [simp]: "d \<noteq> [] \<Longrightarrow> str_or s d \<noteq> []"
  by (simp add: str_or_def)

lemma str_or_nonempty_id [simp]: "s \<noteq> [] \<Longrightarrow> str_or s d = s"
  by (simp add: str_or_def)

lemma str_or_Nil [simp]: "str_or [] d = d"
  by (simp add: str_or_def)

lemma length_lower [simp]: "length (lower s) = length s"
  by (simp add: lower_def)

lemma lower_Nil [simp]: "lower [] = []" "lower s = [] \<longleftrightarrow> s = []"
  by (simp_all add: lower_def)

lemma strip_Nil [simp]: "strip [] = []"
  by (simp add: strip_def lstrip_def rstrip_def)

lemma code_lower_char:
  "code (lower_char c) = (let n = code c in
     if 65 \<le> n \<and> n \<le> 90 \<or> 192 \<le> n \<and> n \<le> 214 \<or> 216 \<le> n \<and> n \<le> 222 then n + 32 else n)"
  by (auto simp: lower_char_def Let_def)

lemma lower_char_idem [simp]: "lower_char (lower_char c) = lower_char c"
  unfolding lower_char_def [of "lower_char c"] code_lower_char Let_def
  by (auto simp: Let_def)

lemma lower_idem [simp]: "lower (lower s) = lower s"
  by (simp add: lower_def)

lemma is_space_lower_char [simp]: "is_space (lower_char c) = is_space c"
  unfolding is_space_def code_lower_char Let_def by auto

lemma lstrip_lower: "lstrip (lower s) = lower (lstrip s)"
  by (simp add: lstrip_def lower_def dropWhile_map comp_def)

lemma rstrip_lower: "rstrip (lower s) = lower (rstrip s)"
  by (simp add: rstrip_def lower_def rev_map dropWhile_map comp_def)

lemma strip_lower: "strip (lower s) = lower (strip s)"
  by (simp add: strip_def lstrip_lower rstrip_lower)

lemma lstrip_lstrip [simp]: "lstrip (lstrip s) = lstrip s"
  by (simp add: lstrip_def dropWhile_idem)

lemma rstrip_rstrip [simp]: "rstrip (rstrip s) = rstrip s"
  by (simp add: rstrip_def dropWhile_idem)

lemma lstrip_rstrip: "lstrip s = s \<Longrightarrow> lstrip (rstrip s) = rstrip s"
proof -
  assume s: "lstrip s = s"
  obtain ws where ws: "s = rstrip s @ ws"
    unfolding rstrip_def
    by (metis rev_append rev_rev_ident takeWhile_dropWhile_id)
  show ?thesis
  proof (cases "rstrip s")
    case Nil
    then show ?thesis by (simp add: lstrip_def)
  next
    case (Cons c cs)
    then have "hd s = c" using ws by (metis append_Cons list.sel(1))
    moreover have "s \<noteq> []" using ws Cons by auto
    ultimately have "\<not> is_space c"
      using s unfolding lstrip_def by (metis hd_dropWhile)
    then show ?thesis using Cons by (simp add: lstrip_def)
  qed
qed

lemma strip_idem [simp]: "strip (strip s) = strip s"
  by (simp add: strip_def lstrip_rstrip)

lemma stripped_ends:
  assumes "strip p = p" "p \<noteq> []"
  shows "\<not> is_space (hd p)" "\<not> is_space (last p)"
proof -
  have r: "rstrip p = p" using assms(1) by (metis rstrip_rstrip strip_def)
  have l: "lstrip p = p"
    using assms(1) lstrip_rstrip [of "lstrip p"] by (metis lstrip_lstrip strip_def)
  show "\<not> is_space (hd p)" using hd_dropWhile [of is_space p] l assms(2) unfolding lstrip_def by metis
  have "dropWhile is_space (rev p) = rev p" using r by (metis rev_rev_ident rstrip_def)
  then show "\<not> is_space (last p)" using hd_dropWhile [of is_space "rev p"] assms(2) by (simp add: hd_rev)
qed

text \<open>A text without spaces at its ends: stripping single characters that are blanks keeps it.\<close>

lemma strip_chars_keeps:
  assumes "strip s = s" "\<And>c. c \<in> set cs \<Longrightarrow> is_space c"
  shows "strip_chars cs s = s"
proof (cases "s = []")
  case False
  from stripped_ends [OF assms(1) False] have e: "hd s \<notin> set cs" "last s \<notin> set cs" using assms(2) by blast+
  have "lstrip_chars cs s = s" using e(1) False by (cases s) (simp_all add: lstrip_chars_def)
  moreover have "lstrip_chars cs (rev s) = rev s" using e(2) False by (cases s rule: rev_cases) (simp_all add: lstrip_chars_def)
  ultimately show ?thesis by (simp add: strip_chars_def)
qed (simp add: strip_chars_def lstrip_chars_def)

lemma canonical_lower:
  assumes "lower (strip s) = s"
  shows "strip s = s" "lower s = s"
proof -
  have "strip (lower (strip s)) = lower (strip s)" by (simp add: strip_lower)
  then show "strip s = s" using assms by simp
  then show "lower s = s" using assms by simp
qed

lemma set_strip: "set (strip s) \<subseteq> set s"
  by (auto simp: strip_def rstrip_def lstrip_def dest!: set_dropWhileD)

lemma length_strip_le: "length (strip s) \<le> length s"
  unfolding strip_def lstrip_def rstrip_def
  by (simp add: length_dropWhile_le) (metis le_trans length_dropWhile_le length_rev)

subsection \<open>Decimal numerals\<close>

definition digit_char :: "nat \<Rightarrow> char" where
  "digit_char d = char_of (48 + d)"

fun nat_str :: "nat \<Rightarrow> string" where
  "nat_str n = (if n < 10 then [digit_char n] else nat_str (n div 10) @ [digit_char (n mod 10)])"

declare nat_str.simps [simp del]

definition int_str :: "int \<Rightarrow> string" where
  "int_str n = (if n < 0 then ''-'' @ nat_str (nat (- n)) else nat_str (nat n))"

text \<open>\<open>int(s)\<close>: surrounding blanks, an optional sign, digits with single underscores between them.\<close>

fun digits_val :: "nat \<Rightarrow> bool \<Rightarrow> string \<Rightarrow> nat option" where
  "digits_val acc ok [] = (if ok then Some acc else None)"
| "digits_val acc ok (c # cs) =
     (if is_digit c then digits_val (10 * acc + (code c - 48)) True cs
      else if c = CHR ''_'' \<and> ok then digits_val acc False cs
      else None)"

definition parse_int :: "string \<Rightarrow> int option" where
  "parse_int s = (case strip s of
       [] \<Rightarrow> None
     | c # cs \<Rightarrow>
         if c = CHR ''-'' then map_option (\<lambda>n. - int n) (digits_val 0 False cs)
         else if c = CHR ''+'' then map_option int (digits_val 0 False cs)
         else map_option int (digits_val 0 False (c # cs)))"

lemma nat_str_nonempty [simp]: "nat_str n \<noteq> []"
  by (subst nat_str.simps) simp

lemma code_digit_char: "d < 10 \<Longrightarrow> code (digit_char d) = 48 + d"
  by (simp add: digit_char_def)

lemma is_digit_digit_char: "d < 10 \<Longrightarrow> is_digit (digit_char d)"
  by (simp add: is_digit_def code_digit_char)

lemma nat_str_digits: "\<forall>c \<in> set (nat_str n). is_digit c"
proof (induction n rule: nat_str.induct)
  case (1 n)
  then show ?case
    by (cases "n < 10") (auto simp: nat_str.simps [of n] is_digit_digit_char)
qed

lemma digits_val_append_True:
  "\<forall>c \<in> set xs. is_digit c \<Longrightarrow>
   digits_val acc True (xs @ ys) = digits_val (foldl (\<lambda>a c. 10 * a + (code c - 48)) acc xs) True ys"
  by (induction xs arbitrary: acc) auto

lemma digits_val_append:
  "\<forall>c \<in> set xs. is_digit c \<Longrightarrow> xs \<noteq> [] \<Longrightarrow>
   digits_val acc ok (xs @ ys) = digits_val (foldl (\<lambda>a c. 10 * a + (code c - 48)) acc xs) True ys"
  by (cases xs) (simp_all add: digits_val_append_True)

lemma foldl_nat_str: "foldl (\<lambda>a c. 10 * a + (code c - 48)) 0 (nat_str n) = n"
proof (induction n rule: nat_str.induct)
  case (1 n)
  show ?case
  proof (cases "n < 10")
    case True
    then show ?thesis by (simp add: nat_str.simps [of n] code_digit_char)
  next
    case False
    with 1 show ?thesis by (simp add: nat_str.simps [of n] code_digit_char)
  qed
qed

lemma digits_val_nat_str: "digits_val 0 False (nat_str n) = Some n"
  using digits_val_append [of "nat_str n" 0 False "[]"]
  by (simp add: nat_str_digits foldl_nat_str)

lemma nat_str_inj: "nat_str m = nat_str n \<Longrightarrow> m = n"
  by (metis foldl_nat_str)

lemma projr_eqI: "isl x = False \<Longrightarrow> projr x = v \<Longrightarrow> x = Inr v"
  by (cases x) auto

lemma fst_eqI: "fst x = v \<Longrightarrow> x = (v, snd x)"
  by (cases x) auto

lemma isl_InrE: "isl x = False \<Longrightarrow> (\<And>v. x = Inr v \<Longrightarrow> thesis) \<Longrightarrow> thesis"
  by (cases x) auto

lemma set_strip_chars: "set (strip_chars cs s) \<subseteq> set s"
  by (auto simp: strip_chars_def lstrip_chars_def dest!: set_dropWhileD)

lemma strip_no_space: "\<forall>c \<in> set s. \<not> is_space c \<Longrightarrow> strip s = s"
proof -
  assume a: "\<forall>c \<in> set s. \<not> is_space c"
  have d: "dropWhile is_space t = t" if "\<forall>c \<in> set t. \<not> is_space c" for t using that by (cases t) auto
  show ?thesis using d [of s] d [of "rev s"] a by (simp add: strip_def lstrip_def rstrip_def)
qed

lemma strip_ends: "s \<noteq> [] \<Longrightarrow> \<not> is_space (hd s) \<Longrightarrow> \<not> is_space (last s) \<Longrightarrow> strip s = s"
proof -
  assume s: "s \<noteq> []" "\<not> is_space (hd s)" "\<not> is_space (last s)"
  have "lstrip s = s" unfolding lstrip_def using s(1,2) by (cases s) auto
  moreover have "dropWhile is_space (rev s) = rev s" using s(1,3) by (cases s rule: rev_cases) auto
  ultimately show "strip s = s" by (simp add: strip_def rstrip_def)
qed

end
