(* ===== verification/PyVal.thy ===== *)
theory PyVal
  imports Prelude "HOL-Library.List_Lexorder"
begin

text \<open>
  Decoded JSON payloads as Python sees them, the conversions the handlers apply to them
  (\<open>str\<close>, \<open>int\<close>, \<open>bool\<close>, \<open>dict.get\<close>, the \<open>x or d\<close> idiom) and \<open>json.dumps\<close> with
  \<open>ensure_ascii=False\<close>.
\<close>

datatype pyval =
    PNone
  | PBool bool
  | PInt int
  | PStr string
  | PList "pyval list"
  | PDict "(string \<times> pyval) list"

type_synonym payload = "(string \<times> pyval) list"

subsection \<open>Dictionaries\<close>

text \<open>\<open>d.get(k, default)\<close>, \<open>d[k]\<close>, \<open>k in d\<close>, \<open>d[k] = v\<close> (insertion order is kept).\<close>

definition pget :: "payload \<Rightarrow> string \<Rightarrow> pyval \<Rightarrow> pyval" where
  "pget d k dflt = (case map_of d k of None \<Rightarrow> dflt | Some v \<Rightarrow> v)"

definition pitem :: "payload \<Rightarrow> string \<Rightarrow> py_error + pyval" where
  "pitem d k = (case map_of d k of None \<Rightarrow> Inl (KeyError k) | Some v \<Rightarrow> Inr v)"

definition phas :: "payload \<Rightarrow> string \<Rightarrow> bool" where
  "phas d k \<longleftrightarrow> map_of d k \<noteq> None"

definition pset :: "string \<Rightarrow> pyval \<Rightarrow> payload \<Rightarrow> payload" where
  "pset k v d = AList.update k v d"

lemma map_of_pset: "map_of (pset k v d) = (map_of d)(k \<mapsto> v)"
  by (simp add: pset_def update_conv')

lemma pget_pset [simp]: "pget (pset k v d) k' x = (if k' = k then v else pget d k' x)"
  by (simp add: pget_def map_of_pset)

lemma pitem_pset [simp]: "pitem (pset k v d) k' = (if k' = k then Inr v else pitem d k')"
  by (simp add: pitem_def map_of_pset)

lemma pget_Cons [simp]: "pget ((k', v) # d) k x = (if k = k' then v else pget d k x)"
  by (simp add: pget_def)

lemma pget_Nil [simp]: "pget [] k x = x"
  by (simp add: pget_def)

lemma pitem_Cons [simp]: "pitem ((k', v) # d) k = (if k = k' then Inr v else pitem d k)"
  by (simp add: pitem_def)

lemma pitem_Nil [simp]: "pitem [] k = Inl (KeyError k)"
  by (simp add: pitem_def)

text \<open>\<open>{**a, **b}\<close>.\<close>

definition dict_merge :: "payload \<Rightarrow> payload \<Rightarrow> payload" where
  "dict_merge a b = fold (\<lambda>(k, v) d. pset k v d) b a"

lemma map_of_dict_merge:
  "map_of b k = None \<Longrightarrow> map_of (dict_merge a b) k = map_of a k"
  unfolding dict_merge_def
  by (induction b arbitrary: a) (auto simp: map_of_pset split: if_splits)

subsection \<open>Truth, equality of types\<close>

fun truthy :: "pyval \<Rightarrow> bool" where
  "truthy PNone = False"
| "truthy (PBool b) = b"
| "truthy (PInt n) = (n \<noteq> 0)"
| "truthy (PStr s) = (s \<noteq> [])"
| "truthy (PList xs) = (xs \<noteq> [])"
| "truthy (PDict d) = (d \<noteq> [])"

text \<open>The idiom \<open>v or d\<close> on values.\<close>

definition por :: "pyval \<Rightarrow> pyval \<Rightarrow> pyval" where
  "por v d = (if truthy v then v else d)"

fun is_pdict :: "pyval \<Rightarrow> bool" where
  "is_pdict (PDict _) = True"
| "is_pdict _ = False"

fun is_plist :: "pyval \<Rightarrow> bool" where
  "is_plist (PList _) = True"
| "is_plist _ = False"

fun pdict_or_empty :: "pyval \<Rightarrow> payload" where
  "pdict_or_empty (PDict d) = d"
| "pdict_or_empty _ = []"

fun plist_or_empty :: "pyval \<Rightarrow> pyval list" where
  "plist_or_empty (PList xs) = xs"
| "plist_or_empty _ = []"

subsection \<open>\<open>str(v)\<close>\<close>

definition hex_digit :: "nat \<Rightarrow> char" where
  "hex_digit d = (if d < 10 then char_of (48 + d) else char_of (87 + d))"

definition hex2 :: "char \<Rightarrow> string" where
  "hex2 c = [hex_digit (code c div 16), hex_digit (code c mod 16)]"

text \<open>One character of \<open>repr(s)\<close>; \<open>q\<close> is the quote the literal is delimited by.\<close>

definition repr_char :: "char \<Rightarrow> char \<Rightarrow> string" where
  "repr_char q c = (let n = code c in
     if c = q \<or> n = 92 then [char_of (92::nat), c]
     else if n = 10 then [char_of (92::nat), CHR ''n'']
     else if n = 13 then [char_of (92::nat), CHR ''r'']
     else if n = 9 then [char_of (92::nat), CHR ''t'']
     else if n < 32 \<or> 127 \<le> n \<and> n \<le> 160 \<or> n = 173 then [char_of (92::nat), CHR ''x''] @ hex2 c
     else [c])"

definition repr_str :: "string \<Rightarrow> string" where
  "repr_str s = (let q = (if CHR 39 \<in> set s \<and> CHR 34 \<notin> set s then CHR 34 else CHR 39)
     in [q] @ concat (map (repr_char q) s) @ [q])"

fun py_repr :: "pyval \<Rightarrow> string" and repr_items :: "pyval list \<Rightarrow> string list"
  and repr_pairs :: "(string \<times> pyval) list \<Rightarrow> string list" where
  "py_repr PNone = ''None''"
| "py_repr (PBool b) = (if b then ''True'' else ''False'')"
| "py_repr (PInt n) = int_str n"
| "py_repr (PStr s) = repr_str s"
| "py_repr (PList xs) = ''['' @ join '', '' (repr_items xs) @ '']''"
| "py_repr (PDict d) = ''{'' @ join '', '' (repr_pairs d) @ ''}''"
| "repr_items [] = []"
| "repr_items (v # vs) = py_repr v # repr_items vs"
| "repr_pairs [] = []"
| "repr_pairs ((k, v) # r) = (repr_str k @ '': '' @ py_repr v) # repr_pairs r"

fun pystr :: "pyval \<Rightarrow> string" where
  "pystr (PStr s) = s"
| "pystr v = py_repr v"

text \<open>\<open>str(exc)\<close>.\<close>

fun error_text :: "py_error \<Rightarrow> string" where
  "error_text (ValueError s) = s"
| "error_text (KeyError s) = repr_str s"
| "error_text (TypeError s) = s"
| "error_text (RuntimeError s) = s"
| "error_text (AttributeError s) = s"
| "error_text (FileNotFoundError s) = s"
| "error_text (ConstraintError s) = s"
| "error_text (ConversionError s) = s"
| "error_text (CatalogError s) = s"

text \<open>The recurring \<open>str(payload.get(k) or d)\<close>.\<close>

definition gstr :: "payload \<Rightarrow> string \<Rightarrow> string \<Rightarrow> string" where
  "gstr p k d = pystr (por (pget p k PNone) (PStr d))"

lemma gstr_str [simp]: "map_of p k = Some (PStr s) \<Longrightarrow> gstr p k d = str_or s d"
  by (simp add: gstr_def pget_def por_def str_or_def)

lemma gstr_none: "map_of p k = None \<Longrightarrow> gstr p k d = d"
  by (simp add: gstr_def pget_def por_def)

subsection \<open>\<open>int(v)\<close>\<close>

fun pyint :: "pyval \<Rightarrow> py_error + int" where
  "pyint (PInt n) = Inr n"
| "pyint (PBool b) = Inr (if b then 1 else 0)"
| "pyint (PStr s) = (case parse_int s of
       None \<Rightarrow> Inl (ValueError (''invalid literal for int() with base 10: '' @ repr_str s))
     | Some n \<Rightarrow> Inr n)"
| "pyint v = Inl (TypeError ''int() argument must be a string or a real number'')"

text \<open>The recurring \<open>int(payload.get(k) or d)\<close>.\<close>

definition gint :: "payload \<Rightarrow> string \<Rightarrow> int \<Rightarrow> py_error + int" where
  "gint p k d = pyint (por (pget p k PNone) (PInt d))"

lemma gint_int [simp]: "map_of p k = Some (PInt n) \<Longrightarrow> gint p k d = Inr (if n = 0 then d else n)"
  by (simp add: gint_def pget_def por_def)

text \<open>\<open>list(v)\<close> and the iteration over a decoded value.\<close>

fun py_list :: "pyval \<Rightarrow> py_error + pyval list" where
  "py_list (PList xs) = Inr xs"
| "py_list (PDict d) = Inr (map (\<lambda>(k, v). PStr k) d)"
| "py_list (PStr s) = Inr (map (\<lambda>c. PStr [c]) s)"
| "py_list _ = Inl (TypeError ''object is not iterable'')"

subsection \<open>\<open>json.dumps(v, ensure_ascii=False)\<close>\<close>

definition json_char :: "char \<Rightarrow> string" where
  "json_char c = (let n = code c in
     if n = 34 \<or> n = 92 then [char_of (92::nat), c]
     else if n = 10 then [char_of (92::nat), CHR ''n'']
     else if n = 13 then [char_of (92::nat), CHR ''r'']
     else if n = 9 then [char_of (92::nat), CHR ''t'']
     else if n = 12 then [char_of (92::nat), CHR ''f'']
     else if n = 8 then [char_of (92::nat), CHR ''b'']
     else if n < 32 then [char_of (92::nat), CHR ''u'', CHR ''0'', CHR ''0''] @ hex2 c
     else [c])"

definition json_str :: "string \<Rightarrow> string" where
  "json_str s = [CHR 34] @ concat (map json_char s) @ [CHR 34]"

fun json_dumps :: "pyval \<Rightarrow> string" and json_items :: "pyval list \<Rightarrow> string list"
  and json_pairs :: "(string \<times> pyval) list \<Rightarrow> string list" where
  "json_dumps PNone = ''null''"
| "json_dumps (PBool b) = (if b then ''true'' else ''false'')"
| "json_dumps (PInt n) = int_str n"
| "json_dumps (PStr s) = json_str s"
| "json_dumps (PList xs) = ''['' @ join '', '' (json_items xs) @ '']''"
| "json_dumps (PDict d) = ''{'' @ join '', '' (json_pairs d) @ ''}''"
| "json_items [] = []"
| "json_items (v # vs) = json_dumps v # json_items vs"
| "json_pairs [] = []"
| "json_pairs ((k, v) # r) = (json_str k @ '': '' @ json_dumps v) # json_pairs r"

declare json_dumps.simps [simp del] py_repr.simps [simp del]

lemmas json_text_simps = json_dumps.simps json_items.simps json_pairs.simps json_str_def
  json_char_def hex2_def hex_digit_def

text \<open>The text of a value is part of the text of the dictionary that holds it.\<close>

lemma json_pairs_mem: "(k, v) \<in> set d \<Longrightarrow> json_str k @ '': '' @ json_dumps v \<in> set (json_pairs d)"
  by (induction d) auto

lemma contains_json_dict:
  assumes "map_of d k = Some v" and "contains p (json_dumps v)"
  shows "contains p (json_dumps (PDict d))"
proof -
  have "contains p (json_str k @ '': '' @ json_dumps v)"
    using assms(2) by (intro contains_append_left)
  then have "contains p (join '', '' (json_pairs d))"
    using json_pairs_mem [OF map_of_SomeD [OF assms(1)]] by (rule contains_join [rotated])
  then show ?thesis
    unfolding json_dumps.simps by (intro contains_append_left contains_append_right)
qed

lemma concat_json_char_plain:
  "\<forall>c \<in> set s. json_char c = [c] \<Longrightarrow> json_str s = [CHR 34] @ s @ [CHR 34]"
proof -
  assume a: "\<forall>c \<in> set s. json_char c = [c]"
  have "concat (map json_char s) = s" using a by (induction s) auto
  then show ?thesis by (simp add: json_str_def)
qed

text \<open>\<open>sort_keys=True\<close> sorts the keys of every dictionary, at any depth.\<close>

fun sort_keys :: "pyval \<Rightarrow> pyval" and sort_items :: "pyval list \<Rightarrow> pyval list"
  and sort_pairs :: "(string \<times> pyval) list \<Rightarrow> (string \<times> pyval) list" where
  "sort_keys (PList xs) = PList (sort_items xs)"
| "sort_keys (PDict d) = PDict (sort_pairs d)"
| "sort_keys PNone = PNone"
| "sort_keys (PBool b) = PBool b"
| "sort_keys (PInt n) = PInt n"
| "sort_keys (PStr s) = PStr s"
| "sort_items [] = []"
| "sort_items (v # vs) = sort_keys v # sort_items vs"
| "sort_pairs [] = []"
| "sort_pairs ((k, v) # r) = insort_key fst (k, sort_keys v) (sort_pairs r)"

text \<open>The recurring \<open>json.dumps(raw if isinstance(raw, dict) else {}, ensure_ascii=False)\<close>.\<close>

definition json_dict_text :: "pyval \<Rightarrow> string" where
  "json_dict_text raw = json_dumps (PDict (pdict_or_empty raw))"

subsection \<open>Splitting on blanks: \<open>len(s.split())\<close>\<close>

fun word_count :: "bool \<Rightarrow> string \<Rightarrow> nat" where
  "word_count inword [] = 0"
| "word_count inword (c # cs) =
     (if is_space c then word_count False cs
      else if inword then word_count True cs
      else Suc (word_count True cs))"

end
