(* ===== verification/Tables.thy ===== *)
theory Tables
  imports PyVal
begin

text \<open>
  SQL tables as the handlers use them: a table is the list of its rows in insertion order, and a
  statement is one of the operations below. A primary key is a function from the row; an INSERT that
  would duplicate it raises DuckDB's ConstraintException, and the transaction is rolled back by the
  caller. INTEGER and BIGINT columns reject values outside 32 and 64 bits with a ConversionException.
  The locale \<open>keyed_store\<close> states what a table addressed by its primary key promises.
\<close>

subsection \<open>Statements\<close>

text \<open>\<open>SELECT ... WHERE P\<close> followed by \<open>fetchone()\<close> or \<open>LIMIT 1\<close>.\<close>

definition sel_one :: "('r \<Rightarrow> bool) \<Rightarrow> 'r list \<Rightarrow> 'r option" where
  "sel_one P t = List.find P t"

definition sel_all :: "('r \<Rightarrow> bool) \<Rightarrow> 'r list \<Rightarrow> 'r list" where
  "sel_all P t = filter P t"

definition upd_where :: "('r \<Rightarrow> bool) \<Rightarrow> ('r \<Rightarrow> 'r) \<Rightarrow> 'r list \<Rightarrow> 'r list" where
  "upd_where P f t = map (\<lambda>r. if P r then f r else r) t"

definition del_where :: "('r \<Rightarrow> bool) \<Rightarrow> 'r list \<Rightarrow> 'r list" where
  "del_where P t = filter (\<lambda>r. \<not> P r) t"

definition has_key :: "('r \<Rightarrow> 'k) \<Rightarrow> 'k \<Rightarrow> 'r list \<Rightarrow> bool" where
  "has_key key k t \<longleftrightarrow> k \<in> key ` set t"

definition ins_row :: "('r \<Rightarrow> 'k) \<Rightarrow> 'r \<Rightarrow> 'r list \<Rightarrow> py_error + 'r list" where
  "ins_row key r t =
     (if has_key key (key r) t then Inl (ConstraintError ''Duplicate key'') else Inr (t @ [r]))"

text \<open>\<open>INSERT ... ON CONFLICT (key) DO UPDATE SET f\<close> and \<open>... DO NOTHING\<close>.\<close>

definition ins_or_update :: "('r \<Rightarrow> 'k) \<Rightarrow> 'r \<Rightarrow> ('r \<Rightarrow> 'r) \<Rightarrow> 'r list \<Rightarrow> 'r list" where
  "ins_or_update key r f t =
     (if has_key key (key r) t then upd_where (\<lambda>x. key x = key r) f t else t @ [r])"

definition ins_or_nothing :: "('r \<Rightarrow> 'k) \<Rightarrow> 'r \<Rightarrow> 'r list \<Rightarrow> 'r list" where
  "ins_or_nothing key r t = (if has_key key (key r) t then t else t @ [r])"

definition sql_int32 :: "int \<Rightarrow> py_error + int" where
  "sql_int32 n = (if - (2 ^ 31) \<le> n \<and> n < 2 ^ 31 then Inr n
     else Inl (ConversionError ''value out of range for INT32''))"

definition sql_int64 :: "int \<Rightarrow> py_error + int" where
  "sql_int64 n = (if - (2 ^ 63) \<le> n \<and> n < 2 ^ 63 then Inr n
     else Inl (ConversionError ''value out of range for INT64''))"

text \<open>\<open>COALESCE(MAX(f), 0)\<close> over the rows that satisfy the WHERE clause.\<close>

definition max_or_0 :: "('r \<Rightarrow> int) \<Rightarrow> 'r list \<Rightarrow> int" where
  "max_or_0 f t = (if t = [] then 0 else fold (\<lambda>r m. max (f r) m) t (f (hd t)))"

text \<open>\<open>ORDER BY f DESC LIMIT 1\<close>.\<close>

fun top_by :: "('r \<Rightarrow> int) \<Rightarrow> 'r list \<Rightarrow> 'r option" where
  "top_by f [] = None"
| "top_by f (r # t) = (case top_by f t of
     None \<Rightarrow> Some r
   | Some s \<Rightarrow> if f r < f s then Some s else Some r)"

lemma top_by_None [simp]: "top_by f t = None \<longleftrightarrow> t = []"
  by (cases t) (auto split: option.splits)

lemma top_by_mem: "top_by f t = Some r \<Longrightarrow> r \<in> set t"
  by (induction t arbitrary: r) (auto split: option.splits if_splits)

lemma top_by_max: "top_by f t = Some r \<Longrightarrow> s \<in> set t \<Longrightarrow> f s \<le> f r"
proof (induction t arbitrary: r)
  case (Cons x t)
  show ?case
  proof (cases "top_by f t")
    case None
    with Cons show ?thesis by simp
  next
    case (Some y)
    with Cons.IH [OF Some] Cons.prems show ?thesis by (auto split: if_splits)
  qed
qed simp

subsection \<open>Primary keys\<close>

definition uniq :: "('r \<Rightarrow> 'k) \<Rightarrow> 'r list \<Rightarrow> bool" where
  "uniq key t \<longleftrightarrow> distinct (map key t)"

lemma uniq_Nil [simp, intro]: "uniq key []"
  by (simp add: uniq_def)

lemma has_key_iff: "has_key key k t \<longleftrightarrow> (\<exists>r \<in> set t. key r = k)"
  by (auto simp: has_key_def)

lemma set_upd_where: "set (upd_where P f t) = (\<lambda>r. if P r then f r else r) ` set t"
  by (simp add: upd_where_def)

lemma mem_upd_where: "r \<in> set (upd_where P f t) \<Longrightarrow> \<exists>x \<in> set t. r = (if P x then f x else x)"
  by (auto simp: set_upd_where)

lemma ball_upd_where:
  "\<forall>r \<in> set t. Q r \<Longrightarrow> (\<And>r. P r \<Longrightarrow> Q r \<Longrightarrow> Q (f r)) \<Longrightarrow> \<forall>r \<in> set (upd_where P f t). Q r"
  by (auto simp: upd_where_def)

lemma ball_upd_where_iff:
  "(\<forall>r \<in> set (upd_where P f t). Q r) \<longleftrightarrow> (\<forall>r \<in> set t. Q (if P r then f r else r))"
  by (simp only: upd_where_def set_map ball_simps)

lemma set_del_where [simp]: "set (del_where P t) = {r \<in> set t. \<not> P r}"
  by (simp add: del_where_def)

lemma ins_row_Inr [simp]:
  "ins_row key r t = Inr t' \<longleftrightarrow> \<not> has_key key (key r) t \<and> t' = t @ [r]"
  by (auto simp: ins_row_def)

lemma sql_int32_Inr [simp]:
  "sql_int32 n = Inr m \<longleftrightarrow> m = n \<and> - (2 ^ 31) \<le> n \<and> n < 2 ^ 31"
  by (auto simp: sql_int32_def)

lemma sql_int64_Inr [simp]:
  "sql_int64 n = Inr m \<longleftrightarrow> m = n \<and> - (2 ^ 63) \<le> n \<and> n < 2 ^ 63"
  by (auto simp: sql_int64_def)

lemma uniq_upd_where:
  assumes "uniq key t" and "\<And>r. P r \<Longrightarrow> key (f r) = key r"
  shows "uniq key (upd_where P f t)"
proof -
  have "map key (upd_where P f t) = map key t"
    using assms(2) by (simp add: upd_where_def)
  with assms(1) show ?thesis by (simp add: uniq_def)
qed

lemma uniq_del_where [simp]: "uniq key t \<Longrightarrow> uniq key (del_where P t)"
  by (simp add: uniq_def del_where_def distinct_map_filter)

lemma uniq_snoc [simp]: "uniq key (t @ [r]) \<longleftrightarrow> uniq key t \<and> \<not> has_key key (key r) t"
  by (auto simp: uniq_def has_key_def)

lemma uniq_ins_or_nothing [simp]: "uniq key t \<Longrightarrow> uniq key (ins_or_nothing key r t)"
  by (simp add: ins_or_nothing_def)

lemma uniq_ins_or_update:
  assumes "uniq key t" and "\<And>x. key x = key r \<Longrightarrow> key (f x) = key x"
  shows "uniq key (ins_or_update key r f t)"
proof (cases "has_key key (key r) t")
  case True
  have "uniq key (upd_where (\<lambda>x. key x = key r) f t)"
    by (rule uniq_upd_where [OF assms])
  with True show ?thesis by (simp add: ins_or_update_def)
next
  case False
  with assms(1) show ?thesis by (simp add: ins_or_update_def)
qed

lemma sel_one_Some: "sel_one P t = Some r \<Longrightarrow> r \<in> set t \<and> P r"
  by (auto simp: sel_one_def find_Some_iff)

lemma sel_one_None: "sel_one P t = None \<longleftrightarrow> (\<forall>r \<in> set t. \<not> P r)"
  by (auto simp: sel_one_def find_None_iff)

lemma sel_one_Nil [simp]: "sel_one P [] = None"
  by (simp add: sel_one_def)

lemma sel_one_Cons [simp]: "sel_one P (r # t) = (if P r then Some r else sel_one P t)"
  by (simp add: sel_one_def)

lemma sel_one_append: "sel_one P (t @ u) = (case sel_one P t of None \<Rightarrow> sel_one P u | Some r \<Rightarrow> Some r)"
  by (induction t) auto

text \<open>The row a later SELECT finds after an UPDATE that rewrote the row with its key.\<close>

lemma sel_one_upd_where_hit:
  assumes "sel_one P t = Some r" "Q (f r)" "\<And>x. Q x \<Longrightarrow> P x"
  shows "\<exists>x. sel_one Q (upd_where P f t) = Some (f x)"
proof (cases "sel_one Q (upd_where P f t)")
  case None
  moreover have "f r \<in> set (upd_where P f t)" using sel_one_Some [OF assms(1)] by (auto simp: set_upd_where)
  ultimately show ?thesis using assms(2) by (simp add: sel_one_None)
next
  case (Some y)
  from sel_one_Some [OF Some] have y: "y \<in> set (upd_where P f t)" "Q y" by simp_all
  from y(1) have "\<exists>x. y = (if P x then f x else x)" unfolding set_upd_where by blast
  then obtain x where "y = (if P x then f x else x)" ..
  with y(2) assms(3) have "y = f x" by (auto split: if_splits)
  with Some show ?thesis by blast
qed

text \<open>With a primary key, the row found by key is the only one that has it.\<close>

lemma uniq_eq: "uniq key t \<Longrightarrow> r \<in> set t \<Longrightarrow> s \<in> set t \<Longrightarrow> key r = key s \<Longrightarrow> r = s"
  by (auto simp: uniq_def distinct_map inj_on_def)

lemma sel_one_key_Some:
  "uniq key t \<Longrightarrow> sel_one (\<lambda>r. key r = k) t = Some r \<longleftrightarrow> r \<in> set t \<and> key r = k"
proof
  assume u: "uniq key t" and r: "r \<in> set t \<and> key r = k"
  then obtain s where s: "sel_one (\<lambda>r. key r = k) t = Some s"
    by (cases "sel_one (\<lambda>r. key r = k) t") (auto simp: sel_one_None)
  with u r show "sel_one (\<lambda>r. key r = k) t = Some r"
    using uniq_eq [OF u, of r s] sel_one_Some [OF s] by simp
qed (auto dest: sel_one_Some)

subsection \<open>A table seen as a map from its primary key\<close>

definition tbl_map :: "('r \<Rightarrow> 'k) \<Rightarrow> 'r list \<Rightarrow> 'k \<rightharpoonup> 'r" where
  "tbl_map key t = (\<lambda>k. sel_one (\<lambda>r. key r = k) t)"

lemma tbl_map_Nil [simp]: "tbl_map key [] k = None"
  by (simp add: tbl_map_def)

lemma tbl_map_None: "tbl_map key t k = None \<longleftrightarrow> \<not> has_key key k t"
  by (auto simp: tbl_map_def sel_one_None has_key_def)

lemma tbl_map_key: "tbl_map key t k = Some r \<Longrightarrow> key r = k"
  by (auto simp: tbl_map_def dest: sel_one_Some)

lemma tbl_map_mem: "tbl_map key t k = Some r \<Longrightarrow> r \<in> set t"
  by (auto simp: tbl_map_def dest: sel_one_Some)

lemma tbl_map_Some: "uniq key t \<Longrightarrow> tbl_map key t k = Some r \<longleftrightarrow> r \<in> set t \<and> key r = k"
  by (simp add: tbl_map_def sel_one_key_Some)

lemma tbl_map_snoc:
  "\<not> has_key key (key r) t \<Longrightarrow> tbl_map key (t @ [r]) = (tbl_map key t)(key r \<mapsto> r)"
proof (rule ext)
  fix k
  assume n: "\<not> has_key key (key r) t"
  show "tbl_map key (t @ [r]) k = ((tbl_map key t)(key r \<mapsto> r)) k"
  proof (cases "k = key r")
    case True
    with n have "sel_one (\<lambda>r. key r = k) t = None"
      by (auto simp: sel_one_None has_key_iff)
    with True show ?thesis by (simp add: tbl_map_def sel_one_append)
  next
    case False
    then show ?thesis by (simp add: tbl_map_def sel_one_append split: option.split)
  qed
qed

lemma tbl_map_upd_where:
  assumes "\<And>r. P r \<Longrightarrow> key (f r) = key r" and "uniq key t"
  shows "tbl_map key (upd_where P f t) k =
    map_option (\<lambda>r. if P r then f r else r) (tbl_map key t k)"
proof (cases "tbl_map key t k")
  case None
  then have "\<not> has_key key k (upd_where P f t)"
    using assms(1) by (auto simp: tbl_map_None has_key_def set_upd_where split: if_splits)
  then have "tbl_map key (upd_where P f t) k = None" by (simp only: tbl_map_None not_False_eq_True)
  with None show ?thesis by simp
next
  case (Some r)
  have "uniq key (upd_where P f t)" using assms by (intro uniq_upd_where) auto
  moreover have "(if P r then f r else r) \<in> set (upd_where P f t)"
    using tbl_map_mem [OF Some] by (auto simp: set_upd_where)
  moreover have "key (if P r then f r else r) = k"
    using assms(1) tbl_map_key [OF Some] by auto
  ultimately show ?thesis using Some by (simp add: tbl_map_Some)
qed

lemma tbl_map_upd_key:
  assumes "\<And>r. key r = k0 \<Longrightarrow> key (f r) = k0" and "uniq key t"
  shows "tbl_map key (upd_where (\<lambda>r. key r = k0) f t) =
    (tbl_map key t)(k0 := map_option f (tbl_map key t k0))"
proof (rule ext)
  fix k
  have "tbl_map key (upd_where (\<lambda>r. key r = k0) f t) k =
      map_option (\<lambda>r. if key r = k0 then f r else r) (tbl_map key t k)"
    using assms by (intro tbl_map_upd_where) auto
  also have "\<dots> = ((tbl_map key t)(k0 := map_option f (tbl_map key t k0))) k"
    using tbl_map_key [of key t k] by (cases "tbl_map key t k") auto
  finally show "tbl_map key (upd_where (\<lambda>r. key r = k0) f t) k = \<dots>" .
qed

lemma tbl_map_del_where:
  assumes "uniq key t"
  shows "tbl_map key (del_where P t) k =
    (case tbl_map key t k of None \<Rightarrow> None | Some r \<Rightarrow> if P r then None else Some r)"
proof (cases "tbl_map key t k")
  case None
  then have "\<not> has_key key k (del_where P t)" by (auto simp: tbl_map_None has_key_def)
  then have "tbl_map key (del_where P t) k = None" by (simp only: tbl_map_None not_False_eq_True)
  with None show ?thesis by simp
next
  case (Some r)
  have u: "uniq key (del_where P t)" using assms by (rule uniq_del_where)
  show ?thesis
  proof (cases "P r")
    case True
    have "\<not> has_key key k (del_where P t)"
    proof
      assume "has_key key k (del_where P t)"
      then obtain s where s: "s \<in> set t" "\<not> P s" "key s = k" by (auto simp: has_key_def)
      then have "s = r"
        using uniq_eq [OF assms, of s r] tbl_map_mem [OF Some] tbl_map_key [OF Some] by simp
      with s True show False by simp
    qed
    then have "tbl_map key (del_where P t) k = None" by (simp only: tbl_map_None not_False_eq_True)
    with Some True show ?thesis by simp
  next
    case False
    with Some show ?thesis
      using tbl_map_mem [OF Some] tbl_map_key [OF Some] by (simp add: tbl_map_Some [OF u])
  qed
qed

lemma tbl_map_del_key:
  "uniq key t \<Longrightarrow> tbl_map key (del_where (\<lambda>r. key r = k0) t) = (tbl_map key t)(k0 := None)"
  by (rule ext) (auto simp: tbl_map_del_where split: option.splits dest: tbl_map_key)

lemmas tbl_map_simps [tbl_simps] =
  tbl_map_snoc tbl_map_upd_key tbl_map_del_key tbl_map_None

subsection \<open>The interface of a store addressed by key\<close>

text \<open>
  \<open>put\<close> stores a row under its own key (insert or replace), \<open>del\<close> removes it, \<open>get\<close> looks it up. The
  laws are the map laws; the handlers' upserts and deletes are instances.
\<close>

locale keyed_store =
  fixes get :: "'s \<Rightarrow> 'k \<Rightarrow> 'r option"
    and put :: "'r \<Rightarrow> 's \<Rightarrow> 's"
    and del :: "'k \<Rightarrow> 's \<Rightarrow> 's"
    and key :: "'r \<Rightarrow> 'k"
    and inv :: "'s \<Rightarrow> bool"
  assumes get_put: "inv s \<Longrightarrow> get (put r s) = (get s)(key r \<mapsto> r)"
    and get_del: "inv s \<Longrightarrow> get (del k s) = (get s)(k := None)"
    and inv_put: "inv s \<Longrightarrow> inv (put r s)"
    and inv_del: "inv s \<Longrightarrow> inv (del k s)"
begin

lemma get_put_same: "inv s \<Longrightarrow> get (put r s) (key r) = Some r"
  by (simp add: get_put)

lemma put_idem: "inv s \<Longrightarrow> get (put r (put r s)) = get (put r s)"
  by (simp add: get_put inv_put)

lemma put_last_wins: "inv s \<Longrightarrow> key r = key r' \<Longrightarrow> get (put r (put r' s)) = get (put r s)"
  by (simp add: get_put inv_put)

lemma put_commute:
  "inv s \<Longrightarrow> key r \<noteq> key r' \<Longrightarrow> get (put r (put r' s)) = get (put r' (put r s))"
  by (simp add: get_put inv_put fun_upd_twist)

lemma del_put: "inv s \<Longrightarrow> get (del (key r) (put r s)) = get (del (key r) s)"
  by (simp add: get_put get_del inv_put)

lemma fold_put: "inv s \<Longrightarrow> inv (fold put rs s)"
  by (induction rs arbitrary: s) (auto simp: inv_put)

lemma get_fold_put:
  "inv s \<Longrightarrow> get (fold put rs s) = (get s) ++ map_of (rev (map (\<lambda>r. (key r, r)) rs))"
  by (induction rs arbitrary: s) (auto simp: get_put inv_put map_add_def fun_eq_iff split: option.splits)

end

text \<open>The table form of \<open>put\<close>: UPDATE when the key exists, INSERT otherwise.\<close>

definition tbl_put :: "('r \<Rightarrow> 'k) \<Rightarrow> 'r \<Rightarrow> 'r list \<Rightarrow> 'r list" where
  "tbl_put key r t = ins_or_update key r (\<lambda>_. r) t"

definition tbl_del :: "('r \<Rightarrow> 'k) \<Rightarrow> 'k \<Rightarrow> 'r list \<Rightarrow> 'r list" where
  "tbl_del key k t = del_where (\<lambda>r. key r = k) t"

lemma uniq_tbl_put: "uniq key t \<Longrightarrow> uniq key (tbl_put key r t)"
  unfolding tbl_put_def by (rule uniq_ins_or_update) auto

lemma tbl_map_put: "uniq key t \<Longrightarrow> tbl_map key (tbl_put key r t) = (tbl_map key t)(key r \<mapsto> r)"
proof -
  assume u: "uniq key t"
  show ?thesis
  proof (cases "has_key key (key r) t")
    case True
    then obtain x where "tbl_map key t (key r) = Some x"
      by (cases "tbl_map key t (key r)") (auto simp: tbl_map_None)
    with True u show ?thesis
      by (simp add: tbl_put_def ins_or_update_def tbl_map_upd_key)
  next
    case False
    then show ?thesis by (simp add: tbl_put_def ins_or_update_def tbl_map_snoc)
  qed
qed

lemma keyed_store_table: "keyed_store (tbl_map key) (tbl_put key) (tbl_del key) key (uniq key)"
  by unfold_locales
    (auto simp: tbl_map_put tbl_del_def tbl_map_del_key intro: uniq_tbl_put uniq_del_where)

subsection \<open>The environment of a handler call\<close>

text \<open>
  \<open>CURRENT_TIMESTAMP\<close> is constant within a transaction: \<open>now\<close>. \<open>uuid_hex i\<close> is the \<open>hex\<close> of the
  \<open>i\<close>-th \<open>uuid.uuid4()\<close> the handler draws. \<open>sha256_hex\<close> is \<open>hashlib.sha256(s).hexdigest()\<close>.
  \<open>cast_int\<close> is DuckDB's cast of a text parameter bound to an INTEGER column (\<open>None\<close>: it raises).
\<close>

record env =
  now :: int
  uuid_hex :: "nat \<Rightarrow> string"
  sha256_hex :: "string \<Rightarrow> string"
  cast_int :: "string \<Rightarrow> int option"

text \<open>A concrete environment for evaluation.\<close>

definition env0 :: env where
  "env0 = \<lparr>now = 5, uuid_hex = (\<lambda>i. ''0123456789abcdef'' @ nat_str i), sha256_hex = (\<lambda>s. s),
     cast_int = parse_int\<rparr>"

text \<open>A Python value bound to a nullable INTEGER column.\<close>

fun sql_int_param :: "env \<Rightarrow> pyval \<Rightarrow> py_error + int option" where
  "sql_int_param e PNone = Inr None"
| "sql_int_param e (PInt n) = bindE (sql_int32 n) (\<lambda>m. Inr (Some m))"
| "sql_int_param e (PBool b) = Inr (Some (if b then 1 else 0))"
| "sql_int_param e (PStr s) = (case cast_int e s of
       None \<Rightarrow> Inl (ConversionError ''Could not convert string to INT32'')
     | Some n \<Rightarrow> bindE (sql_int32 n) (\<lambda>m. Inr (Some m)))"
| "sql_int_param e _ = Inl (ConversionError ''Unimplemented type for cast to INTEGER'')"

text \<open>The same for a nullable BIGINT column.\<close>

fun sql_int64_param :: "env \<Rightarrow> pyval \<Rightarrow> py_error + int option" where
  "sql_int64_param e PNone = Inr None"
| "sql_int64_param e (PInt n) = bindE (sql_int64 n) (\<lambda>m. Inr (Some m))"
| "sql_int64_param e (PBool b) = Inr (Some (if b then 1 else 0))"
| "sql_int64_param e (PStr s) = (case cast_int e s of
       None \<Rightarrow> Inl (ConversionError ''Could not convert string to INT64'')
     | Some n \<Rightarrow> bindE (sql_int64 n) (\<lambda>m. Inr (Some m)))"
| "sql_int64_param e _ = Inl (ConversionError ''Unimplemented type for cast to BIGINT'')"

text \<open>\<open>COALESCE(NULLIF(s, ''), old)\<close> on text, \<open>COALESCE(v, old)\<close>.\<close>

definition coalesce_text :: "string \<Rightarrow> string option \<Rightarrow> string option" where
  "coalesce_text s old = (if s = [] then old else Some s)"

definition coalesce :: "'a option \<Rightarrow> 'a option \<Rightarrow> 'a option" where
  "coalesce v old = (case v of None \<Rightarrow> old | Some x \<Rightarrow> Some x)"

text \<open>\<open>CREATE TABLE IF NOT EXISTS\<close>: \<open>None\<close> is a missing table.\<close>

definition ensure_table :: "'r list option \<Rightarrow> 'r list" where
  "ensure_table t = (case t of None \<Rightarrow> [] | Some rows \<Rightarrow> rows)"

subsection \<open>Recurring argument idioms of the handlers\<close>

text \<open>\<open>str(payload[k]).strip()\<close>, \<open>str(payload.get(k) or d).strip()\<close> and
  \<open>str(payload.get(k) or d).strip() or d\<close>.\<close>

definition req_str :: "payload \<Rightarrow> string \<Rightarrow> py_error + string" where
  "req_str p k = bindE (pitem p k) (\<lambda>v. Inr (strip (pystr v)))"

definition opt_str :: "payload \<Rightarrow> string \<Rightarrow> string \<Rightarrow> string" where
  "opt_str p k d = strip (gstr p k d)"

definition dflt_str :: "payload \<Rightarrow> string \<Rightarrow> string \<Rightarrow> string" where
  "dflt_str p k d = str_or (opt_str p k d) d"

lemma req_str_Inr: "req_str p k = Inr s \<Longrightarrow> strip s = s"
  by (auto simp: req_str_def)

lemma dflt_str_nonempty [simp]: "d \<noteq> [] \<Longrightarrow> dflt_str p k d \<noteq> []"
  by (simp add: dflt_str_def)

text \<open>A handler changes the rows of its own scope only: the rows outside it, read before and after.\<close>

definition outside :: "('r \<Rightarrow> bool) \<Rightarrow> 'r list \<Rightarrow> 'r list" where
  "outside P t = filter (\<lambda>r. \<not> P r) t"

lemma outside_snoc [simp]: "outside P (t @ [r]) = outside P t @ (if P r then [] else [r])"
  by (simp add: outside_def)

lemma outside_upd_where:
  assumes "\<And>r. r \<in> set t \<Longrightarrow> Q r \<Longrightarrow> P r \<and> P (f r)"
  shows "outside P (upd_where Q f t) = outside P t"
  using assms by (induction t) (auto simp: outside_def upd_where_def)

lemma outside_del_where:
  assumes "\<And>r. r \<in> set t \<Longrightarrow> Q r \<Longrightarrow> P r"
  shows "outside P (del_where Q t) = outside P t"
  using assms by (induction t) (auto simp: outside_def del_where_def)

subsection \<open>Changes confined to one scope\<close>

text \<open>
  \<open>scoped_step key own t t'\<close>: \<open>t'\<close> is reached from \<open>t\<close> by statements that insert rows of the scope
  \<open>own\<close> under fresh keys, edit rows of the scope without moving them, and delete rows of the scope.
\<close>

inductive scoped_step :: "('r \<Rightarrow> 'k) \<Rightarrow> ('r \<Rightarrow> bool) \<Rightarrow> 'r list \<Rightarrow> 'r list \<Rightarrow> bool"
  for key :: "'r \<Rightarrow> 'k" and own :: "'r \<Rightarrow> bool" where
  scoped_refl: "scoped_step key own t t"
| scoped_ins: "\<not> has_key key (key r) t \<Longrightarrow> own r \<Longrightarrow> scoped_step key own t (t @ [r])"
| scoped_upd: "(\<And>r. r \<in> set t \<Longrightarrow> P r \<Longrightarrow> own r) \<Longrightarrow>
    (\<And>r. own (f r) = own r) \<Longrightarrow> (\<And>r. key (f r) = key r) \<Longrightarrow> scoped_step key own t (upd_where P f t)"
| scoped_del: "(\<And>r. r \<in> set t \<Longrightarrow> P r \<Longrightarrow> own r) \<Longrightarrow> scoped_step key own t (del_where P t)"
| scoped_trans: "scoped_step key own t u \<Longrightarrow> scoped_step key own u v \<Longrightarrow> scoped_step key own t v"

lemma scoped_step_uniq: "scoped_step key own t t' \<Longrightarrow> uniq key t \<Longrightarrow> uniq key t'"
  by (induction rule: scoped_step.induct) (simp_all add: uniq_upd_where)

lemma scoped_step_outside: "scoped_step key own t t' \<Longrightarrow> outside own t' = outside own t"
proof (induction rule: scoped_step.induct)
  case (scoped_upd t P f)
  then show ?case by (intro outside_upd_where) simp
next
  case (scoped_del t P)
  then show ?case by (intro outside_del_where)
qed simp_all

text \<open>When the row found by its key is owned, every row with that key is.\<close>

lemma owned_by_key:
  "uniq key t \<Longrightarrow> sel_one (\<lambda>r. key r = k) t = Some r \<Longrightarrow> own r \<Longrightarrow> s \<in> set t \<Longrightarrow> key s = k \<Longrightarrow> own s"
  using uniq_eq [of key t s r] sel_one_Some [of "\<lambda>r. key r = k" t r] by simp

lemma owned_by_key2:
  "uniq key t \<Longrightarrow> sel_one (\<lambda>r. key r = k \<and> own r) t = Some r \<Longrightarrow> s \<in> set t \<Longrightarrow> key s = k \<Longrightarrow> own s"
  using uniq_eq [of key t s r] sel_one_Some [of "\<lambda>r. key r = k \<and> own r" t r] by simp

subsection \<open>At most one flagged row in each group\<close>

definition agree :: "('r \<Rightarrow> bool) \<Rightarrow> ('r \<Rightarrow> 'g) \<Rightarrow> ('r \<Rightarrow> 'k) \<Rightarrow> 'r \<Rightarrow> 'r \<Rightarrow> bool" where
  "agree flag grp key r s \<longleftrightarrow> (flag r \<and> flag s \<and> grp r = grp s \<longrightarrow> key r = key s)"

definition at_most_one :: "('r \<Rightarrow> bool) \<Rightarrow> ('r \<Rightarrow> 'g) \<Rightarrow> ('r \<Rightarrow> 'k) \<Rightarrow> 'r list \<Rightarrow> bool" where
  "at_most_one flag grp key t \<longleftrightarrow> (\<forall>r \<in> set t. \<forall>s \<in> set t. agree flag grp key r s)"

definition unflagged :: "('r \<Rightarrow> bool) \<Rightarrow> ('r \<Rightarrow> 'g) \<Rightarrow> 'g \<Rightarrow> 'r list \<Rightarrow> bool" where
  "unflagged flag grp g t \<longleftrightarrow> (\<forall>r \<in> set t. grp r = g \<longrightarrow> \<not> flag r)"

lemma agree_mono:
  "agree flag grp key r s \<Longrightarrow> (flag r' \<Longrightarrow> flag r) \<Longrightarrow> (flag s' \<Longrightarrow> flag s) \<Longrightarrow>
   grp r' = grp r \<Longrightarrow> grp s' = grp s \<Longrightarrow> key r' = key r \<Longrightarrow> key s' = key s \<Longrightarrow> agree flag grp key r' s'"
  by (simp add: agree_def)

lemma at_most_one_Nil [simp]: "at_most_one flag grp key []"
  by (simp add: at_most_one_def)

lemma at_most_one_upd:
  assumes "at_most_one flag grp key t"
    and "\<And>r. P r \<Longrightarrow> flag (f r) \<Longrightarrow> flag r" "\<And>r. grp (f r) = grp r" "\<And>r. key (f r) = key r"
  shows "at_most_one flag grp key (upd_where P f t)"
proof -
  have "agree flag grp key (if P r then f r else r) (if P s then f s else s)"
    if "r \<in> set t" "s \<in> set t" for r s
  proof (rule agree_mono)
    show "agree flag grp key r s" using that assms(1) by (simp add: at_most_one_def)
  qed (use assms(2-4) in \<open>auto split: if_splits\<close>)
  then show ?thesis unfolding at_most_one_def ball_upd_where_iff by blast
qed

lemma at_most_one_activate:
  assumes "at_most_one flag grp key t" and "unflagged flag grp g t"
    and "\<And>r. P r \<Longrightarrow> grp r = g \<and> key r = k" "\<And>r. grp (f r) = grp r" "\<And>r. key (f r) = key r"
  shows "at_most_one flag grp key (upd_where P f t)"
proof -
  have "agree flag grp key (if P r then f r else r) (if P s then f s else s)"
    if rs: "r \<in> set t" "s \<in> set t" for r s
  proof -
    have "agree flag grp key r s" using rs assms(1) by (simp add: at_most_one_def)
    moreover have "grp r = g \<Longrightarrow> \<not> flag r" "grp s = g \<Longrightarrow> \<not> flag s"
      using rs assms(2) by (simp_all add: unflagged_def)
    ultimately show ?thesis using assms(3) [of r] assms(3) [of s]
      by (auto simp: agree_def assms(4,5))
  qed
  then show ?thesis unfolding at_most_one_def ball_upd_where_iff by blast
qed

lemma at_most_one_snoc:
  assumes "at_most_one flag grp key t" and "flag r \<Longrightarrow> unflagged flag grp (grp r) t"
  shows "at_most_one flag grp key (t @ [r])"
proof -
  have "agree flag grp key r s" "agree flag grp key s r" if "s \<in> set t" for s
    using that assms(2) by (auto simp: agree_def unflagged_def)
  moreover have "agree flag grp key r r" by (simp add: agree_def)
  ultimately show ?thesis using assms(1) by (simp add: at_most_one_def)
qed

lemma at_most_one_del: "at_most_one flag grp key t \<Longrightarrow> at_most_one flag grp key (del_where P t)"
  by (simp add: at_most_one_def)

lemma unflagged_upd:
  assumes "\<And>r. \<not> flag (f r)" "\<And>r. grp (f r) = grp r"
  shows "unflagged flag grp g (upd_where (\<lambda>r. grp r = g) f t)"
  unfolding unflagged_def ball_upd_where_iff using assms by simp

lemma unflagged_snoc: "unflagged flag grp g t \<Longrightarrow> \<not> flag r \<Longrightarrow> unflagged flag grp g (t @ [r])"
  by (auto simp: unflagged_def)

end
