(* ===== verification/Kanban.thy ===== *)
theory Kanban
  imports Tables
begin

text \<open>
  The kanban board: \<open>packages/shared/src/duckclaw/write_handlers/kanban.py\<close> over the tables
  \<open>admin_kanban_cards\<close> and \<open>admin_kanban_events\<close> of \<open>schema_migrations.py\<close>. A card belongs to the
  (tenant, actor) that created it; every successful operation appends one history event.
\<close>

subsection \<open>State\<close>

record kanban_card =
  kc_id :: string
  kc_tenant :: string
  kc_actor :: string
  kc_title :: string
  kc_description :: string
  kc_status :: string
  kc_priority :: int
  kc_sort_order :: int
  kc_assignee :: string
  kc_tags_json :: string
  kc_created_at :: int
  kc_updated_at :: int

record kanban_event_row =
  ke_id :: string
  ke_card :: string
  ke_type :: string
  ke_payload :: string
  ke_actor :: string
  ke_created_at :: int

record kanban_db =
  kb_cards :: "kanban_card list"
  kb_events :: "kanban_event_row list"

subsection \<open>Operations\<close>

fun kanban_clean_tags :: "string list \<Rightarrow> pyval list \<Rightarrow> string list" where
  "kanban_clean_tags clean [] = clean"
| "kanban_clean_tags clean (tag # tags) = (let
     text = strip (pystr tag);
     clean' = (if text \<noteq> [] \<and> text \<notin> set clean then clean @ [take 64 text] else clean)
   in if 16 \<le> length clean' then clean' else kanban_clean_tags clean' tags)"

definition kanban_tags_json :: "pyval \<Rightarrow> string" where
  "kanban_tags_json raw =
     json_dumps (PList (map PStr (kanban_clean_tags [] (plist_or_empty raw))))"

definition kanban_event ::
  "env \<Rightarrow> string \<Rightarrow> string \<Rightarrow> string \<Rightarrow> payload \<Rightarrow> kanban_db \<Rightarrow> py_error + kanban_db" where
  "kanban_event e card_id event_type actor_email body db =
     bindE (ins_row ke_id
              \<lparr> ke_id = ''evt_'' @ take 16 (uuid_hex e 0), ke_card = card_id,
                ke_type = event_type, ke_payload = json_dumps (PDict body),
                ke_actor = actor_email, ke_created_at = now e \<rparr> (kb_events db))
       (\<lambda>evs. Inr (db\<lparr>kb_events := evs\<rparr>))"

definition kanban_statuses :: "string list" where
  "kanban_statuses = [''todo'', ''in_progress'', ''done'', ''cancelled'']"

definition apply_upsert_kanban_card :: "env \<Rightarrow> payload \<Rightarrow> kanban_db \<Rightarrow> py_error + kanban_db" where
  "apply_upsert_kanban_card e payload db =
     bindE (req_str payload ''card_id'') (\<lambda>card_id.
     if card_id = [] then Inl (ValueError ''card_id required'') else
     let tenant_id = dflt_str payload ''tenant_id'' ''default'';
         actor_email = dflt_str payload ''actor_email'' ''system'';
         title = take 120 (opt_str payload ''title'' [])
     in
     if title = [] then Inl (ValueError ''title required'') else
     let description = take 2000 (opt_str payload ''description'' []);
         status = opt_str payload ''status'' ''todo''
     in
     if status \<notin> set kanban_statuses
     then Inl (ValueError (''Invalid kanban status: '' @ status)) else
     bindE (gint payload ''priority'' 0) (\<lambda>priority.
     bindE (gint payload ''sort_order'' 0) (\<lambda>sort_order.
     let worker_id = take 128 (opt_str payload ''worker_id'' []);
         tags_json = kanban_tags_json (pget payload ''tags'' PNone);
         existing = sel_one (\<lambda>r. kc_id r = card_id) (kb_cards db);
         event = (\<lambda>event_type. kanban_event e card_id event_type actor_email
           [(''status'', PStr status), (''title'', PStr title), (''worker_id'', PStr worker_id)])
     in
     bindE (case existing of
         None \<Rightarrow> Inr () |
         Some r \<Rightarrow> if kc_tenant r \<noteq> tenant_id \<or> kc_actor r \<noteq> actor_email
           then Inl (ValueError ''Kanban card not found for tenant/actor'') else Inr ()) (\<lambda>_.
     bindE (sql_int32 priority) (\<lambda>priority.
     bindE (sql_int32 sort_order) (\<lambda>sort_order.
     if existing \<noteq> None then
       event ''kanban_card.updated''
         (db\<lparr>kb_cards := upd_where (\<lambda>r. kc_id r = card_id)
            (\<lambda>r. r\<lparr>kc_title := title, kc_description := description, kc_status := status,
                   kc_priority := priority, kc_sort_order := sort_order,
                   kc_assignee := worker_id, kc_tags_json := tags_json,
                   kc_updated_at := now e\<rparr>) (kb_cards db)\<rparr>)
     else
       bindE (ins_row kc_id
           \<lparr> kc_id = card_id, kc_tenant = tenant_id, kc_actor = actor_email, kc_title = title,
             kc_description = description, kc_status = status, kc_priority = priority,
             kc_sort_order = sort_order, kc_assignee = worker_id, kc_tags_json = tags_json,
             kc_created_at = now e, kc_updated_at = now e \<rparr> (kb_cards db)) (\<lambda>cards.
       event ''kanban_card.created'' (db\<lparr>kb_cards := cards\<rparr>))))))))"

definition apply_delete_kanban_card :: "env \<Rightarrow> payload \<Rightarrow> kanban_db \<Rightarrow> py_error + kanban_db" where
  "apply_delete_kanban_card e payload db =
     bindE (req_str payload ''card_id'') (\<lambda>card_id.
     if card_id = [] then Inl (ValueError ''card_id required'') else
     let tenant_id = dflt_str payload ''tenant_id'' ''default'';
         actor_email = dflt_str payload ''actor_email'' ''system''
     in
     case sel_one (\<lambda>r. kc_id r = card_id \<and> kc_tenant r = tenant_id \<and> kc_actor r = actor_email)
            (kb_cards db) of
       None \<Rightarrow> Inl (ValueError ''Kanban card not found'')
     | Some row \<Rightarrow>
         kanban_event e card_id ''kanban_card.deleted'' actor_email
           [(''title'', PStr (kc_title row)), (''status'', PStr (kc_status row))]
           (db\<lparr>kb_cards := del_where (\<lambda>r. kc_id r = card_id) (kb_cards db)\<rparr>))"

subsection \<open>Invariant\<close>

definition kanban_card_ok :: "kanban_card \<Rightarrow> bool" where
  "kanban_card_ok r \<longleftrightarrow>
     kc_id r \<noteq> [] \<and> kc_tenant r \<noteq> [] \<and> kc_actor r \<noteq> [] \<and>
     kc_title r \<noteq> [] \<and> length (kc_title r) \<le> 120 \<and> length (kc_description r) \<le> 2000 \<and>
     kc_status r \<in> set kanban_statuses \<and> length (kc_assignee r) \<le> 128 \<and>
     - (2 ^ 31) \<le> kc_priority r \<and> kc_priority r < 2 ^ 31 \<and>
     - (2 ^ 31) \<le> kc_sort_order r \<and> kc_sort_order r < 2 ^ 31"

definition kanban_ok :: "kanban_db \<Rightarrow> bool" where
  "kanban_ok db \<longleftrightarrow> uniq kc_id (kb_cards db) \<and> uniq ke_id (kb_events db) \<and>
     (\<forall>r \<in> set (kb_cards db). kanban_card_ok r)"

definition kanban_owned :: "string \<Rightarrow> string \<Rightarrow> kanban_card \<Rightarrow> bool" where
  "kanban_owned tenant actor r \<longleftrightarrow> kc_tenant r = tenant \<and> kc_actor r = actor"

lemma kanban_event_Inr [simp]:
  "kanban_event e cid ty ac body db = Inr db' \<longleftrightarrow>
     (let ev = \<lparr> ke_id = ''evt_'' @ take 16 (uuid_hex e 0), ke_card = cid, ke_type = ty,
                 ke_payload = json_dumps (PDict body), ke_actor = ac, ke_created_at = now e \<rparr>
      in \<not> has_key ke_id (ke_id ev) (kb_events db) \<and> db' = db\<lparr>kb_events := kb_events db @ [ev]\<rparr>)"
  by (auto simp: kanban_event_def Let_def bindE_Inr_iff)

text \<open>What a successful upsert did, in either branch.\<close>

lemma upsert_kanban_card_cases:
  assumes "apply_upsert_kanban_card e p db = Inr db'"
  obtains (update) cid r f ev where
      "req_str p ''card_id'' = Inr cid"
      "sel_one (\<lambda>r. kc_id r = cid) (kb_cards db) = Some r"
      "kanban_owned (dflt_str p ''tenant_id'' ''default'') (dflt_str p ''actor_email'' ''system'') r"
      "kb_cards db' = upd_where (\<lambda>r. kc_id r = cid) f (kb_cards db)"
      "\<And>r. kc_id (f r) = kc_id r \<and> kc_tenant (f r) = kc_tenant r \<and> kc_actor (f r) = kc_actor r"
      "\<And>r. kanban_card_ok r \<Longrightarrow> kanban_card_ok (f r)"
      "kc_title (f r) = take 120 (opt_str p ''title'' [])"
      "kc_status (f r) = opt_str p ''status'' ''todo''"
      "kb_events db' = kb_events db @ [ev]" "\<not> has_key ke_id (ke_id ev) (kb_events db)"
      "ke_card ev = cid" "ke_type ev = ''kanban_card.updated''"
  | (create) cid r ev where
      "req_str p ''card_id'' = Inr cid"
      "\<not> has_key kc_id cid (kb_cards db)"
      "kb_cards db' = kb_cards db @ [r]" "kc_id r = cid" "kanban_card_ok r"
      "kanban_owned (dflt_str p ''tenant_id'' ''default'') (dflt_str p ''actor_email'' ''system'') r"
      "kc_title r = take 120 (opt_str p ''title'' [])"
      "kc_status r = opt_str p ''status'' ''todo''"
      "kb_events db' = kb_events db @ [ev]" "\<not> has_key ke_id (ke_id ev) (kb_events db)"
      "ke_card ev = cid" "ke_type ev = ''kanban_card.created''"
proof -
  obtain cid where cid: "req_str p ''card_id'' = Inr cid" "cid \<noteq> []"
    using assms unfolding apply_upsert_kanban_card_def by (auto split: if_splits)
  show thesis
  proof (cases "sel_one (\<lambda>r. kc_id r = cid) (kb_cards db)")
    case None
    show thesis
      using assms cid None unfolding apply_upsert_kanban_card_def
      apply (clarsimp simp: Let_def split: if_splits)
      apply (rule create [OF cid(1)])
      apply (simp add: sel_one_None has_key_iff kanban_owned_def kanban_card_ok_def)+
      done
  next
    case (Some r)
    show thesis
      using assms cid Some unfolding apply_upsert_kanban_card_def
      apply (clarsimp simp: Let_def split: if_splits)
      apply (rule update [OF cid(1) Some])
      apply (simp add: kanban_owned_def kanban_card_ok_def)+
      done
  qed
qed

lemma delete_kanban_card_cases:
  assumes "apply_delete_kanban_card e p db = Inr db'"
  obtains cid r ev where
      "req_str p ''card_id'' = Inr cid" "cid \<noteq> []"
      "r \<in> set (kb_cards db)" "kc_id r = cid"
      "kanban_owned (dflt_str p ''tenant_id'' ''default'') (dflt_str p ''actor_email'' ''system'') r"
      "kb_cards db' = del_where (\<lambda>r. kc_id r = cid) (kb_cards db)"
      "kb_events db' = kb_events db @ [ev]" "\<not> has_key ke_id (ke_id ev) (kb_events db)"
      "ke_card ev = cid" "ke_type ev = ''kanban_card.deleted''"
proof -
  obtain cid where cid: "req_str p ''card_id'' = Inr cid" "cid \<noteq> []"
    using assms unfolding apply_delete_kanban_card_def by (auto split: if_splits)
  then obtain r where r: "sel_one (\<lambda>r. kc_id r = cid \<and> kc_tenant r = dflt_str p ''tenant_id'' ''default'' \<and>
      kc_actor r = dflt_str p ''actor_email'' ''system'') (kb_cards db) = Some r"
    using assms unfolding apply_delete_kanban_card_def by (auto simp: Let_def split: option.splits)
  note mem = sel_one_Some [OF r]
  show thesis
    using assms cid r unfolding apply_delete_kanban_card_def
    apply (clarsimp simp: Let_def)
    apply (rule that [OF cid, of r])
    apply (simp add: mem kanban_owned_def)+
    done
qed

abbreviation kanban_handlers :: "(env \<Rightarrow> payload \<Rightarrow> kanban_db \<Rightarrow> py_error + kanban_db) set" where
  "kanban_handlers \<equiv> {apply_upsert_kanban_card, apply_delete_kanban_card}"

subsection \<open>Lemmas\<close>

lemma kanban_clean_length:
  "length clean < 16 \<Longrightarrow> length (kanban_clean_tags clean tags) \<le> 16"
  by (induction clean tags rule: kanban_clean_tags.induct) (auto simp: Let_def)

lemma kanban_clean_Cons:
  "kanban_clean_tags clean (tag # tags) = (let
     clean' = (if strip (pystr tag) \<noteq> [] \<and> strip (pystr tag) \<notin> set clean
               then clean @ [take 64 (strip (pystr tag))] else clean)
   in if 16 \<le> length clean' then clean' else kanban_clean_tags clean' tags)"
  by (simp add: Let_def)

lemma kanban_clean_invariant:
  assumes "\<And>c v. v \<in> set tags \<Longrightarrow> P c \<Longrightarrow> strip (pystr v) \<noteq> [] \<Longrightarrow> strip (pystr v) \<notin> set c \<Longrightarrow>
      P (c @ [take 64 (strip (pystr v))])"
    and "P clean"
  shows "P (kanban_clean_tags clean tags)"
  using assms
proof (induction tags arbitrary: clean)
  case (Cons tag tags)
  let ?c = "if strip (pystr tag) \<noteq> [] \<and> strip (pystr tag) \<notin> set clean
            then clean @ [take 64 (strip (pystr tag))] else clean"
  have c: "P ?c" using Cons.prems(1) [of tag clean] Cons.prems(2) by simp
  have "P (kanban_clean_tags ?c tags)"
    using Cons.prems(1) by (intro Cons.IH c) simp
  with c show ?case by (simp only: kanban_clean_Cons Let_def split: if_split) blast
qed simp

lemma kanban_clean_items:
  "\<forall>t \<in> set (kanban_clean_tags [] tags). t \<noteq> [] \<and> length t \<le> 64"
  by (rule kanban_clean_invariant) auto

lemma kanban_clean_distinct:
  assumes "\<forall>v \<in> set tags. length (strip (pystr v)) \<le> 64"
  shows "distinct (kanban_clean_tags [] tags)"
proof (rule kanban_clean_invariant)
  fix c v
  assume v: "v \<in> set tags" "distinct c" "strip (pystr v) \<notin> set c"
  then have "take 64 (strip (pystr v)) = strip (pystr v)" using assms by simp
  with v show "distinct (c @ [take 64 (strip (pystr v))])" by simp
qed simp

lemma kanban_upsert_ok:
  assumes "kanban_ok db" and "apply_upsert_kanban_card e p db = Inr db'"
  shows "kanban_ok db'"
  using assms(2)
proof (cases rule: upsert_kanban_card_cases)
  case (update cid r f ev)
  have "uniq kc_id (kb_cards db')"
    using assms(1) update(4,5) by (simp add: kanban_ok_def uniq_upd_where)
  moreover have "\<forall>r \<in> set (kb_cards db'). kanban_card_ok r"
    using assms(1) unfolding update(4) kanban_ok_def
    by (intro ball_upd_where) (simp_all add: update(6))
  ultimately show ?thesis
    using assms(1) update(9,10) by (simp add: kanban_ok_def)
next
  case (create cid r ev)
  with assms(1) show ?thesis by (auto simp: kanban_ok_def)
qed

lemma kanban_delete_ok:
  assumes "kanban_ok db" and "apply_delete_kanban_card e p db = Inr db'"
  shows "kanban_ok db'"
  using assms(2)
proof (cases rule: delete_kanban_card_cases)
  case (1 cid r ev)
  with assms(1) show ?thesis by (auto simp: kanban_ok_def)
qed

lemma kanban_key_owned:
  assumes "kanban_ok db" "r \<in> set (kb_cards db)" "kanban_owned t a r" "s \<in> set (kb_cards db)" "kc_id s = kc_id r"
  shows "kanban_owned t a s"
  using uniq_eq [of kc_id "kb_cards db" s r] assms by (auto simp: kanban_ok_def)

subsection \<open>Properties\<close>

text \<open>
  The kanban tables keep their constraints through every successful command: primary keys are
  unique, and every card has an owner, a non-empty title of at most 120 characters, one of the four
  statuses and INTEGER-sized priority and sort order.
\<close>

lemma kanban_preserves_ok:
  assumes "kanban_ok db" and "h \<in> kanban_handlers" and "h e p db = Inr db'"
  shows "kanban_ok db'"
  using assms(2,3) kanban_upsert_ok [OF assms(1)] kanban_delete_ok [OF assms(1)] by blast

lemma kanban_preserves_ok_witness:
  "kanban_ok \<lparr>kb_cards = [], kb_events = []\<rparr> \<and>
   (\<exists>db'. apply_upsert_kanban_card env0
        [(''card_id'', PStr ''c1''), (''title'', PStr ''Plan'')] \<lparr>kb_cards = [], kb_events = []\<rparr> = Inr db' \<and>
      kanban_ok db' \<and> kb_cards db' \<noteq> [])"
proof -
  let ?p = "[(''card_id'', PStr ''c1''), (''title'', PStr ''Plan'')]"
  let ?db = "\<lparr>kb_cards = [], kb_events = []\<rparr>"
  have "case apply_upsert_kanban_card env0 ?p ?db of Inl _ \<Rightarrow> False | Inr d \<Rightarrow> kb_cards d \<noteq> []"
    by code_simp
  then obtain d where d: "apply_upsert_kanban_card env0 ?p ?db = Inr d" "kb_cards d \<noteq> []"
    by (auto split: sum.splits)
  have ok: "kanban_ok ?db" by (simp add: kanban_ok_def)
  then have "kanban_ok d" using d(1) by (rule kanban_preserves_ok [OF _ insertI1])
  with d ok show ?thesis by blast
qed

text \<open>
  A command of one (tenant, actor) leaves every card of the others exactly as it was, and the
  history is append-only: each success appends one event, about the card of the command.
\<close>

lemma kanban_isolation:
  assumes "kanban_ok db" and "h \<in> kanban_handlers" and "h e p db = Inr db'"
  shows "outside (kanban_owned (dflt_str p ''tenant_id'' ''default'') (dflt_str p ''actor_email'' ''system''))
           (kb_cards db') =
         outside (kanban_owned (dflt_str p ''tenant_id'' ''default'') (dflt_str p ''actor_email'' ''system''))
           (kb_cards db)
       \<and> (\<exists>ev. kb_events db' = kb_events db @ [ev] \<and> req_str p ''card_id'' = Inr (ke_card ev))"
    (is "outside ?P _ = _ \<and> ?E")
proof (cases "h = apply_upsert_kanban_card")
  case True
  with assms(3) have "apply_upsert_kanban_card e p db = Inr db'" by simp
  then show ?thesis
  proof (cases rule: upsert_kanban_card_cases)
    case (update cid r f ev)
    note r = sel_one_Some [OF update(2)]
    have "outside ?P (upd_where (\<lambda>r. kc_id r = cid) f (kb_cards db)) = outside ?P (kb_cards db)"
    proof (rule outside_upd_where)
      fix s assume "s \<in> set (kb_cards db)" "kc_id s = cid"
      then show "?P s \<and> ?P (f s)"
        using kanban_key_owned [OF assms(1), of r _ _ s] r update(3,5) by (simp add: kanban_owned_def)
    qed
    with update show ?thesis by auto
  next
    case (create cid r ev)
    then show ?thesis by auto
  qed
next
  case False
  with assms(2,3) have "apply_delete_kanban_card e p db = Inr db'" by blast
  then show ?thesis
  proof (cases rule: delete_kanban_card_cases)
    case (1 cid r ev)
    have "outside ?P (del_where (\<lambda>r. kc_id r = cid) (kb_cards db)) = outside ?P (kb_cards db)"
    proof (rule outside_del_where)
      fix s assume "s \<in> set (kb_cards db)" "kc_id s = cid"
      then show "?P s" using kanban_key_owned [OF assms(1), of r _ _ s] 1 by simp
    qed
    with 1 show ?thesis by auto
  qed
qed

lemma kanban_isolation_witness:
  "\<exists>db db'. kanban_ok db \<and> kb_cards db \<noteq> [] \<and>
     apply_upsert_kanban_card env0
       [(''card_id'', PStr ''c2''), (''title'', PStr ''Mine''), (''actor_email'', PStr ''a@x'')] db = Inr db' \<and>
     outside (kanban_owned ''default'' ''a@x'') (kb_cards db') = kb_cards db"
proof -
  let ?r = "\<lparr>kc_id = ''c1'', kc_tenant = ''default'', kc_actor = ''b@x'', kc_title = ''T'',
     kc_description = [], kc_status = ''todo'', kc_priority = 0, kc_sort_order = 0, kc_assignee = [],
     kc_tags_json = ''[]'', kc_created_at = 1, kc_updated_at = 1\<rparr>"
  let ?p = "[(''card_id'', PStr ''c2''), (''title'', PStr ''Mine''), (''actor_email'', PStr ''a@x'')]"
  let ?db = "\<lparr>kb_cards = [?r], kb_events = []\<rparr>"
  have "case apply_upsert_kanban_card env0 ?p ?db of Inl _ \<Rightarrow> False | Inr d \<Rightarrow> True"
    by code_simp
  then obtain d where d: "apply_upsert_kanban_card env0 ?p ?db = Inr d"
    by (auto split: sum.splits)
  have ok: "kanban_ok ?db"
    by (simp add: kanban_ok_def kanban_card_ok_def kanban_statuses_def uniq_def)
  have sc: "dflt_str ?p ''tenant_id'' ''default'' = ''default''" "dflt_str ?p ''actor_email'' ''system'' = ''a@x''"
    by code_simp+
  have "outside (kanban_owned ''default'' ''a@x'') (kb_cards d) = kb_cards ?db"
    using kanban_isolation [OF ok insertI1 d] unfolding sc
    by (simp add: outside_def kanban_owned_def)
  with ok d show ?thesis by (intro exI [of _ ?db] exI [of _ d]) simp
qed

end
