(* ===== verification/Worlds.thy ===== *)
theory Worlds
  imports Tables
begin

text \<open>
  Self-hosted worlds and their bots: \<open>packages/shared/src/duckclaw/write_handlers/worlds.py\<close> over
  \<open>admin_worlds\<close> and \<open>admin_world_bots\<close>. The configuration is written by the console, the status of a
  bot only by the runner's report.
\<close>

subsection \<open>State\<close>

record world_row =
  wo_id :: string
  wo_tenant :: string
  wo_actor :: string
  wo_name :: string
  wo_kind :: string
  wo_host :: string
  wo_port :: "int option"
  wo_config :: string
  wo_enabled :: bool
  wo_created_at :: int
  wo_updated_at :: int

record world_bot_row =
  wb_id :: string
  wb_world :: string
  wb_tenant :: string
  wb_actor :: string
  wb_name :: string
  wb_worker :: string
  wb_settings :: string
  wb_enabled :: bool
  wb_status :: string
  wb_detail :: string
  wb_last_seen :: "int option"
  wb_created_at :: int
  wb_updated_at :: int

record worlds_db =
  wd_worlds :: "world_row list"
  wd_bots :: "world_bot_row list"

subsection \<open>Operations\<close>

definition world_scope :: "payload \<Rightarrow> string \<times> string" where
  "world_scope payload =
     (dflt_str payload ''tenant_id'' ''default'', dflt_str payload ''actor_email'' ''system'')"

definition world_json_text :: "pyval \<Rightarrow> string" where
  "world_json_text v = json_dumps (PDict (case v of PDict d \<Rightarrow> d | _ \<Rightarrow> []))"

definition apply_upsert_world :: "env \<Rightarrow> payload \<Rightarrow> worlds_db \<Rightarrow> py_error + worlds_db" where
  "apply_upsert_world e payload db =
     bindE (req_str payload ''world_id'') (\<lambda>world_id.
     let name = take 80 (opt_str payload ''name'' []) in
     if world_id = [] \<or> name = [] then Inl (ValueError ''world_id and name required'') else
     let (tenant_id, actor) = world_scope payload;
         row = sel_one (\<lambda>r. wo_id r = world_id) (wd_worlds db)
     in
     if row \<noteq> None \<and> (wo_tenant (the row), wo_actor (the row)) \<noteq> (tenant_id, actor)
     then Inl (ValueError ''World not found for tenant/actor'') else
     let kind = gstr payload ''kind'' ''generic''; host = gstr payload ''host'' [];
         config = world_json_text (pget payload ''config'' PNone);
         enabled = truthy (pget payload ''enabled'' (PBool True))
     in
     bindE (sql_int_param e (pget payload ''port'' PNone)) (\<lambda>port.
     if row \<noteq> None then
       Inr (db\<lparr>wd_worlds := upd_where (\<lambda>r. wo_id r = world_id)
         (\<lambda>r. r\<lparr>wo_name := name, wo_kind := kind, wo_host := host, wo_port := port,
                wo_config := config, wo_enabled := enabled, wo_updated_at := now e\<rparr>) (wd_worlds db)\<rparr>)
     else
       bindE (ins_row wo_id
         \<lparr>wo_id = world_id, wo_tenant = tenant_id, wo_actor = actor, wo_name = name, wo_kind = kind,
          wo_host = host, wo_port = port, wo_config = config, wo_enabled = enabled,
          wo_created_at = now e, wo_updated_at = now e\<rparr> (wd_worlds db))
       (\<lambda>ws. Inr (db\<lparr>wd_worlds := ws\<rparr>))))"

definition apply_delete_world :: "env \<Rightarrow> payload \<Rightarrow> worlds_db \<Rightarrow> py_error + worlds_db" where
  "apply_delete_world e payload db =
     bindE (req_str payload ''world_id'') (\<lambda>world_id.
     let (tenant_id, actor) = world_scope payload in
     case sel_one (\<lambda>r. wo_id r = world_id \<and> (wo_tenant r = tenant_id \<and> wo_actor r = actor)) (wd_worlds db) of
       None \<Rightarrow> Inl (ValueError ''World not found'')
     | Some _ \<Rightarrow>
         Inr (db\<lparr>wd_bots := del_where (\<lambda>b. wb_world b = world_id \<and> wb_tenant b = tenant_id \<and> wb_actor b = actor)
                   (wd_bots db),
                 wd_worlds := del_where (\<lambda>r. wo_id r = world_id) (wd_worlds db)\<rparr>))"

definition apply_upsert_world_bot :: "env \<Rightarrow> payload \<Rightarrow> worlds_db \<Rightarrow> py_error + worlds_db" where
  "apply_upsert_world_bot e payload db =
     bindE (req_str payload ''bot_id'') (\<lambda>bot_id.
     bindE (req_str payload ''world_id'') (\<lambda>world_id.
     let name = take 48 (opt_str payload ''name'' []) in
     if bot_id = [] \<or> world_id = [] \<or> name = []
     then Inl (ValueError ''bot_id, world_id and name required'') else
     let (tenant_id, actor) = world_scope payload in
     if sel_one (\<lambda>r. wo_id r = world_id \<and> (wo_tenant r = tenant_id \<and> wo_actor r = actor)) (wd_worlds db) = None
     then Inl (ValueError ''World not found for tenant/actor'') else
     let row = sel_one (\<lambda>b. wb_id b = bot_id) (wd_bots db) in
     if row \<noteq> None \<and> (wb_tenant (the row), wb_actor (the row)) \<noteq> (tenant_id, actor)
     then Inl (ValueError ''Bot not found for tenant/actor'') else
     let worker = take 128 (gstr payload ''worker_id'' []);
         settings = world_json_text (pget payload ''settings'' PNone);
         enabled = truthy (pget payload ''enabled'' (PBool True))
     in
     if row \<noteq> None then
       Inr (db\<lparr>wd_bots := upd_where (\<lambda>b. wb_id b = bot_id)
         (\<lambda>b. b\<lparr>wb_world := world_id, wb_name := name, wb_worker := worker, wb_settings := settings,
                wb_enabled := enabled, wb_updated_at := now e\<rparr>) (wd_bots db)\<rparr>)
     else
       bindE (ins_row wb_id
         \<lparr>wb_id = bot_id, wb_world = world_id, wb_tenant = tenant_id, wb_actor = actor, wb_name = name,
          wb_worker = worker, wb_settings = settings, wb_enabled = enabled, wb_status = ''unknown'',
          wb_detail = [], wb_last_seen = None, wb_created_at = now e, wb_updated_at = now e\<rparr> (wd_bots db))
       (\<lambda>bs. Inr (db\<lparr>wd_bots := bs\<rparr>))))"

definition apply_delete_world_bot :: "env \<Rightarrow> payload \<Rightarrow> worlds_db \<Rightarrow> py_error + worlds_db" where
  "apply_delete_world_bot e payload db =
     (let (tenant_id, actor) = world_scope payload in
     bindE (req_str payload ''bot_id'') (\<lambda>bot_id.
     case sel_one (\<lambda>b. wb_id b = bot_id \<and> (wb_tenant b = tenant_id \<and> wb_actor b = actor)) (wd_bots db) of
       None \<Rightarrow> Inl (ValueError ''Bot not found'')
     | Some _ \<Rightarrow> Inr (db\<lparr>wd_bots := del_where (\<lambda>b. wb_id b = bot_id) (wd_bots db)\<rparr>)))"

definition apply_report_world_bot_status :: "env \<Rightarrow> payload \<Rightarrow> worlds_db \<Rightarrow> py_error + worlds_db" where
  "apply_report_world_bot_status e payload db =
     (let (tenant_id, actor) = world_scope payload in
     bindE (req_str payload ''bot_id'') (\<lambda>bot_id.
     case sel_one (\<lambda>b. wb_id b = bot_id \<and> (wb_tenant b = tenant_id \<and> wb_actor b = actor)) (wd_bots db) of
       None \<Rightarrow> Inl (ValueError ''Bot not found'')
     | Some _ \<Rightarrow>
         Inr (db\<lparr>wd_bots := upd_where (\<lambda>b. wb_id b = bot_id)
           (\<lambda>b. b\<lparr>wb_status := gstr payload ''status'' ''unknown'',
                  wb_detail := take 300 (gstr payload ''detail'' []),
                  wb_last_seen := Some (now e)\<rparr>) (wd_bots db)\<rparr>)))"

subsection \<open>What each operation does\<close>

definition world_own :: "string \<times> string \<Rightarrow> world_row \<Rightarrow> bool" where
  "world_own s r \<longleftrightarrow> (wo_tenant r, wo_actor r) = s"

definition bot_own :: "string \<times> string \<Rightarrow> world_bot_row \<Rightarrow> bool" where
  "bot_own s b \<longleftrightarrow> (wb_tenant b, wb_actor b) = s"

lemma sel_world_own:
  "(\<lambda>r. wo_id r = w \<and> (wo_tenant r = fst s \<and> wo_actor r = snd s)) = (\<lambda>r. wo_id r = w \<and> world_own s r)"
  by (cases s) (auto simp: world_own_def)

lemma sel_bot_own:
  "(\<lambda>b. wb_id b = k \<and> (wb_tenant b = fst s \<and> wb_actor b = snd s)) = (\<lambda>b. wb_id b = k \<and> bot_own s b)"
  by (cases s) (auto simp: bot_own_def)

definition worlds_keys :: "worlds_db \<Rightarrow> bool" where
  "worlds_keys db \<longleftrightarrow> uniq wo_id (wd_worlds db) \<and> uniq wb_id (wd_bots db)"

text \<open>Every bot lives in an existing world of its own tenant and actor.\<close>

definition bots_housed :: "worlds_db \<Rightarrow> bool" where
  "bots_housed db \<longleftrightarrow> (\<forall>b \<in> set (wd_bots db). \<exists>w \<in> set (wd_worlds db).
     wo_id w = wb_world b \<and> wo_tenant w = wb_tenant b \<and> wo_actor w = wb_actor b)"

definition worlds_ok :: "worlds_db \<Rightarrow> bool" where
  "worlds_ok db \<longleftrightarrow> worlds_keys db \<and> bots_housed db"

lemma upsert_world_cases:
  assumes "apply_upsert_world e p db = Inr db'"
  obtains (update) wid r f where
      "sel_one (\<lambda>r. wo_id r = wid) (wd_worlds db) = Some r"
      "db' = db\<lparr>wd_worlds := upd_where (\<lambda>r. wo_id r = wid) f (wd_worlds db)\<rparr>"
      "world_own (world_scope p) r"
      "\<And>r. wo_id (f r) = wo_id r \<and> wo_tenant (f r) = wo_tenant r \<and> wo_actor (f r) = wo_actor r"
  | (create) r where
      "db' = db\<lparr>wd_worlds := wd_worlds db @ [r]\<rparr>"
      "\<not> has_key wo_id (wo_id r) (wd_worlds db)" "world_own (world_scope p) r"
proof -
  obtain t a where s: "world_scope p = (t, a)" by (cases "world_scope p")
  obtain wid where wid: "req_str p ''world_id'' = Inr wid"
    using assms unfolding apply_upsert_world_def by auto
  show thesis
  proof (cases "sel_one (\<lambda>r. wo_id r = wid) (wd_worlds db)")
    case None
    show thesis
      using assms wid s None unfolding apply_upsert_world_def
      apply (clarsimp simp: Let_def split: if_splits)
      by (rule create) (simp add: world_own_def)+
  next
    case (Some r)
    show thesis
      using assms wid s Some unfolding apply_upsert_world_def
      apply (clarsimp simp: Let_def split: if_splits)
      by (rule update [OF Some]) (simp add: world_own_def)+
  qed
qed

lemma delete_world_cases:
  assumes "apply_delete_world e p db = Inr db'"
  obtains wid r where
      "sel_one (\<lambda>r. wo_id r = wid \<and> world_own (world_scope p) r) (wd_worlds db) = Some r"
      "db' = db\<lparr>wd_bots := del_where (\<lambda>b. wb_world b = wid \<and> bot_own (world_scope p) b) (wd_bots db),
               wd_worlds := del_where (\<lambda>r. wo_id r = wid) (wd_worlds db)\<rparr>"
  using assms unfolding apply_delete_world_def
  by (cases "world_scope p") (auto simp: Let_def world_own_def bot_own_def split: option.splits)

lemma upsert_world_bot_cases:
  assumes "apply_upsert_world_bot e p db = Inr db'"
  obtains (update) bid wid w b f where
      "sel_one (\<lambda>r. wo_id r = wid \<and> world_own (world_scope p) r) (wd_worlds db) = Some w"
      "sel_one (\<lambda>b. wb_id b = bid) (wd_bots db) = Some b"
      "db' = db\<lparr>wd_bots := upd_where (\<lambda>b. wb_id b = bid) f (wd_bots db)\<rparr>"
      "bot_own (world_scope p) b"
      "\<And>b. wb_id (f b) = wb_id b \<and> wb_tenant (f b) = wb_tenant b \<and> wb_actor (f b) = wb_actor b \<and>
        wb_world (f b) = wid"
      "\<And>b. wb_status (f b) = wb_status b \<and> wb_detail (f b) = wb_detail b \<and> wb_last_seen (f b) = wb_last_seen b"
  | (create) wid w b where
      "sel_one (\<lambda>r. wo_id r = wid \<and> world_own (world_scope p) r) (wd_worlds db) = Some w"
      "db' = db\<lparr>wd_bots := wd_bots db @ [b]\<rparr>"
      "\<not> has_key wb_id (wb_id b) (wd_bots db)" "bot_own (world_scope p) b" "wb_world b = wid"
      "wb_status b = ''unknown''" "wb_detail b = []" "wb_last_seen b = None"
proof -
  obtain t a where s: "world_scope p = (t, a)" by (cases "world_scope p")
  obtain bid wid where ids: "req_str p ''bot_id'' = Inr bid" "req_str p ''world_id'' = Inr wid"
    using assms unfolding apply_upsert_world_bot_def by auto
  then obtain w where "sel_one (\<lambda>r. wo_id r = wid \<and> (wo_tenant r = t \<and> wo_actor r = a)) (wd_worlds db) = Some w"
    using assms s unfolding apply_upsert_world_bot_def by (auto simp: Let_def split: if_splits)
  then have w: "sel_one (\<lambda>r. wo_id r = wid \<and> world_own (world_scope p) r) (wd_worlds db) = Some w"
    by (simp add: world_own_def s)
  show thesis
  proof (cases "sel_one (\<lambda>b. wb_id b = bid) (wd_bots db)")
    case None
    show thesis
      using assms ids s None unfolding apply_upsert_world_bot_def
      apply (clarsimp simp: Let_def split: if_splits)
      by (rule create [OF w]) (simp add: bot_own_def)+
  next
    case (Some b)
    show thesis
      using assms ids s Some unfolding apply_upsert_world_bot_def
      apply (clarsimp simp: Let_def split: if_splits)
      by (rule update [OF w Some]) (simp add: bot_own_def)+
  qed
qed

lemma delete_world_bot_cases:
  assumes "apply_delete_world_bot e p db = Inr db'"
  obtains bid b where
      "sel_one (\<lambda>b. wb_id b = bid \<and> bot_own (world_scope p) b) (wd_bots db) = Some b"
      "db' = db\<lparr>wd_bots := del_where (\<lambda>b. wb_id b = bid) (wd_bots db)\<rparr>"
  using assms unfolding apply_delete_world_bot_def
  by (cases "world_scope p") (auto simp: Let_def bot_own_def split: option.splits)

lemma report_world_bot_status_cases:
  assumes "apply_report_world_bot_status e p db = Inr db'"
  obtains bid b where
      "sel_one (\<lambda>b. wb_id b = bid \<and> bot_own (world_scope p) b) (wd_bots db) = Some b"
      "db' = db\<lparr>wd_bots := upd_where (\<lambda>b. wb_id b = bid)
         (\<lambda>b. b\<lparr>wb_status := gstr p ''status'' ''unknown'', wb_detail := take 300 (gstr p ''detail'' []),
                wb_last_seen := Some (now e)\<rparr>) (wd_bots db)\<rparr>"
  using assms unfolding apply_report_world_bot_status_def
  by (cases "world_scope p") (auto simp: Let_def bot_own_def split: option.splits)

definition world_handlers :: "(env \<Rightarrow> payload \<Rightarrow> worlds_db \<Rightarrow> py_error + worlds_db) set" where
  "world_handlers = {apply_upsert_world, apply_delete_world, apply_upsert_world_bot,
     apply_delete_world_bot, apply_report_world_bot_status}"

definition world_console_handlers :: "(env \<Rightarrow> payload \<Rightarrow> worlds_db \<Rightarrow> py_error + worlds_db) set" where
  "world_console_handlers =
     {apply_upsert_world, apply_delete_world, apply_upsert_world_bot, apply_delete_world_bot}"

text \<open>Every command is a scoped change of both tables.\<close>

definition worlds_scoped :: "string \<times> string \<Rightarrow> worlds_db \<Rightarrow> worlds_db \<Rightarrow> bool" where
  "worlds_scoped s db db' \<longleftrightarrow>
     scoped_step wo_id (world_own s) (wd_worlds db) (wd_worlds db') \<and>
     scoped_step wb_id (bot_own s) (wd_bots db) (wd_bots db')"

lemma upsert_world_scoped:
  assumes k: "worlds_keys db" and h: "apply_upsert_world e p db = Inr db'"
  shows "worlds_scoped (world_scope p) db db'"
  using h
proof (cases rule: upsert_world_cases)
  case (update wid r f)
  have "scoped_step wo_id (world_own (world_scope p)) (wd_worlds db)
      (upd_where (\<lambda>r. wo_id r = wid) f (wd_worlds db))"
    using k owned_by_key [where key = wo_id and own = "world_own (world_scope p)", OF _ update(1,3)] update(4)
    by (intro scoped_upd) (auto simp: worlds_keys_def world_own_def)
  with update(2) show ?thesis by (simp add: worlds_scoped_def scoped_refl)
next
  case (create r)
  then show ?thesis by (simp add: worlds_scoped_def scoped_refl scoped_ins)
qed

lemma delete_world_scoped:
  assumes k: "worlds_keys db" and h: "apply_delete_world e p db = Inr db'"
  shows "worlds_scoped (world_scope p) db db'"
  using h
proof (cases rule: delete_world_cases)
  case (1 wid r)
  have "scoped_step wo_id (world_own (world_scope p)) (wd_worlds db)
      (del_where (\<lambda>r. wo_id r = wid) (wd_worlds db))"
    using k owned_by_key2 [OF _ 1(1)] by (intro scoped_del) (simp add: worlds_keys_def)
  moreover have "scoped_step wb_id (bot_own (world_scope p)) (wd_bots db)
      (del_where (\<lambda>b. wb_world b = wid \<and> bot_own (world_scope p) b) (wd_bots db))"
    by (intro scoped_del) simp
  ultimately show ?thesis using 1(2) by (simp add: worlds_scoped_def)
qed

lemma upsert_world_bot_scoped:
  assumes k: "worlds_keys db" and h: "apply_upsert_world_bot e p db = Inr db'"
  shows "worlds_scoped (world_scope p) db db'"
  using h
proof (cases rule: upsert_world_bot_cases)
  case (update bid wid w b f)
  have "scoped_step wb_id (bot_own (world_scope p)) (wd_bots db)
      (upd_where (\<lambda>b. wb_id b = bid) f (wd_bots db))"
    using k owned_by_key [where key = wb_id and own = "bot_own (world_scope p)", OF _ update(2,4)] update(5)
    by (intro scoped_upd) (auto simp: worlds_keys_def bot_own_def)
  with update(3) show ?thesis by (simp add: worlds_scoped_def scoped_refl)
next
  case (create wid w b)
  then show ?thesis by (simp add: worlds_scoped_def scoped_refl scoped_ins)
qed

lemma delete_world_bot_scoped:
  assumes k: "worlds_keys db" and h: "apply_delete_world_bot e p db = Inr db'"
  shows "worlds_scoped (world_scope p) db db'"
  using h
proof (cases rule: delete_world_bot_cases)
  case (1 bid b)
  have "scoped_step wb_id (bot_own (world_scope p)) (wd_bots db)
      (del_where (\<lambda>b. wb_id b = bid) (wd_bots db))"
    using k owned_by_key2 [OF _ 1(1)] by (intro scoped_del) (simp add: worlds_keys_def)
  with 1(2) show ?thesis by (simp add: worlds_scoped_def scoped_refl)
qed

lemma report_world_bot_status_scoped:
  assumes k: "worlds_keys db" and h: "apply_report_world_bot_status e p db = Inr db'"
  shows "worlds_scoped (world_scope p) db db'"
  using h
proof (cases rule: report_world_bot_status_cases)
  case (1 bid b)
  have "scoped_step wb_id (bot_own (world_scope p)) (wd_bots db) (wd_bots db')"
    unfolding 1(2)
    using k owned_by_key2 [OF _ 1(1)]
    by (simp, intro scoped_upd) (auto simp: worlds_keys_def bot_own_def)
  with 1(2) show ?thesis by (simp add: worlds_scoped_def scoped_refl)
qed

lemmas world_handler_scoped =
  upsert_world_scoped delete_world_scoped upsert_world_bot_scoped delete_world_bot_scoped
  report_world_bot_status_scoped

lemma worlds_scoped_keys: "worlds_scoped s db db' \<Longrightarrow> worlds_keys db \<Longrightarrow> worlds_keys db'"
  by (auto simp: worlds_scoped_def worlds_keys_def dest: scoped_step_uniq)

lemma world_handlers_scoped:
  assumes "worlds_keys db" and "h \<in> world_handlers" and "h e p db = Inr db'"
  shows "worlds_scoped (world_scope p) db db'"
  using assms(2,3) world_handler_scoped [OF assms(1)] unfolding world_handlers_def by blast

subsection \<open>Bots stay housed\<close>

definition same_home :: "world_bot_row \<Rightarrow> world_row \<Rightarrow> bool" where
  "same_home b w \<longleftrightarrow> wo_id w = wb_world b \<and> wo_tenant w = wb_tenant b \<and> wo_actor w = wb_actor b"

lemma bots_housed_iff:
  "bots_housed db \<longleftrightarrow> (\<forall>b \<in> set (wd_bots db). \<exists>w \<in> set (wd_worlds db). same_home b w)"
  by (simp add: bots_housed_def same_home_def)

lemma same_home_upd_world:
  "w \<in> set t \<Longrightarrow> same_home b w \<Longrightarrow>
   (\<And>r. wo_id (f r) = wo_id r \<and> wo_tenant (f r) = wo_tenant r \<and> wo_actor (f r) = wo_actor r) \<Longrightarrow>
   \<exists>w' \<in> set (upd_where P f t). same_home b w'"
  by (rule bexI [of _ "if P w then f w else w"]) (auto simp: upd_where_def same_home_def)

lemma bots_housed_mono:
  assumes "bots_housed db" "wd_bots db' = wd_bots db"
    "\<And>b w. w \<in> set (wd_worlds db) \<Longrightarrow> same_home b w \<Longrightarrow> \<exists>w' \<in> set (wd_worlds db'). same_home b w'"
  shows "bots_housed db'"
  using assms unfolding bots_housed_iff by metis

lemma upsert_world_housed:
  assumes "bots_housed db" and "apply_upsert_world e p db = Inr db'"
  shows "bots_housed db'"
  using assms(2)
proof (cases rule: upsert_world_cases)
  case (update wid r f)
  show ?thesis
    by (rule bots_housed_mono [OF assms(1)])
      (simp_all add: update(2) same_home_upd_world [OF _ _ update(4)])
next
  case (create r)
  then show ?thesis by (intro bots_housed_mono [OF assms(1)]) auto
qed

lemma delete_world_housed:
  assumes "worlds_ok db" and "apply_delete_world e p db = Inr db'"
  shows "bots_housed db'"
  using assms(2)
proof (cases rule: delete_world_cases)
  case (1 wid r)
  show ?thesis unfolding bots_housed_iff
  proof
    fix b assume "b \<in> set (wd_bots db')"
    then have b: "b \<in> set (wd_bots db)" "\<not> (wb_world b = wid \<and> bot_own (world_scope p) b)"
      using 1(2) by auto
    then obtain w where w: "w \<in> set (wd_worlds db)" "same_home b w"
      using assms(1) by (auto simp: worlds_ok_def bots_housed_iff)
    have "wo_id w \<noteq> wid"
    proof
      assume "wo_id w = wid"
      then have "world_own (world_scope p) w"
        using owned_by_key2 [OF _ 1(1) w(1)] assms(1) by (simp add: worlds_ok_def worlds_keys_def)
      with b(2) w(2) \<open>wo_id w = wid\<close> show False
        by (simp add: same_home_def world_own_def bot_own_def)
    qed
    with w 1(2) show "\<exists>w \<in> set (wd_worlds db'). same_home b w" by auto
  qed
qed

lemma upsert_world_bot_housed:
  assumes "worlds_ok db" and "apply_upsert_world_bot e p db = Inr db'"
  shows "bots_housed db'"
  using assms(2)
proof (cases rule: upsert_world_bot_cases)
  case (update bid wid w b f)
  note w = sel_one_Some [OF update(1)]
  show ?thesis unfolding bots_housed_iff
  proof
    fix c assume "c \<in> set (wd_bots db')"
    then obtain d where d: "d \<in> set (wd_bots db)" "c = (if wb_id d = bid then f d else d)"
      using update(3) by (auto simp: upd_where_def)
    show "\<exists>w \<in> set (wd_worlds db'). same_home c w"
    proof (cases "wb_id d = bid")
      case True
      then have "bot_own (world_scope p) d"
        using owned_by_key [where key = wb_id and own = "bot_own (world_scope p)", OF _ update(2,4) d(1)] assms(1) by (simp add: worlds_ok_def worlds_keys_def)
      with True d(2) w update(3,5) show ?thesis
        by (cases "world_scope p", intro bexI [of _ w]) (auto simp: same_home_def world_own_def bot_own_def)
    next
      case False
      with d update(3) assms(1) show ?thesis by (auto simp: worlds_ok_def bots_housed_iff)
    qed
  qed
next
  case (create wid w b)
  note w = sel_one_Some [OF create(1)]
  have "same_home b w"
    using w create by (cases "world_scope p") (auto simp: same_home_def world_own_def bot_own_def)
  with create w assms(1) show ?thesis by (auto simp: worlds_ok_def bots_housed_iff)
qed

lemma bot_edit_housed:
  assumes "bots_housed db" "wd_worlds db' = wd_worlds db"
    "\<And>c. c \<in> set (wd_bots db') \<Longrightarrow> \<exists>d \<in> set (wd_bots db). \<forall>w. same_home d w \<longrightarrow> same_home c w"
  shows "bots_housed db'"
  using assms unfolding bots_housed_iff by metis

lemma delete_world_bot_housed:
  assumes "bots_housed db" and "apply_delete_world_bot e p db = Inr db'"
  shows "bots_housed db'"
  using assms(2) by (cases rule: delete_world_bot_cases) (rule bot_edit_housed [OF assms(1)], auto)

lemma report_world_bot_status_housed:
  assumes "bots_housed db" and "apply_report_world_bot_status e p db = Inr db'"
  shows "bots_housed db'"
  using assms(2)
  by (cases rule: report_world_bot_status_cases)
    (rule bot_edit_housed [OF assms(1)], auto simp: upd_where_def same_home_def)

subsection \<open>Properties\<close>

text \<open>
  The worlds tables stay consistent through every successful command: primary keys are unique and
  each bot lives in an existing world of its own (tenant, actor), although the schema declares no
  foreign key. In particular deleting a world leaves no orphan bot behind.
\<close>

lemma worlds_invariant:
  assumes "worlds_ok db" and "h \<in> world_handlers" and "h e p db = Inr db'"
  shows "worlds_ok db'"
proof -
  have k: "worlds_keys db" and hs: "bots_housed db" using assms(1) by (simp_all add: worlds_ok_def)
  have "worlds_keys db'"
    using worlds_scoped_keys [OF world_handlers_scoped [OF k assms(2,3)] k] .
  moreover have "bots_housed db'"
    using assms(2,3) upsert_world_housed [OF hs] delete_world_housed [OF assms(1)]
      upsert_world_bot_housed [OF assms(1)] delete_world_bot_housed [OF hs]
      report_world_bot_status_housed [OF hs]
    unfolding world_handlers_def by blast
  ultimately show ?thesis by (simp add: worlds_ok_def)
qed

definition worlds_demo :: worlds_db where
  "worlds_demo = \<lparr>wd_worlds = [\<lparr>wo_id = ''w1'', wo_tenant = ''default'', wo_actor = ''b@x'',
       wo_name = ''N'', wo_kind = ''generic'', wo_host = [], wo_port = None, wo_config = [],
       wo_enabled = True, wo_created_at = 1, wo_updated_at = 1\<rparr>],
     wd_bots = [\<lparr>wb_id = ''b1'', wb_world = ''w1'', wb_tenant = ''default'', wb_actor = ''b@x'',
       wb_name = ''B'', wb_worker = [], wb_settings = [], wb_enabled = True, wb_status = ''up'',
       wb_detail = [], wb_last_seen = Some 3, wb_created_at = 1, wb_updated_at = 1\<rparr>]\<rparr>"

lemma worlds_demo_ok: "worlds_ok worlds_demo"
  by (simp add: worlds_demo_def worlds_ok_def worlds_keys_def bots_housed_def uniq_def)

lemma worlds_invariant_witness:
  "\<exists>db'. apply_delete_world env0 [(''world_id'', PStr ''w1''), (''actor_email'', PStr ''b@x'')] worlds_demo
     = Inr db' \<and> worlds_ok db' \<and> wd_bots db' = []"
proof -
  let ?p = "[(''world_id'', PStr ''w1''), (''actor_email'', PStr ''b@x'')]"
  have "case apply_delete_world env0 ?p worlds_demo of Inl _ \<Rightarrow> False | Inr d \<Rightarrow> wd_bots d = []"
    by code_simp
  then obtain d where d: "apply_delete_world env0 ?p worlds_demo = Inr d" "wd_bots d = []"
    by (auto split: sum.splits)
  have "apply_delete_world \<in> world_handlers" by (simp add: world_handlers_def)
  from worlds_invariant [OF worlds_demo_ok this d(1)] d show ?thesis by blast
qed

text \<open>
  Tenant and actor isolation: whatever a worlds command does, the worlds and the bots of every
  other (tenant, actor) are read afterwards exactly as before.
\<close>

lemma worlds_isolation:
  assumes "worlds_keys db" and "h \<in> world_handlers" and "h e p db = Inr db'"
  shows "outside (world_own (world_scope p)) (wd_worlds db') =
           outside (world_own (world_scope p)) (wd_worlds db) \<and>
         outside (bot_own (world_scope p)) (wd_bots db') = outside (bot_own (world_scope p)) (wd_bots db)"
  using world_handlers_scoped [OF assms] by (auto simp: worlds_scoped_def dest: scoped_step_outside)

lemma worlds_isolation_witness:
  "\<exists>db'. apply_upsert_world env0 [(''world_id'', PStr ''w2''), (''name'', PStr ''Mine'')] worlds_demo = Inr db' \<and>
     outside (world_own (''default'', ''system'')) (wd_worlds db') = wd_worlds worlds_demo"
proof -
  let ?p = "[(''world_id'', PStr ''w2''), (''name'', PStr ''Mine'')]"
  have "case apply_upsert_world env0 ?p worlds_demo of Inl _ \<Rightarrow> False | Inr d \<Rightarrow> True"
    by code_simp
  then obtain d where d: "apply_upsert_world env0 ?p worlds_demo = Inr d"
    by (auto split: sum.splits)
  have h: "apply_upsert_world \<in> world_handlers" by (simp add: world_handlers_def)
  have k: "worlds_keys worlds_demo" using worlds_demo_ok by (simp add: worlds_ok_def)
  have s: "world_scope ?p = (''default'', ''system'')" by code_simp
  have "outside (world_own (''default'', ''system'')) (wd_worlds worlds_demo) = wd_worlds worlds_demo"
    by (simp add: outside_def worlds_demo_def world_own_def)
  with worlds_isolation [OF k h d] d s show ?thesis by auto
qed

definition runner_fields :: "world_bot_row \<Rightarrow> string \<times> string \<times> int option" where
  "runner_fields b = (wb_status b, wb_detail b, wb_last_seen b)"

text \<open>
  The status of a bot belongs to the runner: a console command (anything but the status report)
  never changes the status, its detail or the last-seen time of a bot that exists before and after;
  a bot it creates starts as \<open>unknown\<close> and never seen.
\<close>

lemma world_bot_status_runner_only:
  assumes "worlds_keys db" and "h \<in> world_console_handlers"
    and "h e p db = Inr db'" and "b' \<in> set (wd_bots db')"
  shows "(\<exists>b \<in> set (wd_bots db). wb_id b = wb_id b' \<and> runner_fields b' = runner_fields b) \<or>
         \<not> has_key wb_id (wb_id b') (wd_bots db) \<and> runner_fields b' = (''unknown'', [], None)"
proof -
  consider "apply_upsert_world e p db = Inr db'" | "apply_delete_world e p db = Inr db'"
    | "apply_upsert_world_bot e p db = Inr db'" | "apply_delete_world_bot e p db = Inr db'"
    using assms(2,3) unfolding world_console_handlers_def by blast
  then show ?thesis
  proof cases
    case 1
    then have "wd_bots db' = wd_bots db" by (cases rule: upsert_world_cases) simp_all
    with assms(4) show ?thesis by auto
  next
    case 2
    then show ?thesis using assms(4) by (cases rule: delete_world_cases) auto
  next
    case 3
    then show ?thesis using assms(4)
      by (cases rule: upsert_world_bot_cases) (auto simp: upd_where_def runner_fields_def)
  next
    case 4
    then show ?thesis using assms(4) by (cases rule: delete_world_bot_cases) auto
  qed
qed

lemma world_bot_status_runner_only_witness:
  "\<exists>db' b'. apply_upsert_world_bot env0
       [(''bot_id'', PStr ''b1''), (''world_id'', PStr ''w1''), (''actor_email'', PStr ''b@x''),
        (''name'', PStr ''New''), (''status'', PStr ''down'')] worlds_demo = Inr db' \<and>
     wd_bots db' = [b'] \<and> wb_name b' = ''New'' \<and> runner_fields b' = (''up'', [], Some 3)"
proof -
  let ?p = "[(''bot_id'', PStr ''b1''), (''world_id'', PStr ''w1''), (''actor_email'', PStr ''b@x''),
        (''name'', PStr ''New''), (''status'', PStr ''down'')]"
  have "case apply_upsert_world_bot env0 ?p worlds_demo of Inl _ \<Rightarrow> False
      | Inr d \<Rightarrow> length (wd_bots d) = 1 \<and> wb_name (hd (wd_bots d)) = ''New'' \<and> wb_id (hd (wd_bots d)) = ''b1''"
    by code_simp
  then obtain d b' where d: "apply_upsert_world_bot env0 ?p worlds_demo = Inr d"
    "wd_bots d = [b']" "wb_name b' = ''New''" "wb_id b' = ''b1''"
    by (auto split: sum.splits simp: length_Suc_conv)
  have h: "apply_upsert_world_bot \<in> world_console_handlers"
    by (simp add: world_console_handlers_def)
  have k: "worlds_keys worlds_demo" using worlds_demo_ok by (simp add: worlds_ok_def)
  have "runner_fields b' = (''up'', [], Some 3)"
    using world_bot_status_runner_only [OF k h d(1), of b'] d(2,4)
    by (simp add: worlds_demo_def has_key_def runner_fields_def)
  with d show ?thesis by blast
qed

end
