(* ===== verification/PromptPolicies.thy ===== *)
theory PromptPolicies
  imports Tables
begin

text \<open>
  The prompt policy registry: the typed handlers of
  \<open>packages/shared/src/duckclaw/write_handlers/prompt_policies.py\<close> and the framework pack applied by
  \<open>framework_policy_pack.py\<close>, over the table \<open>prompt_policy_registry\<close>. The decoded JSON of the pack
  file is an argument.
\<close>

subsection \<open>State\<close>

record policy_row =
  pp_id :: string
  pp_type :: string
  pp_name :: string
  pp_version :: int
  pp_status :: string
  pp_content :: string
  pp_checksum :: string
  pp_metadata :: string
  pp_active :: bool
  pp_created_at :: int
  pp_updated_at :: int

definition pp_key :: "policy_row \<Rightarrow> string \<times> string \<times> int" where
  "pp_key r = (pp_type r, pp_name r, pp_version r)"

subsection \<open>Normalisation\<close>

definition prompt_policy_aliases :: "(string \<times> string) list" where
  "prompt_policy_aliases =
     [(''capabilities'', ''capability''), (''directives'', ''directive''),
      (''manager_tasks'', ''manager_task''), (''system_prompts'', ''system_prompt'')]"

definition prompt_policy_types :: "string list" where
  "prompt_policy_types =
     [''directive'', ''capability'', ''system_prompt'', ''manager_task'', ''tool_directive'']"

definition prompt_policy_statuses :: "string list" where
  "prompt_policy_statuses = [''draft'', ''active'', ''inactive'', ''archived'']"

definition resolve_alias :: "string \<Rightarrow> string" where
  "resolve_alias v = (case map_of prompt_policy_aliases v of None \<Rightarrow> v | Some w \<Rightarrow> w)"

definition normalize_prompt_policy_type :: "pyval \<Rightarrow> py_error + string" where
  "normalize_prompt_policy_type raw = (let
     v = lower (strip (pystr (por raw (PStr []))));
     normalized = resolve_alias v
   in if normalized \<notin> set prompt_policy_types
      then Inl (ValueError (''Invalid prompt policy type: '' @ pystr raw))
      else Inr normalized)"

definition json_metadata :: "pyval \<Rightarrow> string" where
  "json_metadata raw = json_dumps (PDict (pdict_or_empty raw))"

definition prompt_policy_id :: "env \<Rightarrow> string \<Rightarrow> string \<Rightarrow> int \<Rightarrow> string" where
  "prompt_policy_id e policy_type policy_name version =
     ''ppol_'' @ take 24 (sha256_hex e (policy_type @ '':'' @ policy_name @ '':'' @ int_str version))"

subsection \<open>Handlers\<close>

definition same_policy :: "string \<Rightarrow> string \<Rightarrow> policy_row \<Rightarrow> bool" where
  "same_policy ty nm r \<longleftrightarrow> pp_type r = ty \<and> pp_name r = nm"

definition demote_policy :: "env \<Rightarrow> policy_row \<Rightarrow> policy_row" where
  "demote_policy e r = r\<lparr>pp_active := False, pp_status := ''inactive'', pp_updated_at := now e\<rparr>"

definition demote_other_versions ::
  "env \<Rightarrow> bool \<Rightarrow> string \<Rightarrow> string \<Rightarrow> int \<Rightarrow> policy_row list \<Rightarrow> policy_row list" where
  "demote_other_versions e active ty nm version rows =
     (if active
      then upd_where (\<lambda>r. same_policy ty nm r \<and> pp_version r \<noteq> version) (demote_policy e) rows
      else rows)"

definition apply_upsert_prompt_policy ::
  "env \<Rightarrow> payload \<Rightarrow> policy_row list \<Rightarrow> py_error + policy_row list" where
  "apply_upsert_prompt_policy e payload rows =
     bindE (normalize_prompt_policy_type (pget payload ''policy_type'' PNone)) (\<lambda>policy_type.
     let policy_name = opt_str payload ''policy_name'' [] in
     if policy_name = [] then Inl (ValueError ''policy_name required'') else
     bindE (gint payload ''version'' 1) (\<lambda>version.
     if version < 1 then Inl (ValueError ''version must be >= 1'') else
     let status = lower (opt_str payload ''status'' ''active'') in
     if status \<notin> set prompt_policy_statuses
     then Inl (ValueError (''Invalid prompt policy status: '' @ status)) else
     let content = gstr payload ''content'' [] in
     if strip content = [] then Inl (ValueError ''content required'') else
     let metadata_json = json_metadata (pget payload ''metadata'' PNone);
         checksum = sha256_hex e content;
         active = (status = ''active'');
         existing = sel_one (\<lambda>r. same_policy policy_type policy_name r \<and> pp_version r = version) rows
     in
     bindE (if existing \<noteq> None
       then Inr (upd_where (\<lambda>r. same_policy policy_type policy_name r \<and> pp_version r = version)
         (\<lambda>r. r\<lparr>pp_status := status, pp_content := content, pp_checksum := checksum,
                pp_metadata := metadata_json, pp_active := active, pp_updated_at := now e\<rparr>) rows)
       else
         bindE (sql_int32 version) (\<lambda>version.
         ins_row pp_id
           \<lparr>pp_id = str_or (opt_str payload ''policy_id'' [])
                     (prompt_policy_id e policy_type policy_name version),
            pp_type = policy_type, pp_name = policy_name, pp_version = version, pp_status = status,
            pp_content = content, pp_checksum = checksum, pp_metadata = metadata_json,
            pp_active = active, pp_created_at = now e, pp_updated_at = now e\<rparr> rows))
     (\<lambda>rows. Inr (demote_other_versions e active policy_type policy_name version rows))))"

definition apply_deactivate_prompt_policy ::
  "env \<Rightarrow> payload \<Rightarrow> policy_row list \<Rightarrow> py_error + policy_row list" where
  "apply_deactivate_prompt_policy e payload rows =
     bindE (normalize_prompt_policy_type (pget payload ''policy_type'' PNone)) (\<lambda>policy_type.
     let policy_name = opt_str payload ''policy_name'' [] in
     if policy_name = [] then Inl (ValueError ''policy_name required'') else
     bindE (case pget payload ''version'' PNone of
         PNone \<Rightarrow> Inr (\<lambda>r. same_policy policy_type policy_name r)
       | raw_version \<Rightarrow> bindE (pyint raw_version) (\<lambda>version.
           if version < 1 then Inl (ValueError ''version must be >= 1'')
           else Inr (\<lambda>r. same_policy policy_type policy_name r \<and> pp_version r = version)))
     (\<lambda>selected.
     if sel_one selected rows = None
     then Inl (ValueError (''Prompt policy not found: '' @ policy_type @ ''/'' @ policy_name))
     else Inr (upd_where selected (demote_policy e) rows)))"

subsection \<open>The framework pack\<close>

definition pack_seed :: string where
  "pack_seed = ''framework_policy_pack_v1''"

definition load_framework_policy_pack :: "pyval option \<Rightarrow> py_error + payload" where
  "load_framework_policy_pack file = (case file of
     None \<Rightarrow> Inl (FileNotFoundError ''framework policy pack not found'')
   | Some (PDict data) \<Rightarrow>
       (case pget data ''policies'' PNone of
          PList (x # xs) \<Rightarrow> Inr data
        | _ \<Rightarrow> Inl (ValueError ''framework policy pack requires a non-empty policies list''))
   | Some _ \<Rightarrow> Inl (ValueError ''framework policy pack must be a JSON object''))"

definition pack_policies :: "payload \<Rightarrow> pyval list" where
  "pack_policies pack = plist_or_empty (pget pack ''policies'' PNone)"

definition pack_metadata :: "payload \<Rightarrow> payload" where
  "pack_metadata pack = (case pget pack ''metadata'' PNone of
     PDict metadata \<Rightarrow> dict_merge metadata [(''seed'', PStr pack_seed), (''scope'', PStr ''framework'')]
   | _ \<Rightarrow> [(''seed'', PStr pack_seed), (''scope'', PStr ''framework''), (''editable'', PBool True)])"

definition next_policy_version :: "string \<Rightarrow> string \<Rightarrow> policy_row list \<Rightarrow> int" where
  "next_policy_version ty nm rows = max_or_0 pp_version (sel_all (same_policy ty nm) rows) + 1"

definition is_active_policy :: "string \<Rightarrow> string \<Rightarrow> policy_row \<Rightarrow> bool" where
  "is_active_policy ty nm r \<longleftrightarrow> same_policy ty nm r \<and> pp_active r \<and> pp_status r = ''active''"

definition active_policy_row :: "string \<Rightarrow> string \<Rightarrow> policy_row list \<Rightarrow> (string \<times> string \<times> int) option" where
  "active_policy_row ty nm rows =
     map_option (\<lambda>r. (pp_content r, pp_checksum r, pp_version r))
       (top_by pp_version (sel_all (is_active_policy ty nm) rows))"

definition deactivate_policy_versions ::
  "env \<Rightarrow> string \<Rightarrow> string \<Rightarrow> policy_row list \<Rightarrow> policy_row list" where
  "deactivate_policy_versions e ty nm rows =
     upd_where (\<lambda>r. same_policy ty nm r \<and> pp_active r) (demote_policy e) rows"

text \<open>The entry is skipped when the active row already holds its content and carries the seed.\<close>

definition pack_entry_current :: "env \<Rightarrow> string \<Rightarrow> string \<Rightarrow> string \<Rightarrow> policy_row list \<Rightarrow> bool" where
  "pack_entry_current e ty nm content rows = (case active_policy_row ty nm rows of
     None \<Rightarrow> False
   | Some (_, active_checksum, active_version) \<Rightarrow>
       active_checksum = sha256_hex e content \<and>
       contains pack_seed
         (case sel_one (\<lambda>r. same_policy ty nm r \<and> pp_version r = active_version) rows of
            None \<Rightarrow> [] | Some r \<Rightarrow> pp_metadata r))"

fun apply_pack_entry ::
  "env \<Rightarrow> bool \<Rightarrow> payload \<Rightarrow> pyval \<Rightarrow> policy_row list \<times> string list \<Rightarrow>
     py_error + (policy_row list \<times> string list)" where
  "apply_pack_entry e force metadata (PDict d) (rows, applied) = (let
     policy_type = lower (opt_str d ''policy_type'' []);
     policy_name = opt_str d ''policy_name'' [];
     content = opt_str d ''content'' []
   in
     if policy_type = [] \<or> policy_name = [] \<or> content = []
     then Inl (ValueError ''each pack policy requires policy_type, policy_name, and content'')
     else if \<not> force \<and> pack_entry_current e policy_type policy_name content rows
     then Inr (rows, applied)
     else
       let version = next_policy_version policy_type policy_name rows in
       bindE (case por (pget d ''metadata'' PNone) (PDict []) of
           PDict extra \<Rightarrow> Inr (dict_merge metadata extra)
         | _ \<Rightarrow> Inl (TypeError ''object is not a mapping'')) (\<lambda>meta.
       bindE (apply_upsert_prompt_policy e
           [(''policy_type'', PStr policy_type), (''policy_name'', PStr policy_name),
            (''version'', PInt version), (''status'', PStr ''active''),
            (''content'', PStr content), (''metadata'', PDict meta)]
           (deactivate_policy_versions e policy_type policy_name rows)) (\<lambda>rows'.
       Inr (rows', applied @ [policy_type @ ''/'' @ policy_name]))))"
| "apply_pack_entry e force metadata _ st = Inl (AttributeError ''get'')"

definition apply_framework_policy_pack ::
  "env \<Rightarrow> pyval option \<Rightarrow> bool \<Rightarrow> policy_row list \<Rightarrow> py_error + (policy_row list \<times> string list)" where
  "apply_framework_policy_pack e file force rows =
     bindE (load_framework_policy_pack file) (\<lambda>pack.
     forE (apply_pack_entry e force (pack_metadata pack)) (pack_policies pack) (rows, []))"

text \<open>The handler also records in the payload which keys it applied.\<close>

definition apply_restore_framework_policy_pack ::
  "env \<Rightarrow> pyval option \<Rightarrow> payload \<Rightarrow> policy_row list \<Rightarrow> py_error + (policy_row list \<times> payload)" where
  "apply_restore_framework_policy_pack e file payload rows =
     bindE (apply_framework_policy_pack e file (truthy (pget payload ''force'' (PBool True))) rows)
       (\<lambda>(rows', applied). Inr (rows', pset ''_applied'' (PList (map PStr applied)) payload))"

subsection \<open>Invariant\<close>

definition policy_row_ok :: "env \<Rightarrow> policy_row \<Rightarrow> bool" where
  "policy_row_ok e r \<longleftrightarrow>
     pp_type r \<in> set prompt_policy_types \<and> pp_name r \<noteq> [] \<and>
     1 \<le> pp_version r \<and> pp_version r < 2 ^ 31 \<and>
     pp_status r \<in> set prompt_policy_statuses \<and> (pp_active r \<longleftrightarrow> pp_status r = ''active'') \<and>
     strip (pp_content r) \<noteq> [] \<and> pp_checksum r = sha256_hex e (pp_content r)"

definition compatible :: "policy_row \<Rightarrow> policy_row \<Rightarrow> bool" where
  "compatible r s \<longleftrightarrow>
     (pp_active r \<and> pp_active s \<and> pp_type s = pp_type r \<and> pp_name s = pp_name r \<longrightarrow>
      pp_version r = pp_version s)"

text \<open>At most one version of a policy is active.\<close>

definition one_active :: "policy_row list \<Rightarrow> bool" where
  "one_active rows \<longleftrightarrow> (\<forall>r \<in> set rows. \<forall>s \<in> set rows. compatible r s)"

definition policies_ok :: "env \<Rightarrow> policy_row list \<Rightarrow> bool" where
  "policies_ok e rows \<longleftrightarrow> uniq pp_id rows \<and> uniq pp_key rows \<and>
     (\<forall>r \<in> set rows. policy_row_ok e r) \<and> one_active rows"

subsection \<open>Lemmas\<close>

lemma demote_policy_simps [simp]:
  "pp_id (demote_policy e r) = pp_id r" "pp_type (demote_policy e r) = pp_type r"
  "pp_name (demote_policy e r) = pp_name r" "pp_version (demote_policy e r) = pp_version r"
  "pp_content (demote_policy e r) = pp_content r" "pp_checksum (demote_policy e r) = pp_checksum r"
  "pp_metadata (demote_policy e r) = pp_metadata r" "\<not> pp_active (demote_policy e r)"
  "pp_status (demote_policy e r) = ''inactive''" "pp_key (demote_policy e r) = pp_key r"
  "same_policy ty nm (demote_policy e r) = same_policy ty nm r"
  by (simp_all add: demote_policy_def pp_key_def same_policy_def)

lemma demote_row_ok: "policy_row_ok e r \<Longrightarrow> policy_row_ok e (demote_policy e r)"
  by (simp add: policy_row_ok_def prompt_policy_statuses_def)

definition policy_rows_ok :: "env \<Rightarrow> policy_row list \<Rightarrow> bool" where
  "policy_rows_ok e rows \<longleftrightarrow> uniq pp_id rows \<and> uniq pp_key rows \<and> (\<forall>r \<in> set rows. policy_row_ok e r)"

lemma policies_ok_iff: "policies_ok e rows \<longleftrightarrow> policy_rows_ok e rows \<and> one_active rows"
  by (auto simp: policies_ok_def policy_rows_ok_def)

lemma policy_rows_ok_demote: "policy_rows_ok e rows \<Longrightarrow> policy_rows_ok e (upd_where P (demote_policy e) rows)"
  unfolding policy_rows_ok_def
  by (intro conjI uniq_upd_where ball_upd_where) (simp_all add: demote_row_ok)

lemma compatible_inactive [simp]:
  "\<not> pp_active r \<Longrightarrow> compatible r s" "\<not> pp_active s \<Longrightarrow> compatible r s"
  by (simp_all add: compatible_def)

lemma compatible_self [simp]: "compatible r r"
  by (simp add: compatible_def)

lemma compatible_key:
  "compatible r s \<Longrightarrow> pp_key r' = pp_key r \<Longrightarrow> pp_key s' = pp_key s \<Longrightarrow>
   (pp_active r' \<Longrightarrow> pp_active r) \<Longrightarrow> (pp_active s' \<Longrightarrow> pp_active s) \<Longrightarrow> compatible r' s'"
  by (simp add: compatible_def pp_key_def)

lemma compatible_other_group:
  "same_policy ty nm r \<Longrightarrow> \<not> same_policy ty nm s \<Longrightarrow> compatible r s"
  "same_policy ty nm r \<Longrightarrow> \<not> same_policy ty nm s \<Longrightarrow> compatible s r"
  by (auto simp: compatible_def same_policy_def)

lemma compatible_same_version: "pp_version r = pp_version s \<Longrightarrow> compatible r s"
  by (simp add: compatible_def)

text \<open>One active version, except perhaps in the group being written.\<close>

definition one_active_except :: "string \<Rightarrow> string \<Rightarrow> policy_row list \<Rightarrow> bool" where
  "one_active_except ty nm rows \<longleftrightarrow>
     (\<forall>r \<in> set rows. \<forall>s \<in> set rows. \<not> same_policy ty nm r \<longrightarrow> compatible r s)"

lemma one_active_except: "one_active rows \<Longrightarrow> one_active_except ty nm rows"
  by (simp add: one_active_def one_active_except_def)

lemma one_active_upd:
  assumes "one_active rows"
    and "\<And>r. P r \<Longrightarrow> pp_active (f r) \<Longrightarrow> pp_active r"
    and "\<And>r. pp_key (f r) = pp_key r"
  shows "one_active (upd_where P f rows)"
proof -
  have "compatible (if P r then f r else r) (if P s then f s else s)"
    if "r \<in> set rows" "s \<in> set rows" for r s
  proof (rule compatible_key)
    show "compatible r s" using that assms(1) by (simp add: one_active_def)
  qed (use assms(2,3) in \<open>auto split: if_splits\<close>)
  then show ?thesis unfolding one_active_def ball_upd_where_iff by blast
qed

lemma one_active_except_upd:
  assumes "one_active_except ty nm rows" and P: "\<And>r. P r \<Longrightarrow> same_policy ty nm r"
    and k: "\<And>r. pp_key (f r) = pp_key r"
  shows "one_active_except ty nm (upd_where P f rows)"
proof -
  let ?g = "\<lambda>r. if P r then f r else r"
  have sp: "same_policy ty nm (?g r) = same_policy ty nm r" for r
    using k [of r] by (auto simp: same_policy_def pp_key_def)
  have "compatible (?g r) (?g s)"
    if "r \<in> set rows" "s \<in> set rows" "\<not> same_policy ty nm (?g r)" for r s
  proof (cases "same_policy ty nm s")
    case True
    then show ?thesis using that(3) sp [of s] compatible_other_group(2) by blast
  next
    case False
    then have "?g r = r" "?g s = s" using P that(3) sp by auto
    then show ?thesis using that assms(1) by (simp add: one_active_except_def split: if_splits)
  qed
  then show ?thesis unfolding one_active_except_def ball_upd_where_iff by blast
qed

lemma one_active_demote_others:
  assumes "one_active_except ty nm rows"
  shows "one_active (demote_other_versions e True ty nm v rows)"
proof -
  let ?P = "\<lambda>r. same_policy ty nm r \<and> pp_version r \<noteq> v"
  let ?g = "\<lambda>r. if ?P r then demote_policy e r else r"
  have "compatible (?g r) (?g s)" if "r \<in> set rows" "s \<in> set rows" for r s
  proof (cases "?P r \<or> ?P s")
    case True
    then show ?thesis by auto
  next
    case False
    then have g: "?g r = r" "?g s = s" by auto
    have "compatible r s"
    proof (cases "same_policy ty nm r")
      case True
      with False compatible_other_group(1) [OF True, of s] show ?thesis
        using compatible_same_version [of r s] by metis
    next
      case False
      then show ?thesis using that assms by (simp add: one_active_except_def)
    qed
    then show ?thesis by (simp only: g)
  qed
  then have "one_active (upd_where ?P (demote_policy e) rows)"
    unfolding one_active_def ball_upd_where_iff by blast
  then show ?thesis by (simp add: demote_other_versions_def)
qed

lemma one_active_snoc:
  "one_active rows \<Longrightarrow> \<not> pp_active r \<Longrightarrow> one_active (rows @ [r])"
  by (simp add: one_active_def)

lemma one_active_except_snoc:
  "one_active_except ty nm rows \<Longrightarrow> same_policy ty nm r \<Longrightarrow> one_active_except ty nm (rows @ [r])"
  by (simp add: one_active_except_def compatible_other_group)

text \<open>What a successful upsert did.\<close>

lemma upsert_prompt_policy_cases:
  assumes "apply_upsert_prompt_policy e p rows = Inr rows'"
  obtains (edit) ty nm v st c md f where
      "normalize_prompt_policy_type (pget p ''policy_type'' PNone) = Inr ty"
      "nm = opt_str p ''policy_name'' []" "gint p ''version'' 1 = Inr v"
      "st = lower (opt_str p ''status'' ''active'')" "c = gstr p ''content'' []"
      "md = json_metadata (pget p ''metadata'' PNone)"
      "rows' = demote_other_versions e (st = ''active'') ty nm v
         (upd_where (\<lambda>r. same_policy ty nm r \<and> pp_version r = v) f rows)"
      "st \<in> set prompt_policy_statuses" "strip c \<noteq> []"
      "sel_one (\<lambda>r. same_policy ty nm r \<and> pp_version r = v) rows \<noteq> None"
      "\<And>r. pp_id (f r) = pp_id r \<and> pp_key (f r) = pp_key r \<and> pp_status (f r) = st \<and>
        pp_content (f r) = c \<and> pp_checksum (f r) = sha256_hex e c \<and> pp_metadata (f r) = md \<and>
        pp_active (f r) = (st = ''active'')"
  | (new) ty nm v st c md r where
      "normalize_prompt_policy_type (pget p ''policy_type'' PNone) = Inr ty"
      "nm = opt_str p ''policy_name'' []" "gint p ''version'' 1 = Inr v"
      "st = lower (opt_str p ''status'' ''active'')" "c = gstr p ''content'' []"
      "md = json_metadata (pget p ''metadata'' PNone)"
      "rows' = demote_other_versions e (st = ''active'') ty nm v (rows @ [r])"
      "st \<in> set prompt_policy_statuses" "strip c \<noteq> []"
      "sel_one (\<lambda>r. same_policy ty nm r \<and> pp_version r = v) rows = None"
      "\<not> has_key pp_id (pp_id r) rows" "pp_key r = (ty, nm, v)" "nm \<noteq> []" "1 \<le> v" "v < 2 ^ 31"
      "pp_status r = st" "pp_content r = c" "pp_checksum r = sha256_hex e c" "pp_metadata r = md"
      "pp_active r = (st = ''active'')"
proof -
  obtain ty v where 1: "normalize_prompt_policy_type (pget p ''policy_type'' PNone) = Inr ty"
    "gint p ''version'' 1 = Inr v" "opt_str p ''policy_name'' [] \<noteq> []"
    using assms unfolding apply_upsert_prompt_policy_def by (auto simp: Let_def split: if_splits)
  show thesis
  proof (cases "sel_one (\<lambda>r. same_policy ty (opt_str p ''policy_name'' []) r \<and> pp_version r = v) rows")
    case None
    show thesis
      using assms 1 None unfolding apply_upsert_prompt_policy_def
      apply (clarsimp simp: Let_def split: if_splits)
      by (rule new [OF 1(1) refl 1(2) refl refl refl]) (simp add: pp_key_def)+
  next
    case (Some r)
    show thesis
      using assms 1 Some unfolding apply_upsert_prompt_policy_def
      apply (clarsimp simp: Let_def split: if_splits)
      by (rule edit [OF 1(1) refl 1(2) refl refl refl]) (simp add: pp_key_def)+
  qed
qed

lemma normalize_in_types: "normalize_prompt_policy_type raw = Inr ty \<Longrightarrow> ty \<in> set prompt_policy_types"
  by (auto simp: normalize_prompt_policy_type_def Let_def split: if_splits)

lemma policy_rows_ok_edit:
  assumes "policy_rows_ok e rows" "st \<in> set prompt_policy_statuses" "strip c \<noteq> []"
    and f: "\<And>r. pp_id (f r) = pp_id r \<and> pp_key (f r) = pp_key r \<and> pp_status (f r) = st \<and>
        pp_content (f r) = c \<and> pp_checksum (f r) = sha256_hex e c \<and> pp_metadata (f r) = md \<and>
        pp_active (f r) = (st = ''active'')"
  shows "policy_rows_ok e (upd_where P f rows)"
proof -
  have "policy_row_ok e r \<Longrightarrow> policy_row_ok e (f r)" for r
    using f [of r] assms(2,3) by (simp add: policy_row_ok_def pp_key_def)
  then show ?thesis
    using assms(1) f unfolding policy_rows_ok_def
    by (intro conjI uniq_upd_where ball_upd_where) simp_all
qed

lemma has_pp_key_iff:
  "has_key pp_key (ty, nm, v) rows \<longleftrightarrow> sel_one (\<lambda>r. same_policy ty nm r \<and> pp_version r = v) rows \<noteq> None"
  by (auto simp: has_key_iff sel_one_None pp_key_def same_policy_def)

lemma upsert_prompt_policy_ok:
  assumes ok: "policies_ok e rows" and h: "apply_upsert_prompt_policy e p rows = Inr rows'"
  shows "policies_ok e rows'"
  using h
proof (cases rule: upsert_prompt_policy_cases)
  case (edit ty nm v st c md f)
  let ?rows = "upd_where (\<lambda>r. same_policy ty nm r \<and> pp_version r = v) f rows"
  have r1: "policy_rows_ok e ?rows"
    using ok policy_rows_ok_edit [OF _ edit(8,9,11)] by (simp add: policies_ok_iff)
  have "one_active_except ty nm ?rows"
    using ok edit(11) by (intro one_active_except_upd one_active_except) (auto simp: policies_ok_iff)
  moreover have "st \<noteq> ''active'' \<Longrightarrow> one_active ?rows"
    using ok edit(11) by (intro one_active_upd) (auto simp: policies_ok_iff)
  ultimately have "one_active rows'"
    unfolding edit(7) by (cases "st = ''active''")
      (simp_all add: one_active_demote_others, simp add: demote_other_versions_def)
  moreover have "policy_rows_ok e rows'"
    unfolding edit(7) demote_other_versions_def using r1 by (simp add: policy_rows_ok_demote)
  ultimately show ?thesis by (simp add: policies_ok_iff)
next
  case (new ty nm v st c md r)
  have k: "pp_type r = ty" "pp_name r = nm" "pp_version r = v" using new(12) by (simp_all add: pp_key_def)
  have r1: "policy_rows_ok e (rows @ [r])"
    using ok new k normalize_in_types [OF new(1)] has_pp_key_iff [of ty nm v rows]
    by (simp add: policies_ok_iff policy_rows_ok_def policy_row_ok_def)
  have "one_active_except ty nm (rows @ [r])" and "st \<noteq> ''active'' \<Longrightarrow> one_active (rows @ [r])"
    using ok new(20) k by (simp_all add: policies_ok_iff one_active_except one_active_except_snoc
        one_active_snoc same_policy_def)
  then have "one_active rows'"
    unfolding new(7) by (cases "st = ''active''")
      (simp_all add: one_active_demote_others, simp add: demote_other_versions_def)
  moreover have "policy_rows_ok e rows'"
    unfolding new(7) demote_other_versions_def using r1 by (simp add: policy_rows_ok_demote)
  ultimately show ?thesis by (simp add: policies_ok_iff)
qed

lemma demote_ok: "policies_ok e rows \<Longrightarrow> policies_ok e (upd_where P (demote_policy e) rows)"
  unfolding policies_ok_iff by (auto intro: policy_rows_ok_demote one_active_upd)

lemma deactivate_prompt_policy_ok:
  assumes "policies_ok e rows" and "apply_deactivate_prompt_policy e p rows = Inr rows'"
  shows "policies_ok e rows'"
proof -
  obtain P where "rows' = upd_where P (demote_policy e) rows"
    using assms(2) unfolding apply_deactivate_prompt_policy_def
    by (auto simp: Let_def split: if_splits pyval.splits)
  with assms(1) show ?thesis by (simp add: demote_ok)
qed

text \<open>What one entry of the pack does.\<close>

lemma apply_pack_entry_cases:
  assumes "apply_pack_entry e force md entry (rows, applied) = Inr (rows', applied')"
  obtains (skip) d ty nm c where
      "entry = PDict d" "ty = lower (opt_str d ''policy_type'' [])" "nm = opt_str d ''policy_name'' []"
      "c = opt_str d ''content'' []" "\<not> force" "pack_entry_current e ty nm c rows"
      "rows' = rows" "applied' = applied"
  | (stored) d ty nm c extra where
      "entry = PDict d" "ty = lower (opt_str d ''policy_type'' [])" "nm = opt_str d ''policy_name'' []"
      "c = opt_str d ''content'' []" "ty \<noteq> []" "nm \<noteq> []" "c \<noteq> []"
      "por (pget d ''metadata'' PNone) (PDict []) = PDict extra"
      "apply_upsert_prompt_policy e
         [(''policy_type'', PStr ty), (''policy_name'', PStr nm),
          (''version'', PInt (next_policy_version ty nm rows)), (''status'', PStr ''active''),
          (''content'', PStr c), (''metadata'', PDict (dict_merge md extra))]
         (deactivate_policy_versions e ty nm rows) = Inr rows'"
      "applied' = applied @ [ty @ ''/'' @ nm]"
proof -
  obtain d where d: "entry = PDict d" using assms by (cases entry) auto
  show thesis
  proof (cases "\<not> force \<and> pack_entry_current e (lower (opt_str d ''policy_type'' []))
      (opt_str d ''policy_name'' []) (opt_str d ''content'' []) rows")
    case True
    with assms d show thesis
      by (auto simp: Let_def split: if_splits intro: skip [OF d refl refl refl])
  next
    case False
    then show thesis
      using assms d
      by (auto simp: Let_def split: if_splits pyval.splits intro: stored [OF d refl refl refl])
  qed
qed

lemma apply_pack_entry_ok:
  assumes "policies_ok e (fst st)" and "apply_pack_entry e force md entry st = Inr st'"
  shows "policies_ok e (fst st')"
proof -
  obtain rows applied rows' applied' where st: "st = (rows, applied)" "st' = (rows', applied')"
    by (cases st, cases st')
  from assms(2) [unfolded st] show ?thesis
  proof (cases rule: apply_pack_entry_cases)
    case skip
    with assms(1) st show ?thesis by simp
  next
    case (stored d ty nm c extra)
    have "policies_ok e (deactivate_policy_versions e ty nm rows)"
      using assms(1) st unfolding deactivate_policy_versions_def by (intro demote_ok) simp
    from upsert_prompt_policy_ok [OF this stored(9)] st show ?thesis by simp
  qed
qed

lemma apply_framework_policy_pack_ok:
  assumes "policies_ok e rows" and "apply_framework_policy_pack e file force rows = Inr (rows', applied)"
  shows "policies_ok e rows'"
proof -
  obtain pack where "forE (apply_pack_entry e force (pack_metadata pack)) (pack_policies pack) (rows, [])
      = Inr (rows', applied)"
    using assms(2) unfolding apply_framework_policy_pack_def by auto
  from forE_invariant [where P = "\<lambda>st. policies_ok e (fst st)", OF _ _ this] assms(1) show ?thesis
    using apply_pack_entry_ok by fastforce
qed

subsection \<open>The group of a policy\<close>

text \<open>Everything the pack asks about a policy is read from the rows of its (type, name) group.\<close>

definition policy_group :: "string \<Rightarrow> string \<Rightarrow> policy_row list \<Rightarrow> policy_row list" where
  "policy_group ty nm rows = sel_all (same_policy ty nm) rows"

lemma pack_entry_current_group:
  assumes "policy_group ty nm rows = policy_group ty nm rows'"
  shows "pack_entry_current e ty nm c rows = pack_entry_current e ty nm c rows'"
proof -
  have act: "sel_all (is_active_policy ty nm) t =
      filter (\<lambda>r. pp_active r \<and> pp_status r = ''active'') (policy_group ty nm t)" for t
    by (induction t) (auto simp: policy_group_def sel_all_def is_active_policy_def)
  have one: "sel_one (\<lambda>r. same_policy ty nm r \<and> pp_version r = v) t =
      sel_one (\<lambda>r. pp_version r = v) (policy_group ty nm t)" for v t
    by (induction t) (auto simp: policy_group_def sel_all_def)
  show ?thesis
    unfolding pack_entry_current_def active_policy_row_def act one assms by simp
qed

lemma policy_group_upd:
  assumes "\<And>r. P r \<Longrightarrow> same_policy ty nm r" "\<And>r. pp_key (f r) = pp_key r" "(ty', nm') \<noteq> (ty, nm)"
  shows "policy_group ty' nm' (upd_where P f rows) = policy_group ty' nm' rows"
proof (induction rows)
  case (Cons r rows)
  have "same_policy ty' nm' (f r) = same_policy ty' nm' r"
    using assms(2) [of r] by (simp add: pp_key_def same_policy_def)
  moreover have "P r \<Longrightarrow> \<not> same_policy ty' nm' r"
    using assms(1) [of r] assms(3) by (auto simp: same_policy_def)
  ultimately show ?case
    using Cons.IH by (auto simp: policy_group_def sel_all_def upd_where_def)
qed (simp add: policy_group_def sel_all_def upd_where_def)

lemma policy_group_snoc:
  "\<not> same_policy ty nm r \<Longrightarrow> policy_group ty nm (rows @ [r]) = policy_group ty nm rows"
  by (simp add: policy_group_def sel_all_def)

lemma policy_group_demote:
  "(ty', nm') \<noteq> (ty, nm) \<Longrightarrow>
   policy_group ty' nm' (demote_other_versions e a ty nm v rows) = policy_group ty' nm' rows"
  unfolding demote_other_versions_def by (auto intro: policy_group_upd)

lemma upsert_prompt_policy_group:
  assumes "apply_upsert_prompt_policy e p rows = Inr rows'"
    and "normalize_prompt_policy_type (pget p ''policy_type'' PNone) = Inr ty"
    and "nm = opt_str p ''policy_name'' []" and other: "(ty', nm') \<noteq> (ty, nm)"
  shows "policy_group ty' nm' rows' = policy_group ty' nm' rows"
  using assms(1)
proof (cases rule: upsert_prompt_policy_cases)
  case (edit ty1 nm1 v st c md f)
  then have e: "ty1 = ty" "nm1 = nm" using assms(2,3) by simp_all
  show ?thesis unfolding edit(7) e policy_group_demote [OF other]
    by (rule policy_group_upd [OF _ _ other]) (simp_all add: edit(11))
next
  case (new ty1 nm1 v st c md r)
  then have e: "ty1 = ty" "nm1 = nm" using assms(2,3) by simp_all
  have "\<not> same_policy ty' nm' r"
    using new(12) e other by (auto simp: pp_key_def same_policy_def)
  then show ?thesis unfolding new(7) e policy_group_demote [OF other]
    by (rule policy_group_snoc)
qed

text \<open>After activating a version, that version is the active row of its group.\<close>

lemma sel_version_unique:
  assumes "uniq pp_key rows" "r \<in> set rows" "pp_key r = (ty, nm, v)"
  shows "sel_one (\<lambda>r. same_policy ty nm r \<and> pp_version r = v) rows = Some r"
proof -
  have "(\<lambda>r. same_policy ty nm r \<and> pp_version r = v) = (\<lambda>r. pp_key r = (ty, nm, v))"
    by (auto simp: pp_key_def same_policy_def)
  then show ?thesis using assms by (simp add: sel_one_key_Some)
qed

lemma active_row_unique:
  assumes "policies_ok e rows" "r \<in> set rows" "is_active_policy ty nm r"
  shows "top_by pp_version (sel_all (is_active_policy ty nm) rows) = Some r"
proof -
  have "r \<in> set (sel_all (is_active_policy ty nm) rows)" using assms by (simp add: sel_all_def)
  then obtain s where s: "top_by pp_version (sel_all (is_active_policy ty nm) rows) = Some s"
    by (cases "top_by pp_version (sel_all (is_active_policy ty nm) rows)") auto
  from top_by_mem [OF s] have "s \<in> set rows" "is_active_policy ty nm s" by (simp_all add: sel_all_def)
  with assms have "compatible r s" by (simp add: policies_ok_def one_active_def)
  with assms(3) \<open>is_active_policy ty nm s\<close> have "pp_key r = pp_key s"
    by (simp add: compatible_def is_active_policy_def same_policy_def pp_key_def)
  with assms \<open>s \<in> set rows\<close> have "r = s" using uniq_eq [of pp_key rows r s] by (simp add: policies_ok_def)
  with s show ?thesis by simp
qed

lemma upsert_active_row:
  assumes ok: "policies_ok e rows" and h: "apply_upsert_prompt_policy e p rows = Inr rows'"
    and st: "lower (opt_str p ''status'' ''active'') = ''active''"
  obtains ty r where
      "normalize_prompt_policy_type (pget p ''policy_type'' PNone) = Inr ty"
      "r \<in> set rows'" "is_active_policy ty (opt_str p ''policy_name'' []) r"
      "gint p ''version'' 1 = Inr (pp_version r)"
      "pp_content r = gstr p ''content'' []" "pp_checksum r = sha256_hex e (gstr p ''content'' [])"
      "pp_metadata r = json_metadata (pget p ''metadata'' PNone)"
  using h
proof (cases rule: upsert_prompt_policy_cases)
  case (edit ty nm v st' c md f)
  then obtain s where "sel_one (\<lambda>r. same_policy ty nm r \<and> pp_version r = v) rows = Some s" by blast
  note s = sel_one_Some [OF this]
  have k: "pp_key (f s) = pp_key s" using edit(11) [of s] by blast
  have "f s \<in> set rows'"
    using s k unfolding edit(7) demote_other_versions_def
    by (auto simp: set_upd_where pp_key_def same_policy_def image_iff intro!: bexI [of _ "f s"] bexI [of _ s])
  with edit s k st show thesis
    by (intro that [of ty "f s"]) (auto simp: is_active_policy_def same_policy_def pp_key_def)
next
  case (new ty nm v st' c md r)
  have "r \<in> set rows'"
    using new(12) unfolding new(7) demote_other_versions_def
    by (auto simp: set_upd_where pp_key_def image_iff intro!: bexI [of _ r])
  with new st show thesis
    by (intro that [of ty r]) (auto simp: is_active_policy_def same_policy_def pp_key_def)
qed

subsection \<open>Applying the pack again\<close>

definition pack_entry_key :: "pyval \<Rightarrow> string \<times> string" where
  "pack_entry_key entry = (let d = pdict_or_empty entry in
     (lower (opt_str d ''policy_type'' []), opt_str d ''policy_name'' []))"

text \<open>
  A pack is well formed when no two entries speak about the same policy, every policy type is one of
  the canonical names, and no entry overrides the \<open>seed\<close> mark of the metadata.
\<close>

definition pack_entry_wf :: "pyval \<Rightarrow> bool" where
  "pack_entry_wf entry \<longleftrightarrow> fst (pack_entry_key entry) \<in> set prompt_policy_types \<and>
     map_of (pdict_or_empty (pget (pdict_or_empty entry) ''metadata'' PNone)) ''seed'' = None"

definition pack_wf :: "payload \<Rightarrow> bool" where
  "pack_wf pack \<longleftrightarrow> distinct (map pack_entry_key (pack_policies pack)) \<and>
     (\<forall>entry \<in> set (pack_policies pack). pack_entry_wf entry)"

lemma pack_metadata_seed: "map_of (pack_metadata pack) ''seed'' = Some (PStr pack_seed)"
  by (auto simp: pack_metadata_def dict_merge_def map_of_pset split: pyval.split)

lemma seed_in_json: "map_of m ''seed'' = Some (PStr pack_seed) \<Longrightarrow> contains pack_seed (json_dumps (PDict m))"
proof (rule contains_json_dict)
  have "json_str pack_seed = [CHR 34] @ pack_seed @ [CHR 34]"
    by (rule concat_json_char_plain) (simp add: pack_seed_def json_char_def)
  then show "contains pack_seed (json_dumps (PStr pack_seed))"
    by (simp add: json_dumps.simps contains_append_right contains_append_left del: append_Cons append.simps)
qed

lemma normalize_canonical:
  assumes "ty \<in> set prompt_policy_types"
  shows "normalize_prompt_policy_type (PStr ty) = Inr ty"
proof -
  have "\<forall>t \<in> set prompt_policy_types. lower (strip t) = t \<and> t \<noteq> [] \<and> resolve_alias t = t"
    by code_simp
  with assms show ?thesis by (auto simp: normalize_prompt_policy_type_def Let_def por_def)
qed

lemma next_version_bounds:
  assumes "policies_ok e rows"
  shows "1 \<le> next_policy_version ty nm rows"
    and "r \<in> set rows \<Longrightarrow> same_policy ty nm r \<Longrightarrow> pp_version r < next_policy_version ty nm rows"
proof -
  have ge: "\<forall>s \<in> set t. pp_version s \<le> fold (\<lambda>r m. max (pp_version r) m) t m"
    and le: "m \<le> fold (\<lambda>r m. max (pp_version r) m) t m" for t m
  proof (induction t arbitrary: m)
    case (Cons x t)
    { case 1 show ?case using Cons.IH(1) [of "max (pp_version x) m"] Cons.IH(2) [of "max (pp_version x) m"] by simp }
    { case 2 show ?case using Cons.IH(2) [of "max (pp_version x) m"] by simp }
  qed simp_all
  have mx: "\<forall>s \<in> set t. pp_version s \<le> max_or_0 pp_version t" for t
    using ge [of t "pp_version (hd t)"] by (cases "t = []") (simp_all add: max_or_0_def)
  show "r \<in> set rows \<Longrightarrow> same_policy ty nm r \<Longrightarrow> pp_version r < next_policy_version ty nm rows"
    using mx [of "sel_all (same_policy ty nm) rows"] by (auto simp: next_policy_version_def sel_all_def)
  show "1 \<le> next_policy_version ty nm rows"
  proof (cases "sel_all (same_policy ty nm) rows")
    case Nil
    then show ?thesis by (simp add: next_policy_version_def max_or_0_def)
  next
    case (Cons x t)
    then have "x \<in> set (sel_all (same_policy ty nm) rows)" by simp
    then have "x \<in> set rows" by (simp add: sel_all_def)
    then have "1 \<le> pp_version x" using assms by (simp add: policies_ok_def policy_row_ok_def)
    moreover have "pp_version x \<le> max_or_0 pp_version (x # t)" using mx [of "x # t"] by simp
    ultimately show ?thesis by (simp add: next_policy_version_def Cons)
  qed
qed

lemma strip_opt_str [simp]: "strip (opt_str p k d) = opt_str p k d"
  by (simp add: opt_str_def)

lemma deactivate_policy_versions_ok:
  "policies_ok e rows \<Longrightarrow> policies_ok e (deactivate_policy_versions e ty nm rows)"
  unfolding deactivate_policy_versions_def by (rule demote_ok)

lemma deactivate_policy_versions_group:
  "(ty', nm') \<noteq> (ty, nm) \<Longrightarrow>
   policy_group ty' nm' (deactivate_policy_versions e ty nm rows) = policy_group ty' nm' rows"
  unfolding deactivate_policy_versions_def by (rule policy_group_upd) auto

lemma active_policy_row_current:
  assumes ok: "policies_ok e rows" and r: "r \<in> set rows" "is_active_policy ty nm r"
    and "pp_checksum r = sha256_hex e c" "contains pack_seed (pp_metadata r)"
  shows "pack_entry_current e ty nm c rows"
proof -
  have "pp_key r = (ty, nm, pp_version r)"
    using r(2) by (simp add: is_active_policy_def same_policy_def pp_key_def)
  then have "sel_one (\<lambda>s. same_policy ty nm s \<and> pp_version s = pp_version r) rows = Some r"
    using ok r(1) by (intro sel_version_unique) (simp add: policies_ok_def)
  with assms active_row_unique [OF ok r] show ?thesis
    by (simp add: pack_entry_current_def active_policy_row_def)
qed

lemma pack_entry_current_after:
  assumes ok: "policies_ok e rows" and wf: "pack_entry_wf (PDict d)"
    and key: "pack_entry_key (PDict d) = (ty, nm)" and c: "c = opt_str d ''content'' []"
    and md: "map_of md ''seed'' = Some (PStr pack_seed)"
    and h: "apply_pack_entry e force md (PDict d) (rows, applied) = Inr (rows', applied')"
  shows "pack_entry_current e ty nm c rows'"
  using h
proof (cases rule: apply_pack_entry_cases)
  case (skip d' ty' nm' c')
  with key c show ?thesis by (simp add: pack_entry_key_def)
next
  case (stored d' ty' nm' c' extra)
  let ?v = "next_policy_version ty nm rows"
  let ?p = "[(''policy_type'', PStr ty), (''policy_name'', PStr nm), (''version'', PInt ?v),
    (''status'', PStr ''active''), (''content'', PStr c), (''metadata'', PDict (dict_merge md extra))]"
  have eq: "ty' = ty" "nm' = nm" "c' = c" using stored key c by (simp_all add: pack_entry_key_def)
  have up: "apply_upsert_prompt_policy e ?p (deactivate_policy_versions e ty nm rows) = Inr rows'"
    using stored(9) unfolding eq .
  have "lower (opt_str ?p ''status'' ''active'') = ''active''" by code_simp
  from upsert_active_row [OF deactivate_policy_versions_ok [OF ok] up this]
  obtain ty2 r where r: "normalize_prompt_policy_type (pget ?p ''policy_type'' PNone) = Inr ty2"
      "r \<in> set rows'" "is_active_policy ty2 (opt_str ?p ''policy_name'' []) r"
      "pp_checksum r = sha256_hex e (gstr ?p ''content'' [])"
      "pp_metadata r = json_metadata (pget ?p ''metadata'' PNone)" by blast
  have "ty2 = ty"
    using r(1) normalize_canonical wf key by (simp add: pack_entry_wf_def)
  moreover have "strip nm = nm" using stored(3) eq(2) by (metis strip_opt_str)
  then have "opt_str ?p ''policy_name'' [] = nm"
    using stored(6) eq(2) by (simp add: opt_str_def gstr_def por_def)
  moreover have "gstr ?p ''content'' [] = c"
    using stored(7) eq(3) by (simp add: gstr_def por_def)
  moreover have "contains pack_seed (pp_metadata r)"
  proof -
    have "map_of extra ''seed'' = None"
      using wf stored(1,8) by (auto simp: pack_entry_wf_def por_def split: if_splits)
    then show ?thesis using r(5) md by (simp add: json_metadata_def map_of_dict_merge seed_in_json)
  qed
  moreover have "policies_ok e rows'"
    by (rule upsert_prompt_policy_ok [OF deactivate_policy_versions_ok [OF ok] up])
  ultimately show ?thesis using r by (intro active_policy_row_current) auto
qed

lemma apply_pack_entry_group:
  assumes h: "apply_pack_entry e force md entry (rows, applied) = Inr (rows', applied')"
    and wf: "pack_entry_wf entry" and other: "(ty, nm) \<noteq> pack_entry_key entry"
  shows "policy_group ty nm rows' = policy_group ty nm rows"
  using h
proof (cases rule: apply_pack_entry_cases)
  case skip
  then show ?thesis by simp
next
  case (stored d ty' nm' c extra)
  have o: "(ty, nm) \<noteq> (ty', nm')" using other stored(1-3) by (simp add: pack_entry_key_def)
  have n: "normalize_prompt_policy_type (PStr ty') = Inr ty'"
    using wf stored(1,2) by (intro normalize_canonical) (simp add: pack_entry_wf_def pack_entry_key_def)
  have "policy_group ty nm rows' = policy_group ty nm (deactivate_policy_versions e ty' nm' rows)"
  proof (rule upsert_prompt_policy_group [OF stored(9) _ _ o])
    show "nm' = opt_str [(''policy_type'', PStr ty'), (''policy_name'', PStr nm'),
        (''version'', PInt (next_policy_version ty' nm' rows)), (''status'', PStr ''active''),
        (''content'', PStr c), (''metadata'', PDict (dict_merge md extra))] ''policy_name'' []"
    proof -
      have "strip nm' = nm'" using stored(3) by (metis strip_opt_str)
      then show ?thesis using stored(6) by (simp add: opt_str_def gstr_def por_def)
    qed
  qed (simp add: n)
  then show ?thesis by (simp only: deactivate_policy_versions_group [OF o])
qed

text \<open>A run over the entries leaves every one of them current, so the next run writes nothing.\<close>

lemma forE_pack_current:
  assumes "policies_ok e rows" and "\<forall>entry \<in> set entries. pack_entry_wf entry"
    and "distinct (map pack_entry_key entries)" and "map_of md ''seed'' = Some (PStr pack_seed)"
    and "forE (apply_pack_entry e force md) entries (rows, applied) = Inr (rows', applied')"
  shows "(\<forall>entry \<in> set entries. \<exists>d. entry = PDict d \<and> pack_entry_current e (fst (pack_entry_key entry))
             (snd (pack_entry_key entry)) (opt_str d ''content'' []) rows') \<and>
         (\<forall>ty nm. (ty, nm) \<notin> pack_entry_key ` set entries \<longrightarrow>
             policy_group ty nm rows' = policy_group ty nm rows)"
  using assms(1-3,5)
proof (induction entries arbitrary: rows applied)
  case Nil
  then show ?case by simp
next
  case (Cons entry entries)
  from Cons.prems(4) obtain rows1 applied1 where
    1: "apply_pack_entry e force md entry (rows, applied) = Inr (rows1, applied1)" and
    2: "forE (apply_pack_entry e force md) entries (rows1, applied1) = Inr (rows', applied')"
    by auto
  obtain d where d: "entry = PDict d" using 1 by (cases entry) auto
  have wf: "pack_entry_wf entry" using Cons.prems(2) by simp
  have ok1: "policies_ok e rows1"
    using apply_pack_entry_ok [of e "(rows, applied)", OF _ 1] Cons.prems(1) by simp
  have IH: "\<forall>entry \<in> set entries. \<exists>d. entry = PDict d \<and> pack_entry_current e (fst (pack_entry_key entry))
        (snd (pack_entry_key entry)) (opt_str d ''content'' []) rows'"
    "\<And>ty nm. (ty, nm) \<notin> pack_entry_key ` set entries \<Longrightarrow> policy_group ty nm rows' = policy_group ty nm rows1"
    using Cons.IH [OF ok1 _ _ 2] Cons.prems(2,3) by simp_all
  obtain ty nm where key: "pack_entry_key entry = (ty, nm)" by (cases "pack_entry_key entry")
  have "pack_entry_current e ty nm (opt_str d ''content'' []) rows1"
    using pack_entry_current_after [OF Cons.prems(1) _ _ refl assms(4)] 1 wf key d by simp
  moreover have "policy_group ty nm rows' = policy_group ty nm rows1"
    using IH(2) [of ty nm] Cons.prems(3) key by (metis distinct.simps(2) list.set_map list.simps(9))
  ultimately have "pack_entry_current e ty nm (opt_str d ''content'' []) rows'"
    using pack_entry_current_group by metis
  moreover have "policy_group ty' nm' rows' = policy_group ty' nm' rows"
    if "(ty', nm') \<notin> pack_entry_key ` set (entry # entries)" for ty' nm'
    using that IH(2) [of ty' nm'] apply_pack_entry_group [OF 1 wf, of ty' nm'] by simp
  ultimately show ?case using IH(1) key d by simp
qed

lemma forE_pack_skip:
  assumes "\<forall>entry \<in> set entries. \<exists>d. entry = PDict d \<and> pack_entry_current e (fst (pack_entry_key entry))
      (snd (pack_entry_key entry)) (opt_str d ''content'' []) rows"
    and "\<forall>entry \<in> set entries. \<exists>st st'. apply_pack_entry e force md entry st = Inr st'"
  shows "forE (apply_pack_entry e False md') entries (rows, applied) = Inr (rows, applied)"
  using assms
proof (induction entries)
  case (Cons entry entries)
  then obtain d where d: "entry = PDict d" "pack_entry_current e (fst (pack_entry_key entry))
      (snd (pack_entry_key entry)) (opt_str d ''content'' []) rows" by auto
  from Cons.prems(2) obtain s a st' where "apply_pack_entry e force md entry (s, a) = Inr st'" by auto
  then have "apply_pack_entry e False md' entry (rows, applied) = Inr (rows, applied)"
    using d by (auto simp: Let_def pack_entry_key_def split: if_splits)
  with Cons show ?case by simp
qed simp

lemma forE_each: "forE f xs s = Inr s' \<Longrightarrow> \<forall>x \<in> set xs. \<exists>t t'. f x t = Inr t'"
  by (induction xs arbitrary: s) auto

subsection \<open>Properties\<close>

text \<open>
  The registry invariant: every upsert, deactivation and application of the framework pack keeps
  the identifiers and the (type, name, version) triples unique, keeps \<open>active\<close> in agreement with the
  status, the checksum in agreement with the content, and at most one version of each policy active.
\<close>

lemma prompt_policies_invariant:
  assumes "policies_ok e rows"
    and "apply_upsert_prompt_policy e p rows = Inr rows' \<or>
         apply_deactivate_prompt_policy e p rows = Inr rows' \<or>
         (\<exists>p'. apply_restore_framework_policy_pack e file p rows = Inr (rows', p'))"
  shows "policies_ok e rows'"
  using assms(2)
proof (elim disjE exE)
  fix p'
  assume "apply_restore_framework_policy_pack e file p rows = Inr (rows', p')"
  then obtain applied where
    "apply_framework_policy_pack e file (truthy (pget p ''force'' (PBool True))) rows = Inr (rows', applied)"
    unfolding apply_restore_framework_policy_pack_def by auto
  then show ?thesis by (rule apply_framework_policy_pack_ok [OF assms(1)])
qed (rule upsert_prompt_policy_ok [OF assms(1)] deactivate_prompt_policy_ok [OF assms(1)], assumption)+

lemma prompt_policies_invariant_witness:
  "\<exists>rows rows'. policies_ok env0 rows \<and> length rows = 1 \<and>
     apply_upsert_prompt_policy env0 [(''policy_type'', PStr ''Directives''), (''policy_name'', PStr ''a''),
       (''version'', PInt 2), (''content'', PStr ''y'')] rows = Inr rows' \<and>
     policies_ok env0 rows' \<and> map pp_active rows' = [False, True]"
proof -
  let ?r = "\<lparr>pp_id = ''i'', pp_type = ''directive'', pp_name = ''a'', pp_version = 1, pp_status = ''active'',
    pp_content = ''x'', pp_checksum = ''x'', pp_metadata = [], pp_active = True, pp_created_at = 1,
    pp_updated_at = 1\<rparr>"
  let ?p = "[(''policy_type'', PStr ''Directives''), (''policy_name'', PStr ''a''),
       (''version'', PInt 2), (''content'', PStr ''y'')]"
  have x: "strip ''x'' \<noteq> []" "''active'' \<in> set prompt_policy_statuses" "''directive'' \<in> set prompt_policy_types"
    by code_simp+
  have ok: "policies_ok env0 [?r]"
    using x by (simp add: policies_ok_def uniq_def policy_row_ok_def one_active_def env0_def)
  have "case apply_upsert_prompt_policy env0 ?p [?r] of Inl _ \<Rightarrow> False | Inr t \<Rightarrow> map pp_active t = [False, True]"
    by code_simp
  then obtain t where t: "apply_upsert_prompt_policy env0 ?p [?r] = Inr t" "map pp_active t = [False, True]"
    by (auto split: sum.splits)
  have "policies_ok env0 t" using prompt_policies_invariant [OF ok disjI1 [OF t(1)]] .
  with ok t show ?thesis by (intro exI [of _ "[?r]"] exI [of _ t]) simp
qed

text \<open>
  Applying the framework pack is idempotent: for a well-formed pack, after one successful
  application (forced or not), applying it again without \<open>force\<close> succeeds, writes nothing and reports
  no policy as applied, so the versions of the registry do not grow at every start.
\<close>

lemma framework_pack_idempotent:
  assumes "policies_ok e rows" and "file = Some (PDict pack)" and "pack_wf pack"
    and "apply_framework_policy_pack e file force rows = Inr (rows', applied)"
  shows "apply_framework_policy_pack e file False rows' = Inr (rows', [])"
proof -
  have load: "load_framework_policy_pack file = Inr pack"
    and run: "forE (apply_pack_entry e force (pack_metadata pack)) (pack_policies pack) (rows, []) = Inr (rows', applied)"
    using assms(2,4) unfolding apply_framework_policy_pack_def
    by (auto simp: load_framework_policy_pack_def split: pyval.splits list.splits)
  have "forE (apply_pack_entry e False (pack_metadata pack)) (pack_policies pack) (rows', []) = Inr (rows', [])"
    using forE_pack_current [OF assms(1) _ _ pack_metadata_seed run] assms(3) forE_each [OF run]
    by (intro forE_pack_skip) (auto simp: pack_wf_def)
  with load show ?thesis by (simp add: apply_framework_policy_pack_def)
qed

lemma framework_pack_idempotent_witness:
  "\<exists>pack rows. pack_wf pack \<and>
     apply_framework_policy_pack env0 (Some (PDict pack)) True [] = Inr (rows, [''directive/a'']) \<and>
     apply_framework_policy_pack env0 (Some (PDict pack)) False rows = Inr (rows, [])"
proof -
  let ?pack = "[(''policies'', PList [PDict [(''policy_type'', PStr ''Directive ''),
     (''policy_name'', PStr ''a''), (''content'', PStr ''x'')]])]"
  have "distinct (map pack_entry_key (pack_policies ?pack)) \<and> list_all (\<lambda>v. fst (pack_entry_key v) \<in> set prompt_policy_types \<and>
     map_of (pdict_or_empty (pget (pdict_or_empty v) ''metadata'' PNone)) ''seed'' = None) (pack_policies ?pack)"
    by code_simp
  then have wf: "pack_wf ?pack" by (simp add: pack_wf_def pack_entry_wf_def list_all_iff)
  have "case apply_framework_policy_pack env0 (Some (PDict ?pack)) True [] of Inl _ \<Rightarrow> False
    | Inr (t, a) \<Rightarrow> a = [''directive/a'']" by code_simp
  then obtain t where t: "apply_framework_policy_pack env0 (Some (PDict ?pack)) True [] = Inr (t, [''directive/a''])"
    by (auto split: sum.splits)
  have "policies_ok env0 []" by (simp add: policies_ok_def one_active_def)
  from framework_pack_idempotent [OF this refl wf t] wf t show ?thesis by blast
qed

end
