(* ===== verification/PolicyResolver.thy ===== *)
theory PolicyResolver
  imports PromptPolicies
begin

text \<open>
  The agents' side of the prompt policy registry: the resolver
  (\<open>packages/agents/src/duckclaw/prompt_policies/resolver.py\<close>), its framework fallbacks
  (\<open>framework_fallbacks.py\<close>) and the health classification (\<open>health.py\<close>). The registry is \<open>None\<close> when
  the table cannot be read. The pack is the decoded JSON of the seed file, loaded successfully.
\<close>

subsection \<open>Framework fallbacks\<close>

definition normalize_policy_type :: "string \<Rightarrow> string" where
  "normalize_policy_type policy_type = resolve_alias (lower (strip policy_type))"

definition framework_prompt_policy_requirements :: "(string \<times> string \<times> string) list" where
  "framework_prompt_policy_requirements =
     [(''capability'', ''generic_worker'', ''framework''),
      (''capability'', ''default_fallback'', ''framework''),
      (''system_prompt'', ''default'', ''framework'')]"

definition framework_policy_keys :: "payload \<Rightarrow> (string \<times> string) list" where
  "framework_policy_keys pack = filter (\<lambda>(ty, nm). ty \<noteq> [] \<and> nm \<noteq> [])
     (map pack_entry_key (pack_policies pack))"

definition get_framework_policy_content :: "payload \<Rightarrow> string \<Rightarrow> string \<Rightarrow> string option" where
  "get_framework_policy_content pack policy_type policy_name =
     (case List.find (\<lambda>entry. pack_entry_key entry = (lower (strip policy_type), strip policy_name))
        (pack_policies pack) of
       None \<Rightarrow> None
     | Some entry \<Rightarrow> (let content = opt_str (pdict_or_empty entry) ''content'' []
         in if content = [] then None else Some content))"

definition airbag_policy_keys :: "(string \<times> string) list" where
  "airbag_policy_keys = map (\<lambda>(ty, nm, src). (ty, nm)) framework_prompt_policy_requirements"

definition is_framework_policy_key :: "payload \<Rightarrow> string \<Rightarrow> string \<Rightarrow> bool" where
  "is_framework_policy_key pack policy_type policy_name = (let
     key = (lower (strip policy_type), strip policy_name)
   in key \<in> set airbag_policy_keys \<or> key \<in> set (framework_policy_keys pack))"

definition framework_fallback_content :: "payload \<Rightarrow> string \<Rightarrow> string \<Rightarrow> string option" where
  "framework_fallback_content pack policy_type policy_name =
     (if \<not> is_framework_policy_key pack policy_type policy_name then None
      else get_framework_policy_content pack policy_type policy_name)"

subsection \<open>The resolver\<close>

type_synonym registry = "policy_row list option"

definition try_load_from_db :: "payload \<Rightarrow> registry option \<Rightarrow> string \<Rightarrow> string \<Rightarrow> py_error + string" where
  "try_load_from_db pack db policy_type policy_name = (case db of
     None \<Rightarrow> Inl (RuntimeError ''PromptPolicyResolver requires a DuckDB connection'')
   | Some None \<Rightarrow>
       if is_framework_policy_key pack policy_type policy_name then Inr []
       else Inl (RuntimeError ''main.prompt_policy_registry is unavailable'')
   | Some (Some rows) \<Rightarrow>
       (case top_by pp_version (sel_all (is_active_policy policy_type policy_name) rows) of
          None \<Rightarrow> Inr []
        | Some row \<Rightarrow> (let content = strip (pp_content row) in
            if content = [] then Inl (RuntimeError ''active prompt policy has empty content'')
            else Inr content)))"

text \<open>\<open>_resolve\<close>: the recursive call inherits \<open>system_prompt/default\<close> and never inherits again.\<close>

definition resolve_once :: "payload \<Rightarrow> registry option \<Rightarrow> string \<Rightarrow> string \<Rightarrow> py_error + string" where
  "resolve_once pack db policy_type policy_name =
     bindE (try_load_from_db pack db policy_type policy_name) (\<lambda>content.
     if content \<noteq> [] then Inr content
     else if is_framework_policy_key pack policy_type policy_name then
       (case framework_fallback_content pack policy_type policy_name of
          None \<Rightarrow> Inr [] | Some fallback \<Rightarrow> Inr fallback)
     else Inr [])"

definition resolve_policy :: "payload \<Rightarrow> registry option \<Rightarrow> bool \<Rightarrow> string \<Rightarrow> string \<Rightarrow> py_error + string" where
  "resolve_policy pack db inherit_default policy_type policy_name =
     bindE (resolve_once pack db policy_type policy_name) (\<lambda>content.
     if content \<noteq> [] then Inr content
     else if inherit_default \<and> policy_type = ''system_prompt'' \<and> policy_name \<notin> {[], ''default''}
     then resolve_once pack db ''system_prompt'' ''default''
     else Inr [])"

definition load_policy :: "payload \<Rightarrow> registry option \<Rightarrow> string \<Rightarrow> string \<Rightarrow> py_error + string" where
  "load_policy pack db policy_type policy_name = (let
     normalized_type = normalize_policy_type policy_type; name = strip policy_name
   in
     if normalized_type = [] \<or> name = []
     then Inl (FileNotFoundError ''prompt policy requires type and name'')
     else bindE (resolve_policy pack db True normalized_type name) (\<lambda>content.
       if content = [] then Inl (FileNotFoundError
         (''active prompt policy not found in main.prompt_policy_registry: '' @
          normalized_type @ ''/'' @ name))
       else Inr content))"

subsection \<open>Health\<close>

type_synonym requirement = "string \<times> string \<times> string"

definition normalized_requirement :: "requirement \<Rightarrow> requirement" where
  "normalized_requirement r = (case r of (ty, nm, src) \<Rightarrow>
     (normalize_policy_type ty, strip nm, strip src))"

record policy_health =
  ph_missing :: "requirement list"
  ph_inherited :: "requirement list"
  ph_ok :: "requirement list"

definition active_policy_exists :: "policy_row list \<Rightarrow> string \<Rightarrow> string \<Rightarrow> bool" where
  "active_policy_exists rows ty nm \<longleftrightarrow> sel_one (is_active_policy ty nm) rows \<noteq> None"

text \<open>\<open>workers\<close> holds the ids of the active rows of \<open>admin_worker_catalog\<close>.\<close>

definition is_inherited_system_prompt_requirement ::
  "string list \<Rightarrow> policy_row list \<Rightarrow> requirement \<Rightarrow> bool" where
  "is_inherited_system_prompt_requirement workers rows req = (case req of (ty, nm, src) \<Rightarrow>
     if ty \<noteq> ''system_prompt'' \<or> src \<noteq> ''worker'' then False
     else if nm = [] \<or> nm = ''default'' then False
     else if nm \<notin> set workers then False
     else active_policy_exists rows ''system_prompt'' ''default'')"

fun classify_requirements ::
  "string list \<Rightarrow> policy_row list \<Rightarrow> requirement list \<Rightarrow> requirement list \<Rightarrow> policy_health \<Rightarrow>
     py_error + policy_health" where
  "classify_requirements workers rows seen [] h = Inr h"
| "classify_requirements workers rows seen (req # reqs) h = (let
     (ty, nm, src) = normalized_requirement req; key = (ty, nm, src)
   in
     if ty = [] \<or> nm = [] then Inl (ValueError ''prompt policy requirement requires type and name'')
     else if key \<in> set seen then classify_requirements workers rows seen reqs h
     else classify_requirements workers rows (key # seen) reqs
       (if active_policy_exists rows ty nm then h\<lparr>ph_ok := ph_ok h @ [key]\<rparr>
        else if is_inherited_system_prompt_requirement workers rows key
        then h\<lparr>ph_inherited := ph_inherited h @ [key]\<rparr>
        else h\<lparr>ph_missing := ph_missing h @ [key]\<rparr>))"

definition classify_prompt_policy_health ::
  "string list \<Rightarrow> policy_row list option \<Rightarrow> requirement list \<Rightarrow> py_error + policy_health" where
  "classify_prompt_policy_health workers db reqs = (case db of
     None \<Rightarrow> Inl (RuntimeError ''prompt policy health requires a DuckDB connection'')
   | Some rows \<Rightarrow> classify_requirements workers rows [] reqs
       \<lparr>ph_missing = [], ph_inherited = [], ph_ok = []\<rparr>)"

fun missing_requirements ::
  "policy_row list \<Rightarrow> requirement list \<Rightarrow> requirement list \<Rightarrow> py_error + requirement list" where
  "missing_requirements rows seen [] = Inr []"
| "missing_requirements rows seen (req # reqs) = (let
     (ty, nm, src) = normalized_requirement req; key = (ty, nm, src)
   in
     if ty = [] \<or> nm = [] then Inl (ValueError ''prompt policy requirement requires type and name'')
     else if key \<in> set seen then missing_requirements rows seen reqs
     else bindE (missing_requirements rows (key # seen) reqs) (\<lambda>rest.
       Inr (if active_policy_exists rows ty nm then rest else key # rest)))"

definition missing_prompt_policies ::
  "policy_row list option \<Rightarrow> requirement list \<Rightarrow> py_error + requirement list" where
  "missing_prompt_policies db reqs = (case db of
     None \<Rightarrow> Inl (RuntimeError ''prompt policy health requires a DuckDB connection'')
   | Some rows \<Rightarrow> missing_requirements rows [] reqs)"

definition prompt_policy_requirements_for_workers :: "string list \<Rightarrow> bool \<Rightarrow> requirement list" where
  "prompt_policy_requirements_for_workers worker_ids include_framework =
     (if include_framework then framework_prompt_policy_requirements else []) @
     map (\<lambda>w. (''system_prompt'', w, ''worker''))
       (sort (remdups (filter (\<lambda>w. w \<noteq> []) (map strip worker_ids))))"

subsection \<open>Lemmas\<close>

lemma framework_fallback_nonempty: "framework_fallback_content pack ty nm = Some c \<Longrightarrow> c \<noteq> []"
  by (auto simp: framework_fallback_content_def get_framework_policy_content_def Let_def
      split: if_splits option.splits)

lemma try_load_active:
  assumes "policies_ok e rows" "r \<in> set rows" "is_active_policy ty nm r"
  shows "try_load_from_db pack (Some (Some rows)) ty nm = Inr (strip (pp_content r))"
    and "strip (pp_content r) \<noteq> []"
proof -
  show c: "strip (pp_content r) \<noteq> []" using assms by (simp add: policies_ok_def policy_row_ok_def)
  show "try_load_from_db pack (Some (Some rows)) ty nm = Inr (strip (pp_content r))"
    using active_row_unique [OF assms] c by (simp add: try_load_from_db_def)
qed

lemma resolve_once_active:
  assumes "policies_ok e rows" "r \<in> set rows" "is_active_policy ty nm r"
  shows "resolve_once pack (Some (Some rows)) ty nm = Inr (strip (pp_content r))"
  using try_load_active [OF assms] by (simp add: resolve_once_def)

lemma resolve_once_total:
  assumes "policies_ok e rows"
  shows "\<exists>c. resolve_once pack (Some (Some rows)) ty nm = Inr c"
proof (cases "top_by pp_version (sel_all (is_active_policy ty nm) rows)")
  case None
  then show ?thesis
    by (simp add: resolve_once_def try_load_from_db_def split: option.split)
next
  case (Some r)
  from top_by_mem [OF this] have "r \<in> set rows" "is_active_policy ty nm r" by (simp_all add: sel_all_def)
  from resolve_once_active [OF assms this] show ?thesis by blast
qed

lemma active_policy_existsE:
  assumes "active_policy_exists rows ty nm"
  obtains r where "r \<in> set rows" "is_active_policy ty nm r"
  using assms by (auto simp: active_policy_exists_def dest: sel_one_Some)

lemma resolve_alias_idem: "lower (strip v) = v \<Longrightarrow> normalize_policy_type (resolve_alias v) = resolve_alias v"
proof -
  assume v: "lower (strip v) = v"
  have al: "\<forall>(a, b) \<in> set prompt_policy_aliases. resolve_alias (lower (strip b)) = b" by code_simp
  show ?thesis
  proof (cases "map_of prompt_policy_aliases v")
    case None
    then show ?thesis using v by (simp add: resolve_alias_def normalize_policy_type_def)
  next
    case (Some w)
    with al have "resolve_alias (lower (strip w)) = w" by (auto dest: map_of_SomeD)
    with Some show ?thesis by (simp add: resolve_alias_def normalize_policy_type_def)
  qed
qed

lemma normalize_policy_type_idem [simp]:
  "normalize_policy_type (normalize_policy_type t) = normalize_policy_type t"
  unfolding normalize_policy_type_def [of t] by (rule resolve_alias_idem) (simp add: strip_lower)

lemma load_policy_normalized:
  assumes "normalize_policy_type ty = ty" "strip nm = nm" "ty \<noteq> []" "nm \<noteq> []"
    and "resolve_policy pack db True ty nm = Inr c" "c \<noteq> []"
  shows "load_policy pack db ty nm = Inr c"
  using assms by (simp add: load_policy_def Let_def)

lemma resolve_inherited:
  assumes ok: "policies_ok e rows" and ex: "active_policy_exists rows ''system_prompt'' ''default''"
    and nm: "nm \<noteq> []" "nm \<noteq> ''default''"
  shows "\<exists>c. resolve_policy pack (Some (Some rows)) True ''system_prompt'' nm = Inr c \<and> c \<noteq> []"
proof -
  obtain c where c: "resolve_once pack (Some (Some rows)) ''system_prompt'' nm = Inr c"
    using resolve_once_total [OF ok] by blast
  obtain r where r: "r \<in> set rows" "is_active_policy ''system_prompt'' ''default'' r"
    using ex by (rule active_policy_existsE)
  note d = resolve_once_active [OF ok r, of pack] try_load_active(2) [OF ok r]
  show ?thesis
  proof (cases "c = []")
    case True
    with c d nm show ?thesis by (simp add: resolve_policy_def)
  next
    case False
    with c show ?thesis by (simp add: resolve_policy_def)
  qed
qed

text \<open>What the classification loop collects.\<close>

definition clean_requirement :: "requirement \<Rightarrow> bool" where
  "clean_requirement r = (case r of (ty, nm, src) \<Rightarrow>
     normalize_policy_type ty = ty \<and> strip nm = nm \<and> ty \<noteq> [] \<and> nm \<noteq> [])"

definition health_ok :: "string list \<Rightarrow> policy_row list \<Rightarrow> policy_health \<Rightarrow> bool" where
  "health_ok workers rows h \<longleftrightarrow>
     (\<forall>(ty, nm, src) \<in> set (ph_ok h). clean_requirement (ty, nm, src) \<and> active_policy_exists rows ty nm) \<and>
     (\<forall>(ty, nm, src) \<in> set (ph_inherited h). clean_requirement (ty, nm, src) \<and>
        \<not> active_policy_exists rows ty nm \<and>
        is_inherited_system_prompt_requirement workers rows (ty, nm, src)) \<and>
     (\<forall>(ty, nm, src) \<in> set (ph_missing h). clean_requirement (ty, nm, src) \<and> \<not> active_policy_exists rows ty nm)"

lemma normalized_requirement_clean:
  "normalized_requirement r = (ty, nm, src) \<Longrightarrow> ty \<noteq> [] \<Longrightarrow> nm \<noteq> [] \<Longrightarrow> clean_requirement (ty, nm, src)"
  by (cases r) (auto simp: normalized_requirement_def clean_requirement_def)

lemma classify_health_ok:
  "health_ok workers rows h \<Longrightarrow> classify_requirements workers rows seen reqs h = Inr h' \<Longrightarrow>
   health_ok workers rows h'"
proof (induction reqs arbitrary: seen h)
  case (Cons req reqs)
  obtain ty nm src where k: "normalized_requirement req = (ty, nm, src)" by (cases "normalized_requirement req")
  with Cons.prems(2) have ne: "ty \<noteq> []" "nm \<noteq> []" by (auto simp: Let_def split: if_splits)
  note cl = normalized_requirement_clean [OF k ne]
  show ?case
  proof (cases "(ty, nm, src) \<in> set seen")
    case True
    with Cons k ne show ?thesis by (auto simp: Let_def)
  next
    case False
    let ?h = "if active_policy_exists rows ty nm then h\<lparr>ph_ok := ph_ok h @ [(ty, nm, src)]\<rparr>
        else if is_inherited_system_prompt_requirement workers rows (ty, nm, src)
        then h\<lparr>ph_inherited := ph_inherited h @ [(ty, nm, src)]\<rparr>
        else h\<lparr>ph_missing := ph_missing h @ [(ty, nm, src)]\<rparr>"
    have "health_ok workers rows ?h" using Cons.prems(1) cl by (auto simp: health_ok_def)
    moreover have "classify_requirements workers rows ((ty, nm, src) # seen) reqs ?h = Inr h'"
      using Cons.prems(2) k ne False by (simp add: Let_def)
    ultimately show ?thesis by (rule Cons.IH)
  qed
qed simp

lemma inherited_loads:
  assumes "policies_ok e rows" "clean_requirement (ty, nm, src)"
    "is_inherited_system_prompt_requirement workers rows (ty, nm, src)"
  shows "\<exists>c. load_policy pack (Some (Some rows)) ty nm = Inr c \<and> c \<noteq> []"
proof -
  have t: "ty = ''system_prompt''" "nm \<noteq> ''default''" "nm \<noteq> []"
      "active_policy_exists rows ''system_prompt'' ''default''"
    using assms(3) by (auto simp: is_inherited_system_prompt_requirement_def split: if_splits)
  obtain c where "resolve_policy pack (Some (Some rows)) True ty nm = Inr c" "c \<noteq> []"
    using resolve_inherited [OF assms(1) t(4,3,2)] t(1) by blast
  with assms(2) load_policy_normalized show ?thesis by (auto simp: clean_requirement_def)
qed

lemma existing_loads:
  assumes ok: "policies_ok e rows" and cl: "clean_requirement (ty, nm, src)"
    and ex: "active_policy_exists rows ty nm"
  shows "\<exists>c. load_policy pack (Some (Some rows)) ty nm = Inr c \<and> c \<noteq> []"
proof -
  obtain r where r: "r \<in> set rows" "is_active_policy ty nm r" using ex by (rule active_policy_existsE)
  have "resolve_policy pack (Some (Some rows)) True ty nm = Inr (strip (pp_content r))"
    using resolve_once_active [OF ok r, of pack] try_load_active(2) [OF ok r] by (simp add: resolve_policy_def)
  with try_load_active(2) [OF ok r] cl load_policy_normalized show ?thesis
    by (auto simp: clean_requirement_def)
qed

subsection \<open>Properties\<close>

text \<open>
  C34. Write, then read: after a successful upsert of an active version, loading the policy under the
  same raw type and name (aliases, case and blanks included) returns the content of that version,
  stripped, whatever versions existed before.
\<close>

lemma upserted_policy_is_loaded:
  assumes "policies_ok e rows"
    and "apply_upsert_prompt_policy e p rows = Inr rows'"
    and "lower (opt_str p ''status'' ''active'') = ''active''"
  shows "load_policy pack (Some (Some rows')) (gstr p ''policy_type'' []) (gstr p ''policy_name'' []) =
         Inr (strip (gstr p ''content'' []))"
proof -
  obtain ty r where r: "normalize_prompt_policy_type (pget p ''policy_type'' PNone) = Inr ty"
      "r \<in> set rows'" "is_active_policy ty (opt_str p ''policy_name'' []) r"
      "pp_content r = gstr p ''content'' []"
    using upsert_active_row [OF assms] by metis
  have ok: "policies_ok e rows'" by (rule upsert_prompt_policy_ok [OF assms(1,2)])
  have ty: "normalize_policy_type (gstr p ''policy_type'' []) = ty" "ty \<in> set prompt_policy_types"
    using r(1) by (auto simp: normalize_prompt_policy_type_def normalize_policy_type_def gstr_def Let_def
        split: if_splits)
  have "ty \<noteq> []" using ty(2) by (auto simp: prompt_policy_types_def)
  moreover have "strip (gstr p ''policy_name'' []) \<noteq> []"
    using ok r(2,3) by (auto simp: policies_ok_def policy_row_ok_def is_active_policy_def same_policy_def opt_str_def)
  ultimately show ?thesis
    using resolve_once_active [OF ok r(2,3), of pack] try_load_active(2) [OF ok r(2,3)] r(4) ty(1)
    by (simp add: load_policy_def Let_def resolve_policy_def opt_str_def)
qed

lemma upserted_policy_is_loaded_witness:
  "\<exists>rows'. apply_upsert_prompt_policy env0 [(''policy_type'', PStr '' Directives''), (''policy_name'', PStr ''a ''),
       (''content'', PStr '' hi '')] [] = Inr rows' \<and>
     load_policy [] (Some (Some rows')) '' Directives'' ''a '' = Inr ''hi''"
proof -
  let ?p = "[(''policy_type'', PStr '' Directives''), (''policy_name'', PStr ''a ''), (''content'', PStr '' hi '')]"
  have "case apply_upsert_prompt_policy env0 ?p [] of Inl _ \<Rightarrow> False | Inr t \<Rightarrow> True" by code_simp
  then obtain t where t: "apply_upsert_prompt_policy env0 ?p [] = Inr t" by (auto split: sum.splits)
  have ok: "policies_ok env0 []" by (simp add: policies_ok_def one_active_def)
  have st: "lower (opt_str ?p ''status'' ''active'') = ''active''" by code_simp
  have hi: "strip '' hi '' = ''hi''" by code_simp
  show ?thesis
    using upserted_policy_is_loaded [OF ok t st, of "[]"] t hi by (simp add: gstr_def por_def)
qed

text \<open>
  The health check is sound for the resolver: every requirement it classifies as ok, and every
  one it classifies as inherited, loads a non-empty prompt from the same registry.
\<close>

lemma healthy_policies_load:
  assumes "policies_ok e rows"
    and "classify_prompt_policy_health workers (Some rows) reqs = Inr h"
    and "(ty, nm, src) \<in> set (ph_ok h) \<union> set (ph_inherited h)"
  shows "\<exists>c. load_policy pack (Some (Some rows)) ty nm = Inr c \<and> c \<noteq> []"
proof -
  have "health_ok workers rows \<lparr>ph_missing = [], ph_inherited = [], ph_ok = []\<rparr>"
    by (simp add: health_ok_def)
  with assms(2) have h: "health_ok workers rows h"
    unfolding classify_prompt_policy_health_def by (auto intro: classify_health_ok)
  show ?thesis
  proof (cases "(ty, nm, src) \<in> set (ph_ok h)")
    case True
    with h existing_loads [OF assms(1)] show ?thesis by (auto simp: health_ok_def)
  next
    case False
    with assms(3) h have "clean_requirement (ty, nm, src)"
        "is_inherited_system_prompt_requirement workers rows (ty, nm, src)"
      by (auto simp: health_ok_def)
    then show ?thesis by (rule inherited_loads [OF assms(1)])
  qed
qed

lemma healthy_policies_load_witness:
  "\<exists>rows h c. classify_prompt_policy_health [''w''] (Some rows) [(''system_prompts'', ''w '', ''worker'')] = Inr h \<and>
     ph_inherited h = [(''system_prompt'', ''w'', ''worker'')] \<and>
     load_policy [] (Some (Some rows)) ''system_prompt'' ''w'' = Inr c \<and> c \<noteq> []"
proof -
  let ?r = "\<lparr>pp_id = ''i'', pp_type = ''system_prompt'', pp_name = ''default'', pp_version = 1,
    pp_status = ''active'', pp_content = ''x'', pp_checksum = ''x'', pp_metadata = [], pp_active = True,
    pp_created_at = 1, pp_updated_at = 1\<rparr>"
  let ?k = "(''system_prompt'', ''w'', ''worker'')"
  let ?h = "\<lparr>ph_missing = [], ph_inherited = [?k], ph_ok = []\<rparr>"
  have x: "strip ''x'' \<noteq> []" "''active'' \<in> set prompt_policy_statuses" "''system_prompt'' \<in> set prompt_policy_types"
    by code_simp+
  have ok: "policies_ok env0 [?r]"
    using x by (simp add: policies_ok_def uniq_def policy_row_ok_def one_active_def env0_def)
  have n: "normalized_requirement (''system_prompts'', ''w '', ''worker'') = ?k" by code_simp
  have h: "classify_prompt_policy_health [''w''] (Some [?r]) [(''system_prompts'', ''w '', ''worker'')] = Inr ?h"
    by (simp add: classify_prompt_policy_health_def n active_policy_exists_def is_active_policy_def
        same_policy_def is_inherited_system_prompt_requirement_def)
  have "?k \<in> set (ph_ok ?h) \<union> set (ph_inherited ?h)" by simp
  from healthy_policies_load [OF ok h this] h show ?thesis by fastforce
qed

end
