(* ===== verification/Hitl.thy ===== *)
theory Hitl
  imports Tables
begin

text \<open>
  Human decisions on agent work: \<open>packages/shared/src/duckclaw/write_handlers/hitl.py\<close> over
  \<open>code_decisions\<close> and \<open>agent_uncertainty_log\<close>, which the handlers create when they are missing. The rows
  carry the columns the handlers read or write; the others (repo, file, branch, title ...) are never touched.
\<close>

subsection \<open>State\<close>

record code_decision =
  cd_id :: string
  cd_status :: string
  cd_rationale :: "string option"
  cd_pr_url :: "string option"
  cd_pr_number :: "int option"
  cd_resolved_at :: "int option"
  cd_resolved_by :: "string option"

record uncertainty_row =
  ul_id :: string
  ul_description :: "string option"
  ul_status :: string
  ul_resolved_at :: "int option"
  ul_resolved_by :: "string option"

record hitl_db =
  hd_decisions :: "code_decision list option"
  hd_uncertainty :: "uncertainty_row list option"

subsection \<open>Operations\<close>

definition ensure_code_decisions_table :: "hitl_db \<Rightarrow> hitl_db" where
  "ensure_code_decisions_table db = db\<lparr>hd_decisions := Some (ensure_table (hd_decisions db))\<rparr>"

definition ensure_agent_uncertainty_log_table :: "hitl_db \<Rightarrow> hitl_db" where
  "ensure_agent_uncertainty_log_table db = db\<lparr>hd_uncertainty := Some (ensure_table (hd_uncertainty db))\<rparr>"

definition resolved_by_of :: "payload \<Rightarrow> string" where
  "resolved_by_of payload = take 256 (pystr (por (pget payload ''resolved_by'' PNone)
     (por (pget payload ''actor_email'' PNone) (PStr ''system''))))"

definition decision_verdicts :: "string list" where
  "decision_verdicts = [''APPROVED'', ''REJECTED'', ''FAILED'']"

definition apply_update_code_decision_status :: "env \<Rightarrow> payload \<Rightarrow> hitl_db \<Rightarrow> py_error + hitl_db" where
  "apply_update_code_decision_status e payload db = (let
     decision_id = opt_str payload ''decision_id'' [];
     status = upper (opt_str payload ''status'' [])
   in
     if decision_id = [] then Inl (ValueError ''decision_id required'') else
     if status \<notin> set decision_verdicts then Inl (ValueError ''invalid code decision status'') else
     let db = ensure_code_decisions_table db;
         pr_url = take 2048 (gstr payload ''pr_url'' []);
         rationale = take 8192 (gstr payload ''rationale'' []);
         resolved_by = resolved_by_of payload
     in
     bindE (sql_int64_param e (pget payload ''pr_number'' PNone)) (\<lambda>pr_number.
     Inr (db\<lparr>hd_decisions := map_option
       (upd_where (\<lambda>r. cd_id r = decision_id \<and> cd_status r = ''PENDING_HITL'')
         (\<lambda>r. r\<lparr>cd_status := status, cd_pr_url := coalesce_text pr_url (cd_pr_url r),
                cd_pr_number := coalesce pr_number (cd_pr_number r),
                cd_rationale := coalesce_text rationale (cd_rationale r),
                cd_resolved_at := Some (now e), cd_resolved_by := Some resolved_by\<rparr>))
       (hd_decisions db)\<rparr>)))"

definition apply_resolve_uncertainty_event :: "env \<Rightarrow> payload \<Rightarrow> hitl_db \<Rightarrow> py_error + hitl_db" where
  "apply_resolve_uncertainty_event e payload db = (let event_id = opt_str payload ''event_id'' [] in
     if event_id = [] then Inl (ValueError ''event_id required'') else
     let resolved_by = resolved_by_of payload;
         db = ensure_agent_uncertainty_log_table db
     in Inr (db\<lparr>hd_uncertainty := map_option
       (upd_where (\<lambda>r. ul_id r = event_id \<and> ul_status r = ''PENDING_HITL'')
         (\<lambda>r. r\<lparr>ul_status := ''RESOLVED'', ul_resolved_at := Some (now e),
                ul_resolved_by := Some resolved_by\<rparr>))
       (hd_uncertainty db)\<rparr>))"

subsection \<open>The decision state machine\<close>

definition hitl_decisions :: "hitl_db \<Rightarrow> code_decision list" where
  "hitl_decisions db = ensure_table (hd_decisions db)"

definition hitl_uncertainty :: "hitl_db \<Rightarrow> uncertainty_row list" where
  "hitl_uncertainty db = ensure_table (hd_uncertainty db)"

text \<open>
  Runs of both handlers: \<open>hitl_step\<close> is one successful command, \<open>hitl_run\<close> a sequence of them.
\<close>

inductive hitl_step :: "hitl_db \<Rightarrow> hitl_db \<Rightarrow> bool" where
  decide: "apply_update_code_decision_status e p db = Inr db' \<Longrightarrow> hitl_step db db'"
| resolve: "apply_resolve_uncertainty_event e p db = Inr db' \<Longrightarrow> hitl_step db db'"

inductive_cases hitl_stepE: "hitl_step db db'"

abbreviation hitl_run :: "hitl_db \<Rightarrow> hitl_db \<Rightarrow> bool" where
  "hitl_run \<equiv> hitl_step\<^sup>*\<^sup>*"

definition verdict_step :: "code_decision \<Rightarrow> code_decision \<Rightarrow> bool" where
  "verdict_step r r' \<longleftrightarrow> cd_id r' = cd_id r \<and>
     (r' = r \<or> cd_status r = ''PENDING_HITL'' \<and> cd_status r' \<in> set decision_verdicts)"

lemma verdict_step_refl [simp]: "verdict_step r r"
  by (simp add: verdict_step_def)

lemma verdict_not_pending: "s \<in> set decision_verdicts \<Longrightarrow> s \<noteq> ''PENDING_HITL''"
  by (auto simp: decision_verdicts_def)

lemma verdict_step_trans: "verdict_step r s \<Longrightarrow> verdict_step s t \<Longrightarrow> verdict_step r t"
  unfolding verdict_step_def using verdict_not_pending by metis

lemma update_code_decision_cases:
  assumes "apply_update_code_decision_status e p db = Inr db'"
  obtains P f where "hitl_decisions db' = upd_where P f (hitl_decisions db)"
    "hitl_uncertainty db' = hitl_uncertainty db"
    "\<And>r. P r \<longleftrightarrow> cd_id r = opt_str p ''decision_id'' [] \<and> cd_status r = ''PENDING_HITL''"
    "\<And>r. cd_id (f r) = cd_id r \<and> cd_status (f r) = upper (opt_str p ''status'' [])"
    "upper (opt_str p ''status'' []) \<in> set decision_verdicts"
  using assms unfolding apply_update_code_decision_status_def
  apply (clarsimp simp: Let_def split: if_splits)
  apply (rule that [where P = "\<lambda>r. cd_id r = opt_str p ''decision_id'' [] \<and> cd_status r = ''PENDING_HITL''"])
      apply (simp add: hitl_decisions_def ensure_code_decisions_table_def ensure_table_def)
     apply (simp add: hitl_uncertainty_def ensure_code_decisions_table_def hitl_decisions_def)+
  done

lemma resolve_uncertainty_decisions:
  "apply_resolve_uncertainty_event e p db = Inr db' \<Longrightarrow> hitl_decisions db' = hitl_decisions db"
  by (auto simp: apply_resolve_uncertainty_event_def Let_def hitl_decisions_def
      ensure_agent_uncertainty_log_table_def split: if_splits)

lemma hitl_step_verdicts: "hitl_step db db' \<Longrightarrow> list_all2 verdict_step (hitl_decisions db) (hitl_decisions db')"
proof (elim hitl_stepE)
  fix e p
  assume "apply_update_code_decision_status e p db = Inr db'"
  then show ?thesis
  proof (cases rule: update_code_decision_cases)
    case (1 P f)
    then show ?thesis
      by (auto simp: upd_where_def list_all2_map2 verdict_step_def intro!: list_all2_refl)
  qed
next
  fix e p
  assume "apply_resolve_uncertainty_event e p db = Inr db'"
  then show ?thesis by (simp add: resolve_uncertainty_decisions list_all2_refl)
qed

subsection \<open>Properties\<close>

text \<open>
  A human verdict is final: along any sequence of human-in-the-loop commands each decision row keeps
  its identity, and once it has left \<open>PENDING_HITL\<close> it is never changed again; the only status it can
  move to is a verdict.
\<close>

lemma hitl_verdict_final:
  assumes "hitl_run db db'"
  shows "list_all2 (\<lambda>r r'. cd_id r' = cd_id r \<and>
           (cd_status r \<noteq> ''PENDING_HITL'' \<longrightarrow> r' = r) \<and>
           (r' \<noteq> r \<longrightarrow> cd_status r' \<in> {''APPROVED'', ''REJECTED'', ''FAILED''}))
         (hitl_decisions db) (hitl_decisions db')"
proof -
  have "list_all2 verdict_step (hitl_decisions db) (hitl_decisions db')"
    using assms
  proof (induction rule: rtranclp_induct)
    case base
    show ?case by (simp add: list_all2_refl)
  next
    case (step y z)
    show ?case
      using list_all2_trans [OF _ step.IH hitl_step_verdicts [OF step.hyps(2)]] verdict_step_trans by blast
  qed
  then show ?thesis
    by (rule list_all2_mono) (auto simp: verdict_step_def decision_verdicts_def)
qed

lemma hitl_verdict_final_witness:
  "\<exists>r db1 db2. cd_status r = ''PENDING_HITL'' \<and>
     apply_update_code_decision_status env0 [(''decision_id'', PStr ''d''), (''status'', PStr ''approved'')]
       \<lparr>hd_decisions = Some [r], hd_uncertainty = None\<rparr> = Inr db1 \<and>
     apply_update_code_decision_status env0 [(''decision_id'', PStr ''d''), (''status'', PStr ''REJECTED'')]
       db1 = Inr db2 \<and>
     map cd_status (hitl_decisions db1) = [''APPROVED''] \<and> hitl_decisions db2 = hitl_decisions db1"
proof -
  let ?r = "\<lparr>cd_id = ''d'', cd_status = ''PENDING_HITL'', cd_rationale = None, cd_pr_url = None,
    cd_pr_number = None, cd_resolved_at = None, cd_resolved_by = None\<rparr>"
  let ?db = "\<lparr>hd_decisions = Some [?r], hd_uncertainty = None\<rparr>"
  let ?p = "[(''decision_id'', PStr ''d''), (''status'', PStr ''approved'')]"
  let ?q = "[(''decision_id'', PStr ''d''), (''status'', PStr ''REJECTED'')]"
  have "case apply_update_code_decision_status env0 ?p ?db of Inl _ \<Rightarrow> False | Inr d1 \<Rightarrow>
      map cd_status (hitl_decisions d1) = [''APPROVED''] \<and>
      (case apply_update_code_decision_status env0 ?q d1 of Inl _ \<Rightarrow> False | Inr d2 \<Rightarrow> True)"
    by code_simp
  then obtain d1 d2 where d: "apply_update_code_decision_status env0 ?p ?db = Inr d1"
      "apply_update_code_decision_status env0 ?q d1 = Inr d2"
      "map cd_status (hitl_decisions d1) = [''APPROVED'']"
    by (auto split: sum.splits)
  then obtain r1 where r1: "hitl_decisions d1 = [r1]" "cd_status r1 = ''APPROVED''" by auto
  have "hitl_run d1 d2" using hitl_step.decide [OF d(2)] by blast
  from hitl_verdict_final [OF this] r1 have "hitl_decisions d2 = [r1]"
    by (auto simp: list_all2_Cons1)
  with d r1 show ?thesis
    by (intro exI [of _ ?r] exI [of _ d1] exI [of _ d2]) simp
qed

end
