(* ===== verification/VaultPaths.thy ===== *)
theory VaultPaths
  imports Tables "HOL-Library.Sublist"
begin

text \<open>
  Names and paths of the vaults: the slugs and the path validation of
  \<open>packages/shared/src/duckclaw/vaults.py\<close>. A resolved path is the list of its parts. What the file
  system and the environment give (resolution of symbolic links, the two root variables, the path of the
  gateway database) is the record \<open>path_env\<close>. Creating directories is not modelled.
\<close>

subsection \<open>Slugs\<close>

definition is_slug_char :: "char \<Rightarrow> bool" where
  "is_slug_char c \<longleftrightarrow> 97 \<le> code c \<and> code c \<le> 122 \<or> is_digit c \<or> c = CHR ''_'' \<or> c = CHR ''-''"

text \<open>\<open>re.sub("P+", r, s)\<close>: every maximal run of characters satisfying \<open>P\<close> becomes one \<open>r\<close>.\<close>

fun sub_runs :: "(char \<Rightarrow> bool) \<Rightarrow> char \<Rightarrow> string \<Rightarrow> string" where
  "sub_runs P r [] = []"
| "sub_runs P r [c] = (if P c then [r] else [c])"
| "sub_runs P r (c # d # cs) =
     (if P c then (if P d then sub_runs P r (d # cs) else r # sub_runs P r (d # cs))
      else c # sub_runs P r (d # cs))"

definition safe_user_id :: "string \<Rightarrow> string" where
  "safe_user_id user_id = (let raw = lower (str_or (strip user_id) ''default'')
   in str_or (take 128 (map (\<lambda>c. if is_slug_char c then c else CHR ''_'') raw)) ''default'')"

definition slug_vault_id :: "string \<Rightarrow> string" where
  "slug_vault_id name = (let raw = lower (strip name) in
     if raw = [] then []
     else let slug = sub_runs (\<lambda>c. \<not> is_slug_char c) (CHR ''_'') raw;
              slug = strip_chars ''_'' (sub_runs (\<lambda>c. c = CHR ''_'') (CHR ''_'') slug)
          in take 64 slug)"

definition vault_scope_id_for_tenant :: "string \<Rightarrow> string" where
  "vault_scope_id_for_tenant tenant_id = (let t = strip tenant_id in
     if t = [] \<or> lower t = ''default'' then [] else safe_user_id t)"

definition normalize_scope_id :: "string \<Rightarrow> string" where
  "normalize_scope_id scope_id = (let s = strip scope_id in if s = [] then [] else safe_user_id s)"

subsection \<open>Paths\<close>

type_synonym path = "string list"

record path_env =
  pe_ext_root :: string
  pe_repo_root :: string
  pe_gateway :: "path option"
  pe_resolve :: "string \<Rightarrow> path"
  pe_canon :: "path \<Rightarrow> path"

definition path_name :: "path \<Rightarrow> string" where
  "path_name p = (if p = [] then [] else last p)"

text \<open>\<open>PurePath.suffix\<close>: from the last dot on, unless the dot starts or ends the name.\<close>

definition path_suffix :: "path \<Rightarrow> string" where
  "path_suffix p = (let name = rev (path_name p);
     tail = takeWhile (\<lambda>c. c \<noteq> CHR ''.'') name; rest = dropWhile (\<lambda>c. c \<noteq> CHR ''.'') name
   in if length rest \<ge> 2 \<and> tail \<noteq> [] then CHR ''.'' # rev tail else [])"

definition db_root :: "path_env \<Rightarrow> path" where
  "db_root pe = (let ext_root = strip (pe_ext_root pe); repo_root = strip (pe_repo_root pe) in
     if ext_root \<noteq> [] then pe_resolve pe ext_root @ [''db'']
     else if repo_root \<noteq> [] then pe_resolve pe repo_root @ [''db'']
     else pe_resolve pe ''db'')"

definition user_vault_dir :: "path_env \<Rightarrow> string \<Rightarrow> path" where
  "user_vault_dir pe user_id = db_root pe @ [''private'', safe_user_id user_id]"

text \<open>\<open>p.relative_to(root)\<close>: \<open>None\<close> is the \<open>ValueError\<close>.\<close>

definition relative_to :: "path \<Rightarrow> path \<Rightarrow> path option" where
  "relative_to p root = (if prefix root p then Some (drop (length root) p) else None)"

definition validate_user_db_path :: "path_env \<Rightarrow> string \<Rightarrow> string \<Rightarrow> string option \<Rightarrow> bool" where
  "validate_user_db_path pe user_id db_path tenant_id = (let path = pe_resolve pe db_path in
     if lower (path_suffix path) \<noteq> ''.duckdb'' then False
     else if pe_gateway pe = Some path then True
     else case relative_to path (pe_canon pe (db_root pe)) of
       None \<Rightarrow> False
     | Some rel \<Rightarrow>
         if length rel = 1 then True
         else let uid = safe_user_id user_id;
                  roots = [pe_canon pe (user_vault_dir pe uid),
                           pe_canon pe (db_root pe @ [''shared'', uid])] @
                    (case tenant_id of
                       None \<Rightarrow> []
                     | Some t \<Rightarrow> if strip t = [] then []
                         else [pe_canon pe (db_root pe @ [''shared'', safe_user_id t])])
              in list_ex (\<lambda>root. relative_to path root \<noteq> None) roots)"

definition infer_private_folder_uid_from_db_path :: "path_env \<Rightarrow> string \<Rightarrow> string option" where
  "infer_private_folder_uid_from_db_path pe db_path =
     (case relative_to (pe_resolve pe db_path) (pe_canon pe (db_root pe)) of
        Some (a # b # _) \<Rightarrow> if a = ''private'' then Some b else None
      | _ \<Rightarrow> None)"

definition resolve_user_id_for_db_path ::
  "path_env \<Rightarrow> string \<Rightarrow> string \<Rightarrow> string option \<Rightarrow> string option" where
  "resolve_user_id_for_db_path pe user_id db_path tenant_id = (let
     uid = str_or (strip (str_or user_id ''default'')) ''default''
   in
     if validate_user_db_path pe uid db_path tenant_id then Some uid
     else case infer_private_folder_uid_from_db_path pe db_path of
       None \<Rightarrow> None
     | Some inferred \<Rightarrow>
         if inferred \<noteq> [] \<and> validate_user_db_path pe inferred db_path tenant_id then Some inferred
         else None)"

subsection \<open>Lemmas on slugs\<close>

lemma safe_user_id_chars: "\<forall>c \<in> set (safe_user_id u). is_slug_char c"
proof -
  have "\<forall>c \<in> set ''default''. is_slug_char c" by code_simp
  moreover have "is_slug_char (CHR ''_'')" by (simp add: is_slug_char_def)
  ultimately show ?thesis
    unfolding safe_user_id_def Let_def str_or_def by (auto dest!: in_set_takeD)
qed

lemma safe_user_id_nonempty [simp]: "safe_user_id u \<noteq> []"
  by (simp add: safe_user_id_def Let_def)

lemma safe_user_id_length: "length (safe_user_id u) \<le> 128"
  by (simp add: safe_user_id_def Let_def str_or_def)

lemma slug_char_lower: "is_slug_char c \<Longrightarrow> lower_char c = c"
  by (auto simp: is_slug_char_def lower_char_def is_digit_def Let_def)

lemma slug_char_not_space: "is_slug_char c \<Longrightarrow> \<not> is_space c"
  by (auto simp: is_slug_char_def is_space_def is_digit_def Let_def)

lemma lower_slug: "\<forall>c \<in> set s. is_slug_char c \<Longrightarrow> lower s = s"
  unfolding lower_def by (rule map_idI) (simp add: slug_char_lower)

lemma safe_user_id_fixed:
  assumes "\<forall>c \<in> set u. is_slug_char c" and "u \<noteq> []" and "length u \<le> 128"
  shows "safe_user_id u = u"
proof -
  have "map (\<lambda>c. if is_slug_char c then c else CHR ''_'') u = u"
    by (rule map_idI) (simp add: assms(1))
  moreover have "strip u = u" using assms(1) slug_char_not_space by (intro strip_no_space) blast
  ultimately show ?thesis using assms by (simp add: safe_user_id_def lower_slug)
qed

lemma safe_user_id_idem [simp]: "safe_user_id (safe_user_id u) = safe_user_id u"
  by (rule safe_user_id_fixed [OF safe_user_id_chars safe_user_id_nonempty safe_user_id_length])

text \<open>Vault ids: slug characters, no doubled underscore, none at the start.\<close>

fun no_double :: "string \<Rightarrow> bool" where
  "no_double (c # d # cs) \<longleftrightarrow> \<not> (c = CHR ''_'' \<and> d = CHR ''_'') \<and> no_double (d # cs)"
| "no_double _ \<longleftrightarrow> True"

lemma sub_runs_none: "\<forall>c \<in> set s. \<not> P c \<Longrightarrow> sub_runs P r s = s"
  by (induction P r s rule: sub_runs.induct) auto

lemma sub_runs_set: "set (sub_runs P r s) \<subseteq> {c \<in> set s. \<not> P c} \<union> {r}"
  by (induction P r s rule: sub_runs.induct) auto

abbreviation collapse :: "string \<Rightarrow> string" where
  "collapse \<equiv> sub_runs (\<lambda>c. c = CHR ''_'') (CHR ''_'')"

lemma collapse_fixed: "no_double s \<Longrightarrow> collapse s = s"
  by (induction s rule: no_double.induct) auto

lemma collapse_hd: "s \<noteq> [] \<Longrightarrow> collapse s \<noteq> [] \<and> hd (collapse s) = hd s"
  by (induction s rule: no_double.induct) auto

lemma no_double_Cons: "no_double (c # s) \<longleftrightarrow> (s = [] \<or> \<not> (c = CHR ''_'' \<and> hd s = CHR ''_'') \<and> no_double s)"
  by (cases s) auto

lemma no_double_collapse: "no_double (collapse s)"
proof (induction s rule: no_double.induct)
  case (1 c d cs)
  then show ?case using collapse_hd [of "d # cs"] by (auto simp: no_double_Cons)
qed simp_all

lemma no_double_append: "no_double (s @ t) \<longleftrightarrow>
  no_double s \<and> no_double t \<and> \<not> (s \<noteq> [] \<and> t \<noteq> [] \<and> last s = CHR ''_'' \<and> hd t = CHR ''_'')"
  by (induction s) (auto simp: no_double_Cons)

lemma no_double_plain: "(\<And>c. c \<in> set s \<Longrightarrow> c \<noteq> CHR ''_'') \<Longrightarrow> no_double s"
  by (induction s) (auto simp: no_double_Cons)

lemma no_double_sublist: "no_double (a @ s @ b) \<Longrightarrow> no_double s"
  by (simp add: no_double_append)

lemma strip_chars_sublist: "\<exists>a b. s = a @ strip_chars cs s @ b"
proof -
  have d: "\<exists>a. t = a @ dropWhile P t" for P and t :: string
    by (metis takeWhile_dropWhile_id)
  obtain a where a: "s = a @ lstrip_chars cs s" unfolding lstrip_chars_def using d by blast
  obtain b where "rev (lstrip_chars cs s) = b @ lstrip_chars cs (rev (lstrip_chars cs s))"
    unfolding lstrip_chars_def [of cs "rev (lstrip_chars cs s)"] using d by blast
  then have "lstrip_chars cs s = strip_chars cs s @ rev b"
    unfolding strip_chars_def by (metis rev_append rev_rev_ident)
  with a show ?thesis by metis
qed

lemma strip_chars_hd: "strip_chars cs s \<noteq> [] \<Longrightarrow> hd (strip_chars cs s) \<notin> set cs"
proof -
  assume ne: "strip_chars cs s \<noteq> []"
  let ?l = "lstrip_chars cs s"
  obtain b where b: "rev ?l = b @ lstrip_chars cs (rev ?l)"
    unfolding lstrip_chars_def [of cs "rev (lstrip_chars cs s)"] by (metis takeWhile_dropWhile_id)
  then have "?l = strip_chars cs s @ rev b" unfolding strip_chars_def by (metis rev_append rev_rev_ident)
  then have "hd (strip_chars cs s) = hd ?l" "?l \<noteq> []" using ne by (auto simp: hd_append)
  then show ?thesis unfolding lstrip_chars_def using hd_dropWhile by metis
qed

lemma strip_chars_id:
  assumes "s \<noteq> []" "hd s \<notin> set cs" "last s \<notin> set cs"
  shows "strip_chars cs s = s"
proof -
  have d: "dropWhile (\<lambda>c. c \<in> set cs) t = t" if "t \<noteq> []" "hd t \<notin> set cs" for t
    using that by (cases t) auto
  show ?thesis using d [of s] d [of "rev s"] assms by (simp add: strip_chars_def lstrip_chars_def hd_rev)
qed

lemma slug_shape:
  "(\<forall>c \<in> set (slug_vault_id s). is_slug_char c) \<and> no_double (slug_vault_id s) \<and>
   length (slug_vault_id s) \<le> 64 \<and> (slug_vault_id s \<noteq> [] \<longrightarrow> hd (slug_vault_id s) \<noteq> CHR ''_'')"
proof (cases "lower (strip s) = []")
  case True
  then show ?thesis by (simp add: slug_vault_id_def)
next
  case False
  let ?a = "sub_runs (\<lambda>c. \<not> is_slug_char c) (CHR ''_'') (lower (strip s))"
  let ?b = "strip_chars ''_'' (collapse ?a)"
  have eq: "slug_vault_id s = take 64 ?b" using False by (simp add: slug_vault_id_def Let_def)
  obtain x y where xy: "collapse ?a = x @ ?b @ y" using strip_chars_sublist by blast
  have "is_slug_char c" if "c \<in> set ?a" for c
    using that sub_runs_set [of "\<lambda>c. \<not> is_slug_char c" "CHR ''_''" "lower (strip s)"]
    by (auto simp: is_slug_char_def)
  then have "is_slug_char c" if "c \<in> set (collapse ?a)" for c
    using that sub_runs_set [of "\<lambda>c. c = CHR ''_''" "CHR ''_''" ?a] by (auto simp: is_slug_char_def)
  then have chars: "\<forall>c \<in> set ?b. is_slug_char c" using xy by (metis Un_iff set_append)
  have "no_double ?b" using no_double_collapse [of ?a] xy no_double_sublist by metis
  then have "no_double (take 64 ?b)" using no_double_append [of "take 64 ?b" "drop 64 ?b"] by simp
  moreover have "take 64 ?b \<noteq> [] \<Longrightarrow> hd (take 64 ?b) \<noteq> CHR ''_''"
    using strip_chars_hd [of "''_''" "collapse ?a"] by (auto simp: hd_take)
  ultimately show ?thesis unfolding eq using chars by (auto dest: in_set_takeD)
qed

lemma slug_fixed:
  assumes "s \<noteq> []" "\<forall>c \<in> set s. is_slug_char c" "no_double s" "hd s \<noteq> CHR ''_''" "last s \<noteq> CHR ''_''"
  shows "slug_vault_id s = take 64 s"
proof -
  have "strip s = s" using assms(2) slug_char_not_space by (intro strip_no_space) blast
  moreover have "sub_runs (\<lambda>c. \<not> is_slug_char c) (CHR ''_'') s = s"
    using assms(2) by (intro sub_runs_none) blast
  moreover have "strip_chars ''_'' s = s" using assms(1,4,5) by (intro strip_chars_id) simp_all
  ultimately show ?thesis
    using assms by (simp add: slug_vault_id_def Let_def lower_slug collapse_fixed)
qed

lemma strip_chars_last: "strip_chars cs s \<noteq> [] \<Longrightarrow> last (strip_chars cs s) \<notin> set cs"
proof -
  assume ne: "strip_chars cs s \<noteq> []"
  let ?d = "lstrip_chars cs (rev (lstrip_chars cs s))"
  have "?d \<noteq> []" using ne by (simp add: strip_chars_def)
  then have "hd ?d \<notin> set cs"
    unfolding lstrip_chars_def [of cs "rev (lstrip_chars cs s)"] using hd_dropWhile by metis
  then show ?thesis using \<open>?d \<noteq> []\<close> by (simp add: strip_chars_def last_rev)
qed

lemma slug_last:
  assumes "slug_vault_id s \<noteq> []" "length (slug_vault_id s) < 64"
  shows "last (slug_vault_id s) \<noteq> CHR ''_''"
proof -
  let ?b = "strip_chars ''_'' (collapse (sub_runs (\<lambda>c. \<not> is_slug_char c) (CHR ''_'') (lower (strip s))))"
  have "slug_vault_id s = take 64 ?b" using assms(1) by (auto simp: slug_vault_id_def Let_def)
  moreover from this have "take 64 ?b = ?b" using assms(2) by simp
  ultimately show ?thesis using strip_chars_last [of "''_''"] assms(1) by force
qed

subsection \<open>Properties\<close>

text \<open>
  The db tree holds no symbolic links: resolving a path of ordinary names below the root gives that path.
\<close>

definition plain_part :: "string \<Rightarrow> bool" where
  "plain_part c \<longleftrightarrow> c \<notin> {[], ''.'', ''..''} \<and> CHR ''/'' \<notin> set c"

definition plain_tree :: "path_env \<Rightarrow> bool" where
  "plain_tree pe \<longleftrightarrow> (\<forall>xs. list_all plain_part xs \<longrightarrow> pe_canon pe (db_root pe @ xs) = db_root pe @ xs)"

lemma slug_plain: "plain_part (safe_user_id u)"
  using safe_user_id_chars [of u] safe_user_id_nonempty [of u] by (auto simp: plain_part_def is_slug_char_def is_digit_def)

lemma plain_tree_root: "plain_tree pe \<Longrightarrow> pe_canon pe (db_root pe) = db_root pe"
  unfolding plain_tree_def by (drule spec [of _ "[]"]) simp

lemma plain_tree_below: "plain_tree pe \<Longrightarrow> x \<in> {''private'', ''shared''} \<Longrightarrow> pe_canon pe (db_root pe @ [x, safe_user_id u]) = db_root pe @ [x, safe_user_id u]"
  unfolding plain_tree_def by (drule spec [of _ "[x, safe_user_id u]"]) (auto simp: slug_plain, auto simp: plain_part_def)

text \<open>
  C25. Private vaults are private: when the db tree holds no symbolic links, a \<open>.duckdb\<close> file inside \<open>private/owner/\<close> is a
  valid path for a user exactly when the user's slug is that folder or the file is the gateway's own database, whatever the
  tenant. The gateway's database is valid for everybody, and its default path is one of a private folder
  (\<open>db/private/default/duckclaw.duckdb\<close>).
\<close>

lemma private_vault_only_owner:
  assumes "plain_tree pe" and "pe_resolve pe db_path = db_root pe @ [''private'', owner] @ rest"
    and "lower (path_suffix (pe_resolve pe db_path)) = ''.duckdb''"
  shows "validate_user_db_path pe user_id db_path tenant_id \<longleftrightarrow>
    safe_user_id user_id = owner \<or> pe_gateway pe = Some (pe_resolve pe db_path)"
proof -
  note p = plain_tree_root [OF assms(1)] plain_tree_below [OF assms(1)]
  have "relative_to (pe_resolve pe db_path) (pe_canon pe (db_root pe)) = Some (''private'' # owner # rest)"
    using assms(2) p by (simp add: relative_to_def)
  moreover have "relative_to (pe_resolve pe db_path) (pe_canon pe (user_vault_dir pe (safe_user_id user_id))) \<noteq> None
      \<longleftrightarrow> safe_user_id user_id = owner"
    using assms(2) p by (auto simp: relative_to_def user_vault_dir_def)
  moreover have "relative_to (pe_resolve pe db_path) (pe_canon pe (db_root pe @ [''shared'', safe_user_id x])) = None" for x
    using assms(2) p by (simp add: relative_to_def)
  ultimately show ?thesis
    using assms(3) by (auto simp: validate_user_db_path_def Let_def split: option.split)
qed

definition path_env0 :: path_env where
  "path_env0 = \<lparr>pe_ext_root = [], pe_repo_root = ''/r'', pe_gateway = None,
     pe_resolve = (\<lambda>s. filter (\<lambda>w. w \<noteq> []) (split_char (CHR ''/'') s)), pe_canon = (\<lambda>p. p)\<rparr>"

lemma path_env0_plain: "plain_tree path_env0"
  by (simp add: plain_tree_def path_env0_def)

lemma private_vault_only_owner_witness:
  "validate_user_db_path path_env0 ''Ana'' ''/r/db/private/ana/v.duckdb'' None \<and>
   \<not> validate_user_db_path path_env0 ''bob'' ''/r/db/private/ana/v.duckdb'' (Some ''ana'')"
proof -
  have p: "pe_resolve path_env0 ''/r/db/private/ana/v.duckdb'' = db_root path_env0 @ [''private'', ''ana''] @ [''v.duckdb'']"
    by code_simp
  have s: "lower (path_suffix (pe_resolve path_env0 ''/r/db/private/ana/v.duckdb'')) = ''.duckdb''" by code_simp
  have g: "pe_gateway path_env0 \<noteq> Some (pe_resolve path_env0 ''/r/db/private/ana/v.duckdb'')"
    by (simp add: path_env0_def)
  have "safe_user_id ''Ana'' = ''ana''" "safe_user_id ''bob'' \<noteq> ''ana''" by code_simp+
  then show ?thesis
    using private_vault_only_owner [OF path_env0_plain p s] g by blast
qed

text \<open>
  The alignment of the producer's id never refuses a private vault: for every user, a \<open>.duckdb\<close> file in
  an existing private folder (one whose name is a slug) resolves to some user id, the producer's own when
  the folder is theirs and the folder's owner otherwise. Whoever relies on it for the check of a write target
  accepts private vaults of other users.
\<close>

lemma resolve_user_id_private:
  assumes "plain_tree pe" and "pe_resolve pe db_path = db_root pe @ [''private'', owner] @ rest"
    and "lower (path_suffix (pe_resolve pe db_path)) = ''.duckdb''"
    and "pe_gateway pe \<noteq> Some (pe_resolve pe db_path)"
    and "safe_user_id owner = owner"
  shows "resolve_user_id_for_db_path pe user_id db_path tenant_id =
    Some (let uid = str_or (strip (str_or user_id ''default'')) ''default''
          in if safe_user_id uid = owner then uid else owner)"
proof -
  have v: "validate_user_db_path pe u db_path tenant_id \<longleftrightarrow> safe_user_id u = owner" for u
    using assms(3,4) plain_tree_root [OF assms(1)] plain_tree_below [OF assms(1)] assms(2)
    by (auto simp: validate_user_db_path_def Let_def relative_to_def user_vault_dir_def split: option.split)
  have "infer_private_folder_uid_from_db_path pe db_path = Some owner"
    using assms(2) plain_tree_root [OF assms(1)]
    by (simp add: infer_private_folder_uid_from_db_path_def relative_to_def)
  moreover have "owner \<noteq> []" using assms(5) safe_user_id_nonempty [of owner] by auto
  ultimately show ?thesis
    using v assms(5) by (simp add: resolve_user_id_for_db_path_def Let_def)
qed

lemma resolve_user_id_private_witness:
  "resolve_user_id_for_db_path path_env0 ''bob'' ''/r/db/private/ana/v.duckdb'' (Some ''t'') = Some ''ana''"
proof -
  have p: "pe_resolve path_env0 ''/r/db/private/ana/v.duckdb'' = db_root path_env0 @ [''private'', ''ana''] @ [''v.duckdb'']"
    by code_simp
  have s: "lower (path_suffix (pe_resolve path_env0 ''/r/db/private/ana/v.duckdb'')) = ''.duckdb''" by code_simp
  have g: "pe_gateway path_env0 \<noteq> Some (pe_resolve path_env0 ''/r/db/private/ana/v.duckdb'')"
    by (simp add: path_env0_def)
  have a: "safe_user_id ''ana'' = ''ana''" by code_simp
  have b: "str_or (strip (str_or ''bob'' ''default'')) ''default'' = ''bob''" "safe_user_id ''bob'' \<noteq> ''ana''"
    by code_simp+
  show ?thesis
    unfolding resolve_user_id_private [OF path_env0_plain p s g a] using b by (simp add: Let_def)
qed

end
