(* ===== verification/VaultRegistry.thy ===== *)
theory VaultRegistry
  imports VaultPaths
begin

text \<open>
  The registry of a user's vaults (\<open>packages/shared/src/duckclaw/vaults.py\<close>): the table \<open>user_vaults\<close>
  of the system database and the \<open>.duckdb\<close> files in the private folders. A file is identified by its
  folder (the user's slug) and its stem; the order of \<open>vs_files\<close> is the order of a directory scan.
\<close>

subsection \<open>State\<close>

record user_vault =
  uv_user :: string
  uv_scope :: string
  uv_id :: string
  uv_name :: string
  uv_active :: bool
  uv_created_at :: int

record vault_state =
  vs_rows :: "user_vault list"
  vs_files :: "((string \<times> string) \<times> nat) list"

text \<open>
  \<open>ve_fresh\<close>: the size of the file DuckDB creates, \<open>None\<close> when the connection fails; \<open>ve_initial\<close>: the
  variable \<open>DUCKCLAW_MULTI_VAULT_INITIAL_VAULT_ID\<close>.
\<close>

record vault_env =
  ve_now :: int
  ve_fresh :: "nat option"
  ve_initial :: string

definition uv_key :: "user_vault \<Rightarrow> string \<times> string \<times> string" where
  "uv_key r = (uv_user r, uv_scope r, uv_id r)"

definition in_scope :: "string \<Rightarrow> string \<Rightarrow> user_vault \<Rightarrow> bool" where
  "in_scope uid sid r \<longleftrightarrow> uv_user r = uid \<and> uv_scope r = sid"

subsection \<open>Files\<close>

definition initial_vault_id_for_scoped_bootstrap :: "vault_env \<Rightarrow> string" where
  "initial_vault_id_for_scoped_bootstrap ve = str_or (slug_vault_id (strip (ve_initial ve))) ''default''"

definition vault_file :: "string \<Rightarrow> string \<Rightarrow> string \<times> string" where
  "vault_file user_id vault_id = (safe_user_id user_id, str_or (slug_vault_id vault_id) ''default'')"

definition touch_duckdb_file :: "vault_env \<Rightarrow> string \<times> string \<Rightarrow> vault_state \<Rightarrow> vault_state" where
  "touch_duckdb_file ve f st = (case map_of (vs_files st) f of
     Some _ \<Rightarrow> st
   | None \<Rightarrow> (case ve_fresh ve of None \<Rightarrow> st | Some n \<Rightarrow> st\<lparr>vs_files := vs_files st @ [(f, n)]\<rparr>))"

definition folder_files :: "string \<Rightarrow> vault_state \<Rightarrow> (string \<times> nat) list" where
  "folder_files uid st =
     map (\<lambda>((_, stem), size). (stem, size)) (filter (\<lambda>((u, _), _). u = safe_user_id uid) (vs_files st))"

definition discover_existing_user_vaults :: "string \<Rightarrow> vault_state \<Rightarrow> string list" where
  "discover_existing_user_vaults uid st =
     filter (\<lambda>vid. vid \<noteq> []) (map (\<lambda>(stem, _). slug_vault_id (lower (strip stem)))
       (sort_key (\<lambda>(stem, _). stem @ ''.duckdb'') (folder_files uid st)))"

definition discover_existing_user_vaults_with_size :: "string \<Rightarrow> vault_state \<Rightarrow> (string \<times> nat) list" where
  "discover_existing_user_vaults_with_size uid st =
     sort_key (\<lambda>(_, size). - int size)
       (filter (\<lambda>(vid, _). vid \<noteq> [])
         (map (\<lambda>(stem, size). (slug_vault_id (lower (strip stem)), size)) (folder_files uid st)))"

subsection \<open>Registry statements\<close>

definition vault_row :: "vault_env \<Rightarrow> string \<Rightarrow> string \<Rightarrow> string \<Rightarrow> string \<Rightarrow> bool \<Rightarrow> user_vault" where
  "vault_row ve uid sid vid name active =
     \<lparr>uv_user = uid, uv_scope = sid, uv_id = vid, uv_name = name, uv_active = active,
      uv_created_at = ve_now ve\<rparr>"

definition sync_registry_with_files :: "vault_env \<Rightarrow> string \<Rightarrow> string \<Rightarrow> vault_state \<Rightarrow> vault_state" where
  "sync_registry_with_files ve uid scope_id st = (let sid = normalize_scope_id scope_id in
     if sid \<noteq> [] then st
     else st\<lparr>vs_rows := fold (\<lambda>(vid, _) rows. ins_or_nothing uv_key (vault_row ve uid sid vid vid False) rows)
       (discover_existing_user_vaults_with_size uid st) (vs_rows st)\<rparr>)"

definition deactivate_all :: "string \<Rightarrow> string \<Rightarrow> user_vault list \<Rightarrow> user_vault list" where
  "deactivate_all uid sid rows = upd_where (in_scope uid sid) (\<lambda>r. r\<lparr>uv_active := False\<rparr>) rows"

definition insert_active :: "vault_env \<Rightarrow> string \<Rightarrow> string \<Rightarrow> string \<Rightarrow> user_vault list \<Rightarrow> user_vault list" where
  "insert_active ve uid sid vid rows =
     ins_or_update uv_key (vault_row ve uid sid vid vid True) (\<lambda>r. r\<lparr>uv_active := True\<rparr>) rows"

subsection \<open>Operations\<close>

text \<open>
  Make \<open>chosen\<close> the active vault: deactivate the scope, register the files (legacy scope only), then
  insert or activate the row.
\<close>

definition adopt_vault :: "vault_env \<Rightarrow> string \<Rightarrow> string \<Rightarrow> string \<Rightarrow> vault_state \<Rightarrow> vault_state" where
  "adopt_vault ve uid sid chosen st = (let
     st = touch_duckdb_file ve (vault_file uid chosen) st;
     st = st\<lparr>vs_rows := deactivate_all uid sid (vs_rows st)\<rparr>;
     st = sync_registry_with_files ve uid sid st
   in st\<lparr>vs_rows := insert_active ve uid sid chosen (vs_rows st)\<rparr>)"

definition file_size :: "string \<times> string \<Rightarrow> vault_state \<Rightarrow> nat" where
  "file_size f st = (case map_of (vs_files st) f of None \<Rightarrow> 0 | Some n \<Rightarrow> n)"

definition promotion :: "string \<Rightarrow> string \<Rightarrow> string \<Rightarrow> vault_state \<Rightarrow> string option" where
  "promotion uid sid vault_id st =
     (if sid = [] \<and> vault_id = ''default'' then
        (case filter (\<lambda>(vid, _). vid \<noteq> ''default'') (discover_existing_user_vaults_with_size uid st) of
           [] \<Rightarrow> None
         | (chosen, _) # _ \<Rightarrow> (let
             known_non_default = length (sel_all (\<lambda>r. in_scope uid sid r \<and> uv_id r \<noteq> ''default'') (vs_rows st));
             default_size = file_size (vault_file uid vault_id) st
           in if known_non_default = 0 \<or> default_size \<le> 12288 then Some chosen else None))
      else None)"

definition legacy_choice :: "string \<Rightarrow> vault_state \<Rightarrow> string" where
  "legacy_choice uid st = (let discovered = discover_existing_user_vaults uid st in
     case filter (\<lambda>v. v \<noteq> ''default'') discovered of
       v # _ \<Rightarrow> v
     | [] \<Rightarrow> (case discovered of v # _ \<Rightarrow> v | [] \<Rightarrow> ''default''))"

definition bootstrap_default_if_missing ::
  "vault_env \<Rightarrow> string \<Rightarrow> string \<Rightarrow> vault_state \<Rightarrow> string \<times> (string \<times> string) \<times> vault_state" where
  "bootstrap_default_if_missing ve user_id scope_id st = (let
     uid = safe_user_id user_id; sid = normalize_scope_id scope_id
   in case sel_one (\<lambda>r. in_scope uid sid r \<and> uv_active r) (vs_rows st) of
       Some row \<Rightarrow> (let
           vault_id = str_or (strip (str_or (uv_id row) ''default'')) ''default'';
           path = vault_file uid vault_id
         in case promotion uid sid vault_id st of
              Some chosen \<Rightarrow> (chosen, vault_file uid chosen, adopt_vault ve uid sid chosen st)
            | None \<Rightarrow> (vault_id, path, touch_duckdb_file ve path st))
     | None \<Rightarrow> (let
           chosen = (if sid \<noteq> [] then initial_vault_id_for_scoped_bootstrap ve else legacy_choice uid st)
         in (chosen, vault_file uid chosen, adopt_vault ve uid sid chosen st)))"

definition resolve_active_vault ::
  "vault_env \<Rightarrow> string \<Rightarrow> string \<Rightarrow> vault_state \<Rightarrow> (string \<times> (string \<times> string)) \<times> vault_state" where
  "resolve_active_vault ve user_id scope_id st = (let
     sid = normalize_scope_id scope_id;
     (vault_id, path, st) = bootstrap_default_if_missing ve user_id sid st
   in ((vault_id, path), st))"

text \<open>The search for a free id: \<open>base\<close>, \<open>base_2\<close>, \<open>base_3\<close>, ... (\<open>None\<close>: out of fuel).\<close>

fun free_vault_id ::
  "string \<Rightarrow> string \<Rightarrow> user_vault list \<Rightarrow> string \<Rightarrow> nat \<Rightarrow> string \<Rightarrow> nat \<Rightarrow> string option" where
  "free_vault_id uid sid rows base n vault_id fuel =
     (if sel_one (\<lambda>r. in_scope uid sid r \<and> uv_id r = vault_id) rows = None then Some vault_id
      else case fuel of
        0 \<Rightarrow> None
      | Suc m \<Rightarrow> free_vault_id uid sid rows base (n + 1) (base @ ''_'' @ nat_str (n + 1)) m)"

declare free_vault_id.simps [simp del]

definition create_vault ::
  "vault_env \<Rightarrow> string \<Rightarrow> string \<Rightarrow> string \<Rightarrow> vault_state \<Rightarrow>
     (py_error + ((string \<times> string \<times> (string \<times> string)) \<times> vault_state)) option" where
  "create_vault ve user_id vault_name scope_id st = (let
     uid = safe_user_id user_id; sid = normalize_scope_id scope_id;
     name = str_or (strip vault_name) ''vault'';
     base = str_or (slug_vault_id name) ''vault''
   in map_option (\<lambda>vault_id. let
          path = vault_file uid vault_id; st = touch_duckdb_file ve path st
        in bindE (ins_row uv_key (vault_row ve uid sid vault_id (take 128 name) False) (vs_rows st))
             (\<lambda>rows. Inr ((vault_id, take 128 name, path), st\<lparr>vs_rows := rows\<rparr>)))
       (free_vault_id uid sid (vs_rows st) base 1 base (length (vs_rows st))))"

definition switch_vault :: "vault_env \<Rightarrow> string \<Rightarrow> string \<Rightarrow> string \<Rightarrow> vault_state \<Rightarrow> bool \<times> vault_state" where
  "switch_vault ve user_id vault_id scope_id st = (let
     uid = safe_user_id user_id; sid = normalize_scope_id scope_id; vid = slug_vault_id vault_id
   in if vid = [] then (False, st)
      else let st = sync_registry_with_files ve uid sid st in
        if sel_one (\<lambda>r. in_scope uid sid r \<and> uv_id r = vid) (vs_rows st) = None then (False, st)
        else let st = touch_duckdb_file ve (vault_file uid vid) st
          in (True, st\<lparr>vs_rows := upd_where (\<lambda>r. in_scope uid sid r \<and> uv_id r = vid)
               (\<lambda>r. r\<lparr>uv_active := True\<rparr>) (deactivate_all uid sid (vs_rows st))\<rparr>))"

definition remove_vault :: "vault_env \<Rightarrow> string \<Rightarrow> string \<Rightarrow> string \<Rightarrow> vault_state \<Rightarrow> bool \<times> vault_state" where
  "remove_vault ve user_id vault_id scope_id st = (let
     uid = safe_user_id user_id; sid = normalize_scope_id scope_id; vid = slug_vault_id vault_id
   in if vid = [] then (False, st)
      else case sel_one (\<lambda>r. in_scope uid sid r \<and> uv_id r = vid) (vs_rows st) of
        None \<Rightarrow> (False, st)
      | Some row \<Rightarrow> (let
            st = st\<lparr>vs_rows := del_where (\<lambda>r. in_scope uid sid r \<and> uv_id r = vid) (vs_rows st),
                    vs_files := filter (\<lambda>(f, _). f \<noteq> vault_file uid vid) (vs_files st)\<rparr>
          in if uv_active row then (True, snd (snd (bootstrap_default_if_missing ve uid sid st)))
             else (True, st)))"

subsection \<open>Invariant\<close>

definition uv_group :: "user_vault \<Rightarrow> string \<times> string" where
  "uv_group r = (uv_user r, uv_scope r)"

text \<open>Keys are unique and at most one vault of a (user, scope) is active.\<close>

definition vaults_ok :: "user_vault list \<Rightarrow> bool" where
  "vaults_ok rows \<longleftrightarrow> uniq uv_key rows \<and> at_most_one uv_active uv_group uv_key rows"

lemma in_scope_group: "in_scope uid sid = (\<lambda>r. uv_group r = (uid, sid))"
  by (rule ext) (simp add: in_scope_def uv_group_def)

lemma vault_row_simps [simp]:
  "uv_key (vault_row ve uid sid vid nm a) = (uid, sid, vid)"
  "uv_group (vault_row ve uid sid vid nm a) = (uid, sid)"
  "uv_active (vault_row ve uid sid vid nm a) = a"
  by (simp_all add: vault_row_def uv_key_def uv_group_def)

lemma uv_active_update_simps [simp]:
  "uv_key (r\<lparr>uv_active := a\<rparr>) = uv_key r" "uv_group (r\<lparr>uv_active := a\<rparr>) = uv_group r"
  by (simp_all add: uv_key_def uv_group_def)

lemma has_uv_key_iff:
  "has_key uv_key (uid, sid, vid) rows \<longleftrightarrow> sel_one (\<lambda>r. in_scope uid sid r \<and> uv_id r = vid) rows \<noteq> None"
  by (auto simp: has_key_iff sel_one_None uv_key_def in_scope_def)

lemma vaults_ok_deactivate:
  assumes "vaults_ok rows"
  shows "vaults_ok (deactivate_all uid sid rows)"
    and "unflagged uv_active uv_group (uid, sid) (deactivate_all uid sid rows)"
  using assms unfolding vaults_ok_def deactivate_all_def in_scope_group
  by (auto intro: uniq_upd_where at_most_one_upd unflagged_upd)

lemma vaults_ok_nothing:
  assumes "vaults_ok rows"
  shows "vaults_ok (ins_or_nothing uv_key (vault_row ve uid sid vid nm False) rows)"
  using assms unfolding vaults_ok_def ins_or_nothing_def
  by (auto intro!: at_most_one_snoc)

lemma unflagged_nothing:
  "unflagged uv_active uv_group g rows \<Longrightarrow>
   unflagged uv_active uv_group g (ins_or_nothing uv_key (vault_row ve uid sid vid nm False) rows)"
  by (simp add: ins_or_nothing_def unflagged_snoc)

lemma sync_rows_ok:
  assumes "vaults_ok (vs_rows st)"
  shows "vaults_ok (vs_rows (sync_registry_with_files ve uid sid st))"
proof -
  have "vaults_ok (fold (\<lambda>(vid, _) rows. ins_or_nothing uv_key (vault_row ve uid s vid vid False) rows) xs rows)"
    if "vaults_ok rows" for xs :: "(string \<times> nat) list" and rows s
    using that by (induction xs arbitrary: rows) (auto simp: vaults_ok_nothing)
  from this [OF assms] show ?thesis unfolding sync_registry_with_files_def Let_def
    using assms by simp
qed

lemma sync_rows_unflagged:
  assumes "unflagged uv_active uv_group g (vs_rows st)"
  shows "unflagged uv_active uv_group g (vs_rows (sync_registry_with_files ve uid sid st))"
proof -
  have "unflagged uv_active uv_group g
      (fold (\<lambda>(vid, _) rows. ins_or_nothing uv_key (vault_row ve uid s vid vid False) rows) xs rows)"
    if "unflagged uv_active uv_group g rows" for xs :: "(string \<times> nat) list" and rows s
    using that by (induction xs arbitrary: rows) (auto simp: unflagged_nothing)
  from this [OF assms] show ?thesis unfolding sync_registry_with_files_def Let_def
    using assms by simp
qed

lemma touch_rows [simp]: "vs_rows (touch_duckdb_file ve f st) = vs_rows st"
  by (simp add: touch_duckdb_file_def split: option.split)

lemma insert_active_ok:
  assumes "vaults_ok rows" "unflagged uv_active uv_group (uid, sid) rows"
  shows "vaults_ok (insert_active ve uid sid vid rows)"
proof (cases "has_key uv_key (uid, sid, vid) rows")
  case True
  have "vaults_ok (upd_where (\<lambda>x. uv_key x = (uid, sid, vid)) (\<lambda>r. r\<lparr>uv_active := True\<rparr>) rows)"
    using assms unfolding vaults_ok_def
    by (auto intro!: uniq_upd_where at_most_one_activate [where g = "(uid, sid)" and k = "(uid, sid, vid)"]
        simp: uv_key_def uv_group_def)
  with True show ?thesis by (simp add: insert_active_def ins_or_update_def)
next
  case False
  then show ?thesis
    using assms by (auto simp: insert_active_def ins_or_update_def vaults_ok_def intro!: at_most_one_snoc)
qed

lemma adopt_vault_ok:
  assumes "vaults_ok (vs_rows st)"
  shows "vaults_ok (vs_rows (adopt_vault ve uid sid vid st))"
  using assms vaults_ok_deactivate [OF assms, of uid sid]
  by (simp add: adopt_vault_def Let_def insert_active_ok sync_rows_ok sync_rows_unflagged)

text \<open>After adopting a vault, its row is the active one of the scope.\<close>

lemma insert_active_row:
  "\<exists>r \<in> set (insert_active ve uid sid vid rows). uv_key r = (uid, sid, vid) \<and> uv_active r"
proof (cases "has_key uv_key (uid, sid, vid) rows")
  case True
  then obtain r where "r \<in> set rows" "uv_key r = (uid, sid, vid)" by (auto simp: has_key_iff)
  with True show ?thesis
    by (intro bexI [of _ "r\<lparr>uv_active := True\<rparr>"])
      (auto simp: insert_active_def ins_or_update_def set_upd_where intro!: image_eqI [of _ _ r])
next
  case False
  then show ?thesis by (auto simp: insert_active_def ins_or_update_def)
qed

text \<open>Ids are non-empty and made of slug characters.\<close>

definition vault_id_ok :: "string \<Rightarrow> bool" where
  "vault_id_ok v \<longleftrightarrow> v \<noteq> [] \<and> (\<forall>c \<in> set v. is_slug_char c)"

definition vault_ids_ok :: "user_vault list \<Rightarrow> bool" where
  "vault_ids_ok rows \<longleftrightarrow> (\<forall>r \<in> set rows. vault_id_ok (uv_id r))"

lemma vault_id_ok_strip: "vault_id_ok v \<Longrightarrow> str_or (strip (str_or v ''default'')) ''default'' = v"
  using strip_no_space [of v] slug_char_not_space by (auto simp: vault_id_ok_def)

lemma vault_id_ok_slug: "slug_vault_id s \<noteq> [] \<Longrightarrow> vault_id_ok (slug_vault_id s)"
  using slug_shape [of s] by (simp add: vault_id_ok_def)

lemma vault_id_ok_default [simp]: "vault_id_ok ''default''"
proof -
  have "list_all is_slug_char ''default''" by code_simp
  then show ?thesis by (simp add: vault_id_ok_def list_all_iff)
qed

lemma vault_id_ok_initial: "vault_id_ok (initial_vault_id_for_scoped_bootstrap ve)"
  by (auto simp: initial_vault_id_for_scoped_bootstrap_def str_or_def intro: vault_id_ok_slug)

lemma discovered_ok: "v \<in> set (discover_existing_user_vaults uid st) \<Longrightarrow> vault_id_ok v"
  by (auto simp: discover_existing_user_vaults_def intro: vault_id_ok_slug)

lemma discovered_size_ok: "(v, n) \<in> set (discover_existing_user_vaults_with_size uid st) \<Longrightarrow> vault_id_ok v"
  by (auto simp: discover_existing_user_vaults_with_size_def intro: vault_id_ok_slug)

lemma legacy_choice_ok: "vault_id_ok (legacy_choice uid st)"
proof -
  let ?d = "discover_existing_user_vaults uid st"
  have "legacy_choice uid st = ''default'' \<or> legacy_choice uid st \<in> set ?d"
  proof (cases "filter (\<lambda>v. v \<noteq> ''default'') ?d")
    case Nil
    then show ?thesis by (cases ?d) (simp_all add: legacy_choice_def Let_def)
  next
    case (Cons a l)
    then have "a \<in> set ?d" by (metis list.set_intros(1) filter_is_subset subsetD)
    with Cons show ?thesis by (simp add: legacy_choice_def Let_def)
  qed
  then show ?thesis using discovered_ok by auto
qed

lemma promotion_ok: "promotion uid sid v st = Some c \<Longrightarrow> vault_id_ok c"
  unfolding promotion_def
  by (auto simp: Let_def split: if_splits list.splits intro: discovered_size_ok dest!: filter_Cons_mem)

lemma vault_ids_ok_upd_active: "vault_ids_ok rows \<Longrightarrow> vault_ids_ok (upd_where P (\<lambda>r. r\<lparr>uv_active := a\<rparr>) rows)"
  by (auto simp: vault_ids_ok_def upd_where_def)

lemma vault_ids_ok_adopt:
  assumes "vault_ids_ok (vs_rows st)" "vault_id_ok c"
  shows "vault_ids_ok (vs_rows (adopt_vault ve uid sid c st))"
proof -
  have fold_ok: "vault_ids_ok (fold (\<lambda>(vid, _) rows. ins_or_nothing uv_key (vault_row ve uid s vid vid False) rows) xs rows)"
    if "vault_ids_ok rows" "\<forall>(v, n) \<in> set xs. vault_id_ok v" for xs :: "(string \<times> nat) list" and rows s
    using that
  proof (induction xs arbitrary: rows)
    case (Cons x xs)
    obtain v n where x: "x = (v, n)" by (cases x)
    have "vault_ids_ok (ins_or_nothing uv_key (vault_row ve uid s v v False) rows)"
      using Cons.prems x by (auto simp: ins_or_nothing_def vault_ids_ok_def vault_row_def)
    with Cons x show ?case by auto
  qed simp
  have sync: "vault_ids_ok (vs_rows (sync_registry_with_files ve uid s t))" if "vault_ids_ok (vs_rows t)" for s t
  proof -
    have "\<forall>(v, n) \<in> set (discover_existing_user_vaults_with_size uid t). vault_id_ok v"
      using discovered_size_ok by blast
    from fold_ok [OF that this] that show ?thesis
      by (simp add: sync_registry_with_files_def Let_def)
  qed
  have "vault_ids_ok (insert_active ve uid sid c rows)" if "vault_ids_ok rows" for rows
    using that assms(2) vault_ids_ok_upd_active [OF that]
    by (auto simp: insert_active_def ins_or_update_def vault_ids_ok_def vault_row_def)
  then show ?thesis
    using assms(1) by (simp add: adopt_vault_def Let_def sync deactivate_all_def vault_ids_ok_upd_active)
qed

lemma bootstrap_cases:
  obtains (kept) row where
      "sel_one (\<lambda>r. in_scope (safe_user_id u) (normalize_scope_id s) r \<and> uv_active r) (vs_rows st) = Some row"
      "promotion (safe_user_id u) (normalize_scope_id s)
         (str_or (strip (str_or (uv_id row) ''default'')) ''default'') st = None"
      "fst (bootstrap_default_if_missing ve u s st) = str_or (strip (str_or (uv_id row) ''default'')) ''default''"
      "vs_rows (snd (snd (bootstrap_default_if_missing ve u s st))) = vs_rows st"
  | (adopted) c where
      "vault_id_ok c" "fst (bootstrap_default_if_missing ve u s st) = c"
      "snd (snd (bootstrap_default_if_missing ve u s st)) =
         adopt_vault ve (safe_user_id u) (normalize_scope_id s) c st"
proof (cases "sel_one (\<lambda>r. in_scope (safe_user_id u) (normalize_scope_id s) r \<and> uv_active r) (vs_rows st)")
  case None
  let ?c = "if normalize_scope_id s \<noteq> [] then initial_vault_id_for_scoped_bootstrap ve
      else legacy_choice (safe_user_id u) st"
  have "vault_id_ok ?c" by (simp add: vault_id_ok_initial legacy_choice_ok)
  with None show thesis
    by (intro adopted [of ?c]) (simp_all add: bootstrap_default_if_missing_def Let_def)
next
  case (Some row)
  let ?v = "str_or (strip (str_or (uv_id row) ''default'')) ''default''"
  show thesis
  proof (cases "promotion (safe_user_id u) (normalize_scope_id s) ?v st")
    case None
    with Some show thesis
      by (intro kept [of row]) (simp_all add: bootstrap_default_if_missing_def Let_def)
  next
    case (Some c)
    with \<open>sel_one _ _ = Some row\<close> show thesis
      by (intro adopted [of c]) (simp_all add: bootstrap_default_if_missing_def Let_def promotion_ok)
  qed
qed

definition registry_ok :: "vault_state \<Rightarrow> bool" where
  "registry_ok st \<longleftrightarrow> vaults_ok (vs_rows st) \<and> vault_ids_ok (vs_rows st)"

lemma bootstrap_ok:
  assumes "registry_ok st"
  shows "registry_ok (snd (snd (bootstrap_default_if_missing ve u s st)))"
proof (cases rule: bootstrap_cases [of u s st ve])
  case (kept row)
  with assms show ?thesis by (simp add: registry_ok_def)
next
  case (adopted c)
  with assms show ?thesis by (simp add: registry_ok_def adopt_vault_ok vault_ids_ok_adopt)
qed

text \<open>The vault that bootstrap returns is the active row of its scope.\<close>

lemma bootstrap_active:
  assumes "registry_ok st"
  shows "\<exists>r \<in> set (vs_rows (snd (snd (bootstrap_default_if_missing ve u s st)))).
    uv_key r = (safe_user_id u, normalize_scope_id s, fst (bootstrap_default_if_missing ve u s st)) \<and> uv_active r"
proof (cases rule: bootstrap_cases [of u s st ve])
  case (kept row)
  note r = sel_one_Some [OF kept(1)]
  then have "vault_id_ok (uv_id row)" using assms by (simp add: registry_ok_def vault_ids_ok_def)
  with r kept(3,4) show ?thesis
    by (intro bexI [of _ row]) (auto simp: vault_id_ok_strip uv_key_def in_scope_def)
next
  case (adopted c)
  then show ?thesis by (simp add: adopt_vault_def Let_def insert_active_row)
qed

subsection \<open>Free ids\<close>

definition vault_candidate :: "string \<Rightarrow> nat \<Rightarrow> string" where
  "vault_candidate base n = (if n = 1 then base else base @ ''_'' @ nat_str n)"

lemma vault_candidate_inj: "vault_candidate base m = vault_candidate base n \<Longrightarrow> 1 \<le> m \<Longrightarrow> 1 \<le> n \<Longrightarrow> m = n"
  by (auto simp: vault_candidate_def split: if_splits dest: nat_str_inj)

lemma free_vault_id_Suc:
  "free_vault_id uid sid rows base n v (Suc m) =
     (if sel_one (\<lambda>r. in_scope uid sid r \<and> uv_id r = v) rows = None then Some v
      else free_vault_id uid sid rows base (n + 1) (base @ ''_'' @ nat_str (n + 1)) m)"
  by (subst free_vault_id.simps) simp

lemma free_vault_id_fresh:
  "free_vault_id uid sid rows base n vid fuel = Some v \<Longrightarrow> \<not> has_key uv_key (uid, sid, v) rows"
proof (induction fuel arbitrary: n vid)
  case 0
  then show ?case by (subst (asm) free_vault_id.simps) (auto simp: has_uv_key_iff split: if_splits)
next
  case (Suc fuel)
  then show ?case
    unfolding free_vault_id_Suc by (simp add: has_uv_key_iff split: if_splits)
qed

text \<open>Each failed attempt names a different row, so one attempt more than there are rows is enough.\<close>

lemma free_vault_id_total:
  assumes "1 \<le> n" and "\<forall>m. 1 \<le> m \<and> m < n \<longrightarrow> has_key uv_key (uid, sid, vault_candidate base m) rows"
    and "length rows < n + fuel"
  shows "free_vault_id uid sid rows base n (vault_candidate base n) fuel \<noteq> None"
  using assms
proof (induction fuel arbitrary: n)
  case 0
  have "sel_one (\<lambda>r. in_scope uid sid r \<and> uv_id r = vault_candidate base n) rows = None"
  proof (rule ccontr)
    assume "\<not> ?thesis"
    then have "has_key uv_key (uid, sid, vault_candidate base n) rows" by (simp add: has_uv_key_iff)
    with 0 have "has_key uv_key (uid, sid, vault_candidate base m) rows" if "m \<in> {1..n}" for m
      using that by (cases "m = n") auto
    then have "(\<lambda>m. (uid, sid, vault_candidate base m)) ` {1..n} \<subseteq> uv_key ` set rows"
      by (auto simp: has_key_def)
    then have "card ((\<lambda>m. (uid, sid, vault_candidate base m)) ` {1..n}) \<le> card (uv_key ` set rows)"
      by (intro card_mono) auto
    moreover have "inj_on (\<lambda>m. (uid, sid, vault_candidate base m)) {1..n}"
      by (auto simp: inj_on_def dest: vault_candidate_inj)
    ultimately have "n \<le> card (uv_key ` set rows)" by (simp add: card_image)
    also have "\<dots> \<le> length rows" using card_image_le [of "set rows" uv_key] card_length [of rows] by simp
    finally show False using 0 by simp
  qed
  then show ?case by (subst free_vault_id.simps) simp
next
  case (Suc fuel)
  show ?case
  proof (cases "sel_one (\<lambda>r. in_scope uid sid r \<and> uv_id r = vault_candidate base n) rows")
    case None
    then show ?thesis by (subst free_vault_id.simps) simp
  next
    case (Some r)
    then have k: "has_key uv_key (uid, sid, vault_candidate base n) rows" by (simp add: has_uv_key_iff)
    have "vault_candidate base (n + 1) = base @ ''_'' @ nat_str (n + 1)"
      using Suc.prems(1) by (simp add: vault_candidate_def)
    moreover have "free_vault_id uid sid rows base (n + 1) (vault_candidate base (n + 1)) fuel \<noteq> None"
      using Suc.prems k by (intro Suc.IH) (auto simp: less_Suc_eq)
    ultimately show ?thesis using Some by (subst free_vault_id.simps) simp
  qed
qed

lemma free_vault_id_form:
  "free_vault_id uid sid rows base n (vault_candidate base n) fuel = Some v \<Longrightarrow> 1 \<le> n \<Longrightarrow>
   \<exists>m \<ge> n. v = vault_candidate base m"
proof (induction fuel arbitrary: n)
  case 0
  then show ?case by (subst (asm) free_vault_id.simps) (auto split: if_splits)
next
  case (Suc fuel)
  have "vault_candidate base (n + 1) = base @ ''_'' @ nat_str (n + 1)"
    using Suc.prems(2) by (simp add: vault_candidate_def)
  with Suc.prems(1) have "v = vault_candidate base n \<or>
      free_vault_id uid sid rows base (n + 1) (vault_candidate base (n + 1)) fuel = Some v"
    unfolding free_vault_id_Suc by (simp split: if_splits)
  then show ?case
  proof
    assume "v = vault_candidate base n"
    then show ?thesis by (intro exI [of _ n]) simp
  next
    assume "free_vault_id uid sid rows base (n + 1) (vault_candidate base (n + 1)) fuel = Some v"
    from Suc.IH [OF this] obtain m where "n + 1 \<le> m" "v = vault_candidate base m" by auto
    then show ?thesis by (intro exI [of _ m]) simp
  qed
qed

subsection \<open>The operations keep the registry consistent\<close>

definition created :: "vault_env \<Rightarrow> string \<Rightarrow> string \<Rightarrow> string \<Rightarrow> vault_state \<Rightarrow> string \<Rightarrow> vault_state" where
  "created ve u nm s st v =
     (touch_duckdb_file ve (vault_file (safe_user_id u) v) st)\<lparr>vs_rows := vs_rows st @
       [vault_row ve (safe_user_id u) (normalize_scope_id s) v (take 128 (str_or (strip nm) ''vault'')) False]\<rparr>"

lemma create_vault_result:
  obtains v m where
    "create_vault ve u nm s st = Some (Inr ((v, take 128 (str_or (strip nm) ''vault''),
       vault_file (safe_user_id u) v), created ve u nm s st v))"
    "\<not> has_key uv_key (safe_user_id u, normalize_scope_id s, v) (vs_rows st)"
    "v = vault_candidate (str_or (slug_vault_id (str_or (strip nm) ''vault'')) ''vault'') m"
proof -
  let ?uid = "safe_user_id u" and ?sid = "normalize_scope_id s"
  let ?base = "str_or (slug_vault_id (str_or (strip nm) ''vault'')) ''vault''"
  have c1: "vault_candidate ?base 1 = ?base" by (simp add: vault_candidate_def)
  have "free_vault_id ?uid ?sid (vs_rows st) ?base 1 (vault_candidate ?base 1) (length (vs_rows st)) \<noteq> None"
    by (rule free_vault_id_total) auto
  then obtain v where v: "free_vault_id ?uid ?sid (vs_rows st) ?base 1 ?base (length (vs_rows st)) = Some v"
    unfolding c1 by blast
  have fresh: "\<not> has_key uv_key (?uid, ?sid, v) (vs_rows st)"
    using free_vault_id_fresh [OF v] .
  obtain m where m: "v = vault_candidate ?base m"
    using free_vault_id_form [of ?uid ?sid "vs_rows st" ?base 1 "length (vs_rows st)" v] v c1 by auto
  have "create_vault ve u nm s st = Some (Inr ((v, take 128 (str_or (strip nm) ''vault''), vault_file ?uid v),
      created ve u nm s st v))"
    using v fresh by (simp add: create_vault_def created_def Let_def ins_row_def)
  from that [OF this fresh m] show thesis .
qed

lemma created_rows:
  "vs_rows (created ve u nm s st v) = vs_rows st @
     [vault_row ve (safe_user_id u) (normalize_scope_id s) v (take 128 (str_or (strip nm) ''vault'')) False]"
  by (simp add: created_def)

lemma vault_candidate_ok: "vault_id_ok base \<Longrightarrow> vault_id_ok (vault_candidate base m)"
proof -
  have "is_slug_char c" if "c \<in> set (nat_str m)" for c
    using that nat_str_digits [of m] by (auto simp: is_slug_char_def)
  moreover have "is_slug_char (CHR ''_'')" by (simp add: is_slug_char_def)
  ultimately show "vault_id_ok base \<Longrightarrow> ?thesis" by (auto simp: vault_id_ok_def vault_candidate_def)
qed

lemma vault_base_ok: "vault_id_ok (str_or (slug_vault_id x) ''vault'')"
proof -
  have "list_all is_slug_char ''vault''" by code_simp
  then have "vault_id_ok ''vault''" by (simp add: vault_id_ok_def list_all_iff)
  then show ?thesis by (auto simp: str_or_def intro: vault_id_ok_slug)
qed

lemma create_vault_ok:
  assumes "registry_ok st" and "create_vault ve u nm s st = Some (Inr (res, st'))"
  shows "registry_ok st'"
proof -
  obtain v m where c: "create_vault ve u nm s st = Some (Inr ((v, take 128 (str_or (strip nm) ''vault''),
       vault_file (safe_user_id u) v), created ve u nm s st v))"
    and fresh: "\<not> has_key uv_key (safe_user_id u, normalize_scope_id s, v) (vs_rows st)"
    and m: "v = vault_candidate (str_or (slug_vault_id (str_or (strip nm) ''vault'')) ''vault'') m"
    by (rule create_vault_result [of ve u nm s st])
  have st': "st' = created ve u nm s st v" using c assms(2) by simp
  have v: "vault_id_ok v" unfolding m by (intro vault_candidate_ok vault_base_ok)
  let ?r = "vault_row ve (safe_user_id u) (normalize_scope_id s) v (take 128 (str_or (strip nm) ''vault'')) False"
  have "vaults_ok (vs_rows st @ [?r])"
    using assms(1) fresh unfolding registry_ok_def vaults_ok_def by (auto intro!: at_most_one_snoc)
  moreover have "vault_ids_ok (vs_rows st @ [?r])"
    using assms(1) v by (simp add: registry_ok_def vault_ids_ok_def vault_row_def)
  ultimately show ?thesis unfolding st' registry_ok_def created_rows by blast
qed

lemma sync_ids_ok:
  assumes "vault_ids_ok (vs_rows st)"
  shows "vault_ids_ok (vs_rows (sync_registry_with_files ve uid s st))"
proof -
  have "vault_ids_ok (fold (\<lambda>(vid, _) rows. ins_or_nothing uv_key (vault_row ve uid s vid vid False) rows) xs rows)"
    if "vault_ids_ok rows" "\<forall>(v, n) \<in> set xs. vault_id_ok v" for xs :: "(string \<times> nat) list" and rows s
    using that
  proof (induction xs arbitrary: rows)
    case (Cons x xs)
    obtain v n where x: "x = (v, n)" by (cases x)
    have "vault_ids_ok (ins_or_nothing uv_key (vault_row ve uid s v v False) rows)"
      using Cons.prems x by (auto simp: ins_or_nothing_def vault_ids_ok_def vault_row_def)
    with Cons x show ?case by auto
  qed simp
  moreover have "\<forall>(v, n) \<in> set (discover_existing_user_vaults_with_size uid st). vault_id_ok v"
    using discovered_size_ok by blast
  ultimately show ?thesis using assms by (simp add: sync_registry_with_files_def Let_def)
qed

lemma switch_vault_ok:
  assumes "registry_ok st"
  shows "registry_ok (snd (switch_vault ve u v s st))"
proof -
  let ?uid = "safe_user_id u" and ?sid = "normalize_scope_id s" and ?vid = "slug_vault_id v"
  let ?st = "sync_registry_with_files ve ?uid ?sid st"
  have k: "vaults_ok (vs_rows ?st)" "vault_ids_ok (vs_rows ?st)"
    using assms by (simp_all add: registry_ok_def sync_rows_ok sync_ids_ok)
  let ?r = "deactivate_all ?uid ?sid (vs_rows ?st)"
  have "vaults_ok (upd_where (\<lambda>r. in_scope ?uid ?sid r \<and> uv_id r = ?vid) (\<lambda>r. r\<lparr>uv_active := True\<rparr>) ?r)"
    using vaults_ok_deactivate [OF k(1), of ?uid ?sid] unfolding vaults_ok_def
    by (auto intro!: uniq_upd_where
        at_most_one_activate [where g = "(?uid, ?sid)" and k = "(?uid, ?sid, ?vid)"]
        simp: in_scope_def uv_key_def uv_group_def)
  moreover have "vault_ids_ok (upd_where (\<lambda>r. in_scope ?uid ?sid r \<and> uv_id r = ?vid) (\<lambda>r. r\<lparr>uv_active := True\<rparr>) ?r)"
    using k(2) by (simp add: vault_ids_ok_upd_active deactivate_all_def)
  ultimately show ?thesis
    using assms k by (simp add: switch_vault_def Let_def registry_ok_def)
qed

lemma remove_vault_ok:
  assumes "registry_ok st"
  shows "registry_ok (snd (remove_vault ve u v s st))"
proof -
  have "registry_ok (st\<lparr>vs_rows := del_where P (vs_rows st), vs_files := fs\<rparr>)" for P fs
    using assms by (auto simp: registry_ok_def vaults_ok_def vault_ids_ok_def at_most_one_del)
  then show ?thesis
    using assms by (auto simp: remove_vault_def Let_def bootstrap_ok split: option.split)
qed

lemma resolve_active_vault_simps:
  "snd (resolve_active_vault ve u s st) = snd (snd (bootstrap_default_if_missing ve u (normalize_scope_id s) st))"
  "fst (fst (resolve_active_vault ve u s st)) = fst (bootstrap_default_if_missing ve u (normalize_scope_id s) st)"
  by (simp_all add: resolve_active_vault_def Let_def split: prod.split)

lemma normalize_scope_id_idem [simp]: "normalize_scope_id (normalize_scope_id s) = normalize_scope_id s"
proof -
  have "strip (safe_user_id t) = safe_user_id t" for t
    using safe_user_id_chars slug_char_not_space by (intro strip_no_space) blast
  then show ?thesis by (simp add: normalize_scope_id_def Let_def)
qed

text \<open>Switching, then resolving.\<close>

lemma switch_vault_active:
  assumes "registry_ok st" "switch_vault ve u v s st = (True, st')"
  shows "\<exists>r \<in> set (vs_rows st'). uv_key r = (safe_user_id u, normalize_scope_id s, slug_vault_id v) \<and> uv_active r"
proof -
  let ?uid = "safe_user_id u" and ?sid = "normalize_scope_id s" and ?vid = "slug_vault_id v"
  let ?st = "sync_registry_with_files ve ?uid ?sid st"
  let ?P = "\<lambda>r. in_scope ?uid ?sid r \<and> uv_id r = ?vid"
  have f: "sel_one ?P (vs_rows ?st) \<noteq> None" and
    rows: "vs_rows st' = upd_where ?P (\<lambda>r. r\<lparr>uv_active := True\<rparr>) (deactivate_all ?uid ?sid (vs_rows ?st))"
    using assms(2) by (auto simp: switch_vault_def Let_def split: if_splits)
  obtain r where r: "r \<in> set (vs_rows ?st)" "?P r" using f by (auto dest: sel_one_Some)
  let ?r = "r\<lparr>uv_active := False\<rparr>"
  have "?r \<in> set (deactivate_all ?uid ?sid (vs_rows ?st))"
    using r by (auto simp: deactivate_all_def set_upd_where intro!: image_eqI [of _ _ r])
  then have "?r\<lparr>uv_active := True\<rparr> \<in> set (vs_rows st')"
    using r(2) unfolding rows set_upd_where by (intro image_eqI [of _ _ ?r]) (auto simp: in_scope_def)
  with r(2) show ?thesis by (intro bexI) (auto simp: uv_key_def in_scope_def)
qed

lemma active_row_of_scope:
  assumes "registry_ok st" "r \<in> set (vs_rows st)" "uv_key r = (uid, sid, v)" "uv_active r"
  shows "sel_one (\<lambda>r. in_scope uid sid r \<and> uv_active r) (vs_rows st) = Some r"
proof (cases "sel_one (\<lambda>r. in_scope uid sid r \<and> uv_active r) (vs_rows st)")
  case None
  with assms show ?thesis by (auto simp: sel_one_None in_scope_def uv_key_def)
next
  case (Some t)
  note t = sel_one_Some [OF this]
  have "agree uv_active uv_group uv_key r t"
    using assms(1,2) t by (simp add: registry_ok_def vaults_ok_def at_most_one_def)
  then have "uv_key r = uv_key t"
    using assms(3,4) t by (auto simp: agree_def uv_group_def uv_key_def in_scope_def)
  then have "r = t"
    using assms(1,2) t uniq_eq [of uv_key "vs_rows st" r t] by (simp add: registry_ok_def vaults_ok_def)
  with Some show ?thesis by simp
qed

subsection \<open>Properties\<close>

text \<open>
  C29. The vault registry stays consistent: whatever sequence of resolving, creating, switching and
  removing vaults runs, keys are unique, ids are slugs and at most one vault of each (user, scope) is
  active; and resolving always returns a vault that is then the active one of its scope.
\<close>

lemma vault_registry_invariant:
  assumes "registry_ok st"
  shows "registry_ok (snd (resolve_active_vault ve u s st)) \<and>
    (\<exists>r \<in> set (vs_rows (snd (resolve_active_vault ve u s st))).
       uv_key r = (safe_user_id u, normalize_scope_id s, fst (fst (resolve_active_vault ve u s st))) \<and>
       uv_active r) \<and>
    registry_ok (snd (switch_vault ve u v s st)) \<and> registry_ok (snd (remove_vault ve u v s st)) \<and>
    (\<forall>res st'. create_vault ve u nm s st = Some (Inr (res, st')) \<longrightarrow> registry_ok st')"
proof (intro conjI allI impI)
  show "registry_ok (snd (resolve_active_vault ve u s st))"
    using bootstrap_ok [OF assms] by (simp add: resolve_active_vault_simps)
  show "\<exists>r \<in> set (vs_rows (snd (resolve_active_vault ve u s st))).
       uv_key r = (safe_user_id u, normalize_scope_id s, fst (fst (resolve_active_vault ve u s st))) \<and>
       uv_active r"
    using bootstrap_active [OF assms, of ve u "normalize_scope_id s"]
    by (simp add: resolve_active_vault_simps)
qed (use switch_vault_ok [OF assms] remove_vault_ok [OF assms] create_vault_ok [OF assms] in blast)+

definition vault_env0 :: vault_env where
  "vault_env0 = \<lparr>ve_now = 7, ve_fresh = Some 12288, ve_initial = []\<rparr>"

lemma vault_registry_invariant_witness:
  "\<exists>st. registry_ok \<lparr>vs_rows = [], vs_files = [((''u'', ''sales''), 99)]\<rparr> \<and>
     resolve_active_vault vault_env0 ''U'' [] \<lparr>vs_rows = [], vs_files = [((''u'', ''sales''), 99)]\<rparr> =
       ((''sales'', (''u'', ''sales'')), st) \<and> registry_ok st"
proof -
  let ?st = "\<lparr>vs_rows = [], vs_files = [((''u'', ''sales''), 99)]\<rparr>"
  have ok: "registry_ok ?st" by (simp add: registry_ok_def vaults_ok_def vault_ids_ok_def)
  have "fst (resolve_active_vault vault_env0 ''U'' [] ?st) = (''sales'', (''u'', ''sales''))" by code_simp
  from fst_eqI [OF this] obtain st where st: "resolve_active_vault vault_env0 ''U'' [] ?st = ((''sales'', (''u'', ''sales'')), st)" ..
  have "registry_ok (snd (resolve_active_vault vault_env0 ''U'' [] ?st))"
    using vault_registry_invariant [OF ok, of vault_env0 "''U''" "[]" "[]" "[]"] by (rule conjunct1)
  with ok st show ?thesis by (intro exI [of _ st]) simp
qed

lemma vault_candidate_file:
  assumes v: "v = vault_candidate (str_or (slug_vault_id x) ''vault'') m" and len: "length v < 64"
  shows "slug_vault_id v = v"
proof -
  let ?base = "str_or (slug_vault_id x) ''vault''"
  have vault: "list_all is_slug_char ''vault'' \<and> no_double ''vault''" by code_simp
  have base: "\<forall>c \<in> set ?base. is_slug_char c" "no_double ?base" "hd ?base \<noteq> CHR ''_''" "?base \<noteq> []"
    using slug_shape [of x] vault by (auto simp: str_or_def list_all_iff)
  have "length ?base < 64" using v len by (auto simp: vault_candidate_def split: if_splits)
  then have last: "last ?base \<noteq> CHR ''_''" using slug_last [of x] by (auto simp: str_or_def)
  show ?thesis
  proof (cases "m = 1")
    case True
    then have "v = ?base" using v by (simp add: vault_candidate_def)
    with slug_fixed [OF base(4,1,2,3) last] len show ?thesis by simp
  next
    case False
    let ?n = "nat_str m"
    have veq: "v = ?base @ ''_'' @ ?n" using v False by (simp add: vault_candidate_def)
    have nc: "\<forall>c \<in> set ?n. is_slug_char c \<and> c \<noteq> CHR ''_''"
      using nat_str_digits [of m] by (auto simp: is_slug_char_def is_digit_def)
    have nd: "no_double ?n" by (rule no_double_plain) (use nc in blast)
    have hdn: "hd ?n \<noteq> CHR ''_''" using nc hd_in_set [of ?n] by auto
    have ch: "\<forall>c \<in> set v. is_slug_char c"
    proof -
      have "is_slug_char (CHR ''_'')" by (simp add: is_slug_char_def)
      then show ?thesis using base(1) nc by (simp add: veq ball_Un)
    qed
    have "no_double (''_'' @ ?n)" using nd hdn by (simp add: no_double_Cons)
    then have "no_double v" using base(2) last by (simp add: veq no_double_append)
    moreover have "last v \<noteq> CHR ''_''" using nc last_in_set [of ?n] by (simp add: veq)
    moreover have "hd v \<noteq> CHR ''_''" using base(3,4) by (simp add: veq hd_append)
    ultimately have "slug_vault_id v = take 64 v" using ch base(4) by (intro slug_fixed) (simp_all add: veq)
    then show ?thesis using len by simp
  qed
qed

text \<open>
  Creating a vault always succeeds: the search for a free id ends within one attempt per registered
  vault and the insert never conflicts. The id is new for the (user, scope), one row is appended and the
  others are untouched, and while the id has fewer than 64 characters the file is named after it.
\<close>

lemma create_vault_fresh:
  "\<exists>v st'. create_vault ve u nm s st = Some (Inr ((v, take 128 (str_or (strip nm) ''vault''),
       vault_file (safe_user_id u) v), st')) \<and>
     \<not> has_key uv_key (safe_user_id u, normalize_scope_id s, v) (vs_rows st) \<and>
     (\<exists>r. vs_rows st' = vs_rows st @ [r] \<and> uv_key r = (safe_user_id u, normalize_scope_id s, v)) \<and>
     (64 \<le> length v \<or> vault_file (safe_user_id u) v = (safe_user_id u, v))"
proof -
  obtain v m where c: "create_vault ve u nm s st = Some (Inr ((v, take 128 (str_or (strip nm) ''vault''),
       vault_file (safe_user_id u) v), created ve u nm s st v))"
    and fresh: "\<not> has_key uv_key (safe_user_id u, normalize_scope_id s, v) (vs_rows st)"
    and m: "v = vault_candidate (str_or (slug_vault_id (str_or (strip nm) ''vault'')) ''vault'') m"
    by (rule create_vault_result [of ve u nm s st])
  have "v \<noteq> []" using m vault_candidate_ok vault_base_ok by (simp add: vault_id_ok_def)
  then have "64 \<le> length v \<or> vault_file (safe_user_id u) v = (safe_user_id u, v)"
    using vault_candidate_file [OF m] by (cases "length v < 64") (simp_all add: vault_file_def)
  moreover have "\<exists>r. vs_rows (created ve u nm s st v) = vs_rows st @ [r] \<and>
      uv_key r = (safe_user_id u, normalize_scope_id s, v)"
    by (simp add: created_rows)
  ultimately show ?thesis using c fresh by blast
qed

text \<open>
  Beyond 64 characters the file no longer follows the id: when the slug of a name fills the 64
  characters, the second vault of that name gets a new id but the very same file as the first.
\<close>

lemma create_vault_shared_file:
  assumes "slug_vault_id base = base" and "length base = 64" and "2 \<le> m"
  shows "vault_candidate base m \<noteq> base \<and> vault_file u (vault_candidate base m) = vault_file u base"
proof -
  have b: "\<forall>c \<in> set base. is_slug_char c" "no_double base" "hd base \<noteq> CHR ''_''" "base \<noteq> []"
    using slug_shape [of base] assms(1,2) by auto
  let ?n = "nat_str m"
  have n: "\<forall>c \<in> set ?n. is_digit c" "?n \<noteq> []" using nat_str_digits by auto
  then have nc: "\<forall>c \<in> set ?n. is_slug_char c \<and> c \<noteq> CHR ''_''" by (auto simp: is_slug_char_def is_digit_def)
  have nd: "no_double ?n" by (rule no_double_plain) (use nc in blast)
  have "slug_vault_id (base @ ''_'' @ ?n) = base"
  proof -
    let ?s = "base @ ''_'' @ ?n"
    have chars: "\<forall>c \<in> set ?s. is_slug_char c" using b(1) nc by (auto simp: is_slug_char_def)
    have "lower (strip ?s) = ?s"
      using chars strip_no_space [of ?s] slug_char_not_space lower_slug [OF chars] by force
    moreover have "sub_runs (\<lambda>c. \<not> is_slug_char c) (CHR ''_'') ?s = ?s"
      using chars by (intro sub_runs_none) blast
    ultimately have eq: "slug_vault_id ?s = take 64 (strip_chars ''_'' (collapse ?s))"
      by (simp add: slug_vault_id_def Let_def)
    have last: "last ?n \<noteq> CHR ''_''" using nc n(2) by (metis last_in_set)
    have cp: "collapse (xs @ ''_'' @ ?n) = (if last xs = CHR ''_'' then xs @ ?n else xs @ ''_'' @ ?n)"
      if "no_double xs" "xs \<noteq> []" for xs
      using that
    proof (induction xs rule: no_double.induct, goal_cases)
      case (3 c)
      have "collapse (''_'' @ ?n) = ''_'' @ ?n"
        using nd nc n(2) by (intro collapse_fixed) (auto simp: no_double_Cons hd_in_set)
      then show ?case by simp
    qed auto
    show ?thesis
    proof (cases "last base = CHR ''_''")
      case True
      then have "strip_chars ''_'' (collapse ?s) = base @ ?n"
        using cp [OF b(2,4)] b(3,4) last n(2) by (simp add: strip_chars_id)
      then show ?thesis using eq assms(2) by simp
    next
      case False
      then have "strip_chars ''_'' (collapse ?s) = base @ ''_'' @ ?n"
        using cp [OF b(2,4)] b(3,4) last n(2) by (simp add: strip_chars_id)
      then show ?thesis using eq assms(2) by simp
    qed
  qed
  then show ?thesis using assms by (simp add: vault_candidate_def vault_file_def)
qed

lemma create_vault_shared_file_witness:
  "vault_file ''u'' (vault_candidate (replicate 64 (CHR ''a'')) 2) = (''u'', replicate 64 (CHR ''a''))"
proof -
  have s: "slug_vault_id (replicate 64 (CHR ''a'')) = replicate 64 (CHR ''a'')" by code_simp
  have "safe_user_id ''u'' = ''u''" by code_simp
  then show ?thesis
    using create_vault_shared_file [OF s, of 2 "''u''"] s by (simp add: vault_file_def)
qed

text \<open>
  A successful switch decides the next resolution: in a tenant scope, or for any vault but
  \<open>default\<close>, the vault switched to is the one resolved afterwards.
\<close>

lemma switch_then_resolve:
  assumes "registry_ok st" and "switch_vault ve u v s st = (True, st')"
    and "normalize_scope_id s \<noteq> [] \<or> slug_vault_id v \<noteq> ''default''"
  shows "fst (fst (resolve_active_vault ve u s st')) = slug_vault_id v"
proof -
  let ?uid = "safe_user_id u" and ?sid = "normalize_scope_id s" and ?vid = "slug_vault_id v"
  have ok: "registry_ok st'" using switch_vault_ok [OF assms(1), of ve u v s] assms(2) by simp
  obtain r where r: "r \<in> set (vs_rows st')" "uv_key r = (?uid, ?sid, ?vid)" "uv_active r"
    using switch_vault_active [OF assms(1,2)] by blast
  have id: "uv_id r = ?vid" using r(2) by (simp add: uv_key_def)
  have "vault_id_ok ?vid" using ok r(1) id by (auto simp: registry_ok_def vault_ids_ok_def)
  then have "str_or (strip (str_or (uv_id r) ''default'')) ''default'' = ?vid"
    by (simp add: id vault_id_ok_strip)
  moreover have "promotion ?uid ?sid ?vid st' = None" using assms(3) by (auto simp: promotion_def)
  ultimately show ?thesis
    using active_row_of_scope [OF ok r]
    by (simp add: resolve_active_vault_simps bootstrap_default_if_missing_def Let_def)
qed

lemma switch_then_resolve_witness:
  "\<exists>st st'. registry_ok st \<and> switch_vault vault_env0 ''u'' ''Sales'' [] st = (True, st') \<and>
     fst (fst (resolve_active_vault vault_env0 ''u'' [] st')) = ''sales''"
proof -
  let ?st = "\<lparr>vs_rows = [], vs_files = [((''u'', ''sales''), 99), ((''u'', ''big''), 900)]\<rparr>"
  have ok: "registry_ok ?st" by (simp add: registry_ok_def vaults_ok_def vault_ids_ok_def)
  have "fst (switch_vault vault_env0 ''u'' ''Sales'' [] ?st) = True" by code_simp
  from fst_eqI [OF this] obtain st' where st': "switch_vault vault_env0 ''u'' ''Sales'' [] ?st = (True, st')" ..
  have sl: "slug_vault_id ''Sales'' = ''sales''" by code_simp
  have "normalize_scope_id [] \<noteq> [] \<or> slug_vault_id ''Sales'' \<noteq> ''default''" by (simp add: sl)
  from switch_then_resolve [OF ok st' this]
  have r: "fst (fst (resolve_active_vault vault_env0 ''u'' [] st')) = ''sales''" unfolding sl .
  show ?thesis by (intro exI [of _ ?st] exI [of _ st'] conjI ok st' r)
qed

end
