(* ===== verification/Access.thy ===== *)
theory Access
  imports VaultPaths
begin

text \<open>
  Team access and shared-database grants: the typed handlers of
  \<open>packages/shared/src/duckclaw/write_handlers/access.py\<close> and the access check of
  \<open>shared_db_grants.py\<close>, over \<open>authorized_users\<close> and \<open>user_shared_db_access\<close>. The check builds SQL text
  with quoted literals; what DuckDB reads back from a literal is written out.
\<close>

subsection \<open>State\<close>

record authorized_user =
  au_tenant :: string
  au_user :: string
  au_username :: string
  au_role :: string
  au_added_at :: int

record shared_grant =
  sg_tenant :: string
  sg_user :: string
  sg_key :: string
  sg_created_at :: int

record access_db =
  ac_users :: "authorized_user list"
  ac_grants :: "shared_grant list"

definition au_pk :: "authorized_user \<Rightarrow> string \<times> string" where
  "au_pk r = (au_tenant r, au_user r)"

definition sg_pk :: "shared_grant \<Rightarrow> string \<times> string \<times> string" where
  "sg_pk r = (sg_tenant r, sg_user r, sg_key r)"

subsection \<open>Resource keys\<close>

text \<open>\<open>^[a-z0-9_*][a-z0-9_*-]{0,63}$\<close>, ignoring case (\<open>$\<close> also matches before a final newline, but the
  key has been stripped).\<close>

definition key_char :: "char \<Rightarrow> bool" where
  "key_char c \<longleftrightarrow> is_alpha_ascii c \<or> is_digit c \<or> c = CHR ''_'' \<or> c = CHR ''*''"

definition validate_resource_key :: "string \<Rightarrow> bool" where
  "validate_resource_key resource_key = (case strip resource_key of
     [] \<Rightarrow> False
   | c # cs \<Rightarrow> key_char c \<and> length cs \<le> 63 \<and> list_all (\<lambda>d. key_char d \<or> d = CHR ''-'') cs)"

subsection \<open>Handlers\<close>

definition normalize_authorized_user_role :: "pyval \<Rightarrow> py_error + string" where
  "normalize_authorized_user_role raw = (let role = lower (strip (pystr (por raw (PStr ''user''))))
   in if role \<notin> {''admin'', ''user''}
      then Inl (ValueError (''Invalid authorized user role: '' @ pystr raw)) else Inr role)"

definition apply_upsert_authorized_user :: "env \<Rightarrow> payload \<Rightarrow> access_db \<Rightarrow> py_error + access_db" where
  "apply_upsert_authorized_user e payload db = (let
     tenant_id = dflt_str payload ''tenant_id'' ''default'';
     user_id = opt_str payload ''user_id'' [];
     username = dflt_str payload ''username'' ''Usuario''
   in bindE (normalize_authorized_user_role (pget payload ''role'' PNone)) (\<lambda>role.
     if user_id = [] then Inl (ValueError ''user_id required'') else
     Inr (db\<lparr>ac_users := ins_or_update au_pk
       \<lparr>au_tenant = tenant_id, au_user = user_id, au_username = take 128 username, au_role = role,
        au_added_at = now e\<rparr>
       (\<lambda>r. r\<lparr>au_username := take 128 username, au_role := role, au_added_at := now e\<rparr>)
       (ac_users db)\<rparr>)))"

definition apply_delete_authorized_user :: "env \<Rightarrow> payload \<Rightarrow> access_db \<Rightarrow> py_error + access_db" where
  "apply_delete_authorized_user e payload db = (let
     tenant_id = dflt_str payload ''tenant_id'' ''default'';
     user_id = opt_str payload ''user_id'' []
   in
     if user_id = [] then Inl (ValueError ''user_id required'') else
     Inr (db\<lparr>ac_users := del_where (\<lambda>r. lower (au_tenant r) = lower tenant_id \<and> au_user r = user_id)
       (ac_users db)\<rparr>))"

definition normalize_shared_resource_key :: "pyval \<Rightarrow> py_error + string" where
  "normalize_shared_resource_key raw = (let resource_key = lower (strip (pystr (por raw (PStr []))))
   in if resource_key = [] \<or> \<not> validate_resource_key resource_key
      then Inl (ValueError ''Invalid shared resource_key'') else Inr resource_key)"

definition apply_upsert_shared_db_grant :: "env \<Rightarrow> payload \<Rightarrow> access_db \<Rightarrow> py_error + access_db" where
  "apply_upsert_shared_db_grant e payload db = (let
     tenant_id = dflt_str payload ''tenant_id'' ''default'';
     user_id = opt_str payload ''user_id'' []
   in bindE (normalize_shared_resource_key (pget payload ''resource_key'' PNone)) (\<lambda>resource_key.
     if user_id = [] then Inl (ValueError ''user_id required'') else
     Inr (db\<lparr>ac_grants := ins_or_update sg_pk
       \<lparr>sg_tenant = tenant_id, sg_user = user_id, sg_key = resource_key, sg_created_at = now e\<rparr>
       (\<lambda>r. r\<lparr>sg_created_at := now e\<rparr>) (ac_grants db)\<rparr>)))"

definition apply_delete_shared_db_grant :: "env \<Rightarrow> payload \<Rightarrow> access_db \<Rightarrow> py_error + access_db" where
  "apply_delete_shared_db_grant e payload db = (let
     tenant_id = dflt_str payload ''tenant_id'' ''default'';
     user_id = opt_str payload ''user_id'' []
   in bindE (normalize_shared_resource_key (pget payload ''resource_key'' PNone)) (\<lambda>resource_key.
     if user_id = [] then Inl (ValueError ''user_id required'') else
     Inr (db\<lparr>ac_grants := del_where
       (\<lambda>r. sg_tenant r = tenant_id \<and> sg_user r = user_id \<and> sg_key r = resource_key) (ac_grants db)\<rparr>)))"

subsection \<open>The access check\<close>

definition quote_char :: char where
  "quote_char = CHR 39"

definition sql_lit :: "string \<Rightarrow> nat \<Rightarrow> string" where
  "sql_lit v max_len = take max_len (replace_char quote_char [quote_char, quote_char] v)"

text \<open>
  What DuckDB reads when the text stands between quotes: doubled quotes are one quote. A lone quote ends the
  literal early (\<open>None\<close>): the statement then means something else, or nothing. Its outcome is the argument
  \<open>oddq\<close> of the operations below; the source turns a failure of the query into the empty list.
\<close>

fun read_lit :: "string \<Rightarrow> string option" where
  "read_lit [] = Some []"
| "read_lit [c] = (if c = quote_char then None else Some [c])"
| "read_lit (c # d # cs) =
     (if c = quote_char then (if d = quote_char then map_option ((#) quote_char) (read_lit cs) else None)
      else map_option ((#) c) (read_lit (d # cs)))"

type_synonym odd_query = "string \<Rightarrow> string \<Rightarrow> shared_grant list"

definition query_grants :: "odd_query \<Rightarrow> string \<Rightarrow> string \<Rightarrow> shared_grant list \<Rightarrow> shared_grant list" where
  "query_grants oddq tid_sql uid_sql grants = (case (read_lit tid_sql, read_lit uid_sql) of
     (Some t, Some u) \<Rightarrow> sel_all (\<lambda>r. sg_tenant r = t \<and> sg_user r = u) grants
   | _ \<Rightarrow> oddq tid_sql uid_sql)"

text \<open>\<open>get_env\<close>: the environment variables, absent ones as the empty string.\<close>

definition resolve_shared_resource_path :: "(string \<Rightarrow> string) \<Rightarrow> string \<Rightarrow> string option" where
  "resolve_shared_resource_path get_env resource_key = (let rk = lower (strip resource_key) in
     if rk = ''*'' \<or> rk = [] then None
     else let name = (if rk = ''default'' then ''DUCKCLAW_SHARED_DB_PATH''
            else ''DUCKCLAW_SHARED_RESOURCE_'' @ replace_char (CHR ''-'') ''_'' (upper rk));
          p = strip (get_env name)
        in if p = [] then None else Some p)"

fun grant_allows :: "path_env \<Rightarrow> (string \<Rightarrow> string) \<Rightarrow> path \<Rightarrow> shared_grant list \<Rightarrow> bool" where
  "grant_allows pe get_env want [] = False"
| "grant_allows pe get_env want (r # rs) = (let key = strip (sg_key r) in
     if key = ''*'' then True
     else case resolve_shared_resource_path get_env key of
       None \<Rightarrow> grant_allows pe get_env want rs
     | Some resolved \<Rightarrow>
         if pe_resolve pe resolved = want then True else grant_allows pe get_env want rs)"

text \<open>\<open>Path(p).suffix\<close>, from the text alone.\<close>

definition path_text_suffix :: "string \<Rightarrow> string" where
  "path_text_suffix p = path_suffix (filter (\<lambda>w. w \<noteq> [] \<and> w \<noteq> ''.'') (split_char (CHR ''/'') p))"

definition user_may_access_shared_path ::
  "path_env \<Rightarrow> (string \<Rightarrow> string) \<Rightarrow> odd_query \<Rightarrow> shared_grant list \<Rightarrow> string \<Rightarrow> string \<Rightarrow> string \<Rightarrow> bool" where
  "user_may_access_shared_path pe get_env oddq grants tenant_id user_id shared_db_path = (let
     tid = str_or (strip tenant_id) ''default''; uid = str_or (strip user_id) ''default'';
     path = strip shared_db_path
   in
     if path = [] \<or> lower (path_text_suffix path) \<noteq> ''.duckdb'' then False
     else if \<not> validate_user_db_path pe uid path (Some tid) then False
     else let rows = query_grants oddq (sql_lit tid 128) (sql_lit uid 128) grants in
       if rows = [] then True else grant_allows pe get_env (pe_resolve pe path) rows)"

definition list_shared_grants_for_user ::
  "odd_query \<Rightarrow> string \<Rightarrow> string \<Rightarrow> shared_grant list \<Rightarrow> shared_grant list" where
  "list_shared_grants_for_user oddq tenant_id user_id grants =
     sort_key sg_key (query_grants oddq
       (sql_lit (str_or (strip (str_or tenant_id ''default'')) ''default'') 128)
       (sql_lit (strip user_id) 128) grants)"

subsection \<open>Quoting\<close>

lemma read_lit_escaped [simp]:
  "read_lit (replace_char quote_char [quote_char, quote_char] v) = Some v"
proof -
  have c: "read_lit (c # s) = map_option ((#) c) (read_lit s)" if "c \<noteq> quote_char" for c s
    using that by (cases s) auto
  show ?thesis by (induction v) (auto simp: replace_char_def c)
qed

lemma sql_lit_short:
  "length (replace_char quote_char [quote_char, quote_char] v) \<le> n \<Longrightarrow> read_lit (sql_lit v n) = Some v"
  by (simp add: sql_lit_def)

lemma replace_char_absent: "a \<notin> set v \<Longrightarrow> replace_char a r v = v"
  by (induction v) (auto simp: replace_char_def)

lemma read_lit_plain: "quote_char \<notin> set v \<Longrightarrow> read_lit v = Some v"
  using read_lit_escaped [of v] by (simp add: replace_char_absent)

lemma sql_lit_plain: "quote_char \<notin> set v \<Longrightarrow> read_lit (sql_lit v n) = Some (take n v)"
  by (auto simp: sql_lit_def replace_char_absent intro!: read_lit_plain dest: in_set_takeD)

subsection \<open>The grants as a keyed store\<close>

interpretation shared_grants: keyed_store "tbl_map sg_pk" "tbl_put sg_pk" "tbl_del sg_pk" sg_pk "uniq sg_pk"
  by (rule keyed_store_table)

lemma grant_upsert_put:
  "ins_or_update sg_pk r (\<lambda>x. x\<lparr>sg_created_at := sg_created_at r\<rparr>) t = tbl_put sg_pk r t"
proof -
  have "x\<lparr>sg_created_at := sg_created_at r\<rparr> = r" if "sg_pk x = sg_pk r" for x
    using that by (cases x, cases r) (simp add: sg_pk_def)
  then show ?thesis
    by (auto simp: tbl_put_def ins_or_update_def upd_where_def)
qed

lemma grant_delete_del:
  "del_where (\<lambda>r. sg_tenant r = a \<and> sg_user r = b \<and> sg_key r = c) t = tbl_del sg_pk (a, b, c) t"
  by (simp add: tbl_del_def sg_pk_def)

text \<open>The key a grant command addresses.\<close>

definition grant_target :: "payload \<Rightarrow> py_error + (string \<times> string \<times> string)" where
  "grant_target payload = bindE (normalize_shared_resource_key (pget payload ''resource_key'' PNone)) (\<lambda>k.
     if opt_str payload ''user_id'' [] = [] then Inl (ValueError ''user_id required'')
     else Inr (dflt_str payload ''tenant_id'' ''default'', opt_str payload ''user_id'' [], k))"

lemma upsert_grant_refines:
  "apply_upsert_shared_db_grant e p db = bindE (grant_target p) (\<lambda>(a, b, c).
     Inr (db\<lparr>ac_grants := tbl_put sg_pk
       \<lparr>sg_tenant = a, sg_user = b, sg_key = c, sg_created_at = now e\<rparr> (ac_grants db)\<rparr>))"
  using grant_upsert_put [of "\<lparr>sg_tenant = dflt_str p ''tenant_id'' ''default'', sg_user = opt_str p ''user_id'' [],
      sg_key = k, sg_created_at = now e\<rparr>" "ac_grants db" for k]
  by (cases "normalize_shared_resource_key (pget p ''resource_key'' PNone)")
    (simp_all add: apply_upsert_shared_db_grant_def grant_target_def Let_def)

lemma delete_grant_refines:
  "apply_delete_shared_db_grant e p db = bindE (grant_target p) (\<lambda>k.
     Inr (db\<lparr>ac_grants := tbl_del sg_pk k (ac_grants db)\<rparr>))"
  by (cases "normalize_shared_resource_key (pget p ''resource_key'' PNone)")
    (simp_all add: apply_delete_shared_db_grant_def grant_target_def Let_def grant_delete_del)

subsection \<open>Properties\<close>

text \<open>
  The grant commands implement a map from (tenant, user, key): granting twice is granting once, granting
  and then revoking leaves no grant of that key and every other grant as it was, and a command with an
  invalid key or without user changes nothing.
\<close>

lemma shared_grant_roundtrip:
  assumes "uniq sg_pk (ac_grants db)" and "apply_upsert_shared_db_grant e p db = Inr db1"
  shows "uniq sg_pk (ac_grants db1) \<and>
    (\<exists>k r. grant_target p = Inr k \<and> sg_pk r = k \<and>
       tbl_map sg_pk (ac_grants db1) = (tbl_map sg_pk (ac_grants db))(k \<mapsto> r) \<and>
       (\<exists>db2. apply_upsert_shared_db_grant e p db1 = Inr db2 \<and>
          tbl_map sg_pk (ac_grants db2) = tbl_map sg_pk (ac_grants db1)) \<and>
       (\<exists>db2. apply_delete_shared_db_grant e p db1 = Inr db2 \<and>
          tbl_map sg_pk (ac_grants db2) = (tbl_map sg_pk (ac_grants db))(k := None)))"
proof -
  obtain a b c where k: "grant_target p = Inr (a, b, c)"
    using assms(2) by (auto simp: upsert_grant_refines)
  let ?r = "\<lparr>sg_tenant = a, sg_user = b, sg_key = c, sg_created_at = now e\<rparr>"
  have rk: "sg_pk ?r = (a, b, c)" by (simp add: sg_pk_def)
  have db1: "ac_grants db1 = tbl_put sg_pk ?r (ac_grants db)"
    using assms(2) k by (auto simp: upsert_grant_refines)
  note u = assms(1)
  show ?thesis
    unfolding upsert_grant_refines delete_grant_refines k
    using shared_grants.inv_put [OF u, of ?r] shared_grants.put_idem [OF u, of ?r]
      shared_grants.del_put [OF u, of ?r] shared_grants.get_put [OF u, of ?r] shared_grants.get_del [OF u]
    by (intro conjI exI [of _ "(a, b, c)"] exI [of _ ?r]) (simp_all add: db1 rk)
qed

lemma shared_grant_roundtrip_witness:
  "\<exists>db1 db2. apply_upsert_shared_db_grant env0 [(''user_id'', PStr ''u''), (''resource_key'', PStr ''Sales'')]
       \<lparr>ac_users = [], ac_grants = []\<rparr> = Inr db1 \<and> length (ac_grants db1) = 1 \<and>
     apply_delete_shared_db_grant env0 [(''user_id'', PStr ''u''), (''resource_key'', PStr ''Sales'')] db1 = Inr db2 \<and>
     tbl_map sg_pk (ac_grants db2) = Map.empty"
proof -
  let ?p = "[(''user_id'', PStr ''u''), (''resource_key'', PStr ''Sales'')]"
  let ?db = "\<lparr>ac_users = [], ac_grants = []\<rparr>"
  have "case apply_upsert_shared_db_grant env0 ?p ?db of Inl _ \<Rightarrow> False | Inr d \<Rightarrow> length (ac_grants d) = 1"
    by code_simp
  then obtain d where d: "apply_upsert_shared_db_grant env0 ?p ?db = Inr d" "length (ac_grants d) = 1"
    by (auto split: sum.splits)
  have u: "uniq sg_pk (ac_grants ?db)" by simp
  obtain k d2 where "apply_delete_shared_db_grant env0 ?p d = Inr d2"
      "tbl_map sg_pk (ac_grants d2) = (tbl_map sg_pk [])(k := None)"
    using shared_grant_roundtrip [OF u d(1)] by auto
  with d show ?thesis by (intro exI [of _ d] exI [of _ d2]) (auto simp: fun_eq_iff)
qed

text \<open>
  The access check decides as documented, for tenant and user ids whose quoted text has at most 128
  characters: the path must be a valid \<open>.duckdb\<close> path of the user, and if the user has any grant in the
  tenant, one of them must be the wildcard or name a resource whose path is the one asked for.
\<close>

lemma shared_access_decision:
  assumes "tid = str_or (strip tenant_id) ''default''" and "uid = str_or (strip user_id) ''default''"
    and "length (replace_char quote_char [quote_char, quote_char] tid) \<le> 128"
    and "length (replace_char quote_char [quote_char, quote_char] uid) \<le> 128"
  shows "user_may_access_shared_path pe get_env oddq grants tenant_id user_id p \<longleftrightarrow>
    strip p \<noteq> [] \<and> lower (path_text_suffix (strip p)) = ''.duckdb'' \<and>
    validate_user_db_path pe uid (strip p) (Some tid) \<and>
    ((\<forall>r \<in> set grants. sg_tenant r = tid \<longrightarrow> sg_user r \<noteq> uid) \<or>
     (\<exists>r \<in> set grants. sg_tenant r = tid \<and> sg_user r = uid \<and>
        (strip (sg_key r) = ''*'' \<or>
         (\<exists>q. resolve_shared_resource_path get_env (strip (sg_key r)) = Some q \<and>
              pe_resolve pe q = pe_resolve pe (strip p)))))"
proof -
  let ?rows = "sel_all (\<lambda>r. sg_tenant r = tid \<and> sg_user r = uid) grants"
  have q: "query_grants oddq (sql_lit tid 128) (sql_lit uid 128) grants = ?rows"
    using assms(3,4) by (simp add: query_grants_def sql_lit_short)
  have star: "resolve_shared_resource_path get_env ''*'' = None"
    by (simp add: resolve_shared_resource_path_def Let_def lower_def lower_char_def strip_def lstrip_def
        rstrip_def is_space_def)
  have g: "grant_allows pe get_env w rows \<longleftrightarrow> (\<exists>r \<in> set rows. strip (sg_key r) = ''*'' \<or>
      (\<exists>q. resolve_shared_resource_path get_env (strip (sg_key r)) = Some q \<and> pe_resolve pe q = w))" for rows w
    by (induction rows) (auto simp: Let_def split: option.splits)
  have e: "?rows = [] \<longleftrightarrow> (\<forall>r \<in> set grants. sg_tenant r = tid \<longrightarrow> sg_user r \<noteq> uid)"
    by (auto simp: sel_all_def filter_empty_conv)
  have m: "(\<exists>r \<in> set ?rows. Q r) \<longleftrightarrow> (\<exists>r \<in> set grants. sg_tenant r = tid \<and> sg_user r = uid \<and> Q r)" for Q
    by (auto simp: sel_all_def)
  show ?thesis
    unfolding user_may_access_shared_path_def Let_def assms(1,2) [symmetric] q
    using e g [of "pe_resolve pe (strip p)" ?rows] m by auto
qed

lemma shared_access_decision_witness:
  "user_may_access_shared_path path_env0 (\<lambda>_. ''/r/db/shared/t/a.duckdb'') (\<lambda>_ _. [])
     [\<lparr>sg_tenant = ''t'', sg_user = ''u'', sg_key = ''sales'', sg_created_at = 1\<rparr>] ''t'' ''u''
     ''/r/db/shared/t/a.duckdb'' \<and>
   \<not> user_may_access_shared_path path_env0 (\<lambda>_. ''/r/db/shared/t/b.duckdb'') (\<lambda>_ _. [])
     [\<lparr>sg_tenant = ''t'', sg_user = ''u'', sg_key = ''sales'', sg_created_at = 1\<rparr>] ''t'' ''u''
     ''/r/db/shared/t/a.duckdb''"
proof -
  have t: "''t'' = str_or (strip ''t'') ''default''" "''u'' = str_or (strip ''u'') ''default''" by code_simp+
  have l: "length (replace_char quote_char [quote_char, quote_char] ''t'') \<le> 128"
      "length (replace_char quote_char [quote_char, quote_char] ''u'') \<le> 128" by code_simp+
  let ?a = "''/r/db/shared/t/a.duckdb''" and ?b = "''/r/db/shared/t/b.duckdb''"
  have v: "strip ?a = ?a" "lower (path_text_suffix ?a) = ''.duckdb''"
      "validate_user_db_path path_env0 ''u'' ?a (Some ''t'')" by code_simp+
  have s: "strip ''sales'' = ''sales''" by code_simp
  have ra: "resolve_shared_resource_path (\<lambda>_. ?a) ''sales'' = Some ?a"
      "resolve_shared_resource_path (\<lambda>_. ?b) ''sales'' = Some ?b" by code_simp+
  have ne: "pe_resolve path_env0 ?a \<noteq> pe_resolve path_env0 ?b" by code_simp
  show ?thesis
    unfolding shared_access_decision [OF t l] using v s ra ne by auto
qed

text \<open>
  A user id longer than 128 characters escapes its grants: the check looks for the grants of the first
  128 characters only, and when there are none it allows every path the user may open, even if the user has
  grants that should restrict it.
\<close>

lemma long_user_id_escapes_grants:
  assumes "strip user_id = user_id" and "128 < length user_id" and "quote_char \<notin> set user_id"
    and "quote_char \<notin> set (str_or (strip tenant_id) ''default'')"
    and "\<forall>r \<in> set grants. sg_user r \<noteq> take 128 user_id"
    and "strip p \<noteq> []" and "lower (path_text_suffix (strip p)) = ''.duckdb''"
    and "validate_user_db_path pe user_id (strip p) (Some (str_or (strip tenant_id) ''default''))"
  shows "user_may_access_shared_path pe get_env oddq grants tenant_id user_id p"
proof -
  have "user_id \<noteq> []" using assms(2) by auto
  then have u: "str_or (strip user_id) ''default'' = user_id" using assms(1) by simp
  have "query_grants oddq (sql_lit (str_or (strip tenant_id) ''default'') 128) (sql_lit user_id 128) grants = []"
    using assms(5) by (simp add: query_grants_def sql_lit_plain [OF assms(3)] sql_lit_plain [OF assms(4)]
        sel_all_def filter_empty_conv)
  then show ?thesis using assms(6-8) by (simp add: user_may_access_shared_path_def Let_def u)
qed

lemma long_user_id_escapes_grants_witness:
  "user_may_access_shared_path path_env0 (\<lambda>_. []) (\<lambda>_ _. [])
     [\<lparr>sg_tenant = ''t'', sg_user = replicate 129 (CHR ''a''), sg_key = ''none'', sg_created_at = 1\<rparr>] ''t''
     (replicate 129 (CHR ''a'')) ''/r/db/shared/t/x.duckdb''"
proof -
  let ?u = "replicate 129 (CHR ''a'')" and ?p = "''/r/db/shared/t/x.duckdb''"
  let ?g = "[\<lparr>sg_tenant = ''t'', sg_user = ?u, sg_key = ''none'', sg_created_at = 1\<rparr>]"
  have 1: "strip ?u = ?u" by (rule strip_no_space) (simp add: is_space_def)
  have 2: "128 < length ?u" by simp
  have 3: "quote_char \<notin> set ?u" by (simp add: quote_char_def)
  have 4: "quote_char \<notin> set (str_or (strip ''t'') ''default'')" by code_simp
  have 5: "\<forall>r \<in> set ?g. sg_user r \<noteq> take 128 ?u" by simp
  have 6: "strip ?p \<noteq> []" "lower (path_text_suffix (strip ?p)) = ''.duckdb''" by code_simp+
  have 7: "validate_user_db_path path_env0 ?u (strip ?p) (Some (str_or (strip ''t'') ''default''))"
    by code_simp
  show ?thesis by (rule long_user_id_escapes_grants [OF 1 2 3 4 5 6 7])
qed

end
