(* ===== verification/Runtime.thy ===== *)
theory Runtime
  imports Tables
begin

text \<open>
  Runtime settings, agent configuration, chat state and the task audit log:
  \<open>packages/shared/src/duckclaw/write_handlers/runtime.py\<close>. The tables the handlers create when missing
  are options.
\<close>

subsection \<open>State\<close>

record runtime_setting =
  rs_id :: string
  rs_tenant :: string
  rs_actor :: string
  rs_domain :: string
  rs_key :: string
  rs_value :: string
  rs_value_json :: string
  rs_kind :: string
  rs_secret :: bool
  rs_source :: string
  rs_active :: bool
  rs_created_by :: string
  rs_updated_by :: string
  rs_created_at :: int
  rs_updated_at :: int

record config_entry =
  ce_key :: string
  ce_value :: string
  ce_updated_at :: int

record task_audit =
  ta_task :: string
  ta_tenant :: string
  ta_worker :: string
  ta_query :: string
  ta_status :: string
  ta_duration :: int
  ta_created_at :: int
  ta_plan :: string

text \<open>\<open>rd_telegram\<close> holds the \<open>chat_id\<close> of each stored turn, \<open>rd_api\<close> the \<open>session_id\<close>; the other columns of
  the two conversation tables are never read here.\<close>

record runtime_db =
  rd_settings :: "runtime_setting list"
  rd_config :: "config_entry list option"
  rd_audit :: "task_audit list option"
  rd_telegram :: "int list option"
  rd_api :: "string list option"

definition rs_lookup :: "runtime_setting \<Rightarrow> string \<times> string \<times> string \<times> string" where
  "rs_lookup r = (rs_tenant r, rs_actor r, rs_domain r, rs_key r)"

subsection \<open>Runtime settings\<close>

definition req_text :: "payload \<Rightarrow> string \<Rightarrow> py_error + string" where
  "req_text p k = bindE (pitem p k) (\<lambda>v. Inr (pystr v))"

definition apply_upsert_runtime_setting :: "env \<Rightarrow> payload \<Rightarrow> runtime_db \<Rightarrow> py_error + runtime_db" where
  "apply_upsert_runtime_setting e payload db =
     bindE (req_text payload ''domain'') (\<lambda>domain.
     bindE (req_text payload ''key'') (\<lambda>key.
     bindE (req_text payload ''value'') (\<lambda>value.
     let value_json = pget payload ''value_json'' PNone;
         secret = truthy (pget payload ''secret'' (PBool False));
         value_kind = (if secret then ''secret'' else pystr (pget payload ''value_kind'' (PStr ''string'')));
         json_text = (if value_json \<noteq> PNone then json_dumps (sort_keys value_json) else []);
         tenant_id = gstr payload ''tenant_id'' ''default'';
         actor = pystr (pget payload ''actor_email'' (PStr ''system''));
         updated_by = gstr payload ''updated_by'' actor
     in
     case sel_one (\<lambda>r. rs_lookup r = (tenant_id, actor, domain, key)) (rd_settings db) of
       Some existing \<Rightarrow>
         Inr (db\<lparr>rd_settings := upd_where (\<lambda>r. rs_id r = rs_id existing)
           (\<lambda>r. r\<lparr>rs_value := value, rs_value_json := json_text, rs_kind := value_kind,
                  rs_secret := secret, rs_source := ''db'', rs_active := True,
                  rs_updated_by := updated_by, rs_updated_at := now e\<rparr>) (rd_settings db)\<rparr>)
     | None \<Rightarrow>
         bindE (ins_row rs_id
           \<lparr>rs_id = ''set_'' @ take 16 (uuid_hex e 0), rs_tenant = tenant_id, rs_actor = actor,
            rs_domain = domain, rs_key = key, rs_value = value, rs_value_json = json_text,
            rs_kind = value_kind, rs_secret = secret, rs_source = ''db'', rs_active = True,
            rs_created_by = updated_by, rs_updated_by = updated_by,
            rs_created_at = now e, rs_updated_at = now e\<rparr> (rd_settings db))
         (\<lambda>rows. Inr (db\<lparr>rd_settings := rows\<rparr>)))))"

subsection \<open>Agent configuration\<close>

definition ensure_agent_config_table :: "runtime_db \<Rightarrow> runtime_db" where
  "ensure_agent_config_table db = db\<lparr>rd_config := Some (ensure_table (rd_config db))\<rparr>"

definition config_entry_of :: "env \<Rightarrow> string \<times> pyval \<Rightarrow> config_entry" where
  "config_entry_of e kv = \<lparr>ce_key = take 128 (strip (fst kv)),
     ce_value = take 16384 (pystr (por (snd kv) (PStr []))), ce_updated_at = now e\<rparr>"

text \<open>One turn of the loop: \<open>INSERT ... ON CONFLICT (key) DO UPDATE SET value, updated_at\<close>.\<close>

definition upsert_config_entry :: "env \<Rightarrow> string \<times> pyval \<Rightarrow> config_entry list \<Rightarrow> py_error + config_entry list" where
  "upsert_config_entry e kv rows = (let entry = config_entry_of e kv in
     if ce_key entry = [] then Inl (ValueError ''agent_config entry key required'')
     else Inr (ins_or_update ce_key entry
       (\<lambda>r. r\<lparr>ce_value := ce_value entry, ce_updated_at := now e\<rparr>) rows))"

definition apply_upsert_agent_config_entries :: "env \<Rightarrow> payload \<Rightarrow> runtime_db \<Rightarrow> py_error + runtime_db" where
  "apply_upsert_agent_config_entries e payload db =
     (case por (pget payload ''entries'' PNone) (PDict []) of
        PDict (kv # kvs) \<Rightarrow>
          bindE (forE (upsert_config_entry e) (kv # kvs) (ensure_table (rd_config db)))
            (\<lambda>rows. Inr (db\<lparr>rd_config := Some rows\<rparr>))
      | _ \<Rightarrow> Inl (ValueError ''entries required''))"

definition delete_config_key :: "string \<Rightarrow> config_entry list \<Rightarrow> py_error + config_entry list" where
  "delete_config_key key rows =
     (if key = [] then Inl (ValueError ''agent_config entry key required'')
      else Inr (del_where (\<lambda>r. ce_key r = key) rows))"

definition apply_delete_agent_config_entries :: "env \<Rightarrow> payload \<Rightarrow> runtime_db \<Rightarrow> py_error + runtime_db" where
  "apply_delete_agent_config_entries e payload db =
     (case por (pget payload ''keys'' PNone) (PList []) of
        PList (k # ks) \<Rightarrow> (let
            keys = sort (remdups (map (\<lambda>raw. take 128 (strip (pystr (por raw (PStr []))))) (k # ks)))
          in bindE (forE delete_config_key keys (ensure_table (rd_config db)))
            (\<lambda>rows. Inr (db\<lparr>rd_config := Some rows\<rparr>)))
      | _ \<Rightarrow> Inl (ValueError ''keys required''))"

subsection \<open>Chat state\<close>

definition chat_agent_config_key :: "string \<Rightarrow> string \<Rightarrow> string" where
  "chat_agent_config_key chat_id suffix_text = (case parse_int chat_id of
     Some n \<Rightarrow> ''chat_'' @ int_str n @ ''_'' @ suffix_text
   | None \<Rightarrow> ''chat_'' @ take 64 chat_id @ ''_'' @ suffix_text)"

definition apply_forget_chat_state :: "env \<Rightarrow> payload \<Rightarrow> runtime_db \<Rightarrow> py_error + runtime_db" where
  "apply_forget_chat_state e payload db = (let raw_chat_id = opt_str payload ''chat_id'' [] in
     if raw_chat_id = [] then Inl (ValueError ''chat_id required'') else
     let db = (case parse_int raw_chat_id of
           Some n \<Rightarrow> db\<lparr>rd_telegram := map_option (del_where (\<lambda>c. c = n)) (rd_telegram db)\<rparr>
         | None \<Rightarrow> db\<lparr>rd_api := map_option (del_where (\<lambda>s. s = take 256 raw_chat_id)) (rd_api db)\<rparr>);
         keys = map (\<lambda>x. take 128 (chat_agent_config_key raw_chat_id x)) [''last_audit'', ''context_fold_summary'']
     in Inr (db\<lparr>rd_config := Some (fold (\<lambda>k rows. del_where (\<lambda>r. ce_key r = k) rows) keys
          (ensure_table (rd_config db)))\<rparr>))"

subsection \<open>Task audit\<close>

definition task_audit_statuses :: "string list" where
  "task_audit_statuses = [''SUCCESS'', ''FAILED'', ''PROACTIVE_MESSAGE_SENT'', ''SECURITY_VIOLATION_ATTEMPT'']"

definition normalize_task_audit_status :: "pyval \<Rightarrow> string" where
  "normalize_task_audit_status raw = (let status = upper (strip (pystr (por raw (PStr ''SUCCESS''))))
   in if status \<in> set task_audit_statuses then status else ''SUCCESS'')"

definition audit_task_id :: "payload \<Rightarrow> string" where
  "audit_task_id payload = strip (pystr (por (pget payload ''audit_task_id'' PNone)
     (por (pget payload ''task_id'' PNone) (PStr []))))"

definition apply_append_task_audit :: "env \<Rightarrow> payload \<Rightarrow> runtime_db \<Rightarrow> py_error + runtime_db" where
  "apply_append_task_audit e payload db = (let task = audit_task_id payload in
     if task = [] then Inl (ValueError ''audit_task_id required'') else
     let tenant_id = str_or (take 128 (opt_str payload ''tenant_id'' ''default'')) ''default'';
         worker_id = take 64 (opt_str payload ''worker_id'' []);
         query_prefix = take 256 (gstr payload ''query_prefix'' []);
         status = normalize_task_audit_status (pget payload ''status'' PNone)
     in bindE (gint payload ''duration_ms'' 0) (\<lambda>d.
     let duration_ms = max 0 d; plan_title = take 256 (gstr payload ''plan_title'' []) in
     bindE (sql_int32 duration_ms) (\<lambda>duration_ms.
     Inr (db\<lparr>rd_audit := Some (ins_or_nothing ta_task
       \<lparr>ta_task = task, ta_tenant = tenant_id, ta_worker = worker_id, ta_query = query_prefix,
        ta_status = status, ta_duration = duration_ms, ta_created_at = now e, ta_plan = plan_title\<rparr>
       (ensure_table (rd_audit db)))\<rparr>))))"

subsection \<open>The configuration as a keyed store\<close>

interpretation agent_config: keyed_store "tbl_map ce_key" "tbl_put ce_key" "tbl_del ce_key" ce_key "uniq ce_key"
  by (rule keyed_store_table)

lemma upsert_config_entry_put:
  "upsert_config_entry e kv rows = Inr rows' \<longleftrightarrow>
     ce_key (config_entry_of e kv) \<noteq> [] \<and> rows' = tbl_put ce_key (config_entry_of e kv) rows"
proof -
  let ?r = "config_entry_of e kv"
  have "x\<lparr>ce_value := ce_value ?r, ce_updated_at := now e\<rparr> = ?r" if "ce_key x = ce_key ?r" for x
    using that by (cases x) (simp add: config_entry_of_def)
  then have "ins_or_update ce_key ?r (\<lambda>r. r\<lparr>ce_value := ce_value ?r, ce_updated_at := now e\<rparr>) rows =
      tbl_put ce_key ?r rows"
    by (auto simp: tbl_put_def ins_or_update_def upd_where_def)
  then show ?thesis by (auto simp: upsert_config_entry_def Let_def)
qed

lemma forE_config_puts:
  "forE (upsert_config_entry e) kvs rows = Inr rows' \<Longrightarrow>
   rows' = fold (tbl_put ce_key) (map (config_entry_of e) kvs) rows \<and>
   (\<forall>kv \<in> set kvs. ce_key (config_entry_of e kv) \<noteq> [])"
  by (induction kvs arbitrary: rows) (auto simp: upsert_config_entry_put)

lemma forE_config_dels:
  "forE delete_config_key ks rows = Inr rows' \<Longrightarrow> rows' = del_where (\<lambda>r. ce_key r \<in> set ks) rows"
proof (induction ks arbitrary: rows)
  case (Cons k ks)
  then have "rows' = del_where (\<lambda>r. ce_key r \<in> set ks) (del_where (\<lambda>r. ce_key r = k) rows)"
    by (auto simp: delete_config_key_def split: if_splits)
  then show ?case by (simp add: del_where_def conj_commute)
qed (simp add: del_where_def)

subsection \<open>Properties\<close>

definition config_rows :: "runtime_db \<Rightarrow> config_entry list" where
  "config_rows db = ensure_table (rd_config db)"

lemma tbl_map_del_keys: "uniq ce_key t \<Longrightarrow> tbl_map ce_key (del_where (\<lambda>r. ce_key r \<in> S) t) = (\<lambda>k. if k \<in> S then None else tbl_map ce_key t k)"
  by (auto simp: fun_eq_iff tbl_map_del_where split: option.splits dest: tbl_map_key)

text \<open>
  C36. The agent configuration is a map with last-write-wins: an upsert of several entries is the map update
  by all of them in order (keys stripped and cut to 128 characters, later entries over earlier ones), a
  deletion removes exactly the named keys, and neither touches any other key or any other table. Forgetting a chat removes
  exactly its two keys of the configuration, and touches neither settings nor audit log.
\<close>

lemma agent_config_refines_map:
  assumes "uniq ce_key (config_rows db)"
  shows "(apply_upsert_agent_config_entries e p db = Inr db' \<longrightarrow>
     (\<exists>kvs. pget p ''entries'' PNone = PDict kvs \<and>
        tbl_map ce_key (config_rows db') = tbl_map ce_key (config_rows db) ++
          map_of (rev (map (\<lambda>kv. (take 128 (strip (fst kv)), config_entry_of e kv)) kvs))) \<and>
     uniq ce_key (config_rows db') \<and> db'\<lparr>rd_config := rd_config db\<rparr> = db) \<and>
   (apply_delete_agent_config_entries e p db = Inr db' \<longrightarrow>
     (\<exists>ks. pget p ''keys'' PNone = PList ks \<and>
        tbl_map ce_key (config_rows db') = (\<lambda>k. if k \<in> (\<lambda>raw. take 128 (strip (pystr (por raw (PStr []))))) ` set ks
          then None else tbl_map ce_key (config_rows db) k)) \<and>
     uniq ce_key (config_rows db') \<and> db'\<lparr>rd_config := rd_config db\<rparr> = db) \<and>
   (apply_forget_chat_state e p db = Inr db' \<longrightarrow>
     tbl_map ce_key (config_rows db') = (\<lambda>k. if k \<in> (\<lambda>x. take 128 (chat_agent_config_key (opt_str p ''chat_id'' []) x)) ` {''last_audit'', ''context_fold_summary''}
       then None else tbl_map ce_key (config_rows db) k) \<and>
     uniq ce_key (config_rows db') \<and> rd_settings db' = rd_settings db \<and> rd_audit db' = rd_audit db)"
proof (intro conjI impI)
  assume h: "apply_upsert_agent_config_entries e p db = Inr db'"
  then obtain kvs rows where kvs: "por (pget p ''entries'' PNone) (PDict []) = PDict kvs" "kvs \<noteq> []"
      and run: "forE (upsert_config_entry e) kvs (config_rows db) = Inr rows"
      and db': "db' = db\<lparr>rd_config := Some rows\<rparr>"
    unfolding apply_upsert_agent_config_entries_def config_rows_def
    by (auto split: pyval.splits list.splits)
  have p: "pget p ''entries'' PNone = PDict kvs" using kvs by (auto simp: por_def split: if_splits)
  have rows: "rows = fold (tbl_put ce_key) (map (config_entry_of e) kvs) (config_rows db)"
    using forE_config_puts [OF run] by blast
  have c': "config_rows db' = rows" by (simp add: db' config_rows_def ensure_table_def)
  show "\<exists>kvs. pget p ''entries'' PNone = PDict kvs \<and>
        tbl_map ce_key (config_rows db') = tbl_map ce_key (config_rows db) ++
          map_of (rev (map (\<lambda>kv. (take 128 (strip (fst kv)), config_entry_of e kv)) kvs))"
    unfolding c' rows agent_config.get_fold_put [OF assms]
    using p by (auto simp: config_entry_of_def comp_def)
  show "uniq ce_key (config_rows db')" unfolding c' rows by (rule agent_config.fold_put [OF assms])
  show "db'\<lparr>rd_config := rd_config db\<rparr> = db" by (simp add: db')
next
  assume h: "apply_delete_agent_config_entries e p db = Inr db'"
  let ?key = "\<lambda>raw. take 128 (strip (pystr (por raw (PStr []))))"
  obtain ks rows where ks: "por (pget p ''keys'' PNone) (PList []) = PList ks" "ks \<noteq> []"
      and run: "forE delete_config_key (sort (remdups (map ?key ks))) (config_rows db) = Inr rows"
      and db': "db' = db\<lparr>rd_config := Some rows\<rparr>"
    using h unfolding apply_delete_agent_config_entries_def config_rows_def
    by (auto simp: Let_def split: pyval.splits list.splits)
  have p: "pget p ''keys'' PNone = PList ks" using ks by (auto simp: por_def split: if_splits)
  have rows: "rows = del_where (\<lambda>r. ce_key r \<in> ?key ` set ks) (config_rows db)"
    using forE_config_dels [OF run] by simp
  have c': "config_rows db' = rows" by (simp add: db' config_rows_def ensure_table_def)
  have "tbl_map ce_key rows = (\<lambda>k. if k \<in> ?key ` set ks then None else tbl_map ce_key (config_rows db) k)"
    unfolding rows by (rule tbl_map_del_keys [OF assms])
  with p c' show "\<exists>ks. pget p ''keys'' PNone = PList ks \<and>
        tbl_map ce_key (config_rows db') = (\<lambda>k. if k \<in> ?key ` set ks then None else tbl_map ce_key (config_rows db) k)"
    by blast
  show "uniq ce_key (config_rows db')" unfolding c' rows using assms by simp
  show "db'\<lparr>rd_config := rd_config db\<rparr> = db" by (simp add: db')
next
  let ?c = "opt_str p ''chat_id'' []" and ?key = "\<lambda>x. take 128 (chat_agent_config_key (opt_str p ''chat_id'' []) x)"
  assume h: "apply_forget_chat_state e p db = Inr db'"
  then have n: "(?c = []) = False" unfolding apply_forget_chat_state_def Let_def by (cases "?c = []") simp_all
  note f = h [unfolded apply_forget_chat_state_def Let_def n if_False list.map fold_simps sum.inject]
  have c: "config_rows db' = del_where (\<lambda>r. ce_key r \<in> ?key ` {''last_audit'', ''context_fold_summary''}) (config_rows db)"
    unfolding f [symmetric] config_rows_def
    by (simp add: ensure_table_def del_where_def conj_commute split: option.split)
  show "uniq ce_key (config_rows db')" unfolding c using assms by simp
  show "tbl_map ce_key (config_rows db') = (\<lambda>k. if k \<in> ?key ` {''last_audit'', ''context_fold_summary''} then None else tbl_map ce_key (config_rows db) k)"
    unfolding c by (rule tbl_map_del_keys [OF assms])
  show "rd_settings db' = rd_settings db" "rd_audit db' = rd_audit db" unfolding f [symmetric] by (simp_all split: option.split)
qed

lemma agent_config_refines_map_witness:
  "\<exists>db db'. apply_upsert_agent_config_entries env0
       [(''entries'', PDict [('' a '', PStr ''1''), (''b'', PInt 0), (''a'', PStr ''2'')])] db = Inr db' \<and>
     uniq ce_key (config_rows db') \<and>
     map_option ce_value (tbl_map ce_key (config_rows db') ''a'') = Some ''2''"
proof -
  let ?kvs = "[('' a '', PStr ''1''), (''b'', PInt 0), (''a'', PStr ''2'')]"
  let ?p = "[(''entries'', PDict ?kvs)]"
  let ?db = "\<lparr>rd_settings = [], rd_config = None, rd_audit = None, rd_telegram = None, rd_api = None\<rparr>"
  have u: "uniq ce_key (config_rows ?db)" by (simp add: config_rows_def ensure_table_def)
  have k: "strip '' a '' = ''a''" "strip ''b'' = ''b''" "strip ''a'' = ''a''" by code_simp+
  have "isl (apply_upsert_agent_config_entries env0 ?p ?db) = False"
    by (simp add: apply_upsert_agent_config_entries_def upsert_config_entry_def config_entry_of_def k por_def Let_def)
  then obtain d where d: "apply_upsert_agent_config_entries env0 ?p ?db = Inr d" by (rule isl_InrE)
  have m: "tbl_map ce_key (config_rows d) = tbl_map ce_key (config_rows ?db) ++
      map_of (rev (map (\<lambda>kv. (take 128 (strip (fst kv)), config_entry_of env0 kv)) ?kvs))"
    and ud: "uniq ce_key (config_rows d)"
    using agent_config_refines_map [OF u, of env0 ?p d] d by auto
  have "map_option ce_value (tbl_map ce_key (config_rows d) ''a'') = Some ''2''"
    by (simp add: m k map_add_def config_entry_of_def por_def)
  with d ud show ?thesis by blast
qed

text \<open>
  The audit log is append-only and idempotent: appending a task either adds one row at the end or, when
  the task is already logged, changes nothing, so a message delivered twice is logged once; a logged duration
  is never negative and the status is one of the four known ones.
\<close>

lemma task_audit_append_only:
  assumes "apply_append_task_audit e p db = Inr db'"
  shows "((\<exists>r. ensure_table (rd_audit db') = ensure_table (rd_audit db) @ [r] \<and> ta_task r = audit_task_id p \<and>
           0 \<le> ta_duration r \<and> ta_status r \<in> set task_audit_statuses \<and>
           \<not> has_key ta_task (audit_task_id p) (ensure_table (rd_audit db))) \<or>
         ensure_table (rd_audit db') = ensure_table (rd_audit db) \<and>
           has_key ta_task (audit_task_id p) (ensure_table (rd_audit db))) \<and>
    (\<exists>db2. apply_append_task_audit e p db' = Inr db2 \<and> rd_audit db2 = rd_audit db')"
proof -
  obtain r where r: "ta_task r = audit_task_id p" "0 \<le> ta_duration r" "ta_status r \<in> set task_audit_statuses"
      and run: "\<And>d. apply_append_task_audit e p d =
        Inr (d\<lparr>rd_audit := Some (ins_or_nothing ta_task r (ensure_table (rd_audit d)))\<rparr>)"
  proof -
    have st: "normalize_task_audit_status v \<in> set task_audit_statuses" for v
      by (simp add: normalize_task_audit_status_def Let_def task_audit_statuses_def)
    obtain d where g: "gint p ''duration_ms'' 0 = Inr d" and i: "sql_int32 (max 0 d) = Inr (max 0 d)"
        and t: "audit_task_id p \<noteq> []"
      using assms unfolding apply_append_task_audit_def by (auto simp: Let_def split: if_splits)
    show thesis
      by (rule that [of "\<lparr>ta_task = audit_task_id p,
            ta_tenant = str_or (take 128 (opt_str p ''tenant_id'' ''default'')) ''default'',
            ta_worker = take 64 (opt_str p ''worker_id'' []), ta_query = take 256 (gstr p ''query_prefix'' []),
            ta_status = normalize_task_audit_status (pget p ''status'' PNone), ta_duration = max 0 d,
            ta_created_at = now e, ta_plan = take 256 (gstr p ''plan_title'' [])\<rparr>"])
        (simp_all only: apply_append_task_audit_def g i Let_def bindE_simps t st task_audit.simps if_False max.cobounded1)
  qed
  have db': "rd_audit db' = Some (ins_or_nothing ta_task r (ensure_table (rd_audit db)))"
    using assms run by auto
  have "(\<exists>r. ensure_table (rd_audit db') = ensure_table (rd_audit db) @ [r] \<and> ta_task r = audit_task_id p \<and>
           0 \<le> ta_duration r \<and> ta_status r \<in> set task_audit_statuses \<and>
           \<not> has_key ta_task (audit_task_id p) (ensure_table (rd_audit db))) \<or>
         ensure_table (rd_audit db') = ensure_table (rd_audit db) \<and>
           has_key ta_task (audit_task_id p) (ensure_table (rd_audit db))"
    using r db' by (auto simp: ensure_table_def ins_or_nothing_def)
  moreover have "\<exists>db2. apply_append_task_audit e p db' = Inr db2 \<and> rd_audit db2 = rd_audit db'"
    using db' by (auto simp: run ensure_table_def ins_or_nothing_def has_key_iff)
  ultimately show ?thesis by blast
qed

lemma task_audit_append_only_witness:
  "\<exists>db1 db2. apply_append_task_audit env0 [(''task_id'', PStr ''t1''), (''duration_ms'', PInt (-4))]
       \<lparr>rd_settings = [], rd_config = None, rd_audit = None, rd_telegram = None, rd_api = None\<rparr> = Inr db1 \<and>
     map ta_duration (ensure_table (rd_audit db1)) = [0] \<and>
     apply_append_task_audit env0 [(''task_id'', PStr ''t1''), (''duration_ms'', PInt (-4))] db1 = Inr db2 \<and>
     rd_audit db2 = rd_audit db1"
proof -
  let ?p = "[(''task_id'', PStr ''t1''), (''duration_ms'', PInt (-4))]"
  let ?db = "\<lparr>rd_settings = [], rd_config = None, rd_audit = None, rd_telegram = None, rd_api = None\<rparr>"
  have "case apply_append_task_audit env0 ?p ?db of Inl _ \<Rightarrow> False
      | Inr d \<Rightarrow> map ta_duration (ensure_table (rd_audit d)) = [0]" by code_simp
  then obtain d where d: "apply_append_task_audit env0 ?p ?db = Inr d"
      "map ta_duration (ensure_table (rd_audit d)) = [0]" by (auto split: sum.splits)
  from task_audit_append_only [OF d(1)] obtain d2 where
    d2: "apply_append_task_audit env0 ?p d = Inr d2" "rd_audit d2 = rd_audit d" by blast
  show ?thesis by (intro exI conjI) (rule d d2)+
qed

end
