(* ===== verification/Workspace.thy ===== *)
theory Workspace
  imports Tables
begin

text \<open>
  Workspace projects, their members and their agents:
  \<open>packages/shared/src/duckclaw/write_handlers/workspace.py\<close> over \<open>admin_projects\<close>,
  \<open>admin_project_members\<close>, \<open>admin_project_agents\<close> and the worker catalog, which is read only here. The
  confirmation of a managed draft is not modelled.
\<close>

subsection \<open>State\<close>

record project =
  pr_id :: string
  pr_tenant :: string
  pr_owner :: string
  pr_name :: string
  pr_description :: string
  pr_status :: string
  pr_visibility :: string
  pr_active :: bool
  pr_created_at :: int
  pr_updated_at :: int

record member =
  pm_project :: string
  pm_email :: string
  pm_role :: string
  pm_assigned_by :: string
  pm_created_at :: int
  pm_updated_at :: int

record project_agent =
  pa_project :: string
  pa_worker :: string
  pa_role :: string
  pa_sort_order :: int
  pa_active :: bool
  pa_created_at :: int
  pa_updated_at :: int

record worker =
  wk_uid :: string
  wk_tenant :: string
  wk_owner :: string
  wk_worker_id :: string
  wk_display_name :: string
  wk_status :: string
  wk_active :: bool

record workspace =
  ws_projects :: "project list"
  ws_members :: "member list"
  ws_agents :: "project_agent list"
  ws_workers :: "worker list"

definition pm_pk :: "member \<Rightarrow> string \<times> string" where
  "pm_pk m = (pm_project m, pm_email m)"

definition pa_pk :: "project_agent \<Rightarrow> string \<times> string" where
  "pa_pk a = (pa_project a, pa_worker a)"

subsection \<open>Guards\<close>

definition require_project_exists :: "workspace \<Rightarrow> string \<Rightarrow> py_error + string" where
  "require_project_exists ws project_id = (case sel_one (\<lambda>p. pr_id p = project_id) (ws_projects ws) of
     None \<Rightarrow> Inl (ValueError (''Project not found: '' @ project_id))
   | Some p \<Rightarrow>
       if \<not> pr_active p \<or> strip (pr_status p) = ''archived''
       then Inl (ValueError (''Project is not active: '' @ project_id))
       else Inr (pr_tenant p))"

definition require_project_access ::
  "workspace \<Rightarrow> string \<Rightarrow> string \<Rightarrow> string \<Rightarrow> bool \<Rightarrow> py_error + string" where
  "require_project_access ws project_id tenant_id actor_email require_owner = (let
     actor = str_or (lower (strip (str_or actor_email ''system''))) ''system''
   in case sel_one (\<lambda>p. pr_id p = project_id \<and> pr_tenant p = tenant_id) (ws_projects ws) of
     None \<Rightarrow> Inl (ValueError (''Project not found: '' @ project_id))
   | Some p \<Rightarrow>
       if \<not> pr_active p \<or> strip (pr_status p) = ''archived''
       then Inl (ValueError (''Project is not active: '' @ project_id)) else
       let is_owner = (lower (strip (pr_owner p)) = actor);
           is_member = (sel_one (\<lambda>m. pm_project m = project_id \<and> lower (pm_email m) = lower actor)
             (ws_members ws) \<noteq> None)
       in
       if require_owner \<and> \<not> is_owner
       then Inl (ValueError (''Project owner required: '' @ project_id))
       else if \<not> require_owner \<and> \<not> (is_owner \<or> is_member)
       then Inl (ValueError (''Project access denied: '' @ project_id))
       else Inr (pr_tenant p))"

definition require_worker_exists :: "workspace \<Rightarrow> string \<Rightarrow> py_error + string" where
  "require_worker_exists ws worker_uid = (case sel_one (\<lambda>w. wk_uid w = worker_uid) (ws_workers ws) of
     None \<Rightarrow> Inl (ValueError (''Worker not found: '' @ worker_uid))
   | Some w \<Rightarrow> if \<not> wk_active w then Inl (ValueError (''Worker is not active: '' @ worker_uid))
       else Inr (wk_tenant w))"

text \<open>\<open>str(payload[k])\<close>, and \<open>str(payload.get("tenant_id") or _require_project_exists(...))\<close>.\<close>

definition need :: "payload \<Rightarrow> string \<Rightarrow> py_error + string" where
  "need p k = bindE (pitem p k) (\<lambda>v. Inr (pystr v))"

definition project_tenant_id :: "workspace \<Rightarrow> payload \<Rightarrow> string \<Rightarrow> py_error + string" where
  "project_tenant_id ws payload project_id = (let t = pget payload ''tenant_id'' PNone in
     if truthy t then Inr (pystr t) else require_project_exists ws project_id)"

definition actor_of :: "payload \<Rightarrow> string" where
  "actor_of payload = pystr (pget payload ''actor_email'' (PStr ''system''))"

definition worker_tenant_mismatch :: "string \<Rightarrow> string \<Rightarrow> py_error" where
  "worker_tenant_mismatch project_tenant worker_tenant =
     ValueError (''Worker tenant mismatch: project='' @ project_tenant @ '' worker='' @ worker_tenant)"

subsection \<open>Handlers\<close>

text \<open>One turn of the loop over \<open>agent_worker_uids\<close>; entries that are not non-blank strings are skipped.\<close>

fun create_project_agent ::
  "env \<Rightarrow> string \<Rightarrow> string \<Rightarrow> pyval \<Rightarrow> workspace \<Rightarrow> py_error + workspace" where
  "create_project_agent e project_id tenant_id (PStr s) ws = (let wuid = strip s in
     if wuid = [] then Inr ws else
     bindE (require_worker_exists ws wuid) (\<lambda>worker_tenant.
     if worker_tenant \<noteq> tenant_id then Inl (worker_tenant_mismatch tenant_id worker_tenant) else
     if sel_one (\<lambda>a. pa_project a = project_id \<and> pa_worker a = wuid) (ws_agents ws) \<noteq> None then Inr ws else
     bindE (ins_row pa_pk
       \<lparr>pa_project = project_id, pa_worker = wuid, pa_role = ''member'', pa_sort_order = 0,
        pa_active = True, pa_created_at = now e, pa_updated_at = now e\<rparr> (ws_agents ws))
     (\<lambda>agents. Inr (ws\<lparr>ws_agents := agents\<rparr>))))"
| "create_project_agent e project_id tenant_id _ ws = Inr ws"

definition apply_create_project :: "env \<Rightarrow> payload \<Rightarrow> workspace \<Rightarrow> py_error + workspace" where
  "apply_create_project e payload ws =
     bindE (need payload ''project_id'') (\<lambda>project_id.
     bindE (need payload ''name'') (\<lambda>name.
     let desc = pystr (pget payload ''description'' (PStr []));
         visibility = pystr (pget payload ''visibility'' (PStr ''private''))
     in bindE (project_tenant_id ws payload project_id) (\<lambda>tenant_id.
     let owner = actor_of payload;
         existing = sel_one (\<lambda>p. pr_id p = project_id) (ws_projects ws)
     in bindE
       (if existing \<noteq> None then
          Inr (ws\<lparr>ws_projects := upd_where (\<lambda>p. pr_id p = project_id)
            (\<lambda>p. p\<lparr>pr_name := name, pr_description := desc, pr_visibility := visibility,
                   pr_updated_at := now e\<rparr>) (ws_projects ws)\<rparr>)
        else
          bindE (ins_row pr_id
            \<lparr>pr_id = project_id, pr_tenant = tenant_id, pr_owner = owner, pr_name = name,
             pr_description = desc, pr_status = ''active'', pr_visibility = visibility, pr_active = True,
             pr_created_at = now e, pr_updated_at = now e\<rparr> (ws_projects ws)) (\<lambda>projects.
          Inr (ws\<lparr>ws_projects := projects,
            ws_members := ins_or_update pm_pk
              \<lparr>pm_project = project_id, pm_email = owner, pm_role = ''owner'', pm_assigned_by = owner,
               pm_created_at = now e, pm_updated_at = now e\<rparr>
              (\<lambda>m. m\<lparr>pm_role := ''owner'', pm_assigned_by := owner, pm_updated_at := now e\<rparr>)
              (ws_members ws)\<rparr>)))
       (\<lambda>ws. forE (create_project_agent e project_id tenant_id)
         (plist_or_empty (pget payload ''agent_worker_uids'' PNone)) ws))))"

definition apply_add_project_member :: "env \<Rightarrow> payload \<Rightarrow> workspace \<Rightarrow> py_error + workspace" where
  "apply_add_project_member e payload ws =
     bindE (need payload ''project_id'') (\<lambda>project_id.
     bindE (need payload ''member_email'') (\<lambda>member_email.
     let role = pystr (pget payload ''role'' (PStr ''member'')); assigned_by = actor_of payload in
     bindE (require_project_exists ws project_id) (\<lambda>_.
     if sel_one (\<lambda>m. pm_project m = project_id \<and> pm_email m = member_email) (ws_members ws) \<noteq> None then
       Inr (ws\<lparr>ws_members := upd_where (\<lambda>m. pm_project m = project_id \<and> pm_email m = member_email)
         (\<lambda>m. m\<lparr>pm_role := role, pm_updated_at := now e\<rparr>) (ws_members ws)\<rparr>)
     else
       bindE (ins_row pm_pk
         \<lparr>pm_project = project_id, pm_email = member_email, pm_role = role, pm_assigned_by = assigned_by,
          pm_created_at = now e, pm_updated_at = now e\<rparr> (ws_members ws))
       (\<lambda>members. Inr (ws\<lparr>ws_members := members\<rparr>)))))"

definition apply_assign_agent_to_project :: "env \<Rightarrow> payload \<Rightarrow> workspace \<Rightarrow> py_error + workspace" where
  "apply_assign_agent_to_project e payload ws =
     bindE (need payload ''project_id'') (\<lambda>project_id.
     bindE (need payload ''worker_uid'') (\<lambda>worker_uid.
     let role = pystr (pget payload ''role'' (PStr ''member'')) in
     bindE (pyint (pget payload ''sort_order'' (PInt 0))) (\<lambda>sort_order.
     bindE (project_tenant_id ws payload project_id) (\<lambda>tenant_id.
     bindE (require_project_access ws project_id tenant_id (actor_of payload) False) (\<lambda>project_tenant.
     bindE (require_worker_exists ws worker_uid) (\<lambda>worker_tenant.
     if worker_tenant \<noteq> project_tenant then Inl (worker_tenant_mismatch project_tenant worker_tenant) else
     bindE (sql_int32 sort_order) (\<lambda>sort_order.
     if sel_one (\<lambda>a. pa_project a = project_id \<and> pa_worker a = worker_uid) (ws_agents ws) \<noteq> None then
       Inr (ws\<lparr>ws_agents := upd_where (\<lambda>a. pa_project a = project_id \<and> pa_worker a = worker_uid)
         (\<lambda>a. a\<lparr>pa_role := role, pa_sort_order := sort_order, pa_active := True, pa_updated_at := now e\<rparr>)
         (ws_agents ws)\<rparr>)
     else
       bindE (ins_row pa_pk
         \<lparr>pa_project = project_id, pa_worker = worker_uid, pa_role = role, pa_sort_order = sort_order,
          pa_active = True, pa_created_at = now e, pa_updated_at = now e\<rparr> (ws_agents ws))
       (\<lambda>agents. Inr (ws\<lparr>ws_agents := agents\<rparr>)))))))))"

definition apply_set_project_status :: "env \<Rightarrow> payload \<Rightarrow> workspace \<Rightarrow> py_error + workspace" where
  "apply_set_project_status e payload ws =
     bindE (need payload ''project_id'') (\<lambda>project_id.
     bindE (project_tenant_id ws payload project_id) (\<lambda>tenant_id.
     let status = lower (strip (pystr (pget payload ''status'' (PStr [])))) in
     if status \<notin> {''active'', ''inactive''}
     then Inl (ValueError (''Invalid project status: '' @ status)) else
     bindE (require_project_access ws project_id tenant_id (actor_of payload) True) (\<lambda>_.
     Inr (ws\<lparr>ws_projects := upd_where (\<lambda>p. pr_id p = project_id \<and> pr_tenant p = tenant_id)
       (\<lambda>p. p\<lparr>pr_status := status, pr_active := True, pr_updated_at := now e\<rparr>) (ws_projects ws)\<rparr>))))"

definition apply_delete_project :: "env \<Rightarrow> payload \<Rightarrow> workspace \<Rightarrow> py_error + workspace" where
  "apply_delete_project e payload ws =
     bindE (need payload ''project_id'') (\<lambda>project_id.
     bindE (project_tenant_id ws payload project_id) (\<lambda>tenant_id.
     bindE (require_project_access ws project_id tenant_id (actor_of payload) True) (\<lambda>_.
     Inr (ws\<lparr>ws_agents := del_where (\<lambda>a. pa_project a = project_id) (ws_agents ws),
             ws_members := del_where (\<lambda>m. pm_project m = project_id) (ws_members ws),
             ws_projects := del_where (\<lambda>p. pr_id p = project_id \<and> pr_tenant p = tenant_id)
               (ws_projects ws)\<rparr>))))"

definition apply_detach_agent_from_project :: "env \<Rightarrow> payload \<Rightarrow> workspace \<Rightarrow> py_error + workspace" where
  "apply_detach_agent_from_project e payload ws =
     bindE (need payload ''project_id'') (\<lambda>project_id.
     bindE (need payload ''worker_uid'') (\<lambda>worker_uid.
     bindE (project_tenant_id ws payload project_id) (\<lambda>tenant_id.
     bindE (require_project_access ws project_id tenant_id (actor_of payload) False) (\<lambda>project_tenant.
     bindE (require_worker_exists ws worker_uid) (\<lambda>worker_tenant.
     if worker_tenant \<noteq> project_tenant then Inl (worker_tenant_mismatch project_tenant worker_tenant) else
     Inr (ws\<lparr>ws_agents := upd_where (\<lambda>a. pa_project a = project_id \<and> pa_worker a = worker_uid)
       (\<lambda>a. a\<lparr>pa_active := False, pa_updated_at := now e\<rparr>) (ws_agents ws)\<rparr>))))))"

subsection \<open>Integrity\<close>

definition project_of :: "workspace \<Rightarrow> string \<Rightarrow> string \<Rightarrow> bool" where
  "project_of ws project_id tenant \<longleftrightarrow> (\<exists>p \<in> set (ws_projects ws). pr_id p = project_id \<and> pr_tenant p = tenant)"

definition worker_of :: "workspace \<Rightarrow> string \<Rightarrow> string \<Rightarrow> bool" where
  "worker_of ws uid tenant \<longleftrightarrow> (\<exists>w \<in> set (ws_workers ws). wk_uid w = uid \<and> wk_tenant w = tenant)"

text \<open>
  Keys are unique, members belong to existing projects, and every agent of a project is an existing worker of
  the project's tenant.
\<close>

definition workspace_keys :: "workspace \<Rightarrow> bool" where
  "workspace_keys ws \<longleftrightarrow> uniq pr_id (ws_projects ws) \<and> uniq pm_pk (ws_members ws) \<and>
     uniq pa_pk (ws_agents ws) \<and> uniq wk_uid (ws_workers ws)"

definition agent_placed :: "workspace \<Rightarrow> project_agent \<Rightarrow> bool" where
  "agent_placed ws a \<longleftrightarrow> (\<exists>t. project_of ws (pa_project a) t \<and> worker_of ws (pa_worker a) t)"

definition member_placed :: "workspace \<Rightarrow> member \<Rightarrow> bool" where
  "member_placed ws m \<longleftrightarrow> (\<exists>t. project_of ws (pm_project m) t)"

definition workspace_ok :: "workspace \<Rightarrow> bool" where
  "workspace_ok ws \<longleftrightarrow> workspace_keys ws \<and> (\<forall>a \<in> set (ws_agents ws). agent_placed ws a) \<and>
     (\<forall>m \<in> set (ws_members ws). member_placed ws m)"

lemma require_project_exists_Inr:
  "require_project_exists ws pid = Inr t \<Longrightarrow>
   \<exists>p. sel_one (\<lambda>p. pr_id p = pid) (ws_projects ws) = Some p \<and> pr_tenant p = t"
  by (auto simp: require_project_exists_def split: option.splits if_splits)

lemma require_project_access_Inr:
  assumes "require_project_access ws pid t actor own = Inr t'"
  obtains p where "sel_one (\<lambda>p. pr_id p = pid \<and> pr_tenant p = t) (ws_projects ws) = Some p"
    "t' = t" "pr_active p" "strip (pr_status p) \<noteq> ''archived''"
    "own \<Longrightarrow> lower (strip (pr_owner p)) = str_or (lower (strip (str_or actor ''system''))) ''system''"
    "\<not> own \<Longrightarrow> lower (strip (pr_owner p)) = str_or (lower (strip (str_or actor ''system''))) ''system'' \<or>
       (\<exists>m \<in> set (ws_members ws). pm_project m = pid \<and>
          lower (pm_email m) = str_or (lower (strip (str_or actor ''system''))) ''system'')"
proof -
  let ?actor = "str_or (lower (strip (str_or actor ''system''))) ''system''"
  obtain p where p: "sel_one (\<lambda>p. pr_id p = pid \<and> pr_tenant p = t) (ws_projects ws) = Some p"
    using assms by (auto simp: require_project_access_def Let_def split: option.splits)
  have sys: "lower ''system'' = ''system''" by code_simp
  have low: "lower ?actor = ?actor" using sys by (simp add: str_or_def)
  have "pr_tenant p = t" using sel_one_Some [OF p] by simp
  with assms p low show thesis
    by (intro that [of p])
      (auto simp: require_project_access_def Let_def sel_one_None split: if_splits)
qed

lemma require_worker_exists_Inr:
  "require_worker_exists ws uid = Inr t \<Longrightarrow> worker_of ws uid t"
  by (auto simp: require_worker_exists_def worker_of_def split: option.splits if_splits dest!: sel_one_Some)

lemma project_of_sel: "sel_one (\<lambda>p. pr_id p = pid) (ws_projects ws) = Some p \<Longrightarrow> project_of ws pid (pr_tenant p)"
  by (auto simp: project_of_def dest: sel_one_Some)

lemma project_of_sel2:
  "sel_one (\<lambda>p. pr_id p = pid \<and> pr_tenant p = t) (ws_projects ws) = Some p \<Longrightarrow> project_of ws pid t"
  by (auto simp: project_of_def dest: sel_one_Some)

lemma pa_sel_None:
  "sel_one (\<lambda>a. pa_project a = pid \<and> pa_worker a = w) t = None \<longleftrightarrow> \<not> has_key pa_pk (pid, w) t"
  by (auto simp: sel_one_None has_key_iff pa_pk_def)

lemma pm_sel_None:
  "sel_one (\<lambda>m. pm_project m = pid \<and> pm_email m = w) t = None \<longleftrightarrow> \<not> has_key pm_pk (pid, w) t"
  by (auto simp: sel_one_None has_key_iff pm_pk_def)

text \<open>Changes that leave the projects' tenants and the workers alone.\<close>

lemma workspace_ok_agents:
  assumes ok: "workspace_ok ws" and k: "uniq pa_pk agents"
    and a: "\<And>a. a \<in> set agents \<Longrightarrow> (\<exists>b \<in> set (ws_agents ws). pa_pk b = pa_pk a) \<or> agent_placed ws a"
  shows "workspace_ok (ws\<lparr>ws_agents := agents\<rparr>)"
proof -
  have p: "project_of (ws\<lparr>ws_agents := agents\<rparr>) = project_of ws" "worker_of (ws\<lparr>ws_agents := agents\<rparr>) = worker_of ws"
    by (simp_all add: project_of_def worker_of_def fun_eq_iff)
  have "agent_placed ws a" if "a \<in> set agents" for a
  proof -
    from a [OF that] show ?thesis
    proof
      assume "\<exists>b \<in> set (ws_agents ws). pa_pk b = pa_pk a"
      then obtain b where b: "b \<in> set (ws_agents ws)" "pa_pk b = pa_pk a" by blast
      then have "agent_placed ws b" using ok by (simp add: workspace_ok_def)
      with b(2) show ?thesis by (simp add: agent_placed_def pa_pk_def)
    qed
  qed
  then show ?thesis using ok k
    by (simp add: workspace_ok_def workspace_keys_def agent_placed_def member_placed_def p)
qed

lemma workspace_ok_members:
  assumes ok: "workspace_ok ws" and k: "uniq pm_pk members"
    and m: "\<And>m. m \<in> set members \<Longrightarrow> (\<exists>b \<in> set (ws_members ws). pm_pk b = pm_pk m) \<or> member_placed ws m"
  shows "workspace_ok (ws\<lparr>ws_members := members\<rparr>)"
proof -
  have p: "project_of (ws\<lparr>ws_members := members\<rparr>) = project_of ws" "worker_of (ws\<lparr>ws_members := members\<rparr>) = worker_of ws"
    by (simp_all add: project_of_def worker_of_def fun_eq_iff)
  have "member_placed ws m" if "m \<in> set members" for m
  proof -
    from m [OF that] show ?thesis
    proof
      assume "\<exists>b \<in> set (ws_members ws). pm_pk b = pm_pk m"
      then obtain b where b: "b \<in> set (ws_members ws)" "pm_pk b = pm_pk m" by blast
      then have "member_placed ws b" using ok by (simp add: workspace_ok_def)
      with b(2) show ?thesis by (simp add: member_placed_def pm_pk_def)
    qed
  qed
  then show ?thesis using ok k
    by (simp add: workspace_ok_def workspace_keys_def agent_placed_def member_placed_def p)
qed

text \<open>Editing projects keeps every (id, tenant) pair.\<close>

lemma workspace_ok_projects:
  assumes ok: "workspace_ok ws" and k: "uniq pr_id projects"
    and keep: "\<And>pid t. project_of ws pid t \<Longrightarrow> \<exists>p \<in> set projects. pr_id p = pid \<and> pr_tenant p = t"
  shows "workspace_ok (ws\<lparr>ws_projects := projects\<rparr>)"
proof -
  have p: "project_of ws pid t \<Longrightarrow> project_of (ws\<lparr>ws_projects := projects\<rparr>) pid t" for pid t
    using keep by (simp add: project_of_def)
  have w: "worker_of (ws\<lparr>ws_projects := projects\<rparr>) = worker_of ws" by (simp add: worker_of_def fun_eq_iff)
  have "agent_placed (ws\<lparr>ws_projects := projects\<rparr>) a" if "agent_placed ws a" for a
    using that p w unfolding agent_placed_def by auto
  moreover have "member_placed (ws\<lparr>ws_projects := projects\<rparr>) m" if "member_placed ws m" for m
    using that p unfolding member_placed_def by auto
  ultimately show ?thesis using ok k by (simp add: workspace_ok_def workspace_keys_def)
qed

lemma project_edit_keep:
  assumes "project_of ws pid t" and "\<And>p. pr_id (f p) = pr_id p \<and> pr_tenant (f p) = pr_tenant p"
  shows "\<exists>p \<in> set (upd_where P f (ws_projects ws)). pr_id p = pid \<and> pr_tenant p = t"
proof -
  obtain p where p: "p \<in> set (ws_projects ws)" "pr_id p = pid" "pr_tenant p = t"
    using assms(1) by (auto simp: project_of_def)
  then show ?thesis using assms(2) [of p]
    by (intro bexI [of _ "if P p then f p else p"]) (auto simp: upd_where_def)
qed

lemma upd_agents_known:
  assumes "a \<in> set (upd_where P f (ws_agents ws))" and "\<And>a. pa_pk (f a) = pa_pk a"
  shows "\<exists>b \<in> set (ws_agents ws). pa_pk b = pa_pk a"
  using assms by (auto simp: upd_where_def)

lemma upd_members_known:
  assumes "m \<in> set (upd_where P f (ws_members ws))" and "\<And>m. pm_pk (f m) = pm_pk m"
  shows "\<exists>b \<in> set (ws_members ws). pm_pk b = pm_pk m"
  using assms by (auto simp: upd_where_def)

lemma workspace_ok_edit_agents:
  assumes "workspace_ok ws" "\<And>a. pa_pk (f a) = pa_pk a"
  shows "workspace_ok (ws\<lparr>ws_agents := upd_where P f (ws_agents ws)\<rparr>)"
proof (rule workspace_ok_agents [OF assms(1)])
  show "uniq pa_pk (upd_where P f (ws_agents ws))"
    using assms by (intro uniq_upd_where) (simp_all add: workspace_ok_def workspace_keys_def)
qed (use upd_agents_known [OF _ assms(2)] in blast)

lemma workspace_ok_add_agent:
  assumes "workspace_ok ws" "\<not> has_key pa_pk (pa_pk a) (ws_agents ws)" "agent_placed ws a"
  shows "workspace_ok (ws\<lparr>ws_agents := ws_agents ws @ [a]\<rparr>)"
  using assms by (intro workspace_ok_agents) (auto simp: workspace_ok_def workspace_keys_def)

lemma workspace_ok_edit_members:
  assumes "workspace_ok ws" "\<And>m. pm_pk (f m) = pm_pk m"
  shows "workspace_ok (ws\<lparr>ws_members := upd_where P f (ws_members ws)\<rparr>)"
proof (rule workspace_ok_members [OF assms(1)])
  show "uniq pm_pk (upd_where P f (ws_members ws))"
    using assms by (intro uniq_upd_where) (simp_all add: workspace_ok_def workspace_keys_def)
qed (use upd_members_known [OF _ assms(2)] in blast)

lemma workspace_ok_add_member:
  assumes "workspace_ok ws" "\<not> has_key pm_pk (pm_pk m) (ws_members ws)" "member_placed ws m"
  shows "workspace_ok (ws\<lparr>ws_members := ws_members ws @ [m]\<rparr>)"
  using assms by (intro workspace_ok_members) (auto simp: workspace_ok_def workspace_keys_def)

subsection \<open>Each handler keeps the workspace sound\<close>

lemma create_project_agent_ok:
  assumes ok: "workspace_ok ws" and p: "project_of ws pid t"
    and h: "create_project_agent e pid t v ws = Inr ws'"
  shows "workspace_ok ws' \<and> ws_projects ws' = ws_projects ws"
proof (cases v)
  case (PStr s)
  show ?thesis
  proof (cases "ws' = ws")
    case True
    with ok show ?thesis by simp
  next
    case False
    then have w: "require_worker_exists ws (strip s) = Inr t"
      and n: "\<not> has_key pa_pk (pid, strip s) (ws_agents ws)"
      and eq: "ws' = ws\<lparr>ws_agents := ws_agents ws @ [\<lparr>pa_project = pid, pa_worker = strip s,
          pa_role = ''member'', pa_sort_order = 0, pa_active = True, pa_created_at = now e,
          pa_updated_at = now e\<rparr>]\<rparr>"
      using h PStr by (auto simp: Let_def pa_pk_def pa_sel_None split: if_splits)
    have "agent_placed ws \<lparr>pa_project = pid, pa_worker = strip s, pa_role = ''member'',
        pa_sort_order = 0, pa_active = True, pa_created_at = now e, pa_updated_at = now e\<rparr>"
      using p require_worker_exists_Inr [OF w] by (auto simp: agent_placed_def)
    then show ?thesis using workspace_ok_add_agent [OF ok] n by (simp add: eq pa_pk_def)
  qed
qed (use h ok in auto)

lemma create_agents_ok:
  assumes "workspace_ok ws" "project_of ws pid t" "forE (create_project_agent e pid t) vs ws = Inr ws'"
  shows "workspace_ok ws'"
proof -
  have "workspace_ok ws' \<and> ws_projects ws' = ws_projects ws"
  proof (rule forE_invariant [where P = "\<lambda>w. workspace_ok w \<and> ws_projects w = ws_projects ws", OF _ _ assms(3)])
    fix v w w'
    assume "workspace_ok w \<and> ws_projects w = ws_projects ws" "create_project_agent e pid t v w = Inr w'"
    moreover from this have "project_of w pid t" using assms(2) by (simp add: project_of_def)
    ultimately show "workspace_ok w' \<and> ws_projects w' = ws_projects ws"
      using create_project_agent_ok by metis
  qed (use assms(1) in simp)
  then show ?thesis by simp
qed

text \<open>The tenant the command claims is the tenant of the project, when the project exists.\<close>

definition claims_own_tenant :: "payload \<Rightarrow> workspace \<Rightarrow> bool" where
  "claims_own_tenant p ws \<longleftrightarrow> (\<forall>q \<in> set (ws_projects ws). need p ''project_id'' = Inr (pr_id q) \<longrightarrow>
     project_tenant_id ws p (pr_id q) = Inr (pr_tenant q))"

lemma create_project_ok:
  assumes ok: "workspace_ok ws" and own: "claims_own_tenant p ws"
    and h: "apply_create_project e p ws = Inr ws'"
  shows "workspace_ok ws'"
proof -
  obtain pid name t where pid: "need p ''project_id'' = Inr pid" and name: "need p ''name'' = Inr name"
      and t: "project_tenant_id ws p pid = Inr t"
    using h unfolding apply_create_project_def by (auto simp: Let_def)
  let ?vs = "plist_or_empty (pget p ''agent_worker_uids'' PNone)"
  show ?thesis
  proof (cases "sel_one (\<lambda>q. pr_id q = pid) (ws_projects ws)")
    case (Some q)
    let ?f = "\<lambda>q. q\<lparr>pr_name := name, pr_description := pystr (pget p ''description'' (PStr [])),
      pr_visibility := pystr (pget p ''visibility'' (PStr ''private'')), pr_updated_at := now e\<rparr>"
    let ?ws = "ws\<lparr>ws_projects := upd_where (\<lambda>q. pr_id q = pid) ?f (ws_projects ws)\<rparr>"
    have run: "forE (create_project_agent e pid t) ?vs ?ws = Inr ws'"
      using h pid name t Some by (simp add: apply_create_project_def Let_def)
    have "pr_tenant q = t" using own pid t sel_one_Some [OF Some] by (auto simp: claims_own_tenant_def)
    then have pq: "project_of ws pid t" using project_of_sel [OF Some] by simp
    have "workspace_ok ?ws"
      using ok by (intro workspace_ok_projects project_edit_keep uniq_upd_where)
        (simp_all add: workspace_ok_def workspace_keys_def)
    moreover have "project_of ?ws pid t"
      using project_edit_keep [OF pq, of ?f "\<lambda>q. pr_id q = pid"] by (simp add: project_of_def)
    ultimately show ?thesis using run by (rule create_agents_ok)
  next
    case None
    let ?q = "\<lparr>pr_id = pid, pr_tenant = t, pr_owner = actor_of p, pr_name = name,
      pr_description = pystr (pget p ''description'' (PStr [])), pr_status = ''active'',
      pr_visibility = pystr (pget p ''visibility'' (PStr ''private'')), pr_active = True,
      pr_created_at = now e, pr_updated_at = now e\<rparr>"
    let ?f = "\<lambda>m. m\<lparr>pm_role := ''owner'', pm_assigned_by := actor_of p, pm_updated_at := now e\<rparr>"
    let ?m = "\<lparr>pm_project = pid, pm_email = actor_of p, pm_role = ''owner'', pm_assigned_by = actor_of p,
      pm_created_at = now e, pm_updated_at = now e\<rparr>"
    let ?ws1 = "ws\<lparr>ws_projects := ws_projects ws @ [?q]\<rparr>"
    let ?ws = "?ws1\<lparr>ws_members := ins_or_update pm_pk ?m ?f (ws_members ?ws1)\<rparr>"
    have fresh: "\<not> has_key pr_id pid (ws_projects ws)"
      using None by (auto simp: sel_one_None has_key_iff)
    have run: "forE (create_project_agent e pid t) ?vs ?ws = Inr ws'"
      using h pid name t None fresh by (simp add: apply_create_project_def Let_def ins_row_def)
    have ok1: "workspace_ok ?ws1"
      using ok fresh by (intro workspace_ok_projects) (auto simp: workspace_ok_def workspace_keys_def project_of_def)
    have pq: "project_of ?ws1 pid t" by (simp add: project_of_def)
    have "workspace_ok ?ws"
    proof (rule workspace_ok_members [OF ok1])
      show "uniq pm_pk (ins_or_update pm_pk ?m ?f (ws_members ?ws1))"
        using ok1 by (intro uniq_ins_or_update) (simp_all add: workspace_ok_def workspace_keys_def pm_pk_def)
      fix m assume "m \<in> set (ins_or_update pm_pk ?m ?f (ws_members ?ws1))"
      then show "(\<exists>b \<in> set (ws_members ?ws1). pm_pk b = pm_pk m) \<or> member_placed ?ws1 m"
        using pq upd_members_known [of m _ ?f ?ws1]
        by (auto simp: ins_or_update_def member_placed_def pm_pk_def split: if_splits)
    qed
    moreover have "project_of ?ws pid t" by (simp add: project_of_def)
    ultimately show ?thesis using run by (rule create_agents_ok)
  qed
qed

lemma add_project_member_ok:
  assumes ok: "workspace_ok ws" and h: "apply_add_project_member e p ws = Inr ws'"
  shows "workspace_ok ws'"
proof -
  obtain pid em t where pid: "need p ''project_id'' = Inr pid" and em: "need p ''member_email'' = Inr em"
      and t: "require_project_exists ws pid = Inr t"
    using h unfolding apply_add_project_member_def by (auto simp: Let_def)
  have "member_placed ws m" if "pm_project m = pid" for m
    using require_project_exists_Inr [OF t] project_of_sel that by (auto simp: member_placed_def)
  then show ?thesis
    using h pid em t ok unfolding apply_add_project_member_def
    by (auto simp: Let_def pm_sel_None pm_pk_def split: if_splits
        intro!: workspace_ok_edit_members workspace_ok_add_member)
qed

lemma assign_agent_ok:
  assumes ok: "workspace_ok ws" and h: "apply_assign_agent_to_project e p ws = Inr ws'"
  shows "workspace_ok ws'"
proof -
  obtain pid uid n t t' where pid: "need p ''project_id'' = Inr pid" and uid: "need p ''worker_uid'' = Inr uid"
      and n: "pyint (pget p ''sort_order'' (PInt 0)) = Inr n"
      and t: "project_tenant_id ws p pid = Inr t"
      and a: "require_project_access ws pid t (actor_of p) False = Inr t'"
      and w: "require_worker_exists ws uid = Inr t'"
    using h unfolding apply_assign_agent_to_project_def by (auto simp: Let_def split: if_splits)
  have "project_of ws pid t'"
    using a by (rule require_project_access_Inr) (auto intro: project_of_sel2)
  then have pl: "agent_placed ws a" if "pa_project a = pid" "pa_worker a = uid" for a
    using require_worker_exists_Inr [OF w] that by (auto simp: agent_placed_def)
  show ?thesis
    using h pid uid n t a w ok unfolding apply_assign_agent_to_project_def
    by (auto simp: Let_def pa_sel_None pa_pk_def split: if_splits
        intro!: workspace_ok_edit_agents workspace_ok_add_agent pl)
qed

lemma set_project_status_ok:
  assumes ok: "workspace_ok ws" and h: "apply_set_project_status e p ws = Inr ws'"
  shows "workspace_ok ws'"
proof -
  obtain P st where eq: "ws' = ws\<lparr>ws_projects := upd_where P
      (\<lambda>p. p\<lparr>pr_status := st, pr_active := True, pr_updated_at := now e\<rparr>) (ws_projects ws)\<rparr>"
    using h unfolding apply_set_project_status_def by (auto simp: Let_def split: if_splits)
  show ?thesis unfolding eq
    using ok by (intro workspace_ok_projects project_edit_keep uniq_upd_where)
      (simp_all add: workspace_ok_def workspace_keys_def)
qed

lemma detach_agent_ok:
  assumes ok: "workspace_ok ws" and h: "apply_detach_agent_from_project e p ws = Inr ws'"
  shows "workspace_ok ws'"
proof -
  obtain P where "ws' = ws\<lparr>ws_agents := upd_where P (\<lambda>a. a\<lparr>pa_active := False, pa_updated_at := now e\<rparr>)
      (ws_agents ws)\<rparr>"
    using h unfolding apply_detach_agent_from_project_def by (auto split: if_splits)
  then show ?thesis using workspace_ok_edit_agents [OF ok] by (simp add: pa_pk_def)
qed

lemma delete_project_ok:
  assumes ok: "workspace_ok ws" and h: "apply_delete_project e p ws = Inr ws'"
  shows "workspace_ok ws'"
proof -
  obtain pid t where eq: "ws' = ws\<lparr>ws_agents := del_where (\<lambda>a. pa_project a = pid) (ws_agents ws),
      ws_members := del_where (\<lambda>m. pm_project m = pid) (ws_members ws),
      ws_projects := del_where (\<lambda>p. pr_id p = pid \<and> pr_tenant p = t) (ws_projects ws)\<rparr>"
    using h unfolding apply_delete_project_def by auto
  have p: "project_of ws x u \<Longrightarrow> x \<noteq> pid \<Longrightarrow> project_of ws' x u" for x u
    by (auto simp: project_of_def eq)
  have w: "worker_of ws' = worker_of ws" by (simp add: worker_of_def eq fun_eq_iff)
  have "agent_placed ws' a" if "agent_placed ws a" "pa_project a \<noteq> pid" for a
    using that p w unfolding agent_placed_def by auto
  moreover have "member_placed ws' m" if "member_placed ws m" "pm_project m \<noteq> pid" for m
    using that p unfolding member_placed_def by auto
  ultimately show ?thesis using ok by (simp add: workspace_ok_def workspace_keys_def eq)
qed

definition workspace_handlers :: "(env \<Rightarrow> payload \<Rightarrow> workspace \<Rightarrow> py_error + workspace) set" where
  "workspace_handlers = {apply_create_project, apply_add_project_member, apply_assign_agent_to_project,
     apply_set_project_status, apply_delete_project, apply_detach_agent_from_project}"

subsection \<open>Who may change a project\<close>

definition guarded_handlers :: "(env \<Rightarrow> payload \<Rightarrow> workspace \<Rightarrow> py_error + workspace) set" where
  "guarded_handlers = {apply_set_project_status, apply_delete_project, apply_assign_agent_to_project,
     apply_detach_agent_from_project}"

definition project_actor :: "payload \<Rightarrow> string" where
  "project_actor p = str_or (lower (strip (str_or (actor_of p) ''system''))) ''system''"

definition is_member :: "workspace \<Rightarrow> string \<Rightarrow> string \<Rightarrow> bool" where
  "is_member ws pid actor \<longleftrightarrow> (\<exists>m \<in> set (ws_members ws). pm_project m = pid \<and> lower (pm_email m) = actor)"

lemma require_project_access_cases:
  assumes "require_project_access ws pid t (actor_of p) own = Inr t'"
  shows "\<exists>q \<in> set (ws_projects ws). pr_id q = pid \<and> pr_tenant q = t \<and> pr_active q \<and>
    strip (pr_status q) \<noteq> ''archived'' \<and>
    (lower (strip (pr_owner q)) = project_actor p \<or> \<not> own \<and> is_member ws pid (project_actor p))"
  using assms
proof (rule require_project_access_Inr, goal_cases)
  case (1 q)
  then show ?case using sel_one_Some [OF 1(1)]
    by (intro bexI [of _ q]) (cases own; auto simp: project_actor_def is_member_def)+
qed

text \<open>Only rows of one project differ.\<close>

definition project_local :: "string \<Rightarrow> workspace \<Rightarrow> workspace \<Rightarrow> bool" where
  "project_local pid ws ws' \<longleftrightarrow>
     outside (\<lambda>q. pr_id q = pid) (ws_projects ws') = outside (\<lambda>q. pr_id q = pid) (ws_projects ws) \<and>
     outside (\<lambda>a. pa_project a = pid) (ws_agents ws') = outside (\<lambda>a. pa_project a = pid) (ws_agents ws) \<and>
     outside (\<lambda>m. pm_project m = pid) (ws_members ws') = outside (\<lambda>m. pm_project m = pid) (ws_members ws)"

definition passes_guard :: "payload \<Rightarrow> workspace \<Rightarrow> string \<Rightarrow> bool \<Rightarrow> bool" where
  "passes_guard p ws pid own \<longleftrightarrow> (\<exists>t t'. need p ''project_id'' = Inr pid \<and> project_tenant_id ws p pid = Inr t \<and>
     require_project_access ws pid t (actor_of p) own = Inr t')"

lemma set_status_guarded:
  assumes "apply_set_project_status e p ws = Inr ws'"
  shows "\<exists>pid. passes_guard p ws pid True \<and> project_local pid ws ws'"
proof -
  obtain pid t t' st where "need p ''project_id'' = Inr pid" "project_tenant_id ws p pid = Inr t"
      "require_project_access ws pid t (actor_of p) True = Inr t'"
      "ws' = ws\<lparr>ws_projects := upd_where (\<lambda>p. pr_id p = pid \<and> pr_tenant p = t)
        (\<lambda>p. p\<lparr>pr_status := st, pr_active := True, pr_updated_at := now e\<rparr>) (ws_projects ws)\<rparr>"
    using assms unfolding apply_set_project_status_def by (auto simp: Let_def split: if_splits)
  then show ?thesis
    by (intro exI [of _ pid]) (auto simp: passes_guard_def project_local_def intro!: outside_upd_where)
qed

lemma delete_project_guarded:
  assumes "apply_delete_project e p ws = Inr ws'"
  shows "\<exists>pid. passes_guard p ws pid True \<and> project_local pid ws ws'"
proof -
  obtain pid t t' where "need p ''project_id'' = Inr pid" "project_tenant_id ws p pid = Inr t"
      "require_project_access ws pid t (actor_of p) True = Inr t'"
      "ws' = ws\<lparr>ws_agents := del_where (\<lambda>a. pa_project a = pid) (ws_agents ws),
         ws_members := del_where (\<lambda>m. pm_project m = pid) (ws_members ws),
         ws_projects := del_where (\<lambda>p. pr_id p = pid \<and> pr_tenant p = t) (ws_projects ws)\<rparr>"
    using assms unfolding apply_delete_project_def by auto
  then show ?thesis
    by (intro exI [of _ pid]) (auto simp: passes_guard_def project_local_def intro!: outside_del_where)
qed

lemma assign_agent_guarded:
  assumes "apply_assign_agent_to_project e p ws = Inr ws'"
  shows "\<exists>pid. passes_guard p ws pid False \<and> project_local pid ws ws'"
proof -
  obtain pid uid t t' n where g: "need p ''project_id'' = Inr pid" "need p ''worker_uid'' = Inr uid"
      "pyint (pget p ''sort_order'' (PInt 0)) = Inr n" "project_tenant_id ws p pid = Inr t"
      "require_project_access ws pid t (actor_of p) False = Inr t'" "require_worker_exists ws uid = Inr t'"
    using assms unfolding apply_assign_agent_to_project_def by (auto simp: Let_def split: if_splits)
  then have "passes_guard p ws pid False" by (auto simp: passes_guard_def)
  moreover have "project_local pid ws ws'"
    using assms g unfolding apply_assign_agent_to_project_def project_local_def
    by (auto simp: Let_def split: if_splits intro!: outside_upd_where)
  ultimately show ?thesis by blast
qed

lemma detach_agent_guarded:
  assumes "apply_detach_agent_from_project e p ws = Inr ws'"
  shows "\<exists>pid. passes_guard p ws pid False \<and> project_local pid ws ws'"
proof -
  obtain pid uid t t' where "need p ''project_id'' = Inr pid" "project_tenant_id ws p pid = Inr t"
      "require_project_access ws pid t (actor_of p) False = Inr t'" "need p ''worker_uid'' = Inr uid"
      "ws' = ws\<lparr>ws_agents := upd_where (\<lambda>a. pa_project a = pid \<and> pa_worker a = uid)
         (\<lambda>a. a\<lparr>pa_active := False, pa_updated_at := now e\<rparr>) (ws_agents ws)\<rparr>"
    using assms unfolding apply_detach_agent_from_project_def by (auto split: if_splits)
  then show ?thesis
    by (intro exI [of _ pid]) (auto simp: passes_guard_def project_local_def intro!: outside_upd_where)
qed

lemma passes_guard_project:
  assumes "passes_guard p ws pid own"
  shows "\<exists>q \<in> set (ws_projects ws). pr_id q = pid \<and> pr_active q \<and> strip (pr_status q) \<noteq> ''archived'' \<and>
    (lower (strip (pr_owner q)) = project_actor p \<or> \<not> own \<and> is_member ws pid (project_actor p))"
  using assms require_project_access_cases unfolding passes_guard_def by blast

text \<open>
  Integrity: whatever a workspace command does, project, member, agent and worker keys stay unique, every
  member row belongs to an existing project and every agent of a project is a worker of the project's own
  tenant. Creating a project needs one more thing, that the tenant the command claims for an id that already
  exists is the tenant of that project; the handler itself does not check it.
\<close>

lemma workspace_integrity:
  assumes "workspace_ok ws" and "h \<in> workspace_handlers"
    and "h = apply_create_project \<longrightarrow> claims_own_tenant p ws" and "h e p ws = Inr ws'"
  shows "workspace_ok ws'"
proof -
  note keep = add_project_member_ok assign_agent_ok set_project_status_ok delete_project_ok detach_agent_ok
  show ?thesis
    using assms(2) create_project_ok [OF assms(1) mp [OF assms(3)]] keep [OF assms(1)] assms(4)
    unfolding workspace_handlers_def by (elim insertE emptyE) (hypsubst, blast)+
qed

definition ws_demo :: workspace where
  "ws_demo = \<lparr>ws_projects = [\<lparr>pr_id = ''p1'', pr_tenant = ''t'', pr_owner = ''a@x'', pr_name = ''One'',
       pr_description = [], pr_status = ''active'', pr_visibility = ''private'', pr_active = True,
       pr_created_at = 1, pr_updated_at = 1\<rparr>],
     ws_members = [\<lparr>pm_project = ''p1'', pm_email = ''a@x'', pm_role = ''owner'', pm_assigned_by = ''a@x'',
       pm_created_at = 1, pm_updated_at = 1\<rparr>],
     ws_agents = [],
     ws_workers = [\<lparr>wk_uid = ''w1'', wk_tenant = ''t'', wk_owner = ''a@x'', wk_worker_id = ''w1'',
       wk_display_name = ''W'', wk_status = ''active'', wk_active = True\<rparr>]\<rparr>"

lemma ws_demo_ok: "workspace_ok ws_demo"
  by (auto simp: ws_demo_def workspace_ok_def workspace_keys_def uniq_def member_placed_def project_of_def)

lemma workspace_integrity_witness:
  "\<exists>ws'. apply_create_project env0 [(''project_id'', PStr ''p2''), (''name'', PStr ''Two''),
       (''tenant_id'', PStr ''t''), (''agent_worker_uids'', PList [PStr ''w1''])] ws_demo = Inr ws' \<and>
     workspace_ok ws' \<and> map pa_pk (ws_agents ws') = [(''p2'', ''w1'')]"
proof -
  let ?p = "[(''project_id'', PStr ''p2''), (''name'', PStr ''Two''), (''tenant_id'', PStr ''t''),
    (''agent_worker_uids'', PList [PStr ''w1''])]"
  have "case apply_create_project env0 ?p ws_demo of Inl _ \<Rightarrow> False
      | Inr ws \<Rightarrow> map pa_pk (ws_agents ws) = [(''p2'', ''w1'')]" by code_simp
  then obtain w where w: "apply_create_project env0 ?p ws_demo = Inr w"
      "map pa_pk (ws_agents w) = [(''p2'', ''w1'')]"
    by (auto split: sum.splits)
  have c: "claims_own_tenant ?p ws_demo" by (simp add: claims_own_tenant_def ws_demo_def need_def pitem_def)
  have "apply_create_project \<in> workspace_handlers" by (simp add: workspace_handlers_def)
  from workspace_integrity [OF ws_demo_ok this impI w(1)] c have "workspace_ok w" by this
  with w show ?thesis by (intro exI conjI)
qed

text \<open>
  Authorization: when a command that changes a project's status, deletes it, or attaches or detaches an
  agent succeeds, the project it names exists, is active and not archived, and its actor owns the project
  (for the agent commands, owns it or is a member); and no row of another project changed.
\<close>

lemma workspace_authorization:
  assumes "h \<in> guarded_handlers" and "h e p ws = Inr ws'"
  shows "\<exists>q \<in> set (ws_projects ws). need p ''project_id'' = Inr (pr_id q) \<and> pr_active q \<and>
    strip (pr_status q) \<noteq> ''archived'' \<and> project_local (pr_id q) ws ws' \<and>
    (lower (strip (pr_owner q)) = project_actor p \<or>
     h \<in> {apply_assign_agent_to_project, apply_detach_agent_from_project} \<and>
     is_member ws (pr_id q) (project_actor p))"
proof -
  obtain pid own where g: "passes_guard p ws pid own" "project_local pid ws ws'"
    and o: "own \<or> h \<in> {apply_assign_agent_to_project, apply_detach_agent_from_project}"
    using assms set_status_guarded delete_project_guarded assign_agent_guarded detach_agent_guarded
    unfolding guarded_handlers_def by blast
  obtain q where "q \<in> set (ws_projects ws)" "pr_id q = pid" "pr_active q" "strip (pr_status q) \<noteq> ''archived''"
      "lower (strip (pr_owner q)) = project_actor p \<or> \<not> own \<and> is_member ws pid (project_actor p)"
    using passes_guard_project [OF g(1)] by blast
  then show ?thesis using g o by (intro bexI [of _ q]) (auto simp: passes_guard_def)
qed

lemma workspace_authorization_witness:
  "\<exists>ws'. apply_delete_project env0 [(''project_id'', PStr ''p1''), (''actor_email'', PStr ''A@x'')] ws_demo = Inr ws' \<and>
     ws_projects ws' = [] \<and>
     (\<exists>q \<in> set (ws_projects ws_demo). lower (strip (pr_owner q)) =
        project_actor [(''project_id'', PStr ''p1''), (''actor_email'', PStr ''A@x'')])"
proof -
  let ?p = "[(''project_id'', PStr ''p1''), (''actor_email'', PStr ''A@x'')]"
  have "case apply_delete_project env0 ?p ws_demo of Inl _ \<Rightarrow> False | Inr ws \<Rightarrow> ws_projects ws = []" by code_simp
  then obtain w where w: "apply_delete_project env0 ?p ws_demo = Inr w" "ws_projects w = []"
    by (auto split: sum.splits)
  have "apply_delete_project \<in> guarded_handlers" by (simp add: guarded_handlers_def)
  from workspace_authorization [OF this w(1)] have "\<exists>q \<in> set (ws_projects ws_demo). pr_id q = ''p1''"
    by (auto simp: need_def pitem_def)
  moreover have "\<forall>q \<in> set (ws_projects ws_demo). lower (strip (pr_owner q)) = project_actor ?p" by code_simp
  ultimately show ?thesis using w by blast
qed

text \<open>
  The guard that is missing: a create command naming an id that exists, in whatever tenant and whoever
  owns it, succeeds and rewrites that project's name, description and visibility, keeping its owner.
\<close>

lemma create_project_overwrites:
  assumes "q \<in> set (ws_projects ws)" and "need p ''project_id'' = Inr (pr_id q)"
    and "need p ''name'' = Inr name" and "truthy (pget p ''tenant_id'' PNone)"
    and "pget p ''agent_worker_uids'' PNone = PNone"
  shows "\<exists>ws'. apply_create_project e p ws = Inr ws' \<and> (\<exists>r \<in> set (ws_projects ws'). pr_id r = pr_id q \<and>
    pr_tenant r = pr_tenant q \<and> pr_owner r = pr_owner q \<and> pr_name r = name)"
proof -
  let ?f = "\<lambda>r. r\<lparr>pr_name := name, pr_description := pystr (pget p ''description'' (PStr [])),
    pr_visibility := pystr (pget p ''visibility'' (PStr ''private'')), pr_updated_at := now e\<rparr>"
  let ?ps = "upd_where (\<lambda>r. pr_id r = pr_id q) ?f (ws_projects ws)"
  have "sel_one (\<lambda>r. pr_id r = pr_id q) (ws_projects ws) \<noteq> None"
    using assms(1) by (auto simp: sel_one_None)
  then have "apply_create_project e p ws = Inr (ws\<lparr>ws_projects := ?ps\<rparr>)"
    using assms by (simp add: apply_create_project_def project_tenant_id_def Let_def)
  moreover have "?f q \<in> set ?ps"
    using assms(1) unfolding set_upd_where by (intro image_eqI [of _ _ q]) simp_all
  ultimately show ?thesis
    by (intro exI [of _ "ws\<lparr>ws_projects := ?ps\<rparr>"] conjI bexI [of _ "?f q"]) (assumption | simp)+
qed

lemma create_project_overwrites_witness:
  "\<exists>ws'. apply_create_project env0 [(''project_id'', PStr ''p1''), (''name'', PStr ''Mine''),
       (''tenant_id'', PStr ''other''), (''actor_email'', PStr ''eve@y'')] ws_demo = Inr ws' \<and>
     (\<exists>r \<in> set (ws_projects ws'). pr_id r = ''p1'' \<and> pr_tenant r = ''t'' \<and> pr_name r = ''Mine'')"
proof -
  let ?q = "\<lparr>pr_id = ''p1'', pr_tenant = ''t'', pr_owner = ''a@x'', pr_name = ''One'',
       pr_description = [], pr_status = ''active'', pr_visibility = ''private'', pr_active = True,
       pr_created_at = 1, pr_updated_at = 1\<rparr>"
  have "?q \<in> set (ws_projects ws_demo)" by (simp add: ws_demo_def)
  from create_project_overwrites [OF this, of "[(''project_id'', PStr ''p1''), (''name'', PStr ''Mine''),
       (''tenant_id'', PStr ''other''), (''actor_email'', PStr ''eve@y'')]" "''Mine''" env0]
  show ?thesis by (auto simp: need_def pitem_def pget_def)
qed

end
