(* ===== verification/CommandRegistry.thy ===== *)
theory CommandRegistry
  imports PyVal
begin

text \<open>
  The registry of typed write commands (\<open>packages/shared/src/duckclaw/write_handlers/registry.py\<close>), its
  dispatcher (\<open>write_command_handlers.py\<close>) and the success detail shown to the console
  (\<open>write_task_detail.py\<close>). A handler works on the contents \<open>'d\<close> of a database inside the caller's
  transaction; it may add keys to its payload.
\<close>

type_synonym 'd handler = "payload \<Rightarrow> 'd \<Rightarrow> py_error + 'd \<times> payload"
type_synonym 'd handlers = "(string \<times> 'd handler) list"

definition register_handler :: "string \<Rightarrow> 'd handler \<Rightarrow> 'd handlers \<Rightarrow> py_error + 'd handlers" where
  "register_handler command_type handler hs = (let key = strip command_type in
     if key = [] then Inl (ValueError ''command_type required'')
     else Inr (AList.update key handler hs))"

definition dispatch_command :: "'d handlers \<Rightarrow> 'd handler" where
  "dispatch_command hs payload d = (let command_type = strip (gstr payload ''command_type'' []) in
     if command_type = [] then Inl (ValueError ''command_type required'')
     else case map_of hs command_type of
       None \<Rightarrow> Inl (ValueError (''Unknown command_type: '' @ command_type))
     | Some handler \<Rightarrow> handler payload d)"

fun list_len :: "pyval \<Rightarrow> int" where
  "list_len (PList xs) = int (length xs)"
| "list_len _ = 0"

definition format_write_task_success_detail :: "string \<Rightarrow> payload \<Rightarrow> string option" where
  "format_write_task_success_detail command_type payload = (let ctype = strip command_type in
     case (ctype = ''sync_catalog_prompts'', pget payload ''_sync_result'' PNone) of
       (True, PDict result) \<Rightarrow>
         Some (''synced='' @ int_str (list_len (pget result ''synced'' PNone)) @
               '', skipped='' @ int_str (list_len (pget result ''skipped'' PNone)) @
               '', failed='' @ int_str (list_len (pget result ''failed'' PNone)))
     | _ \<Rightarrow> if ctype = ''restore_framework_policy_pack'' then
         (case pget payload ''_applied'' PNone of
            PList applied \<Rightarrow> Some (''applied='' @ int_str (int (length applied)))
          | _ \<Rightarrow> None)
       else None)"

text \<open>A registered command is dispatched to the handler registered last, whatever else was registered.\<close>

lemma dispatch_registered:
  assumes "register_handler ct h hs = Inr hs'" and "strip (gstr p ''command_type'' []) = strip ct"
  shows "dispatch_command hs' p d = h p d"
  using assms by (auto simp: register_handler_def dispatch_command_def Let_def update_conv' split: if_splits)

lemma dispatch_other:
  assumes "register_handler ct h hs = Inr hs'" and "strip (gstr p ''command_type'' []) \<noteq> strip ct"
  shows "dispatch_command hs' p d = dispatch_command hs p d"
  using assms by (auto simp: register_handler_def dispatch_command_def Let_def update_conv' split: if_splits)

end
