(* ===== verification/ReliableQueue.thy ===== *)
theory ReliableQueue
  imports PyVal "HOL-Library.Multiset" "HOL-Library.Product_Lexorder"
begin

text \<open>
  The db-writer's reliable queues (\<open>services/db-writer/db_writer_ops.py\<close>): messages move from a Redis list to
  its \<open>:processing\<close> list while they are handled, each under a lease. The Redis commands the code uses are
  operations on \<open>redis\<close>; a queue with its consumer, the reclaimer of expired leases and the crashes of the
  process is a step relation with one step per Redis command, so every interleaving at the awaits is a run.
\<close>

subsection \<open>Redis\<close>

record redis =
  rq_lists :: "string \<Rightarrow> string list"
  rq_leases :: "string \<Rightarrow> (string \<times> int) list"
  rq_metrics :: "string \<Rightarrow> int"

definition lpush :: "string \<Rightarrow> string \<Rightarrow> redis \<Rightarrow> redis" where
  "lpush k m r = r\<lparr>rq_lists := (rq_lists r)(k := m # rq_lists r k)\<rparr>"

definition rpop :: "string \<Rightarrow> redis \<Rightarrow> string option \<times> redis" where
  "rpop k r = (case rq_lists r k of
     [] \<Rightarrow> (None, r)
   | xs \<Rightarrow> (Some (last xs), r\<lparr>rq_lists := (rq_lists r)(k := butlast xs)\<rparr>))"

definition brpoplpush :: "string \<Rightarrow> string \<Rightarrow> redis \<Rightarrow> string option \<times> redis" where
  "brpoplpush src dst r = (case rpop src r of
     (None, r) \<Rightarrow> (None, r)
   | (Some m, r) \<Rightarrow> (Some m, lpush dst m r))"

text \<open>\<open>LREM key 1 value\<close>: the first occurrence from the head, with the number of removed elements.\<close>

definition lrem :: "string \<Rightarrow> string \<Rightarrow> redis \<Rightarrow> nat \<times> redis" where
  "lrem k m r = (if m \<in> set (rq_lists r k) then 1 else 0,
     r\<lparr>rq_lists := (rq_lists r)(k := remove1 m (rq_lists r k))\<rparr>)"

definition zrem :: "string \<Rightarrow> string \<Rightarrow> redis \<Rightarrow> redis" where
  "zrem k m r = r\<lparr>rq_leases := (rq_leases r)(k := filter (\<lambda>(x, _). x \<noteq> m) (rq_leases r k))\<rparr>"

definition zadd :: "string \<Rightarrow> string \<Rightarrow> int \<Rightarrow> redis \<Rightarrow> redis" where
  "zadd k m score r = r\<lparr>rq_leases := (rq_leases r)(k := AList.update m score (rq_leases r k))\<rparr>"

definition zrangebyscore :: "string \<Rightarrow> int \<Rightarrow> int \<Rightarrow> redis \<Rightarrow> string list" where
  "zrangebyscore k lo hi r = map fst (sort_key (\<lambda>(m, score). (score, m))
     (filter (\<lambda>(_, score). lo \<le> score \<and> score \<le> hi) (rq_leases r k)))"

definition incrby :: "string \<Rightarrow> int \<Rightarrow> redis \<Rightarrow> redis" where
  "incrby k n r = r\<lparr>rq_metrics := (rq_metrics r)(k := rq_metrics r k + n)\<rparr>"

subsection \<open>The operations of the queue\<close>

definition is_duckdb_lock_error :: "string \<Rightarrow> bool" where
  "is_duckdb_lock_error text = (let msg = lower text in contains ''lock'' msg \<or> contains ''conflicting'' msg)"

definition processing_queue_key :: "string \<Rightarrow> string" where
  "processing_queue_key source_queue = rstrip source_queue @ '':processing''"

definition processing_lease_key :: "string \<Rightarrow> string" where
  "processing_lease_key source_queue = ''db_writer:processing:lease:'' @ rstrip source_queue"

definition push_dlq :: "int \<Rightarrow> string \<Rightarrow> string \<Rightarrow> string \<Rightarrow> string \<Rightarrow> redis \<Rightarrow> redis" where
  "push_dlq ts source_queue message error handler r = (let
     payload = [(''source_queue'', PStr source_queue), (''message'', PStr message),
       (''error'', PStr (take 2000 error)), (''ts'', PInt ts)];
     payload = (if handler = [] then payload else payload @ [(''handler'', PStr handler)])
   in lpush (rstrip source_queue @ '':dlq'') (json_dumps (PDict payload)) r)"

definition record_metric :: "string \<Rightarrow> int \<Rightarrow> redis \<Rightarrow> redis" where
  "record_metric name delta r = incrby (''db_writer:metric:'' @ name) delta r"

lemma processing_key_differs [simp]: "processing_queue_key q \<noteq> q" "q \<noteq> processing_queue_key q"
proof -
  have e: "rstrip (x @ '':processing'') = x @ '':processing''" for x
    by (simp add: rstrip_def is_space_def Let_def)
  show "processing_queue_key q \<noteq> q"
    using e [of "rstrip q"] by (auto simp: processing_queue_key_def)
  then show "q \<noteq> processing_queue_key q" by simp
qed

text \<open>The loop that returns in-flight messages to the queue when the process starts.\<close>

function reclaim_loop :: "string \<Rightarrow> redis \<Rightarrow> int \<Rightarrow> redis \<times> int" where
  "reclaim_loop q r reclaimed = (case rpop (processing_queue_key q) r of
     (None, r) \<Rightarrow> (r, reclaimed)
   | (Some m, r) \<Rightarrow> reclaim_loop q (zrem (processing_lease_key q) m (lpush q m r)) (reclaimed + 1))"
  by pat_completeness auto

termination
  by (relation "measure (\<lambda>(q, r, _). length (rq_lists r (processing_queue_key q)))")
    (auto simp: rpop_def lpush_def zrem_def split: list.splits)

declare reclaim_loop.simps [simp del]

definition reclaim_processing_on_startup :: "string \<Rightarrow> redis \<Rightarrow> redis \<times> int" where
  "reclaim_processing_on_startup q r = (let (r, reclaimed) = reclaim_loop q r 0
   in (if reclaimed \<noteq> 0 then record_metric ''reclaimed'' reclaimed r else r, reclaimed))"

definition register_processing_lease :: "int \<Rightarrow> string \<Rightarrow> string \<Rightarrow> int \<Rightarrow> redis \<Rightarrow> redis" where
  "register_processing_lease now q message lease_sec r =
     zadd (processing_lease_key q) message (now + max 1 lease_sec) r"

definition ack_processing_message :: "string \<Rightarrow> string \<Rightarrow> redis \<Rightarrow> redis" where
  "ack_processing_message q message r = (let (removed, r) = lrem (processing_queue_key q) message r
   in zrem (processing_lease_key q) message r)"

definition pop_reliable_message :: "string \<Rightarrow> redis \<Rightarrow> string option \<times> redis" where
  "pop_reliable_message q r = brpoplpush q (processing_queue_key q) r"

definition reclaim_lease :: "string \<Rightarrow> string \<Rightarrow> redis \<times> int \<Rightarrow> redis \<times> int" where
  "reclaim_lease q message rc = (let (r, count) = rc;
     (removed, r) = lrem (processing_queue_key q) message r;
     (r, count) = (if removed \<noteq> 0 then (lpush q message r, count + 1) else (r, count))
   in (zrem (processing_lease_key q) message r, count))"

definition reclaim_expired_processing_leases :: "int \<Rightarrow> string \<Rightarrow> redis \<Rightarrow> redis \<times> int" where
  "reclaim_expired_processing_leases now q r =
     (case zrangebyscore (processing_lease_key q) 0 now r of
        [] \<Rightarrow> (r, 0)
      | expired \<Rightarrow> (let (r, count) = fold (reclaim_lease q) expired (r, 0)
          in (if count \<noteq> 0 then record_metric ''reclaimed'' count r else r, count)))"

subsection \<open>What the operations do\<close>

lemma remove1_mset [simp]: "m \<in> set xs \<Longrightarrow> add_mset m (mset (remove1 m xs)) = mset xs"
  by simp

text \<open>
  The lists and the leases of one queue; the operations above touch nothing else but the metric.
\<close>

abbreviation waiting :: "string \<Rightarrow> redis \<Rightarrow> string list" where
  "waiting q r \<equiv> rq_lists r q"

abbreviation in_flight :: "string \<Rightarrow> redis \<Rightarrow> string list" where
  "in_flight q r \<equiv> rq_lists r (processing_queue_key q)"

definition queue_mset :: "string \<Rightarrow> redis \<Rightarrow> string multiset" where
  "queue_mset q r = mset (waiting q r) + mset (in_flight q r)"

lemma mset_butlast_last: "xs \<noteq> [] \<Longrightarrow> add_mset (last xs) (mset (butlast xs)) = mset xs"
  by (metis append_butlast_last_id mset.simps(2) mset_append mset_rev rev.simps(2) union_mset_add_mset_right)

lemma lists_simps [simp]:
  "rq_lists (lpush k m r) = (rq_lists r)(k := m # rq_lists r k)"
  "rq_lists (zrem k' m r) = rq_lists r"
  "rq_lists (zadd k' m n r) = rq_lists r"
  "rq_lists (incrby k' i r) = rq_lists r"
  "rq_lists (record_metric k' i r) = rq_lists r"
  "rq_lists (snd (lrem k m r)) = (rq_lists r)(k := remove1 m (rq_lists r k))"
  by (simp_all add: lpush_def zrem_def zadd_def incrby_def record_metric_def lrem_def)

lemma leases_simps [simp]:
  "rq_leases (lpush k m r) = rq_leases r"
  "rq_leases (zrem k' m r) = (rq_leases r)(k' := filter (\<lambda>(x, _). x \<noteq> m) (rq_leases r k'))"
  "rq_leases (record_metric k i r) = rq_leases r"
  "rq_leases (snd (lrem k m r)) = rq_leases r"
  by (simp_all add: lpush_def zrem_def incrby_def record_metric_def lrem_def)

lemma lrem_fst [simp]: "fst (lrem k m r) = (if m \<in> set (rq_lists r k) then 1 else 0)"
  by (simp add: lrem_def)

lemma rpop_if: "rpop k r = (if rq_lists r k = [] then (None, r)
   else (Some (last (rq_lists r k)), r\<lparr>rq_lists := (rq_lists r)(k := butlast (rq_lists r k))\<rparr>))"
  by (simp add: rpop_def split: list.split)

lemma rpop_cases:
  obtains "rq_lists r k = []" "rpop k r = (None, r)"
  | xs m where "rq_lists r k = xs @ [m]" "rpop k r = (Some m, r\<lparr>rq_lists := (rq_lists r)(k := xs)\<rparr>)"
proof (cases "rq_lists r k" rule: rev_cases)
  case Nil
  then show ?thesis by (intro that(1)) (simp_all add: rpop_if)
next
  case (snoc xs m)
  moreover have "rpop k r = (Some m, r\<lparr>rq_lists := (rq_lists r)(k := xs)\<rparr>)"
    by (simp add: rpop_if snoc)
  ultimately show ?thesis by (rule that(2))
qed

lemma reclaim_loop_result:
  "rq_lists (fst (reclaim_loop q r n)) =
     (rq_lists r)(q := in_flight q r @ waiting q r, processing_queue_key q := []) \<and>
   rq_leases (fst (reclaim_loop q r n)) = (rq_leases r)(processing_lease_key q :=
     filter (\<lambda>(x, _). x \<notin> set (in_flight q r)) (rq_leases r (processing_lease_key q))) \<and>
   rq_metrics (fst (reclaim_loop q r n)) = rq_metrics r \<and>
   snd (reclaim_loop q r n) = n + int (length (in_flight q r))"
proof (induction q r n rule: reclaim_loop.induct)
  case (1 q r n)
  show ?case
  proof (cases rule: rpop_cases [of r "processing_queue_key q"])
    case 1
    then show ?thesis by (subst (1 2 3 4) reclaim_loop.simps) (auto simp: fun_eq_iff filter_id_conv)
  next
    case (2 xs m)
    let ?r1 = "r\<lparr>rq_lists := (rq_lists r)(processing_queue_key q := xs)\<rparr>"
    let ?r2 = "zrem (processing_lease_key q) m (lpush q m ?r1)"
    have eq: "reclaim_loop q r n = reclaim_loop q ?r2 (n + 1)"
      by (subst reclaim_loop.simps) (simp add: 2(2))
    have met: "rq_metrics ?r2 = rq_metrics r" by (simp add: zrem_def lpush_def)
    show ?thesis
      using "1.IH" [OF 2(2) [symmetric] refl] unfolding eq met
      by (auto simp: 2(1) fun_eq_iff intro!: filter_cong)
  qed
qed

subsection \<open>A queue, its consumer and the reclaimer\<close>

text \<open>
  The consumer (\<open>run_reliable_queue_loop\<close>) by the point it has reached: reclaiming at start-up, having
  popped a message there (in no list) or pushed it back, waiting for a message, holding one without its lease,
  inside the handler, after the handler, after the LREM of the acknowledgement; or not running. A handler that raises or is
  cancelled leaves through the same acknowledgement in the \<open>finally\<close>, after which the loop is over.
\<close>

datatype consumer =
    CDown | CStart | CPopped string | CPushed string | CIdle | CGot string | CHandling string
  | CHandled string | CRemoved string | CAborted string | CAbortRemoved string

text \<open>The reclaimer: asleep, before an expired message, between its LREM and LPUSH, before its ZREM.\<close>

datatype reclaimer =
    RSleep | RScan "string list" | RHold string "string list" | RDrop string "string list"

text \<open>
  The last four fields are history: the messages producers sent, one entry per completed handler call, the
  messages the acknowledgement removed, and those that left the lists any other way.
\<close>

record queue_sys =
  qs_redis :: redis
  qs_consumer :: consumer
  qs_reclaimer :: reclaimer
  qs_clock :: int
  qs_sent :: "string multiset"
  qs_handled :: "string multiset"
  qs_acked :: "string multiset"
  qs_lost :: "string multiset"

fun consumer_holds :: "consumer \<Rightarrow> string multiset" where
  "consumer_holds (CPopped m) = {#m#}"
| "consumer_holds _ = {#}"

fun reclaimer_holds :: "reclaimer \<Rightarrow> string multiset" where
  "reclaimer_holds (RHold m _) = {#m#}"
| "reclaimer_holds _ = {#}"

definition in_hand :: "queue_sys \<Rightarrow> string multiset" where
  "in_hand s = consumer_holds (qs_consumer s) + reclaimer_holds (qs_reclaimer s)"

text \<open>
  One Redis command or one local transition. In a \<open>gentle\<close> run no handler raises or is cancelled, and crashes happen only while
  no message is between two lists.
\<close>

inductive queue_step :: "bool \<Rightarrow> string \<Rightarrow> int \<Rightarrow> queue_sys \<Rightarrow> queue_sys \<Rightarrow> bool"
  for gentle :: bool and q :: string and lease_sec :: int where
  step_send: "queue_step gentle q lease_sec s
    (s\<lparr>qs_redis := lpush q m (qs_redis s), qs_sent := add_mset m (qs_sent s)\<rparr>)"
| step_tick: "qs_clock s \<le> t \<Longrightarrow> queue_step gentle q lease_sec s (s\<lparr>qs_clock := t\<rparr>)"
| step_start_pop: "qs_consumer s = CStart \<Longrightarrow> rpop (processing_queue_key q) (qs_redis s) = (Some m, r) \<Longrightarrow>
    queue_step gentle q lease_sec s (s\<lparr>qs_redis := r, qs_consumer := CPopped m\<rparr>)"
| step_start_push: "qs_consumer s = CPopped m \<Longrightarrow>
    queue_step gentle q lease_sec s (s\<lparr>qs_redis := lpush q m (qs_redis s), qs_consumer := CPushed m\<rparr>)"
| step_start_drop: "qs_consumer s = CPushed m \<Longrightarrow> queue_step gentle q lease_sec s
    (s\<lparr>qs_redis := zrem (processing_lease_key q) m (qs_redis s), qs_consumer := CStart\<rparr>)"
| step_start_done: "qs_consumer s = CStart \<Longrightarrow> rpop (processing_queue_key q) (qs_redis s) = (None, r) \<Longrightarrow>
    queue_step gentle q lease_sec s (s\<lparr>qs_consumer := CIdle\<rparr>)"
| step_pop: "qs_consumer s = CIdle \<Longrightarrow> pop_reliable_message q (qs_redis s) = (Some m, r) \<Longrightarrow>
    queue_step gentle q lease_sec s (s\<lparr>qs_redis := r, qs_consumer := if m = [] then CIdle else CGot m\<rparr>)"
| step_lease: "qs_consumer s = CGot m \<Longrightarrow> queue_step gentle q lease_sec s
    (s\<lparr>qs_redis := register_processing_lease (qs_clock s) q m lease_sec (qs_redis s),
       qs_consumer := CHandling m\<rparr>)"
| step_handle: "qs_consumer s = CHandling m \<Longrightarrow> queue_step gentle q lease_sec s
    (s\<lparr>qs_handled := add_mset m (qs_handled s), qs_consumer := CHandled m\<rparr>)"
| step_ack_remove: "qs_consumer s = CHandled m \<Longrightarrow>
    lrem (processing_queue_key q) m (qs_redis s) = (n, r) \<Longrightarrow>
    queue_step gentle q lease_sec s (s\<lparr>qs_redis := r, qs_consumer := CRemoved m,
      qs_acked := qs_acked s + (if n \<noteq> 0 then {#m#} else {#})\<rparr>)"
| step_ack_drop: "qs_consumer s = CRemoved m \<Longrightarrow> queue_step gentle q lease_sec s
    (s\<lparr>qs_redis := zrem (processing_lease_key q) m (qs_redis s), qs_consumer := CIdle\<rparr>)"
| step_scan: "qs_reclaimer s = RSleep \<Longrightarrow> queue_step gentle q lease_sec s
    (s\<lparr>qs_reclaimer := RScan (zrangebyscore (processing_lease_key q) 0 (qs_clock s) (qs_redis s))\<rparr>)"
| step_scan_done: "qs_reclaimer s = RScan [] \<Longrightarrow> queue_step gentle q lease_sec s (s\<lparr>qs_reclaimer := RSleep\<rparr>)"
| step_take: "qs_reclaimer s = RScan (m # ms) \<Longrightarrow>
    lrem (processing_queue_key q) m (qs_redis s) = (n, r) \<Longrightarrow> queue_step gentle q lease_sec s
      (s\<lparr>qs_redis := r, qs_reclaimer := if n \<noteq> 0 then RHold m ms else RDrop m ms\<rparr>)"
| step_requeue: "qs_reclaimer s = RHold m ms \<Longrightarrow>
    queue_step gentle q lease_sec s (s\<lparr>qs_redis := lpush q m (qs_redis s), qs_reclaimer := RDrop m ms\<rparr>)"
| step_drop: "qs_reclaimer s = RDrop m ms \<Longrightarrow> queue_step gentle q lease_sec s
    (s\<lparr>qs_redis := zrem (processing_lease_key q) m (qs_redis s), qs_reclaimer := RScan ms\<rparr>)"
| step_crash: "gentle \<longrightarrow> in_hand s = {#} \<Longrightarrow> queue_step gentle q lease_sec s
    (s\<lparr>qs_consumer := CDown, qs_reclaimer := RSleep, qs_lost := qs_lost s + in_hand s\<rparr>)"
| step_restart: "qs_consumer s = CDown \<Longrightarrow> queue_step gentle q lease_sec s (s\<lparr>qs_consumer := CStart\<rparr>)"
| step_abort: "qs_consumer s = CHandling m \<Longrightarrow> \<not> gentle \<Longrightarrow> queue_step gentle q lease_sec s (s\<lparr>qs_consumer := CAborted m\<rparr>)"
| step_abort_remove: "qs_consumer s = CAborted m \<Longrightarrow>
    lrem (processing_queue_key q) m (qs_redis s) = (n, r) \<Longrightarrow>
    queue_step gentle q lease_sec s (s\<lparr>qs_redis := r, qs_consumer := CAbortRemoved m,
      qs_lost := qs_lost s + (if n \<noteq> 0 then {#m#} else {#})\<rparr>)"
| step_abort_drop: "qs_consumer s = CAbortRemoved m \<Longrightarrow> queue_step gentle q lease_sec s
    (s\<lparr>qs_redis := zrem (processing_lease_key q) m (qs_redis s), qs_consumer := CDown\<rparr>)"

definition queue_init :: queue_sys where
  "queue_init = \<lparr>qs_redis = \<lparr>rq_lists = (\<lambda>_. []), rq_leases = (\<lambda>_. []), rq_metrics = (\<lambda>_. 0)\<rparr>,
     qs_consumer = CStart, qs_reclaimer = RSleep, qs_clock = 0, qs_sent = {#}, qs_handled = {#},
     qs_acked = {#}, qs_lost = {#}\<rparr>"

definition queue_reachable :: "bool \<Rightarrow> string \<Rightarrow> int \<Rightarrow> queue_sys \<Rightarrow> bool" where
  "queue_reachable gentle q lease_sec s \<longleftrightarrow> (queue_step gentle q lease_sec)\<^sup>*\<^sup>* queue_init s"

subsection \<open>Nothing disappears\<close>

fun awaiting_ack :: "consumer \<Rightarrow> string multiset" where
  "awaiting_ack (CHandled m) = {#m#}"
| "awaiting_ack _ = {#}"

definition queue_inv :: "string \<Rightarrow> queue_sys \<Rightarrow> bool" where
  "queue_inv q s \<longleftrightarrow>
     qs_sent s = queue_mset q (qs_redis s) + in_hand s + qs_acked s + qs_lost s \<and>
     qs_acked s + awaiting_ack (qs_consumer s) \<subseteq># qs_handled s"

lemma queue_mset_simps [simp]:
  "queue_mset q (lpush q m r) = add_mset m (queue_mset q r)"
  "queue_mset q (zrem k m r) = queue_mset q r"
  "queue_mset q (register_processing_lease t q m n r) = queue_mset q r"
  by (simp_all add: queue_mset_def register_processing_lease_def)

lemma queue_mset_lrem:
  "lrem (processing_queue_key q) m r = (n, r') \<Longrightarrow>
   queue_mset q r = queue_mset q r' + (if n \<noteq> 0 then {#m#} else {#})"
  by (cases "m \<in> set (in_flight q r)") (auto simp: lrem_def queue_mset_def remove1_idem simp del: mset_remove1)

lemma queue_mset_rpop:
  "rpop (processing_queue_key q) r = (Some m, r') \<Longrightarrow> queue_mset q r = add_mset m (queue_mset q r')"
  by (cases rule: rpop_cases [of r "processing_queue_key q"]) (auto simp: queue_mset_def)

lemma queue_mset_pop: "pop_reliable_message q r = (Some m, r') \<Longrightarrow> queue_mset q r = queue_mset q r'"
  by (cases rule: rpop_cases [of r q]) (auto simp: pop_reliable_message_def brpoplpush_def queue_mset_def)

lemma subseteq_addD: "add_mset x A \<subseteq># B \<Longrightarrow> A \<subseteq># B"
  by (drule mset_subset_eq_insertD) (simp add: subset_mset.less_imp_le)

lemma queue_step_inv: "queue_step gentle q n s s' \<Longrightarrow> queue_inv q s \<Longrightarrow> queue_inv q s'"
proof (induction rule: queue_step.induct)
  case (step_start_pop s m r)
  then show ?case using queue_mset_rpop [OF step_start_pop(2)] by (simp add: queue_inv_def in_hand_def)
next
  case (step_pop s m r)
  then show ?case using queue_mset_pop [OF step_pop(2)] by (simp add: queue_inv_def in_hand_def)
next
  case (step_ack_remove s m k r)
  then show ?case using queue_mset_lrem [OF step_ack_remove(2)]
    by (auto simp: queue_inv_def in_hand_def dest: subseteq_addD)
next
  case (step_take s m ms k r)
  then show ?case using queue_mset_lrem [OF step_take(2)] by (simp add: queue_inv_def in_hand_def)
next
  case (step_abort_remove s m k r)
  then show ?case using queue_mset_lrem [OF step_abort_remove(2)] by (auto simp: queue_inv_def in_hand_def)
next
  case (step_handle s m)
  then show ?case by (auto simp: queue_inv_def in_hand_def)
next
  case (step_crash s)
  then show ?case
    by (cases "qs_consumer s") (auto simp: queue_inv_def in_hand_def dest: subseteq_addD)
qed (auto simp: queue_inv_def in_hand_def)

lemma queue_reachable_induct:
  assumes "queue_reachable gentle q n s" and "P queue_init"
    and "\<And>s s'. P s \<Longrightarrow> queue_step gentle q n s s' \<Longrightarrow> P s'"
  shows "P s"
  using assms(1) unfolding queue_reachable_def
  by (induction rule: rtranclp_induct) (use assms(2,3) in blast)+

lemma queue_reachable_inv: "queue_reachable gentle q n s \<Longrightarrow> queue_inv q s"
  by (erule queue_reachable_induct)
    (simp add: queue_inv_def queue_init_def in_hand_def queue_mset_def, rule queue_step_inv)

lemma reclaim_lease_effect:
  "in_flight q (fst (reclaim_lease q m (r, c))) = remove1 m (in_flight q r)"
  "queue_mset q (fst (reclaim_lease q m (r, c))) = queue_mset q r"
  "rq_leases (fst (reclaim_lease q m (r, c))) = (rq_leases r)(processing_lease_key q :=
     filter (\<lambda>(x, _). x \<noteq> m) (rq_leases r (processing_lease_key q)))"
  "snd (reclaim_lease q m (r, c)) = c + (if m \<in> set (in_flight q r) then 1 else 0)"
  using queue_mset_lrem [of q m r, OF prod.collapse [symmetric]]
  by (auto simp: reclaim_lease_def Let_def split_beta)

lemma reclaim_leases_effect:
  assumes "distinct es"
  shows "mset (in_flight q (fst (fold (reclaim_lease q) es (r, c)))) = mset (in_flight q r) - mset es \<and>
    queue_mset q (fst (fold (reclaim_lease q) es (r, c))) = queue_mset q r \<and>
    rq_leases (fst (fold (reclaim_lease q) es (r, c))) (processing_lease_key q) =
      filter (\<lambda>(x, _). x \<notin> set es) (rq_leases r (processing_lease_key q)) \<and>
    snd (fold (reclaim_lease q) es (r, c)) = c + int (card (set es \<inter> set (in_flight q r)))"
  using assms
proof (induction es arbitrary: r c)
  case (Cons m es)
  obtain r1 c1 where rc: "reclaim_lease q m (r, c) = (r1, c1)" by fastforce
  note eff = reclaim_lease_effect [of q m r c, unfolded rc fst_conv snd_conv]
  have ab: "set es \<inter> set (remove1 m (in_flight q r)) = set es \<inter> set (in_flight q r)"
  proof -
    have "x \<in> set (remove1 m (in_flight q r)) \<longleftrightarrow> x \<in> set (in_flight q r)" if "x \<in> set es" for x
      using that Cons.prems by (metis distinct.simps(2) in_set_remove1)
    then show ?thesis by blast
  qed
  have "card (set (m # es) \<inter> set (in_flight q r)) =
      (if m \<in> set (in_flight q r) then 1 else 0) + card (set es \<inter> set (in_flight q r))"
    using Cons.prems by auto
  then show ?case
    using Cons.IH [of r1 c1] Cons.prems by (auto simp: rc eff ab conj_commute intro!: filter_cong)
qed simp_all

subsection \<open>Properties\<close>

text \<open>
  C6. Conservation: at every point of every interleaving of the producers, the consumer, the reclaimer,
  crashes and aborted handlers, each message that was sent is exactly once in the queue, in the processing list,
  in a hand between the two, among the acknowledged or among the lost; and the acknowledged ones went through
  the handler, each as often as it was acknowledged.
\<close>

lemma queue_conservation:
  assumes "queue_reachable gentle q lease_sec s"
  shows "qs_sent s = mset (rq_lists (qs_redis s) q) + mset (rq_lists (qs_redis s) (processing_queue_key q)) +
      in_hand s + qs_acked s + qs_lost s \<and> qs_acked s \<subseteq># qs_handled s"
  using queue_reachable_inv [OF assms] subset_mset.order_trans [OF mset_subset_eq_add_left]
  by (auto simp: queue_inv_def queue_mset_def)

lemma queue_reachable_init: "queue_reachable gentle q n queue_init"
  by (simp add: queue_reachable_def)

lemma queue_reachable_step:
  "queue_reachable gentle q n s \<Longrightarrow> queue_step gentle q n s s' \<Longrightarrow> queue_reachable gentle q n s'"
  unfolding queue_reachable_def by (rule rtranclp.rtrancl_into_rtrancl)

text \<open>A run up to the handler, for any queue.\<close>

definition queue_demo :: "string \<Rightarrow> int \<Rightarrow> queue_sys" where
  "queue_demo q n = \<lparr>qs_redis = \<lparr>rq_lists = (\<lambda>_. [])(processing_queue_key q := [''m'']),
       rq_leases = (\<lambda>_. [])(processing_lease_key q := [(''m'', max 1 n)]), rq_metrics = (\<lambda>_. 0)\<rparr>,
     qs_consumer = CHandling ''m'', qs_reclaimer = RSleep, qs_clock = 0, qs_sent = {#''m''#}, qs_handled = {#},
     qs_acked = {#}, qs_lost = {#}\<rparr>"

lemma queue_demo_reachable: "queue_reachable gentle q n (queue_demo q n)"
proof -
  let ?r = "qs_redis queue_init" and ?k = "processing_queue_key q"
  have 1: "queue_reachable gentle q n (queue_init\<lparr>qs_consumer := CIdle\<rparr>)"
    by (rule queue_reachable_step [OF queue_reachable_init step_start_done [where r = ?r]])
      (simp_all add: queue_init_def rpop_if)
  have 2: "queue_reachable gentle q n (queue_init\<lparr>qs_redis := lpush q ''m'' ?r, qs_sent := {#''m''#},
      qs_consumer := CIdle\<rparr>)"
    using queue_reachable_step [OF 1 step_send [where m = "''m''"]] by (simp add: queue_init_def)
  have 3: "queue_reachable gentle q n (queue_init\<lparr>qs_redis := ?r\<lparr>rq_lists := (\<lambda>_. [])(?k := [''m''])\<rparr>,
      qs_sent := {#''m''#}, qs_consumer := CGot ''m''\<rparr>)"
    using queue_reachable_step [OF 2 step_pop [where m = "''m''"
        and r = "?r\<lparr>rq_lists := (\<lambda>_. [])(?k := [''m''])\<rparr>"]]
    by (simp add: queue_init_def pop_reliable_message_def brpoplpush_def rpop_if lpush_def fun_upd_idem)
  show ?thesis
    using queue_reachable_step [OF 3 step_lease [where m = "''m''"]]
    by (simp add: queue_init_def queue_demo_def register_processing_lease_def zadd_def)
qed

lemma queue_conservation_witness:
  "qs_sent (queue_demo ''q'' 60) = {#''m''#} \<and> in_hand (queue_demo ''q'' 60) = {#} \<and>
   qs_sent (queue_demo ''q'' 60) = mset (rq_lists (qs_redis (queue_demo ''q'' 60)) (processing_queue_key ''q''))"
  using queue_conservation [OF queue_demo_reachable [where gentle = False and q = "''q''" and n = 60]]
  by (simp add: queue_demo_def in_hand_def)

subsection \<open>The queue can always be emptied\<close>








text \<open>
  What an aborted handler loses: the acknowledgement runs in a \<open>finally\<close>, so a message whose handler raises or is
  cancelled before it has done its work is removed from the processing list, handled by nobody and in no list.
\<close>

lemma queue_cancel_loses:
  "\<exists>s m. queue_reachable False q lease_sec s \<and> m \<in># qs_sent s \<and> qs_handled s = {#} \<and> in_hand s = {#} \<and>
     rq_lists (qs_redis s) q = [] \<and> rq_lists (qs_redis s) (processing_queue_key q) = []"
proof -
  let ?d = "queue_demo q lease_sec"
  let ?r = "(qs_redis ?d)\<lparr>rq_lists := \<lambda>_. []\<rparr>"
  have 1: "queue_reachable False q lease_sec (?d\<lparr>qs_consumer := CAborted ''m''\<rparr>)"
    by (rule queue_reachable_step [OF queue_demo_reachable [of False q lease_sec] step_abort]) (simp_all add: queue_demo_def)
  have "queue_reachable False q lease_sec (?d\<lparr>qs_redis := ?r, qs_consumer := CAbortRemoved ''m'', qs_lost := {#''m''#}\<rparr>)"
    using queue_reachable_step [OF 1 step_abort_remove [where m = "''m''" and n = 1 and r = ?r]]
    by (simp add: queue_demo_def lrem_def fun_upd_idem)
  then show ?thesis
    by (intro exI conjI) (assumption | simp add: queue_demo_def in_hand_def)+
qed

text \<open>
  Restart: reclaiming at start-up ends, moves every in-flight message back behind the waiting ones in
  their order, drops their leases and counts them; the queue as a whole keeps its messages.
\<close>

lemma reclaim_on_startup_result:
  "rq_lists (fst (reclaim_processing_on_startup q r)) = (rq_lists r)
       (q := rq_lists r (processing_queue_key q) @ rq_lists r q, processing_queue_key q := []) \<and>
   rq_leases (fst (reclaim_processing_on_startup q r)) = (rq_leases r)(processing_lease_key q :=
       filter (\<lambda>(x, _). x \<notin> set (rq_lists r (processing_queue_key q))) (rq_leases r (processing_lease_key q))) \<and>
   snd (reclaim_processing_on_startup q r) = int (length (rq_lists r (processing_queue_key q)))"
  using reclaim_loop_result [of q r 0] by (simp add: reclaim_processing_on_startup_def Let_def split_beta)

text \<open>
  Expired leases: the reclaimer drops exactly the leases whose deadline has passed, takes one in-flight
  copy of each message that held one, puts it back in the queue, counts those, and loses none.
\<close>

lemma reclaim_expired_result:
  assumes "distinct (map fst (rq_leases r (processing_lease_key q)))"
    and "reclaim_expired_processing_leases now q r = (r', n)"
  shows "queue_mset q r' = queue_mset q r \<and>
    rq_leases r' (processing_lease_key q) =
      filter (\<lambda>(_, t). \<not> (0 \<le> t \<and> t \<le> now)) (rq_leases r (processing_lease_key q)) \<and>
    mset (rq_lists r' (processing_queue_key q)) = mset (rq_lists r (processing_queue_key q)) -
      mset (zrangebyscore (processing_lease_key q) 0 now r) \<and>
    n = int (card (set (zrangebyscore (processing_lease_key q) 0 now r) \<inter>
      set (rq_lists r (processing_queue_key q))))"
proof -
  let ?L = "rq_leases r (processing_lease_key q)" and ?es = "zrangebyscore (processing_lease_key q) 0 now r"
  have set_es: "set ?es = fst ` {(m, t). (m, t) \<in> set ?L \<and> 0 \<le> t \<and> t \<le> now}"
    by (force simp: zrangebyscore_def)
  have "distinct (map fst (filter (\<lambda>(_, t). 0 \<le> t \<and> t \<le> now) ?L))"
    using assms(1) by (rule distinct_map_filter)
  then have d: "distinct ?es"
    unfolding zrangebyscore_def by (metis (no_types, lifting) distinct_map distinct_sort set_sort)
  have keep: "filter (\<lambda>(x, _). x \<notin> set ?es) ?L = filter (\<lambda>(_, t). \<not> (0 \<le> t \<and> t \<le> now)) ?L"
    unfolding set_es
    by (intro filter_cong refl) (auto simp: image_iff dest: eq_key_imp_eq_value [OF assms(1)])
  show ?thesis
  proof (cases "?es = []")
    case True
    then have "filter (\<lambda>(x, _). x \<notin> set ?es) ?L = ?L" by (simp add: filter_id_conv)
    with True keep assms(2) show ?thesis by (simp add: reclaim_expired_processing_leases_def)
  next
    case False
    obtain x c where x: "fold (reclaim_lease q) ?es (r, 0) = (x, c)" by fastforce
    have n: "n = c" "rq_lists r' = rq_lists x" "rq_leases r' = rq_leases x"
      using assms(2) False x
      by (auto simp: reclaim_expired_processing_leases_def Let_def split_beta neq_Nil_conv)
    have "queue_mset q r' = queue_mset q x" by (simp add: queue_mset_def n)
    then show ?thesis
      using reclaim_leases_effect [OF d, of q r 0] unfolding x n keep by simp
  qed
qed

lemma reclaim_expired_result_witness:
  "\<exists>r' n. reclaim_expired_processing_leases 70 ''q'' (qs_redis (queue_demo ''q'' 60)) = (r', n) \<and>
     rq_leases r' (processing_lease_key ''q'') = []"
proof -
  let ?r = "qs_redis (queue_demo ''q'' 60)"
  obtain r' n where r: "reclaim_expired_processing_leases 70 ''q'' ?r = (r', n)" by fastforce
  have "distinct (map fst (rq_leases ?r (processing_lease_key ''q'')))" by (simp add: queue_demo_def)
  from reclaim_expired_result [OF this r] r show ?thesis by (auto simp: queue_demo_def)
qed

end
