(* ===== verification/DbWriter.thy ===== *)
theory DbWriter
  imports Access CommandRegistry ReliableQueue "HOL-Library.Sublist"
begin

text \<open>
  The db-writer (\<open>services/db-writer/main.py\<close>): one transaction per message on the target database, guarded by
  the ledger of completed tasks kept in the same database, and the status it publishes for each task. The SQL
  engine (a raw statement, a failing connection, the schema migrations) and \<open>json.loads\<close> are parameters. Times
  are whole seconds. Redis is always reachable here: the branches that swallow its failures are left out.
\<close>

subsection \<open>State\<close>

record ledger_row =
  lg_task :: string
  lg_type :: string
  lg_json :: string
  lg_status :: string
  lg_created :: int

text \<open>A database: its contents and the table \<open>admin_write_ledger\<close>.\<close>

record 'd database =
  db_data :: 'd
  db_ledger :: "ledger_row list"

record task_status =
  ts_status :: string
  ts_detail :: "string option"

text \<open>
  The databases by path (a missing file is created empty), the process state (\<open>_migrated_paths\<close>,
  \<open>_ledger_pruned_at\<close>) and the Redis keys \<open>dedup:task:*\<close> (their expiry) and \<open>task_status:*\<close>.
\<close>

record 'd writer =
  wr_files :: "string \<Rightarrow> 'd database"
  wr_migrated :: "string list"
  wr_pruned :: "string \<Rightarrow> int option"
  wr_dedup :: "string \<Rightarrow> int option"
  wr_status :: "string \<Rightarrow> (task_status \<times> int) option"
  wr_redis :: redis

record 'd writer_env =
  we_now :: int
  we_monotonic :: int
  we_retention_days :: int
  we_default_path :: string
  we_connect :: "string \<Rightarrow> py_error option"
  we_migrate :: "'d database \<Rightarrow> py_error option \<times> 'd database"
  we_sql :: "string \<Rightarrow> pyval \<Rightarrow> 'd database \<Rightarrow> py_error + 'd database"
  we_handlers :: "'d handlers"
  we_loads :: "string \<Rightarrow> pyval option"
  we_paths :: path_env
  we_getenv :: "string \<Rightarrow> string"
  we_oddq :: odd_query
  we_acl :: "py_error + shared_grant list"
  we_acl_ddl :: "py_error option"

text \<open>\<open>json.dumps\<close> with its default \<open>ensure_ascii=True\<close>: only string literals hold characters from 128 on.\<close>

definition ensure_ascii :: "string \<Rightarrow> string" where
  "ensure_ascii s = concat (map (\<lambda>c. if code c \<ge> 128
     then [char_of (92::nat), CHR ''u'', CHR ''0'', CHR ''0''] @ hex2 c else [c]) s)"

definition json_default :: "payload \<Rightarrow> string" where
  "json_default payload = ensure_ascii (json_dumps (PDict payload))"

subsection \<open>The ledger\<close>

definition ledger_is_completed :: "string \<Rightarrow> 'd database \<Rightarrow> bool" where
  "ledger_is_completed task_id db = (case sel_one (\<lambda>r. lg_task r = task_id) (db_ledger db) of
     None \<Rightarrow> False | Some r \<Rightarrow> lg_status r = ''completed'')"

definition ledger_insert_completed ::
  "int \<Rightarrow> string \<Rightarrow> string \<Rightarrow> string \<Rightarrow> 'd database \<Rightarrow> py_error + 'd database" where
  "ledger_insert_completed ts task_id command_type command_json db =
     bindE (ins_row lg_task \<lparr>lg_task = task_id, lg_type = command_type, lg_json = command_json,
         lg_status = ''completed'', lg_created = ts\<rparr> (db_ledger db))
       (\<lambda>rows. Inr (db\<lparr>db_ledger := rows\<rparr>))"

definition ledger_prune :: "'d writer_env \<Rightarrow> string \<Rightarrow> 'd writer \<Rightarrow> 'd writer" where
  "ledger_prune we path st =
     (if we_retention_days we \<le> 0 \<or>
         we_monotonic we - (case wr_pruned st path of None \<Rightarrow> - 3600 | Some t \<Rightarrow> t) < 3600 then st
      else let db = wr_files st path in st\<lparr>wr_pruned := (wr_pruned st)(path \<mapsto> we_monotonic we),
        wr_files := (wr_files st)(path := db\<lparr>db_ledger := del_where
          (\<lambda>r. lg_created r < we_now we - we_retention_days we * 86400) (db_ledger db)\<rparr>)\<rparr>)"

definition migrate_once :: "'d writer_env \<Rightarrow> string \<Rightarrow> 'd writer \<Rightarrow> py_error option \<times> 'd writer" where
  "migrate_once we path st =
     (if path \<in> set (wr_migrated st) then (None, st)
      else let (err, db) = we_migrate we (wr_files st path);
               st = st\<lparr>wr_files := (wr_files st)(path := db)\<rparr>
        in case err of
             Some e \<Rightarrow> (Some e, st)
           | None \<Rightarrow> (None, st\<lparr>wr_migrated := path # wr_migrated st\<rparr>))"

subsection \<open>One transaction\<close>

datatype outcome = Completed | Already_completed

type_synonym 'd body = "payload \<Rightarrow> 'd database \<Rightarrow> py_error + 'd database \<times> payload"

text \<open>
  BEGIN, the check of the ledger, the work, the entry in the ledger, COMMIT; any exception is a ROLLBACK and
  leaves the database as it was.
\<close>

definition ledger_txn ::
  "int \<Rightarrow> 'd body \<Rightarrow> string \<Rightarrow> string \<Rightarrow> payload \<Rightarrow> 'd database \<Rightarrow>
     (py_error + outcome \<times> payload) \<times> 'd database" where
  "ledger_txn ts body task_id command_type payload db =
     (if ledger_is_completed task_id db then (Inr (Already_completed, payload), db)
      else case bindE (body payload db) (\<lambda>(db', payload).
          bindE (ledger_insert_completed ts task_id command_type (json_default payload) db')
            (\<lambda>db'. Inr (db', payload))) of
        Inl e \<Rightarrow> (Inl e, db)
      | Inr (db', payload) \<Rightarrow> (Inr (Completed, payload), db'))"

definition contents_body :: "'d handler \<Rightarrow> 'd body" where
  "contents_body h payload db =
     bindE (h payload (db_data db)) (\<lambda>(d, payload). Inr (db\<lparr>db_data := d\<rparr>, payload))"

definition typed_body :: "'d writer_env \<Rightarrow> string \<Rightarrow> 'd body" where
  "typed_body we command_type payload db =
     (if command_type = ''raw_sql'' then (let query = gstr payload ''query'' [] in
        if query = [] then Inl (ValueError ''No hay query SQL'')
        else bindE (we_sql we query (pget payload ''params'' (PList [])) db) (\<lambda>db. Inr (db, payload)))
      else contents_body (dispatch_command (we_handlers we)) payload db)"

definition run_transaction ::
  "'d writer_env \<Rightarrow> 'd body \<Rightarrow> string \<Rightarrow> string \<Rightarrow> payload \<Rightarrow> string \<Rightarrow> 'd writer \<Rightarrow>
     (py_error + outcome \<times> payload) \<times> 'd writer" where
  "run_transaction we body task_id command_type payload path st =
     (case we_connect we path of
        Some e \<Rightarrow> (Inl e, st)
      | None \<Rightarrow> (case migrate_once we path st of
          (Some e, st) \<Rightarrow> (Inl e, st)
        | (None, st) \<Rightarrow> (let
              (res, db) = ledger_txn (we_now we) body task_id command_type payload (wr_files st path);
              st = st\<lparr>wr_files := (wr_files st)(path := db)\<rparr>
            in case res of
                 Inr (Completed, _) \<Rightarrow> (res, ledger_prune we path st)
               | _ \<Rightarrow> (res, st))))"

definition run_typed_command_sync ::
  "'d writer_env \<Rightarrow> string \<Rightarrow> string \<Rightarrow> payload \<Rightarrow> string \<Rightarrow> 'd writer \<Rightarrow>
     (py_error + outcome \<times> string option) \<times> 'd writer" where
  "run_typed_command_sync we task_id command_type payload path st = (let
     (res, st) = run_transaction we (typed_body we command_type) task_id command_type payload path st
   in (case res of
         Inl e \<Rightarrow> Inl e
       | Inr (Already_completed, _) \<Rightarrow> Inr (Already_completed, None)
       | Inr (Completed, payload) \<Rightarrow> Inr (Completed, format_write_task_success_detail command_type payload), st))"

definition run_legacy_sql_sync ::
  "'d writer_env \<Rightarrow> string \<Rightarrow> string \<Rightarrow> pyval \<Rightarrow> string \<Rightarrow> payload \<Rightarrow> 'd writer \<Rightarrow>
     (py_error + outcome) \<times> 'd writer" where
  "run_legacy_sql_sync we task_id query params path payload st = (let
     body = (\<lambda>payload db. bindE (we_sql we query params db) (\<lambda>db. Inr (db, payload)));
     (res, st) = run_transaction we body task_id ''legacy_sql'' payload path st
   in (bindE res (\<lambda>(out, _). Inr out), st))"

subsection \<open>Redis keys\<close>

definition publish_task_status :: "'d writer_env \<Rightarrow> string \<Rightarrow> string \<Rightarrow> string option \<Rightarrow> 'd writer \<Rightarrow> 'd writer" where
  "publish_task_status we task_id status detail st = st\<lparr>wr_status := (wr_status st)
     (''task_status:'' @ task_id \<mapsto> (\<lparr>ts_status = status, ts_detail = detail\<rparr>, we_now we + 60))\<rparr>"

definition is_duplicate_task :: "'d writer_env \<Rightarrow> string \<Rightarrow> 'd writer \<Rightarrow> bool" where
  "is_duplicate_task we task_id st = (case wr_dedup st (''dedup:task:'' @ task_id) of
     None \<Rightarrow> False | Some expiry \<Rightarrow> we_now we < expiry)"

definition mark_task :: "'d writer_env \<Rightarrow> string \<Rightarrow> 'd writer \<Rightarrow> 'd writer" where
  "mark_task we task_id st =
     st\<lparr>wr_dedup := (wr_dedup st)(''dedup:task:'' @ task_id \<mapsto> we_now we + 60 * 2)\<rparr>"

definition count_metric :: "string \<Rightarrow> 'd writer \<Rightarrow> 'd writer" where
  "count_metric name st = st\<lparr>wr_redis := record_metric name 1 (wr_redis st)\<rparr>"

subsection \<open>Validation of the target\<close>

definition path_is_under_shared_tree :: "path_env \<Rightarrow> string \<Rightarrow> bool" where
  "path_is_under_shared_tree pe db_path =
     (relative_to (pe_resolve pe db_path) (pe_canon pe (db_root pe @ [''shared''])) \<noteq> None)"

text \<open>
  The typed path checks the grants over a read-only connection on which the check first runs its
  \<open>CREATE TABLE IF NOT EXISTS\<close>; \<open>we_acl_ddl\<close> is the exception the engine raises for that statement.
\<close>

definition typed_acl_check :: "'d writer_env \<Rightarrow> string \<Rightarrow> string \<Rightarrow> string \<Rightarrow> py_error + bool" where
  "typed_acl_check we tenant_id user_id db_path =
     bindE (we_acl we) (\<lambda>grants. let path = strip db_path in
     if path = [] \<or> lower (path_text_suffix path) \<noteq> ''.duckdb''
       \<or> \<not> validate_user_db_path (we_paths we) user_id path (Some tenant_id) then Inr False
     else case we_acl_ddl we of
       Some e \<Rightarrow> Inl e
     | None \<Rightarrow> Inr (user_may_access_shared_path (we_paths we) (we_getenv we) (we_oddq we) grants
         tenant_id user_id db_path))"

definition validate_target_db_path :: "'d writer_env \<Rightarrow> string \<Rightarrow> string \<Rightarrow> string option \<Rightarrow> py_error + string" where
  "validate_target_db_path we user_id target tenant_id =
     (case resolve_user_id_for_db_path (we_paths we) user_id target tenant_id of
        None \<Rightarrow> Inl (ValueError ''db_path fuera del directorio permitido del usuario'')
      | Some resolved \<Rightarrow>
          if path_is_under_shared_tree (we_paths we) target then
            (let tid = str_or (strip (case tenant_id of None \<Rightarrow> ''default'' | Some t \<Rightarrow> str_or t ''default''))
                   ''default''
             in case typed_acl_check we tid resolved target of
               Inr True \<Rightarrow> Inr resolved
             | Inr False \<Rightarrow> Inl (ValueError ''sin grant de base compartida'')
             | Inl (ValueError s) \<Rightarrow> Inl (ValueError s)
             | Inl e \<Rightarrow> Inl (ValueError (''ACL shared check failed: '' @ error_text e)))
          else Inr resolved)"

subsection \<open>Messages\<close>

definition finish_task :: "'d writer_env \<Rightarrow> string \<Rightarrow> string \<Rightarrow> string option \<Rightarrow> 'd writer \<Rightarrow> 'd writer" where
  "finish_task we task_id status detail st =
     count_metric (if status = ''success'' then ''processed'' else ''failed'')
       (publish_task_status we task_id status detail st)"

text \<open>The first component tells whether the message was a typed command.\<close>

definition handle_typed_command :: "'d writer_env \<Rightarrow> string \<Rightarrow> payload \<Rightarrow> 'd writer \<Rightarrow> bool \<times> 'd writer" where
  "handle_typed_command we task_id payload st = (let
     command_type = strip (gstr payload ''command_type'' [])
   in
     if command_type = [] then (False, st)
     else if is_duplicate_task we task_id st
       then (True, finish_task we task_id ''success'' (Some ''already processed'') st)
     else let
       tenant_id = gstr payload ''tenant_id'' ''default'';
       target = gstr payload ''db_path'' (we_default_path we);
       user_id = pystr (por (pget payload ''db_write_user_id'' PNone)
         (por (pget payload ''user_id'' PNone) (PStr ''default'')))
     in case validate_target_db_path we user_id target
         (if tenant_id \<noteq> ''default'' then Some tenant_id else None) of
       Inl e \<Rightarrow> (True, finish_task we task_id ''failed'' (Some (error_text e)) st)
     | Inr _ \<Rightarrow> (case run_typed_command_sync we task_id command_type payload target st of
         (Inl e, st) \<Rightarrow> (True, finish_task we task_id ''failed'' (Some (take 500 (error_text e))) st)
       | (Inr (Already_completed, _), st) \<Rightarrow>
           (True, count_metric ''processed'' (mark_task we task_id
             (publish_task_status we task_id ''success'' (Some ''already completed'') st)))
       | (Inr (Completed, detail), st) \<Rightarrow>
           (True, finish_task we task_id ''success'' detail (mark_task we task_id st))))"

definition legacy_acl_check :: "'d writer_env \<Rightarrow> string option \<Rightarrow> string \<Rightarrow> string \<Rightarrow> py_error + bool" where
  "legacy_acl_check we tenant_id user_id target =
     bindE (we_acl we) (\<lambda>grants. Inr (user_may_access_shared_path (we_paths we) (we_getenv we) (we_oddq we) grants
       (str_or (strip (case tenant_id of None \<Rightarrow> ''default'' | Some t \<Rightarrow> str_or t ''default'')) ''default'')
       user_id target))"

definition legacy_tenant :: "payload \<Rightarrow> string option" where
  "legacy_tenant payload = (case pget payload ''tenant_id'' PNone of
     PNone \<Rightarrow> None
   | v \<Rightarrow> if strip (pystr v) = [] then None else Some (strip (pystr v)))"

definition execute_legacy :: "'d writer_env \<Rightarrow> string \<Rightarrow> payload \<Rightarrow> 'd writer \<Rightarrow> 'd writer" where
  "execute_legacy we task_id payload st = (let
     query = gstr payload ''query'' [];
     target = gstr payload ''db_path'' (we_default_path we);
     tenant_id = legacy_tenant payload;
     publish = publish_task_status we task_id
   in
     if query = [] then publish ''failed'' (Some ''No hay query SQL'') st
     else case resolve_user_id_for_db_path (we_paths we) (gstr payload ''user_id'' ''default'') target tenant_id of
       None \<Rightarrow> publish ''failed'' (Some (''db_path inv'' @ [CHR 0xE1] @ ''lido para el usuario'')) st
     | Some user_id \<Rightarrow>
         (case (if path_is_under_shared_tree (we_paths we) target
                then legacy_acl_check we tenant_id user_id target else Inr True) of
            Inl e \<Rightarrow> publish ''failed'' (Some (take 500 (''ACL shared check failed: '' @ error_text e))) st
          | Inr False \<Rightarrow> publish ''failed'' (Some ''sin grant de base compartida'') st
          | Inr True \<Rightarrow>
              (case run_legacy_sql_sync we task_id query (pget payload ''params'' (PList [])) target payload st of
                 (Inl e, st) \<Rightarrow> publish ''failed'' (Some (error_text e)) st
               | (Inr Already_completed, st) \<Rightarrow> publish ''success'' (Some ''already completed'') st
               | (Inr Completed, st) \<Rightarrow> publish ''success'' None st)))"

text \<open>
  The task id of a message that is not JSON: the literal after the first key \<open>task_id\<close> that is followed by a
  colon and a whole string literal.
\<close>

definition dquote :: char where "dquote = CHR 34"
definition backslash :: char where "backslash = CHR 92"

fun scan_literal :: "string \<Rightarrow> string option" where
  "scan_literal [] = None"
| "scan_literal (c # cs) =
     (if c = dquote then Some []
      else if c = backslash then
        (case cs of
           [] \<Rightarrow> None
         | d # ds \<Rightarrow> if d = CHR 10 then None else map_option (\<lambda>t. c # d # t) (scan_literal ds))
      else map_option ((#) c) (scan_literal cs))"

definition literal_after_key :: "string \<Rightarrow> string option" where
  "literal_after_key s = (let key = [dquote] @ ''task_id'' @ [dquote] in
     if \<not> startswith key s then None
     else case lstrip (drop (length key) s) of
       [] \<Rightarrow> None
     | c # cs \<Rightarrow> if c \<noteq> CHR '':'' then None
         else (case lstrip cs of [] \<Rightarrow> None | d # ds \<Rightarrow> if d = dquote then scan_literal ds else None))"

fun find_task_literal :: "string \<Rightarrow> string option" where
  "find_task_literal [] = None"
| "find_task_literal (c # cs) = (case literal_after_key (c # cs) of
     Some t \<Rightarrow> Some t | None \<Rightarrow> find_task_literal cs)"

definition extract_task_id_partial :: "'d writer_env \<Rightarrow> string \<Rightarrow> string" where
  "extract_task_id_partial we message = (case find_task_literal message of
     None \<Rightarrow> ''unknown''
   | Some raw \<Rightarrow> (case we_loads we ([dquote] @ raw @ [dquote]) of None \<Rightarrow> raw | Some v \<Rightarrow> pystr v))"

fun type_name :: "pyval \<Rightarrow> string" where
  "type_name PNone = ''NoneType''"
| "type_name (PBool b) = ''bool''"
| "type_name (PInt n) = ''int''"
| "type_name (PStr s) = ''str''"
| "type_name (PList xs) = ''list''"
| "type_name (PDict d) = ''dict''"

definition no_get_error :: "pyval \<Rightarrow> string" where
  "no_get_error v = [quote_char] @ type_name v @ [quote_char] @ '' object has no attribute '' @
     [quote_char] @ ''get'' @ [quote_char]"

definition execute_write :: "'d writer_env \<Rightarrow> string \<Rightarrow> 'd writer \<Rightarrow> 'd writer" where
  "execute_write we message st = (case we_loads we message of
     None \<Rightarrow> publish_task_status we (extract_task_id_partial we message) ''failed''
       (Some (''Formato JSON inv'' @ [CHR 0xE1] @ ''lido'')) st
   | Some v \<Rightarrow> (case v of
       PDict payload \<Rightarrow> (let
           task_id = gstr payload ''task_id'' ''unknown'';
           (handled, st) = handle_typed_command we task_id payload st
         in if handled then st else execute_legacy we task_id payload st)
     | _ \<Rightarrow> publish_task_status we ''unknown'' ''failed'' (Some (no_get_error v)) st))"

subsection \<open>Stores that remember finished tasks\<close>

text \<open>
  What the ledger gives its clients: an execution is remembered for \<open>keep\<close> seconds (for ever, when that is not
  positive), and a remembered task is not executed. \<open>sound\<close> are the events the store answers for.
\<close>

locale task_memory =
  fixes step :: "'e \<Rightarrow> 's \<Rightarrow> 's" and clock :: "'e \<Rightarrow> int" and keep :: int and sound :: "'e \<Rightarrow> bool"
    and remembered :: "'k \<Rightarrow> int \<Rightarrow> 's \<Rightarrow> bool" and executes :: "'k \<Rightarrow> 'e \<Rightarrow> 's \<Rightarrow> bool"
  assumes still_remembered: "sound e \<Longrightarrow> remembered k t s \<Longrightarrow> keep \<le> 0 \<or> clock e \<le> t + keep \<Longrightarrow> remembered k t (step e s)"
    and executes_unknown: "executes k e s \<Longrightarrow> \<not> remembered k t s"
    and executes_remembered: "sound e \<Longrightarrow> executes k e s \<Longrightarrow> remembered k (clock e) (step e s)"
begin

lemma run_remembers:
  "list_all sound es \<Longrightarrow> remembered k t s \<Longrightarrow> keep \<le> 0 \<or> (\<forall>e \<in> set es. clock e \<le> t + keep) \<Longrightarrow> remembered k t (fold step es s)"
  by (induction es arbitrary: s) (auto simp: still_remembered)

lemma executed_remembered:
  assumes "sound e" "executes k e s" "list_all sound es" "keep \<le> 0 \<or> (\<forall>x \<in> set es. clock x \<le> clock e + keep)"
  shows "remembered k (clock e) (fold step es (step e s))"
  using run_remembers [OF assms(3) executes_remembered [OF assms(1,2)] assms(4)] .

lemma apart:
  assumes "sound e" "list_all sound es" "executes k e s" "executes k e' (fold step es (step e s))" "\<forall>x \<in> set es. clock x \<le> clock e'"
  shows "0 < keep \<and> clock e + keep < clock e'"
proof (rule ccontr)
  assume "\<not> ?thesis"
  with assms(5) have "keep \<le> 0 \<or> (\<forall>x \<in> set es. clock x \<le> clock e + keep)" by force
  from executed_remembered [OF assms(1,3,2) this] executes_unknown [OF assms(4)] show False by blast
qed

end

subsection \<open>The ledger\<close>

lemma ledger_txn_cases:
  obtains (skipped) "ledger_is_completed task db" "ledger_txn ts body task ct p db = (Inr (Already_completed, p), db)"
  | (failed) e where "\<not> ledger_is_completed task db" "ledger_txn ts body task ct p db = (Inl e, db)"
  | (committed) db1 p' where "\<not> ledger_is_completed task db" "body p db = Inr (db1, p')"
      "\<not> has_key lg_task task (db_ledger db1)"
      "ledger_txn ts body task ct p db = (Inr (Completed, p'), db1\<lparr>db_ledger := db_ledger db1 @
        [\<lparr>lg_task = task, lg_type = ct, lg_json = json_default p', lg_status = ''completed'', lg_created = ts\<rparr>]\<rparr>)"
proof (cases "ledger_is_completed task db")
  case True
  then show ?thesis by (intro that(1)) (simp_all add: ledger_txn_def)
next
  case False
  show ?thesis
  proof (cases "body p db")
    case (Inl e)
    with False show ?thesis by (intro that(2) [of e]) (simp_all add: ledger_txn_def)
  next
    case (Inr r)
    then obtain db1 p' where r: "body p db = Inr (db1, p')" by (cases r) simp
    show ?thesis
    proof (cases "has_key lg_task task (db_ledger db1)")
      case True
      with False r show ?thesis
        by (intro that(2)) (simp_all add: ledger_txn_def ledger_insert_completed_def ins_row_def)
    next
      case no: False
      with False r show ?thesis
        by (intro that(3)) (simp_all add: ledger_txn_def ledger_insert_completed_def ins_row_def)
    qed
  qed
qed

subsection \<open>One message\<close>

lemma publish_simps [simp]:
  "wr_files (publish_task_status we t s d st) = wr_files st"
  "wr_files (mark_task we t st) = wr_files st"
  "wr_files (count_metric n st) = wr_files st"
  "wr_files (finish_task we t s d st) = wr_files st"
  "wr_migrated (publish_task_status we t s d st) = wr_migrated st"
  "wr_migrated (mark_task we t st) = wr_migrated st"
  "wr_migrated (count_metric n st) = wr_migrated st"
  "wr_migrated (finish_task we t s d st) = wr_migrated st"
  "wr_status (mark_task we t st) = wr_status st"
  "wr_status (count_metric n st) = wr_status st"
  "wr_status (publish_task_status we t s d st) = (wr_status st)
     (''task_status:'' @ t \<mapsto> (\<lparr>ts_status = s, ts_detail = d\<rparr>, we_now we + 60))"
  "wr_status (finish_task we t s d st) = (wr_status st)
     (''task_status:'' @ t \<mapsto> (\<lparr>ts_status = s, ts_detail = d\<rparr>, we_now we + 60))"
  by (simp_all add: publish_task_status_def mark_task_def count_metric_def finish_task_def)

lemma migrate_once_cases:
  obtains (refused) e st1 where "migrate_once we path st = (Some e, st1)" "wr_status st1 = wr_status st"
      "wr_files st1 = (wr_files st)(path := snd (we_migrate we (wr_files st path)))"
  | (migrated) st1 where "migrate_once we path st = (None, st1)" "wr_status st1 = wr_status st"
      "path \<in> set (wr_migrated st1)" "\<And>q. q \<noteq> path \<Longrightarrow> wr_files st1 q = wr_files st q"
proof -
  obtain err db where "we_migrate we (wr_files st path) = (err, db)" by fastforce
  then show thesis
    by (cases "path \<in> set (wr_migrated st)"; cases err)
      (auto simp: migrate_once_def intro: that)
qed

lemma prune_keeps_new:
  assumes "db_ledger (wr_files st path) = t @ [r]" and "lg_created r = we_now we" and "lg_task r = task"
    and "lg_status r = ''completed''" and "\<not> has_key lg_task task t"
  shows "ledger_is_completed task (wr_files (ledger_prune we path st) path)"
proof -
  have "\<not> we_now we < we_now we - we_retention_days we * 86400" if "0 < we_retention_days we"
    using that by simp
  with assms show ?thesis
    by (auto simp: ledger_prune_def ledger_is_completed_def Let_def del_where_def sel_one_append has_key_iff
        split: option.splits dest: sel_one_Some)
qed

lemma prune_simps [simp]:
  "wr_status (ledger_prune we path st) = wr_status st"
  "wr_migrated (ledger_prune we path st) = wr_migrated st"
  "q \<noteq> path \<Longrightarrow> wr_files (ledger_prune we path st) q = wr_files st q"
  by (simp_all add: ledger_prune_def Let_def)

lemma run_transaction_cases:
  obtains (refused) e st1 where "run_transaction we body task ct p path st = (Inl e, st1)"
      "wr_status st1 = wr_status st"
      "\<And>q. q \<noteq> path \<Longrightarrow> wr_files st1 q = wr_files st q"
  | (finished) out p' st1 where "run_transaction we body task ct p path st = (Inr (out, p'), st1)"
      "wr_status st1 = wr_status st" "path \<in> set (wr_migrated st1)" "ledger_is_completed task (wr_files st1 path)"
      "\<And>q. q \<noteq> path \<Longrightarrow> wr_files st1 q = wr_files st q"
proof (cases "we_connect we path")
  case (Some e)
  then show ?thesis by (intro that(1)) (simp_all add: run_transaction_def)
next
  case con: None
  show ?thesis
  proof (cases rule: migrate_once_cases [of we path st])
    case (refused e st1)
    then show ?thesis by (intro that(1) [of e st1]) (simp_all add: run_transaction_def con)
  next
    case (migrated st1)
    show ?thesis
    proof (cases rule: ledger_txn_cases [of task "wr_files st1 path" "we_now we" body ct p])
      case skipped
      with migrated con show ?thesis by (intro that(2) [of Already_completed p st1]) (simp_all add: run_transaction_def)
    next
      case (failed e)
      with migrated con show ?thesis by (intro that(1) [of e st1]) (simp_all add: run_transaction_def)
    next
      case (committed db1 p')
      let ?db = "db1\<lparr>db_ledger := db_ledger db1 @ [\<lparr>lg_task = task, lg_type = ct,
        lg_json = json_default p', lg_status = ''completed'', lg_created = we_now we\<rparr>]\<rparr>"
      let ?st = "st1\<lparr>wr_files := (wr_files st1)(path := ?db)\<rparr>"
      have "ledger_is_completed task (wr_files (ledger_prune we path ?st) path)"
        by (rule prune_keeps_new [where t = "db_ledger db1"]) (simp, simp_all add: committed(3))
      with migrated con committed(4) show ?thesis
        by (intro that(2) [of Completed p' "ledger_prune we path ?st"]) (simp_all add: run_transaction_def)
    qed
  qed
qed

text \<open>The task and the database a message is about.\<close>

definition payload_task :: "payload \<Rightarrow> string" where
  "payload_task p = gstr p ''task_id'' ''unknown''"

definition payload_target :: "'d writer_env \<Rightarrow> payload \<Rightarrow> string" where
  "payload_target we p = gstr p ''db_path'' (we_default_path we)"

definition answered :: "'d writer_env \<Rightarrow> string \<Rightarrow> string \<Rightarrow> 'd writer \<Rightarrow> bool" where
  "answered we task status st \<longleftrightarrow>
     (\<exists>d. wr_status st (''task_status:'' @ task) = Some (\<lparr>ts_status = status, ts_detail = d\<rparr>, we_now we + 60))"

text \<open>What handling one message leaves behind.\<close>

definition good_answer :: "'d writer_env \<Rightarrow> string \<Rightarrow> string \<Rightarrow> bool \<Rightarrow> 'd writer \<Rightarrow> 'd writer \<Rightarrow> bool" where
  "good_answer we task target dup st st' \<longleftrightarrow>
     (answered we task ''failed'' st' \<or> answered we task ''success'' st' \<and>
        (dup \<or> ledger_is_completed task (wr_files st' target) \<and> target \<in> set (wr_migrated st'))) \<and>
     (\<forall>q. q \<noteq> target \<longrightarrow> wr_files st' q = wr_files st q)"

lemma answered_finish [simp]: "answered we t s (finish_task we t s d st)"
  by (simp add: answered_def)

lemma answered_publish [simp]: "answered we t s (publish_task_status we t s d st)"
  by (simp add: answered_def)

lemma answered_marks [simp]:
  "answered we t s (mark_task we t' st) = answered we t s st"
  "answered we t s (count_metric n st) = answered we t s st"
  by (simp_all add: answered_def)

lemma handle_typed_answer:
  assumes "handle_typed_command we task p st = (True, st')"
  shows "good_answer we task (payload_target we p) (is_duplicate_task we task st) st st'"
proof -
  let ?ct = "strip (gstr p ''command_type'' [])" and ?target = "gstr p ''db_path'' (we_default_path we)"
  let ?tid = "gstr p ''tenant_id'' ''default''"
  let ?uid = "pystr (por (pget p ''db_write_user_id'' PNone) (por (pget p ''user_id'' PNone) (PStr ''default'')))"
  have ct: "?ct \<noteq> []" using assms by (auto simp: handle_typed_command_def)
  note unfold = handle_typed_command_def good_answer_def payload_target_def Let_def
  show ?thesis
  proof (cases "is_duplicate_task we task st")
    case True
    with assms ct show ?thesis by (auto simp: unfold)
  next
    case dup: False
    show ?thesis
    proof (cases "validate_target_db_path we ?uid ?target (if ?tid \<noteq> ''default'' then Some ?tid else None)")
      case (Inl e)
      with assms ct dup show ?thesis by (auto simp: unfold)
    next
      case (Inr u)
      show ?thesis
      proof (cases rule: run_transaction_cases [of we "typed_body we ?ct" task ?ct p ?target st])
        case (refused e st1)
        with assms ct dup Inr show ?thesis by (auto simp: unfold run_typed_command_sync_def)
      next
        case (finished out p' st1)
        with assms ct dup Inr show ?thesis
          by (cases out) (auto simp: unfold run_typed_command_sync_def)
      qed
    qed
  qed
qed

lemma execute_legacy_answer: "good_answer we task (payload_target we p) False st (execute_legacy we task p st)"
proof -
  let ?target = "gstr p ''db_path'' (we_default_path we)" and ?q = "gstr p ''query'' []"
  let ?body = "\<lambda>payload db. bindE (we_sql we ?q (pget p ''params'' (PList [])) db) (\<lambda>db. Inr (db, payload))"
  note unfold = execute_legacy_def good_answer_def payload_target_def Let_def run_legacy_sql_sync_def
  show ?thesis
  proof (cases rule: run_transaction_cases [of we ?body task "''legacy_sql''" p ?target st])
    case (refused e st1)
    then show ?thesis by (auto simp: unfold split: option.splits sum.splits bool.splits)
  next
    case (finished out p' st1)
    then show ?thesis
      by (cases out) (auto simp: unfold split: option.splits sum.splits bool.splits)
  qed
qed

lemma execute_write_answer:
  assumes "we_loads we m = Some (PDict p)"
  shows "good_answer we (payload_task p) (payload_target we p)
    (strip (gstr p ''command_type'' []) \<noteq> [] \<and> is_duplicate_task we (payload_task p) st) st (execute_write we m st)"
proof (cases "strip (gstr p ''command_type'' []) = []")
  case True
  then show ?thesis using execute_legacy_answer [of we "payload_task p" p st] assms
    by (simp add: execute_write_def handle_typed_command_def payload_task_def)
next
  case False
  obtain h st1 where h: "handle_typed_command we (payload_task p) p st = (h, st1)" by fastforce
  with False have "h"
    by (auto simp: handle_typed_command_def Let_def split: if_splits sum.splits prod.splits outcome.splits)
  with h False show ?thesis using handle_typed_answer [of we "payload_task p" p st st1] assms
    by (simp add: execute_write_def payload_task_def)
qed

subsection \<open>Runs of the writer\<close>

text \<open>
  What happens to a writer: a message is handled, with its own environment; the process is restarted and forgets what it
  has migrated and pruned; Redis loses its marks.
\<close>

datatype 'd writer_event = Delivery "'d writer_env" string | Restart int | Marks_lost int

fun event_time :: "'d writer_event \<Rightarrow> int" where
  "event_time (Delivery we m) = we_now we"
| "event_time (Restart t) = t"
| "event_time (Marks_lost t) = t"

fun writer_step :: "'d writer_event \<Rightarrow> 'd writer \<Rightarrow> 'd writer" where
  "writer_step (Delivery we m) st = execute_write we m st"
| "writer_step (Restart t) st = st\<lparr>wr_migrated := [], wr_pruned := (\<lambda>_. None)\<rparr>"
| "writer_step (Marks_lost t) st = st\<lparr>wr_dedup := (\<lambda>_. None)\<rparr>"

text \<open>The retention is the configured one; raw statements and migrations leave the rows of the ledger alone.\<close>

fun sound_event :: "int \<Rightarrow> 'd writer_event \<Rightarrow> bool" where
  "sound_event d (Delivery we m) \<longleftrightarrow> we_retention_days we = d \<and>
     (\<forall>q v db db'. we_sql we q v db = Inr db' \<longrightarrow> db_ledger db' = db_ledger db) \<and> (\<forall>db. db_ledger (snd (we_migrate we db)) = db_ledger db)"
| "sound_event d e \<longleftrightarrow> True"

text \<open>A task and the database it is for: executed by an event when its row appears, remembered while it is there.\<close>

fun executes :: "string \<times> string \<Rightarrow> 'd writer_event \<Rightarrow> 'd writer \<Rightarrow> bool" where
  "executes (task, path) e st \<longleftrightarrow> \<not> has_key lg_task task (db_ledger (wr_files st path)) \<and>
     ledger_is_completed task (wr_files (writer_step e st) path)"

definition remembered :: "string \<times> string \<Rightarrow> int \<Rightarrow> 'd writer \<Rightarrow> bool" where
  "remembered k t st \<longleftrightarrow> (\<exists>r. sel_one (\<lambda>r. lg_task r = fst k) (db_ledger (wr_files st (snd k))) = Some r \<and>
     lg_status r = ''completed'' \<and> t \<le> lg_created r)"

text \<open>What one message does to the rows of a ledger: some are appended, and those past the retention may go.\<close>

definition ledger_moves :: "int \<Rightarrow> int \<Rightarrow> ledger_row list \<Rightarrow> ledger_row list \<Rightarrow> bool" where
  "ledger_moves d t rows rows' \<longleftrightarrow> (\<exists>new P. rows' = filter P (rows @ new) \<and> (\<forall>r \<in> set new. lg_created r = t) \<and>
     (\<forall>r. P r \<or> 0 < d \<and> lg_created r < t - d * 86400))"

lemma moves_refl: "ledger_moves d t rows rows"
  unfolding ledger_moves_def by (intro exI [of _ "[]"] exI [of _ "\<lambda>_. True"]) simp

lemma sel_one_filter: "sel_one p rows = Some r \<Longrightarrow> P r \<Longrightarrow> sel_one p (filter P (rows @ new)) = Some r"
  by (induction rows) (auto simp: sel_one_def)

lemma moves_remember:
  assumes "ledger_moves d t rows rows'" "sel_one p rows = Some r" "d \<le> 0 \<or> t \<le> lg_created r + d * 86400"
  shows "sel_one p rows' = Some r"
proof -
  from assms(1) obtain new P where m: "rows' = filter P (rows @ new)" "\<And>r. P r \<or> 0 < d \<and> lg_created r < t - d * 86400"
    unfolding ledger_moves_def by blast
  have "P r" using m(2) [of r] assms(3) by auto
  with assms(2) show ?thesis unfolding m(1) by (rule sel_one_filter)
qed

lemma moves_append: "ledger_moves d t rows (rows @ [r])" if "lg_created r = t"
  unfolding ledger_moves_def using that by (intro exI [of _ "[r]"] exI [of _ "\<lambda>_. True"]) simp

lemma moves_prune: "ledger_moves d t rows (del_where (\<lambda>r. lg_created r < t - d * 86400) (rows @ [r]))" if "lg_created r = t" "0 < d"
  unfolding ledger_moves_def del_where_def using that
  by (intro exI [of _ "[r]"] exI [of _ "\<lambda>r. \<not> lg_created r < t - d * 86400"]) auto

definition private_body :: "'d body \<Rightarrow> bool" where
  "private_body body \<longleftrightarrow> (\<forall>p db db' p'. body p db = Inr (db', p') \<longrightarrow> db_ledger db' = db_ledger db)"

lemma migrate_once_files: "wr_files (snd (migrate_once we path st)) =
    (if path \<in> set (wr_migrated st) then wr_files st else (wr_files st)(path := snd (we_migrate we (wr_files st path))))"
  by (simp add: migrate_once_def Let_def split: prod.split option.split)

lemma prune_ledger:
  "db_ledger (wr_files (ledger_prune we path st) path) = db_ledger (wr_files st path) \<or> 0 < we_retention_days we \<and>
     db_ledger (wr_files (ledger_prune we path st) path) =
       del_where (\<lambda>r. lg_created r < we_now we - we_retention_days we * 86400) (db_ledger (wr_files st path))"
  "db_data (wr_files (ledger_prune we path st) q) = db_data (wr_files st q)"
  by (auto simp: ledger_prune_def Let_def)

text \<open>One transaction: what it does to the ledgers and to the contents.\<close>

lemma transaction_effect:
  assumes "sound_event d (Delivery we m)" "private_body body" "st' = snd (run_transaction we body task ct p path st)"
  shows "ledger_moves d (we_now we) (db_ledger (wr_files st q)) (db_ledger (wr_files st' q)) \<and>
    (db_data (wr_files st' q) \<in> {db_data (wr_files st q), db_data (snd (we_migrate we (wr_files st q)))} \<or>
     q = path \<and> \<not> has_key lg_task task (db_ledger (wr_files st path)) \<and> ledger_is_completed task (wr_files st' path))"
proof (cases "we_connect we path")
  case (Some e)
  then show ?thesis using assms(3) by (simp add: run_transaction_def moves_refl)
next
  case con: None
  obtain err st1 where mig: "migrate_once we path st = (err, st1)" by fastforce
  have l1: "db_ledger (wr_files st1 q) = db_ledger (wr_files st q)" for q
    using migrate_once_files [of we path st] assms(1) by (simp add: mig)
  have d1: "db_data (wr_files st1 q) \<in> {db_data (wr_files st q), db_data (snd (we_migrate we (wr_files st q)))}"
    using migrate_once_files [of we path st] by (simp add: mig)
  show ?thesis
  proof (cases err)
    case (Some e)
    then show ?thesis using assms(3) con mig l1 d1 by (simp add: run_transaction_def moves_refl)
  next
    case None
    show ?thesis
    proof (cases rule: ledger_txn_cases [of task "wr_files st1 path" "we_now we" body ct p])
      case skipped
      then show ?thesis using assms(3) con mig None l1 d1 by (simp add: run_transaction_def moves_refl)
    next
      case (failed e)
      then show ?thesis using assms(3) con mig None l1 d1 by (simp add: run_transaction_def moves_refl)
    next
      case (committed db1 p')
      let ?row = "\<lparr>lg_task = task, lg_type = ct, lg_json = json_default p', lg_status = ''completed'', lg_created = we_now we\<rparr>"
      let ?st = "st1\<lparr>wr_files := (wr_files st1)(path := db1\<lparr>db_ledger := db_ledger db1 @ [?row]\<rparr>)\<rparr>"
      have st': "st' = ledger_prune we path ?st" using assms(3) con mig None committed(4) by (simp add: run_transaction_def)
      have b: "db_ledger db1 = db_ledger (wr_files st path)" using assms(2) committed(2) l1 unfolding private_body_def by metis
      have "ledger_is_completed task (wr_files (ledger_prune we path ?st) path)"
        by (rule prune_keeps_new [where t = "db_ledger db1"]) (simp, simp_all add: committed(3))
      moreover have "ledger_moves d (we_now we) (db_ledger (wr_files st path)) (db_ledger (wr_files st' path))"
        using prune_ledger(1) [of we path ?st] moves_append [of ?row "we_now we"] moves_prune [of ?row "we_now we" d] assms(1)
        by (auto simp: st' b)
      ultimately show ?thesis using committed(3) b l1 d1
        by (cases "q = path") (auto simp: st' prune_ledger(2) moves_refl)
    qed
  qed
qed

lemma transaction_skips:
  assumes "sound_event d (Delivery we m)" "ledger_is_completed task (wr_files st path)" "st' = snd (run_transaction we body task ct p path st)"
  shows "wr_files st' \<in> {wr_files st, (wr_files st)(path := snd (we_migrate we (wr_files st path)))} \<and>
    (path \<in> set (wr_migrated st) \<longrightarrow> wr_files st' = wr_files st)"
proof (cases "we_connect we path")
  case (Some e)
  then show ?thesis using assms(3) by (simp add: run_transaction_def)
next
  case con: None
  obtain err st1 where mig: "migrate_once we path st = (err, st1)" by fastforce
  have f: "wr_files st1 = (if path \<in> set (wr_migrated st) then wr_files st else (wr_files st)(path := snd (we_migrate we (wr_files st path))))"
    using migrate_once_files [of we path st] by (simp add: mig)
  have "ledger_is_completed task (wr_files st1 path)" using assms(1,2) by (simp add: f ledger_is_completed_def)
  then have "wr_files st' = wr_files st1"
    using assms(3) con mig by (cases err) (simp_all add: run_transaction_def ledger_txn_def)
  then show ?thesis by (simp add: f)
qed

text \<open>A message runs at most one transaction, on the task and the database it names.\<close>

lemma typed_runs:
  assumes "sound_event d (Delivery we m)"
  shows "wr_files (snd (handle_typed_command we task p st)) = wr_files st \<or> (\<exists>body ct. private_body body \<and>
    wr_files (snd (handle_typed_command we task p st)) = wr_files (snd (run_transaction we body task ct p (payload_target we p) st)))"
proof -
  let ?ct = "strip (gstr p ''command_type'' [])" and ?path = "payload_target we p"
  have b: "private_body (typed_body we ?ct)" using assms
    by (auto simp: private_body_def typed_body_def Let_def contents_body_def split: if_split_asm elim!: bindE_InrE)
  obtain r st1 where r: "run_transaction we (typed_body we ?ct) task ?ct p ?path st = (r, st1)" by fastforce
  have "wr_files (snd (handle_typed_command we task p st)) \<in> {wr_files st, wr_files st1}"
    using r by (auto simp: handle_typed_command_def Let_def run_typed_command_sync_def payload_target_def
        split: sum.split outcome.split prod.split)
  then show ?thesis
  proof (elim insertE emptyE)
    assume "wr_files (snd (handle_typed_command we task p st)) = wr_files st1"
    with b r show ?thesis by (intro disjI2 exI [of _ "typed_body we ?ct"] exI [of _ ?ct]) simp
  qed simp
qed

lemma legacy_runs:
  assumes "sound_event d (Delivery we m)"
  shows "wr_files (execute_legacy we task p st) = wr_files st \<or> (\<exists>body ct. private_body body \<and>
    wr_files (execute_legacy we task p st) = wr_files (snd (run_transaction we body task ct p (payload_target we p) st)))"
proof -
  let ?body = "\<lambda>payload db. bindE (we_sql we (gstr p ''query'' []) (pget p ''params'' (PList [])) db) (\<lambda>db. Inr (db, payload))"
  have b: "private_body ?body" using assms by (auto simp: private_body_def elim!: bindE_InrE)
  obtain r st1 where r: "run_transaction we ?body task ''legacy_sql'' p (payload_target we p) st = (r, st1)" by fastforce
  have "wr_files (execute_legacy we task p st) \<in> {wr_files st, wr_files st1}"
    using r by (auto simp: execute_legacy_def Let_def run_legacy_sql_sync_def payload_target_def
        split: sum.split outcome.split prod.split option.split bool.split)
  then show ?thesis
  proof (elim insertE emptyE)
    assume "wr_files (execute_legacy we task p st) = wr_files st1"
    with b r show ?thesis by (intro disjI2 exI [of _ ?body] exI [of _ "''legacy_sql''"]) simp
  qed simp
qed

lemma message_runs:
  assumes "sound_event d (Delivery we m)"
  shows "wr_files (execute_write we m st) = wr_files st \<or> (\<exists>p body ct. we_loads we m = Some (PDict p) \<and> private_body body \<and>
    wr_files (execute_write we m st) = wr_files (snd (run_transaction we body (payload_task p) ct p (payload_target we p) st)))"
proof (cases "\<exists>p. we_loads we m = Some (PDict p)")
  case False
  then show ?thesis by (auto simp: execute_write_def split: option.split pyval.split)
next
  case True
  then obtain p where p: "we_loads we m = Some (PDict p)" by blast
  obtain h st1 where h: "handle_typed_command we (payload_task p) p st = (h, st1)" by fastforce
  have "st1 = st" if "\<not> h"
    using h that by (auto simp: handle_typed_command_def Let_def split: if_splits sum.splits prod.splits outcome.splits)
  with p h typed_runs [OF assms, of "payload_task p" p st] legacy_runs [OF assms, of "payload_task p" p st]
  show ?thesis by (cases h) (auto simp: execute_write_def payload_task_def)
qed

lemma message_effect:
  assumes "sound_event d (Delivery we m)"
  shows "ledger_moves d (we_now we) (db_ledger (wr_files st q)) (db_ledger (wr_files (execute_write we m st) q))"
  using message_runs [OF assms, of st]
proof (elim disjE exE conjE)
  fix p body ct
  assume "private_body body" "wr_files (execute_write we m st) = wr_files (snd (run_transaction we body (payload_task p) ct p (payload_target we p) st))"
  with transaction_effect [OF assms this(1) refl, where task = "payload_task p" and ct = ct and p = p and path = "payload_target we p" and st = st and q = q] show ?thesis by simp
qed (simp add: moves_refl)

lemma contents_change:
  assumes "sound_event d (Delivery we m)"
  shows "db_data (wr_files (execute_write we m st) q) \<in> {db_data (wr_files st q), db_data (snd (we_migrate we (wr_files st q)))} \<or>
    (\<exists>task. executes (task, q) (Delivery we m) st)"
  using message_runs [OF assms, of st]
proof (elim disjE exE conjE)
  fix p body ct
  assume r: "private_body body" "wr_files (execute_write we m st) = wr_files (snd (run_transaction we body (payload_task p) ct p (payload_target we p) st))"
  from transaction_effect [OF assms r(1) refl, where task = "payload_task p" and ct = ct and p = p and path = "payload_target we p" and st = st and q = q] show ?thesis
    by (auto simp: r(2))
qed simp

lemma remembered_skips:
  assumes "sound_event d (Delivery we m)" "we_loads we m = Some (PDict p)" "ledger_is_completed (payload_task p) (wr_files st (payload_target we p))"
  shows "wr_files (execute_write we m st) \<in> {wr_files st, (wr_files st)(payload_target we p := snd (we_migrate we (wr_files st (payload_target we p))))} \<and>
    (payload_target we p \<in> set (wr_migrated st) \<longrightarrow> wr_files (execute_write we m st) = wr_files st)"
  using message_runs [OF assms(1), of st]
proof (elim disjE exE conjE)
  fix p' body ct
  assume r: "we_loads we m = Some (PDict p')"
    "wr_files (execute_write we m st) = wr_files (snd (run_transaction we body (payload_task p') ct p' (payload_target we p') st))"
  with assms(2) have "p' = p" by simp
  with transaction_skips [OF assms(1,3) refl, of body ct p] r(2) show ?thesis by simp
qed simp

text \<open>The writer's ledger keeps the promise.\<close>

interpretation ledger: task_memory writer_step event_time "d * 86400" "sound_event d" remembered executes for d
proof
  fix e :: "'a writer_event" and k :: "string \<times> string" and t :: int and s :: "'a writer"
  obtain task path where k: "k = (task, path)" by (cases k)
  have m: "ledger_moves d (event_time e) (db_ledger (wr_files s path)) (db_ledger (wr_files (writer_step e s) path))" if "sound_event d e"
    using that by (cases e) (simp_all add: moves_refl message_effect)
  show "sound_event d e \<Longrightarrow> remembered k t s \<Longrightarrow> d * 86400 \<le> 0 \<or> event_time e \<le> t + d * 86400 \<Longrightarrow> remembered k t (writer_step e s)"
    by (auto simp: remembered_def k dest!: m elim!: moves_remember)
  show "executes k e s \<Longrightarrow> \<not> remembered k t s"
    by (auto simp: k remembered_def has_key_iff dest!: sel_one_Some)
  assume a: "sound_event d e" "executes k e s"
  then obtain r where r: "sel_one (\<lambda>r. lg_task r = task) (db_ledger (wr_files (writer_step e s) path)) = Some r" "lg_status r = ''completed''"
    by (auto simp: k ledger_is_completed_def split: option.splits)
  from m [OF a(1)] obtain new P where "db_ledger (wr_files (writer_step e s) path) = filter P (db_ledger (wr_files s path) @ new)"
    "\<forall>r \<in> set new. lg_created r = event_time e" by (auto simp: ledger_moves_def)
  with sel_one_Some [OF r(1)] a(2) have "lg_created r = event_time e" by (auto simp: k has_key_iff)
  with r show "remembered k (event_time e) (writer_step e s)" by (simp add: remembered_def k)
qed

lemma answered_unique: "answered we t s st \<Longrightarrow> answered we t s' st \<Longrightarrow> s = s'"
  by (auto simp: answered_def)

lemma dedup_simps [simp]:
  "wr_dedup (publish_task_status we t s d st) = wr_dedup st"
  "wr_dedup (finish_task we t s d st) = wr_dedup st"
  "wr_dedup (count_metric n st) = wr_dedup st"
  "wr_dedup (mark_task we t st) = (wr_dedup st)(''dedup:task:'' @ t \<mapsto> we_now we + 120)"
  by (simp_all add: publish_task_status_def mark_task_def count_metric_def finish_task_def)

lemma typed_success_marked:
  assumes "strip (gstr p ''command_type'' []) \<noteq> []" and "\<not> is_duplicate_task we task st"
    and "handle_typed_command we task p st = (True, st')" and "answered we task ''success'' st'"
  shows "wr_dedup st' (''dedup:task:'' @ task) = Some (we_now we + 120)"
  using assms
  by (auto simp: handle_typed_command_def Let_def split: sum.splits prod.splits outcome.splits
      dest: answered_unique [OF answered_finish])

subsection \<open>Properties\<close>

text \<open>
  C1. At most once per retention: in any run of messages - typed, raw SQL and legacy, repeated and reordered - with restarts
  of the process and losses of the Redis marks in between, two executions of one task on one database are more than the
  ledger's retention apart, and with the retention switched off there is only one; nothing but an execution or a migration
  changes the contents of a database. Raw statements and migrations are assumed to leave the ledger's rows alone.
\<close>

lemma executions_apart:
  assumes "list_all (sound_event d) (e # es)" "executes k e st" "executes k e' (fold writer_step es (writer_step e st))"
    "\<forall>x \<in> set es. event_time x \<le> event_time e'" "sound_event d (Delivery we m)"
  shows "0 < d \<and> event_time e + d * 86400 < event_time e' \<and>
    (db_data (wr_files (execute_write we m st') q) \<in> {db_data (wr_files st' q), db_data (snd (we_migrate we (wr_files st' q)))} \<or>
     (\<exists>task. executes (task, q) (Delivery we m) st'))"
  using ledger.apart [of d e es k st e'] assms contents_change [OF assms(5), of st' q] by auto

definition writer_demo_env :: "string list writer_env" where
  "writer_demo_env = \<lparr>we_now = 10, we_monotonic = 10, we_retention_days = 14,
     we_default_path = ''/r/db/a.duckdb'', we_connect = (\<lambda>_. None), we_migrate = (\<lambda>db. (None, db)),
     we_sql = (\<lambda>q _ db. Inr (db\<lparr>db_data := q # db_data db\<rparr>)),
     we_handlers = [(''add'', \<lambda>p d. Inr (gstr p ''x'' [] # d, p))],
     we_loads = (\<lambda>m. if m = ''1'' then Some (PDict [(''command_type'', PStr ''add''), (''x'', PStr ''a'')])
       else if m = ''2'' then Some (PDict [(''command_type'', PStr ''add''), (''x'', PStr ''b'')])
       else if m = ''3'' then Some (PDict [(''task_id'', PStr ''t3''), (''query'', PStr ''q'')]) else None),
     we_paths = path_env0, we_getenv = (\<lambda>_. []), we_oddq = (\<lambda>_ _. []), we_acl = Inr [], we_acl_ddl = None\<rparr>"

definition writer_demo :: "string list writer" where
  "writer_demo = \<lparr>wr_files = (\<lambda>_. \<lparr>db_data = [], db_ledger = []\<rparr>), wr_migrated = [], wr_pruned = (\<lambda>_. None),
     wr_dedup = (\<lambda>_. None), wr_status = (\<lambda>_. None),
     wr_redis = \<lparr>rq_lists = (\<lambda>_. []), rq_leases = (\<lambda>_. []), rq_metrics = (\<lambda>_. 0)\<rparr>\<rparr>"

definition later_env :: "int \<Rightarrow> string list writer_env" where
  "later_env t = writer_demo_env\<lparr>we_now := t, we_monotonic := t\<rparr>"

lemma writer_demo_sound: "sound_event 14 (Delivery writer_demo_env m)" "sound_event 14 (Delivery (later_env t) m)"
  by (auto simp: writer_demo_env_def later_env_def)

text \<open>The same message after fifteen days, when another one has had the ledger cleaned: it is executed again.\<close>

lemma executions_apart_witness:
  "\<exists>e'. executes (''t3'', ''/r/db/a.duckdb'') e' (fold writer_step [Restart 11, Delivery (later_env 1300000) ''1''] (execute_write writer_demo_env ''3'' writer_demo)) \<and>
     10 + 14 * 86400 < event_time e'"
proof -
  let ?es = "[Restart 11, Delivery (later_env 1300000) ''1'']" and ?e' = "Delivery (later_env 1300001) ''3''"
  have e: "executes (''t3'', ''/r/db/a.duckdb'') (Delivery writer_demo_env ''3'') writer_demo"
    "executes (''t3'', ''/r/db/a.duckdb'') ?e' (fold writer_step ?es (writer_step (Delivery writer_demo_env ''3'') writer_demo))" by code_simp+
  from executions_apart [where es = ?es and d = 14 and we = writer_demo_env, OF _ e] e(2) show ?thesis
    by (intro exI [of _ ?e']) (simp add: writer_demo_sound, simp add: later_env_def writer_demo_env_def)
qed

text \<open>
  C4. Every message that decodes to an object is answered within its own task's key, as a failure or as a
  success; a success that did not come from the short-lived Redis mark means the task is in the ledger of the
  database it names; and no other database is touched.
\<close>

lemma every_message_answered:
  assumes "we_loads we m = Some (PDict p)"
  shows "(answered we (payload_task p) ''failed'' (execute_write we m st) \<or>
      answered we (payload_task p) ''success'' (execute_write we m st) \<and>
      (is_duplicate_task we (payload_task p) st \<or>
       ledger_is_completed (payload_task p) (wr_files (execute_write we m st) (payload_target we p)))) \<and>
    (\<forall>q. q \<noteq> payload_target we p \<longrightarrow> wr_files (execute_write we m st) q = wr_files st q)"
  using execute_write_answer [OF assms] by (auto simp: good_answer_def)

lemma every_message_answered_witness:
  "answered writer_demo_env ''unknown'' ''success'' (execute_write writer_demo_env ''1'' writer_demo) \<and>
   ledger_is_completed ''unknown'' (wr_files (execute_write writer_demo_env ''1'' writer_demo) ''/r/db/a.duckdb'') \<and>
   wr_files (execute_write writer_demo_env ''1'' writer_demo) ''/r/db/b.duckdb'' = wr_files writer_demo ''/r/db/b.duckdb''"
proof -
  let ?p = "[(''command_type'', PStr ''add''), (''x'', PStr ''a'')]"
  let ?s = "execute_write writer_demo_env ''1'' writer_demo"
  have l: "we_loads writer_demo_env ''1'' = Some (PDict ?p)" by (simp add: writer_demo_env_def)
  have t: "payload_task ?p = ''unknown''" "payload_target writer_demo_env ?p = ''/r/db/a.duckdb''" by code_simp+
  have d: "\<not> is_duplicate_task writer_demo_env ''unknown'' writer_demo" by code_simp
  have "map_option (ts_status o fst) (wr_status ?s (''task_status:'' @ ''unknown'')) = Some ''success''" by code_simp
  then have "\<not> answered writer_demo_env ''unknown'' ''failed'' ?s" by (auto simp: answered_def)
  then show ?thesis using every_message_answered [OF l, of writer_demo] t d by auto
qed

text \<open>
  C2. Until the retention has passed after an execution, another message for the same task and database - in particular the
  same message again, after whatever messages, restarts and losses of the Redis marks - changes no database but for the
  migrations a restarted process may still have to run on it.
\<close>

lemma redelivery_changes_nothing:
  assumes "list_all (sound_event d) (Delivery we m # es)" "executes (task, path) (Delivery we m) st"
    "d \<le> 0 \<or> (\<forall>x \<in> set es. event_time x \<le> we_now we + d * 86400)" "st' = fold writer_step es (execute_write we m st)"
    "we_loads we' m' = Some (PDict p)" "payload_task p = task" "payload_target we' p = path" "sound_event d (Delivery we' m')"
  shows "wr_files (execute_write we' m' st') \<in> {wr_files st', (wr_files st')(path := snd (we_migrate we' (wr_files st' path)))} \<and>
    (path \<in> set (wr_migrated st') \<longrightarrow> wr_files (execute_write we' m' st') = wr_files st')"
proof -
  have "remembered (task, path) (we_now we) st'"
    using ledger.executed_remembered [of d "Delivery we m" "(task, path)" st es] assms(1-3) unfolding assms(4) by auto
  then have "ledger_is_completed task (wr_files st' path)" by (auto simp: remembered_def ledger_is_completed_def)
  with remembered_skips [OF assms(8,5), of st'] assms(6,7) show ?thesis by simp
qed

lemma redelivery_changes_nothing_witness:
  "db_data (wr_files (execute_write writer_demo_env ''3'' writer_demo) ''/r/db/a.duckdb'') = [''q''] \<and>
   db_data (wr_files (execute_write writer_demo_env ''3'' (writer_step (Restart 11) (execute_write writer_demo_env ''3'' writer_demo)))
     ''/r/db/a.duckdb'') = [''q'']"
proof -
  let ?s = "execute_write writer_demo_env ''3'' writer_demo" and ?p = "[(''task_id'', PStr ''t3''), (''query'', PStr ''q'')]"
  have e: "executes (''t3'', ''/r/db/a.duckdb'') (Delivery writer_demo_env ''3'') writer_demo" by code_simp
  have l: "we_loads writer_demo_env ''3'' = Some (PDict ?p)" by (simp add: writer_demo_env_def)
  have t: "payload_task ?p = ''t3''" "payload_target writer_demo_env ?p = ''/r/db/a.duckdb''" by code_simp+
  have m: "snd (we_migrate writer_demo_env db) = db" for db by (simp add: writer_demo_env_def)
  have "db_data (wr_files ?s ''/r/db/a.duckdb'') = [''q'']" by code_simp
  with redelivery_changes_nothing [where es = "[Restart 11]" and d = 14, OF _ e _ _ l t, of "writer_step (Restart 11) ?s"]
  show ?thesis by (simp add: writer_demo_sound) (simp add: writer_demo_env_def)
qed

text \<open>
  Commands without a task id share one: after a typed command without \<open>task_id\<close> has succeeded, a
  different one without \<open>task_id\<close>, for any database, is answered with success within the next two minutes
  and not executed.
\<close>

lemma taskless_command_dropped:
  assumes "we_loads we m = Some (PDict p)" and "strip (gstr p ''command_type'' []) \<noteq> []"
    and "map_of p ''task_id'' = None" and "\<not> is_duplicate_task we ''unknown'' st"
    and "answered we ''unknown'' ''success'' (execute_write we m st)"
    and "we_loads we' m' = Some (PDict p')" and "strip (gstr p' ''command_type'' []) \<noteq> []"
    and "map_of p' ''task_id'' = None" and "we_now we' < we_now we + 120"
  shows "wr_files (execute_write we' m' (execute_write we m st)) = wr_files (execute_write we m st) \<and>
    answered we' ''unknown'' ''success'' (execute_write we' m' (execute_write we m st))"
proof -
  let ?s = "execute_write we m st"
  have u: "gstr q ''task_id'' ''unknown'' = ''unknown''" if "map_of q ''task_id'' = None" for q
    using that by (simp add: gstr_none)
  obtain h st1 where h: "handle_typed_command we ''unknown'' p st = (h, st1)" by fastforce
  with assms(2) have "h"
    by (auto simp: handle_typed_command_def Let_def split: if_splits sum.splits prod.splits outcome.splits)
  with h assms(1,3) u have s: "?s = st1" by (simp add: execute_write_def)
  have "wr_dedup ?s (''dedup:task:'' @ ''unknown'') = Some (we_now we + 120)"
    using typed_success_marked [OF assms(2,4)] h \<open>h\<close> assms(5) s by simp
  then have "is_duplicate_task we' ''unknown'' ?s" using assms(9) by (simp add: is_duplicate_task_def)
  then show ?thesis using assms(6-8) u
    by (simp add: execute_write_def handle_typed_command_def Let_def)
qed

lemma taskless_command_dropped_witness:
  "db_data (wr_files (execute_write writer_demo_env ''2'' (execute_write writer_demo_env ''1'' writer_demo))
     ''/r/db/a.duckdb'') = [''a'']"
proof -
  let ?p = "[(''command_type'', PStr ''add''), (''x'', PStr ''a'')]"
  let ?q = "[(''command_type'', PStr ''add''), (''x'', PStr ''b'')]"
  let ?s = "execute_write writer_demo_env ''1'' writer_demo"
  have l: "we_loads writer_demo_env ''1'' = Some (PDict ?p)" "we_loads writer_demo_env ''2'' = Some (PDict ?q)"
    by (simp_all add: writer_demo_env_def)
  have c: "strip (gstr ?p ''command_type'' []) \<noteq> []" "strip (gstr ?q ''command_type'' []) \<noteq> []" by code_simp+
  have n: "map_of ?p ''task_id'' = None" "map_of ?q ''task_id'' = None" by simp_all
  have d: "\<not> is_duplicate_task writer_demo_env ''unknown'' writer_demo" by code_simp
  have "wr_status ?s (''task_status:'' @ ''unknown'') = Some (\<lparr>ts_status = ''success'', ts_detail = None\<rparr>, 10 + 60)"
    by code_simp
  then have a: "answered writer_demo_env ''unknown'' ''success'' ?s"
    by (auto simp: answered_def writer_demo_env_def)
  have "db_data (wr_files ?s ''/r/db/a.duckdb'') = [''a'']" by code_simp
  with taskless_command_dropped [OF l(1) c(1) n(1) d a l(2) c(2) n(2)] show ?thesis by simp
qed

end
