(* ===== verification/DocxContent.thy ===== *)
theory DocxContent
  imports PyVal
begin

text \<open>
  From the text of a report section to the value put into the Word template
  (\<open>packages/shared/src/duckclaw/report_engine/docx_content.py\<close>): Markdown tables become tab-separated lines,
  paragraph breaks become line breaks, bold spans become runs. A \<open>RichText\<close> is the list of its \<open>add\<close> calls:
  the text and whether it is bold.
\<close>

definition newline :: char where "newline = CHR 10"
definition pipe :: char where "pipe = CHR ''|''"

fun normalize_newlines :: "string \<Rightarrow> string" where
  "normalize_newlines [] = []"
| "normalize_newlines (c # cs) =
     (if c = CHR 13 then newline # (case cs of d # ds \<Rightarrow> normalize_newlines (if d = newline then ds else cs) | [] \<Rightarrow> [])
      else c # normalize_newlines cs)"

text \<open>\<open>^\s*\|.+\|\s*$\<close> and \<open>^\s*\|[\s\-:|]+\|\s*$\<close> on one line.\<close>

definition is_pipe_row :: "string \<Rightarrow> bool" where
  "is_pipe_row line = (let s = strip line in length s \<ge> 3 \<and> hd s = pipe \<and> last s = pipe)"

definition is_table_sep :: "string \<Rightarrow> bool" where
  "is_table_sep line = (let s = strip line in length s \<ge> 3 \<and> hd s = pipe \<and> last s = pipe \<and>
     list_all (\<lambda>c. is_space c \<or> c \<in> {CHR ''-'', CHR '':'', pipe}) (butlast (tl s)))"

definition pipe_cells :: "string \<Rightarrow> string" where
  "pipe_cells line = join [CHR 9] (map strip (split_char pipe (strip_chars [pipe] (strip line))))"

text \<open>The rows of a table, and the lines after it.\<close>

fun markdown_table_rows :: "string list \<Rightarrow> string list \<times> string list" where
  "markdown_table_rows [] = ([], [])"
| "markdown_table_rows (l # ls) =
     (if \<not> is_pipe_row l then ([], l # ls)
      else let (rows, rest) = markdown_table_rows ls
        in (if is_table_sep l then rows else pipe_cells l # rows, rest))"

lemma markdown_table_rows_shorter: "length (snd (markdown_table_rows ls)) \<le> length ls"
  by (induction ls) (auto simp: Let_def split_beta)

text \<open>The loop over the lines of \<open>markdown_tables_to_plain\<close>.\<close>

function plain_lines :: "string list \<Rightarrow> string list" where
  "plain_lines [] = []"
| "plain_lines (l # ls) =
     (if is_pipe_row l \<and> ls \<noteq> [] \<and> is_table_sep (hd ls)
      then let (rows, rest) = markdown_table_rows (l # ls) in rows @ plain_lines rest
      else if is_pipe_row l then pipe_cells l # plain_lines ls
      else l # plain_lines ls)"
  by pat_completeness auto

termination
proof (relation "measure length")
  fix l ls rows rest and x
  assume "is_pipe_row l \<and> ls \<noteq> [] \<and> is_table_sep (hd ls)"
    and "x = markdown_table_rows (l # ls)" and "(rows, rest) = x"
  then show "(rest, l # ls) \<in> measure length"
    using markdown_table_rows_shorter [of ls] by (auto simp: Let_def split_beta)
qed auto

definition markdown_tables_to_plain :: "string \<Rightarrow> string" where
  "markdown_tables_to_plain text = join [newline] (plain_lines (split_char newline (normalize_newlines text)))"

text \<open>\<open>re.sub(r"\n{2,}", "\n", s)\<close>.\<close>

fun squeeze_newlines :: "string \<Rightarrow> string" where
  "squeeze_newlines (c # d # cs) =
     (if c = newline \<and> d = newline then squeeze_newlines (d # cs) else c # squeeze_newlines (d # cs))"
| "squeeze_newlines s = s"

definition collapse_paragraph_breaks :: "string \<Rightarrow> string" where
  "collapse_paragraph_breaks text = strip (squeeze_newlines (normalize_newlines text))"

text \<open>
  After an opening pair of asterisks: the shortest non-empty body without a newline that a closing pair
  follows, and the text after it.
\<close>

fun bold_body :: "string \<Rightarrow> (string \<times> string) option" where
  "bold_body [] = None"
| "bold_body (c # cs) =
     (if c = newline then None
      else if startswith ''**'' cs then Some ([c], drop 2 cs)
      else map_option (\<lambda>(b, rest). (c # b, rest)) (bold_body cs))"

lemma bold_body_shorter: "bold_body s = Some (b, rest) \<Longrightarrow> length rest < length s"
  by (induction s arbitrary: b rest) (auto split: if_splits)

definition bold_at :: "string \<Rightarrow> (string \<times> string) option" where
  "bold_at s = (if startswith ''**'' s then bold_body (drop 2 s) else None)"

lemma bold_at_shorter: "bold_at s = Some (b, rest) \<Longrightarrow> length rest < length s"
  using bold_body_shorter [of "drop 2 s" b rest] by (auto simp: bold_at_def split: if_splits)

text \<open>The text cut at the bold spans: plain text and bold bodies alternate in order.\<close>

function bold_spans :: "string \<Rightarrow> string \<Rightarrow> (string \<times> bool) list" where
  "bold_spans acc [] = (if acc = [] then [] else [(rev acc, False)])"
| "bold_spans acc (c # cs) = (case bold_at (c # cs) of
     None \<Rightarrow> bold_spans (c # acc) cs
   | Some (b, rest) \<Rightarrow> (if acc = [] then [] else [(rev acc, False)]) @ (b, True) # bold_spans [] rest)"
  by pat_completeness auto

termination
  by (relation "measure (\<lambda>(_, s). length s)") (auto dest: bold_at_shorter)

text \<open>The \<open>add\<close> calls for a plain chunk: its lines, with a line break before all but the first.\<close>

fun add_lines :: "bool \<Rightarrow> string list \<Rightarrow> (string \<times> bool) list" where
  "add_lines first [] = []"
| "add_lines first (l # ls) =
     (if first then [] else [([newline], False)]) @ (if l = [] then [] else [(l, False)]) @ add_lines False ls"

definition markdown_inline_to_richtext :: "string \<Rightarrow> (string \<times> bool) list" where
  "markdown_inline_to_richtext text = concat (map (\<lambda>(s, bold).
     if bold then [(s, True)] else add_lines True (split_char newline s)) (bold_spans [] text))"

fun has_markdown_inline :: "string \<Rightarrow> bool" where
  "has_markdown_inline [] = False"
| "has_markdown_inline (c # cs) = (bold_at (c # cs) \<noteq> None \<or> has_markdown_inline cs)"

datatype docx_value = DText string | DRich "(string \<times> bool) list"

definition content_to_docxtpl_value :: "string \<Rightarrow> docx_value" where
  "content_to_docxtpl_value raw = (let text = collapse_paragraph_breaks (markdown_tables_to_plain raw) in
     if text = [] then DText []
     else if has_markdown_inline text then DRich (markdown_inline_to_richtext text)
     else DText text)"

subsection \<open>Lemmas\<close>

lemma split_char_nonempty [simp]: "split_char a s \<noteq> []"
  by (induction s) (auto split: list.splits)

lemma join_split: "join [a] (split_char a s) = s"
proof (induction s)
  case (Cons c s)
  obtain w ws where "split_char a s = w # ws" by (cases "split_char a s") auto
  with Cons show ?case by (cases ws) auto
qed simp

lemma split_char_mem: "w \<in> set (split_char a s) \<Longrightarrow> a \<notin> set w \<and> set w \<subseteq> set s"
proof (induction s arbitrary: w)
  case (Cons c s)
  obtain v vs where v: "split_char a s = v # vs" by (cases "split_char a s") auto
  have "a \<notin> set u \<and> set u \<subseteq> set s" if "u \<in> set (v # vs)" for u using Cons.IH [of u] that v by simp
  with Cons.prems v show ?case by (auto split: if_splits) fastforce+
qed simp

lemma set_join: "c \<in> set (join sep ws) \<Longrightarrow> c \<in> set sep \<or> (\<exists>w \<in> set ws. c \<in> set w)"
  by (induction sep ws rule: join.induct) auto

lemma pipe_cells_no_pipe: "pipe \<notin> set (pipe_cells l)"
proof
  assume "pipe \<in> set (pipe_cells l)"
  then obtain w where "pipe \<in> set w" "w \<in> set (map strip (split_char pipe (strip_chars [pipe] (strip l))))"
    unfolding pipe_cells_def by (auto simp: pipe_def dest!: set_join)
  then obtain v where "v \<in> set (split_char pipe (strip_chars [pipe] (strip l)))" "pipe \<in> set (strip v)" by auto
  with split_char_mem [of v pipe] set_strip [of v] show False by blast
qed

lemma not_pipe_row: "pipe \<notin> set l \<Longrightarrow> \<not> is_pipe_row l"
proof -
  assume n: "pipe \<notin> set l"
  have "hd (strip l) \<in> set l" if "strip l \<noteq> []" using that set_strip [of l] by (metis hd_in_set subsetD)
  with n show ?thesis by (cases "strip l = []") (auto simp: is_pipe_row_def Let_def)
qed

lemma pipe_cells_not_row [simp]: "\<not> is_pipe_row (pipe_cells l)"
  using not_pipe_row pipe_cells_no_pipe by blast

lemma plain_lines_rows: "list_all (\<lambda>l. \<not> is_pipe_row l) (plain_lines ls)"
proof (induction ls rule: plain_lines.induct)
  case (2 l ls)
  have r: "list_all (\<lambda>l. \<not> is_pipe_row l) (fst (markdown_table_rows xs))" for xs
    by (induction xs) (auto simp: Let_def split_beta)
  obtain rows rest where m: "markdown_table_rows (l # ls) = (rows, rest)" by fastforce
  show ?case
  proof (cases "is_pipe_row l \<and> ls \<noteq> [] \<and> is_table_sep (hd ls)")
    case True
    have "plain_lines (l # ls) = rows @ plain_lines rest"
      by (subst plain_lines.simps) (simp only: True simp_thms if_True m Let_def prod.case)
    then show ?thesis using r [of "l # ls"] "2.IH"(1) [OF True m [symmetric] refl] m by simp
  next
    case False
    then show ?thesis using "2.IH"(2,3) by (subst plain_lines.simps) auto
  qed
qed simp

lemma pipe_cells_no_newline: "newline \<notin> set w \<Longrightarrow> newline \<notin> set (pipe_cells w)"
proof
  assume n: "newline \<notin> set w" and "newline \<in> set (pipe_cells w)"
  then obtain v where v: "v \<in> set (split_char pipe (strip_chars [pipe] (strip w)))" "newline \<in> set (strip v)"
    unfolding pipe_cells_def by (auto simp: newline_def dest!: set_join)
  then have "newline \<in> set (strip_chars [pipe] (strip w))"
    using split_char_mem [OF v(1)] set_strip [of v] by blast
  then show False using n set_strip_chars [of "[pipe]" "strip w"] set_strip [of w] by blast
qed

lemma table_rows_mem:
  "(r \<in> set (fst (markdown_table_rows ls)) \<longrightarrow> (\<exists>l \<in> set ls. r = pipe_cells l)) \<and>
   set (snd (markdown_table_rows ls)) \<subseteq> set ls"
  by (induction ls) (auto simp: Let_def split_beta)

lemma plain_lines_mem: "r \<in> set (plain_lines ls) \<Longrightarrow> r \<in> set ls \<or> (\<exists>l \<in> set ls. r = pipe_cells l)"
proof (induction ls rule: plain_lines.induct)
  case (2 l ls)
  obtain rows rest where m: "markdown_table_rows (l # ls) = (rows, rest)" by fastforce
  show ?case
  proof (cases "is_pipe_row l \<and> ls \<noteq> [] \<and> is_table_sep (hd ls)")
    case True
    have "plain_lines (l # ls) = rows @ plain_lines rest"
      by (subst plain_lines.simps) (simp only: True simp_thms if_True m Let_def prod.case)
    then show ?thesis
      using "2.prems" "2.IH"(1) [OF True m [symmetric] refl] table_rows_mem [of r "l # ls"] m by auto
  next
    case False
    then show ?thesis using "2.IH"(2,3) "2.prems"
      by (subst (asm) plain_lines.simps) (auto split: if_splits)
  qed
qed simp

lemma split_join: "ws \<noteq> [] \<Longrightarrow> (\<And>w. w \<in> set ws \<Longrightarrow> a \<notin> set w) \<Longrightarrow> split_char a (join [a] ws) = ws"
proof (induction "[a]" ws rule: join.induct)
  case (2 w)
  have "a \<notin> set v \<Longrightarrow> split_char a v = [v]" for v by (induction v) auto
  with 2 show ?case by simp
next
  case (3 w v vs)
  have "a \<notin> set u \<Longrightarrow> split_char a (u @ a # t) = u # split_char a t" for u t
    by (induction u) auto
  with 3 show ?case by simp
qed simp

lemma startswith_drop: "startswith p s \<Longrightarrow> s = p @ drop (length p) s"
  unfolding startswith_def by (metis append_take_drop_id)

lemma startswith_stars: "startswith ''**'' s \<Longrightarrow> s = ''**'' @ drop 2 s"
proof -
  have "length ''**'' = 2" by simp
  then show "startswith ''**'' s \<Longrightarrow> s = ''**'' @ drop 2 s" using startswith_drop [of "''**''" s] by (simp only:)
qed

lemma bold_body_eq: "bold_body s = Some (b, rest) \<Longrightarrow> s = b @ ''**'' @ rest \<and> b \<noteq> []"
proof (induction s arbitrary: b rest)
  case (Cons c s)
  show ?case
  proof (cases "startswith ''**'' s")
    case True
    then have "s = ''**'' @ drop 2 s" by (rule startswith_stars)
    moreover have "b = [c]" "rest = drop 2 s" using Cons.prems True by (simp_all split: if_splits)
    ultimately show ?thesis by (simp only: append_Cons append_Nil) simp
  next
    case False
    then obtain b' where "bold_body s = Some (b', rest)" "b = c # b'"
      using Cons.prems by (auto split: if_splits)
    with Cons.IH [of b' rest] show ?thesis by simp
  qed
qed simp

lemma bold_at_eq: "bold_at s = Some (b, rest) \<Longrightarrow> s = ''**'' @ b @ ''**'' @ rest"
proof -
  assume "bold_at s = Some (b, rest)"
  then have "startswith ''**'' s" "bold_body (drop 2 s) = Some (b, rest)" by (simp_all add: bold_at_def split: if_splits)
  then have "s = ''**'' @ drop 2 s" "drop 2 s = b @ ''**'' @ rest"
    using startswith_stars [of s] bold_body_eq [of "drop 2 s"] by blast+
  then show ?thesis by (simp only: append_assoc)
qed

subsection \<open>Properties\<close>

text \<open>
  No Markdown table row is left in the text that goes into a Word cell: no line of the result has the
  shape of one.
\<close>

lemma plain_text_no_table_rows:
  "list_all (\<lambda>l. \<not> is_pipe_row l) (split_char newline (markdown_tables_to_plain text))"
proof -
  let ?ls = "plain_lines (split_char newline (normalize_newlines text))"
  have nl: "newline \<notin> set w" if "w \<in> set ?ls" for w
    using plain_lines_mem [OF that] split_char_mem pipe_cells_no_newline by blast
  show ?thesis
  proof (cases "?ls = []")
    case True
    then show ?thesis by (simp add: markdown_tables_to_plain_def is_pipe_row_def)
  next
    case False
    then have "split_char newline (markdown_tables_to_plain text) = ?ls"
      unfolding markdown_tables_to_plain_def using nl by (intro split_join) auto
    then show ?thesis using plain_lines_rows by simp
  qed
qed

definition with_markers :: "(string \<times> bool) list \<Rightarrow> string" where
  "with_markers runs = concat (map (\<lambda>(s, bold). if bold then ''**'' @ s @ ''**'' else s) runs)"

lemma with_markers_append [simp]: "with_markers (a @ b) = with_markers a @ with_markers b"
  by (simp add: with_markers_def)

lemma with_markers_Cons [simp]:
  "with_markers ((s, bold) # r) = (if bold then ''**'' @ s @ ''**'' else s) @ with_markers r"
  "with_markers [] = []"
  by (simp_all add: with_markers_def)

lemma bold_spans_text: "with_markers (bold_spans acc s) = rev acc @ s"
proof (induction acc s rule: bold_spans.induct)
  case (2 acc c cs)
  show ?case
  proof (cases "bold_at (c # cs)")
    case None
    with 2 show ?thesis by (subst bold_spans.simps) simp
  next
    case (Some r)
    obtain b rest where r: "r = (b, rest)" by fastforce
    have "with_markers (bold_spans [] rest) = rest" using "2.IH"(2) [OF Some r [symmetric]] by simp
    then show ?thesis using bold_at_eq Some r by (subst bold_spans.simps) auto
  qed
qed simp

lemma add_lines_text: "ls \<noteq> [] \<Longrightarrow>
  with_markers (add_lines first ls) = (if first then [] else [newline]) @ join [newline] ls"
proof (induction first ls rule: add_lines.induct)
  case (2 first l ls)
  then show ?case by (cases ls) auto
qed simp

text \<open>
  The runs of the Word value spell the section's text: with the markers put back around the bold runs,
  their concatenation is the text they were cut from.
\<close>

lemma richtext_spells_text: "with_markers (markdown_inline_to_richtext text) = text"
proof -
  have "with_markers (concat (map (\<lambda>(s, bold). if bold then [(s, True)]
      else add_lines True (split_char newline s)) runs)) = with_markers runs" for runs
    by (induction runs) (auto simp: add_lines_text join_split)
  then show ?thesis using bold_spans_text [of "[]" "text"] by (simp add: markdown_inline_to_richtext_def)
qed

end
