(* ===== verification/ReportState.thy ===== *)
theory ReportState
  imports Tables DocxContent "HOL-Library.Sublist"
begin

text \<open>
  The state of a report instance and its sections
  (\<open>packages/shared/src/duckclaw/report_engine/state.py\<close>): creation from a template's schema, merging of new
  sections, patching, the completion summary and the nested context of the Word template. The state is the JSON
  value of the column. The two uses of floats are parameters: \<open>width_of\<close> turns the raw width of an image into
  the stored one, \<open>percent\<close> rounds the completed share.
\<close>

subsection \<open>Sections\<close>

definition is_image :: "pyval \<Rightarrow> bool" where
  "is_image raw \<longleftrightarrow> lower (strip (pystr (por raw (PStr [])))) = ''image''"

definition normalize_kind :: "pyval \<Rightarrow> string" where
  "normalize_kind raw = (if is_image raw then ''image'' else ''text'')"

definition entry_from_schema_item :: "(pyval \<Rightarrow> pyval) \<Rightarrow> payload \<Rightarrow> string \<Rightarrow> payload" where
  "entry_from_schema_item width_of raw sid = (let
     kind = normalize_kind (pget raw ''kind'' PNone);
     entry = [(''status'', PStr ''empty''), (''content'', PStr []), (''label'', PStr (gstr raw ''label'' sid)),
       (''required'', PBool (truthy (pget raw ''required'' (PBool False)))), (''kind'', PStr kind),
       (''updated_at'', PStr [])]
   in if kind = ''image'' then entry @ [(''width_in'', width_of (pget raw ''width_in'' PNone))] else entry)"

text \<open>The items of a schema that count: dictionaries with a non-blank id.\<close>

fun schema_items :: "pyval list \<Rightarrow> (string \<times> payload) list" where
  "schema_items [] = []"
| "schema_items (PDict raw # vs) = (let sid = opt_str raw ''id'' [] in
     if sid = [] then schema_items vs else (sid, raw) # schema_items vs)"
| "schema_items (_ # vs) = schema_items vs"

definition init_section :: "(pyval \<Rightarrow> pyval) \<Rightarrow> string \<times> payload \<Rightarrow> payload \<Rightarrow> payload" where
  "init_section width_of item sections = (let (sid, raw) = item
   in pset sid (PDict (entry_from_schema_item width_of raw sid)) sections)"

definition init_state_from_schema :: "(pyval \<Rightarrow> pyval) \<Rightarrow> pyval list \<Rightarrow> payload" where
  "init_state_from_schema width_of section_schema =
     [(''sections'', PDict (fold (init_section width_of) (schema_items section_schema) []))]"

definition merge_section :: "(pyval \<Rightarrow> pyval) \<Rightarrow> string \<times> payload \<Rightarrow> payload \<Rightarrow> payload" where
  "merge_section width_of item sections =
     (if phas sections (fst item) then sections else init_section width_of item sections)"

definition merge_missing_schema_sections :: "(pyval \<Rightarrow> pyval) \<Rightarrow> payload \<Rightarrow> pyval list \<Rightarrow> payload" where
  "merge_missing_schema_sections width_of state section_schema =
     pset ''sections'' (PDict (fold (merge_section width_of) (schema_items section_schema)
       (pdict_or_empty (pget state ''sections'' PNone)))) state"

definition status_for_content :: "string \<Rightarrow> bool \<Rightarrow> string" where
  "status_for_content content mark_complete =
     (if strip content = [] then ''empty'' else if mark_complete then ''complete'' else ''partial'')"

definition merged_content :: "payload \<Rightarrow> string \<Rightarrow> bool \<Rightarrow> string" where
  "merged_content entry content append_mode = (let incoming = strip content; old = pget entry ''content'' PNone in
     if append_mode \<and> truthy old then strip (rstrip (pystr old) @ [newline, newline] @ incoming) else incoming)"

definition patch_section ::
  "string \<Rightarrow> payload \<Rightarrow> string \<Rightarrow> string \<Rightarrow> bool \<Rightarrow> bool \<Rightarrow> py_error + payload" where
  "patch_section ts state section_id content append_mode mark_complete = (let sid = strip section_id in
     if sid = [] then Inl (ValueError (''section_id vac'' @ [CHR 0xED] @ ''o'')) else
     case pget state ''sections'' PNone of
       PDict sections \<Rightarrow>
         (case pget sections sid PNone of
            PDict entry \<Rightarrow> (let
                merged = merged_content entry content append_mode;
                entry = pset ''content'' (PStr merged) entry;
                entry = pset ''status'' (PStr (status_for_content merged mark_complete)) entry;
                entry = pset ''updated_at'' (PStr ts) entry
              in Inr (pset ''sections'' (PDict (pset sid (PDict entry) sections)) state))
          | _ \<Rightarrow> Inl (ValueError (''Secci'' @ [CHR 0xF3] @ ''n desconocida: '' @ sid)))
     | _ \<Rightarrow> Inl (ValueError (''state_json inv'' @ [CHR 0xE1] @ ''lido: falta sections'')))"

subsection \<open>Summary\<close>

record section_item =
  si_id :: string
  si_label :: string
  si_status :: string

record section_summary =
  sm_section_count :: nat
  sm_percent :: int
  sm_missing :: "section_item list"
  sm_partial :: "section_item list"
  sm_complete :: "string list"

definition section_entry :: "payload \<Rightarrow> string \<Rightarrow> payload" where
  "section_entry sections sid = pdict_or_empty (pget sections sid PNone)"

fun classify_sections ::
  "payload \<Rightarrow> string list \<Rightarrow> section_item list \<times> section_item list \<times> string list" where
  "classify_sections sections [] = ([], [], [])"
| "classify_sections sections (sid # ids) = (let
     (missing, partial, complete) = classify_sections sections ids;
     entry = section_entry sections sid;
     st = gstr entry ''status'' ''empty'';
     item = \<lparr>si_id = sid, si_label = gstr entry ''label'' sid, si_status = st\<rparr>
   in if st = ''complete'' then (missing, partial, sid # complete)
      else if st = ''partial'' then (missing, item # partial, complete)
      else (item # missing, partial, complete))"

definition summarize_status ::
  "(nat \<Rightarrow> nat \<Rightarrow> int) \<Rightarrow> payload \<Rightarrow> pyval list \<Rightarrow> section_summary" where
  "summarize_status percent state section_schema = (let
     sections = pdict_or_empty (pget state ''sections'' PNone);
     schema_ids = map fst (schema_items section_schema);
     ids = (if schema_ids = [] then map fst sections else schema_ids);
     (missing, partial, complete) = classify_sections sections ids;
     total = (if ids = [] then 1 else length ids)
   in \<lparr>sm_section_count = length ids, sm_percent = percent (length complete) total,
       sm_missing = missing, sm_partial = partial, sm_complete = complete\<rparr>)"

subsection \<open>The context of the template\<close>

datatype ctx_key = KStr string | KInt int

datatype 'v ctx = CVal 'v | CDict "(ctx_key \<times> 'v ctx) list"

text \<open>\<open>str.isdigit\<close>: the superscript digits count, although \<open>int\<close> refuses them.\<close>

definition is_digit_like :: "char \<Rightarrow> bool" where
  "is_digit_like c \<longleftrightarrow> is_digit c \<or> code c \<in> {178, 179, 185}"

definition path_key :: "string \<Rightarrow> py_error + ctx_key" where
  "path_key part = (let t = strip part in
     if t \<noteq> [] \<and> list_all is_digit_like t then bindE (pyint (PStr t)) (\<lambda>n. Inr (KInt n)) else Inr (KStr t))"

fun assign_nested ::
  "(ctx_key \<times> 'v ctx) list \<Rightarrow> string list \<Rightarrow> 'v \<Rightarrow> py_error + (ctx_key \<times> 'v ctx) list" where
  "assign_nested root [] v = Inr root"
| "assign_nested root [part] v = bindE (path_key part) (\<lambda>key. Inr (AList.update key (CVal v) root))"
| "assign_nested root (part # parts) v = bindE (path_key part) (\<lambda>key.
     bindE (assign_nested (case map_of root key of Some (CDict d) \<Rightarrow> d | _ \<Rightarrow> []) parts v) (\<lambda>d.
     Inr (AList.update key (CDict d) root)))"

definition assign_context_value ::
  "string \<Rightarrow> 'v \<Rightarrow> (ctx_key \<times> 'v ctx) list \<Rightarrow> py_error + (ctx_key \<times> 'v ctx) list" where
  "assign_context_value key v root =
     (if CHR ''.'' \<in> set key then assign_nested root (split_char (CHR ''.'') key) v
      else Inr (AList.update (KStr key) (CVal v) root))"

fun render_section ::
  "string \<times> pyval \<Rightarrow> (ctx_key \<times> docx_value ctx) list \<Rightarrow> py_error + (ctx_key \<times> docx_value ctx) list" where
  "render_section (sid, PDict entry) ctx =
     (if is_image (pget entry ''kind'' PNone) then Inr ctx
      else assign_context_value sid (content_to_docxtpl_value (gstr entry ''content'' [])) ctx)"
| "render_section (sid, _) ctx = Inr ctx"

definition build_render_context :: "payload \<Rightarrow> py_error + (ctx_key \<times> docx_value ctx) list" where
  "build_render_context state = forE render_section (pdict_or_empty (pget state ''sections'' PNone)) []"

record image_spec =
  is_key :: string
  is_path :: string
  is_width :: pyval

fun image_spec_of :: "(pyval \<Rightarrow> pyval) \<Rightarrow> string \<times> pyval \<Rightarrow> image_spec list" where
  "image_spec_of width_of (sid, PDict entry) = (let path = opt_str entry ''content'' [] in
     if \<not> is_image (pget entry ''kind'' PNone) \<or> path = [] then []
     else [\<lparr>is_key = sid, is_path = path, is_width = width_of (pget entry ''width_in'' PNone)\<rparr>])"
| "image_spec_of width_of (sid, _) = []"

definition image_render_specs :: "(pyval \<Rightarrow> pyval) \<Rightarrow> payload \<Rightarrow> image_spec list" where
  "image_render_specs width_of state =
     concat (map (image_spec_of width_of) (pdict_or_empty (pget state ''sections'' PNone)))"

subsection \<open>Well-formed states\<close>

definition section_ok :: "payload \<Rightarrow> bool" where
  "section_ok e \<longleftrightarrow> (\<exists>c. pget e ''content'' PNone = PStr c \<and> strip c = c \<and>
     (if c = [] then pget e ''status'' PNone = PStr ''empty''
      else pget e ''status'' PNone \<in> {PStr ''partial'', PStr ''complete''}))"

definition sections_ok :: "payload \<Rightarrow> bool" where
  "sections_ok secs \<longleftrightarrow> distinct (map fst secs) \<and>
     (\<forall>(sid, v) \<in> set secs. strip sid = sid \<and> sid \<noteq> [] \<and> (\<exists>e. v = PDict e \<and> section_ok e))"

definition state_ok :: "payload \<Rightarrow> bool" where
  "state_ok state \<longleftrightarrow> (\<exists>secs. pget state ''sections'' PNone = PDict secs \<and> sections_ok secs)"

lemma set_pset: "set (pset k v d) \<subseteq> insert (k, v) (set d)"
  unfolding pset_def by (induction d) auto

lemma keys_pset: "map fst (pset k v d) = (if k \<in> fst ` set d then map fst d else map fst d @ [k])"
  by (simp add: pset_def update_keys)

lemma phas_iff: "phas d k \<longleftrightarrow> k \<in> fst ` set d"
  by (auto simp: phas_def map_of_eq_None_iff)

lemma sections_ok_pset:
  assumes "sections_ok secs" "strip sid = sid" "sid \<noteq> []" "section_ok e"
  shows "sections_ok (pset sid (PDict e) secs)"
proof -
  have "distinct (map fst (pset sid (PDict e) secs))"
    using assms(1) unfolding pset_def sections_ok_def by (simp add: distinct_update)
  moreover have "strip s = s \<and> s \<noteq> [] \<and> (\<exists>e. v = PDict e \<and> section_ok e)"
    if "(s, v) \<in> set (pset sid (PDict e) secs)" for s v
    using that set_pset [of sid "PDict e" secs] assms unfolding sections_ok_def by auto
  ultimately show ?thesis by (auto simp: sections_ok_def)
qed

lemma entry_section_ok: "section_ok (entry_from_schema_item w raw sid)"
  by (auto simp: section_ok_def entry_from_schema_item_def Let_def pget_def)

lemma schema_items_ids: "(sid, raw) \<in> set (schema_items vs) \<Longrightarrow> strip sid = sid \<and> sid \<noteq> []"
  by (induction vs rule: schema_items.induct) (auto simp: Let_def opt_str_def split: if_splits)

lemma init_section_ok: "item \<in> set (schema_items vs) \<Longrightarrow> sections_ok secs \<Longrightarrow> sections_ok (init_section w item secs)"
  using schema_items_ids by (cases item) (auto simp: init_section_def entry_section_ok intro!: sections_ok_pset)

lemma fold_keep: "P s \<Longrightarrow> (\<And>x s. x \<in> set xs \<Longrightarrow> P s \<Longrightarrow> P (f x s)) \<Longrightarrow> P (fold f xs s)"
  by (induction xs arbitrary: s) auto

lemma init_state_ok: "state_ok (init_state_from_schema w schema)"
  using fold_keep [where P = sections_ok and f = "init_section w" and xs = "schema_items schema" and s = "[]"]
    init_section_ok [of _ schema]
  by (simp add: init_state_from_schema_def state_ok_def sections_ok_def [of "[]"])

lemma merge_state_ok: "state_ok s \<Longrightarrow> state_ok (merge_missing_schema_sections w s schema)"
  using fold_keep [where P = sections_ok and f = "merge_section w" and xs = "schema_items schema"] init_section_ok [of _ schema]
  by (auto simp: state_ok_def merge_missing_schema_sections_def merge_section_def)

lemma patch_section_cases:
  assumes "patch_section ts state sid content app fin = Inr state'"
  obtains secs entry where "strip sid \<noteq> []" "pget state ''sections'' PNone = PDict secs"
    "map_of secs (strip sid) = Some (PDict entry)"
    "state' = pset ''sections'' (PDict (pset (strip sid) (PDict (pset ''updated_at'' (PStr ts)
       (pset ''status'' (PStr (status_for_content (merged_content entry content app) fin))
         (pset ''content'' (PStr (merged_content entry content app)) entry)))) secs)) state"
  using assms by (auto simp: patch_section_def Let_def pget_def split: if_splits pyval.splits option.splits)

lemma strip_merged [simp]: "strip (merged_content entry content app) = merged_content entry content app"
  by (simp add: merged_content_def Let_def)

lemma patched_entry_ok:
  "section_ok (pset ''updated_at'' (PStr ts) (pset ''status'' (PStr (status_for_content (merged_content entry content app) fin))
     (pset ''content'' (PStr (merged_content entry content app)) entry)))"
  by (auto simp: section_ok_def status_for_content_def)

lemma patch_state_ok:
  assumes "state_ok s" "patch_section ts s sid content app fin = Inr s'"
  shows "state_ok s'"
  using assms(2)
proof (cases rule: patch_section_cases)
  case (1 secs entry)
  then have "sections_ok secs" using assms(1) by (auto simp: state_ok_def)
  then show ?thesis unfolding 1(4) state_ok_def using 1(1) patched_entry_ok
    by (auto intro!: sections_ok_pset)
qed

text \<open>The states an instance goes through.\<close>

inductive report_reach :: "(pyval \<Rightarrow> pyval) \<Rightarrow> payload \<Rightarrow> bool" for width_of where
  reach_init: "report_reach width_of (init_state_from_schema width_of schema)"
| reach_merge: "report_reach width_of s \<Longrightarrow> report_reach width_of (merge_missing_schema_sections width_of s schema)"
| reach_patch: "report_reach width_of s \<Longrightarrow> patch_section ts s sid content app fin = Inr s' \<Longrightarrow>
    report_reach width_of s'"

lemma report_reach_ok: "report_reach width_of s \<Longrightarrow> state_ok s"
  by (induction rule: report_reach.induct) (auto simp: init_state_ok merge_state_ok intro: patch_state_ok)

subsection \<open>The context\<close>

fun ctx_get :: "(ctx_key \<times> 'v ctx) list \<Rightarrow> ctx_key list \<Rightarrow> 'v option" where
  "ctx_get root [] = None"
| "ctx_get root [k] = (case map_of root k of Some (CVal v) \<Rightarrow> Some v | _ \<Rightarrow> None)"
| "ctx_get root (k # ks) = (case map_of root k of Some (CDict d) \<Rightarrow> ctx_get d ks | _ \<Rightarrow> None)"

fun path_keys :: "string list \<Rightarrow> py_error + ctx_key list" where
  "path_keys [] = Inr []"
| "path_keys (p # ps) = bindE (path_key p) (\<lambda>k. bindE (path_keys ps) (\<lambda>ks. Inr (k # ks)))"

definition id_path :: "string \<Rightarrow> py_error + ctx_key list" where
  "id_path sid = (if CHR ''.'' \<in> set sid then path_keys (split_char (CHR ''.'') sid) else Inr [KStr sid])"

lemma map_of_update: "map_of (AList.update k v d) = (map_of d)(k \<mapsto> v)"
  by (rule ext) (simp add: update_conv')

lemma path_keys_length: "path_keys ps = Inr ks \<Longrightarrow> length ks = length ps"
  by (induction ps arbitrary: ks) auto

lemma assign_nested_keys: "ps \<noteq> [] \<Longrightarrow> path_keys ps = Inr ks \<Longrightarrow> \<exists>r. assign_nested root ps v = Inr r"
  by (induction root ps v arbitrary: ks rule: assign_nested.induct) auto

lemma ctx_get_assign_same:
  "assign_nested root ps v = Inr r \<Longrightarrow> ps \<noteq> [] \<Longrightarrow> path_keys ps = Inr ks \<Longrightarrow> ctx_get r ks = Some v"
proof (induction root ps v arbitrary: r ks rule: assign_nested.induct)
  case (3 root p q ps v)
  then obtain k d ks' where k: "path_key p = Inr k" "path_keys (q # ps) = Inr ks'" "ks = k # ks'"
      "assign_nested (case map_of root k of Some (CDict d) \<Rightarrow> d | _ \<Rightarrow> []) (q # ps) v = Inr d"
      "r = AList.update k (CDict d) root" by auto
  have "ctx_get d ks' = Some v" using "3.IH" [OF k(4)] k(2) by simp
  then show ?case using k path_keys_length [OF k(2)] by (cases ks') (auto simp: map_of_update)
qed (auto simp: map_of_update)

lemma ctx_get_Nil [simp]: "ctx_get [] ks = None"
  by (cases ks rule: remdups_adj.cases) auto

lemma ctx_get_assign_other:
  "assign_nested root ps v = Inr r \<Longrightarrow> ps \<noteq> [] \<Longrightarrow> path_keys ps = Inr ks \<Longrightarrow> \<not> prefix ks js \<Longrightarrow> \<not> prefix js ks \<Longrightarrow>
   ctx_get r js = ctx_get root js"
proof (induction root ps v arbitrary: r ks js rule: assign_nested.induct)
  case (2 root p v)
  then obtain k where "path_key p = Inr k" "ks = [k]" "r = AList.update k (CVal v) root" by auto
  then show ?case using "2.prems" by (cases js rule: remdups_adj.cases) (auto simp: map_of_update)
next
  case (3 root p q ps v)
  then obtain k d ks' where k: "path_key p = Inr k" "path_keys (q # ps) = Inr ks'" "ks = k # ks'"
      "assign_nested (case map_of root k of Some (CDict d) \<Rightarrow> d | _ \<Rightarrow> []) (q # ps) v = Inr d"
      "r = AList.update k (CDict d) root" by auto
  obtain j js' where js: "js = j # js'" using "3.prems"(5) by (cases js) auto
  show ?case
  proof (cases "j = k")
    case True
    then have n: "\<not> prefix ks' js'" "\<not> prefix js' ks'" using "3.prems"(4,5) js k(3) by auto
    then have "ctx_get d js' = ctx_get (case map_of root k of Some (CDict d) \<Rightarrow> d | _ \<Rightarrow> []) js'"
      using "3.IH" [OF k(4)] k(2) by simp
    moreover have "js' \<noteq> []" using n by auto
    ultimately show ?thesis unfolding k(5) js True
      by (cases js') (auto simp: map_of_update split: option.splits ctx.splits)
  next
    case False
    then show ?thesis unfolding k(5) js
      by (cases js') (auto simp: map_of_update)
  qed
qed simp

lemma assign_context_result:
  assumes "assign_context_value sid v root = Inr r" and "id_path sid = Inr ks"
  shows "ctx_get r ks = Some v \<and> (\<forall>js. \<not> prefix ks js \<longrightarrow> \<not> prefix js ks \<longrightarrow> ctx_get r js = ctx_get root js)"
proof (cases "CHR ''.'' \<in> set sid")
  case True
  with assms ctx_get_assign_same [of root "split_char (CHR ''.'') sid" v r ks]
    ctx_get_assign_other [of root "split_char (CHR ''.'') sid" v r ks]
  show ?thesis by (auto simp: assign_context_value_def id_path_def)
next
  case False
  then have "r = AList.update (KStr sid) (CVal v) root" "ks = [KStr sid]"
    using assms by (auto simp: assign_context_value_def id_path_def)
  moreover have "ctx_get r js = ctx_get root js" if "\<not> prefix [KStr sid] js" "\<not> prefix js [KStr sid]" for js
    using that calculation(1) by (cases js rule: remdups_adj.cases) (auto simp: map_of_update)
  ultimately show ?thesis by (auto simp: map_of_update)
qed

text \<open>A section whose slot in the template neither contains nor lies in the slot \<open>ks\<close>.\<close>

fun apart_from :: "ctx_key list \<Rightarrow> string \<times> pyval \<Rightarrow> bool" where
  "apart_from ks (sid, PDict e) \<longleftrightarrow> is_image (pget e ''kind'' PNone) \<or>
     (case id_path sid of Inl _ \<Rightarrow> True | Inr js \<Rightarrow> \<not> prefix ks js \<and> \<not> prefix js ks)"
| "apart_from ks _ \<longleftrightarrow> True"

lemma id_path_of_assign: "assign_context_value sid v root = Inr r \<Longrightarrow> \<exists>ks. id_path sid = Inr ks"
proof -
  have n: "\<exists>ks. path_keys ps = Inr ks" if "assign_nested root ps v = Inr r" "ps \<noteq> []"
    for ps and v :: 'a and root r
    using that by (induction root ps v arbitrary: r rule: assign_nested.induct) auto
  assume "assign_context_value sid v root = Inr r"
  then show ?thesis using n by (auto simp: assign_context_value_def id_path_def split: if_splits)
qed

lemma render_apart:
  assumes "render_section x c = Inr c'" "apart_from ks x"
  shows "ctx_get c' ks = ctx_get c ks"
proof (cases "(ks, x)" rule: apart_from.cases)
  case (1 ks' sid e)
  show ?thesis
  proof (cases "is_image (pget e ''kind'' PNone)")
    case False
    then have a: "assign_context_value sid (content_to_docxtpl_value (gstr e ''content'' [])) c = Inr c'"
      using assms(1) 1 by simp
    then obtain js where js: "id_path sid = Inr js" using id_path_of_assign [OF a] by blast
    with assms(2) 1 False have "\<not> prefix ks js" "\<not> prefix js ks" by auto
    then show ?thesis using assign_context_result [OF a js] by blast
  qed (use assms(1) 1 in simp)
qed (use assms in simp_all)

lemma render_all_apart:
  "forE render_section xs c = Inr c' \<Longrightarrow> list_all (apart_from ks) xs \<Longrightarrow> ctx_get c' ks = ctx_get c ks"
  by (induction xs arbitrary: c) (auto dest: render_apart)

lemma forE_append: "forE f (xs @ ys) s = bindE (forE f xs s) (forE f ys)"
proof (induction xs arbitrary: s)
  case (Cons x xs)
  then show ?case by (cases "f x s") simp_all
qed simp

subsection \<open>Properties\<close>

text \<open>
  Section states: in every state an instance can reach from any schema by merging and patching, section ids
  are distinct, stripped and non-blank, contents are stripped, and a section is \<open>empty\<close> exactly when it has no
  content and \<open>partial\<close> or \<open>complete\<close> otherwise.
\<close>

lemma report_state_invariant:
  assumes "report_reach width_of s"
  shows "\<exists>secs. pget s ''sections'' PNone = PDict secs \<and> distinct (map fst secs) \<and>
    (\<forall>(sid, v) \<in> set secs. strip sid = sid \<and> sid \<noteq> [] \<and> (\<exists>e c. v = PDict e \<and> pget e ''content'' PNone = PStr c \<and>
       strip c = c \<and> (if c = [] then pget e ''status'' PNone = PStr ''empty''
         else pget e ''status'' PNone \<in> {PStr ''partial'', PStr ''complete''})))"
proof -
  obtain secs where "pget s ''sections'' PNone = PDict secs" "sections_ok secs"
    using report_reach_ok [OF assms] by (auto simp: state_ok_def)
  then show ?thesis unfolding sections_ok_def section_ok_def by (intro exI [of _ secs]) fast
qed

definition report_demo :: payload where
  "report_demo = [(''sections'', PDict [(''a'', PDict [(''status'', PStr ''partial''), (''content'', PStr ''x''),
     (''label'', PStr ''A''), (''required'', PBool False), (''kind'', PStr ''text''), (''updated_at'', PStr ''now'')])])]"

lemma report_demo_reach: "report_reach width_of report_demo"
proof -
  let ?s = "init_state_from_schema width_of [PDict [(''id'', PStr '' a ''), (''label'', PStr ''A'')]]"
  have s: "?s = [(''sections'', PDict [(''a'', PDict [(''status'', PStr ''empty''), (''content'', PStr []),
     (''label'', PStr ''A''), (''required'', PBool False), (''kind'', PStr ''text''), (''updated_at'', PStr [])])])]"
    by code_simp
  have "patch_section ''now'' ?s ''a'' '' x'' False False = Inr report_demo" unfolding s by code_simp
  then show ?thesis by (rule reach_patch [OF reach_init])
qed

lemma report_state_invariant_witness:
  "\<exists>e. pget report_demo ''sections'' PNone = PDict [(''a'', PDict e)] \<and> pget e ''status'' PNone = PStr ''partial'' \<and>
     strip ''a'' = ''a''"
  using report_state_invariant [OF report_demo_reach [of id]] by (auto simp: report_demo_def)

text \<open>
  Patching touches one section: a patch that succeeds keeps the sections, their order and every other
  section, and gives its own the new content (the old one and the new one, or the new one alone) and the status
  that content has.
\<close>

lemma patch_section_frame:
  assumes "patch_section ts s sid content app fin = Inr s'"
  shows "\<exists>secs old e secs'. pget s ''sections'' PNone = PDict secs \<and> map_of secs (strip sid) = Some (PDict old) \<and>
    pget s' ''sections'' PNone = PDict secs' \<and> map fst secs' = map fst secs \<and>
    map_of secs' = (map_of secs)(strip sid \<mapsto> PDict e) \<and>
    pget e ''content'' PNone = PStr (merged_content old content app) \<and>
    pget e ''status'' PNone = PStr (status_for_content (merged_content old content app) fin) \<and>
    pget e ''label'' PNone = pget old ''label'' PNone \<and> pget e ''kind'' PNone = pget old ''kind'' PNone"
  using assms
proof (cases rule: patch_section_cases)
  case (1 secs entry)
  then have "strip sid \<in> fst ` set secs" by (metis map_of_SomeD fst_conv image_eqI)
  with 1 show ?thesis
    by (intro exI [of _ secs] exI [of _ entry] exI conjI) (assumption | simp add: keys_pset map_of_pset)+
qed

lemma patch_section_frame_witness:
  "\<exists>s' e. patch_section ''t'' report_demo ''a'' '' y '' True True = Inr s' \<and>
     pget s' ''sections'' PNone = PDict [(''a'', PDict e)] \<and>
     pget e ''content'' PNone = PStr (''x'' @ [newline, newline] @ ''y'') \<and> pget e ''status'' PNone = PStr ''complete''"
proof -
  have "case patch_section ''t'' report_demo ''a'' '' y '' True True of Inl _ \<Rightarrow> False | Inr _ \<Rightarrow> True" by code_simp
  then obtain s' where s: "patch_section ''t'' report_demo ''a'' '' y '' True True = Inr s'" by (auto split: sum.splits)
  obtain secs old e secs' where p: "pget report_demo ''sections'' PNone = PDict secs"
      "map_of secs (strip ''a'') = Some (PDict old)" "pget s' ''sections'' PNone = PDict secs'"
      "map fst secs' = map fst secs" "map_of secs' = (map_of secs)(strip ''a'' \<mapsto> PDict e)"
      "pget e ''content'' PNone = PStr (merged_content old '' y '' True)"
      "pget e ''status'' PNone = PStr (status_for_content (merged_content old '' y '' True) True)"
    using patch_section_frame [OF s] by blast
  have a: "strip ''a'' = ''a''" by code_simp
  have secs: "secs = [(''a'', PDict old)]" and old: "pget old ''content'' PNone = PStr ''x''"
    using p(1,2) a by (auto simp: report_demo_def)
  obtain v where "secs' = [(''a'', v)]" using p(4) secs by (auto simp: map_eq_Cons_conv)
  with p(5) a secs have secs': "secs' = [(''a'', PDict e)]" by (auto dest: fun_cong [where x = "''a''"])
  have m: "merged_content old '' y '' True = ''x'' @ [newline, newline] @ ''y''"
  proof -
    have "strip (rstrip ''x'' @ [newline, newline] @ strip '' y '') = ''x'' @ [newline, newline] @ ''y''" by code_simp
    then show ?thesis using old by (simp add: merged_content_def Let_def)
  qed
  have "status_for_content (''x'' @ [newline, newline] @ ''y'') True = ''complete''" by code_simp
  then show ?thesis using s p secs' m by (intro exI [of _ s'] exI [of _ e]) simp
qed

text \<open>
  The summary partitions the sections: missing, partial and complete ones add up to the section count, the
  complete ones are listed in order, and nothing is missing or partial exactly when every section is complete.
\<close>

lemma summary_partition:
  "length (sm_missing (summarize_status percent state schema)) + length (sm_partial (summarize_status percent state schema)) +
     length (sm_complete (summarize_status percent state schema)) =
     sm_section_count (summarize_status percent state schema) \<and>
   (sm_missing (summarize_status percent state schema) = [] \<and> sm_partial (summarize_status percent state schema) = [] \<longleftrightarrow>
    length (sm_complete (summarize_status percent state schema)) = sm_section_count (summarize_status percent state schema))"
proof -
  have c: "length (fst (classify_sections secs ids)) + length (fst (snd (classify_sections secs ids))) +
      length (snd (snd (classify_sections secs ids))) = length ids" for secs ids
    by (induction ids) (auto simp: Let_def split_beta)
  have e: "xs = [] \<and> ys = [] \<longleftrightarrow> length zs = n" if "length xs + length ys + length zs = n"
    for xs ys :: "section_item list" and zs :: "string list" and n
    using that by (cases xs; cases ys) auto
  show ?thesis
    unfolding summarize_status_def Let_def split_beta section_summary.select_convs using c e [OF c] by blast
qed

text \<open>
  What the template shows: in the context built from the sections, the slot of a text section holds the
  value of its own content, provided no other text section's id names the same slot, a part of it or a group
  that contains it.
\<close>

lemma rendered_section_value:
  assumes "pget s ''sections'' PNone = PDict (before @ (sid, PDict e) # after)"
    and "build_render_context s = Inr ctx" and "id_path sid = Inr ks" and "\<not> is_image (pget e ''kind'' PNone)"
    and "list_all (apart_from ks) after"
  shows "ctx_get ctx ks = Some (content_to_docxtpl_value (gstr e ''content'' []))"
proof -
  obtain c1 c2 where c: "assign_context_value sid (content_to_docxtpl_value (gstr e ''content'' [])) c1 = Inr c2"
      "forE render_section after c2 = Inr ctx"
    using assms(1,2,4) by (auto simp: build_render_context_def forE_append)
  show ?thesis using render_all_apart [OF c(2) assms(5)] assign_context_result [OF c(1) assms(3)] by simp
qed

lemma rendered_section_value_witness:
  "\<exists>ctx. build_render_context [(''sections'', PDict [(''a.1'', PDict [(''content'', PStr ''x'')]),
       (''a.2'', PDict [(''content'', PStr ''y'')])])] = Inr ctx \<and>
     ctx_get ctx [KStr ''a'', KInt 1] = Some (DText ''x'')"
proof -
  let ?e = "[(''content'', PStr ''x'')]" and ?f = "[(''content'', PStr ''y'')]"
  let ?s = "[(''sections'', PDict ([] @ (''a.1'', PDict ?e) # [(''a.2'', PDict ?f)]))]"
  have "case build_render_context ?s of Inl _ \<Rightarrow> False | Inr _ \<Rightarrow> True" by code_simp
  then obtain ctx where c: "build_render_context ?s = Inr ctx" by (auto split: sum.splits)
  have p: "id_path ''a.1'' = Inr [KStr ''a'', KInt 1]" "id_path ''a.2'' = Inr [KStr ''a'', KInt 2]" by code_simp+
  have i: "\<not> is_image (pget ?e ''kind'' PNone)" by code_simp
  have "list_all (apart_from [KStr ''a'', KInt 1]) [(''a.2'', PDict ?f)]" by (simp add: p)
  from rendered_section_value [OF _ c p(1) i this] have "ctx_get ctx [KStr ''a'', KInt 1] =
      Some (content_to_docxtpl_value (gstr ?e ''content'' []))" by simp
  moreover have "content_to_docxtpl_value (gstr ?e ''content'' []) = DText ''x''" by code_simp
  ultimately show ?thesis using c by auto
qed

end
