(* ===== verification/ReportPreview.thy ===== *)
theory ReportPreview
  imports ReportState
begin

text \<open>
  The HTML preview of a report instance (\<open>packages/shared/src/duckclaw/report_engine/preview.py\<close>). The file system
  an image section reads is the record \<open>preview_fs\<close>.
\<close>

definition html_char :: "char \<Rightarrow> string" where
  "html_char c = (if c = CHR ''&'' then ''&amp;'' else if c = CHR ''<'' then ''&lt;''
     else if c = CHR ''>'' then ''&gt;'' else if c = CHR 34 then ''&quot;''
     else if c = CHR 39 then ''&#x27;'' else [c])"

text \<open>\<open>html.escape(s)\<close>.\<close>

definition html_escape :: "string \<Rightarrow> string" where
  "html_escape s = concat (map html_char s)"

record preview_fs =
  pf_resolve :: "string \<Rightarrow> string option"
  pf_name :: "string \<Rightarrow> string"
  pf_is_file :: "string \<Rightarrow> bool"
  pf_size :: "string \<Rightarrow> nat"
  pf_mime :: "string \<Rightarrow> string option"
  pf_base64 :: "string \<Rightarrow> string option"

text \<open>An attribute between single quotes.\<close>

definition sq :: "string \<Rightarrow> string" where
  "sq s = [CHR 39] @ s @ [CHR 39]"

definition image_preview_html :: "preview_fs \<Rightarrow> string \<Rightarrow> string" where
  "image_preview_html fs path_raw = (case pf_resolve fs path_raw of
     None \<Rightarrow> ''<p class='' @ sq ''empty'' @ ''>Imagen no accesible: <code>'' @ html_escape path_raw @ ''</code></p>''
   | Some resolved \<Rightarrow>
       if \<not> pf_is_file fs resolved then
         ''<p class='' @ sq ''empty'' @ ''>Imagen no encontrada: <code>'' @ html_escape resolved @ ''</code></p>''
       else let size = pf_size fs resolved; name = pf_name fs resolved in
       if size = 0 \<or> 2500000 < int size then
         ''<p class='' @ sq ''meta'' @ ''>Imagen lista para Word (<code>'' @ html_escape name @ ''</code>, '' @
         nat_str size @ '' bytes). Abre el .docx descargado para verla.</p>''
       else let mime = (case pf_mime fs name of
           None \<Rightarrow> ''image/png'' | Some m \<Rightarrow> if startswith ''image/'' m then m else ''image/png'')
       in case pf_base64 fs resolved of
         None \<Rightarrow> ''<p class='' @ sq ''empty'' @ ''>No se pudo leer: <code>'' @ html_escape resolved @ ''</code></p>''
       | Some b64 \<Rightarrow>
           ''<figure class='' @ sq ''img-slot'' @ ''><img src='' @ sq (''data:'' @ mime @ '';base64,'' @ b64) @
           '' alt='' @ sq (html_escape name) @ '' /><figcaption class='' @ sq ''meta'' @ ''>'' @ html_escape name @
           ''</figcaption></figure>'')"

definition section_kind_image :: "payload \<Rightarrow> payload option \<Rightarrow> bool" where
  "section_kind_image entry schema_row = is_image (case (pget entry ''kind'' PNone, schema_row) of
     (PNone, Some row) \<Rightarrow> pget row ''kind'' PNone | (raw, _) \<Rightarrow> raw)"

definition badge_class :: "string \<Rightarrow> string" where
  "badge_class st = (if st = ''complete'' then ''complete'' else if st = ''partial'' then ''partial'' else ''empty-b'')"

definition text_html :: "string \<Rightarrow> string" where
  "text_html content = ''<div>'' @ replace_char newline ''<br>'' (html_escape content) @ ''</div>''"

definition section_html :: "preview_fs \<Rightarrow> payload \<Rightarrow> payload option \<Rightarrow> string \<Rightarrow> string" where
  "section_html fs sections schema_row sid = (let
     entry = section_entry sections sid;
     label = html_escape (gstr entry ''label'' sid);
     st = gstr entry ''status'' ''empty'';
     content = opt_str entry ''content'' []
   in ''<h2>'' @ label @ ''<span class='' @ sq (''badge '' @ badge_class st) @ ''>'' @ html_escape st @ ''</span></h2>'' @
      (if content = [] then ''<p class='' @ sq ''empty'' @ ''>Sin contenido</p>''
       else if section_kind_image entry schema_row then image_preview_html fs content
       else text_html content))"

definition preview_head :: string where
  "preview_head = ''<!DOCTYPE html><html><head><meta charset='' @ sq ''utf-8'' @ ''><style>body{font-family:system-ui,sans-serif;max-width:820px;margin:2rem auto;padding:0 1rem;}h1{font-size:1.5rem} h2{font-size:1.1rem;margin-top:1.5rem;border-bottom:1px solid #ddd;}.meta{color:#666;font-size:.9rem} .empty{color:#999;font-style:italic} .badge{display:inline-block;font-size:.7rem;padding:.1rem .4rem;border-radius:.25rem;margin-left:.5rem}.partial{background:#fef3c7}.complete{background:#d1fae5}.empty-b{background:#f3f4f6}.img-slot img{max-width:100%;height:auto;border:1px solid #e5e7eb;border-radius:8px}.img-slot figcaption{margin-top:.35rem}</style></head><body>''"

definition render_preview_html :: "preview_fs \<Rightarrow> string \<Rightarrow> string \<Rightarrow> payload \<Rightarrow> pyval list \<Rightarrow> string" where
  "render_preview_html fs title period_key state section_schema = (let
     sections = pdict_or_empty (pget state ''sections'' PNone);
     items = schema_items section_schema;
     order = (if items = [] then map fst sections else map fst items)
   in preview_head @ ''<h1>'' @ html_escape (str_or title ''Informe'') @ ''</h1>'' @
      (if period_key = [] then [] else ''<p class='' @ sq ''meta'' @ ''>'' @ html_escape period_key @ ''</p>'') @
      concat (map (\<lambda>sid. section_html fs sections (map_of (rev items) sid) sid) order) @ ''</body></html>'')"

subsection \<open>What a browser shows\<close>

text \<open>Tags are dropped, \<open><br>\<close> is a line break, the five entities are their characters.\<close>

function visible :: "string \<Rightarrow> string" where
  "visible [] = []"
| "visible (c # s) =
     (if startswith ''<br>'' (c # s) then newline # visible (drop 4 (c # s))
      else if c = CHR ''<'' then visible (drop 1 (dropWhile (\<lambda>d. d \<noteq> CHR ''>'') s))
      else if startswith ''&amp;'' (c # s) then CHR ''&'' # visible (drop 5 (c # s))
      else if startswith ''&lt;'' (c # s) then CHR ''<'' # visible (drop 4 (c # s))
      else if startswith ''&gt;'' (c # s) then CHR ''>'' # visible (drop 4 (c # s))
      else if startswith ''&quot;'' (c # s) then CHR 34 # visible (drop 6 (c # s))
      else if startswith ''&#x27;'' (c # s) then CHR 39 # visible (drop 6 (c # s))
      else c # visible s)"
  by pat_completeness auto

termination
  by (relation "measure length") (auto intro: le_less_trans [OF diff_le_self] le_less_trans [OF length_dropWhile_le])

declare visible.simps(2) [simp del]

lemma visible_html_char: "visible (html_char c @ t) = c # visible t"
  by (subst html_char_def) (simp add: visible.simps(2) startswith_def numeral_eq_Suc)

lemma visible_plain: "c \<noteq> CHR ''<'' \<Longrightarrow> c \<noteq> CHR ''&'' \<Longrightarrow> visible (c # t) = c # visible t"
  by (simp add: visible.simps(2) startswith_def)

lemma visible_escape [simp]: "visible (html_escape s @ t) = s @ visible t"
  by (induction s) (simp_all add: html_escape_def visible_html_char)

lemma visible_tag: "CHR ''>'' \<notin> set a \<Longrightarrow> a \<noteq> ''br'' \<Longrightarrow> visible (CHR ''<'' # a @ CHR ''>'' # t) = visible t"
proof -
  assume n: "CHR ''>'' \<notin> set a" and b: "a \<noteq> ''br''"
  have "\<not> startswith ''<br>'' (CHR ''<'' # a @ CHR ''>'' # t)"
  proof (cases "a = [] \<or> tl a = [] \<or> tl (tl a) = []")
    case True
    then obtain x y where "a = [] \<or> a = [x] \<or> a = [x, y]"
      by (metis list.collapse)
    then show ?thesis using n b by (auto simp: startswith_def numeral_eq_Suc)
  next
    case False
    then obtain x y z w where "a = x # y # z # w" by (metis list.collapse)
    then show ?thesis using n by (auto simp: startswith_def numeral_eq_Suc)
  qed
  moreover have "dropWhile (\<lambda>d. d \<noteq> CHR ''>'') (a @ CHR ''>'' # t) = CHR ''>'' # t"
    using n by (induction a) auto
  ultimately show ?thesis by (subst visible.simps) simp
qed

lemma visible_br: "visible (''<br>'' @ t) = newline # visible t"
  by (simp add: visible.simps(2) [of "CHR ''<''"] startswith_def numeral_eq_Suc)

lemma html_char_newline: "newline \<in> set (html_char c) \<longleftrightarrow> c = newline"
  by (auto simp: html_char_def newline_def)

lemma replace_char_none: "a \<notin> set v \<Longrightarrow> replace_char a r v = v"
  by (induction v) (auto simp: replace_char_def)

lemma visible_text: "visible (replace_char newline ''<br>'' (html_escape s) @ t) = s @ visible t"
proof (induction s)
  case Nil
  show ?case by (simp add: html_escape_def replace_char_def)
next
  case (Cons c s)
  have r: "replace_char newline r (a @ b) = replace_char newline r a @ replace_char newline r b" for r a b
    by (simp add: replace_char_def)
  have e: "html_escape (x # s) = html_char x @ html_escape s" for x by (simp add: html_escape_def)
  show ?case
  proof (cases "c = newline")
    case True
    then have "replace_char newline ''<br>'' (html_char c) = ''<br>''"
      by (simp add: html_char_def newline_def replace_char_def)
    then have "visible (replace_char newline ''<br>'' (html_escape (c # s)) @ t) =
        visible (''<br>'' @ (replace_char newline ''<br>'' (html_escape s) @ t))" by (simp only: e r append_assoc)
    then show ?thesis using Cons visible_br True by simp
  next
    case False
    then have "newline \<notin> set (html_char c)" using html_char_newline by blast
    then have "replace_char newline ''<br>'' (html_char c) = html_char c"
      by (rule replace_char_none)
    then show ?thesis using Cons visible_html_char by (simp only: e r append_assoc append_Cons)
  qed
qed

lemma visible_span: "visible (''<span class='' @ sq (''badge '' @ badge_class st) @ ''>'' @ t) = visible t"
  using visible_tag [of "''span class='' @ sq (''badge '' @ badge_class st)" t]
  by (simp add: sq_def badge_class_def)

lemma visible_tags:
  "visible (''<h2>'' @ t) = visible t" "visible (''</h2>'' @ t) = visible t" "visible (''</span>'' @ t) = visible t"
  "visible (''<div>'' @ t) = visible t" "visible (''</div>'' @ t) = visible t" "visible (''</p>'' @ t) = visible t"
  using visible_tag [of "''h2''" t] visible_tag [of "''/h2''" t] visible_tag [of "''/span''" t]
    visible_tag [of "''div''" t] visible_tag [of "''/div''" t] visible_tag [of "''/p''" t]
  by simp_all

lemma visible_empty_p: "visible (''<p class='' @ sq ''empty'' @ ''>'' @ t) = visible t"
  using visible_tag [of "''p class='' @ sq ''empty''" t] by (simp add: sq_def)

text \<open>
  No markup comes from the data: what a browser shows of a text section is, character by character, its
  label, its status and its stripped content (or the placeholder when it is empty).
\<close>

lemma section_html_shows_text:
  "section_kind_image (section_entry sections sid) schema_row \<or>
   visible (section_html fs sections schema_row sid) =
     gstr (section_entry sections sid) ''label'' sid @ gstr (section_entry sections sid) ''status'' ''empty'' @
     str_or (opt_str (section_entry sections sid) ''content'' []) ''Sin contenido''"
proof -
  let ?e = "section_entry sections sid"
  let ?l = "gstr ?e ''label'' sid" and ?s = "gstr ?e ''status'' ''empty''" and ?c = "opt_str ?e ''content'' []"
  note tags = visible_tags [unfolded append_Cons append_Nil] visible_empty_p [unfolded append_Cons append_Nil]
    visible_span [unfolded append_Cons append_Nil]
  let ?e = "section_entry sections sid"
  let ?l = "gstr ?e ''label'' sid" and ?s = "gstr ?e ''status'' ''empty''" and ?c = "opt_str ?e ''content'' []"
  note tags = visible_tags [unfolded append_Cons append_Nil] visible_empty_p [unfolded append_Cons append_Nil]
    visible_span [unfolded append_Cons append_Nil]
  have p: "visible (''Sin contenido'' @ t) = ''Sin contenido'' @ visible t" for t
    by (simp add: visible_plain)
  have end1: "visible ''</div>'' = []" "visible ''</p>'' = []"
    using visible_tags(5) [of "[]"] visible_tags(6) [of "[]"] by simp_all
  have head: "visible (''<h2>'' @ html_escape ?l @ ''<span class='' @ sq (''badge '' @ badge_class ?s) @ ''>'' @
      html_escape ?s @ ''</span></h2>'' @ t) = ?l @ ?s @ visible t" for t
    by (simp add: tags)
  show ?thesis
  proof (cases "section_kind_image ?e schema_row")
    case False
    show ?thesis
    proof (cases "?c = []")
      case True
      have "visible (''<p class='' @ sq ''empty'' @ ''>Sin contenido</p>'') = ''Sin contenido''"
        using tags p [of "''</p>''"] end1 by simp
      with True False head show ?thesis by (simp add: section_html_def Let_def)
    next
      case ne: False
      have "visible (''<div>'' @ replace_char newline ''<br>'' (html_escape ?c) @ ''</div>'') = ?c"
        using visible_tags(4) visible_text [of ?c "''</div>''"] end1 by simp
      with ne False head show ?thesis by (simp add: section_html_def Let_def text_html_def)
    qed
  qed simp
qed

end
