(* ===== verification/Productivity.thy ===== *)
theory Productivity
  imports Tables VaultPaths
begin

text \<open>
  The index of productivity artifacts: \<open>packages/shared/src/duckclaw/write_handlers/productivity.py\<close> over
  \<open>admin_productivity_artifacts\<close>, with the deletion of stored files
  (\<open>packages/shared/src/duckclaw/productivity_artifacts.py\<close>). The files are the list of resolved paths that
  exist; resolution and the storage root are those of the process.
\<close>

record artifact =
  af_id :: string
  af_tenant :: string
  af_owner :: string
  af_lane :: string
  af_title :: string
  af_filename :: string
  af_uri :: string
  af_source_kind :: string
  af_source_ref :: string
  af_mime :: string
  af_byte_size :: int
  af_active :: bool
  af_created_at :: int
  af_updated_at :: int

record productivity =
  pd_rows :: "artifact list"
  pd_files :: "path list"

record storage_env =
  se_resolve :: "string \<Rightarrow> path option"
  se_root :: path

definition artifact_lanes :: "string list" where
  "artifact_lanes = [''storage'', ''vault'', ''report'']"

definition unlink_storage_uri :: "storage_env \<Rightarrow> string \<Rightarrow> path list \<Rightarrow> path list" where
  "unlink_storage_uri se uri files = (let raw = strip uri in
     if raw = [] then files
     else case se_resolve se raw of
       None \<Rightarrow> files
     | Some path \<Rightarrow> if relative_to path (se_root se) = None then files else filter (\<lambda>f. f \<noteq> path) files)"

text \<open>\<open>str(a or b or d)\<close> over two keys.\<close>

definition gstr2 :: "payload \<Rightarrow> string \<Rightarrow> string \<Rightarrow> string \<Rightarrow> string" where
  "gstr2 p k k' d = pystr (por (pget p k PNone) (por (pget p k' PNone) (PStr d)))"

definition apply_upsert_productivity_artifact :: "env \<Rightarrow> payload \<Rightarrow> productivity \<Rightarrow> py_error + productivity" where
  "apply_upsert_productivity_artifact e payload db = (let artifact_id = opt_str payload ''artifact_id'' [] in
     if artifact_id = [] then Inl (ValueError ''artifact_id requerido'') else
     let tenant_id = dflt_str payload ''tenant_id'' ''default'';
         owner = str_or (strip (gstr2 payload ''owner_email'' ''actor_email'' ''system'')) ''system'';
         lane = str_or (lower (opt_str payload ''lane'' ''storage'')) ''storage''
     in if lane \<notin> set artifact_lanes
     then Inl (ValueError (''lane inv'' @ [CHR 0xE1] @ ''lido: '' @ lane)) else
     let title = strip (gstr2 payload ''title'' ''filename'' artifact_id);
         filename = opt_str payload ''filename'' []; uri = opt_str payload ''uri'' [];
         source_kind = opt_str payload ''source_kind'' []; source_ref = opt_str payload ''source_ref'' [];
         mime = opt_str payload ''mime'' []
     in bindE (gint payload ''byte_size'' 0) (\<lambda>byte_size.
     bindE (sql_int64 byte_size) (\<lambda>byte_size.
     if sel_one (\<lambda>r. af_id r = artifact_id) (pd_rows db) \<noteq> None then
       Inr (db\<lparr>pd_rows := upd_where (\<lambda>r. af_id r = artifact_id)
         (\<lambda>r. r\<lparr>af_tenant := tenant_id, af_owner := owner, af_lane := lane, af_title := title,
            af_filename := filename, af_uri := uri, af_source_kind := source_kind, af_source_ref := source_ref,
            af_mime := mime, af_byte_size := byte_size, af_active := True, af_updated_at := now e\<rparr>) (pd_rows db)\<rparr>)
     else
       bindE (ins_row af_id \<lparr>af_id = artifact_id, af_tenant = tenant_id, af_owner = owner, af_lane = lane,
           af_title = title, af_filename = filename, af_uri = uri, af_source_kind = source_kind,
           af_source_ref = source_ref, af_mime = mime, af_byte_size = byte_size, af_active = True,
           af_created_at = now e, af_updated_at = now e\<rparr> (pd_rows db))
         (\<lambda>rows. Inr (db\<lparr>pd_rows := rows\<rparr>)))))"

definition apply_soft_delete_productivity_artifact ::
  "storage_env \<Rightarrow> env \<Rightarrow> payload \<Rightarrow> productivity \<Rightarrow> py_error + productivity" where
  "apply_soft_delete_productivity_artifact se e payload db = (let
     artifact_id = opt_str payload ''artifact_id'' [];
     tenant_id = dflt_str payload ''tenant_id'' ''default'';
     actor = str_or (lower (opt_str payload ''actor_email'' ''system'')) ''system''
   in
     if artifact_id = [] then Inl (ValueError ''artifact_id requerido'') else
     case sel_one (\<lambda>r. af_id r = artifact_id \<and> af_tenant r = tenant_id) (pd_rows db) of
       None \<Rightarrow> Inl (ValueError (''Artefacto no encontrado: '' @ artifact_id))
     | Some row \<Rightarrow>
         if \<not> af_active row then Inl (ValueError (''Artefacto no encontrado: '' @ artifact_id)) else
         let owner = lower (strip (af_owner row)) in
         if owner \<noteq> [] \<and> owner \<noteq> actor \<and> owner \<noteq> ''system''
         then Inl (ValueError ''Solo el propietario puede eliminar el artefacto'')
         else Inr (db\<lparr>pd_rows := upd_where (\<lambda>r. af_id r = artifact_id \<and> af_tenant r = tenant_id)
             (\<lambda>r. r\<lparr>af_active := False, af_updated_at := now e\<rparr>) (pd_rows db),
           pd_files := if af_lane row = ''storage'' \<and> af_uri row \<noteq> []
             then unlink_storage_uri se (af_uri row) (pd_files db) else pd_files db\<rparr>))"

definition artifacts_ok :: "artifact list \<Rightarrow> bool" where
  "artifacts_ok rows \<longleftrightarrow> uniq af_id rows \<and> (\<forall>r \<in> set rows. af_lane r \<in> set artifact_lanes \<and> af_id r \<noteq> [] \<and>
     - (2 ^ 63) \<le> af_byte_size r \<and> af_byte_size r < 2 ^ 63)"

definition productivity_handlers :: "storage_env \<Rightarrow> (env \<Rightarrow> payload \<Rightarrow> productivity \<Rightarrow> py_error + productivity) set" where
  "productivity_handlers se = {apply_upsert_productivity_artifact, apply_soft_delete_productivity_artifact se}"

definition artifact_removed :: "storage_env \<Rightarrow> env \<Rightarrow> payload \<Rightarrow> artifact \<Rightarrow> productivity \<Rightarrow> productivity" where
  "artifact_removed se e p row db = db\<lparr>pd_rows := upd_where (\<lambda>r. af_id r = opt_str p ''artifact_id'' [] \<and>
        af_tenant r = dflt_str p ''tenant_id'' ''default'') (\<lambda>r. r\<lparr>af_active := False, af_updated_at := now e\<rparr>) (pd_rows db),
      pd_files := if af_lane row = ''storage'' \<and> af_uri row \<noteq> []
        then unlink_storage_uri se (af_uri row) (pd_files db) else pd_files db\<rparr>"

lemma soft_delete_artifact_cases:
  assumes "apply_soft_delete_productivity_artifact se e p db = Inr db'"
  obtains row where "db' = artifact_removed se e p row db"
    "sel_one (\<lambda>r. af_id r = opt_str p ''artifact_id'' [] \<and> af_tenant r = dflt_str p ''tenant_id'' ''default'')
       (pd_rows db) = Some row"
    "af_active row" "lower (strip (af_owner row)) \<in> {[], ''system'', str_or (lower (opt_str p ''actor_email'' ''system'')) ''system''}"
proof (cases "sel_one (\<lambda>r. af_id r = opt_str p ''artifact_id'' [] \<and>
    af_tenant r = dflt_str p ''tenant_id'' ''default'') (pd_rows db)")
  case None
  with assms show ?thesis by (simp add: apply_soft_delete_productivity_artifact_def Let_def split: if_splits)
next
  case (Some row)
  note d = assms [unfolded apply_soft_delete_productivity_artifact_def Let_def Some option.case,
    folded artifact_removed_def [of se e p row db]]
  show ?thesis
  proof (rule that [OF _ Some])
    show "db' = artifact_removed se e p row db" using d by (simp split: if_split_asm)
    show "af_active row" using d by (simp split: if_split_asm)
    show "lower (strip (af_owner row)) \<in> {[], ''system'', str_or (lower (opt_str p ''actor_email'' ''system'')) ''system''}"
      using d by (simp split: if_split_asm) blast+
  qed
qed

text \<open>
  Deleting an artifact: the artifact exists in the command's tenant, is active, and belongs to the actor or
  to nobody; only its row changes, and the only file that can disappear is the one its own \<open>uri\<close> resolves to,
  inside the storage root, for an artifact of the storage lane.
\<close>

lemma artifact_delete_scope:
  assumes "apply_soft_delete_productivity_artifact se e p db = Inr db'"
  shows "\<exists>row \<in> set (pd_rows db). af_id row = opt_str p ''artifact_id'' [] \<and>
    af_tenant row = dflt_str p ''tenant_id'' ''default'' \<and> af_active row \<and>
    lower (strip (af_owner row)) \<in> {[], ''system'', str_or (lower (opt_str p ''actor_email'' ''system'')) ''system''} \<and>
    outside (\<lambda>r. af_id r = af_id row) (pd_rows db') = outside (\<lambda>r. af_id r = af_id row) (pd_rows db) \<and>
    (pd_files db' = pd_files db \<or> (\<exists>path rel. af_lane row = ''storage'' \<and> se_resolve se (strip (af_uri row)) = Some path \<and>
       path = se_root se @ rel \<and> pd_files db' = filter (\<lambda>f. f \<noteq> path) (pd_files db)))"
  using assms
proof (cases rule: soft_delete_artifact_cases)
  case (1 row)
  note row = sel_one_Some [OF 1(2)]
  have "outside (\<lambda>r. af_id r = af_id row) (pd_rows db') = outside (\<lambda>r. af_id r = af_id row) (pd_rows db)"
    using row by (auto simp: 1(1) artifact_removed_def intro!: outside_upd_where)
  moreover have "pd_files db' = pd_files db \<or> (\<exists>path rel. af_lane row = ''storage'' \<and>
      se_resolve se (strip (af_uri row)) = Some path \<and> path = se_root se @ rel \<and>
      pd_files db' = filter (\<lambda>f. f \<noteq> path) (pd_files db))"
    by (auto simp: 1(1) artifact_removed_def unlink_storage_uri_def relative_to_def Let_def prefix_def split: option.splits if_splits)
  ultimately show ?thesis using row 1(3,4) by blast
qed

definition artifact_demo :: productivity where
  "artifact_demo = \<lparr>pd_rows = [\<lparr>af_id = ''a1'', af_tenant = ''t'', af_owner = ''ana@x'', af_lane = ''storage'',
      af_title = ''T'', af_filename = ''f'', af_uri = ''/s/t/f'', af_source_kind = [], af_source_ref = [], af_mime = [],
      af_byte_size = 1, af_active = True, af_created_at = 1, af_updated_at = 1\<rparr>],
    pd_files = [[''s'', ''t'', ''f'']]\<rparr>"

definition storage_env0 :: storage_env where
  "storage_env0 = \<lparr>se_resolve = (\<lambda>s. Some (filter (\<lambda>w. w \<noteq> []) (split_char (CHR ''/'') s))), se_root = [''s'']\<rparr>"

lemma artifact_delete_scope_witness:
  "\<exists>db'. apply_soft_delete_productivity_artifact storage_env0 env0
       [(''artifact_id'', PStr ''a1''), (''tenant_id'', PStr ''t''), (''actor_email'', PStr ''Ana@x'')] artifact_demo = Inr db' \<and>
     pd_files db' = [] \<and> (\<exists>row \<in> set (pd_rows artifact_demo). af_id row = ''a1'')"
proof -
  let ?p = "[(''artifact_id'', PStr ''a1''), (''tenant_id'', PStr ''t''), (''actor_email'', PStr ''Ana@x'')]"
  have "case apply_soft_delete_productivity_artifact storage_env0 env0 ?p artifact_demo of
      Inl _ \<Rightarrow> False | Inr d \<Rightarrow> pd_files d = []" by code_simp
  then obtain d where d: "apply_soft_delete_productivity_artifact storage_env0 env0 ?p artifact_demo = Inr d" "pd_files d = []"
    by (auto split: sum.splits)
  have "opt_str ?p ''artifact_id'' [] = ''a1''" by code_simp
  with artifact_delete_scope [OF d(1)] have "\<exists>row \<in> set (pd_rows artifact_demo). af_id row = ''a1''" by auto
  with d show ?thesis by (intro exI conjI)
qed

text \<open>
  Nothing ties an artifact to its file or its owner: an actor of any tenant who registers an artifact with
  somebody else's file as its \<open>uri\<close> and deletes it removes that file; registering under an id that exists takes
  the artifact over.
\<close>

lemma artifact_uri_removes_file:
  assumes "strip aid = aid" "aid \<noteq> []" "strip uri = uri" "uri \<noteq> []"
    and "se_resolve se uri = Some (se_root se @ rel)"
  shows "\<exists>db1 db2. apply_upsert_productivity_artifact e [(''artifact_id'', PStr aid), (''tenant_id'', PStr ''evil''),
       (''actor_email'', PStr ''eve''), (''uri'', PStr uri)] db = Inr db1 \<and>
     apply_soft_delete_productivity_artifact se e [(''artifact_id'', PStr aid), (''tenant_id'', PStr ''evil''),
       (''actor_email'', PStr ''eve'')] db1 = Inr db2 \<and> se_root se @ rel \<notin> set (pd_files db2)"
proof -
  let ?p = "[(''artifact_id'', PStr aid), (''tenant_id'', PStr ''evil''), (''actor_email'', PStr ''eve''), (''uri'', PStr uri)]"
  let ?q = "[(''artifact_id'', PStr aid), (''tenant_id'', PStr ''evil''), (''actor_email'', PStr ''eve'')]"
  have g: "opt_str q ''artifact_id'' [] = aid" "dflt_str q ''tenant_id'' ''default'' = ''evil''"
      "strip (gstr2 q ''owner_email'' ''actor_email'' ''system'') = ''eve''" "opt_str q ''lane'' ''storage'' = ''storage''"
      "str_or (lower (opt_str q ''actor_email'' ''system'')) ''system'' = ''eve''" "gint q ''byte_size'' 0 = Inr 0"
    if "q = ?p \<or> q = ?q" for q
  proof -
    have "strip ''evil'' = ''evil''" "strip ''eve'' = ''eve''" "strip ''storage'' = ''storage''" "lower ''eve'' = ''eve''"
      by code_simp+
    then show "opt_str q ''artifact_id'' [] = aid" "dflt_str q ''tenant_id'' ''default'' = ''evil''"
      "strip (gstr2 q ''owner_email'' ''actor_email'' ''system'') = ''eve''" "opt_str q ''lane'' ''storage'' = ''storage''"
      "str_or (lower (opt_str q ''actor_email'' ''system'')) ''system'' = ''eve''" "gint q ''byte_size'' 0 = Inr 0"
      using that assms(1,2)
      by (auto simp: opt_str_def dflt_str_def gstr2_def gstr_def por_def gint_def)
  qed
  have u: "opt_str ?p ''uri'' [] = uri" using assms(3,4) by (simp add: opt_str_def gstr_def por_def)
  have l: "lower ''storage'' = ''storage''" by code_simp
  obtain db1 r where db1: "apply_upsert_productivity_artifact e ?p db = Inr db1"
      and r: "sel_one (\<lambda>r. af_id r = aid \<and> af_tenant r = ''evil'') (pd_rows db1) = Some r"
      and f: "af_active r" "af_owner r = ''eve''" "af_lane r = ''storage''" "af_uri r = uri"
  proof (cases "sel_one (\<lambda>r. af_id r = aid) (pd_rows db)")
    case None
    let ?r = "\<lparr>af_id = aid, af_tenant = ''evil'', af_owner = ''eve'', af_lane = ''storage'',
      af_title = strip (gstr2 ?p ''title'' ''filename'' aid), af_filename = opt_str ?p ''filename'' [], af_uri = uri,
      af_source_kind = opt_str ?p ''source_kind'' [], af_source_ref = opt_str ?p ''source_ref'' [],
      af_mime = opt_str ?p ''mime'' [], af_byte_size = 0, af_active = True, af_created_at = now e, af_updated_at = now e\<rparr>"
    show ?thesis
    proof (rule that)
      show "apply_upsert_productivity_artifact e ?p db = Inr (db\<lparr>pd_rows := pd_rows db @ [?r]\<rparr>)"
        using None assms(2) g [of ?p] u l
        by (simp add: apply_upsert_productivity_artifact_def Let_def artifact_lanes_def sel_one_None has_key_iff
          ins_row_def sql_int64_def)
      show "sel_one (\<lambda>r. af_id r = aid \<and> af_tenant r = ''evil'') (pd_rows (db\<lparr>pd_rows := pd_rows db @ [?r]\<rparr>)) = Some ?r"
        using None by (auto simp: sel_one_append sel_one_None split: option.splits dest: sel_one_Some)
    qed simp_all
  next
    case (Some r0)
    define f :: "artifact \<Rightarrow> artifact" where "f = (\<lambda>r. r\<lparr>af_tenant := ''evil'', af_owner := ''eve'', af_lane := ''storage'',
      af_title := strip (gstr2 ?p ''title'' ''filename'' aid), af_filename := opt_str ?p ''filename'' [], af_uri := uri,
      af_source_kind := opt_str ?p ''source_kind'' [], af_source_ref := opt_str ?p ''source_ref'' [],
      af_mime := opt_str ?p ''mime'' [], af_byte_size := 0, af_active := True, af_updated_at := now e\<rparr>)"
    have ff: "af_id (f r) = af_id r" "af_tenant (f r) = ''evil''" "af_owner (f r) = ''eve''" "af_lane (f r) = ''storage''"
      "af_uri (f r) = uri" "af_active (f r)" for r by (simp_all add: f_def)
    let ?rows = "upd_where (\<lambda>r. af_id r = aid) f (pd_rows db)"
    have "\<exists>x. sel_one (\<lambda>r. af_id r = aid \<and> af_tenant r = ''evil'') ?rows = Some (f x)"
      by (rule sel_one_upd_where_hit [OF Some]) (use sel_one_Some [OF Some] in \<open>simp_all add: ff\<close>)
    then obtain x where x: "sel_one (\<lambda>r. af_id r = aid \<and> af_tenant r = ''evil'') ?rows = Some (f x)" ..
    have up: "apply_upsert_productivity_artifact e ?p db = Inr (db\<lparr>pd_rows := ?rows\<rparr>)"
      using Some assms(2) g [of ?p] u l
      by (simp add: apply_upsert_productivity_artifact_def Let_def artifact_lanes_def sql_int64_def f_def)
    show ?thesis by (rule that [OF up _ ff(6) ff(3) ff(4) ff(5)]) (simp add: x)
  qed
  have e: "lower (strip ''eve'') = ''eve''" by code_simp
  have "\<exists>db2. apply_soft_delete_productivity_artifact se e ?q db1 = Inr db2 \<and>
      pd_files db2 = unlink_storage_uri se uri (pd_files db1)"
    using g [of ?q] r f e assms(2,4) by (simp add: apply_soft_delete_productivity_artifact_def Let_def)
  moreover have "se_root se @ rel \<notin> set (unlink_storage_uri se uri fs)" for fs
    using assms(3-5) by (simp add: unlink_storage_uri_def relative_to_def)
  ultimately show ?thesis using db1 by (metis (no_types, lifting))
qed

lemma artifact_uri_removes_file_witness:
  "\<exists>db1 db2. apply_upsert_productivity_artifact env0 [(''artifact_id'', PStr ''x''), (''tenant_id'', PStr ''evil''),
       (''actor_email'', PStr ''eve''), (''uri'', PStr ''/s/t/f'')] artifact_demo = Inr db1 \<and>
     apply_soft_delete_productivity_artifact storage_env0 env0 [(''artifact_id'', PStr ''x''), (''tenant_id'', PStr ''evil''),
       (''actor_email'', PStr ''eve'')] db1 = Inr db2 \<and> [''s'', ''t'', ''f''] \<notin> set (pd_files db2)"
proof -
  have "strip ''x'' = ''x''" "strip ''/s/t/f'' = ''/s/t/f''" by code_simp+
  moreover have "se_resolve storage_env0 ''/s/t/f'' = Some (se_root storage_env0 @ [''t'', ''f''])"
    by (simp add: storage_env0_def)
  moreover have "se_root storage_env0 = [''s'']" by (simp add: storage_env0_def)
  ultimately show ?thesis
    using artifact_uri_removes_file [of "''x''" "''/s/t/f''" storage_env0 "[''t'', ''f'']" env0 artifact_demo] by simp
qed

end
