(* ===== verification/Reports.thy ===== *)
theory Reports
  imports ReportPreview Productivity Workspace
begin

text \<open>
  Report templates and instances: \<open>packages/shared/src/duckclaw/write_handlers/reports.py\<close> over
  \<open>admin_report_templates\<close>, \<open>admin_report_instances\<close> and the index \<open>admin_productivity_artifacts\<close>
  (\<open>None\<close>: the table does not exist, which the handlers ignore). The JSON columns hold the value that was
  dumped. Projects and members are those of \<^theory_text>\<open>Workspace\<close>; states and previews those of
  \<^theory_text>\<open>ReportState\<close> and \<^theory_text>\<open>ReportPreview\<close>.
\<close>

subsection \<open>State\<close>

record report_template =
  rt_id :: string
  rt_tenant :: string
  rt_owner :: string
  rt_name :: string
  rt_description :: string
  rt_uri :: string
  rt_schema :: "pyval list"
  rt_mode :: string
  rt_visibility :: string
  rt_active :: bool
  rt_updated_at :: int

record report_instance =
  ri_id :: string
  ri_template :: string
  ri_tenant :: string
  ri_owner :: string
  ri_project :: string
  ri_title :: string
  ri_period :: string
  ri_state :: payload
  ri_status :: string
  ri_preview :: string
  ri_docx_uri :: string
  ri_conversation :: string
  ri_active :: bool
  ri_updated_at :: int

record reports =
  rp_templates :: "report_template list"
  rp_instances :: "report_instance list"
  rp_artifacts :: "artifact list option"
  rp_workspace :: workspace

text \<open>What the engine reads outside the database: image widths, the files of the preview and the clock.\<close>

record report_env =
  rn_width :: "pyval \<Rightarrow> pyval"
  rn_fs :: preview_fs
  rn_ts :: string

subsection \<open>Guards\<close>

definition require_template :: "reports \<Rightarrow> string \<Rightarrow> string \<Rightarrow> py_error + report_template" where
  "require_template db template_id tenant_id =
     (case sel_one (\<lambda>t. rt_id t = template_id \<and> rt_tenant t = tenant_id) (rp_templates db) of
        None \<Rightarrow> Inl (ValueError (''Plantilla no encontrada: '' @ template_id))
      | Some t \<Rightarrow> if \<not> rt_active t then Inl (ValueError (''Plantilla no encontrada: '' @ template_id)) else Inr t)"

definition template_visible_to_actor :: "report_template \<Rightarrow> string \<Rightarrow> bool" where
  "template_visible_to_actor t actor_email = (let actor = lower (strip actor_email) in
     actor \<noteq> [] \<and> actor = lower (strip (rt_owner t)) \<or>
     lower (strip (str_or (rt_visibility t) ''private'')) = ''tenant'')"

definition require_instance :: "reports \<Rightarrow> string \<Rightarrow> string \<Rightarrow> py_error + report_instance" where
  "require_instance db instance_id tenant_id =
     (case sel_one (\<lambda>i. ri_id i = instance_id \<and> ri_tenant i = tenant_id) (rp_instances db) of
        None \<Rightarrow> Inl (ValueError (''Instancia no encontrada: '' @ instance_id))
      | Some i \<Rightarrow> if \<not> ri_active i then Inl (ValueError (''Instancia no encontrada: '' @ instance_id)) else Inr i)"

definition assert_actor_on_instance :: "reports \<Rightarrow> report_instance \<Rightarrow> string \<Rightarrow> py_error + unit" where
  "assert_actor_on_instance db i actor_email = (let
     actor = lower (strip (str_or actor_email ''system''));
     owner = lower (strip (ri_owner i));
     project_id = strip (ri_project i)
   in if actor = owner then Inr ()
      else if project_id \<noteq> [] then
        bindE (require_project_access (rp_workspace db) project_id (str_or (ri_tenant i) ''default'') actor_email False)
          (\<lambda>_. Inr ())
      else Inl (ValueError ''Acceso denegado a la instancia del informe''))"

text \<open>The \<open>CHECK\<close> constraints of the two tables.\<close>

definition check_in :: "string list \<Rightarrow> string \<Rightarrow> py_error + unit" where
  "check_in allowed s = (if s \<in> set allowed then Inr () else Inl (ConstraintError ''CHECK constraint failed''))"

definition report_modes :: "string list" where
  "report_modes = [''jinja'', ''headings'', ''mixed'']"

definition report_visibilities :: "string list" where
  "report_visibilities = [''private'', ''tenant'']"

definition report_statuses :: "string list" where
  "report_statuses = [''draft'', ''ready'', ''archived'']"

definition normalize_analyzer_mode_for_storage :: "string \<Rightarrow> string" where
  "normalize_analyzer_mode_for_storage mode = (let m = strip (str_or mode ''jinja'') in
     if m = ''jinja_tables'' then ''jinja'' else if m \<in> set report_modes then m else ''jinja'')"

subsection \<open>Handlers\<close>

definition apply_upsert_report_template :: "env \<Rightarrow> payload \<Rightarrow> reports \<Rightarrow> py_error + reports" where
  "apply_upsert_report_template e payload db = (let
     template_id = opt_str payload ''template_id'' (''rtpl_'' @ take 12 (uuid_hex e 0));
     tenant_id = dflt_str payload ''tenant_id'' ''default'';
     owner = dflt_str payload ''actor_email'' ''system'';
     name = opt_str payload ''name'' template_id;
     description = opt_str payload ''description'' [];
     template_uri = opt_str payload ''template_uri'' []
   in if template_uri = [] then Inl (ValueError ''template_uri requerido'') else
   case por (pget payload ''section_schema'' PNone) (PList []) of
     PList section_schema \<Rightarrow> (let
       mode = normalize_analyzer_mode_for_storage (opt_str payload ''analyzer_mode'' ''jinja'');
       visibility = opt_str payload ''visibility'' ''private''
     in case sel_one (\<lambda>t. rt_id t = template_id) (rp_templates db) of
       Some t \<Rightarrow>
         (let existing_owner = lower (strip (rt_owner t)) in
          if rt_tenant t \<noteq> tenant_id then Inl (ValueError ''template_id pertenece a otro tenant'')
          else if existing_owner \<noteq> [] \<and> existing_owner \<noteq> lower (strip owner)
          then Inl (ValueError (''No puedes sobrescribir una plantilla de otro propietario. '' @
            ''Usa otro template_id o pide visibilidad tenant al due'' @ [CHR 0xF1] @ ''o.''))
          else bindE (check_in report_modes mode) (\<lambda>_. bindE (check_in report_visibilities visibility) (\<lambda>_.
            Inr (db\<lparr>rp_templates := upd_where (\<lambda>t. rt_id t = template_id \<and> rt_tenant t = tenant_id)
              (\<lambda>t. t\<lparr>rt_name := name, rt_description := description, rt_uri := template_uri,
                 rt_schema := section_schema, rt_mode := mode, rt_visibility := visibility, rt_active := True,
                 rt_updated_at := now e\<rparr>) (rp_templates db)\<rparr>))))
     | None \<Rightarrow>
         bindE (check_in report_modes mode) (\<lambda>_. bindE (check_in report_visibilities visibility) (\<lambda>_.
         bindE (ins_row rt_id \<lparr>rt_id = template_id, rt_tenant = tenant_id, rt_owner = owner, rt_name = name,
             rt_description = description, rt_uri = template_uri, rt_schema = section_schema, rt_mode = mode,
             rt_visibility = visibility, rt_active = True, rt_updated_at = now e\<rparr> (rp_templates db))
           (\<lambda>rows. Inr (db\<lparr>rp_templates := rows\<rparr>)))))
   | _ \<Rightarrow> Inl (ValueError ''section_schema debe ser lista''))"

text \<open>The entry of the productivity index a new instance gets.\<close>

definition index_instance :: "env \<Rightarrow> string \<Rightarrow> string \<Rightarrow> string \<Rightarrow> string \<Rightarrow> artifact list option \<Rightarrow> artifact list option" where
  "index_instance e instance_id tenant_id owner title arts = (case arts of None \<Rightarrow> None | Some rows \<Rightarrow>
     let prod_id = ''prep_'' @ instance_id in
     Some (if sel_one (\<lambda>r. af_id r = prod_id) rows \<noteq> None then
       upd_where (\<lambda>r. af_id r = prod_id) (\<lambda>r. r\<lparr>af_title := title, af_active := True, af_updated_at := now e\<rparr>) rows
     else rows @ [\<lparr>af_id = prod_id, af_tenant = tenant_id, af_owner = owner, af_lane = ''report'', af_title = title,
       af_filename = [], af_uri = [], af_source_kind = ''report_engine'', af_source_ref = instance_id, af_mime = [],
       af_byte_size = 0, af_active = True, af_created_at = now e, af_updated_at = now e\<rparr>]))"

definition apply_create_report_instance :: "report_env \<Rightarrow> env \<Rightarrow> payload \<Rightarrow> reports \<Rightarrow> py_error + reports" where
  "apply_create_report_instance rn e payload db = (let
     instance_id = opt_str payload ''instance_id'' (''rpt_'' @ take 12 (uuid_hex e 0));
     template_id = opt_str payload ''template_id'' [];
     tenant_id = dflt_str payload ''tenant_id'' ''default'';
     owner = dflt_str payload ''actor_email'' ''system'';
     title = opt_str payload ''title'' ''Informe'';
     project_id = opt_str payload ''project_id'' [];
     conversation_id = opt_str payload ''conversation_id'' []
   in if template_id = [] then Inl (ValueError ''template_id requerido'') else
   bindE (require_template db template_id tenant_id) (\<lambda>template.
   if \<not> template_visible_to_actor template owner
   then Inl (ValueError ''Plantilla no visible para este usuario (debe ser propietaria o visibility=tenant).'') else
   bindE (if project_id = [] then Inr []
          else require_project_access (rp_workspace db) project_id tenant_id owner False) (\<lambda>_.
   let state = init_state_from_schema (rn_width rn) (rt_schema template);
       preview = render_preview_html (rn_fs rn) title [] state (rt_schema template)
   in bindE (if sel_one (\<lambda>i. ri_id i = instance_id) (rp_instances db) \<noteq> None then
       Inr (upd_where (\<lambda>i. ri_id i = instance_id)
         (\<lambda>i. i\<lparr>ri_template := template_id, ri_tenant := tenant_id, ri_owner := owner, ri_project := project_id,
            ri_title := title, ri_period := [], ri_state := state, ri_preview := preview,
            ri_conversation := conversation_id, ri_status := ''draft'', ri_active := True,
            ri_updated_at := now e\<rparr>) (rp_instances db))
     else
       ins_row ri_id \<lparr>ri_id = instance_id, ri_template = template_id, ri_tenant = tenant_id, ri_owner = owner,
         ri_project = project_id, ri_title = title, ri_period = [], ri_state = state, ri_status = ''draft'',
         ri_preview = preview, ri_docx_uri = [], ri_conversation = conversation_id, ri_active = True,
         ri_updated_at = now e\<rparr> (rp_instances db))
     (\<lambda>instances. Inr (db\<lparr>rp_instances := instances,
        rp_artifacts := index_instance e instance_id tenant_id owner title (rp_artifacts db)\<rparr>)))))"

definition apply_patch_report_section :: "report_env \<Rightarrow> env \<Rightarrow> payload \<Rightarrow> reports \<Rightarrow> py_error + reports" where
  "apply_patch_report_section rn e payload db = (let
     instance_id = opt_str payload ''instance_id'' [];
     tenant_id = dflt_str payload ''tenant_id'' ''default'';
     actor = dflt_str payload ''actor_email'' ''system'';
     section_id = opt_str payload ''section_id'' [];
     content = gstr payload ''content'' [];
     mode = lower (opt_str payload ''mode'' ''replace'');
     mark_complete = truthy (pget payload ''mark_complete'' (PBool False))
   in bindE (require_instance db instance_id tenant_id) (\<lambda>inst.
   bindE (assert_actor_on_instance db inst actor) (\<lambda>_.
   bindE (require_template db (ri_template inst) tenant_id) (\<lambda>template.
   bindE (patch_section (rn_ts rn) (merge_missing_schema_sections (rn_width rn) (ri_state inst) (rt_schema template))
       section_id content (mode = ''append'') mark_complete) (\<lambda>state.
   Inr (db\<lparr>rp_instances := upd_where (\<lambda>i. ri_id i = instance_id \<and> ri_tenant i = tenant_id)
     (\<lambda>i. i\<lparr>ri_state := state, ri_preview := render_preview_html (rn_fs rn) (ri_title inst) (ri_period inst) state
        (rt_schema template), ri_updated_at := now e\<rparr>) (rp_instances db)\<rparr>))))))"

definition apply_update_report_instance_render :: "env \<Rightarrow> payload \<Rightarrow> reports \<Rightarrow> py_error + reports" where
  "apply_update_report_instance_render e payload db = (let
     instance_id = opt_str payload ''instance_id'' [];
     tenant_id = dflt_str payload ''tenant_id'' ''default'';
     actor = dflt_str payload ''actor_email'' ''system'';
     rendered_docx_uri = opt_str payload ''rendered_docx_uri'' [];
     status = opt_str payload ''status'' ''draft''
   in bindE (require_instance db instance_id tenant_id) (\<lambda>inst.
   bindE (assert_actor_on_instance db inst actor) (\<lambda>_.
   bindE (check_in report_statuses status) (\<lambda>_.
   Inr (db\<lparr>rp_instances := upd_where (\<lambda>i. ri_id i = instance_id \<and> ri_tenant i = tenant_id)
     (\<lambda>i. i\<lparr>ri_docx_uri := rendered_docx_uri, ri_status := status, ri_updated_at := now e\<rparr>) (rp_instances db)\<rparr>)))))"

definition apply_soft_delete_report_instance :: "env \<Rightarrow> payload \<Rightarrow> reports \<Rightarrow> py_error + reports" where
  "apply_soft_delete_report_instance e payload db = (let
     instance_id = opt_str payload ''instance_id'' [];
     tenant_id = dflt_str payload ''tenant_id'' ''default'';
     actor = dflt_str payload ''actor_email'' ''system''
   in if instance_id = [] then Inl (ValueError ''instance_id requerido'') else
   bindE (require_instance db instance_id tenant_id) (\<lambda>inst.
   bindE (assert_actor_on_instance db inst actor) (\<lambda>_.
   Inr (db\<lparr>rp_instances := upd_where (\<lambda>i. ri_id i = instance_id \<and> ri_tenant i = tenant_id)
       (\<lambda>i. i\<lparr>ri_active := False, ri_status := ''archived'', ri_updated_at := now e\<rparr>) (rp_instances db),
     rp_artifacts := map_option (upd_where
       (\<lambda>r. af_source_ref r = instance_id \<and> af_lane r = ''report'' \<and> af_tenant r = tenant_id)
       (\<lambda>r. r\<lparr>af_active := False, af_updated_at := now e\<rparr>)) (rp_artifacts db)\<rparr>))))"

definition apply_soft_delete_report_template :: "env \<Rightarrow> payload \<Rightarrow> reports \<Rightarrow> py_error + reports" where
  "apply_soft_delete_report_template e payload db = (let
     template_id = opt_str payload ''template_id'' [];
     tenant_id = dflt_str payload ''tenant_id'' ''default'';
     actor = str_or (lower (opt_str payload ''actor_email'' ''system'')) ''system''
   in if template_id = [] then Inl (ValueError ''template_id requerido'') else
   bindE (require_template db template_id tenant_id) (\<lambda>template.
   if actor \<noteq> lower (strip (rt_owner template))
   then Inl (ValueError ''Solo el propietario puede eliminar la plantilla'')
   else Inr (db\<lparr>rp_templates := upd_where (\<lambda>t. rt_id t = template_id \<and> rt_tenant t = tenant_id)
       (\<lambda>t. t\<lparr>rt_active := False, rt_updated_at := now e\<rparr>) (rp_templates db),
     rp_instances := upd_where (\<lambda>i. ri_template i = template_id \<and> ri_tenant i = tenant_id \<and>
         lower (ri_owner i) = lower actor \<and> ri_active i)
       (\<lambda>i. i\<lparr>ri_active := False, ri_status := ''archived'', ri_updated_at := now e\<rparr>) (rp_instances db)\<rparr>)))"

subsection \<open>The invariant of the two tables\<close>

definition template_row_ok :: "report_template \<Rightarrow> bool" where
  "template_row_ok t \<longleftrightarrow> rt_mode t \<in> set report_modes \<and> rt_visibility t \<in> set report_visibilities"

definition instance_row_ok :: "report_template list \<Rightarrow> report_instance \<Rightarrow> bool" where
  "instance_row_ok ts i \<longleftrightarrow> state_ok (ri_state i) \<and> ri_status i \<in> set report_statuses \<and>
     (ri_active i \<or> ri_status i = ''archived'') \<and> (\<exists>t \<in> set ts. rt_id t = ri_template i \<and> rt_tenant t = ri_tenant i)"

definition reports_ok :: "reports \<Rightarrow> bool" where
  "reports_ok db \<longleftrightarrow> uniq rt_id (rp_templates db) \<and> uniq ri_id (rp_instances db) \<and>
     (\<forall>t \<in> set (rp_templates db). template_row_ok t) \<and>
     (\<forall>i \<in> set (rp_instances db). instance_row_ok (rp_templates db) i)"

definition report_handlers :: "report_env \<Rightarrow> (env \<Rightarrow> payload \<Rightarrow> reports \<Rightarrow> py_error + reports) set" where
  "report_handlers rn = {apply_upsert_report_template, apply_create_report_instance rn, apply_patch_report_section rn,
     apply_update_report_instance_render, apply_soft_delete_report_instance, apply_soft_delete_report_template}"

text \<open>What a command that names an instance needs to get past its guards.\<close>

definition instance_guard :: "payload \<Rightarrow> reports \<Rightarrow> report_instance \<Rightarrow> bool" where
  "instance_guard p db i \<longleftrightarrow>
     require_instance db (opt_str p ''instance_id'' []) (dflt_str p ''tenant_id'' ''default'') = Inr i \<and>
     assert_actor_on_instance db i (dflt_str p ''actor_email'' ''system'') = Inr ()"

lemma require_instance_Inr:
  "require_instance db iid tid = Inr i \<Longrightarrow>
     i \<in> set (rp_instances db) \<and> ri_id i = iid \<and> ri_tenant i = tid \<and> ri_active i"
  by (auto simp: require_instance_def split: option.splits if_splits dest: sel_one_Some)

lemma require_template_Inr:
  "require_template db t tid = Inr r \<Longrightarrow> r \<in> set (rp_templates db) \<and> rt_id r = t \<and> rt_tenant r = tid \<and> rt_active r"
  by (auto simp: require_template_def split: option.splits if_splits dest: sel_one_Some)

lemma check_in_Inr [simp]: "check_in allowed s = Inr u \<longleftrightarrow> s \<in> set allowed"
  by (simp add: check_in_def)

lemma patch_cases:
  assumes "apply_patch_report_section rn e p db = Inr db'"
  obtains i t s where "db' = db\<lparr>rp_instances := upd_where
      (\<lambda>i. ri_id i = opt_str p ''instance_id'' [] \<and> ri_tenant i = dflt_str p ''tenant_id'' ''default'')
      (\<lambda>r. r\<lparr>ri_state := s, ri_preview := render_preview_html (rn_fs rn) (ri_title i) (ri_period i) s (rt_schema t),
         ri_updated_at := now e\<rparr>) (rp_instances db)\<rparr>"
    "instance_guard p db i" "require_template db (ri_template i) (dflt_str p ''tenant_id'' ''default'') = Inr t"
    "patch_section (rn_ts rn) (merge_missing_schema_sections (rn_width rn) (ri_state i) (rt_schema t))
       (opt_str p ''section_id'' []) (gstr p ''content'' []) (lower (opt_str p ''mode'' ''replace'') = ''append'')
       (truthy (pget p ''mark_complete'' (PBool False))) = Inr s"
  using assms unfolding apply_patch_report_section_def Let_def instance_guard_def by (elim bindE_InrE) (simp; blast)

lemma render_cases:
  assumes "apply_update_report_instance_render e p db = Inr db'"
  obtains i where "db' = db\<lparr>rp_instances := upd_where
      (\<lambda>i. ri_id i = opt_str p ''instance_id'' [] \<and> ri_tenant i = dflt_str p ''tenant_id'' ''default'')
      (\<lambda>r. r\<lparr>ri_docx_uri := opt_str p ''rendered_docx_uri'' [], ri_status := opt_str p ''status'' ''draft'',
         ri_updated_at := now e\<rparr>) (rp_instances db)\<rparr>"
    "instance_guard p db i" "opt_str p ''status'' ''draft'' \<in> set report_statuses"
  using assms unfolding apply_update_report_instance_render_def Let_def instance_guard_def
  by (elim bindE_InrE) simp

lemma delete_instance_cases:
  assumes "apply_soft_delete_report_instance e p db = Inr db'"
  obtains i where "db' = db\<lparr>rp_instances := upd_where
      (\<lambda>i. ri_id i = opt_str p ''instance_id'' [] \<and> ri_tenant i = dflt_str p ''tenant_id'' ''default'')
      (\<lambda>r. r\<lparr>ri_active := False, ri_status := ''archived'', ri_updated_at := now e\<rparr>) (rp_instances db),
    rp_artifacts := map_option (upd_where (\<lambda>r. af_source_ref r = opt_str p ''instance_id'' [] \<and>
        af_lane r = ''report'' \<and> af_tenant r = dflt_str p ''tenant_id'' ''default'')
      (\<lambda>r. r\<lparr>af_active := False, af_updated_at := now e\<rparr>)) (rp_artifacts db)\<rparr>"
    "instance_guard p db i" "opt_str p ''instance_id'' [] \<noteq> []"
  using assms unfolding apply_soft_delete_report_instance_def Let_def instance_guard_def
  by (simp split: if_split_asm) blast

lemma delete_template_cases:
  assumes "apply_soft_delete_report_template e p db = Inr db'"
  obtains t actor where "db' = db\<lparr>rp_templates := upd_where
      (\<lambda>t. rt_id t = opt_str p ''template_id'' [] \<and> rt_tenant t = dflt_str p ''tenant_id'' ''default'')
      (\<lambda>t. t\<lparr>rt_active := False, rt_updated_at := now e\<rparr>) (rp_templates db),
    rp_instances := upd_where (\<lambda>i. ri_template i = opt_str p ''template_id'' [] \<and>
        ri_tenant i = dflt_str p ''tenant_id'' ''default'' \<and> lower (ri_owner i) = lower actor \<and> ri_active i)
      (\<lambda>i. i\<lparr>ri_active := False, ri_status := ''archived'', ri_updated_at := now e\<rparr>) (rp_instances db)\<rparr>"
    "require_template db (opt_str p ''template_id'' []) (dflt_str p ''tenant_id'' ''default'') = Inr t"
    "actor = str_or (lower (opt_str p ''actor_email'' ''system'')) ''system''" "actor = lower (strip (rt_owner t))"
  using assms unfolding apply_soft_delete_report_template_def Let_def
  by (simp split: if_split_asm)

text \<open>The instance the guards found is the one with the command's id.\<close>

lemma instance_guard_row:
  "instance_guard p db i \<Longrightarrow> i \<in> set (rp_instances db) \<and> ri_id i = opt_str p ''instance_id'' [] \<and>
     ri_tenant i = dflt_str p ''tenant_id'' ''default'' \<and> ri_active i"
  by (auto simp: instance_guard_def dest: require_instance_Inr)

text \<open>Updating instance rows in place, and one instance, keeps the invariant when the new rows are in order.\<close>

lemma instances_upd_ok:
  assumes "reports_ok db" "\<And>i. ri_id (f i) = ri_id i"
    and "\<And>i. i \<in> set (rp_instances db) \<Longrightarrow> instance_row_ok (rp_templates db) i \<Longrightarrow> P i \<Longrightarrow>
      instance_row_ok (rp_templates db) (f i)"
  shows "reports_ok (db\<lparr>rp_instances := upd_where P f (rp_instances db)\<rparr>)"
  using assms by (auto simp: reports_ok_def set_upd_where intro!: uniq_upd_where)

lemma one_instance_upd_ok:
  assumes "reports_ok db" "instance_guard p db i" "\<And>i. ri_id (f i) = ri_id i"
    and "instance_row_ok (rp_templates db) i \<Longrightarrow> instance_row_ok (rp_templates db) (f i)"
  shows "reports_ok (db\<lparr>rp_instances := upd_where
    (\<lambda>i. ri_id i = opt_str p ''instance_id'' [] \<and> ri_tenant i = dflt_str p ''tenant_id'' ''default'') f (rp_instances db)\<rparr>)"
proof (rule instances_upd_ok [OF assms(1,3)])
  fix j assume j: "j \<in> set (rp_instances db)" "instance_row_ok (rp_templates db) j"
    "ri_id j = opt_str p ''instance_id'' [] \<and> ri_tenant j = dflt_str p ''tenant_id'' ''default''"
  have "j = i" using assms(1) j instance_guard_row [OF assms(2)]
    by (intro uniq_eq [of ri_id "rp_instances db"]) (auto simp: reports_ok_def)
  with j(2) assms(4) show "instance_row_ok (rp_templates db) (f j)" by simp
qed

lemma reports_ok_artifacts [simp]: "reports_ok (db\<lparr>rp_artifacts := a\<rparr>) = reports_ok db"
  by (simp add: reports_ok_def)

lemma instance_row_ok_templates:
  "instance_row_ok ts i \<Longrightarrow> (\<And>t. t \<in> set ts \<Longrightarrow> \<exists>t' \<in> set ts'. rt_id t' = rt_id t \<and> rt_tenant t' = rt_tenant t) \<Longrightarrow>
     instance_row_ok ts' i"
  unfolding instance_row_ok_def by (metis (no_types, lifting))

lemma templates_upd_ok:
  assumes "reports_ok db" "\<And>t. rt_id (f t) = rt_id t" "\<And>t. rt_tenant (f t) = rt_tenant t"
    and "\<And>t. template_row_ok t \<Longrightarrow> template_row_ok (f t)"
  shows "reports_ok (db\<lparr>rp_templates := upd_where P f (rp_templates db)\<rparr>)"
proof -
  have "instance_row_ok (upd_where P f (rp_templates db)) i" if "i \<in> set (rp_instances db)" for i
  proof (rule instance_row_ok_templates)
    show "instance_row_ok (rp_templates db) i" using assms(1) that by (simp add: reports_ok_def)
    show "\<exists>t' \<in> set (upd_where P f (rp_templates db)). rt_id t' = rt_id t \<and> rt_tenant t' = rt_tenant t"
      if "t \<in> set (rp_templates db)" for t
      using that assms(2,3) by (intro bexI [of _ "if P t then f t else t"]) (auto simp: set_upd_where)
  qed
  moreover have "uniq rt_id (upd_where P f (rp_templates db))"
    using assms(1,2) by (auto simp: reports_ok_def intro: uniq_upd_where)
  ultimately show ?thesis using assms(1,4) by (auto simp: reports_ok_def set_upd_where)
qed

lemma patch_ok: "apply_patch_report_section rn e p db = Inr db' \<Longrightarrow> reports_ok db \<Longrightarrow> reports_ok db'"
proof (erule patch_cases)
  fix i t s
  assume ok: "reports_ok db" and g: "instance_guard p db i"
    and patched: "patch_section (rn_ts rn) (merge_missing_schema_sections (rn_width rn) (ri_state i) (rt_schema t))
       (opt_str p ''section_id'' []) (gstr p ''content'' []) (lower (opt_str p ''mode'' ''replace'') = ''append'')
       (truthy (pget p ''mark_complete'' (PBool False))) = Inr s"
    and db': "db' = db\<lparr>rp_instances := upd_where
      (\<lambda>i. ri_id i = opt_str p ''instance_id'' [] \<and> ri_tenant i = dflt_str p ''tenant_id'' ''default'')
      (\<lambda>r. r\<lparr>ri_state := s, ri_preview := render_preview_html (rn_fs rn) (ri_title i) (ri_period i) s (rt_schema t),
         ri_updated_at := now e\<rparr>) (rp_instances db)\<rparr>"
  have "state_ok s" if "instance_row_ok (rp_templates db) i"
    using that patch_state_ok [OF merge_state_ok patched] by (simp add: instance_row_ok_def)
  then show "reports_ok db'" unfolding db'
    by (intro one_instance_upd_ok [OF ok g]) (simp_all add: instance_row_ok_def)
qed

lemma render_ok: "apply_update_report_instance_render e p db = Inr db' \<Longrightarrow> reports_ok db \<Longrightarrow> reports_ok db'"
proof (erule render_cases, hypsubst)
  fix i assume "reports_ok db" "instance_guard p db i" "opt_str p ''status'' ''draft'' \<in> set report_statuses"
  then show "reports_ok (db\<lparr>rp_instances := upd_where
      (\<lambda>i. ri_id i = opt_str p ''instance_id'' [] \<and> ri_tenant i = dflt_str p ''tenant_id'' ''default'')
      (\<lambda>r. r\<lparr>ri_docx_uri := opt_str p ''rendered_docx_uri'' [], ri_status := opt_str p ''status'' ''draft'',
         ri_updated_at := now e\<rparr>) (rp_instances db)\<rparr>)"
    by (intro one_instance_upd_ok) (auto simp: instance_row_ok_def dest: instance_guard_row)
qed

lemma archive_row_ok:
  "instance_row_ok ts i \<Longrightarrow> instance_row_ok ts (i\<lparr>ri_active := False, ri_status := ''archived'', ri_updated_at := n\<rparr>)"
  by (simp add: instance_row_ok_def report_statuses_def)

lemma delete_instance_ok: "apply_soft_delete_report_instance e p db = Inr db' \<Longrightarrow> reports_ok db \<Longrightarrow> reports_ok db'"
  by (erule delete_instance_cases)
    (simp add: reports_ok_artifacts instances_upd_ok archive_row_ok)

lemma delete_template_ok: "apply_soft_delete_report_template e p db = Inr db' \<Longrightarrow> reports_ok db \<Longrightarrow> reports_ok db'"
proof (erule delete_template_cases)
  fix t actor
  let ?ts = "upd_where (\<lambda>t. rt_id t = opt_str p ''template_id'' [] \<and> rt_tenant t = dflt_str p ''tenant_id'' ''default'')
      (\<lambda>t. t\<lparr>rt_active := False, rt_updated_at := now e\<rparr>) (rp_templates db)"
  let ?P = "\<lambda>i. ri_template i = opt_str p ''template_id'' [] \<and>
        ri_tenant i = dflt_str p ''tenant_id'' ''default'' \<and> lower (ri_owner i) = lower actor \<and> ri_active i"
  let ?f = "\<lambda>i. i\<lparr>ri_active := False, ri_status := ''archived'', ri_updated_at := now e\<rparr>"
  assume ok: "reports_ok db"
    and db': "db' = db\<lparr>rp_templates := ?ts, rp_instances := upd_where ?P ?f (rp_instances db)\<rparr>"
  have "reports_ok (db\<lparr>rp_templates := ?ts\<rparr>)"
    by (rule templates_upd_ok [OF ok]) (simp_all add: template_row_ok_def)
  then show "reports_ok db'"
    using instances_upd_ok [of "db\<lparr>rp_templates := ?ts\<rparr>" ?f ?P] archive_row_ok by (simp add: db')
qed

text \<open>What creation writes into a row, for a new id and for one that is taken over.\<close>

definition created_instance :: "report_env \<Rightarrow> env \<Rightarrow> payload \<Rightarrow> report_template \<Rightarrow> report_instance \<Rightarrow> report_instance" where
  "created_instance rn e p t i = (let state = init_state_from_schema (rn_width rn) (rt_schema t) in
     i\<lparr>ri_template := opt_str p ''template_id'' [], ri_tenant := dflt_str p ''tenant_id'' ''default'',
       ri_owner := dflt_str p ''actor_email'' ''system'', ri_project := opt_str p ''project_id'' [],
       ri_title := opt_str p ''title'' ''Informe'', ri_period := [], ri_state := state,
       ri_preview := render_preview_html (rn_fs rn) (opt_str p ''title'' ''Informe'') [] state (rt_schema t),
       ri_conversation := opt_str p ''conversation_id'' [], ri_status := ''draft'', ri_active := True,
       ri_updated_at := now e\<rparr>)"

definition blank_instance :: "string \<Rightarrow> report_instance" where
  "blank_instance iid = \<lparr>ri_id = iid, ri_template = [], ri_tenant = [], ri_owner = [], ri_project = [], ri_title = [],
     ri_period = [], ri_state = [], ri_status = [], ri_preview = [], ri_docx_uri = [], ri_conversation = [],
     ri_active = True, ri_updated_at = 0\<rparr>"

definition instance_id_of :: "env \<Rightarrow> payload \<Rightarrow> string" where
  "instance_id_of e p = opt_str p ''instance_id'' (''rpt_'' @ take 12 (uuid_hex e 0))"

lemma created_instance_id [simp]: "ri_id (created_instance rn e p t i) = ri_id i"
  by (simp add: created_instance_def Let_def)

lemma create_result:
  assumes "require_template db (opt_str p ''template_id'' []) (dflt_str p ''tenant_id'' ''default'') = Inr t"
    and "template_visible_to_actor t (dflt_str p ''actor_email'' ''system'')" and "opt_str p ''template_id'' [] \<noteq> []"
    and "opt_str p ''project_id'' [] = [] \<or> (\<exists>u. require_project_access (rp_workspace db) (opt_str p ''project_id'' [])
      (dflt_str p ''tenant_id'' ''default'') (dflt_str p ''actor_email'' ''system'') False = Inr u)"
  shows "apply_create_report_instance rn e p db = Inr (db\<lparr>rp_instances :=
      (if has_key ri_id (instance_id_of e p) (rp_instances db)
       then upd_where (\<lambda>i. ri_id i = instance_id_of e p) (created_instance rn e p t) (rp_instances db)
       else rp_instances db @ [created_instance rn e p t (blank_instance (instance_id_of e p))]),
    rp_artifacts := index_instance e (instance_id_of e p) (dflt_str p ''tenant_id'' ''default'')
      (dflt_str p ''actor_email'' ''system'') (opt_str p ''title'' ''Informe'') (rp_artifacts db)\<rparr>)"
proof -
  have sel: "sel_one (\<lambda>i. ri_id i = instance_id_of e p) (rp_instances db) = None \<longleftrightarrow>
      \<not> has_key ri_id (instance_id_of e p) (rp_instances db)" by (auto simp: sel_one_None has_key_iff)
  have access: "(if opt_str p ''project_id'' [] = [] then Inr [] else require_project_access (rp_workspace db)
      (opt_str p ''project_id'' []) (dflt_str p ''tenant_id'' ''default'') (dflt_str p ''actor_email'' ''system'') False) =
      Inr (if opt_str p ''project_id'' [] = [] then [] else projr (require_project_access (rp_workspace db)
      (opt_str p ''project_id'' []) (dflt_str p ''tenant_id'' ''default'') (dflt_str p ''actor_email'' ''system'') False))"
    using assms(4) by auto
  show ?thesis
    unfolding apply_create_report_instance_def Let_def instance_id_of_def [symmetric] assms(1) access sel
    using assms(2,3) by (simp add: created_instance_def [abs_def] blank_instance_def ins_row_def Let_def)
qed

lemma create_cases:
  assumes "apply_create_report_instance rn e p db = Inr db'"
  obtains t where "require_template db (opt_str p ''template_id'' []) (dflt_str p ''tenant_id'' ''default'') = Inr t"
    "db' = db\<lparr>rp_instances :=
      (if has_key ri_id (instance_id_of e p) (rp_instances db)
       then upd_where (\<lambda>i. ri_id i = instance_id_of e p) (created_instance rn e p t) (rp_instances db)
       else rp_instances db @ [created_instance rn e p t (blank_instance (instance_id_of e p))]),
    rp_artifacts := index_instance e (instance_id_of e p) (dflt_str p ''tenant_id'' ''default'')
      (dflt_str p ''actor_email'' ''system'') (opt_str p ''title'' ''Informe'') (rp_artifacts db)\<rparr>"
proof -
  obtain t where t: "require_template db (opt_str p ''template_id'' []) (dflt_str p ''tenant_id'' ''default'') = Inr t"
    and v: "template_visible_to_actor t (dflt_str p ''actor_email'' ''system'')" "opt_str p ''template_id'' [] \<noteq> []"
    and a: "opt_str p ''project_id'' [] = [] \<or> (\<exists>u. require_project_access (rp_workspace db) (opt_str p ''project_id'' [])
      (dflt_str p ''tenant_id'' ''default'') (dflt_str p ''actor_email'' ''system'') False = Inr u)"
    using assms unfolding apply_create_report_instance_def Let_def by (simp split: if_split_asm)
  show ?thesis using that [OF t] assms unfolding create_result [OF t v a] by simp
qed

lemma created_row_ok:
  "t \<in> set ts \<Longrightarrow> rt_id t = opt_str p ''template_id'' [] \<Longrightarrow> rt_tenant t = dflt_str p ''tenant_id'' ''default'' \<Longrightarrow>
     instance_row_ok ts (created_instance rn e p t i)"
  by (auto simp: instance_row_ok_def created_instance_def init_state_ok report_statuses_def Let_def)

lemma create_ok: "apply_create_report_instance rn e p db = Inr db' \<Longrightarrow> reports_ok db \<Longrightarrow> reports_ok db'"
proof (erule create_cases)
  fix t assume ok: "reports_ok db"
    and "require_template db (opt_str p ''template_id'' []) (dflt_str p ''tenant_id'' ''default'') = Inr t"
    and db': "db' = db\<lparr>rp_instances :=
      (if has_key ri_id (instance_id_of e p) (rp_instances db)
       then upd_where (\<lambda>i. ri_id i = instance_id_of e p) (created_instance rn e p t) (rp_instances db)
       else rp_instances db @ [created_instance rn e p t (blank_instance (instance_id_of e p))]),
    rp_artifacts := index_instance e (instance_id_of e p) (dflt_str p ''tenant_id'' ''default'')
      (dflt_str p ''actor_email'' ''system'') (opt_str p ''title'' ''Informe'') (rp_artifacts db)\<rparr>"
  then have row: "instance_row_ok (rp_templates db) (created_instance rn e p t i)" for i
    by (auto intro!: created_row_ok dest: require_template_Inr)
  have id: "ri_id (blank_instance s) = s" for s by (simp add: blank_instance_def)
  have "reports_ok (db\<lparr>rp_instances := rp_instances db @ [created_instance rn e p t (blank_instance (instance_id_of e p))]\<rparr>)"
    if "\<not> has_key ri_id (instance_id_of e p) (rp_instances db)"
    using ok row that by (simp add: reports_ok_def id)
  moreover have "reports_ok (db\<lparr>rp_instances :=
      upd_where (\<lambda>i. ri_id i = instance_id_of e p) (created_instance rn e p t) (rp_instances db)\<rparr>)"
    by (rule instances_upd_ok [OF ok]) (simp_all add: row)
  ultimately show "reports_ok db'" unfolding db' by simp
qed

lemma upsert_template_cases:
  assumes "apply_upsert_report_template e p db = Inr db'"
  obtains (update) f where "db' = db\<lparr>rp_templates := upd_where (\<lambda>t. rt_id t = opt_str p ''template_id'' (''rtpl_'' @ take 12 (uuid_hex e 0)) \<and>
      rt_tenant t = dflt_str p ''tenant_id'' ''default'') f (rp_templates db)\<rparr>"
    "\<And>t. rt_id (f t) = rt_id t" "\<And>t. rt_tenant (f t) = rt_tenant t" "\<And>t. template_row_ok (f t)"
  | (insert) t where "db' = db\<lparr>rp_templates := rp_templates db @ [t]\<rparr>" "template_row_ok t"
    "\<not> has_key rt_id (rt_id t) (rp_templates db)"
proof (cases "sel_one (\<lambda>t. rt_id t = opt_str p ''template_id'' (''rtpl_'' @ take 12 (uuid_hex e 0))) (rp_templates db)")
  case None
  then show ?thesis using assms insert unfolding apply_upsert_report_template_def Let_def
    by (auto simp: template_row_ok_def split: if_splits pyval.splits)
next
  case (Some t)
  then show ?thesis using assms unfolding apply_upsert_report_template_def Let_def
    by (auto simp: template_row_ok_def split: if_splits pyval.splits intro!: update)
qed

lemma upsert_template_ok: "apply_upsert_report_template e p db = Inr db' \<Longrightarrow> reports_ok db \<Longrightarrow> reports_ok db'"
proof (erule upsert_template_cases)
  fix f assume "reports_ok db" "\<And>t. rt_id (f t) = rt_id t" "\<And>t. rt_tenant (f t) = rt_tenant t" "\<And>t. template_row_ok (f t)"
    "db' = db\<lparr>rp_templates := upd_where (\<lambda>t. rt_id t = opt_str p ''template_id'' (''rtpl_'' @ take 12 (uuid_hex e 0)) \<and>
      rt_tenant t = dflt_str p ''tenant_id'' ''default'') f (rp_templates db)\<rparr>"
  then show "reports_ok db'" by (simp add: templates_upd_ok)
next
  fix t assume "reports_ok db" "db' = db\<lparr>rp_templates := rp_templates db @ [t]\<rparr>" "template_row_ok t"
    "\<not> has_key rt_id (rt_id t) (rp_templates db)"
  then show "reports_ok db'" by (auto simp: reports_ok_def instance_row_ok_def)
qed

text \<open>
  C40. Integrity of the report tables: whatever a report command does, template and instance ids stay unique,
  modes, visibilities and statuses stay in their ranges, the state of every instance is well formed (stripped
  section ids, contents and the statuses they imply), an inactive instance is archived, and every instance
  names a template of its own tenant.
\<close>

lemma reports_invariant:
  assumes "reports_ok db" "h \<in> report_handlers rn" "h e p db = Inr db'"
  shows "reports_ok db'"
  using assms unfolding report_handlers_def
  by (elim insertE emptyE) (hypsubst, erule (1) upsert_template_ok create_ok patch_ok render_ok delete_instance_ok
    delete_template_ok)+

definition reports_demo :: reports where
  "reports_demo = \<lparr>rp_templates = [\<lparr>rt_id = ''t1'', rt_tenant = ''acme'', rt_owner = ''ana@x'', rt_name = ''T'',
      rt_description = [], rt_uri = ''u'', rt_schema = [PDict [(''id'', PStr ''intro'')]], rt_mode = ''jinja'',
      rt_visibility = ''tenant'', rt_active = True, rt_updated_at = 1\<rparr>],
    rp_instances = [\<lparr>ri_id = ''r1'', ri_template = ''t1'', ri_tenant = ''acme'', ri_owner = ''bob@x'', ri_project = [],
      ri_title = ''R'', ri_period = [], ri_state = [(''sections'', PDict [(''intro'', PDict [(''status'', PStr ''partial''),
        (''content'', PStr ''hi'')])])], ri_status = ''draft'', ri_preview = [], ri_docx_uri = [], ri_conversation = [],
      ri_active = True, ri_updated_at = 1\<rparr>],
    rp_artifacts = None, rp_workspace = ws_demo\<rparr>"

definition report_env0 :: report_env where
  "report_env0 = \<lparr>rn_width = (\<lambda>v. v), rn_fs = \<lparr>pf_resolve = (\<lambda>_. None), pf_name = (\<lambda>s. s), pf_is_file = (\<lambda>_. False),
     pf_size = (\<lambda>_. 0), pf_mime = (\<lambda>_. None), pf_base64 = (\<lambda>_. None)\<rparr>, rn_ts = ''now''\<rparr>"

lemma strip_consts: "strip ''intro'' = ''intro''" "strip ''hi'' = ''hi''"
  by code_simp+

lemma reports_demo_ok: "reports_ok reports_demo"
  by (simp add: reports_demo_def reports_ok_def uniq_def template_row_ok_def instance_row_ok_def report_modes_def
    report_visibilities_def report_statuses_def state_ok_def sections_ok_def section_ok_def pget_def strip_consts)

lemma reports_invariant_witness:
  "\<exists>db'. apply_soft_delete_report_template env0 [(''template_id'', PStr ''t1''), (''tenant_id'', PStr ''acme''),
       (''actor_email'', PStr ''Ana@x'')] reports_demo = Inr db' \<and> reports_ok db' \<and> rp_instances db' \<noteq> []"
proof -
  let ?p = "[(''template_id'', PStr ''t1''), (''tenant_id'', PStr ''acme''), (''actor_email'', PStr ''Ana@x'')]"
  have "case apply_soft_delete_report_template env0 ?p reports_demo of Inl _ \<Rightarrow> False | Inr d \<Rightarrow> rp_instances d \<noteq> []"
    by code_simp
  then obtain d where d: "apply_soft_delete_report_template env0 ?p reports_demo = Inr d" "rp_instances d \<noteq> []"
    by (auto split: sum.splits)
  have "apply_soft_delete_report_template \<in> report_handlers report_env0" by (simp add: report_handlers_def)
  from reports_invariant [OF reports_demo_ok this d(1)] d show ?thesis by blast
qed

subsection \<open>Who may change an instance\<close>

definition report_actor :: "payload \<Rightarrow> string" where
  "report_actor p = lower (strip (dflt_str p ''actor_email'' ''system''))"

definition instance_handlers :: "report_env \<Rightarrow> (env \<Rightarrow> payload \<Rightarrow> reports \<Rightarrow> py_error + reports) set" where
  "instance_handlers rn = {apply_patch_report_section rn, apply_update_report_instance_render,
     apply_soft_delete_report_instance}"

lemma assert_actor_cases:
  assumes "assert_actor_on_instance db i actor = Inr ()" "actor \<noteq> []"
  shows "lower (strip (ri_owner i)) = lower (strip actor) \<or> strip (ri_project i) \<noteq> [] \<and>
    (\<exists>u. require_project_access (rp_workspace db) (strip (ri_project i)) (str_or (ri_tenant i) ''default'') actor False = Inr u)"
  using assms by (auto simp: assert_actor_on_instance_def Let_def split: if_splits)

lemma instance_handler_cases:
  assumes "h \<in> instance_handlers rn" "h e p db = Inr db'"
  shows "\<exists>i. instance_guard p db i \<and>
    outside (\<lambda>j. ri_id j = ri_id i) (rp_instances db') = outside (\<lambda>j. ri_id j = ri_id i) (rp_instances db) \<and>
    rp_templates db' = rp_templates db \<and> rp_workspace db' = rp_workspace db"
  using assms(1,2) unfolding instance_handlers_def
proof (elim insertE emptyE, goal_cases)
  case 1
  then have "apply_patch_report_section rn e p db = Inr db'" by simp
  then show ?case
    by (rule patch_cases) (auto intro!: exI outside_upd_where dest: instance_guard_row)
next
  case 2
  then have "apply_update_report_instance_render e p db = Inr db'" by simp
  then show ?case
    by (rule render_cases) (auto intro!: exI outside_upd_where dest: instance_guard_row)
next
  case 3
  then have "apply_soft_delete_report_instance e p db = Inr db'" by simp
  then show ?case
    by (rule delete_instance_cases) (auto intro!: exI outside_upd_where dest: instance_guard_row)
qed

text \<open>
  Authorization: a section is patched, a rendering recorded or an instance deleted only when the instance
  exists in the command's tenant and is active, and the actor is its owner or passes the access check of its
  project; no other instance, no template and nothing of the workspace changes.
\<close>

lemma report_instance_authorization:
  assumes "h \<in> instance_handlers rn" "h e p db = Inr db'"
  shows "\<exists>i \<in> set (rp_instances db). ri_id i = opt_str p ''instance_id'' [] \<and>
    ri_tenant i = dflt_str p ''tenant_id'' ''default'' \<and> ri_active i \<and>
    (lower (strip (ri_owner i)) = report_actor p \<or> strip (ri_project i) \<noteq> [] \<and>
      (\<exists>u. require_project_access (rp_workspace db) (strip (ri_project i)) (str_or (ri_tenant i) ''default'')
        (dflt_str p ''actor_email'' ''system'') False = Inr u)) \<and>
    outside (\<lambda>j. ri_id j = ri_id i) (rp_instances db') = outside (\<lambda>j. ri_id j = ri_id i) (rp_instances db) \<and>
    rp_templates db' = rp_templates db \<and> rp_workspace db' = rp_workspace db"
proof -
  obtain i where i: "instance_guard p db i"
    "outside (\<lambda>j. ri_id j = ri_id i) (rp_instances db') = outside (\<lambda>j. ri_id j = ri_id i) (rp_instances db)"
    "rp_templates db' = rp_templates db" "rp_workspace db' = rp_workspace db"
    using instance_handler_cases [OF assms] by blast
  have "dflt_str p ''actor_email'' ''system'' \<noteq> []" by simp
  then show ?thesis
    using i instance_guard_row [OF i(1)] assert_actor_cases [of db i "dflt_str p ''actor_email'' ''system''"]
    unfolding instance_guard_def report_actor_def by (intro bexI [of _ i]) auto
qed

lemma report_instance_authorization_witness:
  "\<exists>db'. apply_soft_delete_report_instance env0 [(''instance_id'', PStr ''r1''), (''tenant_id'', PStr ''acme''),
       (''actor_email'', PStr ''Bob@x'')] reports_demo = Inr db' \<and>
     map ri_status (rp_instances db') = [''archived''] \<and> rp_templates db' = rp_templates reports_demo"
proof -
  let ?p = "[(''instance_id'', PStr ''r1''), (''tenant_id'', PStr ''acme''), (''actor_email'', PStr ''Bob@x'')]"
  have "case apply_soft_delete_report_instance env0 ?p reports_demo of Inl _ \<Rightarrow> False
    | Inr d \<Rightarrow> map ri_status (rp_instances d) = [''archived'']" by code_simp
  then obtain d where d: "apply_soft_delete_report_instance env0 ?p reports_demo = Inr d"
    "map ri_status (rp_instances d) = [''archived'']" by (auto split: sum.splits)
  have "apply_soft_delete_report_instance \<in> instance_handlers report_env0" by (simp add: instance_handlers_def)
  from report_instance_authorization [OF this d(1)] have "rp_templates d = rp_templates reports_demo" by blast
  with d show ?thesis by (intro exI conjI)
qed

text \<open>
  The guard that creation lacks: a command that names an instance that exists, of whatever tenant and owner,
  and any template the actor may see, succeeds; the row then belongs to the actor and his tenant and its sections
  are those of an empty report.
\<close>

lemma create_instance_takes_over:
  assumes "i \<in> set (rp_instances db)" "instance_id_of e p = ri_id i"
    and "require_template db (opt_str p ''template_id'' []) (dflt_str p ''tenant_id'' ''default'') = Inr t"
    and "template_visible_to_actor t (dflt_str p ''actor_email'' ''system'')" "opt_str p ''template_id'' [] \<noteq> []"
    and "opt_str p ''project_id'' [] = []"
  shows "\<exists>db'. apply_create_report_instance rn e p db = Inr db' \<and> (\<exists>j \<in> set (rp_instances db'). ri_id j = ri_id i \<and>
    ri_tenant j = dflt_str p ''tenant_id'' ''default'' \<and> ri_owner j = dflt_str p ''actor_email'' ''system'' \<and>
    ri_state j = init_state_from_schema (rn_width rn) (rt_schema t))"
proof -
  have key: "has_key ri_id (ri_id i) (rp_instances db)" using assms(1) by (auto simp: has_key_iff)
  have "created_instance rn e p t i \<in> set (upd_where (\<lambda>j. ri_id j = ri_id i) (created_instance rn e p t) (rp_instances db))"
    using assms(1) by (auto simp: set_upd_where)
  moreover have "ri_tenant (created_instance rn e p t i) = dflt_str p ''tenant_id'' ''default'' \<and>
      ri_owner (created_instance rn e p t i) = dflt_str p ''actor_email'' ''system'' \<and>
      ri_state (created_instance rn e p t i) = init_state_from_schema (rn_width rn) (rt_schema t)"
    by (simp add: created_instance_def Let_def)
  moreover obtain db' where "apply_create_report_instance rn e p db = Inr db'"
      "rp_instances db' = upd_where (\<lambda>j. ri_id j = ri_id i) (created_instance rn e p t) (rp_instances db)"
    using create_result [OF assms(3-5) disjI1 [OF assms(6)], of rn e] key unfolding assms(2) by simp
  ultimately show ?thesis
    by (intro exI [of _ db'] conjI bexI [of _ "created_instance rn e p t i"]) simp_all
qed

definition take_over_command :: payload where
  "take_over_command = [(''instance_id'', PStr ''r1''), (''template_id'', PStr ''t9''), (''tenant_id'', PStr ''evil''),
     (''actor_email'', PStr ''eve'')]"

definition take_over_template :: report_template where
  "take_over_template = \<lparr>rt_id = ''t9'', rt_tenant = ''evil'', rt_owner = ''eve'', rt_name = [], rt_description = [],
     rt_uri = ''u'', rt_schema = [], rt_mode = ''jinja'', rt_visibility = ''private'', rt_active = True, rt_updated_at = 1\<rparr>"

lemma create_instance_takes_over_witness:
  "\<exists>db'. apply_create_report_instance report_env0 env0 take_over_command
       (reports_demo\<lparr>rp_templates := take_over_template # rp_templates reports_demo\<rparr>) = Inr db' \<and>
     (\<exists>j \<in> set (rp_instances db'). ri_id j = ''r1'' \<and> ri_tenant j = ''evil'' \<and> ri_owner j = ''eve'')"
proof -
  let ?db = "reports_demo\<lparr>rp_templates := take_over_template # rp_templates reports_demo\<rparr>"
  let ?p = take_over_command
  obtain i where i: "i \<in> set (rp_instances ?db)" "ri_id i = ''r1''" by (simp add: reports_demo_def)
  have p: "instance_id_of env0 ?p = ''r1''" "opt_str ?p ''template_id'' [] = ''t9''" "dflt_str ?p ''tenant_id'' ''default'' = ''evil''"
    "dflt_str ?p ''actor_email'' ''system'' = ''eve''" "opt_str ?p ''project_id'' [] = []"
    "template_visible_to_actor take_over_template ''eve''" by code_simp+
  have "require_template ?db ''t9'' ''evil'' = Inr take_over_template"
    by (simp add: require_template_def take_over_template_def)
  then show ?thesis
    using create_instance_takes_over [of i ?db env0 ?p take_over_template report_env0] i p by force
qed

lemma require_template_inactive:
  assumes "\<And>t. t \<in> set (rp_templates db) \<Longrightarrow> rt_id t = a \<Longrightarrow> rt_tenant t = b \<Longrightarrow> \<not> rt_active t"
  shows "\<exists>m. require_template db a b = Inl (ValueError m)"
proof (cases "sel_one (\<lambda>t. rt_id t = a \<and> rt_tenant t = b) (rp_templates db)")
  case (Some t)
  with assms [of t] sel_one_Some [OF Some] show ?thesis by (simp add: require_template_def)
qed (simp add: require_template_def)

lemma assert_actor_total:
  "assert_actor_on_instance db j a = Inr () \<or> (\<exists>m. assert_actor_on_instance db j a = Inl (ValueError m))"
proof -
  have "(\<exists>u. require_project_access ws pid t a own = Inr u) \<or> (\<exists>m. require_project_access ws pid t a own = Inl (ValueError m))"
    for ws pid t own
    by (cases "sel_one (\<lambda>p. pr_id p = pid \<and> pr_tenant p = t) (ws_projects ws)")
      (simp_all add: require_project_access_def Let_def)
  from this [of "rp_workspace db" "strip (ri_project j)" "str_or (ri_tenant j) ''default''" False] show ?thesis
    by (elim disjE exE) (simp_all add: assert_actor_on_instance_def Let_def)
qed

text \<open>
  Deleting a template freezes what it leaves behind: from then on every attempt to patch an instance made from
  it, by whoever still owns an active one, fails with a \<open>ValueError\<close>.
\<close>

lemma deleted_template_freezes_instances:
  assumes "apply_soft_delete_report_template e p db = Inr db'"
    and "dflt_str q ''tenant_id'' ''default'' = dflt_str p ''tenant_id'' ''default''"
    and "require_instance db' (opt_str q ''instance_id'' []) (dflt_str q ''tenant_id'' ''default'') = Inr j"
    and "ri_template j = opt_str p ''template_id'' []"
  shows "\<exists>m. apply_patch_report_section rn e' q db' = Inl (ValueError m)"
proof (rule delete_template_cases [OF assms(1)], goal_cases)
  case (1 t actor)
  have "\<not> rt_active template"
    if "template \<in> set (rp_templates db')" "rt_id template = ri_template j"
      "rt_tenant template = dflt_str p ''tenant_id'' ''default''" for template
  proof -
    let ?P = "\<lambda>t. rt_id t = opt_str p ''template_id'' [] \<and> rt_tenant t = dflt_str p ''tenant_id'' ''default''"
    let ?f = "\<lambda>t. t\<lparr>rt_active := False, rt_updated_at := now e\<rparr>"
    have "rp_templates db' = upd_where ?P ?f (rp_templates db)" by (simp add: 1(1))
    from mem_upd_where [OF that(1) [unfolded this]]
    obtain t0 where t0: "t0 \<in> set (rp_templates db)" "template = (if ?P t0 then ?f t0 else t0)" by blast
    have P: "?P t0"
    proof (rule ccontr)
      assume n: "\<not> ?P t0"
      have "template = t0" using t0(2) unfolding if_not_P [OF n] .
      with that(2,3) assms(4) n show False by simp
    qed
    have "template = ?f t0" using t0(2) unfolding if_P [OF P] .
    then show ?thesis by simp
  qed
  then have "\<exists>m. require_template db' (ri_template j) (dflt_str q ''tenant_id'' ''default'') = Inl (ValueError m)"
    unfolding assms(2) by (rule require_template_inactive)
  then obtain m where m: "require_template db' (ri_template j) (dflt_str q ''tenant_id'' ''default'') = Inl (ValueError m)" ..
  show ?case
    using assert_actor_total [of db' j "dflt_str q ''actor_email'' ''system''"]
    by (elim disjE exE) (simp_all add: apply_patch_report_section_def Let_def assms(3) m)
qed

lemma deleted_template_freezes_instances_witness:
  "\<exists>db' j m. apply_soft_delete_report_template env0 [(''template_id'', PStr ''t1''), (''tenant_id'', PStr ''acme''),
       (''actor_email'', PStr ''Ana@x'')] reports_demo = Inr db' \<and>
     require_instance db' ''r1'' ''acme'' = Inr j \<and> ri_owner j = ''bob@x'' \<and>
     apply_patch_report_section report_env0 env0 [(''instance_id'', PStr ''r1''), (''tenant_id'', PStr ''acme''),
       (''actor_email'', PStr ''bob@x''), (''section_id'', PStr ''intro''), (''content'', PStr ''x'')] db' = Inl (ValueError m)"
proof -
  let ?p = "[(''template_id'', PStr ''t1''), (''tenant_id'', PStr ''acme''), (''actor_email'', PStr ''Ana@x'')]"
  let ?q = "[(''instance_id'', PStr ''r1''), (''tenant_id'', PStr ''acme''), (''actor_email'', PStr ''bob@x''),
    (''section_id'', PStr ''intro''), (''content'', PStr ''x'')]"
  have "case apply_soft_delete_report_template env0 ?p reports_demo of Inl _ \<Rightarrow> False
    | Inr d \<Rightarrow> (case require_instance d ''r1'' ''acme'' of Inl _ \<Rightarrow> False
        | Inr j \<Rightarrow> ri_owner j = ''bob@x'' \<and> ri_template j = ''t1'')" by code_simp
  then obtain d j where d: "apply_soft_delete_report_template env0 ?p reports_demo = Inr d"
    and j: "require_instance d ''r1'' ''acme'' = Inr j" "ri_owner j = ''bob@x''" "ri_template j = ''t1''"
    by (auto split: sum.splits)
  have c: "opt_str ?q ''instance_id'' [] = ''r1''" "dflt_str ?q ''tenant_id'' ''default'' = ''acme''"
    "dflt_str ?p ''tenant_id'' ''default'' = ''acme''" "opt_str ?p ''template_id'' [] = ''t1''" by code_simp+
  have "\<exists>m. apply_patch_report_section report_env0 env0 ?q d = Inl (ValueError m)"
    by (rule deleted_template_freezes_instances [OF d, of ?q j]) (simp_all only: c j)
  with d j show ?thesis by blast
qed

end
