(* ===== verification/Migrations.thy ===== *)
theory Migrations
  imports Tables "HOL-Library.Product_Lexorder" "HOL-Library.List_Lexorder"
begin

text \<open>
  The schema migrations of the hub (\<open>packages/shared/src/duckclaw/schema_migrations.py\<close>, lines 28-207): the runner,
  its table \<open>schema_migrations\<close> (\<open>None\<close>: not created yet) and the two integrity checks. The SQL engine, the
  hooks, the commit and SHA-256 are parameters, and so is the DDL of each version; versions and names are the
  ones of \<open>_ALL_MIGRATIONS\<close>. A migration that raises leaves the state of the last commit.
\<close>

type_synonym migration = "int \<times> string \<times> string list"

record migration_row =
  mr_version :: int
  mr_name :: string
  mr_checksum :: string

record 'd hub =
  hb_data :: 'd
  hb_rows :: "migration_row list option"

record 'd migration_env =
  me_exec :: "string \<Rightarrow> 'd \<Rightarrow> py_error + 'd"
  me_hook :: "int \<Rightarrow> ('d \<Rightarrow> py_error + 'd) option"
  me_commit :: "'d \<Rightarrow> py_error option"
  me_sha :: "string \<Rightarrow> string"

definition checksum :: "(string \<Rightarrow> string) \<Rightarrow> string list \<Rightarrow> string" where
  "checksum sha ddl_statements = take 16 (sha (join [CHR 10] ddl_statements))"

definition ensure_migrations_table :: "'d hub \<Rightarrow> 'd hub" where
  "ensure_migrations_table db = db\<lparr>hb_rows := Some (ensure_table (hb_rows db))\<rparr>"

definition applied_versions :: "'d hub \<Rightarrow> int list" where
  "applied_versions db = map mr_version (ensure_table (hb_rows db))"

definition applied_with_checksums :: "'d hub \<Rightarrow> int \<rightharpoonup> string" where
  "applied_with_checksums db = map_of (map (\<lambda>r. (mr_version r, mr_checksum r)) (ensure_table (hb_rows db)))"

text \<open>One migration between \<open>BEGIN TRANSACTION\<close> and \<open>COMMIT\<close>.\<close>

definition exec_stmt :: "'d migration_env \<Rightarrow> string \<Rightarrow> 'd \<Rightarrow> py_error + 'd" where
  "exec_stmt me stmt d = (let sql = strip stmt in if sql = [] then Inr d else me_exec me sql d)"

definition apply_migration :: "'d migration_env \<Rightarrow> migration \<Rightarrow> 'd hub \<Rightarrow> py_error + 'd hub" where
  "apply_migration me m db = (case m of (version, name, ddl) \<Rightarrow>
     bindE (forE (exec_stmt me) ddl (hb_data db)) (\<lambda>d.
     bindE (case me_hook me version of None \<Rightarrow> Inr d | Some hook \<Rightarrow> hook d) (\<lambda>d.
     bindE (ins_row mr_version \<lparr>mr_version = version, mr_name = name, mr_checksum = checksum (me_sha me) ddl\<rparr>
       (ensure_table (hb_rows db))) (\<lambda>rows.
     case me_commit me d of Some err \<Rightarrow> Inl err | None \<Rightarrow> Inr (db\<lparr>hb_data := d, hb_rows := Some rows\<rparr>)))))"

text \<open>\<open>f"{version:03d}_{name}"\<close>.\<close>

definition migration_label :: "int \<Rightarrow> string \<Rightarrow> string" where
  "migration_label version name = replicate (3 - length (int_str version)) (CHR ''0'') @ int_str version @ ''_'' @ name"

fun run_migrations ::
  "'d migration_env \<Rightarrow> (int \<rightharpoonup> string) \<Rightarrow> migration list \<Rightarrow> string list \<Rightarrow> 'd hub \<Rightarrow> (py_error + string list) \<times> 'd hub" where
  "run_migrations me current [] names db = (Inr names, db)"
| "run_migrations me current (m # ms) names db =
     (if current (fst m) \<noteq> None then run_migrations me current ms names db
      else case apply_migration me m db of
        Inl err \<Rightarrow> (Inl err, db)
      | Inr db' \<Rightarrow> run_migrations me current ms (names @ [migration_label (fst m) (fst (snd m))]) db')"

definition run_pending_migrations :: "'d migration_env \<Rightarrow> migration list \<Rightarrow> 'd hub \<Rightarrow> (py_error + string list) \<times> 'd hub" where
  "run_pending_migrations me migrations db = (let db = ensure_migrations_table db
     in run_migrations me (applied_with_checksums db) (sort migrations) [] db)"

definition drift_of :: "(string \<Rightarrow> string) \<Rightarrow> (int \<rightharpoonup> string) \<Rightarrow> migration \<Rightarrow> string list" where
  "drift_of sha current m = (case m of (version, name, ddl) \<Rightarrow>
     case current version of None \<Rightarrow> []
     | Some registered \<Rightarrow> let expected = checksum sha ddl in
         if registered \<noteq> expected then [''version='' @ int_str version @ '' name='' @ name @ '' registered='' @
           registered @ '' current_definition='' @ expected] else [])"

definition verify_migration_integrity :: "(string \<Rightarrow> string) \<Rightarrow> migration list \<Rightarrow> 'd hub \<Rightarrow> string list" where
  "verify_migration_integrity sha migrations db =
     concat (map (drift_of sha (applied_with_checksums db)) (sort migrations))"

text \<open>\<open>None\<close> is a file that does not exist; \<open>path\<close> is the expanded path, \<open>strict\<close> the value of \<open>DUCKCLAW_SCHEMA_STRICT\<close>.\<close>

definition verify_schema_integrity ::
  "(string \<Rightarrow> string) \<Rightarrow> migration list \<Rightarrow> string \<Rightarrow> string \<Rightarrow> 'd hub option \<Rightarrow> bool \<times> string" where
  "verify_schema_integrity sha migrations path strict file = (case file of
     None \<Rightarrow> (False, ''Gateway database not found at '' @ path @ ''. Run: duckclaw-migrate'')
   | Some db \<Rightarrow>
       let missing = sort (remdups (filter (\<lambda>v. v \<notin> set (applied_versions db)) (map fst migrations))) in
       if missing \<noteq> [] then (False, ''Pending schema migrations: ['' @ join '', '' (map int_str missing) @
         '']. Run: duckclaw-migrate'')
       else if lower (strip strict) \<in> {''1'', ''true'', ''yes'', ''on''} then
         case verify_migration_integrity sha migrations db of
           [] \<Rightarrow> (True, ''ok'')
         | d # _ \<Rightarrow> (False, ''Schema drift detected: '' @ d)
       else (True, ''ok''))"

definition all_migrations :: "(int \<Rightarrow> string list) \<Rightarrow> migration list" where
  "all_migrations ddl = map (\<lambda>(version, name). (version, name, ddl version))
     [(1, ''baseline_v1''), (2, ''productivity_artifacts_v1''), (36, ''worker_a2a_discoverable''),
      (37, ''managed_workspace_draft_policy_v2''), (38, ''admin_conversations_meta_v2''),
      (41, ''productivity_artifacts_ensure''), (42, ''worlds_v1'')]"

subsection \<open>The runner decides by what the table holds now\<close>

definition recorded :: "'d hub \<Rightarrow> int \<Rightarrow> bool" where
  "recorded db v \<longleftrightarrow> v \<in> set (applied_versions db)"

lemma applied_with_checksums_None: "applied_with_checksums db v = None \<longleftrightarrow> \<not> recorded db v"
  by (force simp: applied_with_checksums_def recorded_def applied_versions_def map_of_eq_None_iff)

lemma recorded_ensure [simp]: "recorded (ensure_migrations_table db) v = recorded db v"
  by (simp add: recorded_def applied_versions_def ensure_migrations_table_def ensure_table_def)

lemma apply_migration_rows:
  assumes "apply_migration me m db = Inr db'"
  shows "hb_rows db' = Some (ensure_table (hb_rows db) @
    [\<lparr>mr_version = fst m, mr_name = fst (snd m), mr_checksum = checksum (me_sha me) (snd (snd m))\<rparr>])"
  using assms by (cases m) (auto simp: apply_migration_def split: option.splits)

lemma apply_migration_recorded:
  "apply_migration me m db = Inr db' \<Longrightarrow> recorded db' v \<longleftrightarrow> v = fst m \<or> recorded db v"
  by (auto simp: recorded_def applied_versions_def apply_migration_rows ensure_table_def)

text \<open>The loop without the snapshot of the checksums taken before it.\<close>

fun catch_up :: "'d migration_env \<Rightarrow> migration list \<Rightarrow> 'd hub \<Rightarrow> (py_error option) \<times> 'd hub" where
  "catch_up me [] db = (None, db)"
| "catch_up me (m # ms) db = (if recorded db (fst m) then catch_up me ms db else case apply_migration me m db of
     Inl err \<Rightarrow> (Some err, db)
   | Inr db' \<Rightarrow> catch_up me ms db')"

definition failure :: "py_error + string list \<Rightarrow> py_error option" where
  "failure r = (case r of Inl err \<Rightarrow> Some err | Inr _ \<Rightarrow> None)"

lemma run_migrations_catch_up:
  assumes "distinct (map fst ms)" "\<forall>m \<in> set ms. current (fst m) \<noteq> None \<longleftrightarrow> recorded db (fst m)"
  shows "catch_up me ms db = (failure (fst (run_migrations me current ms names db)), snd (run_migrations me current ms names db))"
  using assms
proof (induction ms arbitrary: names db)
  case (Cons m ms)
  have d: "distinct (map fst ms)" "fst m \<notin> fst ` set ms" using Cons.prems(1) by auto
  have c: "current (fst m) = None \<longleftrightarrow> \<not> recorded db (fst m)" using Cons.prems(2) by auto
  show ?case
  proof (cases "recorded db (fst m)")
    case True
    have "\<forall>m' \<in> set ms. current (fst m') \<noteq> None \<longleftrightarrow> recorded db (fst m')" using Cons.prems(2) by auto
    from Cons.IH [OF d(1) this, of names] True c show ?thesis by simp
  next
    case False
    show ?thesis
    proof (cases "apply_migration me m db")
      case (Inl err)
      with False c show ?thesis by (simp add: failure_def)
    next
      case (Inr db')
      have "\<forall>m' \<in> set ms. current (fst m') \<noteq> None \<longleftrightarrow> recorded db' (fst m')"
        using Cons.prems(2) d(2) unfolding apply_migration_recorded [OF Inr] by (metis image_eqI list.set_intros(2))
      from Cons.IH [OF d(1) this, of "names @ [migration_label (fst m) (fst (snd m))]"] Inr False c show ?thesis by simp
    qed
  qed
qed (simp add: failure_def)

lemma distinct_fst_sort: "distinct (map fst (ms :: migration list)) \<Longrightarrow> distinct (map fst (sort ms))"
  by (simp add: distinct_map)

lemma run_pending_catch_up:
  assumes "distinct (map fst migrations)"
  shows "catch_up me (sort migrations) (ensure_migrations_table db) =
    (failure (fst (run_pending_migrations me migrations db)), snd (run_pending_migrations me migrations db))"
  unfolding run_pending_migrations_def Let_def
  by (rule run_migrations_catch_up) (simp_all add: assms distinct_fst_sort applied_with_checksums_None)

lemma catch_up_mono: "catch_up me ms db = (r, db') \<Longrightarrow> recorded db v \<Longrightarrow> recorded db' v"
  by (induction me ms db rule: catch_up.induct)
    (auto split: if_splits sum.splits dest: apply_migration_recorded)

lemma catch_up_complete: "catch_up me ms db = (None, db') \<Longrightarrow> m \<in> set ms \<Longrightarrow> recorded db' (fst m)"
  by (induction me ms db rule: catch_up.induct)
    (auto split: if_splits sum.splits intro: catch_up_mono dest: apply_migration_recorded)

lemma catch_up_nothing: "\<forall>m \<in> set ms. recorded db (fst m) \<Longrightarrow> catch_up me ms db = (None, db)"
  by (induction ms) auto

lemma catch_up_resume:
  assumes "catch_up me ms db = (r, db1)"
    and "\<And>m db db'. apply_migration me m db = Inr db' \<Longrightarrow> apply_migration me' m db = Inr db'"
  shows "catch_up me' ms db1 = catch_up me' ms db"
  using assms(1)
proof (induction ms arbitrary: db)
  case (Cons m ms)
  show ?case
  proof (cases "recorded db (fst m)")
    case True
    with Cons catch_up_mono [of me ms db r db1] show ?thesis by simp
  next
    case False
    show ?thesis
    proof (cases "apply_migration me m db")
      case (Inl err)
      with False Cons.prems show ?thesis by simp
    next
      case (Inr db')
      with False Cons.prems have c: "catch_up me ms db' = (r, db1)" by simp
      then have "recorded db1 (fst m)" using catch_up_mono apply_migration_recorded [OF Inr] by blast
      with False Cons.IH [OF c] assms(2) [OF Inr] show ?thesis by simp
    qed
  qed
qed simp

lemma versions_distinct: "distinct (map fst (all_migrations ddl))"
  by (simp add: all_migrations_def)

lemma hb_rows_run: "\<exists>rows. hb_rows (snd (run_pending_migrations me ms db)) = Some rows"
proof -
  have "\<exists>rows. hb_rows (snd (run_migrations me current ms names db)) = Some rows"
    if "\<exists>rows. hb_rows db = Some rows" for current ms names and db :: "'a hub"
    using that by (induction me current ms names db rule: run_migrations.induct)
      (auto split: sum.splits simp: apply_migration_rows)
  then show ?thesis by (simp add: run_pending_migrations_def Let_def ensure_migrations_table_def)
qed

lemma ensure_run [simp]:
  "ensure_migrations_table (snd (run_pending_migrations me ms db)) = snd (run_pending_migrations me ms db)"
  using hb_rows_run [of me ms db] by (auto simp: ensure_migrations_table_def ensure_table_def)

text \<open>
  C9. Interrupting the migrations and starting again is the same as one run: whatever a first run did before it
  failed (a statement, a hook, the commit or the connection), a later run in which at least the same migrations
  succeed ends in the very hub, and with the very outcome, that it would have reached from the original one.
\<close>

lemma migration_resume:
  assumes "run_pending_migrations me (all_migrations ddl) db = (r, db1)"
    and "\<And>m h h'. apply_migration me m h = Inr h' \<Longrightarrow> apply_migration me' m h = Inr h'"
  shows "snd (run_pending_migrations me' (all_migrations ddl) db1) = snd (run_pending_migrations me' (all_migrations ddl) db) \<and>
    failure (fst (run_pending_migrations me' (all_migrations ddl) db1)) =
    failure (fst (run_pending_migrations me' (all_migrations ddl) db))"
proof -
  have e: "ensure_migrations_table db1 = db1" using ensure_run [of me "all_migrations ddl" db] assms(1) by simp
  note c = run_pending_catch_up [OF versions_distinct]
  have "catch_up me (sort (all_migrations ddl)) (ensure_migrations_table db) = (failure r, db1)"
    using c [of me ddl db] assms(1) by simp
  from catch_up_resume [OF this assms(2)] c [of me' ddl db] c [of me' ddl db1] e show ?thesis by simp
qed

definition flaky_env :: "bool \<Rightarrow> string list migration_env" where
  "flaky_env broken = \<lparr>me_exec = (\<lambda>s d. if broken \<and> s = ''D'' then Inl (RuntimeError s) else Inr (d @ [s])), me_hook = (\<lambda>_. None),
     me_commit = (\<lambda>_. None), me_sha = (\<lambda>s. s)\<rparr>"

definition demo_ddl :: "int \<Rightarrow> string list" where
  "demo_ddl v = (if v = 37 then [''C'', '' D ''] else if v = 42 then [''E''] else if v = 1 then [''A''] else [])"

lemma flaky_exec: "forE (exec_stmt (flaky_env True)) ddl d = Inr d' \<Longrightarrow> forE (exec_stmt (flaky_env False)) ddl d = Inr d'"
  by (induction ddl arbitrary: d) (auto simp: exec_stmt_def flaky_env_def Let_def split: if_splits)

lemma migration_resume_witness:
  "\<exists>db1. run_pending_migrations (flaky_env True) (all_migrations demo_ddl) \<lparr>hb_data = [], hb_rows = None\<rparr> =
       (Inl (RuntimeError ''D''), db1) \<and> hb_data db1 = [''A''] \<and>
     hb_data (snd (run_pending_migrations (flaky_env False) (all_migrations demo_ddl) db1)) = [''A'', ''C'', ''D'', ''E'']"
proof -
  let ?db = "\<lparr>hb_data = [], hb_rows = None\<rparr> :: string list hub"
  let ?run = "\<lambda>b. run_pending_migrations (flaky_env b) (all_migrations demo_ddl)"
  have "fst (?run True ?db) = Inl (RuntimeError ''D'')" "hb_data (snd (?run True ?db)) = [''A'']"
    "hb_data (snd (?run False ?db)) = [''A'', ''C'', ''D'', ''E'']" by code_simp+
  moreover have "apply_migration (flaky_env True) m h = Inr h' \<Longrightarrow> apply_migration (flaky_env False) m h = Inr h'" for m h h'
    by (cases m) (auto simp: apply_migration_def dest!: flaky_exec; simp add: flaky_env_def)
  ultimately show ?thesis
    using migration_resume [of "flaky_env True" demo_ddl ?db "fst (?run True ?db)" "snd (?run True ?db)" "flaky_env False"]
    by (metis prod.collapse)
qed

subsection \<open>After a run that succeeds\<close>

lemma checksums_apply:
  "apply_migration me m db = Inr db' \<Longrightarrow> applied_with_checksums db' v = (case applied_with_checksums db v of
     Some c \<Rightarrow> Some c | None \<Rightarrow> if v = fst m then Some (checksum (me_sha me) (snd (snd m))) else None)"
  by (auto simp: applied_with_checksums_def apply_migration_rows map_add_def ensure_table_def split: option.splits)

lemma checksums_catch_up:
  assumes "catch_up me ms db = (None, db')" "distinct (map fst ms)" "m \<in> set ms"
  shows "applied_with_checksums db' (fst m) = (case applied_with_checksums db (fst m) of
     Some c \<Rightarrow> Some c | None \<Rightarrow> Some (checksum (me_sha me) (snd (snd m))))"
proof -
  have keep: "applied_with_checksums db v = Some c \<Longrightarrow> applied_with_checksums db' v = Some c"
    if "catch_up me ms db = (None, db')" for v c ms db
    using that by (induction me ms db rule: catch_up.induct) (auto split: if_splits sum.splits simp: checksums_apply)
  show ?thesis using assms
  proof (induction ms arbitrary: db)
    case (Cons k ms)
    have k: "fst k \<noteq> fst m" if "m \<in> set ms" using Cons.prems(2) that by auto
    show ?case
    proof (cases "recorded db (fst k)")
      case True
      then obtain c where "applied_with_checksums db (fst k) = Some c" using applied_with_checksums_None by fastforce
      with True Cons keep [OF Cons.prems(1)] show ?thesis by auto
    next
      case False
      with Cons.prems(1) obtain h where h: "apply_migration me k db = Inr h" "catch_up me ms h = (None, db')"
        by (auto split: sum.splits)
      have n: "applied_with_checksums db (fst k) = None" using False applied_with_checksums_None by blast
      show ?thesis
      proof (cases "m = k")
        case True
        with keep [OF h(2)] n show ?thesis by (simp add: checksums_apply [OF h(1)])
      next
        case False
        with Cons.prems have m: "m \<in> set ms" by simp
        with Cons.IH [OF h(2) _ m] Cons.prems(2) k show ?thesis
          by (simp add: checksums_apply [OF h(1)] split: option.splits)
      qed
    qed
  qed simp
qed

lemma drift_after:
  assumes "catch_up me ms db = (None, db')" "distinct (map fst ms)" "m \<in> set ms"
  shows "drift_of (me_sha me) (applied_with_checksums db') m = drift_of (me_sha me) (applied_with_checksums db) m"
  using checksums_catch_up [OF assms] by (cases m) (auto simp: drift_of_def split: option.splits)

lemma checksums_ensure [simp]: "applied_with_checksums (ensure_migrations_table db) = applied_with_checksums db"
  by (simp add: applied_with_checksums_def ensure_migrations_table_def ensure_table_def)

text \<open>
  A run that succeeds leaves nothing to do: every version is recorded, a further run (with any engine) applies
  nothing and changes nothing, the start-up check passes, and in strict mode it reports exactly the first drift
  there was before the run.
\<close>

lemma migrated_hub_verifies:
  assumes "run_pending_migrations me (all_migrations ddl) db = (Inr names, db1)"
  shows "run_pending_migrations me' (all_migrations ddl) db1 = (Inr [], db1) \<and>
    verify_schema_integrity (me_sha me) (all_migrations ddl) path strict (Some db1) =
      (case verify_migration_integrity (me_sha me) (all_migrations ddl) db of
         [] \<Rightarrow> (True, ''ok'')
       | d # _ \<Rightarrow> if lower (strip strict) \<in> {''1'', ''true'', ''yes'', ''on''} then (False, ''Schema drift detected: '' @ d)
           else (True, ''ok''))"
proof -
  let ?ms = "sort (all_migrations ddl)"
  have d: "distinct (map fst ?ms)" by (rule distinct_fst_sort [OF versions_distinct])
  have c: "catch_up me ?ms (ensure_migrations_table db) = (None, db1)"
    using run_pending_catch_up [OF versions_distinct, of me ddl db] assms by (simp add: failure_def)
  have e: "ensure_migrations_table db1 = db1" using ensure_run [of me "all_migrations ddl" db] assms by simp
  have rec: "recorded db1 (fst m)" if "m \<in> set ?ms" for m by (rule catch_up_complete [OF c that])
  have "run_migrations me' (applied_with_checksums db1) ms names db1 = (Inr names, db1)" if "set ms \<subseteq> set ?ms" for ms names
    using that rec applied_with_checksums_None by (induction ms) force+
  then have again: "run_pending_migrations me' (all_migrations ddl) db1 = (Inr [], db1)"
    by (simp add: run_pending_migrations_def e Let_def)
  have missing: "filter (\<lambda>v. v \<notin> set (applied_versions db1)) (map fst (all_migrations ddl)) = []"
    using rec by (auto simp: recorded_def filter_empty_conv)
  have "map (drift_of (me_sha me) (applied_with_checksums db1)) ?ms = map (drift_of (me_sha me) (applied_with_checksums db)) ?ms"
    using drift_after [OF c d] by (auto intro!: map_cong)
  then have "verify_migration_integrity (me_sha me) (all_migrations ddl) db1 =
      verify_migration_integrity (me_sha me) (all_migrations ddl) db" by (simp only: verify_migration_integrity_def)
  with again missing show ?thesis by (simp add: verify_schema_integrity_def Let_def split: list.splits)
qed

lemma migrated_hub_verifies_witness:
  "\<exists>names db1. run_pending_migrations (flaky_env False) (all_migrations demo_ddl)
       \<lparr>hb_data = [], hb_rows = Some [\<lparr>mr_version = 2, mr_name = ''old'', mr_checksum = ''x''\<rparr>]\<rparr> = (Inr names, db1) \<and>
     hb_data db1 = [''A'', ''C'', ''D'', ''E''] \<and>
     run_pending_migrations (flaky_env False) (all_migrations demo_ddl) db1 = (Inr [], db1) \<and>
     \<not> fst (verify_schema_integrity (\<lambda>s. s) (all_migrations demo_ddl) ''p'' ''on'' (Some db1))"
proof -
  let ?db = "\<lparr>hb_data = [], hb_rows = Some [\<lparr>mr_version = 2, mr_name = ''old'', mr_checksum = ''x''\<rparr>]\<rparr> :: string list hub"
  let ?run = "run_pending_migrations (flaky_env False) (all_migrations demo_ddl)"
  have "case fst (?run ?db) of Inl _ \<Rightarrow> False | Inr _ \<Rightarrow> hb_data (snd (?run ?db)) = [''A'', ''C'', ''D'', ''E'']"
    "verify_migration_integrity (me_sha (flaky_env False)) (all_migrations demo_ddl) ?db \<noteq> []"
    "lower (strip ''on'') = ''on''" by code_simp+
  then obtain names db1 where r: "?run ?db = (Inr names, db1)" "hb_data db1 = [''A'', ''C'', ''D'', ''E'']"
    and d: "verify_migration_integrity (me_sha (flaky_env False)) (all_migrations demo_ddl) ?db \<noteq> []" "lower (strip ''on'') = ''on''"
    by (cases "?run ?db") (auto split: sum.splits)
  have "me_sha (flaky_env False) = (\<lambda>s. s)" by (simp add: flaky_env_def)
  with migrated_hub_verifies [OF r(1), of "flaky_env False" "''p''" "''on''"] d r show ?thesis
    by (intro exI conjI) (auto simp: neq_Nil_conv)
qed

text \<open>
  A migration that fails leaves no trace: the hub is then the one in which exactly the migrations before it
  are applied and committed, and the failing one raises on it.
\<close>

lemma migration_failure_atomic:
  assumes "run_pending_migrations me migrations db = (Inl err, db1)"
  shows "\<exists>pre m post names. sort migrations = pre @ m # post \<and>
    run_migrations me (applied_with_checksums db) pre [] (ensure_migrations_table db) = (Inr names, db1) \<and>
    \<not> recorded db (fst m) \<and> apply_migration me m db1 = Inl err"
proof -
  have "\<exists>pre m post names'. ms = pre @ m # post \<and> run_migrations me current pre names h = (Inr names', h1) \<and>
      current (fst m) = None \<and> apply_migration me m h1 = Inl err"
    if "run_migrations me current ms names h = (Inl err, h1)" for current ms names h h1
    using that
  proof (induction me current ms names h rule: run_migrations.induct)
    case (2 me current m ms names h)
    show ?case
    proof (cases "current (fst m) = None")
      case True
      show ?thesis
      proof (cases "apply_migration me m h")
        case (Inl e)
        with True 2(3) show ?thesis by (intro exI [of _ "[]"]) auto
      next
        case (Inr h')
        with True 2(2) [OF _ Inr] 2(3) obtain pre k post names' where
          "ms = pre @ k # post" "run_migrations me current pre (names @ [migration_label (fst m) (fst (snd m))]) h' = (Inr names', h1)"
          "current (fst k) = None" "apply_migration me k h1 = Inl err" by auto
        with True Inr show ?thesis by (intro exI [of _ "m # pre"]) auto
      qed
    next
      case False
      with 2(1,3) obtain pre k post names' where "ms = pre @ k # post" "run_migrations me current pre names h = (Inr names', h1)"
        "current (fst k) = None" "apply_migration me k h1 = Inl err" by auto
      with False show ?thesis by (intro exI [of _ "m # pre"]) auto
    qed
  qed simp
  from this [OF assms [unfolded run_pending_migrations_def Let_def]] show ?thesis
    by (simp add: applied_with_checksums_None)
qed

lemma migration_failure_atomic_witness:
  "\<exists>db1. run_pending_migrations (flaky_env True) (all_migrations demo_ddl) \<lparr>hb_data = [], hb_rows = None\<rparr> =
       (Inl (RuntimeError ''D''), db1) \<and> (\<exists>m. apply_migration (flaky_env True) m db1 = Inl (RuntimeError ''D''))"
proof -
  let ?r = "run_pending_migrations (flaky_env True) (all_migrations demo_ddl) \<lparr>hb_data = [], hb_rows = None\<rparr>"
  have "fst ?r = Inl (RuntimeError ''D'')" by code_simp
  then have r: "?r = (Inl (RuntimeError ''D''), snd ?r)" by (metis prod.collapse)
  from migration_failure_atomic [OF r] r show ?thesis by blast
qed

end
