(* ===== verification/ConsoleUsers.thy ===== *)
theory ConsoleUsers
  imports Access
begin

text \<open>
  The users of the admin console and their passwords: \<open>packages/shared/src/duckclaw/admin_console_users.py\<close>,
  \<open>admin_auth_crypto.py\<close> and the write handlers of \<open>write_handlers/admin_auth.py\<close>. Argon2, PBKDF2 and Base64
  are parameters. Statements are built by pasting literals cut to a length: when the cut leaves a lone quote the
  statement is another one (see \<^theory_text>\<open>Access\<close>), whose effect is the parameter \<open>au_odd\<close>.
\<close>

subsection \<open>State\<close>

record console_user =
  cu_email :: string
  cu_nombre :: string
  cu_rol :: string
  cu_hash :: string
  cu_algo :: "string option"
  cu_params :: string
  cu_failed :: "int option"
  cu_last_failed :: "int option"
  cu_initials :: string
  cu_active :: "bool option"
  cu_created_at :: int
  cu_updated_at :: int

record auth_env =
  au_argon2 :: "string \<Rightarrow> string \<times> payload"
  au_argon2_verify :: "string \<Rightarrow> string \<Rightarrow> bool"
  au_needs_rehash :: "string \<Rightarrow> bool option"
  au_b64 :: "string \<Rightarrow> string option"
  au_pbkdf2 :: "string \<Rightarrow> string \<Rightarrow> int \<Rightarrow> string"
  au_odd :: "string list \<Rightarrow> console_user list \<Rightarrow> py_error + console_user list"
  au_odd_row :: "string \<Rightarrow> console_user list \<Rightarrow> console_user option"

subsection \<open>Passwords\<close>

definition calculate_login_delay :: "int \<Rightarrow> int" where
  "calculate_login_delay failed_count = (if failed_count < 5 then 0 else min (2 ^ nat (failed_count - 5)) 3600)"

definition infer_hash_algo :: "console_user \<Rightarrow> string" where
  "infer_hash_algo u = str_or (strip (case cu_algo u of None \<Rightarrow> [] | Some a \<Rightarrow> a)) ''pbkdf2_sha256''"

definition verify_password :: "auth_env \<Rightarrow> string \<Rightarrow> string \<Rightarrow> py_error + bool" where
  "verify_password au plain stored_hash = (let raw = strip stored_hash in
     if \<not> startswith ''pbkdf2_sha256$'' raw then Inr False else
     case split_char (CHR ''$'') raw of
       [_, rounds, salt64, hash64] \<Rightarrow>
         (case (parse_int rounds, au_b64 au salt64, au_b64 au hash64) of
            (Some iterations, Some salt, Some expected) \<Rightarrow>
              if iterations < 1 then Inl (ValueError ''iteration value must be greater than 0.'')
              else Inr (au_pbkdf2 au plain salt iterations = expected)
          | _ \<Rightarrow> Inr False)
     | _ \<Rightarrow> Inr False)"

text \<open>The answer, and the new hash, algorithm and parameters when the stored ones are outdated.\<close>

type_synonym hash_update = "string \<times> string \<times> payload"

definition hash_password_argon2 :: "auth_env \<Rightarrow> string \<Rightarrow> hash_update" where
  "hash_password_argon2 au plain = (let (hashed, params) = au_argon2 au plain in (hashed, ''argon2id'', params))"

definition verify_and_migrate :: "auth_env \<Rightarrow> string \<Rightarrow> console_user \<Rightarrow> py_error + bool \<times> hash_update option" where
  "verify_and_migrate au password u = (let algo = infer_hash_algo u; stored = strip (cu_hash u) in
     if stored = [] then Inr (False, None)
     else if algo = ''pbkdf2_sha256'' then
       bindE (verify_password au password stored) (\<lambda>ok.
         if ok then Inr (True, Some (hash_password_argon2 au password)) else Inr (False, None))
     else if algo = ''argon2id'' then
       (if \<not> au_argon2_verify au stored password then Inr (False, None)
        else case au_needs_rehash au stored of
            None \<Rightarrow> Inr (False, None)
          | Some True \<Rightarrow> Inr (True, Some (hash_password_argon2 au password))
          | Some False \<Rightarrow> Inr (True, None))
     else Inr (False, None))"

subsection \<open>Reading users\<close>

definition normalize_email :: "string \<Rightarrow> string" where
  "normalize_email email = lower (strip email)"

definition email_lit :: "string \<Rightarrow> string" where
  "email_lit email = sql_lit (normalize_email email) 256"

definition get_by_email :: "auth_env \<Rightarrow> string \<Rightarrow> console_user list \<Rightarrow> console_user option" where
  "get_by_email au email users = (case read_lit (email_lit email) of
     Some em \<Rightarrow> sel_one (\<lambda>u. cu_email u = em) users
   | None \<Rightarrow> au_odd_row au (email_lit email) users)"

fun console_user_is_active :: "pyval \<Rightarrow> bool" where
  "console_user_is_active PNone = True"
| "console_user_is_active (PBool b) = b"
| "console_user_is_active (PInt n) = (n \<noteq> 0)"
| "console_user_is_active raw = (let s = lower (strip (pystr raw)) in
     if s \<in> {[], ''none'', ''null''} then True
     else if s \<in> {''0'', ''false'', ''no'', ''off''} then False
     else if s \<in> {''1'', ''true'', ''yes'', ''on''} then True
     else truthy raw)"

definition active_value :: "console_user \<Rightarrow> pyval" where
  "active_value u = (case cu_active u of None \<Rightarrow> PNone | Some b \<Rightarrow> PBool b)"

record public_user =
  pu_id :: string
  pu_email :: string
  pu_nombre :: string
  pu_rol :: string
  pu_initials :: string
  pu_active :: bool

definition row_to_public :: "console_user \<Rightarrow> public_user" where
  "row_to_public u = \<lparr>pu_id = ''user-'' @ cu_email u, pu_email = cu_email u, pu_nombre = cu_nombre u,
     pu_rol = str_or (cu_rol u) ''viewer'', pu_initials = cu_initials u, pu_active = truthy (active_value u)\<rparr>"

definition list_console_users :: "bool \<Rightarrow> console_user list \<Rightarrow> public_user list" where
  "list_console_users include_inactive users =
     map row_to_public (sort_key cu_email (if include_inactive then users else sel_all (\<lambda>u. cu_active u = Some True) users))"

definition authenticate_console_user_readonly ::
  "auth_env \<Rightarrow> string \<Rightarrow> string \<Rightarrow> console_user list \<Rightarrow> py_error + (public_user option \<times> hash_update option)" where
  "authenticate_console_user_readonly au email password users = (case get_by_email au email users of
     None \<Rightarrow> Inr (None, None)
   | Some u \<Rightarrow>
       if \<not> console_user_is_active (active_value u) then Inr (None, None) else
       bindE (verify_and_migrate au password u) (\<lambda>(ok, update).
         if ok then Inr (Some (row_to_public u), update) else Inr (None, None)))"

subsection \<open>Writing users\<close>

fun read_lits :: "string list \<Rightarrow> string list option" where
  "read_lits [] = Some []"
| "read_lits (l # ls) = (case (read_lit l, read_lits ls) of (Some v, Some vs) \<Rightarrow> Some (v # vs) | _ \<Rightarrow> None)"

text \<open>\<open>'...'::JSON\<close>: a JSON text that was cut is not JSON.\<close>

definition json_cast :: "string \<Rightarrow> string \<Rightarrow> py_error + string" where
  "json_cast full lit = (if lit = full then Inr full else Inl (ConversionError ''Malformed JSON''))"

definition update_user ::
  "auth_env \<Rightarrow> string \<Rightarrow> (console_user \<Rightarrow> console_user) \<Rightarrow> console_user list \<Rightarrow> py_error + console_user list" where
  "update_user au email f users = (case read_lit (email_lit email) of
     Some em \<Rightarrow> Inr (upd_where (\<lambda>u. cu_email u = em) f users)
   | None \<Rightarrow> au_odd au [email_lit email] users)"

definition set_hash :: "string \<Rightarrow> string \<Rightarrow> string \<Rightarrow> console_user \<Rightarrow> console_user" where
  "set_hash h a ps u = u\<lparr>cu_hash := h, cu_algo := Some a, cu_params := ps\<rparr>"

definition update_password_hash ::
  "auth_env \<Rightarrow> env \<Rightarrow> string \<Rightarrow> hash_update \<Rightarrow> console_user list \<Rightarrow> py_error + console_user list" where
  "update_password_hash au e email update users = (let
     (h, a, ps) = update; params = json_dumps (PDict ps);
     lits = [email_lit email, sql_lit h 1024, sql_lit a 32, sql_lit params 512]
   in case read_lits lits of
        Some [em, h, a, ps] \<Rightarrow> bindE (json_cast params ps) (\<lambda>ps.
          Inr (upd_where (\<lambda>u. cu_email u = em)
            (\<lambda>u. (set_hash h a ps u)\<lparr>cu_failed := Some 0, cu_last_failed := None, cu_updated_at := now e\<rparr>) users))
      | _ \<Rightarrow> au_odd au lits users)"

definition record_login_failure :: "auth_env \<Rightarrow> env \<Rightarrow> string \<Rightarrow> console_user list \<Rightarrow> py_error + console_user list" where
  "record_login_failure au e email users = bindE (update_user au email
     (\<lambda>u. u\<lparr>cu_failed := Some ((case cu_failed u of None \<Rightarrow> 0 | Some n \<Rightarrow> n) + 1), cu_last_failed := Some (now e),
        cu_updated_at := now e\<rparr>) users)
     (\<lambda>users. if list_ex (\<lambda>u. case cu_failed u of None \<Rightarrow> False | Some n \<Rightarrow> 2 ^ 31 \<le> n) users
        then Inl (ConversionError ''Overflow in addition of INT32'') else Inr users)"

definition clear_login_failures :: "auth_env \<Rightarrow> env \<Rightarrow> string \<Rightarrow> console_user list \<Rightarrow> py_error + console_user list" where
  "clear_login_failures au e email users = update_user au email
     (\<lambda>u. u\<lparr>cu_failed := Some 0, cu_last_failed := None, cu_updated_at := now e\<rparr>) users"

definition set_profile :: "env \<Rightarrow> string \<Rightarrow> string \<Rightarrow> string \<Rightarrow> bool \<Rightarrow> console_user \<Rightarrow> console_user" where
  "set_profile e n r i active u =
     u\<lparr>cu_nombre := n, cu_rol := r, cu_initials := i, cu_active := Some active, cu_updated_at := now e\<rparr>"

definition console_role :: "string \<Rightarrow> string" where
  "console_role rol = (let role = lower (strip (str_or rol ''user'')) in if role = ''viewer'' then ''user'' else role)"

definition upsert_console_user ::
  "auth_env \<Rightarrow> env \<Rightarrow> string \<Rightarrow> string \<Rightarrow> string \<Rightarrow> pyval \<Rightarrow> string \<Rightarrow> bool \<Rightarrow> console_user list \<Rightarrow> py_error + console_user list" where
  "upsert_console_user au e email nombre rol password initials active users = (let
     em = normalize_email email; role = console_role rol
   in if em = [] then Inl (ValueError ''email requerido'')
      else if role \<notin> {''admin'', ''user''} then Inl (ValueError (''rol inv'' @ [CHR 0xE1] @ ''lido''))
      else let existing = get_by_email au em users in
      bindE (if \<not> truthy password then Inr None else case password of
          PStr s \<Rightarrow> Inr (Some (hash_password_argon2 au s))
        | _ \<Rightarrow> Inl (AttributeError ''password is not text'')) (\<lambda>pwd.
      if existing = None \<and> pwd = None then Inl (ValueError ''password requerido para usuario nuevo'') else
      let name_lit = sql_lit (strip (str_or nombre em)) 256; role_lit = sql_lit role 32;
          initials_lit = sql_lit (take 8 (upper (str_or initials (take 2 em)))) 16;
          pwd_lits = (case pwd of None \<Rightarrow> []
            | Some (h, a, ps) \<Rightarrow> [sql_lit h 1024, sql_lit a 32, sql_lit (json_dumps (PDict ps)) 512]);
          lits = email_lit em # name_lit # role_lit # initials_lit # pwd_lits
      in bindE (case (read_lits lits, pwd) of
          (Some [em, n, r, i], None) \<Rightarrow>
            Inr (upd_where (\<lambda>u. cu_email u = em) (set_profile e n r i active) users)
        | (Some [em, n, r, i, h, a, ps], Some (_, _, params)) \<Rightarrow>
            bindE (json_cast (json_dumps (PDict params)) ps) (\<lambda>ps.
            if existing = None then
              ins_row cu_email \<lparr>cu_email = em, cu_nombre = n, cu_rol = r, cu_hash = h, cu_algo = Some a, cu_params = ps,
                cu_failed = Some 0, cu_last_failed = None, cu_initials = i, cu_active = Some active,
                cu_created_at = now e, cu_updated_at = now e\<rparr> users
            else Inr (upd_where (\<lambda>u. cu_email u = em) (set_profile e n r i active \<circ> set_hash h a ps) users))
        | _ \<Rightarrow> au_odd au lits users) (\<lambda>users.
      if get_by_email au em users = None then Inl (RuntimeError ''upsert failed'') else Inr users)))"

definition deactivate_console_user :: "auth_env \<Rightarrow> env \<Rightarrow> string \<Rightarrow> console_user list \<Rightarrow> py_error + (bool \<times> console_user list)" where
  "deactivate_console_user au e email users = (case get_by_email au email users of
     None \<Rightarrow> Inr (False, users)
   | Some _ \<Rightarrow> bindE (update_user au email (\<lambda>u. u\<lparr>cu_active := Some False, cu_updated_at := now e\<rparr>) users)
       (\<lambda>users. Inr (True, users)))"

text \<open>The accounts a console starts with; \<open>token\<close> is \<open>secrets.token_urlsafe(16)\<close>.\<close>

record seed_user =
  su_email :: string
  su_nombre :: string
  su_rol :: string
  su_password :: string
  su_initials :: string

definition default_seed_users :: "(string \<Rightarrow> string) \<Rightarrow> string \<Rightarrow> seed_user list" where
  "default_seed_users getenv token = (let
     password = str_or (strip (getenv ''DUCKCLAW_ADMIN_PASSWORD'')) token;
     user_email = strip (getenv ''DUCKCLAW_USER_EMAIL''); user_password = strip (getenv ''DUCKCLAW_USER_PASSWORD'')
   in \<lparr>su_email = strip (str_or (getenv ''DUCKCLAW_ADMIN_EMAIL'') ''admin@duckclaw.local''),
        su_nombre = ''Administrador DuckClaw'', su_rol = ''admin'', su_password = password, su_initials = ''DC''\<rparr> #
      (if user_email \<noteq> [] \<and> user_password \<noteq> [] then [\<lparr>su_email = user_email, su_nombre = ''Usuario DuckClaw'',
         su_rol = ''user'', su_password = user_password, su_initials = ''UD''\<rparr>] else []))"

definition seed_one :: "auth_env \<Rightarrow> env \<Rightarrow> seed_user \<Rightarrow> console_user list \<Rightarrow> py_error + console_user list" where
  "seed_one au e su users = upsert_console_user au e (su_email su) (str_or (su_nombre su) (su_email su))
     (str_or (su_rol su) ''user'') (PStr (su_password su)) (su_initials su) True users"

definition seed_admin_console_users_if_empty ::
  "auth_env \<Rightarrow> env \<Rightarrow> seed_user list \<Rightarrow> console_user list \<Rightarrow> py_error + int \<times> console_user list" where
  "seed_admin_console_users_if_empty au e seeds users =
     (if 0 < length users then Inr (0, users)
      else bindE (forE (seed_one au e) seeds users) (\<lambda>users. Inr (int (length seeds), users)))"

subsection \<open>Write handlers\<close>

definition apply_upsert_console_user :: "auth_env \<Rightarrow> env \<Rightarrow> payload \<Rightarrow> console_user list \<Rightarrow> py_error + console_user list" where
  "apply_upsert_console_user au e payload users = upsert_console_user au e (gstr payload ''email'' [])
     (gstr payload ''nombre'' []) (gstr payload ''rol'' ''user'') (pget payload ''password'' PNone)
     (gstr payload ''initials'' []) (truthy (pget payload ''active'' (PBool True))) users"

definition need_email :: "payload \<Rightarrow> py_error + string" where
  "need_email payload = (let email = opt_str payload ''email'' [] in
     if email = [] then Inl (ValueError ''email required'') else Inr email)"

definition apply_deactivate_console_user :: "auth_env \<Rightarrow> env \<Rightarrow> payload \<Rightarrow> console_user list \<Rightarrow> py_error + console_user list" where
  "apply_deactivate_console_user au e payload users =
     bindE (need_email payload) (\<lambda>email.
     bindE (deactivate_console_user au e email users) (\<lambda>(ok, users).
       if ok then Inr users else Inl (ValueError (''Console user not found: '' @ email))))"

definition apply_record_admin_login_failure :: "auth_env \<Rightarrow> env \<Rightarrow> payload \<Rightarrow> console_user list \<Rightarrow> py_error + console_user list" where
  "apply_record_admin_login_failure au e payload users =
     bindE (need_email payload) (\<lambda>email. record_login_failure au e email users)"

definition apply_clear_admin_login_failures :: "auth_env \<Rightarrow> env \<Rightarrow> payload \<Rightarrow> console_user list \<Rightarrow> py_error + console_user list" where
  "apply_clear_admin_login_failures au e payload users =
     bindE (need_email payload) (\<lambda>email. clear_login_failures au e email users)"

definition apply_update_console_user_password_hash ::
  "auth_env \<Rightarrow> env \<Rightarrow> payload \<Rightarrow> console_user list \<Rightarrow> py_error + console_user list" where
  "apply_update_console_user_password_hash au e payload users =
     bindE (need_email payload) (\<lambda>email.
     let password_hash = opt_str payload ''password_hash'' [] in
     if password_hash = [] then Inl (ValueError ''password_hash required'') else
     update_password_hash au e email (password_hash, opt_str payload ''hash_algo'' ''argon2id'',
       pdict_or_empty (pget payload ''hash_params'' PNone)) users)"

subsection \<open>Texts without quotes\<close>

definition clean :: "string \<Rightarrow> bool" where
  "clean s \<longleftrightarrow> quote_char \<notin> set s"

lemma clean_lit: "clean v \<Longrightarrow> read_lit (sql_lit v n) = Some (take n v)"
  by (simp add: clean_def sql_lit_plain)

lemma quote_code: "c = quote_char \<longleftrightarrow> code c = 39"
proof -
  have "code c = code quote_char \<longleftrightarrow> c = quote_char" by simp
  moreover have "code quote_char = 39" by code_simp
  ultimately show ?thesis by simp
qed

lemma lower_char_quote: "lower_char c = quote_char \<longleftrightarrow> c = quote_char"
  unfolding quote_code code_lower_char Let_def by auto

lemma clean_lower [simp]: "clean (lower s) = clean s"
proof (induction s)
  case (Cons c s)
  have "quote_char = lower_char c \<longleftrightarrow> quote_char = c" using lower_char_quote by metis
  with Cons show ?case by (simp add: clean_def lower_def)
qed (simp add: lower_def)

lemma clean_strip: "clean s \<Longrightarrow> clean (strip s)"
  using set_strip [of s] by (auto simp: clean_def)

lemma clean_take: "clean s \<Longrightarrow> clean (take n s)"
  by (auto simp: clean_def dest: in_set_takeD)

lemma clean_str_or: "clean s \<Longrightarrow> clean d \<Longrightarrow> clean (str_or s d)"
  by (simp add: str_or_def)

lemma clean_upper: "clean s \<Longrightarrow> clean (upper s)"
proof -
  have c: "char_of (code c - 32) \<noteq> quote_char" if "97 \<le> code c" "code c \<le> 254" for c
  proof -
    have "code (char_of (code c - 32)) = code c - 32" using that by simp
    then show ?thesis unfolding quote_code using that by arith
  qed
  have "quote_char \<notin> set (upper_char c)" if "c \<noteq> quote_char" for c
  proof -
    have "quote_char \<notin> set ''SS''" by code_simp
    moreover have "97 \<le> code c \<and> code c \<le> 122 \<or> 224 \<le> code c \<and> code c \<le> 246 \<or> 248 \<le> code c \<and> code c \<le> 254 \<Longrightarrow>
        quote_char \<noteq> char_of (code c - 32)" using c [of c] by fastforce
    ultimately show ?thesis using that unfolding upper_char_def Let_def by (simp split: if_split)
  qed
  then show "clean s \<Longrightarrow> clean (upper s)" by (simp add: clean_def upper_def) metis
qed

lemma clean_email [simp]: "clean email \<Longrightarrow> read_lit (email_lit email) = Some (take 256 (normalize_email email))"
  by (simp add: email_lit_def clean_lit normalize_email_def clean_strip)

lemma normalize_email_idem [simp]: "normalize_email (normalize_email s) = normalize_email s"
  by (simp add: normalize_email_def strip_lower)

text \<open>What the engine is assumed to return: encoded hashes and parameters without a quote, and short.\<close>

definition clean_argon2 :: "auth_env \<Rightarrow> bool" where
  "clean_argon2 au \<longleftrightarrow> (\<forall>pw. clean (fst (au_argon2 au pw)) \<and> length (fst (au_argon2 au pw)) \<le> 1024 \<and>
     clean (json_dumps (PDict (snd (au_argon2 au pw)))) \<and> length (json_dumps (PDict (snd (au_argon2 au pw)))) \<le> 512)"

lemma role_lit: "r \<in> {''admin'', ''user''} \<Longrightarrow> read_lit (sql_lit r 32) = Some r"
  by (auto; code_simp)

lemma algo_lit: "read_lit (sql_lit ''argon2id'' 32) = Some ''argon2id''"
  by code_simp

lemma initials_lit: "clean nm \<Longrightarrow> clean em \<Longrightarrow>
    \<exists>i. read_lit (sql_lit (take 8 (upper (str_or nm (take 2 em)))) 16) = Some i"
  by (rule exI, rule clean_lit) (intro clean_take clean_upper clean_str_or; assumption)

subsection \<open>What an upsert does\<close>

definition user_key :: "string \<Rightarrow> string" where
  "user_key email = take 256 (normalize_email email)"

lemma get_by_email_clean: "clean email \<Longrightarrow> get_by_email au email users = sel_one (\<lambda>u. cu_email u = user_key email) users"
  by (simp add: get_by_email_def user_key_def)

lemma no_user: "sel_one (\<lambda>u. cu_email u = k) users = None \<longleftrightarrow> \<not> has_key cu_email k users"
  by (auto simp: sel_one_None has_key_iff)

text \<open>With a password: the hash and its parameters go into the row; without one they stay.\<close>

definition upserted :: "env \<Rightarrow> string \<Rightarrow> string \<Rightarrow> string \<Rightarrow> bool \<Rightarrow> hash_update option \<Rightarrow> console_user \<Rightarrow> console_user" where
  "upserted e n r i active pwd u = (case pwd of None \<Rightarrow> set_profile e n r i active u
     | Some (h, a, ps) \<Rightarrow> set_profile e n r i active (set_hash h a (json_dumps (PDict ps)) u))"

definition new_user :: "env \<Rightarrow> string \<Rightarrow> console_user" where
  "new_user e em = \<lparr>cu_email = em, cu_nombre = [], cu_rol = [], cu_hash = [], cu_algo = None, cu_params = [],
     cu_failed = Some 0, cu_last_failed = None, cu_initials = [], cu_active = None, cu_created_at = now e, cu_updated_at = now e\<rparr>"

definition password_update :: "auth_env \<Rightarrow> pyval \<Rightarrow> hash_update option" where
  "password_update au password = (case password of PStr s \<Rightarrow> if s = [] then None else Some (hash_password_argon2 au s) | _ \<Rightarrow> None)"

lemma upsert_console_user_result:
  assumes c: "clean email" "clean nombre" "clean initials" "clean_argon2 au"
    and p: "(\<exists>s. password = PStr s) \<or> \<not> truthy password"
    and em: "normalize_email email \<noteq> []" and r: "console_role rol \<in> {''admin'', ''user''}"
    and new: "has_key cu_email (user_key email) users \<or> password_update au password \<noteq> None"
  shows "\<exists>n i. upsert_console_user au e email nombre rol password initials active users = Inr
    (if has_key cu_email (user_key email) users
     then upd_where (\<lambda>u. cu_email u = user_key email)
       (upserted e n (console_role rol) i active (password_update au password)) users
     else users @ [upserted e n (console_role rol) i active (password_update au password) (new_user e (user_key email))])"
proof -
  let ?em = "normalize_email email" and ?k = "user_key email" and ?r = "console_role rol"
  have cem: "clean ?em" using c(1) by (simp add: normalize_email_def clean_strip)
  have kem: "user_key ?em = ?k" by (simp add: user_key_def)
  have el: "read_lit (email_lit email) = Some ?k" using c(1) by (simp add: user_key_def)
  have el': "email_lit ?em = email_lit email" by (simp add: email_lit_def)
  obtain n where n: "read_lit (sql_lit (strip (str_or nombre ?em)) 256) = Some n"
    using clean_lit [OF clean_strip [OF clean_str_or [OF c(2) cem]]] by blast
  obtain i where i: "read_lit (sql_lit (take 8 (upper (str_or initials (take 2 ?em)))) 16) = Some i"
    using initials_lit [OF c(3) cem] by blast
  have g: "get_by_email au ?em us = None \<longleftrightarrow> \<not> has_key cu_email ?k us" for us
    using get_by_email_clean [OF cem] no_user [of ?k us] by (simp add: kem)
  have keys: "has_key cu_email ?k (upd_where (\<lambda>u. cu_email u = ?k) f users)"
    if "has_key cu_email ?k users" "\<And>u. cu_email (f u) = cu_email u" for f
  proof -
    from that(1) obtain u where "u \<in> set users" "cu_email u = ?k" by (auto simp: has_key_iff)
    then show ?thesis using that(2) unfolding has_key_iff set_upd_where by (intro bexI [of _ "f u"]) auto
  qed
  have app: "has_key cu_email k (us @ [u]) \<longleftrightarrow> cu_email u = k \<or> has_key cu_email k us" for k us u
    by (auto simp: has_key_iff)
  show ?thesis
  proof (cases "password_update au password")
    case None
    with p have "\<not> truthy password" by (auto simp: password_update_def split: if_splits)
    with None new em r show ?thesis
      by - (rule exI [of _ n], rule exI [of _ i],
        simp add: upsert_console_user_def Let_def el' el n i role_lit g keys upserted_def [abs_def] set_profile_def [abs_def])
  next
    case (Some upd)
    then obtain s where s: "password = PStr s" "s \<noteq> []" "upd = hash_password_argon2 au s"
      using p by (cases password) (auto simp: password_update_def split: if_splits)
    obtain h ps where a: "au_argon2 au s = (h, ps)" by fastforce
    have hl: "read_lit (sql_lit h 1024) = Some h" "read_lit (sql_lit (json_dumps (PDict ps)) 512) = Some (json_dumps (PDict ps))"
      using c(4) a by (auto simp: clean_argon2_def clean_lit dest!: spec [of _ s])
    from Some s a em r show ?thesis
      by - (rule exI [of _ n], rule exI [of _ i],
        simp add: upsert_console_user_def Let_def el' el n i role_lit g keys upserted_def [abs_def] hash_password_argon2_def hl algo_lit app
          json_cast_def ins_row_def set_profile_def [abs_def] set_hash_def [abs_def] new_user_def comp_def)
  qed
qed

subsection \<open>The invariant of the table\<close>

definition user_ok :: "console_user \<Rightarrow> bool" where
  "user_ok u \<longleftrightarrow> cu_email u \<noteq> [] \<and> lower (cu_email u) = cu_email u \<and> length (cu_email u) \<le> 256 \<and>
     cu_rol u \<in> {''admin'', ''user''} \<and> (case cu_failed u of None \<Rightarrow> True | Some n \<Rightarrow> 0 \<le> n \<and> n < 2 ^ 31)"

definition users_ok :: "console_user list \<Rightarrow> bool" where
  "users_ok users \<longleftrightarrow> uniq cu_email users \<and> (\<forall>u \<in> set users. user_ok u)"

lemma users_ok_upd:
  assumes "users_ok users" "\<And>u. cu_email (f u) = cu_email u" "\<And>u. u \<in> set users \<Longrightarrow> user_ok u \<Longrightarrow> user_ok (f u)"
  shows "users_ok (upd_where P f users)"
  using assms by (auto simp: users_ok_def set_upd_where intro!: uniq_upd_where)

lemma key_ok: "normalize_email email \<noteq> [] \<Longrightarrow> user_key email \<noteq> [] \<and> lower (user_key email) = user_key email \<and> length (user_key email) \<le> 256"
proof -
  have "lower (take n s) = take n (lower s)" for n s by (simp add: lower_def take_map)
  moreover have "lower (normalize_email email) = normalize_email email" by (simp add: normalize_email_def)
  ultimately show "normalize_email email \<noteq> [] \<Longrightarrow> ?thesis" by (simp add: user_key_def)
qed

lemma upserted_fields [simp]:
  "cu_email (upserted e n r i active pwd u) = cu_email u"
  "cu_rol (upserted e n r i active pwd u) = r"
  "cu_failed (upserted e n r i active pwd u) = cu_failed u"
  "cu_active (upserted e n r i active pwd u) = Some active"
  by (simp_all add: upserted_def set_profile_def set_hash_def split: option.splits prod.splits)

lemma new_user_fields [simp]: "cu_email (new_user e em) = em" "cu_failed (new_user e em) = Some 0"
  by (simp_all add: new_user_def)

text \<open>A command whose texts hold no quote.\<close>

definition clean_command :: "payload \<Rightarrow> bool" where
  "clean_command p \<longleftrightarrow> (\<forall>k \<in> {''email'', ''nombre'', ''initials'', ''password_hash'', ''hash_algo''}. clean (gstr p k [])) \<and>
     (\<forall>d. clean d \<longrightarrow> clean (gstr p ''hash_algo'' d)) \<and>
     clean (json_dumps (PDict (pdict_or_empty (pget p ''hash_params'' PNone))))"

definition auth_handlers :: "auth_env \<Rightarrow> (env \<Rightarrow> payload \<Rightarrow> console_user list \<Rightarrow> py_error + console_user list) set" where
  "auth_handlers au = {apply_upsert_console_user au, apply_deactivate_console_user au, apply_record_admin_login_failure au,
     apply_clear_admin_login_failures au, apply_update_console_user_password_hash au}"

lemma need_email_Inr: "need_email p = Inr email \<longleftrightarrow> email = strip (gstr p ''email'' []) \<and> email \<noteq> []"
  by (auto simp: need_email_def opt_str_def Let_def)

lemma clean_need: "clean_command p \<Longrightarrow> need_email p = Inr email \<Longrightarrow> clean email"
  by (auto simp: need_email_Inr clean_command_def intro: clean_strip)

lemma upsert_ok_needs:
  assumes "upsert_console_user au e email nombre rol password initials active users = Inr users'" "clean email"
  shows "normalize_email email \<noteq> [] \<and> console_role rol \<in> {''admin'', ''user''} \<and>
    ((\<exists>s. password = PStr s) \<or> \<not> truthy password) \<and>
    (has_key cu_email (user_key email) users \<or> password_update au password \<noteq> None)"
proof -
  have "clean (normalize_email email)" using assms(2) by (simp add: normalize_email_def clean_strip)
  then have g: "get_by_email au (normalize_email email) users = None \<longleftrightarrow> \<not> has_key cu_email (user_key email) users"
    using get_by_email_clean no_user by (simp add: user_key_def)
  show ?thesis
    using assms(1) g unfolding upsert_console_user_def Let_def
    by (auto split: if_splits pyval.splits simp: password_update_def)
qed

lemma upsert_cases:
  assumes "upsert_console_user au e email nombre rol password initials active users = Inr users'"
    "clean email" "clean nombre" "clean initials" "clean_argon2 au"
  obtains n i where "normalize_email email \<noteq> []" "console_role rol \<in> {''admin'', ''user''}" "users' =
    (if has_key cu_email (user_key email) users
     then upd_where (\<lambda>u. cu_email u = user_key email)
       (upserted e n (console_role rol) i active (password_update au password)) users
     else users @ [upserted e n (console_role rol) i active (password_update au password) (new_user e (user_key email))])"
proof -
  note n = upsert_ok_needs [OF assms(1,2)]
  obtain n i where "upsert_console_user au e email nombre rol password initials active users = Inr
    (if has_key cu_email (user_key email) users
     then upd_where (\<lambda>u. cu_email u = user_key email)
       (upserted e n (console_role rol) i active (password_update au password)) users
     else users @ [upserted e n (console_role rol) i active (password_update au password) (new_user e (user_key email))])"
    using upsert_console_user_result [OF assms(2-5)] n by blast
  with assms(1) n that [of n i] show ?thesis by simp
qed

lemma upsert_users_ok:
  assumes "upsert_console_user au e email nombre rol password initials active users = Inr users'"
    "clean email" "clean nombre" "clean initials" "clean_argon2 au" and ok: "users_ok users"
  shows "users_ok users'"
proof (rule upsert_cases [OF assms(1-5)], goal_cases)
  case (1 n i)
  let ?f = "upserted e n (console_role rol) i active (password_update au password)"
  have "user_ok u \<Longrightarrow> user_ok (?f u)" for u using 1(2) by (simp add: user_ok_def)
  with ok have "users_ok (upd_where (\<lambda>u. cu_email u = user_key email) ?f users)" by (intro users_ok_upd) simp_all
  moreover have "user_ok (?f (new_user e (user_key email)))"
    using key_ok [OF 1(1)] 1(2) by (simp add: user_ok_def)
  ultimately show ?case using ok unfolding 1(3) by (simp add: users_ok_def)
qed

lemma update_user_clean: "clean email \<Longrightarrow> update_user au email f users = Inr (upd_where (\<lambda>u. cu_email u = user_key email) f users)"
  by (simp add: update_user_def user_key_def)

lemma record_users_ok:
  assumes "record_login_failure au e email users = Inr users'" "clean email" "users_ok users"
  shows "users_ok users'"
proof -
  let ?f = "\<lambda>u. u\<lparr>cu_failed := Some ((case cu_failed u of None \<Rightarrow> 0 | Some n \<Rightarrow> n) + 1), cu_last_failed := Some (now e),
        cu_updated_at := now e\<rparr>"
  have u: "users' = upd_where (\<lambda>u. cu_email u = user_key email) ?f users"
    "\<not> list_ex (\<lambda>u. case cu_failed u of None \<Rightarrow> False | Some n \<Rightarrow> 2 ^ 31 \<le> n) users'"
    using assms(1,2) by (auto simp: record_login_failure_def update_user_clean split: if_splits)
  have "user_ok v" if v: "v \<in> set users'" for v
  proof -
    obtain w where w: "w \<in> set users" "v = (if cu_email w = user_key email then ?f w else w)"
      using mem_upd_where [OF v [unfolded u(1)]] by blast
    have "\<not> (case cu_failed v of None \<Rightarrow> False | Some n \<Rightarrow> 2 ^ 31 \<le> n)" using u(2) v by (auto simp: list_ex_iff)
    with w assms(3) show ?thesis by (auto simp: users_ok_def user_ok_def split: option.splits if_splits)
  qed
  moreover have "uniq cu_email users'" using assms(3) unfolding u(1) by (auto simp: users_ok_def intro: uniq_upd_where)
  ultimately show ?thesis by (simp add: users_ok_def)
qed

lemma read_lits_Some4: "read_lits [a, b, c, d] = Some vs \<Longrightarrow> \<exists>w x y z. vs = [w, x, y, z] \<and> read_lit a = Some w"
  by (auto split: option.splits)

lemma update_hash_clean:
  assumes "update_password_hash au e email upd users = Inr users'" "clean email"
    and "clean (fst upd)" "clean (fst (snd upd))" "clean (json_dumps (PDict (snd (snd upd))))"
  shows "\<exists>h a ps. users' = upd_where (\<lambda>u. cu_email u = user_key email)
    (\<lambda>u. (set_hash h a ps u)\<lparr>cu_failed := Some 0, cu_last_failed := None, cu_updated_at := now e\<rparr>) users"
  using assms by (cases upd) (auto simp: update_password_hash_def Let_def clean_lit user_key_def)

lemma password_command_ok:
  assumes "apply_update_console_user_password_hash au e p users = Inr users'" "clean_command p"
  obtains email h a ps where "need_email p = Inr email" "users' = upd_where (\<lambda>u. cu_email u = user_key email)
    (\<lambda>u. (set_hash h a ps u)\<lparr>cu_failed := Some 0, cu_last_failed := None, cu_updated_at := now e\<rparr>) users"
proof -
  obtain email where m: "need_email p = Inr email" and u: "update_password_hash au e email
      (opt_str p ''password_hash'' [], opt_str p ''hash_algo'' ''argon2id'', pdict_or_empty (pget p ''hash_params'' PNone)) users = Inr users'"
    using assms(1) unfolding apply_update_console_user_password_hash_def Let_def by (auto split: if_splits)
  have "clean ''argon2id''" by code_simp
  with assms(2) have "clean (opt_str p ''password_hash'' [])" "clean (opt_str p ''hash_algo'' ''argon2id'')"
    unfolding clean_command_def opt_str_def by (auto intro!: clean_strip)
  with update_hash_clean [OF u clean_need [OF assms(2) m]] assms(2) that [OF m] show ?thesis
    by (auto simp: clean_command_def)
qed

lemma set_hash_fields [simp]:
  "cu_email (set_hash h a ps u) = cu_email u" "cu_rol (set_hash h a ps u) = cu_rol u" "cu_active (set_hash h a ps u) = cu_active u"
  by (simp_all add: set_hash_def)

text \<open>
  The console's accounts: whatever command runs (its texts free of quotes, see below for the others), e-mail
  addresses stay unique, non-empty, lower case and within their column, every role is \<open>admin\<close> or \<open>user\<close> and every
  failure counter a non-negative INTEGER.
\<close>

lemma console_users_invariant:
  assumes "users_ok users" "h \<in> auth_handlers au" "clean_argon2 au" "clean_command p" "h e p users = Inr users'"
  shows "users_ok users'"
  using assms(2,5) unfolding auth_handlers_def
proof (elim insertE emptyE, goal_cases)
  case 1
  have "clean (gstr p ''email'' [])" "clean (gstr p ''nombre'' [])" "clean (gstr p ''initials'' [])"
    using assms(4) by (simp_all add: clean_command_def)
  with upsert_users_ok 1 assms(1,3) show ?case unfolding apply_upsert_console_user_def by blast
next
  case 2
  then obtain email where "need_email p = Inr email" "deactivate_console_user au e email users = Inr (True, users')"
    by (auto simp: apply_deactivate_console_user_def split: if_splits)
  then have "users' = upd_where (\<lambda>u. cu_email u = user_key email) (\<lambda>u. u\<lparr>cu_active := Some False, cu_updated_at := now e\<rparr>) users"
    using clean_need [OF assms(4)] by (auto simp: deactivate_console_user_def update_user_clean split: option.splits)
  then show ?case using assms(1) by (auto simp: user_ok_def intro!: users_ok_upd)
next
  case 3
  then show ?case using clean_need [OF assms(4)] record_users_ok assms(1)
    unfolding apply_record_admin_login_failure_def by blast
next
  case 4
  then obtain email where "users' = upd_where (\<lambda>u. cu_email u = user_key email)
      (\<lambda>u. u\<lparr>cu_failed := Some 0, cu_last_failed := None, cu_updated_at := now e\<rparr>) users"
    using clean_need [OF assms(4)]
    by (auto simp: apply_clear_admin_login_failures_def clear_login_failures_def update_user_clean)
  then show ?case using assms(1) by (auto simp: user_ok_def intro!: users_ok_upd)
next
  case 5
  then have "apply_update_console_user_password_hash au e p users = Inr users'" by simp
  then show ?case
  proof (rule password_command_ok [OF _ assms(4)])
    fix email h a ps assume "users' = upd_where (\<lambda>u. cu_email u = user_key email)
      (\<lambda>u. (set_hash h a ps u)\<lparr>cu_failed := Some 0, cu_last_failed := None, cu_updated_at := now e\<rparr>) users"
    then show "users_ok users'" using assms(1) by (auto simp: user_ok_def intro!: users_ok_upd)
  qed
qed

definition console_demo :: "console_user list" where
  "console_demo = [\<lparr>cu_email = ''ana@x'', cu_nombre = ''Ana'', cu_rol = ''user'', cu_hash = ''H:pw'', cu_algo = Some ''argon2id'',
     cu_params = ''{}'', cu_failed = Some 3, cu_last_failed = Some 1, cu_initials = ''AN'', cu_active = Some True,
     cu_created_at = 1, cu_updated_at = 1\<rparr>]"

text \<open>An engine whose hash is the password after a mark, and whose PBKDF2 and odd statements fail.\<close>

definition auth_env0 :: auth_env where
  "auth_env0 = \<lparr>au_argon2 = (\<lambda>pw. (''H:'' @ take 9 (filter (\<lambda>c. c \<noteq> quote_char) pw), [])),
     au_argon2_verify = (\<lambda>h pw. h = ''H:'' @ take 9 (filter (\<lambda>c. c \<noteq> quote_char) pw)),
     au_needs_rehash = (\<lambda>_. Some False), au_b64 = (\<lambda>_. None), au_pbkdf2 = (\<lambda>_ _ _. []),
     au_odd = (\<lambda>_ _. Inl (RuntimeError ''syntax error'')), au_odd_row = (\<lambda>_ _. None)\<rparr>"

lemma clean_argon2_auth_env0: "clean_argon2 auth_env0"
proof -
  have "quote_char \<notin> set ''H:''" "json_dumps (PDict []) = ''{}''" "clean ''{}''" by code_simp+
  then show ?thesis by (auto simp: clean_argon2_def auth_env0_def clean_def dest: in_set_takeD)
qed

lemma console_demo_ok: "users_ok console_demo"
proof -
  have "lower ''ana@x'' = ''ana@x''" by code_simp
  then show ?thesis by (simp add: console_demo_def users_ok_def user_ok_def uniq_def)
qed

lemma clean_gstr: "pget p k PNone = PStr s \<Longrightarrow> clean s \<Longrightarrow> clean d \<Longrightarrow> clean (gstr p k d)"
  by (simp add: gstr_def por_def)

text \<open>Commands that carry texts only.\<close>

fun clean_text :: "pyval \<Rightarrow> bool" where
  "clean_text (PStr s) = clean s"
| "clean_text _ = False"

lemma clean_commandI:
  assumes "list_all (clean_text \<circ> snd) p" "pget p ''hash_params'' PNone = PNone"
  shows "clean_command p"
proof -
  have c: "clean []" "clean (json_dumps (PDict []))" by code_simp+
  have "clean (gstr p k d)" if "clean d" for k d
  proof (cases "map_of p k")
    case (Some v)
    then have "clean_text v" using assms(1) map_of_SomeD [OF Some] by (force simp: list_all_iff)
    with Some that show ?thesis by (cases v) (auto simp: gstr_def pget_def por_def)
  qed (simp add: gstr_none that)
  with c assms(2) show ?thesis by (simp add: clean_command_def)
qed

lemma console_users_invariant_witness:
  "\<exists>users'. apply_record_admin_login_failure auth_env0 env0 [(''email'', PStr ''Ana@x'')] console_demo = Inr users' \<and>
     map cu_failed users' = [Some 4] \<and> users_ok users'"
proof -
  let ?p = "[(''email'', PStr ''Ana@x'')]"
  let ?r = "apply_record_admin_login_failure auth_env0 env0 ?p console_demo"
  have "\<not> isl ?r" "map cu_failed (projr ?r) = [Some 4]" by code_simp+
  then obtain us where us: "?r = Inr us" "map cu_failed us = [Some 4]" by (cases ?r) auto
  have "clean ''Ana@x''" by code_simp
  then have c: "clean_command ?p" by (intro clean_commandI) (simp_all add: pget_def)
  have "apply_record_admin_login_failure auth_env0 \<in> auth_handlers auth_env0" by (simp add: auth_handlers_def)
  from console_users_invariant [OF console_demo_ok this clean_argon2_auth_env0 c us(1)] us show ?thesis by (intro exI conjI)
qed

subsection \<open>Who can log in\<close>

text \<open>
  Nobody logs in without the password: when a login succeeds, an account with that e-mail exists and is not
  deactivated, the answer describes that account, and its stored hash verifies the password given, by Argon2
  or, for the hashes of old, by PBKDF2.
\<close>

lemma login_needs_password:
  assumes "authenticate_console_user_readonly au email password users = Inr (Some pu, upd)" "clean email"
  shows "\<exists>u \<in> set users. cu_email u = user_key email \<and> cu_active u \<noteq> Some False \<and> pu = row_to_public u \<and>
    (infer_hash_algo u = ''argon2id'' \<and> au_argon2_verify au (strip (cu_hash u)) password \<or>
     infer_hash_algo u = ''pbkdf2_sha256'' \<and> verify_password au password (strip (cu_hash u)) = Inr True)"
proof -
  obtain u where u: "sel_one (\<lambda>u. cu_email u = user_key email) users = Some u" "cu_active u \<noteq> Some False"
      "pu = row_to_public u" "verify_and_migrate au password u = Inr (True, upd)"
    using assms by (auto simp: authenticate_console_user_readonly_def get_by_email_clean active_value_def
      split: option.splits if_splits)
  from u(4) have "infer_hash_algo u = ''argon2id'' \<and> au_argon2_verify au (strip (cu_hash u)) password \<or>
     infer_hash_algo u = ''pbkdf2_sha256'' \<and> verify_password au password (strip (cu_hash u)) = Inr True"
    by (auto simp: verify_and_migrate_def Let_def split: if_splits option.splits)
  with u sel_one_Some [OF u(1)] show ?thesis by blast
qed

lemma login_needs_password_witness:
  "\<exists>pu. authenticate_console_user_readonly auth_env0 '' ANA@x'' ''pw'' console_demo = Inr (Some pu, None) \<and>
     (\<exists>u \<in> set console_demo. pu = row_to_public u)"
proof -
  let ?a = "authenticate_console_user_readonly auth_env0 '' ANA@x'' ''pw'' console_demo"
  have "isl ?a = False" "fst (projr ?a) = None \<longleftrightarrow> False" "snd (projr ?a) = None" by code_simp+
  then obtain pu where pu: "authenticate_console_user_readonly auth_env0 '' ANA@x'' ''pw'' console_demo = Inr (Some pu, None)"
    by (cases ?a) auto
  have "clean '' ANA@x''" by code_simp
  from login_needs_password [OF pu this] pu show ?thesis by blast
qed

lemma upsert_then_login:
  assumes "upsert_console_user au e email nombre rol (PStr pw) initials True users = Inr users'"
    and "clean email" "clean nombre" "clean initials" "clean_argon2 au" "pw \<noteq> []"
    and "normalize_email email' = normalize_email email"
    and hash: "fst (au_argon2 au pw) = h" "strip h = h" "h \<noteq> []" "au_argon2_verify au h pw" "au_needs_rehash au h = Some False"
  shows "\<exists>pu. authenticate_console_user_readonly au email' pw users' = Inr (Some pu, None) \<and>
    pu_email pu = user_key email \<and> pu_rol pu = console_role rol"
proof (rule upsert_cases [OF assms(1-5)], goal_cases)
  case (1 n i)
  let ?f = "upserted e n (console_role rol) i True (password_update au (PStr pw))"
  let ?k = "user_key email"
  obtain u where u: "sel_one (\<lambda>u. cu_email u = ?k) users' = Some (?f u)" "cu_email u = ?k"
  proof (cases "sel_one (\<lambda>u. cu_email u = ?k) users")
    case None
    then have "users' = users @ [?f (new_user e ?k)]" using 1(3) by (simp add: no_user)
    with None that [of "new_user e ?k"] show ?thesis by (simp add: sel_one_append)
  next
    case (Some u)
    have "has_key cu_email ?k users" using sel_one_Some [OF Some] by (auto simp: has_key_iff)
    then have "users' = upd_where (\<lambda>u. cu_email u = ?k) ?f users" using 1(3) by simp
    moreover have "\<exists>x. sel_one (\<lambda>u. cu_email u = ?k) (upd_where (\<lambda>u. cu_email u = ?k) ?f users) = Some (?f x)"
      using sel_one_Some [OF Some] by (intro sel_one_upd_where_hit [OF Some]) simp_all
    ultimately obtain x where x: "sel_one (\<lambda>u. cu_email u = ?k) users' = Some (?f x)" by auto
    from that [OF x] sel_one_Some [OF x] show ?thesis by simp
  qed
  have key: "email_lit email' = email_lit email" using assms(7) by (simp add: email_lit_def)
  have g: "get_by_email au email' users' = Some (?f u)"
    using u(1) clean_email [OF assms(2)] by (simp add: get_by_email_def key user_key_def)
  have f: "cu_hash (?f u) = h" "cu_algo (?f u) = Some ''argon2id''"
    using assms(6) hash(1) by (auto simp: upserted_def password_update_def hash_password_argon2_def set_profile_def set_hash_def
      split: prod.splits)
  have a: "infer_hash_algo (?f u) = ''argon2id''" "''argon2id'' \<noteq> ''pbkdf2_sha256''"
    unfolding infer_hash_algo_def f option.case by code_simp+
  have "verify_and_migrate au pw (?f u) = Inr (True, None)"
    using hash a f(1) by (simp add: verify_and_migrate_def Let_def)
  moreover have "pu_email (row_to_public (?f u)) = ?k \<and> pu_rol (row_to_public (?f u)) = console_role rol"
    using 1(2) u(2) by (auto simp: row_to_public_def)
  ultimately show ?case
    using g by (simp add: authenticate_console_user_readonly_def active_value_def)
qed

text \<open>
  The password that was set opens the account: after an upsert of an active account, new or old, a login with
  the same e-mail (up to blanks and case) and password succeeds and shows the role that was given. The engine is
  assumed to verify the hash it just made.
\<close>

lemma password_set_then_login:
  assumes "upsert_console_user au e email nombre rol (PStr pw) initials True users = Inr users'"
    and "clean email" "clean nombre" "clean initials" "clean_argon2 au" "pw \<noteq> []"
    and "normalize_email email' = normalize_email email"
    and hash: "fst (au_argon2 au pw) = h" "strip h = h" "h \<noteq> []" "au_argon2_verify au h pw" "au_needs_rehash au h = Some False"
  shows "\<exists>pu. authenticate_console_user_readonly au email' pw users' = Inr (Some pu, None) \<and>
    pu_email pu = user_key email \<and> pu_rol pu = console_role rol"
  using assms by (rule upsert_then_login)

lemma password_set_then_login_witness:
  "\<exists>users' pu. upsert_console_user auth_env0 env0 ''Bob@x'' ''Bob'' ''viewer'' (PStr ''s3'') [] True console_demo = Inr users' \<and>
     authenticate_console_user_readonly auth_env0 ''bob@X'' ''s3'' users' = Inr (Some pu, None) \<and> pu_rol pu = ''user''"
proof -
  let ?r = "upsert_console_user auth_env0 env0 ''Bob@x'' ''Bob'' ''viewer'' (PStr ''s3'') [] True console_demo"
  have "\<not> isl ?r" by code_simp
  then obtain us where us: "?r = Inr us" by (cases ?r) auto
  have c: "clean ''Bob@x''" "clean ''Bob''" "clean []" by code_simp+
  have n: "normalize_email ''bob@X'' = normalize_email ''Bob@x''" "console_role ''viewer'' = ''user''" by code_simp+
  have h: "fst (au_argon2 auth_env0 ''s3'') = ''H:s3''" "strip ''H:s3'' = ''H:s3''" "''H:s3'' \<noteq> []"
    "au_argon2_verify auth_env0 ''H:s3'' ''s3''" "au_needs_rehash auth_env0 ''H:s3'' = Some False" "''s3'' \<noteq> []" by code_simp+
  from password_set_then_login [OF us c clean_argon2_auth_env0 h(6) n(1) h(1-5)] us n(2) show ?thesis by auto
qed

subsection \<open>Deactivation\<close>

definition locked_out :: "string \<Rightarrow> console_user list \<Rightarrow> bool" where
  "locked_out k users \<longleftrightarrow> has_key cu_email k users \<and> (\<forall>u \<in> set users. cu_email u = k \<longrightarrow> cu_active u = Some False)"

definition login_state_handlers :: "auth_env \<Rightarrow> (env \<Rightarrow> payload \<Rightarrow> console_user list \<Rightarrow> py_error + console_user list) set" where
  "login_state_handlers au = auth_handlers au - {apply_upsert_console_user au}"

lemma has_key_upd_where: "(\<And>r. key (f r) = key r) \<Longrightarrow> has_key key k (upd_where P f t) = has_key key k t"
  by (induction t) (auto simp: has_key_def upd_where_def)

lemma locked_out_upd:
  "locked_out k users \<Longrightarrow> (\<And>u. cu_email (f u) = cu_email u) \<Longrightarrow> (\<And>u. cu_active u = Some False \<Longrightarrow> cu_active (f u) = Some False) \<Longrightarrow>
     locked_out k (upd_where P f users)"
  by (auto simp: locked_out_def set_upd_where has_key_upd_where)

lemma login_state_keeps_locked:
  assumes "h \<in> login_state_handlers au" "clean_command p" "h e p users = Inr users'" "locked_out k users"
  shows "locked_out k users'"
proof -
  consider "apply_deactivate_console_user au e p users = Inr users'" | "apply_record_admin_login_failure au e p users = Inr users'"
    | "apply_clear_admin_login_failures au e p users = Inr users'" | "apply_update_console_user_password_hash au e p users = Inr users'"
    using assms(1,3) by (auto simp: login_state_handlers_def auth_handlers_def)
  then show ?thesis
  proof cases
    case 1
    then obtain email where "need_email p = Inr email" "deactivate_console_user au e email users = Inr (True, users')"
      by (auto simp: apply_deactivate_console_user_def split: if_splits)
    then have "users' = upd_where (\<lambda>u. cu_email u = user_key email) (\<lambda>u. u\<lparr>cu_active := Some False, cu_updated_at := now e\<rparr>) users"
      using clean_need [OF assms(2)] by (auto simp: deactivate_console_user_def update_user_clean split: option.splits)
    with assms(4) show ?thesis by (simp add: locked_out_upd)
  next
    case 2
    then obtain email where "need_email p = Inr email" "record_login_failure au e email users = Inr users'"
      by (auto simp: apply_record_admin_login_failure_def)
    with clean_need [OF assms(2)] assms(4) show ?thesis
      by (auto simp: record_login_failure_def update_user_clean locked_out_upd split: if_splits)
  next
    case 3
    then obtain email where "need_email p = Inr email" "clear_login_failures au e email users = Inr users'"
      by (auto simp: apply_clear_admin_login_failures_def)
    with clean_need [OF assms(2)] assms(4) show ?thesis
      by (auto simp: clear_login_failures_def update_user_clean locked_out_upd)
  next
    case 4
    then show ?thesis by (rule password_command_ok [OF _ assms(2)]) (simp add: assms(4) locked_out_upd)
  qed
qed

lemma deactivation_locks:
  assumes "apply_deactivate_console_user au e p users = Inr users1" "clean_command p" "need_email p = Inr email"
    and "forE (\<lambda>(h, e', q). h e' q) cmds users1 = Inr users2"
    and "list_all (\<lambda>(h, e', q). h \<in> login_state_handlers au \<and> clean_command q) cmds"
  shows "locked_out (user_key email) users2"
proof -
  have c: "clean email" by (rule clean_need [OF assms(2,3)])
  obtain u where "get_by_email au email users = Some u" and users1: "users1 =
      upd_where (\<lambda>u. cu_email u = user_key email) (\<lambda>u. u\<lparr>cu_active := Some False, cu_updated_at := now e\<rparr>) users"
    using assms(1,3) c
    by (auto simp: apply_deactivate_console_user_def deactivate_console_user_def update_user_clean split: option.splits if_splits)
  then have "has_key cu_email (user_key email) users"
    using clean_email [OF c] by (auto simp: get_by_email_def user_key_def has_key_iff dest!: sel_one_Some)
  then have "locked_out (user_key email) users1" unfolding users1 by (auto simp: locked_out_def set_upd_where has_key_upd_where)
  with assms(4,5) show ?thesis
  proof (induction cmds arbitrary: users1)
    case (Cons c cmds)
    obtain h e' q where "c = (h, e', q)" by (cases c)
    with Cons.prems Cons.IH show ?case by (auto intro: login_state_keeps_locked)
  qed simp
qed

lemma get_same_email: "clean email \<Longrightarrow> normalize_email email' = normalize_email email \<Longrightarrow>
    get_by_email au email' users = sel_one (\<lambda>u. cu_email u = user_key email) users"
  using clean_email [of email] by (simp add: get_by_email_def email_lit_def user_key_def)

text \<open>
  Deactivation holds: once an account has been deactivated, whatever login failures, password migrations and
  further deactivations follow (quote-free commands), no password opens it, under any spelling of its e-mail;
  only an upsert can open it again.
\<close>

lemma deactivated_stays_out:
  assumes "apply_deactivate_console_user au e p users = Inr users1" "clean_command p" "need_email p = Inr email"
    and "forE (\<lambda>(h, e', q). h e' q) cmds users1 = Inr users2"
    and "list_all (\<lambda>(h, e', q). h \<in> login_state_handlers au \<and> clean_command q) cmds"
    and "normalize_email email' = normalize_email email"
  shows "authenticate_console_user_readonly au email' pw users2 = Inr (None, None)"
proof -
  have "get_by_email au email' users2 = sel_one (\<lambda>u. cu_email u = user_key email) users2"
    using get_same_email [OF clean_need [OF assms(2,3)] assms(6)] .
  then show ?thesis
    using deactivation_locks [OF assms(1-5)] by (auto simp: authenticate_console_user_readonly_def locked_out_def active_value_def
      split: option.splits dest!: sel_one_Some)
qed

lemma deactivated_stays_out_witness:
  "\<exists>users1 users2. apply_deactivate_console_user auth_env0 env0 [(''email'', PStr ''ana@x'')] console_demo = Inr users1 \<and>
     apply_clear_admin_login_failures auth_env0 env0 [(''email'', PStr ''ana@x'')] users1 = Inr users2 \<and>
     authenticate_console_user_readonly auth_env0 ''ANA@x'' ''pw'' users2 = Inr (None, None)"
proof -
  let ?p = "[(''email'', PStr ''ana@x'')]" and ?h = "apply_clear_admin_login_failures auth_env0"
  let ?r = "apply_deactivate_console_user auth_env0 env0 ?p console_demo"
  have "\<not> isl ?r" "\<not> isl (?h env0 ?p (projr ?r))" by code_simp+
  then obtain us1 us2 where us: "?r = Inr us1" "?h env0 ?p us1 = Inr us2" by (cases ?r; cases "?h env0 ?p (projr ?r)") auto
  have "clean ''ana@x''" by code_simp
  then have c: "clean_command ?p" by (intro clean_commandI) (simp_all add: pget_def)
  have n: "need_email ?p = Inr ''ana@x''" "normalize_email ''ANA@x'' = normalize_email ''ana@x''" by code_simp+
  have d: "?h \<noteq> apply_upsert_console_user auth_env0"
  proof
    assume "?h = apply_upsert_console_user auth_env0"
    then have "isl (?h env0 ?p []) = isl (apply_upsert_console_user auth_env0 env0 ?p [])" by simp
    moreover have "\<not> isl (?h env0 ?p [])" "isl (apply_upsert_console_user auth_env0 env0 ?p [])" by code_simp+
    ultimately show False by simp
  qed
  have f: "forE (\<lambda>(h, e', q). h e' q) [(?h, env0, ?p)] us1 = Inr us2" using us(2) by simp
  have a: "list_all (\<lambda>(h, e', q). h \<in> login_state_handlers auth_env0 \<and> clean_command q) [(?h, env0, ?p)]"
    using c d by (simp add: login_state_handlers_def auth_handlers_def)
  from deactivated_stays_out [OF us(1) c n(1) f a n(2), of "''pw''"] us show ?thesis by (intro exI conjI)
qed

subsection \<open>Delays and cut literals\<close>

text \<open>
  The delay asked of a client after failed logins grows with their number, starts at the fifth and never
  exceeds an hour.
\<close>

lemma login_delay_bounds:
  "calculate_login_delay n = (if n < 5 then 0 else if n < 17 then 2 ^ nat (n - 5) else 3600)"
proof -
  consider "n < 5" | "5 \<le> n" "n < 17" | "17 \<le> n" by linarith
  then show ?thesis
  proof cases
    case 2
    then have "(2::int) ^ nat (n - 5) \<le> 2 ^ 11" by (intro power_increasing) auto
    with 2 show ?thesis by (simp add: calculate_login_delay_def)
  next
    case 3
    then have "(2::int) ^ 12 \<le> 2 ^ nat (n - 5)" by (intro power_increasing) auto
    with 3 show ?thesis by (simp add: calculate_login_delay_def)
  qed (simp add: calculate_login_delay_def)
qed

lemma read_lit_cut: "clean v \<Longrightarrow> read_lit (v @ [quote_char]) = None"
proof (induction v)
  case (Cons c v)
  then show ?case by (cases v) (auto simp: clean_def)
qed simp

text \<open>
  Quotes are doubled before the text is cut: an e-mail of 255 characters without quotes followed by one quote
  leaves a lone quote at the end of the literal, so the statement that records its login failure is not the
  UPDATE the code means, but whatever the text after the literal makes of it.
\<close>

lemma cut_quote_opens_statement:
  assumes "normalize_email email = v @ [quote_char]" "clean v" "length v = 255"
  shows "record_login_failure au e email users = bindE (au_odd au [v @ [quote_char]] users)
    (\<lambda>users. if list_ex (\<lambda>u. case cu_failed u of None \<Rightarrow> False | Some n \<Rightarrow> 2 ^ 31 \<le> n) users
       then Inl (ConversionError ''Overflow in addition of INT32'') else Inr users)"
proof -
  have "replace_char quote_char [quote_char, quote_char] (v @ [quote_char]) = v @ [quote_char, quote_char]"
    using assms(2) replace_char_absent [of quote_char v] by (simp add: replace_char_def clean_def)
  then have "email_lit email = v @ [quote_char]"
    using assms(1,3) by (simp add: email_lit_def sql_lit_def)
  with read_lit_cut [OF assms(2)] show ?thesis by (simp add: record_login_failure_def update_user_def)
qed

lemma cut_quote_opens_statement_witness:
  "record_login_failure auth_env0 env0 (replicate 255 (CHR ''a'') @ [quote_char]) console_demo = Inl (RuntimeError ''syntax error'')"
proof -
  let ?v = "replicate 255 (CHR ''a'')"
  have s: "\<not> is_space (CHR ''a'')" "\<not> is_space quote_char" "lower_char (CHR ''a'') = CHR ''a''" "lower_char quote_char = quote_char"
    "quote_char \<noteq> CHR ''a''" by code_simp+
  have "strip (?v @ [quote_char]) = ?v @ [quote_char]"
    using s by (intro strip_no_space) auto
  then have n: "normalize_email (?v @ [quote_char]) = ?v @ [quote_char]" using s by (simp add: normalize_email_def lower_def)
  have "clean ?v" using s(5) by (auto simp: clean_def)
  from cut_quote_opens_statement [OF n this, of auth_env0 env0 console_demo] show ?thesis by (simp add: auth_env0_def)
qed

end
