(* ===== verification/SessionStore.thy ===== *)
theory SessionStore
  imports PyVal "HOL-Library.AList_Mapping" "HOL-Library.List_Lexorder"
begin

text \<open>
  The in-process session store that replaces Redis on desktops
  (\<open>packages/shared/src/duckclaw/lite_session_store.py\<close>): strings, counters and sorted sets with an expiry. Times
  are whole seconds, scores integers; a string holds the JSON value that was dumped. The locale
  \<open>session_backend\<close> states what the gateway relies on; the store is an instance of it. Locks and pub/sub are
  not modelled.
\<close>

subsection \<open>The store\<close>

type_synonym 'a expiring = "(string, int \<times> 'a) mapping"

record lite_store =
  ls_strings :: "pyval expiring"
  ls_counters :: "int expiring"
  ls_zsets :: "(string \<times> int) list expiring"

definition drop_dead :: "int \<Rightarrow> 'a expiring \<Rightarrow> 'a expiring" where
  "drop_dead now m = Mapping.filter (\<lambda>k (exp, v). now < exp) m"

definition purge :: "int \<Rightarrow> lite_store \<Rightarrow> lite_store" where
  "purge now s = \<lparr>ls_strings = drop_dead now (ls_strings s), ls_counters = drop_dead now (ls_counters s),
     ls_zsets = drop_dead now (ls_zsets s)\<rparr>"

definition lite_get :: "int \<Rightarrow> string \<Rightarrow> lite_store \<Rightarrow> pyval option \<times> lite_store" where
  "lite_get now key s = (let s = purge now s in case Mapping.lookup (ls_strings s) key of
     None \<Rightarrow> (None, s)
   | Some (exp, v) \<Rightarrow> if exp \<le> now then (None, s\<lparr>ls_strings := Mapping.delete key (ls_strings s)\<rparr>) else (Some v, s))"

definition lite_setex :: "int \<Rightarrow> string \<Rightarrow> int \<Rightarrow> pyval \<Rightarrow> lite_store \<Rightarrow> lite_store" where
  "lite_setex now key ttl v s = (let s = purge now s
     in s\<lparr>ls_strings := Mapping.update key (now + max 1 ttl, v) (ls_strings s)\<rparr>)"

definition lite_set :: "int \<Rightarrow> string \<Rightarrow> pyval \<Rightarrow> int option \<Rightarrow> lite_store \<Rightarrow> lite_store" where
  "lite_set now key v ex s = lite_setex now key (case ex of None \<Rightarrow> 604800 | Some n \<Rightarrow> n) v s"

definition lite_delete :: "string \<Rightarrow> lite_store \<Rightarrow> lite_store" where
  "lite_delete key s = \<lparr>ls_strings = Mapping.delete key (ls_strings s), ls_counters = Mapping.delete key (ls_counters s),
     ls_zsets = Mapping.delete key (ls_zsets s)\<rparr>"

definition lite_incr :: "int \<Rightarrow> string \<Rightarrow> lite_store \<Rightarrow> int \<times> lite_store" where
  "lite_incr now key s = (let s = purge now s;
     (exp, count) = (case Mapping.lookup (ls_counters s) key of None \<Rightarrow> (now + 86400, 0) | Some ec \<Rightarrow> ec);
     count = count + 1
   in (count, s\<lparr>ls_counters := Mapping.update key (exp, count) (ls_counters s)\<rparr>))"

definition set_expiry :: "string \<Rightarrow> int \<Rightarrow> 'a expiring \<Rightarrow> 'a expiring" where
  "set_expiry key exp m = (case Mapping.lookup m key of None \<Rightarrow> m | Some (_, v) \<Rightarrow> Mapping.update key (exp, v) m)"

definition lite_expire :: "int \<Rightarrow> string \<Rightarrow> int \<Rightarrow> lite_store \<Rightarrow> lite_store" where
  "lite_expire now key ttl s = (let exp = now + max 1 ttl
     in \<lparr>ls_strings = set_expiry key exp (ls_strings s), ls_counters = set_expiry key exp (ls_counters s),
         ls_zsets = set_expiry key exp (ls_zsets s)\<rparr>)"

definition lite_zadd :: "int \<Rightarrow> string \<Rightarrow> (string \<times> int) list \<Rightarrow> lite_store \<Rightarrow> lite_store" where
  "lite_zadd now key members s = (let s = purge now s;
     (exp, old) = (case Mapping.lookup (ls_zsets s) key of None \<Rightarrow> (now + 604800, []) | Some em \<Rightarrow> em);
     merged = fold (\<lambda>(m, score). AList.update m score) members old
   in s\<lparr>ls_zsets := Mapping.update key (exp, merged) (ls_zsets s)\<rparr>)"

text \<open>Python's slice \<open>xs[i:j]\<close> for any integers.\<close>

definition clamp :: "int \<Rightarrow> int \<Rightarrow> nat" where
  "clamp i n = nat (if i < 0 then max 0 (i + n) else min i n)"

definition py_slice :: "int \<Rightarrow> int \<Rightarrow> 'a list \<Rightarrow> 'a list" where
  "py_slice i j xs = (let n = int (length xs) in drop (clamp i n) (take (clamp j n) xs))"

definition lite_zrevrange :: "int \<Rightarrow> string \<Rightarrow> int \<Rightarrow> int \<Rightarrow> lite_store \<Rightarrow> string list \<times> lite_store" where
  "lite_zrevrange now key start stop s = (let s = purge now s in case Mapping.lookup (ls_zsets s) key of
     None \<Rightarrow> ([], s)
   | Some (exp, ms) \<Rightarrow>
       if exp \<le> now then ([], s\<lparr>ls_zsets := Mapping.delete key (ls_zsets s)\<rparr>) else
       let members = map fst (sort_key (\<lambda>(m, score). - score) ms);
           stop = (if stop < 0 then int (length members) + stop else stop)
       in (py_slice start (stop + 1) members, s))"

definition lite_zrem :: "string \<Rightarrow> string \<Rightarrow> lite_store \<Rightarrow> lite_store" where
  "lite_zrem key member s = (case Mapping.lookup (ls_zsets s) key of
     None \<Rightarrow> s
   | Some (exp, ms) \<Rightarrow> let ms = AList.delete member ms
       in s\<lparr>ls_zsets := (if ms \<noteq> [] then Mapping.update key (exp, ms) (ls_zsets s) else Mapping.delete key (ls_zsets s))\<rparr>)"

text \<open>One page of \<open>scan\<close>; \<open>matches\<close> is \<open>fnmatch\<close> against the pattern (\<open>None\<close>: no pattern).\<close>

definition scan_keys :: "(string \<Rightarrow> bool) option \<Rightarrow> lite_store \<Rightarrow> string list" where
  "scan_keys matches s = (let keys = Mapping.ordered_keys (ls_strings s)
     in case matches of None \<Rightarrow> keys | Some p \<Rightarrow> filter p keys)"

definition lite_scan :: "int \<Rightarrow> (string \<Rightarrow> bool) option \<Rightarrow> int \<Rightarrow> lite_store \<Rightarrow> int \<times> string list" where
  "lite_scan cursor matches count s = (let
     keys = scan_keys matches s;
     start = nat cursor;
     chunk = take (nat (max 1 count)) (drop start keys)
   in (if length keys \<le> start + length chunk then 0 else int (start + length chunk), chunk))"

subsection \<open>What a session backend promises\<close>

record 's backend =
  sb_get :: "int \<Rightarrow> string \<Rightarrow> 's \<Rightarrow> pyval option \<times> 's"
  sb_setex :: "int \<Rightarrow> string \<Rightarrow> int \<Rightarrow> pyval \<Rightarrow> 's \<Rightarrow> 's"
  sb_delete :: "string \<Rightarrow> 's \<Rightarrow> 's"
  sb_incr :: "int \<Rightarrow> string \<Rightarrow> 's \<Rightarrow> int \<times> 's"
  sb_expire :: "int \<Rightarrow> string \<Rightarrow> int \<Rightarrow> 's \<Rightarrow> 's"

datatype backend_op = Op_get string | Op_setex string int pyval | Op_delete string | Op_incr string | Op_expire string int

fun op_key :: "backend_op \<Rightarrow> string" where
  "op_key (Op_get k) = k"
| "op_key (Op_setex k _ _) = k"
| "op_key (Op_delete k) = k"
| "op_key (Op_incr k) = k"
| "op_key (Op_expire k _) = k"

fun run_op :: "'s backend \<Rightarrow> int \<Rightarrow> backend_op \<Rightarrow> 's \<Rightarrow> 's" where
  "run_op B t (Op_get k) s = snd (sb_get B t k s)"
| "run_op B t (Op_setex k ttl v) s = sb_setex B t k ttl v s"
| "run_op B t (Op_delete k) s = sb_delete B k s"
| "run_op B t (Op_incr k) s = snd (sb_incr B t k s)"
| "run_op B t (Op_expire k ttl) s = sb_expire B t k ttl s"

text \<open>
  \<open>alive t s k\<close> is the string a client reads under \<open>k\<close> at time \<open>t\<close>, \<open>counter t s k\<close> the expiry and value of a
  counter. The laws hold of Redis too: what an operation does to its own key, and that it leaves the others alone.
\<close>

locale session_backend =
  fixes B :: "'s backend" and alive :: "int \<Rightarrow> 's \<Rightarrow> string \<Rightarrow> pyval option"
    and counter :: "int \<Rightarrow> 's \<Rightarrow> string \<Rightarrow> (int \<times> int) option"
  assumes get_alive: "fst (sb_get B t k s) = alive t s k"
    and alive_get: "t \<le> t' \<Longrightarrow> alive t' (snd (sb_get B t k s)) j = alive t' s j"
    and alive_setex: "t \<le> t' \<Longrightarrow> 1 \<le> ttl \<Longrightarrow> alive t' (sb_setex B t k ttl v s) k = (if t' < t + ttl then Some v else None)"
    and alive_delete: "alive t (sb_delete B k s) k = None"
    and frame: "t \<le> t' \<Longrightarrow> op_key op \<noteq> k \<Longrightarrow>
      alive t' (run_op B t op s) k = alive t' s k \<and> counter t' (run_op B t op s) k = counter t' s k"
    and incr_counter: "alive t s k = None \<or> counter t s k \<noteq> None \<Longrightarrow>
      fst (sb_incr B t k s) = (case counter t s k of None \<Rightarrow> 1 | Some (exp, n) \<Rightarrow> n + 1)"
    and counter_incr: "counter t s k = Some (exp, n) \<Longrightarrow> t \<le> t' \<Longrightarrow> t' < exp \<Longrightarrow>
      counter t' (snd (sb_incr B t k s)) k = Some (exp, n + 1)"
    and counter_new: "counter t s k = None \<Longrightarrow> alive t s k = None \<Longrightarrow> \<exists>exp. counter t (snd (sb_incr B t k s)) k = Some (exp, 1)"
    and counter_expire: "counter t s k = Some (exp, n) \<Longrightarrow> 1 \<le> ttl \<Longrightarrow> t \<le> t' \<Longrightarrow> t' < t + ttl \<Longrightarrow>
      counter t' (sb_expire B t k ttl s) k = Some (t + ttl, n)"
begin

lemma read_own_write: "t \<le> t' \<Longrightarrow> 1 \<le> ttl \<Longrightarrow> t' < t + ttl \<Longrightarrow> fst (sb_get B t' k (sb_setex B t k ttl v s)) = Some v"
  by (simp add: get_alive alive_setex)

lemma expired: "1 \<le> ttl \<Longrightarrow> t + ttl \<le> t' \<Longrightarrow> fst (sb_get B t' k (sb_setex B t k ttl v s)) = None"
  by (simp add: get_alive alive_setex)

lemma read_deleted: "fst (sb_get B t k (sb_delete B k s)) = None"
  by (simp add: get_alive alive_delete)

lemma frame_ops:
  assumes "list_all (\<lambda>(t, op). t \<le> t' \<and> op_key op \<noteq> k) ops"
  shows "alive t' (fold (\<lambda>(t, op). run_op B t op) ops s) k = alive t' s k \<and>
    counter t' (fold (\<lambda>(t, op). run_op B t op) ops s) k = counter t' s k"
  using assms by (induction ops arbitrary: s) (auto simp: frame)

end

subsection \<open>The store is one\<close>

definition lite_backend :: "lite_store backend" where
  "lite_backend = \<lparr>sb_get = lite_get, sb_setex = lite_setex, sb_delete = lite_delete, sb_incr = lite_incr, sb_expire = lite_expire\<rparr>"

definition unexpired :: "int \<Rightarrow> 'a expiring \<Rightarrow> string \<Rightarrow> (int \<times> 'a) option" where
  "unexpired t m k = (case Mapping.lookup m k of Some (exp, v) \<Rightarrow> if t < exp then Some (exp, v) else None | None \<Rightarrow> None)"

definition lite_alive :: "int \<Rightarrow> lite_store \<Rightarrow> string \<Rightarrow> pyval option" where
  "lite_alive t s k = map_option snd (unexpired t (ls_strings s) k)"

definition lite_counter :: "int \<Rightarrow> lite_store \<Rightarrow> string \<Rightarrow> (int \<times> int) option" where
  "lite_counter t s k = unexpired t (ls_counters s) k"

lemma lookup_drop_dead [simp]: "Mapping.lookup (drop_dead t m) = unexpired t m"
  by (rule ext) (auto simp: drop_dead_def unexpired_def lookup_filter split: option.splits)

lemma unexpired_drop [simp]: "t \<le> t' \<Longrightarrow> unexpired t' (drop_dead t m) = unexpired t' m"
  by (rule ext) (auto simp: unexpired_def split: option.splits)

lemma unexpired_update: "unexpired t (Mapping.update k (exp, v) m) j =
    (if j = k then if t < exp then Some (exp, v) else None else unexpired t m j)"
  by (auto simp: unexpired_def lookup_update')

lemma unexpired_delete: "unexpired t (Mapping.delete k m) j = (if j = k then None else unexpired t m j)"
  by (cases "j = k") (simp_all add: unexpired_def)

lemma unexpired_set_expiry: "unexpired t (set_expiry k exp m) j =
    (if j = k then case Mapping.lookup m k of None \<Rightarrow> None | Some (_, v) \<Rightarrow> if t < exp then Some (exp, v) else None
     else unexpired t m j)"
proof (cases "Mapping.lookup m k")
  case None
  then show ?thesis by (auto simp: set_expiry_def unexpired_def)
next
  case (Some ev)
  then show ?thesis by (cases ev) (simp add: set_expiry_def unexpired_update)
qed

lemma unexpired_Some: "unexpired t m k = Some (exp, v) \<longleftrightarrow> Mapping.lookup m k = Some (exp, v) \<and> t < exp"
  by (auto simp: unexpired_def split: option.splits)

lemmas lite_defs = lite_get_def lite_setex_def lite_delete_def lite_incr_def lite_expire_def purge_def Let_def
  lite_alive_def lite_counter_def lite_backend_def

lemma lite_frame: "t \<le> t' \<Longrightarrow> op_key op \<noteq> k \<Longrightarrow>
    lite_alive t' (run_op lite_backend t op s) k = lite_alive t' s k \<and>
    lite_counter t' (run_op lite_backend t op s) k = lite_counter t' s k"
  by (cases op) (auto simp: lite_defs unexpired_update unexpired_delete unexpired_set_expiry unexpired_Some
    split: option.splits prod.splits)

interpretation lite: session_backend lite_backend lite_alive lite_counter
proof (unfold_locales, goal_cases)
  case (1 t k s)
  then show ?case by (auto simp: lite_defs unexpired_Some split: option.splits)
next
  case (2 t t' k s j)
  then show ?case by (auto simp: lite_defs unexpired_Some split: option.splits)
next
  case (3 t t' ttl k v s)
  then show ?case by (simp add: lite_defs unexpired_update max_absorb2)
next
  case (4 t k s)
  then show ?case by (simp add: lite_defs unexpired_delete)
next
  case (5 t t' op k s)
  then show ?case by (rule lite_frame)
next
  case (6 t s k)
  then show ?case by (auto simp: lite_defs split: option.splits prod.splits)
next
  case (7 t s k exp n t')
  then show ?case by (auto simp: lite_defs unexpired_update split: option.splits prod.splits)
next
  case (8 t s k)
  then show ?case by (auto simp: lite_defs unexpired_update split: option.splits prod.splits)
next
  case (9 t s k exp n ttl t')
  then show ?case by (auto simp: lite_defs unexpired_set_expiry unexpired_Some max_absorb2 split: option.splits)
qed

subsection \<open>Scanning\<close>

text \<open>A client that follows the cursor until it is 0; \<open>fuel\<close> bounds the pages it reads.\<close>

fun scan_all :: "nat \<Rightarrow> int \<Rightarrow> (string \<Rightarrow> bool) option \<Rightarrow> int \<Rightarrow> lite_store \<Rightarrow> string list option" where
  "scan_all 0 cursor matches count s = None"
| "scan_all (Suc fuel) cursor matches count s = (let (cursor', chunk) = lite_scan cursor matches count s in
     if cursor' = 0 then Some chunk else map_option ((@) chunk) (scan_all fuel cursor' matches count s))"

lemma scan_all_from:
  assumes "length (scan_keys matches s) < start + fuel" "start \<le> length (scan_keys matches s)"
  shows "scan_all fuel (int start) matches count s = Some (drop start (scan_keys matches s))"
  using assms
proof (induction fuel arbitrary: start)
  case (Suc fuel)
  let ?keys = "scan_keys matches s"
  let ?n = "nat (max 1 count)"
  have n: "0 < ?n" by simp
  show ?case
  proof (cases "length ?keys \<le> start + ?n")
    case True
    then have "take ?n (drop start ?keys) = drop start ?keys" by simp
    then show ?thesis using Suc.prems(2) by (simp add: lite_scan_def Let_def)
  next
    case False
    then have "length (take ?n (drop start ?keys)) = ?n" by simp
    moreover have "scan_all fuel (int (start + ?n)) matches count s = Some (drop (start + ?n) ?keys)"
      using Suc.prems False n by (intro Suc.IH) linarith+
    moreover have "drop start ?keys = take ?n (drop start ?keys) @ drop (start + ?n) ?keys"
      by (metis add.commute append_take_drop_id drop_drop)
    moreover have "0 \<le> max 1 count" by simp
    ultimately show ?thesis using False by (simp add: lite_scan_def Let_def)
  qed
qed simp

text \<open>
  Scanning ends and misses nothing: following the cursor from 0 returns, within one page more than there are
  keys, exactly the keys that match the pattern, each once, whatever the page size asked for (also none or a
  negative one).
\<close>

lemma scan_complete:
  "scan_all (Suc (length (scan_keys matches s))) 0 matches count s = Some (scan_keys matches s) \<and>
   distinct (scan_keys matches s)"
proof -
  have "distinct (scan_keys matches s)" by (simp add: scan_keys_def Let_def split: option.split)
  with scan_all_from [of matches s 0 "Suc (length (scan_keys matches s))" count] show ?thesis by simp
qed

end
