(* ===== verification/Login.thy ===== *)
theory Login
  imports ConsoleUsers SessionStore
begin

text \<open>
  Logging in to the console: \<open>services/api-gateway/core/admin_auth.py\<close> and the routes of
  \<open>services/api-gateway/routers/admin_domains/auth.py\<close>, over the accounts of \<^theory_text>\<open>ConsoleUsers\<close> and a session
  backend (\<^theory_text>\<open>SessionStore\<close>), with the operational profiles of
  \<open>packages/shared/src/duckclaw/admin_user_profiles.py\<close>. The hub is read through a short-lived connection whose
  failures the query helper turns into an empty answer. Times are whole seconds; random tokens, the clock's text
  and the queue's refusals are parameters. Commands are put on the writer's queue, not executed.
\<close>

subsection \<open>Requests, settings and cookies\<close>

record request =
  rq_forwarded_for :: string
  rq_client_host :: string
  rq_forwarded_proto :: string
  rq_scheme :: string
  rq_session :: string
  rq_now :: int
  rq_later :: int

type_synonym settings = "string \<Rightarrow> string option"

definition setting :: "settings \<Rightarrow> string \<Rightarrow> string" where
  "setting getenv name = (case getenv name of None \<Rightarrow> [] | Some v \<Rightarrow> v)"

definition session_ttl_seconds :: "settings \<Rightarrow> py_error + int" where
  "session_ttl_seconds getenv = bindE (pyint (PStr (case getenv ''SESSION_TTL_SECONDS'' of None \<Rightarrow> ''43200'' | Some v \<Rightarrow> v)))
     (\<lambda>n. Inr (max 300 n))"

definition is_production_env :: "settings \<Rightarrow> bool" where
  "is_production_env getenv \<longleftrightarrow>
     lower (strip (str_or (setting getenv ''ENV'') (str_or (setting getenv ''NODE_ENV'') ''development''))) = ''production''"

definition cookie_domain :: "settings \<Rightarrow> string option" where
  "cookie_domain getenv = (let raw = strip (setting getenv ''COOKIE_DOMAIN'') in if raw = [] then None else Some raw)"

definition first_entry :: "string \<Rightarrow> string" where
  "first_entry header = strip (takeWhile (\<lambda>c. c \<noteq> CHR '','') header)"

definition client_ip :: "request \<Rightarrow> string" where
  "client_ip rq = (let forwarded = first_entry (rq_forwarded_for rq) in
     if forwarded \<noteq> [] then forwarded else if rq_client_host rq \<noteq> [] then rq_client_host rq else ''unknown'')"

definition cookie_secure :: "settings \<Rightarrow> request option \<Rightarrow> bool" where
  "cookie_secure getenv rq = (is_production_env getenv \<or>
     lower (strip (setting getenv ''COOKIE_SECURE'')) \<in> {''1'', ''true'', ''yes''} \<or>
     (case rq of None \<Rightarrow> False
      | Some rq \<Rightarrow> lower (first_entry (rq_forwarded_proto rq)) = ''https'' \<or> rq_scheme rq = ''https''))"

record cookie =
  ck_name :: string
  ck_value :: string
  ck_http_only :: bool
  ck_max_age :: int
  ck_secure :: bool
  ck_domain :: "string option"

definition set_auth_cookies :: "settings \<Rightarrow> request option \<Rightarrow> string \<Rightarrow> string \<Rightarrow> py_error + cookie list" where
  "set_auth_cookies getenv rq session_id csrf_token = bindE (session_ttl_seconds getenv) (\<lambda>ttl.
     let make = (\<lambda>name value http_only. \<lparr>ck_name = name, ck_value = value, ck_http_only = http_only, ck_max_age = ttl,
       ck_secure = cookie_secure getenv rq, ck_domain = cookie_domain getenv\<rparr>)
     in Inr [make ''session'' session_id True, make ''csrf_token'' csrf_token False])"

subsection \<open>Rate limits\<close>

definition ip_key :: "string \<Rightarrow> string" where
  "ip_key ip = ''rl:login:ip:'' @ ip"

definition email_key :: "string \<Rightarrow> string" where
  "email_key email = ''rl:login:email:'' @ lower (strip email)"

text \<open>\<open>False\<close> is the answer 429.\<close>

definition check_ip_rate_limit :: "'s backend \<Rightarrow> int \<Rightarrow> string \<Rightarrow> 's \<Rightarrow> bool \<times> 's" where
  "check_ip_rate_limit B t ip s = (let (count, s) = sb_incr B t (ip_key ip) s;
     s = (if count = 1 then sb_expire B t (ip_key ip) 60 s else s)
   in (\<not> 100 < count, s))"

definition get_email_fail_count :: "'s backend \<Rightarrow> int \<Rightarrow> string \<Rightarrow> 's \<Rightarrow> (py_error + int) \<times> 's" where
  "get_email_fail_count B t email s = (let (raw, s) = sb_get B t (email_key email) s in
     (case raw of None \<Rightarrow> Inr 0 | Some v \<Rightarrow> if truthy v then pyint v else Inr 0, s))"

definition record_email_failure :: "'s backend \<Rightarrow> int \<Rightarrow> string \<Rightarrow> 's \<Rightarrow> 's" where
  "record_email_failure B t email s =
     sb_expire B t (email_key email) 86400 (snd (sb_incr B t (email_key email) s))"

definition clear_email_failures :: "'s backend \<Rightarrow> string \<Rightarrow> 's \<Rightarrow> 's" where
  "clear_email_failures B email s = sb_delete B (email_key email) s"

text \<open>The seconds the login sleeps.\<close>

definition apply_login_delay :: "'s backend \<Rightarrow> int \<Rightarrow> string \<Rightarrow> 's \<Rightarrow> (py_error + int) \<times> 's" where
  "apply_login_delay B t email s = (let (count, s) = get_email_fail_count B t email s in
     (bindE count (\<lambda>n. let delay = calculate_login_delay n in Inr (if 0 < delay then min delay 5 else 0)), s))"

subsection \<open>Sessions\<close>

definition session_key :: "string \<Rightarrow> string" where
  "session_key session_id = ''sess:'' @ session_id"

definition create_session ::
  "'s backend \<Rightarrow> settings \<Rightarrow> int \<Rightarrow> string \<Rightarrow> string \<Rightarrow> string \<Rightarrow> payload \<Rightarrow> 's \<Rightarrow> py_error + 's" where
  "create_session B getenv t ts session_id csrf_token user s = bindE (session_ttl_seconds getenv) (\<lambda>ttl.
     Inr (sb_setex B t (session_key session_id) ttl (PDict
       [(''user_id'', por (pget user ''id'' PNone) (PStr (''user-'' @ pystr (pget user ''email'' PNone)))),
        (''email'', pget user ''email'' PNone), (''nombre'', pget user ''nombre'' PNone), (''rol'', pget user ''rol'' PNone),
        (''initials'', por (pget user ''initials'' PNone) (PStr [])), (''profile'', por (pget user ''profile'' PNone) (PDict [])),
        (''created_at'', PStr ts), (''last_activity'', PStr ts), (''csrf_token'', PStr csrf_token)]) s))"

definition load_session :: "'s backend \<Rightarrow> int \<Rightarrow> string \<Rightarrow> 's \<Rightarrow> payload option \<times> 's" where
  "load_session B t session_id s = (if session_id = [] then (None, s)
     else let (raw, s) = sb_get B t (session_key session_id) s in
       (case raw of Some (PDict d) \<Rightarrow> Some d | _ \<Rightarrow> None, s))"

definition refresh_session ::
  "'s backend \<Rightarrow> settings \<Rightarrow> int \<Rightarrow> string \<Rightarrow> string \<Rightarrow> payload \<Rightarrow> 's \<Rightarrow> py_error + payload \<times> 's" where
  "refresh_session B getenv t ts session_id session s = bindE (session_ttl_seconds getenv) (\<lambda>ttl.
     let session = pset ''last_activity'' (PStr ts) session
     in Inr (session, sb_setex B t (session_key session_id) ttl (PDict session) s))"

definition destroy_session :: "'s backend \<Rightarrow> string \<Rightarrow> 's \<Rightarrow> 's" where
  "destroy_session B session_id s = (if session_id \<noteq> [] then sb_delete B (session_key session_id) s else s)"

definition session_user_public :: "payload \<Rightarrow> payload" where
  "session_user_public session = [(''id'', pget session ''user_id'' PNone), (''email'', pget session ''email'' PNone),
     (''nombre'', pget session ''nombre'' PNone), (''rol'', pget session ''rol'' PNone),
     (''initials'', por (pget session ''initials'' PNone) (PStr [])), (''profile'', por (pget session ''profile'' PNone) (PDict []))]"

subsection \<open>Profiles\<close>

text \<open>\<open>re.sub("[^a-z0-9]+", "-", s)\<close>; the flag says that the current run of other characters has its dash.\<close>

fun dash_runs :: "bool \<Rightarrow> string \<Rightarrow> string" where
  "dash_runs dashed [] = []"
| "dash_runs dashed (c # s) = (if CHR ''a'' \<le> c \<and> c \<le> CHR ''z'' \<or> is_digit c then c # dash_runs False s
     else if dashed then dash_runs True s else CHR ''-'' # dash_runs True s)"

definition tenant_id_for_email :: "(string \<Rightarrow> string) \<Rightarrow> string \<Rightarrow> string" where
  "tenant_id_for_email sha email = (let normalized = normalize_email email;
     local = take 24 (strip_chars ''-'' (dash_runs False (takeWhile (\<lambda>c. c \<noteq> CHR ''@'') normalized)))
   in ''user-'' @ str_or local ''admin'' @ ''-'' @ take 16 (sha normalized))"

record profile =
  pf_email :: string
  pf_tenant :: string
  pf_telegram :: string
  pf_channels :: string
  pf_worker :: string

definition profile_public :: "profile \<Rightarrow> payload" where
  "profile_public r = [(''email'', PStr (pf_email r)), (''tenant_id'', PStr (pf_tenant r)),
     (''telegram_user_id'', PStr (pf_telegram r)), (''channels_json'', PStr (str_or (pf_channels r) ''{}'')),
     (''default_worker_id'', PStr (str_or (pf_worker r) ''default''))]"

definition default_profile :: "(string \<Rightarrow> string) \<Rightarrow> string \<Rightarrow> profile" where
  "default_profile sha email = \<lparr>pf_email = normalize_email email, pf_tenant = tenant_id_for_email sha email, pf_telegram = [],
     pf_channels = ''{}'', pf_worker = ''default''\<rparr>"

text \<open>The profiles a read-only connection sees; \<open>None\<close>: the query fails or its literal is cut open.\<close>

definition ensure_profile_for_user :: "(string \<Rightarrow> string) \<Rightarrow> string \<Rightarrow> profile list option \<Rightarrow> py_error + profile" where
  "ensure_profile_for_user sha email rows = (if normalize_email email = [] then Inl (ValueError ''email requerido'')
     else Inr (case (rows, read_lit (email_lit email)) of
        (Some rows, Some em) \<Rightarrow> (case sel_one (\<lambda>r. pf_email r = em) rows of None \<Rightarrow> default_profile sha email | Some r \<Rightarrow> r)
      | _ \<Rightarrow> default_profile sha email))"

definition attach_profile_to_console_user :: "(string \<Rightarrow> string) \<Rightarrow> profile list option \<Rightarrow> payload \<Rightarrow> py_error + payload" where
  "attach_profile_to_console_user sha rows user = (let email = strip (gstr user ''email'' []) in
     if email = [] then Inr user
     else bindE (ensure_profile_for_user sha email rows) (\<lambda>p. Inr (pset ''profile'' (PDict (profile_public p)) user)))"

subsection \<open>Routes\<close>

datatype auth_command =
    Upsert_user string string string string string
  | Record_failure string
  | Update_hash string hash_update
  | Clear_failures string

text \<open>What a read of the accounts meets: an exception of the connection, a query whose failure is swallowed, the rows.\<close>

datatype hub_view = Open_fails string | Query_fails | Rows "console_user list"

record route_env =
  re_getenv :: settings
  re_auth :: auth_env
  re_sha :: "string \<Rightarrow> string"
  re_has_hub :: bool
  re_seed_view :: hub_view
  re_auth_view :: hub_view
  re_profiles :: "profile list option"
  re_profiles_again :: "string + profile list option"
  re_refuses :: "auth_command \<Rightarrow> py_error option"
  re_token :: string
  re_session_id :: string
  re_csrf :: string
  re_ts :: string

record 's gate =
  ga_store :: "'s option"
  ga_queue :: "auth_command list"

datatype reply = Ok_user payload "cookie list" | Ok_task string | Refused int string

text \<open>
  The text of a row's columns, as the read-only connection delivers them: \<open>None\<close> for a missing algorithm, and
  \<open>True\<close>, \<open>False\<close> or \<open>None\<close> for the flag, which \<open>console_user_is_active\<close> reads back (below).
\<close>

definition text_row :: "console_user \<Rightarrow> console_user" where
  "text_row u = u\<lparr>cu_algo := Some (case cu_algo u of None \<Rightarrow> ''None'' | Some a \<Rightarrow> a)\<rparr>"

definition text_active :: "bool option \<Rightarrow> pyval" where
  "text_active b = PStr (case b of None \<Rightarrow> ''None'' | Some True \<Rightarrow> ''True'' | Some False \<Rightarrow> ''False'')"

lemma text_active_read: "console_user_is_active (text_active (cu_active u)) = console_user_is_active (active_value u)"
proof -
  have "console_user_is_active (text_active b) = console_user_is_active (case b of None \<Rightarrow> PNone | Some b \<Rightarrow> PBool b)" for b
  proof -
    have "b \<in> {None, Some True, Some False}" by (cases b) auto
    then show ?thesis by (elim insertE emptyE) (hypsubst, code_simp)+
  qed
  then show ?thesis by (simp add: active_value_def)
qed

definition rows_seen :: "hub_view \<Rightarrow> console_user list" where
  "rows_seen view = (case view of Rows users \<Rightarrow> map text_row users | _ \<Rightarrow> [])"

definition count_console_users :: "hub_view \<Rightarrow> nat" where
  "count_console_users view = length (rows_seen view)"

definition seed_required :: "hub_view \<Rightarrow> bool" where
  "seed_required view = (case view of Open_fails _ \<Rightarrow> False | _ \<Rightarrow> count_console_users view = 0)"

definition public_payload :: "public_user \<Rightarrow> payload" where
  "public_payload pu = [(''email'', PStr (pu_email pu)), (''nombre'', PStr (pu_nombre pu)), (''rol'', PStr (pu_rol pu)),
     (''initials'', PStr (pu_initials pu)), (''id'', PStr (pu_id pu))]"

definition console_user_public :: "payload \<Rightarrow> payload" where
  "console_user_public user = [(''id'', por (pget user ''id'' PNone) (PStr (''user-'' @ pystr (pget user ''email'' PNone)))),
     (''email'', pget user ''email'' PNone), (''nombre'', pget user ''nombre'' PNone), (''rol'', pget user ''rol'' PNone),
     (''initials'', por (pget user ''initials'' PNone) (PStr [])), (''profile'', por (pget user ''profile'' PNone) (PDict []))]"

definition enqueue :: "route_env \<Rightarrow> auth_command \<Rightarrow> 's gate \<Rightarrow> py_error option \<times> 's gate" where
  "enqueue re c st = (case re_refuses re c of Some err \<Rightarrow> (Some err, st)
     | None \<Rightarrow> (None, st\<lparr>ga_queue := ga_queue st @ [c]\<rparr>))"

fun enqueue_all :: "route_env \<Rightarrow> auth_command list \<Rightarrow> 's gate \<Rightarrow> py_error option \<times> 's gate" where
  "enqueue_all re [] st = (None, st)"
| "enqueue_all re (c # cs) st = (case enqueue re c st of (Some err, st) \<Rightarrow> (Some err, st) | (None, st) \<Rightarrow> enqueue_all re cs st)"

definition seed_commands :: "route_env \<Rightarrow> auth_command list" where
  "seed_commands re = map (\<lambda>su. Upsert_user (su_email su) (str_or (su_nombre su) (su_email su)) (str_or (su_rol su) ''user'')
     (su_password su) (su_initials su)) (default_seed_users (setting (re_getenv re)) (re_token re))"

definition map_store :: "('s \<Rightarrow> 's) \<Rightarrow> 's gate \<Rightarrow> 's gate" where
  "map_store f st = st\<lparr>ga_store := map_option f (ga_store st)\<rparr>"

definition valid_password :: "string \<Rightarrow> bool" where
  "valid_password v \<longleftrightarrow> 8 \<le> length v \<and> length v \<le> 128 \<and> CHR 13 \<notin> set v \<and> CHR 10 \<notin> set v"

definition locked_message :: "string \<Rightarrow> bool" where
  "locked_message msg \<longleftrightarrow> contains ''lock'' (lower msg) \<or> contains ''conflicting'' (lower msg) \<or>
     contains ''different configuration'' (lower msg)"

definition hub_error :: "string \<Rightarrow> reply" where
  "hub_error msg = (if locked_message msg then Refused 503 ''Gateway ocupado. Reintenta el login.'' else Refused 500 msg)"

text \<open>A refusal of the queue: only the exceptions a route names have an answer of its own.\<close>

definition queue_error :: "string \<Rightarrow> py_error \<Rightarrow> reply" where
  "queue_error title err = (case err of RuntimeError _ \<Rightarrow> Refused 503 title | _ \<Rightarrow> Refused 500 (error_text err))"

text \<open>The answer of the verification and the profile, before anything is written.\<close>

definition authenticate :: "route_env \<Rightarrow> string \<Rightarrow> string \<Rightarrow> string + (payload option \<times> hash_update option)" where
  "authenticate re email password = (case re_auth_view re of
     Open_fails msg \<Rightarrow> Inl msg
   | _ \<Rightarrow> (case bindE (authenticate_console_user_readonly (re_auth re) email password (rows_seen (re_auth_view re)))
        (\<lambda>(found, upd). case found of None \<Rightarrow> Inr (None, upd)
         | Some pu \<Rightarrow> bindE (attach_profile_to_console_user (re_sha re) (re_profiles re) (public_payload pu))
             (\<lambda>user. Inr (Some user, upd))) of
       Inl err \<Rightarrow> Inl (error_text err)
     | Inr r \<Rightarrow> Inr r))"

definition finish_login :: "'s backend \<Rightarrow> route_env \<Rightarrow> request \<Rightarrow> string \<Rightarrow> payload \<Rightarrow> hash_update option \<Rightarrow> 's gate \<Rightarrow> reply \<times> 's gate" where
  "finish_login B re rq email user upd st =
     (case enqueue_all re ((case upd of None \<Rightarrow> [] | Some u \<Rightarrow> [Update_hash email u]) @ [Clear_failures email]) st of
        (Some err, st) \<Rightarrow> (queue_error (''DB-writer rechaz'' @ [CHR 0xF3] @ '' estado de login'') err, st)
      | (None, st) \<Rightarrow> (case ga_store st of
          None \<Rightarrow> (Refused 503 ''Redis no disponible para sesiones'', st)
        | Some s \<Rightarrow> let s = clear_email_failures B email s in
            (case create_session B (re_getenv re) (rq_later rq) (re_ts re) (re_session_id re) (re_csrf re) user s of
               Inl err \<Rightarrow> (Refused 500 (error_text err), st\<lparr>ga_store := Some s\<rparr>)
             | Inr s \<Rightarrow> (case set_auth_cookies (re_getenv re) (Some rq) (re_session_id re) (re_csrf re) of
                 Inl err \<Rightarrow> (Refused 500 (error_text err), st\<lparr>ga_store := Some s\<rparr>)
               | Inr cookies \<Rightarrow> (Ok_user (console_user_public user) cookies, st\<lparr>ga_store := Some s\<rparr>)))))"

definition admin_auth_login :: "'s backend \<Rightarrow> route_env \<Rightarrow> request \<Rightarrow> string \<Rightarrow> string \<Rightarrow> 's gate \<Rightarrow> reply \<times> 's gate" where
  "admin_auth_login B re rq raw_email password st = (let email = lower (strip raw_email) in
     if \<not> valid_password password then (Refused 422 ''invalid password'', st) else
     let (passed, st) = (case ga_store st of None \<Rightarrow> (True, st)
       | Some s \<Rightarrow> (let (ok, s) = check_ip_rate_limit B (rq_now rq) (client_ip rq) s in (ok, st\<lparr>ga_store := Some s\<rparr>)))
     in if \<not> passed then (Refused 429 ''Too many attempts'', st) else
     let (delay, st) = (case ga_store st of None \<Rightarrow> (Inr 0, st)
       | Some s \<Rightarrow> (let (d, s) = apply_login_delay B (rq_now rq) email s in (d, st\<lparr>ga_store := Some s\<rparr>)))
     in case delay of Inl err \<Rightarrow> (Refused 500 (error_text err), st) | Inr _ \<Rightarrow>
     if \<not> re_has_hub re then (Refused 503 ''Gateway DuckDB no disponible'', st) else
     case (if seed_required (re_seed_view re) then enqueue_all re (seed_commands re) st else (None, st)) of
       (Some err, st) \<Rightarrow> (Refused 500 (error_text err), st)
     | (None, st) \<Rightarrow> (case authenticate re email password of
         Inl msg \<Rightarrow> (hub_error msg, st)
       | Inr (None, _) \<Rightarrow> (case enqueue re (Record_failure email) st of
           (Some err, st) \<Rightarrow> (queue_error (''DB-writer rechaz'' @ [CHR 0xF3] @ '' fallo de login'') err, st)
         | (None, st) \<Rightarrow> (Refused 401 ''Invalid credentials'', map_store (record_email_failure B (rq_later rq) email) st))
       | Inr (Some user, upd) \<Rightarrow> finish_login B re rq email user upd st))"

definition admin_auth_register :: "route_env \<Rightarrow> string \<Rightarrow> string \<Rightarrow> string \<Rightarrow> 's gate \<Rightarrow> reply \<times> 's gate" where
  "admin_auth_register re raw_email password nombre st = (let email = lower (strip raw_email) in
     if \<not> valid_password password then (Refused 422 ''invalid password'', st)
     else if \<not> re_has_hub re then (Refused 503 ''Gateway DuckDB no disponible'', st)
     else case re_auth_view re of
       Open_fails msg \<Rightarrow> (Refused 500 msg, st)
     | view \<Rightarrow> if 0 < count_console_users view then (Refused 409 (''El registro inicial ya fue completado. Un administrador puede crear m'' @
         [CHR 0xE1] @ ''s cuentas desde Accesos.''), st)
       else case enqueue re (Upsert_user email (str_or (strip nombre) email) ''admin'' password []) st of
         (Some err, st) \<Rightarrow> (case err of ValueError _ \<Rightarrow> Refused 503 ''No se pudo crear la cuenta inicial''
           | _ \<Rightarrow> queue_error ''No se pudo crear la cuenta inicial'' err, st)
       | (None, st) \<Rightarrow> (Ok_task email, st))"

text \<open>\<open>GET /me\<close>; a failing read keeps the session.\<close>

definition resolve_session_from_db :: "route_env \<Rightarrow> string \<Rightarrow> payload \<Rightarrow> string + payload option" where
  "resolve_session_from_db re email session = (case re_auth_view re of
     Open_fails msg \<Rightarrow> Inl msg
   | view \<Rightarrow> (case get_by_email (re_auth re) email (rows_seen view) of
        None \<Rightarrow> Inl ''auth_me: console user lookup empty''
      | Some u \<Rightarrow> if \<not> console_user_is_active (active_value u) then Inr None else
          (case attach_profile_to_console_user (re_sha re) (re_profiles re)
              (pset ''initials'' (PStr (cu_initials u)) (pset ''rol'' (PStr (cu_rol u)) (pset ''nombre'' (PStr (cu_nombre u))
                (pset ''email'' (PStr (cu_email u)) session)))) of
             Inl err \<Rightarrow> Inl (error_text err) | Inr d \<Rightarrow> Inr (Some d))))"

text \<open>A profile without a tenant is read again, over a connection of its own.\<close>

definition attach_again :: "route_env \<Rightarrow> payload \<Rightarrow> string + payload" where
  "attach_again re session = (if truthy (pget (pdict_or_empty (por (pget session ''profile'' PNone) (PDict []))) ''tenant_id'' PNone)
     then Inr session
     else case re_profiles_again re of Inl msg \<Rightarrow> Inl msg
       | Inr rows \<Rightarrow> (case attach_profile_to_console_user (re_sha re) rows session of
           Inl err \<Rightarrow> Inl (error_text err) | Inr d \<Rightarrow> Inr d))"

definition admin_auth_me :: "'s backend \<Rightarrow> route_env \<Rightarrow> request \<Rightarrow> 's gate \<Rightarrow> reply \<times> 's gate" where
  "admin_auth_me B re rq st = (case ga_store st of None \<Rightarrow> (Refused 401 ''Unauthorized'', st)
   | Some s \<Rightarrow> let sid = rq_session rq in
     if sid = [] then (Refused 401 ''Unauthorized'', st) else
     let (loaded, s) = load_session B (rq_now rq) sid s in
     case loaded of None \<Rightarrow> (Refused 401 ''Session expired'', st\<lparr>ga_store := Some s\<rparr>)
     | Some session \<Rightarrow> let email = strip (gstr session ''email'' []) in
       if email = [] then (Refused 401 ''Session user missing'', st\<lparr>ga_store := Some (destroy_session B sid s)\<rparr>) else
       case (case resolve_session_from_db re email session of Inl _ \<Rightarrow> Some (session, True)
           | Inr r \<Rightarrow> map_option (\<lambda>d. (d, False)) r) of
         None \<Rightarrow> (Refused 401 ''Session user not active'', st\<lparr>ga_store := Some (destroy_session B sid s)\<rparr>)
       | Some (session, fallback) \<Rightarrow> (case refresh_session B (re_getenv re) (rq_later rq) (re_ts re) sid session s of
           Inl err \<Rightarrow> (Refused 500 (error_text err), st\<lparr>ga_store := Some s\<rparr>)
         | Inr (session, s) \<Rightarrow> ((case if fallback then Inr session else attach_again re session of
               Inl msg \<Rightarrow> Refused 500 msg
             | Inr session \<Rightarrow> Ok_user (session_user_public session) []), st\<lparr>ga_store := Some s\<rparr>)))"

definition admin_auth_logout :: "'s backend \<Rightarrow> request \<Rightarrow> 's gate \<Rightarrow> reply \<times> 's gate" where
  "admin_auth_logout B rq st = (Ok_task [], map_store (destroy_session B (rq_session rq)) st)"

subsection \<open>The limit on attempts\<close>

datatype limiter_event = Attempt int | Other int backend_op

fun event_time :: "limiter_event \<Rightarrow> int" where
  "event_time (Attempt t) = t"
| "event_time (Other t _) = t"

text \<open>The answers an address gets, whatever else happens to the store in between.\<close>

fun limiter_answers :: "'s backend \<Rightarrow> string \<Rightarrow> limiter_event list \<Rightarrow> 's \<Rightarrow> bool list" where
  "limiter_answers B ip [] s = []"
| "limiter_answers B ip (Attempt t # es) s =
     (let (ok, s) = check_ip_rate_limit B t ip s in ok # limiter_answers B ip es s)"
| "limiter_answers B ip (Other t op # es) s = limiter_answers B ip es (run_op B t op s)"

definition attempts :: "limiter_event list \<Rightarrow> nat" where
  "attempts es = length (filter (\<lambda>e. case e of Attempt _ \<Rightarrow> True | _ \<Rightarrow> False) es)"

definition leaves_alone :: "string \<Rightarrow> limiter_event \<Rightarrow> bool" where
  "leaves_alone key e = (case e of Attempt _ \<Rightarrow> True | Other _ op \<Rightarrow> op_key op \<noteq> key)"

lemma attempts_simps [simp]: "attempts [] = 0" "attempts (Attempt t # es) = Suc (attempts es)"
  "attempts (Other t op # es) = attempts es"
  by (simp_all add: attempts_def)

context session_backend begin

lemma window:
  assumes "\<And>t'. from \<le> t' \<Longrightarrow> t' < exp \<Longrightarrow> counter t' s (ip_key ip) = Some (exp, n)" "1 \<le> n"
    and "sorted (from # map event_time es)" "list_all (\<lambda>e. event_time e < exp) es" "list_all (leaves_alone (ip_key ip)) es"
  shows "limiter_answers B ip es s = map (\<lambda>i. i \<le> 100) [n + 1 .. n + int (attempts es)]"
  using assms
proof (induction es arbitrary: "from" n s)
  case (Cons e es)
  show ?case
  proof (cases e)
    case (Attempt t)
    have c: "counter t s (ip_key ip) = Some (exp, n)" using Cons.prems Attempt by simp
    define s' where "s' = snd (sb_incr B t (ip_key ip) s)"
    have "sb_incr B t (ip_key ip) s = (n + 1, s')" using incr_counter [of t s "ip_key ip"] c by (simp add: s'_def prod_eq_iff)
    then have "check_ip_rate_limit B t ip s = (n + 1 \<le> 100, s')"
      using Cons.prems(2) by (simp add: check_ip_rate_limit_def linorder_not_less)
    moreover have "limiter_answers B ip es s' = map (\<lambda>i. i \<le> 100) [n + 1 + 1 .. n + 1 + int (attempts es)]"
    proof (rule Cons.IH [of t])
      show "t \<le> t' \<Longrightarrow> t' < exp \<Longrightarrow> counter t' s' (ip_key ip) = Some (exp, n + 1)" for t'
        unfolding s'_def using c by (rule counter_incr)
    qed (use Cons.prems Attempt in auto)
    ultimately show ?thesis using Attempt by (simp add: upto_rec1 ac_simps)
  next
    case (Other t op)
    have "limiter_answers B ip es (run_op B t op s) = map (\<lambda>i. i \<le> 100) [n + 1 .. n + int (attempts es)]"
    proof (rule Cons.IH [of t])
      show "t \<le> t' \<Longrightarrow> t' < exp \<Longrightarrow> counter t' (run_op B t op s) (ip_key ip) = Some (exp, n)" for t'
        using Cons.prems Other by (simp add: frame leaves_alone_def)
    qed (use Cons.prems Other in auto)
    with Other show ?thesis by simp
  qed
qed simp

lemma first_attempt:
  assumes "counter t s (ip_key ip) = None" "alive t s (ip_key ip) = None" "t \<le> t'" "t' < t + 60"
  shows "fst (check_ip_rate_limit B t ip s)" "counter t' (snd (check_ip_rate_limit B t ip s)) (ip_key ip) = Some (t + 60, 1)"
proof -
  obtain s' where s': "sb_incr B t (ip_key ip) s = (1, s')"
    using incr_counter [of t s "ip_key ip"] assms(1,2) by (cases "sb_incr B t (ip_key ip) s") auto
  obtain exp where "counter t s' (ip_key ip) = Some (exp, 1)" using counter_new [OF assms(1,2)] s' by auto
  from counter_expire [OF this _ assms(3), of 60] assms(4) s'
  show "fst (check_ip_rate_limit B t ip s)" "counter t' (snd (check_ip_rate_limit B t ip s)) (ip_key ip) = Some (t + 60, 1)"
    by (auto simp: check_ip_rate_limit_def)
qed

lemma rate_window:
  assumes "counter t s (ip_key ip) = None" "alive t s (ip_key ip) = None" "sorted (t # map event_time es)"
    and "list_all (\<lambda>e. event_time e < t + 60) es" "list_all (leaves_alone (ip_key ip)) es"
  shows "limiter_answers B ip (Attempt t # es) s = map (\<lambda>i. i \<le> 100) [1 .. int (attempts (Attempt t # es))]"
proof -
  define s' where "s' = snd (check_ip_rate_limit B t ip s)"
  have "fst (check_ip_rate_limit B t ip s)" using first_attempt(1) [OF assms(1,2), of t] by simp
  then have "check_ip_rate_limit B t ip s = (True, s')" by (simp add: s'_def prod_eq_iff)
  moreover have "limiter_answers B ip es s' = map (\<lambda>i. i \<le> 100) [1 + 1 .. 1 + int (attempts es)]"
    using assms(3-5) first_attempt(2) [OF assms(1,2)] by (intro window [of t "t + 60"]) (simp_all add: s'_def)
  ultimately show ?thesis by (simp add: upto_rec1)
qed

end

text \<open>
  C14. The limit on login attempts: on any session backend that keeps its promises, of the attempts an address makes
  in the 60 seconds from its first one, exactly the first 100 are let through, whatever other operations on other
  keys happen in between.
\<close>

lemma login_rate_limit:
  assumes "session_backend B alive counter" "counter t s (ip_key ip) = None" "alive t s (ip_key ip) = None"
    and "sorted (t # map event_time es)" "list_all (\<lambda>e. event_time e < t + 60) es"
    and "list_all (leaves_alone (ip_key ip)) es"
  shows "limiter_answers B ip (Attempt t # es) s = map (\<lambda>i. i \<le> 100) [1 .. int (attempts (Attempt t # es))]"
  using assms by (rule session_backend.rate_window)

definition lite_empty :: lite_store where
  "lite_empty = \<lparr>ls_strings = Mapping.empty, ls_counters = Mapping.empty, ls_zsets = Mapping.empty\<rparr>"

lemma lite_empty_reads [simp]: "lite_alive t lite_empty k = None" "lite_counter t lite_empty k = None"
  by (simp_all add: lite_empty_def lite_alive_def lite_counter_def unexpired_def)

lemma login_rate_limit_witness:
  "limiter_answers lite_backend ''1.2.3.4'' (Attempt 5 # Other 6 (Op_delete (ip_key ''1'')) # replicate 101 (Attempt 7)) lite_empty =
     replicate 100 True @ [False, False]"
proof -
  let ?es = "Other 6 (Op_delete (ip_key ''1'')) # replicate 101 (Attempt 7)"
  have n: "attempts (replicate k (Attempt 7)) = k" for k by (induction k) simp_all
  have k: "ip_key ''1'' \<noteq> ip_key ''1.2.3.4''" by (simp add: ip_key_def)
  have r: "map event_time (replicate 101 (Attempt 7)) = replicate 101 7" by (simp only: map_replicate event_time.simps)
  have s: "sorted (5 # map event_time ?es)" by (simp only: list.map r event_time.simps) (simp add: list_all_iff)
  have l: "list_all (\<lambda>e. event_time e < 5 + 60) ?es" "list_all (leaves_alone (ip_key ''1.2.3.4'')) ?es"
    using k by (auto simp: list_all_iff leaves_alone_def)
  have "map (\<lambda>i. i \<le> 100) [1 .. int (attempts (Attempt 5 # ?es))] = replicate 100 True @ [False, False]"
    unfolding attempts_simps n by code_simp
  with login_rate_limit [OF lite.session_backend_axioms _ _ s l] show ?thesis by simp
qed

subsection \<open>What a login leaves behind\<close>

lemma enqueue_all_None: "enqueue_all re cs st = (None, st') \<Longrightarrow> st' = st\<lparr>ga_queue := ga_queue st @ cs\<rparr>"
proof (induction cs arbitrary: st)
  case (Cons c cs)
  then have "enqueue_all re cs (st\<lparr>ga_queue := ga_queue st @ [c]\<rparr>) = (None, st')"
    by (auto simp: enqueue_def split: option.split_asm)
  from Cons.IH [OF this] show ?case by simp
qed simp

lemma session_ttl_min: "session_ttl_seconds getenv = Inr ttl \<Longrightarrow> 300 \<le> ttl"
  by (auto simp: session_ttl_seconds_def)

lemma finish_login_cases:
  assumes "finish_login B re rq email user upd st = (Ok_user pub cookies, st')"
  obtains s s' q where "create_session B (re_getenv re) (rq_later rq) (re_ts re) (re_session_id re) (re_csrf re) user s = Inr s'"
    "set_auth_cookies (re_getenv re) (Some rq) (re_session_id re) (re_csrf re) = Inr cookies"
    "ga_store st' = Some s'" "ga_queue st' = q @ [Clear_failures email]"
proof -
  let ?cs = "(case upd of None \<Rightarrow> [] | Some u \<Rightarrow> [Update_hash email u]) @ [Clear_failures email]"
  obtain r st1 where e: "enqueue_all re ?cs st = (r, st1)" by (cases "enqueue_all re ?cs st")
  with assms have "r = None" by (auto simp: finish_login_def queue_error_def split: option.split_asm py_error.split_asm)
  with e have q: "ga_queue st1 = (ga_queue st @ butlast ?cs) @ [Clear_failures email]"
    using enqueue_all_None [of re ?cs st st1] by (simp add: butlast_append)
  obtain s where "ga_store st1 = Some s" using assms e \<open>r = None\<close> by (auto simp: finish_login_def split: option.split_asm)
  with assms e \<open>r = None\<close> q that show ?thesis
    by (auto simp: finish_login_def Let_def split: sum.split_asm)
qed

lemma login_cases:
  assumes "admin_auth_login B re rq raw_email password st = (Ok_user pub cookies, st')"
  obtains user upd st1 where "authenticate re (lower (strip raw_email)) password = Inr (Some user, upd)"
    "finish_login B re rq (lower (strip raw_email)) user upd st1 = (Ok_user pub cookies, st')"
  using assms unfolding admin_auth_login_def Let_def
  by (auto split: if_split_asm prod.split_asm option.split_asm sum.split_asm py_error.split_asm
    simp: queue_error_def hub_error_def)

lemma attach_profile_frame:
  "attach_profile_to_console_user sha rows user = Inr d \<Longrightarrow> k \<noteq> ''profile'' \<Longrightarrow> pget d k x = pget user k x"
  by (auto simp: attach_profile_to_console_user_def Let_def split: if_split_asm)

lemma authenticate_cases:
  assumes "authenticate re email password = Inr (Some user, upd)"
  obtains pu where "authenticate_console_user_readonly (re_auth re) email password (rows_seen (re_auth_view re)) = Inr (Some pu, upd)"
    "\<And>k x. k \<noteq> ''profile'' \<Longrightarrow> pget user k x = pget (public_payload pu) k x"
  using assms unfolding authenticate_def
  by (auto split: hub_view.split_asm sum.split_asm option.split_asm prod.split_asm dest: attach_profile_frame)

context session_backend begin

lemma load_session_alive: "fst (load_session B t sid s) = (if sid = [] then None
    else case alive t s (session_key sid) of Some (PDict d) \<Rightarrow> Some d | _ \<Rightarrow> None)"
  using get_alive [of t "session_key sid" s] by (auto simp: load_session_def split: prod.split option.split)

lemma created_session_loads:
  assumes "create_session B getenv t ts sid csrf user s = Inr s'" "sid \<noteq> []"
  obtains ttl session where "session_ttl_seconds getenv = Inr ttl"
    "\<And>t'. t \<le> t' \<Longrightarrow> fst (load_session B t' sid s') = (if t' < t + ttl then Some session else None)"
    "\<And>x. pget session ''email'' x = pget user ''email'' PNone" "\<And>x. pget session ''rol'' x = pget user ''rol'' PNone"
    "\<And>x. pget session ''csrf_token'' x = PStr csrf"
proof -
  obtain ttl where ttl: "session_ttl_seconds getenv = Inr ttl" using assms(1) by (auto simp: create_session_def)
  obtain session where s': "s' = sb_setex B t (session_key sid) ttl (PDict session) s"
    and "pget session ''email'' x = pget user ''email'' PNone" "pget session ''rol'' x = pget user ''rol'' PNone"
      "pget session ''csrf_token'' x = PStr csrf" for x
    using assms(1) ttl that by (fastforce simp: create_session_def)
  moreover have "fst (load_session B t' sid s') = (if t' < t + ttl then Some session else None)" if "t \<le> t'" for t'
    using that assms(2) session_ttl_min [OF ttl] by (simp add: load_session_alive s' alive_setex)
  ultimately show ?thesis using that [OF ttl] by blast
qed

lemma destroyed_session_gone: "sid \<noteq> [] \<Longrightarrow> fst (load_session B t sid (destroy_session B sid s)) = None"
  by (simp add: load_session_alive destroy_session_def alive_delete)

lemma login_session:
  assumes "admin_auth_login B re rq raw_email password st = (Ok_user pub cookies, st')" "re_session_id re \<noteq> []"
  shows "\<exists>pu upd ttl s' session q.
    authenticate_console_user_readonly (re_auth re) (lower (strip raw_email)) password (rows_seen (re_auth_view re)) = Inr (Some pu, upd) \<and>
    ga_store st' = Some s' \<and> ga_queue st' = q @ [Clear_failures (lower (strip raw_email))] \<and> session_ttl_seconds (re_getenv re) = Inr ttl \<and>
    (\<forall>t \<ge> rq_later rq. fst (load_session B t (re_session_id re) s') = (if t < rq_later rq + ttl then Some session else None)) \<and>
    pget session ''email'' PNone = PStr (pu_email pu) \<and> pget session ''rol'' PNone = PStr (pu_rol pu) \<and>
    pget session ''csrf_token'' PNone = PStr (re_csrf re) \<and>
    map (\<lambda>c. (ck_name c, ck_value c, ck_http_only c, ck_max_age c)) cookies =
      [(''session'', re_session_id re, True, ttl), (''csrf_token'', re_csrf re, False, ttl)]"
proof -
  obtain user upd st1 where a: "authenticate re (lower (strip raw_email)) password = Inr (Some user, upd)"
    and f: "finish_login B re rq (lower (strip raw_email)) user upd st1 = (Ok_user pub cookies, st')"
    using assms(1) by (rule login_cases)
  obtain pu where pu: "authenticate_console_user_readonly (re_auth re) (lower (strip raw_email)) password
      (rows_seen (re_auth_view re)) = Inr (Some pu, upd)"
    and u: "\<And>k x. k \<noteq> ''profile'' \<Longrightarrow> pget user k x = pget (public_payload pu) k x"
    using authenticate_cases [OF a] by blast
  obtain s s' q where c: "create_session B (re_getenv re) (rq_later rq) (re_ts re) (re_session_id re) (re_csrf re) user s = Inr s'"
    and k: "set_auth_cookies (re_getenv re) (Some rq) (re_session_id re) (re_csrf re) = Inr cookies"
    and st': "ga_store st' = Some s'" "ga_queue st' = q @ [Clear_failures (lower (strip raw_email))]"
    using f by (rule finish_login_cases)
  obtain ttl session where ttl: "session_ttl_seconds (re_getenv re) = Inr ttl"
    and l: "\<And>t'. rq_later rq \<le> t' \<Longrightarrow> fst (load_session B t' (re_session_id re) s') = (if t' < rq_later rq + ttl then Some session else None)"
    and p: "\<And>x. pget session ''email'' x = pget user ''email'' PNone" "\<And>x. pget session ''rol'' x = pget user ''rol'' PNone"
      "\<And>x. pget session ''csrf_token'' x = PStr (re_csrf re)"
    by (rule created_session_loads [OF c assms(2)]) (rule that; blast)
  have "pget session ''email'' PNone = PStr (pu_email pu)" "pget session ''rol'' PNone = PStr (pu_rol pu)"
    by (simp_all add: p u public_payload_def)
  moreover have "map (\<lambda>c. (ck_name c, ck_value c, ck_http_only c, ck_max_age c)) cookies =
      [(''session'', re_session_id re, True, ttl), (''csrf_token'', re_csrf re, False, ttl)]"
    using k ttl by (auto simp: set_auth_cookies_def Let_def)
  moreover have "\<forall>t \<ge> rq_later rq. fst (load_session B t (re_session_id re) s') = (if t < rq_later rq + ttl then Some session else None)"
    using l by blast
  ultimately show ?thesis using pu st' p(3) ttl by (intro exI conjI)
qed

end


text \<open>
  C8. What a login means: when the answer is the user, the hub showed a row with that e-mail that is not deactivated and
  whose hash verifies the password, by Argon2 or, for the hashes of old, by PBKDF2; on any session backend that keeps the
  promises of \<open>session_backend\<close>, as the in-process store does, the session of the cookie, with that row's e-mail and role, can be
  read for the time the setting says, and not afterwards; the session cookie is hidden from scripts and lives as
  long, and the last command put on the writer's queue resets the account's failures. The e-mail is one that fits its literal.
\<close>

lemma login_opens_session:
  assumes "session_backend B alive counter"
    and "admin_auth_login B re rq raw_email password st = (Ok_user pub cookies, st')" "re_session_id re \<noteq> []"
    and "clean (lower (strip raw_email))"
  shows "\<exists>u ttl s' session q.
    u \<in> set (rows_seen (re_auth_view re)) \<and> cu_email u = user_key (lower (strip raw_email)) \<and> cu_active u \<noteq> Some False \<and>
    (infer_hash_algo u = ''argon2id'' \<and> au_argon2_verify (re_auth re) (strip (cu_hash u)) password \<or>
     infer_hash_algo u = ''pbkdf2_sha256'' \<and> verify_password (re_auth re) password (strip (cu_hash u)) = Inr True) \<and>
    session_ttl_seconds (re_getenv re) = Inr ttl \<and>
    ga_store st' = Some s' \<and> ga_queue st' = q @ [Clear_failures (lower (strip raw_email))] \<and>
    (\<forall>t \<ge> rq_later rq. fst (load_session B t (re_session_id re) s') = (if t < rq_later rq + ttl then Some session else None)) \<and>
    pget session ''email'' PNone = PStr (pu_email (row_to_public u)) \<and> pget session ''rol'' PNone = PStr (pu_rol (row_to_public u)) \<and>
    pget session ''csrf_token'' PNone = PStr (re_csrf re) \<and>
    map (\<lambda>c. (ck_name c, ck_value c, ck_http_only c, ck_max_age c)) cookies =
      [(''session'', re_session_id re, True, ttl), (''csrf_token'', re_csrf re, False, ttl)]"
proof -
  from session_backend.login_session [OF assms(1-3)] obtain pu upd ttl s' session q where
    a: "authenticate_console_user_readonly (re_auth re) (lower (strip raw_email)) password (rows_seen (re_auth_view re)) = Inr (Some pu, upd)"
    and rest: "ga_store st' = Some s'" "ga_queue st' = q @ [Clear_failures (lower (strip raw_email))]" "session_ttl_seconds (re_getenv re) = Inr ttl"
      "\<forall>t \<ge> rq_later rq. fst (load_session B t (re_session_id re) s') = (if t < rq_later rq + ttl then Some session else None)"
      "pget session ''email'' PNone = PStr (pu_email pu)" "pget session ''rol'' PNone = PStr (pu_rol pu)" "pget session ''csrf_token'' PNone = PStr (re_csrf re)"
      "map (\<lambda>c. (ck_name c, ck_value c, ck_http_only c, ck_max_age c)) cookies = [(''session'', re_session_id re, True, ttl), (''csrf_token'', re_csrf re, False, ttl)]"
    by (elim exE conjE)
  from login_needs_password [OF a assms(4)] obtain u where "u \<in> set (rows_seen (re_auth_view re))" "cu_email u = user_key (lower (strip raw_email))"
    "cu_active u \<noteq> Some False" "pu = row_to_public u"
    "infer_hash_algo u = ''argon2id'' \<and> au_argon2_verify (re_auth re) (strip (cu_hash u)) password \<or>
     infer_hash_algo u = ''pbkdf2_sha256'' \<and> verify_password (re_auth re) password (strip (cu_hash u)) = Inr True" by blast
  with rest show ?thesis by (intro exI conjI) (assumption | simp)+
qed

definition login_demo :: "console_user list" where
  "login_demo = map (\<lambda>u. u\<lparr>cu_hash := ''H:password1''\<rparr>) console_demo"

definition route_env0 :: "hub_view \<Rightarrow> route_env" where
  "route_env0 view = \<lparr>re_getenv = [''SESSION_TTL_SECONDS'' \<mapsto> ''60''], re_auth = auth_env0, re_sha = (\<lambda>s. ''0123456789abcdef''), re_has_hub = True,
     re_seed_view = view, re_auth_view = view, re_profiles = Some [], re_profiles_again = Inr (Some []), re_refuses = (\<lambda>_. None),
     re_token = ''tok'', re_session_id = ''S1'', re_csrf = ''C1'', re_ts = ''2026-01-01''\<rparr>"

definition request0 :: request where
  "request0 = \<lparr>rq_forwarded_for = [], rq_client_host = ''10.0.0.1'', rq_forwarded_proto = [], rq_scheme = ''http'',
     rq_session = ''S1'', rq_now = 10, rq_later = 11\<rparr>"

fun is_ok :: "reply \<Rightarrow> bool" where
  "is_ok (Ok_user _ _) = True"
| "is_ok _ = False"

lemma is_ok_cases: "is_ok (fst r) \<Longrightarrow> \<exists>pub cookies st. r = (Ok_user pub cookies, st)"
  by (cases r; cases "fst r") auto

lemma login_opens_session_witness:
  "\<exists>pub cookies st' s' session. admin_auth_login lite_backend (route_env0 (Rows login_demo)) request0 '' ANA@x'' ''password1''
       \<lparr>ga_store = Some lite_empty, ga_queue = []\<rparr> = (Ok_user pub cookies, st') \<and> ga_store st' = Some s' \<and>
     fst (load_session lite_backend 11 ''S1'' s') = Some session"
proof -
  let ?r = "admin_auth_login lite_backend (route_env0 (Rows login_demo)) request0 '' ANA@x'' ''password1''
       \<lparr>ga_store = Some lite_empty, ga_queue = []\<rparr>"
  have "is_ok (fst ?r)" by code_simp
  from is_ok_cases [OF this] obtain pub cookies st' where r: "?r = (Ok_user pub cookies, st')" by (elim exE)
  have e: "re_session_id (route_env0 (Rows login_demo)) = ''S1''" "rq_later request0 = 11" by (simp_all add: route_env0_def request0_def)
  have n: "''S1'' \<noteq> []" and c: "clean (lower (strip '' ANA@x''))" by (simp, code_simp)
  from login_opens_session [OF lite.session_backend_axioms r, unfolded e, OF n c] obtain ttl s' session where "ga_store st' = Some s'" "session_ttl_seconds (re_getenv (route_env0 (Rows login_demo))) = Inr ttl"
    "\<forall>t \<ge> 11. fst (load_session lite_backend t ''S1'' s') = (if t < 11 + ttl then Some session else None)" by (elim exE conjE)
  moreover have "session_ttl_seconds (re_getenv (route_env0 (Rows login_demo))) = Inr 300" by code_simp
  ultimately have "ga_store st' = Some s'" "fst (load_session lite_backend 11 ''S1'' s') = Some session" by simp_all
  with r show ?thesis by (intro exI conjI)
qed

lemma locked_out_text_row [simp]: "locked_out k (map text_row users) = locked_out k users"
  by (auto simp: locked_out_def has_key_iff text_row_def)

text \<open>
  Deactivation reaches open sessions: after an account has been deactivated (and any further login-state
  commands), the first time the console asks who is logged in with one of its sessions the answer is 401 and the
  session is gone for good.
\<close>

lemma deactivation_ends_session:
  assumes "session_backend B alive counter"
    and "apply_deactivate_console_user au e p users = Inr users1" "clean_command p" "need_email p = Inr email"
    and "forE (\<lambda>(h, e', q). h e' q) cmds users1 = Inr users2"
    and "list_all (\<lambda>(h, e', q). h \<in> login_state_handlers au \<and> clean_command q) cmds"
    and "re_auth_view re = Rows users2" "ga_store st = Some s" "rq_session rq \<noteq> []"
    and "fst (load_session B (rq_now rq) (rq_session rq) s) = Some session"
    and "normalize_email (gstr session ''email'' []) = normalize_email email"
  shows "\<exists>s'. admin_auth_me B re rq st = (Refused 401 ''Session user not active'', st\<lparr>ga_store := Some s'\<rparr>) \<and>
    (\<forall>t. fst (load_session B t (rq_session rq) s') = None)"
proof -
  have c: "clean email" by (rule clean_need [OF assms(3,4)])
  have l: "locked_out (user_key email) (map text_row users2)" using deactivation_locks [OF assms(2-6)] by simp
  let ?em = "strip (gstr session ''email'' [])"
  have n: "normalize_email ?em = normalize_email email" using assms(11) by (simp add: normalize_email_def)
  have "normalize_email email \<noteq> []" using assms(4) by (auto simp: need_email_Inr normalize_email_def lower_def)
  then have em: "?em \<noteq> []" using n by (auto simp: normalize_email_def lower_def)
  obtain u where "get_by_email (re_auth re) ?em (map text_row users2) = Some u" "cu_active u = Some False"
    using l unfolding get_same_email [OF c n] by (cases "sel_one (\<lambda>u. cu_email u = user_key email) (map text_row users2)")
      (auto simp: locked_out_def has_key_iff sel_one_None dest!: sel_one_Some)
  then have r: "resolve_session_from_db re ?em session = Inr None"
    using assms(7) by (simp add: resolve_session_from_db_def rows_seen_def active_value_def)
  obtain s1 where "load_session B (rq_now rq) (rq_session rq) s = (Some session, s1)"
    using assms(10) by (cases "load_session B (rq_now rq) (rq_session rq) s") simp
  then have "admin_auth_me B re rq st =
      (Refused 401 ''Session user not active'', st\<lparr>ga_store := Some (destroy_session B (rq_session rq) s1)\<rparr>)"
    using assms(8,9) em r by (simp add: admin_auth_me_def Let_def)
  with session_backend.destroyed_session_gone [OF assms(1,9)] show ?thesis by blast
qed


lemma deactivation_ends_session_witness:
  "\<exists>users1 s s'. apply_deactivate_console_user auth_env0 env0 [(''email'', PStr ''ana@x'')] login_demo = Inr users1 \<and>
     s = lite_setex 5 (session_key ''S1'') 300 (PDict [(''email'', PStr ''Ana@x'')]) lite_empty \<and>
     admin_auth_me lite_backend (route_env0 (Rows users1)) request0 \<lparr>ga_store = Some s, ga_queue = []\<rparr> =
       (Refused 401 ''Session user not active'', \<lparr>ga_store = Some s', ga_queue = []\<rparr>)"
proof -
  let ?p = "[(''email'', PStr ''ana@x'')]"
  define s where "s = lite_setex 5 (session_key ''S1'') 300 (PDict [(''email'', PStr ''Ana@x'')]) lite_empty"
  let ?st = "\<lparr>ga_store = Some s, ga_queue = []\<rparr>"
  have "\<not> isl (apply_deactivate_console_user auth_env0 env0 ?p login_demo)" by code_simp
  then obtain users1 where u: "apply_deactivate_console_user auth_env0 env0 ?p login_demo = Inr users1"
    by (cases "apply_deactivate_console_user auth_env0 env0 ?p login_demo") auto
  have "clean ''ana@x''" by code_simp
  then have c: "clean_command ?p" by (intro clean_commandI) (simp_all add: pget_def)
  have n: "need_email ?p = Inr ''ana@x''"
    "normalize_email (gstr [(''email'', PStr ''Ana@x'')] ''email'' []) = normalize_email ''ana@x''" by code_simp+
  have q: "rq_session request0 = ''S1''" "rq_now request0 = 10" by (simp_all add: request0_def)
  have l: "fst (load_session lite_backend (rq_now request0) (rq_session request0) s) = Some [(''email'', PStr ''Ana@x'')]"
    unfolding q lite.load_session_alive s_def
    using lite.alive_setex [of 5 10 300 "session_key ''S1''" "PDict [(''email'', PStr ''Ana@x'')]" lite_empty]
    by (simp add: lite_backend_def)
  have v: "re_auth_view (route_env0 (Rows users1)) = Rows users1" "ga_store ?st = Some s" "rq_session request0 \<noteq> []"
    by (simp_all add: route_env0_def request0_def)
  from deactivation_ends_session [OF lite.session_backend_axioms u c n(1) _ _ v l n(2), of "[]"]
  obtain s' where "admin_auth_me lite_backend (route_env0 (Rows users1)) request0 ?st =
      (Refused 401 ''Session user not active'', ?st\<lparr>ga_store := Some s'\<rparr>)" by auto
  then have "admin_auth_me lite_backend (route_env0 (Rows users1)) request0 ?st =
      (Refused 401 ''Session user not active'', \<lparr>ga_store = Some s', ga_queue = []\<rparr>)" by simp
  with u s_def show ?thesis by (intro exI conjI)
qed

subsection \<open>Where the guards fail\<close>

lemma lite_no_string:
  "Mapping.lookup (ls_strings s) k = None \<Longrightarrow> Mapping.lookup (ls_strings (record_email_failure lite_backend t email s)) k = None"
  by (auto simp: record_email_failure_def lite_defs set_expiry_def unexpired_def lookup_update' split: option.split prod.split)

text \<open>
  On desktops the growing delay never comes: the in-process store keeps counters apart from the strings that
  \<open>get\<close> reads, so however many failures of an e-mail have been recorded, the next login is not delayed.
\<close>

lemma lite_login_never_delays:
  assumes "Mapping.lookup (ls_strings s) (email_key email) = None"
  shows "fst (apply_login_delay lite_backend t email (fold (\<lambda>t. record_email_failure lite_backend t email) ts s)) = Inr 0"
proof -
  have "Mapping.lookup (ls_strings (fold (\<lambda>t. record_email_failure lite_backend t email) ts s)) (email_key email) = None"
    using assms by (induction ts arbitrary: s) (simp_all add: lite_no_string)
  then show ?thesis
    by (simp add: apply_login_delay_def get_email_fail_count_def lite_defs unexpired_def calculate_login_delay_def)
qed

lemma lite_login_never_delays_witness:
  "fst (apply_login_delay lite_backend 30 ''ana@x'' (fold (\<lambda>t. record_email_failure lite_backend t ''ana@x'') [1 .. 20] lite_empty)) = Inr 0 \<and>
   calculate_login_delay 20 = 3600"
proof -
  have "Mapping.lookup (ls_strings lite_empty) (email_key ''ana@x'') = None" by (simp add: lite_empty_def)
  from lite_login_never_delays [OF this] show ?thesis by (simp add: calculate_login_delay_def)
qed

text \<open>
  Registration of the first account is open whenever the hub cannot be queried: the read helper turns the failure
  into no accounts, so anyone who is not logged in gets the command that makes the account of any e-mail an
  administrator with a password of his choice put on the queue, and once the writer has run it, even over accounts
  that exist, that password logs in as an administrator.
\<close>

lemma register_takeover:
  assumes "re_auth_view re = Query_fails" "re_has_hub re" "valid_password pw" "re_refuses re = (\<lambda>_. None)"
    and email: "email = lower (strip raw_email)" and nombre: "name = str_or (strip nombre) email"
    and upsert: "upsert_console_user au e email name ''admin'' (PStr pw) [] True users = Inr users'"
    and "clean email" "clean name" "clean_argon2 au"
    and hash: "fst (au_argon2 au pw) = h" "strip h = h" "h \<noteq> []" "au_argon2_verify au h pw" "au_needs_rehash au h = Some False"
  shows "admin_auth_register re raw_email pw nombre st =
      (Ok_task email, st\<lparr>ga_queue := ga_queue st @ [Upsert_user email name ''admin'' pw []]\<rparr>) \<and>
    (\<exists>pu. authenticate_console_user_readonly au email pw users' = Inr (Some pu, None) \<and> pu_rol pu = ''admin'')"
proof
  show "admin_auth_register re raw_email pw nombre st =
      (Ok_task email, st\<lparr>ga_queue := ga_queue st @ [Upsert_user email name ''admin'' pw []]\<rparr>)"
    using assms(1-6) by (simp add: admin_auth_register_def Let_def count_console_users_def rows_seen_def enqueue_def)
  have "clean []" "pw \<noteq> []" "console_role ''admin'' = ''admin''"
    using assms(3) by (auto simp: valid_password_def clean_def) code_simp
  with upsert_then_login [OF upsert assms(8,9) _ assms(10) _ refl hash]
  show "\<exists>pu. authenticate_console_user_readonly au email pw users' = Inr (Some pu, None) \<and> pu_rol pu = ''admin''" by auto
qed

lemma register_takeover_witness:
  "\<exists>users' pu. admin_auth_register (route_env0 Query_fails) '' ANA@x'' ''password2'' [] \<lparr>ga_store = Some lite_empty, ga_queue = []\<rparr> =
       (Ok_task ''ana@x'', \<lparr>ga_store = Some lite_empty, ga_queue = [Upsert_user ''ana@x'' ''ana@x'' ''admin'' ''password2'' []]\<rparr>) \<and>
     upsert_console_user auth_env0 env0 ''ana@x'' ''ana@x'' ''admin'' (PStr ''password2'') [] True login_demo = Inr users' \<and>
     authenticate_console_user_readonly auth_env0 ''ana@x'' ''password2'' users' = Inr (Some pu, None) \<and> pu_rol pu = ''admin'' \<and>
     map cu_rol login_demo = [''user'']"
proof -
  let ?u = "upsert_console_user auth_env0 env0 ''ana@x'' ''ana@x'' ''admin'' (PStr ''password2'') [] True login_demo"
  have "\<not> isl ?u" by code_simp
  then obtain users' where u: "?u = Inr users'" by (cases ?u) auto
  let ?re = "route_env0 Query_fails"
  have r: "re_auth_view ?re = Query_fails" "re_has_hub ?re" "re_refuses ?re = (\<lambda>_. None)" by (simp_all add: route_env0_def)
  have v: "valid_password ''password2''" "''ana@x'' = lower (strip '' ANA@x'')" "''ana@x'' = str_or (strip []) ''ana@x''" "clean ''ana@x''"
    by code_simp+
  have h: "fst (au_argon2 auth_env0 ''password2'') = ''H:password2''" "strip ''H:password2'' = ''H:password2''" "''H:password2'' \<noteq> []"
    "au_argon2_verify auth_env0 ''H:password2'' ''password2''" "au_needs_rehash auth_env0 ''H:password2'' = Some False" by code_simp+
  have "map cu_rol login_demo = [''user'']" by (simp add: login_demo_def console_demo_def)
  with register_takeover [OF r(1,2) v(1) r(3) v(2,3) u v(4,4) clean_argon2_auth_env0 h, of "\<lparr>ga_store = Some lite_empty, ga_queue = []\<rparr>"] u
  show ?thesis by auto
qed

end
