(* ===== verification/WriteQueue.thy ===== *)
theory WriteQueue
  imports DbWriter
begin

text \<open>
  The producers of writes (\<open>packages/shared/src/duckclaw/db_write_queue.py\<close>, \<open>gateway_enqueue.py\<close>,
  \<open>spawn_profile.py\<close>): a command is put on the Redis queue of the db-writer or, in the Spawn profile, executed at
  once in the producer's own process, with the status kept in a table of the process. The state is the db-writer's
  world (databases, Redis) and that table. A command is the dictionary of its JSON dump.
\<close>

subsection \<open>State and settings\<close>

record 'd world =
  wo_writer :: "'d writer"
  wo_inline :: "string \<Rightarrow> (int \<times> task_status) option"

record 'd producer_env =
  pd_env :: "'d writer_env"
  pd_getenv :: "string \<Rightarrow> string option"
  pd_uuid :: string
  pd_redis :: "py_error option"
  pd_resolve :: "string \<Rightarrow> string"
  pd_hub_path :: string
  pd_attempt :: "nat \<Rightarrow> py_error option"

definition env_truthy :: "(string \<Rightarrow> string option) \<Rightarrow> string \<Rightarrow> bool" where
  "env_truthy getenv name \<longleftrightarrow> lower (strip (case getenv name of None \<Rightarrow> [] | Some v \<Rightarrow> v)) \<in> {''1'', ''true'', ''yes'', ''on''}"

definition is_lite_mode :: "(string \<Rightarrow> string option) \<Rightarrow> bool" where
  "is_lite_mode getenv \<longleftrightarrow> env_truthy getenv ''LITE_MODE''"

definition is_spawn_profile :: "(string \<Rightarrow> string option) \<Rightarrow> bool" where
  "is_spawn_profile getenv \<longleftrightarrow> env_truthy getenv ''DUCKCLAW_SPAWN_PROFILE'' \<or> is_lite_mode getenv"

definition spawn_inline_writes_enabled :: "(string \<Rightarrow> string option) \<Rightarrow> bool" where
  "spawn_inline_writes_enabled getenv \<longleftrightarrow> is_spawn_profile getenv \<and> \<not> env_truthy getenv ''DUCKCLAW_SPAWN_USE_DB_WRITER''"

definition apply_lite_mode_env :: "(string \<Rightarrow> string option) \<Rightarrow> string \<Rightarrow> string option" where
  "apply_lite_mode_env getenv = (if \<not> is_lite_mode getenv then getenv
     else let getenv = (if getenv ''DUCKCLAW_SPAWN_PROFILE'' = None then getenv(''DUCKCLAW_SPAWN_PROFILE'' \<mapsto> ''1'') else getenv)
       in getenv(''DUCKCLAW_SPAWN_USE_DB_WRITER'' := None))"

subsection \<open>Task statuses\<close>

definition purge_expired_inline_task_status ::
  "int \<Rightarrow> (string \<Rightarrow> (int \<times> task_status) option) \<Rightarrow> string \<Rightarrow> (int \<times> task_status) option" where
  "purge_expired_inline_task_status ts table = (\<lambda>k. case table k of
     None \<Rightarrow> None | Some (expires, st) \<Rightarrow> if expires \<le> ts then None else Some (expires, st))"

definition store_inline_task_status :: "'d producer_env \<Rightarrow> string \<Rightarrow> task_status \<Rightarrow> 'd world \<Rightarrow> 'd world" where
  "store_inline_task_status pe task_id status w = (let ts = we_monotonic (pd_env pe)
     in w\<lparr>wo_inline := (purge_expired_inline_task_status ts (wo_inline w))(task_id \<mapsto> (ts + 60, status))\<rparr>)"

definition publish_inline_task_status :: "'d producer_env \<Rightarrow> string \<Rightarrow> task_status \<Rightarrow> 'd world \<Rightarrow> 'd world" where
  "publish_inline_task_status pe task_id status w =
     (if spawn_inline_writes_enabled (pd_getenv pe) then store_inline_task_status pe task_id status w
      else if pd_redis pe \<noteq> None then w
      else w\<lparr>wo_writer := publish_task_status (pd_env pe) task_id (ts_status status) (ts_detail status) (wo_writer w)\<rparr>)"

definition get_task_status_sync :: "'d producer_env \<Rightarrow> string \<Rightarrow> 'd world \<Rightarrow> task_status option \<times> 'd world" where
  "get_task_status_sync pe task_id w = (let tid = strip task_id in
     if tid = [] then (None, w)
     else if spawn_inline_writes_enabled (pd_getenv pe) then (case wo_inline w tid of
         None \<Rightarrow> (None, w)
       | Some (expires, status) \<Rightarrow> if expires < we_monotonic (pd_env pe) then (None, w\<lparr>wo_inline := (wo_inline w)(tid := None)\<rparr>)
           else (Some status, w))
     else if pd_redis pe \<noteq> None then (None, w)
     else (case wr_status (wo_writer w) (''task_status:'' @ tid) of
         Some (status, expiry) \<Rightarrow> (if we_now (pd_env pe) < expiry then Some status else None, w)
       | None \<Rightarrow> (None, w)))"

definition get_write_task_status :: "'d producer_env \<Rightarrow> string \<Rightarrow> 'd world \<Rightarrow> (string \<times> task_status) option \<times> 'd world" where
  "get_write_task_status pe task_id w = (let tid = strip task_id in
     if tid = [] then (None, w)
     else let (row, w) = get_task_status_sync pe tid w in (map_option (\<lambda>row. (tid, row)) row, w))"

subsection \<open>Who may write where\<close>

definition resolve_enqueue_user_id :: "'d producer_env \<Rightarrow> string \<Rightarrow> string \<Rightarrow> string \<Rightarrow> py_error + string" where
  "resolve_enqueue_user_id pe user_id target tenant_id =
     (case resolve_user_id_for_db_path (we_paths (pd_env pe)) user_id target (if tenant_id = [] then None else Some tenant_id) of
        None \<Rightarrow> Inl (ValueError (''db_path inv'' @ [CHR 0xE1] @ ''lido para el usuario''))
      | Some resolved \<Rightarrow> Inr resolved)"

text \<open>Exceptions of the grant check other than \<open>ValueError\<close> are logged and passed over.\<close>

definition validate_write_target :: "'d producer_env \<Rightarrow> string \<Rightarrow> string \<Rightarrow> string \<Rightarrow> py_error option" where
  "validate_write_target pe user_id target tenant_id = (case resolve_enqueue_user_id pe user_id target tenant_id of
     Inl err \<Rightarrow> Some err
   | Inr _ \<Rightarrow> if \<not> path_is_under_shared_tree (we_paths (pd_env pe)) target then None
       else (case legacy_acl_check (pd_env pe) (Some tenant_id) user_id target of
           Inr True \<Rightarrow> None
         | Inr False \<Rightarrow> Some (ValueError ''sin grant de base compartida'')
         | Inl (ValueError s) \<Rightarrow> Some (ValueError s)
         | Inl _ \<Rightarrow> None))"

subsection \<open>Executing in the producer's process\<close>

definition apply_raw_sql :: "'d writer_env \<Rightarrow> 'd body" where
  "apply_raw_sql we payload db = (let query = opt_str payload ''query'' [] in
     if query = [] then Inl (ValueError ''query required'')
     else bindE (py_list (por (pget payload ''params'' PNone) (PList []))) (\<lambda>params.
       bindE (we_sql we query (PList params) db) (\<lambda>db. Inr (db, payload))))"

definition dispatch_body :: "'d writer_env \<Rightarrow> 'd body" where
  "dispatch_body we payload db =
     (if strip (gstr payload ''command_type'' []) = ''raw_sql'' then apply_raw_sql we payload db
      else contents_body (dispatch_command (we_handlers we)) payload db)"

text \<open>BEGIN, the command, the ledger row with the text that was enqueued, COMMIT, or ROLLBACK.\<close>

definition inline_txn :: "int \<Rightarrow> 'd body \<Rightarrow> string \<Rightarrow> payload \<Rightarrow> string \<Rightarrow> 'd database \<Rightarrow> py_error option \<times> 'd database" where
  "inline_txn ts body task_id payload text db =
     (case bindE (body payload db) (\<lambda>(db', _).
         ledger_insert_completed ts task_id (gstr payload ''command_type'' []) text db') of
        Inl err \<Rightarrow> (Some err, db)
      | Inr db' \<Rightarrow> (None, db'))"

definition execute_inline ::
  "'d producer_env \<Rightarrow> string \<Rightarrow> payload \<Rightarrow> string \<Rightarrow> string \<Rightarrow> 'd world \<Rightarrow> (py_error + string) \<times> 'd world" where
  "execute_inline pe tid payload text db_path w = (let we = pd_env pe in
     case we_connect we db_path of
       Some err \<Rightarrow> (Inl err, w)
     | None \<Rightarrow> (let
           st = wo_writer w;
           (err, db) = we_migrate we (wr_files st db_path);
           (err, db) = (case err of Some e \<Rightarrow> (Some e, db) | None \<Rightarrow> inline_txn (we_now we) (dispatch_body we) tid payload text db);
           w = w\<lparr>wo_writer := st\<lparr>wr_files := (wr_files st)(db_path := db)\<rparr>\<rparr>
         in case err of
              None \<Rightarrow> (Inr tid, publish_inline_task_status pe tid \<lparr>ts_status = ''success'', ts_detail = None\<rparr> w)
            | Some e \<Rightarrow> (Inl e, publish_inline_task_status pe tid
                \<lparr>ts_status = ''failed'', ts_detail = Some (take 500 (error_text e))\<rparr> w)))"

subsection \<open>Enqueueing\<close>

definition enqueue_enriched_payload ::
  "'d producer_env \<Rightarrow> payload \<Rightarrow> string \<Rightarrow> string \<Rightarrow> 'd world \<Rightarrow> (py_error + string) \<times> 'd world" where
  "enqueue_enriched_payload pe enriched db_path queue_name w = (let
     tid = gstr enriched ''task_id'' (pd_uuid pe);
     enriched = pset ''task_id'' (PStr tid) enriched;
     text = json_dumps (PDict enriched)
   in if spawn_inline_writes_enabled (pd_getenv pe) then
        (case validate_write_target pe
            (pystr (por (pget enriched ''db_write_user_id'' PNone) (por (pget enriched ''user_id'' PNone) (PStr ''default''))))
            db_path (pystr (pget enriched ''tenant_id'' PNone)) of
           Some err \<Rightarrow> (Inl err, w)
         | None \<Rightarrow> execute_inline pe tid enriched text db_path w)
      else (case pd_redis pe of
           Some err \<Rightarrow> (Inl err, w)
         | None \<Rightarrow> (Inr tid, w\<lparr>wo_writer := (wo_writer w)\<lparr>wr_redis := lpush queue_name text (wr_redis (wo_writer w))\<rparr>\<rparr>)))"

definition enrich_typed :: "payload \<Rightarrow> string \<Rightarrow> string \<Rightarrow> payload" where
  "enrich_typed command db_path user_id = (let
     producer = PStr (str_or user_id ''default'');
     enriched = pset ''db_path'' (PStr db_path) command;
     enriched = (if strip (gstr enriched ''user_id'' []) \<noteq> [] then pset ''db_write_user_id'' producer enriched
       else pset ''db_write_user_id'' producer (pset ''user_id'' producer enriched))
   in pset ''tenant_id'' (por (pget enriched ''tenant_id'' PNone) (PStr (gstr command ''tenant_id'' ''default''))) enriched)"

definition enqueue_typed_command ::
  "'d producer_env \<Rightarrow> payload \<Rightarrow> string \<Rightarrow> string \<Rightarrow> string \<Rightarrow> 'd world \<Rightarrow> (py_error + string) \<times> 'd world" where
  "enqueue_typed_command pe command db_path user_id queue_name w =
     enqueue_enriched_payload pe (enrich_typed command db_path user_id) db_path queue_name w"

definition write_queue_name :: string where
  "write_queue_name = ''duckdb_write_queue''"

definition enqueue_admin_command :: "'d producer_env \<Rightarrow> payload \<Rightarrow> string \<Rightarrow> 'd world \<Rightarrow> (py_error + string) \<times> 'd world" where
  "enqueue_admin_command pe command user_id w = enqueue_typed_command pe command (pd_hub_path pe) user_id write_queue_name w"

definition enqueue_dict_command ::
  "'d producer_env \<Rightarrow> payload \<Rightarrow> string \<Rightarrow> string \<Rightarrow> string \<Rightarrow> string \<Rightarrow> 'd world \<Rightarrow> (py_error + string) \<times> 'd world" where
  "enqueue_dict_command pe command db_path user_id tenant_id queue_name w = (let
     producer = PStr (str_or (strip (str_or user_id ''default'')) ''default'');
     enriched = pset ''task_id'' (PStr (gstr command ''task_id'' (pd_uuid pe))) command;
     enriched = pset ''db_write_user_id'' producer (pset ''db_path'' (PStr db_path) enriched);
     enriched = (if strip (gstr enriched ''user_id'' []) = [] then pset ''user_id'' producer enriched else enriched);
     enriched = pset ''tenant_id'' (PStr (gstr enriched ''tenant_id'' (str_or tenant_id ''default''))) enriched
   in enqueue_enriched_payload pe enriched db_path queue_name w)"

text \<open>\<open>RawSqlCommand\<close> with the defaults of its base class.\<close>

definition raw_sql_command :: "string \<Rightarrow> string \<Rightarrow> pyval list \<Rightarrow> string \<Rightarrow> string \<Rightarrow> string \<Rightarrow> payload" where
  "raw_sql_command task_id query params db_path user_id tenant_id =
     [(''command_type'', PStr ''raw_sql''), (''command_version'', PInt 1), (''task_id'', PStr task_id), (''tenant_id'', PStr tenant_id),
      (''actor_email'', PStr ''system''), (''query'', PStr query), (''params'', PList params), (''db_path'', PStr db_path),
      (''user_id'', PStr user_id)]"

definition enqueue_duckdb_write_sync ::
  "'d producer_env \<Rightarrow> string \<Rightarrow> string \<Rightarrow> pyval list \<Rightarrow> string \<Rightarrow> string \<Rightarrow> string \<Rightarrow> string \<Rightarrow> 'd world \<Rightarrow> (py_error + string) \<times> 'd world" where
  "enqueue_duckdb_write_sync pe db_path query params user_id tenant_id task_id queue_name w = (let
     tid = str_or task_id (pd_uuid pe);
     tenant = str_or (strip (str_or tenant_id ''default'')) ''default''
   in case resolve_enqueue_user_id pe (str_or (strip (str_or user_id ''default'')) ''default'') (strip db_path) tenant of
        Inl err \<Rightarrow> (Inl err, w)
      | Inr uid \<Rightarrow> enqueue_typed_command pe (raw_sql_command tid query params db_path uid tenant) db_path uid queue_name w)"

datatype enqueued_command = No_command | Dict_command payload | Typed_command payload

definition enqueue_or_apply_duckdb_write_sync ::
  "'d producer_env \<Rightarrow> string \<Rightarrow> enqueued_command \<Rightarrow> string \<Rightarrow> pyval list \<Rightarrow> string \<Rightarrow> string \<Rightarrow> string \<Rightarrow> string \<Rightarrow> 'd world \<Rightarrow>
     (py_error + string) \<times> 'd world" where
  "enqueue_or_apply_duckdb_write_sync pe db_path command query params user_id tenant_id task_id queue_name w = (case command of
     Dict_command c \<Rightarrow> enqueue_dict_command pe c db_path user_id tenant_id queue_name w
   | Typed_command c \<Rightarrow> enqueue_typed_command pe c db_path user_id queue_name w
   | No_command \<Rightarrow> if query = [] then (Inl (ValueError ''query required when no typed command provided''), w)
       else enqueue_duckdb_write_sync pe db_path query params user_id tenant_id task_id queue_name w)"

subsection \<open>The old interface\<close>

definition is_write_sql :: "string \<Rightarrow> bool" where
  "is_write_sql sql \<longleftrightarrow> list_ex (\<lambda>prefix. startswith prefix (upper (strip sql)))
     [''INSERT'', ''UPDATE'', ''DELETE'', ''CREATE'', ''REPLACE'', ''ALTER'', ''DROP'', ''TRUNCATE'']"

definition legacy_default_db_path :: "'d producer_env \<Rightarrow> string option \<Rightarrow> string" where
  "legacy_default_db_path pe db_path = (let target = strip (case db_path of None \<Rightarrow> [] | Some p \<Rightarrow> p) in
     if target \<noteq> [] then target
     else let legacy = strip (case pd_getenv pe ''DUCKCLAW_DB_PATH'' of None \<Rightarrow> [] | Some v \<Rightarrow> v)
       in if legacy \<noteq> [] then pd_resolve pe legacy else pd_hub_path pe)"

definition enqueue_write :: "'d producer_env \<Rightarrow> string \<Rightarrow> string option \<Rightarrow> 'd world \<Rightarrow> bool \<times> 'd world" where
  "enqueue_write pe sql db_path w = (let query = strip sql in
     if query = [] \<or> \<not> is_write_sql query then (False, w)
     else case enqueue_duckdb_write_sync pe (legacy_default_db_path pe db_path) query [] ''default'' ''default'' []
         write_queue_name w of
       (Inl _, w) \<Rightarrow> (False, w)
     | (Inr _, w) \<Rightarrow> (True, w))"

text \<open>\<open>WriteQueueBridge.execute\<close>; \<open>own\<close> is the path of the wrapped connection, whose statement is executed directly.\<close>

definition bridge_direct :: "'d producer_env \<Rightarrow> string \<Rightarrow> string \<Rightarrow> 'd world \<Rightarrow> py_error option \<times> 'd world" where
  "bridge_direct pe own sql w = (let st = wo_writer w in case we_sql (pd_env pe) sql (PList []) (wr_files st own) of
     Inl err \<Rightarrow> (Some err, w)
   | Inr db \<Rightarrow> (None, w\<lparr>wo_writer := st\<lparr>wr_files := (wr_files st)(own := db)\<rparr>\<rparr>))"

definition bridge_execute ::
  "'d producer_env \<Rightarrow> string \<Rightarrow> string option \<Rightarrow> string \<Rightarrow> 'd world \<Rightarrow> py_error option \<times> 'd world" where
  "bridge_execute pe own db_path sql w =
     (if \<not> is_write_sql sql then bridge_direct pe own sql w
      else let (enqueued, w) = enqueue_write pe sql db_path w in
        if enqueued then (None, w)
        else if spawn_inline_writes_enabled (pd_getenv pe) then bridge_direct pe own sql w
        else (Some (RuntimeError ''DuckDB writes must be enqueued through duckclaw.db_write_queue''), w))"

text \<open>Connecting with retries: attempt \<open>i\<close> fails with \<open>pd_attempt pe i\<close>.\<close>

definition lock_error :: "py_error \<Rightarrow> bool" where
  "lock_error err \<longleftrightarrow> (let msg = lower (error_text err)
     in contains ''lock'' msg \<or> contains ''conflicting'' msg \<or> contains ''different configuration'' msg)"

function connect_from :: "(nat \<Rightarrow> py_error option) \<Rightarrow> nat \<Rightarrow> nat \<Rightarrow> py_error option" where
  "connect_from attempt attempts i = (case attempt i of
     None \<Rightarrow> None
   | Some err \<Rightarrow> if lock_error err \<and> i + 1 < attempts then connect_from attempt attempts (i + 1) else Some err)"
  by pat_completeness auto

termination
  by (relation "measure (\<lambda>(_, attempts, i). attempts - i)") auto

declare connect_from.simps [simp del]

definition apply_duckdb_write_sync ::
  "'d producer_env \<Rightarrow> string \<Rightarrow> string \<Rightarrow> pyval list \<Rightarrow> string \<Rightarrow> string \<Rightarrow> string \<Rightarrow> 'd world \<Rightarrow> (py_error + string) \<times> 'd world" where
  "apply_duckdb_write_sync pe db_path query params user_id tenant_id task_id w = (let
     tid = str_or task_id (pd_uuid pe); q = strip query; target = strip db_path;
     tenant = str_or (strip (str_or tenant_id ''default'')) ''default''
   in if q = [] then (Inl (ValueError ''No hay query SQL''), w)
      else if target = [] then (Inl (ValueError (''db_path vac'' @ [CHR 0xED] @ ''o'')), w)
      else case resolve_enqueue_user_id pe (str_or (strip (str_or user_id ''default'')) ''default'') target tenant of
        Inl err \<Rightarrow> (Inl err, w)
      | Inr uid \<Rightarrow> (case validate_write_target pe uid target tenant of
          Some err \<Rightarrow> (Inl err, w)
        | None \<Rightarrow> (case (case connect_from (pd_attempt pe) 12 0 of Some err \<Rightarrow> Inl err
            | None \<Rightarrow> we_sql (pd_env pe) q (PList params) (wr_files (wo_writer w) target)) of
            Inl err \<Rightarrow> (Inl err, publish_inline_task_status pe tid
              \<lparr>ts_status = ''failed'', ts_detail = Some (take 500 (error_text err))\<rparr> w)
          | Inr db \<Rightarrow> (Inr tid, publish_inline_task_status pe tid \<lparr>ts_status = ''success'', ts_detail = None\<rparr>
              (w\<lparr>wo_writer := (wo_writer w)\<lparr>wr_files := (wr_files (wo_writer w))(target := db)\<rparr>\<rparr>)))))"

subsection \<open>The two ways of executing a command\<close>

text \<open>The dictionary and the text a typed command is sent as.\<close>

definition sent_payload :: "'d producer_env \<Rightarrow> payload \<Rightarrow> string \<Rightarrow> string \<Rightarrow> payload" where
  "sent_payload pe command db_path user_id = (let enriched = enrich_typed command db_path user_id
     in pset ''task_id'' (PStr (gstr enriched ''task_id'' (pd_uuid pe))) enriched)"

lemma sent_fields:
  "pget (sent_payload pe c path u) ''db_path'' x = PStr path"
  "pget (sent_payload pe c path u) ''db_write_user_id'' x = PStr (str_or u ''default'')"
  "pget (sent_payload pe c path u) ''command_type'' x = pget c ''command_type'' x"
  "pget (sent_payload pe c path u) ''task_id'' x = PStr (gstr c ''task_id'' (pd_uuid pe))"
  "pget (sent_payload pe c path u) ''tenant_id'' x = por (pget c ''tenant_id'' PNone) (PStr (gstr c ''tenant_id'' ''default''))"
  by (simp_all add: sent_payload_def enrich_typed_def Let_def gstr_def)

lemma inline_txn_ledger:
  assumes "\<not> ledger_is_completed tid db" "strip (gstr p ''command_type'' []) \<noteq> ''raw_sql''"
  obtains (failed) e where "inline_txn ts (dispatch_body we) tid p dump db = (Some e, db)"
      "ledger_txn ts' (typed_body we (strip (gstr p ''command_type'' []))) tid ct p db = (Inl e, db)"
  | (committed) d db1 db2 p' where "inline_txn ts (dispatch_body we) tid p dump db = (None, db1)"
      "ledger_txn ts' (typed_body we (strip (gstr p ''command_type'' []))) tid ct p db = (Inr (Completed, p'), db2)"
      "db_data db1 = d" "db_data db2 = d" "ledger_is_completed tid db1"
proof (cases "dispatch_command (we_handlers we) p (db_data db)")
  case (Inl e)
  then show ?thesis using assms failed [of e]
    by (simp add: inline_txn_def ledger_txn_def dispatch_body_def typed_body_def contents_body_def)
next
  case (Inr r)
  obtain d p' where r: "r = (d, p')" by fastforce
  show ?thesis
  proof (cases "has_key lg_task tid (db_ledger db)")
    case True
    then show ?thesis using assms failed [of "ConstraintError ''Duplicate key''"] Inr r
      by (simp add: inline_txn_def ledger_txn_def dispatch_body_def typed_body_def contents_body_def
        ledger_insert_completed_def ins_row_def)
  next
    case False
    then have "ledger_is_completed tid (db\<lparr>db_data := d, db_ledger := db_ledger db @ [\<lparr>lg_task = tid,
        lg_type = t, lg_json = j, lg_status = ''completed'', lg_created = ts\<rparr>]\<rparr>)" for t j
      by (auto simp: ledger_is_completed_def sel_one_append sel_one_None has_key_iff split: option.split dest!: sel_one_Some)
    with False show ?thesis using assms committed Inr r
      by (simp add: inline_txn_def ledger_txn_def dispatch_body_def typed_body_def contents_body_def
        ledger_insert_completed_def ins_row_def)
  qed
qed

lemma prune_data [simp]: "db_data (wr_files (ledger_prune we path st) q) = db_data (wr_files st q)"
  by (simp add: ledger_prune_def Let_def)

lemma ready_transaction:
  assumes "we_connect we path = None" "we_migrate we (wr_files st path) = (None, db1)"
    "path \<in> set (wr_migrated st) \<Longrightarrow> db1 = wr_files st path"
  obtains st1 where "wr_files st1 = (wr_files st)(path := db1)"
    "run_transaction we body task ct p path st = (let (res, db) = ledger_txn (we_now we) body task ct p db1;
        st1 = st1\<lparr>wr_files := (wr_files st1)(path := db)\<rparr>
      in case res of Inr (Completed, _) \<Rightarrow> (res, ledger_prune we path st1) | _ \<Rightarrow> (res, st1))"
proof -
  define st1 where "st1 = snd (migrate_once we path st)"
  have "migrate_once we path st = (None, st1)" "wr_files st1 = (wr_files st)(path := db1)"
    using assms by (auto simp: st1_def migrate_once_def)
  then show ?thesis using that assms(1) by (simp add: run_transaction_def)
qed

lemma execute_inline_ready:
  assumes "we_connect (pd_env pe) path = None" "we_migrate (pd_env pe) (wr_files (wo_writer w) path) = (None, db1)"
    "inline_txn (we_now (pd_env pe)) (dispatch_body (pd_env pe)) tid p text db1 = (r, db)" "spawn_inline_writes_enabled (pd_getenv pe)"
  obtains w' where "execute_inline pe tid p text path w = (case r of None \<Rightarrow> Inr tid | Some e \<Rightarrow> Inl e, w')"
    "wr_files (wo_writer w') = (wr_files (wo_writer w))(path := db)"
    "wo_inline w' tid = Some (we_monotonic (pd_env pe) + 60, case r of None \<Rightarrow> \<lparr>ts_status = ''success'', ts_detail = None\<rparr>
      | Some e \<Rightarrow> \<lparr>ts_status = ''failed'', ts_detail = Some (take 500 (error_text e))\<rparr>)"
  using assms that
  by (cases r) (simp_all add: execute_inline_def publish_inline_task_status_def store_inline_task_status_def Let_def)

lemma typed_command_runs:
  assumes "we_loads we m = Some (PDict p)" "strip (gstr p ''command_type'' []) \<noteq> []"
    and "\<not> is_duplicate_task we (payload_task p) st"
    and "validate_target_db_path we (pystr (por (pget p ''db_write_user_id'' PNone) (por (pget p ''user_id'' PNone) (PStr ''default''))))
      (payload_target we p) (if gstr p ''tenant_id'' ''default'' \<noteq> ''default'' then Some (gstr p ''tenant_id'' ''default'') else None) = Inr u"
    and "run_transaction we (typed_body we (strip (gstr p ''command_type'' []))) (payload_task p)
      (strip (gstr p ''command_type'' [])) p (payload_target we p) st = (res, st1)"
    and "\<And>p'. res \<noteq> Inr (Already_completed, p')"
  shows "wr_files (execute_write we m st) = wr_files st1 \<and>
    answered we (payload_task p) (if isl res then ''failed'' else ''success'') (execute_write we m st)"
proof (cases res)
  case (Inl e)
  then show ?thesis using assms
    by (simp add: execute_write_def handle_typed_command_def run_typed_command_sync_def Let_def payload_task_def payload_target_def)
next
  case (Inr r)
  then obtain p' where "res = Inr (Completed, p')" using assms(6) by (cases r; cases "fst r") auto
  then show ?thesis using assms
    by (simp add: execute_write_def handle_typed_command_def run_typed_command_sync_def Let_def payload_task_def payload_target_def)
qed

text \<open>What the two producers of a command do before it is executed.\<close>

lemma both_producers:
  assumes "spawn_inline_writes_enabled (pd_getenv pe)" "\<not> spawn_inline_writes_enabled (pd_getenv pq)" "pd_redis pq = None"
    "pd_uuid pe = pd_uuid pq" "p = sent_payload pq c path user" "task = gstr c ''task_id'' (pd_uuid pq)"
    "validate_write_target pe (str_or user ''default'') path (pystr (pget p ''tenant_id'' PNone)) = None"
    "enqueue_typed_command pe c path user queue w = (r, wi)" "enqueue_typed_command pq c path user queue w = (s, wq)"
  shows "s = Inr task" "wo_writer wq = (wo_writer w)\<lparr>wr_redis := lpush queue (json_dumps (PDict p)) (wr_redis (wo_writer w))\<rparr>"
    "execute_inline pe task p (json_dumps (PDict p)) path w = (r, wi)"
proof -
  have uid: "pystr (por (pget p ''db_write_user_id'' PNone) x) = str_or user ''default''" for x
    by (simp add: assms(5) sent_fields por_def str_or_def)
  have sent: "pset ''task_id'' (PStr task) (enrich_typed c path user) = p" "gstr (enrich_typed c path user) ''task_id'' (pd_uuid pq) = task"
    using assms(6) by (simp_all add: assms(5) sent_payload_def enrich_typed_def Let_def gstr_def)
  show "s = Inr task" "wo_writer wq = (wo_writer w)\<lparr>wr_redis := lpush queue (json_dumps (PDict p)) (wr_redis (wo_writer w))\<rparr>"
    using assms(9,2,3) sent by (auto simp: enqueue_typed_command_def enqueue_enriched_payload_def Let_def)
  have e: "k \<noteq> ''task_id'' \<Longrightarrow> pget (enrich_typed c path user) k x = pget p k x" for k x
    using arg_cong [OF sent(1), of "\<lambda>d. pget d k x"] by simp
  show "execute_inline pe task p (json_dumps (PDict p)) path w = (r, wi)"
    using assms(8,1,4) sent uid assms(7) e by (simp add: enqueue_typed_command_def enqueue_enriched_payload_def Let_def)
qed

text \<open>
  C3. Executing a command in the producer's process and sending it through the queue to the db-writer do the same:
  for a typed command other than \<open>raw_sql\<close> with a target, whose target both checks accept, on a database that opens and
  whose migrations succeed, for a task that neither its ledger nor the Redis mark knows, the queued message is at the head
  of the queue, and handling it leaves every database with the contents the inline execution leaves, answers success exactly
  when the inline execution returns, and then the task is in both ledgers. The text of the message is assumed to decode to
  the dictionary it was dumped from. For a task that is known the two differ (\<open>inline_task_once\<close>).
\<close>

lemma inline_equals_queued:
  assumes "spawn_inline_writes_enabled (pd_getenv pe)" "\<not> spawn_inline_writes_enabled (pd_getenv pq)" "pd_redis pq = None"
    and env: "pd_env pe = we" "pd_env pq = we" "pd_uuid pe = pd_uuid pq"
    and p: "p = sent_payload pq c path user" "we_loads we (json_dumps (PDict p)) = Some (PDict p)"
    and c: "strip (gstr c ''command_type'' []) \<notin> {[], ''raw_sql''}" "path \<noteq> []" "task = gstr c ''task_id'' (pd_uuid pq)" "task \<noteq> []"
    and accepted: "validate_write_target pe (str_or user ''default'') path (pystr (pget p ''tenant_id'' PNone)) = None"
      "validate_target_db_path we (str_or user ''default'') path
        (if gstr p ''tenant_id'' ''default'' \<noteq> ''default'' then Some (gstr p ''tenant_id'' ''default'') else None) = Inr u"
    and ready: "we_connect we path = None" "we_migrate we (wr_files (wo_writer w) path) = (None, db1)"
      "path \<in> set (wr_migrated (wo_writer w)) \<Longrightarrow> db1 = wr_files (wo_writer w) path"
    and fresh: "\<not> ledger_is_completed task db1" "\<not> is_duplicate_task we task (wo_writer w)"
    and runs: "enqueue_typed_command pe c path user queue w = (r, wi)" "enqueue_typed_command pq c path user queue w = (s, wq)"
  shows "\<exists>m. s = Inr task \<and> rq_lists (wr_redis (wo_writer wq)) queue = m # rq_lists (wr_redis (wo_writer w)) queue \<and>
    (\<forall>f. db_data (wr_files (execute_write we m (wo_writer wq)) f) = db_data (wr_files (wo_writer wi) f)) \<and>
    (if isl r then answered we task ''failed'' (execute_write we m (wo_writer wq))
     else answered we task ''success'' (execute_write we m (wo_writer wq)) \<and>
       ledger_is_completed task (wr_files (execute_write we m (wo_writer wq)) path) \<and>
       ledger_is_completed task (wr_files (wo_writer wi) path))"
proof -
  let ?m = "json_dumps (PDict p)" and ?ct = "strip (gstr p ''command_type'' [])"
  note f = sent_fields [of pq c path user, folded p(1)]
  have t: "payload_task p = task" "payload_target we p = path" "?ct = strip (gstr c ''command_type'' [])"
    using c by (simp_all add: payload_task_def payload_target_def gstr_def f por_def)
  have uid: "pystr (por (pget p ''db_write_user_id'' PNone) x) = str_or user ''default''" for x
    by (simp add: f por_def str_or_def)
  note both = both_producers [OF assms(1-3) env(3) p(1) c(3) accepted(1) runs]
  note wq = both(1,2) and wi = both(3)
  obtain st1 where st1: "wr_files st1 = (wr_files (wo_writer wq))(path := db1)"
    "run_transaction we (typed_body we ?ct) task ?ct p path (wo_writer wq) = (let (res, db) = ledger_txn (we_now we) (typed_body we ?ct) task ?ct p db1;
        st1 = st1\<lparr>wr_files := (wr_files st1)(path := db)\<rparr>
      in case res of Inr (Completed, _) \<Rightarrow> (res, ledger_prune we path st1) | _ \<Rightarrow> (res, st1))"
    using ready wq(2) by (elim ready_transaction [of we path "wo_writer wq" db1]) auto
  have dup: "\<not> is_duplicate_task we (payload_task p) (wo_writer wq)" using fresh(2) wq(2) t by (simp add: is_duplicate_task_def)
  note run = typed_command_runs [OF p(2) _ dup, unfolded t uid, OF _ accepted(2)]
  have good: "answered we task ''success'' (execute_write we ?m (wo_writer wq)) \<Longrightarrow>
      ledger_is_completed task (wr_files (execute_write we ?m (wo_writer wq)) path)"
    using execute_write_answer [OF p(2), of "wo_writer wq"] dup t by (auto simp: good_answer_def dest: answered_unique)
  have head: "rq_lists (wr_redis (wo_writer wq)) queue = ?m # rq_lists (wr_redis (wo_writer w)) queue"
    using wq(2) by (simp add: lpush_def)
  have ct: "strip (gstr c ''command_type'' []) \<noteq> []" "?ct \<noteq> ''raw_sql''" using c(1) t(3) by auto
  from fresh(1) ct(2) show ?thesis
  proof (cases rule: inline_txn_ledger [where ts = "we_now we" and ts' = "we_now we" and we = we and dump = ?m and ct = ?ct])
    case (failed e)
    obtain w' where "execute_inline pe task p ?m path w = (Inl e, w')" "wr_files (wo_writer w') = (wr_files (wo_writer w))(path := db1)"
      using execute_inline_ready [of pe path w db1 task p ?m "Some e" db1] ready env failed(1) assms(1) by auto
    then have i: "r = Inl e" "wr_files (wo_writer wi) = (wr_files (wo_writer w))(path := db1)" using wi by auto
    have "run_transaction we (typed_body we ?ct) task ?ct p path (wo_writer wq) = (Inl e, st1\<lparr>wr_files := (wr_files st1)(path := db1)\<rparr>)"
      using st1(2) failed(2) by simp
    from run [OF _ this [unfolded t(3)]] ct(1) have "wr_files (execute_write we ?m (wo_writer wq)) = (wr_files st1)(path := db1)"
      "answered we task ''failed'' (execute_write we ?m (wo_writer wq))" by simp_all
    with i st1(1) wq head show ?thesis by (intro exI [of _ ?m]) simp
  next
    case (committed d dbi dbq p')
    obtain w' where "execute_inline pe task p ?m path w = (Inr task, w')" "wr_files (wo_writer w') = (wr_files (wo_writer w))(path := dbi)"
      using execute_inline_ready [of pe path w db1 task p ?m None dbi] ready env committed(1) assms(1) by auto
    then have i: "r = Inr task" "wr_files (wo_writer wi) = (wr_files (wo_writer w))(path := dbi)" using wi by auto
    have "run_transaction we (typed_body we ?ct) task ?ct p path (wo_writer wq) =
        (Inr (Completed, p'), ledger_prune we path (st1\<lparr>wr_files := (wr_files st1)(path := dbq)\<rparr>))"
      using st1(2) committed(2) by simp
    from run [OF _ this [unfolded t(3)]] ct(1) have x: "wr_files (execute_write we ?m (wo_writer wq)) =
        wr_files (ledger_prune we path (st1\<lparr>wr_files := (wr_files st1)(path := dbq)\<rparr>))"
      "answered we task ''success'' (execute_write we ?m (wo_writer wq))" by simp_all
    with i st1(1) wq head committed(3-5) good show ?thesis by (intro exI [of _ ?m]) simp
  qed
qed

definition demo_command :: payload where
  "demo_command = [(''command_type'', PStr ''add''), (''task_id'', PStr ''t1''), (''x'', PStr ''a'')]"

definition demo_sent :: payload where
  "demo_sent = pset ''task_id'' (PStr ''t1'') (enrich_typed demo_command ''/r/db/a.duckdb'' ''default'')"

definition demo_text :: string where
  "demo_text = json_dumps (PDict demo_sent)"

definition producer_env0 :: "bool \<Rightarrow> string list producer_env" where
  "producer_env0 inline = \<lparr>pd_env = writer_demo_env\<lparr>we_loads := [demo_text \<mapsto> PDict demo_sent]\<rparr>,
     pd_getenv = (if inline then [''LITE_MODE'' \<mapsto> ''on''] else Map.empty), pd_uuid = ''u1'', pd_redis = None, pd_resolve = (\<lambda>p. p),
     pd_hub_path = ''/r/db/a.duckdb'', pd_attempt = (\<lambda>_. None)\<rparr>"

definition world0 :: "string list world" where
  "world0 = \<lparr>wo_writer = writer_demo, wo_inline = (\<lambda>_. None)\<rparr>"

lemma inline_equals_queued_witness:
  "\<exists>wi wq m. enqueue_typed_command (producer_env0 True) demo_command ''/r/db/a.duckdb'' ''default'' ''q'' world0 = (Inr ''t1'', wi) \<and>
     enqueue_typed_command (producer_env0 False) demo_command ''/r/db/a.duckdb'' ''default'' ''q'' world0 = (Inr ''t1'', wq) \<and>
     rq_lists (wr_redis (wo_writer wq)) ''q'' = [m] \<and> db_data (wr_files (wo_writer wi) ''/r/db/a.duckdb'') = [''a''] \<and>
     db_data (wr_files (execute_write (pd_env (producer_env0 False)) m (wo_writer wq)) ''/r/db/a.duckdb'') = [''a'']"
proof -
  let ?we = "pd_env (producer_env0 False)" and ?p = "''/r/db/a.duckdb''"
  let ?i = "enqueue_typed_command (producer_env0 True) demo_command ?p ''default'' ''q'' world0"
  let ?q = "enqueue_typed_command (producer_env0 False) demo_command ?p ''default'' ''q'' world0"
  have e: "spawn_inline_writes_enabled (pd_getenv (producer_env0 True))" "\<not> spawn_inline_writes_enabled (pd_getenv (producer_env0 False))"
    by code_simp+
  have n: "pd_redis (producer_env0 False) = None" "pd_env (producer_env0 True) = ?we" "pd_uuid (producer_env0 True) = pd_uuid (producer_env0 False)"
    by (simp_all add: producer_env0_def)
  have t: "''t1'' = gstr demo_command ''task_id'' (pd_uuid (producer_env0 False))" by code_simp
  have "gstr (enrich_typed demo_command ?p ''default'') ''task_id'' (pd_uuid (producer_env0 False)) = ''t1''" by code_simp
  then have p: "demo_sent = sent_payload (producer_env0 False) demo_command ?p ''default''"
    by (simp add: demo_sent_def sent_payload_def Let_def)
  have l: "we_loads ?we (json_dumps (PDict demo_sent)) = Some (PDict demo_sent)" by (simp add: producer_env0_def flip: demo_text_def)
  have c: "strip (gstr demo_command ''command_type'' []) \<notin> {[], ''raw_sql''}" "?p \<noteq> []" "''t1'' \<noteq> []" by code_simp+
  have "validate_write_target (producer_env0 True) (str_or ''default'' ''default'') ?p (pystr (pget demo_sent ''tenant_id'' PNone)) = None"
    by code_simp
  moreover have "validate_target_db_path ?we (str_or ''default'' ''default'') ?p (if gstr demo_sent ''tenant_id'' ''default'' \<noteq> ''default''
      then Some (gstr demo_sent ''tenant_id'' ''default'') else None) = Inr ''default''" by code_simp
  moreover have "we_connect ?we ?p = None" "we_migrate ?we (wr_files (wo_writer world0) ?p) = (None, wr_files (wo_writer world0) ?p)"
    "\<not> ledger_is_completed ''t1'' (wr_files (wo_writer world0) ?p)" "\<not> is_duplicate_task ?we ''t1'' (wo_writer world0)"
    by (simp_all add: producer_env0_def writer_demo_env_def world0_def writer_demo_def ledger_is_completed_def is_duplicate_task_def)
  ultimately obtain m where m: "fst ?q = Inr ''t1''" "rq_lists (wr_redis (wo_writer (snd ?q))) ''q'' = m # rq_lists (wr_redis (wo_writer world0)) ''q''"
    "\<forall>f. db_data (wr_files (execute_write ?we m (wo_writer (snd ?q))) f) = db_data (wr_files (wo_writer (snd ?i)) f)"
    using inline_equals_queued [OF e n(1,2) refl n(3) p l c(1,2) t c(3) _ _ _ _ refl _ _ surjective_pairing surjective_pairing] by blast
  have x: "isl (fst ?i) = False" "projr (fst ?i) = ''t1''" "db_data (wr_files (wo_writer (snd ?i)) ?p) = [''a'']" by code_simp+
  have i: "?i = (Inr ''t1'', snd ?i)" using projr_eqI [OF x(1,2)] by (rule fst_eqI)
  have q: "?q = (Inr ''t1'', snd ?q)" using m(1) by (rule fst_eqI)
  have "rq_lists (wr_redis (wo_writer world0)) ''q'' = []" by (simp add: world0_def writer_demo_def)
  with m(2) have h: "rq_lists (wr_redis (wo_writer (snd ?q))) ''q'' = [m]" by simp
  have "db_data (wr_files (execute_write ?we m (wo_writer (snd ?q))) ?p) = [''a'']" using m(3) x(3) by simp
  with i q h x(3) show ?thesis by (intro exI conjI)
qed

text \<open>
  In the producer's process, too, a task runs once: a typed command whose task is already in the ledger raises,
  and but for the migrations no database changes; its status then reads failed, although the task is done.
\<close>

lemma inline_task_once:
  assumes "spawn_inline_writes_enabled (pd_getenv pe)" "strip (gstr c ''command_type'' []) \<noteq> ''raw_sql''"
    and "validate_write_target pe (str_or user ''default'') path (pystr (pget (sent_payload pe c path user) ''tenant_id'' PNone)) = None"
    and "we_connect (pd_env pe) path = None" "we_migrate (pd_env pe) (wr_files (wo_writer w) path) = (None, db1)"
    and "has_key lg_task (gstr c ''task_id'' (pd_uuid pe)) (db_ledger db1)"
  shows "\<exists>e w' t d. enqueue_typed_command pe c path user queue w = (Inl e, w') \<and>
    wr_files (wo_writer w') = (wr_files (wo_writer w))(path := db1) \<and>
    wo_inline w' (gstr c ''task_id'' (pd_uuid pe)) = Some (t, \<lparr>ts_status = ''failed'', ts_detail = Some d\<rparr>)"
proof -
  let ?p = "sent_payload pe c path user" and ?task = "gstr c ''task_id'' (pd_uuid pe)"
  note f = sent_fields [of pe c path user]
  have ct: "strip (gstr ?p ''command_type'' []) \<noteq> ''raw_sql''" using assms(2) by (simp add: gstr_def f)
  obtain e where e: "inline_txn (we_now (pd_env pe)) (dispatch_body (pd_env pe)) ?task ?p (json_dumps (PDict ?p)) db1 = (Some e, db1)"
  proof (cases "dispatch_command (we_handlers (pd_env pe)) ?p (db_data db1)")
    case (Inl e)
    then show ?thesis using ct that [of e] by (simp add: inline_txn_def dispatch_body_def contents_body_def)
  next
    case (Inr r)
    then show ?thesis using ct assms(6) that [of "ConstraintError ''Duplicate key''"]
      by (cases r) (simp add: inline_txn_def dispatch_body_def contents_body_def ledger_insert_completed_def ins_row_def)
  qed
  obtain w' where w': "execute_inline pe ?task ?p (json_dumps (PDict ?p)) path w = (Inl e, w')"
      "wr_files (wo_writer w') = (wr_files (wo_writer w))(path := db1)"
      "wo_inline w' ?task = Some (we_monotonic (pd_env pe) + 60, \<lparr>ts_status = ''failed'', ts_detail = Some (take 500 (error_text e))\<rparr>)"
    using execute_inline_ready [OF assms(4,5) e assms(1)] by auto
  have "gstr (enrich_typed c path user) ''task_id'' (pd_uuid pe) = ?task" by (simp add: enrich_typed_def Let_def gstr_def)
  then have s: "pset ''task_id'' (PStr ?task) (enrich_typed c path user) = ?p" by (simp add: sent_payload_def Let_def)
  have g: "k \<noteq> ''task_id'' \<Longrightarrow> pget (enrich_typed c path user) k x = pget ?p k x" for k x
    using arg_cong [OF s, of "\<lambda>d. pget d k x"] by simp
  have "pystr (por (pget ?p ''db_write_user_id'' PNone) x) = str_or user ''default''" for x by (simp add: f por_def str_or_def)
  then have "enqueue_typed_command pe c path user queue w = (Inl e, w')"
    using w'(1) assms(1,3) s g \<open>gstr (enrich_typed c path user) ''task_id'' (pd_uuid pe) = ?task\<close>
    by (simp add: enqueue_typed_command_def enqueue_enriched_payload_def Let_def)
  with w' show ?thesis by blast
qed

lemma inline_task_once_witness:
  "\<exists>w e w'. db_ledger (wr_files (wo_writer w) ''/r/db/a.duckdb'') = [\<lparr>lg_task = ''t1'', lg_type = ''add'', lg_json = [],
       lg_status = ''completed'', lg_created = 3\<rparr>] \<and>
     enqueue_typed_command (producer_env0 True) demo_command ''/r/db/a.duckdb'' ''default'' ''q'' w = (Inl e, w') \<and>
     wr_files (wo_writer w') = wr_files (wo_writer w)"
proof -
  let ?db = "\<lparr>db_data = [''a''], db_ledger = [\<lparr>lg_task = ''t1'', lg_type = ''add'', lg_json = [], lg_status = ''completed'', lg_created = 3\<rparr>]\<rparr>"
  let ?pe = "producer_env0 True" and ?p = "''/r/db/a.duckdb''"
  define w where "w = world0\<lparr>wo_writer := writer_demo\<lparr>wr_files := (\<lambda>_. ?db)\<rparr>\<rparr>"
  have e: "spawn_inline_writes_enabled (pd_getenv ?pe)" "strip (gstr demo_command ''command_type'' []) \<noteq> ''raw_sql''" by code_simp+
  have v: "validate_write_target ?pe (str_or ''default'' ''default'') ?p
      (pystr (pget (sent_payload ?pe demo_command ?p ''default'') ''tenant_id'' PNone)) = None" by code_simp
  have m: "we_connect (pd_env ?pe) ?p = None" "we_migrate (pd_env ?pe) (wr_files (wo_writer w) ?p) = (None, ?db)"
    by (simp_all add: producer_env0_def writer_demo_env_def w_def)
  have "gstr demo_command ''task_id'' (pd_uuid ?pe) = ''t1''" by code_simp
  then have k: "has_key lg_task (gstr demo_command ''task_id'' (pd_uuid ?pe)) (db_ledger ?db)" by (simp add: has_key_def)
  have f: "wr_files (wo_writer w) = (wr_files (wo_writer w))(?p := ?db)" by (auto simp: w_def)
  from inline_task_once [OF e v m k, of "''q''"] obtain x w' where
    "enqueue_typed_command ?pe demo_command ?p ''default'' ''q'' w = (Inl x, w')" "wr_files (wo_writer w') = wr_files (wo_writer w)"
    unfolding f [symmetric] by blast
  moreover have "db_ledger (wr_files (wo_writer w) ?p) =
      [\<lparr>lg_task = ''t1'', lg_type = ''add'', lg_json = [], lg_status = ''completed'', lg_created = 3\<rparr>]" by (simp add: w_def)
  ultimately show ?thesis by (intro exI conjI)
qed

text \<open>
  Outside the Spawn profile the bridge never executes a writing statement itself: no database changes, and the
  statement is either put on the queue as one message or refused with the state unchanged.
\<close>

lemma bridge_routes_writes:
  assumes "\<not> spawn_inline_writes_enabled (pd_getenv pe)" "is_write_sql sql" "bridge_execute pe own db_path sql w = (r, w')"
  shows "wr_files (wo_writer w') = wr_files (wo_writer w) \<and> wo_inline w' = wo_inline w \<and>
    (r = None \<and> (\<exists>m. wo_writer w' = (wo_writer w)\<lparr>wr_redis := lpush write_queue_name m (wr_redis (wo_writer w))\<rparr>) \<or>
     (\<exists>s. r = Some (RuntimeError s)) \<and> w' = w)"
proof -
  have q: "case r of Inl e \<Rightarrow> w1 = w | Inr t \<Rightarrow> \<exists>m. w1 = w\<lparr>wo_writer := (wo_writer w)\<lparr>wr_redis := lpush qn m (wr_redis (wo_writer w))\<rparr>\<rparr>"
    if "enqueue_duckdb_write_sync pe path q ps u t tid qn w = (r, w1)" for path q ps u t tid qn r w1
  proof (cases "resolve_enqueue_user_id pe (str_or (strip (str_or u ''default'')) ''default'') (strip path)
      (str_or (strip (str_or t ''default'')) ''default'')")
    case (Inl err)
    then have "r = Inl err \<and> w1 = w" using that by (simp add: enqueue_duckdb_write_sync_def Let_def)
    then show ?thesis by simp
  next
    case (Inr uid)
    then show ?thesis using that assms(1)
      by (auto simp: enqueue_duckdb_write_sync_def enqueue_typed_command_def enqueue_enriched_payload_def Let_def split: option.split_asm)
  qed
  obtain e w1 where e: "enqueue_write pe sql db_path w = (e, w1)" by fastforce
  have "w1 = w \<and> \<not> e \<or> (\<exists>m. w1 = w\<lparr>wo_writer := (wo_writer w)\<lparr>wr_redis := lpush write_queue_name m (wr_redis (wo_writer w))\<rparr>\<rparr> \<and> e)"
    using e unfolding enqueue_write_def Let_def
    by (auto split: if_split_asm prod.split_asm sum.split_asm dest!: q)
  with assms e show ?thesis by (auto simp: bridge_execute_def split: if_split_asm)
qed

lemma bridge_routes_writes_witness:
  "\<exists>w' m. bridge_execute (producer_env0 False) ''/r/db/a.duckdb'' (Some ''/r/db/a.duckdb'') '' insert into t'' world0 = (None, w') \<and>
     rq_lists (wr_redis (wo_writer w')) write_queue_name = [m] \<and> wr_files (wo_writer w') = wr_files (wo_writer world0)"
proof -
  let ?b = "bridge_execute (producer_env0 False) ''/r/db/a.duckdb'' (Some ''/r/db/a.duckdb'') '' insert into t'' world0"
  have e: "\<not> spawn_inline_writes_enabled (pd_getenv (producer_env0 False))" "is_write_sql '' insert into t''" by code_simp+
  have n: "fst ?b = None" by code_simp
  have b: "?b = (None, snd ?b)" by (rule fst_eqI [OF n])
  have w: "rq_lists (wr_redis (wo_writer world0)) write_queue_name = []" by (simp add: world0_def writer_demo_def)
  from bridge_routes_writes [OF e b] obtain m where
    "wo_writer (snd ?b) = (wo_writer world0)\<lparr>wr_redis := lpush write_queue_name m (wr_redis (wo_writer world0))\<rparr>" by auto
  then have "rq_lists (wr_redis (wo_writer (snd ?b))) write_queue_name = [m]" "wr_files (wo_writer (snd ?b)) = wr_files (wo_writer world0)"
    using w by (simp_all add: lpush_def)
  with b show ?thesis by (intro exI conjI)
qed

text \<open>
  The producer's grant check fails open where the db-writer's fails closed: when the grants cannot be read (any
  exception but \<open>ValueError\<close>), a path in the shared tree that resolves for the user is accepted for execution in the
  producer's process, and refused by the db-writer.
\<close>

lemma grant_check_fails_open:
  assumes "we_acl (pd_env pe) = Inl e" "\<And>s. e \<noteq> ValueError s" "path_is_under_shared_tree (we_paths (pd_env pe)) target"
    and "resolve_user_id_for_db_path (we_paths (pd_env pe)) user target (Some tenant) = Some u" "tenant \<noteq> []"
  shows "validate_write_target pe user target tenant = None \<and>
    (\<exists>err. validate_target_db_path (pd_env pe) user target (Some tenant) = Inl err)"
  using assms by (cases e) (auto simp: validate_write_target_def resolve_enqueue_user_id_def legacy_acl_check_def
    validate_target_db_path_def typed_acl_check_def)

lemma grant_check_fails_open_witness:
  "\<exists>(pe :: string list producer_env) err. validate_write_target pe ''ana'' ''/r/db/shared/t1/x.duckdb'' ''t1'' = None \<and>
     validate_target_db_path (pd_env pe) ''ana'' ''/r/db/shared/t1/x.duckdb'' (Some ''t1'') = Inl err"
proof -
  define pe where "pe = (producer_env0 True)\<lparr>pd_env := writer_demo_env\<lparr>we_acl := Inl (RuntimeError ''lock'')\<rparr>\<rparr>"
  have a: "we_acl (pd_env pe) = Inl (RuntimeError ''lock'')" "\<And>s. RuntimeError ''lock'' \<noteq> ValueError s" by (simp_all add: pe_def)
  have "path_is_under_shared_tree path_env0 ''/r/db/shared/t1/x.duckdb''"
    "resolve_user_id_for_db_path path_env0 ''ana'' ''/r/db/shared/t1/x.duckdb'' (Some ''t1'') = Some ''ana''" by code_simp+
  moreover have "we_paths (pd_env pe) = path_env0" by (simp add: pe_def writer_demo_env_def)
  ultimately have "validate_write_target pe ''ana'' ''/r/db/shared/t1/x.duckdb'' ''t1'' = None \<and>
      (\<exists>err. validate_target_db_path (pd_env pe) ''ana'' ''/r/db/shared/t1/x.duckdb'' (Some ''t1'') = Inl err)"
    by (intro grant_check_fails_open [OF a]) simp_all
  then show ?thesis by blast
qed

end
