(* ===== verification/IntegrationCatalog.thy ===== *)
theory IntegrationCatalog
  imports PyVal
begin

text \<open>
  The catalogue of integration secrets (\<open>packages/shared/src/duckclaw/integration_catalog.py\<close>): the pack, a decoded
  JSON file, is validated once and then read as a list of entries, one per secret; the rest of the program finds an
  entry by its id or by its setting key. The file itself is a parameter: \<open>None\<close> when it is missing.
\<close>

subsection \<open>Entries\<close>

record catalog_entry =
  ic_id :: string
  ic_key :: string
  ic_label :: string
  ic_desc :: string
  ic_env_keys :: "string list"
  ic_skills :: "string list"
  ic_docs :: string
  ic_scope :: string
  ic_group :: string
  ic_group_title :: string
  ic_group_desc :: string
  ic_group_sort :: int

definition normalize_integration_id :: "string \<Rightarrow> string" where
  "normalize_integration_id v = replace_char (CHR ''-'') ''_'' (lower (strip v))"

definition key_char :: "char \<Rightarrow> bool" where
  "key_char c \<longleftrightarrow> 97 \<le> code c \<and> code c \<le> 122 \<or> is_digit c \<or> c = CHR ''_''"

text \<open>The regular expression of setting keys: a vendor of word characters, a dot and one of five words.\<close>

definition setting_key_ok :: "string \<Rightarrow> bool" where
  "setting_key_ok s \<longleftrightarrow> (case split_char (CHR ''.'') s of
     [vendor, what] \<Rightarrow> vendor \<noteq> [] \<and> list_all key_char vendor \<and>
       what \<in> {''api_key'', ''token'', ''secret'', ''username'', ''password''}
   | _ \<Rightarrow> False)"

definition entry_id :: "payload \<Rightarrow> string" where
  "entry_id raw = normalize_integration_id (gstr raw ''id'' [])"

definition entry_key :: "payload \<Rightarrow> string" where
  "entry_key raw = lower (strip (gstr raw ''setting_key'' []))"

definition entry_scope :: "payload \<Rightarrow> string" where
  "entry_scope raw = lower (strip (gstr raw ''default_scope'' ''tenant''))"

subsection \<open>Validation\<close>

text \<open>\<open>seen\<close>: the ids and the setting keys met so far. The text of the error about the pattern of keys is shortened.\<close>

definition validate_integration :: "pyval \<Rightarrow> string list \<times> string list \<Rightarrow> py_error + string list \<times> string list" where
  "validate_integration raw seen = (case (raw, seen) of
     (PDict d, (seen_ids, seen_keys)) \<Rightarrow> (let i = entry_id d; k = entry_key d in
       if i = [] then Inl (ValueError ''integration.id is required'')
       else if k = [] then Inl (ValueError (''integration '' @ i @ '': setting_key is required''))
       else if \<not> setting_key_ok k then Inl (ValueError (''integration '' @ i @ '': setting_key must look like vendor.api_key''))
       else if i \<in> set seen_ids then Inl (ValueError (''duplicate integration id: '' @ i))
       else if k \<in> set seen_keys then Inl (ValueError (''duplicate setting_key: '' @ k))
       else if entry_scope d \<notin> {''tenant'', ''global'', ''actor''}
         then Inl (ValueError (''integration '' @ i @ '': invalid default_scope '' @ entry_scope d))
       else Inr (i # seen_ids, k # seen_keys))
   | _ \<Rightarrow> Inl (ValueError ''each integration must be an object''))"

definition validate_group :: "pyval \<Rightarrow> string list \<times> string list \<Rightarrow> py_error + string list \<times> string list" where
  "validate_group grp seen = (case grp of
     PDict g \<Rightarrow> (case por (pget g ''integrations'' PNone) (PList []) of
         PList integrations \<Rightarrow> forE validate_integration integrations seen
       | _ \<Rightarrow> Inl (ValueError ''group.integrations must be an array''))
   | _ \<Rightarrow> Inl (ValueError ''each group must be an object''))"

definition validate_integration_secrets_pack :: "pyval \<Rightarrow> py_error + string list \<times> string list" where
  "validate_integration_secrets_pack data = (case data of
     PDict d \<Rightarrow> (case pget d ''groups'' PNone of
         PList (g # gs) \<Rightarrow> forE validate_group (g # gs) ([], [])
       | _ \<Rightarrow> Inl (ValueError ''integration secrets pack requires non-empty groups''))
   | _ \<Rightarrow> Inl (ValueError ''integration secrets pack must be a JSON object''))"

definition load_integration_secrets_pack :: "pyval option \<Rightarrow> py_error + payload" where
  "load_integration_secrets_pack file = (case file of
     None \<Rightarrow> Inl (FileNotFoundError ''integration secrets pack not found'')
   | Some data \<Rightarrow> bindE (validate_integration_secrets_pack data) (\<lambda>_. Inr (pdict_or_empty data)))"

subsection \<open>The entries of a pack\<close>

fun mapE :: "('a \<Rightarrow> py_error + 'b) \<Rightarrow> 'a list \<Rightarrow> py_error + 'b list" where
  "mapE f [] = Inr []"
| "mapE f (x # xs) = bindE (f x) (\<lambda>y. bindE (mapE f xs) (\<lambda>ys. Inr (y # ys)))"

definition stripped_items :: "pyval \<Rightarrow> py_error + string list" where
  "stripped_items v = bindE (py_list (por v (PList []))) (\<lambda>items.
     Inr (filter (\<lambda>s. s \<noteq> []) (map (\<lambda>i. strip (pystr i)) items)))"

text \<open>The entry of one integration of the group \<open>g\<close>; an object without id or key, and anything else, is skipped.\<close>

definition catalog_entry_of :: "payload \<Rightarrow> pyval \<Rightarrow> py_error + catalog_entry list" where
  "catalog_entry_of g raw = (case raw of
     PDict d \<Rightarrow> (let i = entry_id d; k = entry_key d; gid = strip (gstr g ''id'' []); scope = entry_scope d in
       if i = [] \<or> k = [] then Inr []
       else bindE (stripped_items (pget d ''env_keys'' PNone)) (\<lambda>env_keys.
         bindE (stripped_items (pget d ''related_skills'' PNone)) (\<lambda>skills.
         Inr [\<lparr>ic_id = i, ic_key = k, ic_label = strip (gstr d ''label'' i), ic_desc = strip (gstr d ''description'' []),
           ic_env_keys = env_keys, ic_skills = map normalize_integration_id skills, ic_docs = strip (gstr d ''docs_url'' []),
           ic_scope = (if scope \<in> {''tenant'', ''global'', ''actor''} then scope else ''tenant''),
           ic_group = gid, ic_group_title = strip (gstr g ''title'' gid), ic_group_desc = strip (gstr g ''description'' []),
           ic_group_sort = (case pyint (por (pget g ''sort_order'' PNone) (PInt 0)) of Inl _ \<Rightarrow> 0 | Inr n \<Rightarrow> n)\<rparr>])))
   | _ \<Rightarrow> Inr [])"

definition group_entries :: "pyval \<Rightarrow> py_error + catalog_entry list" where
  "group_entries grp = (case grp of
     PDict g \<Rightarrow> (case por (pget g ''integrations'' PNone) (PList []) of
         PList integrations \<Rightarrow> bindE (mapE (catalog_entry_of g) integrations) (\<lambda>ess. Inr (concat ess))
       | _ \<Rightarrow> Inr [])
   | _ \<Rightarrow> Inr [])"

definition list_integration_catalog_entries :: "pyval option \<Rightarrow> py_error + catalog_entry list" where
  "list_integration_catalog_entries file = bindE (load_integration_secrets_pack file) (\<lambda>pack.
     bindE (py_list (por (pget pack ''groups'' PNone) (PList []))) (\<lambda>groups.
     bindE (mapE group_entries groups) (\<lambda>ess. Inr (concat ess))))"

text \<open>\<open>integration_catalog_by_id\<close> is a dictionary: of two entries with an id the later one stays.\<close>

definition get_integration_catalog_entry :: "catalog_entry list \<Rightarrow> string \<Rightarrow> catalog_entry option" where
  "get_integration_catalog_entry entries integration_id =
     map_of (rev (map (\<lambda>e. (ic_id e, e)) entries)) (normalize_integration_id integration_id)"

definition integration_entry_for_setting_key :: "catalog_entry list \<Rightarrow> string \<Rightarrow> catalog_entry option" where
  "integration_entry_for_setting_key entries setting_key =
     List.find (\<lambda>e. ic_key e = lower (strip setting_key)) entries"

subsection \<open>A validated catalogue\<close>

text \<open>Validation and reading walk the pack alike: the ids and keys seen are those of the entries read so far.\<close>

definition seen_after :: "catalog_entry list \<Rightarrow> string list \<times> string list \<Rightarrow> string list \<times> string list" where
  "seen_after es seen = (rev (map ic_id es) @ fst seen, rev (map ic_key es) @ snd seen)"

lemma seen_after_Nil [simp]: "seen_after [] seen = seen"
  by (simp add: seen_after_def)

lemma seen_after_append: "seen_after (es @ fs) seen = seen_after fs (seen_after es seen)"
  by (simp add: seen_after_def)

definition entry_ok :: "catalog_entry \<Rightarrow> bool" where
  "entry_ok e \<longleftrightarrow> ic_id e \<noteq> [] \<and> setting_key_ok (ic_key e) \<and> ic_scope e \<in> {''tenant'', ''global'', ''actor''} \<and>
     [] \<notin> set (ic_env_keys e)"

definition seen_ok :: "string list \<times> string list \<Rightarrow> bool" where
  "seen_ok seen \<longleftrightarrow> distinct (fst seen) \<and> distinct (snd seen)"

lemma stripped_items_nonempty: "stripped_items v = Inr xs \<Longrightarrow> [] \<notin> set xs"
  by (auto simp: stripped_items_def)

definition agrees :: "(string list \<times> string list \<Rightarrow> py_error + string list \<times> string list) \<Rightarrow> (py_error + catalog_entry list) \<Rightarrow> bool" where
  "agrees check read \<longleftrightarrow> (\<forall>seen seen' es. check seen = Inr seen' \<longrightarrow> read = Inr es \<longrightarrow>
     seen' = seen_after es seen \<and> (\<forall>e \<in> set es. entry_ok e) \<and> (seen_ok seen \<longrightarrow> seen_ok seen'))"

lemma agreesD:
  assumes "agrees check read" "check seen = Inr seen'" "read = Inr es"
  shows "seen' = seen_after es seen" "\<forall>e \<in> set es. entry_ok e" "seen_ok seen \<Longrightarrow> seen_ok seen'"
  using assms unfolding agrees_def by blast+

lemma integration_agrees: "agrees (validate_integration raw) (catalog_entry_of g raw)"
proof (cases raw)
  case (PDict d)
  then show ?thesis
    by (auto simp: agrees_def validate_integration_def catalog_entry_of_def Let_def seen_after_def entry_ok_def seen_ok_def
      split: if_split_asm dest: stripped_items_nonempty)
qed (simp_all add: agrees_def validate_integration_def)

lemma forE_agrees:
  assumes "\<forall>x \<in> set xs. agrees (v x) (f x)"
  shows "agrees (forE v xs) (bindE (mapE f xs) (\<lambda>ess. Inr (concat ess)))"
  using assms
proof (induction xs)
  case (Cons x xs)
  show ?case unfolding agrees_def
  proof (intro allI impI)
    fix seen seen' es
    assume "forE v (x # xs) seen = Inr seen'" "bindE (mapE f (x # xs)) (\<lambda>ess. Inr (concat ess)) = Inr es"
    then obtain t a ess where t: "v x seen = Inr t" "f x = Inr a" "forE v xs t = Inr seen'" "mapE f xs = Inr ess" "es = a @ concat ess"
      by auto
    have "agrees (forE v xs) (bindE (mapE f xs) (\<lambda>ess. Inr (concat ess)))" by (rule Cons.IH) (use Cons.prems in simp)
    note rest = agreesD [OF this t(3), of "concat ess"]
    have "agrees (v x) (f x)" using Cons.prems by simp
    note first = agreesD [OF this t(1,2)]
    from first rest t(4,5) show "seen' = seen_after es seen \<and> (\<forall>e \<in> set es. entry_ok e) \<and> (seen_ok seen \<longrightarrow> seen_ok seen')"
      by (auto simp: seen_after_append)
  qed
qed (simp add: agrees_def)

lemma group_agrees: "agrees (validate_group grp) (group_entries grp)"
proof (cases grp)
  case (PDict g)
  show ?thesis
  proof (cases "por (pget g ''integrations'' PNone) (PList [])")
    case (PList xs)
    have v: "validate_group grp = forE validate_integration xs" by (rule ext) (simp add: validate_group_def PDict PList)
    have g: "group_entries grp = bindE (mapE (catalog_entry_of g) xs) (\<lambda>ess. Inr (concat ess))"
      by (simp add: group_entries_def PDict PList)
    show ?thesis unfolding v g by (rule forE_agrees) (simp add: integration_agrees)
  qed (use PDict in \<open>simp_all add: agrees_def validate_group_def\<close>)
qed (simp_all add: agrees_def validate_group_def)

lemma entries_of_loaded_pack:
  assumes "list_integration_catalog_entries file = Inr es"
  shows "distinct (map ic_id es) \<and> distinct (map ic_key es) \<and> (\<forall>e \<in> set es. entry_ok e)"
proof -
  obtain data pack groups ess where f: "file = Some data" "validate_integration_secrets_pack data = Inr pack"
      "py_list (por (pget (pdict_or_empty data) ''groups'' PNone) (PList [])) = Inr groups" "mapE group_entries groups = Inr ess"
      "es = concat ess"
    using assms by (auto simp: list_integration_catalog_entries_def load_integration_secrets_pack_def split: option.split_asm)
  obtain d g gs where d: "data = PDict d" "pget d ''groups'' PNone = PList (g # gs)" "forE validate_group (g # gs) ([], []) = Inr pack"
    using f(2) by (auto simp: validate_integration_secrets_pack_def split: pyval.split_asm list.split_asm)
  then have "groups = g # gs" using f(3) by (simp add: por_def)
  with f(4) have "mapE group_entries (g # gs) = Inr ess" by (simp only:)
  then have es: "bindE (mapE group_entries (g # gs)) (\<lambda>ess. Inr (concat ess)) = Inr es" by (simp only: bindE_simps f(5))
  have "agrees (forE validate_group (g # gs)) (bindE (mapE group_entries (g # gs)) (\<lambda>ess. Inr (concat ess)))"
    by (rule forE_agrees) (blast intro: group_agrees)
  from agreesD [OF this d(3) es] have "pack = seen_after es ([], [])" "\<forall>e \<in> set es. entry_ok e" "seen_ok pack"
    by (simp_all add: seen_ok_def)
  then show ?thesis by (simp add: seen_ok_def seen_after_def)
qed

text \<open>
  Every entry read from a pack that loads is well formed (an id, a setting key of the pattern, one of the three
  scopes, no blank variable name), no two entries share an id or a setting key, and so both lookups are exact: an
  entry is found by its id and by its key, whatever the case and the blanks around them.
\<close>

lemma catalog_well_formed:
  assumes "list_integration_catalog_entries file = Inr es" "e \<in> set es"
  shows "ic_id e \<noteq> [] \<and> setting_key_ok (ic_key e) \<and> ic_scope e \<in> {''tenant'', ''global'', ''actor''} \<and> [] \<notin> set (ic_env_keys e) \<and>
    (\<forall>i. normalize_integration_id i = ic_id e \<longrightarrow> get_integration_catalog_entry es i = Some e) \<and>
    (\<forall>k. lower (strip k) = ic_key e \<longrightarrow> integration_entry_for_setting_key es k = Some e)"
proof -
  note es = entries_of_loaded_pack [OF assms(1)]
  have "map_of (rev (map (\<lambda>e. (ic_id e, e)) es)) (ic_id e) = Some e"
    using es assms(2) by (intro map_of_is_SomeI) (simp_all add: rev_map [symmetric] comp_def)
  moreover have "List.find (\<lambda>f. ic_key f = ic_key e) es = Some e"
  proof -
    from assms(2) obtain f where f: "List.find (\<lambda>f. ic_key f = ic_key e) es = Some f"
      by (cases "List.find (\<lambda>f. ic_key f = ic_key e) es") (auto simp: find_None_iff)
    then have "f \<in> set es" "ic_key f = ic_key e" by (auto simp: find_Some_iff)
    with es assms(2) have "f = e" by (auto simp: distinct_map inj_on_def)
    with f show ?thesis by simp
  qed
  ultimately show ?thesis
    using es assms(2) by (auto simp: entry_ok_def get_integration_catalog_entry_def integration_entry_for_setting_key_def)
qed

definition demo_pack :: pyval where
  "demo_pack = PDict [(''groups'', PList [PDict [(''id'', PStr ''search''), (''integrations'', PList
     [PDict [(''id'', PStr ''Web-Search''), (''setting_key'', PStr ''web.api_key''), (''env_keys'', PList [PStr ''WEB_KEY'', PStr '' ''])]])]])]"

lemma catalog_well_formed_witness:
  "\<exists>e. list_integration_catalog_entries (Some demo_pack) = Inr [e] \<and> ic_env_keys e = [''WEB_KEY''] \<and>
     get_integration_catalog_entry [e] '' WEB-search '' = Some e \<and> integration_entry_for_setting_key [e] ''WEB.api_key'' = Some e"
proof -
  let ?l = "list_integration_catalog_entries (Some demo_pack)"
  have l: "isl ?l = False" "map (\<lambda>e. (ic_id e, ic_key e, ic_env_keys e)) (projr ?l) = [(''web_search'', ''web.api_key'', [''WEB_KEY''])]"
    by code_simp+
  then obtain e where e: "?l = Inr [e]" "ic_id e = ''web_search''" "ic_key e = ''web.api_key''" "ic_env_keys e = [''WEB_KEY'']"
    by (elim isl_InrE) (auto simp: map_eq_Cons_conv)
  have "normalize_integration_id '' WEB-search '' = ''web_search''" "lower (strip ''WEB.api_key'') = ''web.api_key''" by code_simp+
  with catalog_well_formed [OF e(1), of e] e show ?thesis by (intro exI [of _ e]) simp
qed

end
