(* ===== verification/RuntimeSettings.thy ===== *)
theory RuntimeSettings
  imports Runtime Login IntegrationCatalog
begin

text \<open>
  Reading the runtime settings (\<open>packages/shared/src/duckclaw/admin_runtime_settings.py\<close>) and their clients: the secrets
  of integrations (\<open>integration_secrets.py\<close>), the toggles of a chat (\<open>runtime_session_settings.py\<close>), the heartbeat
  (\<open>heartbeat_runtime_settings.py\<close>) and the model of a worker (\<open>worker_llm_overrides.py\<close>). The table has two writers,
  the operation of this module and the handler of the db-writer (theory \<open>Runtime\<close>); the locale \<open>settings_writer\<close> states
  what a reader needs of either. A query that fails shows no rows: the empty list.
\<close>

subsection \<open>Environment and names\<close>

text \<open>
  \<open>se_catalog\<close> is the decoded integrations pack, \<open>se_loads\<close> is \<open>json.loads\<close>; \<open>se_odd_rows\<close> and \<open>se_odd_write\<close> stand
  for what the database makes of a statement one of whose literals a quote ends early.
\<close>

record settings_env =
  se_env :: env
  se_getenv :: "string \<Rightarrow> string option"
  se_catalog :: "pyval option"
  se_loads :: "string \<Rightarrow> pyval option"
  se_odd_rows :: "string list \<Rightarrow> runtime_setting list \<Rightarrow> runtime_setting list"
  se_odd_write :: "string list \<Rightarrow> runtime_setting list \<Rightarrow> py_error + runtime_setting list"

definition name_char :: "char \<Rightarrow> bool" where
  "name_char c \<longleftrightarrow> 97 \<le> code c \<and> code c \<le> 122 \<or> is_digit c \<or> c \<in> {CHR ''_'', CHR ''.'', CHR ''-''}"

definition normalize_runtime_setting_name :: "string \<Rightarrow> py_error + string" where
  "normalize_runtime_setting_name value = (let
     normalized = strip_chars ''_.-'' (sub_runs (\<lambda>c. \<not> name_char c) (CHR ''_'') (lower (strip value)))
   in if normalized = [] then Inl (ValueError ''Nombre de setting requerido'') else Inr (take 96 normalized))"

definition normalize_actor :: "string \<Rightarrow> string" where
  "normalize_actor actor_email = lower (strip actor_email)"

definition normalize_tenant :: "string \<Rightarrow> string" where
  "normalize_tenant tenant_id = str_or (strip (str_or tenant_id ''global'')) ''global''"

subsection \<open>Values and public views\<close>

definition row_value :: "settings_env \<Rightarrow> runtime_setting \<Rightarrow> pyval" where
  "row_value se row = (if str_or (rs_kind row) ''string'' = ''json''
     then (case se_loads se (str_or (rs_value_json row) ''null'') of None \<Rightarrow> PNone | Some v \<Rightarrow> v)
     else PStr (rs_value row))"

record public_setting =
  ps_id :: string
  ps_tenant :: string
  ps_actor :: string
  ps_domain :: string
  ps_key :: string
  ps_kind :: string
  ps_secret :: bool
  ps_source :: string
  ps_configured :: bool
  ps_updated_at :: "int option"
  ps_masked :: "string option"
  ps_value_json :: "pyval option"
  ps_value_text :: "string option"

definition public_setting :: "runtime_setting \<Rightarrow> int option \<Rightarrow> pyval \<Rightarrow> string \<Rightarrow> public_setting" where
  "public_setting row updated value source = (let kind = str_or (rs_kind row) ''string'';
     configured = (value \<noteq> PNone \<and> value \<noteq> PStr [])
   in \<lparr>ps_id = rs_id row, ps_tenant = rs_tenant row, ps_actor = rs_actor row, ps_domain = rs_domain row, ps_key = rs_key row,
      ps_kind = kind, ps_secret = rs_secret row, ps_source = source, ps_configured = configured, ps_updated_at = updated,
      ps_masked = (if rs_secret row then Some (if configured then ''********'' else []) else None),
      ps_value_json = (if \<not> rs_secret row \<and> kind = ''json'' then Some value else None),
      ps_value_text = (if \<not> rs_secret row \<and> kind \<noteq> ''json'' then Some (if value = PNone then [] else pystr value) else None)\<rparr>)"

subsection \<open>Fallbacks\<close>

record fallback =
  fb_env_key :: string
  fb_default :: string
  fb_secret :: bool

definition base_fallbacks :: "((string \<times> string) \<times> fallback) list" where
  "base_fallbacks = map (\<lambda>(d, k, e, v). ((d, k), \<lparr>fb_env_key = e, fb_default = v, fb_secret = False\<rparr>))
     [(''duckdb'', ''legacy_schemas'', ''DUCKCLAW_ADMIN_DUCKDB_LEGACY_SCHEMAS'', []),
      (''duckdb'', ''legacy_main_tables'', ''DUCKCLAW_ADMIN_DUCKDB_LEGACY_MAIN_TABLES'', []),
      (''telegram'', ''webhook_routes'', ''DUCKCLAW_TELEGRAM_WEBHOOK_ROUTES'', []),
      (''mcp'', ''port'', ''DUCKCLAW_MCP_PORT'', ''8001''),
      (''comfyui'', ''api_url'', ''COMFYUI_API_URL'', ''http://127.0.0.1:8188''),
      (''comfyui'', ''timeout_sec'', ''COMFYUI_TIMEOUT_SEC'', ''300''),
      (''llm'', ''provider'', ''DUCKCLAW_LLM_PROVIDER'', ''deepseek''),
      (''llm'', ''model'', ''DUCKCLAW_LLM_MODEL'', []),
      (''llm'', ''base_url'', ''DUCKCLAW_LLM_BASE_URL'', [])]"

definition integration_setting_fallbacks :: "catalog_entry list \<Rightarrow> ((string \<times> string) \<times> fallback) list" where
  "integration_setting_fallbacks entries = map (\<lambda>e. ((''integrations'', ic_key e),
     \<lparr>fb_env_key = (case ic_env_keys e of [] \<Rightarrow> [] | k # _ \<Rightarrow> k), fb_default = [], fb_secret = True\<rparr>)) entries"

text \<open>A dictionary that is updated with another: the later entry of a key stays. A pack that does not load adds nothing.\<close>

definition merged_fallbacks :: "settings_env \<Rightarrow> ((string \<times> string) \<times> fallback) list" where
  "merged_fallbacks se = base_fallbacks @ (case list_integration_catalog_entries (se_catalog se) of
     Inl _ \<Rightarrow> [] | Inr entries \<Rightarrow> integration_setting_fallbacks entries)"

definition fallback_for :: "settings_env \<Rightarrow> string \<Rightarrow> string \<Rightarrow> fallback" where
  "fallback_for se domain key = (case map_of (rev (merged_fallbacks se)) (domain, key) of
     Some f \<Rightarrow> f | None \<Rightarrow> \<lparr>fb_env_key = [], fb_default = [], fb_secret = False\<rparr>)"

definition setting_stub :: "string \<Rightarrow> string \<Rightarrow> string \<Rightarrow> string \<Rightarrow> string \<Rightarrow> bool \<Rightarrow> string \<Rightarrow> runtime_setting" where
  "setting_stub tenant actor domain key value secret source = \<lparr>rs_id = [], rs_tenant = tenant, rs_actor = actor,
     rs_domain = domain, rs_key = key, rs_value = value, rs_value_json = [], rs_kind = ''string'', rs_secret = secret,
     rs_source = source, rs_active = True, rs_created_by = [], rs_updated_by = [], rs_created_at = 0, rs_updated_at = 0\<rparr>"

definition fallback_row :: "settings_env \<Rightarrow> string \<Rightarrow> string \<Rightarrow> string \<Rightarrow> string \<Rightarrow> bool \<Rightarrow> runtime_setting" where
  "fallback_row se domain key env_key dflt secret = (let raw = se_getenv se env_key;
     value = strip (str_or (case raw of None \<Rightarrow> [] | Some v \<Rightarrow> v) dflt)
   in setting_stub ''global'' [] domain key value secret (if raw \<noteq> None then ''env'' else ''default''))"

subsection \<open>Resolving\<close>

definition candidate_rows ::
  "settings_env \<Rightarrow> runtime_setting list \<Rightarrow> string \<Rightarrow> string \<Rightarrow> string \<Rightarrow> string \<Rightarrow> py_error + runtime_setting list" where
  "candidate_rows se rows tenant_id actor_email domain key =
     bindE (normalize_runtime_setting_name domain) (\<lambda>dom.
     bindE (normalize_runtime_setting_name key) (\<lambda>setting_key.
     let lits = [sql_lit dom 64, sql_lit setting_key 96, sql_lit (normalize_tenant tenant_id) 128,
       sql_lit (normalize_actor actor_email) 256]
     in Inr (case read_lits lits of
          Some [d, k, t, a] \<Rightarrow> sel_all (\<lambda>r. rs_active r \<and> rs_domain r = d \<and> rs_key r = k \<and>
            rs_tenant r \<in> {t, ''global''} \<and> rs_actor r \<in> {a, []}) rows
        | _ \<Rightarrow> se_odd_rows se lits rows)))"

definition scope_rank :: "string \<Rightarrow> string \<Rightarrow> runtime_setting \<Rightarrow> nat" where
  "scope_rank tenant_id actor_email row = (let tenant = normalize_tenant tenant_id; actor = normalize_actor actor_email in
     if rs_tenant row = tenant \<and> rs_actor row = actor then 0
     else if rs_tenant row = tenant \<and> rs_actor row = [] then 1
     else if rs_tenant row = ''global'' \<and> rs_actor row = [] then 2
     else 99)"

definition ranked_rows ::
  "settings_env \<Rightarrow> runtime_setting list \<Rightarrow> string \<Rightarrow> string \<Rightarrow> string \<Rightarrow> string \<Rightarrow> py_error + runtime_setting list" where
  "ranked_rows se rows tenant_id actor_email domain key =
     bindE (candidate_rows se rows tenant_id actor_email domain key) (\<lambda>candidates.
       Inr (sort_key (scope_rank tenant_id actor_email) candidates))"

definition env_candidates :: "string \<Rightarrow> string list \<Rightarrow> string list" where
  "env_candidates token_env env_keys = foldl (\<lambda>ordered key. if key \<in> set ordered then ordered else ordered @ [key])
     (if strip token_env \<noteq> [] then [strip token_env] else []) env_keys"

fun resolve_from_env :: "(string \<Rightarrow> string option) \<Rightarrow> string list \<Rightarrow> string" where
  "resolve_from_env getenv [] = []"
| "resolve_from_env getenv (key # keys) = (let val = strip (case getenv key of None \<Rightarrow> [] | Some v \<Rightarrow> v) in
     if val \<noteq> [] then val else resolve_from_env getenv keys)"

definition resolve_from_db :: "settings_env \<Rightarrow> runtime_setting list \<Rightarrow> catalog_entry \<Rightarrow> string \<Rightarrow> string \<Rightarrow> py_error + string" where
  "resolve_from_db se rows spec tenant_id actor_email =
     bindE (normalize_runtime_setting_name ''integrations'') (\<lambda>dom.
     bindE (normalize_runtime_setting_name (ic_key spec)) (\<lambda>setting_key.
     bindE (ranked_rows se rows tenant_id actor_email dom setting_key) (\<lambda>candidates.
     Inr (case candidates of [] \<Rightarrow> [] | row # _ \<Rightarrow> strip (pystr (por (row_value se row) (PStr [])))))))"

text \<open>The public view of the setting and its value.\<close>

definition resolve_runtime_setting ::
  "settings_env \<Rightarrow> runtime_setting list \<Rightarrow> string \<Rightarrow> string \<Rightarrow> string \<Rightarrow> string \<Rightarrow> string \<Rightarrow> string \<Rightarrow> py_error + public_setting \<times> pyval" where
  "resolve_runtime_setting se rows tenant_id actor_email domain key env_key dflt =
     bindE (normalize_runtime_setting_name domain) (\<lambda>dom.
     bindE (normalize_runtime_setting_name key) (\<lambda>setting_key.
     bindE (ranked_rows se rows tenant_id actor_email dom setting_key) (\<lambda>candidates.
     case candidates of
       row # _ \<Rightarrow> (let value = row_value se row in
         Inr (public_setting row (Some (rs_updated_at row)) value ''db'', value))
     | [] \<Rightarrow>
         bindE (if dom = ''integrations'' then bindE (list_integration_catalog_entries (se_catalog se)) (\<lambda>entries.
             Inr (integration_entry_for_setting_key entries setting_key)) else Inr None) (\<lambda>spec.
         case spec of
           Some spec \<Rightarrow>
             bindE (resolve_from_db se rows spec tenant_id actor_email) (\<lambda>db_val.
             let env_val = resolve_from_env (se_getenv se) (env_candidates [] (ic_env_keys spec));
                 value = PStr (str_or db_val env_val);
                 source = (if db_val \<noteq> [] then ''db'' else if env_val \<noteq> [] then ''env'' else ''default'')
             in Inr (public_setting (setting_stub tenant_id actor_email dom setting_key [] True []) None value source, value))
         | None \<Rightarrow> (let meta = fallback_for se dom setting_key;
               row = fallback_row se dom setting_key (str_or env_key (fb_env_key meta)) (str_or dflt (fb_default meta)) (fb_secret meta);
               value = row_value se row
             in Inr (public_setting row None value (rs_source row), value))))))"

subsection \<open>Listing\<close>

definition pair_leq :: "string \<times> string \<Rightarrow> string \<times> string \<Rightarrow> bool" where
  "pair_leq x y \<longleftrightarrow> fst x < fst y \<or> fst x = fst y \<and> snd x \<le> snd y"

text \<open>\<open>sorted(keys)\<close> on a set of pairs: insertion of each pair once.\<close>

fun insert_pair :: "string \<times> string \<Rightarrow> (string \<times> string) list \<Rightarrow> (string \<times> string) list" where
  "insert_pair x [] = [x]"
| "insert_pair x (y # ys) = (if x = y then y # ys else if pair_leq x y then x # y # ys else y # insert_pair x ys)"

definition setting_keys :: "settings_env \<Rightarrow> string list \<Rightarrow> runtime_setting list \<Rightarrow> (string \<times> string) list" where
  "setting_keys se domains rows = fold insert_pair
     (map (\<lambda>r. (rs_domain r, rs_key r)) rows @
      filter (\<lambda>(d, _). domains = [] \<or> d \<in> set domains) (map fst (merged_fallbacks se))) []"

definition visible_rows :: "settings_env \<Rightarrow> string list \<Rightarrow> runtime_setting list \<Rightarrow> string \<Rightarrow> string \<Rightarrow> runtime_setting list" where
  "visible_rows se domains rows tenant_id actor_email = (let
     lits = [sql_lit (normalize_tenant tenant_id) 128, sql_lit (normalize_actor actor_email) 256];
     quoted = map (\<lambda>d. sql_lit d 64) (sort (remdups domains))
   in case (read_lits lits, read_lits quoted) of
        (Some [t, a], Some ds) \<Rightarrow> sel_all (\<lambda>r. rs_active r \<and> (domains = [] \<or> rs_domain r \<in> set ds) \<and>
          rs_tenant r \<in> {t, ''global''} \<and> rs_actor r \<in> {a, []}) rows
      | _ \<Rightarrow> se_odd_rows se (lits @ quoted) rows)"

definition list_runtime_settings_effective ::
  "settings_env \<Rightarrow> runtime_setting list \<Rightarrow> string \<Rightarrow> string \<Rightarrow> string list \<Rightarrow> py_error + public_setting list" where
  "list_runtime_settings_effective se rows tenant_id actor_email domains =
     bindE (mapE normalize_runtime_setting_name (filter (\<lambda>d. d \<noteq> []) domains)) (\<lambda>domains.
     mapE (\<lambda>(d, k). bindE (resolve_runtime_setting se rows tenant_id actor_email d k
         (fb_env_key (fallback_for se d k)) (fb_default (fallback_for se d k))) (\<lambda>(item, _). Inr item))
       (setting_keys se domains (visible_rows se domains rows tenant_id actor_email)))"

subsection \<open>Writing\<close>

definition upsert_runtime_setting ::
  "settings_env \<Rightarrow> string \<Rightarrow> string \<Rightarrow> string \<Rightarrow> string \<Rightarrow> string \<Rightarrow> pyval \<Rightarrow> string \<Rightarrow> bool \<Rightarrow> string \<Rightarrow> runtime_setting list \<Rightarrow>
     py_error + (public_setting \<times> pyval) \<times> runtime_setting list" where
  "upsert_runtime_setting se tenant_id actor_email domain key value_text value_json value_kind secret updated_by rows = (let
     tenant = normalize_tenant tenant_id; actor = normalize_actor actor_email in
     bindE (normalize_runtime_setting_name domain) (\<lambda>dom.
     bindE (normalize_runtime_setting_name key) (\<lambda>setting_key.
     bindE (if secret then Inr ''secret'' else normalize_runtime_setting_name (str_or value_kind ''string'')) (\<lambda>kind.
     let json_text = (if value_json \<noteq> PNone then json_dumps (sort_keys value_json) else []);
         scope = [sql_lit tenant 128, sql_lit actor 256, sql_lit dom 64, sql_lit setting_key 96];
         vals = [sql_lit value_text 8192, sql_lit json_text 65535, sql_lit kind 32, sql_lit updated_by 256];
         existing = (case read_lits scope of
           Some [t, a, d, k] \<Rightarrow> sel_one (\<lambda>r. rs_lookup r = (t, a, d, k)) rows
         | _ \<Rightarrow> (case se_odd_rows se scope rows of [] \<Rightarrow> None | r # _ \<Rightarrow> Some r))
     in
     bindE (case existing of
         Some old \<Rightarrow> (case read_lits (vals @ [sql_lit (rs_id old) 64]) of
             Some [v, j, kd, u, i] \<Rightarrow> Inr (upd_where (\<lambda>r. rs_id r = i)
               (\<lambda>r. r\<lparr>rs_value := v, rs_value_json := j, rs_kind := kd, rs_secret := secret, rs_source := ''db'',
                 rs_active := True, rs_updated_by := u, rs_updated_at := now (se_env se)\<rparr>) rows)
           | _ \<Rightarrow> se_odd_write se (vals @ [sql_lit (rs_id old) 64]) rows)
       | None \<Rightarrow> (let sid = sql_lit (''set_'' @ uuid_hex (se_env se) 0) 64 in
           case read_lits (sid # scope @ vals) of
             Some [i, t, a, d, k, v, j, kd, u] \<Rightarrow> ins_row rs_id
               \<lparr>rs_id = i, rs_tenant = t, rs_actor = a, rs_domain = d, rs_key = k, rs_value = v, rs_value_json = j, rs_kind = kd,
                rs_secret = secret, rs_source = ''db'', rs_active = True, rs_created_by = u, rs_updated_by = u,
                rs_created_at = now (se_env se), rs_updated_at = now (se_env se)\<rparr> rows
           | _ \<Rightarrow> se_odd_write se (sid # scope @ vals) rows)) (\<lambda>rows.
     bindE (resolve_runtime_setting se rows tenant actor dom setting_key [] []) (\<lambda>res. Inr (res, rows)))))))"

subsection \<open>Clients\<close>

text \<open>Secrets of integrations. \<open>sha\<close> is SHA-256 in hexadecimal; \<open>token_env\<close> is empty when it is not given.\<close>

definition resolve_integration_api_key ::
  "settings_env \<Rightarrow> (string \<Rightarrow> string) \<Rightarrow> string \<Rightarrow> runtime_setting list option \<Rightarrow> string \<Rightarrow> string \<Rightarrow> string \<Rightarrow> py_error + string" where
  "resolve_integration_api_key se sha integration_id db tenant_id actor_email token_env =
     bindE (list_integration_catalog_entries (se_catalog se)) (\<lambda>entries.
     case get_integration_catalog_entry entries integration_id of
       None \<Rightarrow> Inr (resolve_from_env (se_getenv se) (env_candidates token_env []))
     | Some spec \<Rightarrow> (let from_env = resolve_from_env (se_getenv se) (env_candidates token_env (ic_env_keys spec)) in
         case db of
           None \<Rightarrow> Inr from_env
         | Some rows \<Rightarrow>
             bindE (resolve_from_db se rows spec tenant_id actor_email) (\<lambda>db_val.
             if db_val \<noteq> [] then Inr db_val
             else let actor = strip actor_email; ws = tenant_id_for_email sha actor in
               if CHR ''@'' \<in> set actor \<and> ws \<noteq> [] \<and> ws \<noteq> strip tenant_id then
                 bindE (resolve_from_db se rows spec ws actor_email) (\<lambda>db_val. Inr (if db_val \<noteq> [] then db_val else from_env))
               else Inr from_env)))"

definition integration_api_key_configured ::
  "settings_env \<Rightarrow> (string \<Rightarrow> string) \<Rightarrow> string \<Rightarrow> runtime_setting list option \<Rightarrow> string \<Rightarrow> string \<Rightarrow> string \<Rightarrow> py_error + bool" where
  "integration_api_key_configured se sha integration_id db tenant_id actor_email token_env =
     bindE (resolve_integration_api_key se sha integration_id db tenant_id actor_email token_env) (\<lambda>k. Inr (k \<noteq> []))"

text \<open>Toggles of a chat: the actor of their rows is derived from the chat.\<close>

definition runtime_session_actor :: "string \<Rightarrow> string" where
  "runtime_session_actor chat_id = ''chat:'' @ take 128 (str_or (strip (str_or chat_id ''default'')) ''default'')"

definition default_tenant :: "string \<Rightarrow> string" where
  "default_tenant tenant_id = str_or (strip (str_or tenant_id ''default'')) ''default''"

definition resolve_session_runtime_setting ::
  "settings_env \<Rightarrow> runtime_setting list option \<Rightarrow> string \<Rightarrow> string \<Rightarrow> string \<Rightarrow> string \<Rightarrow> string" where
  "resolve_session_runtime_setting se db chat_id key tenant_id dflt = (case db of
     None \<Rightarrow> dflt
   | Some rows \<Rightarrow> (case resolve_runtime_setting se rows (default_tenant tenant_id) (runtime_session_actor chat_id)
         ''runtime.session'' key [] dflt of
       Inl _ \<Rightarrow> dflt
     | Inr (_, value) \<Rightarrow> strip (pystr (por value (PStr [])))))"

definition upsert_session_runtime_setting ::
  "settings_env \<Rightarrow> string \<Rightarrow> string \<Rightarrow> string \<Rightarrow> string \<Rightarrow> string \<Rightarrow> string \<Rightarrow> runtime_setting list \<Rightarrow> py_error + runtime_setting list" where
  "upsert_session_runtime_setting se chat_id key value tenant_id value_kind updated_by rows =
     bindE (upsert_runtime_setting se (default_tenant tenant_id) (runtime_session_actor chat_id) ''runtime.session'' key
       (take 8192 value) PNone value_kind False updated_by rows) (\<lambda>(_, rows). Inr rows)"

definition parse_heartbeat_enabled_value :: "pyval \<Rightarrow> bool option" where
  "parse_heartbeat_enabled_value value = (let raw = lower (strip (pystr (por value (PStr [])))) in
     if raw \<in> {''on'', ''1'', ''true'', ''t'', ''yes'', ''y'', [CHR ''s'', CHR 0xED], ''si''} then Some True
     else if raw \<in> {''off'', ''0'', ''false'', ''f'', ''no'', ''n''} then Some False
     else None)"

definition heartbeat_missing :: string where
  "heartbeat_missing = ''__duckclaw_heartbeat_missing__''"

definition resolve_heartbeat_runtime_state ::
  "settings_env \<Rightarrow> runtime_setting list option \<Rightarrow> string \<Rightarrow> string \<Rightarrow> bool option" where
  "resolve_heartbeat_runtime_state se db tenant_id chat_id = (case db of
     None \<Rightarrow> None
   | Some rows \<Rightarrow> (case resolve_runtime_setting se rows (default_tenant tenant_id) (runtime_session_actor chat_id)
         ''runtime.heartbeat'' ''enabled'' [] heartbeat_missing of
       Inl _ \<Rightarrow> None
     | Inr (_, value) \<Rightarrow> (let value = strip (pystr (por value (PStr []))) in
         if value = heartbeat_missing then None else parse_heartbeat_enabled_value (PStr value))))"

definition upsert_heartbeat_runtime_state ::
  "settings_env \<Rightarrow> string \<Rightarrow> string \<Rightarrow> bool \<Rightarrow> string \<Rightarrow> runtime_setting list \<Rightarrow> py_error + runtime_setting list" where
  "upsert_heartbeat_runtime_state se tenant_id chat_id enabled updated_by rows =
     bindE (upsert_runtime_setting se (default_tenant tenant_id) (runtime_session_actor chat_id) ''runtime.heartbeat'' ''enabled''
       (if enabled then ''on'' else ''off'') PNone ''boolean'' False updated_by rows) (\<lambda>(_, rows). Inr rows)"

text \<open>The model of a worker: rows of all tenants first, so that those of the tenant win.\<close>

definition list_worker_llm_models :: "settings_env \<Rightarrow> runtime_setting list \<Rightarrow> string \<Rightarrow> (string \<times> string) list" where
  "list_worker_llm_models se rows tenant_id = (let
     lit = sql_lit (normalize_tenant tenant_id) 128;
     rows = (case read_lit lit of
       Some t \<Rightarrow> sel_all (\<lambda>r. rs_active r \<and> rs_domain r = ''worker_llm'' \<and> rs_actor r = [] \<and> rs_tenant r \<in> {t, ''global''}) rows
     | None \<Rightarrow> se_odd_rows se [lit] rows);
     sorted_rows = filter (\<lambda>r. rs_tenant r = ''global'') rows @ filter (\<lambda>r. rs_tenant r \<noteq> ''global'') rows
   in filter (\<lambda>(k, v). k \<noteq> [] \<and> v \<noteq> []) (fold (\<lambda>r d. AList.update (rs_key r) (strip (rs_value r)) d) sorted_rows []))"

definition worker_llm_model :: "settings_env \<Rightarrow> runtime_setting list option \<Rightarrow> string \<Rightarrow> string \<Rightarrow> string" where
  "worker_llm_model se db tenant_id worker_id = (case db of
     None \<Rightarrow> []
   | Some rows \<Rightarrow> if strip worker_id = [] then []
       else (case normalize_runtime_setting_name worker_id of
           Inl _ \<Rightarrow> []
         | Inr key \<Rightarrow> (case map_of (list_worker_llm_models se rows tenant_id) key of None \<Rightarrow> [] | Some m \<Rightarrow> m)))"

definition apply_worker_llm_override ::
  "settings_env \<Rightarrow> runtime_setting list option \<Rightarrow> string \<Rightarrow> string \<Rightarrow> 'llm option \<times> string \<times> string \<times> string \<Rightarrow>
     'llm option \<times> string \<times> string \<times> string" where
  "apply_worker_llm_override se db tenant_id worker_id chat = (let
     model = worker_llm_model se db tenant_id worker_id; (llm, provider, llm_model, base_url) = chat
   in if model = [] \<or> model = strip llm_model \<and> provider = ''openrouter'' then chat
      else (None, ''openrouter'', model, ''https://openrouter.ai/api/v1''))"

subsection \<open>Names and scopes in canonical form\<close>

lemma bindE_cong: "(\<And>x. m = Inr x \<Longrightarrow> f x = g x) \<Longrightarrow> bindE m f = bindE m g"
  by (cases m) simp_all

lemma name_char_plain: "name_char c \<Longrightarrow> \<not> is_space c \<and> lower_char c = c"
proof -
  assume "name_char c"
  then consider "97 \<le> code c" "code c \<le> 122" | "48 \<le> code c" "code c \<le> 57" | "c = CHR ''_''" | "c = CHR ''.''" | "c = CHR ''-''"
    by (auto simp: name_char_def is_digit_def)
  then show ?thesis by cases (simp_all add: is_space_def lower_char_def Let_def)
qed

lemma normalized_name:
  assumes "normalize_runtime_setting_name v = Inr n"
  shows "n \<noteq> []" "length n \<le> 96" "clean n" "lower (strip n) = n"
proof -
  let ?s = "sub_runs (\<lambda>c. \<not> name_char c) (CHR ''_'') (lower (strip v))"
  have n: "n = take 96 (strip_chars ''_.-'' ?s)" "strip_chars ''_.-'' ?s \<noteq> []"
    using assms by (auto simp: normalize_runtime_setting_name_def Let_def split: if_split_asm)
  then show "n \<noteq> []" "length n \<le> 96" by simp_all
  have q: "\<not> name_char quote_char" "quote_char \<noteq> CHR ''_''" by code_simp+
  obtain a b where ab: "?s = a @ strip_chars ''_.-'' ?s @ b" using strip_chars_sublist by blast
  have "quote_char \<notin> set ?s" using q sub_runs_set [of "\<lambda>c. \<not> name_char c" "CHR ''_''" "lower (strip v)"] by blast
  then have "quote_char \<notin> set (strip_chars ''_.-'' ?s)" by (subst (asm) ab) simp
  then show "clean n" unfolding n(1) by (intro clean_take) (simp add: clean_def)
  have c: "name_char (CHR ''_'')" by code_simp
  then have "\<forall>c \<in> set ?s. name_char c" using sub_runs_set [of "\<lambda>c. \<not> name_char c" "CHR ''_''" "lower (strip v)"] by blast
  then have "\<forall>c \<in> set (strip_chars ''_.-'' ?s). name_char c" by (subst (asm) ab) simp
  then have "\<forall>c \<in> set n. name_char c" unfolding n(1) by (meson in_set_takeD)
  then have k: "\<forall>c \<in> set n. \<not> is_space c \<and> lower_char c = c" using name_char_plain by blast
  then have "strip n = n" by (intro strip_no_space) blast
  then show "lower (strip n) = n" using k by (simp add: lower_def map_idI)
qed

definition canonical_name :: "nat \<Rightarrow> string \<Rightarrow> bool" where
  "canonical_name m n \<longleftrightarrow> normalize_runtime_setting_name n = Inr n \<and> length n \<le> m"

definition canonical_scope :: "string \<Rightarrow> string \<Rightarrow> bool" where
  "canonical_scope t a \<longleftrightarrow> normalize_tenant t = t \<and> length t \<le> 128 \<and> clean t \<and> normalize_actor a = a \<and> length a \<le> 256 \<and> clean a"

definition canonical :: "string \<times> string \<times> string \<times> string \<Rightarrow> bool" where
  "canonical s \<longleftrightarrow> (case s of (t, a, d, k) \<Rightarrow> canonical_scope t a \<and> canonical_name 64 d \<and> canonical_name 96 k)"

lemma canonical_nameD: "canonical_name m n \<Longrightarrow> normalize_runtime_setting_name n = Inr n \<and> clean n \<and> length n \<le> m"
  using normalized_name(3) by (auto simp: canonical_name_def)

lemma canonical_lits:
  assumes "canonical (t, a, d, k)"
  shows "read_lit (sql_lit t 128) = Some t" "read_lit (sql_lit a 256) = Some a" "read_lit (sql_lit d 64) = Some d"
    "read_lit (sql_lit k 96) = Some k" "normalize_tenant t = t" "normalize_actor a = a"
    "normalize_runtime_setting_name d = Inr d" "normalize_runtime_setting_name k = Inr k"
  using assms by (auto simp: canonical_def canonical_scope_def clean_lit dest!: canonical_nameD)

lemma candidate_rows_canonical:
  assumes "canonical (t, a, d, k)"
  shows "candidate_rows se rows t a d k = Inr (sel_all (\<lambda>r. rs_active r \<and> rs_domain r = d \<and> rs_key r = k \<and>
    rs_tenant r \<in> {t, ''global''} \<and> rs_actor r \<in> {a, []}) rows)"
  by (simp add: candidate_rows_def canonical_lits [OF assms])

subsection \<open>Which row decides\<close>

definition active_at :: "runtime_setting list \<Rightarrow> string \<times> string \<times> string \<times> string \<Rightarrow> runtime_setting option" where
  "active_at rows s = (case tbl_map rs_lookup rows s of None \<Rightarrow> None | Some r \<Rightarrow> if rs_active r then Some r else None)"

fun first_some :: "'a option list \<Rightarrow> 'a option" where
  "first_some [] = None"
| "first_some (None # xs) = first_some xs"
| "first_some (Some x # xs) = Some x"

text \<open>The reference: the scopes in the order of their precedence.\<close>

definition effective_row :: "runtime_setting list \<Rightarrow> string \<times> string \<times> string \<times> string \<Rightarrow> runtime_setting option" where
  "effective_row rows s = (case s of (t, a, d, k) \<Rightarrow>
     first_some (map (active_at rows) [(t, a, d, k), (t, [], d, k), (''global'', [], d, k), (''global'', a, d, k)]))"

lemma active_at_iff: "uniq rs_lookup rows \<Longrightarrow> active_at rows s = Some r \<longleftrightarrow> r \<in> set rows \<and> rs_lookup r = s \<and> rs_active r"
proof (cases "tbl_map rs_lookup rows s")
  case None
  then have "\<forall>x \<in> set rows. rs_lookup x \<noteq> s" by (auto simp: tbl_map_None has_key_iff)
  with None show ?thesis by (auto simp: active_at_def)
next
  case (Some x)
  assume u: "uniq rs_lookup rows"
  have "x \<in> set rows" "rs_lookup x = s" by (rule tbl_map_mem [OF Some], rule tbl_map_key [OF Some])
  moreover have "r \<in> set rows \<Longrightarrow> rs_lookup r = s \<Longrightarrow> r = x" using u Some tbl_map_Some [OF u, of s r] by simp
  ultimately show ?thesis using Some by (auto simp: active_at_def)
qed

lemma sorted_head:
  assumes "sort_key f xs = y # ys"
  shows "y \<in> set xs" "x \<in> set xs \<Longrightarrow> f y \<le> f x"
proof -
  have s: "set (sort_key f xs) = set xs" "sorted (map f (sort_key f xs))" by simp_all
  from s(1) assms show "y \<in> set xs" by (metis list.set_intros(1))
  from s assms show "x \<in> set xs \<Longrightarrow> f y \<le> f x" by (metis le_eq_less_or_eq list.simps(9) set_ConsD sorted_simps(2) imageI list.set_map order_refl)
qed

lemma ranked_head:
  assumes u: "uniq rs_lookup rows" and c: "canonical (t, a, d, k)"
  shows "\<exists>cs. ranked_rows se rows t a d k = Inr cs \<and>
    effective_row rows (t, a, d, k) = (case cs of [] \<Rightarrow> None | r # _ \<Rightarrow> Some r)"
proof -
  let ?P = "\<lambda>r. rs_active r \<and> rs_domain r = d \<and> rs_key r = k \<and> rs_tenant r \<in> {t, ''global''} \<and> rs_actor r \<in> {a, []}"
  let ?cs = "sort_key (scope_rank t a) (sel_all ?P rows)"
  have r: "ranked_rows se rows t a d k = Inr ?cs" by (simp add: ranked_rows_def candidate_rows_canonical [OF c])
  have m: "x \<in> set (sel_all ?P rows) \<longleftrightarrow> x \<in> set rows \<and> ?P x" for x by (simp add: sel_all_def)
  have at: "active_at rows s = None \<longleftrightarrow> (\<forall>x \<in> set rows. rs_lookup x = s \<longrightarrow> \<not> rs_active x)" for s
    using active_at_iff [OF u, of s] by (metis not_None_eq)
  have rank: "scope_rank t a x = (if rs_tenant x = t \<and> rs_actor x = a then 0 else if rs_tenant x = t \<and> rs_actor x = [] then 1
      else if rs_tenant x = ''global'' \<and> rs_actor x = [] then 2 else 99)" for x
    by (simp add: scope_rank_def canonical_lits [OF c])
  show ?thesis
  proof (cases ?cs)
    case Nil
    have "set ?cs = set (sel_all ?P rows)" by (rule set_sort)
    with Nil have "set (sel_all ?P rows) = {}" by (simp only: list.set)
    then have n: "\<not> ?P x" if "x \<in> set rows" for x
      using m [of x] that by (metis empty_iff)
    have "active_at rows (t', a', d, k) = None" if "t' \<in> {t, ''global''}" "a' \<in> {a, []}" for t' a'
      unfolding at using n that by (auto simp: rs_lookup_def)
    then have "effective_row rows (t, a, d, k) = None" by (simp add: effective_row_def)
    with r Nil show ?thesis by simp
  next
    case (Cons x xs)
    have x: "x \<in> set rows" "?P x" using sorted_head(1) [OF Cons] m by blast+
    have le: "scope_rank t a x \<le> scope_rank t a y" if "y \<in> set rows" "?P y" for y
      using sorted_head(2) [OF Cons] m that by blast
    have hit: "active_at rows (rs_lookup x) = Some x" using active_at_iff [OF u] x by blast
    have miss: "active_at rows (t', a', d, k) = None" if "t' \<in> {t, ''global''}" "a' \<in> {a, []}"
        "\<And>y. rs_tenant y = t' \<Longrightarrow> rs_actor y = a' \<Longrightarrow> scope_rank t a y < scope_rank t a x" for t' a'
    proof (rule ccontr)
      assume "active_at rows (t', a', d, k) \<noteq> None"
      then obtain y where y: "y \<in> set rows" "rs_lookup y = (t', a', d, k)" "rs_active y" using at [of "(t', a', d, k)"] by auto
      then have "?P y" using that(1,2) by (auto simp: rs_lookup_def)
      with le [OF y(1)] that(3) [of y] y(2) show False by (simp add: rs_lookup_def)
    qed
    have l: "rs_lookup x = (rs_tenant x, rs_actor x, d, k)" using x(2) by (simp add: rs_lookup_def)
    consider (0) "rs_tenant x = t" "rs_actor x = a" | (1) "rs_tenant x = t" "rs_actor x = []" "a \<noteq> []"
      | (2) "rs_tenant x = ''global''" "t \<noteq> ''global''" "rs_actor x = []"
      | (3) "rs_tenant x = ''global''" "t \<noteq> ''global''" "rs_actor x = a" "a \<noteq> []"
      using x(2) by blast
    then have "effective_row rows (t, a, d, k) = Some x"
    proof cases
      case 0
      then show ?thesis using hit l by (simp add: effective_row_def)
    next
      case 1
      have "active_at rows (t, a, d, k) = None" by (rule miss) (use 1 in \<open>simp_all add: rank\<close>)
      with 1 show ?thesis using hit l by (simp add: effective_row_def)
    next
      case 2
      have "active_at rows (t, a, d, k) = None" "active_at rows (t, [], d, k) = None"
        by (rule miss; use 2 in \<open>simp add: rank\<close>)+
      with 2 show ?thesis using hit l by (simp add: effective_row_def)
    next
      case 3
      have "active_at rows (t, a, d, k) = None" "active_at rows (t, [], d, k) = None" "active_at rows (''global'', [], d, k) = None"
        by (rule miss; use 3 in \<open>simp add: rank\<close>)+
      with 3 show ?thesis using hit l by (simp add: effective_row_def)
    qed
    with r Cons show ?thesis by simp
  qed
qed

lemma setting_row:
  assumes "uniq rs_lookup rows" "canonical (t, a, d, k)"
  shows "resolve_runtime_setting se rows t a d k env_key dflt = (case effective_row rows (t, a, d, k) of
      Some row \<Rightarrow> Inr (public_setting row (Some (rs_updated_at row)) (row_value se row) ''db'', row_value se row)
    | None \<Rightarrow> resolve_runtime_setting se [] t a d k env_key dflt)"
proof -
  note c = canonical_lits [OF assms(2)]
  have k: "lower (strip k) = k" using normalized_name(4) [OF c(8)] .
  have i: "ic_key e = k" if "integration_entry_for_setting_key es k = Some e" for es e
    using that k by (auto simp: integration_entry_for_setting_key_def find_Some_iff)
  from ranked_head [OF assms] obtain cs where cs: "ranked_rows se rows t a d k = Inr cs"
    "effective_row rows (t, a, d, k) = (case cs of [] \<Rightarrow> None | r # _ \<Rightarrow> Some r)" by blast
  have e: "ranked_rows se [] t a d k = Inr []" by (simp add: ranked_rows_def candidate_rows_canonical [OF assms(2)] sel_all_def)
  show ?thesis
  proof (cases cs)
    case Nil
    have "resolve_from_db se rows spec t a = resolve_from_db se [] spec t a" if "d = ''integrations''" "ic_key spec = k" for spec
      using that c cs Nil e by (simp add: resolve_from_db_def)
    then show ?thesis using cs Nil e c i unfolding resolve_runtime_setting_def
      by (auto intro!: bindE_cong split: option.split)
  next
    case (Cons r rs)
    with cs c show ?thesis by (simp add: resolve_runtime_setting_def Let_def)
  qed
qed

text \<open>
  C10. Which row decides a setting: the one of the asking actor in the tenant, else that of the tenant, else that of
  all tenants, else that of the actor in all tenants, each only while it is active; without any the value is the one
  an empty table gives. Rows of other tenants and of other actors never count.
\<close>

lemma setting_precedence:
  assumes "uniq rs_lookup rows" "canonical (t, a, d, k)"
  shows "resolve_runtime_setting se rows t a d k env_key dflt = (case effective_row rows (t, a, d, k) of
      Some row \<Rightarrow> Inr (public_setting row (Some (rs_updated_at row)) (row_value se row) ''db'', row_value se row)
    | None \<Rightarrow> resolve_runtime_setting se [] t a d k env_key dflt)"
  by (rule setting_row [OF assms])

definition settings_env0 :: settings_env where
  "settings_env0 = \<lparr>se_env = env0, se_getenv = (\<lambda>_. None), se_catalog = None, se_loads = (\<lambda>_. None),
     se_odd_rows = (\<lambda>_ _. []), se_odd_write = (\<lambda>_ _. Inl (ValueError []))\<rparr>"

definition model_setting :: runtime_setting where
  "model_setting = (setting_stub ''t'' [] ''llm'' ''model'' ''m1'' False ''db'')\<lparr>rs_id := ''set_1''\<rparr>"

definition secret_setting :: runtime_setting where
  "secret_setting = (setting_stub ''t'' [] ''integrations'' ''web.api_key'' ''abc'' True ''db'')\<lparr>rs_id := ''set_2'', rs_kind := ''secret''\<rparr>"

lemma setting_precedence_witness:
  "\<exists>p. resolve_runtime_setting settings_env0 [model_setting, secret_setting] ''t'' ''ana'' ''llm'' ''model'' [] ''x'' = Inr (p, PStr ''m1'')"
proof -
  let ?rows = "[model_setting, secret_setting]" and ?s = "(''t'', ''ana'', ''llm'', ''model'')"
  have c: "canonical ?s" "uniq rs_lookup ?rows" "effective_row ?rows ?s = Some model_setting" by code_simp+
  have v: "row_value settings_env0 model_setting = PStr ''m1''" by code_simp
  show ?thesis
    using setting_precedence [OF c(2) c(1), of settings_env0 "[]" "''x''"] unfolding c(3) v option.case by blast
qed

subsection \<open>Writing a setting\<close>

text \<open>What the table promises: ids and scopes are unique, and ids fit the literal of the UPDATE.\<close>

definition settings_ok :: "runtime_setting list \<Rightarrow> bool" where
  "settings_ok rows \<longleftrightarrow> uniq rs_id rows \<and> uniq rs_lookup rows \<and> (\<forall>r \<in> set rows. clean (rs_id r) \<and> length (rs_id r) \<le> 64)"

text \<open>\<open>wrote rows rows' s r\<close>: the row of scope \<open>s\<close> is now \<open>r\<close>, and no other scope has changed.\<close>

definition wrote :: "runtime_setting list \<Rightarrow> runtime_setting list \<Rightarrow> string \<times> string \<times> string \<times> string \<Rightarrow> runtime_setting \<Rightarrow> bool" where
  "wrote rows rows' s r \<longleftrightarrow> settings_ok rows' \<and> active_at rows' = (active_at rows)(s \<mapsto> r)"

lemma wrote_update:
  assumes ok: "settings_ok rows" and old: "sel_one (\<lambda>r. rs_lookup r = s) rows = Some old"
    and f: "\<And>r. rs_lookup (f r) = rs_lookup r" "\<And>r. rs_id (f r) = rs_id r" "\<And>r. rs_active (f r)"
  shows "wrote rows (upd_where (\<lambda>r. rs_id r = rs_id old) f rows) s (f old)"
proof -
  let ?rows = "upd_where (\<lambda>r. rs_id r = rs_id old) f rows"
  have u: "uniq rs_id rows" "uniq rs_lookup rows" using ok by (simp_all add: settings_ok_def)
  have o: "old \<in> set rows" "rs_lookup old = s" using sel_one_Some [OF old] by simp_all
  have "settings_ok ?rows" unfolding settings_ok_def
  proof (intro conjI ball_upd_where uniq_upd_where u)
    show "\<forall>r \<in> set rows. clean (rs_id r) \<and> length (rs_id r) \<le> 64" using ok by (simp add: settings_ok_def)
  qed (simp_all add: f)
  moreover have "active_at ?rows s' = ((active_at rows)(s \<mapsto> f old)) s'" for s'
  proof -
    have m: "tbl_map rs_lookup ?rows s' = map_option (\<lambda>r. if rs_id r = rs_id old then f r else r) (tbl_map rs_lookup rows s')"
      by (rule tbl_map_upd_where [OF f(1) u(2)])
    have i: "rs_id r = rs_id old \<longleftrightarrow> s' = s" if "tbl_map rs_lookup rows s' = Some r" for r
    proof -
      have "r \<in> set rows" "rs_lookup r = s'" by (rule tbl_map_mem [OF that], rule tbl_map_key [OF that])
      with o show ?thesis using uniq_eq [OF u(1), of r old] uniq_eq [OF u(2), of r old] by auto
    qed
    have "tbl_map rs_lookup rows s = Some old" using o tbl_map_Some [OF u(2)] by simp
    with m i show ?thesis by (cases "tbl_map rs_lookup rows s'") (auto simp: active_at_def f(3))
  qed
  ultimately show ?thesis by (simp add: wrote_def fun_eq_iff)
qed

lemma wrote_insert:
  assumes ok: "settings_ok rows" and "sel_one (\<lambda>r. rs_lookup r = s) rows = None"
    and r: "rs_lookup r = s" "rs_active r" "clean (rs_id r)" "length (rs_id r) \<le> 64" and "ins_row rs_id r rows = Inr rows'"
  shows "wrote rows rows' s r"
proof -
  have new: "\<not> has_key rs_lookup (rs_lookup r) rows" using assms(2) r(1) by (auto simp: sel_one_None has_key_iff)
  have rows': "rows' = rows @ [r]" "\<not> has_key rs_id (rs_id r) rows" using assms(7) by simp_all
  have "settings_ok rows'" using ok new rows' r by (simp add: settings_ok_def)
  moreover have "active_at rows' s' = ((active_at rows)(s \<mapsto> r)) s'" for s'
    using r by (simp add: active_at_def rows'(1) tbl_map_snoc [OF new])
  ultimately show ?thesis by (simp add: wrote_def fun_eq_iff)
qed

text \<open>\<open>UpsertRuntimeSettingCommand\<close>, as the db-writer receives it.\<close>

definition setting_command :: "string \<Rightarrow> string \<Rightarrow> string \<Rightarrow> string \<Rightarrow> string \<Rightarrow> string \<Rightarrow> string \<Rightarrow> payload" where
  "setting_command tenant actor domain key value kind updated_by =
     [(''command_type'', PStr ''upsert_runtime_setting''), (''command_version'', PInt 1), (''tenant_id'', PStr tenant),
      (''actor_email'', PStr actor), (''domain'', PStr domain), (''key'', PStr key), (''value'', PStr value),
      (''value_json'', PNone), (''value_kind'', PStr kind), (''secret'', PBool False), (''updated_by'', PStr updated_by)]"

definition clean_uuid :: "settings_env \<Rightarrow> bool" where
  "clean_uuid se \<longleftrightarrow> clean (uuid_hex (se_env se) 0)"

text \<open>The handler stores the scope as it is sent, canonical or not.\<close>

lemma handler_writes:
  assumes ok: "settings_ok (rd_settings db)" "clean_uuid se" and t: "t \<noteq> []"
    and w: "apply_upsert_runtime_setting (se_env se) (setting_command t a d k v kind u) db = Inr db'"
  shows "\<exists>r. wrote (rd_settings db) (rd_settings db') (t, a, d, k) r \<and> rs_kind r = kind \<and> rs_value r = v"
proof -
  have p: "req_text (setting_command t a d k v kind u) ''domain'' = Inr d" "req_text (setting_command t a d k v kind u) ''key'' = Inr k"
    "req_text (setting_command t a d k v kind u) ''value'' = Inr v" "pget (setting_command t a d k v kind u) ''value_json'' PNone = PNone"
    "pget (setting_command t a d k v kind u) ''secret'' (PBool False) = PBool False"
    "pget (setting_command t a d k v kind u) ''value_kind'' (PStr ''string'') = PStr kind"
    "gstr (setting_command t a d k v kind u) ''tenant_id'' ''default'' = t"
    "pget (setting_command t a d k v kind u) ''actor_email'' (PStr ''system'') = PStr a"
    using t by (simp_all add: setting_command_def req_text_def gstr_def por_def)
  show ?thesis
  proof (cases "sel_one (\<lambda>r. rs_lookup r = (t, a, d, k)) (rd_settings db)")
    case None
    with w p obtain rows' u' where i: "ins_row rs_id \<lparr>rs_id = ''set_'' @ take 16 (uuid_hex (se_env se) 0), rs_tenant = t, rs_actor = a,
        rs_domain = d, rs_key = k, rs_value = v, rs_value_json = [], rs_kind = kind, rs_secret = False, rs_source = ''db'',
        rs_active = True, rs_created_by = u', rs_updated_by = u', rs_created_at = now (se_env se), rs_updated_at = now (se_env se)\<rparr>
        (rd_settings db) = Inr rows'" "rd_settings db' = rows'"
      by (auto simp: apply_upsert_runtime_setting_def Let_def)
    have c: "clean (''set_'' @ take 16 (uuid_hex (se_env se) 0))"
      using ok(2) by (auto simp: clean_uuid_def clean_def quote_char_def dest: in_set_takeD)
    show ?thesis unfolding i(2)
      by (rule exI, rule conjI, rule wrote_insert [OF ok(1) None _ _ _ _ i(1)]) (use c in \<open>simp_all add: rs_lookup_def\<close>)
  next
    case (Some old)
    from w p Some obtain u' where "rd_settings db' = upd_where (\<lambda>r. rs_id r = rs_id old) (\<lambda>r. r\<lparr>rs_value := v, rs_value_json := [],
        rs_kind := kind, rs_secret := False, rs_source := ''db'', rs_active := True, rs_updated_by := u',
        rs_updated_at := now (se_env se)\<rparr>) (rd_settings db)"
      by (auto simp: apply_upsert_runtime_setting_def Let_def)
    then show ?thesis
      by (intro exI conjI) (assumption | simp only:, rule wrote_update [OF ok(1) Some] | simp add: rs_lookup_def)+
  qed
qed

text \<open>The operation of this module normalises the scope first.\<close>

lemma upsert_canonical:
  assumes ok: "settings_ok rows" "clean_uuid se" and c: "canonical (t, a, d, k)" and v: "clean v" "length v \<le> 8192" "clean u"
    and kind: "normalize_runtime_setting_name kind = Inr kind" "length kind \<le> 32"
  shows "upsert_runtime_setting se t a d k v PNone kind False u rows =
    bindE (case sel_one (\<lambda>r. rs_lookup r = (t, a, d, k)) rows of
        Some old \<Rightarrow> Inr (upd_where (\<lambda>r. rs_id r = rs_id old) (\<lambda>r. r\<lparr>rs_value := v, rs_value_json := [], rs_kind := kind,
          rs_secret := False, rs_source := ''db'', rs_active := True, rs_updated_by := take 256 u,
          rs_updated_at := now (se_env se)\<rparr>) rows)
      | None \<Rightarrow> ins_row rs_id \<lparr>rs_id = take 64 (''set_'' @ uuid_hex (se_env se) 0), rs_tenant = t, rs_actor = a, rs_domain = d,
          rs_key = k, rs_value = v, rs_value_json = [], rs_kind = kind, rs_secret = False, rs_source = ''db'', rs_active = True,
          rs_created_by = take 256 u, rs_updated_by = take 256 u, rs_created_at = now (se_env se),
          rs_updated_at = now (se_env se)\<rparr> rows)
      (\<lambda>rows. bindE (resolve_runtime_setting se rows t a d k [] []) (\<lambda>res. Inr (res, rows)))"
proof -
  note l = canonical_lits [OF c]
  have k: "kind \<noteq> []" "clean kind" using normalized_name [OF kind(1)] by simp_all
  have vals: "read_lit (sql_lit v 8192) = Some v" "read_lit (sql_lit [] 65535) = Some []" "read_lit (sql_lit kind 32) = Some kind"
      "read_lit (sql_lit u 256) = Some (take 256 u)"
    using v k kind(2) by (simp_all add: clean_lit clean_def)
  have sv: "str_or kind ''string'' = kind" using k by simp
  show ?thesis
  proof (cases "sel_one (\<lambda>r. rs_lookup r = (t, a, d, k)) rows")
    case None
    have "clean (''set_'' @ uuid_hex (se_env se) 0)" using ok(2) by (auto simp: clean_uuid_def clean_def quote_char_def)
    from clean_lit [OF this, of 64] None l kind sv vals show ?thesis by (simp add: upsert_runtime_setting_def Let_def)
  next
    case (Some old)
    have "old \<in> set rows" using sel_one_Some [OF Some] by simp
    then have "read_lit (sql_lit (rs_id old) 64) = Some (rs_id old)" using ok(1) by (simp add: settings_ok_def clean_lit)
    with Some l kind sv vals show ?thesis by (simp add: upsert_runtime_setting_def Let_def)
  qed
qed

lemma direct_writes:
  assumes ok: "settings_ok rows" "clean_uuid se" and c: "canonical (t, a, d, k)" and v: "clean v" "length v \<le> 8192" "clean u"
    and kind: "normalize_runtime_setting_name kind = Inr kind" "length kind \<le> 32"
    and w: "upsert_runtime_setting se t a d k v PNone kind False u rows = Inr (res, rows')"
  shows "\<exists>r. wrote rows rows' (t, a, d, k) r \<and> rs_kind r = kind \<and> rs_value r = v"
proof (cases "sel_one (\<lambda>r. rs_lookup r = (t, a, d, k)) rows")
  case None
  let ?id = "take 64 (''set_'' @ uuid_hex (se_env se) 0)"
  have "clean (''set_'' @ uuid_hex (se_env se) 0)" using ok(2) by (auto simp: clean_uuid_def clean_def quote_char_def)
  then have cl: "clean ?id" by (rule clean_take)
  from w have i: "ins_row rs_id \<lparr>rs_id = ?id, rs_tenant = t, rs_actor = a, rs_domain = d, rs_key = k, rs_value = v,
      rs_value_json = [], rs_kind = kind, rs_secret = False, rs_source = ''db'', rs_active = True, rs_created_by = take 256 u,
      rs_updated_by = take 256 u, rs_created_at = now (se_env se), rs_updated_at = now (se_env se)\<rparr> rows = Inr rows'"
    unfolding upsert_canonical [OF ok c v kind] None option.case by (elim bindE_InrE) simp
  show ?thesis
    by (rule exI, rule conjI, rule wrote_insert [OF ok(1) None _ _ _ _ i]) (use cl in \<open>simp_all add: rs_lookup_def\<close>)
next
  case (Some old)
  from w have "rows' = upd_where (\<lambda>r. rs_id r = rs_id old) (\<lambda>r. r\<lparr>rs_value := v, rs_value_json := [],
      rs_kind := kind, rs_secret := False, rs_source := ''db'', rs_active := True, rs_updated_by := take 256 u,
      rs_updated_at := now (se_env se)\<rparr>) rows"
    unfolding upsert_canonical [OF ok c v kind] Some option.case by (elim bindE_InrE) simp
  then show ?thesis
    by (intro exI conjI) (assumption | simp only:, rule wrote_update [OF ok(1) Some] | simp add: rs_lookup_def)+
qed

text \<open>On an empty table the operation succeeds.\<close>

lemma direct_write_succeeds:
  assumes "clean_uuid se" and c: "canonical (t, a, d, k)" and v: "clean v" "length v \<le> 8192" "clean u"
    and kind: "normalize_runtime_setting_name kind = Inr kind" "length kind \<le> 32"
  shows "\<exists>res rows'. upsert_runtime_setting se t a d k v PNone kind False u [] = Inr (res, rows')"
proof -
  have ok: "settings_ok []" by (simp add: settings_ok_def)
  let ?r = "\<lparr>rs_id = take 64 (''set_'' @ uuid_hex (se_env se) 0), rs_tenant = t, rs_actor = a, rs_domain = d, rs_key = k, rs_value = v,
    rs_value_json = [], rs_kind = kind, rs_secret = False, rs_source = ''db'', rs_active = True, rs_created_by = take 256 u,
    rs_updated_by = take 256 u, rs_created_at = now (se_env se), rs_updated_at = now (se_env se)\<rparr>"
  have u: "uniq rs_lookup [?r]" by (simp add: uniq_def)
  have "effective_row [?r] (t, a, d, k) = Some ?r"
    by (simp add: effective_row_def active_at_def tbl_map_def rs_lookup_def)
  with setting_row [OF u c, of se "[]" "[]"] show ?thesis
    unfolding upsert_canonical [OF ok assms(1) c v kind] by (simp add: ins_row_def has_key_def del: effective_row_def)
qed

subsection \<open>Reading what was written\<close>

text \<open>
  What a reader needs of a writer: after a successful write of a canonical scope its row is active and holds the
  value, and no other scope has changed.
\<close>

locale settings_writer =
  fixes se :: settings_env
    and put :: "string \<Rightarrow> string \<times> string \<times> string \<times> string \<Rightarrow> string \<Rightarrow> string \<Rightarrow> runtime_setting list \<Rightarrow> py_error + runtime_setting list"
  assumes put_row: "settings_ok rows \<Longrightarrow> clean_uuid se \<Longrightarrow> canonical s \<Longrightarrow> clean v \<Longrightarrow> length v \<le> 8192 \<Longrightarrow> clean u \<Longrightarrow>
      kind \<in> {''string'', ''boolean''} \<Longrightarrow> put kind s v u rows = Inr rows' \<Longrightarrow>
      \<exists>r. wrote rows rows' s r \<and> rs_kind r = kind \<and> rs_value r = v"
begin

lemma put_keeps: "settings_ok rows \<Longrightarrow> clean_uuid se \<Longrightarrow> canonical s \<Longrightarrow> clean v \<Longrightarrow> length v \<le> 8192 \<Longrightarrow> clean u \<Longrightarrow>
    kind \<in> {''string'', ''boolean''} \<Longrightarrow> put kind s v u rows = Inr rows' \<Longrightarrow> settings_ok rows'"
  using put_row unfolding wrote_def by blast

lemma put_resolves:
  assumes "settings_ok rows" "clean_uuid se" "canonical (t, a, d, k)" "clean v" "length v \<le> 8192" "clean u"
    "kind \<in> {''string'', ''boolean''}" "put kind (t, a, d, k) v u rows = Inr rows'"
  shows "\<exists>p. resolve_runtime_setting se rows' t a d k env_key dflt = Inr (p, PStr v)"
proof -
  obtain r where r: "wrote rows rows' (t, a, d, k) r" "rs_kind r = kind" "rs_value r = v" using put_row [OF assms] by blast
  have u: "uniq rs_lookup rows'" using r(1) by (simp add: wrote_def settings_ok_def)
  have "effective_row rows' (t, a, d, k) = Some r" using r(1) by (simp add: effective_row_def wrote_def)
  moreover have "row_value se r = PStr v" using r(2,3) assms(7) by (auto simp: row_value_def)
  ultimately show ?thesis using setting_row [OF u assms(3), of se env_key dflt] by simp
qed

lemma put_frame:
  assumes "settings_ok rows" "clean_uuid se" "canonical s" "clean v" "length v \<le> 8192" "clean u" "kind \<in> {''string'', ''boolean''}"
    "put kind s v u rows = Inr rows'" and c: "canonical (t, a, d, k)"
    and other: "s \<notin> {(t, a, d, k), (t, [], d, k), (''global'', [], d, k), (''global'', a, d, k)}"
  shows "resolve_runtime_setting se rows' t a d k env_key dflt = resolve_runtime_setting se rows t a d k env_key dflt"
proof -
  obtain r where r: "wrote rows rows' s r" using put_row [OF assms(1-8)] by blast
  have u: "uniq rs_lookup rows'" "uniq rs_lookup rows" using r assms(1) by (simp_all add: wrote_def settings_ok_def)
  have "active_at rows' x = active_at rows x" if "x \<in> {(t, a, d, k), (t, [], d, k), (''global'', [], d, k), (''global'', a, d, k)}" for x
    using r that other by (auto simp: wrote_def)
  then have "effective_row rows' (t, a, d, k) = effective_row rows (t, a, d, k)" by (simp add: effective_row_def)
  then show ?thesis using setting_row [OF u(1) c] setting_row [OF u(2) c] by simp
qed

end

definition direct_put ::
  "settings_env \<Rightarrow> string \<Rightarrow> string \<times> string \<times> string \<times> string \<Rightarrow> string \<Rightarrow> string \<Rightarrow> runtime_setting list \<Rightarrow> py_error + runtime_setting list" where
  "direct_put se kind s v u rows = (case s of (t, a, d, k) \<Rightarrow>
     bindE (upsert_runtime_setting se t a d k v PNone kind False u rows) (\<lambda>(_, rows). Inr rows))"

definition settings_db :: "runtime_setting list \<Rightarrow> runtime_db" where
  "settings_db rows = \<lparr>rd_settings = rows, rd_config = None, rd_audit = None, rd_telegram = None, rd_api = None\<rparr>"

definition queued_put ::
  "settings_env \<Rightarrow> string \<Rightarrow> string \<times> string \<times> string \<times> string \<Rightarrow> string \<Rightarrow> string \<Rightarrow> runtime_setting list \<Rightarrow> py_error + runtime_setting list" where
  "queued_put se kind s v u rows = (case s of (t, a, d, k) \<Rightarrow>
     bindE (apply_upsert_runtime_setting (se_env se) (setting_command t a d k v kind u) (settings_db rows)) (\<lambda>db. Inr (rd_settings db)))"

lemma plain_kinds: "kind \<in> {''string'', ''boolean''} \<Longrightarrow> normalize_runtime_setting_name kind = Inr kind \<and> length kind \<le> 32"
  by (elim insertE emptyE) (hypsubst, code_simp)+

interpretation direct: settings_writer se "direct_put se" for se
proof
  fix rows s v u kind rows'
  assume a: "settings_ok rows" "clean_uuid se" "canonical s" "clean v" "length v \<le> 8192" "clean u"
    "kind \<in> {''string'', ''boolean''}" "direct_put se kind s v u rows = Inr rows'"
  obtain t ac d k where s: "s = (t, ac, d, k)" by (cases s)
  then obtain res where "upsert_runtime_setting se t ac d k v PNone kind False u rows = Inr (res, rows')"
    using a(8) by (auto simp: direct_put_def split: prod.split_asm)
  then show "\<exists>r. wrote rows rows' s r \<and> rs_kind r = kind \<and> rs_value r = v"
    unfolding s by (rule direct_writes [OF a(1,2) a(3) [unfolded s] a(4-6) conjunct1 [OF plain_kinds [OF a(7)]] conjunct2 [OF plain_kinds [OF a(7)]]])
qed

interpretation queued: settings_writer se "queued_put se" for se
proof
  fix rows s v u kind rows'
  assume a: "settings_ok rows" "clean_uuid se" "canonical s" "queued_put se kind s v u rows = Inr rows'"
  obtain t ac d k where s: "s = (t, ac, d, k)" by (cases s)
  have "normalize_tenant t \<noteq> []" by (simp add: normalize_tenant_def)
  then have t: "t \<noteq> []" using a(3) canonical_lits(5) [of t ac d k] by (auto simp: s)
  from a(4) s obtain db where db: "apply_upsert_runtime_setting (se_env se) (setting_command t ac d k v kind u) (settings_db rows) = Inr db"
    "rows' = rd_settings db" by (auto simp: queued_put_def)
  from handler_writes [OF _ a(2) t db(1)] a(1) show "\<exists>r. wrote rows rows' s r \<and> rs_kind r = kind \<and> rs_value r = v"
    by (simp add: settings_db_def s db(2))
qed

subsection \<open>Toggles of a chat\<close>

lemma handler_settings_only:
  assumes "apply_upsert_runtime_setting e p db = Inr db'"
  shows "\<exists>x. apply_upsert_runtime_setting e p (settings_db (rd_settings db)) = Inr x \<and> rd_settings x = rd_settings db'"
proof -
  obtain d k v where r: "req_text p ''domain'' = Inr d" "req_text p ''key'' = Inr k" "req_text p ''value'' = Inr v"
    using assms by (auto simp: apply_upsert_runtime_setting_def)
  have s: "rd_settings (settings_db rows) = rows" for rows by (simp add: settings_db_def)
  show ?thesis
    using assms r by (cases "sel_one (\<lambda>r. rs_lookup r = (gstr p ''tenant_id'' ''default'',
      pystr (pget p ''actor_email'' (PStr ''system'')), d, k)) (rd_settings db)") (auto simp: apply_upsert_runtime_setting_def Let_def s)
qed

lemma queued_put_handler:
  "apply_upsert_runtime_setting (se_env se) (setting_command t a d k v kind u) db = Inr db' \<Longrightarrow>
    queued_put se kind (t, a, d, k) v u (rd_settings db) = Inr (rd_settings db')"
  by (drule handler_settings_only) (auto simp: queued_put_def)

lemma session_domain: "normalize_runtime_setting_name ''runtime.session'' = Inr ''runtime.session''"
  by code_simp

lemma normalize_actor_idem [simp]: "normalize_actor (normalize_actor a) = normalize_actor a"
  by (simp add: normalize_actor_def strip_lower)

lemma session_reads_normalized:
  "resolve_session_runtime_setting se (Some rows) chat key tenant dflt =
    (case resolve_runtime_setting se rows (default_tenant tenant) (normalize_actor (runtime_session_actor chat)) ''runtime.session'' key [] dflt of
      Inl _ \<Rightarrow> dflt | Inr (_, value) \<Rightarrow> strip (pystr (por value (PStr []))))"
proof -
  have "ranked_rows se rows t a d k = ranked_rows se rows t (normalize_actor a) d k" for t a d k
    by (simp add: ranked_rows_def candidate_rows_def scope_rank_def [abs_def])
  then have "resolve_runtime_setting se rows t a ''runtime.session'' k e f = resolve_runtime_setting se rows t (normalize_actor a) ''runtime.session'' k e f"
    for t a k e f
    by (simp add: resolve_runtime_setting_def session_domain)
  then show ?thesis by (simp add: resolve_session_runtime_setting_def)
qed

lemma strip_value: "strip v = v \<Longrightarrow> strip (pystr (por (PStr v) (PStr []))) = v"
  by (simp add: por_def)

text \<open>
  A toggle of a chat, written by either writer for a chat whose identifier is in canonical form, reads back as the
  value, and no toggle of another chat of the tenant and no other toggle of the chat changes its reading.
\<close>

lemma session_toggle_roundtrip:
  assumes "settings_ok rows" "clean_uuid se" "canonical (default_tenant tenant, runtime_session_actor chat, ''runtime.session'', key)"
    "clean v" "length v \<le> 8192" "strip v = v" "clean u"
    and written: "upsert_session_runtime_setting se chat key v tenant ''boolean'' u rows = Inr rows' \<or>
      (\<exists>db db'. rows = rd_settings db \<and> rows' = rd_settings db' \<and> apply_upsert_runtime_setting (se_env se)
        (setting_command (default_tenant tenant) (runtime_session_actor chat) ''runtime.session'' key v ''boolean'' u) db = Inr db')"
  shows "resolve_session_runtime_setting se (Some rows') chat key tenant dflt = v \<and> settings_ok rows' \<and>
    (\<forall>other k. (runtime_session_actor other, k) \<noteq> (runtime_session_actor chat, key) \<longrightarrow>
      canonical (default_tenant tenant, runtime_session_actor other, ''runtime.session'', k) \<longrightarrow>
      resolve_session_runtime_setting se (Some rows') other k tenant dflt = resolve_session_runtime_setting se (Some rows) other k tenant dflt)"
proof -
  let ?s = "(default_tenant tenant, runtime_session_actor chat, ''runtime.session'', key)"
  have b: "''boolean'' \<in> {''string'', ''boolean''}" by simp
  have "direct_put se ''boolean'' ?s v u rows = Inr rows' \<or> queued_put se ''boolean'' ?s v u rows = Inr rows'"
  proof (rule disj_forward [OF written])
    show "upsert_session_runtime_setting se chat key v tenant ''boolean'' u rows = Inr rows' \<Longrightarrow> direct_put se ''boolean'' ?s v u rows = Inr rows'"
      using assms(5) by (simp add: upsert_session_runtime_setting_def direct_put_def)
  qed (auto dest: queued_put_handler)
  note put = this
  have ok: "settings_ok rows'"
    by (rule disjE [OF put]) (erule direct.put_keeps [OF assms(1-5,7) b] queued.put_keeps [OF assms(1-5,7) b])+
  have val: "\<exists>p. resolve_runtime_setting se rows' (fst ?s) (runtime_session_actor chat) ''runtime.session'' key [] dflt = Inr (p, PStr v)"
    unfolding fst_conv
    by (rule disjE [OF put]) (erule direct.put_resolves [OF assms(1-5,7) b] queued.put_resolves [OF assms(1-5,7) b])+
  have frame: "resolve_runtime_setting se rows' (default_tenant tenant) (runtime_session_actor other) ''runtime.session'' k [] dflt =
      resolve_runtime_setting se rows (default_tenant tenant) (runtime_session_actor other) ''runtime.session'' k [] dflt"
    if "(runtime_session_actor other, k) \<noteq> (runtime_session_actor chat, key)"
      "canonical (default_tenant tenant, runtime_session_actor other, ''runtime.session'', k)" for other k
  proof -
    have "?s \<notin> {(default_tenant tenant, runtime_session_actor other, ''runtime.session'', k), (default_tenant tenant, [], ''runtime.session'', k),
        (''global'', [], ''runtime.session'', k), (''global'', runtime_session_actor other, ''runtime.session'', k)}"
      using that(1) by (auto simp: runtime_session_actor_def)
    note n = this
    show ?thesis
      by (rule disjE [OF put]) (erule direct.put_frame [OF assms(1-5,7) b _ that(2) n] queued.put_frame [OF assms(1-5,7) b _ that(2) n])+
  qed
  from val have "resolve_session_runtime_setting se (Some rows') chat key tenant dflt = v"
    by (auto simp: resolve_session_runtime_setting_def strip_value [OF assms(6)])
  with ok frame show ?thesis by (simp add: resolve_session_runtime_setting_def)
qed

lemma demo_ok: "settings_ok []" "clean_uuid settings_env0"
  by code_simp+

lemma session_toggle_roundtrip_witness:
  "\<exists>rows'. upsert_session_runtime_setting settings_env0 ''c1'' ''sandbox'' ''on'' ''t'' ''boolean'' ''u'' [] = Inr rows' \<and>
     resolve_session_runtime_setting settings_env0 (Some rows') ''c1'' ''sandbox'' ''t'' ''off'' = ''on''"
proof -
  let ?u = "upsert_session_runtime_setting settings_env0 ''c1'' ''sandbox'' ''on'' ''t'' ''boolean'' ''u'' []"
  have c: "canonical (default_tenant ''t'', runtime_session_actor ''c1'', ''runtime.session'', ''sandbox'')" "clean ''on''"
    "length ''on'' \<le> 8192" "strip ''on'' = ''on''" "clean ''u''" by (simp; fail | code_simp)+
  have k: "normalize_runtime_setting_name ''boolean'' = Inr ''boolean''" "length ''boolean'' \<le> 32" by code_simp+
  from direct_write_succeeds [OF demo_ok(2) c(1-3,5) k] obtain rows' where r: "?u = Inr rows'"
    by (auto simp: upsert_session_runtime_setting_def)
  from session_toggle_roundtrip [OF demo_ok c disjI1 [OF r], of "''off''"] r show ?thesis by (intro exI [of _ rows'] conjI) (rule r, rule conjunct1)
qed

text \<open>
  Through the queue a toggle of a chat whose identifier has a capital letter is lost: the handler stores the actor
  as it is sent, the reader asks for it in lower case, and so the reading stays what it was. Written by the operation
  of this module, the same toggle reads back.
\<close>

lemma queued_toggle_unreadable:
  assumes ok: "settings_ok (rd_settings db)" "clean_uuid se" and up: "normalize_actor (runtime_session_actor chat) \<noteq> runtime_session_actor chat"
    and c: "canonical (default_tenant tenant, normalize_actor (runtime_session_actor chat), ''runtime.session'', key)"
    and v: "clean v" "length v \<le> 8192" "strip v = v" "clean u"
    and queued: "apply_upsert_runtime_setting (se_env se)
      (setting_command (default_tenant tenant) (runtime_session_actor chat) ''runtime.session'' key v ''boolean'' u) db = Inr db'"
    and direct: "upsert_session_runtime_setting se chat key v tenant ''boolean'' u (rd_settings db) = Inr rows2"
  shows "resolve_session_runtime_setting se (Some (rd_settings db')) chat key tenant dflt =
      resolve_session_runtime_setting se (Some (rd_settings db)) chat key tenant dflt \<and>
    resolve_session_runtime_setting se (Some rows2) chat key tenant dflt = v"
proof
  let ?a = "runtime_session_actor chat" and ?t = "default_tenant tenant"
  have t: "?t \<noteq> []" by (simp add: default_tenant_def)
  obtain r where r: "wrote (rd_settings db) (rd_settings db') (?t, ?a, ''runtime.session'', key) r"
    using handler_writes [OF ok t queued] by blast
  have u: "uniq rs_lookup (rd_settings db')" "uniq rs_lookup (rd_settings db)" using r ok by (simp_all add: wrote_def settings_ok_def)
  have "?a \<noteq> []" by (simp add: runtime_session_actor_def)
  then have "effective_row (rd_settings db') (?t, normalize_actor ?a, ''runtime.session'', key) =
      effective_row (rd_settings db) (?t, normalize_actor ?a, ''runtime.session'', key)"
    using r up by (simp add: effective_row_def wrote_def)
  then show "resolve_session_runtime_setting se (Some (rd_settings db')) chat key tenant dflt =
      resolve_session_runtime_setting se (Some (rd_settings db)) chat key tenant dflt"
    unfolding session_reads_normalized by (simp add: setting_row [OF u(1) c] setting_row [OF u(2) c])
next
  let ?a = "runtime_session_actor chat" and ?t = "default_tenant tenant"
  have "upsert_runtime_setting se t (normalize_actor a) d k v PNone kind False u rows = upsert_runtime_setting se t a d k v PNone kind False u rows"
    for t a d k kind rows
    by (simp add: upsert_runtime_setting_def)
  then have "direct_put se ''boolean'' (?t, normalize_actor ?a, ''runtime.session'', key) v u (rd_settings db) = Inr rows2"
    using direct v(2) by (simp add: direct_put_def upsert_session_runtime_setting_def)
  from direct.put_resolves [OF ok c v(1,2,4) _ this, of "[]" dflt]
  show "resolve_session_runtime_setting se (Some rows2) chat key tenant dflt = v"
    unfolding session_reads_normalized by (auto simp: strip_value [OF v(3)])
qed

lemma queued_toggle_unreadable_witness:
  "\<exists>db' rows2. apply_upsert_runtime_setting env0 (setting_command ''t'' ''chat:C1'' ''runtime.session'' ''sandbox'' ''on'' ''boolean'' ''u'')
       (settings_db []) = Inr db' \<and>
     resolve_session_runtime_setting settings_env0 (Some (rd_settings db')) ''C1'' ''sandbox'' ''t'' ''off'' = ''off'' \<and>
     resolve_session_runtime_setting settings_env0 (Some rows2) ''C1'' ''sandbox'' ''t'' ''off'' = ''on''"
proof -
  let ?q = "apply_upsert_runtime_setting env0 (setting_command ''t'' ''chat:C1'' ''runtime.session'' ''sandbox'' ''on'' ''boolean'' ''u'') (settings_db [])"
  let ?d = "upsert_session_runtime_setting settings_env0 ''C1'' ''sandbox'' ''on'' ''t'' ''boolean'' ''u'' []"
  have "isl ?q = False" by code_simp
  then obtain db' where q: "?q = Inr db'" by (rule isl_InrE)
  have e: "rd_settings (settings_db []) = []" "se_env settings_env0 = env0" by (simp_all add: settings_db_def settings_env0_def)
  have e': "default_tenant ''t'' = ''t''" "runtime_session_actor ''C1'' = ''chat:C1''"
    by code_simp+
  have c: "normalize_actor (runtime_session_actor ''C1'') \<noteq> runtime_session_actor ''C1''"
    "canonical (default_tenant ''t'', normalize_actor (runtime_session_actor ''C1''), ''runtime.session'', ''sandbox'')"
    "clean ''on''" "length ''on'' \<le> 8192" "strip ''on'' = ''on''" "clean ''u''" by (simp; fail | code_simp)+
  have k: "normalize_runtime_setting_name ''boolean'' = Inr ''boolean''" "length ''boolean'' \<le> 32" by code_simp+
  obtain rows2 where d: "?d = Inr rows2"
  proof -
    have "upsert_runtime_setting settings_env0 t (normalize_actor a) d k v PNone kind False u rows =
        upsert_runtime_setting settings_env0 t a d k v PNone kind False u rows" for t a d k v kind u rows
      by (simp add: upsert_runtime_setting_def)
    with direct_write_succeeds [OF demo_ok(2) c(2-4,6) k] that show thesis by (auto simp: upsert_session_runtime_setting_def)
  qed
  have ok: "settings_ok (rd_settings (settings_db []))" unfolding e by (rule demo_ok)
  have q': "apply_upsert_runtime_setting (se_env settings_env0) (setting_command (default_tenant ''t'') (runtime_session_actor ''C1'')
      ''runtime.session'' ''sandbox'' ''on'' ''boolean'' ''u'') (settings_db []) = Inr db'" unfolding e e' by (rule q)
  have d': "upsert_session_runtime_setting settings_env0 ''C1'' ''sandbox'' ''on'' ''t'' ''boolean'' ''u'' (rd_settings (settings_db [])) = Inr rows2"
    unfolding e by (rule d)
  have o: "resolve_session_runtime_setting settings_env0 (Some []) ''C1'' ''sandbox'' ''t'' ''off'' = ''off''" by code_simp
  from queued_toggle_unreadable [OF ok demo_ok(2) c q' d', of "''off''"] o q show ?thesis unfolding e by (intro exI conjI) auto
qed

subsection \<open>The listing\<close>

lemma mapE_Inl: "x \<in> set xs \<Longrightarrow> isl (f x) \<Longrightarrow> \<exists>e. mapE f xs = Inl e"
proof (induction xs)
  case (Cons y ys)
  then show ?case by (cases "f y"; cases "mapE f ys") auto
qed simp

lemma isl_bindE: "isl x \<Longrightarrow> isl (bindE x g)"
  by (cases x) simp_all

lemma set_insert_pairs: "set (fold insert_pair xs ys) = set xs \<union> set ys"
proof (induction xs arbitrary: ys)
  case (Cons x xs)
  have "set (insert_pair x ys) = insert x (set ys)" by (induction ys) auto
  with Cons show ?case by simp
qed simp

lemma sel_all_map: "(\<And>r. P (g r) = P r) \<Longrightarrow> sel_all P (map g rows) = map g (sel_all P rows)"
  by (simp add: sel_all_def filter_map comp_def)

lemma sort_key_map_same: "(\<And>r. f (g r) = f r) \<Longrightarrow> sort_key f (map g rows) = map g (sort_key f rows)"
proof (induction rows)
  case (Cons x xs)
  have "insort_key f (g x) (map g ys) = map g (insort_key f x ys)" for ys using Cons.prems by (induction ys) simp_all
  with Cons show ?case by simp
qed simp

lemma normalized_lits: "\<forall>d \<in> set ds. clean d \<Longrightarrow> read_lits (map (\<lambda>d. sql_lit d n) ds) = Some (map (take n) ds)"
  by (induction ds) (simp_all add: clean_lit)

lemma mapE_normalized: "mapE normalize_runtime_setting_name xs = Inr ds \<Longrightarrow> \<forall>d \<in> set ds. clean d"
  by (induction xs arbitrary: ds) (auto dest: normalized_name(3))

text \<open>Another secret in the place of the stored ones, blank exactly where they are.\<close>

definition swap_secret :: "(runtime_setting \<Rightarrow> string) \<Rightarrow> runtime_setting \<Rightarrow> runtime_setting" where
  "swap_secret f r = (if rs_secret r then r\<lparr>rs_value := f r\<rparr> else r)"

definition as_blank :: "(runtime_setting \<Rightarrow> string) \<Rightarrow> runtime_setting \<Rightarrow> bool" where
  "as_blank f r \<longleftrightarrow> rs_kind r \<noteq> ''json'' \<and> (f r = [] \<longleftrightarrow> rs_value r = []) \<and> (strip (f r) = [] \<longleftrightarrow> strip (rs_value r) = [])"

lemma swap_simps [simp]: "rs_id (swap_secret f r) = rs_id r" "rs_tenant (swap_secret f r) = rs_tenant r"
  "rs_actor (swap_secret f r) = rs_actor r" "rs_domain (swap_secret f r) = rs_domain r" "rs_key (swap_secret f r) = rs_key r"
  "rs_active (swap_secret f r) = rs_active r" "rs_updated_at (swap_secret f r) = rs_updated_at r"
  by (simp_all add: swap_secret_def)

lemma swap_public:
  "(rs_secret r \<Longrightarrow> as_blank f r) \<Longrightarrow> public_setting (swap_secret f r) u (row_value se (swap_secret f r)) src = public_setting r u (row_value se r) src"
  by (auto simp: swap_secret_def as_blank_def public_setting_def row_value_def Let_def str_or_def)

lemma clean_scope: "clean t \<Longrightarrow> clean (normalize_tenant t)" "clean a \<Longrightarrow> clean (normalize_actor a)"
proof -
  have "clean ''global''" by code_simp
  then show "clean t \<Longrightarrow> clean (normalize_tenant t)" unfolding normalize_tenant_def by (intro clean_str_or clean_strip)
  show "clean a \<Longrightarrow> clean (normalize_actor a)" by (simp add: normalize_actor_def clean_strip)
qed

lemma ranked_rows_swap:
  assumes "clean t" "clean a"
  shows "ranked_rows se (map (swap_secret f) rows) t a d k = map_sum id (map (swap_secret f)) (ranked_rows se rows t a d k)"
proof -
  have l: "read_lit (sql_lit (normalize_tenant t) 128) = Some (take 128 (normalize_tenant t))"
      "read_lit (sql_lit (normalize_actor a) 256) = Some (take 256 (normalize_actor a))"
    by (simp_all add: clean_lit clean_scope assms)
  have s: "scope_rank t a (swap_secret f r) = scope_rank t a r" for r by (simp only: scope_rank_def swap_simps)
  show ?thesis
  proof (cases "normalize_runtime_setting_name d"; cases "normalize_runtime_setting_name k")
    fix d' k' assume n: "normalize_runtime_setting_name d = Inr d'" "normalize_runtime_setting_name k = Inr k'"
    have "read_lit (sql_lit d' 64) = Some (take 64 d')" "read_lit (sql_lit k' 96) = Some (take 96 k')"
      by (simp_all add: clean_lit normalized_name(3) [OF n(1)] normalized_name(3) [OF n(2)])
    with n l show ?thesis by (simp add: ranked_rows_def candidate_rows_def sel_all_map sort_key_map_same [where f = "scope_rank t a"] s)
  qed (simp_all add: ranked_rows_def candidate_rows_def)
qed

lemma ranked_subset:
  assumes "clean t" "clean a" "ranked_rows se rows t a d k = Inr cs"
  shows "set cs \<subseteq> set rows"
proof -
  obtain d' k' where n: "normalize_runtime_setting_name d = Inr d'" "normalize_runtime_setting_name k = Inr k'"
    using assms(3) by (auto simp: ranked_rows_def candidate_rows_def)
  have "read_lit (sql_lit (normalize_tenant t) 128) = Some (take 128 (normalize_tenant t))"
      "read_lit (sql_lit (normalize_actor a) 256) = Some (take 256 (normalize_actor a))"
      "read_lit (sql_lit d' 64) = Some (take 64 d')" "read_lit (sql_lit k' 96) = Some (take 96 k')"
    by (simp_all add: clean_lit clean_scope assms(1,2) normalized_name(3) [OF n(1)] normalized_name(3) [OF n(2)])
  with assms(3) n show ?thesis by (auto simp: ranked_rows_def candidate_rows_def sel_all_def)
qed

lemma resolve_from_db_swap:
  assumes "clean t" "clean a" and f: "\<forall>r \<in> set rows. rs_secret r \<longrightarrow> as_blank f r"
  obtains (raised) err where "resolve_from_db se (map (swap_secret f) rows) spec t a = Inl err" "resolve_from_db se rows spec t a = Inl err"
  | (found) x y where "resolve_from_db se (map (swap_secret f) rows) spec t a = Inr x" "resolve_from_db se rows spec t a = Inr y"
      "x = [] \<longleftrightarrow> y = []"
proof (cases "normalize_runtime_setting_name ''integrations''"; cases "normalize_runtime_setting_name (ic_key spec)")
  fix d k assume n: "normalize_runtime_setting_name ''integrations'' = Inr d" "normalize_runtime_setting_name (ic_key spec) = Inr k"
  show ?thesis
  proof (cases "ranked_rows se rows t a d k")
    case (Inl err)
    then show ?thesis using raised [of err] n by (simp add: resolve_from_db_def ranked_rows_swap [OF assms(1,2)])
  next
    case (Inr cs)
    show ?thesis
    proof (cases cs)
      case Nil
      then show ?thesis using found [of "[]" "[]"] n Inr by (simp add: resolve_from_db_def ranked_rows_swap [OF assms(1,2)])
    next
      case (Cons r rs)
      then have "rs_secret r \<longrightarrow> as_blank f r" using f ranked_subset [OF assms(1,2) Inr] by auto
      then have "strip (pystr (por (row_value se (swap_secret f r)) (PStr []))) = [] \<longleftrightarrow> strip (pystr (por (row_value se r) (PStr []))) = []"
        by (auto simp: swap_secret_def row_value_def as_blank_def por_def str_or_def)
      then show ?thesis using found n Inr Cons by (simp add: resolve_from_db_def ranked_rows_swap [OF assms(1,2)])
    qed
  qed
qed (use raised in \<open>auto simp: resolve_from_db_def\<close>)

lemma resolve_swap:
  assumes "clean t" "clean a" and f: "\<forall>r \<in> set rows. rs_secret r \<longrightarrow> as_blank f r"
  shows "bindE (resolve_runtime_setting se (map (swap_secret f) rows) t a d k e z) (\<lambda>(item, _). Inr item) =
    bindE (resolve_runtime_setting se rows t a d k e z) (\<lambda>(item, _). Inr item)"
proof (cases "normalize_runtime_setting_name d"; cases "normalize_runtime_setting_name k")
  fix d' k' assume n: "normalize_runtime_setting_name d = Inr d'" "normalize_runtime_setting_name k = Inr k'"
  show ?thesis
  proof (cases "ranked_rows se rows t a d' k'")
    case (Inl err)
    then show ?thesis using n by (simp add: resolve_runtime_setting_def ranked_rows_swap [OF assms(1,2)])
  next
    case (Inr cs)
    show ?thesis
    proof (cases cs)
      case Nil
      have p: "public_setting (setting_stub t a d' k' [] True []) None (PStr (str_or x v))
            (if x \<noteq> [] then ''db'' else if v \<noteq> [] then ''env'' else ''default'') =
          public_setting (setting_stub t a d' k' [] True []) None (PStr (str_or y v))
            (if y \<noteq> [] then ''db'' else if v \<noteq> [] then ''env'' else ''default'')" if "x = [] \<longleftrightarrow> y = []" for x y v
        using that by (auto simp: public_setting_def setting_stub_def Let_def str_or_def)
      have "bindE (bindE (resolve_from_db se (map (swap_secret f) rows) spec t a) (\<lambda>db_val.
            let env_val = resolve_from_env (se_getenv se) (env_candidates [] (ic_env_keys spec)); value = PStr (str_or db_val env_val);
                source = (if db_val \<noteq> [] then ''db'' else if env_val \<noteq> [] then ''env'' else ''default'')
            in Inr (public_setting (setting_stub t a d' k' [] True []) None value source, value))) (\<lambda>(item, _). Inr item) =
          bindE (bindE (resolve_from_db se rows spec t a) (\<lambda>db_val.
            let env_val = resolve_from_env (se_getenv se) (env_candidates [] (ic_env_keys spec)); value = PStr (str_or db_val env_val);
                source = (if db_val \<noteq> [] then ''db'' else if env_val \<noteq> [] then ''env'' else ''default'')
            in Inr (public_setting (setting_stub t a d' k' [] True []) None value source, value))) (\<lambda>(item, _). Inr item)" for spec
        using assms
      proof (cases rule: resolve_from_db_swap [where se = se and spec = spec])
        case (found x y)
        then show ?thesis using p [OF found(3)] by (simp add: Let_def)
      qed simp
      then show ?thesis using n Inr Nil
        by (auto simp: resolve_runtime_setting_def ranked_rows_swap [OF assms(1,2)] bindE_assoc intro!: bindE_cong split: option.split)
    next
      case (Cons r rs)
      then have "rs_secret r \<longrightarrow> as_blank f r" using f ranked_subset [OF assms(1,2) Inr] by auto
      then show ?thesis using n Inr Cons
        by (simp add: resolve_runtime_setting_def ranked_rows_swap [OF assms(1,2)] Let_def swap_public)
    qed
  qed
qed (simp_all add: resolve_runtime_setting_def)

text \<open>
  C11. The listing of the settings does not depend on the secrets: put any other secrets in the place of the stored
  ones, blank where they are blank, and every actor of every tenant sees the same listing.
\<close>

lemma listing_hides_secrets:
  assumes "clean tenant_id" "clean actor_email" and "\<forall>r \<in> set rows. rs_secret r \<longrightarrow> as_blank f r"
  shows "list_runtime_settings_effective se (map (swap_secret f) rows) tenant_id actor_email domains =
    list_runtime_settings_effective se rows tenant_id actor_email domains"
proof (cases "mapE normalize_runtime_setting_name (filter (\<lambda>d. d \<noteq> []) domains)")
  case (Inr ds)
  then have ds: "\<forall>d \<in> set ds. clean d" by (rule mapE_normalized)
  then have l: "read_lits (map (\<lambda>d. sql_lit d 64) (sort (remdups ds))) = Some (map (take 64) (sort (remdups ds)))"
    by (intro normalized_lits) simp
  have t: "read_lit (sql_lit (normalize_tenant tenant_id) 128) = Some (take 128 (normalize_tenant tenant_id))"
      "read_lit (sql_lit (normalize_actor actor_email) 256) = Some (take 256 (normalize_actor actor_email))"
    by (simp_all add: clean_lit clean_scope assms(1,2))
  have "visible_rows se ds (map (swap_secret f) rows) tenant_id actor_email = map (swap_secret f) (visible_rows se ds rows tenant_id actor_email)"
    using l t by (simp add: visible_rows_def Let_def sel_all_map)
  then have "setting_keys se ds (visible_rows se ds (map (swap_secret f) rows) tenant_id actor_email) =
      setting_keys se ds (visible_rows se ds rows tenant_id actor_email)"
    by (simp add: setting_keys_def comp_def)
  with Inr show ?thesis by (simp add: list_runtime_settings_effective_def resolve_swap [OF assms])
qed (simp add: list_runtime_settings_effective_def)

lemma listing_hides_secrets_witness:
  "list_runtime_settings_effective settings_env0 [model_setting, secret_setting\<lparr>rs_value := ''xyz''\<rparr>] ''t'' ''ana'' [] =
     list_runtime_settings_effective settings_env0 [model_setting, secret_setting] ''t'' ''ana'' []"
proof -
  have s: "map (swap_secret (\<lambda>_. ''xyz'')) [model_setting, secret_setting] = [model_setting, secret_setting\<lparr>rs_value := ''xyz''\<rparr>]"
    by code_simp
  have "clean ''t''" "clean ''ana''" "\<forall>r \<in> set [model_setting, secret_setting]. rs_secret r \<longrightarrow> as_blank (\<lambda>_. ''xyz'') r" by code_simp+
  from listing_hides_secrets [OF this, of settings_env0 "[]"] show ?thesis unfolding s .
qed

text \<open>
  One bad name breaks the listing: a setting whose key has no letter or digit is accepted by the handler, stored
  as it is sent, and from then on the listing raises for every actor who sees its scope; in the scope of all tenants,
  for everyone.
\<close>

lemma bad_key_breaks_listing:
  assumes ok: "settings_ok (rd_settings db)" "clean_uuid se" "tenant \<noteq> []" and k: "normalize_runtime_setting_name k = Inl err"
    and w: "apply_upsert_runtime_setting (se_env se) (setting_command tenant actor d k v kind u) db = Inr db'"
    and viewer: "clean tenant_id" "clean actor_email" "tenant \<in> {take 128 (normalize_tenant tenant_id), ''global''}"
      "actor \<in> {take 256 (normalize_actor actor_email), []}"
  shows "\<exists>e. list_runtime_settings_effective se (rd_settings db') tenant_id actor_email [] = Inl e"
proof -
  let ?rows = "rd_settings db'"
  obtain r where r: "wrote (rd_settings db) ?rows (tenant, actor, d, k) r" using handler_writes [OF ok w] by blast
  then have "active_at ?rows (tenant, actor, d, k) = Some r" "uniq rs_lookup ?rows" by (simp_all add: wrote_def settings_ok_def)
  then have r: "r \<in> set ?rows" "rs_lookup r = (tenant, actor, d, k)" "rs_active r" using active_at_iff by blast+
  have "read_lit (sql_lit (normalize_tenant tenant_id) 128) = Some (take 128 (normalize_tenant tenant_id))"
      "read_lit (sql_lit (normalize_actor actor_email) 256) = Some (take 256 (normalize_actor actor_email))"
    by (simp_all add: clean_lit clean_scope viewer(1,2))
  then have "r \<in> set (visible_rows se [] ?rows tenant_id actor_email)"
    using r viewer(3,4) by (auto simp: visible_rows_def Let_def sel_all_def rs_lookup_def)
  moreover have "(rs_domain r, rs_key r) = (d, k)" using r(2) by (simp add: rs_lookup_def)
  ultimately have m: "(d, k) \<in> set (setting_keys se [] (visible_rows se [] ?rows tenant_id actor_email))"
    unfolding setting_keys_def set_insert_pairs by force
  have "isl (resolve_runtime_setting se ?rows tenant_id actor_email d k e z)" for e z
    using k by (cases "normalize_runtime_setting_name d") (simp_all add: resolve_runtime_setting_def)
  then have "isl (bindE (resolve_runtime_setting se ?rows tenant_id actor_email d k e z) (\<lambda>(item, _). Inr item))" for e z
    by (rule isl_bindE)
  then show ?thesis unfolding list_runtime_settings_effective_def by (simp add: mapE_Inl [OF m])
qed

lemma bad_key_breaks_listing_witness:
  "\<exists>db' e. apply_upsert_runtime_setting env0 (setting_command ''global'' [] ''ui'' ''--'' ''on'' ''string'' ''u'') (settings_db []) = Inr db' \<and>
     list_runtime_settings_effective settings_env0 (rd_settings db') ''t9'' ''bob'' [] = Inl e"
proof -
  let ?q = "apply_upsert_runtime_setting env0 (setting_command ''global'' [] ''ui'' ''--'' ''on'' ''string'' ''u'') (settings_db [])"
  have "isl ?q = False" by code_simp
  then obtain db' where q: "?q = Inr db'" by (rule isl_InrE)
  have e: "rd_settings (settings_db []) = []" "se_env settings_env0 = env0" by (simp_all add: settings_db_def settings_env0_def)
  have ok: "settings_ok (rd_settings (settings_db []))" unfolding e by (rule demo_ok)
  have q': "apply_upsert_runtime_setting (se_env settings_env0) (setting_command ''global'' [] ''ui'' ''--'' ''on'' ''string'' ''u'')
      (settings_db []) = Inr db'" unfolding e by (rule q)
  have n: "normalize_runtime_setting_name ''--'' = Inl (ValueError ''Nombre de setting requerido'')" "''global'' \<noteq> []"
    "clean ''t9''" "clean ''bob''" "''global'' \<in> {take 128 (normalize_tenant ''t9''), ''global''}"
    "[] \<in> {take 256 (normalize_actor ''bob''), []}" by code_simp+
  from bad_key_breaks_listing [OF ok demo_ok(2) n(2,1) q' n(3-6)] q show ?thesis by blast
qed

subsection \<open>The model of a worker\<close>

lemma fold_update_lookup:
  "map_of (fold (\<lambda>r d. AList.update (K r) (V r) d) rs d0) k =
    (case sel_one (\<lambda>r. K r = k) (rev rs) of Some r \<Rightarrow> Some (V r) | None \<Rightarrow> map_of d0 k)"
proof (induction rs rule: rev_induct)
  case (snoc r rs)
  then show ?case by (simp add: update_conv')
qed simp

lemma fold_update_distinct: "distinct (map fst d0) \<Longrightarrow> distinct (map fst (fold (\<lambda>r d. AList.update (K r) (V r) d) rs d0))"
  by (induction rs arbitrary: d0) (simp_all add: distinct_update)

lemma find_only: "x \<in> set xs \<Longrightarrow> P x \<Longrightarrow> (\<And>y. y \<in> set xs \<Longrightarrow> P y \<Longrightarrow> y = x) \<Longrightarrow> sel_one P xs = Some x"
proof (cases "sel_one P xs")
  case None
  moreover assume "x \<in> set xs" "P x"
  ultimately show ?thesis by (simp add: sel_one_None)
next
  case (Some z)
  moreover assume "\<And>y. y \<in> set xs \<Longrightarrow> P y \<Longrightarrow> y = x"
  ultimately show ?thesis using sel_one_Some [OF Some] by simp
qed

text \<open>
  The model an administrator sets for a worker of a tenant, sent through the queue, is the one the worker then
  runs with: whatever the chat uses, and whatever is set for the worker in all tenants.
\<close>

lemma worker_model_applies:
  assumes ok: "settings_ok (rd_settings db)" "clean_uuid se" and c: "canonical (tenant, [], ''worker_llm'', key)"
    and worker: "strip worker \<noteq> []" "normalize_runtime_setting_name worker = Inr key"
    and w: "apply_upsert_runtime_setting (se_env se) (setting_command tenant [] ''worker_llm'' key model kind u) db = Inr db'"
    and m: "strip model \<noteq> []" "\<not> (strip model = strip llm_model \<and> provider = ''openrouter'')"
  shows "worker_llm_model se (Some (rd_settings db')) tenant worker = strip model \<and>
    apply_worker_llm_override se (Some (rd_settings db')) tenant worker (llm, provider, llm_model, base_url) =
      (None, ''openrouter'', strip model, ''https://openrouter.ai/api/v1'')"
proof -
  note l = canonical_lits [OF c]
  have t: "tenant \<noteq> []" using l(5) by (auto simp: normalize_tenant_def)
  obtain r where r: "wrote (rd_settings db) (rd_settings db') (tenant, [], ''worker_llm'', key) r" "rs_value r = model"
    using handler_writes [OF ok t w] by blast
  have u: "uniq rs_lookup (rd_settings db')" using r by (simp add: wrote_def settings_ok_def)
  have "active_at (rd_settings db') (tenant, [], ''worker_llm'', key) = Some r" using r(1) by (simp add: wrote_def)
  then have r': "r \<in> set (rd_settings db')" "rs_lookup r = (tenant, [], ''worker_llm'', key)" "rs_active r"
    using active_at_iff [OF u] by blast+
  define seen where "seen = sel_all (\<lambda>r. rs_active r \<and> rs_domain r = ''worker_llm'' \<and> rs_actor r = [] \<and> rs_tenant r \<in> {tenant, ''global''}) (rd_settings db')"
  define globals where "globals = filter (\<lambda>r. rs_tenant r = ''global'') seen"
  define owns where "owns = filter (\<lambda>r. rs_tenant r \<noteq> ''global'') seen"
  let ?d = "fold (\<lambda>r d. AList.update (rs_key r) (strip (rs_value r)) d) (globals @ owns) []"
  have list: "list_worker_llm_models se (rd_settings db') tenant = filter (\<lambda>(k, v). k \<noteq> [] \<and> v \<noteq> []) ?d"
    using l(1,5) by (simp add: list_worker_llm_models_def Let_def seen_def globals_def owns_def)
  have only: "y = r" if "y \<in> set seen" "rs_tenant y = tenant" "rs_key y = key" for y
    using that r' uniq_eq [OF u, of y r] by (auto simp: seen_def sel_all_def rs_lookup_def)
  have rs: "r \<in> set seen" using r' by (auto simp: seen_def sel_all_def rs_lookup_def)
  have "sel_one (\<lambda>r. rs_key r = key) (rev owns @ rev globals) = Some r"
  proof (cases "tenant = ''global''")
    case True
    then have "owns = []" "globals = seen" by (auto simp: owns_def globals_def seen_def sel_all_def filter_empty_conv intro!: filter_True)
    moreover have "sel_one (\<lambda>r. rs_key r = key) (rev seen) = Some r"
    proof (rule find_only)
      show "r \<in> set (rev seen)" "rs_key r = key" using rs r'(2) by (simp_all add: rs_lookup_def)
      fix y assume y: "y \<in> set (rev seen)" "rs_key y = key"
      then have "rs_tenant y = tenant" using True by (simp add: seen_def sel_all_def)
      then show "y = r" using only y by simp
    qed
    ultimately show ?thesis by simp
  next
    case False
    have "sel_one (\<lambda>r. rs_key r = key) (rev owns) = Some r"
    proof (rule find_only)
      show "r \<in> set (rev owns)" "rs_key r = key" using rs r'(2) False by (simp_all add: owns_def rs_lookup_def)
      fix y assume "y \<in> set (rev owns)" "rs_key y = key"
      then have y: "y \<in> set seen" "rs_tenant y \<noteq> ''global''" by (simp_all add: owns_def)
      then have "rs_tenant y = tenant" by (simp add: seen_def sel_all_def)
      then show "y = r" using only y(1) \<open>rs_key y = key\<close> by blast
    qed
    then show ?thesis by (simp add: sel_one_append)
  qed
  then have "map_of ?d key = Some (strip model)" unfolding fold_update_lookup by (simp add: r(2))
  then have "(key, strip model) \<in> set ?d" by (rule map_of_SomeD)
  moreover have "key \<noteq> []" using normalized_name(1) [OF worker(2)] .
  ultimately have "(key, strip model) \<in> set (list_worker_llm_models se (rd_settings db') tenant)" using m(1) by (simp add: list)
  moreover have "distinct (map fst (list_worker_llm_models se (rd_settings db') tenant))"
    unfolding list by (rule distinct_map_filter) (rule fold_update_distinct, simp)
  ultimately have "map_of (list_worker_llm_models se (rd_settings db') tenant) key = Some (strip model)" by simp
  then have "worker_llm_model se (Some (rd_settings db')) tenant worker = strip model"
    using worker by (simp add: worker_llm_model_def)
  then show ?thesis using m by (auto simp: apply_worker_llm_override_def Let_def)
qed

lemma worker_model_applies_witness:
  "\<exists>db'. apply_upsert_runtime_setting env0 (setting_command ''t'' [] ''worker_llm'' ''bi'' ''x/y'' ''string'' ''u'') (settings_db []) = Inr db' \<and>
     fst (snd (apply_worker_llm_override settings_env0 (Some (rd_settings db')) ''t'' ''BI'' (Some (), ''deepseek'', ''m'', []))) = ''openrouter''"
proof -
  let ?q = "apply_upsert_runtime_setting env0 (setting_command ''t'' [] ''worker_llm'' ''bi'' ''x/y'' ''string'' ''u'') (settings_db [])"
  have "isl ?q = False" by code_simp
  then obtain db' where q: "?q = Inr db'" by (rule isl_InrE)
  have e: "rd_settings (settings_db []) = []" "se_env settings_env0 = env0" by (simp_all add: settings_db_def settings_env0_def)
  have ok: "settings_ok (rd_settings (settings_db []))" unfolding e by (rule demo_ok)
  have q': "apply_upsert_runtime_setting (se_env settings_env0) (setting_command ''t'' [] ''worker_llm'' ''bi'' ''x/y'' ''string'' ''u'')
      (settings_db []) = Inr db'" unfolding e by (rule q)
  have c: "canonical (''t'', [], ''worker_llm'', ''bi'')" "strip ''BI'' \<noteq> []" "normalize_runtime_setting_name ''BI'' = Inr ''bi''"
    "strip ''x/y'' \<noteq> []" "\<not> (strip ''x/y'' = strip ''m'' \<and> ''deepseek'' = ''openrouter'')" by code_simp+
  from worker_model_applies [OF ok demo_ok(2) c(1-3) q' c(4,5), of "Some ()" "[]"] q show ?thesis by (intro exI [of _ db']) simp
qed

end
