(* ===== verification/ContextBudget.thy ===== *)
theory ContextBudget
  imports RuntimeSettings "HOL-Library.Sublist"
begin

text \<open>
  What an agent sends to its model (\<open>packages/agents/src/duckclaw/workers/provider_input_budget.py\<close>,
  \<open>tool_output_truncation.py\<close>, \<open>tool_binding.py\<close>): the estimate of tokens, the limits of the providers, the truncation
  of tool output, the trimming of the history to a limit, the split of a history for a summary and the tools bound to a
  local model. The limits come from the runtime settings (theory \<open>RuntimeSettings\<close>), then from the environment.
\<close>

subsection \<open>Messages\<close>

text \<open>
  The message classes of the chat library the code distinguishes; content is a text or a list of parts. Of the calls
  an assistant message asks for the names are kept.
\<close>

datatype role = System | Human | AI | Tool | Other

datatype content = Text string | Parts "pyval list"

record message =
  ms_role :: role
  ms_content :: content
  ms_name :: string
  ms_calls :: "string list"
  ms_call_id :: string

record budget_env =
  be_settings :: settings_env
  be_db :: "runtime_setting list option"
  be_millions :: "string \<Rightarrow> int option"
  be_reddit :: "string \<Rightarrow> string"

text \<open>
  \<open>be_millions\<close> is \<open>int(float(s) * 1000000)\<close>, \<open>None\<close> when \<open>s\<close> is no number; \<open>be_reddit\<close> is the formatter of Reddit
  replies (\<open>reddit_formatters.py\<close>), of which nothing is assumed. The ellipsis (U+2026) is outside the modelled characters
  and stands as a middle dot.
\<close>

definition ellipsis :: char where
  "ellipsis = CHR 0xB7"

subsection \<open>Limits\<close>

definition clamp :: "int \<Rightarrow> int \<Rightarrow> int \<Rightarrow> int" where
  "clamp minimum maximum n = max minimum (min n maximum)"

definition env_text :: "budget_env \<Rightarrow> string \<Rightarrow> string" where
  "env_text be key = (case se_getenv (be_settings be) key of None \<Rightarrow> [] | Some v \<Rightarrow> v)"

definition runtime_budget_int :: "budget_env \<Rightarrow> string \<Rightarrow> string \<Rightarrow> int \<Rightarrow> int \<Rightarrow> int \<Rightarrow> int" where
  "runtime_budget_int be key env_key dflt minimum maximum = (let
     from_db = (case be_db be of
         None \<Rightarrow> None
       | Some rows \<Rightarrow> (case resolve_runtime_setting (be_settings be) rows ''global'' [] ''runtime.provider_budget'' key [] [] of
           Inl _ \<Rightarrow> None
         | Inr (_, value) \<Rightarrow> parse_int (strip (pystr (por value (PStr []))))))
   in case from_db of
        Some n \<Rightarrow> clamp minimum maximum n
      | None \<Rightarrow> (case parse_int (strip (env_text be env_key)) of
          Some n \<Rightarrow> clamp minimum maximum n
        | None \<Rightarrow> dflt))"

definition context_prune_globally_enabled :: "budget_env \<Rightarrow> bool" where
  "context_prune_globally_enabled be \<longleftrightarrow>
     lower (strip (str_or (env_text be ''DUCKCLAW_CONTEXT_PRUNE_ENABLED'') ''1'')) \<notin> {''0'', ''false'', ''no'', ''off''}"

definition context_prune_max_estimated_tokens :: "budget_env \<Rightarrow> int" where
  "context_prune_max_estimated_tokens be =
     clamp 500000 32000000 (case be_millions be (strip (str_or (env_text be ''DUCKCLAW_CONTEXT_PRUNE_MAX_TOKENS_M'') ''4'')) of
       None \<Rightarrow> 4000000 | Some n \<Rightarrow> n)"

definition context_prune_max_messages_default :: "budget_env \<Rightarrow> int" where
  "context_prune_max_messages_default be =
     runtime_budget_int be ''context_prune.max_messages'' ''DUCKCLAW_CONTEXT_PRUNE_MAX_MESSAGES'' 10000 2 100000"

definition env_int_at_least :: "budget_env \<Rightarrow> string \<Rightarrow> string \<Rightarrow> int \<Rightarrow> int \<Rightarrow> int" where
  "env_int_at_least be key dflt_text minimum dflt = (case parse_int (strip (str_or (env_text be key) dflt_text)) of
     None \<Rightarrow> dflt | Some n \<Rightarrow> max minimum n)"

definition context_prune_keep_last_messages_default :: "budget_env \<Rightarrow> int" where
  "context_prune_keep_last_messages_default be = env_int_at_least be ''DUCKCLAW_CONTEXT_PRUNE_KEEP_LAST_MESSAGES'' ''6'' 1 6"

definition context_prune_tool_content_max_chars_default :: "budget_env \<Rightarrow> int" where
  "context_prune_tool_content_max_chars_default be = env_int_at_least be ''DUCKCLAW_CONTEXT_PRUNE_TOOL_MAX_CHARS'' ''8000'' 500 8000"

definition groq_max_estimated_input_tokens :: "budget_env \<Rightarrow> int" where
  "groq_max_estimated_input_tokens be =
     runtime_budget_int be ''groq.max_input_tokens'' ''DUCKCLAW_GROQ_MAX_INPUT_TOKENS'' 5000 1500 11500"

definition groq_tool_message_max_chars :: "budget_env \<Rightarrow> int" where
  "groq_tool_message_max_chars be =
     runtime_budget_int be ''groq.tool_message_max_chars'' ''DUCKCLAW_GROQ_TOOL_MESSAGE_MAX_CHARS'' 3500 400 100000"

definition mlx_max_estimated_input_tokens :: "budget_env \<Rightarrow> int" where
  "mlx_max_estimated_input_tokens be =
     runtime_budget_int be ''mlx.max_input_tokens'' ''DUCKCLAW_MLX_MAX_INPUT_TOKENS'' 20000 2000 30000"

definition mlx_tokens_per_bound_tool_estimate :: "budget_env \<Rightarrow> int" where
  "mlx_tokens_per_bound_tool_estimate be =
     runtime_budget_int be ''mlx.tokens_per_bound_tool'' ''DUCKCLAW_MLX_TOKENS_PER_BOUND_TOOL'' 350 100 800"

definition mlx_message_reserve_tokens :: "budget_env \<Rightarrow> int" where
  "mlx_message_reserve_tokens be =
     runtime_budget_int be ''mlx.message_reserve_tokens'' ''DUCKCLAW_MLX_MESSAGE_RESERVE_TOKENS'' 4000 1000 12000"

definition mlx_max_bound_tools :: "budget_env \<Rightarrow> int" where
  "mlx_max_bound_tools be = max 8 ((mlx_max_estimated_input_tokens be - mlx_message_reserve_tokens be) div
     max 1 (mlx_tokens_per_bound_tool_estimate be))"

definition mlx_tool_schema_reserve_tokens :: "budget_env \<Rightarrow> int \<Rightarrow> int" where
  "mlx_tool_schema_reserve_tokens be bound_tools_n = (let n = max 0 bound_tools_n in
     if n \<le> 0 then 0
     else min (mlx_max_estimated_input_tokens be - 2000) (n * mlx_tokens_per_bound_tool_estimate be))"

definition mlx_effective_message_cap :: "budget_env \<Rightarrow> int \<Rightarrow> int" where
  "mlx_effective_message_cap be bound_tools_n =
     max 2000 (mlx_max_estimated_input_tokens be - mlx_tool_schema_reserve_tokens be bound_tools_n)"

definition mlx_tool_message_max_chars :: "budget_env \<Rightarrow> int" where
  "mlx_tool_message_max_chars be =
     runtime_budget_int be ''mlx.tool_message_max_chars'' ''DUCKCLAW_MLX_TOOL_MESSAGE_MAX_CHARS'' 5000 400 80000"

definition is_mlx :: "string \<Rightarrow> bool" where
  "is_mlx provider \<longleftrightarrow> lower (strip provider) \<in> {''mlx'', ''iotcorelabs''}"

definition context_prune_max_estimated_tokens_for_provider :: "budget_env \<Rightarrow> string \<Rightarrow> int" where
  "context_prune_max_estimated_tokens_for_provider be provider =
     (if is_mlx provider then mlx_max_estimated_input_tokens be else context_prune_max_estimated_tokens be)"

definition context_budget_tokens :: "budget_env \<Rightarrow> int" where
  "context_budget_tokens be = (case parse_int (strip (str_or (env_text be ''DUCKCLAW_CONTEXT_BUDGET_TOKENS'') ''0'')) of
     None \<Rightarrow> 0 | Some n \<Rightarrow> max 0 n)"

definition env_tokens :: "budget_env \<Rightarrow> string \<Rightarrow> int \<Rightarrow> int" where
  "env_tokens be key dflt = (let raw = strip (env_text be key) in
     if raw = [] then max 0 dflt else case parse_int raw of None \<Rightarrow> dflt | Some n \<Rightarrow> max 0 n)"

subsection \<open>The estimate\<close>

fun part_chars :: "pyval \<Rightarrow> nat" where
  "part_chars (PDict d) = (if pget d ''type'' PNone = PStr ''text'' then length (pystr (pget d ''text'' (PStr []))) else 0)"
| "part_chars _ = 0"

definition chars :: "message \<Rightarrow> nat" where
  "chars m = (case ms_content m of Text s \<Rightarrow> length s | Parts ps \<Rightarrow> sum_list (map part_chars ps))"

definition estimate_tokens_from_messages :: "message list \<Rightarrow> int" where
  "estimate_tokens_from_messages messages = int (sum_list (map chars messages)) div 4"

record breakdown =
  bd_system :: int
  bd_messages :: int
  bd_tools :: int
  bd_tool_results :: int
  bd_tool_schemas :: int
  bd_total :: int

definition role_tokens :: "role set \<Rightarrow> message list \<Rightarrow> int" where
  "role_tokens roles messages = sum_list (map (\<lambda>m. estimate_tokens_from_messages [m]) (filter (\<lambda>m. ms_role m \<in> roles) messages))"

definition tool_names :: "message list \<Rightarrow> string list" where
  "tool_names messages = remdups (filter (\<lambda>n. n \<noteq> []) (concat (map (\<lambda>m. case ms_role m of
     Tool \<Rightarrow> [strip (ms_name m)] | AI \<Rightarrow> map strip (ms_calls m) | _ \<Rightarrow> []) messages)))"

definition estimate_context_token_breakdown :: "budget_env \<Rightarrow> message list \<Rightarrow> int option \<Rightarrow> breakdown" where
  "estimate_context_token_breakdown be messages bound_tools_n = (let
     system = role_tokens {System} messages;
     chat = role_tokens {Human, AI, Other} messages;
     tool_results = role_tokens {Tool} messages;
     schema_n = (case bound_tools_n of Some n \<Rightarrow> max 0 n | None \<Rightarrow> int (length (tool_names messages)));
     tool_schemas = (if schema_n \<noteq> 0 then mlx_tool_schema_reserve_tokens be schema_n else 0);
     tools = tool_results + tool_schemas
   in \<lparr>bd_system = system, bd_messages = chat, bd_tools = tools, bd_tool_results = tool_results, bd_tool_schemas = tool_schemas,
      bd_total = system + chat + tools\<rparr>)"

subsection \<open>Truncation of tool output\<close>

definition size_marker :: string where
  "size_marker = [CHR 10, ellipsis] @ ''[truncado por tama'' @ [CHR 0xF1] @ ''o]''"

definition cut_to :: "nat \<Rightarrow> string \<Rightarrow> string" where
  "cut_to max_chars s = (if length s \<le> max_chars then s else take max_chars s @ size_marker)"

text \<open>The three streams of a sandbox result are cut to 4000 characters each, and the picture is dropped.\<close>

definition cut_stream :: "payload \<Rightarrow> string \<Rightarrow> payload" where
  "cut_stream data key = (case map_of data key of
     Some (PStr s) \<Rightarrow> if 4000 < length s then pset key (PStr (take 4000 s @ [ellipsis] @ ''[truncado]'')) data else data
   | _ \<Rightarrow> data)"

definition compact_run_sandbox_tool_content_for_llm :: "settings_env \<Rightarrow> string \<Rightarrow> nat \<Rightarrow> string" where
  "compact_run_sandbox_tool_content_for_llm se c max_chars = (let s = strip c in
     if \<not> startswith ''{'' s then cut_to max_chars c
     else case se_loads se s of
       None \<Rightarrow> cut_to max_chars c
     | Some (PDict data) \<Rightarrow> (let
           data = (if truthy (pget data ''figure_base64'' PNone) then AList.delete ''figure_base64'' data else data);
           data = foldl cut_stream data [''output'', ''stdout'', ''stderr'']
         in cut_to max_chars (json_dumps (PDict data)))
     | Some _ \<Rightarrow> take max_chars c @ size_marker)"

definition truncate_tool_message :: "budget_env \<Rightarrow> int \<Rightarrow> message \<Rightarrow> message" where
  "truncate_tool_message be max_chars m = (case ms_content m of
     Parts _ \<Rightarrow> m
   | Text original \<Rightarrow>
       if ms_role m \<noteq> Tool \<or> max_chars \<le> 0 then m
       else let text_content = (if startswith ''reddit_'' (ms_name m) then be_reddit be original else original)
         in if ms_name m \<in> {''run_sandbox'', ''run_browser_sandbox''}
           then m\<lparr>ms_content := Text (compact_run_sandbox_tool_content_for_llm (be_settings be) text_content (nat max_chars)), ms_calls := []\<rparr>
         else if max_chars < int (length text_content)
           then m\<lparr>ms_content := Text (take (nat max_chars) text_content @ size_marker), ms_calls := []\<rparr>
         else if text_content \<noteq> original then m\<lparr>ms_content := Text text_content, ms_calls := []\<rparr>
         else m)"

definition truncate_tool_messages_for_llm :: "budget_env \<Rightarrow> message list \<Rightarrow> int \<Rightarrow> message list" where
  "truncate_tool_messages_for_llm be messages max_chars = map (truncate_tool_message be max_chars) messages"

subsection \<open>Trimming the history\<close>

definition asks_tools :: "message \<Rightarrow> bool" where
  "asks_tools m \<longleftrightarrow> ms_role m = AI \<and> ms_calls m \<noteq> []"

definition is_tool :: "message \<Rightarrow> bool" where
  "is_tool m \<longleftrightarrow> ms_role m = Tool"

function (sequential) trim_history :: "int \<Rightarrow> message list \<Rightarrow> message list" where
  "trim_history cap (m # victim # n # ms) =
     (if estimate_tokens_from_messages (m # victim # n # ms) \<le> cap then m # victim # n # ms
      else if ms_role m = System
        then trim_history cap (m # (if asks_tools victim then dropWhile is_tool (n # ms) else n # ms))
      else trim_history cap (victim # n # ms))"
| "trim_history cap ms = ms"
  by pat_completeness auto

termination
proof (relation "measure (\<lambda>(_, ms). length ms)")
  fix cap m victim n and ms :: "message list"
  have "length (dropWhile is_tool (n # ms)) \<le> length (n # ms)" by (rule length_dropWhile_le)
  then show "((cap, m # (if asks_tools victim then dropWhile is_tool (n # ms) else n # ms)), (cap, m # victim # n # ms))
      \<in> measure (\<lambda>(_, ms). length ms)" by auto
qed auto

declare trim_history.simps [simp del]

definition content_text :: "content \<Rightarrow> string" where
  "content_text c = (case c of Text s \<Rightarrow> s | Parts ps \<Rightarrow> if ps = [] then [] else pystr (PList ps))"

definition system_note :: "string \<Rightarrow> string" where
  "system_note note_brand = [CHR 10, CHR 10] @ ''['' @ note_brand @ '': system prompt truncado por limite de contexto; '' @
     ''prioriza reglas criticas y herramientas.]''"

definition system_message :: "string \<Rightarrow> message" where
  "system_message s = \<lparr>ms_role = System, ms_content = Text s, ms_name = [], ms_calls = [], ms_call_id = []\<rparr>"

definition cut_system :: "int \<Rightarrow> string \<Rightarrow> message list \<Rightarrow> message list" where
  "cut_system cap note_brand msgs = (case msgs of
     [] \<Rightarrow> []
   | sys0 # rest \<Rightarrow>
       if ms_role sys0 \<noteq> System \<or> estimate_tokens_from_messages msgs \<le> cap then msgs
       else let content_s = content_text (ms_content sys0) in
         if content_s = [] then msgs
         else let over_tokens = estimate_tokens_from_messages msgs - cap;
                  cut = min (int (length content_s)) (over_tokens * 4 + 400);
                  kept = (if cut < int (length content_s) then take (length content_s - nat cut) content_s
                    else take (max 3000 (length content_s div 2)) content_s)
           in system_message (kept @ system_note note_brand) # rest)"

definition trim_messages_to_estimated_cap :: "budget_env \<Rightarrow> message list \<Rightarrow> int \<Rightarrow> int \<Rightarrow> string \<Rightarrow> message list" where
  "trim_messages_to_estimated_cap be messages cap tool_cap note_brand =
     cut_system cap note_brand (trim_history cap (truncate_tool_messages_for_llm be messages tool_cap))"

definition apply_groq_message_budget :: "budget_env \<Rightarrow> message list \<Rightarrow> string \<Rightarrow> message list" where
  "apply_groq_message_budget be messages provider =
     (if lower (strip provider) \<noteq> ''groq'' \<or> messages = [] then messages
      else trim_messages_to_estimated_cap be messages (groq_max_estimated_input_tokens be) (groq_tool_message_max_chars be) ''GROQ'')"

definition apply_mlx_message_budget :: "budget_env \<Rightarrow> message list \<Rightarrow> string \<Rightarrow> int \<Rightarrow> message list" where
  "apply_mlx_message_budget be messages provider bound_tools_n =
     (if \<not> is_mlx provider \<or> messages = [] then messages
      else trim_messages_to_estimated_cap be messages (mlx_effective_message_cap be bound_tools_n) (mlx_tool_message_max_chars be) ''MLX'')"

definition context_cap :: "budget_env \<Rightarrow> int \<Rightarrow> int" where
  "context_cap be bound_tools_n = max 2000 (context_budget_tokens be - env_tokens be ''DUCKCLAW_CONTEXT_OUTPUT_RESERVE_TOKENS'' 8192 -
     max 0 bound_tools_n * env_tokens be ''DUCKCLAW_CONTEXT_TOKENS_PER_TOOL'' 250)"

definition apply_context_budget :: "budget_env \<Rightarrow> message list \<Rightarrow> int \<Rightarrow> message list" where
  "apply_context_budget be messages bound_tools_n =
     (if context_budget_tokens be \<le> 0 \<or> messages = [] then messages
      else let cap = context_cap be bound_tools_n in
        trim_messages_to_estimated_cap be messages cap (max 2000 (cap div 2)) ''BUDGET'')"

definition apply_provider_input_budget :: "budget_env \<Rightarrow> message list \<Rightarrow> string \<Rightarrow> int \<Rightarrow> message list" where
  "apply_provider_input_budget be messages provider bound_tools_n =
     (if lower (strip provider) = ''groq'' then apply_groq_message_budget be messages provider
      else if is_mlx provider then apply_mlx_message_budget be messages provider bound_tools_n
      else apply_context_budget be messages bound_tools_n)"

subsection \<open>The policy of the context monitor\<close>

record pruning =
  pr_max_messages :: int
  pr_max_estimated_tokens :: int
  pr_keep_last_messages :: int
  pr_tool_content_max_chars :: int
  pr_sandbox_heartbeat :: bool

text \<open>\<open>manifest\<close> is the pruning section of a worker, empty when it has none; \<open>None\<close> is the policy that is off.\<close>

definition manifest_int :: "payload \<Rightarrow> bool \<Rightarrow> string \<Rightarrow> int \<Rightarrow> py_error + int" where
  "manifest_int manifest on key dflt = (if on \<and> phas manifest key then pyint (pget manifest key PNone) else Inr dflt)"

definition normalized_context_pruning :: "budget_env \<Rightarrow> payload \<Rightarrow> string \<Rightarrow> py_error + pruning option" where
  "normalized_context_pruning be manifest provider =
     (if pget manifest ''enabled'' PNone = PBool False \<or> \<not> context_prune_globally_enabled be then Inr None
      else let on = (pget manifest ''enabled'' PNone = PBool True) in
        bindE (manifest_int manifest on ''max_messages'' (context_prune_max_messages_default be)) (\<lambda>max_messages.
        bindE (manifest_int manifest on ''max_estimated_tokens'' (context_prune_max_estimated_tokens_for_provider be provider)) (\<lambda>max_tokens.
        bindE (manifest_int manifest on ''keep_last_messages'' (context_prune_keep_last_messages_default be)) (\<lambda>keep_last.
        bindE (manifest_int manifest on ''tool_content_max_chars'' (context_prune_tool_content_max_chars_default be)) (\<lambda>tool_chars.
        Inr (Some \<lparr>pr_max_messages = max 2 max_messages, pr_max_estimated_tokens = max 500 max_tokens,
          pr_keep_last_messages = max 1 keep_last, pr_tool_content_max_chars = max 500 tool_chars,
          pr_sandbox_heartbeat = truthy (pget manifest ''sandbox_heartbeat'' (PBool True))\<rparr>))))))"

subsection \<open>Splitting off the old part\<close>

fun back_to_call :: "message list \<Rightarrow> nat \<Rightarrow> nat" where
  "back_to_call msgs 0 = 0"
| "back_to_call msgs (Suc n) = (if is_tool (msgs ! Suc n) then back_to_call msgs n else Suc n)"

text \<open>The end of the tail is already the end of the list, so the loop that would extend it never runs.\<close>

definition split_for_pruning :: "message list \<Rightarrow> int \<Rightarrow> message list \<times> message list" where
  "split_for_pruning non_system keep_last = (let keep = nat (max 1 keep_last) in
     if length non_system \<le> keep then ([], non_system)
     else let split_at = back_to_call non_system (length non_system - keep)
       in (take split_at non_system, drop split_at non_system))"

subsection \<open>Tools bound to a model\<close>

text \<open>A tool is its name and the rest of it.\<close>

type_synonym 't tool = "string \<times> 't"

fun dedupe_from :: "string list \<Rightarrow> 't tool list \<Rightarrow> 't tool list" where
  "dedupe_from seen [] = []"
| "dedupe_from seen (t # ts) = (let name = strip (fst t) in
     if name = [] then t # dedupe_from seen ts
     else if name \<in> set seen then dedupe_from seen ts
     else t # dedupe_from (name # seen) ts)"

definition dedupe_tools_by_name :: "'t tool list \<Rightarrow> 't tool list" where
  "dedupe_tools_by_name tools = dedupe_from [] tools"

definition groq_tools_without_reddit_for_bind :: "'t tool list \<Rightarrow> 't tool list" where
  "groq_tools_without_reddit_for_bind tools = filter (\<lambda>t. \<not> startswith ''reddit_'' (fst t)) tools"

definition filter_tools_for_sandbox :: "'t tool list \<Rightarrow> bool \<Rightarrow> 't tool list" where
  "filter_tools_for_sandbox tools enabled = (if enabled then tools
     else filter (\<lambda>t. fst t \<notin> {''run_sandbox'', ''run_browser_sandbox'', ''get_browser_session_url''}) tools)"

definition mlx_bind_priority :: "string list" where
  "mlx_bind_priority = [''read_sql'', ''admin_sql'', ''inspect_schema'', ''get_schema_info'', ''tavily_search'', ''run_sandbox'',
     ''execute_sandbox_script'', ''catalog_retriever'', ''assess_crons_alignment'']"

text \<open>The second loop stops as soon as the limit is reached, checked after a tool is added.\<close>

fun pick_tools :: "nat \<Rightarrow> string list \<Rightarrow> nat \<Rightarrow> 't tool list \<Rightarrow> 't tool list" where
  "pick_tools cap seen n [] = []"
| "pick_tools cap seen n (t # ts) =
     (if fst t \<in> set seen then pick_tools cap seen n ts
      else if cap \<le> Suc n then [t]
      else t # pick_tools cap (fst t # seen) (Suc n) ts)"

definition mlx_tools_for_bind :: "budget_env \<Rightarrow> 't tool list \<Rightarrow> int option \<Rightarrow> 't tool list" where
  "mlx_tools_for_bind be tools max_tools = (let
     cap = nat (max 1 (case max_tools of Some n \<Rightarrow> n | None \<Rightarrow> mlx_max_bound_tools be))
   in if length tools \<le> cap then tools
      else let picked = List.map_filter (\<lambda>name. map_option (Pair name) (map_of (rev tools) name)) mlx_bind_priority
        in take cap (picked @ pick_tools cap (map fst picked) (length picked) tools))"

subsection \<open>The limits hold\<close>

lemma clamp_range: "minimum \<le> maximum \<Longrightarrow> minimum \<le> clamp minimum maximum n \<and> clamp minimum maximum n \<le> maximum"
  by (simp add: clamp_def)

lemma runtime_budget_range:
  assumes "minimum \<le> dflt" "dflt \<le> maximum"
  shows "minimum \<le> runtime_budget_int be key env_key dflt minimum maximum \<and> runtime_budget_int be key env_key dflt minimum maximum \<le> maximum"
  using assms clamp_range [of minimum maximum] by (auto simp: runtime_budget_int_def Let_def split: option.split)

lemma mlx_base_range: "2000 \<le> mlx_max_estimated_input_tokens be" "mlx_max_estimated_input_tokens be \<le> 30000"
  using runtime_budget_range [of 2000 20000 30000] by (simp_all add: mlx_max_estimated_input_tokens_def)

lemma mlx_per_tool_range: "100 \<le> mlx_tokens_per_bound_tool_estimate be" "mlx_tokens_per_bound_tool_estimate be \<le> 800"
  using runtime_budget_range [of 100 350 800] by (simp_all add: mlx_tokens_per_bound_tool_estimate_def)

text \<open>
  For a local model the limit of the messages and the reserve for the schemas of the bound tools add up to the
  limit of the whole input, which lies between 2000 and 30000 tokens whatever the settings and the environment hold;
  the messages keep at least 2000, and more tools never leave more room for them.
\<close>

lemma mlx_budget_adds_up:
  "mlx_effective_message_cap be n + mlx_tool_schema_reserve_tokens be n = mlx_max_estimated_input_tokens be \<and>
   2000 \<le> mlx_effective_message_cap be n \<and> mlx_max_estimated_input_tokens be \<le> 30000 \<and>
   0 \<le> mlx_tool_schema_reserve_tokens be n \<and> mlx_effective_message_cap be (max n m) \<le> mlx_effective_message_cap be n"
proof -
  let ?base = "mlx_max_estimated_input_tokens be" and ?per = "mlx_tokens_per_bound_tool_estimate be"
  have reserve: "mlx_tool_schema_reserve_tokens be k = (if k \<le> 0 then 0 else min (?base - 2000) (k * ?per))" for k
    by (auto simp: mlx_tool_schema_reserve_tokens_def Let_def max_def)
  have nonneg: "0 \<le> mlx_tool_schema_reserve_tokens be k" "mlx_tool_schema_reserve_tokens be k \<le> ?base - 2000" for k
    using mlx_base_range(1) [of be] mlx_per_tool_range(1) [of be] by (auto simp: reserve)
  have cap: "mlx_effective_message_cap be k = ?base - mlx_tool_schema_reserve_tokens be k" for k
    using nonneg(2) [of k] by (simp add: mlx_effective_message_cap_def)
  have "k * ?per \<le> l * ?per" if "k \<le> l" for k l using that mlx_per_tool_range(1) [of be] by (simp add: mult_right_mono)
  then have "mlx_tool_schema_reserve_tokens be n \<le> mlx_tool_schema_reserve_tokens be (max n m)"
    using nonneg(1) [of "max n m"] by (auto simp: reserve max_def min_def dest: order_trans)
  with cap nonneg(1) [of n] nonneg(2) [of n] mlx_base_range(2) [of be] show ?thesis by simp
qed

lemma is_digit_plain: "is_digit c \<Longrightarrow> \<not> is_space c \<and> c \<noteq> quote_char \<and> c \<noteq> CHR ''-'' \<and> c \<noteq> CHR ''+''"
proof -
  assume d: "is_digit c"
  have "code (CHR ''-'') = 45" "code (CHR ''+'') = 43" by code_simp+
  with d show ?thesis by (auto simp: is_digit_def is_space_def quote_code Let_def)
qed

lemma int_str_parses: "clean (int_str n) \<and> int_str n \<noteq> [] \<and> strip (int_str n) = int_str n \<and> parse_int (int_str n) = Some n"
proof -
  have d: "\<forall>c \<in> set (nat_str k). \<not> is_space c \<and> c \<noteq> quote_char \<and> c \<noteq> CHR ''-'' \<and> c \<noteq> CHR ''+''" for k
    using nat_str_digits [of k] is_digit_plain by blast
  have m: "\<not> is_space (CHR ''-'') \<and> CHR ''-'' \<noteq> quote_char" by code_simp
  have c: "\<forall>c \<in> set (int_str n). \<not> is_space c \<and> c \<noteq> quote_char"
    using d m by (auto simp: int_str_def)
  then have s: "strip (int_str n) = int_str n" by (intro strip_no_space) blast
  have "parse_int (int_str n) = Some n"
  proof (cases "n < 0")
    case True
    then show ?thesis unfolding parse_int_def s by (simp add: int_str_def digits_val_nat_str)
  next
    case False
    obtain x xs where x: "nat_str (nat n) = x # xs" by (cases "nat_str (nat n)") simp_all
    then have "x \<noteq> CHR ''-''" "x \<noteq> CHR ''+''" using d [of "nat n"] by simp_all
    moreover have "digits_val 0 False (x # xs) = Some (nat n)" using digits_val_nat_str [of "nat n"] x by simp
    ultimately show ?thesis using False x unfolding parse_int_def s by (simp add: int_str_def)
  qed
  moreover have "clean (int_str n)" using c by (auto simp: clean_def)
  moreover have "int_str n \<noteq> []" by (simp add: int_str_def)
  ultimately show ?thesis using s by blast
qed

text \<open>
  A limit an administrator stores for all tenants through the queue takes effect: the reader clamps it to the
  range of the provider.
\<close>

lemma stored_limit_applies:
  assumes ok: "settings_ok (rd_settings db)" "clean_uuid (be_settings be)"
    and w: "apply_upsert_runtime_setting (se_env (be_settings be))
      (setting_command ''global'' [] ''runtime.provider_budget'' ''groq.max_input_tokens'' (int_str n) ''string'' u) db = Inr db'"
    and u: "clean u" "length (int_str n) \<le> 8192"
  shows "groq_max_estimated_input_tokens (be\<lparr>be_db := Some (rd_settings db')\<rparr>) = clamp 1500 11500 n"
proof -
  have c: "canonical (''global'', [], ''runtime.provider_budget'', ''groq.max_input_tokens'')" by code_simp
  have v: "clean (int_str n)" "int_str n \<noteq> []" "strip (int_str n) = int_str n" "parse_int (int_str n) = Some n"
    using int_str_parses [of n] by simp_all
  obtain p where "resolve_runtime_setting (be_settings be) (rd_settings db') ''global'' [] ''runtime.provider_budget''
      ''groq.max_input_tokens'' [] [] = Inr (p, PStr (int_str n))"
    using queued.put_resolves [OF ok c v(1) u(2,1) _ queued_put_handler [OF w], of "[]" "[]"] by auto
  then show ?thesis using v by (simp add: groq_max_estimated_input_tokens_def runtime_budget_int_def por_def)
qed

definition budget_env0 :: budget_env where
  "budget_env0 = \<lparr>be_settings = settings_env0, be_db = None, be_millions = (\<lambda>_. None), be_reddit = (\<lambda>s. s)\<rparr>"

lemma stored_limit_applies_witness:
  "\<exists>db'. apply_upsert_runtime_setting env0 (setting_command ''global'' [] ''runtime.provider_budget'' ''groq.max_input_tokens'' ''99''
       ''string'' ''u'') (settings_db []) = Inr db' \<and>
     groq_max_estimated_input_tokens (budget_env0\<lparr>be_db := Some (rd_settings db')\<rparr>) = 1500"
proof -
  let ?q = "apply_upsert_runtime_setting env0 (setting_command ''global'' [] ''runtime.provider_budget'' ''groq.max_input_tokens'' ''99'' ''string'' ''u'') (settings_db [])"
  have "isl ?q = False" by code_simp
  then obtain db' where q: "?q = Inr db'" by (rule isl_InrE)
  have n: "int_str 99 = ''99''" "clean ''u''" "clamp 1500 11500 99 = 1500" by code_simp+
  have e: "rd_settings (settings_db []) = []" "se_env (be_settings budget_env0) = env0" "be_settings budget_env0 = settings_env0"
    by (simp_all add: settings_db_def settings_env0_def budget_env0_def)
  have ok: "settings_ok (rd_settings (settings_db []))" "clean_uuid (be_settings budget_env0)" unfolding e by (rule demo_ok)+
  have s0: "se_env settings_env0 = env0" by (simp add: settings_env0_def)
  have w: "apply_upsert_runtime_setting (se_env (be_settings budget_env0)) (setting_command ''global'' [] ''runtime.provider_budget''
      ''groq.max_input_tokens'' (int_str 99) ''string'' ''u'') (settings_db []) = Inr db'" unfolding e s0 n by (rule q)
  have "length (int_str 99) \<le> 8192" unfolding n by simp
  from stored_limit_applies [OF ok w n(2) this] q show ?thesis unfolding n(3) by blast
qed

subsection \<open>Truncation is bounded\<close>

lemma length_size_marker: "length size_marker = 23"
  by code_simp

lemma cut_to_bound: "length (cut_to n s) \<le> n + 23"
  by (simp add: cut_to_def length_size_marker)

lemma compact_bound: "length (compact_run_sandbox_tool_content_for_llm se c n) \<le> n + 23"
proof -
  note b = cut_to_bound
  show ?thesis
    unfolding compact_run_sandbox_tool_content_for_llm_def Let_def
    by (auto split: option.split pyval.split simp: b length_size_marker)
qed

lemma truncate_frame [simp]:
  "ms_role (truncate_tool_message be n m) = ms_role m" "ms_name (truncate_tool_message be n m) = ms_name m"
  "ms_call_id (truncate_tool_message be n m) = ms_call_id m"
  by (auto simp: truncate_tool_message_def Let_def split: content.split)

text \<open>
  Truncation of tool output changes the text of tool messages only: every message keeps its class, name and call,
  other messages and messages with parts are kept as they are, and with a positive limit no text of a tool message is
  longer than the limit and the marker of 23 characters.
\<close>

lemma tool_output_bounded:
  assumes "truncate_tool_messages_for_llm be messages max_chars = out" "0 < max_chars"
  shows "map ms_role out = map ms_role messages \<and> map ms_name out = map ms_name messages \<and>
    map ms_call_id out = map ms_call_id messages \<and>
    filter (\<lambda>m. ms_role m \<noteq> Tool) out = filter (\<lambda>m. ms_role m \<noteq> Tool) messages \<and>
    (\<forall>m \<in> set out. \<forall>s. ms_role m = Tool \<longrightarrow> ms_content m = Text s \<longrightarrow> length s \<le> nat max_chars + 23)"
proof -
  let ?t = "truncate_tool_message be max_chars"
  have out: "out = map ?t messages" using assms(1) by (simp add: truncate_tool_messages_for_llm_def)
  have same: "?t m = m" if "ms_role m \<noteq> Tool" for m using that by (simp add: truncate_tool_message_def split: content.split)
  have "filter (\<lambda>m. ms_role m \<noteq> Tool) (map ?t messages) = filter (\<lambda>m. ms_role m \<noteq> Tool) messages"
    by (induction messages) (simp_all add: same)
  moreover have "length s \<le> nat max_chars + 23" if "ms_role m = Tool" "ms_content (?t m) = Text s" for m s
    using that assms(2) compact_bound [of "be_settings be" _ "nat max_chars"] length_size_marker
    by (auto simp: truncate_tool_message_def Let_def split: content.split_asm if_split_asm)
  ultimately show ?thesis by (auto simp: out comp_def)
qed

definition msg :: "role \<Rightarrow> string \<Rightarrow> message" where
  "msg r s = \<lparr>ms_role = r, ms_content = Text s, ms_name = [], ms_calls = [], ms_call_id = []\<rparr>"

lemma tool_output_bounded_witness:
  "\<exists>out. truncate_tool_messages_for_llm budget_env0 [msg Human ''q'', msg Tool ''0123456789''] 4 = out \<and>
     (\<forall>m \<in> set out. \<forall>s. ms_role m = Tool \<longrightarrow> ms_content m = Text s \<longrightarrow> length s \<le> 27)"
  using tool_output_bounded [of budget_env0 "[msg Human ''q'', msg Tool ''0123456789'']" 4, OF refl] by simp

subsection \<open>Trimming keeps the conversation well formed\<close>

text \<open>Every tool result follows the message that asked for it, with only results between.\<close>

fun paired :: "bool \<Rightarrow> message list \<Rightarrow> bool" where
  "paired asked [] \<longleftrightarrow> True"
| "paired asked (m # ms) \<longleftrightarrow> (if is_tool m then asked \<and> paired asked ms else paired (asks_tools m) ms)"

lemma paired_after_tools: "paired asked ms \<Longrightarrow> paired False (dropWhile is_tool ms)"
  by (induction asked ms rule: paired.induct) (auto split: if_splits)

lemma paired_not_asked: "paired asked (m # ms) \<Longrightarrow> \<not> asks_tools m \<Longrightarrow> \<not> is_tool m \<Longrightarrow> paired False ms"
  by simp

lemma estimate_nonneg: "0 \<le> estimate_tokens_from_messages ms"
  by (simp add: estimate_tokens_from_messages_def)

lemma trim_history_fits: "length (trim_history cap ms) \<le> 2 \<or> estimate_tokens_from_messages (trim_history cap ms) \<le> cap"
proof (induction cap ms rule: trim_history.induct)
  case (1 cap m victim n ms)
  then show ?case by (subst (1 2) trim_history.simps) (auto split: if_split)
qed (simp_all add: trim_history.simps)

lemma trim_history_id: "estimate_tokens_from_messages ms \<le> cap \<Longrightarrow> trim_history cap ms = ms"
  by (induction cap ms rule: trim_history.induct) (simp_all add: trim_history.simps)

lemma trim_history_system:
  assumes "ms_role m = System"
  shows "\<exists>ms'. trim_history cap (m # ms) = m # ms' \<and> suffix ms' ms"
  using assms
proof (induction cap "m # ms" arbitrary: ms rule: trim_history.induct)
  case (1 cap victim n ms)
  let ?rest = "if asks_tools victim then dropWhile is_tool (n # ms) else n # ms"
  have "suffix ?rest (victim # n # ms)" by (auto intro: suffix_ConsI suffix_dropWhile)
  note shorter = this
  show ?case
  proof (cases "estimate_tokens_from_messages (m # victim # n # ms) \<le> cap")
    case True
    then show ?thesis by (intro exI [of _ "victim # n # ms"]) (simp add: trim_history_id)
  next
    case False
    with 1(1) [OF False 1(3) 1(3)] obtain ms' where "trim_history cap (m # ?rest) = m # ms'" "suffix ms' ?rest" by blast
    moreover have "trim_history cap (m # victim # n # ms) = trim_history cap (m # ?rest)"
      by (subst trim_history.simps) (simp only: False 1(3) if_False if_True simp_thms)
    ultimately show ?thesis using shorter suffix_order.trans by (intro exI [of _ ms']) simp
  qed
qed (auto simp: trim_history.simps)

lemma trim_history_paired:
  assumes "ms_role m = System" "paired False ms" "trim_history cap (m # ms) = m # ms'"
  shows "paired False ms'"
  using assms
proof (induction cap "m # ms" arbitrary: ms rule: trim_history.induct)
  case (1 cap victim n ms)
  have v: "\<not> is_tool victim" "paired (asks_tools victim) (n # ms)" using 1(4) by (auto split: if_splits)
  then have "paired False (if asks_tools victim then dropWhile is_tool (n # ms) else n # ms)"
    using paired_after_tools [of "asks_tools victim" "n # ms"] by (simp split: if_split_asm)
  with 1 show ?case by (subst (asm) trim_history.simps) (auto split: if_split_asm)
qed (auto simp: trim_history.simps)

lemma truncate_paired [simp]: "paired asked (map (truncate_tool_message be n) ms) = paired asked ms"
proof (induction asked ms rule: paired.induct)
  case (2 asked m ms)
  have "is_tool (truncate_tool_message be n m) = is_tool m" by (simp add: is_tool_def)
  moreover have "asks_tools (truncate_tool_message be n m) = asks_tools m"
    by (auto simp: asks_tools_def truncate_tool_message_def Let_def split: content.split)
  ultimately show ?case using 2 by simp
qed simp

lemma cut_system_shape:
  assumes "ms_role m = System"
  shows "\<exists>m'. cut_system cap brand (m # ms) = m' # ms \<and> ms_role m' = System \<and>
    (estimate_tokens_from_messages (m # ms) \<le> cap \<longrightarrow> m' = m)"
  using assms by (simp add: cut_system_def Let_def system_message_def)

text \<open>
  C18. Trimming a history that starts with the system prompt: a system prompt stays first, what follows is an end of
  the history with its tool output truncated, so the most recent messages survive in their order; every tool result
  still follows the message that asked for it; either the history fits the limit or at most one message is left
  beside the prompt; and a history that fits is not touched beyond the truncation.
\<close>

lemma trim_sound:
  assumes "ms_role s = System" "paired False ms" "trim_messages_to_estimated_cap be (s # ms) cap tool_cap brand = out"
    and "truncate_tool_messages_for_llm be (s # ms) tool_cap = s1 # ms1"
  shows "\<exists>s' ms'. out = s' # ms' \<and> ms_role s' = System \<and> suffix ms' ms1 \<and> paired False ms' \<and>
    (length ms' \<le> 1 \<or> estimate_tokens_from_messages out \<le> cap) \<and>
    (estimate_tokens_from_messages (s1 # ms1) \<le> cap \<longrightarrow> out = s1 # ms1)"
proof -
  let ?t = "truncate_tool_message be tool_cap"
  have t: "s1 = ?t s" "ms1 = map ?t ms" using assms(4) by (simp_all add: truncate_tool_messages_for_llm_def)
  have s1: "ms_role s1 = System" using assms(1) t(1) by simp
  from trim_history_system [OF s1, of cap ms1] obtain ms' where h: "trim_history cap (s1 # ms1) = s1 # ms'" "suffix ms' ms1" by blast
  have p: "paired False ms'" using trim_history_paired [OF s1 _ h(1)] assms(2) t(2) by simp
  from cut_system_shape [OF s1, of cap brand ms'] obtain s' where s': "cut_system cap brand (s1 # ms') = s' # ms'" "ms_role s' = System"
    "estimate_tokens_from_messages (s1 # ms') \<le> cap \<longrightarrow> s' = s1" by blast
  have out: "out = s' # ms'" using assms(3,4) h(1) s'(1) by (simp add: trim_messages_to_estimated_cap_def)
  have "length ms' \<le> 1 \<or> estimate_tokens_from_messages out \<le> cap"
    using trim_history_fits [of cap "s1 # ms1"] s'(3) unfolding h(1) out by auto
  moreover have "estimate_tokens_from_messages (s1 # ms1) \<le> cap \<longrightarrow> out = s1 # ms1"
    using trim_history_id [of "s1 # ms1" cap] h(1) s'(3) out by auto
  ultimately show ?thesis using out s'(2) h(2) p by blast
qed

definition call_msg :: message where
  "call_msg = (msg AI [])\<lparr>ms_calls := [''read_sql'']\<rparr>"

lemma trim_sound_witness:
  "\<exists>s' ms'. trim_messages_to_estimated_cap budget_env0 [msg System ''s'', msg Human ''old question'', call_msg, msg Tool ''result'', msg Human ''new'']
       2 100 ''X'' = s' # ms' \<and> ms_role s' = System \<and> paired False ms' \<and> suffix ms' [msg Human ''old question'', call_msg, msg Tool ''result'', msg Human ''new'']"
proof -
  let ?ms = "[msg Human ''old question'', call_msg, msg Tool ''result'', msg Human ''new'']"
  have t: "truncate_tool_messages_for_llm budget_env0 (msg System ''s'' # ?ms) 100 = msg System ''s'' # ?ms"
    by (simp add: truncate_tool_messages_for_llm_def truncate_tool_message_def msg_def call_msg_def startswith_def)
  have "ms_role (msg System ''s'') = System" "paired False ?ms" by (simp_all add: msg_def call_msg_def is_tool_def asks_tools_def)
  from trim_sound [OF this refl t] show ?thesis by blast
qed

text \<open>
  When the prompt has to be cut and is long enough for the cut, the result fits the limit: the 400 characters cut
  beyond the excess pay for the note that is added.
\<close>

lemma cut_prompt_fits:
  assumes "ms_role s = System" "ms_content s = Text c" "length brand \<le> 200" "estimate_tokens_from_messages (s # ms) = cap + over"
    "0 < over" "4 * over + 400 < int (length c)"
  shows "estimate_tokens_from_messages (cut_system cap brand (s # ms)) \<le> cap"
proof -
  let ?cut = "4 * over + 400"
  let ?kept = "take (length c - nat ?cut) c"
  have c: "c \<noteq> []" using assms(5,6) by auto
  have cut: "cut_system cap brand (s # ms) = system_message (?kept @ system_note brand) # ms"
    using assms c by (simp add: cut_system_def content_text_def Let_def min_def mult.commute)
  have n: "length (system_note brand) = 93 + length brand" by (simp add: system_note_def)
  have k: "int (length ?kept) = int (length c) - ?cut" using assms(5,6) by simp
  define r where "r = int (sum_list (map chars ms))"
  have old: "(int (length c) + r) div 4 = cap + over"
    using assms(2,4) by (simp add: estimate_tokens_from_messages_def chars_def r_def)
  have new: "estimate_tokens_from_messages (cut_system cap brand (s # ms)) = (int (length ?kept) + int (length (system_note brand)) + r) div 4"
    unfolding cut by (simp add: estimate_tokens_from_messages_def chars_def system_message_def r_def)
  have "int (length c) + r \<le> 4 * (cap + over) + 3" using old by presburger
  then have "int (length ?kept) + int (length (system_note brand)) + r \<le> 4 * cap" using k n assms(3) by simp
  then show ?thesis unfolding new by presburger
qed

lemma cut_prompt_fits_witness:
  "estimate_tokens_from_messages (cut_system 1000 ''X'' [msg System (replicate 8000 (CHR ''a''))]) \<le> 1000"
  by (rule cut_prompt_fits [where over = 1000 and c = "replicate 8000 (CHR ''a'')"])
    (simp_all add: msg_def estimate_tokens_from_messages_def chars_def)

text \<open>
  A turn that waits for its model can lose everything: with the prompt, the question, the call and its results in
  the history, and too long even without the question, the question goes first, then the call with all its results,
  and the model is asked with the system prompt alone.
\<close>

lemma trim_loses_the_turn:
  assumes "ms_role s = System" "ms_role question = Human" "asks_tools call" "results \<noteq> []" "\<forall>m \<in> set results. is_tool m"
    and "cap < estimate_tokens_from_messages (s # call # results)"
  shows "trim_history cap (s # question # call # results) = [s]"
proof -
  obtain r rs where r: "results = r # rs" using assms(4) by (cases results) simp_all
  have q: "\<not> asks_tools question" using assms(2) by (simp add: asks_tools_def)
  have "estimate_tokens_from_messages (s # call # results) \<le> estimate_tokens_from_messages (s # question # call # results)"
    by (simp add: estimate_tokens_from_messages_def zdiv_mono1)
  moreover have "dropWhile is_tool results = []" using assms(5) by (simp add: dropWhile_eq_Nil_conv)
  ultimately show ?thesis using assms(1,3,6) q r by (simp add: trim_history.simps)
qed

lemma trim_loses_the_turn_witness:
  "trim_history 3 [msg System ''0123456789'', msg Human ''q'', call_msg, msg Tool ''0123456789''] = [msg System ''0123456789'']"
  by (rule trim_loses_the_turn)
    (simp_all add: msg_def call_msg_def asks_tools_def is_tool_def estimate_tokens_from_messages_def chars_def)

text \<open>
  A short prompt is not cut but marked: when the excess is larger than a prompt of at most 3000 characters, the
  prompt is kept whole, followed by the note that it was truncated, so the history over the limit becomes longer.
\<close>

lemma short_prompt_grows:
  assumes "ms_role s = System" "ms_content s = Text c" "c \<noteq> []" "length c \<le> 3000"
    and "cap < estimate_tokens_from_messages (s # ms)" "int (length c) \<le> 4 * (estimate_tokens_from_messages (s # ms) - cap) + 400"
  shows "cut_system cap brand (s # ms) = system_message (c @ system_note brand) # ms \<and>
    estimate_tokens_from_messages (s # ms) < estimate_tokens_from_messages (cut_system cap brand (s # ms))"
proof -
  have cut: "cut_system cap brand (s # ms) = system_message (c @ system_note brand) # ms"
    using assms by (simp add: cut_system_def content_text_def Let_def min_def mult.commute)
  have n: "length (system_note brand) = 93 + length brand" by (simp add: system_note_def)
  define r where "r = int (sum_list (map chars ms))"
  have "(int (length c) + r) div 4 < (int (length c) + (93 + int (length brand)) + r) div 4" by presburger
  then have "estimate_tokens_from_messages (s # ms) < estimate_tokens_from_messages (cut_system cap brand (s # ms))"
    unfolding cut using assms(2) n by (simp add: estimate_tokens_from_messages_def chars_def system_message_def r_def)
  with cut show ?thesis by blast
qed

lemma short_prompt_grows_witness:
  "estimate_tokens_from_messages [msg System ''abcd'', msg Human (replicate 400 (CHR ''a''))] <
     estimate_tokens_from_messages (cut_system 10 ''X'' [msg System ''abcd'', msg Human (replicate 400 (CHR ''a''))])"
proof -
  have "ms_role (msg System ''abcd'') = System" "ms_content (msg System ''abcd'') = Text ''abcd''" "''abcd'' \<noteq> []" "length ''abcd'' \<le> 3000"
    "10 < estimate_tokens_from_messages [msg System ''abcd'', msg Human (replicate 400 (CHR ''a''))]"
    "int (length ''abcd'') \<le> 4 * (estimate_tokens_from_messages [msg System ''abcd'', msg Human (replicate 400 (CHR ''a''))] - 10) + 400"
    by (simp_all add: msg_def estimate_tokens_from_messages_def chars_def)
  from short_prompt_grows [OF this] show ?thesis by blast
qed

subsection \<open>Splitting keeps calls and results together\<close>

lemma back_to_call_spec:
  "n < length msgs \<Longrightarrow> back_to_call msgs n \<le> n \<and> (back_to_call msgs n = 0 \<or> \<not> is_tool (msgs ! back_to_call msgs n))"
  by (induction n) auto

lemma paired_suffix: "paired asked (ms @ m # ms') \<Longrightarrow> \<not> is_tool m \<Longrightarrow> paired False (m # ms')"
  by (induction ms arbitrary: asked) (auto split: if_split_asm)

text \<open>
  The split of a history for a summary loses nothing: the old part and the kept part make up the history, the kept
  part has at least the asked number of messages (or is all there is), it never starts with a tool result unless
  everything is kept, and it is well formed when the history is.
\<close>

lemma split_keeps_pairs:
  assumes "split_for_pruning msgs keep_last = (old, kept)"
  shows "old @ kept = msgs \<and> min (nat (max 1 keep_last)) (length msgs) \<le> length kept \<and>
    (old = [] \<or> kept \<noteq> [] \<and> \<not> is_tool (hd kept)) \<and> (paired False msgs \<longrightarrow> paired False kept)"
proof (cases "length msgs \<le> nat (max 1 keep_last)")
  case True
  then show ?thesis using assms by (simp add: split_for_pruning_def)
next
  case False
  let ?keep = "nat (max 1 keep_last)" and ?at = "back_to_call msgs (length msgs - nat (max 1 keep_last))"
  have s: "old = take ?at msgs" "kept = drop ?at msgs" using assms False by (simp_all add: split_for_pruning_def Let_def)
  have k: "0 < ?keep" "?keep < length msgs" using False by (simp_all add: max_def)
  then have i: "length msgs - ?keep < length msgs" by arith
  from back_to_call_spec [OF i] have b: "?at \<le> length msgs - ?keep" "?at = 0 \<or> \<not> is_tool (msgs ! ?at)" by blast+
  have n: "?at < length msgs" using b(1) i by (rule le_less_trans)
  have d: "drop ?at msgs = msgs ! ?at # drop (Suc ?at) msgs" by (rule Cons_nth_drop_Suc [OF n, symmetric])
  have "paired False msgs \<longrightarrow> paired False kept"
  proof (cases "?at = 0")
    case True
    then show ?thesis unfolding s by simp
  next
    case nonzero: False
    then have "\<not> is_tool (msgs ! ?at)" using b(2) by simp
    then show ?thesis using paired_suffix [of False "take ?at msgs" "msgs ! ?at" "drop (Suc ?at) msgs"] s(2) d by (metis append_take_drop_id)
  qed
  moreover have "?keep \<le> length kept"
    unfolding s length_drop using b(1) k(2) by (metis diff_le_mono2 diff_diff_cancel less_imp_le)
  moreover have "old = [] \<or> kept \<noteq> [] \<and> \<not> is_tool (hd kept)" using b(2) d unfolding s by auto
  ultimately show ?thesis using k by (simp add: s)
qed

lemma split_keeps_pairs_witness:
  "split_for_pruning [msg Human ''a'', call_msg, msg Tool ''r''] 1 = ([msg Human ''a''], [call_msg, msg Tool ''r'']) \<and>
     \<not> is_tool (hd [call_msg, msg Tool ''r''])"
proof -
  have s: "split_for_pruning [msg Human ''a'', call_msg, msg Tool ''r''] 1 = ([msg Human ''a''], [call_msg, msg Tool ''r''])"
    by (simp add: split_for_pruning_def Let_def numeral_2_eq_2 is_tool_def msg_def call_msg_def)
  from split_keeps_pairs [OF s] s show ?thesis by simp
qed

subsection \<open>Binding tools\<close>

text \<open>The first tool of a name, as a lookup.\<close>

definition tool_named :: "'t tool list \<Rightarrow> string \<Rightarrow> 't tool option" where
  "tool_named tools name = map_of (map (\<lambda>t. (strip (fst t), t)) tools) name"

lemma dedupe_from_lookup:
  "n \<noteq> [] \<Longrightarrow> tool_named (dedupe_from seen ts) n = (if n \<in> set seen then None else tool_named ts n)"
  by (induction seen ts rule: dedupe_from.induct) (auto simp: tool_named_def Let_def)

lemma dedupe_from_names:
  "t \<in> set (dedupe_from seen ts) \<Longrightarrow> strip (fst t) \<noteq> [] \<Longrightarrow> strip (fst t) \<notin> set seen"
  by (induction seen ts rule: dedupe_from.induct) (auto simp: Let_def split: if_split_asm)

lemma dedupe_from_distinct: "distinct (filter (\<lambda>n. n \<noteq> []) (map (strip \<circ> fst) (dedupe_from seen ts)))"
proof (induction seen ts rule: dedupe_from.induct)
  case (2 seen t ts)
  have "strip (fst t) \<notin> (strip \<circ> fst) ` set (dedupe_from (strip (fst t) # seen) ts)" if "strip (fst t) \<noteq> []"
  proof
    assume "strip (fst t) \<in> (strip \<circ> fst) ` set (dedupe_from (strip (fst t) # seen) ts)"
    then obtain u where "u \<in> set (dedupe_from (strip (fst t) # seen) ts)" "strip (fst u) = strip (fst t)" by auto
    with dedupe_from_names [of u] that show False by fastforce
  qed
  with 2 show ?case by (auto simp: Let_def)
qed simp

text \<open>
  The removal of duplicate tools leaves distinct names and of each name the tool that came first, and for a local
  model no more tools are bound than the limit allows.
\<close>

lemma bound_tools:
  "distinct (filter (\<lambda>n. n \<noteq> []) (map (strip \<circ> fst) (dedupe_tools_by_name tools))) \<and>
   (n = [] \<or> tool_named (dedupe_tools_by_name tools) n = tool_named tools n) \<and>
   length (mlx_tools_for_bind be tools limit) \<le> nat (max 1 (case limit of Some n \<Rightarrow> n | None \<Rightarrow> mlx_max_bound_tools be))"
  using dedupe_from_lookup [of n "[]" tools]
  by (cases "n = []") (simp_all add: dedupe_tools_by_name_def mlx_tools_for_bind_def Let_def dedupe_from_distinct del: take_append)

end
