(* ===== verification/KnowledgeText.thy ===== *)
theory KnowledgeText
  imports VaultPaths
begin

text \<open>
  From a document to the pieces that are searched:
  \<open>packages/agents/src/duckclaw/forge/rag/knowledge_core.py\<close>. A text is split at its headings, a section
  that is too long at its blank lines, and what is still too long at the limit, with an overlap; an uploaded file
  keeps a relative path whose parts are checked. \<open>str.splitlines\<close> and the two regular expressions are written out.
\<close>

subsection \<open>Lines and paragraphs\<close>

abbreviation lf :: char where "lf \<equiv> CHR 10"

definition is_line_break :: "char \<Rightarrow> bool" where
  "is_line_break c \<longleftrightarrow> code c \<in> {10, 11, 12, 13, 28, 29, 30, 133}"

text \<open>\<open>str.splitlines()\<close>; a carriage return takes the line feed that follows it along.\<close>

definition after_break :: "char \<Rightarrow> string \<Rightarrow> string" where
  "after_break c cs = (if c = CHR 13 \<and> startswith [lf] cs then tl cs else cs)"

function lines_from :: "string \<Rightarrow> string \<Rightarrow> string list" where
  "lines_from cur [] = (if cur = [] then [] else [cur])"
| "lines_from cur (c # cs) =
     (if is_line_break c then cur # lines_from [] (after_break c cs) else lines_from (cur @ [c]) cs)"
  by pat_completeness auto

termination
  by (relation "measure (\<lambda>(_, s). length s)") (auto simp: after_break_def)

definition splitlines :: "string \<Rightarrow> string list" where
  "splitlines s = lines_from [] s"

text \<open>\<open>re.split(r"\n\s*\n", text)\<close>: a break runs from a line feed to the last line feed of the blanks after it.\<close>

definition break_length :: "string \<Rightarrow> nat" where
  "break_length cs = (let ws = takeWhile is_space cs in length ws - length (takeWhile (\<lambda>c. c \<noteq> lf) (rev ws)))"

function paras_from :: "string \<Rightarrow> string \<Rightarrow> string list" where
  "paras_from cur [] = [cur]"
| "paras_from cur (c # cs) =
     (if c = lf \<and> lf \<in> set (takeWhile is_space cs) then cur # paras_from [] (drop (break_length cs) cs)
      else paras_from (cur @ [c]) cs)"
  by pat_completeness auto

termination
  by (relation "measure (\<lambda>(_, s). length s)") auto

definition paragraphs :: "string \<Rightarrow> string list" where
  "paragraphs s = filter (\<lambda>p. p \<noteq> []) (map strip (paras_from [] s))"

subsection \<open>Chunks\<close>

fun sections_from :: "string list \<Rightarrow> string list \<Rightarrow> string list" where
  "sections_from buf [] = (if buf = [] then [] else [strip (join [lf] buf)])"
| "sections_from buf (line # rest) =
     (if startswith ''#'' line \<and> buf \<noteq> [] then strip (join [lf] buf) # sections_from [line] rest
      else sections_from (buf @ [line]) rest)"

definition split_markdown_sections :: "string \<Rightarrow> string list" where
  "split_markdown_sections s = (let sections = sections_from [] (splitlines s) in if sections = [] then [s] else sections)"

lemma cut_shorter:
  assumes "m < length buf" "ov < m"
  shows "length (strip (drop (m - ov) (take m buf) @ drop m buf)) < length buf"
  using assms length_strip_le [of "drop (m - ov) (take m buf) @ drop m buf"] by simp

text \<open>
  The loop that cuts a buffer at the limit. It ends because the overlap is shorter than the limit: \<open>chunk_text\<close> takes
  at most a quarter of it (lemma \<open>overlap_short\<close>), so the second condition never stops the loop there.
\<close>

function cut_buf :: "nat \<Rightarrow> nat \<Rightarrow> string \<Rightarrow> string list \<times> string" where
  "cut_buf max_chars overlap buf =
     (if length buf \<le> max_chars \<or> max_chars \<le> overlap then ([], buf)
      else let tail = drop (max_chars - overlap) (take max_chars buf);
               (pieces, rest) = cut_buf max_chars overlap (strip (tail @ drop max_chars buf))
        in (strip (take max_chars buf) # pieces, rest))"
  by pat_completeness auto

termination
  by (relation "measure (\<lambda>(_, _, buf). length buf)") (auto simp: cut_shorter)

declare cut_buf.simps [simp del]

definition joined :: "string \<Rightarrow> string \<Rightarrow> string" where
  "joined a para = strip (a @ [lf, lf] @ para)"

fun split_paras :: "nat \<Rightarrow> nat \<Rightarrow> string list \<Rightarrow> string \<Rightarrow> string list" where
  "split_paras max_chars overlap [] buf = (if buf = [] then [] else [buf])"
| "split_paras max_chars overlap (para # paras) buf = (let
     candidate = (if buf \<noteq> [] then joined buf para else para)
   in if length candidate \<le> max_chars then split_paras max_chars overlap paras candidate
     else let
       carried = drop (length buf - overlap) buf;
       start = (if buf = [] then [] else if carried = [] then para else joined carried para);
       (pieces, rest) = cut_buf max_chars overlap start
     in (if buf = [] then [] else [buf]) @ pieces @ split_paras max_chars overlap paras rest)"

definition split_long_text :: "nat \<Rightarrow> nat \<Rightarrow> string \<Rightarrow> string list" where
  "split_long_text max_chars overlap s = split_paras max_chars overlap (paragraphs s) []"

definition chunk_limit :: "int \<Rightarrow> nat" where
  "chunk_limit max_chars = nat (max 400 max_chars)"

definition chunk_overlap :: "int \<Rightarrow> int \<Rightarrow> nat" where
  "chunk_overlap max_chars overlap_chars = nat (max 0 (min overlap_chars (max 400 max_chars div 4)))"

definition section_chunks :: "nat \<Rightarrow> nat \<Rightarrow> string \<Rightarrow> string list" where
  "section_chunks m ov section = (if length section \<le> m then [section] else split_long_text m ov section)"

definition chunk_text :: "string \<Rightarrow> int \<Rightarrow> int \<Rightarrow> string list" where
  "chunk_text s max_chars overlap_chars = (let clean = strip s in
     if clean = [] then []
     else filter (\<lambda>c. c \<noteq> []) (map strip (concat (map
       (section_chunks (chunk_limit max_chars) (chunk_overlap max_chars overlap_chars)) (split_markdown_sections clean)))))"

subsection \<open>The path of an uploaded file\<close>

text \<open>The expression of secret-bearing names, on the lower-cased name.\<close>

definition looks_secret :: "string \<Rightarrow> bool" where
  "looks_secret part \<longleftrightarrow> list_ex (\<lambda>w. contains w (lower part))
     [''secret'', ''token'', ''password'', ''apikey'', ''api_key'', ''api-key'', ''.env'']"

text \<open>\<open>Path(s).parts\<close> of a relative path: empty and single-dot components vanish.\<close>

definition relative_parts :: "string \<Rightarrow> string list" where
  "relative_parts s = filter (\<lambda>p. p \<noteq> [] \<and> p \<noteq> ''.'') (split_char (CHR ''/'') s)"

definition safe_uploaded_relative_path :: "string \<Rightarrow> py_error + string" where
  "safe_uploaded_relative_path filename = (let
     cleaned = lstrip_chars ''/'' (strip (replace_char (CHR 92) ''/'' filename));
     parts = relative_parts cleaned
   in if cleaned = [] then Inl (ValueError ''knowledge upload filename is empty'')
     else if list_ex (\<lambda>p. p \<in> {[], ''.'', ''..''}) parts then Inl (ValueError ''knowledge upload filename is unsafe'')
     else if list_ex looks_secret parts then Inl (ValueError ''knowledge file name looks secret-bearing'')
     else if list_ex (startswith ''.'') parts then Inl (ValueError ''hidden knowledge files are not allowed'')
     else Inr (join ''/'' parts))"

subsection \<open>Text inside text\<close>

lemma startswith_iff: "startswith p s \<longleftrightarrow> (\<exists>b. s = p @ b)"
proof
  assume "startswith p s"
  then have "s = p @ drop (length p) s" unfolding startswith_def by (metis append_take_drop_id)
  then show "\<exists>b. s = p @ b" ..
qed auto

lemma contains_iff: "contains p s \<longleftrightarrow> (\<exists>a b. s = a @ p @ b)"
proof (induction s)
  case (Cons c s)
  show ?case
  proof
    assume "contains p (c # s)"
    then consider b where "c # s = p @ b" | "contains p s" by (auto simp: startswith_iff)
    then show "\<exists>a b. c # s = a @ p @ b"
    proof cases
      case 1
      then show ?thesis by (metis append_Nil)
    next
      case 2
      then show ?thesis using Cons.IH by (metis append_Cons)
    qed
  next
    assume "\<exists>a b. c # s = a @ p @ b"
    then obtain a b where "c # s = a @ p @ b" by blast
    then show "contains p (c # s)" using contains_append_left [OF contains_append_right [OF contains_self]] by metis
  qed
qed auto

lemma contains_trans: "contains p q \<Longrightarrow> contains q s \<Longrightarrow> contains p s"
  unfolding contains_iff by (metis append.assoc)

lemma lstrip_keeps:
  assumes "p \<noteq> []" "\<not> is_space (hd p)"
  shows "\<exists>a'. lstrip (a @ p @ b) = a' @ p @ b"
proof (cases "\<forall>c \<in> set a. is_space c")
  case True
  moreover have "dropWhile is_space (p @ b) = p @ b" using assms by (cases p) auto
  ultimately have "lstrip (a @ p @ b) = [] @ p @ b" by (simp add: lstrip_def)
  then show ?thesis ..
next
  case False
  then show ?thesis by (auto simp: lstrip_def dropWhile_append3)
qed

lemma contains_strip:
  assumes "contains p s" "strip p = p" "p \<noteq> []"
  shows "contains p (strip s)"
proof -
  from assms(1) obtain a b where s: "s = a @ p @ b" unfolding contains_iff by blast
  note e = stripped_ends [OF assms(2,3)]
  obtain a' where l: "lstrip s = a' @ p @ b" using lstrip_keeps [OF assms(3) e(1), of a b] s by blast
  have "rev p \<noteq> []" "\<not> is_space (hd (rev p))" using assms(3) e(2) by (simp_all add: hd_rev)
  from lstrip_keeps [OF this, of "rev b" "rev a'"] obtain b' where
    "dropWhile is_space (rev (a' @ p @ b)) = b' @ rev p @ rev a'" by (auto simp: lstrip_def)
  then have "strip s = a' @ p @ rev b'" unfolding strip_def rstrip_def l by simp
  then show ?thesis unfolding contains_iff by blast
qed

subsection \<open>Chunks are short\<close>

lemma overlap_short: "chunk_overlap m ov < chunk_limit m"
proof -
  have "nat (max 0 (min ov (a div 4))) < nat a" if "400 \<le> a" for a :: int
    using that int_div_less_self [of a 4] by (simp add: min_less_iff_disj)
  from this [of "max 400 m"] show ?thesis unfolding chunk_overlap_def chunk_limit_def by simp
qed

lemma cut_buf_short:
  assumes "ov < m"
  shows "(\<forall>c \<in> set (fst (cut_buf m ov buf)). length c \<le> m) \<and> length (snd (cut_buf m ov buf)) \<le> m"
  using assms
proof (induction m ov buf rule: cut_buf.induct)
  case (1 m ov buf)
  have "length (strip (take m buf)) \<le> m" using length_strip_le [of "take m buf"] by simp
  with 1 show ?case by (subst (1 2) cut_buf.simps) (auto simp: Let_def split_beta)
qed

lemma split_paras_short:
  assumes "ov < m" "length buf \<le> m"
  shows "\<forall>c \<in> set (split_paras m ov paras buf). length c \<le> m"
  using assms(2)
proof (induction paras arbitrary: buf)
  case (Cons para paras)
  note c = cut_buf_short [OF assms(1)]
  show ?case using Cons c by (auto simp: Let_def split_beta)
qed simp

lemma section_chunks_short:
  assumes "ov < m" "c \<in> set (section_chunks m ov section)"
  shows "length c \<le> m"
  using assms split_paras_short [of ov m "[]"] by (auto simp: section_chunks_def split_long_text_def split: if_splits)

text \<open>
  Every chunk of a text has at least one character and at most the limit, which is the asked number of
  characters and no less than 400, and begins and ends with a character that is no blank.
\<close>

lemma chunks_bounded:
  "\<forall>c \<in> set (chunk_text s max_chars overlap_chars).
     0 < length c \<and> length c \<le> chunk_limit max_chars \<and> strip c = c"
proof
  fix c assume "c \<in> set (chunk_text s max_chars overlap_chars)"
  then obtain sec d where d: "d \<in> set (section_chunks (chunk_limit max_chars) (chunk_overlap max_chars overlap_chars) sec)"
    "c = strip d" "c \<noteq> []" by (auto simp: chunk_text_def Let_def split: if_splits)
  have "length d \<le> chunk_limit max_chars" using section_chunks_short [OF overlap_short d(1)] .
  then show "0 < length c \<and> length c \<le> chunk_limit max_chars \<and> strip c = c"
    using d length_strip_le [of d] by simp
qed

lemma chunks_bounded_witness:
  "chunk_text ''a line'' 400 0 = [''a line''] \<and> 0 < length ''a line'' \<and> length ''a line'' \<le> chunk_limit 400"
proof -
  have e: "chunk_text ''a line'' 400 0 = [''a line'']" by code_simp
  from chunks_bounded [of "''a line''" 400 0] show ?thesis unfolding e by simp
qed

subsection \<open>What is kept and what is lost\<close>

lemma split_paras_keeps_buf:
  assumes "contains p buf" "strip p = p" "p \<noteq> []"
  shows "\<exists>c \<in> set (split_paras m ov paras buf). contains p c"
  using assms(1)
proof (induction paras arbitrary: buf)
  case Nil
  then show ?case using assms(3) by auto
next
  case (Cons para paras)
  have b: "buf \<noteq> []" using Cons.prems assms(3) by auto
  show ?case
  proof (cases "length (joined buf para) \<le> m")
    case True
    have "contains p (joined buf para)"
      unfolding joined_def by (intro contains_strip contains_append_right Cons.prems assms(2,3))
    from Cons.IH [OF this] True b show ?thesis by simp
  next
    case False
    then show ?thesis using b Cons.prems by (simp add: Let_def split_beta)
  qed
qed

lemma joined_contains: "strip p = p \<Longrightarrow> p \<noteq> [] \<Longrightarrow> contains p (joined a p)"
  unfolding joined_def by (intro contains_strip contains_append_left contains_self)

lemma length_joined: "length (joined a p) \<le> length a + 2 + length p"
  unfolding joined_def using length_strip_le [of "a @ [lf, lf] @ p"] by simp

lemma cut_buf_whole: "length buf \<le> m \<Longrightarrow> cut_buf m ov buf = ([], buf)"
  by (subst cut_buf.simps) simp

lemma split_paras_keeps:
  assumes "p \<in> set paras" "strip p = p" "p \<noteq> []" "length p + ov + 2 \<le> m" "ov < m"
  shows "\<exists>c \<in> set (split_paras m ov paras buf). contains p c"
  using assms(1)
proof (induction paras arbitrary: buf)
  case (Cons para paras)
  show ?case
  proof (cases "para = p")
    case False
    then have "p \<in> set paras" using Cons.prems by simp
    note ih = Cons.IH [OF this]
    show ?thesis
    proof (cases "length (if buf \<noteq> [] then joined buf para else para) \<le> m")
      case True
      then show ?thesis using ih by simp
    next
      case long: False
      then have "\<exists>pre rest. split_paras m ov (para # paras) buf = pre @ split_paras m ov paras rest"
        unfolding split_paras.simps Let_def split_beta if_not_P [OF long] by (metis append.assoc)
      then show ?thesis using ih by (metis Un_iff set_append)
    qed
  next
    case p: True
    show ?thesis
    proof (cases "buf = []")
      case True
      have "split_paras m ov (p # paras) buf = split_paras m ov paras p" using True assms(4) by simp
      then show ?thesis using split_paras_keeps_buf [OF contains_self assms(2,3)] p by simp
    next
      case buf: False
      let ?carried = "drop (length buf - ov) buf"
      define start where "start = (if ?carried = [] then p else joined ?carried p)"
      have c: "contains p start" unfolding start_def using joined_contains [OF assms(2,3)] by simp
      have "length start \<le> m" unfolding start_def using assms(4) length_joined [of ?carried p] by auto
      note w = cut_buf_whole [OF this, of ov]
      show ?thesis
      proof (cases "length (joined buf p) \<le> m")
        case True
        then show ?thesis using split_paras_keeps_buf [OF joined_contains [OF assms(2,3)] assms(2,3)] p buf by simp
      next
        case False
        then have "split_paras m ov (p # paras) buf = buf # split_paras m ov paras start"
          using buf w by (simp add: Let_def start_def)
        then show ?thesis using split_paras_keeps_buf [OF c assms(2,3)] p by simp
      qed
    qed
  qed
qed simp

lemma paragraph_stripped: "p \<in> set (paragraphs s) \<Longrightarrow> strip p = p \<and> p \<noteq> []"
  by (auto simp: paragraphs_def)

lemma chunk_of_section:
  assumes "section \<in> set (split_markdown_sections (strip s))" "strip s \<noteq> []"
    and "d \<in> set (section_chunks (chunk_limit m) (chunk_overlap m ov) section)" "contains p d" "strip p = p" "p \<noteq> []"
  shows "\<exists>c \<in> set (chunk_text s m ov). contains p c"
proof -
  have c: "contains p (strip d)" using assms(4-6) by (rule contains_strip)
  then have "strip d \<noteq> []" using assms(6) by auto
  then have "strip d \<in> set (chunk_text s m ov)" using assms(1-3) by (auto simp: chunk_text_def Let_def)
  with c show ?thesis by blast
qed

text \<open>
  Text that is not oversized is never lost: a section within the limit is inside a chunk, and so is every
  paragraph of a longer section that leaves room for the overlap and the blank line before it.
\<close>

lemma short_text_kept:
  assumes "strip s \<noteq> []" "section \<in> set (split_markdown_sections (strip s))" "strip p = p" "p \<noteq> []"
    and "p = section \<and> length p \<le> chunk_limit m \<or>
      p \<in> set (paragraphs section) \<and> chunk_limit m < length section \<and> length p + chunk_overlap m ov + 2 \<le> chunk_limit m"
  shows "\<exists>c \<in> set (chunk_text s m ov). contains p c"
  using assms(5)
proof (elim disjE conjE)
  assume "p = section" "length p \<le> chunk_limit m"
  then have "p \<in> set (section_chunks (chunk_limit m) (chunk_overlap m ov) section)" by (simp add: section_chunks_def)
  from chunk_of_section [OF assms(2,1) this contains_self assms(3,4)] show ?thesis .
next
  assume h: "p \<in> set (paragraphs section)" "chunk_limit m < length section"
    "length p + chunk_overlap m ov + 2 \<le> chunk_limit m"
  have "\<exists>d \<in> set (section_chunks (chunk_limit m) (chunk_overlap m ov) section). contains p d"
    using split_paras_keeps [OF h(1) assms(3,4) h(3) overlap_short] h(2)
    by (simp add: section_chunks_def split_long_text_def)
  then show ?thesis using chunk_of_section [OF assms(2,1) _ _ assms(3,4)] by blast
qed

text \<open>
  An oversized paragraph at the start of a section is dropped, not cut: a text all of whose sections are single
  paragraphs over the limit, such as one long line or a pretty-printed JSON file, yields no chunk at all.
\<close>

lemma long_paragraph_lost:
  assumes "\<And>section. section \<in> set (split_markdown_sections (strip s)) \<Longrightarrow>
      chunk_limit m < length section \<and> paragraphs section = [section]"
  shows "chunk_text s m ov = []"
proof -
  have "section_chunks (chunk_limit m) (chunk_overlap m ov) section = []"
    if "section \<in> set (split_markdown_sections (strip s))" for "section"
    using assms [OF that] by (simp add: section_chunks_def split_long_text_def cut_buf_whole)
  then show ?thesis by (auto simp: chunk_text_def Let_def)
qed

lemma lines_from_plain:
  "\<forall>c \<in> set s. \<not> is_line_break c \<Longrightarrow> lines_from cur s = (if cur @ s = [] then [] else [cur @ s])"
  by (induction s arbitrary: cur) auto

lemma paras_from_plain: "lf \<notin> set s \<Longrightarrow> paras_from cur s = [cur @ s]"
  by (induction s arbitrary: cur) auto

lemma one_line:
  assumes "\<forall>c \<in> set s. \<not> is_line_break c" "strip s = s" "s \<noteq> []"
  shows "split_markdown_sections s = [s]" "paragraphs s = [s]"
proof -
  have "lf \<notin> set s" using assms(1) by (auto simp: is_line_break_def)
  then show "paragraphs s = [s]" using assms(2,3) by (simp add: paragraphs_def paras_from_plain)
  show "split_markdown_sections s = [s]"
    using assms(2,3) by (simp add: split_markdown_sections_def splitlines_def lines_from_plain [OF assms(1)])
qed

definition long_line :: string where
  "long_line = replicate 401 (CHR ''a'')"

lemma long_line_facts: "length long_line = 401" "strip long_line = long_line" "long_line \<noteq> []"
  "\<forall>c \<in> set long_line. \<not> is_line_break c"
proof -
  have "\<not> is_space (CHR ''a'')" by (simp add: is_space_def)
  then have "dropWhile is_space long_line = long_line" by (simp add: long_line_def dropWhile_eq_self_iff)
  then show "strip long_line = long_line" by (simp add: strip_def lstrip_def rstrip_def long_line_def)
qed (simp_all add: long_line_def is_line_break_def)

lemma long_paragraph_lost_witness:
  "chunk_text long_line 400 100 = [] \<and> long_line \<noteq> []"
proof -
  have "chunk_text long_line 400 100 = []"
  proof (rule long_paragraph_lost)
    fix sec
    assume "sec \<in> set (split_markdown_sections (strip long_line))"
    then have "sec = long_line" unfolding long_line_facts(2) one_line(1) [OF long_line_facts(4,2,3)] by simp
    then show "chunk_limit 400 < length sec \<and> paragraphs sec = [sec]"
      using one_line(2) [OF long_line_facts(4,2,3)] by (simp only: long_line_facts(1)) (simp add: chunk_limit_def)
  qed
  then show ?thesis using long_line_facts(3) by blast
qed

lemma short_text_kept_witness:
  "\<exists>c \<in> set (chunk_text ''a line'' 400 0). contains ''a line'' c"
proof -
  have s: "strip ''a line'' = ''a line''" by code_simp
  have l: "\<forall>c \<in> set ''a line''. \<not> is_line_break c" by (simp add: is_line_break_def)
  have "''a line'' \<in> set (split_markdown_sections (strip ''a line''))" unfolding s one_line(1) [OF l s list.distinct(2)] by simp
  from short_text_kept [OF _ this s] show ?thesis unfolding s by (simp add: chunk_limit_def)
qed

subsection \<open>Uploaded names stay inside\<close>

lemma split_char_no_sep: "a \<notin> set p \<Longrightarrow> split_char a p = [p]"
  by (induction p) auto

lemma split_char_cons_sep: "a \<notin> set p \<Longrightarrow> split_char a (p @ a # s) = p # split_char a s"
  by (induction p) auto

lemma split_join_plain:
  "ps \<noteq> [] \<Longrightarrow> \<forall>p \<in> set ps. a \<notin> set p \<Longrightarrow> split_char a (join [a] ps) = ps"
proof (induction "[a]" ps rule: join.induct)
  case (3 w v ws)
  then show ?case by (simp add: split_char_cons_sep)
qed (simp_all add: split_char_no_sep)

lemma split_char_parts: "p \<in> set (split_char a s) \<Longrightarrow> a \<notin> set p \<and> set p \<subseteq> set s"
proof (induction s arbitrary: p)
  case (Cons c s)
  show ?case
  proof (cases "c = a \<or> split_char a s = []")
    case True
    then show ?thesis using Cons by (auto split: if_splits)
  next
    case False
    then obtain w ws where w: "split_char a s = w # ws" by (cases "split_char a s") auto
    with Cons.prems False consider "p = c # w" | "p \<in> set ws" by auto
    then show ?thesis using Cons.IH [of w] Cons.IH [of p] w False by cases auto
  qed
qed simp

text \<open>
  The path under which an uploaded file is stored has one or more components, none of which is empty, hidden
  (\<open>.\<close> and \<open>..\<close> included) or secret-bearing, and no backslash; a name with a component \<open>..\<close> is refused.
\<close>

lemma uploaded_path_contained:
  assumes "relative_parts (lstrip_chars ''/'' (strip (replace_char (CHR 92) ''/'' filename))) \<noteq> []"
  shows "case safe_uploaded_relative_path filename of
      Inl e \<Rightarrow> (\<exists>msg. e = ValueError msg)
    | Inr path \<Rightarrow> split_char (CHR ''/'') path = relative_parts (lstrip_chars ''/'' (strip (replace_char (CHR 92) ''/'' filename))) \<and>
        CHR 92 \<notin> set path \<and> (\<forall>p \<in> set (split_char (CHR ''/'') path). p \<noteq> [] \<and> \<not> startswith ''.'' p \<and> \<not> looks_secret p)"
proof -
  let ?cleaned = "lstrip_chars ''/'' (strip (replace_char (CHR 92) ''/'' filename))"
  let ?parts = "relative_parts ?cleaned"
  have "set ?cleaned \<subseteq> set (replace_char (CHR 92) ''/'' filename)"
    using set_strip [of "replace_char (CHR 92) ''/'' filename"] by (auto simp: lstrip_chars_def dest: set_dropWhileD)
  then have b: "CHR 92 \<notin> set ?cleaned" by (auto simp: replace_char_def split: if_splits)
  have parts: "CHR ''/'' \<notin> set p \<and> CHR 92 \<notin> set p \<and> p \<noteq> []" if "p \<in> set ?parts" for p
    using that b split_char_parts [of p "CHR ''/''" ?cleaned] by (auto simp: relative_parts_def)
  then have j: "split_char (CHR ''/'') (join ''/'' ?parts) = ?parts" by (intro split_join_plain [OF assms]) blast
  have "CHR 92 \<notin> set (join ''/'' ps)" if "\<forall>p \<in> set ps. CHR 92 \<notin> set p" for ps
    using that by (induction "''/''" ps rule: join.induct) auto
  then have "CHR 92 \<notin> set (join ''/'' ?parts)" using parts by blast
  then show ?thesis using j parts by (auto simp: safe_uploaded_relative_path_def Let_def list_ex_iff)
qed

lemma uploaded_path_contained_witness:
  "safe_uploaded_relative_path ''docs/./notes.md'' = Inr ''docs/notes.md'' \<and> split_char (CHR ''/'') ''docs/notes.md'' = [''docs'', ''notes.md'']"
proof -
  have p: "relative_parts (lstrip_chars ''/'' (strip (replace_char (CHR 92) ''/'' ''docs/./notes.md''))) = [''docs'', ''notes.md'']" by code_simp
  have "safe_uploaded_relative_path ''docs/./notes.md'' = Inr ''docs/notes.md''" by code_simp
  with uploaded_path_contained [of "''docs/./notes.md''"] show ?thesis unfolding p by simp
qed

end
