(* ===== verification/Knowledge.thy ===== *)
theory Knowledge
  imports KnowledgeText Tables
begin

text \<open>
  The knowledge base: documents become chunks (\<open>knowledge_core.py\<close>), the db-writer stores sources, documents and
  chunks (\<open>packages/shared/src/duckclaw/write_handlers/knowledge.py\<close>), and a search reads the active ones of a scope
  (\<open>knowledge_scope.py\<close>). The tables have the UNIQUE and CHECK constraints of \<open>schema_migrations.py\<close>; a constraint
  is checked on the table a statement leaves.
\<close>

subsection \<open>State\<close>

record knowledge_source =
  ns_id :: string
  ns_tenant :: string
  ns_actor :: string
  ns_project :: string
  ns_worker :: string
  ns_kind :: string
  ns_uri :: string
  ns_name :: string
  ns_status :: string
  ns_model :: string
  ns_dim :: int
  ns_meta :: string
  ns_active :: bool
  ns_created_at :: int
  ns_updated_at :: int

record knowledge_document =
  nd_id :: string
  nd_source :: string
  nd_path :: string
  nd_title :: string
  nd_mime :: string
  nd_checksum :: string
  nd_size :: int
  nd_meta :: string
  nd_active :: bool
  nd_created_at :: int
  nd_updated_at :: int

text \<open>The numbers of an embedding are kept as the decoded values; a search only hands them to a distance.\<close>

record knowledge_chunk =
  nc_id :: string
  nc_document :: string
  nc_source :: string
  nc_tenant :: string
  nc_project :: string
  nc_worker :: string
  nc_index :: int
  nc_content :: string
  nc_hash :: string
  nc_start :: int
  nc_end :: int
  nc_tokens :: int
  nc_embedding :: "pyval list option"
  nc_status :: string
  nc_model :: string
  nc_meta :: string
  nc_active :: bool
  nc_created_at :: int
  nc_updated_at :: int

record knowledge_db =
  kn_sources :: "knowledge_source list"
  kn_documents :: "knowledge_document list"
  kn_chunks :: "knowledge_chunk list"

text \<open>The second unique key of a table beside its primary key.\<close>

definition check_unique :: "('r \<Rightarrow> 'k) \<Rightarrow> 'r list \<Rightarrow> py_error + 'r list" where
  "check_unique key t = (if uniq key t then Inr t else Inl (ConstraintError ''Duplicate key''))"

text \<open>
  The handlers look a row up by its primary key and update or insert it; \<open>keep old row\<close> is the updated row, which
  keeps some columns of the old one.
\<close>

definition put_row :: "('r \<Rightarrow> 'k) \<Rightarrow> ('r \<Rightarrow> 'p) \<Rightarrow> ('r \<Rightarrow> 'r \<Rightarrow> 'r) \<Rightarrow> 'r \<Rightarrow> 'r list \<Rightarrow> py_error + 'r list" where
  "put_row key place keep row t = check_unique place
     (if has_key key (key row) t then upd_where (\<lambda>r. key r = key row) (\<lambda>r. keep r row) t else t @ [row])"

definition doc_place :: "knowledge_document \<Rightarrow> string \<times> string" where
  "doc_place d = (nd_source d, nd_path d)"

definition chunk_place :: "knowledge_chunk \<Rightarrow> string \<times> int" where
  "chunk_place c = (nc_document c, nc_index c)"

definition source_kinds :: "string list" where
  "source_kinds = [''folder'', ''file'', ''url'', ''manual'', ''api'']"

definition source_statuses :: "string list" where
  "source_statuses = [''pending'', ''indexing'', ''ready'', ''failed'', ''inactive'']"

definition check_source :: "string \<Rightarrow> string \<Rightarrow> py_error + unit" where
  "check_source kind status = (if kind \<in> set source_kinds \<and> status \<in> set source_statuses then Inr ()
     else Inl (ConstraintError ''CHECK constraint failed''))"

subsection \<open>Sources\<close>

definition minilm :: string where
  "minilm = ''sentence-transformers/all-MiniLM-L6-v2''"

definition require_knowledge_source :: "knowledge_db \<Rightarrow> string \<Rightarrow> py_error + knowledge_source" where
  "require_knowledge_source db source_id = (case sel_one (\<lambda>s. ns_id s = source_id) (kn_sources db) of
     None \<Rightarrow> Inl (ValueError (''Knowledge source not found: '' @ source_id))
   | Some s \<Rightarrow> Inr (s\<lparr>ns_tenant := str_or (ns_tenant s) ''default''\<rparr>))"

text \<open>The row a request asks for, with the columns it must have and the checks of the table.\<close>

definition source_row :: "env \<Rightarrow> payload \<Rightarrow> py_error + knowledge_source" where
  "source_row e payload =
     bindE (req_str payload ''source_id'') (\<lambda>source_id.
     if source_id = [] then Inl (ValueError ''source_id required'') else
     let tenant_id = dflt_str payload ''tenant_id'' ''default'';
         actor_email = dflt_str payload ''actor_email'' ''system'';
         project_id = opt_str payload ''project_id'' [];
         worker_uid = opt_str payload ''worker_uid'' [];
         source_kind = opt_str payload ''source_kind'' ''folder'';
         source_uri = opt_str payload ''source_uri'' []
     in if source_uri = [] then Inl (ValueError ''source_uri required'') else
     let display_name = opt_str payload ''display_name'' [];
         status = opt_str payload ''status'' ''pending'';
         embedding_model = opt_str payload ''embedding_model'' minilm
     in bindE (gint payload ''embedding_dim'' 384) (\<lambda>dim.
     let metadata_json = json_dict_text (pget payload ''metadata'' PNone) in
     bindE (sql_int32 dim) (\<lambda>dim.
     bindE (check_source source_kind status) (\<lambda>_.
     Inr \<lparr>ns_id = source_id, ns_tenant = tenant_id, ns_actor = actor_email, ns_project = project_id,
       ns_worker = worker_uid, ns_kind = source_kind, ns_uri = source_uri, ns_name = display_name,
       ns_status = status, ns_model = embedding_model, ns_dim = dim, ns_meta = metadata_json, ns_active = True,
       ns_created_at = now e, ns_updated_at = now e\<rparr>))))"

definition apply_create_knowledge_source :: "env \<Rightarrow> payload \<Rightarrow> knowledge_db \<Rightarrow> py_error + knowledge_db" where
  "apply_create_knowledge_source e payload db = bindE (source_row e payload) (\<lambda>row.
     Inr (db\<lparr>kn_sources := (if has_key ns_id (ns_id row) (kn_sources db)
       then upd_where (\<lambda>s. ns_id s = ns_id row) (\<lambda>s. row\<lparr>ns_created_at := ns_created_at s\<rparr>) (kn_sources db)
       else kn_sources db @ [row])\<rparr>))"

subsection \<open>Documents\<close>

definition put_document :: "knowledge_document \<Rightarrow> knowledge_document list \<Rightarrow> py_error + knowledge_document list" where
  "put_document = put_row nd_id doc_place (\<lambda>old row. row\<lparr>nd_created_at := nd_created_at old\<rparr>)"

definition document_row :: "env \<Rightarrow> payload \<Rightarrow> knowledge_db \<Rightarrow> py_error + knowledge_document" where
  "document_row e payload db =
     bindE (req_str payload ''document_id'') (\<lambda>document_id.
     bindE (req_str payload ''source_id'') (\<lambda>source_id.
     bindE (req_str payload ''relative_path'') (\<lambda>path_text.
     let relative_path = lstrip_chars ''/'' path_text in
     bindE (req_str payload ''checksum'') (\<lambda>checksum.
     if document_id = [] \<or> source_id = [] \<or> relative_path = [] \<or> checksum = []
     then Inl (ValueError ''document_id, source_id, relative_path and checksum required'') else
     bindE (require_knowledge_source db source_id) (\<lambda>_.
     let title = opt_str payload ''title'' [];
         mime_type = dflt_str payload ''mime_type'' ''text/plain''
     in bindE (gint payload ''byte_size'' 0) (\<lambda>byte_size.
     let metadata_json = json_dict_text (pget payload ''metadata'' PNone) in
     bindE (sql_int64 byte_size) (\<lambda>byte_size.
     Inr \<lparr>nd_id = document_id, nd_source = source_id, nd_path = relative_path, nd_title = title,
       nd_mime = mime_type, nd_checksum = checksum, nd_size = byte_size, nd_meta = metadata_json, nd_active = True,
       nd_created_at = now e, nd_updated_at = now e\<rparr>)))))))"

definition apply_upsert_knowledge_document :: "env \<Rightarrow> payload \<Rightarrow> knowledge_db \<Rightarrow> py_error + knowledge_db" where
  "apply_upsert_knowledge_document e payload db = bindE (document_row e payload db) (\<lambda>row.
     bindE (put_document row (kn_documents db)) (\<lambda>docs. Inr (db\<lparr>kn_documents := docs\<rparr>)))"

subsection \<open>Chunks\<close>

fun is_number :: "pyval \<Rightarrow> bool" where
  "is_number (PInt _) = True"
| "is_number (PBool _) = True"
| "is_number _ = False"

fun normalize_embedding :: "pyval \<Rightarrow> py_error + pyval list option" where
  "normalize_embedding PNone = Inr None"
| "normalize_embedding (PList xs) =
     (if length xs \<noteq> 384 then Inl (ValueError ''embedding must be a 384-dim list'')
      else if list_all is_number xs then Inr (Some xs) else Inl (ValueError ''embedding values must be numeric''))"
| "normalize_embedding _ = Inl (ValueError ''embedding must be a 384-dim list'')"

definition chunk_statuses :: "string list" where
  "chunk_statuses = [''PENDING'', ''READY'', ''FAILED'']"

definition put_chunk :: "knowledge_chunk \<Rightarrow> knowledge_chunk list \<Rightarrow> py_error + knowledge_chunk list" where
  "put_chunk = put_row nc_id chunk_place (\<lambda>old row. row\<lparr>nc_created_at := nc_created_at old\<rparr>)"

record chunk_scope =
  cs_document :: string
  cs_source :: string
  cs_tenant :: string
  cs_project :: string
  cs_worker :: string
  cs_model :: pyval

text \<open>The embedding of an item and the state it stands for.\<close>

definition embedding_state :: "payload \<Rightarrow> py_error + pyval list option \<times> string" where
  "embedding_state it = (let status0 = upper (opt_str it ''embedding_status'' ''PENDING'') in
     bindE (normalize_embedding (pget it ''embedding'' PNone)) (\<lambda>embedding.
     let status = (if embedding \<noteq> None then ''READY'' else status0) in
     if status \<notin> set chunk_statuses then Inl (ValueError (''Invalid embedding_status: '' @ status)) else Inr (embedding, status)))"

text \<open>One turn of the loop: the row of an item, \<open>None\<close> for an item that is skipped.\<close>

definition chunk_row :: "env \<Rightarrow> chunk_scope \<Rightarrow> nat \<Rightarrow> pyval \<Rightarrow> py_error + knowledge_chunk option" where
  "chunk_row e sc i item = (case item of
     PDict it \<Rightarrow>
       let chunk_id = opt_str it ''chunk_id'' (''kchk_'' @ take 16 (uuid_hex e i)) in
       bindE (gint it ''chunk_index'' 0) (\<lambda>chunk_index.
       let content_s = opt_str it ''content'' [] in
       if chunk_id = [] \<or> content_s = [] then Inr None else
       let content_hash = str_or (opt_str it ''content_hash'' [])
             (''idx:'' @ int_str chunk_index @ '':'' @ nat_str (length content_s))
       in bindE (embedding_state it) (\<lambda>(embedding, status).
       let metadata_json = json_dict_text (pget it ''metadata'' PNone) in
       bindE (gint it ''token_count'' (max 1 (int (word_count False content_s)))) (\<lambda>token_count.
       bindE (gint it ''start_offset'' 0) (\<lambda>start_offset.
       bindE (gint it ''end_offset'' 0) (\<lambda>end_offset.
       let model = pystr (por (pget it ''embedding_model'' PNone) (por (cs_model sc) (PStr minilm))) in
       bindE (sql_int32 chunk_index) (\<lambda>chunk_index.
       bindE (sql_int32 start_offset) (\<lambda>start_offset.
       bindE (sql_int32 end_offset) (\<lambda>end_offset.
       bindE (sql_int32 token_count) (\<lambda>token_count.
       Inr (Some \<lparr>nc_id = chunk_id, nc_document = cs_document sc, nc_source = cs_source sc, nc_tenant = cs_tenant sc,
         nc_project = cs_project sc, nc_worker = cs_worker sc, nc_index = chunk_index, nc_content = content_s,
         nc_hash = content_hash, nc_start = start_offset, nc_end = end_offset, nc_tokens = token_count,
         nc_embedding = embedding, nc_status = status, nc_model = model, nc_meta = metadata_json, nc_active = True,
         nc_created_at = now e, nc_updated_at = now e\<rparr>)))))))))) 
   | _ \<Rightarrow> Inr None)"

definition store_chunk :: "env \<Rightarrow> chunk_scope \<Rightarrow> nat \<times> pyval \<Rightarrow> knowledge_chunk list \<Rightarrow> py_error + knowledge_chunk list" where
  "store_chunk e sc = (\<lambda>(i, item) t. bindE (chunk_row e sc i item) (\<lambda>r. case r of None \<Rightarrow> Inr t | Some row \<Rightarrow> put_chunk row t))"

definition deactivate_chunks :: "env \<Rightarrow> (knowledge_chunk \<Rightarrow> bool) \<Rightarrow> knowledge_chunk list \<Rightarrow> knowledge_chunk list" where
  "deactivate_chunks e P t = upd_where P (\<lambda>c. c\<lparr>nc_active := False, nc_updated_at := now e\<rparr>) t"

definition apply_upsert_knowledge_chunks :: "env \<Rightarrow> payload \<Rightarrow> knowledge_db \<Rightarrow> py_error + knowledge_db" where
  "apply_upsert_knowledge_chunks e payload db =
     bindE (req_str payload ''document_id'') (\<lambda>document_id.
     bindE (req_str payload ''source_id'') (\<lambda>source_id.
     if document_id = [] \<or> source_id = [] then Inl (ValueError ''document_id and source_id required'') else
     bindE (require_knowledge_source db source_id) (\<lambda>source.
     if sel_one (\<lambda>d. nd_id d = document_id \<and> nd_source d = source_id) (kn_documents db) = None
     then Inl (ValueError (''Knowledge document not found: '' @ document_id)) else
     let tenant_id = str_or (strip (gstr payload ''tenant_id'' (str_or (ns_tenant source) ''default''))) ''default'';
         project_id = strip (gstr payload ''project_id'' (ns_project source));
         worker_uid = strip (gstr payload ''worker_uid'' (ns_worker source))
     in case por (pget payload ''chunks'' PNone) (PList []) of
       PList chunks \<Rightarrow>
         bindE (forE (store_chunk e \<lparr>cs_document = document_id, cs_source = source_id, cs_tenant = tenant_id,
             cs_project = project_id, cs_worker = worker_uid, cs_model = pget payload ''embedding_model'' PNone\<rparr>)
           (zip [0..<length chunks] chunks) (deactivate_chunks e (\<lambda>c. nc_document c = document_id) (kn_chunks db)))
           (\<lambda>cs. Inr (db\<lparr>kn_chunks := cs\<rparr>))
     | _ \<Rightarrow> Inl (ValueError ''chunks must be a list''))))"

subsection \<open>Deactivation\<close>

definition deactivate_document :: "env \<Rightarrow> string \<Rightarrow> pyval \<Rightarrow> knowledge_db \<Rightarrow> knowledge_db" where
  "deactivate_document e source_id raw_id db = (let document_id = strip (pystr raw_id) in
     if document_id = [] \<or> sel_one (\<lambda>d. nd_id d = document_id \<and> nd_source d = source_id) (kn_documents db) = None then db
     else db\<lparr>kn_documents := upd_where (\<lambda>d. nd_id d = document_id) (\<lambda>d. d\<lparr>nd_active := False, nd_updated_at := now e\<rparr>) (kn_documents db),
             kn_chunks := deactivate_chunks e (\<lambda>c. nc_document c = document_id) (kn_chunks db)\<rparr>)"

definition apply_deactivate_knowledge_documents :: "env \<Rightarrow> payload \<Rightarrow> knowledge_db \<Rightarrow> py_error + knowledge_db" where
  "apply_deactivate_knowledge_documents e payload db =
     bindE (req_str payload ''source_id'') (\<lambda>source_id.
     if source_id = [] then Inl (ValueError ''source_id required'') else
     case por (pget payload ''document_ids'' PNone) (PList []) of
       PList (i # ids) \<Rightarrow>
         bindE (require_knowledge_source db source_id) (\<lambda>_. Inr (fold (deactivate_document e source_id) (i # ids) db))
     | _ \<Rightarrow> Inr db)"

definition apply_deactivate_knowledge_source :: "env \<Rightarrow> payload \<Rightarrow> knowledge_db \<Rightarrow> py_error + knowledge_db" where
  "apply_deactivate_knowledge_source e payload db =
     bindE (req_str payload ''source_id'') (\<lambda>source_id.
     let tenant_id = dflt_str payload ''tenant_id'' ''default'' in
     if sel_one (\<lambda>s. ns_id s = source_id \<and> ns_tenant s = tenant_id) (kn_sources db) = None
     then Inl (ValueError (''Knowledge source not found: '' @ source_id))
     else Inr (db\<lparr>
       kn_sources := upd_where (\<lambda>s. ns_id s = source_id)
         (\<lambda>s. s\<lparr>ns_active := False, ns_status := ''inactive'', ns_updated_at := now e\<rparr>) (kn_sources db),
       kn_documents := upd_where (\<lambda>d. nd_source d = source_id) (\<lambda>d. d\<lparr>nd_active := False, nd_updated_at := now e\<rparr>) (kn_documents db),
       kn_chunks := deactivate_chunks e (\<lambda>c. nc_source c = source_id) (kn_chunks db)\<rparr>))"

subsection \<open>The payload of a document\<close>

definition stable_id :: "env \<Rightarrow> string \<Rightarrow> string list \<Rightarrow> string" where
  "stable_id e pre parts = pre @ ''_'' @ take 16 (sha256_hex e (join [lf] parts))"

definition sha256_text :: "env \<Rightarrow> string \<Rightarrow> string" where
  "sha256_text e s = ''sha256:'' @ sha256_hex e s"

text \<open>\<open>text.find(part, cursor)\<close>.\<close>

fun find_at :: "string \<Rightarrow> string \<Rightarrow> nat \<Rightarrow> nat option" where
  "find_at part [] i = (if part = [] then Some i else None)"
| "find_at part (c # cs) i = (if startswith part (c # cs) then Some i else find_at part cs (Suc i))"

definition find_from :: "string \<Rightarrow> string \<Rightarrow> nat \<Rightarrow> nat option" where
  "find_from part s cursor = (if length s < cursor then None else find_at part (drop cursor s) cursor)"

text \<open>\<open>len(re.findall(r"\w+", content))\<close>.\<close>

definition is_word_char :: "char \<Rightarrow> bool" where
  "is_word_char c \<longleftrightarrow> (let n = code c in is_digit c \<or> is_alpha_ascii c \<or> n = 95 \<or> n \<in> {170, 178, 179, 181, 185, 186, 188, 189, 190}
     \<or> 192 \<le> n \<and> n \<noteq> 215 \<and> n \<noteq> 247)"

fun words_from :: "string \<Rightarrow> string \<Rightarrow> string list" where
  "words_from cur [] = (if cur = [] then [] else [cur])"
| "words_from cur (c # cs) = (if is_word_char c then words_from (cur @ [c]) cs
     else (if cur = [] then [] else [cur]) @ words_from [] cs)"

fun chunk_items :: "env \<Rightarrow> string \<Rightarrow> string \<Rightarrow> payload \<Rightarrow> string \<Rightarrow> nat \<Rightarrow> nat \<Rightarrow> string list \<Rightarrow> pyval list" where
  "chunk_items e document_id source_id meta s index cursor [] = []"
| "chunk_items e document_id source_id meta s index cursor (content_s # rest) = (let
     start = (case find_from (take (min 80 (length content_s)) content_s) s cursor of Some n \<Rightarrow> n | None \<Rightarrow> cursor);
     stop = start + length content_s;
     content_hash = sha256_text e content_s
   in PDict [(''chunk_id'', PStr (stable_id e ''kchk'' [document_id, nat_str index, content_hash])),
       (''document_id'', PStr document_id), (''source_id'', PStr source_id), (''chunk_index'', PInt (int index)),
       (''content'', PStr content_s), (''content_hash'', PStr content_hash), (''start_offset'', PInt (int start)),
       (''end_offset'', PInt (int stop)), (''token_count'', PInt (max 1 (int (length (words_from [] content_s))))),
       (''embedding_status'', PStr ''PENDING''), (''metadata'', PDict meta)]
     # chunk_items e document_id source_id meta s (Suc index) (max stop cursor) rest)"

text \<open>
  An uploaded file: the conversions of office formats, JSON and CSV are parameters of the model, \<open>None\<close> where they
  raise.
\<close>

record ingest_env =
  ie_env :: env
  ie_decode :: "string \<Rightarrow> string"
  ie_convert :: "string \<Rightarrow> string \<Rightarrow> string"
  ie_json :: "string \<Rightarrow> string option"
  ie_csv :: "string \<Rightarrow> string"

definition markitdown_suffixes :: "string list" where
  "markitdown_suffixes = [''.pdf'', ''.docx'', ''.doc'', ''.pptx'', ''.ppt'', ''.xlsx'', ''.xls'', ''.html'', ''.htm'']"

definition allowed_suffixes :: "string list" where
  "allowed_suffixes = [''.md'', ''.markdown'', ''.txt'', ''.json'', ''.csv'']"

definition normalize_uploaded_document :: "ingest_env \<Rightarrow> string \<Rightarrow> string \<Rightarrow> py_error + string \<times> string \<times> string" where
  "normalize_uploaded_document ie filename data =
     bindE (safe_uploaded_relative_path filename) (\<lambda>relative_path.
     let suffix_s = lower (path_suffix (relative_parts relative_path)) in
     if suffix_s \<in> set markitdown_suffixes then
       (let s = ie_convert ie relative_path data in
        if strip s = [] then Inl (ValueError (''no se extrajo texto de '' @ relative_path)) else Inr (relative_path, s, ''text/markdown''))
     else if suffix_s \<notin> set allowed_suffixes then Inl (ValueError (''unsupported knowledge file type: '' @ suffix_s))
     else let raw = ie_decode ie data in
     if suffix_s = ''.json'' then (case ie_json ie raw of
         None \<Rightarrow> Inl (ValueError (''JSON inv'' @ [CHR 0xE1] @ ''lido en '' @ relative_path))
       | Some s \<Rightarrow> Inr (relative_path, s, ''application/json''))
     else if suffix_s = ''.csv'' then Inr (relative_path, ie_csv ie raw, ''text/csv'')
     else Inr (relative_path, raw, (if suffix_s \<in> {''.md'', ''.markdown''} then ''text/markdown'' else ''text/plain'')))"

definition path_stem :: "path \<Rightarrow> string" where
  "path_stem p = take (length (path_name p) - length (path_suffix p)) (path_name p)"

definition document_payload :: "ingest_env \<Rightarrow> string \<Rightarrow> string \<Rightarrow> string \<Rightarrow> string \<Rightarrow> nat \<Rightarrow> int \<Rightarrow> bool \<Rightarrow> payload \<times> pyval list" where
  "document_payload ie source_id relative_path s mime_type byte_size max_chars upload = (let
     e = ie_env ie; document_id = stable_id e ''kdoc'' [source_id, relative_path]; flag = (if upload then [(''upload'', PBool True)] else [])
   in ([(''document_id'', PStr document_id), (''source_id'', PStr source_id), (''relative_path'', PStr relative_path),
        (''title'', PStr (str_or (strip (replace_char (CHR ''-'') '' '' (replace_char (CHR ''_'') '' '' (path_stem (relative_parts relative_path)))))
           relative_path)),
        (''mime_type'', PStr mime_type), (''checksum'', PStr (sha256_text e s)), (''byte_size'', PInt (int byte_size)),
        (''metadata'', PDict ((''suffix'', PStr (lower (path_suffix (relative_parts relative_path)))) # flag))],
       chunk_items e document_id source_id ((''relative_path'', PStr relative_path) # flag) s 0 0 (chunk_text s max_chars 240)))"

definition build_uploaded_document_payload :: "ingest_env \<Rightarrow> string \<Rightarrow> string \<Rightarrow> string \<Rightarrow> int \<Rightarrow> py_error + payload \<times> pyval list" where
  "build_uploaded_document_payload ie filename data source_id max_chars =
     bindE (normalize_uploaded_document ie filename data) (\<lambda>(relative_path, s, mime_type).
     Inr (document_payload ie source_id relative_path s mime_type (length data) max_chars True))"

definition embed_chunk_payloads :: "(string \<Rightarrow> pyval) \<Rightarrow> pyval list \<Rightarrow> pyval list" where
  "embed_chunk_payloads embedding_fn chunks = map (\<lambda>chunk. case chunk of
     PDict it \<Rightarrow> (case embedding_fn (gstr it ''content'' []) of
         PList vec \<Rightarrow> if length vec = 384 then PDict (pset ''embedding_status'' (PStr ''READY'') (pset ''embedding'' (PList vec) it))
           else PDict (pset ''embedding_status'' (PStr ''PENDING'') it)
       | _ \<Rightarrow> PDict (pset ''embedding_status'' (PStr ''PENDING'') it))
   | v \<Rightarrow> v) chunks"

subsection \<open>Search\<close>

definition knowledge_scopes :: "string list" where
  "knowledge_scopes = [''platform'', ''project'', ''both'']"

definition normalize_knowledge_scope :: "string \<Rightarrow> string \<Rightarrow> string" where
  "normalize_knowledge_scope raw project_id = (let
     scope0 = lower (strip raw); pid = strip project_id;
     scope = (if scope0 \<notin> set knowledge_scopes then (if pid \<noteq> [] then ''both'' else ''platform'') else scope0)
   in if scope = ''project'' \<and> pid = [] then ''platform''
     else if scope = ''both'' \<and> pid = [] then ''platform'' else scope)"

definition scope_admits :: "string \<Rightarrow> string \<Rightarrow> string \<Rightarrow> string \<Rightarrow> bool" where
  "scope_admits knowledge_scope project_id source_project chunk_project = (let
     scope = normalize_knowledge_scope knowledge_scope project_id; pid = strip project_id
   in if scope = ''platform'' then source_project = [] \<and> chunk_project = []
     else if scope = ''project'' then source_project = pid \<and> chunk_project = pid
     else chunk_project \<in> {pid, []} \<and> source_project \<in> {pid, []})"

record search_scope =
  sr_tenant :: string
  sr_project :: string
  sr_worker :: string
  sr_source :: string
  sr_scope :: string

type_synonym hit = "knowledge_chunk \<times> knowledge_document \<times> knowledge_source"

text \<open>The join of a chunk with its document and its source, and the WHERE clause of \<open>_scope_where\<close>.\<close>

definition joined_rows :: "knowledge_db \<Rightarrow> hit list" where
  "joined_rows db = concat (map (\<lambda>c. case sel_one (\<lambda>d. nd_id d = nc_document c) (kn_documents db) of
       None \<Rightarrow> [] | Some d \<Rightarrow> (case sel_one (\<lambda>s. ns_id s = nc_source c) (kn_sources db) of None \<Rightarrow> [] | Some s \<Rightarrow> [(c, d, s)]))
     (kn_chunks db))"

definition scope_where :: "search_scope \<Rightarrow> hit \<Rightarrow> bool" where
  "scope_where sr = (\<lambda>(c, d, s). nc_active c \<and> nd_active d \<and> ns_active s \<and> nc_tenant c = sr_tenant sr \<and>
     scope_admits (sr_scope sr) (sr_project sr) (ns_project s) (nc_project c) \<and>
     (sr_worker sr = [] \<or> nc_worker c = sr_worker sr \<or> nc_worker c = []) \<and>
     (sr_source sr = [] \<or> nc_source c = sr_source sr))"

definition fold_char :: "char \<Rightarrow> char" where
  "fold_char c = (let n = code c in
     if 224 \<le> n \<and> n \<le> 229 then CHR ''a'' else if n = 231 then CHR ''c'' else if 232 \<le> n \<and> n \<le> 235 then CHR ''e''
     else if 236 \<le> n \<and> n \<le> 239 then CHR ''i'' else if n = 241 then CHR ''n'' else if 242 \<le> n \<and> n \<le> 246 then CHR ''o''
     else if 249 \<le> n \<and> n \<le> 252 then CHR ''u'' else if n = 253 \<or> n = 255 then CHR ''y'' else c)"

definition fold_search_text :: "string \<Rightarrow> string" where
  "fold_search_text s = map fold_char (lower (strip s))"

definition lex_skip :: "string list" where
  "lex_skip = [''el'', ''la'', ''los'', ''las'', ''de'', ''del'', ''que'', ''con'', ''por'', ''para'', ''una'', ''uno'',
     ''the'', ''and'', ''for'', ''with'', ''sobre'', ''buscar'', ''busca'']"

fun tokens_from :: "nat \<Rightarrow> string list \<Rightarrow> string list \<Rightarrow> string list" where
  "tokens_from max_tokens acc [] = acc"
| "tokens_from max_tokens acc (raw # rest) = (let token = take 48 (strip raw) in
     if length token < 2 \<or> token \<in> set lex_skip then tokens_from max_tokens acc rest
     else let acc1 = acc @ [token]; folded = fold_search_text token;
         acc2 = (if folded \<noteq> [] \<and> folded \<noteq> token \<and> folded \<notin> set acc1 then acc1 @ [folded] else acc1)
       in if max_tokens \<le> length acc2 then acc2 else tokens_from max_tokens acc2 rest)"

definition lexical_tokens :: "string \<Rightarrow> string list" where
  "lexical_tokens query = take 8 (tokens_from 8 [] (words_from [] (lower query)))"

definition lexical_match :: "string list \<Rightarrow> hit \<Rightarrow> bool" where
  "lexical_match tokens = (\<lambda>(c, d, s). list_ex (\<lambda>t. contains (lower t) (lower (nc_content c)) \<or> contains (lower t) (lower (nd_path d))) tokens)"

definition search_knowledge_lexical :: "knowledge_db \<Rightarrow> string \<Rightarrow> search_scope \<Rightarrow> nat \<Rightarrow> hit list" where
  "search_knowledge_lexical db query sr limit = (let tokens = lexical_tokens query in
     if tokens = [] then []
     else take limit (sort_key (\<lambda>(c, d, s). - nc_updated_at c) (filter (\<lambda>h. scope_where sr h \<and> lexical_match tokens h) (joined_rows db))))"

text \<open>\<open>dist\<close> is DuckDB's cosine distance on embeddings.\<close>

definition search_knowledge_vector :: "(pyval list \<Rightarrow> pyval list \<Rightarrow> int) \<Rightarrow> knowledge_db \<Rightarrow> pyval list \<Rightarrow> search_scope \<Rightarrow> nat \<Rightarrow> hit list" where
  "search_knowledge_vector dist db vec sr limit = take limit (sort_key (\<lambda>(c, d, s). case nc_embedding c of Some v \<Rightarrow> dist v vec | None \<Rightarrow> 0)
     (filter (\<lambda>h. scope_where sr h \<and> nc_embedding (fst h) \<noteq> None \<and> nc_status (fst h) = ''READY'') (joined_rows db)))"

definition search_knowledge :: "(pyval list \<Rightarrow> pyval list \<Rightarrow> int) \<Rightarrow> (string \<Rightarrow> pyval) \<Rightarrow> knowledge_db \<Rightarrow> string \<Rightarrow> search_scope \<Rightarrow> int \<Rightarrow> hit list" where
  "search_knowledge dist embedding_fn db query sr limit = (let q = strip query; lim = nat (max 1 (min limit 40)) in
     if q = [] then []
     else let by_vector = (case embedding_fn q of
           PList vec \<Rightarrow> if length vec = 384 then search_knowledge_vector dist db vec sr lim else [] | _ \<Rightarrow> [])
       in if by_vector \<noteq> [] then by_vector else search_knowledge_lexical db q sr lim)"

subsection \<open>Invariant\<close>

definition source_row_ok :: "knowledge_source \<Rightarrow> bool" where
  "source_row_ok s \<longleftrightarrow> ns_id s \<noteq> [] \<and> ns_uri s \<noteq> [] \<and> ns_kind s \<in> set source_kinds \<and> ns_status s \<in> set source_statuses"

definition document_row_ok :: "knowledge_source list \<Rightarrow> knowledge_document \<Rightarrow> bool" where
  "document_row_ok sources d \<longleftrightarrow> nd_id d \<noteq> [] \<and> nd_path d \<noteq> [] \<and> nd_checksum d \<noteq> [] \<and> has_key ns_id (nd_source d) sources"

definition chunk_fields_ok :: "knowledge_chunk \<Rightarrow> bool" where
  "chunk_fields_ok c \<longleftrightarrow> nc_id c \<noteq> [] \<and> nc_content c \<noteq> [] \<and> nc_status c \<in> set chunk_statuses \<and>
     (\<forall>v. nc_embedding c = Some v \<longrightarrow> length v = 384 \<and> nc_status c = ''READY'')"

definition chunk_row_ok :: "knowledge_source list \<Rightarrow> knowledge_document list \<Rightarrow> knowledge_chunk \<Rightarrow> bool" where
  "chunk_row_ok sources docs c \<longleftrightarrow> chunk_fields_ok c \<and> has_key nd_id (nc_document c) docs \<and> has_key ns_id (nc_source c) sources"

definition knowledge_ok :: "knowledge_db \<Rightarrow> bool" where
  "knowledge_ok db \<longleftrightarrow> uniq ns_id (kn_sources db) \<and> uniq nd_id (kn_documents db) \<and> uniq doc_place (kn_documents db) \<and>
     uniq nc_id (kn_chunks db) \<and> uniq chunk_place (kn_chunks db) \<and>
     (\<forall>s \<in> set (kn_sources db). source_row_ok s) \<and>
     (\<forall>d \<in> set (kn_documents db). document_row_ok (kn_sources db) d) \<and>
     (\<forall>c \<in> set (kn_chunks db). chunk_row_ok (kn_sources db) (kn_documents db) c)"

definition knowledge_handlers :: "(env \<Rightarrow> payload \<Rightarrow> knowledge_db \<Rightarrow> py_error + knowledge_db) list" where
  "knowledge_handlers = [apply_create_knowledge_source, apply_upsert_knowledge_document, apply_upsert_knowledge_chunks,
     apply_deactivate_knowledge_documents, apply_deactivate_knowledge_source]"

subsection \<open>Rows put by key\<close>

lemma put_row_Inr:
  assumes "put_row key place keep row t = Inr t'" "\<And>old. key (keep old row) = key row" "uniq key t"
  shows "uniq key t' \<and> uniq place t' \<and>
    (\<forall>r \<in> set t'. if key r = key row then r = row \<or> (\<exists>old. r = keep old row) else r \<in> set t) \<and>
    (\<forall>r \<in> set t. key r \<noteq> key row \<longrightarrow> r \<in> set t') \<and> has_key key (key row) t'"
proof -
  have t': "t' = (if has_key key (key row) t then upd_where (\<lambda>r. key r = key row) (\<lambda>r. keep r row) t else t @ [row])" "uniq place t'"
    using assms(1) by (auto simp: put_row_def check_unique_def split: if_splits)
  show ?thesis
  proof (cases "has_key key (key row) t")
    case True
    then have e: "t' = upd_where (\<lambda>r. key r = key row) (\<lambda>r. keep r row) t" using t'(1) by simp
    have "uniq key t'" unfolding e by (rule uniq_upd_where [OF assms(3)]) (simp add: assms(2))
    then show ?thesis using t'(2) True assms(2) by (auto simp: e set_upd_where has_key_iff)
  next
    case False
    then show ?thesis using t' assms(3) by (auto simp: has_key_iff)
  qed
qed

lemmas put_document_Inr = put_row_Inr [of nd_id doc_place "\<lambda>old row. row\<lparr>nd_created_at := nd_created_at old\<rparr>", folded put_document_def, simplified]
lemmas put_chunk_Inr = put_row_Inr [of nc_id chunk_place "\<lambda>old row. row\<lparr>nc_created_at := nc_created_at old\<rparr>", folded put_chunk_def, simplified]

lemma embedding_state_ok:
  assumes "embedding_state it = Inr (v, st)"
  shows "st \<in> set chunk_statuses \<and> (\<forall>x. v = Some x \<longrightarrow> length x = 384 \<and> st = ''READY'')"
proof -
  have "length v = 384" if "normalize_embedding x = Inr (Some v)" for x v
    using that by (cases x) (auto split: if_splits)
  then show ?thesis using assms by (auto simp: embedding_state_def Let_def split: if_split_asm)
qed

lemma chunk_row_fields:
  assumes "chunk_row e sc i item = Inr (Some r)"
  shows "chunk_fields_ok r \<and> nc_document r = cs_document sc \<and> nc_source r = cs_source sc \<and>
     nc_tenant r = cs_tenant sc \<and> nc_project r = cs_project sc \<and> nc_worker r = cs_worker sc \<and> nc_active r"
proof -
  from assms obtain it where it: "item = PDict it" by (auto simp: chunk_row_def split: pyval.splits)
  let ?id = "opt_str it ''chunk_id'' (''kchk_'' @ take 16 (uuid_hex e i))" and ?c = "opt_str it ''content'' []"
  from assms have ne: "?id \<noteq> []" "?c \<noteq> []" unfolding it chunk_row_def by auto
  have nf: "(?id = []) = False" "(?c = []) = False" using ne by simp_all
  have "\<exists>v st. embedding_state it = Inr (v, st) \<and> nc_id r = ?id \<and> nc_content r = ?c \<and> nc_embedding r = v \<and>
    nc_status r = st \<and> nc_document r = cs_document sc \<and> nc_source r = cs_source sc \<and> nc_tenant r = cs_tenant sc \<and>
    nc_project r = cs_project sc \<and> nc_worker r = cs_worker sc \<and> nc_active r"
    using assms unfolding it chunk_row_def pyval.case Let_def nf simp_thms if_False
    by (elim bindE_InrE case_prodE, clarify) simp
  then obtain v st where v: "embedding_state it = Inr (v, st)" and r: "nc_id r = ?id" "nc_content r = ?c" "nc_embedding r = v" "nc_status r = st"
    "nc_document r = cs_document sc \<and> nc_source r = cs_source sc \<and> nc_tenant r = cs_tenant sc \<and>
     nc_project r = cs_project sc \<and> nc_worker r = cs_worker sc \<and> nc_active r" by blast
  then show ?thesis using ne embedding_state_ok [OF v] by (simp add: chunk_fields_ok_def)
qed

lemma store_chunk_cases:
  assumes "store_chunk e sc (i, item) t = Inr t'"
  obtains "chunk_row e sc i item = Inr None" "t' = t" | r where "chunk_row e sc i item = Inr (Some r)" "put_chunk r t = Inr t'"
proof -
  from assms obtain r where "chunk_row e sc i item = Inr r" "(case r of None \<Rightarrow> Inr t | Some row \<Rightarrow> put_chunk row t) = Inr t'"
    by (auto simp: store_chunk_def)
  then show thesis using that by (cases r) auto
qed

lemma store_chunk_ok:
  assumes "store_chunk e sc x t = Inr t'" "uniq nc_id t" "uniq chunk_place t" "\<forall>c \<in> set t. chunk_row_ok S D c"
    and "has_key nd_id (cs_document sc) D" "has_key ns_id (cs_source sc) S"
  shows "uniq nc_id t' \<and> uniq chunk_place t' \<and> (\<forall>c \<in> set t'. chunk_row_ok S D c)"
proof -
  obtain i item where x: "x = (i, item)" by force
  from assms(1) [unfolded x] show ?thesis
  proof (cases rule: store_chunk_cases)
    case 1
    then show ?thesis using assms(2-4) by simp
  next
    case (2 r)
    note f = chunk_row_fields [OF 2(1)]
    have r: "chunk_row_ok S D (r\<lparr>nc_created_at := x\<rparr>)" "chunk_row_ok S D r" for x
      using f assms(5,6) by (simp_all add: chunk_row_ok_def chunk_fields_ok_def)
    note p = put_chunk_Inr [OF 2(2) assms(2)]
    have "chunk_row_ok S D c" if "c \<in> set t'" for c using p r assms(4) that by (auto split: if_splits)
    then show ?thesis using p by blast
  qed
qed

lemma deactivate_chunks_simps:
  "uniq nc_id (deactivate_chunks e P t) = uniq nc_id t"
  "uniq chunk_place (deactivate_chunks e P t) = uniq chunk_place t"
  "(\<forall>c \<in> set (deactivate_chunks e P t). chunk_row_ok S D c) = (\<forall>c \<in> set t. chunk_row_ok S D c)"
proof -
  have "map nc_id (deactivate_chunks e P t) = map nc_id t" "map chunk_place (deactivate_chunks e P t) = map chunk_place t"
    by (simp_all add: deactivate_chunks_def upd_where_def chunk_place_def)
  then show "uniq nc_id (deactivate_chunks e P t) = uniq nc_id t" "uniq chunk_place (deactivate_chunks e P t) = uniq chunk_place t"
    by (simp_all add: uniq_def)
  have "chunk_row_ok S D (if P c then c\<lparr>nc_active := False, nc_updated_at := now e\<rparr> else c) = chunk_row_ok S D c" for c
    by (simp add: chunk_row_ok_def chunk_fields_ok_def)
  then show "(\<forall>c \<in> set (deactivate_chunks e P t). chunk_row_ok S D c) = (\<forall>c \<in> set t. chunk_row_ok S D c)"
    unfolding deactivate_chunks_def ball_upd_where_iff by (simp only:)
qed

lemma document_rows_mono:
  "has_key ns_id k S \<Longrightarrow> has_key ns_id k (S @ [s])"
  by (auto simp: has_key_iff)

lemma keep_keys: "map key (upd_where P f t) = map key t \<Longrightarrow> has_key key k (upd_where P f t) = has_key key k t"
  by (metis has_key_def set_map)

lemma uniq_same_map: "map key t' = map key t \<Longrightarrow> uniq key t' = uniq key t"
  by (simp add: uniq_def)

lemma knowledge_ok_keys:
  assumes "knowledge_ok db" "\<And>k. has_key ns_id k (kn_sources db) \<Longrightarrow> has_key ns_id k S" "uniq ns_id S" "\<forall>s \<in> set S. source_row_ok s"
  shows "knowledge_ok (db\<lparr>kn_sources := S\<rparr>)"
  using assms by (auto simp: knowledge_ok_def document_row_ok_def chunk_row_ok_def)

lemma source_row_Inr: "source_row e p = Inr row \<Longrightarrow> source_row_ok row"
  by (auto simp: source_row_def source_row_ok_def check_source_def Let_def split: if_splits)

lemma create_source_ok:
  assumes "knowledge_ok db" "apply_create_knowledge_source e p db = Inr db'"
  shows "knowledge_ok db'"
proof -
  from assms(2) obtain row where row: "source_row e p = Inr row" "db' = db\<lparr>kn_sources :=
      (if has_key ns_id (ns_id row) (kn_sources db)
       then upd_where (\<lambda>s. ns_id s = ns_id row) (\<lambda>s. row\<lparr>ns_created_at := ns_created_at s\<rparr>) (kn_sources db)
       else kn_sources db @ [row])\<rparr>" by (auto simp: apply_create_knowledge_source_def)
  let ?upd = "upd_where (\<lambda>s. ns_id s = ns_id row) (\<lambda>s. row\<lparr>ns_created_at := ns_created_at s\<rparr>) (kn_sources db)"
  note r = source_row_Inr [OF row(1)]
  have u: "uniq ns_id (kn_sources db)" "\<forall>s \<in> set (kn_sources db). source_row_ok s" using assms(1) by (simp_all add: knowledge_ok_def)
  have m: "map ns_id ?upd = map ns_id (kn_sources db)" by (simp add: upd_where_def)
  have f: "source_row_ok (row\<lparr>ns_created_at := x\<rparr>)" for x using r by (simp add: source_row_ok_def)
  have g: "\<forall>s \<in> set ?upd. source_row_ok s" unfolding ball_upd_where_iff using u(2) f by simp
  show ?thesis unfolding row(2)
    using u r g keep_keys [OF m] uniq_same_map [OF m]
    by (intro knowledge_ok_keys [OF assms(1)]) (auto simp: document_rows_mono split: if_splits)
qed

lemma require_source_Inr: "require_knowledge_source db k = Inr s \<Longrightarrow> has_key ns_id k (kn_sources db)"
  by (auto simp: require_knowledge_source_def has_key_iff split: option.splits dest: sel_one_Some)

lemma document_row_Inr: "document_row e p db = Inr row \<Longrightarrow> document_row_ok (kn_sources db) row"
  by (auto simp: document_row_def document_row_ok_def Let_def split: if_splits dest: require_source_Inr)

lemma upsert_document_ok:
  assumes "knowledge_ok db" "apply_upsert_knowledge_document e p db = Inr db'"
  shows "knowledge_ok db'"
proof -
  from assms(2) obtain row docs where row: "document_row e p db = Inr row" "put_document row (kn_documents db) = Inr docs"
    "db' = db\<lparr>kn_documents := docs\<rparr>" by (auto simp: apply_upsert_knowledge_document_def)
  have u: "uniq nd_id (kn_documents db)" "\<forall>d \<in> set (kn_documents db). document_row_ok (kn_sources db) d"
    using assms(1) by (simp_all add: knowledge_ok_def)
  note p = put_document_Inr [OF row(2) u(1)]
  note r = document_row_Inr [OF row(1)]
  have "document_row_ok (kn_sources db) (row\<lparr>nd_created_at := x\<rparr>)" for x using r by (simp add: document_row_ok_def)
  then have d: "\<forall>d \<in> set docs. document_row_ok (kn_sources db) d" using p r u(2) by metis
  have "has_key nd_id k docs" if "has_key nd_id k (kn_documents db)" for k
    using p that by (cases "k = nd_id row") (auto simp: has_key_iff)
  then show ?thesis using assms(1) p d unfolding row(3) by (auto simp: knowledge_ok_def chunk_row_ok_def)
qed

lemma upsert_chunks_cases:
  assumes "apply_upsert_knowledge_chunks e p db = Inr db'"
  obtains sc items cs where "has_key nd_id (cs_document sc) (kn_documents db)" "has_key ns_id (cs_source sc) (kn_sources db)"
    "req_str p ''document_id'' = Inr (cs_document sc)" "por (pget p ''chunks'' PNone) (PList []) = PList items"
    "forE (store_chunk e sc) (zip [0..<length items] items)
       (deactivate_chunks e (\<lambda>c. nc_document c = cs_document sc) (kn_chunks db)) = Inr cs"
    "db' = db\<lparr>kn_chunks := cs\<rparr>"
proof -
  from assms obtain document_id source_id source where
    r: "req_str p ''document_id'' = Inr document_id" "require_knowledge_source db source_id = Inr source"
    and d: "sel_one (\<lambda>d. nd_id d = document_id \<and> nd_source d = source_id) (kn_documents db) \<noteq> None"
    and rest: "(case por (pget p ''chunks'' PNone) (PList []) of
       PList chunks \<Rightarrow>
         bindE (forE (store_chunk e \<lparr>cs_document = document_id, cs_source = source_id,
             cs_tenant = str_or (strip (gstr p ''tenant_id'' (str_or (ns_tenant source) ''default''))) ''default'',
             cs_project = strip (gstr p ''project_id'' (ns_project source)), cs_worker = strip (gstr p ''worker_uid'' (ns_worker source)),
             cs_model = pget p ''embedding_model'' PNone\<rparr>)
           (zip [0..<length chunks] chunks) (deactivate_chunks e (\<lambda>c. nc_document c = document_id) (kn_chunks db)))
           (\<lambda>cs. Inr (db\<lparr>kn_chunks := cs\<rparr>))
     | _ \<Rightarrow> Inl (ValueError ''chunks must be a list'')) = Inr db'"
    unfolding apply_upsert_knowledge_chunks_def Let_def by (auto split: if_split_asm)
  have k: "has_key nd_id document_id (kn_documents db)" using d by (auto simp: has_key_iff dest: sel_one_Some)
  let ?sc = "\<lparr>cs_document = document_id, cs_source = source_id,
      cs_tenant = str_or (strip (gstr p ''tenant_id'' (str_or (ns_tenant source) ''default''))) ''default'',
      cs_project = strip (gstr p ''project_id'' (ns_project source)), cs_worker = strip (gstr p ''worker_uid'' (ns_worker source)),
      cs_model = pget p ''embedding_model'' PNone\<rparr>"
  from rest obtain items cs where "por (pget p ''chunks'' PNone) (PList []) = PList items" "db' = db\<lparr>kn_chunks := cs\<rparr>"
    "forE (store_chunk e ?sc) (zip [0..<length items] items)
       (deactivate_chunks e (\<lambda>c. nc_document c = document_id) (kn_chunks db)) = Inr cs"
    by (cases "por (pget p ''chunks'' PNone) (PList [])") auto
  then show thesis using r(1) k require_source_Inr [OF r(2)] by (intro that [of ?sc items cs]) simp_all
qed

lemma upsert_chunks_ok:
  assumes "knowledge_ok db" "apply_upsert_knowledge_chunks e p db = Inr db'"
  shows "knowledge_ok db'"
  using assms(2)
proof (cases rule: upsert_chunks_cases)
  case (1 sc items cs)
  let ?P = "\<lambda>t. uniq nc_id t \<and> uniq chunk_place t \<and> (\<forall>c \<in> set t. chunk_row_ok (kn_sources db) (kn_documents db) c)"
  have "?P cs"
    by (rule forE_invariant [of _ ?P, OF _ _ 1(5)])
      (use assms(1) store_chunk_ok [OF _ _ _ _ 1(1,2)] in \<open>auto simp: knowledge_ok_def deactivate_chunks_simps\<close>)
  then show ?thesis using assms(1) unfolding 1(6) by (simp add: knowledge_ok_def)
qed

lemma deactivate_rows_ok:
  assumes "knowledge_ok db"
  shows "knowledge_ok (db\<lparr>kn_documents := upd_where P (\<lambda>d. d\<lparr>nd_active := False, nd_updated_at := x\<rparr>) (kn_documents db),
    kn_chunks := deactivate_chunks e Q (kn_chunks db)\<rparr>)"
proof -
  let ?D = "upd_where P (\<lambda>d. d\<lparr>nd_active := False, nd_updated_at := x\<rparr>) (kn_documents db)"
  have m: "map nd_id ?D = map nd_id (kn_documents db)" "map doc_place ?D = map doc_place (kn_documents db)"
    by (simp_all add: upd_where_def doc_place_def)
  have "chunk_row_ok (kn_sources db) ?D c = chunk_row_ok (kn_sources db) (kn_documents db) c" for c
    by (simp add: chunk_row_ok_def keep_keys [OF m(1)])
  moreover have "document_row_ok S (if P d then d\<lparr>nd_active := False, nd_updated_at := x\<rparr> else d) = document_row_ok S d" for S d
    by (simp add: document_row_ok_def)
  then have "(\<forall>d \<in> set ?D. document_row_ok S d) = (\<forall>d \<in> set (kn_documents db). document_row_ok S d)" for S
    unfolding ball_upd_where_iff by (simp only:)
  ultimately show ?thesis using assms
    by (simp add: knowledge_ok_def uniq_same_map [OF m(1)] uniq_same_map [OF m(2)] deactivate_chunks_simps)
qed

lemma deactivate_documents_ok:
  assumes "knowledge_ok db" "apply_deactivate_knowledge_documents e p db = Inr db'"
  shows "knowledge_ok db'"
proof -
  have "knowledge_ok (deactivate_document e sid raw d)" if "knowledge_ok d" for sid raw d
    using that deactivate_rows_ok [OF that] by (simp add: deactivate_document_def Let_def)
  then have "knowledge_ok (fold (deactivate_document e sid) ids d)" if "knowledge_ok d" for sid ids d
    using that by (induction ids arbitrary: d) simp_all
  note f = this
  from assms(2) consider "db' = db" | sid ids where "db' = fold (deactivate_document e sid) ids db"
    by (auto simp: apply_deactivate_knowledge_documents_def simp del: fold.simps split: if_splits pyval.splits list.splits)
  then show ?thesis using f [OF assms(1)] assms(1) by cases auto
qed

lemma deactivate_source_ok:
  assumes "knowledge_ok db" "apply_deactivate_knowledge_source e p db = Inr db'"
  shows "knowledge_ok db'"
proof -
  from assms(2) obtain k where db': "db' = db\<lparr>
       kn_sources := upd_where (\<lambda>s. ns_id s = k) (\<lambda>s. s\<lparr>ns_active := False, ns_status := ''inactive'', ns_updated_at := now e\<rparr>) (kn_sources db),
       kn_documents := upd_where (\<lambda>d. nd_source d = k) (\<lambda>d. d\<lparr>nd_active := False, nd_updated_at := now e\<rparr>) (kn_documents db),
       kn_chunks := deactivate_chunks e (\<lambda>c. nc_source c = k) (kn_chunks db)\<rparr>"
    by (auto simp: apply_deactivate_knowledge_source_def Let_def split: if_splits)
  let ?S = "upd_where (\<lambda>s. ns_id s = k) (\<lambda>s. s\<lparr>ns_active := False, ns_status := ''inactive'', ns_updated_at := now e\<rparr>) (kn_sources db)"
  have m: "map ns_id ?S = map ns_id (kn_sources db)" by (simp add: upd_where_def)
  have "source_row_ok s \<Longrightarrow> source_row_ok (s\<lparr>ns_active := False, ns_status := ''inactive'', ns_updated_at := now e\<rparr>)" for s
    by (simp add: source_row_ok_def source_statuses_def)
  then have "\<forall>s \<in> set ?S. source_row_ok s" using assms(1) unfolding ball_upd_where_iff by (simp add: knowledge_ok_def)
  then have "knowledge_ok (db\<lparr>kn_sources := ?S\<rparr>)"
    using assms(1) by (intro knowledge_ok_keys [OF assms(1)]) (simp_all add: keep_keys [OF m] uniq_same_map [OF m] knowledge_ok_def)
  from deactivate_rows_ok [OF this] show ?thesis unfolding db' by simp
qed

text \<open>
  C35. Every write handler of the knowledge base keeps its tables sound: identifiers are unique, no two documents of a
  source share a path and no two chunks of a document an index, every document has its source and every chunk its
  document and source, kinds and states are the allowed ones, and a chunk with an embedding has all 384 numbers and
  is ready.
\<close>

lemma knowledge_invariant:
  assumes "h \<in> set knowledge_handlers" "knowledge_ok db" "h e p db = Inr db'"
  shows "knowledge_ok db'"
  using assms by (auto simp: knowledge_handlers_def
    dest: create_source_ok upsert_document_ok upsert_chunks_ok deactivate_documents_ok deactivate_source_ok)

subsection \<open>What a request leaves active\<close>

lemma store_chunks_active:
  assumes "forE (store_chunk e sc) xs t = Inr t'" "uniq nc_id t"
    and "\<forall>c \<in> set t. nc_document c = cs_document sc \<longrightarrow> \<not> nc_active c \<or> A c"
    and "\<And>i item r x. (i, item) \<in> set xs \<Longrightarrow> chunk_row e sc i item = Inr (Some r) \<Longrightarrow> A (r\<lparr>nc_created_at := x\<rparr>)"
  shows "\<forall>c \<in> set t'. nc_document c = cs_document sc \<longrightarrow> \<not> nc_active c \<or> A c"
  using assms
proof (induction xs arbitrary: t)
  case (Cons x xs)
  obtain i item where x: "x = (i, item)" by force
  from Cons.prems(1) obtain u where u: "store_chunk e sc (i, item) t = Inr u" "forE (store_chunk e sc) xs u = Inr t'"
    unfolding x by auto
  have step: "uniq nc_id u \<and> (\<forall>c \<in> set u. nc_document c = cs_document sc \<longrightarrow> \<not> nc_active c \<or> A c)"
    using u(1)
  proof (cases rule: store_chunk_cases)
    case 1
    then show ?thesis using Cons.prems(2,3) by simp
  next
    case (2 r)
    note p = put_chunk_Inr [OF 2(2) Cons.prems(2)]
    have "A (r\<lparr>nc_created_at := y\<rparr>)" for y using Cons.prems(4) [of i item r y] 2(1) by (simp add: x)
    moreover from this [of "nc_created_at r"] have "A r" by simp
    ultimately show ?thesis using p Cons.prems(3) by metis
  qed
  show ?case by (rule Cons.IH [OF u(2)]) (use step Cons.prems(4) in auto)
qed simp

lemma store_chunk_preserves:
  assumes "store_chunk e sc (i, item) t = Inr t'" "uniq nc_id t" "c \<in> set t"
    and "\<And>r. chunk_row e sc i item = Inr (Some r) \<Longrightarrow> nc_id r \<noteq> nc_id c"
  shows "c \<in> set t' \<and> uniq nc_id t'"
  using assms(1)
proof (cases rule: store_chunk_cases)
  case 1
  then show ?thesis using assms(2,3) by simp
next
  case (2 r)
  then show ?thesis using put_chunk_Inr [OF 2(2) assms(2)] assms(3) assms(4) [OF 2(1)] by metis
qed

lemma store_chunks_preserve:
  assumes "forE (store_chunk e sc) xs t = Inr t'" "uniq nc_id t" "c \<in> set t"
    and "\<And>i item r. (i, item) \<in> set xs \<Longrightarrow> chunk_row e sc i item = Inr (Some r) \<Longrightarrow> nc_id r \<noteq> nc_id c"
  shows "c \<in> set t'"
  using assms
proof (induction xs arbitrary: t)
  case (Cons x xs)
  obtain i item where x: "x = (i, item)" by force
  from Cons.prems(1) obtain u where u: "store_chunk e sc (i, item) t = Inr u" "forE (store_chunk e sc) xs u = Inr t'"
    unfolding x by auto
  have "nc_id r \<noteq> nc_id c" if "chunk_row e sc i item = Inr (Some r)" for r using Cons.prems(4) [of i item r] that x by simp
  from store_chunk_preserves [OF u(1) Cons.prems(2,3) this] have k: "c \<in> set u" "uniq nc_id u" by blast+
  show ?case by (rule Cons.IH [OF u(2) k(2,1)]) (use Cons.prems(4) in auto)
qed simp

definition item_row :: "env \<Rightarrow> chunk_scope \<Rightarrow> pyval list \<Rightarrow> nat \<Rightarrow> knowledge_chunk \<Rightarrow> bool" where
  "item_row e sc items i r \<longleftrightarrow> i < length items \<and> chunk_row e sc i (items ! i) = Inr (Some r)"

lemma forE_app: "forE f (xs @ ys) s = bindE (forE f xs s) (forE f ys)"
  by (induction xs arbitrary: s) (auto simp: bindE_def split: sum.split)

lemma forE_zip_split:
  assumes "forE f (zip [0..<length items] items) t = Inr t'" "i < length items"
  obtains u v where "forE f (zip [0..<i] (take i items)) t = Inr u" "f (i, items ! i) u = Inr v"
    "forE f (zip [Suc i..<length items] (drop (Suc i) items)) v = Inr t'"
proof -
  have "zip [0..<length items] items = zip [0..<i] (take i items) @ (i, items ! i) # zip [Suc i..<length items] (drop (Suc i) items)"
    using assms(2) id_take_nth_drop [of i "zip [0..<length items] items"] by (simp add: take_zip drop_zip min_def)
  then have "forE f (zip [0..<i] (take i items) @ (i, items ! i) # zip [Suc i..<length items] (drop (Suc i) items)) t = Inr t'"
    using assms(1) by simp
  then show thesis using that by (auto simp: forE_app)
qed

lemma zip_mem: "(i, item) \<in> set (zip [0..<length items] items) \<Longrightarrow> i < length items \<and> item = items ! i"
  by (auto simp: in_set_zip)

lemma store_chunks_uniq:
  assumes "forE (store_chunk e sc) xs t = Inr t'" "uniq nc_id t"
  shows "uniq nc_id t'"
proof (rule forE_invariant [of xs "uniq nc_id", OF _ assms(2,1)])
  fix x t t'
  assume h: "uniq nc_id t" "store_chunk e sc x t = Inr t'"
  obtain i item where x: "x = (i, item)" by force
  from h(2) [unfolded x] show "uniq nc_id t'"
    by (cases rule: store_chunk_cases) (use h(1) put_chunk_Inr in blast)+
qed

lemma stored_item:
  assumes "forE (store_chunk e sc) (zip [0..<length items] items) t = Inr t'" "uniq nc_id t" "item_row e sc items i r"
    and "\<And>j r'. i < j \<Longrightarrow> item_row e sc items j r' \<Longrightarrow> nc_id r' \<noteq> nc_id r"
  shows "\<exists>x. r\<lparr>nc_created_at := x\<rparr> \<in> set t'"
proof -
  have i: "i < length items" "chunk_row e sc i (items ! i) = Inr (Some r)" using assms(3) by (simp_all add: item_row_def)
  from forE_zip_split [OF assms(1) i(1)] obtain u v where u: "forE (store_chunk e sc) (zip [0..<i] (take i items)) t = Inr u"
    "store_chunk e sc (i, items ! i) u = Inr v" "forE (store_chunk e sc) (zip [Suc i..<length items] (drop (Suc i) items)) v = Inr t'" .
  have q: "uniq nc_id u" using store_chunks_uniq [OF u(1) assms(2)] .
  have "put_chunk r u = Inr v" using u(2) i(2) by (auto simp: store_chunk_def)
  note p = put_chunk_Inr [OF this q]
  then obtain c where c: "c \<in> set v" "nc_id c = nc_id r" by (auto simp: has_key_iff)
  with p obtain x where x: "c = r\<lparr>nc_created_at := x\<rparr>" by (metis knowledge_chunk.surjective knowledge_chunk.update_convs(18))
  have "c \<in> set t'"
  proof (rule store_chunks_preserve [OF u(3) _ c(1)])
    fix j item r'
    assume j: "(j, item) \<in> set (zip [Suc i..<length items] (drop (Suc i) items))" "chunk_row e sc j item = Inr (Some r')"
    then have "i < j" "item_row e sc items j r'" by (auto simp: in_set_zip item_row_def)
    then show "nc_id r' \<noteq> nc_id c" using assms(4) c(2) by simp
  qed (use p in blast)
  with x show ?thesis by blast
qed

lemma deactivated_chunk: "c \<in> set (deactivate_chunks e P t) \<Longrightarrow> P c \<Longrightarrow> (\<And>c x. P (c\<lparr>nc_active := False, nc_updated_at := x\<rparr>) = P c) \<Longrightarrow> \<not> nc_active c"
  by (auto simp: deactivate_chunks_def set_upd_where split: if_splits)

text \<open>
  A request replaces the chunks of its document: afterwards every active chunk of the document is the row of an
  item of the request, every item whose identifier no later item repeats is an active chunk, and the chunks of other
  documents whose identifiers the request does not use, the documents and the sources are as before.
\<close>

lemma chunks_replaced:
  assumes "knowledge_ok db" "apply_upsert_knowledge_chunks e p db = Inr db'"
  shows "\<exists>sc items. req_str p ''document_id'' = Inr (cs_document sc) \<and> por (pget p ''chunks'' PNone) (PList []) = PList items \<and>
    (\<forall>c \<in> set (kn_chunks db'). nc_document c = cs_document sc \<longrightarrow> nc_active c \<longrightarrow>
      (\<exists>i r. item_row e sc items i r \<and> c = r\<lparr>nc_created_at := nc_created_at c\<rparr>)) \<and>
    (\<forall>i r. item_row e sc items i r \<longrightarrow> (\<forall>j r'. i < j \<longrightarrow> item_row e sc items j r' \<longrightarrow> nc_id r' \<noteq> nc_id r) \<longrightarrow>
      (\<exists>x. r\<lparr>nc_created_at := x\<rparr> \<in> set (kn_chunks db'))) \<and>
    (\<forall>c \<in> set (kn_chunks db). nc_document c \<noteq> cs_document sc \<longrightarrow> (\<forall>i r. item_row e sc items i r \<longrightarrow> nc_id r \<noteq> nc_id c) \<longrightarrow>
      c \<in> set (kn_chunks db')) \<and>
    db'\<lparr>kn_chunks := kn_chunks db\<rparr> = db"
  using assms(2)
proof (cases rule: upsert_chunks_cases)
  case (1 sc items cs)
  let ?old = "deactivate_chunks e (\<lambda>c. nc_document c = cs_document sc) (kn_chunks db)"
  have u: "uniq nc_id ?old" using assms(1) by (simp add: deactivate_chunks_simps knowledge_ok_def)
  have a: "\<forall>c \<in> set cs. nc_document c = cs_document sc \<longrightarrow> \<not> nc_active c \<or>
      (\<exists>i r. item_row e sc items i r \<and> c = r\<lparr>nc_created_at := nc_created_at c\<rparr>)"
  proof (rule store_chunks_active [OF 1(5) u])
    show "\<forall>c \<in> set ?old. nc_document c = cs_document sc \<longrightarrow> \<not> nc_active c \<or>
      (\<exists>i r. item_row e sc items i r \<and> c = r\<lparr>nc_created_at := nc_created_at c\<rparr>)"
      using deactivated_chunk [of _ e "\<lambda>c. nc_document c = cs_document sc"] by auto
  next
    fix i item r x
    assume "(i, item) \<in> set (zip [0..<length items] items)" "chunk_row e sc i item = Inr (Some r)"
    then show "\<exists>i ra. item_row e sc items i ra \<and> r\<lparr>nc_created_at := x\<rparr> = ra\<lparr>nc_created_at := nc_created_at (r\<lparr>nc_created_at := x\<rparr>)\<rparr>"
      using zip_mem [of i item items] by (intro exI [of _ i] exI [of _ r]) (simp add: item_row_def)
  qed
  have f: "c \<in> set cs" if c: "c \<in> set (kn_chunks db)" "nc_document c \<noteq> cs_document sc" "\<forall>i r. item_row e sc items i r \<longrightarrow> nc_id r \<noteq> nc_id c" for c
  proof (rule store_chunks_preserve [OF 1(5) u])
    show "c \<in> set ?old" using c(1,2) by (force simp: deactivate_chunks_def set_upd_where)
  next
    fix i item r assume "(i, item) \<in> set (zip [0..<length items] items)" "chunk_row e sc i item = Inr (Some r)"
    then show "nc_id r \<noteq> nc_id c" using c(3) zip_mem [of i item items] by (auto simp: item_row_def)
  qed
  have s: "\<exists>x. r\<lparr>nc_created_at := x\<rparr> \<in> set cs"
    if "item_row e sc items i r" "\<forall>j r'. i < j \<longrightarrow> item_row e sc items j r' \<longrightarrow> nc_id r' \<noteq> nc_id r" for i r
    using stored_item [OF 1(5) u that(1)] that(2) by blast
  have k: "kn_chunks db' = cs" "db'\<lparr>kn_chunks := kn_chunks db\<rparr> = db" using 1(6) by simp_all
  show ?thesis unfolding k(1) using 1(3,4) a f s k(2) by (intro exI [of _ sc] exI [of _ items]) blast
qed

subsection \<open>What a search may show\<close>

lemma joined_row:
  "(c, d, s) \<in> set (joined_rows db) \<Longrightarrow> c \<in> set (kn_chunks db) \<and> d \<in> set (kn_documents db) \<and> nd_id d = nc_document c \<and>
     s \<in> set (kn_sources db) \<and> ns_id s = nc_source c"
  by (auto simp: joined_rows_def split: option.splits dest!: sym [of "Some _"] dest: sel_one_Some)

lemma searched_rows:
  "h \<in> set (search_knowledge dist f db q sr limit) \<Longrightarrow> h \<in> set (joined_rows db) \<and> scope_where sr h"
  by (auto simp: search_knowledge_def search_knowledge_vector_def search_knowledge_lexical_def Let_def
      dest!: in_set_takeD split: if_splits pyval.splits)

lemma scope_admits_project:
  assumes "scope_admits sc pid sp cp"
  shows "cp \<in> {[], strip pid} \<and> sp \<in> {[], strip pid}"
  using assms by (auto simp: scope_admits_def Let_def split: if_splits)

text \<open>
  C27. Every result of a search, by meaning or by words, is an active chunk of an active document of an active source,
  of the tenant that asks, of the project that asks or of none, and visible to the worker that asks; there are never
  more than 40.
\<close>

lemma search_stays_in_scope:
  "length (search_knowledge dist f db q sr limit) \<le> 40 \<and>
   (\<forall>(c, d, s) \<in> set (search_knowledge dist f db q sr limit).
     c \<in> set (kn_chunks db) \<and> d \<in> set (kn_documents db) \<and> nd_id d = nc_document c \<and> s \<in> set (kn_sources db) \<and> ns_id s = nc_source c \<and>
     nc_active c \<and> nd_active d \<and> ns_active s \<and> nc_tenant c = sr_tenant sr \<and>
     nc_project c \<in> {[], strip (sr_project sr)} \<and> ns_project s \<in> {[], strip (sr_project sr)} \<and>
     (sr_worker sr \<noteq> [] \<longrightarrow> nc_worker c \<in> {[], sr_worker sr}) \<and> (sr_source sr \<noteq> [] \<longrightarrow> nc_source c = sr_source sr))"
proof (intro conjI ballI)
  show "length (search_knowledge dist f db q sr limit) \<le> 40"
    by (auto simp: search_knowledge_def search_knowledge_vector_def search_knowledge_lexical_def Let_def split: pyval.split)
next
  fix h assume h: "h \<in> set (search_knowledge dist f db q sr limit)"
  obtain c d s where e: "h = (c, d, s)" by (metis prod.collapse)
  from searched_rows [OF h] have w: "(c, d, s) \<in> set (joined_rows db)" "scope_where sr (c, d, s)" by (simp_all add: e)
  then have "scope_admits (sr_scope sr) (sr_project sr) (ns_project s) (nc_project c)" by (simp add: scope_where_def)
  from scope_admits_project [OF this] w(2) joined_row [OF w(1)]
  show "case h of (c, d, s) \<Rightarrow>
     c \<in> set (kn_chunks db) \<and> d \<in> set (kn_documents db) \<and> nd_id d = nc_document c \<and> s \<in> set (kn_sources db) \<and> ns_id s = nc_source c \<and>
     nc_active c \<and> nd_active d \<and> ns_active s \<and> nc_tenant c = sr_tenant sr \<and>
     nc_project c \<in> {[], strip (sr_project sr)} \<and> ns_project s \<in> {[], strip (sr_project sr)} \<and>
     (sr_worker sr \<noteq> [] \<longrightarrow> nc_worker c \<in> {[], sr_worker sr}) \<and> (sr_source sr \<noteq> [] \<longrightarrow> nc_source c = sr_source sr)"
    by (auto simp: e scope_where_def)
qed

text \<open>
  Once a source is deactivated no search finds anything in it, in a document of it, or in a chunk of it, whoever
  asks; the other sources and what belongs to them are as before.
\<close>

lemma deactivated_source_hidden:
  assumes "apply_deactivate_knowledge_source e p db = Inr db'"
  shows "\<exists>k. req_str p ''source_id'' = Inr k \<and>
    (\<forall>(c, d, s) \<in> set (search_knowledge dist f db' q sr limit). ns_id s \<noteq> k \<and> nd_source d \<noteq> k \<and> nc_source c \<noteq> k) \<and>
    (\<forall>s \<in> set (kn_sources db). ns_id s \<noteq> k \<longrightarrow> s \<in> set (kn_sources db')) \<and>
    (\<forall>d \<in> set (kn_documents db). nd_source d \<noteq> k \<longrightarrow> d \<in> set (kn_documents db')) \<and>
    (\<forall>c \<in> set (kn_chunks db). nc_source c \<noteq> k \<longrightarrow> c \<in> set (kn_chunks db'))"
proof -
  from assms obtain k where k: "req_str p ''source_id'' = Inr k" and db': "db' = db\<lparr>
       kn_sources := upd_where (\<lambda>s. ns_id s = k) (\<lambda>s. s\<lparr>ns_active := False, ns_status := ''inactive'', ns_updated_at := now e\<rparr>) (kn_sources db),
       kn_documents := upd_where (\<lambda>d. nd_source d = k) (\<lambda>d. d\<lparr>nd_active := False, nd_updated_at := now e\<rparr>) (kn_documents db),
       kn_chunks := deactivate_chunks e (\<lambda>c. nc_source c = k) (kn_chunks db)\<rparr>"
    by (auto simp: apply_deactivate_knowledge_source_def Let_def split: if_splits)
  have S: "kn_sources db' = upd_where (\<lambda>s. ns_id s = k) (\<lambda>s. s\<lparr>ns_active := False, ns_status := ''inactive'', ns_updated_at := now e\<rparr>) (kn_sources db)"
    "kn_documents db' = upd_where (\<lambda>d. nd_source d = k) (\<lambda>d. d\<lparr>nd_active := False, nd_updated_at := now e\<rparr>) (kn_documents db)"
    by (simp_all add: db')
  have off: "\<forall>s \<in> set (kn_sources db'). ns_active s \<longrightarrow> ns_id s \<noteq> k"
    "\<forall>d \<in> set (kn_documents db'). nd_active d \<longrightarrow> nd_source d \<noteq> k"
    unfolding S ball_upd_where_iff by simp_all
  have "ns_id s \<noteq> k \<and> nd_source d \<noteq> k \<and> nc_source c \<noteq> k" if "(c, d, s) \<in> set (search_knowledge dist f db' q sr limit)" for c d s
    using searched_rows [OF that] joined_row [of c d s db'] off by (auto simp: scope_where_def)
  moreover have "s \<in> set (kn_sources db')" if "s \<in> set (kn_sources db)" "ns_id s \<noteq> k" for s
    using that by (force simp: db' set_upd_where)
  moreover have "d \<in> set (kn_documents db')" if "d \<in> set (kn_documents db)" "nd_source d \<noteq> k" for d
    using that by (force simp: db' set_upd_where)
  moreover have "c \<in> set (kn_chunks db')" if "c \<in> set (kn_chunks db)" "nc_source c \<noteq> k" for c
    using that by (force simp: db' deactivate_chunks_def set_upd_where)
  ultimately show ?thesis using k by blast
qed

subsection \<open>A text in the index\<close>

definition item_id :: "env \<Rightarrow> string \<Rightarrow> string list \<Rightarrow> nat \<Rightarrow> string" where
  "item_id e doc contents i = strip (stable_id e ''kchk'' [doc, nat_str i, sha256_text e (contents ! i)])"

lemma length_chunk_items [simp]: "length (chunk_items e doc src meta s i n cs) = length cs"
  by (induction cs arbitrary: i n) (simp_all add: Let_def)

lemma nth_chunk_items:
  "j < length cs \<Longrightarrow> \<exists>a b t. chunk_items e doc src meta s i n cs ! j =
     PDict [(''chunk_id'', PStr (stable_id e ''kchk'' [doc, nat_str (i + j), sha256_text e (cs ! j)])),
       (''document_id'', PStr doc), (''source_id'', PStr src), (''chunk_index'', PInt (int (i + j))),
       (''content'', PStr (cs ! j)), (''content_hash'', PStr (sha256_text e (cs ! j))), (''start_offset'', PInt a),
       (''end_offset'', PInt b), (''token_count'', PInt t), (''embedding_status'', PStr ''PENDING''), (''metadata'', PDict meta)]"
proof (induction cs arbitrary: i n j)
  case (Cons c cs)
  show ?case
  proof (cases j)
    case 0
    then show ?thesis by (simp add: Let_def)
  next
    case (Suc k)
    then have "k < length cs" using Cons.prems by simp
    from Cons.IH [OF this, of "Suc i"] show ?thesis by (simp add: Let_def Suc)
  qed
qed simp

lemma strip_nonempty: "c \<in> set s \<Longrightarrow> \<not> is_space c \<Longrightarrow> strip s \<noteq> []"
proof -
  assume h: "c \<in> set s" "\<not> is_space c"
  then have "c \<in> set (dropWhile is_space s)" by (induction s) auto
  then show ?thesis using h(2) by (auto simp: strip_def lstrip_def rstrip_def dropWhile_eq_Nil_conv)
qed

lemma stable_id_strip: "strip (stable_id e ''kchk'' parts) \<noteq> []"
  by (rule strip_nonempty [of "CHR ''k''"]) (simp_all add: stable_id_def is_space_def)

lemma built_item_row:
  assumes "strip c = c" "c \<noteq> []" "strip cid \<noteq> []"
    and "chunk_row e sc i (PDict [(''chunk_id'', PStr cid), (''document_id'', PStr doc), (''source_id'', PStr src),
      (''chunk_index'', PInt n), (''content'', PStr c), (''content_hash'', PStr h), (''start_offset'', PInt a),
      (''end_offset'', PInt b), (''token_count'', PInt t), (''embedding_status'', PStr ''PENDING''), (''metadata'', PDict meta)]) = Inr x"
  shows "\<exists>r. x = Some r \<and> nc_content r = c \<and> nc_id r = strip cid"
proof -
  let ?it = "[(''chunk_id'', PStr cid), (''document_id'', PStr doc), (''source_id'', PStr src),
      (''chunk_index'', PInt n), (''content'', PStr c), (''content_hash'', PStr h), (''start_offset'', PInt a),
      (''end_offset'', PInt b), (''token_count'', PInt t), (''embedding_status'', PStr ''PENDING''), (''metadata'', PDict meta)]"
  have "cid \<noteq> []" using assms(3) by auto
  then have i: "opt_str ?it ''chunk_id'' d = strip cid" for d by (simp add: opt_str_def gstr_def por_def)
  have c: "opt_str ?it ''content'' [] = c" using assms(1,2) by (simp add: opt_str_def gstr_def por_def)
  have nf: "(strip cid = []) = False" "(c = []) = False" using assms(2,3) by simp_all
  show ?thesis using assms(4) unfolding chunk_row_def pyval.case Let_def i c nf simp_thms if_False
    by (elim bindE_InrE case_prodE, clarify) simp
qed

text \<open>The rows built from the items of a text, and what the loop leaves of them.\<close>

lemma text_item_row:
  assumes "chunk_row e sc j (chunk_items e doc src meta s 0 0 (chunk_text s m ov) ! j) = Inr x" "j < length (chunk_text s m ov)"
  shows "\<exists>r. x = Some r \<and> nc_content r = chunk_text s m ov ! j \<and> nc_id r = item_id e doc (chunk_text s m ov) j"
proof -
  have c: "strip (chunk_text s m ov ! j) = chunk_text s m ov ! j" "chunk_text s m ov ! j \<noteq> []"
    using nth_mem [OF assms(2)] by (auto simp: chunk_text_def Let_def split: if_splits)
  from nth_chunk_items [OF assms(2), of e doc src meta s 0 0] assms(1) show ?thesis
    unfolding item_id_def by (elim exE) (simp only: add_0, erule built_item_row [OF c stable_id_strip])
qed

lemma item_row_of_text:
  "item_row e sc (chunk_items e doc src meta s 0 0 (chunk_text s m ov)) j r \<Longrightarrow>
    nc_content r = chunk_text s m ov ! j \<and> nc_id r = item_id e doc (chunk_text s m ov) j \<and> j < length (chunk_text s m ov)"
  using text_item_row [of e sc j doc src meta s m ov "Some r"] by (auto simp: item_row_def)

lemma text_row_stored:
  assumes "forE (store_chunk e sc) (zip [0..<length its] its) t = Inr cs" "uniq nc_id t"
    "its = chunk_items e doc src meta s 0 0 ct" "ct = chunk_text s m ov" "cs_document sc = doc"
    "distinct (map (item_id e doc ct) [0..<length ct])" "w \<in> set ct"
  shows "w \<in> nc_content ` {c \<in> set cs. nc_document c = doc \<and> nc_active c}"
proof -
  from assms(7) obtain j where j: "j < length ct" "w = ct ! j" by (auto simp: in_set_conv_nth)
  have "j < length its" using j(1) assms(3) by simp
  from forE_zip_split [OF assms(1) this] obtain u v where "store_chunk e sc (j, its ! j) u = Inr v" by blast
  then obtain x where "chunk_row e sc j (its ! j) = Inr x" by (auto simp: store_chunk_def)
  with text_item_row [of e sc j doc src meta s m ov x] j(1) \<open>j < length its\<close> obtain r where
    r: "item_row e sc its j r" "nc_content r = w" "nc_id r = item_id e doc ct j"
    unfolding assms(3,4) j(2) by (auto simp: item_row_def)
  have "\<exists>x. r\<lparr>nc_created_at := x\<rparr> \<in> set cs"
  proof (rule stored_item [OF assms(1,2) r(1)])
    fix k r' assume k: "j < k" "item_row e sc its k r'"
    note d = item_row_of_text [OF k(2) [unfolded assms(3,4)], folded assms(4)]
    have "item_id e doc ct k \<noteq> item_id e doc ct j" using nth_eq_iff_index_eq [OF assms(6), of j k] j(1) d k(1) by simp
    then show "nc_id r' \<noteq> nc_id r" using d r(3) by simp
  qed
  then obtain x where x: "r\<lparr>nc_created_at := x\<rparr> \<in> set cs" by blast
  have "chunk_row e sc j (its ! j) = Inr (Some r)" using r(1) by (simp add: item_row_def)
  from chunk_row_fields [OF this] x r(2) show ?thesis
    by (intro image_eqI [of _ _ "r\<lparr>nc_created_at := x\<rparr>"]) (simp_all add: assms(5))
qed

text \<open>
  C12. Indexing a text makes exactly its chunks visible: when the request built from it succeeds and the identifiers,
  which are digests, do not collide, the texts of the active chunks of the document are those of \<open>chunk_text\<close>.
\<close>

lemma ingested_text_indexed:
  assumes "knowledge_ok db" "req_str p ''document_id'' = Inr doc"
    and "por (pget p ''chunks'' PNone) (PList []) = PList (chunk_items e doc src meta s 0 0 (chunk_text s m ov))"
    and "distinct (map (item_id e doc (chunk_text s m ov)) [0..<length (chunk_text s m ov)])"
    and "apply_upsert_knowledge_chunks e p db = Inr db'"
  shows "nc_content ` {c \<in> set (kn_chunks db'). nc_document c = doc \<and> nc_active c} = set (chunk_text s m ov)"
  using assms(5)
proof (cases rule: upsert_chunks_cases)
  case (1 sc its cs)
  let ?ct = "chunk_text s m ov"
  have sc: "cs_document sc = doc" "its = chunk_items e doc src meta s 0 0 ?ct" using 1(3,4) assms(2,3) by simp_all
  let ?t = "deactivate_chunks e (\<lambda>c. nc_document c = cs_document sc) (kn_chunks db)"
  have u: "uniq nc_id ?t" using assms(1) by (simp add: deactivate_chunks_simps knowledge_ok_def)
  have a: "\<forall>c \<in> set cs. nc_document c = cs_document sc \<longrightarrow> \<not> nc_active c \<or> nc_content c \<in> set ?ct"
  proof (rule store_chunks_active [OF 1(5) u])
    show "\<forall>c \<in> set ?t. nc_document c = cs_document sc \<longrightarrow> \<not> nc_active c \<or> nc_content c \<in> set ?ct"
      using deactivated_chunk [of _ e "\<lambda>c. nc_document c = cs_document sc"] by auto
  next
    fix i item r x
    assume "(i, item) \<in> set (zip [0..<length its] its)" "chunk_row e sc i item = Inr (Some r)"
    then have "item_row e sc its i r" using zip_mem [of i item its] by (simp add: item_row_def)
    from item_row_of_text [OF this [unfolded sc(2)]] show "nc_content (r\<lparr>nc_created_at := x\<rparr>) \<in> set ?ct" by simp
  qed
  have "set ?ct \<subseteq> nc_content ` {c \<in> set cs. nc_document c = doc \<and> nc_active c}"
    using text_row_stored [OF 1(5) u sc(2) refl sc(1) assms(4)] by blast
  with a show ?thesis by (auto simp: 1(6) sc(1))
qed

subsection \<open>Where the code falls short\<close>

lemma put_chunk_place:
  assumes "put_chunk r t = Inr t'" "uniq nc_id t" "c \<in> set t" "nc_id c \<noteq> nc_id r"
  shows "chunk_place c \<noteq> chunk_place r"
proof
  assume same: "chunk_place c = chunk_place r"
  note p = put_chunk_Inr [OF assms(1,2)]
  then obtain r' where r': "r' \<in> set t'" "nc_id r' = nc_id r" by (auto simp: has_key_iff)
  from p have "\<forall>x \<in> set t'. if nc_id x = nc_id r then x = r \<or> (\<exists>old :: knowledge_chunk. x = r\<lparr>nc_created_at := nc_created_at old\<rparr>) else x \<in> set t"
    by (elim conjE)
  from bspec [OF this r'(1)] have "r' = r \<or> (\<exists>old :: knowledge_chunk. r' = r\<lparr>nc_created_at := nc_created_at old\<rparr>)" by (simp only: r'(2) if_True simp_thms)
  then have "chunk_place r' = chunk_place c" using same by (auto simp: chunk_place_def)
  moreover have "c \<in> set t'" using p assms(3,4) by blast
  ultimately show False using uniq_eq [of chunk_place t' r' c] p r' assms(4) by auto
qed

text \<open>
  C16. Old chunks are kept as inactive rows that still hold their place: a request with a chunk of the same document and
  index as a stored chunk, under a new identifier, is refused as a whole, when no item of it rewrites the old identifier.
  (The identifier contains the digest of the text, so this meets a changed section; sections added at the end or dropped
  from it are accepted.)
\<close>

lemma changed_document_refused:
  assumes "knowledge_ok db" "req_str p ''document_id'' = Inr doc" "por (pget p ''chunks'' PNone) (PList []) = PList items"
    and "old \<in> set (kn_chunks db)" "nc_document old = doc"
    and "\<And>sc. cs_document sc = doc \<Longrightarrow> \<exists>r. item_row e sc items i r \<and> nc_index r = nc_index old"
    and "\<And>sc j r. cs_document sc = doc \<Longrightarrow> item_row e sc items j r \<Longrightarrow> nc_id r \<noteq> nc_id old"
  shows "\<exists>err. apply_upsert_knowledge_chunks e p db = Inl err"
proof (cases "apply_upsert_knowledge_chunks e p db")
  case (Inr db')
  then show ?thesis
  proof (cases rule: upsert_chunks_cases)
    case (1 sc its cs)
    have sc: "cs_document sc = doc" "its = items" using 1(3,4) assms(2,3) by simp_all
    let ?t = "deactivate_chunks e (\<lambda>c. nc_document c = cs_document sc) (kn_chunks db)"
    have u: "uniq nc_id ?t" using assms(1) by (simp add: deactivate_chunks_simps knowledge_ok_def)
    let ?c = "old\<lparr>nc_active := False, nc_updated_at := now e\<rparr>"
    have c: "?c \<in> set ?t" using assms(4,5) sc(1) by (force simp: deactivate_chunks_def set_upd_where)
    from assms(6) [OF sc(1)] obtain r where r: "item_row e sc items i r" "nc_index r = nc_index old" by blast
    then have i: "i < length items" "chunk_row e sc i (items ! i) = Inr (Some r)" by (simp_all add: item_row_def)
    from forE_zip_split [OF 1(5) [unfolded sc(2)] i(1)] obtain w v where
      w: "forE (store_chunk e sc) (zip [0..<i] (take i items)) ?t = Inr w" "store_chunk e sc (i, items ! i) w = Inr v" .
    have "?c \<in> set w"
    proof (rule store_chunks_preserve [OF w(1) u c])
      fix j item r' assume "(j, item) \<in> set (zip [0..<i] (take i items))" "chunk_row e sc j item = Inr (Some r')"
      then have "item_row e sc items j r'" using i(1) by (auto simp: in_set_zip item_row_def)
      then show "nc_id r' \<noteq> nc_id ?c" using assms(7) [OF sc(1)] by simp
    qed
    moreover have "put_chunk r w = Inr v" using w(2) i(2) by (auto simp: store_chunk_def)
    moreover have "nc_id ?c \<noteq> nc_id r" using assms(7) [OF sc(1) r(1)] by simp
    ultimately have "chunk_place ?c \<noteq> chunk_place r" using put_chunk_place store_chunks_uniq [OF w(1) u] by blast
    then show ?thesis using r(2) assms(5) sc(1) chunk_row_fields [OF i(2)] by (simp add: chunk_place_def)
  qed
qed blast

text \<open>
  The tenant of a request to deactivate documents decides nothing: the handler computes it and never compares it,
  so the documents of any tenant can be taken out of the searches.
\<close>

lemma documents_of_any_tenant:
  "apply_deactivate_knowledge_documents e (pset ''tenant_id'' v p) db = apply_deactivate_knowledge_documents e p db"
proof -
  have "pget (pset ''tenant_id'' v p) ''document_ids'' PNone = pget p ''document_ids'' PNone"
    "req_str (pset ''tenant_id'' v p) ''source_id'' = req_str p ''source_id''" by (simp_all add: req_str_def)
  then show ?thesis unfolding apply_deactivate_knowledge_documents_def by (simp only:)
qed

subsection \<open>A knowledge base with one document\<close>

definition demo_source :: knowledge_source where
  "demo_source = \<lparr>ns_id = ''s1'', ns_tenant = ''t'', ns_actor = ''u'', ns_project = [], ns_worker = [], ns_kind = ''folder'',
     ns_uri = ''docs'', ns_name = [], ns_status = ''ready'', ns_model = minilm, ns_dim = 384, ns_meta = ''{}'', ns_active = True,
     ns_created_at = 1, ns_updated_at = 1\<rparr>"

definition demo_document :: knowledge_document where
  "demo_document = \<lparr>nd_id = ''d1'', nd_source = ''s1'', nd_path = ''a.md'', nd_title = ''a'', nd_mime = ''text/markdown'',
     nd_checksum = ''x'', nd_size = 3, nd_meta = ''{}'', nd_active = True, nd_created_at = 1, nd_updated_at = 1\<rparr>"

definition demo_chunk :: knowledge_chunk where
  "demo_chunk = \<lparr>nc_id = ''k1'', nc_document = ''d1'', nc_source = ''s1'', nc_tenant = ''t'', nc_project = [], nc_worker = [],
     nc_index = 0, nc_content = ''old words'', nc_hash = ''h'', nc_start = 0, nc_end = 9, nc_tokens = 2, nc_embedding = None,
     nc_status = ''PENDING'', nc_model = minilm, nc_meta = ''{}'', nc_active = True, nc_created_at = 1, nc_updated_at = 1\<rparr>"

definition demo_knowledge :: knowledge_db where
  "demo_knowledge = \<lparr>kn_sources = [demo_source], kn_documents = [demo_document], kn_chunks = [demo_chunk]\<rparr>"

lemma demo_knowledge_ok: "knowledge_ok demo_knowledge"
  by (simp add: knowledge_ok_def demo_knowledge_def demo_source_def demo_document_def demo_chunk_def uniq_def source_row_ok_def
      document_row_ok_def chunk_row_ok_def chunk_fields_ok_def has_key_def source_kinds_def source_statuses_def chunk_statuses_def)

definition reindex_request :: payload where
  "reindex_request = [(''document_id'', PStr ''d1''), (''source_id'', PStr ''s1''), (''chunks'', PList
     [PDict [(''chunk_id'', PStr ''k2''), (''chunk_index'', PInt 0), (''content'', PStr ''new words'')]])]"

definition append_request :: payload where
  "append_request = [(''document_id'', PStr ''d1''), (''source_id'', PStr ''s1''), (''chunks'', PList
     [PDict [(''chunk_id'', PStr ''k2''), (''chunk_index'', PInt 1), (''content'', PStr ''new words'')]])]"

definition drop_request :: payload where
  "drop_request = [(''source_id'', PStr ''s1''), (''tenant_id'', PStr ''t'')]"

lemma knowledge_invariant_witness:
  "\<exists>db'. apply_deactivate_knowledge_source env0 drop_request demo_knowledge = Inr db' \<and> knowledge_ok db'"
proof -
  have "isl (apply_deactivate_knowledge_source env0 drop_request demo_knowledge) = False" by code_simp
  then obtain db' where q: "apply_deactivate_knowledge_source env0 drop_request demo_knowledge = Inr db'" by (rule isl_InrE)
  have h: "apply_deactivate_knowledge_source \<in> set knowledge_handlers" by (simp add: knowledge_handlers_def)
  from knowledge_invariant [OF h demo_knowledge_ok q] q show ?thesis by blast
qed

lemma deactivated_source_hidden_witness:
  "\<exists>db'. apply_deactivate_knowledge_source env0 drop_request demo_knowledge = Inr db' \<and>
     (\<forall>(c, d, s) \<in> set (search_knowledge (\<lambda>_ _. 0) (\<lambda>_. PNone) db' ''words''
       \<lparr>sr_tenant = ''t'', sr_project = [], sr_worker = [], sr_source = [], sr_scope = ''both''\<rparr> 8). ns_id s \<noteq> ''s1'')"
proof -
  have "isl (apply_deactivate_knowledge_source env0 drop_request demo_knowledge) = False" by code_simp
  then obtain db' where q: "apply_deactivate_knowledge_source env0 drop_request demo_knowledge = Inr db'" by (rule isl_InrE)
  have k: "req_str drop_request ''source_id'' = Inr ''s1''" by code_simp
  from deactivated_source_hidden [OF q, of "\<lambda>_ _. 0" "\<lambda>_. PNone" "''words''"
      "\<lparr>sr_tenant = ''t'', sr_project = [], sr_worker = [], sr_source = [], sr_scope = ''both''\<rparr>" 8] q
  show ?thesis unfolding k by auto
qed

lemma chunks_replaced_witness:
  "\<exists>db'. apply_upsert_knowledge_chunks env0 append_request demo_knowledge = Inr db' \<and>
     db'\<lparr>kn_chunks := kn_chunks demo_knowledge\<rparr> = demo_knowledge"
proof -
  have "isl (apply_upsert_knowledge_chunks env0 append_request demo_knowledge) = False" by code_simp
  then obtain db' where q: "apply_upsert_knowledge_chunks env0 append_request demo_knowledge = Inr db'" by (rule isl_InrE)
  from chunks_replaced [OF demo_knowledge_ok q] q show ?thesis by blast
qed

lemma reindex_item:
  "chunk_row env0 sc i (PDict [(''chunk_id'', PStr ''k2''), (''chunk_index'', PInt 0), (''content'', PStr ''new words'')]) = Inr x \<Longrightarrow>
     \<exists>r. x = Some r \<and> nc_id r = ''k2'' \<and> nc_index r = 0"
  "isl (chunk_row env0 sc i (PDict [(''chunk_id'', PStr ''k2''), (''chunk_index'', PInt 0), (''content'', PStr ''new words'')])) = False"
proof -
  have c: "strip ''k2'' = ''k2''" "strip ''new words'' = ''new words''" "strip ''PENDING'' = ''PENDING''" "upper ''PENDING'' = ''PENDING''" by code_simp+
  let ?r = "chunk_row env0 sc i (PDict [(''chunk_id'', PStr ''k2''), (''chunk_index'', PInt 0), (''content'', PStr ''new words'')])"
  have e: "?r = Inr x \<Longrightarrow> \<exists>r. x = Some r \<and> nc_id r = ''k2'' \<and> nc_index r = 0" "isl ?r = False" for x
    by (simp_all add: chunk_row_def Let_def opt_str_def gstr_def gint_def por_def c chunk_statuses_def sql_int32_def embedding_state_def)
      (clarsimp)?
  show "?r = Inr x \<Longrightarrow> \<exists>r. x = Some r \<and> nc_id r = ''k2'' \<and> nc_index r = 0" "isl ?r = False" by (fact e)+
qed

lemma changed_document_refused_witness:
  "\<exists>err. apply_upsert_knowledge_chunks env0 reindex_request demo_knowledge = Inl err"
proof (rule changed_document_refused [OF demo_knowledge_ok, where old = demo_chunk and i = 0 and doc = "''d1''"])
  show "req_str reindex_request ''document_id'' = Inr ''d1''" by code_simp
  show "por (pget reindex_request ''chunks'' PNone) (PList []) =
    PList [PDict [(''chunk_id'', PStr ''k2''), (''chunk_index'', PInt 0), (''content'', PStr ''new words'')]]"
    by (simp add: reindex_request_def por_def)
  show "demo_chunk \<in> set (kn_chunks demo_knowledge)" "nc_document demo_chunk = ''d1''"
    by (simp_all add: demo_knowledge_def demo_chunk_def)
next
  fix sc :: chunk_scope
  obtain x where x: "chunk_row env0 sc 0 (PDict [(''chunk_id'', PStr ''k2''), (''chunk_index'', PInt 0), (''content'', PStr ''new words'')]) = Inr x"
    using reindex_item(2) by (rule isl_InrE)
  with reindex_item(1) [OF x] show "\<exists>r. item_row env0 sc [PDict [(''chunk_id'', PStr ''k2''), (''chunk_index'', PInt 0), (''content'', PStr ''new words'')]] 0 r \<and>
      nc_index r = nc_index demo_chunk" by (auto simp: item_row_def demo_chunk_def)
next
  fix sc :: chunk_scope and j r
  assume "item_row env0 sc [PDict [(''chunk_id'', PStr ''k2''), (''chunk_index'', PInt 0), (''content'', PStr ''new words'')]] j r"
  then show "nc_id r \<noteq> nc_id demo_chunk" using reindex_item(1) by (fastforce simp: item_row_def demo_chunk_def)
qed

lemma search_stays_in_scope_witness:
  "search_knowledge (\<lambda>_ _. 0) (\<lambda>_. PNone) demo_knowledge ''words''
     \<lparr>sr_tenant = ''t'', sr_project = [], sr_worker = [], sr_source = [], sr_scope = ''both''\<rparr> 8 = [(demo_chunk, demo_document, demo_source)] \<and>
   demo_chunk \<in> set (kn_chunks demo_knowledge) \<and> nc_tenant demo_chunk = ''t''"
proof -
  let ?sr = "\<lparr>sr_tenant = ''t'', sr_project = [], sr_worker = [], sr_source = [], sr_scope = ''both''\<rparr>"
  have e: "search_knowledge (\<lambda>_ _. 0) (\<lambda>_. PNone) demo_knowledge ''words'' ?sr 8 = [(demo_chunk, demo_document, demo_source)]" by code_simp
  from search_stays_in_scope [of "\<lambda>_ _. 0" "\<lambda>_. PNone" demo_knowledge "''words''" ?sr 8] show ?thesis unfolding e by simp
qed

definition empty_document :: knowledge_db where
  "empty_document = demo_knowledge\<lparr>kn_chunks := []\<rparr>"

lemma ingested_text_indexed_witness:
  "\<exists>db'. apply_upsert_knowledge_chunks env0 [(''document_id'', PStr ''d1''), (''source_id'', PStr ''s1''),
       (''chunks'', PList (chunk_items env0 ''d1'' ''s1'' [] ''a line'' 0 0 (chunk_text ''a line'' 400 0)))] empty_document = Inr db' \<and>
     nc_content ` {c \<in> set (kn_chunks db'). nc_document c = ''d1'' \<and> nc_active c} = {''a line''}"
proof -
  let ?p = "[(''document_id'', PStr ''d1''), (''source_id'', PStr ''s1''),
       (''chunks'', PList (chunk_items env0 ''d1'' ''s1'' [] ''a line'' 0 0 (chunk_text ''a line'' 400 0)))]"
  have ct: "chunk_text ''a line'' 400 0 = [''a line'']" by code_simp
  have "isl (apply_upsert_knowledge_chunks env0 ?p empty_document) = False" by code_simp
  then obtain db' where q: "apply_upsert_knowledge_chunks env0 ?p empty_document = Inr db'" by (rule isl_InrE)
  have ok: "knowledge_ok empty_document" using demo_knowledge_ok by (simp add: knowledge_ok_def empty_document_def)
  have d: "req_str ?p ''document_id'' = Inr ''d1''" by code_simp
  have "por (pget [(''document_id'', x), (''source_id'', y), (''chunks'', PList z)] ''chunks'' PNone) (PList []) = PList z" for x y z
    by (simp add: por_def Let_def)
  note c = this [of "PStr ''d1''" "PStr ''s1''" "chunk_items env0 ''d1'' ''s1'' [] ''a line'' 0 0 (chunk_text ''a line'' 400 0)"]
  have "distinct (map (item_id env0 ''d1'' (chunk_text ''a line'' 400 0)) [0..<length (chunk_text ''a line'' 400 0)])" unfolding ct by simp
  from ingested_text_indexed [OF ok d c this q]
  have "nc_content ` {c \<in> set (kn_chunks db'). nc_document c = ''d1'' \<and> nc_active c} = {''a line''}" unfolding ct by (simp only: list.set)
  with q show ?thesis by (intro exI conjI)
qed

end
