(* ===== verification/McpConnectors.thy ===== *)
theory McpConnectors
  imports RuntimeSettings
begin

text \<open>
  Connectors to MCP servers: the presets (\<open>mcp_connector_presets.py\<close>), the write handlers
  (\<open>write_handlers/mcp_connectors.py\<close>), the bootstrap of defaults (\<open>mcp_connector_defaults.py\<close>) and the reads and
  policies (\<open>admin_mcp_connectors.py\<close>), all under \<open>packages/shared/src/duckclaw\<close>. The secret of a connector is a
  runtime setting. A JSON column is the value whose text it holds; a column that may be NULL is an option, and
  \<open>str\<close> of NULL is the text \<open>None\<close>. The rows come from DuckDB's cursor, as tuples.
\<close>

subsection \<open>Presets\<close>

text \<open>\<open>_deep_merge(base, overlay)\<close>: dictionaries are merged, anything else is replaced, the key \<open>profile\<close> is skipped.\<close>

function (sequential) deep_merge :: "payload \<Rightarrow> payload \<Rightarrow> payload" where
  "deep_merge out [] = out"
| "deep_merge out ((key, value) # rest) =
     (if key = ''profile'' then deep_merge out rest
      else deep_merge (pset key (case (value, map_of out key) of
           (PDict d, Some (PDict b)) \<Rightarrow> PDict (deep_merge b d) | _ \<Rightarrow> value) out) rest)"
  by pat_completeness auto

termination
  by (relation "measure (\<lambda>(_, overlay). size_list (size_prod (\<lambda>_. 0) size) overlay)") auto

definition preset_defaults :: payload where
  "preset_defaults = [(''tool_allowlist'', PList [PStr ''*'']), (''tool_denylist'', PList []), (''egress_hosts'', PList []),
     (''launch_args'', PList []), (''launch_env'', PDict []), (''metadata'', PDict []), (''read_only'', PBool True),
     (''auth_kind'', PStr ''none'')]"

definition resolve_preset_id :: "string \<Rightarrow> string" where
  "resolve_preset_id preset_id = (let key = lower (strip preset_id) in if key = ''higgsfield'' then ''remote_http_oauth'' else key)"

definition resolve_preset_body :: "string \<Rightarrow> payload \<Rightarrow> (string \<times> payload) list \<Rightarrow> payload \<Rightarrow> payload" where
  "resolve_preset_body preset_id raw profiles defaults = (let
     profile_name = strip (gstr raw ''profile'' []);
     profile_body = (if profile_name = [] then [] else case map_of profiles profile_name of None \<Rightarrow> [] | Some b \<Rightarrow> b);
     merged = AList.delete ''profile'' (deep_merge (deep_merge (deep_merge preset_defaults defaults) profile_body) raw)
   in if strip (gstr merged ''display_name'' []) = [] then pset ''display_name'' (PStr preset_id) merged else merged)"

fun dict_entries :: "pyval \<Rightarrow> (string \<times> payload) list" where
  "dict_entries (PDict []) = []"
| "dict_entries (PDict ((k, PDict d) # r)) = (k, d) # dict_entries (PDict r)"
| "dict_entries (PDict (_ # r)) = dict_entries (PDict r)"
| "dict_entries _ = []"

text \<open>A dictionary built entry by entry: the last entry of a key stays.\<close>

definition parse_presets_yaml :: "payload \<Rightarrow> (string \<times> payload) list" where
  "parse_presets_yaml raw = (let
     defaults = pdict_or_empty (pget raw ''defaults'' PNone);
     profiles = rev (filter (\<lambda>(k, _). k \<noteq> []) (map (\<lambda>(k, b). (strip k, b)) (dict_entries (pget raw ''profiles'' PNone))));
     entries = filter (\<lambda>(k, _). k \<noteq> []) (map (\<lambda>(k, b). (lower (strip k), b)) (dict_entries (pget raw ''presets'' PNone)))
   in fold (\<lambda>(k, b) out. AList.update k (resolve_preset_body k b profiles defaults) out) entries [])"

text \<open>The environment: \<open>mv_yaml\<close> is the decoded file of presets.\<close>

record mcp_env =
  mv_env :: env
  mv_yaml :: payload
  mv_ipv6 :: "string \<Rightarrow> bool"

definition preset_payload :: "mcp_env \<Rightarrow> string \<Rightarrow> payload option" where
  "preset_payload mv preset_id = (let key = resolve_preset_id preset_id in
     case map_of (parse_presets_yaml (mv_yaml mv)) key of
       None \<Rightarrow> None
     | Some raw \<Rightarrow> if raw = [] then None else Some (dict_merge [(''preset_id'', PStr key)] raw))"

definition preset_meta :: "payload \<Rightarrow> payload" where
  "preset_meta p = pdict_or_empty (pget p ''metadata'' PNone)"

definition manifest_skill_id_for_preset :: "mcp_env \<Rightarrow> string \<Rightarrow> string" where
  "manifest_skill_id_for_preset mv preset_id = (case preset_payload mv preset_id of
     None \<Rightarrow> resolve_preset_id preset_id
   | Some p \<Rightarrow> str_or (lower (strip (gstr (preset_meta p) ''manifest_skill_id'' []))) (resolve_preset_id preset_id))"

definition preset_oauth_provider :: "mcp_env \<Rightarrow> string \<Rightarrow> string" where
  "preset_oauth_provider mv preset_id = (case preset_payload mv preset_id of
     None \<Rightarrow> [] | Some p \<Rightarrow> lower (strip (gstr (preset_meta p) ''oauth_provider'' [])))"

definition preset_uses_mcp_dcr :: "mcp_env \<Rightarrow> string \<Rightarrow> bool" where
  "preset_uses_mcp_dcr mv preset_id = (let key = resolve_preset_id preset_id in
     key = ''notion'' \<or> preset_oauth_provider mv key = ''mcp_dcr'')"

definition is_google_workspace_preset :: "mcp_env \<Rightarrow> string \<Rightarrow> bool" where
  "is_google_workspace_preset mv preset_id = (let key = resolve_preset_id preset_id in
     startswith ''google_'' key \<or> preset_oauth_provider mv key = ''google_workspace'')"

definition default_mcp_connector_preset_ids :: "mcp_env \<Rightarrow> string list" where
  "default_mcp_connector_preset_ids mv = (case pget (mv_yaml mv) ''default_connectors'' PNone of
     PList ids \<Rightarrow> foldl (\<lambda>out item. let key = lower (strip (pystr (por item (PStr [])))) in
        if key \<noteq> [] \<and> map_of (parse_presets_yaml (mv_yaml mv)) key \<noteq> None \<and> key \<notin> set out then out @ [key] else out) [] ids
   | _ \<Rightarrow> [])"

definition default_mcp_connector_id :: "string \<Rightarrow> string" where
  "default_mcp_connector_id preset_id = ''mcp_'' @ resolve_preset_id preset_id"

subsection \<open>The host of an endpoint\<close>

text \<open>
  \<open>urlparse(url).hostname\<close> of the standard library: blanks and control characters in front are dropped, tabs and line
  ends vanish, the authority runs to the next slash, question mark or hash. \<open>ipv6\<close> is the check of a bracketed host.
\<close>

definition url_scheme_rest :: "string \<Rightarrow> string" where
  "url_scheme_rest url = (let pre = takeWhile (\<lambda>c. c \<noteq> CHR '':'') url in
     if length pre < length url \<and> pre \<noteq> [] \<and> is_alpha_ascii (hd pre) \<and>
        list_all (\<lambda>c. is_alpha_ascii c \<or> is_digit c \<or> c \<in> {CHR ''+'', CHR ''-'', CHR ''.''}) pre
     then drop (Suc (length pre)) url else url)"

definition url_hostname :: "(string \<Rightarrow> bool) \<Rightarrow> string \<Rightarrow> py_error + string" where
  "url_hostname ipv6 url0 = (let
     url = filter (\<lambda>c. c \<notin> {CHR 9, CHR 10, CHR 13}) (dropWhile (\<lambda>c. code c \<le> 32) url0);
     rest = url_scheme_rest url
   in if \<not> startswith ''//'' rest then Inr []
     else let netloc = takeWhile (\<lambda>c. c \<notin> {CHR ''/'', CHR ''?'', CHR ''#''}) (drop 2 rest);
        open_br = CHR ''['' \<in> set netloc; close_br = CHR '']'' \<in> set netloc;
        hostinfo = rev (takeWhile (\<lambda>c. c \<noteq> CHR ''@'') (rev netloc))
      in if open_br \<noteq> close_br then Inl (ValueError ''Invalid IPv6 URL'')
        else if open_br \<and> \<not> ipv6 netloc then Inl (ValueError ''Invalid IPv6 URL'')
        else let raw = (if CHR ''['' \<in> set hostinfo
              then takeWhile (\<lambda>c. c \<noteq> CHR '']'') (tl (dropWhile (\<lambda>c. c \<noteq> CHR ''['') hostinfo))
              else takeWhile (\<lambda>c. c \<noteq> CHR '':'') hostinfo);
             zone = dropWhile (\<lambda>c. c \<noteq> CHR ''%'') raw
          in Inr (lower (takeWhile (\<lambda>c. c \<noteq> CHR ''%'') raw) @ zone))"

subsection \<open>State\<close>

record mcp_connector =
  mc_id :: string
  mc_tenant :: string
  mc_owner :: string
  mc_name :: string
  mc_transport :: string
  mc_endpoint :: "string option"
  mc_command :: "string option"
  mc_args :: "pyval list"
  mc_envs :: payload
  mc_auth_kind :: string
  mc_secret_key :: "string option"
  mc_allow :: "pyval list"
  mc_deny :: "pyval list"
  mc_read_only :: bool
  mc_egress :: "pyval list"
  mc_preset :: "string option"
  mc_enabled :: bool
  mc_active :: bool
  mc_meta :: payload
  mc_updated_at :: int

record mcp_grant =
  mg_worker :: string
  mg_connector :: string
  mg_permission :: string
  mg_active :: bool
  mg_updated_at :: int

text \<open>\<open>mq_skills\<close> lists the calls of \<open>enable_worker_manifest_skill_for_mcp_preset\<close>: worker, preset and actor.\<close>

record mcp_db =
  mq_connectors :: "mcp_connector list"
  mq_grants :: "mcp_grant list"
  mq_runtime :: runtime_db
  mq_skills :: "(string \<times> string \<times> string) list"

definition mg_key :: "mcp_grant \<Rightarrow> string \<times> string" where
  "mg_key g = (mg_worker g, mg_connector g)"

definition none_if_empty :: "string \<Rightarrow> string option" where
  "none_if_empty s = (if s = [] then None else Some s)"

text \<open>\<open>str(row[0])\<close> of a column that may be NULL, and \<open>str(v or '')\<close>.\<close>

definition str_of_column :: "string option \<Rightarrow> string" where
  "str_of_column v = (case v of None \<Rightarrow> ''None'' | Some s \<Rightarrow> s)"

definition text_of_column :: "string option \<Rightarrow> string" where
  "text_of_column v = (case v of None \<Rightarrow> [] | Some s \<Rightarrow> s)"

subsection \<open>The egress check\<close>

fun egress_host :: "pyval \<Rightarrow> py_error + string list" where
  "egress_host (PStr h) = Inr (if strip h = [] then [] else [lower (strip h)])"
| "egress_host _ = Inl (AttributeError ''object has no attribute strip'')"

definition validate_connector_egress :: "mcp_env \<Rightarrow> string \<Rightarrow> string \<Rightarrow> pyval list \<Rightarrow> py_error + unit" where
  "validate_connector_egress mv transport endpoint_url egress_hosts =
     (if lower (strip transport) \<noteq> ''streamable_http'' then Inr ()
      else let url = strip endpoint_url in
        if url = [] then Inl (ValueError ''endpoint_url required for streamable_http'')
        else bindE (url_hostname (mv_ipv6 mv) url) (\<lambda>h. let host = lower (strip h) in
          if host = [] then Inl (ValueError ''invalid endpoint_url host'')
          else bindE (mapE egress_host egress_hosts) (\<lambda>hs. let allowed = concat hs in
            if allowed \<noteq> [] \<and> host \<notin> set allowed then Inl (ValueError (''egress host not allowed: '' @ host)) else Inr ())))"

subsection \<open>Creating and updating a connector\<close>

text \<open>A field of the request, or of the preset when the request leaves it out or gives an empty list or dictionary.\<close>

definition request_or_preset :: "payload \<Rightarrow> payload option \<Rightarrow> string \<Rightarrow> pyval \<Rightarrow> pyval" where
  "request_or_preset payload preset key blank = (let v = pget payload key PNone in
     case preset of
       None \<Rightarrow> v
     | Some p \<Rightarrow> if v = PNone \<or> v = blank then por (pget p key PNone) blank else v)"

text \<open>\<open>dict(v or {})\<close>; a list of pairs, which \<open>dict\<close> would accept too, is left out.\<close>

fun py_dict :: "pyval \<Rightarrow> py_error + payload" where
  "py_dict (PDict d) = Inr d"
| "py_dict _ = Inl (TypeError ''cannot convert to dict'')"

definition request_preset :: "mcp_env \<Rightarrow> payload \<Rightarrow> string \<times> payload option" where
  "request_preset mv payload = (let preset_id = resolve_preset_id (lower (opt_str payload ''preset_id'' []))
     in (preset_id, if preset_id = [] then None else preset_payload mv preset_id))"

definition request_connector_id :: "env \<Rightarrow> payload \<Rightarrow> string \<Rightarrow> string" where
  "request_connector_id e payload preset_id = (let connector_id = opt_str payload ''connector_id'' [] in
     if connector_id \<noteq> [] then connector_id
     else if preset_id \<noteq> [] then ''mcp_'' @ preset_id
     else ''mcp_'' @ take 12 (uuid_hex e 0))"

definition text_or_preset :: "payload \<Rightarrow> payload option \<Rightarrow> string \<Rightarrow> string \<Rightarrow> string" where
  "text_or_preset payload preset key dflt = strip (pystr (por (pget payload key PNone)
     (por (case preset of None \<Rightarrow> PNone | Some p \<Rightarrow> pget p key PNone) (PStr dflt))))"

definition request_auth_kind :: "payload \<Rightarrow> payload option \<Rightarrow> string" where
  "request_auth_kind payload preset = (let auth_kind = lower (opt_str payload ''auth_kind'' []) in
     case preset of
       Some p \<Rightarrow> if auth_kind \<in> {[], ''none''} then lower (strip (gstr p ''auth_kind'' ''none'')) else auth_kind
     | None \<Rightarrow> if auth_kind = [] then ''none'' else auth_kind)"

definition request_denylist :: "payload \<Rightarrow> payload option \<Rightarrow> pyval" where
  "request_denylist payload preset = (let v = pget payload ''tool_denylist'' PNone in
     case preset of Some p \<Rightarrow> if v = PNone then por (pget p ''tool_denylist'' PNone) (PList []) else v | None \<Rightarrow> v)"

definition request_read_only :: "payload \<Rightarrow> payload option \<Rightarrow> bool" where
  "request_read_only payload preset = (let v = pget payload ''read_only'' PNone in
     if v \<noteq> PNone then truthy v else case preset of Some p \<Rightarrow> truthy (pget p ''read_only'' (PBool True)) | None \<Rightarrow> True)"

definition connector_row :: "mcp_env \<Rightarrow> payload \<Rightarrow> py_error + mcp_connector" where
  "connector_row mv payload = (let
     tenant_id = gstr payload ''tenant_id'' ''default'';
     actor = lower (strip (gstr payload ''actor_email'' ''system''));
     (preset_id, preset) = request_preset mv payload;
     connector_id = request_connector_id (mv_env mv) payload preset_id;
     display_name = text_or_preset payload preset ''display_name'' connector_id;
     transport = lower (text_or_preset payload preset ''transport'' [])
   in if transport \<notin> {''stdio'', ''streamable_http''} then Inl (ValueError (''invalid transport: '' @ transport))
     else let
       endpoint_url = text_or_preset payload preset ''endpoint_url'' [];
       launch_command = text_or_preset payload preset ''launch_command'' [];
       auth_kind = request_auth_kind payload preset
     in bindE (py_list (por (request_or_preset payload preset ''launch_args'' (PList [])) (PList []))) (\<lambda>args.
        bindE (py_dict (por (request_or_preset payload preset ''launch_env'' (PDict [])) (PDict []))) (\<lambda>envs.
        bindE (py_list (por (request_or_preset payload preset ''tool_allowlist'' (PList [])) (PList []))) (\<lambda>allow.
        bindE (py_list (por (request_denylist payload preset) (PList []))) (\<lambda>deny.
        bindE (py_list (por (request_or_preset payload preset ''egress_hosts'' (PList [])) (PList []))) (\<lambda>egress.
        bindE (py_dict (por (request_or_preset payload preset ''metadata'' (PDict [])) (PDict []))) (\<lambda>meta.
        bindE (validate_connector_egress mv transport endpoint_url egress) (\<lambda>_.
        Inr \<lparr>mc_id = connector_id, mc_tenant = tenant_id, mc_owner = actor, mc_name = display_name, mc_transport = transport,
          mc_endpoint = none_if_empty endpoint_url, mc_command = none_if_empty launch_command, mc_args = args, mc_envs = envs,
          mc_auth_kind = auth_kind, mc_secret_key = (if auth_kind = ''bearer'' then Some (connector_id @ ''.bearer'') else None),
          mc_allow = allow, mc_deny = deny, mc_read_only = request_read_only payload preset, mc_egress = egress,
          mc_preset = none_if_empty preset_id, mc_enabled = truthy (pget payload ''enabled'' (PBool True)), mc_active = True,
          mc_meta = meta, mc_updated_at = now (mv_env mv)\<rparr>))))))))"

text \<open>Update and insert write the same columns, so the row is replaced or appended.\<close>

definition apply_upsert_mcp_connector :: "mcp_env \<Rightarrow> payload \<Rightarrow> mcp_db \<Rightarrow> py_error + mcp_db" where
  "apply_upsert_mcp_connector mv payload db = bindE (connector_row mv payload) (\<lambda>row.
     Inr (db\<lparr>mq_connectors := tbl_put mc_id row (mq_connectors db)\<rparr>))"

subsection \<open>Storing the secret\<close>

text \<open>The k-th setting written by one request gets its own identifier.\<close>

definition shift_uuid :: "nat \<Rightarrow> env \<Rightarrow> env" where
  "shift_uuid k e = e\<lparr>uuid_hex := (\<lambda>i. uuid_hex e (i + k))\<rparr>"

definition put_secret :: "env \<Rightarrow> string \<Rightarrow> string \<Rightarrow> string \<Rightarrow> string \<Rightarrow> runtime_db \<Rightarrow> py_error + runtime_db" where
  "put_secret e tenant_id actor key value db = apply_upsert_runtime_setting e
     [(''tenant_id'', PStr tenant_id), (''actor_email'', PStr actor), (''domain'', PStr ''mcp_connector''), (''key'', PStr key),
      (''value'', PStr value), (''secret'', PBool True), (''updated_by'', PStr actor)] db"

definition put_client_id :: "env \<Rightarrow> string \<Rightarrow> string \<Rightarrow> string \<Rightarrow> string \<Rightarrow> string \<Rightarrow> pyval \<Rightarrow> runtime_db \<Rightarrow> py_error + runtime_db" where
  "put_client_id e tenant_id actor domain key value client_meta db = apply_upsert_runtime_setting e
     [(''tenant_id'', PStr tenant_id), (''actor_email'', PStr actor), (''domain'', PStr domain), (''key'', PStr key),
      (''value'', PStr value), (''secret'', PBool False), (''value_json'', client_meta), (''updated_by'', PStr actor)] db"

text \<open>\<open>trim\<close> of SQL drops spaces only.\<close>

definition sql_trim :: "string \<Rightarrow> string" where
  "sql_trim s = strip_chars '' '' s"

definition other_actor :: "string \<Rightarrow> string \<Rightarrow> string \<Rightarrow> runtime_setting \<Rightarrow> bool" where
  "other_actor tenant_id actor key r \<longleftrightarrow> rs_tenant r = tenant_id \<and> rs_domain r = ''mcp_connector'' \<and> rs_key r = key \<and> rs_active r \<and>
     lower (sql_trim (rs_actor r)) \<noteq> actor"

definition retire_others :: "env \<Rightarrow> string \<Rightarrow> string \<Rightarrow> string \<Rightarrow> runtime_db \<Rightarrow> runtime_db" where
  "retire_others e tenant_id actor key db = db\<lparr>rd_settings := upd_where (other_actor tenant_id actor key)
     (\<lambda>r. r\<lparr>rs_active := False, rs_updated_at := now e\<rparr>) (rd_settings db)\<rparr>"

definition live_connector :: "string \<Rightarrow> string \<Rightarrow> mcp_connector \<Rightarrow> bool" where
  "live_connector connector_id tenant_id c \<longleftrightarrow> mc_id c = connector_id \<and> mc_tenant c = tenant_id \<and> mc_active c"

definition oauth_client_domain :: string where
  "oauth_client_domain = ''mcp_oauth''"

text \<open>
  The secret goes to the key of the connector's column. A NULL column reads as the text \<open>None\<close>, which is not empty, so
  only a column that holds the empty text gets its key written.
\<close>

definition secret_key_of :: "mcp_connector \<Rightarrow> string \<times> bool" where
  "secret_key_of c = (let k = str_of_column (mc_secret_key c) in if k = [] then (mc_id c @ ''.bearer'', True) else (k, False))"

definition store_refresh :: "env \<Rightarrow> payload \<Rightarrow> string \<Rightarrow> string \<Rightarrow> string \<Rightarrow> runtime_db \<Rightarrow> py_error + runtime_db" where
  "store_refresh e payload connector_id tenant_id actor db = (let refresh = opt_str payload ''refresh_token'' [] in
     if refresh = [] then Inr db
     else bindE (put_secret (shift_uuid 1 e) tenant_id actor (connector_id @ ''.refresh'') refresh db)
       (\<lambda>db. Inr (retire_others e tenant_id actor (connector_id @ ''.refresh'') db)))"

definition store_client :: "env \<Rightarrow> payload \<Rightarrow> string \<Rightarrow> string \<Rightarrow> string \<Rightarrow> mcp_connector list \<Rightarrow> runtime_db \<Rightarrow> py_error + runtime_db" where
  "store_client e payload connector_id tenant_id actor connectors db = (let
     oauth_client_id = opt_str payload ''oauth_client_id'' [];
     oauth_redirect = opt_str payload ''oauth_redirect_uri'' [];
     client_meta = (if oauth_redirect = [] then PNone else PDict [(''redirect_uri'', PStr oauth_redirect)]);
     preset_id = (case sel_one (live_connector connector_id tenant_id) connectors of
       None \<Rightarrow> [] | Some c \<Rightarrow> lower (strip (str_of_column (mc_preset c))))
   in if oauth_client_id = [] then Inr db
     else bindE (put_client_id (shift_uuid 2 e) tenant_id actor ''mcp_connector'' (connector_id @ ''.oauth_client_id'') oauth_client_id client_meta db)
       (\<lambda>db. if preset_id = ''notion''
         then put_client_id (shift_uuid 3 e) tenant_id actor oauth_client_domain ''notion.client_id'' oauth_client_id client_meta db
         else Inr db))"

definition apply_set_mcp_connector_auth :: "mcp_env \<Rightarrow> payload \<Rightarrow> mcp_db \<Rightarrow> py_error + mcp_db" where
  "apply_set_mcp_connector_auth mv payload db = (let
     e = mv_env mv;
     connector_id = opt_str payload ''connector_id'' [];
     tenant_id = gstr payload ''tenant_id'' ''default'';
     actor = lower (strip (gstr payload ''actor_email'' ''system''));
     bearer = opt_str payload ''bearer_token'' []
   in if connector_id = [] then Inl (ValueError ''connector_id required'')
     else if bearer = [] then Inl (ValueError ''bearer_token required'')
     else case sel_one (live_connector connector_id tenant_id) (mq_connectors db) of
       None \<Rightarrow> Inl (ValueError (''connector not found: '' @ connector_id))
     | Some c \<Rightarrow> (let
         (secret_key, write_key) = secret_key_of c;
         connectors = (if write_key then upd_where (\<lambda>c. mc_id c = connector_id \<and> mc_tenant c = tenant_id)
             (\<lambda>c. c\<lparr>mc_secret_key := Some secret_key, mc_auth_kind := ''bearer'', mc_updated_at := now e\<rparr>) (mq_connectors db)
           else mq_connectors db)
       in bindE (put_secret e tenant_id actor secret_key bearer (mq_runtime db)) (\<lambda>rt.
         let rt = retire_others e tenant_id actor secret_key rt;
             connectors = (if actor \<noteq> [] \<and> actor \<noteq> ''system'' then upd_where (live_connector connector_id tenant_id)
                 (\<lambda>c. c\<lparr>mc_owner := actor, mc_updated_at := now e\<rparr>) connectors
               else connectors)
         in bindE (store_refresh e payload connector_id tenant_id actor rt) (\<lambda>rt.
            bindE (store_client e payload connector_id tenant_id actor connectors rt) (\<lambda>rt.
            Inr (db\<lparr>mq_connectors := connectors, mq_runtime := rt\<rparr>))))))"

subsection \<open>Grants\<close>

definition grant_row :: "env \<Rightarrow> string \<Rightarrow> string \<Rightarrow> string \<Rightarrow> mcp_grant" where
  "grant_row e worker_uid connector_id permission =
     \<lparr>mg_worker = worker_uid, mg_connector = connector_id, mg_permission = permission, mg_active = True, mg_updated_at = now e\<rparr>"

definition apply_grant_worker_mcp_connector :: "mcp_env \<Rightarrow> payload \<Rightarrow> mcp_db \<Rightarrow> py_error + mcp_db" where
  "apply_grant_worker_mcp_connector mv payload db = (let
     connector_id = opt_str payload ''connector_id'' [];
     worker_uid = opt_str payload ''worker_uid'' [];
     permission = dflt_str payload ''permission'' ''use'';
     actor = str_or (lower (strip (gstr payload ''actor_email'' ''system''))) ''system''
   in if connector_id = [] \<or> worker_uid = [] then Inl (ValueError ''connector_id and worker_uid required'')
     else let
       preset_id = (case sel_one (\<lambda>c. mc_id c = connector_id \<and> mc_active c) (mq_connectors db) of
         None \<Rightarrow> [] | Some c \<Rightarrow> strip (str_of_column (mc_preset c)))
     in Inr (db\<lparr>mq_grants := tbl_put mg_key (grant_row (mv_env mv) worker_uid connector_id permission) (mq_grants db),
         mq_skills := mq_skills db @ (if preset_id = [] then [] else [(worker_uid, preset_id, actor)])\<rparr>))"

definition revoke_where :: "env \<Rightarrow> (mcp_grant \<Rightarrow> bool) \<Rightarrow> mcp_grant list \<Rightarrow> mcp_grant list" where
  "revoke_where e P t = upd_where P (\<lambda>g. g\<lparr>mg_active := False, mg_updated_at := now e\<rparr>) t"

definition apply_revoke_worker_mcp_connector :: "mcp_env \<Rightarrow> payload \<Rightarrow> mcp_db \<Rightarrow> py_error + mcp_db" where
  "apply_revoke_worker_mcp_connector mv payload db = (let
     connector_id = opt_str payload ''connector_id'' []; worker_uid = opt_str payload ''worker_uid'' []
   in if connector_id = [] \<or> worker_uid = [] then Inl (ValueError ''connector_id and worker_uid required'')
     else Inr (db\<lparr>mq_grants := revoke_where (mv_env mv) (\<lambda>g. mg_key g = (worker_uid, connector_id)) (mq_grants db)\<rparr>))"

definition apply_deactivate_mcp_connector :: "mcp_env \<Rightarrow> payload \<Rightarrow> mcp_db \<Rightarrow> py_error + mcp_db" where
  "apply_deactivate_mcp_connector mv payload db = (let
     connector_id = opt_str payload ''connector_id'' []; tenant_id = gstr payload ''tenant_id'' ''default''
   in if connector_id = [] then Inl (ValueError ''connector_id required'')
     else Inr (db\<lparr>mq_connectors := upd_where (\<lambda>c. mc_id c = connector_id \<and> mc_tenant c = tenant_id)
           (\<lambda>c. c\<lparr>mc_active := False, mc_enabled := False, mc_updated_at := now (mv_env mv)\<rparr>) (mq_connectors db),
         mq_grants := revoke_where (mv_env mv) (\<lambda>g. mg_connector g = connector_id) (mq_grants db)\<rparr>))"

subsection \<open>Defaults\<close>

definition normalize_skill_name :: "string \<Rightarrow> string" where
  "normalize_skill_name raw = replace_char (CHR ''-'') ''_'' (lower (strip raw))"

definition skill_name_of :: "pyval \<Rightarrow> string list" where
  "skill_name_of item = filter (\<lambda>k. k \<noteq> []) (case item of
     PStr s \<Rightarrow> [normalize_skill_name s]
   | PDict d \<Rightarrow> (case pget d ''name'' PNone of
         PStr n \<Rightarrow> [normalize_skill_name n]
       | _ \<Rightarrow> (case d of [(name, _)] \<Rightarrow> [normalize_skill_name name] | _ \<Rightarrow> []))
   | _ \<Rightarrow> [])"

definition manifest_skill_names :: "pyval \<Rightarrow> string list" where
  "manifest_skill_names manifest = (case manifest of
     PDict m \<Rightarrow> (case por (pget m ''skills'' PNone) (PList []) of
         PStr s \<Rightarrow> concat (map (\<lambda>w. skill_name_of (PStr w)) (filter (\<lambda>w. w \<noteq> []) (map strip (split_char (CHR '','') s))))
       | PList items \<Rightarrow> concat (map skill_name_of items)
       | _ \<Rightarrow> [])
   | _ \<Rightarrow> [])"

definition ensure_default_mcp_connectors :: "mcp_env \<Rightarrow> string \<Rightarrow> string \<Rightarrow> mcp_db \<Rightarrow> py_error + mcp_db" where
  "ensure_default_mcp_connectors mv tenant_id actor_email db = forE (\<lambda>preset_id db.
     apply_upsert_mcp_connector mv [(''tenant_id'', PStr tenant_id), (''actor_email'', PStr actor_email), (''preset_id'', PStr preset_id),
       (''connector_id'', PStr (default_mcp_connector_id preset_id)), (''enabled'', PBool True)] db)
     (default_mcp_connector_preset_ids mv) db"

definition sync_worker_mcp_grants_from_manifest :: "mcp_env \<Rightarrow> string \<Rightarrow> pyval \<Rightarrow> mcp_db \<Rightarrow> py_error + mcp_db" where
  "sync_worker_mcp_grants_from_manifest mv worker_uid manifest db = forE (\<lambda>preset_id db. (let
       connector_id = default_mcp_connector_id preset_id;
       request = [(''connector_id'', PStr connector_id), (''worker_uid'', PStr worker_uid)]
     in if \<not> has_key mc_id connector_id (mq_connectors db) then Inr db
       else if manifest_skill_id_for_preset mv preset_id \<in> set (manifest_skill_names manifest)
         then apply_grant_worker_mcp_connector mv (request @ [(''permission'', PStr ''use'')]) db
       else apply_revoke_worker_mcp_connector mv request db))
     (default_mcp_connector_preset_ids mv) db"

subsection \<open>Reads and policies\<close>

definition column_texts :: "pyval list \<Rightarrow> string list" where
  "column_texts xs = filter (\<lambda>t. strip t \<noteq> []) (map pystr xs)"

definition get_mcp_connector_runtime :: "mcp_db \<Rightarrow> string \<Rightarrow> string \<Rightarrow> mcp_connector option" where
  "get_mcp_connector_runtime db connector_id tenant_id =
     sel_one (\<lambda>c. live_connector connector_id tenant_id c \<and> mc_enabled c) (mq_connectors db)"

definition list_worker_mcp_connectors :: "mcp_db \<Rightarrow> string \<Rightarrow> string \<Rightarrow> mcp_connector list" where
  "list_worker_mcp_connectors db worker_uid tenant_id = sort_key mc_name (concat (map (\<lambda>g.
     if mg_worker g = worker_uid \<and> mg_active g
     then filter (\<lambda>c. mc_id c = mg_connector g \<and> mc_tenant c = tenant_id \<and> mc_active c \<and> mc_enabled c) (mq_connectors db) else [])
     (mq_grants db)))"

text \<open>The newest active secret of the tenant, whoever stored it, and when it was stored.\<close>

definition newest_mcp_connector_secret :: "runtime_setting list \<Rightarrow> string \<Rightarrow> string \<Rightarrow> string \<times> int option" where
  "newest_mcp_connector_secret rows key0 tenant_id = (let key = strip key0 in
     if key = [] then ([], None)
     else case top_by rs_updated_at (sel_all (\<lambda>r. rs_active r \<and> rs_domain r = ''mcp_connector'' \<and> rs_key r = key \<and> rs_tenant r = tenant_id \<and>
         sql_trim (rs_value r) \<noteq> []) rows) of
       None \<Rightarrow> ([], None) | Some r \<Rightarrow> (strip (rs_value r), Some (rs_updated_at r)))"

text \<open>The newest active secret, else what the owner and then the tenant resolve to.\<close>

definition resolve_stored_secret ::
  "settings_env \<Rightarrow> runtime_setting list \<Rightarrow> string \<Rightarrow> string \<Rightarrow> string \<Rightarrow> py_error + string \<times> int option" where
  "resolve_stored_secret se rows tenant_id owner key = (let (newest, updated_at) = newest_mcp_connector_secret rows key tenant_id in
     if newest \<noteq> [] then Inr (newest, updated_at)
     else bindE (resolve_runtime_setting se rows tenant_id owner ''mcp_connector'' key [] []) (\<lambda>(public, v).
       let token = strip (pystr (por v (PStr []))) in
       if token \<noteq> [] then Inr (token, ps_updated_at public)
       else bindE (resolve_runtime_setting se rows tenant_id [] ''mcp_connector'' key [] []) (\<lambda>(public, v).
         let token = strip (pystr (por v (PStr [])))
         in Inr (token, if token \<noteq> [] then ps_updated_at public else updated_at))))"

text \<open>
  What the refresh of OAuth tokens depends on: the clock and the cache of the process (access token, refresh token and time
  by tenant and connector) before and after the lock is acquired, whether the provider rejects a token, and
  \<open>_refresh_connector_oauth\<close>, the exchange of a refresh token over HTTP. Times are seconds of one clock.
\<close>

record oauth_env =
  oe_now :: int
  oe_cache :: "string \<times> string \<Rightarrow> (string \<times> string \<times> int) option"
  oe_locked_now :: int
  oe_locked_cache :: "string \<times> string \<Rightarrow> (string \<times> string \<times> int) option"
  oe_token_rejected :: "string \<Rightarrow> bool"
  oe_refresh_connector :: "string \<Rightarrow> string \<Rightarrow> string \<Rightarrow> string \<Rightarrow> string \<Rightarrow> string"

definition fresh_access :: "int \<Rightarrow> int \<Rightarrow> (string \<times> string \<times> int) option \<Rightarrow> string option" where
  "fresh_access window t cached = (case cached of
     Some (access, _, since) \<Rightarrow> if t - since < window then Some access else None | None \<Rightarrow> None)"

definition rotated_refresh :: "(string \<times> string \<times> int) option \<Rightarrow> string \<Rightarrow> string" where
  "rotated_refresh cached refresh = (case cached of Some (_, r, _) \<Rightarrow> str_or r refresh | None \<Rightarrow> refresh)"

definition needs_oauth_refresh :: "mcp_env \<Rightarrow> string \<Rightarrow> bool" where
  "needs_oauth_refresh mv preset_id \<longleftrightarrow> is_google_workspace_preset mv preset_id \<or> preset_uses_mcp_dcr mv preset_id"

definition token_window :: "mcp_env \<Rightarrow> string \<Rightarrow> int" where
  "token_window mv preset_id = (if preset_uses_mcp_dcr mv preset_id then 1800 else 3000)"

text \<open>The stored token has outlived its window; without a time stamp a Google token is tried, any other counts as stale.\<close>

definition token_stale :: "mcp_env \<Rightarrow> oauth_env \<Rightarrow> string \<Rightarrow> string \<Rightarrow> int option \<Rightarrow> bool" where
  "token_stale mv oe preset_id token updated_at = (if token = [] then True
     else case updated_at of
       Some t \<Rightarrow> token_window mv preset_id < oe_now oe - t
     | None \<Rightarrow> if is_google_workspace_preset mv preset_id then oe_token_rejected oe token else True)"

definition resolve_connector_bearer_token :: "mcp_env \<Rightarrow> settings_env \<Rightarrow> oauth_env \<Rightarrow> mcp_db \<Rightarrow> mcp_connector \<Rightarrow> py_error + string" where
  "resolve_connector_bearer_token mv se oe db c = (let
     kind = lower (strip (str_or (mc_auth_kind c) ''none''));
     secret_key = strip (text_of_column (mc_secret_key c));
     tenant_id = str_or (mc_tenant c) ''default'';
     owner = lower (strip (str_or (mc_owner c) ''system''));
     rows = rd_settings (mq_runtime db)
   in if kind = ''none'' \<or> kind = [] \<or> secret_key = [] then Inr []
     else bindE (resolve_stored_secret se rows tenant_id owner secret_key) (\<lambda>(token, updated_at).
     let preset_id = lower (strip (text_of_column (mc_preset c)))
     in if \<not> needs_oauth_refresh mv preset_id then Inr token
     else let connector_id = strip (mc_id c); cache_key = (tenant_id, connector_id); window = token_window mv preset_id
     in bindE (if connector_id = [] then Inr ([], None)
          else resolve_stored_secret se rows tenant_id owner (connector_id @ ''.refresh'')) (\<lambda>(refresh, _).
     case fresh_access window (oe_now oe) (oe_cache oe cache_key) of
       Some access \<Rightarrow> Inr access
     | None \<Rightarrow> (let refresh = rotated_refresh (oe_cache oe cache_key) refresh
         in if \<not> token_stale mv oe preset_id token updated_at then Inr token
         else if refresh = [] then Inr []
         else case fresh_access window (oe_locked_now oe) (oe_locked_cache oe cache_key) of
           Some access \<Rightarrow> Inr access
         | None \<Rightarrow> Inr (oe_refresh_connector oe preset_id connector_id tenant_id owner
             (rotated_refresh (oe_locked_cache oe cache_key) refresh))))))"

definition mutating_prefixes :: "string list" where
  "mutating_prefixes = [''create_'', ''delete_'', ''update_'', ''push_'', ''write_'', ''remove_'', ''merge_'']"

definition tool_allowed_by_policy :: "mcp_connector \<Rightarrow> string \<Rightarrow> bool" where
  "tool_allowed_by_policy c tool_name = (let
     name = strip tool_name;
     preset = lower (strip (text_of_column (mc_preset c)));
     denylist = map (\<lambda>t. lower (strip t)) (column_texts (mc_deny c));
     allowlist = map strip (column_texts (mc_allow c))
   in if name = [] then False
     else if lower name = ''search_corpus'' \<and> (preset = ''google_workspace'' \<or>
         contains ''workspacemcp.googleapis.com'' (lower (text_of_column (mc_endpoint c)))) then False
     else if lower name \<in> set denylist then False
     else if \<not> (allowlist = [] \<or> ''*'' \<in> set allowlist \<or> name \<in> set allowlist) then False
     else if \<not> mc_read_only c then True
     else \<not> list_ex (\<lambda>p. startswith p (lower name)) mutating_prefixes)"

subsection \<open>Invariant\<close>

text \<open>A connector over HTTP talks to the host of its endpoint, which its egress list allows when it has one.\<close>

definition egress_ok :: "mcp_env \<Rightarrow> string \<Rightarrow> pyval list \<Rightarrow> bool" where
  "egress_ok mv url egress \<longleftrightarrow> (\<exists>h hs. url_hostname (mv_ipv6 mv) url = Inr h \<and> lower (strip h) \<noteq> [] \<and>
     mapE egress_host egress = Inr hs \<and> (concat hs \<noteq> [] \<longrightarrow> lower (strip h) \<in> set (concat hs)))"

definition connector_ok :: "mcp_env \<Rightarrow> mcp_connector \<Rightarrow> bool" where
  "connector_ok mv c \<longleftrightarrow> mc_id c \<noteq> [] \<and> mc_transport c \<in> {''stdio'', ''streamable_http''} \<and>
     (mc_transport c = ''streamable_http'' \<longrightarrow> (\<exists>url. mc_endpoint c = Some url \<and> egress_ok mv url (mc_egress c)))"

definition mcp_ok :: "mcp_env \<Rightarrow> mcp_db \<Rightarrow> bool" where
  "mcp_ok mv db \<longleftrightarrow> uniq mc_id (mq_connectors db) \<and> uniq mg_key (mq_grants db) \<and> (\<forall>c \<in> set (mq_connectors db). connector_ok mv c)"

definition mcp_handlers :: "(mcp_env \<Rightarrow> payload \<Rightarrow> mcp_db \<Rightarrow> py_error + mcp_db) list" where
  "mcp_handlers = [apply_upsert_mcp_connector, apply_set_mcp_connector_auth, apply_grant_worker_mcp_connector,
     apply_revoke_worker_mcp_connector, apply_deactivate_mcp_connector]"

lemma validated_egress:
  assumes "validate_connector_egress mv ''streamable_http'' url egress = Inr ()" "strip url = url"
  shows "url \<noteq> [] \<and> egress_ok mv url egress"
proof -
  have t: "lower (strip ''streamable_http'') = ''streamable_http''" by code_simp
  show ?thesis using assms unfolding validate_connector_egress_def t assms(2) Let_def
    by (auto simp: egress_ok_def split: if_split_asm)
qed

lemma connector_row_fields:
  assumes "connector_row mv p = Inr c"
  obtains preset_id preset where "request_preset mv p = (preset_id, preset)"
    "mc_id c = request_connector_id (mv_env mv) p preset_id" "mc_tenant c = gstr p ''tenant_id'' ''default''"
    "mc_transport c = lower (text_or_preset p preset ''transport'' [])" "mc_transport c \<in> {''stdio'', ''streamable_http''}"
    "mc_endpoint c = none_if_empty (text_or_preset p preset ''endpoint_url'' [])" "mc_active c"
    "validate_connector_egress mv (mc_transport c) (text_or_preset p preset ''endpoint_url'' []) (mc_egress c) = Inr ()"
proof -
  obtain preset_id preset where r: "request_preset mv p = (preset_id, preset)" by force
  let ?t = "lower (text_or_preset p preset ''transport'' [])"
  have t: "?t \<in> {''stdio'', ''streamable_http''}"
    using assms unfolding connector_row_def r Let_def prod.case by (simp split: if_split_asm)
  then have nt: "(?t \<notin> {''stdio'', ''streamable_http''}) = False" by simp
  have "mc_id c = request_connector_id (mv_env mv) p preset_id \<and> mc_tenant c = gstr p ''tenant_id'' ''default'' \<and> mc_transport c = ?t \<and>
      mc_endpoint c = none_if_empty (text_or_preset p preset ''endpoint_url'' []) \<and> mc_active c \<and>
      validate_connector_egress mv (mc_transport c) (text_or_preset p preset ''endpoint_url'' []) (mc_egress c) = Inr ()"
    using assms unfolding connector_row_def r Let_def prod.case nt if_False by (elim bindE_InrE, clarify) simp
  then show thesis by (elim conjE) (rule that [OF r]; (assumption | simp only: t))
qed

lemma request_connector_id_nonempty: "request_connector_id e p q \<noteq> []"
  by (simp add: request_connector_id_def Let_def)

lemma connector_row_ok: "connector_row mv p = Inr c \<Longrightarrow> connector_ok mv c"
proof (elim connector_row_fields)
  fix preset_id preset
  let ?url = "text_or_preset p preset ''endpoint_url'' []"
  assume h: "mc_id c = request_connector_id (mv_env mv) p preset_id" "mc_transport c \<in> {''stdio'', ''streamable_http''}"
    "mc_endpoint c = none_if_empty ?url" "validate_connector_egress mv (mc_transport c) ?url (mc_egress c) = Inr ()"
  have "strip ?url = ?url" by (simp add: text_or_preset_def)
  then have "mc_transport c = ''streamable_http'' \<longrightarrow> (\<exists>url. mc_endpoint c = Some url \<and> egress_ok mv url (mc_egress c))"
    using validated_egress [of mv ?url "mc_egress c"] h(3,4) by (auto simp: none_if_empty_def)
  with h(1,2) show "connector_ok mv c" by (simp add: connector_ok_def request_connector_id_nonempty)
qed

lemma upsert_connector_ok:
  assumes "mcp_ok mv db" "apply_upsert_mcp_connector mv p db = Inr db'"
  shows "mcp_ok mv db'"
proof -
  from assms(2) obtain c where c: "connector_row mv p = Inr c" "db' = db\<lparr>mq_connectors := tbl_put mc_id c (mq_connectors db)\<rparr>"
    by (auto simp: apply_upsert_mcp_connector_def)
  have "\<forall>x \<in> set (tbl_put mc_id c (mq_connectors db)). connector_ok mv x"
    using assms(1) connector_row_ok [OF c(1)] by (auto simp: tbl_put_def mcp_ok_def ins_or_update_def set_upd_where)
  then show ?thesis using assms(1) uniq_tbl_put [of mc_id "mq_connectors db" c] by (simp add: mcp_ok_def c(2))
qed

text \<open>An update that keeps identifier, transport, endpoint and egress list keeps the invariant.\<close>

lemma connectors_edit_ok:
  assumes "mcp_ok mv db" "\<And>c. mc_id (f c) = mc_id c" "\<And>c. mc_transport (f c) = mc_transport c"
    "\<And>c. mc_endpoint (f c) = mc_endpoint c" "\<And>c. mc_egress (f c) = mc_egress c"
  shows "mcp_ok mv (db\<lparr>mq_connectors := upd_where P f (mq_connectors db)\<rparr>)"
proof -
  have "connector_ok mv (if P c then f c else c) = connector_ok mv c" for c using assms(2-5) by (simp add: connector_ok_def)
  then have "\<forall>c \<in> set (upd_where P f (mq_connectors db)). connector_ok mv c"
    using assms(1) unfolding ball_upd_where_iff by (simp add: mcp_ok_def)
  moreover have "uniq mc_id (upd_where P f (mq_connectors db))"
    using assms(1,2) by (intro uniq_upd_where) (simp_all add: mcp_ok_def)
  ultimately show ?thesis using assms(1) by (simp add: mcp_ok_def)
qed

lemma mcp_ok_other [simp]:
  "mcp_ok mv (db\<lparr>mq_runtime := rt\<rparr>) = mcp_ok mv db" "mcp_ok mv (db\<lparr>mq_skills := k\<rparr>) = mcp_ok mv db"
  by (simp_all add: mcp_ok_def)

lemma revoke_ok: "mcp_ok mv db \<Longrightarrow> mcp_ok mv (db\<lparr>mq_grants := revoke_where e P (mq_grants db)\<rparr>)"
proof -
  assume "mcp_ok mv db"
  moreover then have "uniq mg_key (revoke_where e P (mq_grants db))"
    unfolding revoke_where_def by (intro uniq_upd_where) (simp_all add: mcp_ok_def mg_key_def)
  ultimately show ?thesis by (simp add: mcp_ok_def)
qed

lemma set_auth_cases:
  assumes "apply_set_mcp_connector_auth mv p db = Inr db'"
  obtains c k w cs rt0 rt1 rt2 where
    "sel_one (live_connector (opt_str p ''connector_id'' []) (gstr p ''tenant_id'' ''default'')) (mq_connectors db) = Some c"
    "secret_key_of c = (k, w)"
    "cs = (if w then upd_where (\<lambda>c. mc_id c = opt_str p ''connector_id'' [] \<and> mc_tenant c = gstr p ''tenant_id'' ''default'')
        (\<lambda>c. c\<lparr>mc_secret_key := Some k, mc_auth_kind := ''bearer'', mc_updated_at := now (mv_env mv)\<rparr>) (mq_connectors db)
      else mq_connectors db)"
    "put_secret (mv_env mv) (gstr p ''tenant_id'' ''default'') (lower (strip (gstr p ''actor_email'' ''system''))) k
       (opt_str p ''bearer_token'' []) (mq_runtime db) = Inr rt0"
    "opt_str p ''bearer_token'' [] \<noteq> []"
    "store_refresh (mv_env mv) p (opt_str p ''connector_id'' []) (gstr p ''tenant_id'' ''default'')
       (lower (strip (gstr p ''actor_email'' ''system'')))
       (retire_others (mv_env mv) (gstr p ''tenant_id'' ''default'') (lower (strip (gstr p ''actor_email'' ''system''))) k rt0) = Inr rt1"
    "\<exists>cs'. store_client (mv_env mv) p (opt_str p ''connector_id'' []) (gstr p ''tenant_id'' ''default'')
       (lower (strip (gstr p ''actor_email'' ''system''))) cs' rt1 = Inr rt2"
    "mq_runtime db' = rt2" "mq_grants db' = mq_grants db"
    "mq_connectors db' = cs \<or> mq_connectors db' = upd_where (live_connector (opt_str p ''connector_id'' []) (gstr p ''tenant_id'' ''default''))
       (\<lambda>c. c\<lparr>mc_owner := lower (strip (gstr p ''actor_email'' ''system'')), mc_updated_at := now (mv_env mv)\<rparr>) cs"
proof -
  let ?id = "opt_str p ''connector_id'' []" and ?t = "gstr p ''tenant_id'' ''default''" and ?a = "lower (strip (gstr p ''actor_email'' ''system''))"
    and ?b = "opt_str p ''bearer_token'' []" and ?e = "mv_env mv"
  from assms have ne: "(?id = []) = False" "(?b = []) = False"
    unfolding apply_set_mcp_connector_auth_def Let_def by (auto split: if_split_asm)
  note h = assms [unfolded apply_set_mcp_connector_auth_def Let_def ne if_False]
  from h obtain c where c: "sel_one (live_connector ?id ?t) (mq_connectors db) = Some c" by (auto split: option.splits)
  obtain k w where k: "secret_key_of c = (k, w)" by force
  note h = h [unfolded c option.case k prod.case]
  from h show thesis
    by (elim bindE_InrE) (rule that [OF c k refl, of _ _ _], assumption, use ne in blast, assumption, blast, auto)
qed

lemma set_auth_ok:
  assumes "mcp_ok mv db" "apply_set_mcp_connector_auth mv p db = Inr db'"
  shows "mcp_ok mv db'"
  using assms(2)
proof (cases rule: set_auth_cases)
  case (1 c k w cs rt0 rt1 rt2)
  have cs: "mcp_ok mv (db\<lparr>mq_connectors := cs\<rparr>)"
    unfolding 1(3) using connectors_edit_ok [OF assms(1)] assms(1) by auto
  have "mcp_ok mv (db\<lparr>mq_connectors := mq_connectors db'\<rparr>)"
    using 1(10) cs connectors_edit_ok [OF cs] by auto
  then show ?thesis using 1(9) by (simp add: mcp_ok_def)
qed

lemma grant_ok:
  assumes "mcp_ok mv db" "apply_grant_worker_mcp_connector mv p db = Inr db'"
  shows "mcp_ok mv db'"
proof -
  from assms(2) obtain g where "mq_grants db' = tbl_put mg_key g (mq_grants db)" "mq_connectors db' = mq_connectors db"
    by (auto simp: apply_grant_worker_mcp_connector_def Let_def split: if_split_asm)
  then show ?thesis using assms(1) uniq_tbl_put [of mg_key "mq_grants db" g] by (simp add: mcp_ok_def)
qed

lemma revoke_handler_ok: "mcp_ok mv db \<Longrightarrow> apply_revoke_worker_mcp_connector mv p db = Inr db' \<Longrightarrow> mcp_ok mv db'"
  using revoke_ok by (auto simp: apply_revoke_worker_mcp_connector_def Let_def split: if_split_asm)

lemma deactivate_connector_ok:
  assumes "mcp_ok mv db" "apply_deactivate_mcp_connector mv p db = Inr db'"
  shows "mcp_ok mv db'"
proof -
  from assms(2) obtain P Q f where d: "db' = db\<lparr>mq_connectors := upd_where P f (mq_connectors db), mq_grants := revoke_where (mv_env mv) Q (mq_grants db)\<rparr>"
    and f: "f = (\<lambda>c. c\<lparr>mc_active := False, mc_enabled := False, mc_updated_at := now (mv_env mv)\<rparr>)"
    by (auto simp: apply_deactivate_mcp_connector_def Let_def split: if_split_asm)
  have "mcp_ok mv (db\<lparr>mq_connectors := upd_where P f (mq_connectors db)\<rparr>)" by (rule connectors_edit_ok [OF assms(1)]) (simp_all add: f)
  from revoke_ok [OF this] show ?thesis unfolding d by simp
qed

text \<open>
  C28. Whatever connectors are created, updated, authorised, granted or switched off: their identifiers stay unique, a
  worker has at most one grant per connector, and a connector that speaks HTTP has an endpoint whose host is among its
  allowed hosts whenever it lists any.
\<close>

lemma mcp_invariant:
  assumes "h \<in> set mcp_handlers" "mcp_ok mv db" "h mv p db = Inr db'"
  shows "mcp_ok mv db'"
  using assms by (auto simp: mcp_handlers_def dest: upsert_connector_ok set_auth_ok grant_ok revoke_handler_ok deactivate_connector_ok)

lemma bootstrap_keeps_ok:
  assumes "mcp_ok mv db"
  shows "ensure_default_mcp_connectors mv tenant actor db = Inr db' \<Longrightarrow> mcp_ok mv db'"
    and "sync_worker_mcp_grants_from_manifest mv worker manifest db = Inr db' \<Longrightarrow> mcp_ok mv db'"
proof -
  show "ensure_default_mcp_connectors mv tenant actor db = Inr db' \<Longrightarrow> mcp_ok mv db'"
    unfolding ensure_default_mcp_connectors_def
    by (rule forE_invariant [of _ "mcp_ok mv", OF _ assms]) (rule upsert_connector_ok)
  show "sync_worker_mcp_grants_from_manifest mv worker manifest db = Inr db' \<Longrightarrow> mcp_ok mv db'"
    unfolding sync_worker_mcp_grants_from_manifest_def
    by (rule forE_invariant [of _ "mcp_ok mv", OF _ assms]) (auto simp: Let_def split: if_split_asm dest: grant_ok revoke_handler_ok)
qed

subsection \<open>The secret a connector resolves to\<close>

definition auth_command :: "string \<Rightarrow> string \<Rightarrow> string \<Rightarrow> string \<Rightarrow> payload" where
  "auth_command connector_id tenant actor bearer = [(''connector_id'', PStr connector_id), (''tenant_id'', PStr tenant),
     (''actor_email'', PStr actor), (''bearer_token'', PStr bearer)]"

lemma auth_command_fields:
  assumes "t \<noteq> []" "strip b = b" "b \<noteq> []" "lower (strip a) = a" "a \<noteq> []" "strip i = i"
  shows "opt_str (auth_command i t a b) ''connector_id'' [] = i" "gstr (auth_command i t a b) ''tenant_id'' ''default'' = t"
    "lower (strip (gstr (auth_command i t a b) ''actor_email'' ''system'')) = a" "opt_str (auth_command i t a b) ''bearer_token'' [] = b"
    "opt_str (auth_command i t a b) ''refresh_token'' [] = []" "opt_str (auth_command i t a b) ''oauth_client_id'' [] = []"
proof -
  show "opt_str (auth_command i t a b) ''connector_id'' [] = i" using assms(6)
    by (cases "i = []") (simp_all add: auth_command_def opt_str_def gstr_def por_def)
qed (use assms in \<open>simp_all add: auth_command_def opt_str_def gstr_def por_def\<close>)

text \<open>A stored secret: one row of the scope, active and with the value, all other scopes as they were.\<close>

lemma put_secret_row:
  assumes "put_secret e t a k v db = Inr db'" "uniq rs_lookup (rd_settings db)" "uniq rs_id (rd_settings db)" "t \<noteq> []"
  shows "\<exists>r \<in> set (rd_settings db'). rs_lookup r = (t, a, ''mcp_connector'', k) \<and> rs_value r = v \<and> rs_active r \<and> rs_updated_at r = now e \<and>
    uniq rs_lookup (rd_settings db') \<and> (\<forall>s \<in> set (rd_settings db'). s = r \<or> s \<in> set (rd_settings db))"
proof -
  let ?p = "[(''tenant_id'', PStr t), (''actor_email'', PStr a), (''domain'', PStr ''mcp_connector''), (''key'', PStr k),
      (''value'', PStr v), (''secret'', PBool True), (''updated_by'', PStr a)]"
  have f: "req_text ?p ''domain'' = Inr ''mcp_connector''" "req_text ?p ''key'' = Inr k" "req_text ?p ''value'' = Inr v"
    "gstr ?p ''tenant_id'' ''default'' = t" "pystr (pget ?p ''actor_email'' (PStr ''system'')) = a"
    "pget ?p ''value_json'' PNone = PNone" "truthy (pget ?p ''secret'' (PBool False)) = True"
    using assms(4) by (simp_all add: req_text_def gstr_def por_def)
  note h = assms(1) [unfolded put_secret_def apply_upsert_runtime_setting_def f bindE_simps Let_def if_True, simplified]
  show ?thesis
  proof (cases "sel_one (\<lambda>r. rs_lookup r = (t, a, ''mcp_connector'', k)) (rd_settings db)")
    case None
    with h obtain r where r: "rd_settings db' = rd_settings db @ [r]" "rs_lookup r = (t, a, ''mcp_connector'', k)" "rs_value r = v" "rs_active r" "rs_updated_at r = now e"
      by (auto simp: rs_lookup_def)
    have "\<not> has_key rs_lookup (rs_lookup r) (rd_settings db)" using None r(2) by (auto simp: sel_one_None has_key_iff)
    then have "uniq rs_lookup (rd_settings db')" using assms(2) r(1) by simp
    then show ?thesis using r by auto
  next
    case (Some old)
    note o = sel_one_Some [OF Some]
    with h Some obtain f where f: "rd_settings db' = upd_where (\<lambda>r. rs_id r = rs_id old) f (rd_settings db)"
      "\<And>r. rs_lookup (f r) = rs_lookup r" "rs_value (f old) = v" "rs_active (f old)" "rs_updated_at (f old) = now e"
      by (auto simp: rs_lookup_def)
    have "f old \<in> set (rd_settings db')" using o by (auto simp: f(1) set_upd_where)
    moreover have "s = f old \<or> s \<in> set (rd_settings db)" if "s \<in> set (rd_settings db')" for s
      using that o uniq_eq [OF assms(3)] by (auto simp: f(1) set_upd_where split: if_splits)
    moreover have "uniq rs_lookup (rd_settings db')" unfolding f(1) using assms(2) f(2) by (intro uniq_upd_where) auto
    ultimately show ?thesis using f(2-5) o by (intro bexI [of _ "f old"]) auto
  qed
qed



text \<open>Storing a bearer for a connector whose column holds a key: the secret, the retired ones and the new owner.\<close>

lemma auth_command_result:
  assumes "apply_set_mcp_connector_auth mv (auth_command i t a b) db = Inr db'"
    and "t \<noteq> []" "strip i = i" "strip b = b" "b \<noteq> []" "lower (strip a) = a" "a \<noteq> []"
    and "sel_one (live_connector i t) (mq_connectors db) = Some c" and k: "secret_key_of c = (k, False)"
  shows "\<exists>rt. put_secret (mv_env mv) t a k b (mq_runtime db) = Inr rt \<and> mq_runtime db' = retire_others (mv_env mv) t a k rt \<and>
    mq_connectors db' = (if a = ''system'' then mq_connectors db else upd_where (live_connector i t)
      (\<lambda>c. c\<lparr>mc_owner := a, mc_updated_at := now (mv_env mv)\<rparr>) (mq_connectors db))"
proof -
  note f = auth_command_fields [OF assms(2,4,5,6,7,3)]
  have r: "store_refresh e (auth_command i t a b) i t a rt = Inr rt" "store_client e (auth_command i t a b) i t a cs rt = Inr rt" for e rt cs
    using f by (simp_all add: store_refresh_def store_client_def)
  have i: "(i = []) = False" using assms(1) f(1) unfolding apply_set_mcp_connector_auth_def Let_def by (auto split: if_split_asm)
  have b: "(b = []) = False" using assms(5) by simp
  note h = assms(1) [unfolded apply_set_mcp_connector_auth_def Let_def f i b if_False assms(8) option.case k prod.case r bindE_simps]
  from h show ?thesis using assms(7) by (elim bindE_InrE) auto
qed


lemma own_not_retired: "r \<in> set (rd_settings rt) \<Longrightarrow> lower (sql_trim (rs_actor r)) = a \<Longrightarrow> r \<in> set (rd_settings (retire_others e t a k rt))"
  unfolding retire_others_def by (simp add: set_upd_where) (rule disjI2, simp add: other_actor_def)

lemma the_live_connector:
  assumes "uniq mc_id cs" "c \<in> set cs" "live_connector i t c"
  shows "sel_one (live_connector i t) cs = Some c"
proof (cases "sel_one (live_connector i t) cs")
  case None
  then show ?thesis using assms(2,3) by (simp add: sel_one_None)
next
  case (Some x)
  with sel_one_Some [OF this] uniq_eq [OF assms(1) _ assms(2), of x] assms(3) show ?thesis by (simp add: live_connector_def)
qed



text \<open>
  A connector whose key column is NULL (none was given when it was created) accepts a bearer and reports success,
  but stays without a key: it resolves to no token, and the bearer lies under the key \<open>None\<close>, which all such
  connectors of the tenant share.
\<close>

lemma null_key_loses_bearer:
  assumes "apply_set_mcp_connector_auth mv (auth_command i t a b) db = Inr db'"
    and "t \<noteq> []" "strip i = i" "strip b = b" "b \<noteq> []" "lower (strip a) = a" "a \<noteq> []"
    and "uniq mc_id (mq_connectors db)" "uniq rs_lookup (rd_settings (mq_runtime db))" "uniq rs_id (rd_settings (mq_runtime db))"
    and "c \<in> set (mq_connectors db)" "live_connector i t c" "mc_secret_key c = None"
  shows "(\<exists>c' \<in> set (mq_connectors db'). live_connector i t c' \<and> resolve_connector_bearer_token mv se oe db' c' = Inr []) \<and>
    (\<exists>r \<in> set (rd_settings (mq_runtime db')). rs_lookup r = (t, a, ''mcp_connector'', ''None'') \<and> rs_value r = b \<and> rs_active r)"
proof -
  have "sel_one (live_connector i t) (mq_connectors db) = Some c" by (rule the_live_connector [OF assms(8,11,12)])
  moreover have "secret_key_of c = (''None'', False)" using assms(13) by (simp add: secret_key_of_def str_of_column_def)
  ultimately obtain rt where put: "put_secret (mv_env mv) t a ''None'' b (mq_runtime db) = Inr rt"
    and d: "mq_runtime db' = retire_others (mv_env mv) t a ''None'' rt"
    "mq_connectors db' = (if a = ''system'' then mq_connectors db else upd_where (live_connector i t)
      (\<lambda>c. c\<lparr>mc_owner := a, mc_updated_at := now (mv_env mv)\<rparr>) (mq_connectors db))"
    using auth_command_result [OF assms(1-7)] by blast
  from put_secret_row [OF put assms(9,10,2)] obtain r where r: "r \<in> set (rd_settings rt)" "rs_lookup r = (t, a, ''mcp_connector'', ''None'')"
    "rs_value r = b" "rs_active r" by blast
  have "sql_trim a = a" unfolding sql_trim_def
    by (rule strip_chars_keeps [OF canonical_lower(1) [OF assms(6)]]) (auto simp: is_space_def)
  then have "lower (sql_trim (rs_actor r)) = a" using canonical_lower(2) [OF assms(6)] r(2) by (simp add: rs_lookup_def)
  from own_not_retired [OF r(1) this] have mem: "r \<in> set (rd_settings (mq_runtime db'))" unfolding d .
  define c' where "c' = (if a = ''system'' then c else c\<lparr>mc_owner := a, mc_updated_at := now (mv_env mv)\<rparr>)"
  have "c' \<in> set (mq_connectors db')" using assms(11,12) by (force simp: c'_def d(2) set_upd_where)
  moreover have "live_connector i t c'" "mc_secret_key c' = None" using assms(12,13) by (simp_all add: c'_def live_connector_def)
  moreover from this(2) have "resolve_connector_bearer_token mv se oe db' c' = Inr []"
    by (simp add: resolve_connector_bearer_token_def text_of_column_def)
  ultimately show ?thesis using mem r by blast
qed

subsection \<open>What a worker sees\<close>

lemma list_worker_iff:
  "c \<in> set (list_worker_mcp_connectors db w t) \<longleftrightarrow>
     (\<exists>g \<in> set (mq_grants db). mg_key g = (w, mc_id c) \<and> mg_active g) \<and>
     c \<in> set (mq_connectors db) \<and> mc_tenant c = t \<and> mc_active c \<and> mc_enabled c"
proof -
  have "c \<in> set (list_worker_mcp_connectors db w t) \<longleftrightarrow> (\<exists>g \<in> set (mq_grants db). mg_worker g = w \<and> mg_active g \<and>
      c \<in> set (filter (\<lambda>c. mc_id c = mg_connector g \<and> mc_tenant c = t \<and> mc_active c \<and> mc_enabled c) (mq_connectors db)))"
    unfolding list_worker_mcp_connectors_def set_sort set_concat set_map UN_iff bex_simps(7) by (rule bex_cong [OF refl]) simp
  then show ?thesis by (auto simp: mg_key_def)
qed

lemma granted_after_put:
  "(\<exists>g \<in> set (tbl_put mg_key (grant_row e w i q) gs). mg_key g = k \<and> mg_active g) \<longleftrightarrow>
     k = (w, i) \<or> (\<exists>g \<in> set gs. mg_key g = k \<and> mg_active g)"
proof -
  let ?r = "grant_row e w i q"
  have r: "mg_key ?r = (w, i)" "mg_active ?r" by (simp_all add: grant_row_def mg_key_def)
  show ?thesis
  proof (cases "has_key mg_key (mg_key ?r) gs")
    case True
    have "(mg_key (if mg_key g = mg_key ?r then ?r else g) = k \<and> mg_active (if mg_key g = mg_key ?r then ?r else g)) =
        (if mg_key g = (w, i) then k = (w, i) else mg_key g = k \<and> mg_active g)" for g using r by auto
    note p = this
    from True obtain g where "g \<in> set gs" "mg_key g = (w, i)" using r(1) by (auto simp: has_key_iff)
    then show ?thesis unfolding tbl_put_def ins_or_update_def if_P [OF True] set_upd_where bex_simps(7) p by auto
  next
    case False
    then show ?thesis using r by (auto simp: tbl_put_def ins_or_update_def)
  qed
qed

lemma granted_after_revoke:
  "(\<exists>g \<in> set (revoke_where e P gs). mg_key g = k \<and> mg_active g) \<longleftrightarrow> (\<exists>g \<in> set gs. mg_key g = k \<and> mg_active g \<and> \<not> P g)"
proof -
  have "mg_key (if P g then g\<lparr>mg_active := False, mg_updated_at := now e\<rparr> else g) = k \<and>
      mg_active (if P g then g\<lparr>mg_active := False, mg_updated_at := now e\<rparr> else g) \<longleftrightarrow> mg_key g = k \<and> mg_active g \<and> \<not> P g" for g
    by (simp add: mg_key_def)
  note p = this
  show ?thesis unfolding revoke_where_def set_upd_where bex_simps(7) p ..
qed

text \<open>
  A grant makes the connector visible to the worker exactly where it is active, enabled and of the tenant that asks,
  and a revocation takes it away; no other worker and no other connector is affected by either.
\<close>

lemma grant_visibility:
  assumes "apply_grant_worker_mcp_connector mv p db = Inr db1" "apply_revoke_worker_mcp_connector mv p db1 = Inr db2"
    and "w = opt_str p ''worker_uid'' []" "i = opt_str p ''connector_id'' []"
  shows "(c \<in> set (list_worker_mcp_connectors db1 v t) \<longleftrightarrow>
      (if v = w \<and> mc_id c = i then c \<in> set (mq_connectors db) \<and> mc_tenant c = t \<and> mc_active c \<and> mc_enabled c
       else c \<in> set (list_worker_mcp_connectors db v t))) \<and>
    (c \<in> set (list_worker_mcp_connectors db2 v t) \<longleftrightarrow> c \<in> set (list_worker_mcp_connectors db v t) \<and> \<not> (v = w \<and> mc_id c = i))"
proof -
  from assms(1) obtain q where g1: "mq_grants db1 = tbl_put mg_key (grant_row (mv_env mv) w i q) (mq_grants db)"
    and c1: "mq_connectors db1 = mq_connectors db"
    unfolding apply_grant_worker_mcp_connector_def Let_def assms(3,4) by (auto split: if_split_asm)
  from assms(2) have g2: "mq_grants db2 = revoke_where (mv_env mv) (\<lambda>g. mg_key g = (w, i)) (mq_grants db1)"
    and c2: "mq_connectors db2 = mq_connectors db1"
    unfolding apply_revoke_worker_mcp_connector_def Let_def assms(3,4) by (auto split: if_split_asm)
  have one: "c \<in> set (list_worker_mcp_connectors db1 v t) \<longleftrightarrow>
      (if v = w \<and> mc_id c = i then c \<in> set (mq_connectors db) \<and> mc_tenant c = t \<and> mc_active c \<and> mc_enabled c
       else c \<in> set (list_worker_mcp_connectors db v t))"
    unfolding list_worker_iff g1 granted_after_put c1 by auto
  have "(\<exists>g \<in> set (mq_grants db2). mg_key g = k \<and> mg_active g) \<longleftrightarrow> k \<noteq> (w, i) \<and> (\<exists>g \<in> set (mq_grants db). mg_key g = k \<and> mg_active g)" for k
  proof -
    have "(\<exists>g \<in> set (mq_grants db2). mg_key g = k \<and> mg_active g) \<longleftrightarrow> k \<noteq> (w, i) \<and> (\<exists>g \<in> set (mq_grants db1). mg_key g = k \<and> mg_active g)"
      unfolding g2 granted_after_revoke by auto
    then show ?thesis unfolding g1 granted_after_put by auto
  qed
  then have "c \<in> set (list_worker_mcp_connectors db2 v t) \<longleftrightarrow> c \<in> set (list_worker_mcp_connectors db v t) \<and> \<not> (v = w \<and> mc_id c = i)"
    unfolding list_worker_iff c1 c2 by auto
  with one show ?thesis by blast
qed

text \<open>
  Deactivating a connector under a tenant that does not own it changes no connector, yet revokes every grant on it:
  no worker of any tenant sees it any more.
\<close>

lemma deactivate_foreign_connector:
  assumes "apply_deactivate_mcp_connector mv p db = Inr db'" "i = opt_str p ''connector_id'' []"
    and "\<forall>c \<in> set (mq_connectors db). mc_id c = i \<longrightarrow> mc_tenant c \<noteq> gstr p ''tenant_id'' ''default''"
  shows "mq_connectors db' = mq_connectors db \<and> (\<forall>v t. \<forall>c \<in> set (list_worker_mcp_connectors db' v t). mc_id c \<noteq> i)"
proof -
  let ?P = "\<lambda>c. mc_id c = i \<and> mc_tenant c = gstr p ''tenant_id'' ''default''" and ?Q = "\<lambda>g. mg_connector g = i"
  from assms(1) obtain f where d: "mq_connectors db' = upd_where ?P f (mq_connectors db)" "mq_grants db' = revoke_where (mv_env mv) ?Q (mq_grants db)"
    unfolding apply_deactivate_mcp_connector_def Let_def assms(2) by (auto split: if_split_asm)
  have keep: "upd_where ?P f (mq_connectors db) = mq_connectors db" unfolding upd_where_def by (rule map_idI) (use assms(3) in auto)
  have "\<not> (\<exists>g \<in> set (mq_grants db'). mg_key g = (v, i) \<and> mg_active g)" for v
    unfolding d granted_after_revoke by (auto simp: mg_key_def)
  note none = this
  have "mc_id c \<noteq> i" if "c \<in> set (list_worker_mcp_connectors db' v t)" for v t c
    using that none unfolding list_worker_iff by blast
  with keep show ?thesis unfolding d(1) by blast
qed

subsection \<open>The default connectors\<close>

lemma strip_append_stripped: "strip p = p \<Longrightarrow> strip q = q \<Longrightarrow> p \<noteq> [] \<Longrightarrow> q \<noteq> [] \<Longrightarrow> strip (p @ q) = p @ q"
  using stripped_ends(1) [of p] stripped_ends(2) [of q] by (intro strip_ends) auto

lemma collect_new_invariant:
  assumes "\<And>x. Q (g x)"
  shows "(\<forall>k \<in> set out. Q k \<and> k \<noteq> []) \<Longrightarrow> k \<in> set (foldl (\<lambda>out item. let key = g item in
    if key \<noteq> [] \<and> P key \<and> key \<notin> set out then out @ [key] else out) out ids) \<Longrightarrow> Q k \<and> k \<noteq> []"
proof (induction ids arbitrary: out)
  case (Cons item ids)
  let ?out = "if g item \<noteq> [] \<and> P (g item) \<and> g item \<notin> set out then out @ [g item] else out"
  have "\<forall>k \<in> set ?out. Q k \<and> k \<noteq> []"
  proof
    fix k assume "k \<in> set ?out"
    then consider "k \<in> set out" | "k = g item" "g item \<noteq> []" by (cases "g item \<noteq> [] \<and> P (g item) \<and> g item \<notin> set out") auto
    then show "Q k \<and> k \<noteq> []" using Cons.prems(1) assms [of item] by cases auto
  qed
  moreover have "k \<in> set (foldl (\<lambda>out item. let key = g item in
      if key \<noteq> [] \<and> P key \<and> key \<notin> set out then out @ [key] else out) ?out ids)" using Cons.prems(2) by (simp add: Let_def)
  ultimately show ?case by (rule Cons.IH)
qed simp

lemma default_ids_canonical:
  assumes "k \<in> set (default_mcp_connector_preset_ids mv)"
  shows "lower (strip k) = k \<and> k \<noteq> []"
proof (cases "pget (mv_yaml mv) ''default_connectors'' PNone")
  case (PList ids)
  have Q: "lower (strip (lower (strip x))) = lower (strip x)" for x by (simp add: strip_lower)
  from assms have "k \<in> set (foldl (\<lambda>out item. let key = lower (strip (pystr (por item (PStr [])))) in
      if key \<noteq> [] \<and> map_of (parse_presets_yaml (mv_yaml mv)) key \<noteq> None \<and> key \<notin> set out then out @ [key] else out) [] ids)"
    unfolding default_mcp_connector_preset_ids_def PList pyval.case .
  from collect_new_invariant [of "\<lambda>k. lower (strip k) = k", OF Q _ this] show ?thesis by simp
qed (use assms in \<open>simp_all add: default_mcp_connector_preset_ids_def\<close>)

lemma default_id_stripped:
  assumes "lower (strip k) = k" "k \<noteq> []"
  shows "strip (default_mcp_connector_id k) = default_mcp_connector_id k"
proof -
  have k: "strip (resolve_preset_id k) = resolve_preset_id k \<and> resolve_preset_id k \<noteq> []"
  proof (cases "k = ''higgsfield''")
    case True
    show ?thesis unfolding True by code_simp
  next
    case False
    then show ?thesis using assms canonical_lower(1) [OF assms(1)] by (simp add: resolve_preset_id_def)
  qed
  have "strip ''mcp_'' = ''mcp_''" by code_simp
  from strip_append_stripped [OF this] k show ?thesis by (simp add: default_mcp_connector_id_def)
qed

definition default_request :: "string \<Rightarrow> string \<Rightarrow> string \<Rightarrow> payload" where
  "default_request tenant_id actor_email preset_id = [(''tenant_id'', PStr tenant_id), (''actor_email'', PStr actor_email),
     (''preset_id'', PStr preset_id), (''connector_id'', PStr (default_mcp_connector_id preset_id)), (''enabled'', PBool True)]"

lemma default_request_id:
  assumes "lower (strip k) = k" "k \<noteq> []"
  shows "opt_str (default_request t a k) ''connector_id'' [] = default_mcp_connector_id k"
  using default_id_stripped [OF assms] by (simp add: default_request_def opt_str_def gstr_def por_def default_mcp_connector_id_def)

lemma upsert_connector_iff:
  "apply_upsert_mcp_connector mv p db = Inr db1 \<longleftrightarrow>
     (\<exists>c. connector_row mv p = Inr c \<and> db1 = db\<lparr>mq_connectors := tbl_put mc_id c (mq_connectors db)\<rparr>)"
  by (auto simp: apply_upsert_mcp_connector_def)

text \<open>The bootstrap puts one row per default preset.\<close>

lemma bootstrap_rows:
  assumes "ensure_default_mcp_connectors mv t a db = Inr db'"
  shows "\<exists>rows. mapE (\<lambda>k. connector_row mv (default_request t a k)) (default_mcp_connector_preset_ids mv) = Inr rows \<and>
    db' = db\<lparr>mq_connectors := fold (tbl_put mc_id) rows (mq_connectors db)\<rparr>"
proof -
  have "\<exists>rows. mapE (\<lambda>k. connector_row mv (default_request t a k)) ks = Inr rows \<and> db' = db\<lparr>mq_connectors := fold (tbl_put mc_id) rows (mq_connectors db)\<rparr>"
    if "forE (\<lambda>k. apply_upsert_mcp_connector mv (default_request t a k)) ks db = Inr db'" for ks
    using that
  proof (induction ks arbitrary: db)
    case (Cons k ks)
    then obtain c where c: "connector_row mv (default_request t a k) = Inr c"
      "forE (\<lambda>k. apply_upsert_mcp_connector mv (default_request t a k)) ks (db\<lparr>mq_connectors := tbl_put mc_id c (mq_connectors db)\<rparr>) = Inr db'"
      by (auto simp: upsert_connector_iff)
    from Cons.IH [OF c(2)] c(1) show ?case by auto
  qed simp
  then show ?thesis using assms unfolding ensure_default_mcp_connectors_def default_request_def by blast
qed

lemma bootstrap_from_rows:
  assumes "mapE (\<lambda>k. connector_row mv (default_request t a k)) (default_mcp_connector_preset_ids mv) = Inr rows"
  shows "ensure_default_mcp_connectors mv t a db = Inr (db\<lparr>mq_connectors := fold (tbl_put mc_id) rows (mq_connectors db)\<rparr>)"
proof -
  have "forE (\<lambda>k. apply_upsert_mcp_connector mv (default_request t a k)) ks db = Inr (db\<lparr>mq_connectors := fold (tbl_put mc_id) rows (mq_connectors db)\<rparr>)"
    if "mapE (\<lambda>k. connector_row mv (default_request t a k)) ks = Inr rows" for ks
    using that
  proof (induction ks arbitrary: db rows)
    case (Cons k ks)
    then obtain c cs where c: "connector_row mv (default_request t a k) = Inr c" "rows = c # cs"
      "mapE (\<lambda>k. connector_row mv (default_request t a k)) ks = Inr cs" by auto
    from c(1) have "apply_upsert_mcp_connector mv (default_request t a k) db = Inr (db\<lparr>mq_connectors := tbl_put mc_id c (mq_connectors db)\<rparr>)"
      by (simp add: upsert_connector_iff)
    then show ?case using Cons.IH [OF c(3)] c(2) by simp
  qed simp
  then show ?thesis using assms unfolding ensure_default_mcp_connectors_def default_request_def by blast
qed

text \<open>After putting rows, the row of each of their keys is the last one put; putting them again changes nothing.\<close>

lemma put_mem: "x \<in> set (tbl_put key r t) \<Longrightarrow> if key x = key r then x = r else x \<in> set t"
  by (auto simp: tbl_put_def ins_or_update_def has_key_iff dest!: mem_upd_where split: if_splits)

lemma fold_put_final:
  assumes "x \<in> set (fold (tbl_put key) rs t)" "key x \<in> key ` set rs"
  shows "x \<in> set rs \<and> List.find (\<lambda>r. key r = key x) (rev rs) = Some x"
  using assms
proof (induction rs rule: rev_induct)
  case (snoc r rs)
  show ?case
  proof (cases "key x = key r")
    case True
    then have "x = r" using snoc.prems(1) put_mem [of x key r] by simp
    then show ?thesis by simp
  next
    case False
    then have "x \<in> set (fold (tbl_put key) rs t)" using snoc.prems(1) put_mem [of x key r] by simp
    then show ?thesis using snoc.IH snoc.prems(2) False by auto
  qed
qed simp

lemma fold_put_keys: "key ` set (fold (tbl_put key) rs t) = key ` set rs \<union> key ` set t"
proof (induction rs arbitrary: t)
  case (Cons r rs)
  have "key ` set (tbl_put key r t) = insert (key r) (key ` set t)"
    by (auto simp: tbl_put_def ins_or_update_def set_upd_where has_key_iff image_iff)
  then show ?case using Cons by simp
qed simp

lemma fold_put_present:
  assumes "\<forall>r \<in> set rs. has_key key (key r) t"
  shows "fold (tbl_put key) rs t = map (\<lambda>x. case List.find (\<lambda>r. key r = key x) (rev rs) of None \<Rightarrow> x | Some r \<Rightarrow> r) t"
  using assms
proof (induction rs rule: rev_induct)
  case (snoc r rs)
  let ?f = "\<lambda>rs x. case List.find (\<lambda>r. key r = key x) (rev rs) of None \<Rightarrow> x | Some r \<Rightarrow> r"
  have k: "key (?f rs x) = key x" for x by (auto split: option.split simp: find_Some_iff)
  have h: "has_key key (key r) (map (?f rs) t)" using snoc.prems k by (auto simp: has_key_iff)
  have "fold (tbl_put key) (rs @ [r]) t = tbl_put key r (map (?f rs) t)" using snoc by simp
  also have "\<dots> = map (\<lambda>x. if key (?f rs x) = key r then r else ?f rs x) t"
    unfolding tbl_put_def ins_or_update_def if_P [OF h] upd_where_def by (simp add: comp_def)
  also have "\<dots> = map (?f (rs @ [r])) t" unfolding k by (rule map_cong [OF refl]) auto
  finally show ?case .
qed simp

lemma fold_put_idem: "fold (tbl_put key) rs (fold (tbl_put key) rs t) = fold (tbl_put key) rs t"
proof -
  let ?u = "fold (tbl_put key) rs t"
  have "key r \<in> key ` set ?u" if "r \<in> set rs" for r unfolding fold_put_keys using that by blast
  then have "\<forall>r \<in> set rs. has_key key (key r) ?u" by (force simp: has_key_iff)
  then have "fold (tbl_put key) rs ?u = map (\<lambda>x. case List.find (\<lambda>r. key r = key x) (rev rs) of None \<Rightarrow> x | Some r \<Rightarrow> r) ?u"
    by (rule fold_put_present)
  also have "\<dots> = ?u"
  proof (rule map_idI)
    fix x assume x: "x \<in> set ?u"
    show "(case List.find (\<lambda>r. key r = key x) (rev rs) of None \<Rightarrow> x | Some r \<Rightarrow> r) = x"
    proof (cases "List.find (\<lambda>r. key r = key x) (rev rs)")
      case (Some r)
      then have "key x \<in> key ` set rs" by (auto simp: find_Some_iff) (metis imageI nth_mem set_rev length_rev)
      from fold_put_final [OF x this] show ?thesis by simp
    qed simp
  qed
  finally show ?thesis .
qed

lemma mapE_all: "mapE f xs = Inr ys \<Longrightarrow> y \<in> set ys \<Longrightarrow> \<exists>x \<in> set xs. f x = Inr y"
  by (induction xs arbitrary: ys) auto

lemma mapE_each: "mapE f xs = Inr ys \<Longrightarrow> x \<in> set xs \<Longrightarrow> \<exists>y \<in> set ys. f x = Inr y"
  by (induction xs arbitrary: ys) auto

lemma default_row:
  assumes "connector_row mv (default_request t a k) = Inr c" "lower (strip k) = k" "k \<noteq> []" "t \<noteq> []"
  shows "mc_id c = default_mcp_connector_id k" "mc_tenant c = t"
proof -
  from connector_row_fields [OF assms(1)] obtain q where q: "mc_id c = request_connector_id (mv_env mv) (default_request t a k) q"
    "mc_tenant c = gstr (default_request t a k) ''tenant_id'' ''default''" by metis
  show "mc_id c = default_mcp_connector_id k" unfolding q(1) request_connector_id_def default_request_id [OF assms(2,3)]
    by (simp add: default_mcp_connector_id_def)
  show "mc_tenant c = t" unfolding q(2) using assms(4) by (simp add: default_request_def gstr_def por_def)
qed

text \<open>
  Bootstrapping the default connectors a second time changes nothing: the first run already left the state that
  every later run produces.
\<close>

lemma bootstrap_idempotent:
  assumes "ensure_default_mcp_connectors mv t a db = Inr db'"
  shows "ensure_default_mcp_connectors mv t a db' = Inr db'"
proof -
  from bootstrap_rows [OF assms] obtain rows where
    rows: "mapE (\<lambda>k. connector_row mv (default_request t a k)) (default_mcp_connector_preset_ids mv) = Inr rows"
    and d: "db' = db\<lparr>mq_connectors := fold (tbl_put mc_id) rows (mq_connectors db)\<rparr>" by blast
  from bootstrap_from_rows [OF rows, of db'] show ?thesis unfolding d by (simp add: fold_put_idem)
qed

text \<open>
  C33. The identifiers of the default connectors do not depend on the tenant: bootstrapping them for one tenant takes
  the rows of every other tenant over, which then has none of them.
\<close>

lemma bootstrap_takes_over:
  assumes "ensure_default_mcp_connectors mv t a db = Inr db'" "t \<noteq> []" "u \<noteq> t" "k \<in> set (default_mcp_connector_preset_ids mv)"
  shows "(\<exists>c \<in> set (mq_connectors db'). mc_id c = default_mcp_connector_id k \<and> mc_tenant c = t) \<and>
    get_mcp_connector_runtime db' (default_mcp_connector_id k) u = None"
proof -
  let ?ids = "default_mcp_connector_preset_ids mv"
  from bootstrap_rows [OF assms(1)] obtain rows where
    rows: "mapE (\<lambda>k. connector_row mv (default_request t a k)) ?ids = Inr rows"
    and d: "mq_connectors db' = fold (tbl_put mc_id) rows (mq_connectors db)" by auto
  have row: "mc_tenant r = t" if "r \<in> set rows" for r
    using mapE_all [OF rows that] default_row(2) default_ids_canonical assms(2) by blast
  from mapE_each [OF rows assms(4)] obtain r where r: "r \<in> set rows" "mc_id r = default_mcp_connector_id k"
    using default_row(1) default_ids_canonical assms(2,4) by blast
  then have key: "default_mcp_connector_id k \<in> mc_id ` set rows" by force
  have own: "mc_tenant c = t" if "c \<in> set (mq_connectors db')" "mc_id c = default_mcp_connector_id k" for c
    using fold_put_final [of c mc_id rows] that key row unfolding d by simp
  have "default_mcp_connector_id k \<in> mc_id ` set (mq_connectors db')" unfolding d fold_put_keys using key by blast
  moreover have "get_mcp_connector_runtime db' (default_mcp_connector_id k) u = None"
    unfolding get_mcp_connector_runtime_def sel_one_None live_connector_def using own assms(3) by blast
  ultimately show ?thesis using own by force
qed

subsection \<open>Presets are complete\<close>

lemma deep_merge_keeps: "map_of out k \<noteq> None \<Longrightarrow> map_of (deep_merge out overlay) k \<noteq> None"
proof (induction out overlay rule: deep_merge.induct)
  case (2 out key val rest)
  show ?case
  proof (cases "key = ''profile''")
    case False
    then show ?thesis using 2(3) [OF False] 2(4) by (simp add: map_of_pset)
  qed (use 2 in simp)
qed simp

lemma preset_body_complete:
  assumes "k \<in> fst ` set preset_defaults"
  shows "map_of (resolve_preset_body name raw profiles defaults) k \<noteq> None"
proof -
  have "k \<noteq> ''profile''" "map_of preset_defaults k \<noteq> None" using assms by (auto simp: preset_defaults_def)
  then show ?thesis using deep_merge_keeps
    by (simp add: resolve_preset_body_def Let_def map_of_pset delete_conv' del: not_None_eq)
qed

lemma preset_body_named: "strip name \<noteq> [] \<Longrightarrow> strip (gstr (resolve_preset_body name raw profiles defaults) ''display_name'' []) \<noteq> []"
proof -
  have "gstr (pset ''display_name'' (PStr name) m) ''display_name'' [] = name" if "strip name \<noteq> []" for m
    using that by (cases name) (simp_all add: gstr_def por_def)
  then show "strip name \<noteq> [] \<Longrightarrow> ?thesis" unfolding resolve_preset_body_def Let_def by (simp split: if_split)
qed

text \<open>
  C37. Whatever the file of presets holds, every preset read from it has an identifier in lower case without blanks
  around it, a display name, and a value for each of the fields the defaults name.
\<close>

lemma preset_well_formed:
  assumes "map_of (parse_presets_yaml raw) name = Some body"
  shows "lower (strip name) = name \<and> name \<noteq> [] \<and> strip (gstr body ''display_name'' []) \<noteq> [] \<and>
    (\<forall>k \<in> fst ` set preset_defaults. map_of body k \<noteq> None)"
proof -
  define entries where "entries = filter (\<lambda>(k, _). k \<noteq> []) (map (\<lambda>(k, b). (lower (strip k), b)) (dict_entries (pget raw ''presets'' PNone)))"
  obtain profiles defaults where p: "parse_presets_yaml raw =
      fold (\<lambda>(k, b) out. AList.update k (resolve_preset_body k b profiles defaults) out) entries []"
    unfolding parse_presets_yaml_def Let_def entries_def by blast
  have "\<exists>b. (name, b) \<in> set es \<and> body = resolve_preset_body name b profiles defaults"
    if "map_of (fold (\<lambda>(k, b) out. AList.update k (resolve_preset_body k b profiles defaults) out) es []) name = Some body" for es
    using that by (induction es rule: rev_induct) (auto simp: update_conv' split: if_split_asm)
  from this [OF assms [unfolded p]] obtain b where b: "(name, b) \<in> set entries" "body = resolve_preset_body name b profiles defaults" by blast
  then have n: "lower (strip name) = name" "name \<noteq> []" by (auto simp: entries_def strip_lower)
  then have "strip name \<noteq> []" using canonical_lower(1) [OF n(1)] by simp
  with n preset_body_complete preset_body_named show ?thesis unfolding b(2) by blast
qed

subsection \<open>Concrete runs\<close>

definition mcp_env0 :: mcp_env where
  "mcp_env0 = \<lparr>mv_env = env0, mv_yaml = [(''presets'', PDict [(''Docs'', PDict [(''transport'', PStr ''stdio''), (''auth_kind'', PStr ''bearer'')])]),
     (''default_connectors'', PList [PStr ''docs''])], mv_ipv6 = (\<lambda>_. False)\<rparr>"

definition demo_connector :: "string \<Rightarrow> string option \<Rightarrow> mcp_connector" where
  "demo_connector i key = \<lparr>mc_id = i, mc_tenant = ''t'', mc_owner = ''system'', mc_name = ''D'', mc_transport = ''stdio'', mc_endpoint = None,
     mc_command = None, mc_args = [], mc_envs = [], mc_auth_kind = ''bearer'', mc_secret_key = key, mc_allow = [], mc_deny = [],
     mc_read_only = True, mc_egress = [], mc_preset = None, mc_enabled = True, mc_active = True, mc_meta = [], mc_updated_at = 1\<rparr>"

definition mcp_db0 :: mcp_db where
  "mcp_db0 = \<lparr>mq_connectors = [demo_connector ''m'' (Some ''m.bearer''), demo_connector ''n'' None], mq_grants = [],
     mq_runtime = \<lparr>rd_settings = [], rd_config = None, rd_audit = None, rd_telegram = None, rd_api = None\<rparr>, mq_skills = []\<rparr>"

lemma demo_connectors:
  "mq_connectors mcp_db0 = [demo_connector ''m'' (Some ''m.bearer''), demo_connector ''n'' None]"
  "mq_grants mcp_db0 = []" "rd_settings (mq_runtime mcp_db0) = []"
  "mc_id (demo_connector i k) = i" "mc_tenant (demo_connector i k) = ''t''" "mc_secret_key (demo_connector i k) = k"
  "mc_auth_kind (demo_connector i k) = ''bearer''" "mc_transport (demo_connector i k) = ''stdio''"
  "mc_active (demo_connector i k)" "mc_enabled (demo_connector i k)"
  by (simp_all add: mcp_db0_def demo_connector_def)

lemma mcp_invariant_witness:
  "\<exists>db'. apply_upsert_mcp_connector mcp_env0 [(''preset_id'', PStr ''docs'')] mcp_db0 = Inr db' \<and> mcp_ok mcp_env0 db'"
proof -
  let ?q = "apply_upsert_mcp_connector mcp_env0 [(''preset_id'', PStr ''docs'')] mcp_db0"
  have "isl ?q = False" by code_simp
  then obtain db' where q: "?q = Inr db'" by (rule isl_InrE)
  have "mcp_ok mcp_env0 mcp_db0" by (simp add: mcp_ok_def connector_ok_def demo_connectors uniq_def)
  from mcp_invariant [of apply_upsert_mcp_connector, OF _ this q] q show ?thesis by (auto simp: mcp_handlers_def)
qed

definition oauth_env0 :: oauth_env where
  "oauth_env0 = \<lparr>oe_now = 5, oe_cache = (\<lambda>_. None), oe_locked_now = 5, oe_locked_cache = (\<lambda>_. None),
     oe_token_rejected = (\<lambda>_. False), oe_refresh_connector = (\<lambda>_ _ _ _ _. [])\<rparr>"


lemma null_key_loses_bearer_witness:
  "\<exists>db'. apply_set_mcp_connector_auth mcp_env0 (auth_command ''n'' ''t'' ''ana'' ''tok'') mcp_db0 = Inr db' \<and>
     (\<exists>c' \<in> set (mq_connectors db'). live_connector ''n'' ''t'' c' \<and> resolve_connector_bearer_token mcp_env0 settings_env0 oauth_env0 db' c' = Inr [])"
proof -
  let ?q = "apply_set_mcp_connector_auth mcp_env0 (auth_command ''n'' ''t'' ''ana'' ''tok'') mcp_db0"
  have "isl ?q = False" by code_simp
  then obtain db' where q: "?q = Inr db'" by (rule isl_InrE)
  have s: "strip ''n'' = ''n''" "strip ''tok'' = ''tok''" "lower (strip ''ana'') = ''ana''" by code_simp+
  have m: "demo_connector ''n'' None \<in> set (mq_connectors mcp_db0)" "live_connector ''n'' ''t'' (demo_connector ''n'' None)"
    by (simp_all add: demo_connectors live_connector_def)
  have n: "uniq mc_id (mq_connectors mcp_db0)" by (simp add: demo_connectors uniq_def)
  from null_key_loses_bearer [OF q _ s(1,2) _ s(3) _ n _ _ m, of settings_env0 oauth_env0] q show ?thesis by (auto simp: demo_connectors)
qed

definition demo_grant :: payload where
  "demo_grant = [(''connector_id'', PStr ''m''), (''worker_uid'', PStr ''w'')]"

lemma grant_visibility_witness:
  "\<exists>db1 db2. apply_grant_worker_mcp_connector mcp_env0 demo_grant mcp_db0 = Inr db1 \<and> apply_revoke_worker_mcp_connector mcp_env0 demo_grant db1 = Inr db2 \<and>
     demo_connector ''m'' (Some ''m.bearer'') \<in> set (list_worker_mcp_connectors db1 ''w'' ''t'') \<and>
     demo_connector ''m'' (Some ''m.bearer'') \<notin> set (list_worker_mcp_connectors db2 ''w'' ''t'')"
proof -
  let ?q = "apply_grant_worker_mcp_connector mcp_env0 demo_grant mcp_db0"
  have f: "opt_str demo_grant ''worker_uid'' [] = ''w''" "opt_str demo_grant ''connector_id'' [] = ''m''" by code_simp+
  have "isl ?q = False" by code_simp
  then obtain db1 where q: "?q = Inr db1" by (rule isl_InrE)
  obtain db2 where r: "apply_revoke_worker_mcp_connector mcp_env0 demo_grant db1 = Inr db2"
    by (simp add: apply_revoke_worker_mcp_connector_def f)
  show ?thesis using grant_visibility [OF q r refl refl, of "demo_connector ''m'' (Some ''m.bearer'')" "''w''" "''t''"] q r
    by (simp add: f demo_connectors)
qed

lemma deactivate_foreign_connector_witness:
  "\<exists>db'. apply_deactivate_mcp_connector mcp_env0 [(''connector_id'', PStr ''m''), (''tenant_id'', PStr ''u'')] mcp_db0 = Inr db' \<and>
     mq_connectors db' = mq_connectors mcp_db0"
proof -
  let ?p = "[(''connector_id'', PStr ''m''), (''tenant_id'', PStr ''u'')]"
  let ?q = "apply_deactivate_mcp_connector mcp_env0 ?p mcp_db0"
  have "isl ?q = False" by code_simp
  then obtain db' where q: "?q = Inr db'" by (rule isl_InrE)
  have "gstr ?p ''tenant_id'' ''default'' = ''u''" by code_simp
  then have "\<forall>c \<in> set (mq_connectors mcp_db0). mc_id c = opt_str ?p ''connector_id'' [] \<longrightarrow> mc_tenant c \<noteq> gstr ?p ''tenant_id'' ''default''"
    by (simp add: demo_connectors)
  from deactivate_foreign_connector [OF q refl this] q show ?thesis by blast
qed

lemma demo_bootstrap:
  obtains db' where "ensure_default_mcp_connectors mcp_env0 ''t'' ''ana'' mcp_db0 = Inr db'"
proof -
  have "isl (ensure_default_mcp_connectors mcp_env0 ''t'' ''ana'' mcp_db0) = False" by code_simp
  then show thesis by (rule isl_InrE) (rule that)
qed

lemma bootstrap_idempotent_witness:
  "\<exists>db'. ensure_default_mcp_connectors mcp_env0 ''t'' ''ana'' mcp_db0 = Inr db' \<and> ensure_default_mcp_connectors mcp_env0 ''t'' ''ana'' db' = Inr db'"
  by (rule demo_bootstrap) (use bootstrap_idempotent in blast)

lemma bootstrap_takes_over_witness:
  "\<exists>db'. ensure_default_mcp_connectors mcp_env0 ''t'' ''ana'' mcp_db0 = Inr db' \<and>
     get_mcp_connector_runtime db' (default_mcp_connector_id ''docs'') ''u'' = None"
proof (rule demo_bootstrap)
  fix db' assume q: "ensure_default_mcp_connectors mcp_env0 ''t'' ''ana'' mcp_db0 = Inr db'"
  have "''docs'' \<in> set (default_mcp_connector_preset_ids mcp_env0)" by code_simp
  from bootstrap_takes_over [OF q _ _ this, of "''u''"] q show ?thesis by simp
qed

lemma preset_well_formed_witness:
  "\<exists>body. map_of (parse_presets_yaml (mv_yaml mcp_env0)) ''docs'' = Some body \<and> strip (gstr body ''display_name'' []) \<noteq> []"
proof -
  have "map_of (parse_presets_yaml (mv_yaml mcp_env0)) ''docs'' \<noteq> None" by code_simp
  then obtain body where b: "map_of (parse_presets_yaml (mv_yaml mcp_env0)) ''docs'' = Some body" by blast
  from preset_well_formed [OF b] b show ?thesis by blast
qed

end
