(* ===== verification/WorkerStore.thy ===== *)
theory WorkerStore
  imports McpConnectors PolicyResolver Login
begin

text \<open>
  The catalog of workers (\<open>packages/shared/src/duckclaw/admin_worker_catalog.py\<close>): profiles of the owners, identity
  of workers, versions of their files, contexts, catalog skills and the prompts derived from them
  (\<open>catalog_prompt_sync.py\<close>). The handlers over it are in \<open>WorkerCatalog\<close>.

  A JSON column is the value whose text it holds, \<open>None\<close> when the text was cut and no longer decodes; the order of the
  keys of a dictionary is left out. Statements are built with \<open>_sql_lit\<close>, which may cut a literal open: what such a
  statement does, and what such a query yields, are the fields \<open>we_odd_...\<close> of the environment.
\<close>

subsection \<open>State\<close>

record catalog_worker =
  cw_uid :: string
  cw_tenant :: string
  cw_owner :: string
  cw_worker_id :: string
  cw_name :: string
  cw_kind :: string
  cw_template :: string
  cw_visibility :: string
  cw_a2a :: bool
  cw_status :: string
  cw_active :: bool
  cw_updated_at :: int

record worker_version =
  wv_uid :: string
  wv_version :: int
  wv_manifest :: "pyval option"
  wv_files :: "pyval option"
  wv_by :: string
  wv_note :: string

record worker_context =
  cx_id :: string
  cx_uid :: string
  cx_title :: string
  cx_content :: string
  cx_order :: int
  cx_active :: bool
  cx_created_at :: int
  cx_updated_at :: int

record catalog_skill =
  sk_id :: string
  sk_name :: string
  sk_description :: string
  sk_type :: string
  sk_ref :: string
  sk_owner :: string
  sk_tenant :: string
  sk_visibility :: string
  sk_active :: bool

record bound_skill =
  bs_uid :: string
  bs_skill :: string
  bs_enabled :: bool
  bs_config :: "pyval option"
  bs_order :: int

record capability =
  cp_id :: string
  cp_name :: string
  cp_kind :: string
  cp_provider :: string
  cp_description :: string
  cp_schema :: pyval
  cp_risk :: string
  cp_secret :: bool
  cp_network :: bool
  cp_active :: bool

record worker_capability =
  gc_uid :: string
  gc_capability :: string
  gc_permission :: string
  gc_config :: pyval
  gc_policy :: pyval
  gc_enabled :: bool

record user_agent =
  ua_tenant :: string
  ua_owner :: string
  ua_worker :: string
  ua_name :: string
  ua_template :: string
  ua_manifest :: string
  ua_active :: bool

record conversation =
  cv_id :: string
  cv_tenant :: string
  cv_worker :: string
  cv_last :: string
  cv_preferred :: string

text \<open>\<open>wc_assignments\<close>: worker, e-mail and permission; \<open>wc_members\<close>: projects and their workers.\<close>

record catalog =
  wc_profiles :: "profile list"
  wc_workers :: "catalog_worker list"
  wc_versions :: "worker_version list"
  wc_contexts :: "worker_context list"
  wc_skills :: "catalog_skill list"
  wc_bound :: "bound_skill list"
  wc_capabilities :: "capability list"
  wc_granted :: "worker_capability list"
  wc_agents :: "user_agent list"
  wc_assignments :: "(string \<times> string \<times> string) list"
  wc_members :: "(string \<times> string) list"
  wc_policies :: "policy_row list"
  wc_conversations :: "conversation list"

definition cw_place :: "catalog_worker \<Rightarrow> string \<times> string" where
  "cw_place w = (cw_tenant w, cw_worker_id w)"

definition wv_key :: "worker_version \<Rightarrow> string \<times> int" where
  "wv_key v = (wv_uid v, wv_version v)"

definition bs_key :: "bound_skill \<Rightarrow> string \<times> string" where
  "bs_key b = (bs_uid b, bs_skill b)"

definition gc_key :: "worker_capability \<Rightarrow> string \<times> string" where
  "gc_key g = (gc_uid g, gc_capability g)"

definition ua_key :: "user_agent \<Rightarrow> string \<times> string" where
  "ua_key a = (ua_tenant a, ua_worker a)"

text \<open>
  \<open>we_yaml\<close> is \<open>yaml.safe_load\<close> (\<open>None\<close>: it raises), \<open>we_pack\<close> the decoded framework tool pack (\<open>None\<close>: it does not
  load). Every identifier a handler draws has an index of its own in \<open>uuid_hex\<close>.
\<close>

record worker_env =
  we_env :: env
  we_getenv :: "string \<Rightarrow> string option"
  we_yaml :: "string \<Rightarrow> pyval option"
  we_pack :: "payload option"
  we_odd_profile :: "string list \<Rightarrow> catalog \<Rightarrow> profile option"
  we_odd_workers :: "string list \<Rightarrow> catalog \<Rightarrow> catalog_worker list"
  we_odd_worker :: "string list \<Rightarrow> catalog \<Rightarrow> catalog_worker option"
  we_odd_version :: "string list \<Rightarrow> catalog \<Rightarrow> worker_version option"
  we_odd_context :: "string list \<Rightarrow> catalog \<Rightarrow> worker_context option"
  we_odd_skills :: "string list \<Rightarrow> catalog \<Rightarrow> catalog_skill list"
  we_odd_bound :: "string list \<Rightarrow> catalog \<Rightarrow> bound_skill list"
  we_odd_write :: "string list \<Rightarrow> catalog \<Rightarrow> py_error + catalog"

text \<open>A statement built from texts with their limits: \<open>k\<close> gets the values DuckDB reads.\<close>

definition with_lits :: "(string \<times> nat) list \<Rightarrow> (string list \<Rightarrow> 'a) \<Rightarrow> (string list \<Rightarrow> 'a) \<Rightarrow> 'a" where
  "with_lits vs other k = (let ls = map (\<lambda>(v, n). sql_lit v n) vs in case read_lits ls of Some xs \<Rightarrow> k xs | None \<Rightarrow> other ls)"

subsection \<open>Identifiers\<close>

definition id_char :: "char \<Rightarrow> bool" where
  "id_char c \<longleftrightarrow> is_alpha_ascii c \<or> is_digit c \<or> c = CHR ''_'' \<or> c = CHR ''-''"

text \<open>\<open>_WORKER_ID_RE.sub("-", s)\<close>; the flag says that the current run of other characters has its dash.\<close>

fun id_runs :: "bool \<Rightarrow> string \<Rightarrow> string" where
  "id_runs dashed [] = []"
| "id_runs dashed (c # s) = (if id_char c then c # id_runs False s
     else if dashed then id_runs True s else CHR ''-'' # id_runs True s)"

definition sanitize_catalog_worker_id :: "string \<Rightarrow> py_error + string" where
  "sanitize_catalog_worker_id worker_id = (let wid = lower (strip_chars ''-_'' (id_runs False (strip worker_id)))
     in if wid = [] then Inl (ValueError ''worker_id requerido'') else Inr (take 64 wid))"

definition sanitize_worker_id :: "string \<Rightarrow> py_error + string" where
  "sanitize_worker_id worker_id = (let wid = filter id_char (strip worker_id)
     in if wid = [] then Inl (ValueError ''worker_id requerido'') else Inr (take 64 wid))"

definition catalog_worker_id_variants :: "string \<Rightarrow> py_error + string list" where
  "catalog_worker_id_variants worker_id = bindE (sanitize_catalog_worker_id worker_id) (\<lambda>b.
     Inr (foldl (\<lambda>out c. if c \<noteq> [] \<and> c \<notin> set out then out @ [c] else out) []
       [b, replace_char (CHR ''_'') ''-'' b, replace_char (CHR ''-'') ''_'' b]))"

subsection \<open>Profiles\<close>

definition get_profile_by_email :: "worker_env \<Rightarrow> catalog \<Rightarrow> string \<Rightarrow> profile option" where
  "get_profile_by_email we db email = with_lits [(normalize_email email, 256)] (\<lambda>ls. we_odd_profile we ls db)
     (\<lambda>vs. sel_one (\<lambda>r. pf_email r = vs ! 0) (wc_profiles db))"

text \<open>\<open>ensure_profile_for_user\<close> of a connection that writes.\<close>

definition ensure_profile :: "worker_env \<Rightarrow> string \<Rightarrow> catalog \<Rightarrow> py_error + profile \<times> catalog" where
  "ensure_profile we email db = (let em = normalize_email email in
     if em = [] then Inl (ValueError ''email requerido'')
     else case get_profile_by_email we db em of
       Some p \<Rightarrow> Inr (p, db)
     | None \<Rightarrow> bindE (with_lits [(em, 256), (tenant_id_for_email (sha256_hex (we_env we)) em, 128)] (\<lambda>ls. we_odd_write we ls db)
         (\<lambda>vs. let row = \<lparr>pf_email = vs ! 0, pf_tenant = vs ! 1, pf_telegram = [], pf_channels = ''{}'', pf_worker = ''default''\<rparr> in
           if has_key pf_tenant (pf_tenant row) (wc_profiles db) then Inl (ConstraintError ''Duplicate key'')
           else bindE (ins_row pf_email row (wc_profiles db)) (\<lambda>rows. Inr (db\<lparr>wc_profiles := rows\<rparr>)))) (\<lambda>db.
         case get_profile_by_email we db em of
           None \<Rightarrow> Inl (RuntimeError ''profile insert failed'')
         | Some p \<Rightarrow> Inr (p, db)))"

subsection \<open>Workers\<close>

definition get_worker_by_uid :: "worker_env \<Rightarrow> catalog \<Rightarrow> string \<Rightarrow> catalog_worker option" where
  "get_worker_by_uid we db uid = with_lits [(uid, 64)] (\<lambda>ls. we_odd_worker we ls db)
     (\<lambda>vs. sel_one (\<lambda>w. cw_uid w = vs ! 0) (wc_workers db))"

text \<open>The first row any of the spellings finds, in their order.\<close>

fun first_found :: "('a \<Rightarrow> 'b option) \<Rightarrow> 'a list \<Rightarrow> 'b option" where
  "first_found f [] = None"
| "first_found f (x # xs) = (case f x of Some y \<Rightarrow> Some y | None \<Rightarrow> first_found f xs)"

definition get_worker_by_tenant_worker_id :: "worker_env \<Rightarrow> catalog \<Rightarrow> string \<Rightarrow> string \<Rightarrow> py_error + catalog_worker option" where
  "get_worker_by_tenant_worker_id we db tenant_id worker_id = bindE (catalog_worker_id_variants worker_id) (\<lambda>ids.
     Inr (first_found (\<lambda>wid. with_lits [(tenant_id, 128), (wid, 64)] (\<lambda>ls. we_odd_worker we ls db)
       (\<lambda>vs. sel_one (\<lambda>w. cw_tenant w = vs ! 0 \<and> cw_worker_id w = vs ! 1) (wc_workers db))) ids))"

text \<open>A worker of any tenant, \<open>default\<close> first; only to load a manifest.\<close>

definition tenant_order :: "catalog_worker \<Rightarrow> (nat \<times> string) \<times> string" where
  "tenant_order w = ((if cw_tenant w = ''default'' then 0 else 1, cw_tenant w), cw_uid w)"

definition worker_before :: "catalog_worker \<Rightarrow> catalog_worker \<Rightarrow> bool" where
  "worker_before v w \<longleftrightarrow> (let (a, t) = fst (tenant_order v); (b, u) = fst (tenant_order w) in
     a < b \<or> a = b \<and> (t < u \<or> t = u \<and> snd (tenant_order v) \<le> snd (tenant_order w)))"

fun first_in_order :: "catalog_worker list \<Rightarrow> catalog_worker option" where
  "first_in_order [] = None"
| "first_in_order (w # ws) = (case first_in_order ws of None \<Rightarrow> Some w | Some v \<Rightarrow> Some (if worker_before w v then w else v))"

definition get_active_worker_by_worker_id :: "worker_env \<Rightarrow> catalog \<Rightarrow> string \<Rightarrow> py_error + catalog_worker option" where
  "get_active_worker_by_worker_id we db worker_id = bindE (catalog_worker_id_variants worker_id) (\<lambda>ids.
     Inr (first_found (\<lambda>wid. with_lits [(wid, 64)] (\<lambda>ls. we_odd_worker we ls db)
       (\<lambda>vs. first_in_order (sel_all (\<lambda>w. cw_active w \<and> cw_worker_id w = vs ! 0) (wc_workers db)))) ids))"

text \<open>\<open>INSERT\<close>: the primary key and the unique pair of tenant and identifier.\<close>

definition ins_worker :: "catalog_worker \<Rightarrow> catalog \<Rightarrow> py_error + catalog" where
  "ins_worker w db = (if has_key cw_place (cw_place w) (wc_workers db) then Inl (ConstraintError ''Duplicate key'')
     else bindE (ins_row cw_uid w (wc_workers db)) (\<lambda>rows. Inr (db\<lparr>wc_workers := rows\<rparr>)))"

definition upd_worker :: "worker_env \<Rightarrow> string \<Rightarrow> (catalog_worker \<Rightarrow> catalog_worker) \<Rightarrow> catalog \<Rightarrow> py_error + catalog" where
  "upd_worker we uid f db = with_lits [(uid, 64)] (\<lambda>ls. we_odd_write we ls db)
     (\<lambda>vs. Inr (db\<lparr>wc_workers := upd_where (\<lambda>w. cw_uid w = vs ! 0) f (wc_workers db)\<rparr>))"

definition create_worker ::
  "worker_env \<Rightarrow> string \<Rightarrow> string \<Rightarrow> string \<Rightarrow> string \<Rightarrow> string \<Rightarrow> string \<Rightarrow> catalog \<Rightarrow> py_error + catalog_worker \<times> catalog" where
  "create_worker we owner_email worker_id display_name source_kind source_template_id visibility db =
     bindE (ensure_profile we owner_email db) (\<lambda>(profile, db).
     bindE (sanitize_catalog_worker_id worker_id) (\<lambda>wid.
     let uid = ''wrk_'' @ uuid_hex (we_env we) 0 in
     if with_lits [(pf_tenant profile, 128), (wid, 64)] (\<lambda>ls. we_odd_worker we ls db)
       (\<lambda>vs. sel_one (\<lambda>w. cw_tenant w = vs ! 0 \<and> cw_worker_id w = vs ! 1) (wc_workers db)) \<noteq> None
     then Inl (ValueError (''worker_id ya existe para el tenant: '' @ wid))
     else bindE (with_lits [(uid, 64), (pf_tenant profile, 128), (pf_email profile, 256), (wid, 64),
           (strip (str_or display_name wid), 256), (source_kind, 32), (str_or (strip (str_or source_template_id ''default'')) ''default'', 64),
           (visibility, 32)] (\<lambda>ls. we_odd_write we ls db)
         (\<lambda>vs. ins_worker \<lparr>cw_uid = vs ! 0, cw_tenant = vs ! 1, cw_owner = vs ! 2, cw_worker_id = vs ! 3, cw_name = vs ! 4,
           cw_kind = vs ! 5, cw_template = vs ! 6, cw_visibility = vs ! 7, cw_a2a = False, cw_status = ''active'', cw_active = True,
           cw_updated_at = now (we_env we)\<rparr> db)) (\<lambda>db.
       case get_worker_by_uid we db uid of None \<Rightarrow> Inl (RuntimeError ''worker insert failed'') | Some w \<Rightarrow> Inr (w, db))))"

text \<open>The owner's worker: the guard of the handlers that change a catalog worker.\<close>

definition owned_worker :: "worker_env \<Rightarrow> string \<Rightarrow> string \<Rightarrow> catalog \<Rightarrow> py_error + catalog_worker option \<times> profile \<times> catalog" where
  "owned_worker we actor worker_id db = bindE (ensure_profile we actor db) (\<lambda>(profile, db).
     bindE (sanitize_catalog_worker_id worker_id) (\<lambda>wid.
     bindE (get_worker_by_tenant_worker_id we db (pf_tenant profile) wid) (\<lambda>found.
     Inr (case found of Some w \<Rightarrow> if cw_owner w = pf_email profile then Some w else None | None \<Rightarrow> None, profile, db))))"

definition get_visible_worker_for_actor :: "worker_env \<Rightarrow> string \<Rightarrow> string \<Rightarrow> catalog \<Rightarrow> py_error + catalog_worker option \<times> catalog" where
  "get_visible_worker_for_actor we actor worker_id db = (if CHR ''@'' \<notin> set (lower (strip actor)) then Inr (None, db)
     else bindE (owned_worker we (lower (strip actor)) worker_id db) (\<lambda>(w, _, db).
       Inr (case w of Some w \<Rightarrow> if cw_active w then Some w else None | None \<Rightarrow> None, db)))"

definition deactivate_visible_worker_for_actor :: "worker_env \<Rightarrow> string \<Rightarrow> string \<Rightarrow> catalog \<Rightarrow> py_error + catalog_worker option \<times> catalog" where
  "deactivate_visible_worker_for_actor we actor worker_id db = (if CHR ''@'' \<notin> set (lower (strip actor)) then Inr (None, db)
     else bindE (owned_worker we (lower (strip actor)) worker_id db) (\<lambda>(w, _, db). case w of
         None \<Rightarrow> Inr (None, db)
       | Some w \<Rightarrow> bindE (upd_worker we (cw_uid w) (\<lambda>w. w\<lparr>cw_active := False, cw_status := ''inactive'', cw_updated_at := now (we_env we)\<rparr>) db)
           (\<lambda>db. Inr (Some w, db))))"

definition reactivate_visible_worker_for_actor :: "worker_env \<Rightarrow> string \<Rightarrow> string \<Rightarrow> catalog \<Rightarrow> py_error + catalog_worker option \<times> catalog" where
  "reactivate_visible_worker_for_actor we actor worker_id db = (if CHR ''@'' \<notin> set (lower (strip actor)) then Inr (None, db)
     else bindE (owned_worker we (lower (strip actor)) worker_id db) (\<lambda>(w, _, db). case w of
         None \<Rightarrow> Inr (None, db)
       | Some w \<Rightarrow> bindE (upd_worker we (cw_uid w) (\<lambda>w. w\<lparr>cw_active := True, cw_status := ''active'', cw_updated_at := now (we_env we)\<rparr>) db)
           (\<lambda>db. Inr (Some (case get_worker_by_uid we db (cw_uid w) of Some v \<Rightarrow> v | None \<Rightarrow> w), db))))"

text \<open>The rows of one worker, removed from every table that names it.\<close>

definition delete_worker_rows :: "string \<Rightarrow> catalog \<Rightarrow> catalog" where
  "delete_worker_rows uid db = db\<lparr>wc_members := filter (\<lambda>(_, u). u \<noteq> uid) (wc_members db),
     wc_assignments := filter (\<lambda>(u, _). u \<noteq> uid) (wc_assignments db),
     wc_contexts := del_where (\<lambda>c. cx_uid c = uid) (wc_contexts db), wc_versions := del_where (\<lambda>v. wv_uid v = uid) (wc_versions db),
     wc_bound := del_where (\<lambda>b. bs_uid b = uid) (wc_bound db), wc_granted := del_where (\<lambda>g. gc_uid g = uid) (wc_granted db)\<rparr>"

definition hard_delete_visible_worker_for_actor :: "worker_env \<Rightarrow> string \<Rightarrow> string \<Rightarrow> catalog \<Rightarrow> py_error + catalog_worker option \<times> catalog" where
  "hard_delete_visible_worker_for_actor we actor worker_id db = (if CHR ''@'' \<notin> set (lower (strip actor)) then Inr (None, db)
     else bindE (ensure_profile we (lower (strip actor)) db) (\<lambda>(profile, db).
     bindE (get_worker_by_tenant_worker_id we db (pf_tenant profile) worker_id) (\<lambda>found. case found of
         None \<Rightarrow> Inr (None, db)
       | Some w \<Rightarrow> if cw_owner w \<noteq> pf_email profile \<or> cw_uid w = [] then Inr (None, db)
         else bindE (with_lits [(cw_uid w, 64)] (\<lambda>ls. we_odd_write we ls db) (\<lambda>vs. Inr (delete_worker_rows (vs ! 0) db))) (\<lambda>db.
           bindE (with_lits [(pf_tenant profile, 128), (pf_email profile, 256), (cw_worker_id w, 64)] (\<lambda>ls. we_odd_write we ls db)
             (\<lambda>vs. Inr (db\<lparr>wc_agents := del_where (\<lambda>a. ua_tenant a = vs ! 0 \<and> ua_owner a = vs ! 1 \<and> ua_worker a = vs ! 2) (wc_agents db)\<rparr>))) (\<lambda>db.
           bindE (with_lits [(cw_uid w, 64), (pf_email profile, 256)] (\<lambda>ls. we_odd_write we ls db)
             (\<lambda>vs. Inr (db\<lparr>wc_workers := del_where (\<lambda>v. cw_uid v = vs ! 0 \<and> cw_owner v = vs ! 1) (wc_workers db)\<rparr>))) (\<lambda>db.
           Inr (if get_worker_by_uid we db (cw_uid w) \<noteq> None then None else Some w, db)))))))"

text \<open>\<open>list_visible_workers_for_actor\<close>: the rows; the code returns a public view of them.\<close>

definition list_visible_workers_for_actor :: "worker_env \<Rightarrow> string \<Rightarrow> bool \<Rightarrow> catalog \<Rightarrow> py_error + catalog_worker list \<times> catalog" where
  "list_visible_workers_for_actor we actor include_inactive db = (if CHR ''@'' \<notin> set (lower (strip actor)) then Inr ([], db)
     else bindE (ensure_profile we (lower (strip actor)) db) (\<lambda>(profile, db).
       Inr (with_lits [(pf_tenant profile, 128), (pf_email profile, 256)] (\<lambda>ls. we_odd_workers we ls db)
         (\<lambda>vs. sort_key cw_name (sort_key cw_worker_id (sel_all (\<lambda>w. (include_inactive \<or> cw_active w) \<and> cw_tenant w = vs ! 0 \<and>
            (cw_owner w = vs ! 1 \<or> cw_visibility w = ''public'' \<or> (\<exists>(u, m, _) \<in> set (wc_assignments db). u = cw_uid w \<and> m = vs ! 1)))
            (wc_workers db)))), db)))"

definition set_worker_a2a_discoverable :: "worker_env \<Rightarrow> string \<Rightarrow> bool \<Rightarrow> catalog \<Rightarrow> py_error + catalog" where
  "set_worker_a2a_discoverable we uid discoverable db =
     upd_worker we uid (\<lambda>w. w\<lparr>cw_a2a := discoverable, cw_updated_at := now (we_env we)\<rparr>) db"

subsection \<open>Versions\<close>

definition next_version :: "string \<Rightarrow> catalog \<Rightarrow> int" where
  "next_version uid db = 1 + fold max (map wv_version (sel_all (\<lambda>v. wv_uid v = uid) (wc_versions db))) 0"

definition ins_version :: "worker_version \<Rightarrow> catalog \<Rightarrow> py_error + catalog" where
  "ins_version v db = bindE (sql_int32 (wv_version v)) (\<lambda>_.
     bindE (ins_row wv_key v (wc_versions db)) (\<lambda>rows. Inr (db\<lparr>wc_versions := rows\<rparr>)))"

text \<open>The column after \<open>_json(value)\<close> went through a literal of at most \<open>limit\<close> characters.\<close>

definition json_text :: "payload \<Rightarrow> string" where
  "json_text d = json_dumps (sort_keys (PDict d))"

definition json_column :: "payload \<Rightarrow> string \<Rightarrow> pyval option" where
  "json_column d stored = (if stored = json_text d then Some (PDict d) else None)"

definition add_worker_version :: "worker_env \<Rightarrow> string \<Rightarrow> string \<Rightarrow> payload \<Rightarrow> payload \<Rightarrow> string \<Rightarrow> catalog \<Rightarrow> py_error + catalog" where
  "add_worker_version we uid created_by manifest files note db =
     with_lits [(uid, 64), (json_text manifest, 1048576), (json_text files, 1048576), (created_by, 256), (note, 512)]
       (\<lambda>ls. we_odd_write we ls db)
       (\<lambda>vs. ins_version \<lparr>wv_uid = vs ! 0, wv_version = next_version (vs ! 0) db, wv_manifest = json_column manifest (vs ! 1),
           wv_files = json_column files (vs ! 2), wv_by = vs ! 3, wv_note = vs ! 4\<rparr> db)"

definition get_latest_worker_version :: "worker_env \<Rightarrow> catalog \<Rightarrow> string \<Rightarrow> worker_version option" where
  "get_latest_worker_version we db uid = with_lits [(uid, 64)] (\<lambda>ls. we_odd_version we ls db)
     (\<lambda>vs. top_by wv_version (sel_all (\<lambda>v. wv_uid v = vs ! 0) (wc_versions db)))"

text \<open>\<open>dict((latest or {}).get("..._snapshot") or {})\<close>; a column that does not decode reads as the empty dictionary.\<close>

definition snapshot_dict :: "pyval option \<Rightarrow> py_error + payload" where
  "snapshot_dict col = (case col of None \<Rightarrow> Inr [] | Some v \<Rightarrow> py_dict (por v (PDict [])))"

definition latest_manifest :: "worker_env \<Rightarrow> catalog \<Rightarrow> string \<Rightarrow> py_error + payload" where
  "latest_manifest we db uid = (case get_latest_worker_version we db uid of None \<Rightarrow> Inr [] | Some v \<Rightarrow> snapshot_dict (wv_manifest v))"

definition latest_files :: "worker_env \<Rightarrow> catalog \<Rightarrow> string \<Rightarrow> py_error + payload" where
  "latest_files we db uid = (case get_latest_worker_version we db uid of None \<Rightarrow> Inr [] | Some v \<Rightarrow> snapshot_dict (wv_files v))"

subsection \<open>Contexts\<close>

definition ins_context :: "worker_context \<Rightarrow> catalog \<Rightarrow> py_error + catalog" where
  "ins_context c db = bindE (ins_row cx_id c (wc_contexts db)) (\<lambda>rows. Inr (db\<lparr>wc_contexts := rows\<rparr>))"

definition add_worker_context :: "worker_env \<Rightarrow> string \<Rightarrow> string \<Rightarrow> string \<Rightarrow> int \<Rightarrow> catalog \<Rightarrow> py_error + catalog" where
  "add_worker_context we uid title content sort_order db = bindE (sql_int32 sort_order) (\<lambda>sort_order.
     with_lits [(''ctx_'' @ uuid_hex (we_env we) 0, 64), (uid, 64), (title, 256), (content, 65535)] (\<lambda>ls. we_odd_write we ls db)
       (\<lambda>vs. ins_context \<lparr>cx_id = vs ! 0, cx_uid = vs ! 1, cx_title = vs ! 2, cx_content = vs ! 3, cx_order = sort_order, cx_active = True,
         cx_created_at = now (we_env we), cx_updated_at = now (we_env we)\<rparr> db))"

definition context_order :: "worker_context \<Rightarrow> worker_context \<Rightarrow> bool" where
  "context_order c d \<longleftrightarrow> cx_order c < cx_order d \<or> cx_order c = cx_order d \<and> (cx_created_at c < cx_created_at d \<or>
     cx_created_at c = cx_created_at d \<and> cx_id c \<le> cx_id d)"

fun ins_by :: "('a \<Rightarrow> 'a \<Rightarrow> bool) \<Rightarrow> 'a \<Rightarrow> 'a list \<Rightarrow> 'a list" where
  "ins_by le x [] = [x]"
| "ins_by le x (y # ys) = (if le x y then x # y # ys else y # ins_by le x ys)"

definition list_worker_contexts :: "worker_env \<Rightarrow> (string list \<Rightarrow> worker_context list) \<Rightarrow> catalog \<Rightarrow> string \<Rightarrow> worker_context list" where
  "list_worker_contexts we other db uid = with_lits [(uid, 64)] other
     (\<lambda>vs. foldr (ins_by context_order) (sel_all (\<lambda>c. cx_uid c = vs ! 0 \<and> cx_active c) (wc_contexts db)) [])"

text \<open>\<open>_update_context_content\<close>; the flag says whether there was a context to update.\<close>

definition update_context_content :: "worker_env \<Rightarrow> string \<Rightarrow> string \<Rightarrow> string \<Rightarrow> catalog \<Rightarrow> py_error + bool \<times> catalog" where
  "update_context_content we uid title content db = (case with_lits [(uid, 64), (title, 256)] (\<lambda>ls. we_odd_context we ls db)
         (\<lambda>vs. sel_one (\<lambda>c. cx_uid c = vs ! 0 \<and> cx_title c = vs ! 1 \<and> cx_active c) (wc_contexts db)) of
       None \<Rightarrow> Inr (False, db)
     | Some c \<Rightarrow> if cx_id c = [] then Inr (False, db)
       else bindE (with_lits [(content, 65535), (cx_id c, 64)] (\<lambda>ls. we_odd_write we ls db)
           (\<lambda>vs. Inr (db\<lparr>wc_contexts := upd_where (\<lambda>c. cx_id c = vs ! 1)
              (\<lambda>c. c\<lparr>cx_content := vs ! 0, cx_updated_at := now (we_env we)\<rparr>) (wc_contexts db)\<rparr>)))
         (\<lambda>db. Inr (True, db)))"

subsection \<open>Catalog skills of a worker\<close>

definition visible_catalog_skills :: "worker_env \<Rightarrow> catalog \<Rightarrow> string \<Rightarrow> string \<Rightarrow> (string \<times> string) list" where
  "visible_catalog_skills we db tenant_id owner_email = (let owner = lower (strip owner_email); tenant = str_or (strip (str_or tenant_id ''default'')) ''default'';
     rows = with_lits [(tenant, 128), (owner, 256)] (\<lambda>ls. we_odd_skills we ls db)
       (\<lambda>vs. sel_all (\<lambda>s. sk_active s \<and> (sk_tenant s = vs ! 0 \<or> sk_tenant s = ''framework'') \<and>
          (sk_owner s = vs ! 1 \<or> sk_visibility s = ''public'')) (wc_skills db));
     ordered = filter (\<lambda>s. sk_tenant s = ''framework'') rows @ filter (\<lambda>s. sk_tenant s \<noteq> ''framework'') rows
   in fold (\<lambda>s out. if strip (sk_name s) = [] \<or> strip (sk_id s) = [] then out
        else AList.update (normalize_skill_name (strip (sk_name s))) (strip (sk_id s)) out) ordered [])"

text \<open>\<open>_parse_skill_bindings\<close>: the names in order, and the first configuration of each.\<close>

definition add_skill :: "string \<Rightarrow> pyval \<Rightarrow> (string \<times> payload) list \<Rightarrow> (string \<times> payload) list" where
  "add_skill name config out = (let n = normalize_skill_name name in
     if n = [] \<or> map_of out n \<noteq> None then out else out @ [(n, pdict_or_empty config)])"

definition parse_skill_bindings :: "pyval list \<Rightarrow> (string \<times> payload) list" where
  "parse_skill_bindings items = foldl (\<lambda>out item. case item of
       PStr s \<Rightarrow> add_skill s PNone out
     | PDict d \<Rightarrow> (case pget d ''name'' PNone of
           PStr n \<Rightarrow> add_skill n (if pget d ''config'' PNone = PNone then PDict (filter (\<lambda>(k, _). k \<notin> {''name'', ''id''}) d)
              else pget d ''config'' PNone) out
         | _ \<Rightarrow> (case d of [(name, config)] \<Rightarrow> add_skill name config out | _ \<Rightarrow> out))
     | _ \<Rightarrow> out) [] items"

definition declared_skills_from_manifest :: "payload \<Rightarrow> (string \<times> payload) list" where
  "declared_skills_from_manifest manifest = parse_skill_bindings (case por (pget manifest ''skills'' PNone) (PList []) of
       PStr s \<Rightarrow> map PStr (filter (\<lambda>w. w \<noteq> []) (map strip (split_char (CHR '','') s)))
     | PList xs \<Rightarrow> xs
     | _ \<Rightarrow> [])"

definition upsert_worker_skill_binding :: "worker_env \<Rightarrow> string \<Rightarrow> string \<Rightarrow> payload \<Rightarrow> int \<Rightarrow> catalog \<Rightarrow> py_error + catalog" where
  "upsert_worker_skill_binding we uid skill_id config sort_order db =
     with_lits [(uid, 64), (skill_id, 64), (json_text config, 8192)] (\<lambda>ls. we_odd_write we ls db)
       (\<lambda>vs. Inr (db\<lparr>wc_bound := tbl_put bs_key \<lparr>bs_uid = vs ! 0, bs_skill = vs ! 1, bs_enabled = True,
          bs_config = json_column config (vs ! 2), bs_order = sort_order\<rparr> (wc_bound db)\<rparr>))"

definition bind_skills :: "worker_env \<Rightarrow> string \<Rightarrow> (string \<times> payload \<times> int) list \<Rightarrow> catalog \<Rightarrow> py_error + catalog" where
  "bind_skills we uid = forE (\<lambda>(skill_id, config, sort_order). upsert_worker_skill_binding we uid skill_id config sort_order)"

definition desired_skills :: "(string \<times> string) list \<Rightarrow> (string \<times> payload) list \<Rightarrow> (string \<times> payload \<times> int) list" where
  "desired_skills visible declared = concat (map (\<lambda>(i, n, config). case map_of visible n of
       None \<Rightarrow> [] | Some skill_id \<Rightarrow> [(skill_id, config, 10 * int i)]) (List.enumerate 0 declared))"

definition unbind_skill :: "worker_env \<Rightarrow> string \<Rightarrow> string \<Rightarrow> catalog \<Rightarrow> py_error + catalog" where
  "unbind_skill we uid skill_id db = with_lits [(uid, 64), (skill_id, 64)] (\<lambda>ls. we_odd_write we ls db)
     (\<lambda>vs. Inr (db\<lparr>wc_bound := upd_where (\<lambda>b. bs_key b = (vs ! 0, vs ! 1)) (\<lambda>b. b\<lparr>bs_enabled := False\<rparr>) (wc_bound db)\<rparr>))"

definition enabled_skill_ids :: "worker_env \<Rightarrow> string \<Rightarrow> catalog \<Rightarrow> string list" where
  "enabled_skill_ids we uid db = map (\<lambda>b. strip (bs_skill b)) (with_lits [(uid, 64)] (\<lambda>ls. we_odd_bound we ls db)
     (\<lambda>vs. sel_all (\<lambda>b. bs_uid b = vs ! 0 \<and> bs_enabled b) (wc_bound db)))"

definition sync_worker_catalog_skills_from_manifest :: "worker_env \<Rightarrow> string \<Rightarrow> payload \<Rightarrow> catalog \<Rightarrow> py_error + catalog" where
  "sync_worker_catalog_skills_from_manifest we uid manifest db = (case get_worker_by_uid we db uid of
       None \<Rightarrow> Inr db
     | Some w \<Rightarrow> (let desired = desired_skills (visible_catalog_skills we db (cw_tenant w) (cw_owner w)) (declared_skills_from_manifest manifest) in
         bindE (bind_skills we uid desired db) (\<lambda>db.
         forE (unbind_skill we uid) (filter (\<lambda>s. s \<noteq> [] \<and> s \<notin> fst ` set desired) (enabled_skill_ids we uid db)) db)))"

definition list_worker_skills :: "worker_env \<Rightarrow> catalog \<Rightarrow> string \<Rightarrow> catalog_skill list" where
  "list_worker_skills we db uid = with_lits [(uid, 64)] (\<lambda>ls. we_odd_skills we ls db)
     (\<lambda>vs. map snd (sort_key fst (sort_key (\<lambda>p. sk_name (snd p)) (concat (map (\<lambda>b.
        if bs_uid b = vs ! 0 \<and> bs_enabled b then map (Pair (bs_order b)) (filter (\<lambda>s. sk_id s = bs_skill b \<and> sk_active s) (wc_skills db)) else [])
        (wc_bound db))))))"

subsection \<open>Files\<close>

definition clean_rel :: "string \<Rightarrow> string" where
  "clean_rel path = dropWhile (\<lambda>c. c = CHR ''/'') (replace_char (char_of (92::nat)) ''/'' (strip path))"

definition bad_rel :: "string \<Rightarrow> bool" where
  "bad_rel rel \<longleftrightarrow> rel = [] \<or> ''..'' \<in> set (split_char (CHR ''/'') rel)"

definition sync_context :: "worker_env \<Rightarrow> string \<Rightarrow> string \<Rightarrow> string \<Rightarrow> catalog \<Rightarrow> py_error + catalog" where
  "sync_context we uid rel content db = (if endswith ''.md'' (lower rel)
     then bindE (update_context_content we uid rel content db) (\<lambda>(updated, db).
       if updated then Inr db else add_worker_context we uid rel content 100 db)
     else Inr db)"

definition is_manifest :: "string \<Rightarrow> bool" where
  "is_manifest rel \<longleftrightarrow> lower rel \<in> {''manifest.yaml'', ''manifest.yml''}"

definition update_catalog_worker_file :: "worker_env \<Rightarrow> string \<Rightarrow> string \<Rightarrow> string \<Rightarrow> string \<Rightarrow> catalog \<Rightarrow> py_error + catalog" where
  "update_catalog_worker_file we uid file_path content actor_email db = (let rel = clean_rel file_path in
     if bad_rel rel then Inl (ValueError ''file_path invalido'')
     else bindE (latest_manifest we db uid) (\<lambda>manifest.
       bindE (latest_files we db uid) (\<lambda>files0. let files = pset rel (PStr content) files0 in
       bindE (sync_context we uid rel content db) (\<lambda>db.
       bindE (if \<not> is_manifest rel then Inr manifest
         else case we_yaml we content of
           None \<Rightarrow> Inl (ValueError ''manifest.yaml invalido'')
         | Some (PDict d) \<Rightarrow> Inr d
         | Some _ \<Rightarrow> Inl (ValueError ''manifest.yaml debe ser un objeto YAML (mapping)'')) (\<lambda>manifest.
       bindE (if is_manifest rel then sync_worker_catalog_skills_from_manifest we uid manifest db else Inr db) (\<lambda>db.
       add_worker_version we uid actor_email manifest files (''Actualizaci'' @ [char_of (243::nat)] @ ''n DB-first de '' @ rel) db))))))"

definition add_catalog_worker_context :: "worker_env \<Rightarrow> string \<Rightarrow> string \<Rightarrow> string \<Rightarrow> int \<Rightarrow> string \<Rightarrow> catalog \<Rightarrow> py_error + catalog" where
  "add_catalog_worker_context we uid title content sort_order actor_email db = (let rel = clean_rel title in
     if bad_rel rel \<or> \<not> endswith ''.md'' (lower rel) then Inl (ValueError ''title debe ser un archivo .md valido'')
     else bindE (add_worker_context we uid rel content sort_order db) (\<lambda>db.
       bindE (latest_manifest we db uid) (\<lambda>manifest.
       bindE (latest_files we db uid) (\<lambda>files.
       add_worker_version we uid actor_email manifest (pset rel (PStr content) files) (''Nuevo contexto DB-first '' @ rel) db))))"

definition reorder_item :: "worker_env \<Rightarrow> string \<Rightarrow> pyval \<Rightarrow> catalog \<Rightarrow> py_error + catalog" where
  "reorder_item we uid item db = (case item of
       PDict d \<Rightarrow> (let context_id = opt_str d ''context_id'' [] in
         if context_id = [] then Inr db
         else bindE (gint d ''sort_order'' 0) (\<lambda>n. bindE (sql_int32 n) (\<lambda>sort_order.
           with_lits [(uid, 64), (context_id, 64)] (\<lambda>ls. we_odd_write we ls db)
             (\<lambda>vs. Inr (db\<lparr>wc_contexts := upd_where (\<lambda>c. cx_uid c = vs ! 0 \<and> cx_id c = vs ! 1 \<and> cx_active c)
                (\<lambda>c. c\<lparr>cx_order := sort_order, cx_updated_at := now (we_env we)\<rparr>) (wc_contexts db)\<rparr>)))))
     | _ \<Rightarrow> Inl (AttributeError ''object has no attribute get''))"

definition reorder_worker_contexts :: "worker_env \<Rightarrow> string \<Rightarrow> pyval list \<Rightarrow> catalog \<Rightarrow> py_error + catalog" where
  "reorder_worker_contexts we uid items db = forE (reorder_item we uid) items db"

definition deactivate_worker_context :: "worker_env \<Rightarrow> string \<Rightarrow> string \<Rightarrow> string \<Rightarrow> catalog \<Rightarrow> py_error + bool \<times> catalog" where
  "deactivate_worker_context we uid context_id actor_email db =
     (case with_lits [(uid, 64), (context_id, 64)] (\<lambda>ls. we_odd_context we ls db)
         (\<lambda>vs. sel_one (\<lambda>c. cx_uid c = vs ! 0 \<and> cx_id c = vs ! 1 \<and> cx_active c) (wc_contexts db)) of
       None \<Rightarrow> Inr (False, db)
     | Some c \<Rightarrow> bindE (with_lits [(uid, 64), (context_id, 64)] (\<lambda>ls. we_odd_write we ls db)
           (\<lambda>vs. Inr (db\<lparr>wc_contexts := upd_where (\<lambda>c. cx_uid c = vs ! 0 \<and> cx_id c = vs ! 1)
              (\<lambda>c. c\<lparr>cx_active := False, cx_updated_at := now (we_env we)\<rparr>) (wc_contexts db)\<rparr>))) (\<lambda>db.
         bindE (latest_manifest we db uid) (\<lambda>manifest.
         bindE (latest_files we db uid) (\<lambda>files.
         bindE (add_worker_version we uid actor_email manifest (AList.delete (cx_title c) files) (''Contexto desactivado '' @ cx_title c) db)
           (\<lambda>db. Inr (True, db))))))"

subsection \<open>The prompt of a worker\<close>

definition file_text :: "payload \<Rightarrow> string \<Rightarrow> string" where
  "file_text files rel = strip (gstr files rel [])"

definition build_system_prompt_content_from_files :: "payload \<Rightarrow> string" where
  "build_system_prompt_content_from_files files =
     join ([CHR 10, CHR 10] @ ''---'' @ [CHR 10, CHR 10]) (filter (\<lambda>t. t \<noteq> []) (map (file_text files) [''soul.md'', ''system_prompt.md'']))"

definition active_policy_checksum :: "policy_row list \<Rightarrow> string \<Rightarrow> string \<Rightarrow> string" where
  "active_policy_checksum rows ty nm = (case top_by pp_version (sel_all (is_active_policy ty nm) rows) of None \<Rightarrow> [] | Some r \<Rightarrow> pp_checksum r)"

definition retire_prompts :: "worker_env \<Rightarrow> string \<Rightarrow> policy_row list \<Rightarrow> policy_row list" where
  "retire_prompts we nm rows = upd_where (\<lambda>r. same_policy ''system_prompt'' nm r \<and> pp_active r)
     (demote_policy (we_env we)) rows"

definition put_system_prompt :: "worker_env \<Rightarrow> string \<Rightarrow> string \<Rightarrow> payload \<Rightarrow> policy_row list \<Rightarrow> py_error + policy_row list" where
  "put_system_prompt we nm content metadata rows = apply_upsert_prompt_policy (we_env we)
     [(''policy_type'', PStr ''system_prompt''), (''policy_name'', PStr nm), (''version'', PInt (next_policy_version ''system_prompt'' nm rows)),
      (''status'', PStr ''active''), (''content'', PStr content), (''metadata'', PDict metadata)] (retire_prompts we nm rows)"

text \<open>\<open>sync_worker_system_prompt_policy\<close>; the flag says whether it wrote.\<close>

definition sync_worker_system_prompt_policy ::
  "worker_env \<Rightarrow> string \<Rightarrow> payload \<Rightarrow> string \<Rightarrow> string \<Rightarrow> bool \<Rightarrow> catalog \<Rightarrow> py_error + bool \<times> catalog" where
  "sync_worker_system_prompt_policy we worker_id files actor_email uid force db = (let
     wid = strip worker_id; content = build_system_prompt_content_from_files files
   in if wid = [] then Inr (False, db)
     else if wid \<noteq> ''default'' \<and> sel_one (\<lambda>w. cw_worker_id w = wid \<and> cw_active w) (wc_workers db) = None then Inr (False, db)
     else if content = [] then Inr (False, db)
     else if \<not> force \<and> active_policy_checksum (wc_policies db) ''system_prompt'' wid = sha256_hex (we_env we) content then Inr (False, db)
     else bindE (put_system_prompt we wid content [(''seed'', PStr ''catalog_template_import''), (''owner'', PStr actor_email),
         (''worker_id'', PStr wid), (''worker_uid'', PStr (strip uid)), (''source'', PStr ''admin_worker_catalog'')] (wc_policies db))
       (\<lambda>rows. Inr (True, db\<lparr>wc_policies := rows\<rparr>)))"

text \<open>
  \<open>sync_all_catalog_worker_prompts\<close>: written, skipped and failed workers. An exception is swallowed; the one step of a
  sync that can raise comes after the old prompt has been retired.
\<close>

definition sync_one_worker_prompt ::
  "worker_env \<Rightarrow> string \<Rightarrow> bool \<Rightarrow> catalog_worker \<Rightarrow> (string list \<times> string list \<times> string list) \<times> catalog \<Rightarrow>
     (string list \<times> string list \<times> string list) \<times> catalog" where
  "sync_one_worker_prompt we actor_email force w st = (let ((synced, skipped, failed), db) = st; wid = cw_worker_id w in
     if wid = [] then st
     else case get_latest_worker_version we db (cw_uid w) of
       None \<Rightarrow> ((synced, skipped, failed @ [wid]), db)
     | Some v \<Rightarrow> (case snapshot_dict (wv_files v) of
         Inl _ \<Rightarrow> ((synced, skipped, failed @ [wid]), db)
       | Inr files \<Rightarrow>
           if build_system_prompt_content_from_files files = [] then ((synced, skipped @ [wid], failed), db)
           else (case sync_worker_system_prompt_policy we wid files actor_email (cw_uid w) force db of
               Inl _ \<Rightarrow> ((synced, skipped, failed @ [wid]), db\<lparr>wc_policies := retire_prompts we (strip wid) (wc_policies db)\<rparr>)
             | Inr (True, db) \<Rightarrow> ((synced @ [wid], skipped, failed), db)
             | Inr (False, db) \<Rightarrow> ((synced, skipped @ [wid], failed), db))))"

definition sync_all_catalog_worker_prompts ::
  "worker_env \<Rightarrow> string \<Rightarrow> bool \<Rightarrow> catalog \<Rightarrow> (string list \<times> string list \<times> string list) \<times> catalog" where
  "sync_all_catalog_worker_prompts we actor_email force db = foldl (\<lambda>st w. sync_one_worker_prompt we actor_email force w st) (([], [], []), db)
     (sort_key cw_worker_id (sel_all (\<lambda>w. cw_active w \<and> cw_worker_id w \<noteq> ''default'') (wc_workers db)))"

end
