(* ===== verification/WorkerCatalog.thy ===== *)
theory WorkerCatalog
  imports WorkerStore
begin

text \<open>
  The write handlers of the worker catalog (\<open>packages/shared/src/duckclaw/write_handlers/workers.py\<close>): workers, user
  agents, catalog skills, files, contexts, capabilities, renaming and deletion. The imports of spawn packages and of
  template folders, and the cache that is told of a change, are not modelled.
\<close>

subsection \<open>Workers\<close>

definition resolve_worker_uid :: "catalog \<Rightarrow> string \<Rightarrow> string \<Rightarrow> string option" where
  "resolve_worker_uid db worker_id tenant_id =
     map_option cw_uid (sel_one (\<lambda>w. cw_worker_id w = worker_id \<and> cw_tenant w = tenant_id) (wc_workers db))"

definition stable_json :: "pyval \<Rightarrow> string" where
  "stable_json v = json_dumps (sort_keys (por v (PDict [])))"

definition worker_snapshot_exists :: "catalog \<Rightarrow> string \<Rightarrow> pyval \<Rightarrow> pyval \<Rightarrow> bool" where
  "worker_snapshot_exists db uid manifest files = list_ex (\<lambda>v. wv_uid v = uid \<and>
     (case (wv_manifest v, wv_files v) of
        (Some m, Some f) \<Rightarrow> stable_json m = stable_json manifest \<and> stable_json f = stable_json files | _ \<Rightarrow> False)) (wc_versions db)"

text \<open>The row of the worker: its identifier, which is the drawn or given one when the row is new.\<close>

definition upsert_worker_row :: "worker_env \<Rightarrow> payload \<Rightarrow> catalog \<Rightarrow> py_error + string \<times> catalog" where
  "upsert_worker_row we payload db = bindE (pitem payload ''worker_id'') (\<lambda>v. let
     worker_id = pystr v;
     display_name = pystr (pget payload ''display_name'' (PStr worker_id));
     tenant_id = gstr payload ''tenant_id'' ''default'';
     owner = pystr (pget payload ''actor_email'' (PStr ''system''));
     source_kind = pystr (pget payload ''source_kind'' (PStr ''runtime''));
     source_tpl = pystr (pget payload ''source_template_id'' (PStr ''default''));
     visibility = pystr (pget payload ''visibility'' (PStr ''private''));
     existing = (case resolve_worker_uid db worker_id tenant_id of None \<Rightarrow> [] | Some uid \<Rightarrow> uid)
   in if existing \<noteq> [] then Inr (existing, db\<lparr>wc_workers := upd_where (\<lambda>w. cw_worker_id w = worker_id \<and> cw_tenant w = tenant_id)
         (\<lambda>w. w\<lparr>cw_name := display_name, cw_kind := source_kind, cw_template := source_tpl, cw_visibility := visibility,
            cw_updated_at := now (we_env we)\<rparr>) (wc_workers db)\<rparr>)
      else let uid = pystr (pget payload ''worker_uid'' (PStr (''wrk_'' @ uuid_hex (we_env we) 0))) in
        bindE (ins_worker \<lparr>cw_uid = uid, cw_tenant = tenant_id, cw_owner = owner, cw_worker_id = worker_id, cw_name = display_name,
          cw_kind = source_kind, cw_template = source_tpl, cw_visibility = visibility, cw_a2a = False, cw_status = ''active'',
          cw_active = True, cw_updated_at = now (we_env we)\<rparr> db) (\<lambda>db. Inr (uid, db)))"

definition store_snapshot :: "worker_env \<Rightarrow> string \<Rightarrow> payload \<Rightarrow> catalog \<Rightarrow> py_error + catalog" where
  "store_snapshot we uid payload db = (let
     manifest = pget payload ''manifest_snapshot'' PNone; files = pget payload ''files_snapshot'' PNone;
     owner = pystr (pget payload ''actor_email'' (PStr ''system''))
   in if (truthy manifest \<or> truthy files) \<and> \<not> worker_snapshot_exists db uid (por manifest (PDict [])) (por files (PDict []))
     then ins_version \<lparr>wv_uid = uid, wv_version = next_version uid db, wv_manifest = Some (por manifest (PDict [])),
       wv_files = Some (por files (PDict [])), wv_by = owner, wv_note = []\<rparr> db
     else Inr db)"

text \<open>A context by title: the active one is rewritten, or a new one is added; \<open>i\<close> is the index of its identifier.\<close>

definition put_context :: "worker_env \<Rightarrow> nat \<Rightarrow> string \<Rightarrow> string \<Rightarrow> string \<Rightarrow> int \<Rightarrow> catalog \<Rightarrow> py_error + catalog" where
  "put_context we i uid title content sort_order db =
     (case sel_one (\<lambda>c. cx_uid c = uid \<and> cx_title c = title \<and> cx_active c) (wc_contexts db) of
       Some c \<Rightarrow> Inr (db\<lparr>wc_contexts := upd_where (\<lambda>d. cx_id d = cx_id c)
         (\<lambda>d. d\<lparr>cx_content := content, cx_updated_at := now (we_env we)\<rparr>) (wc_contexts db)\<rparr>)
     | None \<Rightarrow> ins_context \<lparr>cx_id = ''ctx_'' @ take 16 (uuid_hex (we_env we) i), cx_uid = uid, cx_title = title, cx_content = content,
         cx_order = sort_order, cx_active = True, cx_created_at = now (we_env we), cx_updated_at = now (we_env we)\<rparr> db)"

definition apply_upsert_worker :: "worker_env \<Rightarrow> payload \<Rightarrow> catalog \<Rightarrow> py_error + catalog" where
  "apply_upsert_worker we payload db =
     bindE (upsert_worker_row we payload db) (\<lambda>(uid, db).
     bindE (store_snapshot we uid payload db) (\<lambda>db.
     let system_prompt = strip (pystr (pget payload ''system_prompt'' (PStr [])))
     in if system_prompt = [] then Inr db else put_context we 1 uid ''system_prompt.md'' system_prompt 10 db))"

definition apply_deactivate_worker :: "worker_env \<Rightarrow> payload \<Rightarrow> catalog \<Rightarrow> py_error + catalog" where
  "apply_deactivate_worker we payload db = bindE (pitem payload ''worker_id'') (\<lambda>v.
     let tenant_id = gstr payload ''tenant_id'' ''default'' in
     Inr (db\<lparr>wc_workers := upd_where (\<lambda>w. cw_worker_id w = pystr v \<and> cw_tenant w = tenant_id)
       (\<lambda>w. w\<lparr>cw_active := False, cw_status := ''inactive'', cw_updated_at := now (we_env we)\<rparr>) (wc_workers db)\<rparr>))"

subsection \<open>The framework's tool pack\<close>

definition baseline_skills :: "payload \<Rightarrow> string list" where
  "baseline_skills pack = filter (\<lambda>s. s \<noteq> []) (map (\<lambda>s. strip (pystr s)) (plist_or_empty (pget pack ''baseline_skills'' PNone)))"

definition baseline_skills_for_profile :: "payload \<Rightarrow> string \<Rightarrow> py_error + string list" where
  "baseline_skills_for_profile pack profile = (case por (pget pack ''profiles'' PNone) (PDict []) of
       PDict profiles \<Rightarrow> (let key = lower (strip (str_or profile ''general'')); key = (if phas profiles key then key else ''general'') in
         Inr (case pget profiles key PNone of
             PList xs \<Rightarrow> filter (\<lambda>s. s \<noteq> []) (map (\<lambda>s. strip (pystr s)) xs)
           | _ \<Rightarrow> baseline_skills pack))
     | _ \<Rightarrow> Inl (AttributeError ''object has no attribute get''))"

definition env_present :: "(string \<Rightarrow> string option) \<Rightarrow> string list \<Rightarrow> bool" where
  "env_present getenv names = list_ex (\<lambda>n. strip (case getenv n of None \<Rightarrow> [] | Some v \<Rightarrow> v) \<noteq> []) names"

text \<open>\<open>optional_skill_configs\<close> of a manifest with the general profile.\<close>

definition optional_skill :: "(string \<Rightarrow> string option) \<Rightarrow> string \<times> pyval \<Rightarrow> py_error + (string \<times> payload) list" where
  "optional_skill getenv item = (case snd item of
       PDict spec \<Rightarrow> bindE (let env_any = por (pget spec ''env_any'' PNone) (por (pget spec ''env_required'' PNone) (PList [])) in
           if truthy env_any then bindE (py_list env_any) (\<lambda>xs. Inr (env_present getenv (map pystr xs))) else Inr True) (\<lambda>wanted.
         Inr (case pget spec ''default_config'' PNone of
             PDict cfg \<Rightarrow> if wanted \<and> cfg \<noteq> [] then [(normalize_skill_name (fst item), cfg)] else []
           | _ \<Rightarrow> []))
     | _ \<Rightarrow> Inr [])"

definition optional_skill_configs :: "(string \<Rightarrow> string option) \<Rightarrow> payload \<Rightarrow> py_error + (string \<times> payload) list" where
  "optional_skill_configs getenv pack = bindE (mapE (optional_skill getenv) (pdict_or_empty (por (pget pack ''optional_skills'' PNone) (PDict []))))
     (\<lambda>cfgs. Inr (fold (\<lambda>(k, v). AList.update k v) (concat cfgs) []))"

definition merge_skill :: "string list \<Rightarrow> string \<Rightarrow> string list" where
  "merge_skill out raw = (let key = normalize_skill_name raw in if key = [] \<or> key \<in> set out then out else out @ [key])"

definition ensure_baseline_skills :: "worker_env \<Rightarrow> string list \<Rightarrow> py_error + string list" where
  "ensure_baseline_skills we skills = (case we_pack we of
       None \<Rightarrow> Inl (FileNotFoundError ''framework tool pack not found'')
     | Some pack \<Rightarrow> bindE (baseline_skills_for_profile pack ''general'') (\<lambda>base.
         bindE (optional_skill_configs (we_getenv we) pack) (\<lambda>optional.
         Inr (foldl merge_skill [] (skills @ base @ map fst optional)))))"

subsection \<open>User agents\<close>

text \<open>\<open>json.dumps(v, ensure_ascii=False, indent=2)\<close>.\<close>

definition line_pad :: "nat \<Rightarrow> string" where
  "line_pad n = CHR 10 # replicate n (CHR '' '')"

fun json_indent :: "nat \<Rightarrow> pyval \<Rightarrow> string" and indent_items :: "nat \<Rightarrow> pyval list \<Rightarrow> string list"
  and indent_pairs :: "nat \<Rightarrow> (string \<times> pyval) list \<Rightarrow> string list" where
  "json_indent n (PList xs) = (if xs = [] then ''[]''
     else ''['' @ line_pad (n + 2) @ join ('','' @ line_pad (n + 2)) (indent_items (n + 2) xs) @ line_pad n @ '']'')"
| "json_indent n (PDict d) = (if d = [] then ''{}''
     else ''{'' @ line_pad (n + 2) @ join ('','' @ line_pad (n + 2)) (indent_pairs (n + 2) d) @ line_pad n @ ''}'')"
| "json_indent n PNone = json_dumps PNone"
| "json_indent n (PBool b) = json_dumps (PBool b)"
| "json_indent n (PInt i) = json_dumps (PInt i)"
| "json_indent n (PStr s) = json_dumps (PStr s)"
| "indent_items n [] = []"
| "indent_items n (v # vs) = json_indent n v # indent_items n vs"
| "indent_pairs n [] = []"
| "indent_pairs n ((k, v) # r) = (json_str k @ '': '' @ json_indent n v) # indent_pairs n r"

definition payload_actor :: "payload \<Rightarrow> string" where
  "payload_actor payload = str_or (lower (strip (gstr payload ''actor_email'' ''system''))) ''system''"

text \<open>The profile of the actor, whose tenant must be the one of the request: tenant, owner and the hub.\<close>

definition actor_scope :: "worker_env \<Rightarrow> payload \<Rightarrow> catalog \<Rightarrow> py_error + string \<times> string \<times> catalog" where
  "actor_scope we payload db = (let actor = payload_actor payload in
     bindE (ensure_profile we actor db) (\<lambda>(profile, db).
     let tenant_id = str_or (strip (pystr (por (pget payload ''tenant_id'' PNone) (por (PStr (pf_tenant profile)) (PStr ''default''))))) ''default''
     in if str_or (pf_tenant profile) tenant_id \<noteq> tenant_id then Inl (ValueError (''Tenant mismatch for actor: '' @ actor))
       else Inr (tenant_id, str_or (pf_email profile) actor, db)))"

definition agent_skills :: "worker_env \<Rightarrow> payload \<Rightarrow> py_error + string list" where
  "agent_skills we payload = bindE (py_list (por (pget payload ''skills'' PNone) (PList []))) (\<lambda>xs. let
     skills = map (\<lambda>x. take 128 (strip (pystr x))) (filter (\<lambda>x. strip (pystr x) \<noteq> []) xs);
     skills = (if truthy (pget payload ''web_search'' PNone) \<and> ''research'' \<notin> set (map lower skills) then skills @ [''research''] else skills)
   in Inr (case ensure_baseline_skills we skills of Inl _ \<Rightarrow> skills | Inr merged \<Rightarrow> merged))"

definition agent_manifest :: "payload \<Rightarrow> string \<Rightarrow> string \<Rightarrow> string \<Rightarrow> string \<Rightarrow> string \<Rightarrow> string \<Rightarrow> string list \<Rightarrow> payload" where
  "agent_manifest payload worker_id display_name owner tenant_id source_template_id system_prompt skills = (let
     web = truthy (pget payload ''web_search'' PNone);
     manifest = [(''id'', PStr worker_id), (''display_name'', PStr display_name), (''owner_email'', PStr owner),
       (''tenant_id'', PStr tenant_id), (''source_template_id'', PStr source_template_id),
       (''description'', PStr (opt_str payload ''description'' [])), (''system_prompt'', PStr system_prompt),
       (''skills'', PList (map (\<lambda>s. if web \<and> lower s = ''research''
          then PDict [(''research'', PDict [(''local_search_enabled'', PBool True)])] else PStr s) skills)),
       (''tool_profile'', PStr ''general'')]
   in if truthy (pget payload ''browser_sandbox'' PNone) then manifest @ [(''browser_sandbox'', PBool True)] else manifest)"

definition agent_files :: "payload \<Rightarrow> string \<Rightarrow> string \<Rightarrow> payload" where
  "agent_files manifest system_prompt soul = [(''manifest.json'', PStr (json_indent 0 (sort_keys (PDict manifest)) @ [CHR 10]))] @
     (if system_prompt = [] then [] else [(''system_prompt.md'', PStr system_prompt)]) @ (if soul = [] then [] else [(''soul.md'', PStr soul)])"

definition sync_user_agent_prompt_policy :: "worker_env \<Rightarrow> string \<Rightarrow> payload \<Rightarrow> string \<Rightarrow> string \<Rightarrow> catalog \<Rightarrow> py_error + catalog" where
  "sync_user_agent_prompt_policy we worker_id files actor_email uid db =
     bindE (sync_worker_system_prompt_policy we worker_id files actor_email uid True db) (\<lambda>(written, db).
       if written then Inr db else Inl (RuntimeError (''No se pudo sincronizar system_prompt/'' @ worker_id)))"

definition agent_worker_id :: "payload \<Rightarrow> py_error + string" where
  "agent_worker_id payload = bindE (sanitize_worker_id (gstr payload ''worker_id'' [])) sanitize_catalog_worker_id"

text \<open>The request \<open>_apply_upsert_worker\<close> gets for a user agent.\<close>

definition agent_request :: "payload \<Rightarrow> string \<Rightarrow> string \<Rightarrow> string \<Rightarrow> string \<Rightarrow> string \<Rightarrow> string \<Rightarrow> payload \<Rightarrow> payload \<Rightarrow> payload" where
  "agent_request payload worker_id display_name tenant_id owner source_template_id system_prompt manifest files = dict_merge payload
     [(''worker_uid'', PStr (opt_str payload ''worker_uid'' [])), (''worker_id'', PStr worker_id), (''display_name'', PStr display_name),
      (''tenant_id'', PStr tenant_id), (''actor_email'', PStr owner), (''source_kind'', PStr ''runtime''),
      (''source_template_id'', PStr source_template_id), (''visibility'', PStr ''private''), (''system_prompt'', PStr system_prompt),
      (''manifest_snapshot'', PDict manifest), (''files_snapshot'', PDict files)]"

definition put_user_agent :: "string \<Rightarrow> string \<Rightarrow> string \<Rightarrow> string \<Rightarrow> string \<Rightarrow> string \<Rightarrow> catalog \<Rightarrow> catalog" where
  "put_user_agent tenant_id owner worker_id display_name source_template_id uid db = db\<lparr>wc_agents := tbl_put ua_key
     \<lparr>ua_tenant = tenant_id, ua_owner = owner, ua_worker = worker_id, ua_name = display_name, ua_template = source_template_id,
      ua_manifest = ''db://admin_worker_catalog/'' @ uid @ ''/manifest.json'', ua_active = True\<rparr> (wc_agents db)\<rparr>"

text \<open>What follows once the worker is in the catalog.\<close>

definition finish_user_agent ::
  "worker_env \<Rightarrow> string \<Rightarrow> string \<Rightarrow> string \<Rightarrow> string \<Rightarrow> string \<Rightarrow> string \<Rightarrow> payload \<Rightarrow> catalog \<Rightarrow> py_error + catalog" where
  "finish_user_agent we tenant_id owner worker_id display_name source_template_id soul files db =
     (case resolve_worker_uid db worker_id tenant_id of
       None \<Rightarrow> Inl (RuntimeError ''user agent worker insert failed'')
     | Some uid \<Rightarrow> if uid = [] then Inl (RuntimeError ''user agent worker insert failed'')
       else bindE (if soul = [] then Inr db else put_context we 2 uid ''soul.md'' soul 20 db) (\<lambda>db.
         sync_user_agent_prompt_policy we worker_id files owner uid
           (put_user_agent tenant_id owner worker_id display_name source_template_id uid db)))"

definition apply_upsert_user_agent :: "worker_env \<Rightarrow> payload \<Rightarrow> catalog \<Rightarrow> py_error + catalog" where
  "apply_upsert_user_agent we payload db =
     bindE (actor_scope we payload db) (\<lambda>(tenant_id, owner, db).
     bindE (agent_worker_id payload) (\<lambda>worker_id. let
       display_name = str_or (take 256 (strip (gstr payload ''display_name'' worker_id))) worker_id;
       source_template_id = str_or (take 64 (strip (gstr payload ''source_template_id'' ''default''))) ''default'';
       system_prompt = opt_str payload ''system_prompt'' [];
       soul = opt_str payload ''soul'' []
     in if length system_prompt < 80 then Inl (ValueError ''system_prompt debe tener al menos 80 caracteres'')
       else if length soul < 20 then Inl (ValueError ''soul debe tener al menos 20 caracteres'')
       else bindE (agent_skills we payload) (\<lambda>skills. let
           manifest = agent_manifest payload worker_id display_name owner tenant_id source_template_id system_prompt skills;
           files = agent_files manifest system_prompt soul
         in bindE (apply_upsert_worker we
              (agent_request payload worker_id display_name tenant_id owner source_template_id system_prompt manifest files) db) (\<lambda>db.
            finish_user_agent we tenant_id owner worker_id display_name source_template_id soul files db))))"

subsection \<open>Catalog skills\<close>

definition catalog_skill_name :: "payload \<Rightarrow> py_error + string" where
  "catalog_skill_name payload = (let name = opt_str payload ''name'' [] in
     if name = [] then Inl (ValueError ''skill name required'')
     else if 128 < length name then Inl (ValueError ''skill name too long'') else Inr name)"

definition catalog_skill_visibility :: "payload \<Rightarrow> py_error + string" where
  "catalog_skill_visibility payload = (let visibility = str_or (lower (opt_str payload ''visibility'' ''private'')) ''private'' in
     if visibility \<notin> {''private'', ''public''} then Inl (ValueError (''Invalid catalog skill visibility: '' @ visibility)) else Inr visibility)"

definition apply_upsert_catalog_skill :: "worker_env \<Rightarrow> payload \<Rightarrow> catalog \<Rightarrow> py_error + catalog" where
  "apply_upsert_catalog_skill we payload db =
     bindE (actor_scope we payload db) (\<lambda>(tenant_id, owner, db).
     bindE (catalog_skill_name payload) (\<lambda>name. let
       description = take 4096 (opt_str payload ''description'' []);
       skill_type = str_or (take 64 (opt_str payload ''skill_type'' ''python'')) ''python'';
       implementation_ref = take 512 (opt_str payload ''implementation_ref'' [])
     in if implementation_ref = [] then Inl (ValueError ''implementation_ref required'')
       else bindE (catalog_skill_visibility payload) (\<lambda>visibility.
         case sel_one (\<lambda>s. sk_name s = name) (wc_skills db) of
           Some s \<Rightarrow> if lower (strip (sk_owner s)) \<noteq> owner \<or> sk_tenant s \<noteq> tenant_id
             then Inl (ValueError (''Catalog skill name already exists: '' @ name))
             else Inr (db\<lparr>wc_skills := upd_where (\<lambda>t. sk_id t = sk_id s) (\<lambda>t. t\<lparr>sk_description := description, sk_type := skill_type,
               sk_ref := implementation_ref, sk_visibility := visibility, sk_active := True\<rparr>) (wc_skills db)\<rparr>)
         | None \<Rightarrow> bindE (ins_row sk_id \<lparr>sk_id = ''skl_'' @ uuid_hex (we_env we) 0, sk_name = name, sk_description = description,
               sk_type = skill_type, sk_ref = implementation_ref, sk_owner = owner, sk_tenant = tenant_id, sk_visibility = visibility,
               sk_active = True\<rparr> (wc_skills db)) (\<lambda>rows. Inr (db\<lparr>wc_skills := rows\<rparr>)))))"

definition apply_deactivate_catalog_skill :: "worker_env \<Rightarrow> payload \<Rightarrow> catalog \<Rightarrow> py_error + catalog" where
  "apply_deactivate_catalog_skill we payload db =
     bindE (actor_scope we payload db) (\<lambda>(tenant_id, owner, db).
     bindE (catalog_skill_name payload) (\<lambda>name.
     Inr (db\<lparr>wc_skills := upd_where (\<lambda>s. sk_name s = name \<and> sk_owner s = owner \<and> sk_tenant s = tenant_id)
       (\<lambda>s. s\<lparr>sk_active := False\<rparr>) (wc_skills db)\<rparr>)))"

definition apply_hard_delete_catalog_skill :: "worker_env \<Rightarrow> payload \<Rightarrow> catalog \<Rightarrow> py_error + catalog" where
  "apply_hard_delete_catalog_skill we payload db =
     bindE (actor_scope we payload db) (\<lambda>(tenant_id, owner, db).
     bindE (catalog_skill_name payload) (\<lambda>name. case sel_one (\<lambda>s. sk_name s = name) (wc_skills db) of
         None \<Rightarrow> Inr db
       | Some s \<Rightarrow> if lower (strip (sk_owner s)) \<noteq> lower (strip owner) \<or> sk_tenant s \<noteq> tenant_id
         then Inl (ValueError (''Catalog skill not owned by actor: '' @ name))
         else Inr (db\<lparr>wc_bound := del_where (\<lambda>b. bs_skill b = sk_id s) (wc_bound db), wc_skills := del_where (\<lambda>t. sk_id t = sk_id s) (wc_skills db)\<rparr>)))"

subsection \<open>Handlers of the owner\<close>

definition catalog_worker_actor :: "payload \<Rightarrow> py_error + string" where
  "catalog_worker_actor payload = (let actor = payload_actor payload in
     if CHR ''@'' \<notin> set actor then Inl (ValueError ''actor_email required for catalog worker mutation'') else Inr actor)"

definition catalog_worker_id :: "payload \<Rightarrow> py_error + string" where
  "catalog_worker_id payload = (let worker_id = opt_str payload ''worker_id'' [] in
     if worker_id = [] then Inl (ValueError ''worker_id required'') else Inr worker_id)"

definition apply_update_catalog_worker_file :: "worker_env \<Rightarrow> payload \<Rightarrow> catalog \<Rightarrow> py_error + catalog" where
  "apply_update_catalog_worker_file we payload db =
     bindE (catalog_worker_actor payload) (\<lambda>actor. bindE (catalog_worker_id payload) (\<lambda>worker_id.
     bindE (get_visible_worker_for_actor we actor worker_id db) (\<lambda>(w, db). case w of
         None \<Rightarrow> Inl (ValueError (''Worker not visible in catalog: '' @ worker_id))
       | Some w \<Rightarrow> update_catalog_worker_file we (cw_uid w) (gstr payload ''file_path'' []) (gstr payload ''content'' []) actor db)))"

definition apply_set_worker_a2a_discoverable :: "worker_env \<Rightarrow> payload \<Rightarrow> catalog \<Rightarrow> py_error + catalog" where
  "apply_set_worker_a2a_discoverable we payload db = (let tenant_id = dflt_str payload ''tenant_id'' ''default'' in
     bindE (catalog_worker_id payload) (\<lambda>worker_id.
     bindE (get_worker_by_tenant_worker_id we db tenant_id worker_id) (\<lambda>w. case w of
         None \<Rightarrow> Inl (ValueError (''Worker not found in catalog: '' @ worker_id))
       | Some w \<Rightarrow> set_worker_a2a_discoverable we (cw_uid w) (truthy (pget payload ''discoverable'' PNone)) db)))"

definition owner_handler ::
  "(worker_env \<Rightarrow> string \<Rightarrow> string \<Rightarrow> catalog \<Rightarrow> py_error + catalog_worker option \<times> catalog) \<Rightarrow> string \<Rightarrow> worker_env \<Rightarrow> payload \<Rightarrow> catalog \<Rightarrow> py_error + catalog" where
  "owner_handler act message we payload db =
     bindE (catalog_worker_actor payload) (\<lambda>actor. bindE (catalog_worker_id payload) (\<lambda>worker_id.
     bindE (act we actor worker_id db) (\<lambda>(w, db).
       if w = None then Inl (ValueError (message @ worker_id)) else Inr db)))"

definition apply_deactivate_catalog_worker :: "worker_env \<Rightarrow> payload \<Rightarrow> catalog \<Rightarrow> py_error + catalog" where
  "apply_deactivate_catalog_worker = owner_handler deactivate_visible_worker_for_actor ''Worker not found in catalog: ''"

definition apply_reactivate_catalog_worker :: "worker_env \<Rightarrow> payload \<Rightarrow> catalog \<Rightarrow> py_error + catalog" where
  "apply_reactivate_catalog_worker = owner_handler reactivate_visible_worker_for_actor ''Inactive worker not found in catalog: ''"

definition apply_hard_delete_catalog_worker :: "worker_env \<Rightarrow> payload \<Rightarrow> catalog \<Rightarrow> py_error + catalog" where
  "apply_hard_delete_catalog_worker = owner_handler hard_delete_visible_worker_for_actor ''Worker not found in catalog: ''"

subsection \<open>Renaming\<close>

definition update_latest_manifest_worker_id :: "string \<Rightarrow> string \<Rightarrow> catalog \<Rightarrow> catalog" where
  "update_latest_manifest_worker_id uid new_worker_id db = (case top_by wv_version (sel_all (\<lambda>v. wv_uid v = uid) (wc_versions db)) of
       None \<Rightarrow> db
     | Some v \<Rightarrow> (case wv_manifest v of
         Some (PDict m) \<Rightarrow> if gstr m ''id'' [] = new_worker_id then db
           else db\<lparr>wc_versions := upd_where (\<lambda>x. wv_key x = (uid, wv_version v)) (\<lambda>x. x\<lparr>wv_manifest := Some (PDict (pset ''id'' (PStr new_worker_id) m))\<rparr>)
             (wc_versions db)\<rparr>
       | _ \<Rightarrow> db))"

text \<open>The prompt under the new name, from the latest files or from the prompt of the old name, which is then retired.\<close>

definition move_registry_prompt :: "worker_env \<Rightarrow> string \<Rightarrow> string \<Rightarrow> string \<Rightarrow> string \<Rightarrow> catalog \<Rightarrow> py_error + catalog" where
  "move_registry_prompt we old_id new_id uid actor db = (case top_by pp_version (sel_all (is_active_policy ''system_prompt'' old_id) (wc_policies db)) of
       None \<Rightarrow> Inr db
     | Some r \<Rightarrow> if strip (pp_content r) = [] then Inr db
       else bindE (put_system_prompt we new_id (pp_content r) [(''seed'', PStr ''rename_catalog_worker''), (''owner'', PStr actor),
           (''worker_id'', PStr new_id), (''worker_uid'', PStr uid), (''source'', PStr ''admin_worker_catalog'')] (wc_policies db))
         (\<lambda>rows. Inr (db\<lparr>wc_policies := rows\<rparr>)))"

definition migrate_system_prompt_policy_name :: "worker_env \<Rightarrow> string \<Rightarrow> string \<Rightarrow> string \<Rightarrow> string \<Rightarrow> catalog \<Rightarrow> py_error + catalog" where
  "migrate_system_prompt_policy_name we old_id new_id uid actor db =
     bindE (latest_files we db uid) (\<lambda>files.
     bindE (if files \<noteq> [] then bindE (sync_worker_system_prompt_policy we new_id files actor uid True db) (\<lambda>(_, db). Inr db)
       else move_registry_prompt we old_id new_id uid actor db) (\<lambda>db.
     Inr (db\<lparr>wc_policies := retire_prompts we old_id (wc_policies db)\<rparr>)))"

definition rename_user_agent :: "string \<Rightarrow> string \<Rightarrow> string \<Rightarrow> catalog \<Rightarrow> catalog" where
  "rename_user_agent tenant_id old_id new_id db = (if has_key ua_key (tenant_id, new_id) (wc_agents db)
     then db\<lparr>wc_agents := del_where (\<lambda>a. ua_key a = (tenant_id, old_id)) (wc_agents db)\<rparr>
     else db\<lparr>wc_agents := upd_where (\<lambda>a. ua_key a = (tenant_id, old_id)) (\<lambda>a. a\<lparr>ua_worker := new_id\<rparr>) (wc_agents db)\<rparr>)"

definition rename_references :: "string \<Rightarrow> string \<Rightarrow> string \<Rightarrow> catalog \<Rightarrow> catalog" where
  "rename_references tenant_id old_id new_id db = db\<lparr>
     wc_conversations := upd_where (\<lambda>c. cv_tenant c = tenant_id) (\<lambda>c. c\<lparr>
       cv_worker := (if cv_worker c = old_id then new_id else cv_worker c), cv_last := (if cv_last c = old_id then new_id else cv_last c),
       cv_preferred := (if cv_preferred c = old_id then new_id else cv_preferred c)\<rparr>) (wc_conversations db),
     wc_profiles := upd_where (\<lambda>p. pf_tenant p = tenant_id \<and> pf_worker p = old_id) (\<lambda>p. p\<lparr>pf_worker := new_id\<rparr>) (wc_profiles db)\<rparr>"

definition apply_rename_catalog_worker :: "worker_env \<Rightarrow> payload \<Rightarrow> catalog \<Rightarrow> py_error + catalog" where
  "apply_rename_catalog_worker we payload db =
     bindE (catalog_worker_actor payload) (\<lambda>actor. bindE (catalog_worker_id payload) (\<lambda>raw_id.
     bindE (bindE (sanitize_worker_id raw_id) sanitize_catalog_worker_id) (\<lambda>old_id.
     let new_raw = opt_str payload ''new_worker_id'' [] in
     if new_raw = [] then Inl (ValueError ''new_worker_id required'')
     else bindE (bindE (sanitize_worker_id new_raw) sanitize_catalog_worker_id) (\<lambda>new_id.
       if new_id \<in> {''default'', ''entry_router'', ''manager_router''} then Inl (ValueError (''Protected worker_id: '' @ new_id))
       else if new_id = old_id then Inr db
       else bindE (get_visible_worker_for_actor we actor old_id db) (\<lambda>(w, db). case w of
           None \<Rightarrow> Inl (ValueError (''Worker not visible in catalog: '' @ old_id))
         | Some w \<Rightarrow> let tenant_id = str_or (strip (str_or (cw_tenant w) (gstr payload ''tenant_id'' ''default''))) ''default''; uid = cw_uid w in
           if sel_one (\<lambda>v. cw_tenant v = tenant_id \<and> cw_worker_id v = new_id \<and> cw_uid v \<noteq> uid) (wc_workers db) \<noteq> None
           then Inl (ValueError (''worker_id ya existe para el tenant: '' @ new_id))
           else let
             db = db\<lparr>wc_workers := upd_where (\<lambda>v. cw_uid v = uid \<and> cw_tenant v = tenant_id)
               (\<lambda>v. v\<lparr>cw_worker_id := new_id, cw_updated_at := now (we_env we)\<rparr>) (wc_workers db)\<rparr>;
             db = update_latest_manifest_worker_id uid new_id (rename_user_agent tenant_id old_id new_id db)
           in bindE (migrate_system_prompt_policy_name we old_id new_id uid actor db) (\<lambda>db.
              Inr (rename_references tenant_id old_id new_id db)))))))"

subsection \<open>Contexts and capabilities of a tenant's worker\<close>

definition require_worker_uid_for_tenant :: "catalog \<Rightarrow> string \<Rightarrow> string \<Rightarrow> py_error + unit" where
  "require_worker_uid_for_tenant db uid tenant_id =
     (if sel_one (\<lambda>w. cw_uid w = uid \<and> cw_tenant w = tenant_id \<and> cw_active w) (wc_workers db) = None
      then Inl (ValueError (''Worker not found for tenant: '' @ uid)) else Inr ())"

definition apply_upsert_worker_context :: "worker_env \<Rightarrow> payload \<Rightarrow> catalog \<Rightarrow> py_error + catalog" where
  "apply_upsert_worker_context we payload db = (let uid = opt_str payload ''worker_uid'' []; tenant_id = dflt_str payload ''tenant_id'' ''default'' in
     bindE (require_worker_uid_for_tenant db uid tenant_id) (\<lambda>_. bindE (gint payload ''sort_order'' 0) (\<lambda>sort_order.
     add_catalog_worker_context we uid (gstr payload ''title'' []) (gstr payload ''content_md'' []) sort_order
       (gstr payload ''actor_email'' ''system'') db)))"

definition apply_reorder_worker_contexts :: "worker_env \<Rightarrow> payload \<Rightarrow> catalog \<Rightarrow> py_error + catalog" where
  "apply_reorder_worker_contexts we payload db = (let uid = opt_str payload ''worker_uid'' []; tenant_id = dflt_str payload ''tenant_id'' ''default'' in
     bindE (require_worker_uid_for_tenant db uid tenant_id) (\<lambda>_.
     bindE (py_list (por (pget payload ''items'' PNone) (PList []))) (\<lambda>items. reorder_worker_contexts we uid items db)))"

definition apply_deactivate_worker_context :: "worker_env \<Rightarrow> payload \<Rightarrow> catalog \<Rightarrow> py_error + catalog" where
  "apply_deactivate_worker_context we payload db = (let uid = opt_str payload ''worker_uid'' []; tenant_id = dflt_str payload ''tenant_id'' ''default'' in
     bindE (require_worker_uid_for_tenant db uid tenant_id) (\<lambda>_.
     bindE (deactivate_worker_context we uid (gstr payload ''context_id'' []) (gstr payload ''actor_email'' ''system'') db) (\<lambda>(found, db).
       if found then Inr db else Inl (ValueError (''Context not found: '' @ pystr (pget payload ''context_id'' PNone))))))"

definition stable_capability_id :: "env \<Rightarrow> string \<Rightarrow> string" where
  "stable_capability_id e name = ''cap_'' @ take 24 (sha256_hex e name)"

definition normalize_capability_token :: "pyval \<Rightarrow> string \<Rightarrow> nat \<Rightarrow> py_error + string" where
  "normalize_capability_token raw field max_len = (let v = strip (pystr (por raw (PStr []))) in
     if v = [] then Inl (ValueError (field @ '' required''))
     else if max_len < length v then Inl (ValueError (field @ '' too long'')) else Inr v)"

definition json_object :: "pyval \<Rightarrow> py_error + pyval" where
  "json_object raw = (if 8192 < length (json_dict_text raw) then Inl (ValueError ''JSON payload too large'')
     else Inr (PDict (pdict_or_empty raw)))"

definition capability_row :: "payload \<Rightarrow> string \<Rightarrow> string \<Rightarrow> string \<Rightarrow> string \<Rightarrow> pyval \<Rightarrow> capability" where
  "capability_row payload capability_id name kind provider schema = \<lparr>cp_id = capability_id, cp_name = name, cp_kind = kind,
     cp_provider = provider, cp_description = take 1024 (opt_str payload ''description'' []), cp_schema = schema,
     cp_risk = str_or (take 32 (opt_str payload ''risk_level'' ''low'')) ''low'',
     cp_secret = truthy (pget payload ''requires_secret'' (PBool False)), cp_network = truthy (pget payload ''requires_network'' (PBool False)),
     cp_active = True\<rparr>"

definition put_capability :: "capability \<Rightarrow> catalog \<Rightarrow> py_error + catalog" where
  "put_capability c db = (if has_key cp_name (cp_name c) (wc_capabilities db)
     then Inr (db\<lparr>wc_capabilities := upd_where (\<lambda>x. cp_id x = cp_id c) (\<lambda>_. c) (wc_capabilities db)\<rparr>)
     else bindE (ins_row cp_id c (wc_capabilities db)) (\<lambda>rows. Inr (db\<lparr>wc_capabilities := rows\<rparr>)))"

definition apply_upsert_worker_capability :: "worker_env \<Rightarrow> payload \<Rightarrow> catalog \<Rightarrow> py_error + catalog" where
  "apply_upsert_worker_capability we payload db = (let tenant_id = dflt_str payload ''tenant_id'' ''default'' in
     bindE (normalize_capability_token (pget payload ''worker_id'' PNone) ''worker_id'' 128) (\<lambda>worker_id.
     bindE (normalize_capability_token (pget payload ''capability_name'' PNone) ''capability_name'' 128) (\<lambda>name.
     bindE (normalize_capability_token (por (pget payload ''kind'' PNone) (PStr ''runtime_policy'')) ''kind'' 64) (\<lambda>kind.
     bindE (normalize_capability_token (por (pget payload ''provider'' PNone) (PStr ''duckclaw'')) ''provider'' 128) (\<lambda>provider.
     bindE (normalize_capability_token (por (pget payload ''permission'' PNone) (PStr ''use'')) ''permission'' 32) (\<lambda>permission.
     bindE (json_object (por (pget payload ''capability_schema'' PNone) (pget payload ''schema'' PNone))) (\<lambda>schema.
     bindE (json_object (pget payload ''config'' PNone)) (\<lambda>config.
     bindE (json_object (pget payload ''policy'' PNone)) (\<lambda>policy.
     case resolve_worker_uid db worker_id tenant_id of
       None \<Rightarrow> Inl (ValueError (''Worker not found: '' @ worker_id))
     | Some uid \<Rightarrow> if uid = [] then Inl (ValueError (''Worker not found: '' @ worker_id))
       else let capability_id = (case sel_one (\<lambda>c. cp_name c = name) (wc_capabilities db) of
               Some c \<Rightarrow> cp_id c | None \<Rightarrow> stable_capability_id (we_env we) name)
         in bindE (put_capability (capability_row payload capability_id name kind provider schema) db) (\<lambda>db.
            Inr (db\<lparr>wc_granted := tbl_put gc_key \<lparr>gc_uid = uid, gc_capability = capability_id, gc_permission = permission,
              gc_config = config, gc_policy = policy, gc_enabled = True\<rparr> (wc_granted db)\<rparr>)))))))))))"

definition list_worker_capabilities :: "worker_env \<Rightarrow> (string list \<Rightarrow> (capability \<times> string) list) \<Rightarrow> catalog \<Rightarrow> string \<Rightarrow> (capability \<times> string) list" where
  "list_worker_capabilities we other db uid = with_lits [(uid, 64)] other
     (\<lambda>vs. sort_key (\<lambda>p. cp_name (fst p)) (concat (map (\<lambda>g. if gc_uid g = vs ! 0 \<and> gc_enabled g
        then map (\<lambda>c. (c, gc_permission g)) (filter (\<lambda>c. cp_id c = gc_capability g \<and> cp_active c) (wc_capabilities db)) else []) (wc_granted db))))"

end
