(* ===== verification/WorkerGuarantees.thy ===== *)
theory WorkerGuarantees
  imports WorkerCatalog
begin

text \<open>
  The library behind the properties of the worker catalog: its invariant \<open>catalog_ok\<close> and the calculus \<open>keeps\<close>, whose rules
  carry it through the handlers; what the handlers do to the prompt registry; files and versions as they read back; the
  deletion and the renaming of a worker. The properties are in \<open>WorkerLife\<close>.
\<close>

named_theorems keeps_rules \<open>a program keeps the catalog's invariant\<close>

lemma uniq_rename:
  assumes "uniq key t" "\<not> has_key key b t" "\<And>r. key r = a \<Longrightarrow> key (f r) = b"
  shows "uniq key (upd_where (\<lambda>r. key r = a) f t)"
proof -
  have m: "map key (upd_where (\<lambda>r. key r = a) f t) = map (\<lambda>k. if k = a then b else k) (map key t)"
    unfolding upd_where_def map_map comp_def using assms(3) by (auto intro: map_cong)
  have "inj_on (\<lambda>k. if k = a then b else k) (set (map key t))"
    using assms(2) by (auto simp: inj_on_def has_key_iff)
  then show ?thesis using assms(1) unfolding uniq_def m distinct_map by simp
qed

subsection \<open>The invariant\<close>

definition catalog_ok :: "worker_env \<Rightarrow> catalog \<Rightarrow> bool" where
  "catalog_ok we db \<longleftrightarrow> uniq pf_email (wc_profiles db) \<and> uniq pf_tenant (wc_profiles db) \<and>
     uniq cw_uid (wc_workers db) \<and> uniq cw_place (wc_workers db) \<and>
     uniq wv_key (wc_versions db) \<and> (\<forall>v \<in> set (wc_versions db). 1 \<le> wv_version v) \<and> uniq cx_id (wc_contexts db) \<and>
     uniq sk_id (wc_skills db) \<and> uniq sk_name (wc_skills db) \<and> uniq bs_key (wc_bound db) \<and>
     uniq cp_id (wc_capabilities db) \<and> uniq cp_name (wc_capabilities db) \<and> uniq gc_key (wc_granted db) \<and>
     uniq ua_key (wc_agents db) \<and> policies_ok (we_env we) (wc_policies db) \<and>
     distinct (wc_assignments db) \<and> distinct (wc_members db) \<and> uniq cv_id (wc_conversations db)"

text \<open>A statement with a literal cut open keeps the constraints, when it succeeds at all.\<close>

definition odd_safe :: "worker_env \<Rightarrow> bool" where
  "odd_safe we \<longleftrightarrow> (\<forall>ls db db'. catalog_ok we db \<longrightarrow> we_odd_write we ls db = Inr db' \<longrightarrow> catalog_ok we db')"

text \<open>\<open>keeps P g m\<close>: when \<open>m\<close> succeeds, the hub \<open>g\<close> finds in its result satisfies \<open>P\<close>.\<close>

definition keeps :: "(catalog \<Rightarrow> bool) \<Rightarrow> ('a \<Rightarrow> catalog) \<Rightarrow> py_error + 'a \<Rightarrow> bool" where
  "keeps P g m \<longleftrightarrow> (\<forall>x. m = Inr x \<longrightarrow> P (g x))"

lemma keepsD: "keeps P g m \<Longrightarrow> m = Inr x \<Longrightarrow> P (g x)"
  by (simp add: keeps_def)

lemma keeps_basic [keeps_rules]:
  "keeps P g (Inl e)" "P (g x) \<Longrightarrow> keeps P g (Inr x)"
  by (simp_all add: keeps_def)

lemma keeps_if [keeps_rules]: "(c \<Longrightarrow> keeps P g m) \<Longrightarrow> (\<not> c \<Longrightarrow> keeps P g n) \<Longrightarrow> keeps P g (if c then m else n)"
  by simp

lemma keeps_case [keeps_rules]:
  "(\<And>a b. x = (a, b) \<Longrightarrow> keeps P g (k a b)) \<Longrightarrow> keeps P g (case x of (a, b) \<Rightarrow> k a b)"
  "(y = None \<Longrightarrow> keeps P g m) \<Longrightarrow> (\<And>a. y = Some a \<Longrightarrow> keeps P g (n a)) \<Longrightarrow> keeps P g (case y of None \<Rightarrow> m | Some a \<Rightarrow> n a)"
  by (cases x, simp) (cases y, simp_all)

text \<open>Sequences: after an operation on the hub, after one that yields something with the hub, after a pure one.\<close>

lemma keeps_bind:
  assumes "keeps P g m" "\<And>x. P (g x) \<Longrightarrow> keeps P h (k x)"
  shows "keeps P h (bindE m k)"
  using assms by (auto simp: keeps_def)

lemma keeps_bind1:
  "keeps P (\<lambda>db. db) m \<Longrightarrow> (\<And>db. P db \<Longrightarrow> keeps P h (k db)) \<Longrightarrow> keeps P h (bindE m k)"
  by (rule keeps_bind)

lemma keeps_bind2:
  "keeps P snd m \<Longrightarrow> (\<And>a db. P db \<Longrightarrow> keeps P h (k (a, db))) \<Longrightarrow> keeps P h (bindE m k)"
  by (rule keeps_bind) auto

lemma keeps_bind3:
  "keeps P (\<lambda>(_, _, db). db) m \<Longrightarrow> (\<And>a b db. P db \<Longrightarrow> keeps P h (k (a, b, db))) \<Longrightarrow> keeps P h (bindE m k)"
  by (rule keeps_bind) auto

lemma keeps_bind_pure:
  assumes "\<And>x. m = Inr x \<Longrightarrow> keeps P h (k x)"
  shows "keeps P h (bindE m k)"
  using assms by (auto simp: keeps_def)

lemmas keeps_pure [keeps_rules] = keeps_bind_pure [where 'a = string] keeps_bind_pure [where 'a = int] keeps_bind_pure [where 'a = payload]
  keeps_bind_pure [where 'a = unit] keeps_bind_pure [where 'a = "string list"] keeps_bind_pure [where 'a = "pyval list"]
  keeps_bind_pure [where 'a = pyval] keeps_bind_pure [where 'a = "catalog_worker option"] keeps_bind_pure [where 'a = "policy_row list"]

lemma keeps_lits [keeps_rules]:
  assumes "\<And>ls. keeps P g (other ls)" "\<And>vs. keeps P g (k vs)"
  shows "keeps P g (with_lits l other k)"
  using assms by (simp add: with_lits_def Let_def split: option.split)

lemma keeps_odd [keeps_rules]: "odd_safe we \<Longrightarrow> catalog_ok we db \<Longrightarrow> keeps (catalog_ok we) (\<lambda>db. db) (we_odd_write we ls db)"
  by (auto simp: keeps_def odd_safe_def)

lemma keeps_forE:
  assumes "P db" "\<And>x db. P db \<Longrightarrow> keeps P (\<lambda>db. db) (f x db)"
  shows "keeps P (\<lambda>db. db) (forE f xs db)"
  using assms(1)
proof (induction xs arbitrary: db)
  case (Cons x xs)
  show ?case unfolding forE.simps by (rule keeps_bind1) (use assms(2) Cons in auto)
qed (simp add: keeps_def)

lemma keeps_update [simp]:
  "catalog_ok we db \<Longrightarrow> catalog_ok we (db\<lparr>wc_profiles := a\<rparr>) \<longleftrightarrow> uniq pf_email a \<and> uniq pf_tenant a"
  "catalog_ok we db \<Longrightarrow> catalog_ok we (db\<lparr>wc_workers := b\<rparr>) \<longleftrightarrow> uniq cw_uid b \<and> uniq cw_place b"
  "catalog_ok we db \<Longrightarrow> catalog_ok we (db\<lparr>wc_versions := c\<rparr>) \<longleftrightarrow> uniq wv_key c \<and> (\<forall>v \<in> set c. 1 \<le> wv_version v)"
  "catalog_ok we db \<Longrightarrow> catalog_ok we (db\<lparr>wc_contexts := d\<rparr>) \<longleftrightarrow> uniq cx_id d"
  "catalog_ok we db \<Longrightarrow> catalog_ok we (db\<lparr>wc_skills := f\<rparr>) \<longleftrightarrow> uniq sk_id f \<and> uniq sk_name f"
  "catalog_ok we db \<Longrightarrow> catalog_ok we (db\<lparr>wc_bound := g\<rparr>) \<longleftrightarrow> uniq bs_key g"
  "catalog_ok we db \<Longrightarrow> catalog_ok we (db\<lparr>wc_capabilities := h\<rparr>) \<longleftrightarrow> uniq cp_id h \<and> uniq cp_name h"
  "catalog_ok we db \<Longrightarrow> catalog_ok we (db\<lparr>wc_granted := i\<rparr>) \<longleftrightarrow> uniq gc_key i"
  "catalog_ok we db \<Longrightarrow> catalog_ok we (db\<lparr>wc_agents := j\<rparr>) \<longleftrightarrow> uniq ua_key j"
  "catalog_ok we db \<Longrightarrow> catalog_ok we (db\<lparr>wc_policies := k\<rparr>) \<longleftrightarrow> policies_ok (we_env we) k"
  "catalog_ok we db \<Longrightarrow> catalog_ok we (db\<lparr>wc_assignments := l\<rparr>) \<longleftrightarrow> distinct l"
  "catalog_ok we db \<Longrightarrow> catalog_ok we (db\<lparr>wc_members := m\<rparr>) \<longleftrightarrow> distinct m"
  "catalog_ok we db \<Longrightarrow> catalog_ok we (db\<lparr>wc_conversations := n\<rparr>) \<longleftrightarrow> uniq cv_id n"
  by (simp_all add: catalog_ok_def)

lemma catalog_okD:
  assumes "catalog_ok we db"
  shows "uniq pf_email (wc_profiles db)" "uniq pf_tenant (wc_profiles db)" "uniq cw_uid (wc_workers db)" "uniq cw_place (wc_workers db)"
    "uniq wv_key (wc_versions db)" "\<And>v. v \<in> set (wc_versions db) \<Longrightarrow> 1 \<le> wv_version v" "uniq cx_id (wc_contexts db)"
    "uniq sk_id (wc_skills db)" "uniq sk_name (wc_skills db)" "uniq bs_key (wc_bound db)" "uniq cp_id (wc_capabilities db)"
    "uniq cp_name (wc_capabilities db)" "uniq gc_key (wc_granted db)" "uniq ua_key (wc_agents db)" "policies_ok (we_env we) (wc_policies db)"
    "distinct (wc_assignments db)" "distinct (wc_members db)" "uniq cv_id (wc_conversations db)"
  using assms by (simp_all add: catalog_ok_def)

subsection \<open>The operations of the store keep it\<close>

text \<open>Conditions on rows that come from the invariant; updates that keep the keys.\<close>

lemmas catalog_uniq = catalog_okD(1-5,7-15)

lemma keeps_odd_bind [keeps_rules]:
  "odd_safe we \<Longrightarrow> catalog_ok we db \<Longrightarrow> (\<And>db. catalog_ok we db \<Longrightarrow> keeps (catalog_ok we) h (k db)) \<Longrightarrow> keeps (catalog_ok we) h (bindE (we_odd_write we ls db) k)"
  by (rule keeps_bind1 [OF keeps_odd])

lemma keeps_profile [keeps_rules]:
  assumes "catalog_ok we db" "odd_safe we"
  shows "keeps (catalog_ok we) snd (ensure_profile we email db)"
proof (cases "get_profile_by_email we db (normalize_email email)")
  case (Some p)
  then show ?thesis using assms(1) by (simp add: ensure_profile_def Let_def keeps_def)
next
  case None
  have ins: "keeps (catalog_ok we) (\<lambda>db. db) (if has_key pf_tenant (pf_tenant row) (wc_profiles db) then Inl (ConstraintError t)
      else bindE (ins_row pf_email row (wc_profiles db)) (\<lambda>rows. Inr (db\<lparr>wc_profiles := rows\<rparr>)))" for row t
    using assms catalog_okD(1,2) [OF assms(1)] by (auto simp: keeps_def)
  show ?thesis unfolding ensure_profile_def Let_def None option.case
    by (intro keeps_rules keeps_bind1 ins) (use assms in auto)
qed

lemma keeps_upd_worker [keeps_rules]:
  assumes "catalog_ok we db" "odd_safe we" "\<And>w. cw_uid (f w) = cw_uid w" "\<And>w. cw_place (f w) = cw_place w"
  shows "keeps (catalog_ok we) (\<lambda>db. db) (upd_worker we uid f db)"
  unfolding upd_worker_def by (intro keeps_rules) (use assms catalog_okD(3,4) [OF assms(1)] in \<open>auto intro: uniq_upd_where\<close>)

lemma keeps_ins_worker [keeps_rules]: "catalog_ok we db \<Longrightarrow> keeps (catalog_ok we) (\<lambda>db. db) (ins_worker w db)"
  using catalog_okD(3,4) [of we db] by (auto simp: ins_worker_def keeps_def)

lemma keeps_owned_worker:
  assumes "catalog_ok we db" "odd_safe we"
  shows "keeps (catalog_ok we) (\<lambda>(_, _, db). db) (owned_worker we actor wid db)"
  unfolding owned_worker_def
  by (intro keeps_rules keeps_bind2 [OF keeps_profile]) (use assms in auto)

lemma keeps_visible [keeps_rules]:
  assumes "catalog_ok we db" "odd_safe we"
  shows "keeps (catalog_ok we) snd (get_visible_worker_for_actor we actor wid db)"
  unfolding get_visible_worker_for_actor_def
  by (intro keeps_rules keeps_bind3 [OF keeps_owned_worker]) (use assms in auto)

lemma keeps_deactivate_worker [keeps_rules]:
  assumes "catalog_ok we db" "odd_safe we"
  shows "keeps (catalog_ok we) snd (deactivate_visible_worker_for_actor we actor wid db)"
  unfolding deactivate_visible_worker_for_actor_def
  by (intro keeps_rules keeps_bind3 [OF keeps_owned_worker] keeps_bind1 [OF keeps_upd_worker]) (use assms in \<open>auto simp: cw_place_def\<close>)

lemma keeps_reactivate_worker [keeps_rules]:
  assumes "catalog_ok we db" "odd_safe we"
  shows "keeps (catalog_ok we) snd (reactivate_visible_worker_for_actor we actor wid db)"
  unfolding reactivate_visible_worker_for_actor_def
  by (intro keeps_rules keeps_bind3 [OF keeps_owned_worker] keeps_bind1 [OF keeps_upd_worker]) (use assms in \<open>auto simp: cw_place_def\<close>)

lemma delete_worker_rows_ok [simp]: "catalog_ok we db \<Longrightarrow> catalog_ok we (delete_worker_rows uid db)"
  by (simp add: catalog_ok_def delete_worker_rows_def)

lemma keeps_hard_delete [keeps_rules]:
  assumes "catalog_ok we db" "odd_safe we"
  shows "keeps (catalog_ok we) snd (hard_delete_visible_worker_for_actor we actor wid db)"
  unfolding hard_delete_visible_worker_for_actor_def
  by (intro keeps_rules keeps_bind2 [OF keeps_profile] keeps_bind1) (use assms in \<open>auto simp: catalog_uniq\<close>)

lemma fold_max_ge:
  shows fold_max_base: "(n::int) \<le> fold max xs n" and fold_max_mem: "x \<in> set xs \<Longrightarrow> x \<le> fold max xs n"
proof -
  have g: "n \<le> fold max xs n" for n :: int and xs
    by (induction xs arbitrary: n) (auto intro: order_trans [OF max.cobounded2])
  then show "n \<le> fold max xs n" .
  show "x \<in> set xs \<Longrightarrow> x \<le> fold max xs n"
  proof (induction xs arbitrary: n)
    case (Cons y ys)
    show ?case
    proof (cases "x = y")
      case True
      have "y \<le> max y n" by simp
      then show ?thesis using True g [of "max y n" ys] by simp
    qed (use Cons in auto)
  qed simp
qed

lemma next_version_fresh: "v \<in> set (wc_versions db) \<Longrightarrow> wv_uid v = uid \<Longrightarrow> wv_version v < next_version uid db" "1 \<le> next_version uid db"
proof -
  let ?xs = "map wv_version (sel_all (\<lambda>v. wv_uid v = uid) (wc_versions db))"
  show "1 \<le> next_version uid db" using fold_max_base [of 0 ?xs] by (simp add: next_version_def)
  assume "v \<in> set (wc_versions db)" "wv_uid v = uid"
  then have "wv_version v \<in> set ?xs" by (auto simp: sel_all_def)
  from fold_max_mem [OF this, of 0] show "wv_version v < next_version uid db" by (simp add: next_version_def)
qed

lemma keeps_ins_version [keeps_rules]:
  "catalog_ok we db \<Longrightarrow> 1 \<le> wv_version v \<Longrightarrow> keeps (catalog_ok we) (\<lambda>db. db) (ins_version v db)"
  using catalog_okD(5,6) [of we db] by (auto simp: ins_version_def keeps_def)

lemma keeps_add_version [keeps_rules]:
  "catalog_ok we db \<Longrightarrow> odd_safe we \<Longrightarrow> keeps (catalog_ok we) (\<lambda>db. db) (add_worker_version we uid by manifest files note db)"
  unfolding add_worker_version_def by (intro keeps_rules) (auto simp: next_version_fresh)

lemma keeps_ins_context [keeps_rules]: "catalog_ok we db \<Longrightarrow> keeps (catalog_ok we) (\<lambda>db. db) (ins_context c db)"
  using catalog_okD(7) [of we db] by (auto simp: ins_context_def keeps_def)

lemma keeps_add_context [keeps_rules]:
  "catalog_ok we db \<Longrightarrow> odd_safe we \<Longrightarrow> keeps (catalog_ok we) (\<lambda>db. db) (add_worker_context we uid title content n db)"
  unfolding add_worker_context_def by (intro keeps_rules)

lemma keeps_update_context [keeps_rules]:
  "catalog_ok we db \<Longrightarrow> odd_safe we \<Longrightarrow> keeps (catalog_ok we) snd (update_context_content we uid title content db)"
  unfolding update_context_content_def by (intro keeps_rules keeps_bind1) (auto simp: uniq_upd_where catalog_uniq)

lemma keeps_sync_context [keeps_rules]:
  "catalog_ok we db \<Longrightarrow> odd_safe we \<Longrightarrow> keeps (catalog_ok we) (\<lambda>db. db) (sync_context we uid rel content db)"
  unfolding sync_context_def by (intro keeps_rules keeps_bind2 [OF keeps_update_context]) auto

lemma keeps_bind_skill [keeps_rules]:
  "catalog_ok we db \<Longrightarrow> odd_safe we \<Longrightarrow> keeps (catalog_ok we) (\<lambda>db. db) (upsert_worker_skill_binding we uid s config n db)"
  unfolding upsert_worker_skill_binding_def by (intro keeps_rules) (auto simp: uniq_tbl_put catalog_uniq)

lemma keeps_unbind_skill [keeps_rules]:
  "catalog_ok we db \<Longrightarrow> odd_safe we \<Longrightarrow> keeps (catalog_ok we) (\<lambda>db. db) (unbind_skill we uid s db)"
  unfolding unbind_skill_def using catalog_okD(10) [of we db] by (intro keeps_rules) (auto intro!: uniq_upd_where simp: bs_key_def)

lemma keeps_sync_skills [keeps_rules]:
  "catalog_ok we db \<Longrightarrow> odd_safe we \<Longrightarrow> keeps (catalog_ok we) (\<lambda>db. db) (sync_worker_catalog_skills_from_manifest we uid manifest db)"
  unfolding sync_worker_catalog_skills_from_manifest_def bind_skills_def Let_def
  by (intro keeps_rules keeps_forE keeps_bind1 [OF keeps_forE]) (auto intro!: keeps_rules)

lemma keeps_update_file [keeps_rules]:
  "catalog_ok we db \<Longrightarrow> odd_safe we \<Longrightarrow> keeps (catalog_ok we) (\<lambda>db. db) (update_catalog_worker_file we uid path content actor db)"
  unfolding update_catalog_worker_file_def Let_def
  by (intro keeps_rules keeps_bind1 [OF keeps_sync_context] keeps_bind1 [OF keeps_if]) auto

lemma keeps_catalog_context [keeps_rules]:
  "catalog_ok we db \<Longrightarrow> odd_safe we \<Longrightarrow> keeps (catalog_ok we) (\<lambda>db. db) (add_catalog_worker_context we uid title content n actor db)"
  unfolding add_catalog_worker_context_def Let_def by (intro keeps_rules keeps_bind1 [OF keeps_add_context])

lemma keeps_reorder [keeps_rules]:
  "catalog_ok we db \<Longrightarrow> odd_safe we \<Longrightarrow> keeps (catalog_ok we) (\<lambda>db. db) (reorder_worker_contexts we uid items db)"
proof -
  assume a: "catalog_ok we db" "odd_safe we"
  have "keeps (catalog_ok we) (\<lambda>db. db) (reorder_item we uid item db)" if "catalog_ok we db" for item db
  proof (cases item)
    case (PDict d)
    show ?thesis unfolding PDict reorder_item_def pyval.case Let_def by (intro keeps_rules) (use a that in \<open>auto simp: uniq_upd_where catalog_uniq\<close>)
  qed (simp_all add: reorder_item_def keeps_def)
  then show ?thesis unfolding reorder_worker_contexts_def using a by (intro keeps_forE)
qed

lemma keeps_deactivate_context [keeps_rules]:
  "catalog_ok we db \<Longrightarrow> odd_safe we \<Longrightarrow> keeps (catalog_ok we) snd (deactivate_worker_context we uid cid actor db)"
  unfolding deactivate_worker_context_def
  by (intro keeps_rules keeps_bind1 [OF keeps_lits] keeps_bind1 [OF keeps_add_version]) (auto simp: uniq_upd_where catalog_uniq)

lemma retire_prompts_ok [simp]: "policies_ok (we_env we) rows \<Longrightarrow> policies_ok (we_env we) (retire_prompts we nm rows)"
  unfolding retire_prompts_def by (rule demote_ok)

lemma put_system_prompt_ok: "policies_ok (we_env we) rows \<Longrightarrow> put_system_prompt we nm content md rows = Inr rows' \<Longrightarrow> policies_ok (we_env we) rows'"
  unfolding put_system_prompt_def by (erule upsert_prompt_policy_ok [OF retire_prompts_ok])

lemma keeps_sync_prompt [keeps_rules]:
  "catalog_ok we db \<Longrightarrow> keeps (catalog_ok we) snd (sync_worker_system_prompt_policy we wid files actor uid force db)"
  unfolding sync_worker_system_prompt_policy_def Let_def
  by (intro keeps_rules) (auto dest: put_system_prompt_ok [OF catalog_okD(15)])

subsection \<open>The handlers keep it\<close>

lemma keeps_worker_row [keeps_rules]:
  "catalog_ok we db \<Longrightarrow> keeps (catalog_ok we) snd (upsert_worker_row we p db)"
  unfolding upsert_worker_row_def Let_def using catalog_okD(3,4) [of we db]
  by (intro keeps_rules keeps_bind1 [OF keeps_ins_worker]) (auto intro!: uniq_upd_where simp: cw_place_def)

lemma keeps_store_snapshot [keeps_rules]: "catalog_ok we db \<Longrightarrow> keeps (catalog_ok we) (\<lambda>db. db) (store_snapshot we uid p db)"
  unfolding store_snapshot_def Let_def by (intro keeps_rules) (auto simp: next_version_fresh)

lemma keeps_put_context [keeps_rules]: "catalog_ok we db \<Longrightarrow> keeps (catalog_ok we) (\<lambda>db. db) (put_context we i uid title content n db)"
  unfolding put_context_def by (intro keeps_rules) (auto simp: uniq_upd_where catalog_uniq)

lemma keeps_upsert_worker [keeps_rules]: "catalog_ok we db \<Longrightarrow> keeps (catalog_ok we) (\<lambda>db. db) (apply_upsert_worker we p db)"
  unfolding apply_upsert_worker_def Let_def
  by (intro keeps_rules keeps_bind2 [OF keeps_worker_row] keeps_bind1 [OF keeps_store_snapshot]) auto

lemma keeps_actor_scope [keeps_rules]:
  "catalog_ok we db \<Longrightarrow> odd_safe we \<Longrightarrow> keeps (catalog_ok we) (\<lambda>(_, _, db). db) (actor_scope we p db)"
  unfolding actor_scope_def Let_def by (intro keeps_rules keeps_bind2 [OF keeps_profile]) auto

lemma keeps_finish_agent [keeps_rules]:
  "catalog_ok we db \<Longrightarrow> keeps (catalog_ok we) (\<lambda>db. db) (finish_user_agent we t owner wid name tpl soul files db)"
  unfolding finish_user_agent_def sync_user_agent_prompt_policy_def
  by (intro keeps_rules keeps_bind1 [OF keeps_if] keeps_bind2 [OF keeps_sync_prompt])
    (auto simp: put_user_agent_def uniq_tbl_put catalog_uniq)

lemma keeps_user_agent [keeps_rules]:
  "catalog_ok we db \<Longrightarrow> odd_safe we \<Longrightarrow> keeps (catalog_ok we) (\<lambda>db. db) (apply_upsert_user_agent we p db)"
  unfolding apply_upsert_user_agent_def Let_def
  by (intro keeps_rules keeps_bind3 [OF keeps_actor_scope] keeps_bind1 [OF keeps_upsert_worker]) auto

lemma keeps_skill_handlers [keeps_rules]:
  assumes "catalog_ok we db" "odd_safe we"
  shows "keeps (catalog_ok we) (\<lambda>db. db) (apply_upsert_catalog_skill we p db)" "keeps (catalog_ok we) (\<lambda>db. db) (apply_deactivate_catalog_skill we p db)"
    "keeps (catalog_ok we) (\<lambda>db. db) (apply_hard_delete_catalog_skill we p db)"
proof -
  have new: "keeps (catalog_ok we) (\<lambda>db. db) (bindE (ins_row sk_id s (wc_skills db)) (\<lambda>rows. Inr (db\<lparr>wc_skills := rows\<rparr>)))"
    if "catalog_ok we db" "sel_one (\<lambda>t. sk_name t = sk_name s) (wc_skills db) = None" for s db
    using that catalog_okD(8,9) [OF that(1)] by (auto simp: keeps_def has_key_iff sel_one_None)
  show "keeps (catalog_ok we) (\<lambda>db. db) (apply_upsert_catalog_skill we p db)"
    unfolding apply_upsert_catalog_skill_def Let_def
    by (intro new keeps_rules keeps_bind3 [OF keeps_actor_scope]) (use assms in \<open>auto simp: uniq_upd_where catalog_uniq\<close>)
  show "keeps (catalog_ok we) (\<lambda>db. db) (apply_deactivate_catalog_skill we p db)"
    unfolding apply_deactivate_catalog_skill_def
    by (intro keeps_rules keeps_bind3 [OF keeps_actor_scope]) (use assms in \<open>auto simp: uniq_upd_where catalog_uniq\<close>)
  have del: "catalog_ok we (db\<lparr>wc_bound := del_where P (wc_bound db), wc_skills := del_where Q (wc_skills db)\<rparr>)"
    if "catalog_ok we db" for db P Q using that by (simp add: catalog_ok_def)
  show "keeps (catalog_ok we) (\<lambda>db. db) (apply_hard_delete_catalog_skill we p db)"
    unfolding apply_hard_delete_catalog_skill_def
    by (intro del keeps_rules keeps_bind3 [OF keeps_actor_scope]) (use assms in auto)
qed

lemma keeps_owner_handler:
  assumes "catalog_ok we db" "\<And>actor wid. keeps (catalog_ok we) snd (act we actor wid db)"
  shows "keeps (catalog_ok we) (\<lambda>db. db) (owner_handler act message we p db)"
  unfolding owner_handler_def by (intro keeps_rules keeps_bind2 [OF assms(2)]) auto

lemma keeps_owner_handlers [keeps_rules]:
  assumes "catalog_ok we db" "odd_safe we"
  shows "keeps (catalog_ok we) (\<lambda>db. db) (apply_deactivate_catalog_worker we p db)" "keeps (catalog_ok we) (\<lambda>db. db) (apply_reactivate_catalog_worker we p db)"
    "keeps (catalog_ok we) (\<lambda>db. db) (apply_hard_delete_catalog_worker we p db)" "keeps (catalog_ok we) (\<lambda>db. db) (apply_update_catalog_worker_file we p db)"
    "keeps (catalog_ok we) (\<lambda>db. db) (apply_set_worker_a2a_discoverable we p db)"
proof -
  show "keeps (catalog_ok we) (\<lambda>db. db) (apply_deactivate_catalog_worker we p db)" "keeps (catalog_ok we) (\<lambda>db. db) (apply_reactivate_catalog_worker we p db)"
    "keeps (catalog_ok we) (\<lambda>db. db) (apply_hard_delete_catalog_worker we p db)"
    unfolding apply_deactivate_catalog_worker_def apply_reactivate_catalog_worker_def apply_hard_delete_catalog_worker_def
    using assms by (auto intro!: keeps_owner_handler keeps_deactivate_worker keeps_reactivate_worker keeps_hard_delete)
  show "keeps (catalog_ok we) (\<lambda>db. db) (apply_update_catalog_worker_file we p db)"
    unfolding apply_update_catalog_worker_file_def by (intro keeps_rules keeps_bind2 [OF keeps_visible]) (use assms in auto)
  show "keeps (catalog_ok we) (\<lambda>db. db) (apply_set_worker_a2a_discoverable we p db)"
    unfolding apply_set_worker_a2a_discoverable_def set_worker_a2a_discoverable_def Let_def
    by (intro keeps_rules) (use assms in \<open>auto simp: cw_place_def\<close>)
qed

lemma keeps_context_handlers [keeps_rules]:
  assumes "catalog_ok we db" "odd_safe we"
  shows "keeps (catalog_ok we) (\<lambda>db. db) (apply_upsert_worker_context we p db)" "keeps (catalog_ok we) (\<lambda>db. db) (apply_reorder_worker_contexts we p db)"
    "keeps (catalog_ok we) (\<lambda>db. db) (apply_deactivate_worker_context we p db)" "keeps (catalog_ok we) (\<lambda>db. db) (apply_deactivate_worker we p db)"
proof -
  show "keeps (catalog_ok we) (\<lambda>db. db) (apply_upsert_worker_context we p db)"
    unfolding apply_upsert_worker_context_def Let_def by (intro keeps_rules) (use assms in auto)
  show "keeps (catalog_ok we) (\<lambda>db. db) (apply_reorder_worker_contexts we p db)"
    unfolding apply_reorder_worker_contexts_def Let_def by (intro keeps_rules) (use assms in auto)
  show "keeps (catalog_ok we) (\<lambda>db. db) (apply_deactivate_worker_context we p db)"
    unfolding apply_deactivate_worker_context_def Let_def
    by (intro keeps_rules keeps_bind2 [OF keeps_deactivate_context]) (use assms in auto)
  show "keeps (catalog_ok we) (\<lambda>db. db) (apply_deactivate_worker we p db)"
    unfolding apply_deactivate_worker_def Let_def
    by (intro keeps_rules keeps_bind_pure) (use assms in \<open>auto intro!: uniq_upd_where simp: catalog_uniq cw_place_def\<close>)
qed

lemma put_capability_ok:
  assumes "catalog_ok we db" "put_capability c db = Inr db'"
    and "\<And>d. has_key cp_name (cp_name c) (wc_capabilities db) \<Longrightarrow> d \<in> set (wc_capabilities db) \<Longrightarrow> cp_id d = cp_id c \<longleftrightarrow> cp_name d = cp_name c"
  shows "catalog_ok we db'"
proof (cases "has_key cp_name (cp_name c) (wc_capabilities db)")
  case True
  let ?f = "\<lambda>d. if cp_id d = cp_id c then c else d"
  have k: "cp_id (?f d) = cp_id d" "cp_name (?f d) = cp_name d" if "d \<in> set (wc_capabilities db)" for d using assms(3) [OF True that] by auto
  have "map cp_id (upd_where (\<lambda>x. cp_id x = cp_id c) (\<lambda>_. c) (wc_capabilities db)) = map cp_id (wc_capabilities db)"
    "map cp_name (upd_where (\<lambda>x. cp_id x = cp_id c) (\<lambda>_. c) (wc_capabilities db)) = map cp_name (wc_capabilities db)"
    unfolding upd_where_def map_map comp_def using k by (auto intro: map_cong)
  then show ?thesis using assms(1,2) True catalog_okD(11,12) [OF assms(1)] by (auto simp: put_capability_def uniq_def)
next
  case False
  then show ?thesis using assms(1,2) catalog_okD(11,12) [OF assms(1)] by (auto simp: put_capability_def)
qed

lemma keeps_capability_handler [keeps_rules]:
  assumes "catalog_ok we db"
  shows "keeps (catalog_ok we) (\<lambda>db. db) (apply_upsert_worker_capability we p db)"
proof -
  have put: "keeps (catalog_ok we) (\<lambda>db. db) (put_capability (capability_row p (case sel_one (\<lambda>c. cp_name c = n) (wc_capabilities db) of
      Some c \<Rightarrow> cp_id c | None \<Rightarrow> stable_capability_id (we_env we) n) n k v s) db)" for n k v s
  proof (unfold keeps_def, intro allI impI, rule put_capability_ok [OF assms(1)], assumption)
    let ?id = "case sel_one (\<lambda>c. cp_name c = n) (wc_capabilities db) of Some c \<Rightarrow> cp_id c | None \<Rightarrow> stable_capability_id (we_env we) n"
    fix d assume h: "has_key cp_name (cp_name (capability_row p ?id n k v s)) (wc_capabilities db)" and d: "d \<in> set (wc_capabilities db)"
    from h obtain c where Some: "sel_one (\<lambda>c. cp_name c = n) (wc_capabilities db) = Some c"
      by (cases "sel_one (\<lambda>c. cp_name c = n) (wc_capabilities db)") (auto simp: capability_row_def has_key_iff sel_one_None)
    note c = sel_one_Some [OF Some]
    show "cp_id d = cp_id (capability_row p ?id n k v s) \<longleftrightarrow> cp_name d = cp_name (capability_row p ?id n k v s)"
      using uniq_eq [OF catalog_okD(11) [OF assms(1)] d, of c] uniq_eq [OF catalog_okD(12) [OF assms(1)] d, of c] c
      by (auto simp: capability_row_def Some)
  qed
  show ?thesis unfolding apply_upsert_worker_capability_def Let_def
    by (intro keeps_rules keeps_bind1 [OF put]) (use assms in \<open>auto simp: uniq_tbl_put catalog_uniq\<close>)
qed

lemma top_version_mem:
  "top_by wv_version (sel_all (\<lambda>v. wv_uid v = uid) vs) = Some v \<Longrightarrow> v \<in> set vs \<and> wv_uid v = uid"
  using top_by_mem [of wv_version "sel_all (\<lambda>v. wv_uid v = uid) vs" v] by (simp add: sel_all_def)

lemma rename_manifest_ok [simp]: "catalog_ok we db \<Longrightarrow> catalog_ok we (update_latest_manifest_worker_id uid new db)"
proof -
  assume a: "catalog_ok we db"
  have "catalog_ok we (db\<lparr>wc_versions := upd_where P (\<lambda>x. x\<lparr>wv_manifest := m\<rparr>) (wc_versions db)\<rparr>)" for P m
    using a catalog_okD(5,6) [OF a] by (auto intro!: uniq_upd_where simp: wv_key_def ball_upd_where_iff)
  then show ?thesis using a by (simp add: update_latest_manifest_worker_id_def split: option.split pyval.split)
qed

lemma rename_agent_ok [simp]: "catalog_ok we db \<Longrightarrow> catalog_ok we (rename_user_agent t old new db)"
proof -
  assume a: "catalog_ok we db"
  note u = catalog_okD(14) [OF a]
  have "uniq ua_key (upd_where (\<lambda>x. ua_key x = (t, old)) (\<lambda>x. x\<lparr>ua_worker := new\<rparr>) (wc_agents db))" if "\<not> has_key ua_key (t, new) (wc_agents db)"
    by (rule uniq_rename [OF u that]) (auto simp: ua_key_def)
  then show ?thesis using a u by (simp add: rename_user_agent_def)
qed

lemma rename_references_ok [simp]: "catalog_ok we db \<Longrightarrow> catalog_ok we (rename_references t old new db)"
  by (auto intro!: uniq_upd_where simp: rename_references_def catalog_ok_def)

lemma keeps_migrate [keeps_rules]:
  "catalog_ok we db \<Longrightarrow> keeps (catalog_ok we) (\<lambda>db. db) (migrate_system_prompt_policy_name we old new uid actor db)"
  unfolding migrate_system_prompt_policy_name_def move_registry_prompt_def
  by (intro keeps_rules keeps_bind1 [OF keeps_if] keeps_bind2 [OF keeps_sync_prompt])
    (auto dest: put_system_prompt_ok [OF catalog_okD(15)] simp: catalog_uniq)

lemma upd_where_cong: "(\<And>r. r \<in> set t \<Longrightarrow> P r = Q r) \<Longrightarrow> upd_where P f t = upd_where Q f t"
  by (simp add: upd_where_def)

lemma renamed_places:
  assumes "uniq cw_uid ws" "uniq cw_place ws" "sel_one (\<lambda>v. cw_tenant v = t \<and> cw_worker_id v = new \<and> cw_uid v \<noteq> u) ws = None"
  shows "uniq cw_place (upd_where (\<lambda>v. cw_uid v = u \<and> cw_tenant v = t) (\<lambda>v. v\<lparr>cw_worker_id := new, cw_updated_at := n\<rparr>) ws)"
proof (cases "\<exists>w \<in> set ws. cw_uid w = u \<and> cw_tenant w = t")
  case False
  then have "upd_where (\<lambda>v. cw_uid v = u \<and> cw_tenant v = t) f ws = ws" for f unfolding upd_where_def by (intro map_idI) auto
  then show ?thesis using assms(2) by simp
next
  case True
  then obtain w where w: "w \<in> set ws" "cw_uid w = u" "cw_tenant w = t" by blast
  have e: "(cw_uid v = u \<and> cw_tenant v = t) = (cw_place v = cw_place w)" if "v \<in> set ws" for v
    using uniq_eq [OF assms(1) that w(1)] uniq_eq [OF assms(2) that w(1)] w(2,3) by auto
  have "uniq cw_place (upd_where (\<lambda>v. cw_place v = cw_place w) (\<lambda>v. v\<lparr>cw_worker_id := new, cw_updated_at := n\<rparr>) ws)"
  proof (cases "has_key cw_place (t, new) ws")
    case True
    then obtain x where x: "x \<in> set ws" "cw_tenant x = t" "cw_worker_id x = new" by (auto simp: has_key_iff cw_place_def)
    then have "cw_uid x = u" using assms(3) by (auto simp: sel_one_None)
    then have "x = w" using uniq_eq [OF assms(1) x(1) w(1)] w(2) by simp
    then have "cw_place w = (t, new)" using x by (simp add: cw_place_def)
    then show ?thesis by (intro uniq_upd_where [OF assms(2)]) (auto simp: cw_place_def)
  next
    case False
    show ?thesis by (rule uniq_rename [OF assms(2) False]) (use w(3) in \<open>auto simp: cw_place_def\<close>)
  qed
  then show ?thesis using upd_where_cong [of ws _ _ "\<lambda>v. v\<lparr>cw_worker_id := new, cw_updated_at := n\<rparr>", OF e] by simp
qed

lemma renamed_ok:
  assumes "catalog_ok we db" "\<not> sel_one (\<lambda>v. cw_tenant v = t \<and> cw_worker_id v = new \<and> cw_uid v \<noteq> u) (wc_workers db) \<noteq> None"
  shows "catalog_ok we (db\<lparr>wc_workers := upd_where (\<lambda>v. cw_uid v = u \<and> cw_tenant v = t)
    (\<lambda>v. v\<lparr>cw_worker_id := new, cw_updated_at := n\<rparr>) (wc_workers db)\<rparr>)"
  using assms catalog_okD(3,4) [OF assms(1)] renamed_places by (auto intro!: uniq_upd_where)

lemma keeps_rename [keeps_rules]:
  assumes "catalog_ok we db" "odd_safe we"
  shows "keeps (catalog_ok we) (\<lambda>db. db) (apply_rename_catalog_worker we p db)"
  unfolding apply_rename_catalog_worker_def Let_def
  by (intro keeps_rules keeps_bind2 [OF keeps_visible] keeps_bind1 [OF keeps_migrate] rename_manifest_ok rename_agent_ok
      renamed_ok rename_references_ok) (use assms in auto)

definition catalog_handlers :: "(worker_env \<Rightarrow> payload \<Rightarrow> catalog \<Rightarrow> py_error + catalog) list" where
  "catalog_handlers = [\<lambda>we. apply_upsert_worker we, apply_upsert_user_agent, apply_upsert_catalog_skill, apply_deactivate_catalog_skill,
     apply_hard_delete_catalog_skill, apply_deactivate_worker, apply_update_catalog_worker_file, apply_set_worker_a2a_discoverable,
     apply_deactivate_catalog_worker, apply_reactivate_catalog_worker, apply_hard_delete_catalog_worker, apply_rename_catalog_worker,
     apply_upsert_worker_context, apply_reorder_worker_contexts, apply_deactivate_worker_context, apply_upsert_worker_capability]"

subsection \<open>The prompt the owner wrote is the one that loads\<close>

lemma id_char_not_space: "id_char c \<Longrightarrow> \<not> is_space c"
  by (auto simp: id_char_def is_space_def is_alpha_ascii_def is_digit_def Let_def)

lemma id_runs_chars: "\<forall>c \<in> set (id_runs b s). id_char c"
  by (induction b s rule: id_runs.induct) (auto simp: id_char_def)

lemma lower_id_char: "id_char c \<Longrightarrow> id_char (lower_char c)"
proof -
  assume c: "id_char c"
  have "code c < 128"
    using c unfolding id_char_def is_alpha_ascii_def is_digit_def by (elim disjE conjE) simp_all
  show ?thesis
  proof (cases "65 \<le> code c \<and> code c \<le> 90")
    case True
    then have "code (lower_char c) = code c + 32" by (simp add: lower_char_def Let_def of_char_of)
    then show ?thesis using True by (simp add: id_char_def is_alpha_ascii_def)
  next
    case False
    then have "lower_char c = c" using \<open>code c < 128\<close> by (auto simp: lower_char_def Let_def)
    with c show ?thesis by simp
  qed
qed

lemma catalog_id_chars:
  assumes "sanitize_catalog_worker_id raw = Inr wid"
  shows "\<forall>c \<in> set wid. id_char c" "wid \<noteq> []" "length wid \<le> 64"
proof -
  let ?w = "lower (strip_chars ''-_'' (id_runs False (strip raw)))"
  from assms have w: "?w \<noteq> []" "wid = take 64 ?w" by (auto simp: sanitize_catalog_worker_id_def Let_def split: if_split_asm)
  have "\<forall>c \<in> set ?w. id_char c"
    using set_strip_chars id_runs_chars lower_id_char unfolding lower_def set_map by blast
  then show "\<forall>c \<in> set wid. id_char c" unfolding w(2) by (meson in_set_takeD)
  show "wid \<noteq> []" "length wid \<le> 64" using w by simp_all
qed

lemma catalog_id_stripped: "sanitize_catalog_worker_id raw = Inr wid \<Longrightarrow> strip wid = wid"
  using catalog_id_chars(1) [of raw wid] id_char_not_space by (intro strip_no_space) blast

text \<open>A prompt that is put under a name is what loads under it.\<close>

lemma active_prompt_loads:
  assumes "policies_ok e rows" "r \<in> set rows" "is_active_policy ''system_prompt'' nm r" "strip nm = nm" "nm \<noteq> []"
  shows "load_policy pack (Some (Some rows)) ''system_prompt'' nm = Inr (strip (pp_content r))"
proof -
  have "normalize_policy_type ''system_prompt'' = ''system_prompt''" by code_simp
  then show ?thesis using resolve_once_active [OF assms(1-3), of pack] try_load_active(2) [OF assms(1-3)] assms(4,5)
    by (simp add: load_policy_def resolve_policy_def Let_def)
qed

lemma put_prompt_row:
  assumes "policies_ok (we_env we) rows" "put_system_prompt we nm content md rows = Inr rows'" "strip nm = nm" "nm \<noteq> []" "content \<noteq> []"
  shows "policies_ok (we_env we) rows'" "\<exists>r \<in> set rows'. is_active_policy ''system_prompt'' nm r \<and> pp_content r = content"
proof -
  let ?p = "[(''policy_type'', PStr ''system_prompt''), (''policy_name'', PStr nm), (''version'', PInt (next_policy_version ''system_prompt'' nm rows)),
      (''status'', PStr ''active''), (''content'', PStr content), (''metadata'', PDict md)]"
  have h: "apply_upsert_prompt_policy (we_env we) ?p (retire_prompts we nm rows) = Inr rows'" using assms(2) by (simp add: put_system_prompt_def)
  note ok0 = retire_prompts_ok [OF assms(1), of nm]
  show "policies_ok (we_env we) rows'" by (rule upsert_prompt_policy_ok [OF ok0 h])
  have st: "lower (opt_str ?p ''status'' ''active'') = ''active''" by (simp add: opt_str_def gstr_def por_def) code_simp
  have nt: "normalize_prompt_policy_type (PStr ''system_prompt'') = Inr ''system_prompt''" by code_simp
  obtain ty r where r: "normalize_prompt_policy_type (pget ?p ''policy_type'' PNone) = Inr ty" "r \<in> set rows'"
      "is_active_policy ty (opt_str ?p ''policy_name'' []) r" "pp_content r = gstr ?p ''content'' []"
    using upsert_active_row [OF ok0 h st] by metis
  have f: "ty = ''system_prompt''" "opt_str ?p ''policy_name'' [] = nm" "gstr ?p ''content'' [] = content"
    using r(1) nt assms(3-5) by (simp_all add: opt_str_def gstr_def por_def)
  show "\<exists>r \<in> set rows'. is_active_policy ''system_prompt'' nm r \<and> pp_content r = content"
    using r(2) r(3,4) [unfolded f] by blast
qed

lemma synced_row:
  assumes "catalog_ok we db" "sync_worker_system_prompt_policy we wid files actor uid True db = Inr (True, db')" "strip wid = wid"
  shows "wid \<noteq> []" "policies_ok (we_env we) (wc_policies db')"
    "\<exists>r \<in> set (wc_policies db'). is_active_policy ''system_prompt'' wid r \<and> pp_content r = build_system_prompt_content_from_files files"
proof -
  from assms(2) obtain md rows where r: "wid \<noteq> []" "build_system_prompt_content_from_files files \<noteq> []"
    "put_system_prompt we wid (build_system_prompt_content_from_files files) md (wc_policies db) = Inr rows" "wc_policies db' = rows"
    unfolding sync_worker_system_prompt_policy_def Let_def assms(3) by (auto split: if_split_asm)
  show "wid \<noteq> []" by (rule r(1))
  show "policies_ok (we_env we) (wc_policies db')"
    "\<exists>r \<in> set (wc_policies db'). is_active_policy ''system_prompt'' wid r \<and> pp_content r = build_system_prompt_content_from_files files"
    unfolding r(4) by (rule put_prompt_row [OF catalog_okD(15) [OF assms(1)] r(3) assms(3) r(1,2)])+
qed

lemma synced_prompt_loads:
  assumes "catalog_ok we db" "sync_worker_system_prompt_policy we wid files actor uid True db = Inr (True, db')" "strip wid = wid"
  shows "load_policy pack (Some (Some (wc_policies db'))) ''system_prompt'' wid = Inr (strip (build_system_prompt_content_from_files files))"
  using synced_row(3) [OF assms] active_prompt_loads [OF synced_row(2) [OF assms] _ _ assms(3) synced_row(1) [OF assms]] by auto

text \<open>The stages of a saved agent.\<close>

lemma agent_stages:
  assumes "apply_upsert_user_agent we p db = Inr db'"
  obtains t owner db0 wid skills name tpl manifest db1 where
    "actor_scope we p db = Inr (t, owner, db0)" "agent_worker_id p = Inr wid" "agent_skills we p = Inr skills"
    "80 \<le> length (opt_str p ''system_prompt'' [])" "20 \<le> length (opt_str p ''soul'' [])"
    "apply_upsert_worker we (agent_request p wid name t owner tpl (opt_str p ''system_prompt'' []) manifest
       (agent_files manifest (opt_str p ''system_prompt'' []) (opt_str p ''soul'' []))) db0 = Inr db1"
    "finish_user_agent we t owner wid name tpl (opt_str p ''soul'' [])
       (agent_files manifest (opt_str p ''system_prompt'' []) (opt_str p ''soul'' [])) db1 = Inr db'"
proof -
  from assms obtain t owner db0 where a: "actor_scope we p db = Inr (t, owner, db0)"
    unfolding apply_upsert_user_agent_def by (elim bindE_InrE) (metis prod_cases3)
  note h = assms [unfolded apply_upsert_user_agent_def a bindE_simps prod.case]
  from h obtain wid where w: "agent_worker_id p = Inr wid" by (elim bindE_InrE)
  note h = h [unfolded w bindE_simps Let_def]
  have l: "(length (opt_str p ''system_prompt'' []) < 80) = False" "(length (opt_str p ''soul'' []) < 20) = False"
    using h by (auto split: if_split_asm)
  note h = h [unfolded l if_False]
  from h obtain skills where s: "agent_skills we p = Inr skills" by (elim bindE_InrE)
  note h = h [unfolded s bindE_simps]
  have l': "80 \<le> length (opt_str p ''system_prompt'' [])" "20 \<le> length (opt_str p ''soul'' [])" using l by simp_all
  from h show thesis by (elim bindE_InrE) (rule that [OF a w s l'])
qed

lemma finish_agent_stages:
  assumes "finish_user_agent we t owner wid name tpl soul files db = Inr db'"
  obtains uid db1 where "resolve_worker_uid db wid t = Some uid" "uid \<noteq> []"
    "(if soul = [] then Inr db else put_context we 2 uid ''soul.md'' soul 20 db) = Inr db1"
    "sync_worker_system_prompt_policy we wid files owner uid True (put_user_agent t owner wid name tpl uid db1) = Inr (True, db')"
  using assms unfolding finish_user_agent_def sync_user_agent_prompt_policy_def
  by (auto split: option.splits if_split_asm)

lemma agent_files_prompt:
  assumes "20 \<le> length (opt_str p ''soul'' [])" "80 \<le> length (opt_str p ''system_prompt'' [])"
  shows "strip (build_system_prompt_content_from_files (agent_files manifest (opt_str p ''system_prompt'' []) (opt_str p ''soul'' []))) =
    opt_str p ''soul'' [] @ [CHR 10, CHR 10] @ ''---'' @ [CHR 10, CHR 10] @ opt_str p ''system_prompt'' []"
proof -
  let ?s = "opt_str p ''soul'' []" and ?q = "opt_str p ''system_prompt'' []"
  have n: "?s \<noteq> []" "?q \<noteq> []" using assms by auto
  have st: "strip ?s = ?s" "strip ?q = ?q" by (simp_all add: opt_str_def)
  have t: "file_text (agent_files manifest ?q ?s) ''soul.md'' = ?s" "file_text (agent_files manifest ?q ?s) ''system_prompt.md'' = ?q"
    using n st by (simp_all add: file_text_def agent_files_def gstr_def por_def)
  have "build_system_prompt_content_from_files (agent_files manifest ?q ?s) = ?s @ [CHR 10, CHR 10] @ ''---'' @ [CHR 10, CHR 10] @ ?q"
    using n t by (simp add: build_system_prompt_content_from_files_def)
  moreover have "strip (?s @ [CHR 10, CHR 10] @ ''---'' @ [CHR 10, CHR 10] @ ?q) = ?s @ [CHR 10, CHR 10] @ ''---'' @ [CHR 10, CHR 10] @ ?q"
    using stripped_ends(1) [OF st(1) n(1)] stripped_ends(2) [OF st(2) n(2)] n by (intro strip_ends) auto
  ultimately show ?thesis by simp
qed

end
