(* ===== verification/WorkerLife.thy ===== *)
theory WorkerLife
  imports WorkerGuarantees
begin

text \<open>
  What the handlers of the worker catalog do over the life of a worker, and the catalog the theorems about it are tried on.
\<close>

subsection \<open>The invariant and the prompt of an agent\<close>

text \<open>
  C17. Each of the sixteen modelled command handlers of the catalog (all but the two that import packages and templates from
  files) keeps the declared keys of the tables it works on unique: profiles, workers, versions, contexts, skills and their
  bindings, capabilities and their grants, agents, assignments, project members and conversations; versions count from 1, and
  the registry of prompts has at most one active version of each prompt. A statement whose literal is cut open is assumed to
  keep them, when it succeeds.
\<close>

lemma catalog_invariant:
  assumes "odd_safe we" "h \<in> set catalog_handlers" "catalog_ok we db" "h we p db = Inr db'"
  shows "catalog_ok we db'"
proof -
  have "keeps (catalog_ok we) (\<lambda>db. db) (h we p db)"
    using assms(2) unfolding catalog_handlers_def list.set insert_iff empty_iff
    by (elim disjE FalseE) (hypsubst, intro keeps_rules assms)+
  then show ?thesis using assms(4) by (rule keepsD)
qed

text \<open>
  C7. After an agent has been saved, the prompt its worker runs with is the one its owner wrote: the personality, a
  rule, the instructions - whatever prompt was registered before, by anybody.
\<close>

lemma saved_agent_prompt_loads:
  assumes "apply_upsert_user_agent we p db = Inr db'" "catalog_ok we db" "odd_safe we" "agent_worker_id p = Inr wid"
  shows "load_policy pack (Some (Some (wc_policies db'))) ''system_prompt'' wid =
    Inr (opt_str p ''soul'' [] @ [CHR 10, CHR 10] @ ''---'' @ [CHR 10, CHR 10] @ opt_str p ''system_prompt'' [])"
proof -
  from assms(1) obtain t owner db0 skills name tpl manifest db1 where s: "actor_scope we p db = Inr (t, owner, db0)"
    "80 \<le> length (opt_str p ''system_prompt'' [])" "20 \<le> length (opt_str p ''soul'' [])"
    "apply_upsert_worker we (agent_request p wid name t owner tpl (opt_str p ''system_prompt'' []) manifest
       (agent_files manifest (opt_str p ''system_prompt'' []) (opt_str p ''soul'' []))) db0 = Inr db1"
    "finish_user_agent we t owner wid name tpl (opt_str p ''soul'' [])
       (agent_files manifest (opt_str p ''system_prompt'' []) (opt_str p ''soul'' [])) db1 = Inr db'"
    using assms(4) by (elim agent_stages) auto
  have ok0: "catalog_ok we db0" using keepsD [OF keeps_actor_scope [OF assms(2,3)] s(1)] by simp
  have ok1: "catalog_ok we db1" by (rule keepsD [OF keeps_upsert_worker [OF ok0] s(4)])
  from s(5) obtain uid db2 where f: "(if opt_str p ''soul'' [] = [] then Inr db1 else put_context we 2 uid ''soul.md'' (opt_str p ''soul'' []) 20 db1) = Inr db2"
    "sync_worker_system_prompt_policy we wid (agent_files manifest (opt_str p ''system_prompt'' []) (opt_str p ''soul'' [])) owner uid True
       (put_user_agent t owner wid name tpl uid db2) = Inr (True, db')"
    by (rule finish_agent_stages)
  have ok2: "catalog_ok we db2" using f(1) ok1 keepsD [OF keeps_put_context [OF ok1]] by (simp split: if_split_asm)
  then have "catalog_ok we (put_user_agent t owner wid name tpl uid db2)"
    by (simp add: put_user_agent_def uniq_tbl_put catalog_okD(14))
  moreover from assms(4) have "strip wid = wid" unfolding agent_worker_id_def by (elim bindE_InrE) (rule catalog_id_stripped)
  ultimately show ?thesis using synced_prompt_loads [OF _ f(2)] agent_files_prompt [OF s(3,2)] by simp
qed

subsection \<open>A catalog to try the theorems on\<close>

definition worker_env0 :: worker_env where
  "worker_env0 = \<lparr>we_env = env0\<lparr>uuid_hex := nat_str\<rparr>, we_getenv = \<lambda>_. None, we_yaml = \<lambda>_. None, we_pack = None,
     we_odd_profile = \<lambda>_ _. None, we_odd_workers = \<lambda>_ _. [], we_odd_worker = \<lambda>_ _. None, we_odd_version = \<lambda>_ _. None,
     we_odd_context = \<lambda>_ _. None, we_odd_skills = \<lambda>_ _. [], we_odd_bound = \<lambda>_ _. [], we_odd_write = \<lambda>_ _. Inl (ValueError [])\<rparr>"

definition catalog0 :: catalog where
  "catalog0 = \<lparr>wc_profiles = [\<lparr>pf_email = ''ana@x'', pf_tenant = ''t'', pf_telegram = [], pf_channels = ''{}'', pf_worker = ''default''\<rparr>],
     wc_workers = [], wc_versions = [], wc_contexts = [], wc_skills = [], wc_bound = [], wc_capabilities = [], wc_granted = [],
     wc_agents = [], wc_assignments = [], wc_members = [], wc_policies = [], wc_conversations = []\<rparr>"

definition demo_agent :: "string \<Rightarrow> payload" where
  "demo_agent uid = [(''actor_email'', PStr ''ana@x''), (''worker_id'', PStr ''Notes''), (''worker_uid'', PStr uid),
     (''system_prompt'', PStr (replicate 80 (CHR ''p''))), (''soul'', PStr (replicate 20 (CHR ''s'')))]"

lemma demo_catalog: "catalog_ok worker_env0 catalog0" "odd_safe worker_env0"
  by (simp_all add: catalog_ok_def catalog0_def worker_env0_def odd_safe_def policies_ok_def one_active_def uniq_def)

lemma demo_agent_saved:
  obtains db' where "apply_upsert_user_agent worker_env0 (demo_agent ''w'') catalog0 = Inr db'"
proof -
  have "isl (apply_upsert_user_agent worker_env0 (demo_agent ''w'') catalog0) = False" by code_simp
  then show thesis by (rule isl_InrE) (rule that)
qed

lemma catalog_invariant_witness:
  "\<exists>db'. apply_upsert_user_agent worker_env0 (demo_agent ''w'') catalog0 = Inr db' \<and> catalog_ok worker_env0 db'"
proof -
  obtain db' where q: "apply_upsert_user_agent worker_env0 (demo_agent ''w'') catalog0 = Inr db'" by (rule demo_agent_saved)
  have "apply_upsert_user_agent \<in> set catalog_handlers" by (simp add: catalog_handlers_def)
  from catalog_invariant [OF demo_catalog(2) this demo_catalog(1) q] q show ?thesis by blast
qed

lemma saved_agent_prompt_loads_witness:
  "\<exists>db'. apply_upsert_user_agent worker_env0 (demo_agent ''w'') catalog0 = Inr db' \<and>
     load_policy [] (Some (Some (wc_policies db'))) ''system_prompt'' ''notes'' =
       Inr (replicate 20 (CHR ''s'') @ [CHR 10, CHR 10] @ ''---'' @ [CHR 10, CHR 10] @ replicate 80 (CHR ''p''))"
proof -
  obtain db' where q: "apply_upsert_user_agent worker_env0 (demo_agent ''w'') catalog0 = Inr db'" by (rule demo_agent_saved)
  have f: "agent_worker_id (demo_agent ''w'') = Inr ''notes''"
    "opt_str (demo_agent ''w'') ''soul'' [] = replicate 20 (CHR ''s'')" "opt_str (demo_agent ''w'') ''system_prompt'' [] = replicate 80 (CHR ''p'')"
    by code_simp+
  from saved_agent_prompt_loads [OF q demo_catalog f(1), of "[]"] q show ?thesis unfolding f(2,3) by blast
qed

subsection \<open>Agents and their identifier\<close>

lemma sel_one_single [simp]: "sel_one P [r] = (if P r then Some r else None)"
  by (simp add: sel_one_def)

lemma same_workers:
  "store_snapshot we uid p db = Inr db' \<Longrightarrow> wc_workers db' = wc_workers db"
  "put_context we i uid title content n db = Inr db' \<Longrightarrow> wc_workers db' = wc_workers db"
  by (auto simp: store_snapshot_def ins_version_def put_context_def ins_context_def Let_def elim!: bindE_InrE split: if_split_asm option.splits)

lemma worker_stages:
  assumes "apply_upsert_worker we p db = Inr db'"
  obtains uid d1 d2 where "upsert_worker_row we p db = Inr (uid, d1)" "store_snapshot we uid p d1 = Inr d2" "wc_workers db' = wc_workers d2"
proof -
  from assms obtain uid d1 where r: "upsert_worker_row we p db = Inr (uid, d1)" unfolding apply_upsert_worker_def by (elim bindE_InrE) (metis prod.exhaust)
  from assms [unfolded apply_upsert_worker_def r bindE_simps prod.case] obtain d2 where s: "store_snapshot we uid p d1 = Inr d2"
    "(let system_prompt = strip (pystr (pget p ''system_prompt'' (PStr [])))
      in if system_prompt = [] then Inr d2 else put_context we 1 uid ''system_prompt.md'' system_prompt 10 d2) = Inr db'"
    by (elim bindE_InrE)
  have "wc_workers db' = wc_workers d2" using s(2) by (auto simp: Let_def dest: same_workers(2) split: if_split_asm)
  with r s(1) show thesis by (rule that)
qed

lemma agent_request_get:
  "pget (agent_request p wid name t owner tpl q m f) ''worker_uid'' d = PStr (opt_str p ''worker_uid'' [])"
  "pget (agent_request p wid name t owner tpl q m f) ''worker_id'' d = PStr wid"
  "pget (agent_request p wid name t owner tpl q m f) ''tenant_id'' d = PStr t"
  "pitem (agent_request p wid name t owner tpl q m f) ''worker_id'' = Inr (PStr wid)"
  by (simp_all add: agent_request_def dict_merge_def)

text \<open>
  C30. A new agent is refused unless the request names the identifier of its worker: the handler passes an empty one where
  none is given, the row is inserted under it, and the end of the handler takes it for a missing row.
\<close>

lemma agent_without_uid_refused:
  assumes "actor_scope we p db = Inr (t, owner, db0)" "agent_worker_id p = Inr wid" "resolve_worker_uid db0 wid t = None"
    "opt_str p ''worker_uid'' [] = []"
  shows "isl (apply_upsert_user_agent we p db)"
proof (rule ccontr)
  assume "\<not> ?thesis"
  then obtain db' where "apply_upsert_user_agent we p db = Inr db'" by (cases "apply_upsert_user_agent we p db") auto
  then show False
  proof (rule agent_stages)
    fix t' owner' db0' wid' skills name tpl manifest db1
    let ?q = "agent_request p wid' name t' owner' tpl (opt_str p ''system_prompt'' []) manifest
       (agent_files manifest (opt_str p ''system_prompt'' []) (opt_str p ''soul'' []))"
    assume a: "actor_scope we p db = Inr (t', owner', db0')" "agent_worker_id p = Inr wid'" "apply_upsert_worker we ?q db0' = Inr db1"
      and f: "finish_user_agent we t' owner' wid' name tpl (opt_str p ''soul'' [])
        (agent_files manifest (opt_str p ''system_prompt'' []) (opt_str p ''soul'' [])) db1 = Inr db'"
    from a(1,2) assms(1,2) have e: "t' = t" "db0' = db0" "wid' = wid" by simp_all
    from a(3) obtain uid d1 d2 where u: "upsert_worker_row we ?q db0 = Inr (uid, d1)" "store_snapshot we uid ?q d1 = Inr d2" "wc_workers db1 = wc_workers d2"
      unfolding e by (rule worker_stages)
    have t: "t \<noteq> []" using assms(1) by (auto simp: actor_scope_def Let_def elim!: bindE_InrE split: if_split_asm)
    then have g: "gstr (agent_request p w n t o' tp q m f) ''tenant_id'' ''default'' = t" for w n o' tp q m f
      by (simp add: gstr_def agent_request_get por_def)
    from u(1) assms(3,4) have w: "uid = []" "\<exists>r. wc_workers d1 = wc_workers db0 @ [r] \<and> cw_worker_id r = wid \<and> cw_tenant r = t \<and> cw_uid r = []"
      unfolding upsert_worker_row_def agent_request_get g e Let_def bindE_simps
      by (auto simp: ins_worker_def elim!: bindE_InrE split: if_split_asm)
    then have "resolve_worker_uid db1 wid t = Some []" using assms(3) same_workers(1) [OF u(2)] u(3)
      by (auto simp: resolve_worker_uid_def sel_one_append)
    with f show False unfolding e by (auto elim: finish_agent_stages)
  qed
qed

lemma agent_without_uid_refused_witness:
  "isl (apply_upsert_user_agent worker_env0 (demo_agent []) catalog0)"
proof -
  have s: "isl (actor_scope worker_env0 (demo_agent []) catalog0) = False" by code_simp
  then obtain t owner db0 where a: "actor_scope worker_env0 (demo_agent []) catalog0 = Inr (t, owner, db0)" by (rule isl_InrE) (metis prod_cases3)
  have w: "case actor_scope worker_env0 (demo_agent []) catalog0 of Inr (_, _, d) \<Rightarrow> wc_workers d = [] | Inl _ \<Rightarrow> False" by code_simp
  have f: "agent_worker_id (demo_agent []) = Inr ''notes''" "opt_str (demo_agent []) ''worker_uid'' [] = []" by code_simp+
  show ?thesis by (rule agent_without_uid_refused [OF a f(1) _ f(2)]) (use w in \<open>simp add: a resolve_worker_uid_def sel_one_def\<close>)
qed

subsection \<open>Files\<close>

text \<open>What a change of files and contexts leaves to \<open>add_worker_version\<close>: the versions are as they were.\<close>

definition odd_fails :: "worker_env \<Rightarrow> bool" where
  "odd_fails we \<longleftrightarrow> (\<forall>ls db. isl (we_odd_write we ls db))"

definition fits :: "string \<Rightarrow> nat \<Rightarrow> bool" where
  "fits s n \<longleftrightarrow> read_lit (sql_lit s n) = Some s"

lemma keeps_odd_fails: "odd_fails we \<Longrightarrow> keeps P g (we_odd_write we ls db)"
  unfolding odd_fails_def keeps_def by (metis sum.disc(2))

lemma versions_of_context:
  assumes "odd_fails we" "wc_versions db = V"
  shows "keeps (\<lambda>d. wc_versions d = V) (\<lambda>d. d) (add_worker_context we uid title content n db)"
    "keeps (\<lambda>d. wc_versions d = V) snd (update_context_content we uid title content db)"
  unfolding add_worker_context_def ins_context_def update_context_content_def
  by (intro keeps_bind_pure keeps_lits keeps_odd_fails [OF assms(1)]; use assms in \<open>simp add: keeps_def\<close>)
     (intro keeps_case keeps_if keeps_bind1 keeps_lits keeps_odd_fails [OF assms(1)]; use assms in \<open>simp add: keeps_def\<close>)

lemma versions_of_binding:
  assumes "odd_fails we" "wc_versions db = V"
  shows "keeps (\<lambda>d. wc_versions d = V) (\<lambda>d. d) (upsert_worker_skill_binding we uid i c n db)"
    "keeps (\<lambda>d. wc_versions d = V) (\<lambda>d. d) (unbind_skill we uid i db)"
  unfolding upsert_worker_skill_binding_def unbind_skill_def using assms(2)
  by (intro keeps_lits keeps_odd_fails [OF assms(1)]; simp add: keeps_def)+

lemma versions_of_files:
  assumes "odd_fails we" "wc_versions db = V"
  shows "keeps (\<lambda>d. wc_versions d = V) (\<lambda>d. d) (sync_context we uid rel content db)"
    "keeps (\<lambda>d. wc_versions d = V) (\<lambda>d. d) (sync_worker_catalog_skills_from_manifest we uid manifest db)"
proof -
  show "keeps (\<lambda>d. wc_versions d = V) (\<lambda>d. d) (sync_context we uid rel content db)"
    unfolding sync_context_def
    by (intro keeps_if keeps_bind2 [OF versions_of_context(2)] keeps_case versions_of_context(1); use assms in \<open>simp add: keeps_def\<close>)
  show "keeps (\<lambda>d. wc_versions d = V) (\<lambda>d. d) (sync_worker_catalog_skills_from_manifest we uid manifest db)"
    unfolding sync_worker_catalog_skills_from_manifest_def bind_skills_def Let_def
    by (intro keeps_case keeps_bind1 keeps_forE) (use assms in \<open>auto simp: keeps_basic intro: versions_of_binding [OF assms(1)]\<close>)
qed

lemma odd_fails_lits:
  assumes "with_lits l (\<lambda>ls. we_odd_write we ls db) k = Inr db'" "odd_fails we"
  obtains vs where "read_lits (map (\<lambda>(v, n). sql_lit v n) l) = Some vs" "k vs = Inr db'"
proof (cases "read_lits (map (\<lambda>(v, n). sql_lit v n) l)")
  case None
  with assms show thesis unfolding with_lits_def Let_def odd_fails_def by (metis option.simps(4) sum.disc(2))
next
  case (Some vs)
  show thesis by (rule that [OF Some]) (use assms(1) Some in \<open>simp add: with_lits_def\<close>)
qed

text \<open>A version whose texts fit is the latest one afterwards.\<close>

lemma add_version_latest:
  assumes "add_worker_version we uid actor manifest files note db = Inr db'" "odd_fails we" "fits uid 64"
    "fits (json_text files) 1048576"
  shows "latest_files we db' uid = Inr files \<and> (\<exists>v. wc_versions db' = wc_versions db @ [v])"
proof -
  from assms(1,2) obtain vs where v: "read_lits [sql_lit uid 64, sql_lit (json_text manifest) 1048576, sql_lit (json_text files) 1048576,
      sql_lit actor 256, sql_lit note 512] = Some vs"
    "ins_version \<lparr>wv_uid = vs ! 0, wv_version = next_version (vs ! 0) db, wv_manifest = json_column manifest (vs ! 1),
       wv_files = json_column files (vs ! 2), wv_by = vs ! 3, wv_note = vs ! 4\<rparr> db = Inr db'"
    unfolding add_worker_version_def by (elim odd_fails_lits) simp_all
  have u: "vs ! 0 = uid" "vs ! 2 = json_text files"
    using v(1) assms(3,4) by (auto simp: fits_def split: option.splits)
  define v0 where "v0 = \<lparr>wv_uid = uid, wv_version = next_version uid db, wv_manifest = json_column manifest (vs ! 1),
       wv_files = Some (PDict files), wv_by = vs ! 3, wv_note = vs ! 4\<rparr>"
  have d: "wc_versions db' = wc_versions db @ [v0]" using v(2) unfolding u by (auto simp: ins_version_def v0_def json_column_def)
  let ?t = "sel_all (\<lambda>v. wv_uid v = uid) (wc_versions db')"
  have m: "v0 \<in> set ?t" by (simp add: d sel_all_def v0_def)
  then obtain r where r: "top_by wv_version ?t = Some r" by (cases "top_by wv_version ?t") auto
  have "r = v0"
  proof (rule ccontr)
    assume "r \<noteq> v0"
    moreover have "r \<in> set (wc_versions db')" "wv_uid r = uid" using top_by_mem [OF r] by (simp_all add: sel_all_def)
    ultimately have "wv_version r < next_version uid db" by (intro next_version_fresh) (auto simp: d)
    with top_by_max [OF r m] show False by (simp add: v0_def)
  qed
  then have "get_latest_worker_version we db' uid = Some v0" using r assms(3)
    by (simp add: get_latest_worker_version_def with_lits_def fits_def)
  then show ?thesis using d by (auto simp: latest_files_def snapshot_dict_def v0_def por_def)
qed

text \<open>
  C20. A file that is written is read back, and the history only grows: after an update the worker's files are the ones
  before with the content under the cleaned path, in one new version. The dictionary of all files, dumped, must fit the
  literal of 1048576 characters it is stored by, the identifier of the worker its own of 64, and a statement whose literal is
  cut open is taken to fail; a larger dictionary is stored cut off, reads as no files at all and is then lost.
\<close>

lemma file_update_reads_back:
  assumes "update_catalog_worker_file we uid path content actor db = Inr db'" "odd_fails we" "fits uid 64"
    "latest_files we db uid = Inr files" "fits (json_text (pset (clean_rel path) (PStr content) files)) 1048576"
  shows "latest_files we db' uid = Inr (pset (clean_rel path) (PStr content) files) \<and> (\<exists>v. wc_versions db' = wc_versions db @ [v])"
proof -
  let ?new = "pset (clean_rel path) (PStr content) files"
  have b: "bad_rel (clean_rel path) = False" using assms(1) by (auto simp: update_catalog_worker_file_def Let_def split: if_split_asm)
  from assms(1) obtain manifest0 manifest d1 d2 remark where m: "latest_manifest we db uid = Inr manifest0"
    and s: "sync_context we uid (clean_rel path) content db = Inr d1"
      "(if is_manifest (clean_rel path) then sync_worker_catalog_skills_from_manifest we uid manifest d1 else Inr d1) = Inr d2"
      "add_worker_version we uid actor manifest ?new remark d2 = Inr db'"
    unfolding update_catalog_worker_file_def Let_def b if_False by (elim bindE_InrE) (simp add: assms(4))
  have "wc_versions d1 = wc_versions db" using keepsD [OF versions_of_files(1) [OF assms(2) refl] s(1)] .
  moreover have "wc_versions d2 = wc_versions d1"
    using s(2) keepsD [OF versions_of_files(2) [OF assms(2) refl]] by (auto split: if_split_asm)
  ultimately show ?thesis using add_version_latest [OF s(3) assms(2,3,5)] by simp
qed

lemma fits_plain: "quote_char \<notin> set s \<Longrightarrow> length s \<le> n \<Longrightarrow> fits s n"
  by (simp add: fits_def sql_lit_plain)

lemma with_lits_fits: "\<forall>(v, n) \<in> set l. fits v n \<Longrightarrow> with_lits l other k = k (map fst l)"
proof -
  assume "\<forall>(v, n) \<in> set l. fits v n"
  then have "read_lits (map (\<lambda>(v, n). sql_lit v n) l) = Some (map fst l)" by (induction l) (auto simp: fits_def)
  then show ?thesis by (simp add: with_lits_def)
qed

lemma file_update_reads_back_witness:
  "\<exists>db'. update_catalog_worker_file worker_env0 ''w'' '' /notes.txt'' ''hi'' ''ana@x'' catalog0 = Inr db' \<and>
     latest_files worker_env0 db' ''w'' = Inr [(''notes.txt'', PStr ''hi'')]"
proof -
  let ?q = "update_catalog_worker_file worker_env0 ''w'' '' /notes.txt'' ''hi'' ''ana@x'' catalog0"
  have l: "latest_files worker_env0 catalog0 ''w'' = Inr []"
    by (simp add: latest_files_def get_latest_worker_version_def with_lits_def fits_plain [unfolded fits_def] quote_char_def catalog0_def sel_all_def)
  have f: "clean_rel '' /notes.txt'' = ''notes.txt''" "json_text (pset ''notes.txt'' (PStr ''hi'') []) = ''{\"notes.txt\": \"hi\"}''" by code_simp+
  have t: "fits ''w'' 64" "fits ''{\"notes.txt\": \"hi\"}'' 1048576" by (rule fits_plain; simp add: quote_char_def)+
  have c: "bad_rel ''notes.txt'' = False" "is_manifest ''notes.txt'' = False" "endswith ''.md'' (lower ''notes.txt'') = False"
    "json_text [] = ''{}''" by code_simp+
  have m: "latest_manifest worker_env0 catalog0 ''w'' = Inr []"
    by (simp add: latest_manifest_def get_latest_worker_version_def with_lits_def fits_plain [unfolded fits_def] quote_char_def catalog0_def sel_all_def)
  let ?remark = "''Actualizaci'' @ [char_of (243::nat)] @ ''n DB-first de '' @ ''notes.txt''"
  have n: "list_all (\<lambda>s. quote_char \<notin> set s) [''w'', ''{}'', ''{\"notes.txt\": \"hi\"}'', ''ana@x'', ?remark]" by code_simp
  then have "\<forall>(v, n) \<in> set [(''w'', 64), (''{}'', 1048576), (''{\"notes.txt\": \"hi\"}'', 1048576), (''ana@x'', 256), (?remark, 512)]. fits v n"
    by (auto intro!: fits_plain)
  then have w: "with_lits [(''w'', 64), (''{}'', 1048576), (''{\"notes.txt\": \"hi\"}'', 1048576), (''ana@x'', 256), (?remark, 512)] other k =
    k [''w'', ''{}'', ''{\"notes.txt\": \"hi\"}'', ''ana@x'', ?remark]" for other and k :: "string list \<Rightarrow> py_error + catalog"
    by (subst with_lits_fits) simp_all
  obtain db' where q: "?q = Inr db'"
    unfolding update_catalog_worker_file_def Let_def f c m l sync_context_def bindE_simps if_False add_worker_version_def
    by (simp add: c w [simplified] ins_version_def next_version_def ins_row_def has_key_def
      catalog0_def sel_all_def bindE_simps)
  have o: "odd_fails worker_env0" by (simp add: odd_fails_def worker_env0_def)
  from file_update_reads_back [OF q o t(1) l] f t(2) have "latest_files worker_env0 db' ''w'' = Inr (pset ''notes.txt'' (PStr ''hi'') [])" by simp
  with q show ?thesis by (auto simp: pset_def)
qed

subsection \<open>Deletion\<close>

lemma fits_lit: "read_lits (map (\<lambda>(v, n). sql_lit v n) ((s, k) # l)) = Some vs \<Longrightarrow> fits s k \<Longrightarrow> vs ! 0 = s"
  by (auto simp: fits_def split: option.splits)

lemma profile_keeps_policies:
  "odd_fails we \<Longrightarrow> ensure_profile we email db = Inr (pf, db') \<Longrightarrow> wc_policies db' = wc_policies db"
  unfolding ensure_profile_def Let_def
  by (auto split: if_split_asm option.splits elim!: bindE_InrE odd_fails_lits)

text \<open>
  A hard delete leaves no row that names the worker - no version, context, skill, capability, assignment or
  membership - and the prompt registered for it stays active as it was.
\<close>

lemma hard_delete_leaves_prompt:
  assumes "hard_delete_visible_worker_for_actor we actor wid db = Inr (Some w, db')" "odd_fails we" "fits (cw_uid w) 64"
  shows "cw_uid w \<notin> cw_uid ` set (wc_workers db') \<and> cw_uid w \<notin> wv_uid ` set (wc_versions db') \<and>
    cw_uid w \<notin> cx_uid ` set (wc_contexts db') \<and> cw_uid w \<notin> bs_uid ` set (wc_bound db') \<and> cw_uid w \<notin> gc_uid ` set (wc_granted db') \<and>
    cw_uid w \<notin> fst ` set (wc_assignments db') \<and> cw_uid w \<notin> snd ` set (wc_members db') \<and> wc_policies db' = wc_policies db"
proof -
  have a: "(CHR ''@'' \<notin> set (lower (strip actor))) = False"
    using assms(1) by (auto simp: hard_delete_visible_worker_for_actor_def split: if_split_asm)
  note h = assms(1) [unfolded hard_delete_visible_worker_for_actor_def a if_False]
  from h obtain pf db0 where p: "ensure_profile we (lower (strip actor)) db = Inr (pf, db0)" by (elim bindE_InrE) (metis prod.exhaust)
  note h = h [unfolded p bindE_simps prod.case]
  from h obtain found where f: "get_worker_by_tenant_worker_id we db0 (pf_tenant pf) wid = Inr found" by (elim bindE_InrE)
  note h = h [unfolded f bindE_simps]
  then obtain v where v: "found = Some v" by (cases found) auto
  have o: "(cw_owner v \<noteq> pf_email pf \<or> cw_uid v = []) = False" using h unfolding v by (auto split: if_split_asm)
  note h = h [unfolded v option.case o if_False]
  from h obtain d1 d2 d3 where s:
      "with_lits [(cw_uid v, 64)] (\<lambda>ls. we_odd_write we ls db0) (\<lambda>vs. Inr (delete_worker_rows (vs ! 0) db0)) = Inr d1"
      "with_lits [(pf_tenant pf, 128), (pf_email pf, 256), (cw_worker_id v, 64)] (\<lambda>ls. we_odd_write we ls d1)
        (\<lambda>vs. Inr (d1\<lparr>wc_agents := del_where (\<lambda>a. ua_tenant a = vs ! 0 \<and> ua_owner a = vs ! 1 \<and> ua_worker a = vs ! 2) (wc_agents d1)\<rparr>)) = Inr d2"
      "with_lits [(cw_uid v, 64), (pf_email pf, 256)] (\<lambda>ls. we_odd_write we ls d2)
        (\<lambda>vs. Inr (d2\<lparr>wc_workers := del_where (\<lambda>x. cw_uid x = vs ! 0 \<and> cw_owner x = vs ! 1) (wc_workers d2)\<rparr>)) = Inr d3"
      "(if get_worker_by_uid we d3 (cw_uid v) \<noteq> None then None else Some v, d3) = (Some w, db')"
    by (elim bindE_InrE) (simp only: sum.inject)
  from s(4) have e: "v = w" "db' = d3" "get_worker_by_uid we d3 (cw_uid w) = None" by (auto split: if_split_asm)
  from s(1) assms(2) obtain xs where x: "read_lits (map (\<lambda>(v, n). sql_lit v n) [(cw_uid v, 64)]) = Some xs" "d1 = delete_worker_rows (xs ! 0) db0"
    by (elim odd_fails_lits) simp_all
  have d1: "d1 = delete_worker_rows (cw_uid w) db0" using fits_lit [OF x(1)] assms(3) x(2) e(1) by simp
  from s(2) assms(2) obtain g where d2: "d2 = d1\<lparr>wc_agents := g\<rparr>" by (elim odd_fails_lits) auto
  from s(3) assms(2) obtain g where d3: "d3 = d2\<lparr>wc_workers := g\<rparr>" by (elim odd_fails_lits) auto
  have "cw_uid w \<notin> cw_uid ` set (wc_workers d3)"
    using e(3) assms(3) by (auto simp: get_worker_by_uid_def with_lits_def fits_def sel_one_def find_None_iff)
  then show ?thesis unfolding e(2) using profile_keeps_policies [OF assms(2) p]
    by (auto simp: d3 d2 d1 delete_worker_rows_def del_where_def)
qed

definition demo_worker :: catalog_worker where
  "demo_worker = \<lparr>cw_uid = ''w'', cw_tenant = ''t'', cw_owner = ''ana@x'', cw_worker_id = ''notes'', cw_name = ''Notes'', cw_kind = ''runtime'',
     cw_template = ''default'', cw_visibility = ''private'', cw_a2a = False, cw_status = ''active'', cw_active = True, cw_updated_at = 0\<rparr>"

lemma hard_delete_leaves_prompt_witness:
  "\<exists>db'. hard_delete_visible_worker_for_actor worker_env0 ''Ana@x'' ''notes'' (catalog0\<lparr>wc_workers := [demo_worker]\<rparr>) = Inr (Some demo_worker, db') \<and>
     ''w'' \<notin> cw_uid ` set (wc_workers db')"
proof -
  let ?q = "hard_delete_visible_worker_for_actor worker_env0 ''Ana@x'' ''notes'' (catalog0\<lparr>wc_workers := [demo_worker]\<rparr>)"
  have "(case ?q of Inr (Some v, _) \<Rightarrow> v = demo_worker | _ \<Rightarrow> False) = True" by code_simp
  then obtain db' where q: "?q = Inr (Some demo_worker, db')" by (auto split: sum.splits option.splits)
  have o: "odd_fails worker_env0" "cw_uid demo_worker = ''w''" by (simp_all add: odd_fails_def worker_env0_def demo_worker_def)
  have f: "fits (cw_uid demo_worker) 64" unfolding o(2) by (rule fits_plain) (simp_all add: quote_char_def)
  from hard_delete_leaves_prompt [OF q o(1) f] q show ?thesis unfolding o(2) by blast
qed

subsection \<open>Renaming\<close>

lemma retired_prompt:
  "r \<in> set (retire_prompts we nm rows) \<Longrightarrow> \<not> is_active_policy ''system_prompt'' nm r"
  unfolding retire_prompts_def
  by (induction rows) (auto simp: upd_where_def is_active_policy_def split: if_split_asm)

lemma unretired_prompt:
  "r \<in> set rows \<Longrightarrow> is_active_policy ''system_prompt'' other r \<Longrightarrow> other \<noteq> nm \<Longrightarrow> r \<in> set (retire_prompts we nm rows)"
  unfolding retire_prompts_def by (force simp: upd_where_def is_active_policy_def same_policy_def image_iff)

lemma migrated_prompt_loads:
  assumes "migrate_system_prompt_policy_name we old new uid actor db = Inr db'" "catalog_ok we db"
    "latest_files we db uid = Inr files" "build_system_prompt_content_from_files files \<noteq> []"
    "w \<in> set (wc_workers db)" "cw_worker_id w = new" "cw_active w" "strip new = new" "new \<noteq> []" "new \<noteq> old"
  shows "load_policy pack (Some (Some (wc_policies db'))) ''system_prompt'' new = Inr (strip (build_system_prompt_content_from_files files)) \<and>
    (\<forall>r \<in> set (wc_policies db'). \<not> is_active_policy ''system_prompt'' old r)"
proof -
  let ?c = "build_system_prompt_content_from_files files"
  have "build_system_prompt_content_from_files [] = []" by code_simp
  then have f: "files \<noteq> []" using assms(4) by auto
  have n: "sel_one (\<lambda>w. cw_worker_id w = new \<and> cw_active w) (wc_workers db) \<noteq> None"
    using assms(5-7) by (auto simp: sel_one_def find_None_iff)
  from assms(1) f obtain x d1 where s: "sync_worker_system_prompt_policy we new files actor uid True db = Inr (x, d1)"
      "db' = d1\<lparr>wc_policies := retire_prompts we old (wc_policies d1)\<rparr>"
    unfolding migrate_system_prompt_policy_name_def assms(3) bindE_simps by (auto elim!: bindE_InrE)
  have "x" using s(1) n assms(4,8,9) unfolding sync_worker_system_prompt_policy_def by (auto simp: Let_def split: if_split_asm)
  with s(1) have s1: "sync_worker_system_prompt_policy we new files actor uid True db = Inr (True, d1)" by simp
  obtain r where r: "r \<in> set (wc_policies d1)" "is_active_policy ''system_prompt'' new r" "pp_content r = ?c"
    using synced_row(3) [OF assms(2) s1 assms(8)] by blast
  have p: "wc_policies db' = retire_prompts we old (wc_policies d1)" using s(2) by simp
  have "load_policy pack (Some (Some (wc_policies db'))) ''system_prompt'' new = Inr (strip ?c)" unfolding p r(3) [symmetric]
    using active_prompt_loads [OF retire_prompts_ok [OF synced_row(2) [OF assms(2) s1 assms(8)]] unretired_prompt [OF r(1,2) assms(10)] r(2) assms(8,9)] .
  then show ?thesis using retired_prompt unfolding p by blast
qed

lemma sync_keeps_workers: "sync_worker_system_prompt_policy we n files actor uid force db = Inr (x, db') \<Longrightarrow> wc_workers db' = wc_workers db"
  unfolding sync_worker_system_prompt_policy_def Let_def by (elim bindE_InrE | simp split: if_split_asm)+ auto

lemma migrate_keeps_workers:
  assumes "migrate_system_prompt_policy_name we old new uid actor db = Inr db'"
  shows "wc_workers db' = wc_workers db"
proof -
  from assms obtain files db1 where f: "(if files \<noteq> [] then bindE (sync_worker_system_prompt_policy we new files actor uid True db) (\<lambda>(_, db). Inr db)
       else move_registry_prompt we old new uid actor db) = Inr db1" "wc_workers db' = wc_workers db1"
    unfolding migrate_system_prompt_policy_name_def by (elim bindE_InrE) (rule that, assumption, auto)
  have "wc_workers db1 = wc_workers db"
  proof (cases "files = []")
    case False
    then obtain x where "sync_worker_system_prompt_policy we new files actor uid True db = Inr (x, db1)" using f(1) by (auto elim!: bindE_InrE)
    then show ?thesis by (rule sync_keeps_workers)
  next
    case True
    with f(1) have "move_registry_prompt we old new uid actor db = Inr db1" by simp
    then show ?thesis unfolding move_registry_prompt_def by (auto elim!: bindE_InrE split: if_split_asm option.splits)
  qed
  with f(2) show ?thesis by simp
qed

lemma top_by_upd: "(\<And>r. f (g r) = f r) \<Longrightarrow> top_by f (upd_where P g t) = map_option (\<lambda>r. if P r then g r else r) (top_by f t)"
  by (induction t) (auto simp: upd_where_def split: option.split)

lemma upd_where_Nil: "upd_where P g t = [] \<longleftrightarrow> t = []"
  by (simp add: upd_where_def)

lemma sel_all_upd: "(\<And>r. Q (g r) = Q r) \<Longrightarrow> sel_all Q (upd_where P g t) = upd_where P g (sel_all Q t)"
  by (induction t) (auto simp: sel_all_def upd_where_def)

text \<open>What a rename does before it turns to the prompt leaves the files alone.\<close>

lemma rename_keeps_files:
  assumes "fits uid 64"
  shows "latest_files we (update_latest_manifest_worker_id uid new (rename_user_agent t old new (db\<lparr>wc_workers := ws\<rparr>))) uid = latest_files we db uid"
proof -
  have v: "wc_versions (rename_user_agent t old new (db\<lparr>wc_workers := ws\<rparr>)) = wc_versions db" by (simp add: rename_user_agent_def)
  have l: "latest_files we d uid = (case top_by wv_version (sel_all (\<lambda>v. wv_uid v = uid) (wc_versions d)) of None \<Rightarrow> Inr [] | Some v \<Rightarrow> snapshot_dict (wv_files v))" for d
    using assms by (simp add: latest_files_def get_latest_worker_version_def with_lits_fits)
  have "latest_files we (update_latest_manifest_worker_id uid new d) uid = latest_files we d uid" for d
    by (auto simp: l update_latest_manifest_worker_id_def top_by_upd sel_all_upd upd_where_Nil split: option.split pyval.split)
  then show ?thesis by (simp add: l v)
qed

text \<open>
  C26. The whole command that renames a worker, for a worker the actor sees and whose latest files build a prompt: afterwards
  the worker's row carries the new name, the prompt in its files loads under that name, whatever was registered there, and no
  prompt stays active under the old name of the request.
\<close>

lemma rename_moves_prompt:
  assumes "apply_rename_catalog_worker we p db = Inr db'" "catalog_ok we db" "odd_safe we"
    "catalog_worker_actor p = Inr actor" "catalog_worker_id p = Inr raw" "bindE (sanitize_worker_id raw) sanitize_catalog_worker_id = Inr old"
    "bindE (sanitize_worker_id (opt_str p ''new_worker_id'' [])) sanitize_catalog_worker_id = Inr new" "new \<noteq> old"
    "get_visible_worker_for_actor we actor old db = Inr (Some w, db0)" "w \<in> set (wc_workers db0)" "strip (cw_tenant w) = cw_tenant w" "cw_tenant w \<noteq> []"
    "fits (cw_uid w) 64" "latest_files we db0 (cw_uid w) = Inr files" "build_system_prompt_content_from_files files \<noteq> []"
  shows "load_policy pack (Some (Some (wc_policies db'))) ''system_prompt'' new = Inr (strip (build_system_prompt_content_from_files files)) \<and>
    (\<forall>r \<in> set (wc_policies db'). \<not> is_active_policy ''system_prompt'' old r) \<and>
    (\<exists>v \<in> set (wc_workers db'). cw_uid v = cw_uid w \<and> cw_worker_id v = new)"
proof -
  let ?f = "\<lambda>v. v\<lparr>cw_worker_id := new, cw_updated_at := now (we_env we)\<rparr>"
  let ?ws = "upd_where (\<lambda>v. cw_uid v = cw_uid w \<and> cw_tenant v = cw_tenant w) ?f (wc_workers db0)"
  let ?d = "update_latest_manifest_worker_id (cw_uid w) new (rename_user_agent (cw_tenant w) old new (db0\<lparr>wc_workers := ?ws\<rparr>))"
  have t: "str_or (strip (str_or (cw_tenant w) x)) ''default'' = cw_tenant w" for x using assms(11,12) by (simp add: str_or_def)
  have n: "(new = old) = False" "(opt_str p ''new_worker_id'' [] = []) = False"
    using assms(1,8) unfolding apply_rename_catalog_worker_def assms(4-6) bindE_simps Let_def by (auto split: if_split_asm)
  note h = assms(1) [unfolded apply_rename_catalog_worker_def Let_def assms(4-7,9) bindE_simps n if_False prod.case option.case t]
  from h obtain d1 where c: "\<not> sel_one (\<lambda>v. cw_tenant v = cw_tenant w \<and> cw_worker_id v = new \<and> cw_uid v \<noteq> cw_uid w) (wc_workers db0) \<noteq> None"
    and m: "migrate_system_prompt_policy_name we old new (cw_uid w) actor ?d = Inr d1" and d1: "db' = rename_references (cw_tenant w) old new d1"
    by (auto elim!: bindE_InrE split: if_split_asm)
  have ok: "catalog_ok we db0" using keepsD [OF keeps_visible [OF assms(2,3)] assms(9)] by simp
  have ok: "catalog_ok we ?d" by (intro rename_manifest_ok rename_agent_ok renamed_ok ok c)
  have ws: "wc_workers ?d = ?ws" by (simp add: update_latest_manifest_worker_id_def rename_user_agent_def split: option.split pyval.split)
  have w: "?f w \<in> set (wc_workers ?d)" using assms(10) by (force simp: ws set_upd_where)
  have act: "cw_active (?f w)" using assms(9) unfolding get_visible_worker_for_actor_def by (auto elim!: bindE_InrE split: if_split_asm option.splits)
  obtain y where y: "sanitize_catalog_worker_id y = Inr new" using assms(7) by (elim bindE_InrE)
  note new = catalog_id_stripped [OF y] catalog_id_chars(2) [OF y]
  have f: "latest_files we ?d (cw_uid w) = Inr files" using rename_keeps_files [OF assms(13)] assms(14) by simp
  have p: "wc_policies db' = wc_policies d1" "wc_workers db' = wc_workers d1" by (simp_all add: d1 rename_references_def)
  have "wc_workers d1 = wc_workers ?d" using m by (rule migrate_keeps_workers)
  with w p(2) have "\<exists>v \<in> set (wc_workers db'). cw_uid v = cw_uid w \<and> cw_worker_id v = new" by (intro bexI [of _ "?f w"]) simp_all
  with migrated_prompt_loads [OF m ok f assms(15) w _ act new assms(8)] show ?thesis unfolding p(1) by simp
qed

definition rename_request :: payload where
  "rename_request = [(''actor_email'', PStr ''ana@x''), (''worker_id'', PStr ''notes''), (''new_worker_id'', PStr ''memos'')]"

definition rename_catalog :: catalog where
  "rename_catalog = catalog0\<lparr>wc_workers := [demo_worker],
     wc_versions := [\<lparr>wv_uid = ''w'', wv_version = 1, wv_manifest = None, wv_files = Some (PDict [(''soul.md'', PStr ''hi'')]), wv_by = [], wv_note = []\<rparr>]\<rparr>"

lemma rename_moves_prompt_witness:
  "\<exists>db'. apply_rename_catalog_worker worker_env0 rename_request rename_catalog = Inr db' \<and>
    load_policy [] (Some (Some (wc_policies db'))) ''system_prompt'' ''memos'' = Inr ''hi''"
proof -
  let ?q = "apply_rename_catalog_worker worker_env0 rename_request rename_catalog"
  have "isl ?q = False" by code_simp
  then obtain db' where q: "?q = Inr db'" by (rule isl_InrE)
  have ok: "catalog_ok worker_env0 rename_catalog" using demo_catalog(1) by (simp add: uniq_def rename_catalog_def)
  have p: "catalog_worker_actor rename_request = Inr ''ana@x''" "catalog_worker_id rename_request = Inr ''notes''"
    "bindE (sanitize_worker_id ''notes'') sanitize_catalog_worker_id = Inr ''notes''"
    "bindE (sanitize_worker_id (opt_str rename_request ''new_worker_id'' [])) sanitize_catalog_worker_id = Inr ''memos''" by code_simp+
  have v: "get_visible_worker_for_actor worker_env0 ''ana@x'' ''notes'' rename_catalog = Inr (Some demo_worker, rename_catalog)" by code_simp
  have w: "demo_worker \<in> set (wc_workers rename_catalog)" "strip (cw_tenant demo_worker) = cw_tenant demo_worker" "cw_tenant demo_worker \<noteq> []" "fits (cw_uid demo_worker) 64"
    by (simp add: rename_catalog_def) code_simp+
  have l: "latest_files worker_env0 rename_catalog (cw_uid demo_worker) = Inr [(''soul.md'', PStr ''hi'')]" by code_simp
  have c: "build_system_prompt_content_from_files [(''soul.md'', PStr ''hi'')] = ''hi''" "strip ''hi'' = ''hi''" by code_simp+
  from rename_moves_prompt [OF q ok demo_catalog(2) p _ v w l, of "[]"] q show ?thesis by (auto simp: c)
qed

end
