(* ===== verification/GatewayEdge.thy ===== *)
theory GatewayEdge
  imports ReportState Complex_Main
begin

text \<open>
  The edge of the gateway: the HTTP middlewares every request passes (\<open>services/api-gateway/core/middleware.py\<close>) and
  the cutting of replies into Telegram messages (\<open>services/api-gateway/core/telegram_chunking.py\<close>).
\<close>

subsection \<open>Requests\<close>

text \<open>
  \<open>rq_headers\<close> looks a header up by its name; \<open>rq_at\<close> is the monotonic clock in seconds. \<open>ed_global\<close> is the check of
  the \<open>ipaddress\<close> module: whether the address is public, \<open>None\<close> when the text is no address.
\<close>

record request =
  rq_host :: "string option"
  rq_path :: string
  rq_headers :: "string \<Rightarrow> string option"
  rq_at :: real

record edge_env =
  ed_getenv :: "string \<Rightarrow> string option"
  ed_global :: "string \<Rightarrow> bool option"

definition edge_var :: "edge_env \<Rightarrow> string \<Rightarrow> string" where
  "edge_var ed name = strip (case ed_getenv ed name of None \<Rightarrow> [] | Some v \<Rightarrow> v)"

definition header :: "request \<Rightarrow> string \<Rightarrow> string" where
  "header rq name = strip (case rq_headers rq name of None \<Rightarrow> [] | Some v \<Rightarrow> v)"

definition edge_int :: "edge_env \<Rightarrow> string \<Rightarrow> int \<Rightarrow> int" where
  "edge_int ed name dflt = (if edge_var ed name = [] then dflt else case parse_int (edge_var ed name) of None \<Rightarrow> dflt | Some n \<Rightarrow> n)"

definition default_cors_origins :: "string list" where
  "default_cors_origins = [''http://localhost:3000'', ''http://127.0.0.1:3000'', ''http://localhost:3001'', ''http://127.0.0.1:3001'',
     ''http://localhost:8000'', ''http://127.0.0.1:8000'', ''tauri://localhost'', ''http://tauri.localhost'', ''https://tauri.localhost'']"

record cors =
  co_origins :: "string list"
  co_credentials :: bool

definition cors_settings :: "edge_env \<Rightarrow> cors" where
  "cors_settings ed = (let
     given = map (\<lambda>v. rev (dropWhile (\<lambda>c. c = CHR ''/'') (rev (strip v))))
       (filter (\<lambda>v. strip v \<noteq> []) (split_char (CHR '','') (case ed_getenv ed ''DUCKCLAW_CORS_ORIGINS'' of None \<Rightarrow> [] | Some v \<Rightarrow> v)));
     origins = (if given = [] then default_cors_origins else given);
     wildcard = (''*'' \<in> set origins)
   in \<lparr>co_origins = (if wildcard then [''*''] else origins), co_credentials = \<not> wildcard\<rparr>)"

subsection \<open>Limits\<close>

text \<open>The windows of the public addresses: when each began and how many requests it counts.\<close>

type_synonym windows = "(string \<times> real \<times> int) list"

definition public_client_ip :: "edge_env \<Rightarrow> request \<Rightarrow> string option" where
  "public_client_ip ed rq = (let host = (case rq_host rq of None \<Rightarrow> [] | Some h \<Rightarrow> h) in
     if ed_global ed host = Some True then Some host else None)"

text \<open>One request of an address is counted; the flag says that it is within the limit.\<close>

definition count_request :: "int \<Rightarrow> string \<Rightarrow> real \<Rightarrow> windows \<Rightarrow> bool \<times> windows" where
  "count_request limit ip clock ws = (let
     (start, n) = (case map_of ws ip of None \<Rightarrow> (clock, 0) | Some w \<Rightarrow> w);
     expired = (60 \<le> clock - start);
     (start, n) = (if expired then (clock, 0) else (start, n));
     ws = (if expired \<and> 10000 < length ws then [] else ws)
   in (n + 1 \<le> limit, AList.update ip (start, n + 1) ws))"

text \<open>\<open>str.isdigit\<close> also takes the superscript digits, which \<open>int\<close> refuses.\<close>

definition body_too_large :: "edge_env \<Rightarrow> request \<Rightarrow> py_error + bool" where
  "body_too_large ed rq = (let max_mb = edge_int ed ''DUCKCLAW_MAX_BODY_MB'' 50; declared = header rq ''content-length'' in
     if 0 < max_mb \<and> declared \<noteq> [] \<and> list_all is_digit_like declared
     then (case parse_int declared of None \<Rightarrow> Inl (ValueError ''invalid literal for int()'') | Some n \<Rightarrow> Inr (max_mb * 1024 * 1024 < n))
     else Inr False)"

text \<open>The status a middleware answers with, \<open>None\<close> when it passes the request on.\<close>

definition request_limits :: "edge_env \<Rightarrow> request \<Rightarrow> windows \<Rightarrow> py_error + nat option \<times> windows" where
  "request_limits ed rq ws = (case public_client_ip ed rq of
     None \<Rightarrow> Inr (None, ws)
   | Some ip \<Rightarrow> if rq_path rq = ''/health'' then Inr (None, ws)
     else bindE (body_too_large ed rq) (\<lambda>large.
       if large then Inr (Some 413, ws)
       else let limit = edge_int ed ''DUCKCLAW_RATE_LIMIT_PER_MIN'' 300 in
         if limit \<le> 0 then Inr (None, ws)
         else let (passes, ws) = count_request limit ip (rq_at rq) ws in Inr (if passes then None else Some 429, ws)))"

subsection \<open>The key of the tailnet\<close>

definition open_path :: "string \<Rightarrow> bool" where
  "open_path path \<longleftrightarrow> path \<in> {''/'', ''/health''} \<or> startswith ''/api/v1/telegram/'' path \<or> startswith ''/api/v1/sandbox/novnc/'' path \<or>
     startswith ''/api/v1/admin/'' path"

definition bare_path :: "string \<Rightarrow> string" where
  "bare_path path = str_or (rev (dropWhile (\<lambda>c. c = CHR ''/'') (rev path))) ''/''"

definition tailscale_auth :: "edge_env \<Rightarrow> request \<Rightarrow> nat option" where
  "tailscale_auth ed rq = (let auth_key = edge_var ed ''DUCKCLAW_TAILSCALE_AUTH_KEY''; path = bare_path (rq_path rq);
     admin_expected = edge_var ed ''DUCKCLAW_ADMIN_API_KEY''
   in if auth_key = [] then None
      else if open_path path then None
      else if admin_expected \<noteq> [] \<and> header rq ''X-Admin-Key'' = admin_expected \<and> startswith ''/api/v1/agent/'' path then None
      else if header rq ''X-Tailscale-Auth-Key'' \<noteq> auth_key then Some 401
      else None)"

subsection \<open>The context of the log\<close>

definition agent_prefix :: string where
  "agent_prefix = ''/api/v1/agent/''"

text \<open>The first match of \<open>/api/v1/agent/([^/]+)/chat\<close>.\<close>

fun agent_in_path :: "string \<Rightarrow> string option" where
  "agent_in_path [] = None"
| "agent_in_path (c # cs) = (let rest = drop (length agent_prefix) (c # cs); seg = takeWhile (\<lambda>c. c \<noteq> CHR ''/'') rest in
     if startswith agent_prefix (c # cs) \<and> seg \<noteq> [] \<and> startswith ''/chat'' (drop (length seg) rest) then Some seg else agent_in_path cs)"

record log_context =
  lc_tenant :: string
  lc_worker :: string
  lc_chat :: string

definition observability_context :: "request \<Rightarrow> log_context" where
  "observability_context rq = \<lparr>lc_tenant = str_or (header rq ''X-Tenant-Id'') ''default'',
     lc_worker = (case agent_in_path (rq_path rq) of None \<Rightarrow> ''manager'' | Some seg \<Rightarrow> str_or (strip seg) ''manager''),
     lc_chat = str_or (header rq ''X-Chat-Id'') ''unknown''\<rparr>"

text \<open>
  The chain in the order of \<open>register_gateway_middleware\<close>: the last one registered runs first. \<open>Inl\<close> is the status
  that ends the request, \<open>Inr\<close> the context in which the application runs.
\<close>

definition gateway_edge :: "edge_env \<Rightarrow> request \<Rightarrow> windows \<Rightarrow> py_error + (nat + log_context) \<times> windows" where
  "gateway_edge ed rq ws = bindE (request_limits ed rq ws) (\<lambda>(status, ws). case status of
     Some s \<Rightarrow> Inr (Inl s, ws)
   | None \<Rightarrow> (case tailscale_auth ed rq of
       Some s \<Rightarrow> Inr (Inl s, ws)
     | None \<Rightarrow> Inr (Inr (observability_context rq), ws)))"

subsection \<open>Telegram messages\<close>

definition telegram_limit :: nat where
  "telegram_limit = 4096"

definition telegram_reply_plain_chunk_size :: "edge_env \<Rightarrow> int" where
  "telegram_reply_plain_chunk_size ed = (let raw = edge_var ed ''DUCKCLAW_TELEGRAM_REPLY_CHUNK_PLAIN'' in
     if raw = [] then 2000 else case parse_int raw of None \<Rightarrow> 2000 | Some n \<Rightarrow> max 256 (min n (int telegram_limit - 200)))"

definition rfind_char :: "char \<Rightarrow> string \<Rightarrow> nat option" where
  "rfind_char c s = (if c \<in> set s then Some (length s - 1 - length (takeWhile (\<lambda>d. d \<noteq> c) (rev s))) else None)"

text \<open>Where the next chunk ends: after the last line break of the window, unless that is its first character.\<close>

definition chunk_end :: "nat \<Rightarrow> string \<Rightarrow> nat" where
  "chunk_end m t = (case rfind_char (CHR 10) (take m t) of None \<Rightarrow> m | Some nl \<Rightarrow> if 0 < nl then nl + 1 else m)"

function split_from :: "nat \<Rightarrow> string \<Rightarrow> string list" where
  "split_from m t = (if m = 0 \<or> length t \<le> m then [t] else take (chunk_end m t) t # split_from m (drop (chunk_end m t) t))"
  by pat_completeness auto

termination
  by (relation "measure (\<lambda>(_, t). length t)") (auto simp: chunk_end_def split: option.split)

declare split_from.simps [simp del]

definition split_plain_text_for_telegram_reply :: "string \<Rightarrow> int \<Rightarrow> string list" where
  "split_plain_text_for_telegram_reply text max_chunk = split_from (nat (max 64 max_chunk)) text"

function plain_subchunks_for_telegram_budget :: "(string \<Rightarrow> string) \<Rightarrow> string \<Rightarrow> string list" where
  "plain_subchunks_for_telegram_budget safe plain = (if plain = [] then []
     else if length (safe plain) \<le> telegram_limit - 32 then [plain]
     else if length plain \<le> 1 then [plain]
     else plain_subchunks_for_telegram_budget safe (take (length plain div 2) plain) @
       plain_subchunks_for_telegram_budget safe (drop (length plain div 2) plain))"
  by pat_completeness auto

termination
  by (relation "measure (\<lambda>(_, t). length t)") auto

declare plain_subchunks_for_telegram_budget.simps [simp del]

definition plain_parts :: "edge_env \<Rightarrow> (string \<Rightarrow> string) \<Rightarrow> string \<Rightarrow> string list" where
  "plain_parts ed safe reply = (let parts = concat (map (plain_subchunks_for_telegram_budget safe)
       (split_plain_text_for_telegram_reply reply (telegram_reply_plain_chunk_size ed)))
     in if parts = [] then [[]] else parts)"

definition gateway_multipart_plain_head_tail :: "edge_env \<Rightarrow> (string \<Rightarrow> string) \<Rightarrow> string \<Rightarrow> (string \<times> string) option" where
  "gateway_multipart_plain_head_tail ed safe reply = (case plain_parts ed safe reply of
     head # part # parts \<Rightarrow> (let tail_plain = join [CHR 10, CHR 10] (part # parts) in
       if strip tail_plain = [] then None else Some (head, tail_plain))
   | _ \<Rightarrow> None)"

subsection \<open>The limit holds within a window\<close>

text \<open>A run of requests: address and time of each, and whether it was within the limit.\<close>

fun serve :: "int \<Rightarrow> (string \<times> real) list \<Rightarrow> windows \<Rightarrow> (string \<times> bool) list" where
  "serve limit [] ws = []"
| "serve limit ((ip, clock) # rs) ws = (let (passes, ws) = count_request limit ip clock ws in (ip, passes) # serve limit rs ws)"

definition of_ip :: "string \<Rightarrow> (string \<times> 'a) list \<Rightarrow> 'a list" where
  "of_ip ip rs = map snd (filter (\<lambda>r. fst r = ip) rs)"

lemma of_ip_simps [simp]:
  "of_ip ip [] = []" "of_ip ip ((i, x) # rs) = (if i = ip then x # of_ip ip rs else of_ip ip rs)"
  by (simp_all add: of_ip_def)

lemma length_update: "length (AList.update k v al) \<le> Suc (length al)"
  by (induction al) auto

lemma count_request_window:
  assumes "length ws \<le> 10000"
  shows "map_of (snd (count_request limit i t ws)) = (map_of ws)(i \<mapsto> (case map_of ws i of None \<Rightarrow> (t, 1)
      | Some (s, n) \<Rightarrow> if 60 \<le> t - s then (t, 1) else (s, n + 1)))"
    and "length (snd (count_request limit i t ws)) \<le> Suc (length ws)"
    and "fst (count_request limit i t ws) \<longleftrightarrow> (case map_of ws i of None \<Rightarrow> 1 \<le> limit
      | Some (s, n) \<Rightarrow> if 60 \<le> t - s then 1 \<le> limit else n + 1 \<le> limit)"
  using assms by (auto simp: count_request_def Let_def update_conv' length_update split: option.split)

lemma serve_window:
  assumes "map_of ws ip = Some (t0, c)" "\<forall>t \<in> set (of_ip ip rs). t < t0 + 60" "length ws + length rs \<le> 10000"
  shows "of_ip ip (serve limit rs ws) = map (\<lambda>k. c + int k < limit) [0..<length (of_ip ip rs)]"
  using assms
proof (induction rs arbitrary: ws c)
  case (Cons r rs)
  obtain i t where r: "r = (i, t)" by (cases r)
  have l: "length ws \<le> 10000" using Cons.prems(3) by simp
  obtain w ws' where q: "count_request limit i t ws = (w, ws')" by (cases "count_request limit i t ws")
  note c = count_request_window [OF l, of limit i t, unfolded q fst_conv snd_conv]
  have n: "length ws' + length rs \<le> 10000" using c(2) Cons.prems(3) by simp
  show ?case
  proof (cases "i = ip")
    case True
    then have "\<not> 60 \<le> t - t0" using Cons.prems(2) r by simp
    then have w: "w \<longleftrightarrow> c + 1 \<le> limit" "map_of ws' ip = Some (t0, c + 1)" using c Cons.prems(1) True by simp_all
    have "of_ip ip (serve limit rs ws') = map (\<lambda>k. c + 1 + int k < limit) [0..<length (of_ip ip rs)]"
      by (rule Cons.IH [OF w(2) _ n]) (use Cons.prems(2) r True in simp)
    with True w(1) show ?thesis unfolding r by (auto simp: q [unfolded True] map_upt_Suc algebra_simps simp del: upt_Suc)
  next
    case False
    then have "map_of ws' ip = Some (t0, c)" using c(1) Cons.prems(1) by simp
    from Cons.IH [OF this _ n] False Cons.prems(2) show ?thesis unfolding r by (simp add: q)
  qed
qed simp

text \<open>
  C22. Of the requests an address makes within sixty seconds of its first one exactly the first \<open>limit\<close> pass, whatever
  other addresses do in between, as long as the table of windows has room for all of them.
\<close>

lemma rate_limit_holds:
  assumes "map_of ws ip = None" "\<forall>t \<in> set (of_ip ip rs). t < t0 + 60" "length ws + length rs < 10000"
  shows "of_ip ip (serve limit ((ip, t0) # rs) ws) = map (\<lambda>k. int k < limit) [0..<Suc (length (of_ip ip rs))]"
proof -
  have l: "length ws \<le> 10000" using assms(3) by simp
  obtain w ws' where q: "count_request limit ip t0 ws = (w, ws')" by (cases "count_request limit ip t0 ws")
  note c = count_request_window [OF l, of limit ip t0, unfolded q fst_conv snd_conv assms(1), simplified]
  have "of_ip ip (serve limit rs ws') = map (\<lambda>k. 1 + int k < limit) [0..<length (of_ip ip rs)]"
    by (rule serve_window) (use c assms in \<open>simp_all\<close>)
  with c(3) show ?thesis by (simp add: q map_upt_Suc algebra_simps del: upt_Suc) linarith
qed

lemma rate_limit_holds_witness:
  "of_ip ''a'' (serve 2 [(''a'', 0), (''b'', 70), (''a'', 1), (''a'', 59)] []) = [True, True, False]"
  using rate_limit_holds [of "[]" "''a''" "[(''b'', 70), (''a'', 1), (''a'', 59)]" 0 2] by (simp add: upt_rec numeral_3_eq_3)

text \<open>
  Once the table holds more than ten thousand windows, an expired window of any other address empties it: an address
  that had used up its limit passes again at once.
\<close>

lemma full_table_forgives:
  assumes "10000 < length ws" "map_of ws ip = Some (t0, n)" "limit \<le> n" "map_of ws other = Some (s, m)" "60 \<le> clock - s"
    "clock < t0 + 60" "1 \<le> limit" "ip \<noteq> other"
  shows "\<not> fst (count_request limit ip clock ws) \<and> of_ip ip (serve limit [(other, clock), (ip, clock)] ws) = [True]"
  using assms by (simp add: count_request_def Let_def)

lemma full_table_forgives_witness:
  "of_ip ''a'' (serve 5 [(''b'', 60), (''a'', 60)] ((''a'', 30, 5) # (''b'', 0, 1) # replicate 10000 (''c'', 0, 1))) = [True]"
  using full_table_forgives [of "(''a'', 30, 5) # (''b'', 0, 1) # replicate 10000 (''c'', 0, 1)" "''a''" 30 5 5 "''b''" 0 1 60] by simp

text \<open>
  C15. What reaches the application has passed every guard of the edge: a key of the tailnet, when one is set, came with
  the request or its path needs none, and a public address declared a body within the cap and is within its limit.
\<close>

lemma edge_guards:
  assumes "gateway_edge ed rq ws = Inr (Inr context, ws')"
  shows "(edge_var ed ''DUCKCLAW_TAILSCALE_AUTH_KEY'' = [] \<or> open_path (bare_path (rq_path rq)) \<or>
       header rq ''X-Tailscale-Auth-Key'' = edge_var ed ''DUCKCLAW_TAILSCALE_AUTH_KEY'' \<or>
       edge_var ed ''DUCKCLAW_ADMIN_API_KEY'' \<noteq> [] \<and> header rq ''X-Admin-Key'' = edge_var ed ''DUCKCLAW_ADMIN_API_KEY'' \<and>
         startswith ''/api/v1/agent/'' (bare_path (rq_path rq))) \<and>
    (\<forall>ip. public_client_ip ed rq = Some ip \<longrightarrow> rq_path rq \<noteq> ''/health'' \<longrightarrow> body_too_large ed rq = Inr False \<and>
       (0 < edge_int ed ''DUCKCLAW_RATE_LIMIT_PER_MIN'' 300 \<longrightarrow>
          (\<exists>start n. map_of ws' ip = Some (start, n) \<and> n \<le> edge_int ed ''DUCKCLAW_RATE_LIMIT_PER_MIN'' 300)))"
proof -
  from assms have l: "request_limits ed rq ws = Inr (None, ws')" and a: "tailscale_auth ed rq = None"
    by (auto simp: gateway_edge_def elim!: bindE_InrE split: option.splits)
  have "body_too_large ed rq = Inr False \<and> (0 < edge_int ed ''DUCKCLAW_RATE_LIMIT_PER_MIN'' 300 \<longrightarrow>
      (\<exists>start n. map_of ws' ip = Some (start, n) \<and> n \<le> edge_int ed ''DUCKCLAW_RATE_LIMIT_PER_MIN'' 300))"
    if "public_client_ip ed rq = Some ip" "rq_path rq \<noteq> ''/health''" for ip
    using l that by (auto simp: request_limits_def count_request_def Let_def update_conv' elim!: bindE_InrE split: if_split_asm prod.splits)
  with a show ?thesis by (auto simp: tailscale_auth_def Let_def split: if_split_asm)
qed

definition edge_env0 :: edge_env where
  "edge_env0 = \<lparr>ed_getenv = (\<lambda>n. if n = ''DUCKCLAW_TAILSCALE_AUTH_KEY'' then Some ''k'' else None), ed_global = (\<lambda>_. Some True)\<rparr>"

definition chat_request :: request where
  "chat_request = \<lparr>rq_host = Some ''8.8.8.8'', rq_path = ''/api/v1/agent/ana/chat'',
     rq_headers = (\<lambda>n. if n = ''X-Tailscale-Auth-Key'' then Some ''k'' else None), rq_at = 0\<rparr>"

lemma edge_guards_witness:
  "\<exists>ws. gateway_edge edge_env0 chat_request [] = Inr (Inr \<lparr>lc_tenant = ''default'', lc_worker = ''ana'', lc_chat = ''unknown''\<rparr>, ws) \<and>
     body_too_large edge_env0 chat_request = Inr False"
proof -
  have v: "edge_var edge_env0 ''DUCKCLAW_TAILSCALE_AUTH_KEY'' = ''k''" "edge_var edge_env0 ''DUCKCLAW_ADMIN_API_KEY'' = []"
    "edge_int edge_env0 ''DUCKCLAW_RATE_LIMIT_PER_MIN'' 300 = 300" "public_client_ip edge_env0 chat_request = Some ''8.8.8.8''"
    "header chat_request ''X-Tailscale-Auth-Key'' = ''k''" "body_too_large edge_env0 chat_request = Inr False"
    "open_path (bare_path (rq_path chat_request)) = False" "rq_path chat_request = ''/health'' \<longleftrightarrow> False"
    "observability_context chat_request = \<lparr>lc_tenant = ''default'', lc_worker = ''ana'', lc_chat = ''unknown''\<rparr>"
    by (simp_all add: edge_env0_def chat_request_def edge_var_def edge_int_def public_client_ip_def header_def body_too_large_def observability_context_def) code_simp+
  then have g: "gateway_edge edge_env0 chat_request [] = Inr (Inr \<lparr>lc_tenant = ''default'', lc_worker = ''ana'', lc_chat = ''unknown''\<rparr>, [(''8.8.8.8'', 0, 1)])"
    by (simp add: gateway_edge_def request_limits_def tailscale_auth_def count_request_def chat_request_def)
  from edge_guards [OF g] g v show ?thesis by blast
qed

subsection \<open>Replies in pieces\<close>

lemma chunk_end_bounds: "m < length t \<Longrightarrow> 0 < m \<Longrightarrow> 0 < chunk_end m t \<and> chunk_end m t \<le> m"
  by (auto simp: chunk_end_def rfind_char_def min_def)

lemma split_from_spec:
  "0 < m \<Longrightarrow> concat (split_from m t) = t \<and> (\<forall>c \<in> set (split_from m t). length c \<le> m \<and> (t \<noteq> [] \<longrightarrow> c \<noteq> []))"
proof (induction m t rule: split_from.induct)
  case (1 m t)
  show ?case
  proof (cases "length t \<le> m")
    case True
    then show ?thesis using 1(2) by (subst (1 2) split_from.simps) simp
  next
    case False
    with chunk_end_bounds [of m t] 1(2) have b: "0 < chunk_end m t" "chunk_end m t \<le> m" "m < length t" by simp_all
    with 1 False have "concat (split_from m (drop (chunk_end m t) t)) = drop (chunk_end m t) t"
      "\<forall>c \<in> set (split_from m (drop (chunk_end m t) t)). length c \<le> m \<and> c \<noteq> []" by auto
    with b 1(2) False show ?thesis by (subst (1 2) split_from.simps) auto
  qed
qed

lemma subchunks_concat: "concat (plain_subchunks_for_telegram_budget safe t) = t"
  by (induction safe t rule: plain_subchunks_for_telegram_budget.induct) (subst plain_subchunks_for_telegram_budget.simps, auto)

lemma subchunks_fit:
  "c \<in> set (plain_subchunks_for_telegram_budget safe t) \<Longrightarrow> c \<noteq> [] \<and> (length (safe c) \<le> telegram_limit - 32 \<or> length c = 1)"
proof (induction safe t rule: plain_subchunks_for_telegram_budget.induct)
  case (1 safe t)
  show ?case
  proof (cases "t = [] \<or> length (safe t) \<le> telegram_limit - 32 \<or> length t \<le> 1")
    case True
    then show ?thesis using 1(3) by (subst (asm) plain_subchunks_for_telegram_budget.simps) (auto simp: le_Suc_eq split: if_split_asm)
  next
    case False
    then have n: "t \<noteq> []" "\<not> length (safe t) \<le> telegram_limit - 32" "\<not> length t \<le> 1" by simp_all
    with 1(3) have "c \<in> set (plain_subchunks_for_telegram_budget safe (take (length t div 2) t)) \<or>
        c \<in> set (plain_subchunks_for_telegram_budget safe (drop (length t div 2) t))"
      by (subst (asm) plain_subchunks_for_telegram_budget.simps) simp
    then show ?thesis using 1(1,2) n by blast
  qed
qed

lemma parts_joined: "concat (plain_parts ed safe reply) = reply"
proof -
  let ?parts = "concat (map (plain_subchunks_for_telegram_budget safe) (split_plain_text_for_telegram_reply reply (telegram_reply_plain_chunk_size ed)))"
  have "concat (concat (map (plain_subchunks_for_telegram_budget safe) xs)) = concat xs" for xs
    by (induction xs) (simp_all add: subchunks_concat)
  moreover have "concat (split_plain_text_for_telegram_reply reply n) = reply" for n
    using split_from_spec [of "nat (max 64 n)" reply] by (simp add: split_plain_text_for_telegram_reply_def)
  ultimately have "concat ?parts = reply" by simp
  then show ?thesis by (cases "?parts = []") (simp_all only: plain_parts_def Let_def if_True if_False concat.simps append_Nil2 refl)
qed

lemma length_join: "length (join s (p # ps)) = length p + length (concat ps) + length s * length ps"
  by (induction ps arbitrary: p) simp_all

text \<open>
  C38. Cutting a reply into Telegram messages ends, loses nothing and adds nothing: the parts make up the reply, and
  every part is not empty and fits a message after it has been escaped, unless it is a single character. An empty reply has
  one empty part.
\<close>

lemma parts_make_reply:
  "concat (plain_parts ed safe reply) = reply \<and>
     (if reply = [] then plain_parts ed safe reply = [[]]
      else list_all (\<lambda>c. c \<noteq> [] \<and> (length (safe c) \<le> telegram_limit - 32 \<or> length c = 1)) (plain_parts ed safe reply))"
proof -
  let ?parts = "concat (map (plain_subchunks_for_telegram_budget safe) (split_plain_text_for_telegram_reply reply (telegram_reply_plain_chunk_size ed)))"
  have f: "\<forall>c \<in> set ?parts. c \<noteq> [] \<and> (length (safe c) \<le> telegram_limit - 32 \<or> length c = 1)" using subchunks_fit by auto
  show ?thesis
  proof (cases "?parts = []")
    case True
    with parts_joined [of ed safe reply] show ?thesis by (simp add: plain_parts_def Let_def)
  next
    case False
    then have p: "plain_parts ed safe reply = ?parts" by (simp only: plain_parts_def Let_def if_False)
    from False obtain c cs where "?parts = c # cs" by (cases ?parts) blast+
    with f parts_joined [of ed safe reply] have "reply \<noteq> []" unfolding p by auto
    with f parts_joined [of ed safe reply] show ?thesis unfolding p by (simp add: list_all_iff)
  qed
qed

text \<open>
  The head and the tail a long reply is stored as are not the reply: every part after the second adds a blank line
  that nobody wrote.
\<close>

lemma tail_adds_lines:
  assumes "gateway_multipart_plain_head_tail ed safe reply = Some (h, t)"
  shows "length h + length t = length reply + 2 * (length (plain_parts ed safe reply) - 2)"
proof -
  from assms obtain part parts where p: "plain_parts ed safe reply = h # part # parts" "t = join [CHR 10, CHR 10] (part # parts)"
    by (auto simp: gateway_multipart_plain_head_tail_def Let_def split: list.splits if_split_asm)
  from parts_joined [of ed safe reply] have "length reply = length (concat (h # part # parts))" by (simp add: p(1))
  then show ?thesis by (simp add: p length_join)
qed

lemma tail_adds_lines_witness:
  "gateway_multipart_plain_head_tail edge_env0 (\<lambda>s. s) (replicate 4001 (CHR ''a'')) =
     Some (replicate 2000 (CHR ''a''), replicate 2000 (CHR ''a'') @ [CHR 10, CHR 10, CHR ''a'']) \<and>
   length (replicate 2000 (CHR ''a'')) + length (replicate 2000 (CHR ''a'') @ [CHR 10, CHR 10, CHR ''a'']) = 4001 + 2 * (3 - 2)"
proof -
  have n: "telegram_reply_plain_chunk_size edge_env0 = 2000"
    by (simp add: telegram_reply_plain_chunk_size_def edge_var_def edge_env0_def strip_Nil)
  have e: "chunk_end 2000 (replicate k (CHR ''a'')) = 2000" for k by (simp add: chunk_end_def rfind_char_def take_replicate)
  have s: "split_plain_text_for_telegram_reply (replicate 4001 (CHR ''a'')) 2000 =
      [replicate 2000 (CHR ''a''), replicate 2000 (CHR ''a''), [CHR ''a'']]"
    by (simp add: split_plain_text_for_telegram_reply_def split_from.simps e take_replicate drop_replicate)
  have b: "plain_subchunks_for_telegram_budget (\<lambda>s. s) (replicate 2000 (CHR ''a'')) = [replicate 2000 (CHR ''a'')]"
    "plain_subchunks_for_telegram_budget (\<lambda>s. s) [CHR ''a''] = [[CHR ''a'']]"
    by (subst plain_subchunks_for_telegram_budget.simps, simp add: telegram_limit_def)+
  have p: "plain_parts edge_env0 (\<lambda>s. s) (replicate 4001 (CHR ''a'')) = [replicate 2000 (CHR ''a''), replicate 2000 (CHR ''a''), [CHR ''a'']]"
    by (simp add: plain_parts_def Let_def n s b)
  have "strip (replicate 2000 (CHR ''a'') @ [CHR 10, CHR 10, CHR ''a'']) = replicate 2000 (CHR ''a'') @ [CHR 10, CHR 10, CHR ''a'']"
    by (rule strip_ends) (simp_all add: hd_append is_space_def Let_def)
  then have g: "gateway_multipart_plain_head_tail edge_env0 (\<lambda>s. s) (replicate 4001 (CHR ''a'')) =
     Some (replicate 2000 (CHR ''a''), replicate 2000 (CHR ''a'') @ [CHR 10, CHR 10, CHR ''a''])"
    by (simp add: gateway_multipart_plain_head_tail_def p)
  from tail_adds_lines [OF g] g show ?thesis by (simp add: p)
qed

end
