(* ===== verification/ContextMonitor.thy ===== *)
theory ContextMonitor
  imports ContextBudget
begin

text \<open>
  The context monitor of a worker (\<open>packages/agents/src/duckclaw/workers/context_monitor.py\<close>): before each turn it folds
  the old part of a long history into a summary that stands in the system prompt. The policy and the split are those of
  \<open>ContextBudget\<close>.
\<close>

subsection \<open>State\<close>

text \<open>
  The state of the graph: the messages and its other fields. \<open>summarizer\<close> is the call of the model: the flag says which of
  the two fixed instructions stands before the text; \<open>None\<close> is an exception, otherwise the content of the reply.
\<close>

record chat_state =
  cs_messages :: "message list"
  cs_fields :: payload

type_synonym summarizer = "bool \<Rightarrow> string \<Rightarrow> pyval option"

record monitor =
  mo_pruning :: "pruning option"
  mo_prompt :: string
  mo_llm :: "summarizer option"
  mo_identity :: "(chat_state \<Rightarrow> payload) option"
  mo_key :: string

subsection \<open>The summary\<close>

definition compacted :: string where
  "compacted = ''Resumen compactado del hilo:'' @ [CHR 10]"

definition compose_context_summary_prompt :: "string \<Rightarrow> string \<Rightarrow> string" where
  "compose_context_summary_prompt base conversation_summary = (let base_prompt = strip base; summary = strip conversation_summary in
     if summary = [] then base_prompt
     else if base_prompt = [] then compacted @ summary
     else base_prompt @ [CHR 10, CHR 10] @ compacted @ summary)"

definition serialize_message :: "message \<Rightarrow> string list" where
  "serialize_message m = (let content = take 6000 (content_text (ms_content m)) in
     case ms_role m of
       Human \<Rightarrow> [''user: '' @ content]
     | AI \<Rightarrow> [''assistant: '' @ content]
     | Tool \<Rightarrow> [''tool_'' @ str_or (ms_name m) ''tool'' @ '': '' @ take 4000 content]
     | _ \<Rightarrow> [])"

definition serialize_messages_for_summary :: "message list \<Rightarrow> string" where
  "serialize_messages_for_summary messages = join [CHR 10] (concat (map serialize_message messages))"

definition rule_line :: string where
  "rule_line = [CHR 10, CHR 10] @ ''---'' @ [CHR 10]"

definition summary_request :: "message list \<Rightarrow> string \<Rightarrow> string \<Rightarrow> string" where
  "summary_request head prior alignment_preface =
     (if strip alignment_preface = [] then []
      else ''Informe de alineaci'' @ [char_of (243::nat)] @ ''n /goals:'' @ [CHR 10] @ strip alignment_preface @ rule_line) @
     ''Resumen previo del hilo (puede estar vac'' @ [char_of (237::nat)] @ ''o):'' @ [CHR 10] @ prior @ rule_line @
     ''Transcript a compactar:'' @ [CHR 10] @ serialize_messages_for_summary head"

definition llm_fold_conversation_summary :: "summarizer \<Rightarrow> message list \<Rightarrow> string \<Rightarrow> string \<Rightarrow> string \<Rightarrow> string" where
  "llm_fold_conversation_summary llm head prior fold_focus alignment_preface =
     (case llm (fold_focus = ''goals_alignment'') (summary_request head prior alignment_preface) of
       Some reply \<Rightarrow> take 12000 (strip (pystr (por reply (PStr []))))
     | None \<Rightarrow> strip (strip prior @ [CHR 10] @ ''[Error al generar resumen; contexto truncado.]''))"

definition summary_value :: "payload \<Rightarrow> string \<Rightarrow> string" where
  "summary_value flds summary_state_key = (let
     summary = pget flds summary_state_key PNone;
     summary = (if summary = PNone \<and> summary_state_key \<noteq> ''context_summary'' then pget flds ''context_summary'' PNone else summary);
     summary = (if summary = PNone \<and> summary_state_key \<noteq> ''analytical_summary'' then pget flds ''analytical_summary'' PNone else summary)
   in strip (pystr (por summary (PStr []))))"

definition with_identity :: "monitor \<Rightarrow> chat_state \<Rightarrow> chat_state \<Rightarrow> chat_state" where
  "with_identity mo state out = (case mo_identity mo of None \<Rightarrow> out | Some f \<Rightarrow> out\<lparr>cs_fields := dict_merge (cs_fields out) (f state)\<rparr>)"

subsection \<open>The monitor\<close>

text \<open>The loop that drops the oldest message while the rest is over the limit.\<close>

fun drop_oldest :: "int \<Rightarrow> message \<Rightarrow> message list \<Rightarrow> message list" where
  "drop_oldest cap sys (a # b # ms) =
     (if cap < estimate_tokens_from_messages (sys # a # b # ms) then drop_oldest cap sys (b # ms) else a # b # ms)"
| "drop_oldest cap sys ms = ms"

definition needs_pruning :: "pruning \<Rightarrow> bool \<Rightarrow> message list \<Rightarrow> bool" where
  "needs_pruning pr force messages \<longleftrightarrow> force \<or> pr_max_messages pr < int (length messages) \<or>
     pr_max_estimated_tokens pr < estimate_tokens_from_messages messages"

definition kept_messages :: "pruning \<Rightarrow> bool \<Rightarrow> message list \<Rightarrow> int" where
  "kept_messages pr force rest = (if force \<and> 2 \<le> length rest then max 1 (min (pr_keep_last_messages pr) (int (length rest) - 1))
     else pr_keep_last_messages pr)"

definition next_summary :: "monitor \<Rightarrow> message list \<Rightarrow> string \<Rightarrow> string \<Rightarrow> string \<Rightarrow> string" where
  "next_summary mo head prior fold_focus alignment_preface = (case mo_llm mo of
     Some llm \<Rightarrow> llm_fold_conversation_summary llm head prior fold_focus alignment_preface
   | None \<Rightarrow> (if prior = [] then [] else prior @ [CHR 10]) @ ''[Contexto anterior truncado.]'')"

definition monitored :: "monitor \<Rightarrow> chat_state \<Rightarrow> string \<Rightarrow> message list \<Rightarrow> chat_state" where
  "monitored mo state summary messages = with_identity mo state \<lparr>
     cs_messages = system_message (compose_context_summary_prompt (mo_prompt mo) summary) # messages,
     cs_fields = pset (mo_key mo) (PStr summary) (cs_fields state)\<rparr>"

definition apply_context_monitor_state ::
  "budget_env \<Rightarrow> monitor \<Rightarrow> bool \<Rightarrow> string \<Rightarrow> string \<Rightarrow> chat_state \<Rightarrow> chat_state" where
  "apply_context_monitor_state be mo force fold_focus alignment_preface state = (case mo_pruning mo of
     None \<Rightarrow> state
   | Some pr \<Rightarrow> (let messages = truncate_tool_messages_for_llm be (cs_messages state) (pr_tool_content_max_chars pr) in
       case messages of
         [] \<Rightarrow> with_identity mo state (state\<lparr>cs_messages := []\<rparr>)
       | sys # rest \<Rightarrow>
           if \<not> needs_pruning pr force messages \<or> ms_role sys \<noteq> System then with_identity mo state (state\<lparr>cs_messages := messages\<rparr>)
           else let (head, tail) = split_for_pruning rest (kept_messages pr force rest); prior = summary_value (cs_fields state) (mo_key mo) in
             if head = [] then monitored mo state prior (drop_oldest (pr_max_estimated_tokens pr) sys rest)
             else monitored mo state (next_summary mo head prior fold_focus alignment_preface) tail))"

subsection \<open>What the monitor keeps\<close>

lemma drop_oldest_suffix: "suffix (drop_oldest cap sys ms) ms \<and> (ms \<noteq> [] \<longrightarrow> drop_oldest cap sys ms \<noteq> [])"
  by (induction cap sys ms rule: drop_oldest.induct) (auto intro: suffix_ConsI)

lemma drop_oldest_fits: "length (drop_oldest cap sys ms) \<le> 1 \<or> estimate_tokens_from_messages (sys # drop_oldest cap sys ms) \<le> cap"
  by (induction cap sys ms rule: drop_oldest.induct) auto

lemma with_identity_messages [simp]: "cs_messages (with_identity mo state out) = cs_messages out"
  by (simp add: with_identity_def split: option.split)

lemma monitored_messages [simp]:
  "cs_messages (monitored mo state summary ms) = system_message (compose_context_summary_prompt (mo_prompt mo) summary) # ms"
  by (simp add: monitored_def)

text \<open>
  C19. The monitor keeps the conversation's shape: a system message stays first, what follows is an end of the history with
  its tool output cut, a history that was not empty keeps a message, and no tool result is parted from its call when an
  old part is folded away or nothing is pruned.
\<close>

lemma monitor_sound:
  assumes "cs_messages state = sys # rest" "ms_role sys = System" "rest \<noteq> []" "mo_pruning mo = Some pr"
    "short = truncate_tool_messages_for_llm be rest (pr_tool_content_max_chars pr)"
  shows "\<exists>sys' rest'. cs_messages (apply_context_monitor_state be mo force focus preface state) = sys' # rest' \<and> ms_role sys' = System \<and>
    rest' \<noteq> [] \<and> suffix rest' short \<and>
    (paired False rest \<and> (fst (split_for_pruning short (kept_messages pr force short)) \<noteq> [] \<or> rest' = short) \<longrightarrow> paired False rest')"
proof -
  let ?sys = "truncate_tool_message be (pr_tool_content_max_chars pr) sys"
  have c: "short = map (truncate_tool_message be (pr_tool_content_max_chars pr)) rest" "short \<noteq> []" "paired False short = paired False rest"
    using assms(3,5) by (simp_all add: truncate_tool_messages_for_llm_def)
  have m: "truncate_tool_messages_for_llm be (cs_messages state) (pr_tool_content_max_chars pr) = ?sys # short" "ms_role ?sys = System"
    using assms(1,2) c(1) by (simp_all add: truncate_tool_messages_for_llm_def)
  obtain h t where s: "split_for_pruning short (kept_messages pr force short) = (h, t)" by (cases "split_for_pruning short (kept_messages pr force short)")
  note sp = split_keeps_pairs [OF s]
  have t: "t \<noteq> []" "suffix t short" using sp c(2) by (auto simp: suffix_def)
  note d = drop_oldest_suffix [of "pr_max_estimated_tokens pr" ?sys short]
  show ?thesis
  proof (cases "needs_pruning pr force (?sys # short)")
    case False
    then show ?thesis using c m(2) assms(4) by (simp add: apply_context_monitor_state_def m(1) Let_def)
  next
    case True
    show ?thesis
    proof (cases "h = []")
      case True
      with \<open>needs_pruning pr force (?sys # short)\<close> show ?thesis using c d m(2) assms(4) s
        by (auto simp: apply_context_monitor_state_def m(1) Let_def system_message_def)
    next
      case False
      with True show ?thesis using c t m(2) assms(4) s sp
        by (auto simp: apply_context_monitor_state_def m(1) Let_def system_message_def)
    qed
  qed
qed

text \<open>
  A short history that is too large is not folded but cut from its front, and the call of a tool goes without the
  results it asked for: the model gets a tool result that follows no call.
\<close>

lemma monitor_orphans_result:
  assumes "cs_messages state = [sys, call, result]" "ms_role sys = System" "asks_tools call" "is_tool result"
    "mo_pruning mo = Some pr" "2 \<le> pr_keep_last_messages pr" "short = truncate_tool_message be (pr_tool_content_max_chars pr)"
    "pr_max_estimated_tokens pr < estimate_tokens_from_messages [sys, call, short result]"
  shows "\<exists>sys'. cs_messages (apply_context_monitor_state be mo False focus preface state) = [sys', short result] \<and>
    paired False [call, result] \<and> \<not> paired False [short result]"
proof -
  have k: "short sys = sys" "short call = call" using assms(2,3,7) by (auto simp: truncate_tool_message_def asks_tools_def split: content.split)
  have m: "truncate_tool_messages_for_llm be (cs_messages state) (pr_tool_content_max_chars pr) = [sys, call, short result]"
    using assms(1,7) k by (simp add: truncate_tool_messages_for_llm_def)
  have sp: "split_for_pruning [call, short result] (kept_messages pr False [call, short result]) = ([], [call, short result])"
    using assms(6) by (auto simp: split_for_pruning_def kept_messages_def Let_def)
  have "is_tool (short result)" using assms(4,7) by (simp add: is_tool_def)
  moreover have "\<not> is_tool call" using assms(3) by (auto simp: asks_tools_def is_tool_def)
  ultimately show ?thesis using assms(2,3,4,5,8) by (simp add: apply_context_monitor_state_def m sp needs_pruning_def)
qed

text \<open>
  The summary in the prompt is the one in the state: after a run that prunes, the system message is composed of the
  worker's prompt and the summary stored under the worker's key, and the summary read back is that one.
\<close>

lemma summary_in_prompt:
  assumes "cs_messages state = sys # rest" "ms_role sys = System" "mo_pruning mo = Some pr" "mo_identity mo = None"
    "needs_pruning pr force (truncate_tool_messages_for_llm be (cs_messages state) (pr_tool_content_max_chars pr))"
    "out = apply_context_monitor_state be mo force focus preface state"
  shows "hd (cs_messages out) = system_message (compose_context_summary_prompt (mo_prompt mo) (summary_value (cs_fields out) (mo_key mo)))"
proof -
  let ?sys = "truncate_tool_message be (pr_tool_content_max_chars pr) sys"
  define short where "short = map (truncate_tool_message be (pr_tool_content_max_chars pr)) rest"
  have m: "truncate_tool_messages_for_llm be (cs_messages state) (pr_tool_content_max_chars pr) = ?sys # short" "ms_role ?sys = System"
    using assms(1,2) by (simp_all add: truncate_tool_messages_for_llm_def short_def)
  obtain summary ms where o: "out = monitored mo state summary ms"
  proof -
    obtain h t where "split_for_pruning short (kept_messages pr force short) = (h, t)" by fastforce
    then have "out = monitored mo state (if h = [] then summary_value (cs_fields state) (mo_key mo)
          else next_summary mo h (summary_value (cs_fields state) (mo_key mo)) focus preface)
        (if h = [] then drop_oldest (pr_max_estimated_tokens pr) ?sys short else t)"
      using assms(2,3,5) unfolding assms(6) by (simp add: apply_context_monitor_state_def m Let_def)
    then show thesis by (rule that)
  qed
  show ?thesis unfolding o
    by (simp add: monitored_def with_identity_def assms(4) summary_value_def Let_def compose_context_summary_prompt_def por_def)
qed

definition prune2 :: pruning where
  "prune2 = \<lparr>pr_max_messages = 2, pr_max_estimated_tokens = 1, pr_keep_last_messages = 2, pr_tool_content_max_chars = 500, pr_sandbox_heartbeat = True\<rparr>"

definition monitor0 :: monitor where
  "monitor0 = \<lparr>mo_pruning = Some prune2, mo_prompt = ''You answer.'', mo_llm = None, mo_identity = None, mo_key = ''context_summary''\<rparr>"

lemma monitor_sound_witness:
  "\<exists>sys' rest'. cs_messages (apply_context_monitor_state budget_env0 monitor0 False [] []
      \<lparr>cs_messages = [msg System ''s'', msg Human ''a'', msg AI ''b'', msg Human ''c''], cs_fields = []\<rparr>) = sys' # rest' \<and>
    suffix rest' [msg Human ''a'', msg AI ''b'', msg Human ''c''] \<and> paired False rest'"
proof -
  let ?rest = "[msg Human ''a'', msg AI ''b'', msg Human ''c'']"
  let ?state = "\<lparr>cs_messages = msg System ''s'' # ?rest, cs_fields = []\<rparr>"
  have t: "truncate_tool_messages_for_llm budget_env0 ?rest (pr_tool_content_max_chars prune2) = ?rest"
    by (simp add: truncate_tool_messages_for_llm_def truncate_tool_message_def msg_def)
  have "fst (split_for_pruning ?rest (kept_messages prune2 False ?rest)) \<noteq> []"
    by (simp add: split_for_pruning_def Let_def kept_messages_def prune2_def is_tool_def msg_def numeral_2_eq_2)
  moreover have "paired False ?rest" by (simp add: is_tool_def msg_def)
  ultimately show ?thesis
    using monitor_sound [of ?state "msg System ''s''" ?rest monitor0 prune2 ?rest budget_env0 False "[]" "[]"] t
    by (auto simp: monitor0_def msg_def)
qed

lemma monitor_orphans_result_witness:
  "\<exists>sys'. cs_messages (apply_context_monitor_state budget_env0 monitor0 False [] []
      \<lparr>cs_messages = [msg System ''12345678'', call_msg, msg Tool ''r''], cs_fields = []\<rparr>) = [sys', msg Tool ''r'']"
proof -
  let ?state = "\<lparr>cs_messages = [msg System ''12345678'', call_msg, msg Tool ''r''], cs_fields = []\<rparr>"
  have r: "truncate_tool_message budget_env0 500 (msg Tool ''r'') = msg Tool ''r''"
    by (simp add: truncate_tool_message_def msg_def startswith_def Let_def)
  have "1 < estimate_tokens_from_messages [msg System ''12345678'', call_msg, msg Tool ''r'']"
    by (simp add: estimate_tokens_from_messages_def chars_def msg_def call_msg_def)
  then show ?thesis
    using monitor_orphans_result [of ?state "msg System ''12345678''" call_msg "msg Tool ''r''" monitor0 prune2
        "truncate_tool_message budget_env0 500" budget_env0 "[]" "[]"] r
    by (auto simp: monitor0_def prune2_def msg_def call_msg_def asks_tools_def is_tool_def)
qed

lemma summary_in_prompt_witness:
  "hd (cs_messages (apply_context_monitor_state budget_env0 monitor0 True [] []
      \<lparr>cs_messages = [msg System ''s'', msg Human ''a'', msg AI ''b''], cs_fields = [(''analytical_summary'', PStr ''old'')]\<rparr>)) =
    system_message (''You answer.'' @ [CHR 10, CHR 10] @ compacted @ ''old'' @ [CHR 10] @ ''[Contexto anterior truncado.]'')"
proof -
  let ?state = "\<lparr>cs_messages = [msg System ''s'', msg Human ''a'', msg AI ''b''], cs_fields = [(''analytical_summary'', PStr ''old'')]\<rparr>"
  let ?out = "apply_context_monitor_state budget_env0 monitor0 True [] [] ?state"
  have h: "hd (cs_messages ?out) = system_message (compose_context_summary_prompt (mo_prompt monitor0) (summary_value (cs_fields ?out) (mo_key monitor0)))"
    by (rule summary_in_prompt [of _ "msg System ''s''" _ _ prune2]) (simp_all add: monitor0_def needs_pruning_def msg_def)
  have "summary_value (cs_fields ?out) ''context_summary'' = ''old'' @ [CHR 10] @ ''[Contexto anterior truncado.]''"
    by code_simp
  moreover have "compose_context_summary_prompt (mo_prompt monitor0) (''old'' @ [CHR 10] @ ''[Contexto anterior truncado.]'') =
      ''You answer.'' @ [CHR 10, CHR 10] @ compacted @ ''old'' @ [CHR 10] @ ''[Contexto anterior truncado.]''" by code_simp
  moreover have "mo_key monitor0 = ''context_summary''" by (simp add: monitor0_def)
  ultimately show ?thesis using h by simp
qed

end
