(* ===== verification/CronSchedule.thy ===== *)
theory CronSchedule
  imports IntegrationCatalog Complex_Main
begin

text \<open>
  The clock schedules of a chat (\<open>packages/agents/src/duckclaw/runtime/scheduling/cron_wall_schedule.py\<close>): the parser of
  \<open>/crons --timestamp\<close>, the decision whether a poll fires a schedule, its expiry, and the list of schedules of a chat.
\<close>

subsection \<open>Local time\<close>

text \<open>
  \<open>cl_local\<close> is \<open>datetime.fromtimestamp(epoch, tz)\<close> over the database of time zones, \<open>None\<close> when it raises. Seconds are left
  out: the code compares a schedule with the clock by the minute, and a target has none.
\<close>

record local_time =
  lt_minute :: "int \<times> int \<times> int \<times> int \<times> int"
  lt_weekday :: int

record clock_env =
  cl_getenv :: "string \<Rightarrow> string option"
  cl_local :: "string \<Rightarrow> real \<Rightarrow> local_time option"

fun before :: "int \<times> int \<times> int \<times> int \<times> int \<Rightarrow> int \<times> int \<times> int \<times> int \<times> int \<Rightarrow> bool" where
  "before (a, b, c, d, e) (a', b', c', d', e') \<longleftrightarrow> a < a' \<or> a = a' \<and> (b < b' \<or> b = b' \<and> (c < c' \<or> c = c' \<and> (d < d' \<or> d = d' \<and> e < e')))"

definition leap_year :: "int \<Rightarrow> bool" where
  "leap_year y \<longleftrightarrow> 4 dvd y \<and> (\<not> 100 dvd y \<or> 400 dvd y)"

definition days_in_month :: "int \<Rightarrow> int \<Rightarrow> int" where
  "days_in_month y mo = (if mo = 2 then if leap_year y then 29 else 28 else if mo \<in> {4, 6, 9, 11} then 30 else 31)"

text \<open>\<open>datetime(y, mo, d, h, mi)\<close>: a number that fits no C int raises \<open>OverflowError\<close>, one out of range \<open>ValueError\<close>.\<close>

definition datetime :: "int \<times> int \<times> int \<times> int \<times> int \<Rightarrow> py_error + int \<times> int \<times> int \<times> int \<times> int" where
  "datetime t = (case t of (y, mo, d, h, mi) \<Rightarrow>
     if \<exists>n \<in> set [y, mo, d, h, mi]. n < - (2 ^ 31) \<or> 2 ^ 31 \<le> n then Inl (RuntimeError ''Python int too large to convert to C int'')
     else if 1 \<le> y \<and> y \<le> 9999 \<and> 1 \<le> mo \<and> mo \<le> 12 \<and> 1 \<le> d \<and> d \<le> days_in_month y mo \<and> 0 \<le> h \<and> h \<le> 23 \<and> 0 \<le> mi \<and> mi \<le> 59
     then Inr t else Inl (ValueError ''out of range''))"

subsection \<open>Parsing\<close>

definition default_cron_wall_tz :: "clock_env \<Rightarrow> string" where
  "default_cron_wall_tz ce = str_or (strip (str_or (case cl_getenv ce ''DUCKCLAW_CRONS_WALL_TZ'' of None \<Rightarrow> [] | Some v \<Rightarrow> v) ''America/Bogota''))
     ''America/Bogota''"

definition weekday_names :: "(string \<times> int) list" where
  "weekday_names = [(''mon'', 0), (''monday'', 0), (''lun'', 0), (''lunes'', 0), (''tue'', 1), (''tuesday'', 1), (''mar'', 1), (''martes'', 1),
     (''wed'', 2), (''wednesday'', 2), (''mie'', 2), (''mi'' @ [CHR 0xE9], 2), (''miercoles'', 2), (''mi'' @ [CHR 0xE9] @ ''rcoles'', 2),
     (''thu'', 3), (''thursday'', 3), (''jue'', 3), (''jueves'', 3), (''fri'', 4), (''friday'', 4), (''vie'', 4), (''viernes'', 4),
     (''sat'', 5), (''saturday'', 5), (''sab'', 5), (''s'' @ [CHR 0xE1] @ ''b'', 5), (''sabado'', 5), (''s'' @ [CHR 0xE1] @ ''bado'', 5),
     (''sun'', 6), (''sunday'', 6), (''dom'', 6), (''domingo'', 6)]"

definition number :: "string \<Rightarrow> int" where
  "number s = foldl (\<lambda>n c. 10 * n + (int (code c) - 48)) 0 s"

text \<open>\<open>(\d{1,2}):(\d{2})$\<close>.\<close>

definition clock_digits :: "string \<Rightarrow> (int \<times> int) option" where
  "clock_digits s = (case split_char (CHR '':'') s of
     [h, mi] \<Rightarrow> if length h \<in> {1, 2} \<and> length mi = 2 \<and> list_all is_digit (h @ mi) then Some (number h, number mi) else None
   | _ \<Rightarrow> None)"

definition parse_hhmm :: "string \<Rightarrow> (int \<times> int) option" where
  "parse_hhmm token = (case clock_digits (strip token) of
     None \<Rightarrow> None | Some (h, mi) \<Rightarrow> if 23 < h \<or> 59 < mi then None else Some (h, mi))"

definition parse_once_datetime :: "string \<Rightarrow> (int \<times> int \<times> int \<times> int \<times> int) option" where
  "parse_once_datetime token = (let s = strip token in
     if 11 \<le> length s \<and> list_all is_digit (take 4 s @ take 2 (drop 5 s) @ take 2 (drop 8 s)) \<and> s ! 4 = CHR ''-'' \<and> s ! 7 = CHR ''-'' \<and>
        (s ! 10 = CHR ''T'' \<or> is_space (s ! 10))
     then (case clock_digits (drop 11 s) of
         None \<Rightarrow> None
       | Some (h, mi) \<Rightarrow> let mo = number (take 2 (drop 5 s)); d = number (take 2 (drop 8 s)) in
           if mo < 1 \<or> 12 < mo \<or> d < 1 \<or> 31 < d \<or> 23 < h \<or> 59 < mi then None else Some (number (take 4 s), mo, d, h, mi))
     else None)"

definition parse_weekday_tokens :: "string list \<Rightarrow> int list option" where
  "parse_weekday_tokens tokens = (let low = map (\<lambda>t. lower (strip t)) (filter (\<lambda>t. strip t \<noteq> []) tokens) in
     if low = [''weekdays''] then Some [0, 1, 2, 3, 4]
     else if list_all (\<lambda>t. map_of weekday_names t \<noteq> None) low
     then Some (sort (remdups (map (\<lambda>t. case map_of weekday_names t of None \<Rightarrow> 0 | Some d \<Rightarrow> d) low)))
     else None)"

text \<open>The messages of the parser, by what is wrong; \<open>clock\<close> is the time of the request.\<close>

datatype wall_error = Usage | Bad_Date | Bad_Calendar | In_Past | Bad_Time | Bad_Day | Bad_Mode

definition once_spec :: "string \<Rightarrow> int \<times> int \<times> int \<times> int \<times> int \<Rightarrow> payload" where
  "once_spec tz t = (case t of (y, mo, d, h, mi) \<Rightarrow> [(''v'', PInt 1), (''tz'', PStr tz), (''kind'', PStr ''once''), (''once_y'', PInt y),
     (''once_mo'', PInt mo), (''once_d'', PInt d), (''once_h'', PInt h), (''once_mi'', PInt mi)])"

definition every_spec :: "string \<Rightarrow> int \<Rightarrow> int \<Rightarrow> int list \<Rightarrow> payload" where
  "every_spec tz h mi weekdays = [(''v'', PInt 1), (''tz'', PStr tz), (''kind'', PStr ''every''), (''every_h'', PInt h), (''every_mi'', PInt mi),
     (''weekdays'', PList (map PInt weekdays))]"

definition parse_cron_wall_tokens :: "clock_env \<Rightarrow> real \<Rightarrow> string list \<Rightarrow> py_error + wall_error + payload" where
  "parse_cron_wall_tokens ce clock tokens = (case tokens of
     [] \<Rightarrow> Inr (Inl Usage)
   | m # args \<Rightarrow> (let mode = lower (strip m); tz = default_cron_wall_tz ce in
       if mode = ''once'' then (case args of
           [] \<Rightarrow> Inr (Inl Usage)
         | token # _ \<Rightarrow> (case parse_once_datetime token of
             None \<Rightarrow> Inr (Inl Bad_Date)
           | Some t \<Rightarrow> (case datetime t of
               Inl _ \<Rightarrow> Inr (Inl Bad_Calendar)
             | Inr target \<Rightarrow> (case cl_local ce tz clock of
                 None \<Rightarrow> Inl (ValueError ''year is out of range'')
               | Some l \<Rightarrow> Inr (if before target (lt_minute l) then Inl In_Past else Inr (once_spec tz t))))))
       else if mode = ''every'' then (case args of
           [] \<Rightarrow> Inr (Inl Usage)
         | token # days \<Rightarrow> (case parse_hhmm token of
             None \<Rightarrow> Inr (Inl Bad_Time)
           | Some (h, mi) \<Rightarrow> (case parse_weekday_tokens days of
               None \<Rightarrow> Inr (Inl Bad_Day)
             | Some weekdays \<Rightarrow> Inr (Inr (every_spec tz h mi weekdays)))))
       else Inr (Inl Bad_Mode)))"

subsection \<open>Firing\<close>

definition spec_tz :: "clock_env \<Rightarrow> payload \<Rightarrow> string" where
  "spec_tz ce spec = gstr spec ''tz'' (default_cron_wall_tz ce)"

definition spec_int :: "payload \<Rightarrow> string \<Rightarrow> py_error + int" where
  "spec_int spec k = bindE (pitem spec k) pyint"

text \<open>\<open>None\<close>: a field is missing or no number, or there is no such date.\<close>

definition wall_once_datetime_local :: "payload \<Rightarrow> py_error + (int \<times> int \<times> int \<times> int \<times> int) option" where
  "wall_once_datetime_local spec = (case bindE (spec_int spec ''once_y'') (\<lambda>y. bindE (spec_int spec ''once_mo'') (\<lambda>mo.
       bindE (spec_int spec ''once_d'') (\<lambda>d. bindE (spec_int spec ''once_h'') (\<lambda>h. bindE (spec_int spec ''once_mi'') (\<lambda>mi. datetime (y, mo, d, h, mi)))))) of
     Inr t \<Rightarrow> Inr (Some t)
   | Inl (RuntimeError s) \<Rightarrow> Inl (RuntimeError s)
   | Inl _ \<Rightarrow> Inr None)"

definition spec_kind :: "payload \<Rightarrow> string" where
  "spec_kind spec = lower (strip (gstr spec ''kind'' []))"

definition local_now :: "clock_env \<Rightarrow> payload \<Rightarrow> real \<Rightarrow> py_error + local_time" where
  "local_now ce spec clock = (case cl_local ce (spec_tz ce spec) clock of None \<Rightarrow> Inl (ValueError ''year is out of range'') | Some l \<Rightarrow> Inr l)"

definition wall_once_expired :: "clock_env \<Rightarrow> payload \<Rightarrow> real \<Rightarrow> py_error + bool" where
  "wall_once_expired ce spec clock = (if spec_kind spec \<noteq> ''once'' then Inr False
     else bindE (wall_once_datetime_local spec) (\<lambda>dt. case dt of
         None \<Rightarrow> Inr True
       | Some target \<Rightarrow> bindE (local_now ce spec clock) (\<lambda>l. Inr (lt_minute l \<noteq> target \<and> before target (lt_minute l)))))"

definition already_fired :: "clock_env \<Rightarrow> payload \<Rightarrow> local_time \<Rightarrow> real \<Rightarrow> bool" where
  "already_fired ce spec l last_fire = (0 < last_fire \<and> (case cl_local ce (spec_tz ce spec) last_fire of
     None \<Rightarrow> False | Some k \<Rightarrow> lt_minute k = lt_minute l))"

fun minute_of_day :: "int \<times> int \<times> int \<times> int \<times> int \<Rightarrow> int \<times> int" where
  "minute_of_day (_, _, _, h, mi) = (h, mi)"

definition wall_schedule_should_fire :: "clock_env \<Rightarrow> real \<Rightarrow> payload \<Rightarrow> real \<Rightarrow> py_error + bool" where
  "wall_schedule_should_fire ce clock spec last_fire = bindE (local_now ce spec clock) (\<lambda>l.
     if spec_kind spec = ''once'' then bindE (wall_once_datetime_local spec) (\<lambda>dt.
       Inr (dt = Some (lt_minute l) \<and> \<not> already_fired ce spec l last_fire))
     else if spec_kind spec = ''every'' then (case bindE (spec_int spec ''every_h'') (\<lambda>h. bindE (spec_int spec ''every_mi'') (\<lambda>mi. Inr (h, mi))) of
         Inl _ \<Rightarrow> Inr False
       | Inr hm \<Rightarrow> if minute_of_day (lt_minute l) \<noteq> hm then Inr False
           else bindE (case pget spec ''weekdays'' PNone of
               PList (d # ds) \<Rightarrow> bindE (mapE pyint (d # ds)) (\<lambda>days. Inr (lt_weekday l \<in> set days))
             | _ \<Rightarrow> Inr True) (\<lambda>on. Inr (on \<and> \<not> already_fired ce spec l last_fire)))
     else Inr False)"

subsection \<open>The schedules of a chat\<close>

text \<open>
  \<open>_run_wall_items_for_chat\<close> of the heartbeat (\<open>services/heartbeat/main.py\<close>), which every poll runs over the list. A
  schedule is its decoded entry and the float under \<open>last_fire\<close>, 0 when it is missing or no number.
\<close>

record wall_item =
  wi_spec :: payload
  wi_last :: real

record chat_context =
  ch_delta :: int
  ch_goals :: bool
  ch_wall_trigger :: bool
  ch_worker :: string
  ch_tenant :: string
  ch_legacy_last :: real

definition is_goals_review_item :: "payload \<Rightarrow> bool" where
  "is_goals_review_item item \<longleftrightarrow> strip (gstr item ''prompt'' []) = []"

text \<open>One entry of the list: whether it fires, what is kept of it, and whether the list has to be written.\<close>

definition poll_item :: "clock_env \<Rightarrow> chat_context \<Rightarrow> real \<Rightarrow> wall_item \<Rightarrow> py_error + bool \<times> wall_item option \<times> bool" where
  "poll_item ce cx clock item = (let spec = wi_spec item; is_review = is_goals_review_item spec in
     bindE (wall_once_expired ce spec clock) (\<lambda>expired.
     if expired then Inr (False, None, True)
     else if is_review \<and> 0 < ch_delta cx then Inr (False, Some item, False)
     else if is_review \<and> \<not> ch_goals cx \<and> \<not> ch_wall_trigger cx then Inr (False, None, True)
     else if ch_worker cx = [] \<or> lower (ch_worker cx) = ''manager'' \<or> ch_tenant cx = [] then Inr (False, Some item, False)
     else bindE (wall_schedule_should_fire ce clock spec (if wi_last item = 0 then ch_legacy_last cx else wi_last item)) (\<lambda>fires.
       if \<not> fires then Inr (False, Some item, False)
       else Inr (True, if spec_kind spec \<noteq> ''once'' then Some (item\<lparr>wi_last := clock\<rparr>) else None, True))))"

text \<open>The whole list: what fired before an exception has been posted, and the list is then not written.\<close>

fun run_wall_items :: "clock_env \<Rightarrow> chat_context \<Rightarrow> real \<Rightarrow> wall_item list \<Rightarrow> wall_item list \<times> (py_error + wall_item list \<times> bool)" where
  "run_wall_items ce cx clock [] = ([], Inr ([], False))"
| "run_wall_items ce cx clock (item # items) = (case poll_item ce cx clock item of
     Inl e \<Rightarrow> ([], Inl e)
   | Inr (fires, kept, changed) \<Rightarrow> (let (fired, result) = run_wall_items ce cx clock items in
       (if fires then item # fired else fired,
        bindE result (\<lambda>(ks, c). Inr ((case kept of None \<Rightarrow> ks | Some k \<Rightarrow> k # ks), changed \<or> c)))))"

text \<open>\<open>next_wall_item_id\<close>: the loop over \<open>c1\<close>, \<open>c2\<close>, ...\<close>

definition item_id :: "nat \<Rightarrow> string" where
  "item_id n = ''c'' @ nat_str n"

lemma item_id_inj: "item_id m = item_id n \<longleftrightarrow> m = n"
  by (auto simp: item_id_def dest: nat_str_inj)

lemma finite_taken: "finite {k. n \<le> k \<and> item_id k \<in> set used}"
proof (rule finite_subset)
  show "{k. n \<le> k \<and> item_id k \<in> set used} \<subseteq> item_id -` set used" by auto
  show "finite (item_id -` set used)" by (rule finite_vimageI) (auto simp: inj_on_def item_id_inj)
qed

function free_item_id :: "string list \<Rightarrow> nat \<Rightarrow> string" where
  "free_item_id used n = (if item_id n \<in> set used then free_item_id used (n + 1) else item_id n)"
  by pat_completeness auto

termination
proof (relation "measure (\<lambda>(used, n). card {k. n \<le> k \<and> item_id k \<in> set used})")
  fix used n assume "item_id n \<in> set used"
  then have "n \<in> {k. n \<le> k \<and> item_id k \<in> set used}" "n \<notin> {k. n + 1 \<le> k \<and> item_id k \<in> set used}" by simp_all
  moreover have "{k. n + 1 \<le> k \<and> item_id k \<in> set used} \<subseteq> {k. n \<le> k \<and> item_id k \<in> set used}" by auto
  ultimately have "{k. n + 1 \<le> k \<and> item_id k \<in> set used} \<subset> {k. n \<le> k \<and> item_id k \<in> set used}" by blast
  then show "((used, n + 1), (used, n)) \<in> measure (\<lambda>(used, n). card {k. n \<le> k \<and> item_id k \<in> set used})"
    by (simp add: psubset_card_mono [OF finite_taken])
qed simp

declare free_item_id.simps [simp del]

definition next_wall_item_id :: "string list \<Rightarrow> string" where
  "next_wall_item_id used = free_item_id used 1"

definition given_id :: "payload \<Rightarrow> string option" where
  "given_id item = (if truthy (pget item ''id'' PNone) then Some (pystr (pget item ''id'' PNone)) else None)"

fun name_items :: "string list \<Rightarrow> payload list \<Rightarrow> payload list" where
  "name_items used [] = []"
| "name_items used (item # items) = (case given_id item of
     Some _ \<Rightarrow> item # name_items used items
   | None \<Rightarrow> let i = next_wall_item_id used in pset ''id'' (PStr i) item # name_items (i # used) items)"

text \<open>\<open>load_wall_items\<close> of the decoded text; \<open>None\<close> is a text that does not decode.\<close>

definition load_wall_items :: "pyval option \<Rightarrow> payload list" where
  "load_wall_items decoded = (let
     items = (case decoded of Some (PList xs) \<Rightarrow> xs | Some (PDict d) \<Rightarrow> [PDict d] | _ \<Rightarrow> []);
     out = concat (map (\<lambda>v. case v of PDict d \<Rightarrow> if truthy (pget d ''kind'' PNone) then [d] else [] | _ \<Rightarrow> []) items)
   in name_items (List.map_filter given_id out) out)"

subsection \<open>Every schedule has a name\<close>

lemma free_item_id_fresh: "free_item_id used n \<notin> set used \<and> free_item_id used n \<noteq> []"
  by (induction used n rule: free_item_id.induct) (subst (1 2) free_item_id.simps, simp add: item_id_def)

lemma name_items_named: "\<forall>item \<in> set (name_items used items). given_id item \<noteq> None"
proof (induction used items rule: name_items.induct)
  case (2 used item items)
  then show ?case
    using free_item_id_fresh [of used 1] by (auto simp: Let_def given_id_def next_wall_item_id_def split: option.split)
qed simp

lemma name_items_ids:
  assumes "distinct (List.map_filter given_id items)" "set (List.map_filter given_id items) \<subseteq> set used"
  shows "distinct (List.map_filter given_id (name_items used items)) \<and>
    set (List.map_filter given_id (name_items used items)) \<inter> set used \<subseteq> set (List.map_filter given_id items)"
  using assms
proof (induction used items rule: name_items.induct)
  case (2 used item items)
  show ?case
  proof (cases "given_id item")
    case None
    let ?i = "next_wall_item_id used"
    have f: "?i \<notin> set used" "?i \<noteq> []" using free_item_id_fresh [of used 1] by (simp_all add: next_wall_item_id_def)
    have g: "given_id (pset ''id'' (PStr ?i) item) = Some ?i" using f(2) by (simp add: given_id_def)
    have p: "distinct (List.map_filter given_id items)" "set (List.map_filter given_id items) \<subseteq> set (?i # used)"
      using 2(3,4) None by (auto simp: map_filter_simps)
    from 2(1) [OF None refl p] f(1) 2(4) None show ?thesis by (auto simp: map_filter_simps Let_def g)
  next
    case (Some j)
    then have p: "distinct (List.map_filter given_id items)" "set (List.map_filter given_id items) \<subseteq> set used" "j \<in> set used"
        "j \<notin> set (List.map_filter given_id items)"
      using 2(3,4) by (auto simp: map_filter_simps)
    from 2(2) [OF Some p(1,2)] p(3,4) show ?thesis by (auto simp: map_filter_simps Some)
  qed
qed simp

lemma map_filter_all: "\<forall>x \<in> set xs. f x \<noteq> None \<Longrightarrow> List.map_filter f xs = map (the \<circ> f) xs"
  by (induction xs) (auto simp: map_filter_simps)

text \<open>
  C39. Reading the schedules of a chat ends and gives every one of them an identifier; when the identifiers written in the
  list differ, all of them do.
\<close>

lemma loaded_items_named:
  "(\<forall>item \<in> set (load_wall_items decoded). given_id item \<noteq> None) \<and>
     (decoded = Some (PList (map PDict items)) \<and> list_all (\<lambda>d. truthy (pget d ''kind'' PNone)) items \<and>
        distinct (List.map_filter given_id items) \<longrightarrow> distinct (map (the \<circ> given_id) (load_wall_items decoded)))"
proof (intro conjI impI)
  show n: "\<forall>item \<in> set (load_wall_items decoded). given_id item \<noteq> None"
    unfolding load_wall_items_def Let_def by (rule name_items_named)
  assume a: "decoded = Some (PList (map PDict items)) \<and> list_all (\<lambda>d. truthy (pget d ''kind'' PNone)) items \<and> distinct (List.map_filter given_id items)"
  then have "concat (map (\<lambda>v. case v of PDict d \<Rightarrow> if truthy (pget d ''kind'' PNone) then [d] else [] | _ \<Rightarrow> []) (map PDict items)) = items"
    by (induction items arbitrary: decoded) (auto simp: map_filter_simps split: option.splits)
  with a have "load_wall_items decoded = name_items (List.map_filter given_id items) items" by (simp add: load_wall_items_def)
  with a name_items_ids [of items "List.map_filter given_id items"] have "distinct (List.map_filter given_id (load_wall_items decoded))" by simp
  then show "distinct (map (the \<circ> given_id) (load_wall_items decoded))" using map_filter_all [OF n] by simp
qed

lemma loaded_items_named_witness:
  "distinct (map (the \<circ> given_id) (load_wall_items (Some (PList (map PDict
     [[(''kind'', PStr ''every'')], [(''kind'', PStr ''every''), (''id'', PStr ''c1'')]])))))"
  using loaded_items_named [of "Some (PList (map PDict [[(''kind'', PStr ''every'')], [(''kind'', PStr ''every''), (''id'', PStr ''c1'')]]))"
      "[[(''kind'', PStr ''every'')], [(''kind'', PStr ''every''), (''id'', PStr ''c1'')]]"]
  by (simp add: map_filter_simps given_id_def)

subsection \<open>When a schedule fires\<close>

text \<open>
  The heartbeat over time: a poll reads the stored list and enqueues the new one when it changed (unless that fails); the
  db-writer stores the enqueued lists in their order, some time later. A poll carries the time and what it reads of the chat.
\<close>

datatype wall_event = Poll real chat_context bool | Write_lands

definition wall_step :: "clock_env \<Rightarrow> wall_event \<Rightarrow> wall_item list \<times> wall_item list list \<Rightarrow>
    (real \<times> wall_item) list \<times> wall_item list \<times> wall_item list list" where
  "wall_step ce ev st = (let (stored, pending) = st in case ev of
     Poll t cx sent \<Rightarrow> (let (fired, result) = run_wall_items ce cx t stored in
       (map (Pair t) fired, stored, (case result of
          Inr (kept, changed) \<Rightarrow> if changed \<and> sent then pending @ [kept] else pending | Inl _ \<Rightarrow> pending)))
   | Write_lands \<Rightarrow> (case pending of [] \<Rightarrow> ([], stored, []) | w # ws \<Rightarrow> ([], w, ws)))"

fun wall_run :: "clock_env \<Rightarrow> wall_event list \<Rightarrow> wall_item list \<times> wall_item list list \<Rightarrow> (real \<times> wall_item) list" where
  "wall_run ce [] st = []"
| "wall_run ce (ev # evs) st = (let (fired, st) = wall_step ce ev st in fired @ wall_run ce evs st)"

definition named :: "string \<Rightarrow> wall_item \<Rightarrow> bool" where
  "named x item \<longleftrightarrow> given_id (wi_spec item) = Some x"

text \<open>The times at which the schedule of a name fires.\<close>

definition fires_of :: "string \<Rightarrow> (real \<times> wall_item) list \<Rightarrow> real list" where
  "fires_of x fired = map fst (filter (\<lambda>(_, item). named x item) fired)"

text \<open>The polls of a run, and the run in which every list is stored before the next poll.\<close>

definition polls :: "wall_event list \<Rightarrow> (real \<times> chat_context) list" where
  "polls evs = concat (map (\<lambda>ev. case ev of Poll t cx _ \<Rightarrow> [(t, cx)] | Write_lands \<Rightarrow> []) evs)"

definition settled :: "wall_event list \<Rightarrow> bool" where
  "settled evs \<longleftrightarrow> evs = concat (map (\<lambda>(t, cx). [Poll t cx True, Write_lands]) (polls evs))"

text \<open>A poll raises for no schedule of the list, whatever its last firing.\<close>

definition never_raises :: "clock_env \<Rightarrow> (real \<times> chat_context) list \<Rightarrow> wall_item list \<Rightarrow> bool" where
  "never_raises ce ps items \<longleftrightarrow> (\<forall>item \<in> set items. \<forall>(t, cx) \<in> set ps. \<forall>l. \<not> isl (poll_item ce cx t (item\<lparr>wi_last := l\<rparr>)))"

text \<open>One schedule alone, each of its lists stored before the next poll.\<close>

fun item_run :: "clock_env \<Rightarrow> wall_item \<Rightarrow> (real \<times> chat_context) list \<Rightarrow> real list" where
  "item_run ce item [] = []"
| "item_run ce item ((t, cx) # ps) = (case poll_item ce cx t item of
     Inl _ \<Rightarrow> item_run ce item ps
   | Inr (fires, kept, _) \<Rightarrow> (if fires then [t] else []) @ (case kept of None \<Rightarrow> [] | Some k \<Rightarrow> item_run ce k ps))"

lemma poll_kept: "poll_item ce cx t item = Inr (f, k, c) \<Longrightarrow>
    (case k of None \<Rightarrow> c | Some i \<Rightarrow> i = item \<and> \<not> f \<or> i = item\<lparr>wi_last := t\<rparr> \<and> f) \<and> (f \<longrightarrow> c) \<and> (\<not> c \<longrightarrow> k = Some item)"
  by (auto simp: poll_item_def Let_def elim!: bindE_InrE split: if_split_asm)

lemma named_last [simp]: "named x (item\<lparr>wi_last := t\<rparr>) = named x item"
  by (simp add: named_def)

lemma run_named:
  assumes "run_wall_items ce cx t items = (fired, Inr (kept, changed))"
  shows "filter (named x) items = [] \<Longrightarrow> filter (named x) kept = [] \<and> filter (named x) fired = []"
    and "filter (named x) items = [item] \<Longrightarrow> poll_item ce cx t item = Inr (f, k, c) \<Longrightarrow>
      filter (named x) kept = (case k of None \<Rightarrow> [] | Some i \<Rightarrow> [i]) \<and> filter (named x) fired = (if f then [item] else []) \<and> (c \<longrightarrow> changed)"
    and "\<not> changed \<Longrightarrow> kept = items"
  using assms
proof (induction items arbitrary: fired kept changed)
  case (Cons i items)
  {
    case 1
    then obtain f' k' c' fs ks cs where p: "poll_item ce cx t i = Inr (f', k', c')" "run_wall_items ce cx t items = (fs, Inr (ks, cs))"
      "fired = (if f' then i # fs else fs)" "kept = (case k' of None \<Rightarrow> ks | Some k \<Rightarrow> k # ks)"
      by (auto simp: Let_def split: sum.splits prod.splits if_split_asm elim!: bindE_InrE)
    have "\<not> named x i" "filter (named x) items = []" using 1(1) by (auto split: if_split_asm)
    with Cons.IH(1) [OF this(2) p(2)] poll_kept [OF p(1)] p(3,4) show ?case by (auto split: option.splits)
  next
    case 2
    then obtain f' k' c' fs ks cs where p: "poll_item ce cx t i = Inr (f', k', c')" "run_wall_items ce cx t items = (fs, Inr (ks, cs))"
      "fired = (if f' then i # fs else fs)" "kept = (case k' of None \<Rightarrow> ks | Some k \<Rightarrow> k # ks)" "changed = (c' \<or> cs)"
      by (auto simp: Let_def split: sum.splits prod.splits if_split_asm elim!: bindE_InrE)
    show ?case
    proof (cases "named x i")
      case True
      then have i: "i = item" "filter (named x) items = []" using 2(1) by simp_all
      with Cons.IH(1) [OF i(2) p(2)] poll_kept [OF p(1)] p 2(2) True show ?thesis by (auto split: option.splits)
    next
      case False
      then have "filter (named x) items = [item]" using 2(1) by simp
      with Cons.IH(2) [OF this 2(2) p(2)] poll_kept [OF p(1)] p False show ?thesis by (auto split: option.splits)
    qed
  next
    case 3
    then obtain f' k' c' fs ks cs where p: "poll_item ce cx t i = Inr (f', k', c')" "run_wall_items ce cx t items = (fs, Inr (ks, cs))"
      "kept = (case k' of None \<Rightarrow> ks | Some k \<Rightarrow> k # ks)" "changed = (c' \<or> cs)"
      by (auto simp: Let_def split: sum.splits prod.splits if_split_asm elim!: bindE_InrE)
    with Cons.IH(3) [OF _ p(2)] poll_kept [OF p(1)] 3(1) show ?case by auto
  }
qed simp_all

lemma never_raises_less: "never_raises ce ps items \<Longrightarrow> set qs \<subseteq> set ps \<Longrightarrow> never_raises ce qs items"
  unfolding never_raises_def by (meson subsetD)

lemma never_raises_tl: "never_raises ce (p # ps) items \<Longrightarrow> never_raises ce ps items"
  by (rule never_raises_less) auto

lemma never_raises_item:
  assumes "never_raises ce ps items" "item \<in> set items" "(t, cx) \<in> set ps"
  obtains f k c where "poll_item ce cx t item = Inr (f, k, c)"
proof -
  have "\<not> isl (poll_item ce cx t (item\<lparr>wi_last := l\<rparr>))" for l
    using bspec [OF bspec [OF assms(1) [unfolded never_raises_def] assms(2)] assms(3)] by simp
  from this [of "wi_last item"] have "\<not> isl (poll_item ce cx t item)" by simp
  then show thesis by (cases "poll_item ce cx t item") (auto intro: that)
qed

lemma never_raises_run:
  assumes "never_raises ce ((t, cx) # ps) items"
  shows "\<exists>fired kept changed. run_wall_items ce cx t items = (fired, Inr (kept, changed)) \<and> never_raises ce ((t, cx) # ps) kept"
  using assms
proof (induction items)
  case (Cons i items)
  from never_raises_item [OF Cons.prems, of i t cx] obtain f k c where p: "poll_item ce cx t i = Inr (f, k, c)" by auto
  have "never_raises ce ((t, cx) # ps) items" using Cons.prems by (simp add: never_raises_def)
  with Cons.IH obtain fs ks cs where r: "run_wall_items ce cx t items = (fs, Inr (ks, cs))" "never_raises ce ((t, cx) # ps) ks" by blast
  have "never_raises ce ((t, cx) # ps) (case k of None \<Rightarrow> ks | Some j \<Rightarrow> j # ks)"
    using poll_kept [OF p] r(2) Cons.prems by (auto simp: never_raises_def split: option.splits)
  with p r(1) show ?case by (simp add: Let_def)
qed (auto simp: never_raises_def)

lemma fires_of_simps [simp]:
  "fires_of x (fired @ rest) = fires_of x fired @ fires_of x rest"
  "fires_of x (map (Pair t) items) = map (\<lambda>_. t) (filter (named x) items)" "fires_of x [] = []"
  by (simp_all add: fires_of_def filter_map comp_def)

lemma polls_simps [simp]:
  "polls [] = []" "polls (Poll t cx sent # evs) = (t, cx) # polls evs" "polls (Write_lands # evs) = polls evs" "polls (evs @ evs') = polls evs @ polls evs'"
  by (simp_all add: polls_def)

lemma settled_polls: "polls (concat (map (\<lambda>(t, cx). [Poll t cx True, Write_lands]) ps)) = ps"
  by (induction ps) auto

lemma gone_stays: "never_raises ce ps items \<Longrightarrow> filter (named x) items = [] \<Longrightarrow>
    fires_of x (wall_run ce (concat (map (\<lambda>(t, cx). [Poll t cx True, Write_lands]) ps)) (items, [])) = []"
proof (induction ps arbitrary: items)
  case (Cons p ps)
  obtain t cx where [simp]: "p = (t, cx)" by (cases p)
  obtain fired kept changed where r: "run_wall_items ce cx t items = (fired, Inr (kept, changed))" "never_raises ce ((t, cx) # ps) kept"
    using never_raises_run Cons.prems(1) by force
  have "never_raises ce ps kept" "never_raises ce ps items" using never_raises_tl r(2) Cons.prems(1) by blast+
  with Cons.IH run_named(1) [OF r(1) Cons.prems(2)] Cons.prems(2) show ?case by (simp add: wall_step_def r(1))
qed simp

lemma settled_run:
  assumes "never_raises ce ps items" "filter (named x) items = [item]"
  shows "fires_of x (wall_run ce (concat (map (\<lambda>(t, cx). [Poll t cx True, Write_lands]) ps)) (items, [])) = item_run ce item ps"
  using assms
proof (induction ps arbitrary: items item)
  case (Cons p ps)
  obtain t cx where [simp]: "p = (t, cx)" by (cases p)
  obtain fired kept changed where r: "run_wall_items ce cx t items = (fired, Inr (kept, changed))" "never_raises ce ((t, cx) # ps) kept"
    using never_raises_run Cons.prems(1) by force
  have n: "never_raises ce ps kept" "never_raises ce ps items" using never_raises_tl r(2) Cons.prems(1) by blast+
  have "item \<in> set items" using Cons.prems(2) by (metis filter_eq_ConsD in_set_conv_decomp list.set_intros(1))
  with never_raises_item [OF Cons.prems(1), of item t cx] obtain f k c where p: "poll_item ce cx t item = Inr (f, k, c)" by auto
  note q = run_named(2) [OF r(1) Cons.prems(2) p] and u = run_named(3) [OF r(1)]
  show ?case
  proof (cases k)
    case None
    with poll_kept [OF p] q gone_stays [OF n(1), of x] show ?thesis by (simp add: wall_step_def r(1) p)
  next
    case (Some i)
    with q have "filter (named x) kept = [i]" by simp
    from Cons.IH [OF n(1) this] q u p Some show ?thesis by (cases changed) (simp_all add: wall_step_def r(1))
  qed
qed simp

definition minute_at :: "clock_env \<Rightarrow> payload \<Rightarrow> real \<Rightarrow> int \<times> int \<times> int \<times> int \<times> int" where
  "minute_at ce spec t = lt_minute (the (cl_local ce (spec_tz ce spec) t))"

definition clock_ok :: "clock_env \<Rightarrow> payload \<Rightarrow> real list \<Rightarrow> bool" where
  "clock_ok ce spec ts \<longleftrightarrow> (\<forall>t \<in> set ts. 0 < t \<and> cl_local ce (spec_tz ce spec) t \<noteq> None)"

text \<open>The chat is bound to a worker and a tenant; the shared stamp of the chat lies in the minute of the poll.\<close>

definition bound :: "chat_context \<Rightarrow> bool" where
  "bound cx \<longleftrightarrow> ch_worker cx \<noteq> [] \<and> lower (ch_worker cx) \<noteq> ''manager'' \<and> ch_tenant cx \<noteq> []"

definition legacy_fired :: "clock_env \<Rightarrow> payload \<Rightarrow> real \<times> chat_context \<Rightarrow> bool" where
  "legacy_fired ce spec p = (case p of (t, cx) \<Rightarrow> 0 < ch_legacy_last cx \<and>
     cl_local ce (spec_tz ce spec) (ch_legacy_last cx) \<noteq> None \<and> minute_at ce spec (ch_legacy_last cx) = minute_at ce spec t)"

definition due_once :: "clock_env \<Rightarrow> payload \<Rightarrow> int \<times> int \<times> int \<times> int \<times> int \<Rightarrow> real \<times> chat_context \<Rightarrow> bool" where
  "due_once ce spec m p = (case p of (t, cx) \<Rightarrow> minute_at ce spec t = m \<and> bound cx \<and> \<not> legacy_fired ce spec p)"

text \<open>The minutes of a daily schedule: its time of day, on one of its days when it names any.\<close>

definition due_every :: "clock_env \<Rightarrow> payload \<Rightarrow> int \<Rightarrow> int \<Rightarrow> int list \<Rightarrow> real \<times> chat_context \<Rightarrow> bool" where
  "due_every ce spec h mi days p = (case p of (t, cx) \<Rightarrow> minute_of_day (minute_at ce spec t) = (h, mi) \<and>
     (days = [] \<or> lt_weekday (the (cl_local ce (spec_tz ce spec) t)) \<in> set days) \<and> bound cx)"

lemma local_now_ok: "cl_local ce (spec_tz ce spec) t \<noteq> None \<Longrightarrow>
    \<exists>l. local_now ce spec t = Inr l \<and> lt_minute l = minute_at ce spec t \<and> cl_local ce (spec_tz ce spec) t = Some l"
  by (auto simp: local_now_def minute_at_def)

lemma already_fired_minute: "lt_minute l = minute_at ce spec t \<Longrightarrow>
    already_fired ce spec l c \<longleftrightarrow> 0 < c \<and> cl_local ce (spec_tz ce spec) c \<noteq> None \<and> minute_at ce spec c = minute_at ce spec t"
  by (auto simp: already_fired_def minute_at_def split: option.split)

lemma before_irrefl: "\<not> before m m"
  by (cases m) simp

lemma before_total: "before m n \<or> m = n \<or> before n m"
  by (cases m; cases n) auto

lemma before_asym: "before m n \<Longrightarrow> \<not> before n m"
  by (cases m; cases n) auto

lemma poll_once:
  assumes "\<not> is_goals_review_item (wi_spec item)" "wi_last item = 0" "spec_kind (wi_spec item) = ''once''"
    "wall_once_datetime_local (wi_spec item) = Inr (Some m)" "cl_local ce (spec_tz ce (wi_spec item)) t \<noteq> None"
  shows "poll_item ce cx t item = Inr (if before m (minute_at ce (wi_spec item) t) then (False, None, True)
      else if due_once ce (wi_spec item) m (t, cx) then (True, None, True) else (False, Some item, False))"
proof -
  obtain l where l: "local_now ce (wi_spec item) t = Inr l" "lt_minute l = minute_at ce (wi_spec item) t" using local_now_ok [OF assms(5)] by blast
  have e: "wall_once_expired ce (wi_spec item) t = Inr (before m (minute_at ce (wi_spec item) t))"
    using assms(3,4) l by (auto simp: wall_once_expired_def before_irrefl)
  have f: "wall_schedule_should_fire ce t (wi_spec item) (ch_legacy_last cx) =
      Inr (minute_at ce (wi_spec item) t = m \<and> \<not> legacy_fired ce (wi_spec item) (t, cx))"
    using assms(3,4) l by (auto simp: wall_schedule_should_fire_def already_fired_minute [OF l(2)] legacy_fired_def)
  show ?thesis using assms(1-3) by (auto simp: poll_item_def Let_def due_once_def bound_def e f before_irrefl)
qed

text \<open>The runs of a schedule for one date: alone, and in a list, where what is enqueued lands late or never.\<close>

lemma once_run:
  assumes "\<not> is_goals_review_item (wi_spec item)" "wi_last item = 0" "spec_kind (wi_spec item) = ''once''"
    "wall_once_datetime_local (wi_spec item) = Inr (Some m)" "clock_ok ce (wi_spec item) (map fst ps)"
    "sorted_wrt (\<lambda>t u. \<not> before (minute_at ce (wi_spec item) u) (minute_at ce (wi_spec item) t)) (map fst ps)"
  shows "item_run ce item ps = map fst (take 1 (filter (due_once ce (wi_spec item) m) ps))"
  using assms(5,6)
proof (induction ps)
  case (Cons p ps)
  let ?m = "minute_at ce (wi_spec item)"
  obtain t cx where [simp]: "p = (t, cx)" by (cases p)
  have p: "poll_item ce cx t item = Inr (if before m (?m t) then (False, None, True)
      else if due_once ce (wi_spec item) m (t, cx) then (True, None, True) else (False, Some item, False))"
    using Cons.prems(1) by (intro poll_once assms) (simp add: clock_ok_def)
  show ?case
  proof (cases "before m (?m t)")
    case True
    then have "\<not> due_once ce (wi_spec item) m q" if "q \<in> set (p # ps)" for q
      using that Cons.prems(2) by (auto simp: before_irrefl due_once_def)
    then have "filter (due_once ce (wi_spec item) m) (p # ps) = []" by (simp add: filter_empty_conv)
    then show ?thesis using True by (simp add: p)
  next
    case False
    then show ?thesis using Cons by (auto simp: p clock_ok_def)
  qed
qed simp

definition lists_hold :: "clock_env \<Rightarrow> (real \<times> chat_context) list \<Rightarrow> string \<Rightarrow> wall_item list set \<Rightarrow> wall_item list list \<Rightarrow> bool" where
  "lists_hold ce ps x S ls \<longleftrightarrow> (\<forall>l \<in> set ls. never_raises ce ps l \<and> filter (named x) l \<in> S)"

lemma lists_land: "lists_hold ce ps x S (stored # pending) \<Longrightarrow>
    \<exists>stored' pending'. wall_step ce Write_lands (stored, pending) = ([], stored', pending') \<and> lists_hold ce ps x S (stored' # pending')"
  by (cases pending) (simp_all add: wall_step_def lists_hold_def)

text \<open>A poll in such a run: what it does to the schedule of the name, when the outcome is again among the lists allowed.\<close>

lemma lists_poll:
  assumes "lists_hold ce ps x S (stored # pending)" "(t, cx) \<in> set ps" "filter (named x) stored = [item]"
    "poll_item ce cx t item = Inr (f, k, c)" "S \<subseteq> S'" "(case k of None \<Rightarrow> [] | Some i \<Rightarrow> [i]) \<in> S'"
  shows "\<exists>fired pending'. wall_step ce (Poll t cx sent) (stored, pending) = (fired, stored, pending') \<and>
    fires_of x fired = (if f then [t] else []) \<and> lists_hold ce ps x S' (stored # pending')"
proof -
  have "never_raises ce ps stored" using assms(1) by (simp add: lists_hold_def)
  then have "never_raises ce ((t, cx) # ps) stored" by (rule never_raises_less) (use assms(2) in simp)
  from never_raises_run [OF this] obtain fired kept changed where r: "run_wall_items ce cx t stored = (fired, Inr (kept, changed))"
    "never_raises ce ((t, cx) # ps) kept" by blast
  have n: "never_raises ce ps kept" using r(2) by (rule never_raises_tl)
  from run_named(2) [OF r(1) assms(3,4)] r(1) n assms(1,5,6) show ?thesis by (auto simp: wall_step_def lists_hold_def)
qed

lemma lists_poll_gone:
  assumes "lists_hold ce ps x S (stored # pending)" "(t, cx) \<in> set ps" "filter (named x) stored = []" "[] \<in> S"
  shows "\<exists>fired pending'. wall_step ce (Poll t cx sent) (stored, pending) = (fired, stored, pending') \<and>
    fires_of x fired = [] \<and> lists_hold ce ps x S (stored # pending')"
proof -
  have "never_raises ce ps stored" using assms(1) by (simp add: lists_hold_def)
  then have "never_raises ce ((t, cx) # ps) stored" by (rule never_raises_less) (use assms(2) in simp)
  from never_raises_run [OF this] obtain fired kept changed where r: "run_wall_items ce cx t stored = (fired, Inr (kept, changed))"
    "never_raises ce ((t, cx) # ps) kept" by blast
  have n: "never_raises ce ps kept" using r(2) by (rule never_raises_tl)
  from run_named(1) [OF r(1) assms(3)] r(1) n assms(1,4) show ?thesis by (auto simp: wall_step_def lists_hold_def)
qed

lemma once_only_due:
  assumes "\<not> is_goals_review_item (wi_spec item)" "wi_last item = 0" "spec_kind (wi_spec item) = ''once''"
    "wall_once_datetime_local (wi_spec item) = Inr (Some m)" "clock_ok ce (wi_spec item) (map fst ps)"
    "set (polls evs) \<subseteq> set ps" "lists_hold ce ps x {[item], []} (stored # pending)"
  shows "set (fires_of x (wall_run ce evs (stored, pending))) \<subseteq> fst ` set (filter (due_once ce (wi_spec item) m) (polls evs))"
  using assms(6,7)
proof (induction evs arbitrary: stored pending)
  case (Cons ev evs)
  show ?case
  proof (cases ev)
    case (Poll t cx sent)
    have t: "(t, cx) \<in> set ps" "set (polls evs) \<subseteq> set ps" using Cons.prems(1) Poll by auto
    have "cl_local ce (spec_tz ce (wi_spec item)) t \<noteq> None" using assms(5) t(1) by (force simp: clock_ok_def)
    note o = poll_once [OF assms(1-4) this, where cx = cx]
    have "\<exists>f k c. poll_item ce cx t item = Inr (f, k, c) \<and> (f \<longrightarrow> due_once ce (wi_spec item) m (t, cx)) \<and>
        (case k of None \<Rightarrow> [] | Some i \<Rightarrow> [i]) \<in> {[item], []}"
      unfolding o by (cases "before m (minute_at ce (wi_spec item) t)"; cases "due_once ce (wi_spec item) m (t, cx)") auto
    then obtain f k c where p: "poll_item ce cx t item = Inr (f, k, c)" "f \<longrightarrow> due_once ce (wi_spec item) m (t, cx)"
      "(case k of None \<Rightarrow> [] | Some i \<Rightarrow> [i]) \<in> {[item], []}" by blast
    have "filter (named x) stored \<in> {[item], []}" using Cons.prems(2) by (simp add: lists_hold_def)
    then obtain fired pending' where s: "wall_step ce ev (stored, pending) = (fired, stored, pending')"
      "set (fires_of x fired) \<subseteq> (if f then {t} else {})" "lists_hold ce ps x {[item], []} (stored # pending')"
    proof (elim insertE emptyE)
      assume "filter (named x) stored = [item]"
      from lists_poll [OF Cons.prems(2) t(1) this p(1) subset_refl p(3), of sent] that Poll show thesis by (auto split: if_split_asm)
    next
      assume "filter (named x) stored = []"
      from lists_poll_gone [OF Cons.prems(2) t(1) this, of sent] that Poll show thesis by auto
    qed
    with Cons.IH [OF t(2) s(3)] p(2) Poll show ?thesis by (auto split: if_split_asm)
  next
    case Write_lands
    from lists_land [OF Cons.prems(2)] obtain stored' pending' where
      "wall_step ce ev (stored, pending) = ([], stored', pending')" "lists_hold ce ps x {[item], []} (stored' # pending')" using Write_lands by blast
    with Cons.IH [of stored' pending'] Cons.prems(1) Write_lands show ?thesis by simp
  qed
qed simp

lemma once_first_due:
  assumes "\<not> is_goals_review_item (wi_spec item)" "wi_last item = 0" "spec_kind (wi_spec item) = ''once''"
    "wall_once_datetime_local (wi_spec item) = Inr (Some m)" "clock_ok ce (wi_spec item) (map fst ps)"
    "set (polls evs) \<subseteq> set ps" "lists_hold ce ps x {[item]} (stored # pending)"
    "sorted_wrt (\<lambda>t u. \<not> before (minute_at ce (wi_spec item) u) (minute_at ce (wi_spec item) t)) (map fst (polls evs))"
    "filter (due_once ce (wi_spec item) m) (polls evs) = p # rest"
  shows "\<exists>ts. fires_of x (wall_run ce evs (stored, pending)) = fst p # ts"
  using assms(6-9)
proof (induction evs arbitrary: stored pending)
  case (Cons ev evs)
  let ?m = "minute_at ce (wi_spec item)" and ?due = "due_once ce (wi_spec item) m"
  show ?case
  proof (cases ev)
    case (Poll t cx sent)
    have t: "(t, cx) \<in> set ps" "set (polls evs) \<subseteq> set ps" using Cons.prems(1) Poll by auto
    have "cl_local ce (spec_tz ce (wi_spec item)) t \<noteq> None" using assms(5) t(1) by (force simp: clock_ok_def)
    note o = poll_once [OF assms(1-4) this, where cx = cx]
    have n: "filter (named x) stored = [item]" using Cons.prems(2) by (simp add: lists_hold_def)
    have b: "\<not> before m (?m t)"
    proof
      assume "before m (?m t)"
      then have "\<not> ?due q" if "q \<in> set (polls (ev # evs))" for q
        using that Cons.prems(3) Poll by (auto simp: before_irrefl due_once_def)
      then have "filter ?due (polls (ev # evs)) = []" by (simp add: filter_empty_conv)
      then show False using Cons.prems(4) by simp
    qed
    show ?thesis
    proof (cases "?due (t, cx)")
      case True
      with o b have "poll_item ce cx t item = Inr (True, None, True)" by simp
      from lists_poll [OF Cons.prems(2) t(1) n this, of "{[item], []}" sent] Poll True Cons.prems(4) show ?thesis by auto
    next
      case False
      with o b have "poll_item ce cx t item = Inr (False, Some item, False)" by simp
      from lists_poll [OF Cons.prems(2) t(1) n this subset_refl, of sent] obtain fired pending' where
        s: "wall_step ce ev (stored, pending) = (fired, stored, pending')" "fires_of x fired = []" "lists_hold ce ps x {[item]} (stored # pending')"
        using Poll by auto
      from Cons.IH [OF t(2) s(3)] Cons.prems(3,4) False s(1,2) Poll show ?thesis by simp
    qed
  next
    case Write_lands
    from lists_land [OF Cons.prems(2)] obtain stored' pending' where
      "wall_step ce ev (stored, pending) = ([], stored', pending')" "lists_hold ce ps x {[item]} (stored' # pending')" using Write_lands by blast
    with Cons.IH [of stored' pending'] Cons.prems Write_lands show ?thesis by simp
  qed
qed simp

text \<open>
  C23. A schedule for one date with a prompt of its own, in a list in which no schedule makes a poll raise, and clocks that do
  not go back: it fires only at polls of its minute in which the chat has a worker and a tenant and the chat's shared stamp
  (a \<open>/delta\<close> tick) is of another minute; when there are such polls it fires at the first one; and when every list is stored
  before the next poll it fires only there. (A list that is stored late or not at all makes it fire again at the later polls
  of the minute.)
\<close>

lemma once_fires_once:
  assumes "\<not> is_goals_review_item (wi_spec item)" "wi_last item = 0" "spec_kind (wi_spec item) = ''once''"
    "wall_once_datetime_local (wi_spec item) = Inr (Some m)" "clock_ok ce (wi_spec item) (map fst (polls evs))"
    "sorted_wrt (\<lambda>t u. \<not> before (minute_at ce (wi_spec item) u) (minute_at ce (wi_spec item) t)) (map fst (polls evs))"
    "filter (named x) items = [item]" "never_raises ce (polls evs) items"
    "fires = fires_of x (wall_run ce evs (items, []))" "due = map fst (filter (due_once ce (wi_spec item) m) (polls evs))"
  shows "set fires \<subseteq> set due \<and> (due \<noteq> [] \<longrightarrow> fires \<noteq> [] \<and> hd fires = hd due) \<and> (settled evs \<longrightarrow> fires = take 1 due)"
proof (intro conjI impI)
  have h: "lists_hold ce (polls evs) x S [items]" if "[item] \<in> S" for S using assms(7,8) that by (simp add: lists_hold_def)
  show "set fires \<subseteq> set due" using once_only_due [OF assms(1-5) subset_refl h] by (auto simp: assms(9,10))
  assume "due \<noteq> []"
  then obtain p rest where "filter (due_once ce (wi_spec item) m) (polls evs) = p # rest" by (cases "filter (due_once ce (wi_spec item) m) (polls evs)") (simp_all add: assms(10))
  with once_first_due [OF assms(1-5) subset_refl h assms(6) this] show "fires \<noteq> []" "hd fires = hd due" by (auto simp: assms(9,10))
next
  assume s: "settled evs"
  have "fires = item_run ce item (polls evs)"
    unfolding assms(9) by (subst s [unfolded settled_def]) (rule settled_run [OF assms(8,7)])
  then show "fires = take 1 due" using once_run [OF assms(1-6)] by (simp add: assms(10) take_map)
qed

lemma mapE_ints: "mapE pyint (map PInt xs) = Inr xs"
  by (induction xs) simp_all

text \<open>The fields of a daily schedule with a prompt of its own.\<close>

definition daily :: "payload \<Rightarrow> int \<Rightarrow> int \<Rightarrow> int list \<Rightarrow> bool" where
  "daily spec h mi days \<longleftrightarrow> \<not> is_goals_review_item spec \<and> spec_kind spec = ''every'' \<and> spec_int spec ''every_h'' = Inr h \<and>
     spec_int spec ''every_mi'' = Inr mi \<and> pget spec ''weekdays'' PNone = PList (map PInt days)"

lemma poll_every:
  assumes "daily (wi_spec item) h mi days" "cl_local ce (spec_tz ce (wi_spec item)) t \<noteq> None"
    "\<not> legacy_fired ce (wi_spec item) (t, cx)"
  shows "poll_item ce cx t item = Inr (if due_every ce (wi_spec item) h mi days (t, cx) \<and>
        \<not> (0 < wi_last item \<and> cl_local ce (spec_tz ce (wi_spec item)) (wi_last item) \<noteq> None \<and>
           minute_at ce (wi_spec item) (wi_last item) = minute_at ce (wi_spec item) t)
      then (True, Some (item\<lparr>wi_last := t\<rparr>), True) else (False, Some item, False))"
proof -
  obtain l where l: "local_now ce (wi_spec item) t = Inr l" "lt_minute l = minute_at ce (wi_spec item) t"
      "cl_local ce (spec_tz ce (wi_spec item)) t = Some l" using local_now_ok [OF assms(2)] by blast
  have k: "spec_kind (wi_spec item) = ''every''" "pget (wi_spec item) ''weekdays'' PNone = PList (map PInt days)"
    "spec_int (wi_spec item) ''every_h'' = Inr h" "spec_int (wi_spec item) ''every_mi'' = Inr mi" "\<not> is_goals_review_item (wi_spec item)"
    using assms(1) by (simp_all add: daily_def)
  have x: "wall_once_expired ce (wi_spec item) t = Inr False" by (simp add: wall_once_expired_def k)
  note a = already_fired_minute [OF l(2)]
  have d: "(case PList (map PInt days) of PList (d # ds) \<Rightarrow> bindE (mapE pyint (d # ds)) (\<lambda>days. Inr (lt_weekday l \<in> set days)) | _ \<Rightarrow> Inr True)
      = Inr (days = [] \<or> lt_weekday l \<in> set days)"
    by (cases days) (simp_all add: mapE_ints [of "_ # _", simplified])
  have f: "wall_schedule_should_fire ce t (wi_spec item) c = Inr (minute_of_day (minute_at ce (wi_spec item) t) = (h, mi) \<and>
      (days = [] \<or> lt_weekday l \<in> set days) \<and> \<not> already_fired ce (wi_spec item) l c)" for c
    unfolding wall_schedule_should_fire_def l(1) k bindE_simps d by (simp add: l(2))
  show ?thesis using assms(3) l(3) by (auto simp: poll_item_def Let_def bound_def due_every_def legacy_fired_def x f a k(1,5))
qed

text \<open>The runs of a daily schedule; no shared stamp lies in the minute of a poll.\<close>

definition stamps_apart :: "clock_env \<Rightarrow> payload \<Rightarrow> (real \<times> chat_context) list \<Rightarrow> bool" where
  "stamps_apart ce spec ps \<longleftrightarrow> (\<forall>p \<in> set ps. \<not> legacy_fired ce spec p)"

lemma every_after_fire:
  assumes "daily (wi_spec item) h mi days" "clock_ok ce (wi_spec item) (wi_last item # map fst ps)"
    "stamps_apart ce (wi_spec item) ps"
  shows "minute_at ce (wi_spec item) (wi_last item) # map (minute_at ce (wi_spec item)) (item_run ce item ps) =
    remdups_adj (minute_at ce (wi_spec item) (wi_last item) # map (\<lambda>p. minute_at ce (wi_spec item) (fst p)) (filter (due_every ce (wi_spec item) h mi days) ps))"
  using assms
proof (induction ps arbitrary: item)
  case (Cons p ps)
  let ?m = "minute_at ce (wi_spec item)" and ?due = "due_every ce (wi_spec item) h mi days"
  obtain t cx where [simp]: "p = (t, cx)" by (cases p)
  have ok: "clock_ok ce (wi_spec item) (wi_last item # map fst ps)" "clock_ok ce (wi_spec item) (t # map fst ps)" "0 < wi_last item"
      "cl_local ce (spec_tz ce (wi_spec item)) (wi_last item) \<noteq> None" "stamps_apart ce (wi_spec item) ps"
    using Cons.prems(2,3) by (simp_all add: clock_ok_def stamps_apart_def)
  have p: "poll_item ce cx t item = Inr (if ?due p \<and> ?m (wi_last item) \<noteq> ?m t then (True, Some (item\<lparr>wi_last := t\<rparr>), True) else (False, Some item, False))"
    using poll_every [OF Cons.prems(1), of ce t cx] ok(3,4) Cons.prems(2,3) by (simp add: clock_ok_def stamps_apart_def)
  show ?case
  proof (cases "?due p \<and> ?m (wi_last item) \<noteq> ?m t")
    case True
    then show ?thesis using Cons.IH [of "item\<lparr>wi_last := t\<rparr>"] Cons.prems(1) ok(2,5) by (simp add: p)
  next
    case False
    then show ?thesis using Cons.IH [OF Cons.prems(1) ok(1,5)] by (auto simp: p)
  qed
qed simp

lemma every_run:
  assumes "daily (wi_spec item) h mi days" "wi_last item = 0" "clock_ok ce (wi_spec item) (map fst ps)"
    "stamps_apart ce (wi_spec item) ps"
  shows "map (minute_at ce (wi_spec item)) (item_run ce item ps) =
    remdups_adj (map (\<lambda>p. minute_at ce (wi_spec item) (fst p)) (filter (due_every ce (wi_spec item) h mi days) ps))"
  using assms(3,4)
proof (induction ps)
  case (Cons p ps)
  let ?due = "due_every ce (wi_spec item) h mi days"
  obtain t cx where [simp]: "p = (t, cx)" by (cases p)
  have p: "poll_item ce cx t item = Inr (if ?due p then (True, Some (item\<lparr>wi_last := t\<rparr>), True) else (False, Some item, False))"
    using poll_every [OF assms(1), of ce t cx] assms(2) Cons.prems by (simp add: clock_ok_def stamps_apart_def)
  have s: "stamps_apart ce (wi_spec item) ps" using Cons.prems(2) by (simp add: stamps_apart_def)
  show ?case
  proof (cases "?due p")
    case True
    then show ?thesis using every_after_fire [of "item\<lparr>wi_last := t\<rparr>" h mi days ce ps] assms(1) Cons.prems s by (simp add: p)
  next
    case False
    then show ?thesis using Cons s by (simp add: p clock_ok_def)
  qed
qed simp

lemma every_any_run:
  assumes "daily (wi_spec item) h mi days" "clock_ok ce (wi_spec item) (map fst ps)"
    "stamps_apart ce (wi_spec item) ps" "set (polls evs) \<subseteq> set ps"
    "lists_hold ce ps x ((\<lambda>s. [item\<lparr>wi_last := s\<rparr>]) ` insert 0 F) (stored # pending)"
  shows "set (fires_of x (wall_run ce evs (stored, pending))) \<subseteq> fst ` set (filter (due_every ce (wi_spec item) h mi days) (polls evs)) \<and>
    minute_at ce (wi_spec item) ` fst ` set (filter (due_every ce (wi_spec item) h mi days) (polls evs)) \<subseteq>
      minute_at ce (wi_spec item) ` (F \<union> set (fires_of x (wall_run ce evs (stored, pending))))"
  using assms(4,5)
proof (induction evs arbitrary: stored pending F)
  case (Cons ev evs)
  let ?m = "minute_at ce (wi_spec item)" and ?due = "due_every ce (wi_spec item) h mi days" and ?S = "\<lambda>F. (\<lambda>s. [item\<lparr>wi_last := s\<rparr>]) ` insert 0 F"
  show ?case
  proof (cases ev)
    case (Poll t cx sent)
    have t: "(t, cx) \<in> set ps" "set (polls evs) \<subseteq> set ps" using Cons.prems(1) Poll by auto
    have l: "cl_local ce (spec_tz ce (wi_spec item)) t \<noteq> None" "\<not> legacy_fired ce (wi_spec item) (t, cx)"
      using assms(2,3) t(1) by (force simp: clock_ok_def stamps_apart_def)+
    obtain s where s: "s \<in> insert 0 F" "filter (named x) stored = [item\<lparr>wi_last := s\<rparr>]" using Cons.prems(2) by (auto simp: lists_hold_def)
    have i: "wi_spec (item\<lparr>wi_last := s\<rparr>) = wi_spec item" by simp
    note p = poll_every [of "item\<lparr>wi_last := s\<rparr>", unfolded i, OF assms(1) l]
    show ?thesis
    proof (cases "?due (t, cx) \<and> \<not> (0 < s \<and> cl_local ce (spec_tz ce (wi_spec item)) s \<noteq> None \<and> ?m s = ?m t)")
      case True
      then have q: "poll_item ce cx t (item\<lparr>wi_last := s\<rparr>) = Inr (True, Some (item\<lparr>wi_last := t\<rparr>), True)" using p by simp
      have S: "?S F \<subseteq> ?S (insert t F)" "(case Some (item\<lparr>wi_last := t\<rparr>) of None \<Rightarrow> [] | Some i \<Rightarrow> [i]) \<in> ?S (insert t F)" by auto
      from lists_poll [OF Cons.prems(2) t(1) s(2) q S, of sent] obtain fired pending' where
        r: "wall_step ce ev (stored, pending) = (fired, stored, pending')" "fires_of x fired = [t]" "lists_hold ce ps x (?S (insert t F)) (stored # pending')"
        using Poll by auto
      from Cons.IH [OF t(2) r(3)] r(1,2) True Poll show ?thesis by auto
    next
      case False
      then have q: "poll_item ce cx t (item\<lparr>wi_last := s\<rparr>) = Inr (False, Some (item\<lparr>wi_last := s\<rparr>), False)" using p by simp
      have S: "(case Some (item\<lparr>wi_last := s\<rparr>) of None \<Rightarrow> [] | Some i \<Rightarrow> [i]) \<in> ?S F" using s(1) by auto
      from lists_poll [OF Cons.prems(2) t(1) s(2) q subset_refl S, of sent] obtain fired pending' where
        r: "wall_step ce ev (stored, pending) = (fired, stored, pending')" "fires_of x fired = []" "lists_hold ce ps x (?S F) (stored # pending')"
        using Poll by auto
      have "?due (t, cx) \<Longrightarrow> ?m t \<in> ?m ` F" using False s(1) by (metis image_eqI insertE less_irrefl)
      with Cons.IH [OF t(2) r(3)] r(1,2) Poll show ?thesis by auto
    qed
  next
    case Write_lands
    from lists_land [OF Cons.prems(2)] obtain stored' pending' where
      "wall_step ce ev (stored, pending) = ([], stored', pending')" "lists_hold ce ps x (?S F) (stored' # pending')" using Write_lands by blast
    with Cons.IH [of F stored' pending'] Cons.prems(1) Write_lands show ?thesis by simp
  qed
qed simp

text \<open>
  C24. A daily schedule with a prompt of its own, in a list in which no schedule makes a poll raise, when the chat's shared stamp
  (a \<open>/delta\<close> tick) is never of the minute of a poll: it fires at polls of the minutes it names in which the chat has a worker
  and a tenant, and in every minute that has such a poll, however late its list is stored; when every list is stored before the
  next poll, it fires once in each run of polls of one minute.
\<close>

lemma every_fires_each_minute:
  assumes "daily (wi_spec item) h mi days" "wi_last item = 0"
    "clock_ok ce (wi_spec item) (map fst (polls evs))" "stamps_apart ce (wi_spec item) (polls evs)"
    "filter (named x) items = [item]" "never_raises ce (polls evs) items"
    "fires = fires_of x (wall_run ce evs (items, []))" "due = map fst (filter (due_every ce (wi_spec item) h mi days) (polls evs))"
  shows "set fires \<subseteq> set due \<and> minute_at ce (wi_spec item) ` set fires = minute_at ce (wi_spec item) ` set due \<and>
    (settled evs \<longrightarrow> map (minute_at ce (wi_spec item)) fires = remdups_adj (map (minute_at ce (wi_spec item)) due))"
proof (intro conjI impI)
  have "item\<lparr>wi_last := 0\<rparr> = item" using assms(2) by (cases item) simp
  then have "lists_hold ce (polls evs) x ((\<lambda>s. [item\<lparr>wi_last := s\<rparr>]) ` insert 0 {}) [items]" using assms(5,6) by (simp add: lists_hold_def)
  note a = every_any_run [OF assms(1,3,4) subset_refl this]
  then show "set fires \<subseteq> set due" by (simp add: assms(7,8))
  with a show "minute_at ce (wi_spec item) ` set fires = minute_at ce (wi_spec item) ` set due" by (auto simp: assms(7,8))
  assume s: "settled evs"
  have "fires = item_run ce item (polls evs)"
    unfolding assms(7) by (subst s [unfolded settled_def]) (rule settled_run [OF assms(6,5)])
  then show "map (minute_at ce (wi_spec item)) fires = remdups_adj (map (minute_at ce (wi_spec item)) due)"
    using every_run [OF assms(1-4)] by (simp add: assms(8) comp_def)
qed

text \<open>
  A date the parser accepts exists, is not past, and is the date the schedule is fired for: the schedule it makes is
  not expired when it is made.
\<close>

lemma accepted_date_is_due:
  assumes "parse_cron_wall_tokens ce clock tokens = Inr (Inr spec)" "spec_kind spec = ''once''"
  shows "\<exists>t l. wall_once_datetime_local spec = Inr (Some t) \<and> cl_local ce (spec_tz ce spec) clock = Some l \<and> \<not> before t (lt_minute l) \<and>
    wall_once_expired ce spec clock = Inr False"
proof -
  have k: "spec_kind (every_spec tz h mi days) = ''every''" for tz h mi days by (simp add: spec_kind_def every_spec_def gstr_def por_def) code_simp
  from assms k obtain t target l where s: "datetime t = Inr target" "cl_local ce (default_cron_wall_tz ce) clock = Some l"
      "\<not> before target (lt_minute l)" "spec = once_spec (default_cron_wall_tz ce) t"
    unfolding parse_cron_wall_tokens_def Let_def
    by (auto split: list.splits if_split_asm option.splits sum.splits prod.splits)
  obtain y mo d h mi where t: "t = (y, mo, d, h, mi)" by (cases t)
  have e: "target = t" using s(1) by (auto simp: datetime_def Let_def t split: if_split_asm)
  have "default_cron_wall_tz ce \<noteq> []" by (simp add: default_cron_wall_tz_def str_or_def)
  then have z: "spec_tz ce spec = default_cron_wall_tz ce" unfolding s(4) t by (simp add: spec_tz_def once_spec_def gstr_def por_def)
  have w: "wall_once_datetime_local spec = Inr (Some t)"
    using s(1) e unfolding s(4) t by (simp add: wall_once_datetime_local_def spec_int_def once_spec_def)
  then show ?thesis using s(2,3) e z by (auto simp: wall_once_expired_def local_now_def)
qed

subsection \<open>Tried on a morning\<close>

definition clock_env0 :: clock_env where
  "clock_env0 = \<lparr>cl_getenv = \<lambda>_. None, cl_local = \<lambda>_ t. Some \<lparr>lt_minute = (2026, 1, 1, 9, \<lfloor>t / 60\<rfloor>), lt_weekday = 3\<rparr>\<rparr>"

definition chat0 :: chat_context where
  "chat0 = \<lparr>ch_delta = 0, ch_goals = False, ch_wall_trigger = False, ch_worker = ''ana'', ch_tenant = ''t'', ch_legacy_last = 0\<rparr>"

definition once_item :: wall_item where
  "once_item = \<lparr>wi_spec = once_spec ''UTC'' (2026, 1, 1, 9, 2) @ [(''prompt'', PStr ''say hi''), (''id'', PStr ''c1'')], wi_last = 0\<rparr>"

lemma local_minute0 [simp]: "minute_at clock_env0 spec t = (2026, 1, 1, 9, \<lfloor>t / 60\<rfloor>)"
  by (simp add: minute_at_def clock_env0_def)

lemma floor_minutes: "\<lfloor>60 / 60 :: real\<rfloor> = 1" "\<lfloor>120 / 60 :: real\<rfloor> = 2" "\<lfloor>150 / 60 :: real\<rfloor> = 2" "\<lfloor>180 / 60 :: real\<rfloor> = 3"
  by (simp_all add: floor_eq_iff)

lemma once_item_facts: "is_goals_review_item (wi_spec once_item) = False" "wi_last once_item = 0" "spec_kind (wi_spec once_item) = ''once''"
  "wall_once_datetime_local (wi_spec once_item) = Inr (Some (2026, 1, 1, 9, 2))"
  by (code_simp, simp add: once_item_def, code_simp+)

lemma chat0_facts: "legacy_fired ce spec (t, chat0) = False" "bound chat0 = True" "clock_ok clock_env0 spec [60, 120, 150, 180]"
  by (simp add: legacy_fired_def chat0_def, code_simp, simp add: clock_ok_def clock_env0_def)

lemma local_now0: "\<exists>l. local_now clock_env0 spec t = Inr l"
  by (simp add: local_now_def clock_env0_def)

text \<open>In the first run the list of the second poll is stored after the third only, which fires again; the second is settled.\<close>

definition late_run :: "wall_event list" where
  "late_run = [Poll 60 chat0 True, Poll 120 chat0 True, Poll 150 chat0 True, Write_lands, Poll 180 chat0 True]"

definition settled_polls_run :: "wall_event list" where
  "settled_polls_run = [Poll 60 chat0 True, Write_lands, Poll 120 chat0 True, Write_lands, Poll 150 chat0 True, Write_lands, Poll 180 chat0 True, Write_lands]"

lemma demo_polls:
  "polls late_run = [(60, chat0), (120, chat0), (150, chat0), (180, chat0)]" "polls settled_polls_run = [(60, chat0), (120, chat0), (150, chat0), (180, chat0)]"
  "settled settled_polls_run" "map fst [(60 :: real, chat0), (120, chat0), (150, chat0), (180, chat0)] = [60, 120, 150, 180]"
  by (simp_all add: late_run_def settled_polls_run_def settled_def)

lemma once_fires_once_witness:
  "hd (fires_of ''c1'' (wall_run clock_env0 late_run ([once_item], []))) = 120 \<and>
   fires_of ''c1'' (wall_run clock_env0 settled_polls_run ([once_item], [])) = [120]"
proof -
  let ?m = "(2026, 1, 1, 9, 2)"
  note l = once_item_facts
  have n: "filter (named ''c1'') [once_item] = [once_item]" by (simp add: named_def once_item_def given_id_def once_spec_def)
  have "\<not> isl (poll_item clock_env0 chat0 t (once_item\<lparr>wi_last := c\<rparr>))" for t c
  proof -
    obtain k where "local_now clock_env0 (wi_spec once_item) t = Inr k" using local_now0 by blast
    then show ?thesis by (simp add: poll_item_def Let_def wall_once_expired_def wall_schedule_should_fire_def l)
  qed
  then have r: "never_raises clock_env0 ps [once_item]" if "\<forall>p \<in> set ps. snd p = chat0" for ps using that by (auto simp: never_raises_def)
  have r: "never_raises clock_env0 (polls late_run) [once_item]" "never_raises clock_env0 (polls settled_polls_run) [once_item]"
    by (rule r, simp add: demo_polls)+
  have d: "filter (due_once clock_env0 (wi_spec once_item) ?m) [(60, chat0), (120, chat0), (150, chat0), (180, chat0)] = [(120, chat0), (150, chat0)]"
    by (simp add: due_once_def chat0_facts floor_minutes [simplified])
  have s: "sorted_wrt (\<lambda>t u. \<not> before (minute_at clock_env0 (wi_spec once_item) u) (minute_at clock_env0 (wi_spec once_item) t)) [60, 120, 150, 180]"
    by (simp add: floor_minutes [simplified])
  note o = once_fires_once [OF _ l(2-4), of clock_env0, OF _ _ _ n _ refl refl]
  from o [of late_run] o [of settled_polls_run] l(1) s r chat0_facts(3) show ?thesis unfolding demo_polls d by (simp add: demo_polls(3))
qed

text \<open>What a late list costs: the schedule for one date fires twice.\<close>

lemma late_list_fires_again: "fires_of ''c1'' (wall_run clock_env0 late_run ([once_item], [])) = [120, 150]"
proof -
  have p: "poll_item clock_env0 chat0 t once_item = Inr (if before (2026, 1, 1, 9, 2) (minute_at clock_env0 (wi_spec once_item) t) then (False, None, True)
      else if due_once clock_env0 (wi_spec once_item) (2026, 1, 1, 9, 2) (t, chat0) then (True, None, True) else (False, Some once_item, False))" for t
    using once_item_facts by (intro poll_once) (simp_all add: clock_env0_def)
  have n: "named ''c1'' once_item" by (simp add: named_def once_item_def given_id_def once_spec_def)
  show ?thesis using n by (simp add: late_run_def wall_step_def p due_once_def chat0_facts floor_minutes [simplified] fires_of_def)
qed

definition daily_item :: wall_item where
  "daily_item = \<lparr>wi_spec = every_spec ''UTC'' 9 2 [] @ [(''prompt'', PStr ''say hi''), (''id'', PStr ''c1'')], wi_last = 0\<rparr>"

lemma every_fires_each_minute_witness:
  "minute_at clock_env0 (wi_spec daily_item) ` set (fires_of ''c1'' (wall_run clock_env0 late_run ([daily_item], []))) = {(2026, 1, 1, 9, 2)} \<and>
   map (minute_at clock_env0 (wi_spec daily_item)) (fires_of ''c1'' (wall_run clock_env0 settled_polls_run ([daily_item], []))) = [(2026, 1, 1, 9, 2)]"
proof -
  have w: "daily (wi_spec daily_item) 9 2 []" by (simp add: daily_def) code_simp
  have z: "wi_last daily_item = 0" by (simp add: daily_item_def)
  have n: "filter (named ''c1'') [daily_item] = [daily_item]" by (simp add: named_def daily_item_def given_id_def every_spec_def)
  have "\<not> isl (poll_item clock_env0 chat0 t (daily_item\<lparr>wi_last := c\<rparr>))" for t c
  proof -
    obtain k where "local_now clock_env0 (wi_spec daily_item) t = Inr k" using local_now0 by blast
    with w show ?thesis by (simp add: poll_item_def Let_def wall_once_expired_def wall_schedule_should_fire_def daily_def)
  qed
  then have r: "never_raises clock_env0 ps [daily_item]" if "\<forall>p \<in> set ps. snd p = chat0" for ps using that by (auto simp: never_raises_def)
  have r: "never_raises clock_env0 (polls late_run) [daily_item]" "never_raises clock_env0 (polls settled_polls_run) [daily_item]"
    by (rule r, simp add: demo_polls)+
  have d: "filter (due_every clock_env0 (wi_spec daily_item) 9 2 []) [(60, chat0), (120, chat0), (150, chat0), (180, chat0)] = [(120, chat0), (150, chat0)]"
    by (simp add: due_every_def chat0_facts floor_minutes [simplified])
  have s: "stamps_apart clock_env0 (wi_spec daily_item) [(60, chat0), (120, chat0), (150, chat0), (180, chat0)]" by (simp add: stamps_apart_def chat0_facts)
  note e = every_fires_each_minute [OF w z, of clock_env0, OF _ _ n _ refl refl]
  from e [of late_run] e [of settled_polls_run] s r chat0_facts(3) show ?thesis unfolding demo_polls d by (simp add: demo_polls(3) floor_minutes [simplified])
qed

lemma accepted_date_is_due_witness:
  "\<exists>t. wall_once_datetime_local (once_spec ''America/Bogota'' (2026, 1, 1, 9, 2)) = Inr (Some t)"
proof -
  have p: "parse_once_datetime ''2026-01-01T09:02'' = Some (2026, 1, 1, 9, 2)" "datetime (2026, 1, 1, 9, 2) = Inr (2026, 1, 1, 9, 2)"
    "lower (strip ''once'') = ''once''" "default_cron_wall_tz clock_env0 = ''America/Bogota''"
    "spec_kind (once_spec ''America/Bogota'' (2026, 1, 1, 9, 2)) = ''once''"
    by (simp_all add: default_cron_wall_tz_def clock_env0_def datetime_def days_in_month_def) code_simp+
  have "parse_cron_wall_tokens clock_env0 60 [''once'', ''2026-01-01T09:02''] = Inr (Inr (once_spec ''America/Bogota'' (2026, 1, 1, 9, 2)))"
    unfolding parse_cron_wall_tokens_def Let_def list.case p
    by (simp add: p clock_env0_def floor_minutes)
  from accepted_date_is_due [OF this p(5)] show ?thesis by blast
qed

end
