(* ===== verification/Conversations.thy ===== *)
theory Conversations
  imports WorkerLife ContextBudget
begin

text \<open>
  The conversations of the console (\<open>services/api-gateway/core/admin_conversations_db.py\<close>, and the rules for sessions and
  sections of \<open>admin_conversations.py\<close>): their rows, messages and titles. The cache in Redis is left out.
\<close>

subsection \<open>State\<close>

record conv =
  cn_id :: string
  cn_tenant :: string
  cn_actor :: string
  cn_title :: string
  cn_worker :: string
  cn_vault :: string
  cn_created :: string
  cn_updated :: string
  cn_section :: string
  cn_last :: string
  cn_preferred :: string
  cn_workers :: "string list option"
  cn_preview :: string
  cn_count :: int
  cn_origin :: string

record conv_message =
  cg_id :: string
  cg_conv :: string
  cg_role :: string
  cg_content :: string
  cg_at :: "string \<times> nat"

text \<open>\<open>cd_artifacts\<close>: the conversations of the artifacts. A list of workers whose text was cut does not decode.\<close>

record conv_db =
  cd_convs :: "conv list"
  cd_messages :: "conv_message list"
  cd_artifacts :: "string list"

record meta =
  cm_session :: string
  cm_tenant :: string
  cm_title :: string
  cm_created :: string
  cm_updated :: string
  cm_actor :: string
  cm_section :: string
  cm_last :: string
  cm_preferred :: string
  cm_workers :: "string list"
  cm_preview :: string
  cm_count :: int
  cm_origin :: string
  cm_vault :: string

text \<open>
  \<open>co_readable\<close>: the hub can be opened for reading, which it cannot while the writer holds it. \<open>co_queued\<close>: the statements
  go to the writer as one task, which runs them in one transaction; otherwise they run one by one in this process. The
  model applies a queued task at once. \<open>co_now\<close> is the time as text, \<open>co_uuid\<close> the identifiers drawn, \<open>co_odd\<close> a statement
  with a literal cut open.
\<close>

record conv_env =
  co_readable :: bool
  co_queued :: bool
  co_now :: string
  co_uuid :: "nat \<Rightarrow> string"
  co_odd :: "string list \<Rightarrow> conv_db \<Rightarrow> py_error + conv_db"

subsection \<open>Titles\<close>

text \<open>\<open>" ".join(text.split())\<close>.\<close>

fun squeeze :: "bool \<Rightarrow> string \<Rightarrow> string" where
  "squeeze pending [] = []"
| "squeeze pending (c # cs) = (if is_space c then squeeze True cs else (if pending then [CHR '' ''] else []) @ c # squeeze False cs)"

definition one_line :: "string \<Rightarrow> string" where
  "one_line s = squeeze False (lstrip s)"

definition preview_text :: "string \<Rightarrow> string" where
  "preview_text s = (let t = one_line s in if 120 < length t then take 119 t @ [ellipsis] else t)"

definition is_system_turn_title :: "string \<Rightarrow> bool" where
  "is_system_turn_title s \<longleftrightarrow> (let t = one_line s; low = lower t in
     startswith ''[ciclo loop]'' low \<or> startswith ''[ciclo meditate]'' low \<or> startswith ''[SYSTEM_EVENT'' t)"

definition title_from_first_message :: "string \<Rightarrow> string" where
  "title_from_first_message s = (let t = one_line s in
     if t = [] \<or> is_system_turn_title t then []
     else if 80 < length t then rstrip (take 79 t) @ [ellipsis] else t)"

definition conversation_word :: string where
  "conversation_word = ''Conversaci'' @ [CHR 0xF3] @ ''n ''"

text \<open>\<open>Conversacion dddd-dd-dd\<close>.\<close>

definition dated_title :: "string \<Rightarrow> bool" where
  "dated_title t \<longleftrightarrow> length t = length conversation_word + 10 \<and> startswith conversation_word t \<and> (let d = drop (length conversation_word) t in
     list_all is_digit (take 4 d @ take 2 (drop 5 d) @ drop 8 d) \<and> d ! 4 = CHR ''-'' \<and> d ! 7 = CHR ''-'')"

definition is_generic_conversation_title :: "string \<Rightarrow> bool" where
  "is_generic_conversation_title title \<longleftrightarrow> is_system_turn_title (strip title) \<or> dated_title (strip title)"

subsection \<open>Sessions\<close>

definition is_admin_ui_chat_session :: "string \<Rightarrow> bool" where
  "is_admin_ui_chat_session chat_id \<longleftrightarrow> (let cid = strip chat_id in
     cid = ''admin-playground'' \<or> startswith ''admin-section-'' cid \<or> startswith ''admin-ui'' cid \<or> contains ''admin-conv-'' cid)"

definition should_index_admin_conversation :: "string \<Rightarrow> bool" where
  "should_index_admin_conversation session_id \<longleftrightarrow> strip session_id \<noteq> [] \<and>
     (startswith ''admin-conv-'' (strip session_id) \<or> is_admin_ui_chat_session (strip session_id))"

definition derive_section_from_session_id :: "string \<Rightarrow> string \<Rightarrow> string" where
  "derive_section_from_session_id session_id origin_section = (let sid = strip session_id in
     if strip origin_section \<noteq> [] then lower (strip origin_section)
     else if sid = ''admin-playground'' then ''playground''
     else if startswith ''admin-section-'' sid then (let slug = drop (length ''admin-section-'') sid in
       if slug = [] \<or> slug = ''root'' then ''root''
       else if startswith ''kanban'' slug then ''kanban''
       else if startswith ''vnc'' slug then ''vnc''
       else if startswith ''train'' slug then ''train''
       else hd (split_char (CHR ''-'') slug))
     else if startswith ''admin-conv-'' sid then []
     else ''other'')"

definition admin_conversation_tenant_candidates :: "string \<Rightarrow> string list" where
  "admin_conversation_tenant_candidates primary_tenant_id = (let tid = str_or (strip (str_or primary_tenant_id ''default'')) ''default'' in
     if tid = ''default'' then [tid] else [tid, ''default''])"

definition tenant_or_default :: "string \<Rightarrow> string" where
  "tenant_or_default tenant_id = str_or (strip (str_or tenant_id ''default'')) ''default''"

subsection \<open>Rows\<close>

definition row_to_meta :: "conv \<Rightarrow> meta" where
  "row_to_meta r = \<lparr>cm_session = strip (cn_id r), cm_tenant = str_or (strip (str_or (cn_tenant r) ''default'')) ''default'', cm_title = strip (cn_title r),
     cm_created = cn_created r, cm_updated = cn_updated r, cm_actor = strip (cn_actor r), cm_section = strip (cn_section r),
     cm_last = strip (str_or (cn_last r) (cn_worker r)), cm_preferred = strip (cn_preferred r),
     cm_workers = (case cn_workers r of None \<Rightarrow> [] | Some ws \<Rightarrow> filter (\<lambda>w. strip w \<noteq> []) ws),
     cm_preview = strip (cn_preview r), cm_count = cn_count r, cm_origin = str_or (strip (str_or (cn_origin r) ''admin_ui'')) ''admin_ui'',
     cm_vault = strip (cn_vault r)\<rparr>"

text \<open>A query with a literal cut open fails, and a failing query is an empty one.\<close>

definition db_get_conversation_meta :: "conv_env \<Rightarrow> conv_db \<Rightarrow> string \<Rightarrow> string \<Rightarrow> meta option" where
  "db_get_conversation_meta co db tenant_id session_id = (let tid = tenant_or_default tenant_id; sid = strip session_id in
     if sid = [] \<or> \<not> co_readable co then None
     else with_lits [(tid, 128), (sid, 128)] (\<lambda>_. None)
       (\<lambda>vs. map_option row_to_meta (sel_one (\<lambda>r. cn_tenant r = vs ! 0 \<and> cn_id r = vs ! 1) (cd_convs db))))"

text \<open>What a turn says about its conversation; the fields that are \<open>None\<close> were not given.\<close>

record turn =
  tn_actor :: string
  tn_section :: string
  tn_last :: string
  tn_preferred :: "string option"
  tn_workers :: "string list option"
  tn_user :: string
  tn_assistant :: string
  tn_count :: "int option"
  tn_title :: string
  tn_vault :: "string option"
  tn_origin :: string

definition next_title :: "conv_env \<Rightarrow> meta option \<Rightarrow> turn \<Rightarrow> string \<times> bool" where
  "next_title co existing tn = (let explicit = strip (tn_title tn); auto = title_from_first_message (tn_user tn) in case existing of
     Some m \<Rightarrow> if explicit \<noteq> [] then (explicit, True)
       else if is_generic_conversation_title (cm_title m) \<and> auto \<noteq> [] then (auto, True)
       else (cm_title m, False)
   | None \<Rightarrow> let auto_title = str_or (str_or auto (title_from_first_message (tn_assistant tn))) (conversation_word @ take 10 (co_now co)) in
       if explicit \<noteq> [] \<and> \<not> is_generic_conversation_title explicit then (explicit, True)
       else if auto \<noteq> [] then (auto, False)
       else (str_or explicit auto_title, explicit \<noteq> []))"

definition next_count :: "meta option \<Rightarrow> turn \<Rightarrow> int" where
  "next_count existing tn = (case tn_count tn of Some n \<Rightarrow> n
   | None \<Rightarrow> let both = (tn_user tn \<noteq> [] \<and> tn_assistant tn \<noteq> []) in
       case existing of Some m \<Rightarrow> cm_count m + (if both then 1 else 0) | None \<Rightarrow> if both then 2 else 0)"

definition next_workers :: "meta option \<Rightarrow> turn \<Rightarrow> string list" where
  "next_workers existing tn = (let lw = strip (tn_last tn);
     ws = (case tn_workers tn of Some ws \<Rightarrow> ws | None \<Rightarrow> case existing of Some m \<Rightarrow> cm_workers m | None \<Rightarrow> [])
   in if lw \<noteq> [] \<and> lw \<notin> set ws then ws @ [lw] else ws)"

text \<open>The row a turn writes, before its texts go through their literals.\<close>

definition turn_row :: "conv_env \<Rightarrow> string \<Rightarrow> string \<Rightarrow> meta option \<Rightarrow> turn \<Rightarrow> conv" where
  "turn_row co tid sid existing tn = (let
     sec = derive_section_from_session_id sid (tn_section tn); lw = strip (tn_last tn);
     preferred = strip (case tn_preferred tn of Some p \<Rightarrow> p | None \<Rightarrow> case existing of Some m \<Rightarrow> cm_preferred m | None \<Rightarrow> []);
     preview = preview_text (strip (str_or (tn_assistant tn) (tn_user tn)));
     last_worker = (case existing of Some m \<Rightarrow> str_or lw (cm_last m) | None \<Rightarrow> lw)
   in \<lparr>cn_id = sid, cn_tenant = tid,
     cn_actor = (case existing of Some m \<Rightarrow> str_or (strip (str_or (tn_actor tn) (cm_actor m))) (cm_actor m) | None \<Rightarrow> strip (tn_actor tn)),
     cn_title = fst (next_title co existing tn), cn_worker = str_or last_worker preferred,
     cn_vault = (case existing of Some m \<Rightarrow> (case tn_vault tn of Some v \<Rightarrow> v | None \<Rightarrow> cm_vault m)
       | None \<Rightarrow> strip (case tn_vault tn of Some v \<Rightarrow> v | None \<Rightarrow> [])),
     cn_created = (case existing of Some m \<Rightarrow> str_or (cm_created m) (co_now co) | None \<Rightarrow> co_now co), cn_updated = co_now co,
     cn_section = (case existing of Some m \<Rightarrow> str_or sec (cm_section m) | None \<Rightarrow> sec), cn_last = last_worker, cn_preferred = preferred,
     cn_workers = Some (next_workers existing tn),
     cn_preview = (case existing of Some m \<Rightarrow> str_or preview (cm_preview m) | None \<Rightarrow> preview),
     cn_count = next_count existing tn, cn_origin = str_or (tn_origin tn) ''admin_ui''\<rparr>)"

definition workers_text :: "string list \<Rightarrow> string" where
  "workers_text ws = json_dumps (PList (map PStr ws))"

text \<open>\<open>INSERT ... ON CONFLICT (conversation_id) DO UPDATE\<close>; the time of creation stays, the title only changes when the turn sets it.\<close>

definition put_conv :: "bool \<Rightarrow> conv \<Rightarrow> conv_db \<Rightarrow> conv_db" where
  "put_conv set_title r db = db\<lparr>cd_convs := ins_or_update cn_id r
     (\<lambda>old. r\<lparr>cn_created := cn_created old, cn_title := (if set_title then cn_title r else cn_title old)\<rparr>) (cd_convs db)\<rparr>"

definition write_conv :: "conv_env \<Rightarrow> bool \<Rightarrow> conv \<Rightarrow> conv_db \<Rightarrow> py_error + conv_db" where
  "write_conv co set_title r db = (let ws = (case cn_workers r of None \<Rightarrow> [] | Some ws \<Rightarrow> ws) in
     with_lits [(cn_id r, 128), (cn_tenant r, 128), (cn_actor r, 256), (cn_title r, 512), (cn_worker r, 128), (cn_vault r, 1024),
       (cn_created r, 64), (cn_updated r, 64), (cn_section r, 64), (cn_last r, 128), (cn_preferred r, 128), (workers_text ws, 4096),
       (cn_preview r, 256), (cn_origin r, 64)] (\<lambda>ls. co_odd co ls db)
     (\<lambda>vs. Inr (put_conv set_title \<lparr>cn_id = vs ! 0, cn_tenant = vs ! 1, cn_actor = vs ! 2, cn_title = vs ! 3, cn_worker = vs ! 4, cn_vault = vs ! 5,
         cn_created = vs ! 6, cn_updated = vs ! 7, cn_section = vs ! 8, cn_last = vs ! 9, cn_preferred = vs ! 10,
         cn_workers = (if vs ! 11 = workers_text ws then Some ws else None), cn_preview = vs ! 12, cn_count = cn_count r, cn_origin = vs ! 13\<rparr> db)))"

text \<open>
  \<open>_execute_hub_write\<close>: whether the caller goes on as if it had worked, and the hub. A failed task of the writer is rolled
  back and the caller does not hear of it; run inline, the statements before the failing one stay.
\<close>

fun run_statements :: "(conv_db \<Rightarrow> py_error + conv_db) list \<Rightarrow> conv_db \<Rightarrow> bool \<times> conv_db" where
  "run_statements [] db = (True, db)"
| "run_statements (st # sts) db = (case st db of Inl _ \<Rightarrow> (False, db) | Inr db \<Rightarrow> run_statements sts db)"

definition execute_hub_write :: "conv_env \<Rightarrow> (conv_db \<Rightarrow> py_error + conv_db) list \<Rightarrow> conv_db \<Rightarrow> bool \<times> conv_db" where
  "execute_hub_write co sts db = (let (ok, after) = run_statements sts db in
     (ok \<or> co_queued co, if ok \<or> \<not> co_queued co then after else db))"

definition db_upsert_conversation_meta :: "conv_env \<Rightarrow> string \<Rightarrow> string \<Rightarrow> meta option \<Rightarrow> turn \<Rightarrow> conv_db \<Rightarrow> meta option \<times> conv_db" where
  "db_upsert_conversation_meta co tenant_id session_id given tn db = (let tid = tenant_or_default tenant_id; sid = strip session_id in
     if \<not> should_index_admin_conversation session_id \<or> sid = [] then (None, db)
     else let existing = (case given of Some m \<Rightarrow> Some m | None \<Rightarrow> db_get_conversation_meta co db tid sid);
            row = turn_row co tid sid existing tn;
            (sent, db) = execute_hub_write co [write_conv co (snd (next_title co existing tn)) row] db
       in (if sent then Some (row_to_meta row) else None, db))"

text \<open>The three patches: what was read, with one field set.\<close>

definition meta_turn :: "meta \<Rightarrow> turn" where
  "meta_turn m = \<lparr>tn_actor = cm_actor m, tn_section = cm_section m, tn_last = cm_last m, tn_preferred = Some (cm_preferred m),
     tn_workers = Some (cm_workers m), tn_user = [], tn_assistant = cm_preview m, tn_count = Some (cm_count m), tn_title = cm_title m,
     tn_vault = Some (cm_vault m), tn_origin = cm_origin m\<rparr>"

definition patch_conversation :: "conv_env \<Rightarrow> string \<Rightarrow> string \<Rightarrow> (meta \<Rightarrow> turn) \<Rightarrow> conv_db \<Rightarrow> meta option \<times> conv_db" where
  "patch_conversation co tenant_id session_id change db = (case db_get_conversation_meta co db tenant_id session_id of
     None \<Rightarrow> (None, db)
   | Some m \<Rightarrow> db_upsert_conversation_meta co (cm_tenant m) (cm_session m) None (change m) db)"

definition db_patch_conversation_title :: "conv_env \<Rightarrow> string \<Rightarrow> string \<Rightarrow> string \<Rightarrow> conv_db \<Rightarrow> meta option \<times> conv_db" where
  "db_patch_conversation_title co tenant_id session_id title =
     patch_conversation co tenant_id session_id (\<lambda>m. (meta_turn m)\<lparr>tn_title := str_or (strip title) (cm_title m)\<rparr>)"

definition db_patch_conversation_vault :: "conv_env \<Rightarrow> string \<Rightarrow> string \<Rightarrow> string \<Rightarrow> conv_db \<Rightarrow> meta option \<times> conv_db" where
  "db_patch_conversation_vault co tenant_id session_id vault =
     patch_conversation co tenant_id session_id (\<lambda>m. (meta_turn m)\<lparr>tn_vault := Some (strip vault)\<rparr>)"

definition db_patch_conversation_worker :: "conv_env \<Rightarrow> string \<Rightarrow> string \<Rightarrow> string \<Rightarrow> conv_db \<Rightarrow> meta option \<times> conv_db" where
  "db_patch_conversation_worker co tenant_id session_id worker_id = (let wid = strip worker_id in
     patch_conversation co tenant_id session_id (\<lambda>m. (meta_turn m)\<lparr>tn_last := str_or wid (cm_last m), tn_preferred := Some wid,
       tn_workers := Some (if wid \<noteq> [] \<and> wid \<notin> set (cm_workers m) then cm_workers m @ [wid] else cm_workers m)\<rparr>))"

definition db_list_conversations ::
  "conv_env \<Rightarrow> conv_db \<Rightarrow> string \<Rightarrow> string \<Rightarrow> string \<Rightarrow> string \<Rightarrow> string \<Rightarrow> int \<Rightarrow> int \<Rightarrow> meta list \<times> nat" where
  "db_list_conversations co db tenant_id sec worker actor q limit offset = (let
     tid = tenant_or_default tenant_id; limit = max 1 (min limit 200); offset = max 0 offset;
     sec_f = lower (strip sec); worker_f = strip worker; actor_f = lower (strip actor); q_f = lower (strip q);
     rows = (if co_readable co then with_lits [(tid, 128)] (\<lambda>_. [])
       (\<lambda>vs. rev (sort_key cn_updated (sel_all (\<lambda>r. cn_tenant r = vs ! 0) (cd_convs db)))) else []);
     items = filter (\<lambda>m. (sec_f = [] \<or> lower (cm_section m) = sec_f) \<and> (worker_f = [] \<or> cm_last m = worker_f \<or> worker_f \<in> set (cm_workers m)) \<and>
       (actor_f = [] \<or> contains actor_f (lower (cm_actor m))) \<and>
       (q_f = [] \<or> contains q_f (lower (cm_title m @ '' '' @ cm_preview m)))) (map row_to_meta rows)
   in (take (nat limit) (drop (nat offset) items), length items))"

subsection \<open>Messages\<close>

definition delete_messages :: "conv_env \<Rightarrow> string \<Rightarrow> conv_db \<Rightarrow> py_error + conv_db" where
  "delete_messages co sid db = with_lits [(sid, 128)] (\<lambda>ls. co_odd co ls db)
     (\<lambda>vs. Inr (db\<lparr>cd_messages := del_where (\<lambda>m. cg_conv m = vs ! 0) (cd_messages db)\<rparr>))"

definition db_delete_conversation :: "conv_env \<Rightarrow> string \<Rightarrow> string \<Rightarrow> conv_db \<Rightarrow> bool \<times> conv_db" where
  "db_delete_conversation co tenant_id session_id db = (let tid = tenant_or_default tenant_id; sid = strip session_id in
     if sid = [] then (False, db)
     else execute_hub_write co [delete_messages co sid,
       \<lambda>db. with_lits [(sid, 128)] (\<lambda>ls. co_odd co ls db) (\<lambda>vs. Inr (db\<lparr>cd_artifacts := filter (\<lambda>c. c \<noteq> vs ! 0) (cd_artifacts db)\<rparr>)),
       \<lambda>db. with_lits [(tid, 128), (sid, 128)] (\<lambda>ls. co_odd co ls db)
         (\<lambda>vs. Inr (db\<lparr>cd_convs := del_where (\<lambda>r. cn_tenant r = vs ! 0 \<and> cn_id r = vs ! 1) (cd_convs db)\<rparr>))] db)"

definition clean_message :: "string \<times> string \<Rightarrow> (string \<times> string) list" where
  "clean_message rc = (let role = lower (strip (fst rc)); content = strip (snd rc) in
     if role \<in> {''user'', ''assistant''} \<and> content \<noteq> [] then [(role, content)] else [])"

definition message_before :: "conv_message \<Rightarrow> conv_message \<Rightarrow> bool" where
  "message_before m n \<longleftrightarrow> (let (t, i) = cg_at m; (u, j) = cg_at n in t < u \<or> t = u \<and> (i < j \<or> i = j \<and> cg_id m \<le> cg_id n))"

definition db_load_messages :: "conv_env \<Rightarrow> conv_db \<Rightarrow> string \<Rightarrow> (string \<times> string) list" where
  "db_load_messages co db session_id = (let sid = strip session_id in
     if sid = [] \<or> \<not> co_readable co then []
     else concat (map (\<lambda>m. clean_message (cg_role m, cg_content m)) (with_lits [(sid, 128)] (\<lambda>_. [])
       (\<lambda>vs. foldr (ins_by message_before) (sel_all (\<lambda>m. cg_conv m = vs ! 0) (cd_messages db)) []))))"

definition insert_message :: "conv_env \<Rightarrow> string \<Rightarrow> nat \<Rightarrow> string \<times> string \<Rightarrow> conv_db \<Rightarrow> py_error + conv_db" where
  "insert_message co sid i rc db = with_lits [(''msg_'' @ co_uuid co i, 64), (sid, 128), (fst rc, 32), (snd rc, 100000)] (\<lambda>ls. co_odd co ls db)
     (\<lambda>vs. bindE (ins_row cg_id \<lparr>cg_id = vs ! 0, cg_conv = vs ! 1, cg_role = vs ! 2, cg_content = vs ! 3, cg_at = (co_now co, min i 999999)\<rparr>
       (cd_messages db)) (\<lambda>rows. Inr (db\<lparr>cd_messages := rows\<rparr>)))"

definition db_save_messages :: "conv_env \<Rightarrow> string \<Rightarrow> string \<Rightarrow> (string \<times> string) list \<Rightarrow> conv_db \<Rightarrow> conv_db" where
  "db_save_messages co tenant_id session_id items db = (let tid = tenant_or_default tenant_id; sid = strip session_id;
     rows = concat (map clean_message items)
   in if sid = [] \<or> rows = [] then db
      else snd (execute_hub_write co ([delete_messages co sid] @ map (\<lambda>(i, rc). insert_message co sid i rc) (List.enumerate 0 rows) @
        [\<lambda>db. with_lits [(co_now co, 64), (sid, 128), (tid, 128)] (\<lambda>ls. co_odd co ls db)
          (\<lambda>vs. Inr (db\<lparr>cd_convs := upd_where (\<lambda>r. cn_id r = vs ! 1 \<and> cn_tenant r = vs ! 2)
            (\<lambda>r. r\<lparr>cn_count := int (length rows), cn_updated := vs ! 0\<rparr>) (cd_convs db)\<rparr>))]) db))"

subsection \<open>What a write keeps\<close>

definition conv_odd_fails :: "conv_env \<Rightarrow> bool" where
  "conv_odd_fails co \<longleftrightarrow> (\<forall>ls db. isl (co_odd co ls db))"

lemma conv_lits:
  assumes "with_lits l (\<lambda>ls. co_odd co ls db) k = Inr db'" "conv_odd_fails co"
  obtains vs where "read_lits (map (\<lambda>(v, n). sql_lit v n) l) = Some vs" "k vs = Inr db'"
proof (cases "read_lits (map (\<lambda>(v, n). sql_lit v n) l)")
  case None
  with assms show thesis unfolding with_lits_def Let_def conv_odd_fails_def by (metis option.simps(4) sum.disc(2))
next
  case (Some vs)
  show thesis by (rule that [OF Some]) (use assms(1) Some in \<open>simp add: with_lits_def\<close>)
qed

lemma put_conv_others:
  assumes "r \<in> set (cd_convs db)" "cn_id r = cn_id n"
  shows "\<exists>r' \<in> set (cd_convs (put_conv set_title n db)). cn_id r' = cn_id r \<and> cn_tenant r' = cn_tenant n \<and>
      cn_title r' = (if set_title then cn_title n else cn_title r)"
    "\<forall>r' \<in> set (cd_convs (put_conv set_title n db)). cn_id r' = cn_id n \<longrightarrow> cn_tenant r' = cn_tenant n"
proof -
  let ?f = "\<lambda>old. n\<lparr>cn_created := cn_created old, cn_title := (if set_title then cn_title n else cn_title old)\<rparr>"
  have "has_key cn_id (cn_id n) (cd_convs db)" using assms by (auto simp: has_key_iff)
  then have e: "cd_convs (put_conv set_title n db) = upd_where (\<lambda>x. cn_id x = cn_id n) ?f (cd_convs db)"
    by (simp add: put_conv_def ins_or_update_def)
  have "?f r \<in> set (upd_where (\<lambda>x. cn_id x = cn_id n) ?f (cd_convs db))" using assms by (force simp: set_upd_where image_iff)
  then show "\<exists>r' \<in> set (cd_convs (put_conv set_title n db)). cn_id r' = cn_id r \<and> cn_tenant r' = cn_tenant n \<and>
      cn_title r' = (if set_title then cn_title n else cn_title r)"
    unfolding e using assms(2) by (intro bexI [of _ "?f r"]) simp_all
  show "\<forall>r' \<in> set (cd_convs (put_conv set_title n db)). cn_id r' = cn_id n \<longrightarrow> cn_tenant r' = cn_tenant n"
    unfolding e set_upd_where by auto
qed

lemma fits_lit2: "read_lits (map (\<lambda>(v, n). sql_lit v n) ((t, j) # (s, k) # l)) = Some vs \<Longrightarrow> fits s k \<Longrightarrow> vs ! 1 = s"
  by (auto simp: fits_def split: option.splits)

lemma upsert_writes:
  assumes "db_upsert_conversation_meta co tenant sid given tn db = (m, db')" "conv_odd_fails co" "fits (strip sid) 128"
    "existing = (case given of Some m \<Rightarrow> Some m | None \<Rightarrow> db_get_conversation_meta co db (tenant_or_default tenant) (strip sid))"
  shows "db' = db \<and> (m = None \<or> co_queued co) \<or> (\<exists>n. db' = put_conv (snd (next_title co existing tn)) n db \<and> cn_id n = strip sid \<and>
     (fits (tenant_or_default tenant) 128 \<longrightarrow> cn_tenant n = tenant_or_default tenant))"
proof (cases "\<not> should_index_admin_conversation sid \<or> strip sid = []")
  case True
  then show ?thesis using assms(1) by (auto simp: db_upsert_conversation_meta_def)
next
  case False
  let ?row = "turn_row co (tenant_or_default tenant) (strip sid) existing tn" and ?set = "snd (next_title co existing tn)"
  have r: "cn_id ?row = strip sid" "cn_tenant ?row = tenant_or_default tenant" by (simp_all add: turn_row_def Let_def)
  note h = assms(1) [unfolded db_upsert_conversation_meta_def Let_def assms(4) [symmetric]]
  show ?thesis
  proof (cases "write_conv co ?set ?row db")
    case (Inl e)
    then show ?thesis using h False by (auto simp: execute_hub_write_def split: if_split_asm)
  next
    case (Inr d)
    then have "db' = d" using h False by (simp add: execute_hub_write_def)
    moreover obtain n where "d = put_conv ?set n db" "cn_id n = strip sid" "fits (tenant_or_default tenant) 128 \<longrightarrow> cn_tenant n = tenant_or_default tenant"
    proof -
      from Inr obtain vs where v: "read_lits (map (\<lambda>(v, n). sql_lit v n) [(cn_id ?row, 128), (cn_tenant ?row, 128), (cn_actor ?row, 256), (cn_title ?row, 512),
          (cn_worker ?row, 128), (cn_vault ?row, 1024), (cn_created ?row, 64), (cn_updated ?row, 64), (cn_section ?row, 64), (cn_last ?row, 128),
          (cn_preferred ?row, 128), (workers_text (case cn_workers ?row of None \<Rightarrow> [] | Some ws \<Rightarrow> ws), 4096), (cn_preview ?row, 256), (cn_origin ?row, 64)]) = Some vs"
        and d: "\<exists>n. d = put_conv ?set n db \<and> cn_id n = vs ! 0 \<and> cn_tenant n = vs ! 1"
        unfolding write_conv_def Let_def by (elim conv_lits [OF _ assms(2)]) fastforce
      from fits_lit [OF v] fits_lit2 [OF v] assms(3) r d that show thesis by auto
    qed
    ultimately show ?thesis by blast
  qed
qed

text \<open>
  C31. A title that is not a generic one survives every turn that names none: whether the hub is read, cannot be read (and the
  conversation looks new), or the caller hands in what its cache knows of the conversation, if that title is not a generic one
  either or the turn has no text to derive one from. (A cache that still holds the generic title makes the turn overwrite a
  title given in the meantime.)
\<close>

lemma custom_title_kept:
  assumes "db_upsert_conversation_meta co tenant sid given tn db = (m, db')" "conv_odd_fails co" "fits (strip sid) 128"
    "uniq cn_id (cd_convs db)" "r \<in> set (cd_convs db)" "cn_id r = strip sid" "\<not> is_generic_conversation_title (cn_title r)" "strip (tn_title tn) = []"
    "\<forall>c. given = Some c \<longrightarrow> \<not> is_generic_conversation_title (cm_title c) \<or> title_from_first_message (tn_user tn) = []"
  shows "\<exists>r' \<in> set (cd_convs db'). cn_id r' = cn_id r \<and> cn_title r' = cn_title r"
proof -
  let ?read = "db_get_conversation_meta co db (tenant_or_default tenant) (strip sid)"
  let ?existing = "case given of Some m \<Rightarrow> Some m | None \<Rightarrow> ?read"
  have t: "snd (next_title co ?existing tn) = False" if "given = None"
  proof (cases ?read)
    case None
    then show ?thesis using assms(8) that by (auto simp: next_title_def Let_def)
  next
    case (Some m)
    then obtain r' where r': "r' \<in> set (cd_convs db)" "cn_id r' = strip sid" "m = row_to_meta r'"
      using assms(3) by (auto simp: db_get_conversation_meta_def Let_def with_lits_def fits_def split: if_split_asm option.splits dest!: sel_one_Some)
    then have "r' = r" using uniq_eq [OF assms(4) _ assms(5)] assms(6) by simp
    then have "\<not> is_generic_conversation_title (cm_title m)" using assms(7) r'(3)
      by (simp add: row_to_meta_def is_generic_conversation_title_def)
    then show ?thesis using assms(8) Some that by (simp add: next_title_def Let_def)
  qed
  moreover have "snd (next_title co ?existing tn) = False" if "given = Some c" for c
    using that assms(8,9) by (auto simp: next_title_def Let_def)
  ultimately have t: "snd (next_title co ?existing tn) = False" by (cases given) auto
  from upsert_writes [OF assms(1-3) refl] show ?thesis
  proof (elim disjE exE conjE)
    fix n assume n: "db' = put_conv (snd (next_title co ?existing tn)) n db" "cn_id n = strip sid"
    have "cn_id r = cn_id n" using n(2) assms(6) by simp
    from put_conv_others(1) [OF assms(5) this, of False] n(1) t show ?thesis by auto
  qed (use assms(5) in auto)
qed

text \<open>
  C32. A conversation belongs to whoever wrote to it last: a turn of another tenant that names its identifier takes the
  row away, and the tenant that began it does not find it any more.
\<close>

lemma conversation_taken_over:
  assumes "db_upsert_conversation_meta co tenant sid None tn db = (Some m, db')" "conv_odd_fails co" "\<not> co_queued co"
    "fits (strip sid) 128" "fits (tenant_or_default tenant) 128" "r \<in> set (cd_convs db)" "cn_id r = strip sid"
    "fits other 128" "other \<noteq> tenant_or_default tenant" "tenant_or_default other = other"
  shows "(\<exists>r' \<in> set (cd_convs db'). cn_id r' = strip sid \<and> cn_tenant r' = tenant_or_default tenant) \<and>
    db_get_conversation_meta co db' other sid = None"
proof -
  from upsert_writes [OF assms(1,2,4) refl] assms(3) obtain set_title n where n: "db' = put_conv set_title n db" "cn_id n = strip sid"
      "cn_tenant n = tenant_or_default tenant" using assms(5) by auto
  have i: "cn_id r = cn_id n" using n(2) assms(7) by simp
  note p = put_conv_others [OF assms(6) i, of set_title]
  have "sel_one (\<lambda>r. cn_tenant r = other \<and> cn_id r = strip sid) (cd_convs db') = None"
    using p(2) n assms(9) by (auto simp: sel_one_None)
  then have "db_get_conversation_meta co db' other sid = None"
    using assms(4,8,10) by (simp add: db_get_conversation_meta_def Let_def with_lits_def fits_def)
  then show ?thesis using p(1) n assms(7) by auto
qed

text \<open>
  Deleting a conversation under the wrong tenant keeps its row and removes all its messages and artifacts.
\<close>

lemma foreign_delete_empties:
  assumes "db_delete_conversation co tenant sid db = (True, db')" "conv_odd_fails co" "\<not> co_queued co" "fits (strip sid) 128"
    "fits (tenant_or_default tenant) 128"
  shows "(\<forall>m \<in> set (cd_messages db'). cg_conv m \<noteq> strip sid) \<and> strip sid \<notin> set (cd_artifacts db') \<and>
    set (cd_convs db') = {r \<in> set (cd_convs db). \<not> (cn_tenant r = tenant_or_default tenant \<and> cn_id r = strip sid)}"
proof -
  have l: "with_lits [(strip sid, 128)] other k = k [strip sid]"
    "with_lits [(tenant_or_default tenant, 128), (strip sid, 128)] other k = k [tenant_or_default tenant, strip sid]"
    for other and k :: "string list \<Rightarrow> py_error + conv_db" using assms(4,5) by (simp_all add: with_lits_fits)
  have n: "strip sid \<noteq> []" using assms(1) by (auto simp: db_delete_conversation_def Let_def)
  then show ?thesis using assms(1,3)
    by (auto simp: db_delete_conversation_def Let_def execute_hub_write_def delete_messages_def l)
qed

subsection \<open>Messages are read back\<close>

lemma clean_message_again: "m \<in> set (clean_message rc) \<Longrightarrow> clean_message m = [m]"
proof -
  assume "m \<in> set (clean_message rc)"
  then have m: "m = (lower (strip (fst rc)), strip (snd rc))" "lower (strip (fst rc)) \<in> {''user'', ''assistant''}" "strip (snd rc) \<noteq> []"
    by (auto simp: clean_message_def Let_def split: if_split_asm)
  have "strip ''user'' = ''user''" "strip ''assistant'' = ''assistant''" "lower ''user'' = ''user''" "lower ''assistant'' = ''assistant''"
    by code_simp+
  with m show ?thesis by (auto simp: clean_message_def)
qed

lemma insert_all:
  assumes "\<forall>rc \<in> set rows. fits (fst rc) 32 \<and> fits (snd rc) 100000" "fits sid 128" "\<forall>i < n. fits (''msg_'' @ co_uuid co i) 64" "inj_on (co_uuid co) {..<n}"
    "\<forall>i m. k \<le> i \<longrightarrow> i < n \<longrightarrow> m \<in> set (cd_messages db) \<longrightarrow> cg_id m \<noteq> ''msg_'' @ co_uuid co i" "k + length rows \<le> n"
  shows "run_statements (map (\<lambda>(i, rc). insert_message co sid i rc) (List.enumerate k rows) @ sts) db = run_statements sts
    (db\<lparr>cd_messages := cd_messages db @ map (\<lambda>(i, rc). \<lparr>cg_id = ''msg_'' @ co_uuid co i, cg_conv = sid, cg_role = fst rc, cg_content = snd rc,
       cg_at = (co_now co, min i 999999)\<rparr>) (List.enumerate k rows)\<rparr>)"
  using assms(1,5,6)
proof (induction rows arbitrary: k db)
  case (Cons rc rows)
  let ?new = "\<lparr>cg_id = ''msg_'' @ co_uuid co k, cg_conv = sid, cg_role = fst rc, cg_content = snd rc, cg_at = (co_now co, min k 999999)\<rparr>"
  let ?db = "db\<lparr>cd_messages := cd_messages db @ [?new]\<rparr>"
  have l: "with_lits [(''msg_'' @ co_uuid co k, 64), (sid, 128), (fst rc, 32), (snd rc, 100000)] other f =
      f [''msg_'' @ co_uuid co k, sid, fst rc, snd rc]" for other and f :: "string list \<Rightarrow> py_error + conv_db"
    using assms(2,3) Cons.prems(1,3) by (intro with_lits_fits [THEN trans]) simp_all
  have "insert_message co sid k rc db = Inr ?db"
    unfolding insert_message_def l using Cons.prems(2,3) by (auto simp: ins_row_def has_key_iff)
  moreover have "\<forall>i m. Suc k \<le> i \<longrightarrow> i < n \<longrightarrow> m \<in> set (cd_messages ?db) \<longrightarrow> cg_id m \<noteq> ''msg_'' @ co_uuid co i"
    using Cons.prems(2,3) by (auto dest: inj_onD [OF assms(4)])
  ultimately show ?case using Cons.IH [of "Suc k" ?db] Cons.prems(1,3) by simp
qed simp

lemma foldr_ins_by: "sorted_wrt le xs \<Longrightarrow> foldr (ins_by le) xs [] = xs"
proof (induction xs)
  case (Cons x xs)
  then show ?case by (cases xs) simp_all
qed simp

definition stored_rows :: "conv_env \<Rightarrow> string \<Rightarrow> (string \<times> string) list \<Rightarrow> conv_message list" where
  "stored_rows co sid rows = map (\<lambda>(i, rc). \<lparr>cg_id = ''msg_'' @ co_uuid co i, cg_conv = sid, cg_role = fst rc, cg_content = snd rc,
     cg_at = (co_now co, min i 999999)\<rparr>) (List.enumerate 0 rows)"

lemma stored_rows_sorted: "length rows \<le> 999999 \<Longrightarrow> sorted_wrt message_before (stored_rows co sid rows)"
  by (auto simp: stored_rows_def sorted_wrt_iff_nth_less nth_enumerate_eq message_before_def)

lemma stored_rows_clean: "\<forall>rc \<in> set rows. clean_message rc = [rc] \<Longrightarrow>
    concat (map (\<lambda>m. clean_message (cg_role m, cg_content m)) (stored_rows co sid rows)) = rows"
proof -
  assume a: "\<forall>rc \<in> set rows. clean_message rc = [rc]"
  have "concat (map (\<lambda>m. clean_message (cg_role m, cg_content m)) (map (\<lambda>(i, rc). \<lparr>cg_id = ''msg_'' @ co_uuid co i, cg_conv = sid,
      cg_role = fst rc, cg_content = snd rc, cg_at = (co_now co, min i 999999)\<rparr>) (List.enumerate k rows))) = rows" for k
    using a by (induction rows arbitrary: k) simp_all
  then show ?thesis by (simp add: stored_rows_def)
qed

text \<open>
  C21. A history that is saved is read back: the messages that have a role and a text, in their order, whatever was stored
  before; a history without any such message changes nothing, and the old one is read. At most 999999 messages, texts that fit
  their literals (100000 characters, a doubled quote counting twice), fresh distinct identifiers, and a hub that can be read.
\<close>

lemma saved_messages_load:
  assumes "rows = concat (map clean_message items)" "length rows \<le> 999999" "strip sid \<noteq> []"
    "\<forall>rc \<in> set rows. fits (fst rc) 32 \<and> fits (snd rc) 100000" "fits (strip sid) 128" "fits (tenant_or_default tenant) 128" "fits (co_now co) 64"
    "\<forall>i < length rows. fits (''msg_'' @ co_uuid co i) 64" "inj_on (co_uuid co) {..<length rows}"
    "\<forall>i < length rows. \<forall>m \<in> set (cd_messages db). cg_id m \<noteq> ''msg_'' @ co_uuid co i" "co_readable co"
  shows "(if rows = [] then db_save_messages co tenant sid items db = db
    else db_load_messages co (db_save_messages co tenant sid items db) sid = rows)"
proof (cases "rows = []")
  case True
  then show ?thesis using assms(1) by (simp add: db_save_messages_def Let_def)
next
  case False
  let ?sid = "strip sid"
  let ?db0 = "db\<lparr>cd_messages := del_where (\<lambda>m. cg_conv m = ?sid) (cd_messages db)\<rparr>"
  have l: "with_lits [(?sid, 128)] other k = k [?sid]" for other and k :: "string list \<Rightarrow> 'b"
    using assms(5) by (simp add: with_lits_fits)
  have u: "with_lits [(co_now co, 64), (?sid, 128), (tenant_or_default tenant, 128)] other k = k [co_now co, ?sid, tenant_or_default tenant]"
    for other and k :: "string list \<Rightarrow> py_error + conv_db" using assms(5-7) by (simp add: with_lits_fits)
  have d: "delete_messages co ?sid db = Inr ?db0" by (simp add: delete_messages_def l)
  have "\<forall>i m. 0 \<le> i \<longrightarrow> i < length rows \<longrightarrow> m \<in> set (cd_messages ?db0) \<longrightarrow> cg_id m \<noteq> ''msg_'' @ co_uuid co i" using assms(10) by simp
  note ins = insert_all [OF assms(4,5,8,9) this, simplified]
  have "cd_messages (db_save_messages co tenant sid items db) = cd_messages ?db0 @ stored_rows co ?sid rows"
    using False assms(3) by (simp add: db_save_messages_def Let_def assms(1) [symmetric] execute_hub_write_def d ins u stored_rows_def)
  moreover have "sel_all (\<lambda>m. cg_conv m = ?sid) (cd_messages ?db0 @ stored_rows co ?sid rows) = stored_rows co ?sid rows"
    by (auto simp: sel_all_def del_where_def stored_rows_def filter_empty_conv intro!: filter_True)
  moreover have "\<forall>rc \<in> set rows. clean_message rc = [rc]" using assms(1) clean_message_again by auto
  ultimately show ?thesis
    using False assms(3,11) foldr_ins_by [OF stored_rows_sorted [OF assms(2)]]
    by (simp add: db_load_messages_def Let_def l stored_rows_clean)
qed

subsection \<open>Tried on one conversation\<close>

definition conv_env0 :: conv_env where
  "conv_env0 = \<lparr>co_readable = True, co_queued = False, co_now = ''2026-01-01T00:00:00Z'', co_uuid = nat_str, co_odd = \<lambda>_ _. Inl (ValueError [])\<rparr>"

definition conv0 :: conv where
  "conv0 = \<lparr>cn_id = ''admin-conv-1'', cn_tenant = ''t'', cn_actor = ''ana@x'', cn_title = ''Invoices'', cn_worker = [], cn_vault = [], cn_created = [],
     cn_updated = [], cn_section = [], cn_last = [], cn_preferred = [], cn_workers = Some [], cn_preview = [], cn_count = 0, cn_origin = []\<rparr>"

definition conv_db0 :: conv_db where
  "conv_db0 = \<lparr>cd_convs = [conv0], cd_messages = [\<lparr>cg_id = ''m'', cg_conv = ''admin-conv-1'', cg_role = ''user'', cg_content = ''hi'', cg_at = ([], 0)\<rparr>], cd_artifacts = []\<rparr>"

definition hello_turn :: turn where
  "hello_turn = \<lparr>tn_actor = [], tn_section = [], tn_last = [], tn_preferred = None, tn_workers = None, tn_user = ''hello'', tn_assistant = [],
     tn_count = None, tn_title = [], tn_vault = None, tn_origin = []\<rparr>"

lemma conv_facts:
  "conv_odd_fails conv_env0" "fits (strip ''admin-conv-1'') 128" "strip ''admin-conv-1'' = ''admin-conv-1''"
  "fits (tenant_or_default ''u'') 128" "tenant_or_default ''u'' = ''u''" "fits ''t'' 128" "tenant_or_default ''t'' = ''t''"
proof -
  have s: "strip ''admin-conv-1'' = ''admin-conv-1''" "tenant_or_default ''u'' = ''u''" "tenant_or_default ''t'' = ''t''" by code_simp+
  have q: "list_all (\<lambda>s. quote_char \<notin> set s) [''admin-conv-1'', ''u'', ''t'']" by code_simp
  show "fits (strip ''admin-conv-1'') 128" "fits (tenant_or_default ''u'') 128" "fits ''t'' 128" unfolding s using q by (simp_all add: fits_plain)
  show "strip ''admin-conv-1'' = ''admin-conv-1''" "tenant_or_default ''u'' = ''u''" "tenant_or_default ''t'' = ''t''" by (rule s)+
qed (simp add: conv_odd_fails_def conv_env0_def)

lemma custom_title_kept_witness:
  "\<exists>m db' r'. db_upsert_conversation_meta conv_env0 ''t'' ''admin-conv-1'' None hello_turn conv_db0 = (m, db') \<and> r' \<in> set (cd_convs db') \<and> cn_title r' = ''Invoices''"
proof -
  obtain m db' where q: "db_upsert_conversation_meta conv_env0 ''t'' ''admin-conv-1'' None hello_turn conv_db0 = (m, db')" by fastforce
  have g: "\<not> is_generic_conversation_title (cn_title conv0)" "strip (tn_title hello_turn) = []" "cn_id conv0 = strip ''admin-conv-1''" "cn_title conv0 = ''Invoices''" by code_simp+
  have d: "uniq cn_id (cd_convs conv_db0)" "conv0 \<in> set (cd_convs conv_db0)" by (simp_all add: conv_db0_def uniq_def)
  from custom_title_kept [OF q conv_facts(1,2) d g(3,1,2)] q g(4) show ?thesis by auto
qed

lemma conversation_taken_over_witness:
  "\<exists>m db'. db_upsert_conversation_meta conv_env0 ''u'' ''admin-conv-1'' None hello_turn conv_db0 = (Some m, db') \<and>
     db_get_conversation_meta conv_env0 db' ''t'' ''admin-conv-1'' = None"
proof -
  obtain m db' where q: "db_upsert_conversation_meta conv_env0 ''u'' ''admin-conv-1'' None hello_turn conv_db0 = (m, db')" by fastforce
  have "fst (db_upsert_conversation_meta conv_env0 ''u'' ''admin-conv-1'' None hello_turn conv_db0) \<noteq> None" by code_simp
  then obtain n where q: "db_upsert_conversation_meta conv_env0 ''u'' ''admin-conv-1'' None hello_turn conv_db0 = (Some n, db')" using q by auto
  have d: "conv0 \<in> set (cd_convs conv_db0)" "cn_id conv0 = strip ''admin-conv-1''" "\<not> co_queued conv_env0" "''t'' \<noteq> tenant_or_default ''u''"
    by (simp_all add: conv_db0_def conv0_def conv_env0_def conv_facts)
  from conversation_taken_over [OF q conv_facts(1) d(3) conv_facts(2,4) d(1,2) conv_facts(6) d(4) conv_facts(7)] q show ?thesis by blast
qed

lemma foreign_delete_empties_witness:
  "\<exists>db'. db_delete_conversation conv_env0 ''u'' ''admin-conv-1'' conv_db0 = (True, db') \<and> cd_messages db' = [] \<and> conv0 \<in> set (cd_convs db')"
proof -
  have d: "cn_tenant conv0 \<noteq> ''u''" "\<not> co_queued conv_env0" by (simp_all add: conv0_def conv_env0_def)
  have l: "with_lits [(''admin-conv-1'', 128)] other k = k [''admin-conv-1'']"
    "with_lits [(''u'', 128), (''admin-conv-1'', 128)] other k = k [''u'', ''admin-conv-1'']"
    for other and k :: "string list \<Rightarrow> py_error + conv_db" using conv_facts by (simp_all add: with_lits_fits)
  obtain db' where q: "db_delete_conversation conv_env0 ''u'' ''admin-conv-1'' conv_db0 = (True, db')"
    by (auto simp: db_delete_conversation_def Let_def conv_facts execute_hub_write_def delete_messages_def l d)
  from foreign_delete_empties [OF q conv_facts(1) d(2) conv_facts(2,4)]
  have m: "\<forall>m \<in> set (cd_messages db'). cg_conv m \<noteq> ''admin-conv-1''" and c: "conv0 \<in> set (cd_convs db')"
    using d by (simp_all add: conv_facts conv_db0_def)
  have s: "set (cd_messages db') \<subseteq> set (cd_messages conv_db0)" using q
    by (auto simp: db_delete_conversation_def Let_def conv_facts execute_hub_write_def delete_messages_def l d del_where_def)
  have "set (cd_messages db') = {}"
  proof (rule equals0I)
    fix x assume i: "x \<in> set (cd_messages db')"
    from subsetD [OF s i] have "cg_conv x = ''admin-conv-1''" by (simp add: conv_db0_def)
    with m i show False by simp
  qed
  then show ?thesis using q c by auto
qed

lemma saved_messages_load_witness:
  "db_load_messages conv_env0 (db_save_messages conv_env0 ''t'' ''admin-conv-1'' [(''User'', '' one ''), (''tool'', ''x''), (''assistant'', ''two'')] conv_db0) ''admin-conv-1'' =
     [(''user'', ''one''), (''assistant'', ''two'')]"
proof -
  let ?items = "[(''User'', '' one ''), (''tool'', ''x''), (''assistant'', ''two'')]" and ?rows = "[(''user'', ''one''), (''assistant'', ''two'')]"
  have c: "?rows = concat (map clean_message ?items)" by code_simp
  have q: "list_all (\<lambda>s. quote_char \<notin> set s) [''user'', ''one'', ''assistant'', ''two'', ''2026-01-01T00:00:00Z'', ''msg_0'', ''msg_1'']" by code_simp
  have n: "nat_str 0 = ''0''" "nat_str 1 = ''1''" by code_simp+
  have f: "\<forall>rc \<in> set ?rows. fits (fst rc) 32 \<and> fits (snd rc) 100000" "fits (co_now conv_env0) 64"
    using q by (auto simp: conv_env0_def intro!: fits_plain)
  have lt: "i < length ?rows \<longleftrightarrow> i = 0 \<or> i = 1" for i by auto
  have i: "\<forall>i < length ?rows. fits (''msg_'' @ co_uuid conv_env0 i) 64"
    "\<forall>i < length ?rows. \<forall>m \<in> set (cd_messages conv_db0). cg_id m \<noteq> ''msg_'' @ co_uuid conv_env0 i"
    unfolding lt using q by (auto simp: conv_env0_def conv_db0_def n [simplified] intro!: fits_plain)
  have j: "inj_on (co_uuid conv_env0) {..<length ?rows}" by (simp add: conv_env0_def inj_on_def nat_str_inj)
  have r: "length ?rows \<le> 999999" "strip ''admin-conv-1'' \<noteq> []" "co_readable conv_env0"
    by (simp_all add: conv_facts conv_env0_def)
  have t: "fits (tenant_or_default ''t'') 128" by (simp add: conv_facts)
  from saved_messages_load [OF c r(1,2) f(1) conv_facts(2) t f(2) i(1) j i(2) r(3)] show ?thesis by simp
qed

end
