(* ===== verification/Spec2Isabelle.thy ===== *)
theory Spec2Isabelle
  imports Kanban Worlds PromptPolicies PolicyResolver Hitl VaultPaths VaultRegistry Access Runtime Workspace DbWriter Reports Migrations Login WriteQueue RuntimeSettings ContextBudget Knowledge McpConnectors WorkerLife GatewayEdge ContextMonitor CronSchedule Conversations
begin

text \<open>
  DuckClaw is a console for teams of AI agents. A gateway (FastAPI) serves the console and the chats, a single writer process
  (db-writer) owns the DuckDB databases, and agents read what the console stores. This library models the part of the Python
  code that decides: the write path from the producers to the typed handlers, the tables they keep, the readers of these tables
  in the gateway and the agents, and the guards in front of them. Paths below are relative to the repository;
  \<open>S\<close> is \<open>packages/shared/src/duckclaw\<close>, \<open>A\<close> is \<open>packages/agents/src/duckclaw\<close>, \<open>G\<close> is \<open>services/api-gateway\<close>.

  \<^bold>\<open>How the parts work together.\<close> A request passes the middlewares (\<open>GatewayEdge\<close>) and, for the console, the login (\<open>Login\<close>,
  \<open>ConsoleUsers\<close>, \<open>SessionStore\<close>). A change becomes a command, which the producer puts on a Redis queue or, in the Spawn profile,
  executes itself (\<open>WriteQueue\<close>). The db-writer takes messages from the queue under a lease (\<open>ReliableQueue\<close>), looks the type up
  (\<open>CommandRegistry\<close>), checks the vault and the grants (\<open>VaultPaths\<close>, \<open>Access\<close>) and runs the handler in one transaction guarded by
  a ledger of finished tasks (\<open>DbWriter\<close>). The handlers are the component theories; the schema they rely on is set up by
  \<open>Migrations\<close>. Readers are \<open>PolicyResolver\<close>, \<open>RuntimeSettings\<close>, the search of \<open>Knowledge\<close>, the reads of \<open>McpConnectors\<close> and of
  \<open>WorkerStore\<close>, \<open>Conversations\<close>, and, at the agent, \<open>ContextBudget\<close>, \<open>ContextMonitor\<close> and \<open>CronSchedule\<close>.

  \<^bold>\<open>Foundations.\<close>
  \<^item> \<open>Prelude\<close>: errors as values (\<open>py_error + 'a\<close>, sequenced by \<open>bindE\<close>, \<open>mapE\<close>, \<open>forE\<close>), the string methods of Python on code
    points below 256, decimal numbers.
  \<^item> \<open>PyVal\<close>: decoded JSON (\<open>pyval\<close>), \<open>dict.get\<close>, \<open>x or d\<close>, \<open>str\<close>, \<open>int\<close>, \<open>json.dumps\<close>.
  \<^item> \<open>Tables\<close>: a table is the list of its rows; INSERT, ON CONFLICT, UPDATE, DELETE and the SELECTs used; the invariant of unique
    keys; the locale \<open>keyed_store\<close> (the map laws of a table addressed by its key) and the step relation of scoped changes.

  \<^bold>\<open>The write path.\<close>
  \<^item> \<open>WriteQueue\<close> (\<open>S/db_write_queue.py\<close>, \<open>gateway_enqueue.py\<close>, \<open>spawn_profile.py\<close>): for a task not seen before, executing a
    typed command inline leaves the databases and the answer that the queue would.
  \<^item> \<open>ReliableQueue\<close> (\<open>services/db-writer/db_writer_ops.py\<close>): queue, consumer, reclaimer, crashes and handlers that raise or are
    cancelled as an inductive relation with one step per Redis command; conservation of messages by rule induction; from every
    reachable state the queue can be emptied with each message handled.
  \<^item> \<open>DbWriter\<close>, \<open>CommandRegistry\<close> (\<open>services/db-writer/main.py\<close>, \<open>S/write_handlers/registry.py\<close>): the locale \<open>task_memory\<close> says
    what a store that remembers finished tasks for a time promises; it is interpreted on \<open>writer_step\<close>, the whole handling of a
    message, a restart of the process or the loss of the Redis marks, and gives that executions of a task on a database are a
    retention of the ledger apart and that a redelivery before changes nothing.
  \<^item> \<open>Migrations\<close> (\<open>S/schema_migrations.py\<close>): an interrupted run and a second one equal one run.

  \<^bold>\<open>Handlers and tables\<close> (\<open>S/write_handlers\<close>).
  \<^item> \<open>Kanban\<close>, \<open>Worlds\<close>, \<open>Workspace\<close>, \<open>Hitl\<close>, \<open>Productivity\<close>, \<open>Runtime\<close>, \<open>PromptPolicies\<close>, \<open>Reports\<close> with \<open>ReportState\<close>, \<open>ReportPreview\<close>
    and \<open>DocxContent\<close> (\<open>S/report_engine\<close>): one definition per handler with its guards in the order of the code; invariants,
    isolation of tenants, authorisation, what an update leaves alone. The table of \<open>Runtime\<close> is refined to a map.
  \<^item> \<open>VaultPaths\<close>, \<open>VaultRegistry\<close> (\<open>S/vaults.py\<close>) and \<open>Access\<close> (\<open>S/shared_db_grants.py\<close>): names and paths of vaults, the registry of a
    user's vaults, who may open which file.
  \<^item> \<open>Knowledge\<close>, \<open>KnowledgeText\<close> (\<open>write_handlers/knowledge.py\<close>, \<open>A/forge/rag\<close>): from a text to chunks, to rows, to search results.
  \<^item> \<open>McpConnectors\<close> (\<open>S/mcp_connector_presets.py\<close>, \<open>mcp_connector_defaults.py\<close>, \<open>admin_mcp_connectors.py\<close>): presets, connectors, grants,
    and the resolution of a connector's token with the cache, the age and the refresh of OAuth tokens, whose HTTP exchange is a
    parameter (\<open>oauth_env\<close>).
  \<^item> \<open>WorkerStore\<close>, \<open>WorkerCatalog\<close>, \<open>WorkerGuarantees\<close>, \<open>WorkerLife\<close> (\<open>S/admin_worker_catalog.py\<close>, \<open>write_handlers/workers.py\<close>,
    \<open>S/catalog_prompt_sync.py\<close>): workers with their versions, contexts, skills, capabilities and prompts; a calculus (\<open>keeps\<close>) with
    its rule collection carries the invariant through the handlers.

  \<^bold>\<open>Readers and guards.\<close>
  \<^item> \<open>PolicyResolver\<close> (\<open>A/prompt_policies\<close>): which prompt an agent gets.
  \<^item> \<open>RuntimeSettings\<close>, \<open>IntegrationCatalog\<close> (\<open>S/admin_runtime_settings.py\<close>, \<open>integration_catalog.py\<close> and their clients): the
    precedence of the rows of a setting; the locale \<open>settings_writer\<close> is interpreted by both writers of the table.
  \<^item> \<open>ConsoleUsers\<close>, \<open>SessionStore\<close>, \<open>Login\<close> (\<open>S/admin_console_users.py\<close>, \<open>S/lite_session_store.py\<close>, \<open>G/core/admin_auth.py\<close>, the routes
    in \<open>G/routers/admin_domains/auth.py\<close>): accounts, sessions, delays and limits; the locale \<open>session_backend\<close> is interpreted by the
    store of the process.
  \<^item> \<open>GatewayEdge\<close> (\<open>G/core/middleware.py\<close>, \<open>telegram_chunking.py\<close>): the limits and keys every request meets; the cutting of replies.
  \<^item> \<open>Conversations\<close> (\<open>G/core/admin_conversations_db.py\<close>): rows, titles and messages of the chats in the console.
  \<^item> \<open>ContextBudget\<close>, \<open>ContextMonitor\<close> (\<open>A/workers\<close>): what of a history reaches the model.
  \<^item> \<open>CronSchedule\<close> (\<open>A/runtime/scheduling/cron_wall_schedule.py\<close>, \<open>services/heartbeat/main.py\<close>): when a schedule fires, over runs
    (\<open>wall_run\<close>) in which the list a poll enqueues is stored later or never.

  \<^bold>\<open>Conventions.\<close> A definition has the name of the function it models, without its leading underscore; a part of a long
  function has a name of its own. A row is a \<open>record\<close> with a two-letter prefix, a database the record of its tables. What the
  code takes from outside (environment, clock, random identifiers, file system, time zones, model calls, hashes) is a field of an
  environment record. An SQL text is a list of values that go through \<open>sql_lit\<close> as in the source: a value cut in the middle of a
  doubled quote opens the statement, and its outcome is then a parameter (\<open>odd\<close>), of which theorems assume that it fails. Each
  claim is numbered \<open>C1\<close>, \<open>C2\<close>, ... in the text before it, and a claim with hypotheses is followed by a witness that applies it
  to a concrete input. Claims whose text reports what goes wrong describe the code as it is.

  \<^bold>\<open>Bounds and termination.\<close> Loops are total functions, by structural recursion or a \<open>measure\<close> (the search for an unused schedule
  name ends because the names taken are finite). Two loops have fuel: \<open>free_vault_id\<close> is given one step per row of the registry,
  and \<open>create_vault_fresh\<close> shows that this suffices; \<open>scan_all\<close> is given pages, and \<open>scan_complete\<close> says how many suffice. INTEGER
  and BIGINT columns reject what does not fit, and \<open>datetime\<close> what fits no C int; Python's own integers are unbounded.

  \<^bold>\<open>Not modelled.\<close> Code around calls of a language model, of Telegram, of speech, image and browser services, the LangGraph graphs, the
  rendering of documents, the command line and the installers, the web front end, caches in Redis that repeat the hub, log lines,
  and characters from code point 256 on. The two handlers that import packages and templates of workers from files are left out. Concurrency inside one process is
  modelled only where the code depends on it, in \<open>ReliableQueue\<close> and for the cache of OAuth tokens.
\<close>

end
